(* ===== verification/Emane_Prelude.thy ===== *)
theory Emane_Prelude
  imports Main "HOL-Library.Word" "HOL-Library.Monad_Syntax"
begin

text \<open>
  The shared part of the development: the machine types of the Rust code, the parts of the
  Rust language and standard library the modelled code uses (slices, checked and saturating
  integer arithmetic, big-endian byte conversions, IEEE-754 classification of bit patterns),
  and the interfaces between a wire format and its clients.

  Conventions used by every theory:
  \<^item> \<open>usize\<close> values are \<open>nat\<close>; where the code uses a checked or
    saturating operation the 64-bit bound is written out;
  \<^item> an operation that may panic (a slice index out of range, a failed \<open>unwrap\<close>)
    returns a \<open>'a panics\<close>, that is \<open>'a option\<close> with \<open>None\<close> for the
    panic; a Rust \<open>Option\<close> result is an inner option, so that a decoder has the type
    \<open>byte list \<Rightarrow> 'a option panics\<close>;
  \<^item> \<open>i64\<close> values are 64-bit words read with \<open>sint\<close>, so the
    \<open>as u64\<close> casts of the source are the identity;
  \<^item> \<open>f64\<close> and \<open>f32\<close> values are their bit patterns.
\<close>

unbundle bit_operations_syntax

named_theorems codec_simps \<open>unfolding of encoders and decoders to bytes\<close>
named_theorems slice_simps \<open>reading and writing at known offsets of byte buffers\<close>


section \<open>Machine types\<close>

type_synonym byte = "8 word"
type_synonym u8 = "8 word"
type_synonym u16 = "16 word"
type_synonym u32 = "32 word"
type_synonym u64 = "64 word"
type_synonym i32 = "32 word"
type_synonym i64 = "64 word"
type_synonym f32 = "32 word"
type_synonym f64 = "64 word"
type_synonym 'a panics = "'a option"

abbreviation (input) panic :: "'a panics" where
  "panic \<equiv> None"


section \<open>Results\<close>

text \<open>A computation that may panic, return \<open>Err\<close> or return \<open>Ok\<close>; the
  \<open>?\<close> operator is \<open>res_bind\<close>, a loop whose body may return early is
  \<open>res_fold\<close>.\<close>

type_synonym ('e, 'a) result_panics = "('e + 'a) panics"

definition ok_res :: "'a \<Rightarrow> ('e, 'a) result_panics" where
  "ok_res x = Some (Inr x)"

definition err_res :: "'e \<Rightarrow> ('e, 'a) result_panics" where
  "err_res e = Some (Inl e)"

definition res_bind :: "('e, 'a) result_panics \<Rightarrow> ('a \<Rightarrow> ('e, 'b) result_panics) \<Rightarrow> ('e, 'b) result_panics" where
  "res_bind m f = (case m of None \<Rightarrow> None | Some (Inl e) \<Rightarrow> Some (Inl e) | Some (Inr x) \<Rightarrow> f x)"

fun res_fold :: "('s \<Rightarrow> 'a \<Rightarrow> ('e, 's) result_panics) \<Rightarrow> 's \<Rightarrow> 'a list \<Rightarrow> ('e, 's) result_panics" where
  "res_fold f s [] = ok_res s"
| "res_fold f s (x # xs) = res_bind (f s x) (\<lambda>s. res_fold f s xs)"

lemma res_bind_ok [simp]: "res_bind (ok_res x) f = f x"
  by (simp add: res_bind_def ok_res_def)

lemma res_bind_err [simp]: "res_bind (err_res e) f = err_res e"
  by (simp add: res_bind_def err_res_def)

lemma ok_res_inject [simp]: "ok_res x = ok_res y \<longleftrightarrow> x = y"
  by (simp add: ok_res_def)

lemma projr_ok_res [simp]: "projr (the (ok_res x)) = x"
  by (simp add: ok_res_def)

lemma ok_neq_err [simp]: "ok_res x \<noteq> err_res e" "err_res e \<noteq> ok_res x"
    "ok_res x \<noteq> None" "err_res e \<noteq> None" "None \<noteq> ok_res x" "None \<noteq> err_res e"
  by (simp_all add: ok_res_def err_res_def)

lemma res_bind_ok_iff: "res_bind m f = ok_res y \<longleftrightarrow> (\<exists>x. m = ok_res x \<and> f x = ok_res y)"
  by (auto simp: res_bind_def ok_res_def split: option.splits sum.splits)

text \<open>A property of the loop state that every step keeps, for steps that do not panic.\<close>

definition res_ok :: "('a \<Rightarrow> bool) \<Rightarrow> ('e, 'a) result_panics \<Rightarrow> bool" where
  "res_ok P r = (case r of None \<Rightarrow> False | Some (Inl e) \<Rightarrow> True | Some (Inr x) \<Rightarrow> P x)"

lemma res_ok_simps [simp]: "res_ok P (ok_res x) = P x" "res_ok P (err_res e)" "\<not> res_ok P None"
  by (simp_all add: res_ok_def ok_res_def err_res_def)

lemma res_ok_bind: "res_ok P m \<Longrightarrow> (\<And>x. P x \<Longrightarrow> res_ok Q (f x)) \<Longrightarrow> res_ok Q (res_bind m f)"
  by (cases m) (auto simp: res_ok_def res_bind_def split: sum.split_asm)

lemma res_ok_fold:
  "P s \<Longrightarrow> (\<And>s x. P s \<Longrightarrow> x \<in> set xs \<Longrightarrow> res_ok P (f s x)) \<Longrightarrow> res_ok P (res_fold f s xs)"
  by (induction xs arbitrary: s) (auto intro: res_ok_bind)

lemma res_ok_weaken: "res_ok P r \<Longrightarrow> (\<And>x. P x \<Longrightarrow> Q x) \<Longrightarrow> res_ok Q r"
  by (auto simp: res_ok_def split: option.splits sum.splits)

lemma res_okD: "res_ok P r \<Longrightarrow> r = ok_res x \<Longrightarrow> P x"
  by (simp add: res_ok_def ok_res_def)


section \<open>Big-endian byte strings\<close>

text \<open>\<open>to_be_bytes\<close> and \<open>from_be_bytes\<close> of the integer types.\<close>

primrec be_bytes :: "nat \<Rightarrow> 'a::len word \<Rightarrow> byte list" where
  "be_bytes 0 w = []"
| "be_bytes (Suc n) w = be_bytes n (drop_bit 8 w) @ [ucast w]"

definition of_be_bytes :: "byte list \<Rightarrow> 'a::len word" where
  "of_be_bytes bs = foldl (\<lambda>acc b. push_bit 8 acc OR ucast b) 0 bs"

lemma length_be_bytes [simp]: "length (be_bytes n w) = n"
  by (induction n arbitrary: w) simp_all

lemma be_bytes_eq_Nil [simp]: "be_bytes n w = [] \<longleftrightarrow> n = 0"
  by (metis length_0_conv length_be_bytes)

lemma of_be_bytes_Nil [simp]: "of_be_bytes [] = 0"
  by (simp add: of_be_bytes_def)

lemma of_be_bytes_snoc [simp]:
  "of_be_bytes (bs @ [b]) = push_bit 8 (of_be_bytes bs) OR ucast b"
  by (simp add: of_be_bytes_def)

lemma of_be_be_bytes: "of_be_bytes (be_bytes n w) = take_bit (8 * n) (w::'a::len word)"
proof (induction n arbitrary: w)
  case 0
  then show ?case by simp
next
  case (Suc n)
  show ?case
    by (rule bit_word_eqI) (auto simp: Suc bit_simps)
qed

lemma bit_of_be_bytes_less:
  "bit (of_be_bytes bs :: 'a::len word) n \<Longrightarrow> n < 8 * length bs"
proof (induction bs arbitrary: n rule: rev_induct)
  case Nil
  then show ?case by simp
next
  case (snoc b bs)
  show ?case
  proof (cases "n < 8")
    case False
    with snoc.prems have "bit (of_be_bytes bs :: 'a word) (n - 8)"
      by (auto simp: bit_simps dest: bit_imp_le_length)
    then have "n - 8 < 8 * length bs" by (rule snoc.IH)
    then show ?thesis by simp
  qed simp
qed

lemma be_of_be_bytes:
  assumes "8 * length bs \<le> LENGTH('a::len)"
  shows "be_bytes (length bs) (of_be_bytes bs :: 'a word) = bs"
  using assms
proof (induction bs rule: rev_induct)
  case Nil
  then show ?case by simp
next
  case (snoc b bs)
  let ?w = "of_be_bytes bs :: 'a word"
  have low: "ucast (push_bit 8 ?w OR ucast b) = b"
    using snoc.prems by (intro bit_word_eqI) (auto simp: bit_simps)
  have high: "drop_bit 8 (push_bit 8 ?w OR ucast b) = ?w"
  proof (rule bit_word_eqI)
    fix n assume "n < LENGTH('a)"
    then show "bit (drop_bit 8 (push_bit 8 ?w OR ucast b)) n = bit ?w n"
      using snoc.prems bit_of_be_bytes_less [of bs n, where 'a='a]
      by (auto simp: bit_simps dest: bit_imp_le_length)
  qed
  show ?case using snoc low high by simp
qed

text \<open>The widths the wire formats use.\<close>

lemma of_be_bytes_u16 [simp]: "of_be_bytes (be_bytes 2 w) = (w::u16)"
  by (simp add: of_be_be_bytes take_bit_word_eq_self)

lemma of_be_bytes_u32 [simp]: "of_be_bytes (be_bytes 4 w) = (w::u32)"
  by (simp add: of_be_be_bytes take_bit_word_eq_self)

lemma of_be_bytes_u64 [simp]: "of_be_bytes (be_bytes 8 w) = (w::u64)"
  by (simp add: of_be_be_bytes take_bit_word_eq_self)

lemma be_bytes_of_u16 [simp]: "length bs = 2 \<Longrightarrow> be_bytes 2 (of_be_bytes bs :: u16) = bs"
  using be_of_be_bytes [of bs, where 'a=16] by simp

lemma be_bytes_of_u32 [simp]: "length bs = 4 \<Longrightarrow> be_bytes 4 (of_be_bytes bs :: u32) = bs"
  using be_of_be_bytes [of bs, where 'a=32] by simp

lemma be_bytes_of_u64 [simp]: "length bs = 8 \<Longrightarrow> be_bytes 8 (of_be_bytes bs :: u64) = bs"
  using be_of_be_bytes [of bs, where 'a=64] by simp


section \<open>Slices and indexing\<close>

text \<open>
  \<open>data[i]\<close>, \<open>data[i] = v\<close>, \<open>&data[i..j]\<close> and
  \<open>data[i..j].copy_from_slice(src)\<close> panic out of range; \<open>data.get(i..j)\<close>
  returns \<open>None\<close> instead. \<open>slice\<close> serves both: its \<open>None\<close> is the
  panic of the first and the \<open>Option::None\<close> of the second.
\<close>

definition index_get :: "'a list \<Rightarrow> nat \<Rightarrow> 'a panics" where
  "index_get d i = (if i < length d then Some (d ! i) else None)"

definition index_set :: "'a list \<Rightarrow> nat \<Rightarrow> 'a \<Rightarrow> 'a list panics" where
  "index_set d i v = (if i < length d then Some (d[i := v]) else None)"

definition slice :: "'a list \<Rightarrow> nat \<Rightarrow> nat \<Rightarrow> 'a list option" where
  "slice d i j = (if i \<le> j \<and> j \<le> length d then Some (take (j - i) (drop i d)) else None)"

definition copy_from_slice :: "'a list \<Rightarrow> nat \<Rightarrow> nat \<Rightarrow> 'a list \<Rightarrow> 'a list panics" where
  "copy_from_slice d i j src =
     (if i \<le> j \<and> j \<le> length d \<and> length src = j - i
      then Some (take i d @ src @ drop j d) else None)"

lemma index_set_first [slice_simps]:
  "0 < k \<Longrightarrow> index_set (replicate k z) 0 v = Some ([v] @ replicate (k - 1) z)"
  by (cases k) (simp_all add: index_set_def)

lemma index_set_fill [slice_simps]:
  "length p = i \<Longrightarrow> 0 < k \<Longrightarrow>
   index_set (p @ replicate k z) i v = Some ((p @ [v]) @ replicate (k - 1) z)"
  by (cases k) (auto simp: index_set_def list_update_append)

lemma copy_from_slice_fill [slice_simps]:
  "length p = i \<Longrightarrow> j = i + length src \<Longrightarrow> length src \<le> k \<Longrightarrow>
   copy_from_slice (p @ replicate k z) i j src = Some ((p @ src) @ replicate (k - length src) z)"
  by (simp add: copy_from_slice_def)

lemma slice_SomeD: "slice d i j = Some s \<Longrightarrow> i \<le> j \<and> j \<le> length d \<and> length s = j - i \<and> s = take (j - i) (drop i d)"
  by (auto simp: slice_def split: if_splits)

lemma slice_in_range [simp]: "i \<le> j \<Longrightarrow> j \<le> length d \<Longrightarrow> slice d i j = Some (take (j - i) (drop i d))"
  by (simp add: slice_def)

lemma slice_append: "length p = i \<Longrightarrow> j = i + length s \<Longrightarrow> slice (p @ s @ q) i j = Some s"
  by (simp add: slice_def)

lemma take_drop_join: "take n (drop i d) @ drop (i + n) d = drop i d"
  by (metis add.commute append_take_drop_id drop_drop)

lemma take_drop_drop_join: "j = i + n \<Longrightarrow> take n (drop i d) @ drop j d = drop i d"
  by (simp add: take_drop_join)


lemma take_drop_take_join:
  "j = i + n \<Longrightarrow> take n (drop i d) @ take m (drop j d) = take (n + m) (drop i d)"
  using take_add [of n m "drop i d"] by (simp add: add.commute)

lemma take_Suc_Suc_0: "take (Suc (Suc 0)) d = take 2 d"
  by (simp add: numeral_2_eq_2)

lemmas slice_join = take_drop_drop_join take_drop_take_join take_Suc_Suc_0


text \<open>\<open>Option::unwrap_or\<close>.\<close>

definition unwrap_or :: "'a option \<Rightarrow> 'a \<Rightarrow> 'a" where
  "unwrap_or a d = (case a of None \<Rightarrow> d | Some x \<Rightarrow> x)"

lemma unwrap_or_simps [simp]: "unwrap_or None d = d" "unwrap_or (Some x) d = x"
  by (simp_all add: unwrap_or_def)


section \<open>Checked and saturating arithmetic\<close>

definition usize_max :: nat where
  "usize_max = 2 ^ 64 - 1"

definition checked_add :: "nat \<Rightarrow> nat \<Rightarrow> nat option" where
  "checked_add a b = (if a + b \<le> usize_max then Some (a + b) else None)"

definition checked_mul :: "nat \<Rightarrow> nat \<Rightarrow> nat option" where
  "checked_mul a b = (if a * b \<le> usize_max then Some (a * b) else None)"

definition saturating_add_usize :: "nat \<Rightarrow> nat \<Rightarrow> nat" where
  "saturating_add_usize a b = min (a + b) usize_max"

text \<open>\<open>u16::try_from(n).ok()\<close> for a \<open>usize\<close>.\<close>

definition u16_try_from :: "nat \<Rightarrow> u16 option" where
  "u16_try_from n = (if n < 2 ^ 16 then Some (word_of_nat n) else None)"

lemma u16_try_from_Some:
  "u16_try_from n = Some w \<longleftrightarrow> n < 2 ^ 16 \<and> w = word_of_nat n"
  by (auto simp: u16_try_from_def)

text \<open>\<open>u16::try_from(v).ok()\<close> and \<open>u8::try_from(v).ok()\<close> for a \<open>u32\<close>.\<close>

definition u16_of_u32 :: "u32 \<Rightarrow> u16 option" where
  "u16_of_u32 v = (if v \<le> 0xFFFF then Some (ucast v) else None)"

definition u8_of_u32 :: "u32 \<Rightarrow> u8 option" where
  "u8_of_u32 v = (if v \<le> 0xFF then Some (ucast v) else None)"

lemma unat_u16_of_nat [simp]: "n < 65536 \<Longrightarrow> unat (word_of_nat n :: u16) = n"
  by (simp add: unat_of_nat take_bit_nat_eq_self_iff flip: take_bit_eq_mod)

lemma u16_of_nat_eq_0 [simp]: "n < 65536 \<Longrightarrow> (word_of_nat n :: u16) = 0 \<longleftrightarrow> n = 0"
  by (metis unat_u16_of_nat unat_0 unat_eq_zero)

lemma unat_u16_less [simp]: "unat (w::u16) < 65536"
  using unsigned_less [of w] by simp

lemma unat_u32_of_nat: "n < 2 ^ 32 \<Longrightarrow> unat (word_of_nat n :: u32) = n"
  by (simp add: unat_of_nat take_bit_nat_eq_self_iff flip: take_bit_eq_mod)

lemma u16_of_ucast [simp]: "u16_of_u32 (ucast (d::u16)) = Some d"
proof -
  have u: "unat (ucast d :: u32) = unat d" by (simp add: unsigned_ucast_eq take_bit_nat_eq_self_iff less_trans [OF unat_u16_less])
  have "unat d \<le> 65535" using unat_u16_less [of d] by linarith
  then have "(ucast d :: u32) \<le> 0xFFFF" by (simp add: word_le_nat_alt u)
  moreover have "(ucast (ucast d :: u32) :: u16) = d" by (rule bit_word_eqI) (simp add: bit_simps)
  ultimately show ?thesis by (simp add: u16_of_u32_def)
qed

lemma u8_of_ucast [simp]: "u8_of_u32 (ucast (d::u8)) = Some d"
proof -
  have l: "unat d < 256" using unsigned_less [of d] by simp
  have u: "unat (ucast d :: u32) = unat d" using l by (simp add: unsigned_ucast_eq take_bit_nat_eq_self_iff)
  have "(ucast d :: u32) \<le> 0xFF" using l by (simp add: word_le_nat_alt u)
  moreover have "(ucast (ucast d :: u32) :: u8) = d" by (rule bit_word_eqI) (simp add: bit_simps)
  ultimately show ?thesis by (simp add: u8_of_u32_def)
qed

definition saturating_add :: "'a::len word \<Rightarrow> 'a word \<Rightarrow> 'a word" where
  "saturating_add a b = (if unat a + unat b < 2 ^ LENGTH('a) then a + b else - 1)"

definition saturating_sub :: "'a::len word \<Rightarrow> 'a word \<Rightarrow> 'a word" where
  "saturating_sub a b = (if b \<le> a then a - b else 0)"

definition saturating_mul :: "'a::len word \<Rightarrow> 'a word \<Rightarrow> 'a word" where
  "saturating_mul a b = (if unat a * unat b < 2 ^ LENGTH('a) then a * b else - 1)"

lemma unat_neg_one: "unat (- 1 :: 'a::len word) = 2 ^ LENGTH('a) - 1"
  by (simp add: unsigned_minus_1_eq_mask mask_eq_exp_minus_1)

lemma unat_saturating_add:
  "unat (saturating_add a b) = min (unat a + unat b) (2 ^ LENGTH('a) - 1)" for a b :: "'a::len word"
proof (cases "unat a + unat b < 2 ^ LENGTH('a)")
  case True
  then show ?thesis by (simp add: saturating_add_def unat_word_ariths)
next
  case False
  then show ?thesis by (simp add: saturating_add_def unat_neg_one)
qed

lemma unat_saturating_sub: "unat (saturating_sub a b) = unat a - unat b"
  by (simp add: saturating_sub_def unat_sub word_le_nat_alt)

lemma unat_saturating_mul:
  "unat (saturating_mul a b) = min (unat a * unat b) (2 ^ LENGTH('a) - 1)" for a b :: "'a::len word"
proof (cases "unat a * unat b < 2 ^ LENGTH('a)")
  case True
  then show ?thesis by (simp add: saturating_mul_def unat_word_ariths)
next
  case False
  then show ?thesis by (simp add: saturating_mul_def unat_neg_one)
qed

text \<open>Signed 64-bit arithmetic: \<open>saturating_add\<close>, \<open>saturating_sub\<close> and
  \<open>i64::try_from(u).unwrap_or(i64::MAX)\<close>.\<close>

definition i64_max :: int where "i64_max = 2 ^ 63 - 1"
definition i64_min :: int where "i64_min = - (2 ^ 63)"

definition i64_clamp :: "int \<Rightarrow> i64" where
  "i64_clamp x = word_of_int (max i64_min (min i64_max x))"

definition i64_saturating_add :: "i64 \<Rightarrow> i64 \<Rightarrow> i64" where
  "i64_saturating_add a b = i64_clamp (sint a + sint b)"

definition i64_saturating_sub :: "i64 \<Rightarrow> i64 \<Rightarrow> i64" where
  "i64_saturating_sub a b = i64_clamp (sint a - sint b)"

definition i64_from_u64_or_max :: "u64 \<Rightarrow> i64" where
  "i64_from_u64_or_max u = i64_clamp (uint u)"

lemma sint_i64_range: "i64_min \<le> sint (a::i64)" "sint (a::i64) \<le> i64_max"
  using sint_ge [of a] sint_lt [of a] by (simp_all add: i64_min_def i64_max_def)

lemma sint_i64_clamp: "sint (i64_clamp x) = max i64_min (min i64_max x)"
proof -
  have "signed_take_bit 63 (max i64_min (min i64_max x)) = max i64_min (min i64_max x)"
    by (intro signed_take_bit_int_eq_self) (auto simp: i64_min_def i64_max_def)
  then show ?thesis
    by (simp add: i64_clamp_def sint_sbintrunc')
qed


section \<open>IEEE-754 bit patterns\<close>

text \<open>
  A finite \<open>f64\<close> has an exponent field that is not all ones. Comparison of two
  values that are not NaN is comparison of their sign-magnitude keys, on which the two zeros
  agree.
\<close>

definition f64_is_finite :: "f64 \<Rightarrow> bool" where
  "f64_is_finite w \<longleftrightarrow> w AND 0x7FF0000000000000 \<noteq> 0x7FF0000000000000"

definition f32_is_finite :: "f32 \<Rightarrow> bool" where
  "f32_is_finite w \<longleftrightarrow> w AND 0x7F800000 \<noteq> 0x7F800000"

definition f64_is_nan :: "f64 \<Rightarrow> bool" where
  "f64_is_nan w \<longleftrightarrow> w AND 0x7FF0000000000000 = 0x7FF0000000000000 \<and> w AND 0x000FFFFFFFFFFFFF \<noteq> 0"

definition f64_key :: "f64 \<Rightarrow> int" where
  "f64_key w = (let m = uint (w AND 0x7FFFFFFFFFFFFFFF) in if bit w 63 then - m else m)"

definition f64_le :: "f64 \<Rightarrow> f64 \<Rightarrow> bool" where
  "f64_le a b \<longleftrightarrow> \<not> f64_is_nan a \<and> \<not> f64_is_nan b \<and> f64_key a \<le> f64_key b"

text \<open>\<open>(lo..=hi).contains(&x)\<close>.\<close>

definition f64_in_range :: "f64 \<Rightarrow> f64 \<Rightarrow> f64 \<Rightarrow> bool" where
  "f64_in_range lo hi x \<longleftrightarrow> f64_le lo x \<and> f64_le x hi"


section \<open>Searching slices\<close>

definition position :: "('a \<Rightarrow> bool) \<Rightarrow> 'a list \<Rightarrow> nat option" where
  "position p xs = List.find (\<lambda>i. p (xs ! i)) [0..<length xs]"

text \<open>\<open>binary_search_by\<close> on a sorted slice: the index of the key, or where it would
  be inserted.\<close>

definition binary_search :: "int list \<Rightarrow> int \<Rightarrow> nat + nat" where
  "binary_search keys key =
     (case position (\<lambda>k. k = key) keys of
        Some i \<Rightarrow> Inl i
      | None \<Rightarrow> Inr (length (filter (\<lambda>k. k < key) keys)))"

end
