(* ===== verification/Wire_Codec.thy ===== *)
theory Wire_Codec
  imports Emane_Prelude
begin

text \<open>
  The accessors of \<^verbatim>\<open>rust/emane-plugin-api/src/lib.rs\<close> on byte buffers, and the
  interfaces the control payloads of that file satisfy, as locales:
  \<^item> \<open>wire_codec\<close>: an encoder and a decoder that never panic and round trip;
  \<^item> \<open>canonical_codec\<close>: in addition the decoder accepts only what the encoder
    produces, so a payload has exactly one encoding;
  \<^item> \<open>fixed_entry\<close>: a fixed-width entry of a repeated field, read at an offset;
  \<^item> \<open>entry_reader\<close>: an entry read with a moving offset (\<open>read_u16\<close>,
    \<open>read_u64\<close> and the readers built from them).
  The control payload theories interpret them on the model's encoders and decoders.
\<close>


section \<open>Buffer accessors\<close>

definition put_u16 :: "byte list \<Rightarrow> nat \<Rightarrow> u16 \<Rightarrow> byte list panics" where
  "put_u16 data offset v = copy_from_slice data offset (offset + 2) (be_bytes 2 v)"

definition put_u64 :: "byte list \<Rightarrow> nat \<Rightarrow> u64 \<Rightarrow> byte list panics" where
  "put_u64 data offset v = copy_from_slice data offset (offset + 8) (be_bytes 8 v)"

definition get_u16 :: "byte list \<Rightarrow> nat \<Rightarrow> u16 panics" where
  "get_u16 data offset = map_option of_be_bytes (slice data offset (offset + 2))"

definition get_u32 :: "byte list \<Rightarrow> nat \<Rightarrow> u32 panics" where
  "get_u32 data offset = map_option of_be_bytes (slice data offset (offset + 4))"

definition get_u64 :: "byte list \<Rightarrow> nat \<Rightarrow> u64 panics" where
  "get_u64 data offset = map_option of_be_bytes (slice data offset (offset + 8))"

text \<open>The readers that move an offset and return \<open>None\<close> at the end of the data.\<close>

definition read_u16 :: "byte list \<Rightarrow> nat \<Rightarrow> (u16 \<times> nat) option" where
  "read_u16 data offset = do {
     end \<leftarrow> checked_add offset 2;
     bytes \<leftarrow> slice data offset end;
     Some (of_be_bytes bytes, end) }"

definition read_u64 :: "byte list \<Rightarrow> nat \<Rightarrow> (u64 \<times> nat) option" where
  "read_u64 data offset = do {
     end \<leftarrow> checked_add offset 8;
     bytes \<leftarrow> slice data offset end;
     Some (of_be_bytes bytes, end) }"

lemmas put_defs [codec_simps] = put_u16_def put_u64_def
lemmas get_defs [codec_simps] = get_u16_def get_u32_def get_u64_def


lemma get_u16_in_range: "off + 2 \<le> length d \<Longrightarrow> get_u16 d off = Some (of_be_bytes (take 2 (drop off d)))"
  by (simp add: get_u16_def)

lemma get_u32_in_range: "off + 4 \<le> length d \<Longrightarrow> get_u32 d off = Some (of_be_bytes (take 4 (drop off d)))"
  by (simp add: get_u32_def)


section \<open>Interfaces\<close>

locale wire_codec =
  fixes encode :: "'a \<Rightarrow> byte list option panics"
    and decode :: "byte list \<Rightarrow> 'a option panics"
  assumes encode_no_panic: "encode x \<noteq> panic"
    and decode_no_panic: "decode d \<noteq> panic"
    and roundtrip: "encode x = Some (Some d) \<Longrightarrow> decode d = Some (Some x)"
begin

lemma encode_inj: "encode x = Some (Some d) \<Longrightarrow> encode y = Some (Some d) \<Longrightarrow> x = y"
  by (metis option.inject roundtrip)

lemma decode_cases:
  obtains (rejected) "decode d = Some None" | (accepted) x where "decode d = Some (Some x)"
  using decode_no_panic [of d] by (cases "decode d") auto

lemma encode_cases:
  obtains (refused) "encode x = Some None" | (encoded) d where "encode x = Some (Some d)"
  using encode_no_panic [of x] by (cases "encode x") auto

end

locale canonical_codec = wire_codec +
  assumes canonical: "decode d = Some (Some x) \<Longrightarrow> encode x = Some (Some d)"
begin

lemma accepts_iff: "decode d = Some (Some x) \<longleftrightarrow> encode x = Some (Some d)"
  using canonical roundtrip by blast

lemma decode_inj: "decode d = Some (Some x) \<Longrightarrow> decode e = Some (Some x) \<Longrightarrow> d = e"
  by (metis option.inject canonical)

end

text \<open>
  A repeated field of fixed-width entries: \<open>(0..count).map(|index| entry at base + index *
  len).collect()\<close>. The decoder reads every entry by indexing, which panics out of range.
\<close>

definition collect_entries ::
  "(byte list \<Rightarrow> nat \<Rightarrow> 'e panics) \<Rightarrow> byte list \<Rightarrow> nat \<Rightarrow> nat \<Rightarrow> nat \<Rightarrow> 'e list panics" where
  "collect_entries entry_at data base len count =
     those (map (\<lambda>index. entry_at data (base + index * len)) [0..<count])"

locale fixed_entry =
  fixes enc :: "'e \<Rightarrow> byte list"
    and entry_at :: "byte list \<Rightarrow> nat \<Rightarrow> 'e panics"
    and len :: nat
  assumes enc_length: "length (enc e) = len"
    and entry_at_enc: "length p = off \<Longrightarrow> entry_at (p @ enc e @ q) off = Some e"
    and entry_at_canonical:
      "off + len \<le> length d \<Longrightarrow> \<exists>e. entry_at d off = Some e \<and> enc e = take len (drop off d)"
begin

lemma concat_enc_length [simp]: "length (concat (map enc es)) = len * length es"
  by (induction es) (simp_all add: enc_length)

lemma collect_entries_Suc:
  "collect_entries entry_at d base len (Suc n) =
     (case entry_at d base of None \<Rightarrow> None
      | Some e \<Rightarrow> map_option ((#) e) (collect_entries entry_at d (base + len) len n))"
proof -
  have "map (\<lambda>i. entry_at d (base + i * len)) [0..<Suc n] =
        entry_at d base # map (\<lambda>i. entry_at d ((base + len) + i * len)) [0..<n]"
    by (simp del: upt_Suc add: upt_conv_Cons map_Suc_upt [symmetric] o_def ac_simps)
  then show ?thesis
    by (simp add: collect_entries_def del: upt_Suc split: option.splits)
qed

lemma collect_entries_enc:
  "length p = base \<Longrightarrow> n = length es \<Longrightarrow>
   collect_entries entry_at (p @ concat (map enc es) @ q) base len n = Some es"
proof (induction es arbitrary: p base n)
  case Nil
  then show ?case by (simp add: collect_entries_def)
next
  case (Cons e es)
  have "entry_at (p @ enc e @ (concat (map enc es) @ q)) base = Some e"
    using Cons.prems by (intro entry_at_enc) simp
  moreover have "collect_entries entry_at ((p @ enc e) @ concat (map enc es) @ q) (base + len) len (length es) = Some es"
    using Cons.prems by (intro Cons.IH) (simp_all add: enc_length)
  ultimately show ?case
    using Cons.prems by (simp add: collect_entries_Suc)
qed

lemma collect_entries_canonical:
  "base + n * len \<le> length d \<Longrightarrow>
   \<exists>es. collect_entries entry_at d base len n = Some es \<and> length es = n
      \<and> concat (map enc es) = take (n * len) (drop base d)"
proof (induction n arbitrary: base)
  case 0
  then show ?case by (simp add: collect_entries_def)
next
  case (Suc n)
  obtain e where e: "entry_at d base = Some e" "enc e = take len (drop base d)"
    using entry_at_canonical [of base d] Suc.prems by auto
  obtain es where es: "collect_entries entry_at d (base + len) len n = Some es" "length es = n"
      "concat (map enc es) = take (n * len) (drop (base + len) d)"
    using Suc.IH [of "base + len"] Suc.prems by auto
  have "take len (drop base d) @ take (n * len) (drop (base + len) d) = take (Suc n * len) (drop base d)"
    by (simp add: take_add add.commute)
  then show ?case
    using e es by (simp add: collect_entries_Suc)
qed

lemma collect_entries_all:
  assumes "collect_entries entry_at d base len n = Some es" and "length d = base + n * len"
  shows "length es = n" "concat (map enc es) = drop base d"
proof -
  obtain es' where "collect_entries entry_at d base len n = Some es'" "length es' = n"
      "concat (map enc es') = take (n * len) (drop base d)"
    using collect_entries_canonical [of base n d] assms(2) by auto
  with assms show "length es = n" "concat (map enc es) = drop base d"
    by auto
qed

end

text \<open>What is left to read at an offset of a buffer that fits the address space.\<close>

definition rest_at :: "byte list \<Rightarrow> nat \<Rightarrow> byte list \<Rightarrow> bool" where
  "rest_at d off r \<longleftrightarrow> off \<le> length d \<and> drop off d = r \<and> length d \<le> usize_max"

lemma rest_at_iff: "rest_at d off r \<longleftrightarrow> (\<exists>p. d = p @ r \<and> length p = off \<and> length d \<le> usize_max)"
proof
  assume "rest_at d off r"
  then show "\<exists>p. d = p @ r \<and> length p = off \<and> length d \<le> usize_max"
    by (intro exI [of _ "take off d"]) (auto simp: rest_at_def)
qed (auto simp: rest_at_def)

lemma rest_at_append: "rest_at d off (a @ r) \<Longrightarrow> rest_at d (off + length a) r"
  by (auto simp: rest_at_iff)

lemma rest_atI: "length (p @ r) \<le> usize_max \<Longrightarrow> length p = off \<Longrightarrow> rest_at (p @ r) off r"
  by (auto simp: rest_at_def)

lemma rest_at_length: "rest_at d off r \<Longrightarrow> length d = off + length r \<and> length d \<le> usize_max"
  by (auto simp: rest_at_def)

text \<open>Entries read with a moving offset, and the loops that push \<open>count\<close> of them.\<close>

fun read_many ::
  "(byte list \<Rightarrow> nat \<Rightarrow> ('e \<times> nat) option) \<Rightarrow> nat \<Rightarrow> byte list \<Rightarrow> nat \<Rightarrow> ('e list \<times> nat) option" where
  "read_many rd 0 data offset = Some ([], offset)"
| "read_many rd (Suc n) data offset = do {
     (e, offset) \<leftarrow> rd data offset;
     (es, offset) \<leftarrow> read_many rd n data offset;
     Some (e # es, offset) }"

locale entry_reader =
  fixes valid :: "'e \<Rightarrow> bool"
    and enc :: "'e \<Rightarrow> byte list"
    and rd :: "byte list \<Rightarrow> nat \<Rightarrow> ('e \<times> nat) option"
  assumes rd_enc:
    "valid e \<Longrightarrow> length (p @ enc e @ q) \<le> usize_max \<Longrightarrow> length p = off \<Longrightarrow>
     rd (p @ enc e @ q) off = Some (e, off + length (enc e))"
begin

lemma rd_rest: "valid e \<Longrightarrow> rest_at d off (enc e @ r) \<Longrightarrow> rd d off = Some (e, off + length (enc e))"
  using rd_enc by (auto simp: rest_at_iff)

lemma read_many_rest:
  "\<forall>e \<in> set es. valid e \<Longrightarrow> rest_at d off (concat (map enc es) @ r) \<Longrightarrow> n = length es \<Longrightarrow>
   read_many rd n d off = Some (es, off + length (concat (map enc es)))"
proof (induction es arbitrary: off n)
  case (Cons e es)
  then have "rest_at d off (enc e @ concat (map enc es) @ r)" by simp
  then have "rd d off = Some (e, off + length (enc e))"
      "rest_at d (off + length (enc e)) (concat (map enc es) @ r)"
    using Cons.prems by (auto intro: rd_rest dest: rest_at_append)
  with Cons show ?case by simp
qed simp

end

text \<open>Readers that consume exactly the encoding of what they return.\<close>

locale exact_reader = entry_reader +
  assumes rd_exact:
    "rd d off = Some (e, off') \<Longrightarrow>
     valid e \<and> off' = off + length (enc e) \<and> off' \<le> length d \<and> enc e = take (length (enc e)) (drop off d)"
begin

lemma read_many_exact:
  "read_many rd n d off = Some (es, off') \<Longrightarrow> off \<le> length d \<Longrightarrow>
   length es = n \<and> (\<forall>e \<in> set es. valid e) \<and> off' = off + length (concat (map enc es)) \<and> off' \<le> length d
   \<and> concat (map enc es) = take (length (concat (map enc es))) (drop off d)"
proof (induction n arbitrary: off es)
  case 0
  then show ?case by simp
next
  case (Suc n)
  from Suc.prems(1) obtain e off1 es' where
      e: "rd d off = Some (e, off1)" and es': "read_many rd n d off1 = Some (es', off')"
      and es: "es = e # es'"
    by (auto split: Option.bind_splits)
  note ex = rd_exact [OF e]
  have IH: "length es' = n \<and> (\<forall>e \<in> set es'. valid e) \<and> off' = off1 + length (concat (map enc es')) \<and> off' \<le> length d
   \<and> concat (map enc es') = take (length (concat (map enc es'))) (drop off1 d)"
    using es' ex by (intro Suc.IH) auto
  have "take (length (enc e)) (drop off d) @ take (length (concat (map enc es'))) (drop (off + length (enc e)) d)
        = take (length (enc e) + length (concat (map enc es'))) (drop off d)"
    by (simp add: take_add add.commute)
  with IH ex es show ?case
    by (metis (no_types, lifting) add.assoc append_take_drop_id concat.simps(2) insert_iff length_Cons
        length_append list.set(2) list.simps(9))
qed

end

interpretation u16_reader: exact_reader "\<lambda>_. True" "be_bytes 2" read_u16
proof
  fix e :: u16 and p q :: "byte list" and off :: nat
  assume "length (p @ be_bytes 2 e @ q) \<le> usize_max" "length p = off"
  then show "read_u16 (p @ be_bytes 2 e @ q) off = Some (e, off + length (be_bytes 2 e))"
    by (simp add: read_u16_def checked_add_def slice_append)
next
  fix d :: "byte list" and off off' :: nat and e :: u16
  assume "read_u16 d off = Some (e, off')"
  then show "True \<and> off' = off + length (be_bytes 2 e) \<and> off' \<le> length d \<and>
      be_bytes 2 e = take (length (be_bytes 2 e)) (drop off d)"
    by (auto simp: read_u16_def checked_add_def split: Option.bind_splits if_splits dest!: slice_SomeD)
qed

interpretation u64_reader: exact_reader "\<lambda>_. True" "be_bytes 8" read_u64
proof
  fix e :: u64 and p q :: "byte list" and off :: nat
  assume "length (p @ be_bytes 8 e @ q) \<le> usize_max" "length p = off"
  then show "read_u64 (p @ be_bytes 8 e @ q) off = Some (e, off + length (be_bytes 8 e))"
    by (simp add: read_u64_def checked_add_def slice_append)
next
  fix d :: "byte list" and off off' :: nat and e :: u64
  assume "read_u64 d off = Some (e, off')"
  then show "True \<and> off' = off + length (be_bytes 8 e) \<and> off' \<le> length d \<and>
      be_bytes 8 e = take (length (be_bytes 8 e)) (drop off d)"
    by (auto simp: read_u64_def checked_add_def split: Option.bind_splits if_splits dest!: slice_SomeD)
qed

end
