(* ===== verification/Wire_Control.thy ===== *)
theory Wire_Control
  imports Wire_Codec
begin

text \<open>
  The fixed-size control payloads of \<^verbatim>\<open>rust/emane-plugin-api/src/lib.rs\<close>: flow
  control tokens, the self metric, the communication-effect, timing-analysis and model
  headers, antenna profiles and removals, and the transmit and receive properties of a frame.
  Each struct is a record, each \<open>encode\<close> and \<open>decode\<close> one definition; every
  encoder and decoder is shown not to panic and to round trip (\<open>wire_codec\<close>), and the
  formats without reserved bytes are canonical.
\<close>

definition PROPERTIES_VERSION :: u8 where
  "PROPERTIES_VERSION = 1"

definition CONTROL_TX_PROPERTIES :: u32 where "CONTROL_TX_PROPERTIES = 0x454D0001"
definition CONTROL_RX_PROPERTIES :: u32 where "CONTROL_RX_PROPERTIES = 0x454D0002"
definition CONTROL_MODEL_HEADER :: u32 where "CONTROL_MODEL_HEADER = 0x454D0003"
definition CONTROL_FREQUENCY_INTEREST :: u32 where "CONTROL_FREQUENCY_INTEREST = 0x454D0004"
definition CONTROL_RX_FREQUENCY_SEGMENTS :: u32 where "CONTROL_RX_FREQUENCY_SEGMENTS = 0x454D000A"
definition CONTROL_FLOW_CONTROL_TOKEN :: u32 where "CONTROL_FLOW_CONTROL_TOKEN = 0x454D000B"
definition MAC_REGISTRATION_TDMA :: u16 where "MAC_REGISTRATION_TDMA = 5"

lemmas control_ids =
  CONTROL_TX_PROPERTIES_def CONTROL_RX_PROPERTIES_def CONTROL_MODEL_HEADER_def
  CONTROL_FREQUENCY_INTEREST_def CONTROL_RX_FREQUENCY_SEGMENTS_def CONTROL_FLOW_CONTROL_TOKEN_def

text \<open>The guard \<open>data.len() == n && data[0] == PROPERTIES_VERSION\<close>: the index is
  evaluated only when the length is right.\<close>

definition versioned :: "byte list \<Rightarrow> nat \<Rightarrow> bool" where
  "versioned data n \<longleftrightarrow> length data = n \<and> data ! 0 = PROPERTIES_VERSION"

lemma versioned_conv:
  "0 < n \<Longrightarrow> versioned d n \<longleftrightarrow> (\<exists>xs. d = PROPERTIES_VERSION # xs \<and> length xs = n - 1)"
  by (cases d) (auto simp: versioned_def)


section \<open>FlowControlToken\<close>

record FlowControlToken =
  fct_tokens :: u16

definition FlowControlToken_encode :: "FlowControlToken \<Rightarrow> byte list panics" where
  "FlowControlToken_encode self = do {
     data \<leftarrow> index_set (replicate 3 0) 0 PROPERTIES_VERSION;
     put_u16 data 1 (fct_tokens self) }"

definition FlowControlToken_decode :: "byte list \<Rightarrow> FlowControlToken option panics" where
  "FlowControlToken_decode data =
     (if versioned data 3 then do {
        tokens \<leftarrow> get_u16 data 1;
        Some (Some \<lparr>fct_tokens = tokens\<rparr>) }
      else Some None)"


section \<open>R2riSelfMetric\<close>

record R2riSelfMetric =
  rsm_broadcast_data_rate_bps :: u64
  rsm_max_data_rate_bps :: u64
  rsm_report_interval_microseconds :: u64

definition R2riSelfMetric_encode :: "R2riSelfMetric \<Rightarrow> byte list panics" where
  "R2riSelfMetric_encode self = do {
     data \<leftarrow> index_set (replicate 25 0) 0 PROPERTIES_VERSION;
     data \<leftarrow> put_u64 data 1 (rsm_broadcast_data_rate_bps self);
     data \<leftarrow> put_u64 data 9 (rsm_max_data_rate_bps self);
     put_u64 data 17 (rsm_report_interval_microseconds self) }"

definition R2riSelfMetric_decode :: "byte list \<Rightarrow> R2riSelfMetric option panics" where
  "R2riSelfMetric_decode data =
     (if versioned data 25 then do {
        broadcast \<leftarrow> get_u64 data 1;
        maximum \<leftarrow> get_u64 data 9;
        interval \<leftarrow> get_u64 data 17;
        Some (Some \<lparr>rsm_broadcast_data_rate_bps = broadcast, rsm_max_data_rate_bps = maximum,
                     rsm_report_interval_microseconds = interval\<rparr>) }
      else Some None)"


section \<open>CommEffectHeader\<close>

record CommEffectHeader =
  ceh_group_id :: u32
  ceh_sequence :: u32
  ceh_tx_time_microseconds :: i64

definition CommEffectHeader_encode :: "CommEffectHeader \<Rightarrow> byte list panics" where
  "CommEffectHeader_encode self = do {
     data \<leftarrow> index_set (replicate 17 0) 0 PROPERTIES_VERSION;
     data \<leftarrow> copy_from_slice data 1 5 (be_bytes 4 (ceh_group_id self));
     data \<leftarrow> copy_from_slice data 5 9 (be_bytes 4 (ceh_sequence self));
     copy_from_slice data 9 17 (be_bytes 8 (ceh_tx_time_microseconds self)) }"

definition CommEffectHeader_decode :: "byte list \<Rightarrow> CommEffectHeader option panics" where
  "CommEffectHeader_decode data =
     (if versioned data 17 then do {
        group_id \<leftarrow> slice data 1 5;
        sequence \<leftarrow> slice data 5 9;
        tx_time \<leftarrow> slice data 9 17;
        Some (Some \<lparr>ceh_group_id = of_be_bytes group_id, ceh_sequence = of_be_bytes sequence,
                     ceh_tx_time_microseconds = of_be_bytes tx_time\<rparr>) }
      else Some None)"


section \<open>TimingAnalysisHeader\<close>

record TimingAnalysisHeader =
  tah_tx_time_microseconds :: u64
  tah_source :: u16
  tah_packet_id :: u16

definition TimingAnalysisHeader_encode :: "TimingAnalysisHeader \<Rightarrow> byte list panics" where
  "TimingAnalysisHeader_encode self = do {
     data \<leftarrow> index_set (replicate 13 0) 0 PROPERTIES_VERSION;
     data \<leftarrow> copy_from_slice data 1 9 (be_bytes 8 (tah_tx_time_microseconds self));
     data \<leftarrow> copy_from_slice data 9 11 (be_bytes 2 (tah_source self));
     copy_from_slice data 11 13 (be_bytes 2 (tah_packet_id self)) }"

definition TimingAnalysisHeader_decode :: "byte list \<Rightarrow> TimingAnalysisHeader option panics" where
  "TimingAnalysisHeader_decode data =
     (if versioned data 13 then do {
        tx_time \<leftarrow> slice data 1 9;
        source \<leftarrow> slice data 9 11;
        packet_id \<leftarrow> slice data 11 13;
        Some (Some \<lparr>tah_tx_time_microseconds = of_be_bytes tx_time,
                     tah_source = of_be_bytes source, tah_packet_id = of_be_bytes packet_id\<rparr>) }
      else Some None)"


section \<open>TxAntennaProfile\<close>

record TxAntennaProfile =
  tap_profile_id :: u16
  tap_azimuth_degrees :: f64
  tap_elevation_degrees :: f64

text \<open>\<open>0.0\<close>, \<open>360.0\<close>, \<open>-90.0\<close> and \<open>90.0\<close> as bit patterns.\<close>

definition profile_in_range :: "TxAntennaProfile \<Rightarrow> bool" where
  "profile_in_range self \<longleftrightarrow>
     tap_profile_id self \<noteq> 0
     \<and> f64_is_finite (tap_azimuth_degrees self)
     \<and> f64_in_range 0 0x4076800000000000 (tap_azimuth_degrees self)
     \<and> f64_is_finite (tap_elevation_degrees self)
     \<and> f64_in_range 0xC056800000000000 0x4056800000000000 (tap_elevation_degrees self)"

definition TxAntennaProfile_encode :: "TxAntennaProfile \<Rightarrow> byte list option panics" where
  "TxAntennaProfile_encode self =
     (if \<not> profile_in_range self then Some None
      else do {
        data \<leftarrow> index_set (replicate 19 0) 0 PROPERTIES_VERSION;
        data \<leftarrow> put_u16 data 1 (tap_profile_id self);
        data \<leftarrow> put_u64 data 3 (tap_azimuth_degrees self);
        data \<leftarrow> put_u64 data 11 (tap_elevation_degrees self);
        Some (Some data) })"

definition TxAntennaProfile_decode :: "byte list \<Rightarrow> TxAntennaProfile option panics" where
  "TxAntennaProfile_decode data =
     (if \<not> versioned data 19 then Some None
      else do {
        profile_id \<leftarrow> get_u16 data 1;
        azimuth \<leftarrow> get_u64 data 3;
        elevation \<leftarrow> get_u64 data 11;
        let result = \<lparr>tap_profile_id = profile_id, tap_azimuth_degrees = azimuth,
                      tap_elevation_degrees = elevation\<rparr>;
        Some (if profile_in_range result then Some result else None) })"


section \<open>RxAntennaRemove\<close>

record RxAntennaRemove =
  rar_antenna_index :: u16

definition RxAntennaRemove_encode :: "RxAntennaRemove \<Rightarrow> byte list" where
  "RxAntennaRemove_encode self =
     [PROPERTIES_VERSION, ucast (drop_bit 8 (rar_antenna_index self)), ucast (rar_antenna_index self)]"

definition RxAntennaRemove_decode :: "byte list \<Rightarrow> RxAntennaRemove option panics" where
  "RxAntennaRemove_decode data =
     (if versioned data 3 then do {
        antenna_index \<leftarrow> get_u16 data 1;
        Some (Some \<lparr>rar_antenna_index = antenna_index\<rparr>) }
      else Some None)"


section \<open>ModelHeader\<close>

record ModelHeader =
  mh_registration_id :: u16
  mh_sequence :: u64
  mh_data_rate_bps :: u64
  mh_category :: u8
  mh_message_type :: u8
  mh_flags :: u16

definition ModelHeader_encode :: "ModelHeader \<Rightarrow> byte list panics" where
  "ModelHeader_encode self = do {
     data \<leftarrow> index_set (replicate 24 0) 0 PROPERTIES_VERSION;
     data \<leftarrow> put_u16 data 1 (mh_registration_id self);
     data \<leftarrow> put_u64 data 3 (mh_sequence self);
     data \<leftarrow> put_u64 data 11 (mh_data_rate_bps self);
     data \<leftarrow> index_set data 19 (mh_category self);
     data \<leftarrow> index_set data 20 (mh_message_type self);
     put_u16 data 21 (mh_flags self) }"

text \<open>The decoder accepts any length from 24 bytes on, so a header may be extended.\<close>

definition ModelHeader_decode :: "byte list \<Rightarrow> ModelHeader option panics" where
  "ModelHeader_decode data =
     (if 24 \<le> length data \<and> data ! 0 = PROPERTIES_VERSION then do {
        registration_id \<leftarrow> get_u16 data 1;
        sequence \<leftarrow> get_u64 data 3;
        data_rate \<leftarrow> get_u64 data 11;
        category \<leftarrow> index_get data 19;
        message_type \<leftarrow> index_get data 20;
        flags \<leftarrow> get_u16 data 21;
        Some (Some \<lparr>mh_registration_id = registration_id, mh_sequence = sequence,
                     mh_data_rate_bps = data_rate, mh_category = category,
                     mh_message_type = message_type, mh_flags = flags\<rparr>) }
      else Some None)"


section \<open>TxProperties\<close>

record TxProperties =
  txp_frequency_hz :: u64
  txp_bandwidth_hz :: u64
  txp_tx_power_dbm :: f64
  txp_duration_microseconds :: u64
  txp_offset_microseconds :: u64
  txp_tx_time_microseconds :: i64
  txp_antenna_index :: u16
  txp_spectral_mask_index :: u16
  txp_sub_id :: u16

definition TxProperties_encode :: "TxProperties \<Rightarrow> byte list panics" where
  "TxProperties_encode self = do {
     data \<leftarrow> index_set (replicate 55 0) 0 PROPERTIES_VERSION;
     data \<leftarrow> put_u64 data 1 (txp_frequency_hz self);
     data \<leftarrow> put_u64 data 9 (txp_bandwidth_hz self);
     data \<leftarrow> put_u64 data 17 (txp_tx_power_dbm self);
     data \<leftarrow> put_u64 data 25 (txp_duration_microseconds self);
     data \<leftarrow> put_u64 data 33 (txp_offset_microseconds self);
     data \<leftarrow> put_u64 data 41 (txp_tx_time_microseconds self);
     data \<leftarrow> put_u16 data 49 (txp_antenna_index self);
     data \<leftarrow> put_u16 data 51 (txp_spectral_mask_index self);
     put_u16 data 53 (txp_sub_id self) }"

definition TxProperties_decode :: "byte list \<Rightarrow> TxProperties option panics" where
  "TxProperties_decode data =
     (if versioned data 55 then do {
        frequency \<leftarrow> get_u64 data 1;
        bandwidth \<leftarrow> get_u64 data 9;
        tx_power \<leftarrow> get_u64 data 17;
        duration \<leftarrow> get_u64 data 25;
        offset \<leftarrow> get_u64 data 33;
        tx_time \<leftarrow> get_u64 data 41;
        antenna_index \<leftarrow> get_u16 data 49;
        mask_index \<leftarrow> get_u16 data 51;
        sub_id \<leftarrow> get_u16 data 53;
        Some (Some \<lparr>txp_frequency_hz = frequency, txp_bandwidth_hz = bandwidth,
                     txp_tx_power_dbm = tx_power, txp_duration_microseconds = duration,
                     txp_offset_microseconds = offset, txp_tx_time_microseconds = tx_time,
                     txp_antenna_index = antenna_index, txp_spectral_mask_index = mask_index,
                     txp_sub_id = sub_id\<rparr>) }
      else Some None)"


section \<open>RxProperties\<close>

record RxProperties =
  rxp_frequency_hz :: u64
  rxp_bandwidth_hz :: u64
  rxp_rx_power_dbm :: f64
  rxp_noise_floor_dbm :: f64
  rxp_tx_time_microseconds :: i64
  rxp_propagation_microseconds :: u64
  rxp_duration_microseconds :: u64
  rxp_antenna_index :: u16
  rxp_sub_id :: u16
  rxp_signal_in_noise :: bool

definition RxProperties_encode :: "RxProperties \<Rightarrow> byte list panics" where
  "RxProperties_encode self = do {
     data \<leftarrow> index_set (replicate 63 0) 0 PROPERTIES_VERSION;
     data \<leftarrow> put_u64 data 1 (rxp_frequency_hz self);
     data \<leftarrow> put_u64 data 9 (rxp_bandwidth_hz self);
     data \<leftarrow> put_u64 data 17 (rxp_rx_power_dbm self);
     data \<leftarrow> put_u64 data 25 (rxp_noise_floor_dbm self);
     data \<leftarrow> put_u64 data 33 (rxp_tx_time_microseconds self);
     data \<leftarrow> put_u64 data 41 (rxp_propagation_microseconds self);
     data \<leftarrow> put_u64 data 49 (rxp_duration_microseconds self);
     data \<leftarrow> put_u16 data 57 (rxp_antenna_index self);
     data \<leftarrow> put_u16 data 59 (rxp_sub_id self);
     index_set data 61 (of_bool (rxp_signal_in_noise self)) }"

definition RxProperties_decode :: "byte list \<Rightarrow> RxProperties option panics" where
  "RxProperties_decode data =
     (if versioned data 63 \<and> data ! 61 \<le> 1 then do {
        frequency \<leftarrow> get_u64 data 1;
        bandwidth \<leftarrow> get_u64 data 9;
        rx_power \<leftarrow> get_u64 data 17;
        noise_floor \<leftarrow> get_u64 data 25;
        tx_time \<leftarrow> get_u64 data 33;
        propagation \<leftarrow> get_u64 data 41;
        duration \<leftarrow> get_u64 data 49;
        antenna_index \<leftarrow> get_u16 data 57;
        sub_id \<leftarrow> get_u16 data 59;
        flag \<leftarrow> index_get data 61;
        Some (Some \<lparr>rxp_frequency_hz = frequency, rxp_bandwidth_hz = bandwidth,
                     rxp_rx_power_dbm = rx_power, rxp_noise_floor_dbm = noise_floor,
                     rxp_tx_time_microseconds = tx_time, rxp_propagation_microseconds = propagation,
                     rxp_duration_microseconds = duration, rxp_antenna_index = antenna_index,
                     rxp_sub_id = sub_id, rxp_signal_in_noise = (flag \<noteq> 0)\<rparr>) }
      else Some None)"


section \<open>The bytes of each encoding\<close>

lemmas [codec_simps] = slice_simps

lemma FlowControlToken_bytes:
  "FlowControlToken_encode x = Some (PROPERTIES_VERSION # be_bytes 2 (fct_tokens x))"
  by (simp add: FlowControlToken_encode_def codec_simps del: append_assoc append.simps)

lemma R2riSelfMetric_bytes:
  "R2riSelfMetric_encode x = Some (PROPERTIES_VERSION # be_bytes 8 (rsm_broadcast_data_rate_bps x)
     @ be_bytes 8 (rsm_max_data_rate_bps x) @ be_bytes 8 (rsm_report_interval_microseconds x))"
  by (simp add: R2riSelfMetric_encode_def codec_simps del: append_assoc append.simps)

lemma CommEffectHeader_bytes:
  "CommEffectHeader_encode x = Some (PROPERTIES_VERSION # be_bytes 4 (ceh_group_id x)
     @ be_bytes 4 (ceh_sequence x) @ be_bytes 8 (ceh_tx_time_microseconds x))"
  by (simp add: CommEffectHeader_encode_def codec_simps del: append_assoc append.simps)

lemma TimingAnalysisHeader_bytes:
  "TimingAnalysisHeader_encode x = Some (PROPERTIES_VERSION # be_bytes 8 (tah_tx_time_microseconds x)
     @ be_bytes 2 (tah_source x) @ be_bytes 2 (tah_packet_id x))"
  by (simp add: TimingAnalysisHeader_encode_def codec_simps del: append_assoc append.simps)

lemma TxAntennaProfile_bytes:
  "TxAntennaProfile_encode x = Some (if profile_in_range x
     then Some (PROPERTIES_VERSION # be_bytes 2 (tap_profile_id x)
            @ be_bytes 8 (tap_azimuth_degrees x) @ be_bytes 8 (tap_elevation_degrees x))
     else None)"
  by (simp add: TxAntennaProfile_encode_def codec_simps del: append_assoc append.simps)

lemma RxAntennaRemove_bytes:
  "RxAntennaRemove_encode x = PROPERTIES_VERSION # be_bytes 2 (rar_antenna_index x)"
  by (simp add: RxAntennaRemove_encode_def numeral_2_eq_2)

lemma ModelHeader_bytes:
  "ModelHeader_encode x = Some (PROPERTIES_VERSION # be_bytes 2 (mh_registration_id x)
     @ be_bytes 8 (mh_sequence x) @ be_bytes 8 (mh_data_rate_bps x)
     @ mh_category x # mh_message_type x # be_bytes 2 (mh_flags x) @ [0])"
  by (simp add: ModelHeader_encode_def codec_simps del: append_assoc append.simps)

lemma TxProperties_bytes:
  "TxProperties_encode x = Some (PROPERTIES_VERSION # be_bytes 8 (txp_frequency_hz x)
     @ be_bytes 8 (txp_bandwidth_hz x) @ be_bytes 8 (txp_tx_power_dbm x)
     @ be_bytes 8 (txp_duration_microseconds x) @ be_bytes 8 (txp_offset_microseconds x)
     @ be_bytes 8 (txp_tx_time_microseconds x) @ be_bytes 2 (txp_antenna_index x)
     @ be_bytes 2 (txp_spectral_mask_index x) @ be_bytes 2 (txp_sub_id x))"
  by (simp add: TxProperties_encode_def codec_simps del: append_assoc append.simps)

lemma RxProperties_bytes:
  "RxProperties_encode x = Some (PROPERTIES_VERSION # be_bytes 8 (rxp_frequency_hz x)
     @ be_bytes 8 (rxp_bandwidth_hz x) @ be_bytes 8 (rxp_rx_power_dbm x)
     @ be_bytes 8 (rxp_noise_floor_dbm x) @ be_bytes 8 (rxp_tx_time_microseconds x)
     @ be_bytes 8 (rxp_propagation_microseconds x) @ be_bytes 8 (rxp_duration_microseconds x)
     @ be_bytes 2 (rxp_antenna_index x) @ be_bytes 2 (rxp_sub_id x)
     @ [of_bool (rxp_signal_in_noise x), 0])"
  by (simp add: RxProperties_encode_def codec_simps del: append_assoc append.simps)


section \<open>Interpretations\<close>

text \<open>The bytes of a buffer of known length are the concatenation of its fields.\<close>

lemma take_drop_last: "length d \<le> i + n \<Longrightarrow> take n (drop i d) = drop i d"
  by simp

lemmas fixed_decode_defs =
  FlowControlToken_decode_def R2riSelfMetric_decode_def CommEffectHeader_decode_def
  TimingAnalysisHeader_decode_def TxAntennaProfile_decode_def RxAntennaRemove_decode_def
  ModelHeader_decode_def TxProperties_decode_def RxProperties_decode_def

lemmas fixed_bytes =
  FlowControlToken_bytes R2riSelfMetric_bytes CommEffectHeader_bytes TimingAnalysisHeader_bytes
  TxAntennaProfile_bytes RxAntennaRemove_bytes ModelHeader_bytes TxProperties_bytes RxProperties_bytes

lemma TxAntennaProfile_eta [simp]:
  "\<lparr>tap_profile_id = tap_profile_id x, tap_azimuth_degrees = tap_azimuth_degrees x,
    tap_elevation_degrees = tap_elevation_degrees x\<rparr> = x"
  by (cases x) simp

lemmas fixed_codec_simps =
  fixed_decode_defs fixed_bytes codec_simps versioned_conv slice_join index_get_def
  nth_append take_drop_last Let_def

interpretation flow_control_token: canonical_codec
  "map_option Some \<circ> FlowControlToken_encode" FlowControlToken_decode
  by unfold_locales (auto simp: fixed_codec_simps split: if_splits)

interpretation self_metric: canonical_codec
  "map_option Some \<circ> R2riSelfMetric_encode" R2riSelfMetric_decode
  by unfold_locales (auto simp: fixed_codec_simps split: if_splits)

interpretation comm_effect_header: canonical_codec
  "map_option Some \<circ> CommEffectHeader_encode" CommEffectHeader_decode
  by unfold_locales (auto simp: fixed_codec_simps split: if_splits)

interpretation timing_analysis_header: canonical_codec
  "map_option Some \<circ> TimingAnalysisHeader_encode" TimingAnalysisHeader_decode
  by unfold_locales (auto simp: fixed_codec_simps split: if_splits)

interpretation tx_antenna_profile: canonical_codec
  TxAntennaProfile_encode TxAntennaProfile_decode
  by unfold_locales (auto simp: fixed_codec_simps split: if_splits)

interpretation rx_antenna_remove: canonical_codec
  "Some \<circ> Some \<circ> RxAntennaRemove_encode" RxAntennaRemove_decode
  by unfold_locales (auto simp: fixed_codec_simps split: if_splits)

interpretation model_header: wire_codec
  "map_option Some \<circ> ModelHeader_encode" ModelHeader_decode
  by unfold_locales (auto simp: fixed_codec_simps split: if_splits)

interpretation tx_properties: canonical_codec
  "map_option Some \<circ> TxProperties_encode" TxProperties_decode
  by unfold_locales (auto simp: fixed_codec_simps split: if_splits)

interpretation rx_properties: wire_codec
  "map_option Some \<circ> RxProperties_encode" RxProperties_decode
  by unfold_locales (auto simp: fixed_codec_simps split: if_splits)

end
