(* ===== verification/Wire_Lists.thy ===== *)
theory Wire_Lists
  imports Wire_Control
begin

text \<open>
  The control payloads of \<^verbatim>\<open>rust/emane-plugin-api/src/lib.rs\<close> that carry a
  counted list of fixed-width entries: queue and neighbor metrics, frequencies of interest,
  transmit and receive frequency segments, and collaborative transmitters. The entry formats
  are interpretations of \<open>fixed_entry\<close>, the payloads of \<open>canonical_codec\<close>.
\<close>


section \<open>The common frame of a counted payload\<close>

text \<open>
  Every payload starts with the version byte and a big-endian \<open>u16\<close> count; the decoder
  checks the total length with checked arithmetic before it reads any entry.
\<close>

definition counted_length_ok :: "byte list \<Rightarrow> nat \<Rightarrow> nat \<Rightarrow> nat \<Rightarrow> bool option" where
  "counted_length_ok data header count entry_len = do {
     entries \<leftarrow> checked_mul count entry_len;
     total \<leftarrow> checked_add header entries;
     Some (length data = total) }"

text \<open>
  The encoders push the version, the count and the entries; the decoders read the count, check
  the length and collect the entries. Some formats reject an empty list.
\<close>

definition encode_counted :: "bool \<Rightarrow> ('e \<Rightarrow> byte list) \<Rightarrow> 'e list \<Rightarrow> byte list option" where
  "encode_counted allow_empty enc es = do {
     count \<leftarrow> u16_try_from (length es);
     if \<not> allow_empty \<and> count = 0 then None
     else Some (PROPERTIES_VERSION # be_bytes 2 count @ concat (map enc es)) }"

definition decode_counted ::
  "bool \<Rightarrow> (byte list \<Rightarrow> nat \<Rightarrow> 'e panics) \<Rightarrow> nat \<Rightarrow> byte list \<Rightarrow> 'e list option panics" where
  "decode_counted allow_empty entry_at len data =
     (if length data < 3 \<or> data ! 0 \<noteq> PROPERTIES_VERSION then Some None
      else do {
        count \<leftarrow> get_u16 data 1;
        let count = unat count;
        if \<not> allow_empty \<and> count = 0 then Some None
        else case counted_length_ok data 3 count len of
          None \<Rightarrow> Some None
        | Some ok \<Rightarrow>
            if \<not> ok then Some None
            else do {
              es \<leftarrow> collect_entries entry_at data 3 len count;
              Some (Some es) } })"

text \<open>\<open>predicate.then_some(result)\<close> on a decoded value.\<close>

definition then_some :: "('a \<Rightarrow> bool) \<Rightarrow> 'a option panics \<Rightarrow> 'a option panics" where
  "then_some ok r = do {
     x \<leftarrow> r;
     Some (case x of None \<Rightarrow> None | Some v \<Rightarrow> if ok v then Some v else None) }"

lemma then_some_Some [simp]: "then_some ok r = Some (Some v) \<longleftrightarrow> r = Some (Some v) \<and> ok v"
  by (auto simp: then_some_def split: Option.bind_splits option.splits if_splits)

lemma then_some_panic [simp]: "then_some ok r = None \<longleftrightarrow> r = None"
  by (auto simp: then_some_def split: Option.bind_splits)

lemma counted_length_ok_small:
  "count < 65536 \<Longrightarrow> entry_len \<le> 66 \<Longrightarrow> header \<le> 100 \<Longrightarrow>
   counted_length_ok data header count entry_len = Some (length data = header + count * entry_len)"
proof -
  assume "count < 65536" "entry_len \<le> 66" "header \<le> 100"
  then have "count * entry_len \<le> 65536 * 66" by (intro mult_le_mono) auto
  then show ?thesis
    using \<open>header \<le> 100\<close>
    by (simp add: counted_length_ok_def checked_mul_def checked_add_def usize_max_def)
qed


context fixed_entry begin

lemma encode_counted_Some:
  "encode_counted z enc es = Some d \<longleftrightarrow>
     length es < 65536 \<and> (z \<or> es \<noteq> [])
     \<and> d = PROPERTIES_VERSION # be_bytes 2 (word_of_nat (length es) :: u16) @ concat (map enc es)"
  by (auto simp: encode_counted_def u16_try_from_def split: Option.bind_splits if_splits)

lemma decode_encode_counted:
  assumes "encode_counted z enc es = Some d" and "len \<le> 66"
  shows "decode_counted z entry_at len d = Some (Some es)"
proof -
  let ?p = "PROPERTIES_VERSION # be_bytes 2 (word_of_nat (length es) :: u16)"
  from assms(1) have n: "length es < 65536" "z \<or> es \<noteq> []" and d: "d = ?p @ concat (map enc es) @ []"
    by (auto simp: encode_counted_Some)
  have "collect_entries entry_at d 3 len (length es) = Some es"
    unfolding d by (intro collect_entries_enc) simp_all
  moreover have "counted_length_ok d 3 (length es) len = Some True"
    using n assms(2) by (simp add: counted_length_ok_small d mult.commute)
  moreover have "get_u16 d 1 = Some (word_of_nat (length es))"
    by (simp add: d get_u16_def)
  ultimately show ?thesis
    using n by (auto simp: decode_counted_def d)
qed

lemma decode_counted_no_panic:
  assumes "len \<le> 66"
  shows "decode_counted z entry_at len d \<noteq> None"
proof (cases "length d < 3")
  case False
  then obtain c where c: "get_u16 d 1 = Some c" by (auto simp: get_u16_def)
  have "length d = 3 + unat c * len \<Longrightarrow> \<exists>es. collect_entries entry_at d 3 len (unat c) = Some es"
    using collect_entries_canonical [of 3 "unat c" d] by auto
  with c assms show ?thesis
    by (auto simp: decode_counted_def counted_length_ok_small Let_def)
qed (simp add: decode_counted_def)

lemma encode_decode_counted:
  assumes "decode_counted z entry_at len d = Some (Some es)" and "len \<le> 66"
  shows "encode_counted z enc es = Some d"
proof -
  from assms(1) obtain c where *: "3 \<le> length d" "d ! 0 = PROPERTIES_VERSION" "get_u16 d 1 = Some c"
      "z \<or> c \<noteq> 0" "counted_length_ok d 3 (unat c) len = Some True"
      "collect_entries entry_at d 3 len (unat c) = Some es"
    by (auto simp: decode_counted_def unat_eq_zero Let_def split: if_splits Option.bind_splits option.splits)
  have l: "length d = 3 + unat c * len"
    using *(5) assms(2) by (simp add: counted_length_ok_small)
  note all = collect_entries_all [OF *(6) l]
  have "be_bytes 2 c = take 2 (drop 1 d)"
    using *(1,3) by (auto simp: get_u16_def take_Suc_Suc_0)
  then have "d = PROPERTIES_VERSION # be_bytes 2 c @ drop 3 d"
    using *(1,2) take_drop_drop_join [of 3 1 2 d] by (cases d) auto
  moreover have "es \<noteq> [] \<or> z"
    using *(4) all(1) by (auto simp: unat_eq_zero)
  ultimately show ?thesis
    using all by (auto simp: encode_counted_Some)
qed

end


section \<open>R2riQueueMetrics\<close>

record R2riQueueMetric =
  rqm_queue_id :: u16
  rqm_max_size :: u32
  rqm_current_depth_high_water :: u32
  rqm_num_discards_high_water :: u32
  rqm_average_delay_microseconds :: u64

definition R2riQueueMetric_bytes :: "R2riQueueMetric \<Rightarrow> byte list" where
  "R2riQueueMetric_bytes metric =
     be_bytes 2 (rqm_queue_id metric)
     @ be_bytes 4 (rqm_max_size metric)
     @ be_bytes 4 (rqm_current_depth_high_water metric)
     @ be_bytes 4 (rqm_num_discards_high_water metric)
     @ be_bytes 8 (rqm_average_delay_microseconds metric)"

definition R2riQueueMetric_at :: "byte list \<Rightarrow> nat \<Rightarrow> R2riQueueMetric panics" where
  "R2riQueueMetric_at data offset = do {
     queue_id \<leftarrow> get_u16 data offset;
     max_size \<leftarrow> get_u32 data (offset + 2);
     depth \<leftarrow> get_u32 data (offset + 6);
     discards \<leftarrow> get_u32 data (offset + 10);
     delay \<leftarrow> get_u64 data (offset + 14);
     Some \<lparr>rqm_queue_id = queue_id, rqm_max_size = max_size, rqm_current_depth_high_water = depth,
           rqm_num_discards_high_water = discards, rqm_average_delay_microseconds = delay\<rparr> }"

definition R2riQueueMetrics_encode :: "R2riQueueMetric list \<Rightarrow> byte list option" where
  "R2riQueueMetrics_encode metrics = encode_counted True R2riQueueMetric_bytes metrics"

definition R2riQueueMetrics_decode :: "byte list \<Rightarrow> R2riQueueMetric list option panics" where
  "R2riQueueMetrics_decode data = decode_counted True R2riQueueMetric_at 22 data"

interpretation queue_metric_entry: fixed_entry R2riQueueMetric_bytes R2riQueueMetric_at 22
  by (rule fixed_entry.intro)
    (simp add: R2riQueueMetric_bytes_def,
     simp add: R2riQueueMetric_at_def R2riQueueMetric_bytes_def codec_simps,
     simp add: R2riQueueMetric_at_def R2riQueueMetric_bytes_def codec_simps slice_join)

interpretation queue_metrics: canonical_codec
  "Some \<circ> R2riQueueMetrics_encode" R2riQueueMetrics_decode
  by unfold_locales
    (auto simp: R2riQueueMetrics_decode_def R2riQueueMetrics_encode_def
       queue_metric_entry.decode_counted_no_panic split: if_splits
       dest: queue_metric_entry.decode_encode_counted queue_metric_entry.encode_decode_counted)


section \<open>R2riNeighborMetrics\<close>

record R2riNeighborMetric =
  rnm_nem_id :: u16
  rnm_num_rx_frames :: u64
  rnm_num_tx_frames :: u64
  rnm_num_missed_frames :: u64
  rnm_bandwidth_consumption_microseconds :: u64
  rnm_sinr_average_db :: f32
  rnm_sinr_stddev :: f32
  rnm_noise_floor_average_dbm :: f32
  rnm_noise_floor_stddev :: f32
  rnm_rx_average_data_rate_bps :: u64
  rnm_tx_average_data_rate_bps :: u64

definition neighbor_metric_finite :: "R2riNeighborMetric \<Rightarrow> bool" where
  "neighbor_metric_finite metric \<longleftrightarrow>
     f32_is_finite (rnm_sinr_average_db metric) \<and> f32_is_finite (rnm_sinr_stddev metric)
     \<and> f32_is_finite (rnm_noise_floor_average_dbm metric) \<and> f32_is_finite (rnm_noise_floor_stddev metric)"

definition R2riNeighborMetric_bytes :: "R2riNeighborMetric \<Rightarrow> byte list" where
  "R2riNeighborMetric_bytes metric =
     be_bytes 2 (rnm_nem_id metric)
     @ be_bytes 8 (rnm_num_rx_frames metric)
     @ be_bytes 8 (rnm_num_tx_frames metric)
     @ be_bytes 8 (rnm_num_missed_frames metric)
     @ be_bytes 8 (rnm_bandwidth_consumption_microseconds metric)
     @ be_bytes 4 (rnm_sinr_average_db metric)
     @ be_bytes 4 (rnm_sinr_stddev metric)
     @ be_bytes 4 (rnm_noise_floor_average_dbm metric)
     @ be_bytes 4 (rnm_noise_floor_stddev metric)
     @ be_bytes 8 (rnm_rx_average_data_rate_bps metric)
     @ be_bytes 8 (rnm_tx_average_data_rate_bps metric)"

definition R2riNeighborMetric_at :: "byte list \<Rightarrow> nat \<Rightarrow> R2riNeighborMetric panics" where
  "R2riNeighborMetric_at data offset = do {
     nem_id \<leftarrow> get_u16 data offset;
     rx_frames \<leftarrow> get_u64 data (offset + 2);
     tx_frames \<leftarrow> get_u64 data (offset + 10);
     missed \<leftarrow> get_u64 data (offset + 18);
     bandwidth \<leftarrow> get_u64 data (offset + 26);
     sinr_average \<leftarrow> get_u32 data (offset + 34);
     sinr_stddev \<leftarrow> get_u32 data (offset + 38);
     noise_average \<leftarrow> get_u32 data (offset + 42);
     noise_stddev \<leftarrow> get_u32 data (offset + 46);
     rx_rate \<leftarrow> get_u64 data (offset + 50);
     tx_rate \<leftarrow> get_u64 data (offset + 58);
     Some \<lparr>rnm_nem_id = nem_id, rnm_num_rx_frames = rx_frames, rnm_num_tx_frames = tx_frames,
           rnm_num_missed_frames = missed, rnm_bandwidth_consumption_microseconds = bandwidth,
           rnm_sinr_average_db = sinr_average, rnm_sinr_stddev = sinr_stddev,
           rnm_noise_floor_average_dbm = noise_average, rnm_noise_floor_stddev = noise_stddev,
           rnm_rx_average_data_rate_bps = rx_rate, rnm_tx_average_data_rate_bps = tx_rate\<rparr> }"

definition R2riNeighborMetrics_encode :: "R2riNeighborMetric list \<Rightarrow> byte list option" where
  "R2riNeighborMetrics_encode metrics =
     (if list_all neighbor_metric_finite metrics
      then encode_counted True R2riNeighborMetric_bytes metrics else None)"

definition R2riNeighborMetrics_decode :: "byte list \<Rightarrow> R2riNeighborMetric list option panics" where
  "R2riNeighborMetrics_decode data =
     then_some (list_all neighbor_metric_finite) (decode_counted True R2riNeighborMetric_at 66 data)"

interpretation neighbor_metric_entry: fixed_entry R2riNeighborMetric_bytes R2riNeighborMetric_at 66
  by (rule fixed_entry.intro)
    (simp add: R2riNeighborMetric_bytes_def,
     simp add: R2riNeighborMetric_at_def R2riNeighborMetric_bytes_def codec_simps,
     simp add: R2riNeighborMetric_at_def R2riNeighborMetric_bytes_def codec_simps slice_join)

interpretation neighbor_metrics: canonical_codec
  "Some \<circ> R2riNeighborMetrics_encode" R2riNeighborMetrics_decode
  by unfold_locales
    (auto simp: R2riNeighborMetrics_decode_def R2riNeighborMetrics_encode_def
       neighbor_metric_entry.decode_counted_no_panic split: if_splits
       dest: neighbor_metric_entry.decode_encode_counted neighbor_metric_entry.encode_decode_counted)


section \<open>TxFrequencySegments\<close>

record TxFrequencySegment =
  tfs_frequency_hz :: u64
  tfs_duration_microseconds :: u64
  tfs_offset_microseconds :: u64

definition TxFrequencySegment_bytes :: "TxFrequencySegment \<Rightarrow> byte list" where
  "TxFrequencySegment_bytes segment =
     be_bytes 8 (tfs_frequency_hz segment) @ be_bytes 8 (tfs_duration_microseconds segment)
     @ be_bytes 8 (tfs_offset_microseconds segment)"

definition TxFrequencySegment_at :: "byte list \<Rightarrow> nat \<Rightarrow> TxFrequencySegment panics" where
  "TxFrequencySegment_at data offset = do {
     frequency \<leftarrow> get_u64 data offset;
     duration \<leftarrow> get_u64 data (offset + 8);
     off \<leftarrow> get_u64 data (offset + 16);
     Some \<lparr>tfs_frequency_hz = frequency, tfs_duration_microseconds = duration,
           tfs_offset_microseconds = off\<rparr> }"

definition TxFrequencySegments_encode :: "TxFrequencySegment list \<Rightarrow> byte list option" where
  "TxFrequencySegments_encode segments = encode_counted False TxFrequencySegment_bytes segments"

definition TxFrequencySegments_decode :: "byte list \<Rightarrow> TxFrequencySegment list option panics" where
  "TxFrequencySegments_decode data = decode_counted False TxFrequencySegment_at 24 data"

interpretation tx_segment_entry: fixed_entry TxFrequencySegment_bytes TxFrequencySegment_at 24
  by (rule fixed_entry.intro)
    (simp add: TxFrequencySegment_bytes_def,
     simp add: TxFrequencySegment_at_def TxFrequencySegment_bytes_def codec_simps,
     simp add: TxFrequencySegment_at_def TxFrequencySegment_bytes_def codec_simps slice_join)

interpretation tx_segments: canonical_codec
  "Some \<circ> TxFrequencySegments_encode" TxFrequencySegments_decode
  by unfold_locales
    (auto simp: TxFrequencySegments_decode_def TxFrequencySegments_encode_def
       tx_segment_entry.decode_counted_no_panic split: if_splits
       dest: tx_segment_entry.decode_encode_counted tx_segment_entry.encode_decode_counted)


section \<open>RxFrequencySegments\<close>

record RxFrequencySegment =
  rfs_frequency_hz :: u64
  rfs_rx_power_dbm :: f64
  rfs_duration_microseconds :: u64
  rfs_offset_microseconds :: u64

definition RxFrequencySegment_bytes :: "RxFrequencySegment \<Rightarrow> byte list" where
  "RxFrequencySegment_bytes segment =
     be_bytes 8 (rfs_frequency_hz segment) @ be_bytes 8 (rfs_rx_power_dbm segment)
     @ be_bytes 8 (rfs_duration_microseconds segment) @ be_bytes 8 (rfs_offset_microseconds segment)"

definition RxFrequencySegment_at :: "byte list \<Rightarrow> nat \<Rightarrow> RxFrequencySegment panics" where
  "RxFrequencySegment_at data offset = do {
     frequency \<leftarrow> get_u64 data offset;
     rx_power \<leftarrow> get_u64 data (offset + 8);
     duration \<leftarrow> get_u64 data (offset + 16);
     off \<leftarrow> get_u64 data (offset + 24);
     Some \<lparr>rfs_frequency_hz = frequency, rfs_rx_power_dbm = rx_power,
           rfs_duration_microseconds = duration, rfs_offset_microseconds = off\<rparr> }"

definition rx_segment_finite :: "RxFrequencySegment \<Rightarrow> bool" where
  "rx_segment_finite segment \<longleftrightarrow> f64_is_finite (rfs_rx_power_dbm segment)"

definition RxFrequencySegments_encode :: "RxFrequencySegment list \<Rightarrow> byte list option" where
  "RxFrequencySegments_encode segments =
     (if list_all rx_segment_finite segments
      then encode_counted False RxFrequencySegment_bytes segments else None)"

definition RxFrequencySegments_decode :: "byte list \<Rightarrow> RxFrequencySegment list option panics" where
  "RxFrequencySegments_decode data =
     then_some (list_all rx_segment_finite) (decode_counted False RxFrequencySegment_at 32 data)"

interpretation rx_segment_entry: fixed_entry RxFrequencySegment_bytes RxFrequencySegment_at 32
  by (rule fixed_entry.intro)
    (simp add: RxFrequencySegment_bytes_def,
     simp add: RxFrequencySegment_at_def RxFrequencySegment_bytes_def codec_simps,
     simp add: RxFrequencySegment_at_def RxFrequencySegment_bytes_def codec_simps slice_join)

interpretation rx_segments: canonical_codec
  "Some \<circ> RxFrequencySegments_encode" RxFrequencySegments_decode
  by unfold_locales
    (auto simp: RxFrequencySegments_decode_def RxFrequencySegments_encode_def
       rx_segment_entry.decode_counted_no_panic split: if_splits
       dest: rx_segment_entry.decode_encode_counted rx_segment_entry.encode_decode_counted)


section \<open>FfiSpectrumQuery\<close>

text \<open>The spectrum query of a received frame, of one of its segments where it has several.\<close>

record FfiSpectrumQuery =
  fsq_frequency_hz :: u64
  fsq_start_time_microseconds :: i64
  fsq_duration_microseconds :: u64
  fsq_rx_power_dbm :: f64
  fsq_antenna_index :: u16

definition FfiSpectrumQuery_from_rx :: "RxProperties \<Rightarrow> RxFrequencySegment option \<Rightarrow> FfiSpectrumQuery" where
  "FfiSpectrumQuery_from_rx rx segment =
     \<lparr>fsq_frequency_hz = (case segment of None \<Rightarrow> rxp_frequency_hz rx | Some s \<Rightarrow> rfs_frequency_hz s),
      fsq_start_time_microseconds =
        i64_saturating_add
          (i64_saturating_add (rxp_tx_time_microseconds rx)
             (i64_from_u64_or_max (rxp_propagation_microseconds rx)))
          (case segment of None \<Rightarrow> 0 | Some s \<Rightarrow> i64_from_u64_or_max (rfs_offset_microseconds s)),
      fsq_duration_microseconds = max (rxp_duration_microseconds rx) 1,
      fsq_rx_power_dbm = (case segment of None \<Rightarrow> rxp_rx_power_dbm rx | Some s \<Rightarrow> rfs_rx_power_dbm s),
      fsq_antenna_index = 0\<rparr>"


section \<open>TxTransmitters\<close>

record TxTransmitter =
  ttx_nem_id :: u16
  ttx_tx_power_dbm :: f64

definition TxTransmitter_bytes :: "TxTransmitter \<Rightarrow> byte list" where
  "TxTransmitter_bytes transmitter =
     be_bytes 2 (ttx_nem_id transmitter) @ be_bytes 8 (ttx_tx_power_dbm transmitter)"

definition TxTransmitter_at :: "byte list \<Rightarrow> nat \<Rightarrow> TxTransmitter panics" where
  "TxTransmitter_at data offset = do {
     nem_id \<leftarrow> get_u16 data offset;
     tx_power \<leftarrow> get_u64 data (offset + 2);
     Some \<lparr>ttx_nem_id = nem_id, ttx_tx_power_dbm = tx_power\<rparr> }"

definition transmitter_valid :: "TxTransmitter \<Rightarrow> bool" where
  "transmitter_valid transmitter \<longleftrightarrow>
     ttx_nem_id transmitter \<noteq> 0 \<and> f64_is_finite (ttx_tx_power_dbm transmitter)"

definition TxTransmitters_encode :: "TxTransmitter list \<Rightarrow> byte list option" where
  "TxTransmitters_encode transmitters =
     (if list_all transmitter_valid transmitters
      then encode_counted False TxTransmitter_bytes transmitters else None)"

definition TxTransmitters_decode :: "byte list \<Rightarrow> TxTransmitter list option panics" where
  "TxTransmitters_decode data =
     then_some (list_all transmitter_valid) (decode_counted False TxTransmitter_at 10 data)"

interpretation transmitter_entry: fixed_entry TxTransmitter_bytes TxTransmitter_at 10
  by (rule fixed_entry.intro)
    (simp add: TxTransmitter_bytes_def,
     simp add: TxTransmitter_at_def TxTransmitter_bytes_def codec_simps,
     simp add: TxTransmitter_at_def TxTransmitter_bytes_def codec_simps slice_join)

interpretation transmitters: canonical_codec
  "Some \<circ> TxTransmitters_encode" TxTransmitters_decode
  by unfold_locales
    (auto simp: TxTransmitters_decode_def TxTransmitters_encode_def
       transmitter_entry.decode_counted_no_panic split: if_splits
       dest: transmitter_entry.decode_encode_counted transmitter_entry.encode_decode_counted)


section \<open>FrequencyOfInterest\<close>

record FrequencyOfInterest =
  foi_bandwidth_hz :: u64
  foi_frequencies_hz :: "u64 list"

definition FrequencyOfInterest_encode :: "FrequencyOfInterest \<Rightarrow> byte list option" where
  "FrequencyOfInterest_encode self = do {
     count \<leftarrow> u16_try_from (length (foi_frequencies_hz self));
     if foi_bandwidth_hz self = 0 \<or> count = 0 \<or> 0 \<in> set (foi_frequencies_hz self) then None
     else Some (PROPERTIES_VERSION # be_bytes 2 count @ be_bytes 8 (foi_bandwidth_hz self)
                 @ concat (map (be_bytes 8) (foi_frequencies_hz self))) }"

definition FrequencyOfInterest_decode :: "byte list \<Rightarrow> FrequencyOfInterest option panics" where
  "FrequencyOfInterest_decode data =
     (if length data < 19 \<or> data ! 0 \<noteq> PROPERTIES_VERSION then Some None
      else do {
        count \<leftarrow> get_u16 data 1;
        let count = unat count;
        if count = 0 then Some None
        else case counted_length_ok data 11 count 8 of
          None \<Rightarrow> Some None
        | Some ok \<Rightarrow>
            if \<not> ok then Some None
            else do {
              bandwidth \<leftarrow> get_u64 data 3;
              frequencies \<leftarrow> collect_entries get_u64 data 11 8 count;
              Some (if bandwidth \<noteq> 0 \<and> 0 \<notin> set frequencies
                    then Some \<lparr>foi_bandwidth_hz = bandwidth, foi_frequencies_hz = frequencies\<rparr>
                    else None) } })"

interpretation frequency_entry: fixed_entry "be_bytes 8" get_u64 8
  by (rule fixed_entry.intro) (simp_all add: get_u64_def)

lemma FrequencyOfInterest_no_panic: "FrequencyOfInterest_decode d \<noteq> None"
proof (cases "length d < 19")
  case False
  then obtain c b where "get_u16 d 1 = Some c" "get_u64 d 3 = Some b"
    by (auto simp: get_defs)
  moreover have "length d = 11 + unat c * 8 \<Longrightarrow> \<exists>fs. collect_entries get_u64 d 11 8 (unat c) = Some fs"
    using frequency_entry.collect_entries_canonical [of 11 "unat c" d] by auto
  ultimately show ?thesis
    by (auto simp: FrequencyOfInterest_decode_def counted_length_ok_small Let_def)
qed (simp add: FrequencyOfInterest_decode_def)

lemma FrequencyOfInterest_roundtrip:
  assumes "FrequencyOfInterest_encode x = Some d"
  shows "FrequencyOfInterest_decode d = Some (Some x)"
proof -
  let ?fs = "foi_frequencies_hz x"
  let ?p = "PROPERTIES_VERSION # be_bytes 2 (word_of_nat (length ?fs) :: u16) @ be_bytes 8 (foi_bandwidth_hz x)"
  from assms have n: "length ?fs < 65536" "?fs \<noteq> []" "foi_bandwidth_hz x \<noteq> 0" "0 \<notin> set ?fs"
    and d: "d = ?p @ concat (map (be_bytes 8) ?fs) @ []"
    by (auto simp: FrequencyOfInterest_encode_def u16_try_from_Some split: Option.bind_splits if_splits)
  have "collect_entries get_u64 d 11 8 (length ?fs) = Some ?fs"
    unfolding d by (intro frequency_entry.collect_entries_enc) simp_all
  moreover have "19 \<le> length d" "counted_length_ok d 11 (length ?fs) 8 = Some True"
    using n by (cases ?fs; simp add: counted_length_ok_small d)+
  moreover have "get_u16 d 1 = Some (word_of_nat (length ?fs))" "get_u64 d 3 = Some (foi_bandwidth_hz x)"
    by (simp_all add: d get_defs)
  ultimately show ?thesis
    using n by (cases x) (auto simp: FrequencyOfInterest_decode_def d)
qed

lemma FrequencyOfInterest_canonical:
  assumes "FrequencyOfInterest_decode d = Some (Some x)"
  shows "FrequencyOfInterest_encode x = Some d"
proof -
  from assms obtain c b fs where *: "19 \<le> length d" "d ! 0 = PROPERTIES_VERSION" "get_u16 d 1 = Some c"
      "c \<noteq> 0" "counted_length_ok d 11 (unat c) 8 = Some True" "get_u64 d 3 = Some b"
      "collect_entries get_u64 d 11 8 (unat c) = Some fs"
    and x: "x = \<lparr>foi_bandwidth_hz = b, foi_frequencies_hz = fs\<rparr>" "b \<noteq> 0" "0 \<notin> set fs"
    by (auto simp: FrequencyOfInterest_decode_def unat_eq_zero Let_def
        split: if_splits Option.bind_splits option.splits)
  have l: "length d = 11 + unat c * 8"
    using *(5) by (simp add: counted_length_ok_small)
  note all = frequency_entry.collect_entries_all [OF *(7) l]
  have "be_bytes 2 c = take 2 (drop 1 d)" "be_bytes 8 b = take 8 (drop 3 d)"
    using *(1,3,6) by (auto simp: get_defs take_Suc_Suc_0)
  then have "d = PROPERTIES_VERSION # be_bytes 2 c @ be_bytes 8 b @ drop 11 d"
    using *(1,2) take_drop_drop_join [of 3 1 2 d] take_drop_drop_join [of 11 3 8 d] by (cases d) auto
  then show ?thesis
    using all *(4) x by (auto simp: FrequencyOfInterest_encode_def u16_try_from_def unat_eq_zero)
qed

interpretation frequency_of_interest: canonical_codec
  "Some \<circ> FrequencyOfInterest_encode" FrequencyOfInterest_decode
  by unfold_locales
    (auto simp: FrequencyOfInterest_no_panic
       dest: FrequencyOfInterest_roundtrip FrequencyOfInterest_canonical)

end
