(* ===== verification/Wire_Mimo.thy ===== *)
theory Wire_Mimo
  imports Wire_Lists
begin

text \<open>
  The control payloads of \<^verbatim>\<open>rust/emane-plugin-api/src/lib.rs\<close> with nested
  lists, read with a moving offset: antenna patterns, MIMO transmit and receive properties,
  and receive antenna additions.
\<close>

definition MIMO_TX_PROPERTIES_VERSION :: u8 where "MIMO_TX_PROPERTIES_VERSION = 2"
definition MIMO_RX_PROPERTIES_VERSION :: u8 where "MIMO_RX_PROPERTIES_VERSION = 2"


section \<open>AntennaPattern\<close>

datatype AntennaPattern = DefaultPattern | IdealOmni (gain_db: f64) | Profile TxAntennaProfile

text \<open>\<open>encode\<close> pushes 27 bytes on the buffer, or returns \<open>None\<close> before it
  pushes any.\<close>

definition AntennaPattern_encode :: "AntennaPattern \<Rightarrow> byte list \<Rightarrow> byte list option panics" where
  "AntennaPattern_encode self data = do {
     fields \<leftarrow> (case self of
         DefaultPattern \<Rightarrow> Some (Some (0, 0, 0, 0, 0))
       | IdealOmni gain \<Rightarrow>
           Some (if f64_is_finite gain then Some (1, gain, 0, 0, 0) else None)
       | Profile profile \<Rightarrow> do {
           r \<leftarrow> TxAntennaProfile_encode profile;
           Some (if r \<noteq> None
                 then Some (2, 0, tap_profile_id profile, tap_azimuth_degrees profile,
                            tap_elevation_degrees profile)
                 else None) });
     Some (case fields of None \<Rightarrow> None
       | Some (kind, gain, profile_id, azimuth, elevation) \<Rightarrow>
           Some (data @ [kind :: u8] @ be_bytes 8 (gain :: f64) @ be_bytes 2 (profile_id :: u16)
                 @ be_bytes 8 (azimuth :: f64) @ be_bytes 8 (elevation :: f64))) }"

text \<open>Inside \<open>decode\<close> the profile is validated by \<open>profile.encode().map(..)\<close>;
  that call does not panic (lemma \<open>TxAntennaProfile_bytes\<close>).\<close>

definition AntennaPattern_decode :: "byte list \<Rightarrow> nat \<Rightarrow> (AntennaPattern \<times> nat) option" where
  "AntennaPattern_decode data offset = do {
     kind \<leftarrow> index_get data offset;
     let offset = offset + 1;
     (gain_db, offset) \<leftarrow> read_u64 data offset;
     (profile_id, offset) \<leftarrow> read_u16 data offset;
     (azimuth, offset) \<leftarrow> read_u64 data offset;
     (elevation, offset) \<leftarrow> read_u64 data offset;
     if kind = 0 then Some (DefaultPattern, offset)
     else if kind = 1 \<and> f64_is_finite gain_db then Some (IdealOmni gain_db, offset)
     else if kind = 2 then
       (let profile = \<lparr>tap_profile_id = profile_id, tap_azimuth_degrees = azimuth,
                       tap_elevation_degrees = elevation\<rparr>
        in case TxAntennaProfile_encode profile of
             Some (Some _) \<Rightarrow> Some (Profile profile, offset)
           | _ \<Rightarrow> None)
     else None }"

text \<open>The patterns an encoder accepts, and the 27 bytes it pushes for them.\<close>

fun pattern_valid :: "AntennaPattern \<Rightarrow> bool" where
  "pattern_valid DefaultPattern \<longleftrightarrow> True"
| "pattern_valid (IdealOmni gain) \<longleftrightarrow> f64_is_finite gain"
| "pattern_valid (Profile profile) \<longleftrightarrow> profile_in_range profile"

fun pattern_bytes :: "AntennaPattern \<Rightarrow> byte list" where
  "pattern_bytes DefaultPattern = 0 # be_bytes 8 (0::f64) @ be_bytes 2 (0::u16) @ be_bytes 8 (0::f64) @ be_bytes 8 (0::f64)"
| "pattern_bytes (IdealOmni gain) = 1 # be_bytes 8 gain @ be_bytes 2 (0::u16) @ be_bytes 8 (0::f64) @ be_bytes 8 (0::f64)"
| "pattern_bytes (Profile profile) = 2 # be_bytes 8 (0::f64) @ be_bytes 2 (tap_profile_id profile)
     @ be_bytes 8 (tap_azimuth_degrees profile) @ be_bytes 8 (tap_elevation_degrees profile)"

lemma pattern_bytes_length [simp]: "length (pattern_bytes p) = 27"
  by (cases p) simp_all

lemma AntennaPattern_encode_bytes:
  "AntennaPattern_encode p data = Some (if pattern_valid p then Some (data @ pattern_bytes p) else None)"
  by (cases p) (simp_all add: AntennaPattern_encode_def TxAntennaProfile_bytes)

lemma pattern_fields:
  "\<exists>k g i a l. pattern_bytes e = [k] @ be_bytes 8 (g::f64) @ be_bytes 2 (i::u16) @ be_bytes 8 (a::f64) @ be_bytes 8 (l::f64)
     \<and> ((e = DefaultPattern \<and> k = 0) \<or> (e = IdealOmni g \<and> k = 1)
          \<or> (e = Profile \<lparr>tap_profile_id = i, tap_azimuth_degrees = a, tap_elevation_degrees = l\<rparr> \<and> k = 2))"
proof (cases e)
  case (Profile profile)
  then show ?thesis by (cases profile) fastforce
qed auto

lemmas true_rd_rest = u16_reader.rd_rest [OF TrueI] u64_reader.rd_rest [OF TrueI]

interpretation pattern_reader: entry_reader pattern_valid pattern_bytes AntennaPattern_decode
proof
  fix e p q and off :: nat
  assume v: "pattern_valid e" and n: "length (p @ pattern_bytes e @ q) \<le> usize_max" and off: "length p = off"
  obtain k g i a l where b: "pattern_bytes e = [k] @ be_bytes 8 (g::f64) @ be_bytes 2 (i::u16) @ be_bytes 8 (a::f64) @ be_bytes 8 (l::f64)"
    and e: "(e = DefaultPattern \<and> k = 0) \<or> (e = IdealOmni g \<and> k = 1)
            \<or> (e = Profile \<lparr>tap_profile_id = i, tap_azimuth_degrees = a, tap_elevation_degrees = l\<rparr> \<and> k = 2)"
    using pattern_fields [of e] by blast
  let ?d = "p @ pattern_bytes e @ q"
  have r: "rest_at ?d off ([k] @ be_bytes 8 g @ be_bytes 2 i @ be_bytes 8 a @ be_bytes 8 l @ q)"
    using n off b by (auto intro: rest_atI)
  note r1 = r [THEN rest_at_append] and r2 = r [THEN rest_at_append, THEN rest_at_append]
  note r3 = r2 [THEN rest_at_append] and r4 = r2 [THEN rest_at_append, THEN rest_at_append]
  have "index_get ?d off = Some k"
    using off b by (simp add: index_get_def nth_append)
  then show "AntennaPattern_decode ?d off = Some (e, off + length (pattern_bytes e))"
    using e v r1 [THEN true_rd_rest(2)] r2 [THEN true_rd_rest(1)] r3 [THEN true_rd_rest(2)] r4 [THEN true_rd_rest(2)]
    by (auto simp: AntennaPattern_decode_def TxAntennaProfile_bytes)
qed


section \<open>Pushing entries\<close>

text \<open>The encoders' loops: each entry pushes its bytes, and the first one that returns
  \<open>None\<close> ends the encoder (\<open>?\<close>).\<close>

fun push_all :: "('e \<Rightarrow> byte list \<Rightarrow> byte list option panics) \<Rightarrow> 'e list \<Rightarrow> byte list \<Rightarrow> byte list option panics" where
  "push_all push [] data = Some (Some data)"
| "push_all push (e # es) data = do {
     r \<leftarrow> push e data;
     (case r of None \<Rightarrow> Some None | Some data \<Rightarrow> push_all push es data) }"

lemma push_all_append:
  assumes "\<And>e data. e \<in> set es \<Longrightarrow> push e data = Some (if valid e then Some (data @ enc e) else None)"
  shows "push_all push es data =
    Some (if \<forall>e \<in> set es. valid e then Some (data @ concat (map enc es)) else None)"
  using assms by (induction es arbitrary: data) simp_all


section \<open>MimoTxProperties\<close>

record MimoTxFrequencySegment =
  mts_frequency_hz :: u64
  mts_tx_power_dbm :: f64
  mts_duration_microseconds :: u64
  mts_offset_microseconds :: u64

record MimoTxAntenna =
  mta_frequency_group_index :: u16
  mta_antenna_index :: u16
  mta_bandwidth_hz :: u64
  mta_spectral_mask_index :: u16
  mta_pattern :: AntennaPattern

record MimoTxProperties =
  mtp_frequency_groups :: "MimoTxFrequencySegment list list"
  mtp_transmit_antennas :: "MimoTxAntenna list"

definition MimoTx_SEGMENT_LEN :: nat where "MimoTx_SEGMENT_LEN = 32"
definition MimoTx_ANTENNA_LEN :: nat where "MimoTx_ANTENNA_LEN = 14 + 27"

definition MimoTxFrequencySegment_bytes :: "MimoTxFrequencySegment \<Rightarrow> byte list" where
  "MimoTxFrequencySegment_bytes segment =
     be_bytes 8 (mts_frequency_hz segment) @ be_bytes 8 (mts_tx_power_dbm segment)
     @ be_bytes 8 (mts_duration_microseconds segment) @ be_bytes 8 (mts_offset_microseconds segment)"

definition MimoTxFrequencySegment_read :: "byte list \<Rightarrow> nat \<Rightarrow> (MimoTxFrequencySegment \<times> nat) option" where
  "MimoTxFrequencySegment_read data offset = do {
     (frequency, offset) \<leftarrow> read_u64 data offset;
     (power, offset) \<leftarrow> read_u64 data offset;
     (duration, offset) \<leftarrow> read_u64 data offset;
     (off, offset) \<leftarrow> read_u64 data offset;
     Some (\<lparr>mts_frequency_hz = frequency, mts_tx_power_dbm = power,
            mts_duration_microseconds = duration, mts_offset_microseconds = off\<rparr>, offset) }"

definition MimoTxGroup_push :: "MimoTxFrequencySegment list \<Rightarrow> byte list \<Rightarrow> byte list option panics" where
  "MimoTxGroup_push segments data = Some (do {
     count \<leftarrow> u16_try_from (length segments);
     Some (data @ be_bytes 2 count @ concat (map MimoTxFrequencySegment_bytes segments)) })"

definition MimoTxGroup_read :: "byte list \<Rightarrow> nat \<Rightarrow> (MimoTxFrequencySegment list \<times> nat) option" where
  "MimoTxGroup_read data offset = do {
     (count, offset) \<leftarrow> read_u16 data offset;
     let count = unat count;
     if count = 0 then None
     else do {
       len \<leftarrow> checked_mul count MimoTx_SEGMENT_LEN;
       end \<leftarrow> checked_add offset len;
       if end > length data then None
       else read_many MimoTxFrequencySegment_read count data offset } }"

definition MimoTxAntenna_push :: "MimoTxAntenna \<Rightarrow> byte list \<Rightarrow> byte list option panics" where
  "MimoTxAntenna_push antenna data =
     AntennaPattern_encode (mta_pattern antenna)
       (data @ be_bytes 2 (mta_frequency_group_index antenna) @ be_bytes 2 (mta_antenna_index antenna)
        @ be_bytes 8 (mta_bandwidth_hz antenna) @ be_bytes 2 (mta_spectral_mask_index antenna))"

definition MimoTxAntenna_read :: "byte list \<Rightarrow> nat \<Rightarrow> (MimoTxAntenna \<times> nat) option" where
  "MimoTxAntenna_read data offset = do {
     (group_index, offset) \<leftarrow> read_u16 data offset;
     (antenna, offset) \<leftarrow> read_u16 data offset;
     (bandwidth, offset) \<leftarrow> read_u64 data offset;
     (mask, offset) \<leftarrow> read_u16 data offset;
     (pattern, offset) \<leftarrow> AntennaPattern_decode data offset;
     Some (\<lparr>mta_frequency_group_index = group_index, mta_antenna_index = antenna, mta_bandwidth_hz = bandwidth,
            mta_spectral_mask_index = mask, mta_pattern = pattern\<rparr>, offset) }"

definition mimo_tx_group_bad :: "MimoTxFrequencySegment list \<Rightarrow> bool" where
  "mimo_tx_group_bad segments \<longleftrightarrow>
     segments = [] \<or> length segments > 65535 \<or> list_ex (\<lambda>segment. \<not> f64_is_finite (mts_tx_power_dbm segment)) segments"

definition MimoTx_capacity :: "MimoTxProperties \<Rightarrow> nat option" where
  "MimoTx_capacity self = do {
     a \<leftarrow> checked_mul (length (mtp_frequency_groups self)) 2;
     a \<leftarrow> checked_add 5 a;
     b \<leftarrow> checked_mul (sum_list (map length (mtp_frequency_groups self))) MimoTx_SEGMENT_LEN;
     b \<leftarrow> checked_add a b;
     c \<leftarrow> checked_mul (length (mtp_transmit_antennas self)) MimoTx_ANTENNA_LEN;
     checked_add b c }"

definition MimoTxProperties_encode :: "MimoTxProperties \<Rightarrow> byte list option panics" where
  "MimoTxProperties_encode self =
     (case (u16_try_from (length (mtp_frequency_groups self)),
            u16_try_from (length (mtp_transmit_antennas self))) of
        (Some group_count, Some antenna_count) \<Rightarrow>
          if group_count = 0 \<or> antenna_count = 0 \<or> list_ex mimo_tx_group_bad (mtp_frequency_groups self)
          then Some None
          else (case MimoTx_capacity self of
              None \<Rightarrow> Some None
            | Some capacity \<Rightarrow> do {
                r \<leftarrow> push_all MimoTxGroup_push (mtp_frequency_groups self)
                      ([MIMO_TX_PROPERTIES_VERSION] @ be_bytes 2 group_count);
                (case r of
                   None \<Rightarrow> Some None
                 | Some data \<Rightarrow> push_all MimoTxAntenna_push (mtp_transmit_antennas self)
                     (data @ be_bytes 2 antenna_count)) })
      | _ \<Rightarrow> Some None)"

definition MimoTxProperties_decode :: "byte list \<Rightarrow> MimoTxProperties option panics" where
  "MimoTxProperties_decode data =
     (if length data < 5 \<or> data ! 0 \<noteq> MIMO_TX_PROPERTIES_VERSION then Some None
      else do {
        group_count \<leftarrow> get_u16 data 1;
        let group_count = unat group_count;
        if group_count = 0 then Some None
        else Some (do {
          (groups, offset) \<leftarrow> read_many MimoTxGroup_read group_count data 3;
          (antenna_count, offset) \<leftarrow> read_u16 data offset;
          let antenna_count = unat antenna_count;
          if antenna_count = 0 then None
          else do {
            len \<leftarrow> checked_mul antenna_count MimoTx_ANTENNA_LEN;
            end \<leftarrow> checked_add offset len;
            if length data \<noteq> end then None
            else do {
              (antennas, offset) \<leftarrow> read_many MimoTxAntenna_read antenna_count data offset;
              (if list_all (\<lambda>segment. f64_is_finite (mts_tx_power_dbm segment)) (concat groups)
               then Some \<lparr>mtp_frequency_groups = groups, mtp_transmit_antennas = antennas\<rparr>
               else None) } } }) })"


interpretation tx_segment_reader: entry_reader "\<lambda>_. True" MimoTxFrequencySegment_bytes MimoTxFrequencySegment_read
proof
  fix e p q and off :: nat
  assume n: "length (p @ MimoTxFrequencySegment_bytes e @ q) \<le> usize_max" and off: "length p = off"
  then have r: "rest_at (p @ MimoTxFrequencySegment_bytes e @ q) off
      (be_bytes 8 (mts_frequency_hz e) @ be_bytes 8 (mts_tx_power_dbm e)
       @ be_bytes 8 (mts_duration_microseconds e) @ be_bytes 8 (mts_offset_microseconds e) @ q)"
    by (auto intro: rest_atI simp: MimoTxFrequencySegment_bytes_def)
  note r1 = r [THEN rest_at_append] and r2 = r [THEN rest_at_append, THEN rest_at_append]
  note r3 = r2 [THEN rest_at_append]
  show "MimoTxFrequencySegment_read (p @ MimoTxFrequencySegment_bytes e @ q) off =
      Some (e, off + length (MimoTxFrequencySegment_bytes e))"
    using r [THEN true_rd_rest(2)] r1 [THEN true_rd_rest(2)] r2 [THEN true_rd_rest(2)] r3 [THEN true_rd_rest(2)]
    by (simp add: MimoTxFrequencySegment_read_def MimoTxFrequencySegment_bytes_def)
qed

definition MimoTxGroup_bytes :: "MimoTxFrequencySegment list \<Rightarrow> byte list" where
  "MimoTxGroup_bytes segments =
     be_bytes 2 (word_of_nat (length segments) :: u16) @ concat (map MimoTxFrequencySegment_bytes segments)"

lemma MimoTxFrequencySegment_bytes_length [simp]: "length (MimoTxFrequencySegment_bytes x) = 32"
  by (simp add: MimoTxFrequencySegment_bytes_def)

lemma length_concat_const: "(\<And>x. length (f x) = n) \<Longrightarrow> length (concat (map f xs)) = length xs * n"
  by (induction xs) auto

lemma small_mul_le_usize: "n < 65536 \<Longrightarrow> k \<le> 100 \<Longrightarrow> n * k \<le> usize_max"
  using mult_le_mono [of n 65536 k 100] by (simp add: usize_max_def)

lemma MimoTxGroup_push_bytes:
  "MimoTxGroup_push g data = Some (if length g < 65536 then Some (data @ MimoTxGroup_bytes g) else None)"
  by (simp add: MimoTxGroup_push_def MimoTxGroup_bytes_def u16_try_from_def)

interpretation tx_group_reader:
  entry_reader "\<lambda>g. g \<noteq> [] \<and> length g < 65536" MimoTxGroup_bytes MimoTxGroup_read
proof
  fix e p q and off :: nat
  let ?d = "p @ MimoTxGroup_bytes e @ q"
  assume v: "e \<noteq> [] \<and> length e < 65536" and n: "length ?d \<le> usize_max" and off: "length p = off"
  then have r: "rest_at ?d off (be_bytes 2 (word_of_nat (length e) :: u16)
      @ concat (map MimoTxFrequencySegment_bytes e) @ q)"
    by (auto intro: rest_atI simp: MimoTxGroup_bytes_def)
  note r1 = r [THEN rest_at_append]
  have "length ?d = off + 2 + length e * 32 + length q"
    using rest_at_length [OF r] by (simp add: length_concat_const)
  then show "MimoTxGroup_read ?d off = Some (e, off + length (MimoTxGroup_bytes e))"
    using v n r [THEN true_rd_rest(1)] tx_segment_reader.read_many_rest [OF _ r1]
    by (simp add: MimoTxGroup_read_def MimoTx_SEGMENT_LEN_def checked_mul_def checked_add_def
        small_mul_le_usize MimoTxGroup_bytes_def length_concat_const)
qed

definition MimoTxAntenna_bytes :: "MimoTxAntenna \<Rightarrow> byte list" where
  "MimoTxAntenna_bytes a =
     be_bytes 2 (mta_frequency_group_index a) @ be_bytes 2 (mta_antenna_index a)
     @ be_bytes 8 (mta_bandwidth_hz a) @ be_bytes 2 (mta_spectral_mask_index a) @ pattern_bytes (mta_pattern a)"

lemma MimoTxAntenna_bytes_length [simp]: "length (MimoTxAntenna_bytes a) = 41"
  by (simp add: MimoTxAntenna_bytes_def)

lemma MimoTxAntenna_push_bytes:
  "MimoTxAntenna_push a data =
     Some (if pattern_valid (mta_pattern a) then Some (data @ MimoTxAntenna_bytes a) else None)"
  by (simp add: MimoTxAntenna_push_def MimoTxAntenna_bytes_def AntennaPattern_encode_bytes)

interpretation tx_antenna_reader:
  entry_reader "\<lambda>a. pattern_valid (mta_pattern a)" MimoTxAntenna_bytes MimoTxAntenna_read
proof
  fix e p q and off :: nat
  let ?d = "p @ MimoTxAntenna_bytes e @ q"
  assume v: "pattern_valid (mta_pattern e)" and n: "length ?d \<le> usize_max" and off: "length p = off"
  then have r: "rest_at ?d off (be_bytes 2 (mta_frequency_group_index e) @ be_bytes 2 (mta_antenna_index e)
     @ be_bytes 8 (mta_bandwidth_hz e) @ be_bytes 2 (mta_spectral_mask_index e) @ pattern_bytes (mta_pattern e) @ q)"
    by (auto intro: rest_atI simp: MimoTxAntenna_bytes_def)
  note r1 = r [THEN rest_at_append] and r2 = r [THEN rest_at_append, THEN rest_at_append]
  note r3 = r2 [THEN rest_at_append] and r4 = r2 [THEN rest_at_append, THEN rest_at_append]
  show "MimoTxAntenna_read ?d off = Some (e, off + length (MimoTxAntenna_bytes e))"
    using r [THEN true_rd_rest(1)] r1 [THEN true_rd_rest(1)] r2 [THEN true_rd_rest(2)] r3 [THEN true_rd_rest(1)]
      pattern_reader.rd_rest [OF v r4]
    by (simp add: MimoTxAntenna_read_def)
qed

text \<open>What an encoded message is made of; its length is the checked capacity.\<close>

lemma sum_lengths: "length (concat (map MimoTxGroup_bytes gs)) = 2 * length gs + 32 * sum_list (map length gs)"
  by (induction gs) (simp_all add: MimoTxGroup_bytes_def length_concat_const)

lemma MimoTx_capacity_Some:
  "MimoTx_capacity m = Some c \<Longrightarrow>
   c \<le> usize_max \<and> c = 5 + 2 * length (mtp_frequency_groups m)
     + 32 * sum_list (map length (mtp_frequency_groups m)) + 41 * length (mtp_transmit_antennas m)"
  by (auto simp: MimoTx_capacity_def checked_add_def checked_mul_def MimoTx_SEGMENT_LEN_def MimoTx_ANTENNA_LEN_def
      split: Option.bind_splits if_splits)

lemma MimoTxProperties_encodeD:
  assumes "MimoTxProperties_encode m = Some (Some d)"
  defines "gs \<equiv> mtp_frequency_groups m" and "as \<equiv> mtp_transmit_antennas m"
  shows "gs \<noteq> []" "as \<noteq> []" "length gs < 65536" "length as < 65536" "length d \<le> usize_max"
    and "\<forall>g \<in> set gs. g \<noteq> [] \<and> length g < 65536"
    and "list_all (\<lambda>s. f64_is_finite (mts_tx_power_dbm s)) (concat gs)"
    and "\<forall>a \<in> set as. pattern_valid (mta_pattern a)"
    and "d = ([MIMO_TX_PROPERTIES_VERSION] @ be_bytes 2 (word_of_nat (length gs) :: u16))
      @ concat (map MimoTxGroup_bytes gs) @ be_bytes 2 (word_of_nat (length as) :: u16)
      @ concat (map MimoTxAntenna_bytes as)"
proof -
  note groups = push_all_append [where push = MimoTxGroup_push and valid = "\<lambda>g. length g < 65536"
      and enc = MimoTxGroup_bytes, OF MimoTxGroup_push_bytes]
  note antennas = push_all_append [where push = MimoTxAntenna_push and valid = "\<lambda>a. pattern_valid (mta_pattern a)"
      and enc = MimoTxAntenna_bytes, OF MimoTxAntenna_push_bytes]
  from assms(1) obtain c where *: "length gs < 65536" "length as < 65536" "gs \<noteq> []" "as \<noteq> []"
      "\<not> list_ex mimo_tx_group_bad gs" "MimoTx_capacity m = Some c"
      "\<forall>a \<in> set as. pattern_valid (mta_pattern a)"
      "d = ([MIMO_TX_PROPERTIES_VERSION] @ be_bytes 2 (word_of_nat (length gs) :: u16))
        @ concat (map MimoTxGroup_bytes gs) @ be_bytes 2 (word_of_nat (length as) :: u16)
        @ concat (map MimoTxAntenna_bytes as)"
    by (auto simp: MimoTxProperties_encode_def gs_def as_def groups antennas u16_try_from_def
        split: option.splits if_splits prod.splits)
  show "gs \<noteq> []" "as \<noteq> []" "length gs < 65536" "length as < 65536"
      "\<forall>a \<in> set as. pattern_valid (mta_pattern a)"
      "d = ([MIMO_TX_PROPERTIES_VERSION] @ be_bytes 2 (word_of_nat (length gs) :: u16))
        @ concat (map MimoTxGroup_bytes gs) @ be_bytes 2 (word_of_nat (length as) :: u16)
        @ concat (map MimoTxAntenna_bytes as)"
    using * by blast+
  show "\<forall>g \<in> set gs. g \<noteq> [] \<and> length g < 65536"
    using *(5) by (auto simp: list_ex_iff mimo_tx_group_bad_def)
  show "list_all (\<lambda>s. f64_is_finite (mts_tx_power_dbm s)) (concat gs)"
    using *(5) by (auto simp: list_ex_iff mimo_tx_group_bad_def list_all_iff)
  show "length d \<le> usize_max"
    using MimoTx_capacity_Some [OF *(6)] unfolding *(8)
    by (simp add: sum_lengths length_concat_const gs_def as_def)
qed

interpretation mimo_tx: wire_codec MimoTxProperties_encode MimoTxProperties_decode
proof
  fix m d
  show "MimoTxProperties_encode m \<noteq> panic"
    by (simp add: MimoTxProperties_encode_def push_all_append [OF MimoTxGroup_push_bytes]
        push_all_append [OF MimoTxAntenna_push_bytes] split: option.split)
  show "MimoTxProperties_decode d \<noteq> panic"
    by (simp add: MimoTxProperties_decode_def get_u16_def Let_def)
  assume "MimoTxProperties_encode m = Some (Some d)"
  note E = MimoTxProperties_encodeD [OF this]
  let ?gs = "mtp_frequency_groups m" and ?as = "mtp_transmit_antennas m"
  have r: "rest_at d 3 (concat (map MimoTxGroup_bytes ?gs) @ be_bytes 2 (word_of_nat (length ?as) :: u16)
      @ concat (map MimoTxAntenna_bytes ?as) @ [])"
    using E(5) unfolding E(9) by (auto simp: rest_at_iff)
  note r1 = r [THEN rest_at_append] and r2 = r [THEN rest_at_append, THEN rest_at_append]
  have gs: "read_many MimoTxGroup_read (length ?gs) d 3 = Some (?gs, 3 + length (concat (map MimoTxGroup_bytes ?gs)))"
    by (rule tx_group_reader.read_many_rest [OF E(6) r]) simp
  have l: "length d = 5 + length (concat (map MimoTxGroup_bytes ?gs)) + length ?as * 41"
    using rest_at_length [OF r] by (simp add: length_concat_const)
  have "get_u16 d 1 = Some (word_of_nat (length ?gs))" "d ! 0 = MIMO_TX_PROPERTIES_VERSION"
    by (simp_all add: E(9) get_u16_def)
  then show "MimoTxProperties_decode d = Some (Some m)"
    using E(1-5,7) gs l r1 [THEN true_rd_rest(1)] tx_antenna_reader.read_many_rest [OF E(8) r2 refl]
    by (simp add: MimoTxProperties_decode_def checked_mul_def checked_add_def MimoTx_ANTENNA_LEN_def small_mul_le_usize)
qed


section \<open>RxAntennaAdd\<close>

record RxAntennaAdd =
  raa_antenna :: MimoTxAntenna
  raa_frequencies_hz :: "u64 list"

definition RxAntennaAdd_encode :: "RxAntennaAdd \<Rightarrow> byte list option panics" where
  "RxAntennaAdd_encode self =
     (case u16_try_from (length (raa_frequencies_hz self)) of
        None \<Rightarrow> Some None
      | Some count \<Rightarrow>
          if count = 0 \<or> mta_bandwidth_hz (raa_antenna self) = 0 \<or> List.member (raa_frequencies_hz self) 0
          then Some None
          else do {
            r \<leftarrow> AntennaPattern_encode (mta_pattern (raa_antenna self))
                  ([PROPERTIES_VERSION] @ be_bytes 2 (mta_antenna_index (raa_antenna self))
                   @ be_bytes 8 (mta_bandwidth_hz (raa_antenna self))
                   @ be_bytes 2 (mta_spectral_mask_index (raa_antenna self)));
            Some (case r of None \<Rightarrow> None
              | Some data \<Rightarrow> Some (data @ be_bytes 2 count
                  @ concat (map (be_bytes 8) (raa_frequencies_hz self)))) })"

definition RxAntennaAdd_decode :: "byte list \<Rightarrow> RxAntennaAdd option panics" where
  "RxAntennaAdd_decode data =
     (if slice data 0 1 \<noteq> Some [PROPERTIES_VERSION] then Some None
      else Some (do {
        (antenna_index, offset) \<leftarrow> read_u16 data 1;
        (bandwidth_hz, offset) \<leftarrow> read_u64 data offset;
        (spectral_mask_index, offset) \<leftarrow> read_u16 data offset;
        (pattern, offset) \<leftarrow> AntennaPattern_decode data offset;
        (count, offset) \<leftarrow> read_u16 data offset;
        let count = unat count;
        if count = 0 then None
        else do {
          len \<leftarrow> checked_mul count 8;
          end \<leftarrow> checked_add offset len;
          if length data \<noteq> end then None
          else do {
            (frequencies_hz, offset) \<leftarrow> read_many read_u64 count data offset;
            (if bandwidth_hz \<noteq> 0 \<and> \<not> List.member frequencies_hz 0
             then Some \<lparr>raa_antenna = \<lparr>mta_frequency_group_index = 0, mta_antenna_index = antenna_index,
                          mta_bandwidth_hz = bandwidth_hz, mta_spectral_mask_index = spectral_mask_index,
                          mta_pattern = pattern\<rparr>, raa_frequencies_hz = frequencies_hz\<rparr>
             else None) } } }))"

text \<open>The group index of the antenna is not transmitted: the receiver has it as 0.\<close>

definition received_antenna_add :: "RxAntennaAdd \<Rightarrow> RxAntennaAdd" where
  "received_antenna_add self = self\<lparr>raa_antenna := (raa_antenna self)\<lparr>mta_frequency_group_index := 0\<rparr>\<rparr>"

lemma RxAntennaAdd_roundtrip:
  assumes "RxAntennaAdd_encode self = Some (Some d)"
  shows "RxAntennaAdd_decode d = Some (Some (received_antenna_add self))"
proof -
  let ?a = "raa_antenna self" and ?fs = "raa_frequencies_hz self"
  from assms have *: "length ?fs < 65536" "?fs \<noteq> []" "mta_bandwidth_hz ?a \<noteq> 0" "\<not> List.member ?fs 0"
      and v: "pattern_valid (mta_pattern ?a)"
      and d: "d = [PROPERTIES_VERSION] @ be_bytes 2 (mta_antenna_index ?a) @ be_bytes 8 (mta_bandwidth_hz ?a)
        @ be_bytes 2 (mta_spectral_mask_index ?a) @ pattern_bytes (mta_pattern ?a)
        @ be_bytes 2 (word_of_nat (length ?fs) :: u16) @ concat (map (be_bytes 8) ?fs) @ []"
    by (auto simp: RxAntennaAdd_encode_def u16_try_from_def AntennaPattern_encode_bytes
        split: option.splits if_splits)
  have l: "length d = 42 + length ?fs * 8"
    by (simp add: d length_concat_const)
  have "rest_at d 0 d"
    using small_mul_le_usize [OF *(1), of 8] *(1) l by (simp add: rest_at_def usize_max_def)
  then have "rest_at d 1 (tl d)" using rest_at_append [of d 0 "[hd d]" "tl d"] d by simp
  then have r: "rest_at d 1 (be_bytes 2 (mta_antenna_index ?a) @ be_bytes 8 (mta_bandwidth_hz ?a)
        @ be_bytes 2 (mta_spectral_mask_index ?a) @ pattern_bytes (mta_pattern ?a)
        @ be_bytes 2 (word_of_nat (length ?fs) :: u16) @ concat (map (be_bytes 8) ?fs) @ [])"
    by (simp add: d)
  note r1 = r [THEN rest_at_append] and r2 = r [THEN rest_at_append, THEN rest_at_append]
  note r3 = r2 [THEN rest_at_append] and r4 = r2 [THEN rest_at_append, THEN rest_at_append]
  note r5 = r4 [THEN rest_at_append]
  have "slice d 0 1 = Some [PROPERTIES_VERSION]" by (simp add: d slice_def)
  then show ?thesis
    using * l rest_at_length [OF r] r [THEN true_rd_rest(1)] r1 [THEN true_rd_rest(2)] r2 [THEN true_rd_rest(1)]
      pattern_reader.rd_rest [OF v r3] r4 [THEN true_rd_rest(1)]
      u64_reader.read_many_rest [OF _ r5 refl]
    by (simp add: RxAntennaAdd_decode_def checked_mul_def checked_add_def small_mul_le_usize received_antenna_add_def)
qed


section \<open>MimoRxProperties\<close>

record MimoRxAntennaInfo =
  mri_receive_antenna_index :: u16
  mri_transmit_antenna_index :: u16
  mri_span_microseconds :: u64
  mri_receiver_sensitivity_dbm :: f64
  mri_noise_floor_dbm :: f64
  mri_segments :: "RxFrequencySegment list"

record MimoRxProperties =
  mrp_tx_time_microseconds :: i64
  mrp_propagation_microseconds :: u64
  mrp_antenna_infos :: "MimoRxAntennaInfo list"
  mrp_doppler_shifts_hz :: "(u64 \<times> i64) list"

definition RxFrequencySegment_read :: "byte list \<Rightarrow> nat \<Rightarrow> (RxFrequencySegment \<times> nat) option" where
  "RxFrequencySegment_read data offset = do {
     (frequency, offset) \<leftarrow> read_u64 data offset;
     (power, offset) \<leftarrow> read_u64 data offset;
     (duration, offset) \<leftarrow> read_u64 data offset;
     (off, offset) \<leftarrow> read_u64 data offset;
     Some (\<lparr>rfs_frequency_hz = frequency, rfs_rx_power_dbm = power,
            rfs_duration_microseconds = duration, rfs_offset_microseconds = off\<rparr>, offset) }"

definition mimo_rx_info_bad :: "MimoRxAntennaInfo \<Rightarrow> bool" where
  "mimo_rx_info_bad info \<longleftrightarrow>
     mri_segments info = [] \<or> length (mri_segments info) > 65535
     \<or> \<not> f64_is_finite (mri_receiver_sensitivity_dbm info)
     \<or> \<not> f64_is_finite (mri_noise_floor_dbm info)
     \<or> list_ex (\<lambda>segment. \<not> f64_is_finite (rfs_rx_power_dbm segment)) (mri_segments info)"

definition MimoRx_capacity :: "MimoRxProperties \<Rightarrow> nat option" where
  "MimoRx_capacity self = do {
     a \<leftarrow> checked_mul (length (mrp_antenna_infos self)) 30;
     a \<leftarrow> checked_add 21 a;
     b \<leftarrow> checked_mul (sum_list (map (\<lambda>info. length (mri_segments info)) (mrp_antenna_infos self))) 32;
     b \<leftarrow> checked_add a b;
     c \<leftarrow> checked_mul (length (mrp_doppler_shifts_hz self)) 16;
     checked_add b c }"

definition MimoRxInfo_push :: "MimoRxAntennaInfo \<Rightarrow> byte list \<Rightarrow> byte list option panics" where
  "MimoRxInfo_push info data = Some (do {
     count \<leftarrow> u16_try_from (length (mri_segments info));
     Some (data @ be_bytes 2 (mri_receive_antenna_index info) @ be_bytes 2 (mri_transmit_antenna_index info)
           @ be_bytes 8 (mri_span_microseconds info) @ be_bytes 8 (mri_receiver_sensitivity_dbm info)
           @ be_bytes 8 (mri_noise_floor_dbm info) @ be_bytes 2 count
           @ concat (map RxFrequencySegment_bytes (mri_segments info))) })"

definition MimoRxInfo_read :: "byte list \<Rightarrow> nat \<Rightarrow> (MimoRxAntennaInfo \<times> nat) option" where
  "MimoRxInfo_read data offset = do {
     (rx_index, offset) \<leftarrow> read_u16 data offset;
     (tx_index, offset) \<leftarrow> read_u16 data offset;
     (span, offset) \<leftarrow> read_u64 data offset;
     (sensitivity, offset) \<leftarrow> read_u64 data offset;
     (noise_floor, offset) \<leftarrow> read_u64 data offset;
     (count, offset) \<leftarrow> read_u16 data offset;
     let count = unat count;
     if count = 0 then None
     else do {
       (segments, offset) \<leftarrow> read_many RxFrequencySegment_read count data offset;
       Some (\<lparr>mri_receive_antenna_index = rx_index, mri_transmit_antenna_index = tx_index,
              mri_span_microseconds = span, mri_receiver_sensitivity_dbm = sensitivity,
              mri_noise_floor_dbm = noise_floor, mri_segments = segments\<rparr>, offset) } }"

definition doppler_bytes :: "u64 \<times> i64 \<Rightarrow> byte list" where
  "doppler_bytes = (\<lambda>(frequency_hz, shift_hz). be_bytes 8 frequency_hz @ be_bytes 8 shift_hz)"

definition doppler_read :: "byte list \<Rightarrow> nat \<Rightarrow> ((u64 \<times> i64) \<times> nat) option" where
  "doppler_read data offset = do {
     (frequency_hz, offset) \<leftarrow> read_u64 data offset;
     (shift_hz, offset) \<leftarrow> read_u64 data offset;
     Some ((frequency_hz, shift_hz), offset) }"

definition MimoRxProperties_encode :: "MimoRxProperties \<Rightarrow> byte list option panics" where
  "MimoRxProperties_encode self =
     (case (u16_try_from (length (mrp_antenna_infos self)),
            u16_try_from (length (mrp_doppler_shifts_hz self))) of
        (Some info_count, Some doppler_count) \<Rightarrow>
          if info_count = 0 \<or> list_ex mimo_rx_info_bad (mrp_antenna_infos self) then Some None
          else (case MimoRx_capacity self of
              None \<Rightarrow> Some None
            | Some capacity \<Rightarrow> do {
                r \<leftarrow> push_all MimoRxInfo_push (mrp_antenna_infos self)
                      ([MIMO_RX_PROPERTIES_VERSION] @ be_bytes 8 (mrp_tx_time_microseconds self)
                       @ be_bytes 8 (mrp_propagation_microseconds self) @ be_bytes 2 info_count);
                Some (case r of None \<Rightarrow> None
                  | Some data \<Rightarrow> Some (data @ be_bytes 2 doppler_count
                      @ concat (map doppler_bytes (mrp_doppler_shifts_hz self)))) })
      | _ \<Rightarrow> Some None)"

definition MimoRxProperties_decode :: "byte list \<Rightarrow> MimoRxProperties option panics" where
  "MimoRxProperties_decode data =
     (if length data < 21 \<or> data ! 0 \<noteq> MIMO_RX_PROPERTIES_VERSION then Some None
      else (case (do {
          (tx_time, offset) \<leftarrow> read_u64 data 1;
          (propagation, offset) \<leftarrow> read_u64 data offset;
          (info_count, offset) \<leftarrow> read_u16 data offset;
          let info_count = unat info_count;
          if info_count = 0 then None
          else do {
            (infos, offset) \<leftarrow> read_many MimoRxInfo_read info_count data offset;
            (doppler_count, offset) \<leftarrow> read_u16 data offset;
            let doppler_count = unat doppler_count;
            len \<leftarrow> checked_mul doppler_count 16;
            end \<leftarrow> checked_add offset len;
            if length data \<noteq> end then None
            else do {
              (dopplers, offset) \<leftarrow> read_many doppler_read doppler_count data offset;
              Some \<lparr>mrp_tx_time_microseconds = tx_time, mrp_propagation_microseconds = propagation,
                    mrp_antenna_infos = infos, mrp_doppler_shifts_hz = dopplers\<rparr> } } }) of
          None \<Rightarrow> Some None
        | Some result \<Rightarrow> do {
            r \<leftarrow> MimoRxProperties_encode result;
            Some (map_option (\<lambda>_. result) r) }))"

interpretation rx_segment_reader: entry_reader "\<lambda>_. True" RxFrequencySegment_bytes RxFrequencySegment_read
proof
  fix e p q and off :: nat
  assume n: "length (p @ RxFrequencySegment_bytes e @ q) \<le> usize_max" and off: "length p = off"
  then have r: "rest_at (p @ RxFrequencySegment_bytes e @ q) off
      (be_bytes 8 (rfs_frequency_hz e) @ be_bytes 8 (rfs_rx_power_dbm e)
       @ be_bytes 8 (rfs_duration_microseconds e) @ be_bytes 8 (rfs_offset_microseconds e) @ q)"
    by (auto intro: rest_atI simp: RxFrequencySegment_bytes_def)
  note r1 = r [THEN rest_at_append] and r2 = r [THEN rest_at_append, THEN rest_at_append]
  note r3 = r2 [THEN rest_at_append]
  show "RxFrequencySegment_read (p @ RxFrequencySegment_bytes e @ q) off =
      Some (e, off + length (RxFrequencySegment_bytes e))"
    using r [THEN true_rd_rest(2)] r1 [THEN true_rd_rest(2)] r2 [THEN true_rd_rest(2)] r3 [THEN true_rd_rest(2)]
    by (simp add: RxFrequencySegment_read_def RxFrequencySegment_bytes_def)
qed

interpretation doppler_reader: entry_reader "\<lambda>_. True" doppler_bytes doppler_read
proof
  fix e :: "u64 \<times> i64" and p q and off :: nat
  obtain f s where e: "e = (f, s)" by (cases e)
  assume "length (p @ doppler_bytes e @ q) \<le> usize_max" and "length p = off"
  then have r: "rest_at (p @ doppler_bytes e @ q) off (be_bytes 8 f @ be_bytes 8 s @ q)"
    by (auto intro: rest_atI simp: doppler_bytes_def e)
  show "doppler_read (p @ doppler_bytes e @ q) off = Some (e, off + length (doppler_bytes e))"
    using r [THEN true_rd_rest(2)] r [THEN rest_at_append, THEN true_rd_rest(2)]
    by (simp add: doppler_read_def doppler_bytes_def e)
qed

definition MimoRxInfo_bytes :: "MimoRxAntennaInfo \<Rightarrow> byte list" where
  "MimoRxInfo_bytes info =
     be_bytes 2 (mri_receive_antenna_index info) @ be_bytes 2 (mri_transmit_antenna_index info)
     @ be_bytes 8 (mri_span_microseconds info) @ be_bytes 8 (mri_receiver_sensitivity_dbm info)
     @ be_bytes 8 (mri_noise_floor_dbm info) @ be_bytes 2 (word_of_nat (length (mri_segments info)) :: u16)
     @ concat (map RxFrequencySegment_bytes (mri_segments info))"

lemma MimoRxInfo_push_bytes:
  "MimoRxInfo_push info data =
     Some (if length (mri_segments info) < 65536 then Some (data @ MimoRxInfo_bytes info) else None)"
  by (simp add: MimoRxInfo_push_def MimoRxInfo_bytes_def u16_try_from_def)

interpretation rx_info_reader:
  entry_reader "\<lambda>i. mri_segments i \<noteq> [] \<and> length (mri_segments i) < 65536" MimoRxInfo_bytes MimoRxInfo_read
proof
  fix e p q and off :: nat
  let ?d = "p @ MimoRxInfo_bytes e @ q"
  assume v: "mri_segments e \<noteq> [] \<and> length (mri_segments e) < 65536"
    and n: "length ?d \<le> usize_max" and off: "length p = off"
  then have r: "rest_at ?d off
      (be_bytes 2 (mri_receive_antenna_index e) @ be_bytes 2 (mri_transmit_antenna_index e)
     @ be_bytes 8 (mri_span_microseconds e) @ be_bytes 8 (mri_receiver_sensitivity_dbm e)
     @ be_bytes 8 (mri_noise_floor_dbm e) @ be_bytes 2 (word_of_nat (length (mri_segments e)) :: u16)
     @ concat (map RxFrequencySegment_bytes (mri_segments e)) @ q)"
    by (auto intro: rest_atI simp: MimoRxInfo_bytes_def)
  note r1 = r [THEN rest_at_append] and r2 = r [THEN rest_at_append, THEN rest_at_append]
  note r3 = r2 [THEN rest_at_append] and r4 = r2 [THEN rest_at_append, THEN rest_at_append]
  note r5 = r4 [THEN rest_at_append] and r6 = r4 [THEN rest_at_append, THEN rest_at_append]
  show "MimoRxInfo_read ?d off = Some (e, off + length (MimoRxInfo_bytes e))"
    using v r [THEN true_rd_rest(1)] r1 [THEN true_rd_rest(1)] r2 [THEN true_rd_rest(2)] r3 [THEN true_rd_rest(2)]
      r4 [THEN true_rd_rest(2)] r5 [THEN true_rd_rest(1)] rx_segment_reader.read_many_rest [OF _ r6 refl]
    by (simp add: MimoRxInfo_read_def MimoRxInfo_bytes_def)
qed

lemma rx_sum_lengths:
  "length (concat (map MimoRxInfo_bytes is)) = 30 * length is + 32 * sum_list (map (\<lambda>i. length (mri_segments i)) is)"
  by (induction "is") (simp_all add: MimoRxInfo_bytes_def RxFrequencySegment_bytes_def length_concat_const)

lemma doppler_bytes_length [simp]: "length (doppler_bytes x) = 16"
  by (simp add: doppler_bytes_def split: prod.split)

lemma MimoRx_capacity_Some:
  "MimoRx_capacity m = Some c \<Longrightarrow>
   c \<le> usize_max \<and> c = 21 + 30 * length (mrp_antenna_infos m)
     + 32 * sum_list (map (\<lambda>i. length (mri_segments i)) (mrp_antenna_infos m)) + 16 * length (mrp_doppler_shifts_hz m)"
  by (auto simp: MimoRx_capacity_def checked_add_def checked_mul_def split: Option.bind_splits if_splits)

lemma MimoRxProperties_encodeD:
  assumes "MimoRxProperties_encode m = Some (Some d)"
  defines "is \<equiv> mrp_antenna_infos m" and "ds \<equiv> mrp_doppler_shifts_hz m"
  shows "is \<noteq> []" "length is < 65536" "length ds < 65536" "length d \<le> usize_max"
    and "\<forall>i \<in> set is. mri_segments i \<noteq> [] \<and> length (mri_segments i) < 65536"
    and "d = [MIMO_RX_PROPERTIES_VERSION] @ be_bytes 8 (mrp_tx_time_microseconds m)
      @ be_bytes 8 (mrp_propagation_microseconds m) @ be_bytes 2 (word_of_nat (length is) :: u16)
      @ concat (map MimoRxInfo_bytes is) @ be_bytes 2 (word_of_nat (length ds) :: u16)
      @ concat (map doppler_bytes ds)"
proof -
  note infos = push_all_append [where push = MimoRxInfo_push and valid = "\<lambda>i. length (mri_segments i) < 65536"
      and enc = MimoRxInfo_bytes, OF MimoRxInfo_push_bytes]
  from assms(1) obtain c where *: "length is < 65536" "length ds < 65536" "is \<noteq> []"
      "\<not> list_ex mimo_rx_info_bad is" "MimoRx_capacity m = Some c"
      "d = [MIMO_RX_PROPERTIES_VERSION] @ be_bytes 8 (mrp_tx_time_microseconds m)
      @ be_bytes 8 (mrp_propagation_microseconds m) @ be_bytes 2 (word_of_nat (length is) :: u16)
      @ concat (map MimoRxInfo_bytes is) @ be_bytes 2 (word_of_nat (length ds) :: u16)
      @ concat (map doppler_bytes ds)"
    by (auto simp: MimoRxProperties_encode_def is_def ds_def infos u16_try_from_def
        split: option.splits if_splits prod.splits)
  show "is \<noteq> []" "length is < 65536" "length ds < 65536"
      "d = [MIMO_RX_PROPERTIES_VERSION] @ be_bytes 8 (mrp_tx_time_microseconds m)
      @ be_bytes 8 (mrp_propagation_microseconds m) @ be_bytes 2 (word_of_nat (length is) :: u16)
      @ concat (map MimoRxInfo_bytes is) @ be_bytes 2 (word_of_nat (length ds) :: u16)
      @ concat (map doppler_bytes ds)"
    using * by blast+
  show "\<forall>i \<in> set is. mri_segments i \<noteq> [] \<and> length (mri_segments i) < 65536"
    using *(4) by (auto simp: list_ex_iff mimo_rx_info_bad_def)
  show "length d \<le> usize_max"
    using MimoRx_capacity_Some [OF *(5)] unfolding *(6)
    by (simp add: rx_sum_lengths length_concat_const is_def ds_def)
qed

lemma MimoRxProperties_encode_no_panic: "MimoRxProperties_encode m \<noteq> panic"
  by (simp add: MimoRxProperties_encode_def push_all_append [OF MimoRxInfo_push_bytes] split: option.split)

lemma MimoRxProperties_eta [simp]:
  "\<lparr>mrp_tx_time_microseconds = mrp_tx_time_microseconds m,
    mrp_propagation_microseconds = mrp_propagation_microseconds m,
    mrp_antenna_infos = mrp_antenna_infos m,
    mrp_doppler_shifts_hz = mrp_doppler_shifts_hz m\<rparr> = m"
  by simp

lemma bind_eq_None_conv: "(a \<bind> f) = None \<longleftrightarrow> a = None \<or> f (the a) = None"
  by (cases a) auto

interpretation mimo_rx: wire_codec MimoRxProperties_encode MimoRxProperties_decode
proof
  fix m d
  show "MimoRxProperties_encode m \<noteq> panic" by (rule MimoRxProperties_encode_no_panic)
  show "MimoRxProperties_decode d \<noteq> panic"
    using MimoRxProperties_encode_no_panic
    by (auto simp: MimoRxProperties_decode_def bind_eq_None_conv simp del: not_None_eq split: option.split)
  assume enc: "MimoRxProperties_encode m = Some (Some d)"
  note E = MimoRxProperties_encodeD [OF this]
  let ?is = "mrp_antenna_infos m" and ?ds = "mrp_doppler_shifts_hz m"
  have r: "rest_at d 1 (be_bytes 8 (mrp_tx_time_microseconds m)
      @ be_bytes 8 (mrp_propagation_microseconds m) @ be_bytes 2 (word_of_nat (length ?is) :: u16)
      @ concat (map MimoRxInfo_bytes ?is) @ be_bytes 2 (word_of_nat (length ?ds) :: u16)
      @ concat (map doppler_bytes ?ds) @ [])"
    using E(4) unfolding E(6) by (auto simp: rest_at_iff intro!: exI [of _ "[MIMO_RX_PROPERTIES_VERSION]"])
  note r1 = r [THEN rest_at_append] and r2 = r [THEN rest_at_append, THEN rest_at_append]
  note r3 = r2 [THEN rest_at_append] and r4 = r2 [THEN rest_at_append, THEN rest_at_append]
  note r5 = r4 [THEN rest_at_append]
  have l: "length d = 21 + length (concat (map MimoRxInfo_bytes ?is)) + length ?ds * 16"
    using rest_at_length [OF r] by (simp add: length_concat_const)
  have "d ! 0 = MIMO_RX_PROPERTIES_VERSION"
    by (simp add: E(6))
  then show "MimoRxProperties_decode d = Some (Some m)"
    using E(1-4) enc l r [THEN true_rd_rest(2)] r1 [THEN true_rd_rest(2)] r2 [THEN true_rd_rest(1)]
      rx_info_reader.read_many_rest [OF E(5) r3 refl] r4 [THEN true_rd_rest(1)]
      doppler_reader.read_many_rest [OF _ r5 refl]
    by (simp add: MimoRxProperties_decode_def checked_mul_def checked_add_def small_mul_le_usize)
qed


section \<open>Properties of the control payloads\<close>

text \<open>The fixed-size control payloads without reserved bytes have exactly one encoding: the
  decoder returns a value for a byte string if and only if the byte string is the encoding of
  that value.\<close>

lemma fixed_payloads_canonical:
  "(FlowControlToken_decode d = Some (Some t) \<longleftrightarrow> FlowControlToken_encode t = Some d)
   \<and> (R2riSelfMetric_decode d = Some (Some m) \<longleftrightarrow> R2riSelfMetric_encode m = Some d)
   \<and> (CommEffectHeader_decode d = Some (Some c) \<longleftrightarrow> CommEffectHeader_encode c = Some d)
   \<and> (TimingAnalysisHeader_decode d = Some (Some h) \<longleftrightarrow> TimingAnalysisHeader_encode h = Some d)
   \<and> (TxAntennaProfile_decode d = Some (Some p) \<longleftrightarrow> TxAntennaProfile_encode p = Some (Some d))
   \<and> (RxAntennaRemove_decode d = Some (Some r) \<longleftrightarrow> RxAntennaRemove_encode r = d)
   \<and> (TxProperties_decode d = Some (Some x) \<longleftrightarrow> TxProperties_encode x = Some d)"
  using flow_control_token.accepts_iff [of d t] self_metric.accepts_iff [of d m]
    comm_effect_header.accepts_iff [of d c] timing_analysis_header.accepts_iff [of d h]
    tx_antenna_profile.accepts_iff [of d p] rx_antenna_remove.accepts_iff [of d r]
    tx_properties.accepts_iff [of d x]
  by (intro conjI) simp_all

text \<open>The payloads that carry a counted list have exactly one encoding too, so a decoder
  accepts a list payload only when its count, its length and every entry are what the encoder
  writes for the list it returns.\<close>

lemma list_payloads_canonical:
  "(R2riQueueMetrics_decode d = Some (Some qs) \<longleftrightarrow> R2riQueueMetrics_encode qs = Some d)
   \<and> (R2riNeighborMetrics_decode d = Some (Some ns) \<longleftrightarrow> R2riNeighborMetrics_encode ns = Some d)
   \<and> (TxFrequencySegments_decode d = Some (Some ts) \<longleftrightarrow> TxFrequencySegments_encode ts = Some d)
   \<and> (RxFrequencySegments_decode d = Some (Some rs) \<longleftrightarrow> RxFrequencySegments_encode rs = Some d)
   \<and> (TxTransmitters_decode d = Some (Some xs) \<longleftrightarrow> TxTransmitters_encode xs = Some d)
   \<and> (FrequencyOfInterest_decode d = Some (Some f) \<longleftrightarrow> FrequencyOfInterest_encode f = Some d)"
  using queue_metrics.accepts_iff [of d qs] neighbor_metrics.accepts_iff [of d ns]
    tx_segments.accepts_iff [of d ts] rx_segments.accepts_iff [of d rs]
    transmitters.accepts_iff [of d xs] frequency_of_interest.accepts_iff [of d f]
  by (intro conjI) simp_all

lemmas mimo_encode_simps =
  u16_try_from_def MimoTx_capacity_def MimoRx_capacity_def MimoTx_SEGMENT_LEN_def MimoTx_ANTENNA_LEN_def
  checked_add_def checked_mul_def usize_max_def mimo_tx_group_bad_def mimo_rx_info_bad_def f64_is_finite_def

text \<open>A MIMO description that encodes is decoded to itself: of a transmission every frequency
  group, every segment and every transmit antenna with its pattern, of a reception every antenna with
  its segments and the Doppler shifts.\<close>

lemma mimo_properties_roundtrip:
  assumes "MimoTxProperties_encode tx = Some (Some d)" "MimoRxProperties_encode rx = Some (Some d')"
  shows "MimoTxProperties_decode d = Some (Some tx) \<and> MimoRxProperties_decode d' = Some (Some rx)"
  using mimo_tx.roundtrip [OF assms(1)] mimo_rx.roundtrip [OF assms(2)] by simp

definition example_mimo_tx :: MimoTxProperties where
  "example_mimo_tx =
     \<lparr>mtp_frequency_groups =
        [[\<lparr>mts_frequency_hz = 2400000000, mts_tx_power_dbm = 0, mts_duration_microseconds = 100,
           mts_offset_microseconds = 0\<rparr>]],
      mtp_transmit_antennas =
        [\<lparr>mta_frequency_group_index = 0, mta_antenna_index = 1, mta_bandwidth_hz = 1000000,
          mta_spectral_mask_index = 0, mta_pattern = IdealOmni 0\<rparr>]\<rparr>"

definition example_mimo_rx :: MimoRxProperties where
  "example_mimo_rx =
     \<lparr>mrp_tx_time_microseconds = 1000, mrp_propagation_microseconds = 3,
      mrp_antenna_infos =
        [\<lparr>mri_receive_antenna_index = 0, mri_transmit_antenna_index = 1, mri_span_microseconds = 100,
          mri_receiver_sensitivity_dbm = 0, mri_noise_floor_dbm = 0,
          mri_segments = [\<lparr>rfs_frequency_hz = 2400000000, rfs_rx_power_dbm = 0,
             rfs_duration_microseconds = 100, rfs_offset_microseconds = 0\<rparr>]\<rparr>],
      mrp_doppler_shifts_hz = [(2400000000, 5)]\<rparr>"

text \<open>An antenna addition that encodes is decoded to itself except for the frequency group
  index, which the payload does not carry and the decoder sets to zero.\<close>

lemma RxAntennaAdd_group_lost:
  assumes "RxAntennaAdd_encode self = Some (Some d)"
  shows "RxAntennaAdd_decode d =
    Some (Some (self\<lparr>raa_antenna := (raa_antenna self)\<lparr>mta_frequency_group_index := 0\<rparr>\<rparr>))"
  using RxAntennaAdd_roundtrip [OF assms] by (simp add: received_antenna_add_def)

definition example_antenna_add :: RxAntennaAdd where
  "example_antenna_add =
     \<lparr>raa_antenna = \<lparr>mta_frequency_group_index = 7, mta_antenna_index = 1, mta_bandwidth_hz = 1000000,
        mta_spectral_mask_index = 0, mta_pattern = DefaultPattern\<rparr>, raa_frequencies_hz = [2400000000]\<rparr>"

text \<open>C34: no decoder of the plugin interface panics, whatever bytes it is given.\<close>

theorem decoders_never_panic:
  "FlowControlToken_decode d \<noteq> panic
   \<and> R2riSelfMetric_decode d \<noteq> panic
   \<and> CommEffectHeader_decode d \<noteq> panic
   \<and> TimingAnalysisHeader_decode d \<noteq> panic
   \<and> TxAntennaProfile_decode d \<noteq> panic
   \<and> RxAntennaRemove_decode d \<noteq> panic
   \<and> ModelHeader_decode d \<noteq> panic
   \<and> TxProperties_decode d \<noteq> panic
   \<and> RxProperties_decode d \<noteq> panic
   \<and> R2riQueueMetrics_decode d \<noteq> panic
   \<and> R2riNeighborMetrics_decode d \<noteq> panic
   \<and> TxFrequencySegments_decode d \<noteq> panic
   \<and> RxFrequencySegments_decode d \<noteq> panic
   \<and> TxTransmitters_decode d \<noteq> panic
   \<and> FrequencyOfInterest_decode d \<noteq> panic
   \<and> MimoTxProperties_decode d \<noteq> panic
   \<and> MimoRxProperties_decode d \<noteq> panic
   \<and> RxAntennaAdd_decode d \<noteq> panic"
  using flow_control_token.decode_no_panic self_metric.decode_no_panic comm_effect_header.decode_no_panic
    timing_analysis_header.decode_no_panic tx_antenna_profile.decode_no_panic rx_antenna_remove.decode_no_panic
    model_header.decode_no_panic tx_properties.decode_no_panic rx_properties.decode_no_panic
    queue_metrics.decode_no_panic neighbor_metrics.decode_no_panic tx_segments.decode_no_panic
    rx_segments.decode_no_panic transmitters.decode_no_panic frequency_of_interest.decode_no_panic
    mimo_tx.decode_no_panic mimo_rx.decode_no_panic
  by (intro conjI) (simp_all add: RxAntennaAdd_decode_def)

text \<open>The model header and the receive properties survive their encoding, and a model header
  is still decoded when a later version of the protocol appends bytes to it.\<close>

lemma headers_roundtrip:
  "(\<exists>d. ModelHeader_encode h = Some d \<and> length d = 24 \<and> ModelHeader_decode (d @ extension) = Some (Some h))
   \<and> (\<exists>d. RxProperties_encode r = Some d \<and> length d = 63 \<and> RxProperties_decode d = Some (Some r))"
  by (auto simp: fixed_codec_simps)

end
