(* ===== verification/Plugin_Types.thy ===== *)
theory Plugin_Types
  imports Emane_Prelude
begin

text \<open>
  The packets and control messages that cross the C interface between layers
  (\<^verbatim>\<open>rust/emane-plugin-api/src/lib.rs\<close>). A slice is a pointer with a length; the pointer is
  \<open>None\<close> when it is null and otherwise the memory that follows it.
\<close>

record FfiSlice =
  fs_data :: "byte list option"
  fs_len :: nat

record FfiPacketInfo =
  pi_source :: u16
  pi_destination :: u16
  pi_priority :: u8
  pi_creation_time_sec :: u64
  pi_creation_time_usec :: u32

record FfiControlMessage =
  fcm_msg_type :: u32
  fcm_payload :: FfiSlice

record FfiPacket =
  fp_info :: FfiPacketInfo
  fp_payload :: FfiSlice

text \<open>A slice the unsafe code may read: as many bytes behind the pointer as the length says.\<close>

definition valid_slice :: "FfiSlice \<Rightarrow> bool" where
  "valid_slice s \<longleftrightarrow> (case fs_data s of None \<Rightarrow> True | Some mem \<Rightarrow> fs_len s \<le> length mem)"

definition slice_of :: "byte list \<Rightarrow> FfiSlice" where
  "slice_of bytes = \<lparr>fs_data = Some bytes, fs_len = length bytes\<rparr>"

lemma valid_slice_of [simp]: "valid_slice (slice_of bytes)"
  by (simp add: valid_slice_def slice_of_def)

text \<open>Values of statistic tables (\<^verbatim>\<open>rust/emane-core/src/statistics.rs\<close>).\<close>

datatype NativeTableValue = TableU64 u64 | TableF64 f64 | TableString string

end
