(* ===== verification/Fragments.thy ===== *)
theory Fragments
  imports Plugin_Types "HOL-Library.AList"
begin

text \<open>
  Packets cut into fragments and put together again. Two parts of the program do this: the TDMA radio
  model between its slots and the over-the-air manager between emulators. Both collect pieces by
  offset under a key and hand out the packet when nothing is missing. Their common contract is the
  locale \<open>fragment_receiver\<close>, in which it is proved that pieces complete a packet in any order,
  repeated, and mixed with anything that does not concern the packet.
\<close>


section \<open>Fragmentations\<close>

text \<open>A fragmentation of a payload: adjacent, non-empty pieces that cover it.\<close>

fun contiguous :: "nat \<Rightarrow> (nat \<times> byte list) list \<Rightarrow> bool" where
  "contiguous n [] \<longleftrightarrow> True"
| "contiguous n ((off, piece) # ps) \<longleftrightarrow> off = n \<and> piece \<noteq> [] \<and> contiguous (n + length piece) ps"

definition fragmentation :: "byte list \<Rightarrow> (nat \<times> byte list) list \<Rightarrow> bool" where
  "fragmentation payload frs \<longleftrightarrow> frs \<noteq> [] \<and> contiguous 0 frs \<and> concat (map snd frs) = payload"

lemma contiguous_ge: "contiguous n frs \<Longrightarrow> (off, b) \<in> set frs \<Longrightarrow> n \<le> off"
  by (induction n frs rule: contiguous.induct) auto

lemma contiguous_distinct: "contiguous n frs \<Longrightarrow> distinct (map fst frs)"
proof (induction n frs rule: contiguous.induct)
  case (2 n off piece ps)
  have "fst x \<noteq> n" if "x \<in> set ps" for x
    using contiguous_ge [of "n + length piece" ps "fst x" "snd x"] 2 that by auto
  with 2 show ?case by auto
qed simp

lemma contiguous_end:
  "contiguous n frs \<Longrightarrow> (off, b) \<in> set frs \<Longrightarrow>
   off + length b \<le> n + length (concat (map snd frs))
   \<and> (off + length b = n + length (concat (map snd frs)) \<longleftrightarrow> (off, b) = last frs)"
proof (induction n frs rule: contiguous.induct)
  case (2 n o' piece ps)
  show ?case
  proof (cases "ps = []")
    case False
    then obtain o2 b2 ps' where ps: "ps = (o2, b2) # ps'" by (cases ps) auto
    show ?thesis
    proof (cases "(off, b) \<in> set ps")
      case True
      with 2 False show ?thesis by auto
    next
      case F: False
      then have ob: "off = n" "b = piece" using 2 by auto
      moreover have "(n, piece) \<noteq> last ps" using F ob False last_in_set by metis
      ultimately show ?thesis using 2 ps by auto
    qed
  qed (use 2 in auto)
qed simp

lemma map_of_filter_mem: "distinct (map fst frs) \<Longrightarrow> (off, b) \<in> set frs \<Longrightarrow> (off, b) \<in> S \<Longrightarrow>
   map_of (filter (\<lambda>x. x \<in> S) frs) off = Some b"
  by (rule map_of_is_SomeI) (auto simp: distinct_map inj_on_def)


section \<open>Fragment receivers\<close>

text \<open>The pieces of a packet among the events a receiver saw.\<close>

definition pieces_of :: "((nat \<times> byte list) \<Rightarrow> 'ev \<Rightarrow> bool) \<Rightarrow> (nat \<times> byte list) list \<Rightarrow> 'ev list \<Rightarrow> (nat \<times> byte list) set" where
  "pieces_of carries frs evs = {x \<in> set frs. \<exists>ev \<in> set evs. carries x ev}"

text \<open>
  What a receiver promises for one packet with the pieces \<open>frs\<close>: \<open>has S\<close> holds in the
  states in which exactly the pieces of \<open>S\<close> have arrived, an event that does not concern the
  packet keeps it, a piece is added, and the piece that completes the packet hands it out
  (\<open>completes\<close> relates the states before and after).
\<close>

locale fragment_receiver =
  fixes receive :: "'ev \<Rightarrow> 's \<Rightarrow> 's"
    and frs :: "(nat \<times> byte list) list"
    and has :: "(nat \<times> byte list) set \<Rightarrow> 's \<Rightarrow> bool"
    and carries :: "(nat \<times> byte list) \<Rightarrow> 'ev \<Rightarrow> bool"
    and other :: "'ev \<Rightarrow> bool"
    and completes :: "'s \<Rightarrow> 's \<Rightarrow> bool"
  assumes one_piece: "carries x ev \<Longrightarrow> carries y ev \<Longrightarrow> x = y"
    and other_no_piece: "other ev \<Longrightarrow> \<not> carries x ev"
    and receive_other: "other ev \<Longrightarrow> has S s \<Longrightarrow> has S (receive ev s)"
    and receive_piece:
      "carries x ev \<Longrightarrow> x \<in> set frs \<Longrightarrow> has S s \<Longrightarrow> \<not> set frs \<subseteq> insert x S \<Longrightarrow> has (insert x S) (receive ev s)"
    and receive_last:
      "carries x ev \<Longrightarrow> x \<in> set frs \<Longrightarrow> has S s \<Longrightarrow> set frs \<subseteq> insert x S \<Longrightarrow>
       completes s (receive ev s) \<and> has {} (receive ev s)"
begin

lemma pieces_of_other: "other ev \<Longrightarrow> pieces_of carries frs (evs @ [ev]) = pieces_of carries frs evs"
  by (auto simp: pieces_of_def other_no_piece)

lemma pieces_of_piece:
  "carries x ev \<Longrightarrow> x \<in> set frs \<Longrightarrow> pieces_of carries frs (evs @ [ev]) = insert x (pieces_of carries frs evs)"
  by (auto simp: pieces_of_def dest: one_piece)

lemma pending:
  assumes "has {} s"
  shows "\<forall>ev \<in> set evs. other ev \<or> (\<exists>x \<in> set frs. carries x ev) \<Longrightarrow> \<not> set frs \<subseteq> pieces_of carries frs evs \<Longrightarrow>
    has (pieces_of carries frs evs) (fold receive evs s)"
proof (induction evs rule: rev_induct)
  case Nil
  then show ?case using assms by (simp add: pieces_of_def)
next
  case (snoc ev evs)
  have "pieces_of carries frs evs \<subseteq> pieces_of carries frs (evs @ [ev])" by (auto simp: pieces_of_def)
  then have IH: "has (pieces_of carries frs evs) (fold receive evs s)"
    using snoc.IH snoc.prems by auto
  from snoc.prems(1) consider "other ev" | x where "x \<in> set frs" "carries x ev" by auto
  then show ?case
  proof cases
    case 1
    then show ?thesis using IH by (simp add: pieces_of_other receive_other)
  next
    case 2
    then show ?thesis using IH snoc.prems(2) by (simp add: pieces_of_piece receive_piece)
  qed
qed

lemma complete:
  assumes "has {} s" and "\<forall>ev \<in> set (evs @ [ev]). other ev \<or> (\<exists>x \<in> set frs. carries x ev)"
    and "\<not> set frs \<subseteq> pieces_of carries frs evs" and "set frs \<subseteq> pieces_of carries frs (evs @ [ev])"
  shows "completes (fold receive evs s) (fold receive (evs @ [ev]) s) \<and> has {} (fold receive (evs @ [ev]) s)"
proof -
  have h: "has (pieces_of carries frs evs) (fold receive evs s)"
    using assms by (intro pending) auto
  have "\<not> other ev" using assms(3,4) by (auto simp: pieces_of_other)
  then obtain x where x: "x \<in> set frs" "carries x ev" using assms(2) by auto
  then have "set frs \<subseteq> insert x (pieces_of carries frs evs)" using assms(4) by (simp add: pieces_of_piece)
  with receive_last [OF x(2,1) h] show ?thesis by simp
qed

end

end
