(* ===== verification/Tdma_Schedule.thy ===== *)
theory Tdma_Schedule
  imports Emane_Prelude
begin

text \<open>
  The slot schedule of the TDMA radio model, \<^verbatim>\<open>rust/plugins/tdma/src/lib.rs\<close>: the
  schedule event, the schedule and its slot arithmetic, and \<open>parse_schedule\<close>. The
  protobuf decoder of the event is a parameter; everything after it is modelled. Lookups that
  may panic (an index out of range, a remainder or quotient by zero) are \<open>panics\<close>; a
  well-formed schedule has none of them, and every schedule that \<open>parse_schedule\<close>
  returns is well-formed.
\<close>


section \<open>Schedule events\<close>

record ScheduleTx =
  stx_frequency_hz :: "u64 option"
  stx_data_rate_bps :: "u64 option"
  stx_service_class :: "u32 option"
  stx_power_dbm :: "f64 option"
  stx_destination :: "u32 option"

record ScheduleRx =
  srx_frequency_hz :: "u64 option"

record ScheduleSlot =
  ss_index :: u32
  ss_slot_type :: i32
  ss_tx :: "ScheduleTx option"
  ss_rx :: "ScheduleRx option"

record ScheduleFrame =
  sf_index :: u32
  sf_frequency_hz :: "u64 option"
  sf_data_rate_bps :: "u64 option"
  sf_service_class :: "u32 option"
  sf_power_dbm :: "f64 option"
  sf_slots :: "ScheduleSlot list"

record ScheduleStructure =
  st_slots_per_frame :: u32
  st_frames_per_multiframe :: u32
  st_slot_duration_microseconds :: u64
  st_slot_overhead_microseconds :: u64
  st_bandwidth_hz :: u64

record ScheduleEvent =
  se_frames :: "ScheduleFrame list"
  se_structure :: "ScheduleStructure option"
  se_frequency_hz :: "u64 option"
  se_data_rate_bps :: "u64 option"
  se_service_class :: "u32 option"
  se_power_dbm :: "f64 option"

datatype SlotType = Tx | Rx | Idle

definition SlotType_try_from :: "i32 \<Rightarrow> SlotType option" where
  "SlotType_try_from value =
     (if value = 1 then Some Tx else if value = 2 then Some Rx else if value = 3 then Some Idle else None)"


section \<open>Schedules\<close>

text \<open>\<open>TxSlot\<close> has the frequency, the data rate, the service class, the power and the
  destination; \<open>RxSlot\<close> the frequency.\<close>

datatype Slot =
    TxSlot u64 u64 u8 f64 u16
  | RxSlot u64
  | IdleSlot

fun is_tx :: "Slot \<Rightarrow> bool" where
  "is_tx (TxSlot _ _ _ _ _) \<longleftrightarrow> True"
| "is_tx _ \<longleftrightarrow> False"

record Schedule =
  sch_slots_per_frame :: u32
  sch_frames_per_multiframe :: u32
  sch_slot_duration_us :: u64
  sch_overhead_us :: u64
  sch_bandwidth_hz :: u64
  sch_slots :: "Slot list"

definition cycle_slots :: "Schedule \<Rightarrow> u64" where
  "cycle_slots self = ucast (sch_slots_per_frame self) * ucast (sch_frames_per_multiframe self)"

definition slot :: "Schedule \<Rightarrow> u64 \<Rightarrow> Slot panics" where
  "slot self absolute =
     (if cycle_slots self = 0 then panic
      else index_get (sch_slots self) (unat (absolute mod cycle_slots self)))"

definition absolute_slot :: "Schedule \<Rightarrow> i64 \<Rightarrow> u64 panics" where
  "absolute_slot self time_us =
     (if sch_slot_duration_us self = 0 then panic
      else Some ((if sint time_us < 0 then 0 else time_us) div sch_slot_duration_us self))"

definition slot_start :: "Schedule \<Rightarrow> u64 \<Rightarrow> i64" where
  "slot_start self absolute = i64_from_u64_or_max (saturating_mul absolute (sch_slot_duration_us self))"

text \<open>\<open>iter.find(predicate)\<close> with a predicate that may panic.\<close>

fun find_panics :: "('a \<Rightarrow> bool panics) \<Rightarrow> 'a list \<Rightarrow> 'a option panics" where
  "find_panics p [] = Some None"
| "find_panics p (x # xs) = do { b \<leftarrow> p x; if b then Some (Some x) else find_panics p xs }"

definition next_tx :: "Schedule \<Rightarrow> u64 \<Rightarrow> u64 option panics" where
  "next_tx self after_absolute =
     find_panics (\<lambda>index. map_option is_tx (slot self index))
       (map (\<lambda>offset. saturating_add after_absolute (word_of_nat offset))
          [1..<Suc (unat (cycle_slots self))])"


section \<open>parse\_schedule\<close>

definition option_or :: "'a option \<Rightarrow> 'a option \<Rightarrow> 'a option" where
  "option_or a b = (case a of None \<Rightarrow> b | Some x \<Rightarrow> Some x)"

definition bad_structure :: "ScheduleStructure \<Rightarrow> bool" where
  "bad_structure structure \<longleftrightarrow>
     st_slots_per_frame structure = 0 \<or> st_frames_per_multiframe structure = 0
     \<or> st_slot_duration_microseconds structure = 0
     \<or> st_slot_overhead_microseconds structure \<ge> st_slot_duration_microseconds structure
     \<or> st_bandwidth_hz structure = 0"

text \<open>The product of two 32-bit counts does not overflow 64 bits, so the checked
  multiplication and conversion succeed and only the size limit can reject.\<close>

definition new_schedule :: "ScheduleStructure \<Rightarrow> (string, Schedule) result_panics" where
  "new_schedule structure =
     (if bad_structure structure then err_res ''invalid TDMA slot structure''
      else (case Option.bind
               (checked_mul (unat (st_slots_per_frame structure)) (unat (st_frames_per_multiframe structure)))
               (\<lambda>value. if value \<le> 1000000 then Some value else None) of
          None \<Rightarrow> err_res ''TDMA schedule is too large''
        | Some count \<Rightarrow> ok_res
            \<lparr>sch_slots_per_frame = st_slots_per_frame structure,
             sch_frames_per_multiframe = st_frames_per_multiframe structure,
             sch_slot_duration_us = st_slot_duration_microseconds structure,
             sch_overhead_us = st_slot_overhead_microseconds structure,
             sch_bandwidth_hz = st_bandwidth_hz structure,
             sch_slots = replicate count IdleSlot\<rparr>))"

definition set_slot :: "Schedule \<Rightarrow> nat \<Rightarrow> Slot \<Rightarrow> (string, Schedule) result_panics" where
  "set_slot schedule i s =
     (case index_set (sch_slots schedule) i s of
        None \<Rightarrow> panic
      | Some slots \<Rightarrow> ok_res (schedule\<lparr>sch_slots := slots\<rparr>))"

text \<open>A frame of a full schedule: the slots it does not name receive on its frequency.\<close>

definition fill_undefined :: "Schedule \<Rightarrow> ScheduleFrame \<Rightarrow> u64 option \<Rightarrow> (string, Schedule) result_panics" where
  "fill_undefined schedule frame frame_frequency =
     (let explicit = remdups (map ss_index (sf_slots frame))
      in if length explicit < unat (sch_slots_per_frame schedule) then
           (case frame_frequency of
              Some frequency_hz \<Rightarrow>
                if frequency_hz = 0 then err_res ''undefined TDMA receive slot has no frequency''
                else
                  (let frame_start = unat (sf_index frame) * unat (sch_slots_per_frame schedule)
                   in res_fold (\<lambda>schedule slot_index.
                          if word_of_nat slot_index \<in> set explicit then ok_res schedule
                          else set_slot schedule (frame_start + slot_index) (RxSlot frequency_hz))
                        schedule [0..<unat (sch_slots_per_frame schedule)])
            | None \<Rightarrow> err_res ''undefined TDMA receive slot has no frequency'')
         else ok_res schedule)"

definition tx_slot :: "ScheduleTx option \<Rightarrow> u64 option \<Rightarrow> u64 option \<Rightarrow> u32 \<Rightarrow> f64 \<Rightarrow> (string, Slot) result_panics" where
  "tx_slot slot_tx frame_frequency frame_rate frame_class frame_power =
     (let tx = unwrap_or slot_tx \<lparr>stx_frequency_hz = None, stx_data_rate_bps = None,
                 stx_service_class = None, stx_power_dbm = None, stx_destination = None\<rparr>;
          frequency_hz = unwrap_or (option_or (stx_frequency_hz tx) frame_frequency) 0;
          data_rate_bps = unwrap_or (option_or (stx_data_rate_bps tx) frame_rate) 0;
          service_class = unwrap_or (stx_service_class tx) frame_class;
          power_dbm = unwrap_or (stx_power_dbm tx) frame_power;
          destination = unwrap_or (stx_destination tx) 0
      in if frequency_hz = 0 \<or> data_rate_bps = 0 \<or> service_class > 3 \<or> destination > 0xFFFF
            \<or> \<not> f64_is_finite power_dbm
         then err_res ''invalid TDMA transmit slot''
         else ok_res (TxSlot frequency_hz data_rate_bps (ucast service_class) power_dbm (ucast destination)))"

definition rx_slot :: "ScheduleRx option \<Rightarrow> u64 option \<Rightarrow> (string, Slot) result_panics" where
  "rx_slot slot_rx frame_frequency =
     (let frequency_hz = unwrap_or (option_or (Option.bind slot_rx srx_frequency_hz) frame_frequency) 0
      in if frequency_hz = 0 then err_res ''invalid TDMA receive slot'' else ok_res (RxSlot frequency_hz))"

definition slot_value :: "u64 option \<Rightarrow> u64 option \<Rightarrow> u32 \<Rightarrow> f64 \<Rightarrow> ScheduleSlot \<Rightarrow> (string, Slot) result_panics" where
  "slot_value frame_frequency frame_rate frame_class frame_power s =
     (case SlotType_try_from (ss_slot_type s) of
        Some Tx \<Rightarrow> tx_slot (ss_tx s) frame_frequency frame_rate frame_class frame_power
      | Some Rx \<Rightarrow> rx_slot (ss_rx s) frame_frequency
      | Some Idle \<Rightarrow> ok_res IdleSlot
      | None \<Rightarrow> err_res ''invalid TDMA slot type'')"

definition parse_slot :: "u32 \<Rightarrow> u64 option \<Rightarrow> u64 option \<Rightarrow> u32 \<Rightarrow> f64 \<Rightarrow> Schedule \<Rightarrow> ScheduleSlot \<Rightarrow> (string, Schedule) result_panics" where
  "parse_slot frame_index frame_frequency frame_rate frame_class frame_power schedule s =
     (if ss_index s \<ge> sch_slots_per_frame schedule then err_res ''TDMA slot index is out of range''
      else
        (let index = unat (frame_index * sch_slots_per_frame schedule + ss_index s)
         in res_bind (slot_value frame_frequency frame_rate frame_class frame_power s)
              (set_slot schedule index)))"

definition parse_frame :: "ScheduleEvent \<Rightarrow> bool \<Rightarrow> Schedule \<Rightarrow> ScheduleFrame \<Rightarrow> (string, Schedule) result_panics" where
  "parse_frame event full schedule frame =
     (if sf_index frame \<ge> sch_frames_per_multiframe schedule then err_res ''TDMA frame index is out of range''
      else
        (let frame_frequency = option_or (sf_frequency_hz frame) (se_frequency_hz event);
             frame_rate = option_or (sf_data_rate_bps frame) (se_data_rate_bps event);
             frame_class = unwrap_or (option_or (sf_service_class frame) (se_service_class event)) 0;
             frame_power = unwrap_or (option_or (sf_power_dbm frame) (se_power_dbm event)) 0
         in res_bind
              (if full then fill_undefined schedule frame frame_frequency else ok_res schedule)
              (\<lambda>schedule. res_fold (parse_slot (sf_index frame) frame_frequency frame_rate frame_class frame_power)
                 schedule (sf_slots frame))))"

definition parse_event :: "ScheduleEvent \<Rightarrow> Schedule option \<Rightarrow> (string, Schedule \<times> bool) result_panics" where
  "parse_event event current =
     (let full = (se_structure event \<noteq> None)
      in res_bind
           (case se_structure event of
              Some structure \<Rightarrow> new_schedule structure
            | None \<Rightarrow> (case current of
                  Some schedule \<Rightarrow> ok_res schedule
                | None \<Rightarrow> err_res ''schedule update received before full schedule''))
           (\<lambda>schedule. res_bind (res_fold (parse_frame event full) schedule (se_frames event))
              (\<lambda>schedule. ok_res (schedule, full))))"

definition parse_schedule ::
  "(byte list \<Rightarrow> string + ScheduleEvent) \<Rightarrow> byte list \<Rightarrow> Schedule option \<Rightarrow> (string, Schedule \<times> bool) result_panics" where
  "parse_schedule decode data current =
     (case decode data of
        Inl error \<Rightarrow> err_res (''invalid schedule: '' @ error)
      | Inr event \<Rightarrow> parse_event event current)"


section \<open>Well-formed schedules\<close>

fun wf_slot :: "Slot \<Rightarrow> bool" where
  "wf_slot (TxSlot frequency_hz data_rate_bps service_class power_dbm destination) \<longleftrightarrow>
     frequency_hz \<noteq> 0 \<and> data_rate_bps \<noteq> 0 \<and> service_class \<le> 3 \<and> f64_is_finite power_dbm"
| "wf_slot (RxSlot frequency_hz) \<longleftrightarrow> frequency_hz \<noteq> 0"
| "wf_slot IdleSlot \<longleftrightarrow> True"

definition wf_schedule :: "Schedule \<Rightarrow> bool" where
  "wf_schedule s \<longleftrightarrow>
     sch_slots_per_frame s \<noteq> 0 \<and> sch_frames_per_multiframe s \<noteq> 0
     \<and> sch_slot_duration_us s \<noteq> 0 \<and> sch_overhead_us s < sch_slot_duration_us s
     \<and> sch_bandwidth_hz s \<noteq> 0
     \<and> length (sch_slots s) = unat (sch_slots_per_frame s) * unat (sch_frames_per_multiframe s)
     \<and> length (sch_slots s) \<le> 1000000
     \<and> list_all wf_slot (sch_slots s)"

lemma unat_u32_less: "unat (w::u32) < 2 ^ 32"
  using unsigned_less [of w] by simp

lemma unat_ucast_32_64 [simp]: "unat (ucast (w::u32) :: u64) = unat w"
  using unat_u32_less [of w]
  by (simp add: unsigned_ucast_eq take_bit_nat_eq_self_iff)

lemma unat_cycle_slots: "unat (cycle_slots s) = unat (sch_slots_per_frame s) * unat (sch_frames_per_multiframe s)"
proof -
  have "unat (sch_slots_per_frame s) * unat (sch_frames_per_multiframe s) < 2 ^ 32 * 2 ^ 32"
    by (intro mult_strict_mono unat_u32_less) auto
  then show ?thesis
    by (simp add: cycle_slots_def unat_word_ariths)
qed

lemma wf_cycle_slots: "wf_schedule s \<Longrightarrow> unat (cycle_slots s) = length (sch_slots s) \<and> 0 < length (sch_slots s)"
  by (simp add: wf_schedule_def unat_cycle_slots unat_gt_0)

lemma wf_cycle_slots_nonzero: "wf_schedule s \<Longrightarrow> cycle_slots s \<noteq> 0"
  using wf_cycle_slots [of s] by auto

lemma slot_index_less: "wf_schedule s \<Longrightarrow> unat (k mod cycle_slots s) < length (sch_slots s)"
  using wf_cycle_slots [of s] by (simp add: unat_mod)

lemma wf_slot_nth:
  "wf_schedule s \<Longrightarrow> slot s k = Some (sch_slots s ! (unat k mod length (sch_slots s)))"
  using slot_index_less [of s k] wf_cycle_slots_nonzero [of s] wf_cycle_slots [of s]
  by (simp add: slot_def index_get_def unat_mod)

lemma wf_slot_slot: "wf_schedule s \<Longrightarrow> slot s k = Some x \<Longrightarrow> wf_slot x"
  using slot_index_less [of s k] wf_cycle_slots [of s]
  by (auto simp: wf_slot_nth unat_mod wf_schedule_def list_all_length)

text \<open>The 32-bit index computation of \<open>parse_schedule\<close> does not wrap.\<close>

lemma flat_index:
  fixes fi si spf fpm :: u32
  assumes "fi < fpm" "si < spf" "unat spf * unat fpm \<le> 1000000"
  shows "unat (fi * spf + si) = unat fi * unat spf + unat si"
    and "unat fi * unat spf + unat si < unat spf * unat fpm"
proof -
  from assms(1,2) have "Suc (unat fi) \<le> unat fpm" "unat si < unat spf"
    by (simp_all add: word_less_nat_alt)
  then have "Suc (unat fi) * unat spf \<le> unat fpm * unat spf" by (intro mult_le_mono1)
  then show less: "unat fi * unat spf + unat si < unat spf * unat fpm"
    using \<open>unat si < unat spf\<close> by (simp add: mult.commute)
  then show "unat (fi * spf + si) = unat fi * unat spf + unat si"
    using assms(3) by (simp add: unat_word_ariths)
qed

text \<open>What a step of the parser keeps: the structure and well-formedness.\<close>

definition same_structure :: "Schedule \<Rightarrow> Schedule \<Rightarrow> bool" where
  "same_structure s t \<longleftrightarrow> Schedule.truncate s\<lparr>sch_slots := []\<rparr> = Schedule.truncate t\<lparr>sch_slots := []\<rparr>"

definition keeps :: "Schedule \<Rightarrow> Schedule \<Rightarrow> bool" where
  "keeps s t \<longleftrightarrow> same_structure s t \<and> wf_schedule t"

lemma same_structureD:
  "same_structure s t \<Longrightarrow> sch_slots_per_frame t = sch_slots_per_frame s
     \<and> sch_frames_per_multiframe t = sch_frames_per_multiframe s
     \<and> sch_slot_duration_us t = sch_slot_duration_us s
     \<and> sch_overhead_us t = sch_overhead_us s \<and> sch_bandwidth_hz t = sch_bandwidth_hz s"
  by (cases s; cases t) (simp add: same_structure_def Schedule.defs)

lemma keeps_refl: "wf_schedule s \<Longrightarrow> keeps s s"
  by (simp add: keeps_def same_structure_def)

lemma keeps_trans: "keeps s t \<Longrightarrow> keeps t u \<Longrightarrow> keeps s u"
  by (simp add: keeps_def same_structure_def)

lemma keeps_update:
  assumes "keeps s t" "i < length (sch_slots t)" "wf_slot x"
  shows "keeps s (t\<lparr>sch_slots := (sch_slots t)[i := x]\<rparr>)"
  using assms
  by (auto simp: keeps_def same_structure_def wf_schedule_def list_all_iff Schedule.defs dest!: set_update_subset_insert [THEN subsetD])

lemma keeps_set_slot:
  "keeps s t \<Longrightarrow> i < length (sch_slots t) \<Longrightarrow> wf_slot x \<Longrightarrow> res_ok (keeps s) (set_slot t i x)"
  by (simp add: set_slot_def index_set_def keeps_update)

lemma service_class_ucast: "(c::u32) \<le> 3 \<Longrightarrow> (ucast c :: u8) \<le> 3"
proof -
  assume "c \<le> 3"
  then have "unat c \<le> 3" by (simp add: word_le_nat_alt)
  then have "take_bit 8 (unat c) = unat c" by (simp add: take_bit_nat_eq_self_iff)
  with \<open>unat c \<le> 3\<close> show ?thesis by (simp add: word_le_nat_alt unsigned_ucast_eq)
qed

lemma tx_slot_wf: "res_ok wf_slot (tx_slot tx f r c p)"
  by (simp add: tx_slot_def Let_def service_class_ucast not_less)

lemma rx_slot_wf: "res_ok wf_slot (rx_slot rx f)"
  by (simp add: rx_slot_def Let_def)

lemma keeps_parse_slot:
  assumes "keeps s t" "fi < sch_frames_per_multiframe t"
  shows "res_ok (keeps s) (parse_slot fi ff fr fc fp t x)"
proof (cases "ss_index x < sch_slots_per_frame t")
  case True
  have wf: "wf_schedule t" using assms(1) by (simp add: keeps_def)
  note f = flat_index [OF assms(2) True]
  have i: "unat (fi * sch_slots_per_frame t + ss_index x) < length (sch_slots t)"
    using f wf by (simp add: wf_schedule_def)
  have "res_ok wf_slot (slot_value ff fr fc fp x)"
    by (auto simp: slot_value_def tx_slot_wf rx_slot_wf split: option.split SlotType.split)
  then show ?thesis
    using True assms(1) i by (auto simp: parse_slot_def Let_def intro!: res_ok_bind keeps_set_slot)
qed (simp add: parse_slot_def not_less)

lemma keeps_fill_undefined:
  assumes "keeps s t" "sf_index frame < sch_frames_per_multiframe t"
  shows "res_ok (keeps s) (fill_undefined t frame ff)"
proof -
  let ?n = "unat (sch_slots_per_frame t)"
  have "res_ok (keeps s) (res_fold (\<lambda>schedule i. if word_of_nat i \<in> e then ok_res schedule
      else set_slot schedule (unat (sf_index frame) * ?n + i) (RxSlot f)) t [0..<?n])"
    if "f \<noteq> 0" for e :: "u32 set" and f
  proof (rule res_ok_fold [where P = "keeps s"])
    show "keeps s t" by (rule assms(1))
  next
    fix u i assume u: "keeps s u" and i: "i \<in> set [0..<?n]"
    have st: "sch_slots_per_frame u = sch_slots_per_frame t" "sch_frames_per_multiframe u = sch_frames_per_multiframe t"
      using u assms(1) by (auto simp: keeps_def dest!: same_structureD)
    have "Suc (unat (sf_index frame)) \<le> unat (sch_frames_per_multiframe t)"
      using assms(2) by (simp add: word_less_nat_alt Suc_le_eq)
    then have "Suc (unat (sf_index frame)) * ?n \<le> unat (sch_frames_per_multiframe t) * ?n"
      by (intro mult_le_mono1)
    then have "unat (sf_index frame) * ?n + i < length (sch_slots u)"
      using i u st by (simp add: keeps_def wf_schedule_def mult.commute)
    with u that show "res_ok (keeps s) (if word_of_nat i \<in> e then ok_res u
        else set_slot u (unat (sf_index frame) * ?n + i) (RxSlot f))"
      by (simp add: keeps_set_slot)
  qed
  with assms(1) show ?thesis
    by (simp add: fill_undefined_def Let_def split: option.split)
qed

lemma keeps_parse_frame:
  assumes "keeps s t"
  shows "res_ok (keeps s) (parse_frame event full t frame)"
proof (cases "sf_index frame < sch_frames_per_multiframe t")
  case True
  have "res_ok (keeps s) (res_fold (parse_slot (sf_index frame) ff fr fc fp) u xs)"
    if "keeps s u" for u ff fr fc fp xs
    using True assms that
    by (intro res_ok_fold keeps_parse_slot) (auto simp: keeps_def dest!: same_structureD)
  then show ?thesis
    using True assms
    by (auto simp: parse_frame_def Let_def intro!: res_ok_bind keeps_fill_undefined)
qed (simp add: parse_frame_def not_less)

lemma new_schedule_wf: "res_ok wf_schedule (new_schedule structure)"
  by (auto simp: new_schedule_def bad_structure_def wf_schedule_def checked_mul_def list_all_iff not_le
      split: option.split Option.bind_split)

lemma parse_event_wf:
  assumes "\<And>s. current = Some s \<Longrightarrow> wf_schedule s"
  shows "res_ok (\<lambda>(s, full). wf_schedule s \<and> full = (se_structure event \<noteq> None)
     \<and> (se_structure event = None \<longrightarrow> same_structure (the current) s)) (parse_event event current)"
  unfolding parse_event_def Let_def
proof (rule res_ok_bind)
  show "res_ok (\<lambda>s. wf_schedule s \<and> (se_structure event = None \<longrightarrow> same_structure (the current) s))
     (case se_structure event of
              Some structure \<Rightarrow> new_schedule structure
            | None \<Rightarrow> (case current of
                  Some schedule \<Rightarrow> ok_res schedule
                | None \<Rightarrow> err_res ''schedule update received before full schedule''))"
    using assms new_schedule_wf
    by (auto simp: same_structure_def split: option.split intro: res_ok_weaken)
next
  fix s assume s: "wf_schedule s \<and> (se_structure event = None \<longrightarrow> same_structure (the current) s)"
  have "res_ok (keeps s) (res_fold (parse_frame event (se_structure event \<noteq> None)) s (se_frames event))"
    using s by (intro res_ok_fold keeps_refl keeps_parse_frame) auto
  then show "res_ok (\<lambda>(s, full). wf_schedule s \<and> full = (se_structure event \<noteq> None)
     \<and> (se_structure event = None \<longrightarrow> same_structure (the current) s))
     (res_bind (res_fold (parse_frame event (se_structure event \<noteq> None)) s (se_frames event))
              (\<lambda>schedule. ok_res (schedule, se_structure event \<noteq> None)))"
    using s by (auto intro!: res_ok_bind simp: keeps_def same_structure_def)
qed


section \<open>Slot arithmetic\<close>

lemma find_panics_total:
  assumes "\<And>x. x \<in> set xs \<Longrightarrow> p x = Some (q x)"
  shows "find_panics p xs = Some (List.find q xs)"
  using assms by (induction xs) auto

lemma find_upt_Some:
  "List.find q (map f [m..<n]) = Some y \<longleftrightarrow>
   (\<exists>i. m \<le> i \<and> i < n \<and> y = f i \<and> q (f i) \<and> (\<forall>j. m \<le> j \<and> j < i \<longrightarrow> \<not> q (f j)))"
  (is "?l \<longleftrightarrow> ?r")
proof -
  have "?l \<longleftrightarrow> (\<exists>i < n - m. q (f (m + i)) \<and> y = f (m + i) \<and> (\<forall>j < i. \<not> q (f (m + j))))"
    by (auto simp: find_Some_iff)
  also have "\<dots> \<longleftrightarrow> ?r"
  proof
    assume "\<exists>i < n - m. q (f (m + i)) \<and> y = f (m + i) \<and> (\<forall>j < i. \<not> q (f (m + j)))"
    then obtain i where i: "i < n - m" "q (f (m + i))" "y = f (m + i)" "\<forall>j < i. \<not> q (f (m + j))" by blast
    have "\<not> q (f j)" if "m \<le> j" "j < m + i" for j
      using i(4) [rule_format, of "j - m"] that by simp
    with i show ?r by (intro exI [of _ "m + i"]) auto
  next
    assume ?r
    then obtain i where "m \<le> i" "i < n" "y = f i" "q (f i)" "\<forall>j. m \<le> j \<and> j < i \<longrightarrow> \<not> q (f j)" by blast
    then show "\<exists>i < n - m. q (f (m + i)) \<and> y = f (m + i) \<and> (\<forall>j < i. \<not> q (f (m + j)))"
      by (intro exI [of _ "i - m"]) auto
  qed
  finally show ?thesis .
qed

definition tx_at :: "Schedule \<Rightarrow> nat \<Rightarrow> bool" where
  "tx_at s k \<longleftrightarrow> is_tx (sch_slots s ! (k mod length (sch_slots s)))"

lemma slot_is_tx: "wf_schedule s \<Longrightarrow> map_option is_tx (slot s k) = Some (tx_at s (unat k))"
  by (simp add: wf_slot_nth tx_at_def)

lemma next_tx_total: "wf_schedule s \<Longrightarrow> \<exists>r. next_tx s k = Some r"
  unfolding next_tx_def by (rule exI, rule find_panics_total, rule slot_is_tx)

lemma unat_sum_small: "unat (a::u64) + n < 2 ^ 64 \<Longrightarrow> unat (saturating_add a (word_of_nat n)) = unat a + n"
  by (simp add: unat_saturating_add unat_of_nat take_bit_nat_eq_self_iff flip: take_bit_eq_mod)

lemma saturating_add_of_nat:
  "unat (a::u64) + n < 2 ^ 64 \<Longrightarrow> saturating_add a (word_of_nat n) = word_of_nat (unat a + n)"
  using arg_cong [OF unat_sum_small, of a n "word_of_nat :: nat \<Rightarrow> u64"] by simp

lemma next_tx_find:
  assumes "wf_schedule s" "unat k + length (sch_slots s) < 2 ^ 64"
  shows "next_tx s k = Some (map_option word_of_nat
           (List.find (tx_at s) (map (\<lambda>i. unat k + i) [1..<Suc (length (sch_slots s))])))"
proof -
  let ?n = "length (sch_slots s)"
  have "next_tx s k = Some (List.find (\<lambda>w. tx_at s (unat w))
      (map (\<lambda>i. saturating_add k (word_of_nat i)) [1..<Suc ?n]))"
    using assms(1) wf_cycle_slots [OF assms(1)] unfolding next_tx_def
    by (intro find_panics_total [THEN trans]) (auto simp: slot_is_tx)
  also have "map (\<lambda>i. saturating_add k (word_of_nat i)) [1..<Suc ?n] =
      map (word_of_nat :: nat \<Rightarrow> u64) (map (\<lambda>i. unat k + i) [1..<Suc ?n])"
    using assms(2) by (auto intro!: saturating_add_of_nat simp del: of_nat_add)
  also have "List.find (\<lambda>w. tx_at s (unat w)) (map word_of_nat xs) = map_option (word_of_nat :: nat \<Rightarrow> u64) (List.find (tx_at s) xs)"
    if "\<forall>x \<in> set xs. x < 2 ^ 64" for xs
    using that by (induction xs) (simp_all add: unat_of_nat take_bit_nat_eq_self_iff flip: take_bit_eq_mod)
  finally show ?thesis using assms(2) by auto
qed

text \<open>The slots of one cycle after any slot are all the slots of the schedule.\<close>

lemma cycle_covers: "0 < n \<Longrightarrow> j < n \<Longrightarrow> \<exists>i. 1 \<le> i \<and> i \<le> n \<and> (k + i) mod n = (j::nat)"
proof -
  assume n: "0 < n" and j: "j < n"
  define i where "i = (j + (n - Suc k mod n)) mod n"
  have "(Suc k + i) mod n = (Suc k mod n + (j + (n - Suc k mod n)) mod n) mod n"
    by (simp add: i_def mod_add_left_eq)
  also have "\<dots> = (Suc k mod n + (j + (n - Suc k mod n))) mod n" by (simp add: mod_add_right_eq)
  also have "Suc k mod n + (j + (n - Suc k mod n)) = j + n"
    using mod_less_divisor [OF n, of "Suc k"] by simp
  finally have "(k + Suc i) mod n = j" using j by simp
  moreover have "i < n" using n by (simp add: i_def)
  ultimately show ?thesis by (intro exI [of _ "Suc i"]) simp
qed

lemma next_tx_None_iff:
  assumes "wf_schedule s" "unat k + length (sch_slots s) < 2 ^ 64"
  shows "next_tx s k = Some None \<longleftrightarrow> \<not> list_ex is_tx (sch_slots s)"
proof -
  let ?n = "length (sch_slots s)"
  have n: "0 < ?n" using wf_cycle_slots [OF assms(1)] by simp
  have "next_tx s k = Some None \<longleftrightarrow> (\<forall>i \<in> {1..?n}. \<not> tx_at s (unat k + i))"
    unfolding next_tx_find [OF assms] by (auto simp: find_None_iff)
  also have "\<dots> \<longleftrightarrow> (\<forall>j < ?n. \<not> is_tx (sch_slots s ! j))"
  proof (intro iffI allI impI ballI)
    fix j assume a: "\<forall>i \<in> {1..?n}. \<not> tx_at s (unat k + i)" and "j < ?n"
    then obtain i where "1 \<le> i" "i \<le> ?n" "(unat k + i) mod ?n = j"
      using cycle_covers [OF n] by blast
    with a show "\<not> is_tx (sch_slots s ! j)" by (auto simp: tx_at_def)
  qed (use n in \<open>auto simp: tx_at_def\<close>)
  finally show ?thesis by (auto simp: list_ex_length)
qed


section \<open>What an accepted event makes of every slot\<close>

text \<open>
  The specification of \<open>parse_schedule\<close>, slot by slot: the last entry for the slot in
  a frame decides; a slot of a named frame that the frame does not name receives on the frame
  frequency when the schedule is full; every other slot keeps its value. Frames apply in order.
\<close>

definition entry_for :: "nat \<Rightarrow> u32 \<Rightarrow> ScheduleSlot list \<Rightarrow> nat \<Rightarrow> ScheduleSlot option" where
  "entry_for spf fi xs i = List.find (\<lambda>x. i = unat fi * spf + unat (ss_index x)) (rev xs)"

definition frame_effect :: "ScheduleEvent \<Rightarrow> bool \<Rightarrow> nat \<Rightarrow> nat \<Rightarrow> ScheduleFrame \<Rightarrow> Slot \<Rightarrow> Slot" where
  "frame_effect event full spf i frame old =
     (let frame_frequency = option_or (sf_frequency_hz frame) (se_frequency_hz event);
          frame_rate = option_or (sf_data_rate_bps frame) (se_data_rate_bps event);
          frame_class = unwrap_or (option_or (sf_service_class frame) (se_service_class event)) 0;
          frame_power = unwrap_or (option_or (sf_power_dbm frame) (se_power_dbm event)) 0
      in case entry_for spf (sf_index frame) (sf_slots frame) i of
           Some x \<Rightarrow> projr (the (slot_value frame_frequency frame_rate frame_class frame_power x))
         | None \<Rightarrow>
             if full \<and> i div spf = unat (sf_index frame) then RxSlot (the frame_frequency) else old)"

lemma res_fold_snoc: "res_fold f s (xs @ [x]) = res_bind (res_fold f s xs) (\<lambda>s. f s x)"
  by (induction xs arbitrary: s) (auto simp: res_bind_def ok_res_def split: option.split sum.split)

lemma set_slot_ok: "set_slot t i x = ok_res u \<longleftrightarrow> i < length (sch_slots t) \<and> u = t\<lparr>sch_slots := (sch_slots t)[i := x]\<rparr>"
  by (auto simp: set_slot_def index_set_def)

lemma parse_slot_nth:
  assumes "parse_slot fi ff fr fc fp t x = ok_res u" "wf_schedule t" "fi < sch_frames_per_multiframe t"
  shows "sch_slots u ! i = (if i = unat fi * unat (sch_slots_per_frame t) + unat (ss_index x)
           then projr (the (slot_value ff fr fc fp x)) else sch_slots t ! i)"
    and "ss_index x < sch_slots_per_frame t"
proof -
  have nle: "\<not> sch_slots_per_frame t \<le> ss_index x"
    using assms(1) by (auto simp: parse_slot_def)
  then show x: "ss_index x < sch_slots_per_frame t" by (simp add: not_le)
  from flat_index(1) [OF assms(3) x] assms(2)
  have "unat (fi * sch_slots_per_frame t + ss_index x) = unat fi * unat (sch_slots_per_frame t) + unat (ss_index x)"
    by (simp add: wf_schedule_def)
  then obtain y where "slot_value ff fr fc fp x = ok_res y"
      "set_slot t (unat fi * unat (sch_slots_per_frame t) + unat (ss_index x)) y = ok_res u"
    using assms(1) nle by (auto simp: parse_slot_def Let_def res_bind_ok_iff)
  then show "sch_slots u ! i = (if i = unat fi * unat (sch_slots_per_frame t) + unat (ss_index x)
           then projr (the (slot_value ff fr fc fp x)) else sch_slots t ! i)"
    by (auto simp: set_slot_ok)
qed

lemma parse_slots_nth:
  assumes "wf_schedule t" "fi < sch_frames_per_multiframe t"
  shows "res_fold (parse_slot fi ff fr fc fp) t xs = ok_res u \<Longrightarrow>
    keeps t u \<and> (\<forall>x \<in> set xs. ss_index x < sch_slots_per_frame t) \<and>
    sch_slots u ! i = (case entry_for (unat (sch_slots_per_frame t)) fi xs i of
        Some x \<Rightarrow> projr (the (slot_value ff fr fc fp x)) | None \<Rightarrow> sch_slots t ! i)"
proof (induction xs arbitrary: u rule: rev_induct)
  case Nil
  then show ?case using assms by (simp add: entry_for_def keeps_refl)
next
  case (snoc x xs)
  from snoc.prems obtain v where v: "res_fold (parse_slot fi ff fr fc fp) t xs = ok_res v"
      and u: "parse_slot fi ff fr fc fp v x = ok_res u"
    by (auto simp: res_fold_snoc res_bind_ok_iff)
  note IH = snoc.IH [OF v]
  have st: "sch_slots_per_frame v = sch_slots_per_frame t" "sch_frames_per_multiframe v = sch_frames_per_multiframe t"
    and wf: "wf_schedule v"
    using IH by (auto simp: keeps_def dest: same_structureD)
  have "keeps t u"
    using keeps_parse_slot [of t v fi ff fr fc fp x] IH st assms(2) res_okD [OF _ u] by auto
  then show ?case
    using IH st parse_slot_nth(1) [OF u wf, where i = i] parse_slot_nth(2) [OF u wf] assms(2)
    by (auto simp: entry_for_def)
qed

lemma fill_undefined_fold:
  assumes "res_fold (\<lambda>schedule i. if word_of_nat i \<in> e then ok_res schedule
      else set_slot schedule (b + i) x) t [0..<n] = ok_res u"
  shows "sch_slots u ! k = (if b \<le> k \<and> k < b + n \<and> word_of_nat (k - b) \<notin> e then x else sch_slots t ! k)"
  using assms
proof (induction n arbitrary: u)
  case (Suc n)
  from Suc.prems obtain v where v: "res_fold (\<lambda>schedule i. if word_of_nat i \<in> e then ok_res schedule
      else set_slot schedule (b + i) x) t [0..<n] = ok_res v"
      and u: "(if word_of_nat n \<in> e then ok_res v else set_slot v (b + n) x) = ok_res u"
    by (auto simp: res_fold_snoc res_bind_ok_iff)
  show ?case
    using Suc.IH [OF v] u by (cases "k = b + n") (auto simp: set_slot_ok less_Suc_eq split: if_splits)
qed auto

lemma explicit_all:
  fixes e :: "u32 set"
  assumes "\<not> card e < n" "\<forall>w \<in> e. unat w < n" "j < n"
  shows "word_of_nat j \<in> e"
proof -
  have "unat ` e \<subseteq> {..<n}" using assms(2) by auto
  moreover have "card (unat ` e) = card e" by (rule card_image) (simp add: inj_on_def word_unat_eq_iff)
  ultimately have "unat ` e = {..<n}"
    using assms(1) by (intro card_subset_eq) (auto dest: card_mono [rotated])
  then obtain w where "w \<in> e" "unat w = j" using assms(3) by (metis imageE lessThan_iff)
  then show ?thesis by auto
qed

lemma fill_undefined_nth:
  assumes "fill_undefined t frame ff = ok_res u" "wf_schedule t"
    "sf_index frame < sch_frames_per_multiframe t"
    "\<forall>x \<in> set (sf_slots frame). ss_index x < sch_slots_per_frame t"
  defines "n \<equiv> unat (sch_slots_per_frame t)"
  shows "sch_slots u ! k =
    (if k div n = unat (sf_index frame) \<and> entry_for n (sf_index frame) (sf_slots frame) k = None
     then RxSlot (the ff) else sch_slots t ! k)"
proof -
  let ?b = "unat (sf_index frame) * n" and ?e = "ss_index ` set (sf_slots frame)"
  have n: "0 < n" using assms(2) by (simp add: wf_schedule_def n_def unat_gt_0)
  have range: "k div n = unat (sf_index frame) \<longleftrightarrow> ?b \<le> k \<and> k < ?b + n"
  proof
    assume "k div n = unat (sf_index frame)"
    then show "?b \<le> k \<and> k < ?b + n"
      using div_times_less_eq_dividend [of k n] dividend_less_div_times [OF n, of k]
      by (simp add: add.commute)
  qed (auto simp: mult.commute add.commute intro!: div_nat_eqI)
  have e: "\<forall>w \<in> ?e. unat w < n" using assms(4) by (auto simp: n_def word_less_nat_alt)
  have entry: "entry_for n (sf_index frame) (sf_slots frame) k = None \<longleftrightarrow> word_of_nat (k - ?b) \<notin> ?e"
    if "?b \<le> k" "k < ?b + n"
  proof -
    have "k - ?b < 2 ^ 32" using that unat_u32_less [of "sch_slots_per_frame t"] by (simp add: n_def)
    then have *: "unat (word_of_nat (k - ?b) :: u32) = k - ?b"
      by (simp add: unat_of_nat take_bit_nat_eq_self_iff flip: take_bit_eq_mod)
    have "(k = ?b + unat (ss_index x)) = (word_of_nat (k - ?b) = ss_index x)" for x
      using that * by (auto simp: word_unat_eq_iff)
    then show ?thesis by (auto simp: entry_for_def find_None_iff)
  qed
  show ?thesis
  proof (cases "card ?e < n")
    case True
    then have "length (remdups (map ss_index (sf_slots frame))) < n"
      by (simp add: length_remdups_card_conv)
    then obtain f where "ff = Some f"
        "res_fold (\<lambda>schedule i. if word_of_nat i \<in> ?e then ok_res schedule
            else set_slot schedule (?b + i) (RxSlot f)) t [0..<n] = ok_res u"
      using assms(1) unfolding n_def by (auto simp: fill_undefined_def Let_def split: option.splits if_splits)
    then show ?thesis
      using fill_undefined_fold [of ?e ?b "RxSlot f" t n u k] entry
      by (auto simp: range simp del: of_nat_diff not_None_eq)
  next
    case False
    then have "\<not> length (remdups (map ss_index (sf_slots frame))) < n"
      by (simp add: length_remdups_card_conv)
    then have "u = t" using assms(1) by (simp add: fill_undefined_def Let_def n_def)
    moreover have "entry_for n (sf_index frame) (sf_slots frame) k \<noteq> None" if "?b \<le> k" "k < ?b + n"
      using entry [OF that] explicit_all [OF False e, of "k - ?b"] that by simp
    ultimately show ?thesis by (auto simp: range)
  qed
qed

lemma parse_frame_nth:
  assumes "parse_frame event full t frame = ok_res u" "wf_schedule t"
  shows "keeps t u \<and> sch_slots u ! k =
    frame_effect event full (unat (sch_slots_per_frame t)) k frame (sch_slots t ! k)"
proof -
  let ?ff = "option_or (sf_frequency_hz frame) (se_frequency_hz event)"
  let ?ps = "parse_slot (sf_index frame) ?ff (option_or (sf_data_rate_bps frame) (se_data_rate_bps event))
    (unwrap_or (option_or (sf_service_class frame) (se_service_class event)) 0)
    (unwrap_or (option_or (sf_power_dbm frame) (se_power_dbm event)) 0)"
  have fi: "sf_index frame < sch_frames_per_multiframe t"
    using assms(1) by (cases "sf_index frame < sch_frames_per_multiframe t") (simp_all add: parse_frame_def not_less)
  then have "\<not> sch_frames_per_multiframe t \<le> sf_index frame" by simp
  then obtain v where v: "(if full then fill_undefined t frame ?ff else ok_res t) = ok_res v"
      and u: "res_fold ?ps v (sf_slots frame) = ok_res u"
    using assms(1) unfolding parse_frame_def Let_def if_not_P [OF \<open>\<not> sch_frames_per_multiframe t \<le> sf_index frame\<close>]
      res_bind_ok_iff by blast
  have k: "keeps t v"
    using res_okD [OF keeps_fill_undefined [OF keeps_refl [OF assms(2)] fi]] v assms(2) keeps_refl
    by (cases full) auto
  then have st: "sch_slots_per_frame v = sch_slots_per_frame t" "sch_frames_per_multiframe v = sch_frames_per_multiframe t"
    and wf: "wf_schedule v"
    by (auto simp: keeps_def dest: same_structureD)
  have "sf_index frame < sch_frames_per_multiframe v" using fi st by simp
  note P = parse_slots_nth [OF wf this u, of k]
  have kt: "keeps t u" using P keeps_trans [OF k] by blast
  show ?thesis
  proof (cases full)
    case True
    with v have f: "fill_undefined t frame ?ff = ok_res v" by simp
    have "\<forall>x \<in> set (sf_slots frame). ss_index x < sch_slots_per_frame t" using P st by simp
    note F = fill_undefined_nth [OF f assms(2) fi this, of k]
    show ?thesis
      using kt F P [THEN conjunct2, THEN conjunct2] unfolding st
      by (simp add: frame_effect_def Let_def True split: option.splits)
  next
    case False
    with v have "v = t" by simp
    then show ?thesis
      using kt P [THEN conjunct2, THEN conjunct2] False
      unfolding \<open>v = t\<close> by (simp add: frame_effect_def Let_def split: option.split)
  qed
qed

lemma parse_frames_nth:
  assumes "res_fold (parse_frame event full) t fs = ok_res u" "wf_schedule t"
  shows "keeps t u \<and> sch_slots u ! k =
    fold (frame_effect event full (unat (sch_slots_per_frame t)) k) fs (sch_slots t ! k)"
  using assms
proof (induction fs arbitrary: t)
  case (Cons f fs)
  from Cons.prems(1) obtain v where v: "parse_frame event full t f = ok_res v"
      and u: "res_fold (parse_frame event full) v fs = ok_res u"
    by (auto simp: res_bind_ok_iff)
  note F = parse_frame_nth [OF v Cons.prems(2), of k]
  then have "wf_schedule v" "sch_slots_per_frame v = sch_slots_per_frame t"
    by (auto simp: keeps_def dest: same_structureD)
  with Cons.IH [OF u] F show ?case
    by (auto intro: keeps_trans)
qed (simp add: keeps_refl)


text \<open>The initial value of a slot: idle in a new schedule, unchanged in an update.\<close>

lemma parse_event_nth:
  assumes "parse_event event current = ok_res (s, full)" "\<And>c. current = Some c \<Longrightarrow> wf_schedule c"
    "i < length (sch_slots s)"
  shows "sch_slots s ! i = fold (frame_effect event full (unat (sch_slots_per_frame s)) i) (se_frames event)
    (if full then IdleSlot else sch_slots (the current) ! i)"
proof -
  have full: "full = (se_structure event \<noteq> None)"
    using res_okD [OF parse_event_wf [OF assms(2)] assms(1)] by simp
  from assms(1) obtain t where t: "(case se_structure event of
              Some structure \<Rightarrow> new_schedule structure
            | None \<Rightarrow> (case current of
                  Some schedule \<Rightarrow> ok_res schedule
                | None \<Rightarrow> err_res ''schedule update received before full schedule'')) = ok_res t"
      and s: "res_fold (parse_frame event full) t (se_frames event) = ok_res s"
    unfolding parse_event_def Let_def res_bind_ok_iff full by auto
  have wf: "wf_schedule t"
    using t assms(2) res_okD [OF new_schedule_wf] by (auto split: option.splits)
  note F = parse_frames_nth [OF s wf, of i]
  then have "length (sch_slots t) = length (sch_slots s)" "sch_slots_per_frame t = sch_slots_per_frame s"
    using wf by (auto simp: keeps_def wf_schedule_def dest!: same_structureD)
  moreover have "sch_slots t ! i = (if full then IdleSlot else sch_slots (the current) ! i)"
    using t assms(3) calculation(1) unfolding full
    by (auto simp: new_schedule_def split: option.splits if_splits Option.bind_splits)
  ultimately show ?thesis using F by simp
qed

text \<open>A slot no frame of the event writes.\<close>

definition written :: "ScheduleEvent \<Rightarrow> bool \<Rightarrow> nat \<Rightarrow> nat \<Rightarrow> bool" where
  "written event full spf i \<longleftrightarrow> (\<exists>frame \<in> set (se_frames event).
     (\<exists>x \<in> set (sf_slots frame). i = unat (sf_index frame) * spf + unat (ss_index x))
     \<or> (full \<and> i div spf = unat (sf_index frame)))"

lemma unwritten_fold: "\<not> written event full spf i \<Longrightarrow> fold (frame_effect event full spf i) (se_frames event) x = x"
proof -
  assume u: "\<not> written event full spf i"
  have "fold (frame_effect event full spf i) fs x = x" if "set fs \<subseteq> set (se_frames event)" for fs
    using that u
  proof (induction fs)
    case (Cons f fs)
    have "entry_for spf (sf_index f) (sf_slots f) i = None"
      using Cons.prems by (auto simp: entry_for_def find_None_iff written_def)
    then have "frame_effect event full spf i f x = x"
      using Cons.prems by (auto simp: frame_effect_def Let_def written_def)
    with Cons show ?case by simp
  qed simp
  then show ?thesis by simp
qed


section \<open>Slots and time\<close>

lemma slot_start_exact:
  assumes "unat k * unat (sch_slot_duration_us s) \<le> nat i64_max"
  shows "sint (slot_start s k) = int (unat k * unat (sch_slot_duration_us s))"
proof -
  have "unat (saturating_mul k (sch_slot_duration_us s)) = unat k * unat (sch_slot_duration_us s)"
    using assms by (simp add: unat_saturating_mul i64_max_def)
  then have "uint (saturating_mul k (sch_slot_duration_us s)) = int (unat k * unat (sch_slot_duration_us s))"
    by (metis uint_nat)
  moreover have "int (unat k * unat (sch_slot_duration_us s)) \<le> i64_max"
    using assms by (simp add: i64_max_def le_nat_iff del: of_nat_mult)
  moreover have "i64_min \<le> int (unat k * unat (sch_slot_duration_us s))"
    by (rule order_trans [of _ 0]) (simp_all add: i64_min_def)
  ultimately show ?thesis
    unfolding slot_start_def i64_from_u64_or_max_def sint_i64_clamp by (simp del: of_nat_mult)
qed

lemma sint_nonneg_uint: "0 \<le> sint (t::i64) \<Longrightarrow> uint t = sint t"
proof -
  assume a: "0 \<le> sint t"
  have "uint t = take_bit 63 (uint t)"
  proof (rule bit_eqI)
    fix n
    show "bit (uint t) n = bit (take_bit 63 (uint t)) n"
      using a bit_uint_iff [of t n] by (cases "n = 63") (auto simp: bit_simps sint_uint)
  qed
  with a show ?thesis by (simp add: sint_uint signed_take_bit_eq_if_positive bit_uint_iff)
qed

lemma absolute_slot_nat:
  assumes "sch_slot_duration_us s \<noteq> 0" "0 \<le> sint t"
  shows "absolute_slot s t = Some (t div sch_slot_duration_us s)"
    and "unat (t div sch_slot_duration_us s) = nat (sint t) div unat (sch_slot_duration_us s)"
proof -
  show "absolute_slot s t = Some (t div sch_slot_duration_us s)"
    using assms by (simp add: absolute_slot_def)
  show "unat (t div sch_slot_duration_us s) = nat (sint t) div unat (sch_slot_duration_us s)"
    using arg_cong [OF sint_nonneg_uint [OF assms(2)], of nat] by (simp add: unat_div)
qed

lemma slot_interval:
  assumes "sch_slot_duration_us s \<noteq> 0" "0 \<le> sint t" "absolute_slot s t = Some k"
  shows "sint (slot_start s k) \<le> sint t" "sint t < sint (slot_start s k) + uint (sch_slot_duration_us s)"
proof -
  let ?d = "unat (sch_slot_duration_us s)" and ?t = "nat (sint t)"
  have d: "0 < ?d" using assms(1) by (simp add: unat_gt_0)
  have k: "unat k = ?t div ?d" using assms absolute_slot_nat by auto
  have "unat k * ?d \<le> ?t" "?t < unat k * ?d + ?d"
    using dividend_less_div_times [OF d, of ?t] by (simp_all add: k add.commute)
  moreover have "?t \<le> nat i64_max" using sint_i64_range(2) [of t] by (simp add: nat_mono)
  ultimately have st: "sint (slot_start s k) = int (unat k * ?d)"
      and b: "int (unat k * ?d) \<le> sint t" "sint t < int (unat k * ?d + ?d)"
    using slot_start_exact [of k s] assms(2) by linarith+
  show "sint (slot_start s k) \<le> sint t" using st b(1) by simp
  show "sint t < sint (slot_start s k) + uint (sch_slot_duration_us s)" using st b(2) by simp
qed

lemma absolute_slot_start:
  assumes "sch_slot_duration_us s \<noteq> 0" "unat k * unat (sch_slot_duration_us s) \<le> nat i64_max"
  shows "absolute_slot s (slot_start s k) = Some k"
proof -
  note st = slot_start_exact [OF assms(2)]
  have n: "nat (sint (slot_start s k)) = unat k * unat (sch_slot_duration_us s)" unfolding st by (rule nat_int)
  have "0 \<le> sint (slot_start s k)" unfolding st by (rule of_nat_0_le_iff)
  note A = absolute_slot_nat [OF assms(1) this]
  have "unat (slot_start s k div sch_slot_duration_us s) = unat k"
    using assms(1) unfolding A(2) n by (simp add: unat_gt_0)
  then show ?thesis using A(1) by (simp add: word_unat_eq_iff)
qed


section \<open>Properties\<close>

text \<open>A schedule of one frame of two slots, the first a transmit slot.\<close>

definition example_event :: ScheduleEvent where
  "example_event =
     \<lparr>se_frames = [\<lparr>sf_index = 0, sf_frequency_hz = Some 1000000000, sf_data_rate_bps = Some 8000000,
        sf_service_class = None, sf_power_dbm = None,
        sf_slots = [\<lparr>ss_index = 0, ss_slot_type = 1, ss_tx = None, ss_rx = None\<rparr>]\<rparr>],
      se_structure = Some \<lparr>st_slots_per_frame = 2, st_frames_per_multiframe = 1, st_slot_duration_microseconds = 1000,
        st_slot_overhead_microseconds = 0, st_bandwidth_hz = 1000000\<rparr>,
      se_frequency_hz = None, se_data_rate_bps = None, se_service_class = None, se_power_dbm = None\<rparr>"

definition example_schedule :: Schedule where
  "example_schedule =
     \<lparr>sch_slots_per_frame = 2, sch_frames_per_multiframe = 1, sch_slot_duration_us = 1000, sch_overhead_us = 0,
      sch_bandwidth_hz = 1000000, sch_slots = [TxSlot 1000000000 8000000 0 0 0, RxSlot 1000000000]\<rparr>"

text \<open>An update that turns the second slot into an idle one.\<close>

definition example_update :: ScheduleEvent where
  "example_update = example_event\<lparr>se_structure := None,
     se_frames := [\<lparr>sf_index = 0, sf_frequency_hz = Some 1000000000, sf_data_rate_bps = None,
        sf_service_class = None, sf_power_dbm = None,
        sf_slots = [\<lparr>ss_index = 1, ss_slot_type = 3, ss_tx = None, ss_rx = None\<rparr>]\<rparr>]\<rparr>"

lemmas parse_eval = parse_event_def new_schedule_def bad_structure_def checked_mul_def usize_max_def
  parse_frame_def fill_undefined_def parse_slot_def slot_value_def SlotType_try_from_def tx_slot_def rx_slot_def
  set_slot_def index_set_def option_or_def unwrap_or_def f64_is_finite_def Let_def

lemma example_event_parses: "parse_event example_event None = ok_res (example_schedule, True)"
proof -
  have two: "replicate 2 IdleSlot = [IdleSlot, IdleSlot]" "[0..<2] = [0, 1::nat]"
    by (simp_all add: numeral_2_eq_2)
  show ?thesis
    by (simp add: parse_eval example_event_def example_schedule_def two word_le_nat_alt)
qed

lemma example_schedule_wf: "wf_schedule example_schedule"
  by (simp add: wf_schedule_def example_schedule_def f64_is_finite_def)

lemma example_update_parses:
  "parse_event example_update (Some example_schedule) =
     ok_res (example_schedule\<lparr>sch_slots := [TxSlot 1000000000 8000000 0 0 0, IdleSlot]\<rparr>, False)"
  by (simp add: parse_eval example_update_def example_event_def example_schedule_def word_le_nat_alt)

text \<open>C23: parsing a schedule event never panics, and what it accepts is well formed: the slot table
  has exactly one slot per frame and slot index, at most a million of them, every transmit slot has a
  frequency, a rate, a service class of at most three and a finite power, and every receive slot a
  frequency. An event without structure keeps the structure of the current schedule. Rejected events
  return an error.\<close>

theorem parse_schedule_well_formed:
  assumes "case current of None \<Rightarrow> True | Some c \<Rightarrow> wf_schedule c"
  shows "case parse_schedule decode data current of
      None \<Rightarrow> False
    | Some (Inl error) \<Rightarrow> True
    | Some (Inr (s, full)) \<Rightarrow> wf_schedule s \<and> (\<not> full \<longrightarrow> same_structure (the current) s)"
proof (cases "decode data")
  case (Inl e)
  then show ?thesis by (simp add: parse_schedule_def err_res_def)
next
  case (Inr event)
  have "res_ok (\<lambda>(s, full). wf_schedule s \<and> full = (se_structure event \<noteq> None)
     \<and> (se_structure event = None \<longrightarrow> same_structure (the current) s)) (parse_event event current)"
    using assms by (intro parse_event_wf) simp
  with Inr show ?thesis by (auto simp: parse_schedule_def res_ok_def split: option.splits sum.splits)
qed

theorem parse_schedule_well_formed_witness:
  "parse_schedule (\<lambda>_. Inr example_update) [] (Some example_schedule) =
     ok_res (example_schedule\<lparr>sch_slots := [TxSlot 1000000000 8000000 0 0 0, IdleSlot]\<rparr>, False)
   \<and> wf_schedule (example_schedule\<lparr>sch_slots := [TxSlot 1000000000 8000000 0 0 0, IdleSlot]\<rparr>)"
  using parse_schedule_well_formed [of "Some example_schedule" "\<lambda>_. Inr example_update" "[]"]
  by (simp add: parse_schedule_def example_update_parses example_schedule_wf ok_res_def)

text \<open>Slot by slot, the accepted table is what the frames of the event write in order: the last
  explicit entry of a frame for the slot wins, a full schedule turns the slots a frame leaves out into
  receive slots on the frame's frequency, and everything else keeps the idle slot of a new table or
  the current schedule's slot.\<close>

lemma parse_event_slots:
  assumes "parse_event event current = ok_res (s, full)"
    and "case current of None \<Rightarrow> True | Some c \<Rightarrow> wf_schedule c"
    and "i < length (sch_slots s)"
  shows "sch_slots s ! i =
    fold (frame_effect event full (unat (sch_slots_per_frame s)) i) (se_frames event)
      (if full then IdleSlot else sch_slots (the current) ! i)"
  using assms by (intro parse_event_nth) auto

text \<open>An update leaves every slot that it does not name as it was.\<close>

lemma schedule_update_frame:
  assumes "parse_event event (Some c) = ok_res (s, False)" and "wf_schedule c"
    and "i < length (sch_slots s)" and "\<not> written event False (unat (sch_slots_per_frame s)) i"
  shows "sch_slots s ! i = sch_slots c ! i"
  using parse_event_nth [OF assms(1) _ assms(3)] assms(2,4) by (simp add: unwritten_fold)

text \<open>The next transmit slot after a given slot is the earliest one: it is a transmit slot and
  none of the slots between is one.\<close>

lemma next_tx_earliest:
  assumes "wf_schedule s" and "unat k + length (sch_slots s) < 2 ^ 64" and "next_tx s k = Some (Some n)"
  shows "unat k < unat n \<and> tx_at s (unat n) \<and> (\<forall>j. unat k < j \<and> j < unat n \<longrightarrow> \<not> tx_at s j)"
proof -
  have "List.find (tx_at s) (map (\<lambda>i. unat k + i) [1..<Suc (length (sch_slots s))]) = Some (unat n)"
  proof -
    obtain m where m: "List.find (tx_at s) (map (\<lambda>i. unat k + i) [1..<Suc (length (sch_slots s))]) = Some m"
      "n = word_of_nat m"
      using assms(3) by (auto simp: next_tx_find [OF assms(1,2)])
    then have "m < 2 ^ 64" using assms(2) by (auto simp: find_upt_Some simp del: upt_Suc)
    with m show ?thesis by (simp add: unat_of_nat take_bit_nat_eq_self_iff flip: take_bit_eq_mod)
  qed
  then obtain i where i: "1 \<le> i" "unat n = unat k + i" "tx_at s (unat k + i)"
      and before: "\<And>j. 1 \<le> j \<and> j < i \<Longrightarrow> \<not> tx_at s (unat k + j)"
    by (auto simp: find_upt_Some simp del: upt_Suc)
  have "\<not> tx_at s j" if "unat k < j" "j < unat n" for j
  proof -
    have "1 \<le> j - unat k \<and> j - unat k < i" using that i by arith
    from before [OF this] that show ?thesis by simp
  qed
  with i show ?thesis by simp
qed

text \<open>The search for a transmit slot ends without one exactly when the schedule has none, so a
  schedule with a transmit slot always has a next transmission.\<close>

lemma next_tx_none_iff:
  assumes "wf_schedule s" and "unat k + length (sch_slots s) < 2 ^ 64"
  shows "next_tx s k = Some None \<longleftrightarrow> \<not> list_ex is_tx (sch_slots s)"
  using assms by (rule next_tx_None_iff)

text \<open>Slots tile time: a non-negative time lies in the slot it is mapped to, and the start of a
  slot is mapped back to the slot.\<close>

lemma slots_tile_time:
  assumes "sch_slot_duration_us s \<noteq> 0"
  shows "(0 \<le> sint t \<and> absolute_slot s t = Some k \<longrightarrow>
           sint (slot_start s k) \<le> sint t \<and> sint t < sint (slot_start s k) + uint (sch_slot_duration_us s))
    \<and> (unat j * unat (sch_slot_duration_us s) \<le> nat i64_max \<longrightarrow> absolute_slot s (slot_start s j) = Some j)"
  using assms slot_interval absolute_slot_start by blast

end
