(* ===== verification/Ieee_F64.thy ===== *)
theory Ieee_F64
  imports Emane_Prelude
begin

text \<open>
  The \<open>f64\<close> arithmetic of Rust on bit patterns: conversions from integers, addition,
  subtraction, multiplication and division, rounded to nearest with ties to even, and
  comparisons. A finite value is a signed integer significand times a power of two; a result
  is computed exactly as a fraction of integers and rounded once. NaN results have the
  canonical quiet pattern: the language leaves the payload open, and no modelled code reads it.
\<close>

section \<open>Fields and values\<close>

definition f64_sign :: "f64 \<Rightarrow> bool" where
  "f64_sign w = bit w 63"

definition f64_biased :: "f64 \<Rightarrow> int" where
  "f64_biased w = uint (drop_bit 52 w AND 0x7FF)"

definition f64_fraction :: "f64 \<Rightarrow> int" where
  "f64_fraction w = uint (w AND 0xFFFFFFFFFFFFF)"

definition f64_nan :: f64 where "f64_nan = 0x7FF8000000000000"

definition f64_inf :: "bool \<Rightarrow> f64" where
  "f64_inf s = (if s then 0xFFF0000000000000 else 0x7FF0000000000000)"

definition f64_zero :: "bool \<Rightarrow> f64" where
  "f64_zero s = (if s then 0x8000000000000000 else 0)"

definition f64_is_inf :: "f64 \<Rightarrow> bool" where
  "f64_is_inf w \<longleftrightarrow> w AND 0x7FFFFFFFFFFFFFFF = 0x7FF0000000000000"

definition f64_is_zero :: "f64 \<Rightarrow> bool" where
  "f64_is_zero w \<longleftrightarrow> w AND 0x7FFFFFFFFFFFFFFF = 0"

text \<open>A finite pattern denotes \<open>f64_significand w * 2 ^ (f64_shift w - 1074)\<close>, with
  a shift that is never negative.\<close>

definition f64_significand :: "f64 \<Rightarrow> int" where
  "f64_significand w =
     (let m = (if f64_biased w = 0 then f64_fraction w else 2 ^ 52 + f64_fraction w)
      in if f64_sign w then - m else m)"

definition f64_shift :: "f64 \<Rightarrow> int" where
  "f64_shift w = max 0 (f64_biased w - 1)"


section \<open>Rounding\<close>

text \<open>The number of bits of a non-negative integer.\<close>

function bit_len :: "int \<Rightarrow> int" where
  "bit_len n = (if n \<le> 0 then 0 else 1 + bit_len (n div 2))"
  by auto
termination by (relation "measure nat") auto

declare bit_len.simps [simp del]

definition round_half_even :: "int \<Rightarrow> int \<Rightarrow> int" where
  "round_half_even n d =
     (let q = n div d; r = n mod d
      in if 2 * r > d \<or> (2 * r = d \<and> odd q) then q + 1 else q)"

text \<open>\<open>pow2_frac n d e\<close> is the fraction \<open>n / (d * 2 ^ e)\<close> for any integer
  exponent.\<close>

definition pow2_frac :: "int \<Rightarrow> int \<Rightarrow> int \<Rightarrow> int \<times> int" where
  "pow2_frac n d e = (if e \<ge> 0 then (n, d * 2 ^ nat e) else (n * 2 ^ nat (- e), d))"

text \<open>The exponent of the leading bit of \<open>n / d\<close>, for positive \<open>n\<close> and \<open>d\<close>.\<close>

definition frac_log2 :: "int \<Rightarrow> int \<Rightarrow> int" where
  "frac_log2 n d =
     (let e = bit_len n - bit_len d; (a, b) = pow2_frac n d e
      in if b \<le> a then e else e - 1)"

text \<open>The value \<open>n / d * 2 ^ x\<close> (\<open>n\<close> and \<open>d\<close> positive) with a
  sign, rounded to the nearest pattern; a carry out of the significand moves into the exponent
  field by the addition.\<close>

definition f64_round :: "bool \<Rightarrow> int \<Rightarrow> int \<Rightarrow> int \<Rightarrow> f64" where
  "f64_round s n d x =
     (let e = max (frac_log2 n d + x) (- 1022);
          (a, b) = pow2_frac n d (e - 52 - x);
          bits = (e + 1022) * 0x10000000000000 + round_half_even a b
      in if bits \<ge> 0x7FF0000000000000 then f64_inf s
         else word_of_int bits OR f64_zero s)"

text \<open>The signed value \<open>n / d * 2 ^ x\<close>; an exact zero takes the sign \<open>z\<close>.\<close>

definition f64_of_fraction :: "bool \<Rightarrow> int \<Rightarrow> int \<Rightarrow> int \<Rightarrow> f64" where
  "f64_of_fraction z n d x =
     (if n = 0 then f64_zero z else f64_round (n < 0) \<bar>n\<bar> d x)"

definition f64_of_int :: "int \<Rightarrow> f64" where
  "f64_of_int n = f64_of_fraction False n 1 0"


section \<open>Arithmetic\<close>

definition f64_neg :: "f64 \<Rightarrow> f64" where
  "f64_neg w = w XOR 0x8000000000000000"

definition f64_add :: "f64 \<Rightarrow> f64 \<Rightarrow> f64" where
  "f64_add a b =
     (if f64_is_nan a \<or> f64_is_nan b then f64_nan
      else if f64_is_inf a then (if f64_is_inf b \<and> f64_sign a \<noteq> f64_sign b then f64_nan else a)
      else if f64_is_inf b then b
      else (let k = min (f64_shift a) (f64_shift b)
            in f64_of_fraction (f64_sign a \<and> f64_sign b)
                 (f64_significand a * 2 ^ nat (f64_shift a - k) + f64_significand b * 2 ^ nat (f64_shift b - k))
                 1 (k - 1074)))"

definition f64_sub :: "f64 \<Rightarrow> f64 \<Rightarrow> f64" where
  "f64_sub a b = (if f64_is_nan b then f64_nan else f64_add a (f64_neg b))"

definition f64_mul :: "f64 \<Rightarrow> f64 \<Rightarrow> f64" where
  "f64_mul a b =
     (let s = (f64_sign a \<noteq> f64_sign b)
      in if f64_is_nan a \<or> f64_is_nan b then f64_nan
         else if f64_is_inf a \<or> f64_is_inf b
           then (if f64_is_zero a \<or> f64_is_zero b then f64_nan else f64_inf s)
         else f64_of_fraction s (f64_significand a * f64_significand b) 1 (f64_shift a + f64_shift b - 2148))"

definition f64_div :: "f64 \<Rightarrow> f64 \<Rightarrow> f64" where
  "f64_div a b =
     (let s = (f64_sign a \<noteq> f64_sign b)
      in if f64_is_nan a \<or> f64_is_nan b then f64_nan
         else if f64_is_inf a then (if f64_is_inf b then f64_nan else f64_inf s)
         else if f64_is_inf b then f64_zero s
         else if f64_is_zero b then (if f64_is_zero a then f64_nan else f64_inf s)
         else f64_of_fraction s (sgn (f64_significand b) * f64_significand a) \<bar>f64_significand b\<bar>
                (f64_shift a - f64_shift b))"

definition f64_lt :: "f64 \<Rightarrow> f64 \<Rightarrow> bool" where
  "f64_lt a b \<longleftrightarrow> \<not> f64_is_nan a \<and> \<not> f64_is_nan b \<and> f64_key a < f64_key b"

text \<open>\<open>x.clamp(lo, hi)\<close> for \<open>lo <= hi\<close>; a NaN stays.\<close>

definition f64_clamp :: "f64 \<Rightarrow> f64 \<Rightarrow> f64 \<Rightarrow> f64" where
  "f64_clamp lo hi x = (if f64_lt x lo then lo else if f64_lt hi x then hi else x)"

text \<open>\<open>total_cmp\<close> compares the patterns as sign-magnitude integers, \<open>-0\<close>
  before \<open>+0\<close>.\<close>

definition f64_total_key :: "f64 \<Rightarrow> int" where
  "f64_total_key w = (let m = uint (w AND 0x7FFFFFFFFFFFFFFF) in if f64_sign w then - 1 - m else m)"

text \<open>The value at \<open>sinr\<close> on the line through two points of a completion curve.\<close>

definition interpolate :: "(f64 \<times> f64) \<Rightarrow> (f64 \<times> f64) \<Rightarrow> f64 \<Rightarrow> f64" where
  "interpolate a b sinr =
     (let (x0, y0) = a; (x1, y1) = b
      in f64_add y0 (f64_mul (f64_div (f64_sub sinr x0) (f64_sub x1 x0)) (f64_sub y1 y0)))"


section \<open>Laws\<close>

lemma bit_len_nonneg: "0 \<le> bit_len n"
  by (induction n rule: bit_len.induct) (simp add: bit_len.simps)

lemma bit_len_bounds: "0 < n \<Longrightarrow> 2 ^ nat (bit_len n - 1) \<le> n \<and> n < 2 ^ nat (bit_len n)"
proof (induction n rule: bit_len.induct)
  case (1 n)
  show ?case
  proof (cases "n = 1")
    case True
    have "bit_len 1 = 1" by (simp add: bit_len.simps)
    with True show ?thesis by simp
  next
    case False
    let ?k = "bit_len (n div 2)"
    have n: "0 < n div 2" using False 1 by simp
    then have IH: "2 ^ nat (?k - 1) \<le> n div 2 \<and> n div 2 < 2 ^ nat ?k"
      using 1 by auto
    have k: "0 < ?k" using bit_len_nonneg [of "n div 2 div 2"] n by (simp add: bit_len.simps [of "n div 2"])
    have l: "bit_len n = 1 + ?k" using 1 by (simp add: bit_len.simps [of n])
    obtain j where j: "?k = int (Suc j)"
      using k by (metis Suc_pred nat_0_less_mult_iff zero_less_imp_eq_int of_nat_0_less_iff)
    then have "nat (?k - 1) = j" "nat ?k = Suc j" "nat (1 + ?k) = Suc (Suc j)" by simp_all
    with IH have "2 ^ j \<le> n div 2" "n div 2 < 2 * 2 ^ j" by simp_all
    then have "2 * 2 ^ j \<le> n" "n < 4 * 2 ^ j" by linarith+
    with l j show ?thesis by (simp add: nat_add_distrib)
  qed
qed

end
