(* ===== verification/Tdma_State.thy ===== *)
theory Tdma_State
  imports Plugin_Types Tdma_Schedule Wire_Lists Ieee_F64 "HOL-Library.AList"
begin

text \<open>
  The state of the TDMA radio model (\<^verbatim>\<open>rust/plugins/tdma/src/lib.rs\<close>) and the
  statistics functions every handler uses.

  A handler is a function on the \<open>State\<close>; the calls it makes to the framework are
  recorded, in order, in the field \<open>effects\<close>, and what the framework returns (the
  time, timer identifiers, table generations, noise) is a function of that history, so nothing
  is assumed about it. The protobuf codec and \<open>powf\<close> are parameters too
  (\<open>Env\<close>). The handlers of a layer run one at a time on the layer's queue, so each is a
  state transformer. A handler that could panic has a \<open>panics\<close> result. The integer
  additions written \<open>+=\<close> wrap, as in a release build.

  A hash map that is only looked up is a map; one the code iterates over is an association list
  (in some order); the fragment pieces of a packet, a B-tree map, are an association list with
  ascending keys. The array of the five queues is a function of the index, which is below 5
  wherever the code computes one (\<open>queue_index_less\<close>, \<open>priority_to_queue_less\<close>).
\<close>


section \<open>Messages\<close>

type_synonym ControlMessage = "u32 \<times> byte list"

record FfiSpectrumResult =
  fsr_noise_floor_dbm :: f64
  fsr_signal_in_noise :: bool

record TdmaFragment =
  tf_more :: bool
  tf_index :: u32
  tf_offset :: u32
  tf_sequence :: u64

record TdmaMessage =
  tm_message_type :: i32
  tm_destination :: u32
  tm_priority :: u32
  tm_data :: "byte list"
  tm_fragment :: "TdmaFragment option"

record TdmaBaseModelMessage =
  bm_absolute_slot_index :: u64
  bm_data_rate_bps :: u64
  bm_messages :: "TdmaMessage list"

datatype TdmaMessageType = DataMessage | ControlMsg

definition TdmaMessageType_try_from :: "i32 \<Rightarrow> TdmaMessageType option" where
  "TdmaMessageType_try_from value =
     (if value = 1 then Some DataMessage else if value = 2 then Some ControlMsg else None)"

record OwnedPacket =
  op_info :: FfiPacketInfo
  op_payload :: "byte list"

record QueuedPacket =
  qp_packet :: OwnedPacket
  qp_sequence :: u64
  qp_offset :: nat
  qp_fragment_index :: u16

record PendingReception =
  pr_info :: FfiPacketInfo
  pr_wire :: TdmaBaseModelMessage
  pr_model_sequence :: u64
  pr_packet_len :: nat
  pr_spectrum_query :: FfiSpectrumQuery

record Reassembly =
  ra_info :: FfiPacketInfo
  ra_message_type :: TdmaMessageType
  ra_total_len :: "nat option"
  ra_pieces :: "(nat \<times> byte list) list"
  ra_last_update_us :: i64

record QueueStatistics =
  qs_enqueued :: u64
  qs_dequeued :: u64
  qs_overflow :: u64
  qs_too_big :: u64
  qs_classes :: "u64 list"
  qs_fragment_histogram :: "u64 list"

record PacketAcceptInfo =
  pa_tx_bytes :: u64
  pa_rx_bytes :: u64

datatype PacketDropReason =
    DropSinr | DropRegistrationId | DropDestination | DropQueueOverflow | DropBadControl
  | DropBadSpectrumQuery | DropFlowControl | DropTooBig | DropTooLong | DropFrequency
  | DropSlotError | DropMissingFragment

fun drop_index :: "PacketDropReason \<Rightarrow> nat" where
  "drop_index DropSinr = 0"
| "drop_index DropRegistrationId = 1"
| "drop_index DropDestination = 2"
| "drop_index DropQueueOverflow = 3"
| "drop_index DropBadControl = 4"
| "drop_index DropBadSpectrumQuery = 5"
| "drop_index DropFlowControl = 6"
| "drop_index DropTooBig = 7"
| "drop_index DropTooLong = 8"
| "drop_index DropFrequency = 9"
| "drop_index DropSlotError = 10"
| "drop_index DropMissingFragment = 11"

record TxSlotStatistics =
  ts_valid :: u64
  ts_missed :: u64
  ts_too_big :: u64
  ts_quantiles :: "u64 list"

record RxSlotStatistics =
  rs_status :: "u64 list"
  rs_quantiles :: "u64 list"

record PcrManager =
  pcr_curves :: "u64 \<rightharpoonup> (f64 \<times> f64) list"
  pcr_packet_size :: nat


section \<open>Framework calls\<close>

datatype FfiStatisticValue = StatU64 u64 | StatF64 f64 | StatString string

datatype Effect =
    ReadClock
  | TableGeneration u64
  | IncrementCounter u64 u64
  | MaximizeCounter u64 u64
  | SetTableRow u64 "u64 list" "FfiStatisticValue list"
  | ClearTable u64
  | SendUpstreamPacket OwnedPacket
  | SendDownstreamPacket OwnedPacket "ControlMessage list"
  | SendUpstreamControl "ControlMessage list"
  | SendDownstreamControl "ControlMessage list"
  | ScheduleTimedEvent u64 u32 u32 "byte list"
  | CancelTimedEvent u64
  | ReceptionNoise FfiSpectrumQuery
  | UpdateNeighborTx u16 u64 u64
  | UpdateNeighborRx u16 u64 f64 f64 u64 u64 u64
  | UpdateNeighborStatus

record Env =
  env_now_us :: "Effect list \<Rightarrow> i64"
  env_table_generation :: "Effect list \<Rightarrow> u64 \<Rightarrow> u64"
  env_schedule_timed_event :: "Effect list \<Rightarrow> u64"
  env_reception_noise :: "Effect list \<Rightarrow> FfiSpectrumQuery \<Rightarrow> FfiSpectrumResult option"
  env_powf :: "f64 \<Rightarrow> f64 \<Rightarrow> f64"
  env_decode_schedule :: "byte list \<Rightarrow> string + ScheduleEvent"
  env_encode_message :: "TdmaBaseModelMessage \<Rightarrow> byte list"
  env_decode_message :: "byte list \<Rightarrow> TdmaBaseModelMessage option"
  env_load_pcr :: "string \<Rightarrow> PcrManager option"


section \<open>State\<close>

record State =
  promiscuous :: bool
  flow_control_enable :: bool
  flow_control_tokens :: u16
  available_tokens :: u16
  pcr_uri :: string
  pcr :: "PcrManager option"
  queue_depth :: nat
  aggregation_enable :: bool
  aggregation_threshold :: f64
  fragmentation_enable :: bool
  strict_dequeue :: bool
  fragment_timeout_us :: i64
  fragment_check_us :: i64
  neighbor_metric_delete_us :: u64
  neighbor_metric_update_us :: i64
  schedule :: "Schedule option"
  queues :: "nat \<Rightarrow> QueuedPacket list"
  queue_statistics :: "QueueStatistics list"
  broadcast_accept :: "(u16 \<rightharpoonup> PacketAcceptInfo) list"
  broadcast_drop :: "(u16 \<rightharpoonup> u64 list) list"
  unicast_accept :: "(u16 \<rightharpoonup> PacketAcceptInfo) list"
  unicast_drop :: "(u16 \<rightharpoonup> u64 list) list"
  tx_slot_statistics :: "u32 \<rightharpoonup> TxSlotStatistics"
  rx_slot_statistics :: "u32 \<rightharpoonup> RxSlotStatistics"
  aggregation_histogram :: "u64 \<rightharpoonup> u64"
  table_generations :: "string \<rightharpoonup> u64"
  next_sequence :: u64
  frame_sequence :: u64
  next_tx_slot :: "u64 option"
  reassembly :: "((u16 \<times> u8 \<times> u64) \<times> Reassembly) list"
  pending_rx :: "u64 \<rightharpoonup> PendingReception"
  timers :: "(u64 \<times> u32) list"
  random_state :: u64
  started :: bool
  effects :: "Effect list"

record TdmaMac =
  mac_id :: u16
  mac_counters :: "string \<rightharpoonup> u64"
  mac_tables :: "string \<rightharpoonup> u64"
  mac_env :: Env

definition EVENT_TDMA_SCHEDULE :: u16 where "EVENT_TDMA_SCHEDULE = 105"
definition TIMER_TX_SLOT :: u32 where "TIMER_TX_SLOT = 1"
definition TIMER_RX_COMPLETE :: u32 where "TIMER_RX_COMPLETE = 2"
definition TIMER_REASSEMBLY_CHECK :: u32 where "TIMER_REASSEMBLY_CHECK = 3"
definition TIMER_NEIGHBOR_STATUS :: u32 where "TIMER_NEIGHBOR_STATUS = 4"
definition BROADCAST_NEM :: u16 where "BROADCAST_NEM = 0xFFFF"
definition PHY_ENVELOPE_BYTES :: nat where "PHY_ENVELOPE_BYTES = 64"

definition emit :: "Effect \<Rightarrow> State \<Rightarrow> State" where
  "emit e state = state\<lparr>effects := effects state @ [e]\<rparr>"

definition now_us :: "TdmaMac \<Rightarrow> State \<Rightarrow> i64 \<times> State" where
  "now_us mac state = (env_now_us (mac_env mac) (effects state), emit ReadClock state)"

definition increment :: "TdmaMac \<Rightarrow> string \<Rightarrow> u64 \<Rightarrow> State \<Rightarrow> State" where
  "increment mac name amount state =
     (case mac_counters mac name of Some handle \<Rightarrow> emit (IncrementCounter handle amount) state | None \<Rightarrow> state)"

definition maximize :: "TdmaMac \<Rightarrow> string \<Rightarrow> u64 \<Rightarrow> State \<Rightarrow> State" where
  "maximize mac name value state =
     (case mac_counters mac name of Some handle \<Rightarrow> emit (MaximizeCounter handle value) state | None \<Rightarrow> state)"

definition set_table_row :: "TdmaMac \<Rightarrow> string \<Rightarrow> u64 list \<Rightarrow> FfiStatisticValue list \<Rightarrow> State \<Rightarrow> State" where
  "set_table_row mac name key values state =
     (case mac_tables mac name of Some handle \<Rightarrow> emit (SetTableRow handle key values) state | None \<Rightarrow> state)"

definition clear_table :: "TdmaMac \<Rightarrow> string \<Rightarrow> State \<Rightarrow> State" where
  "clear_table mac name state =
     (case mac_tables mac name of Some handle \<Rightarrow> emit (ClearTable handle) state | None \<Rightarrow> state)"

definition table_generation :: "TdmaMac \<Rightarrow> string \<Rightarrow> State \<Rightarrow> u64 \<times> State" where
  "table_generation mac name state =
     (case mac_tables mac name of
        None \<Rightarrow> (0, state)
      | Some handle \<Rightarrow> (env_table_generation (mac_env mac) (effects state) handle,
                         emit (TableGeneration handle) state))"


section \<open>Construction\<close>

definition default_queue_statistics :: QueueStatistics where
  "default_queue_statistics = \<lparr>qs_enqueued = 0, qs_dequeued = 0, qs_overflow = 0, qs_too_big = 0,
     qs_classes = replicate 5 0, qs_fragment_histogram = replicate 10 0\<rparr>"

definition initial_state :: "u16 \<Rightarrow> State" where
  "initial_state nem =
     \<lparr>promiscuous = False, flow_control_enable = False, flow_control_tokens = 10, available_tokens = 10,
      pcr_uri = '''', pcr = None, queue_depth = 256, aggregation_enable = True,
      aggregation_threshold = 0x4056800000000000, fragmentation_enable = True, strict_dequeue = False,
      fragment_timeout_us = 5000000, fragment_check_us = 2000000,
      neighbor_metric_delete_us = 60000000, neighbor_metric_update_us = 1000000,
      schedule = None, queues = (\<lambda>_. []), queue_statistics = replicate 5 default_queue_statistics,
      broadcast_accept = replicate 5 Map.empty, broadcast_drop = replicate 5 Map.empty,
      unicast_accept = replicate 5 Map.empty, unicast_drop = replicate 5 Map.empty,
      tx_slot_statistics = Map.empty, rx_slot_statistics = Map.empty, aggregation_histogram = Map.empty,
      table_generations = Map.empty, next_sequence = 0, frame_sequence = 0, next_tx_slot = None,
      reassembly = [], pending_rx = Map.empty, timers = [],
      random_state = 0xD1B54A32D192ED03 XOR ucast nem, started = False, effects = []\<rparr>"

definition digit :: "nat \<Rightarrow> string" where
  "digit n = [char_of (48 + n)]"

definition publish_queue_tables :: "TdmaMac \<Rightarrow> nat \<Rightarrow> State \<Rightarrow> State" where
  "publish_queue_tables mac index state =
     (let statistics = queue_statistics state ! index;
          state = set_table_row mac ''QueueStatusTable'' [word_of_nat index]
            ([StatU64 (word_of_nat index), StatU64 (qs_enqueued statistics), StatU64 (qs_dequeued statistics),
              StatU64 (qs_overflow statistics), StatU64 (qs_too_big statistics)]
             @ map StatU64 (qs_classes statistics)) state
      in set_table_row mac ''QueueFragmentHistogram'' [word_of_nat index]
           (StatU64 (word_of_nat index) # map StatU64 (qs_fragment_histogram statistics)) state)"

text \<open>The counters and tables \<open>new\<close> registers; registration is a call of the
  framework, whose handles are the argument; a table with the handle 0 is not kept.\<close>

definition counter_names :: "string list" where
  "counter_names =
     [''scheduler.scheduleRejectSlotIndexRange'', ''scheduler.scheduleRejectFrameIndexRange'',
      ''scheduler.scheduleRejectUpdateBeforeFull'', ''scheduler.scheduleRejectOther'',
      ''scheduler.scheduleAcceptFull'', ''scheduler.scheduleAcceptUpdate'',
      ''TxSlotValid'', ''TxSlotErrorMissed'', ''TxSlotErrorTooBig'', ''TxFrameSent'',
      ''TxComponentBytes'', ''TxWireBytes'', ''TxAirtimeMicroseconds'', ''TxQueueOverflowPackets'',
      ''TxQueueOverflowBytes'', ''RxSlotValid'', ''RxSlotErrorMissed'', ''RxSlotErrorRxDuringIdle'',
      ''RxSlotErrorRxDuringTx'', ''RxSlotErrorRxTooLong'', ''RxSlotErrorRxWrongFrequency'',
      ''RxSlotErrorRxLock'', ''highWaterMarkQueue0'', ''highWaterMarkQueue1'', ''highWaterMarkQueue2'',
      ''highWaterMarkQueue3'', ''highWaterMarkQueue4'']"

definition table_names :: "string list" where
  "table_names =
     [''scheduler.ScheduleInfoTable'', ''scheduler.StructureInfoTable'', ''QueueStatusTable'',
      ''QueueFragmentHistogram'', ''PacketComponentAggregationHistogram'', ''TxSlotStatusTable'',
      ''RxSlotStatusTable'']
     @ concat (map (\<lambda>queue. [''BroadcastByteAcceptTable'' @ digit queue, ''UnicastByteAcceptTable'' @ digit queue,
                            ''BroadcastByteDropTable'' @ digit queue, ''UnicastByteDropTable'' @ digit queue])
         [0..<5])"

definition new_mac :: "u16 \<Rightarrow> Env \<Rightarrow> (string \<Rightarrow> u64) \<Rightarrow> (string \<Rightarrow> u64) \<Rightarrow> TdmaMac \<times> State" where
  "new_mac nem env register_counter register_table =
     (let mac = \<lparr>mac_id = nem,
                mac_counters = map_of (map (\<lambda>name. (name, register_counter name)) counter_names),
                mac_tables = map_of (filter (\<lambda>(_, handle). handle \<noteq> 0)
                               (map (\<lambda>name. (name, register_table name)) table_names)),
                mac_env = env\<rparr>
      in (mac, fold (publish_queue_tables mac) [0..<5] (initial_state nem)))"


section \<open>Packet statistics\<close>

definition priority_to_queue :: "u8 \<Rightarrow> nat" where
  "priority_to_queue priority =
     (if 8 \<le> priority \<and> priority \<le> 23 then 1
      else if 32 \<le> priority \<and> priority \<le> 47 then 2
      else if 48 \<le> priority \<and> priority \<le> 63 then 3
      else 0)"

definition packet_queue :: "TdmaMessageType \<Rightarrow> u8 \<Rightarrow> nat" where
  "packet_queue message_type priority =
     (if message_type = ControlMsg then 4 else priority_to_queue priority)"

text \<open>The generation check of both record functions: a table that was cleared since the
  last row has its entries dropped.\<close>

definition check_generation :: "TdmaMac \<Rightarrow> string \<Rightarrow> State \<Rightarrow> bool \<times> State" where
  "check_generation mac name state =
     (let (generation, state) = table_generation mac name state
      in (case table_generations state name of None \<Rightarrow> False | Some previous \<Rightarrow> previous \<noteq> generation,
          state\<lparr>table_generations := (table_generations state)(name \<mapsto> generation)\<rparr>))"

definition record_packet_accept ::
  "TdmaMac \<Rightarrow> nat \<Rightarrow> u16 \<Rightarrow> u16 \<Rightarrow> nat \<Rightarrow> bool \<Rightarrow> State \<Rightarrow> State" where
  "record_packet_accept mac queue source destination len inbound state =
     (let broadcast = (destination = BROADCAST_NEM);
          name = (if broadcast then ''BroadcastByteAcceptTable'' else ''UnicastByteAcceptTable'') @ digit queue;
          (reset, state) = check_generation mac name state;
          infos = (if broadcast then broadcast_accept state ! queue else unicast_accept state ! queue);
          infos = (if reset then Map.empty else infos);
          info = unwrap_or (infos source) \<lparr>pa_tx_bytes = 0, pa_rx_bytes = 0\<rparr>;
          info = (if inbound
                  then info\<lparr>pa_rx_bytes := saturating_add (pa_rx_bytes info) (word_of_nat len)\<rparr>
                  else info\<lparr>pa_tx_bytes := saturating_add (pa_tx_bytes info) (word_of_nat len)\<rparr>);
          infos = infos(source \<mapsto> info);
          state = (if broadcast
                   then state\<lparr>broadcast_accept := (broadcast_accept state)[queue := infos]\<rparr>
                   else state\<lparr>unicast_accept := (unicast_accept state)[queue := infos]\<rparr>)
      in set_table_row mac name [ucast source]
           [StatU64 (ucast source), StatU64 (pa_tx_bytes info), StatU64 (pa_rx_bytes info)] state)"

definition record_packet_drop ::
  "TdmaMac \<Rightarrow> nat \<Rightarrow> u16 \<Rightarrow> u16 \<Rightarrow> nat \<Rightarrow> PacketDropReason \<Rightarrow> State \<Rightarrow> State" where
  "record_packet_drop mac queue source destination len reason state =
     (let broadcast = (destination = BROADCAST_NEM);
          name = (if broadcast then ''BroadcastByteDropTable'' else ''UnicastByteDropTable'') @ digit queue;
          (reset, state) = check_generation mac name state;
          infos = (if broadcast then broadcast_drop state ! queue else unicast_drop state ! queue);
          infos = (if reset then Map.empty else infos);
          info = unwrap_or (infos source) (replicate 12 0);
          info = info[drop_index reason := saturating_add (info ! drop_index reason) (word_of_nat len)];
          infos = infos(source \<mapsto> info);
          state = (if broadcast
                   then state\<lparr>broadcast_drop := (broadcast_drop state)[queue := infos]\<rparr>
                   else state\<lparr>unicast_drop := (unicast_drop state)[queue := infos]\<rparr>)
      in set_table_row mac name [ucast source] (StatU64 (ucast source) # map StatU64 info) state)"

definition record_message_drop :: "TdmaMac \<Rightarrow> u16 \<Rightarrow> PacketDropReason \<Rightarrow> TdmaMessage \<Rightarrow> State \<Rightarrow> State" where
  "record_message_drop mac source reason message state =
     (case (u16_of_u32 (tm_destination message), u8_of_u32 (tm_priority message),
            TdmaMessageType_try_from (tm_message_type message)) of
        (Some destination, Some priority, Some message_type) \<Rightarrow>
          record_packet_drop mac (packet_queue message_type priority) source destination
            (length (tm_data message)) reason state
      | _ \<Rightarrow> state)"

definition record_all_message_drops :: "TdmaMac \<Rightarrow> u16 \<Rightarrow> TdmaMessage list \<Rightarrow> PacketDropReason \<Rightarrow> State \<Rightarrow> State" where
  "record_all_message_drops mac source messages reason state =
     fold (record_message_drop mac source reason) messages state"


section \<open>Slot statistics\<close>

definition quantile :: "f64 \<Rightarrow> nat" where
  "quantile ratio =
     (if f64_le ratio 0x3FD0000000000000 then 0
      else if f64_le ratio 0x3FE0000000000000 then 1
      else if f64_le ratio 0x3FE8000000000000 then 2
      else if f64_le ratio 0x3FF0000000000000 then 3
      else if f64_le ratio 0x3FF4000000000000 then 4
      else if f64_le ratio 0x3FF8000000000000 then 5
      else if f64_le ratio 0x3FFC000000000000 then 6
      else 7)"

definition slot_coordinates :: "Schedule \<Rightarrow> u64 \<Rightarrow> (u32 \<times> u32 \<times> u32) panics" where
  "slot_coordinates sch absolute =
     (if cycle_slots sch = 0 \<or> sch_slots_per_frame sch = 0 then panic
      else (let relative = ucast (absolute mod cycle_slots sch)
            in Some (relative, relative div sch_slots_per_frame sch, relative mod sch_slots_per_frame sch)))"

definition slot_ratio :: "Schedule \<Rightarrow> u64 \<Rightarrow> i64 \<Rightarrow> f64" where
  "slot_ratio sch absolute now =
     f64_div (f64_of_int (sint (i64_saturating_sub now (slot_start sch absolute))))
             (f64_of_int (uint (sch_slot_duration_us sch)))"

definition bump :: "nat \<Rightarrow> u64 list \<Rightarrow> u64 list" where
  "bump i xs = xs[i := saturating_add (xs ! i) 1]"

datatype TxSlotStatus = TxValid | TxMissed

definition update_tx_slot_status :: "TdmaMac \<Rightarrow> u64 \<Rightarrow> i64 \<Rightarrow> TxSlotStatus \<Rightarrow> State \<Rightarrow> State panics" where
  "update_tx_slot_status mac absolute now status state =
     (case schedule state of
        None \<Rightarrow> Some state
      | Some sch \<Rightarrow> do {
          (relative, frame, slot_index) \<leftarrow> slot_coordinates sch absolute;
          let q = quantile (slot_ratio sch absolute now);
          let info = unwrap_or (tx_slot_statistics state relative)
             \<lparr>ts_valid = 0, ts_missed = 0, ts_too_big = 0, ts_quantiles = replicate 8 0\<rparr>;
          let info = (case status of
               TxValid \<Rightarrow> info\<lparr>ts_valid := saturating_add (ts_valid info) 1\<rparr>
             | TxMissed \<Rightarrow> info\<lparr>ts_missed := saturating_add (ts_missed info) 1\<rparr>);
          let info = info\<lparr>ts_quantiles := bump q (ts_quantiles info)\<rparr>;
          let state = state\<lparr>tx_slot_statistics := (tx_slot_statistics state)(relative \<mapsto> info)\<rparr>;
          let state = increment mac
             (case status of TxValid \<Rightarrow> ''TxSlotValid'' | TxMissed \<Rightarrow> ''TxSlotErrorMissed'') 1 state;
          Some (set_table_row mac ''TxSlotStatusTable'' [ucast relative]
            ([StatU64 (ucast relative), StatU64 (ucast frame), StatU64 (ucast slot_index),
              StatU64 (ts_valid info), StatU64 (ts_missed info), StatU64 (ts_too_big info)]
             @ map StatU64 (ts_quantiles info)) state) })"

datatype RxSlotStatus = RxValid | RxMissed | RxIdle | RxTx | RxTooLong | RxWrongFrequency | RxLock

fun rx_status_index :: "RxSlotStatus \<Rightarrow> nat" where
  "rx_status_index RxValid = 0"
| "rx_status_index RxMissed = 1"
| "rx_status_index RxIdle = 2"
| "rx_status_index RxTx = 3"
| "rx_status_index RxTooLong = 4"
| "rx_status_index RxWrongFrequency = 5"
| "rx_status_index RxLock = 6"

fun rx_status_counter :: "RxSlotStatus \<Rightarrow> string" where
  "rx_status_counter RxValid = ''RxSlotValid''"
| "rx_status_counter RxMissed = ''RxSlotErrorMissed''"
| "rx_status_counter RxIdle = ''RxSlotErrorRxDuringIdle''"
| "rx_status_counter RxTx = ''RxSlotErrorRxDuringTx''"
| "rx_status_counter RxTooLong = ''RxSlotErrorRxTooLong''"
| "rx_status_counter RxWrongFrequency = ''RxSlotErrorRxWrongFrequency''"
| "rx_status_counter RxLock = ''RxSlotErrorRxLock''"

definition update_rx_slot_status :: "TdmaMac \<Rightarrow> u64 \<Rightarrow> u64 \<Rightarrow> i64 \<Rightarrow> RxSlotStatus \<Rightarrow> State \<Rightarrow> State panics" where
  "update_rx_slot_status mac absolute ratio_slot now status state =
     (case schedule state of
        None \<Rightarrow> Some state
      | Some sch \<Rightarrow> do {
          (relative, frame, slot_index) \<leftarrow> slot_coordinates sch absolute;
          let q = quantile (slot_ratio sch ratio_slot now);
          let info = unwrap_or (rx_slot_statistics state relative)
             \<lparr>rs_status = replicate 7 0, rs_quantiles = replicate 8 0\<rparr>;
          let info = info\<lparr>rs_status := bump (rx_status_index status) (rs_status info),
                           rs_quantiles := bump q (rs_quantiles info)\<rparr>;
          let state = state\<lparr>rx_slot_statistics := (rx_slot_statistics state)(relative \<mapsto> info)\<rparr>;
          let state = increment mac (rx_status_counter status) 1 state;
          Some (set_table_row mac ''RxSlotStatusTable'' [ucast relative]
            ([StatU64 (ucast relative), StatU64 (ucast frame), StatU64 (ucast slot_index)]
             @ map StatU64 (rs_status info) @ map StatU64 (rs_quantiles info)) state) })"

definition update_aggregation_histogram :: "TdmaMac \<Rightarrow> nat \<Rightarrow> State \<Rightarrow> State" where
  "update_aggregation_histogram mac components state =
     (let key = word_of_nat components;
          count = saturating_add (unwrap_or (aggregation_histogram state key) 0) 1
      in set_table_row mac ''PacketComponentAggregationHistogram'' [key] [StatU64 key, StatU64 count]
           (state\<lparr>aggregation_histogram := (aggregation_histogram state)(key \<mapsto> count)\<rparr>))"

definition send_flow_update :: "TdmaMac \<Rightarrow> u16 \<Rightarrow> State \<Rightarrow> State panics" where
  "send_flow_update mac tokens state = do {
     bytes \<leftarrow> FlowControlToken_encode \<lparr>fct_tokens = tokens\<rparr>;
     Some (emit (SendUpstreamControl [(CONTROL_FLOW_CONTROL_TOKEN, bytes)]) state) }"


section \<open>What the statistics functions leave alone\<close>

text \<open>The state without its statistics and its history.\<close>

definition core :: "State \<Rightarrow> State" where
  "core state = state\<lparr>queue_statistics := [], broadcast_accept := [], broadcast_drop := [],
     unicast_accept := [], unicast_drop := [], tx_slot_statistics := Map.empty,
     rx_slot_statistics := Map.empty, aggregation_histogram := Map.empty,
     table_generations := Map.empty, effects := []\<rparr>"

lemma core_eqD:
  assumes "core a = core b"
  shows "promiscuous a = promiscuous b \<and> flow_control_enable a = flow_control_enable b
    \<and> flow_control_tokens a = flow_control_tokens b \<and> available_tokens a = available_tokens b
    \<and> pcr a = pcr b \<and> queue_depth a = queue_depth b \<and> aggregation_enable a = aggregation_enable b
    \<and> aggregation_threshold a = aggregation_threshold b \<and> fragmentation_enable a = fragmentation_enable b
    \<and> strict_dequeue a = strict_dequeue b \<and> fragment_timeout_us a = fragment_timeout_us b
    \<and> fragment_check_us a = fragment_check_us b \<and> neighbor_metric_update_us a = neighbor_metric_update_us b
    \<and> schedule a = schedule b \<and> queues a = queues b \<and> next_sequence a = next_sequence b
    \<and> frame_sequence a = frame_sequence b \<and> next_tx_slot a = next_tx_slot b \<and> reassembly a = reassembly b
    \<and> pending_rx a = pending_rx b \<and> timers a = timers b \<and> random_state a = random_state b
    \<and> started a = started b \<and> pcr_uri a = pcr_uri b"
  using assms by (cases a; cases b) (simp add: core_def)

lemma core_emit: "core (emit e state) = core state"
  by (simp add: core_def emit_def)

lemma core_counter [simp]: "core (increment mac n k state) = core state" "core (maximize mac n k state) = core state"
    "core (set_table_row mac n ks vs state) = core state" "core (clear_table mac n state) = core state"
  by (simp_all add: increment_def maximize_def set_table_row_def clear_table_def core_emit split: option.split)

lemma core_now [simp]: "core (snd (now_us mac state)) = core state"
  by (simp add: now_us_def core_emit)

lemma core_publish [simp]: "core (publish_queue_tables mac i state) = core state"
  by (simp add: publish_queue_tables_def Let_def)

lemma core_check_generation: "check_generation mac n state = (r, state') \<Longrightarrow> core state' = core state"
  by (auto simp: check_generation_def table_generation_def core_emit split: option.splits)
    (auto simp: core_def emit_def)

lemma core_statistics_update:
  "core (state\<lparr>broadcast_accept := x1\<rparr>) = core state" "core (state\<lparr>unicast_accept := x1\<rparr>) = core state"
  "core (state\<lparr>broadcast_drop := x2\<rparr>) = core state" "core (state\<lparr>unicast_drop := x2\<rparr>) = core state"
  "core (state\<lparr>queue_statistics := x3\<rparr>) = core state" "core (state\<lparr>aggregation_histogram := x4\<rparr>) = core state"
  "core (state\<lparr>tx_slot_statistics := x5\<rparr>) = core state" "core (state\<lparr>rx_slot_statistics := x6\<rparr>) = core state"
  by (simp_all add: core_def)

lemma core_snd_check_generation: "core (snd (check_generation mac n state)) = core state"
  using core_check_generation [of mac n state] by (cases "check_generation mac n state") simp

lemma core_record_accept [simp]: "core (record_packet_accept mac q s d n i state) = core state"
  unfolding record_packet_accept_def Let_def case_prod_unfold core_counter(3)
  by (auto simp only: core_statistics_update core_snd_check_generation split: if_split)

lemma core_record_drop [simp]: "core (record_packet_drop mac q s d n r state) = core state"
  unfolding record_packet_drop_def Let_def case_prod_unfold core_counter(3)
  by (auto simp only: core_statistics_update core_snd_check_generation split: if_split)

lemma core_record_message_drop [simp]: "core (record_message_drop mac s r m state) = core state"
  by (simp add: record_message_drop_def split: option.split)

lemma core_record_all [simp]: "core (record_all_message_drops mac s ms r state) = core state"
  unfolding record_all_message_drops_def by (induction ms arbitrary: state) simp_all

lemma core_aggregation [simp]: "core (update_aggregation_histogram mac n state) = core state"
  by (simp add: update_aggregation_histogram_def Let_def core_statistics_update)

lemma core_tx_status: "update_tx_slot_status mac a n s state = Some state' \<Longrightarrow> core state' = core state"
  by (auto simp: update_tx_slot_status_def Let_def core_statistics_update split: option.splits Option.bind_splits)

lemma core_rx_status: "update_rx_slot_status mac a r n s state = Some state' \<Longrightarrow> core state' = core state"
  by (auto simp: update_rx_slot_status_def Let_def core_statistics_update split: option.splits Option.bind_splits)

lemma core_flow_update: "send_flow_update mac t state = Some state' \<Longrightarrow> core state' = core state"
  by (auto simp: send_flow_update_def core_emit split: Option.bind_splits)

lemmas core_fields [simp] =
  core_emit [THEN core_eqD] core_counter(1) [THEN core_eqD] core_counter(2) [THEN core_eqD]
  core_counter(3) [THEN core_eqD] core_counter(4) [THEN core_eqD] core_now [THEN core_eqD]
  core_publish [THEN core_eqD] core_record_accept [THEN core_eqD] core_record_drop [THEN core_eqD]
  core_record_all [THEN core_eqD] core_aggregation [THEN core_eqD]

text \<open>A well-formed schedule gives every slot its coordinates, so the slot statistics do not
  panic.\<close>

lemma slot_coordinates_total: "wf_schedule sch \<Longrightarrow> slot_coordinates sch a \<noteq> None"
  using wf_cycle_slots_nonzero [of sch] by (simp add: slot_coordinates_def wf_schedule_def Let_def)

lemma tx_status_total:
  "\<forall>sch. schedule state = Some sch \<longrightarrow> wf_schedule sch \<Longrightarrow> \<exists>state'. update_tx_slot_status mac a n s state = Some state'"
proof (cases "schedule state")
  case (Some sch)
  assume "\<forall>sch. schedule state = Some sch \<longrightarrow> wf_schedule sch"
  with Some obtain c where "slot_coordinates sch a = Some c" using slot_coordinates_total [of sch a] by auto
  with Some show ?thesis by (cases c) (simp add: update_tx_slot_status_def Let_def)
qed (simp add: update_tx_slot_status_def)

lemma rx_status_total:
  "\<forall>sch. schedule state = Some sch \<longrightarrow> wf_schedule sch \<Longrightarrow> \<exists>state'. update_rx_slot_status mac a r n s state = Some state'"
proof (cases "schedule state")
  case (Some sch)
  assume "\<forall>sch. schedule state = Some sch \<longrightarrow> wf_schedule sch"
  with Some obtain c where "slot_coordinates sch a = Some c" using slot_coordinates_total [of sch a] by auto
  with Some show ?thesis by (cases c) (simp add: update_rx_slot_status_def Let_def)
qed (simp add: update_rx_slot_status_def)


section \<open>Data output\<close>
text \<open>The packets a handler sends, in order.\<close>

fun is_send :: "Effect \<Rightarrow> bool" where
  "is_send (SendUpstreamPacket p) \<longleftrightarrow> True"
| "is_send (SendDownstreamPacket p cs) \<longleftrightarrow> True"
| "is_send _ \<longleftrightarrow> False"

definition sends :: "State \<Rightarrow> Effect list" where
  "sends state = filter is_send (effects state)"

lemma sends_emit [simp]: "sends (emit e state) = sends state @ (if is_send e then [e] else [])"
  by (simp add: sends_def emit_def)

lemma sends_counter [simp]:
  "sends (increment mac n k state) = sends state" "sends (maximize mac n k state) = sends state"
  "sends (set_table_row mac n ks vs state) = sends state" "sends (clear_table mac n state) = sends state"
  by (simp_all add: increment_def maximize_def set_table_row_def clear_table_def split: option.split)

lemma sends_now [simp]: "sends (snd (now_us mac state)) = sends state"
  by (simp add: now_us_def)

lemma sends_publish [simp]: "sends (publish_queue_tables mac i state) = sends state"
  by (simp add: publish_queue_tables_def Let_def)

lemma sends_cong: "effects a = effects b \<Longrightarrow> sends a = sends b"
  by (simp add: sends_def)

lemma sends_check_generation: "check_generation mac n state = (r, state') \<Longrightarrow> sends state' = sends state"
  by (auto simp: check_generation_def table_generation_def sends_def emit_def split: option.splits)

lemma sends_statistics_update [simp]:
  "sends (state\<lparr>broadcast_accept := x1\<rparr>) = sends state" "sends (state\<lparr>unicast_accept := x1\<rparr>) = sends state"
  "sends (state\<lparr>broadcast_drop := x2\<rparr>) = sends state" "sends (state\<lparr>unicast_drop := x2\<rparr>) = sends state"
  "sends (state\<lparr>queue_statistics := x3\<rparr>) = sends state" "sends (state\<lparr>aggregation_histogram := x4\<rparr>) = sends state"
  "sends (state\<lparr>tx_slot_statistics := x5\<rparr>) = sends state" "sends (state\<lparr>rx_slot_statistics := x6\<rparr>) = sends state"
  by (simp_all add: sends_def)

lemma sends_snd_check_generation: "sends (snd (check_generation mac n state)) = sends state"
  using sends_check_generation [of mac n state] by (cases "check_generation mac n state") simp

lemma sends_record_accept [simp]: "sends (record_packet_accept mac q s d n i state) = sends state"
  unfolding record_packet_accept_def Let_def case_prod_unfold sends_counter(3)
  by (auto simp only: sends_statistics_update sends_snd_check_generation split: if_split)

lemma sends_record_drop [simp]: "sends (record_packet_drop mac q s d n r state) = sends state"
  unfolding record_packet_drop_def Let_def case_prod_unfold sends_counter(3)
  by (auto simp only: sends_statistics_update sends_snd_check_generation split: if_split)

lemma sends_record_message_drop [simp]: "sends (record_message_drop mac s r m state) = sends state"
  by (simp add: record_message_drop_def split: option.split)

lemma sends_record_all [simp]: "sends (record_all_message_drops mac s ms r state) = sends state"
  unfolding record_all_message_drops_def by (induction ms arbitrary: state) simp_all

lemma sends_aggregation [simp]: "sends (update_aggregation_histogram mac n state) = sends state"
  by (simp add: update_aggregation_histogram_def Let_def)

lemma sends_tx_status: "update_tx_slot_status mac a n s state = Some state' \<Longrightarrow> sends state' = sends state"
  by (auto simp: update_tx_slot_status_def Let_def split: option.splits Option.bind_splits)

lemma sends_rx_status: "update_rx_slot_status mac a r n s state = Some state' \<Longrightarrow> sends state' = sends state"
  by (auto simp: update_rx_slot_status_def Let_def split: option.splits Option.bind_splits)

lemma sends_flow_update: "send_flow_update mac t state = Some state' \<Longrightarrow> sends state' = sends state"
  by (auto simp: send_flow_update_def split: Option.bind_splits)

lemma flow_update_total: "\<exists>state'. send_flow_update mac t state = Some state'"
  using flow_control_token.encode_no_panic [of "\<lparr>fct_tokens = t\<rparr>"]
  by (auto simp: send_flow_update_def)

end
