(* ===== verification/Tdma_Transmit.thy ===== *)
theory Tdma_Transmit
  imports Tdma_State
begin

text \<open>
  The sending side of the TDMA radio model (\<^verbatim>\<open>rust/plugins/tdma/src/lib.rs\<close>):
  packets enter the five queues in \<open>downstream\<close>, and in a transmit slot
  \<open>transmit_slot\<close> takes packets and fragments from the queues until the slot is used up
  and sends one aggregate frame.
\<close>


section \<open>Queues\<close>

definition remove_nth :: "nat \<Rightarrow> 'a list \<Rightarrow> 'a list" where
  "remove_nth i xs = take i xs @ drop (Suc i) xs"

definition addressed :: "u16 \<Rightarrow> QueuedPacket \<Rightarrow> bool" where
  "addressed destination queued \<longleftrightarrow>
     destination = 0 \<or> pi_destination (op_info (qp_packet queued)) = destination"

definition eligible :: "State \<Rightarrow> u16 \<Rightarrow> nat \<Rightarrow> bool" where
  "eligible state destination index = list_ex (addressed destination) (queues state index)"

definition queue_index :: "State \<Rightarrow> u8 \<Rightarrow> u16 \<Rightarrow> nat option" where
  "queue_index state requested destination =
     (let requested = unat (min requested 4)
      in if eligible state destination requested then Some requested
         else if strict_dequeue state then None
         else List.find (eligible state destination) (rev [0..<5]))"

definition credit_token :: "State \<Rightarrow> State" where
  "credit_token state =
     (if flow_control_enable state
      then state\<lparr>available_tokens := min (saturating_add (available_tokens state) 1) (flow_control_tokens state)\<rparr>
      else state)"

definition set_queue :: "nat \<Rightarrow> QueuedPacket list \<Rightarrow> State \<Rightarrow> State" where
  "set_queue index q state = state\<lparr>queues := (queues state)(index := q)\<rparr>"

definition set_statistics :: "nat \<Rightarrow> QueueStatistics \<Rightarrow> State \<Rightarrow> State" where
  "set_statistics index statistics state =
     state\<lparr>queue_statistics := (queue_statistics state)[index := statistics]\<rparr>"


section \<open>take\_transmission\<close>

record Transmission =
  tr_info :: FfiPacketInfo
  tr_bytes :: "byte list"
  tr_sequence :: u64
  tr_offset :: nat
  tr_fragment_index :: u16
  tr_more :: bool
  tr_frequency :: u64
  tr_rate :: u64
  tr_category :: u8
  tr_power :: f64
  tr_bandwidth :: u64
  tr_tx_time :: i64

definition slot_capacity :: "Schedule \<Rightarrow> u64 \<Rightarrow> nat" where
  "slot_capacity sch data_rate_bps =
     (let usable_us = saturating_sub (sch_slot_duration_us sch) (sch_overhead_us sch)
      in min (unat data_rate_bps * unat usable_us div 8000000) usize_max)"

text \<open>One call up to its recursive call: nothing to send, a packet dropped because it does
  not fit the slot and may not be fragmented, or a transmission.\<close>

datatype TakeStep = TakeNone | TakeDropped State | TakeSome Transmission State

definition take_item :: "TdmaMac \<Rightarrow> Schedule \<Rightarrow> u64 \<Rightarrow> Slot \<Rightarrow> nat \<Rightarrow> nat \<Rightarrow> QueuedPacket \<Rightarrow> nat \<Rightarrow> State \<Rightarrow> TakeStep panics" where
  "take_item mac sch absolute sl index pos front available state =
     (case sl of
        TxSlot frequency_hz data_rate_bps service_class power_dbm destination \<Rightarrow>
          (let payload = op_payload (qp_packet front);
               remaining = length payload - qp_offset front;
               taken = min remaining available;
               offset = qp_offset front;
               more = offset + taken < length payload
           in case slice payload offset (offset + taken) of
                None \<Rightarrow> panic
              | Some bytes \<Rightarrow>
                  (let state =
                       (if more
                        then set_queue index ((queues state index)[pos :=
                               front\<lparr>qp_offset := offset + taken,
                                     qp_fragment_index := saturating_add (qp_fragment_index front) 1\<rparr>]) state
                        else credit_token (set_queue index (remove_nth pos (queues state index)) state));
                       statistics = queue_statistics state ! index;
                       c = min (unat service_class) 4;
                       statistics = statistics\<lparr>qs_classes := (qs_classes statistics)[c := qs_classes statistics ! c + 1]\<rparr>;
                       f = min (saturating_add_usize (unat (qp_fragment_index front)) 1 - 1) 9;
                       statistics =
                         (if more then statistics
                          else statistics\<lparr>qs_dequeued := qs_dequeued statistics + 1,
                                 qs_fragment_histogram := (qs_fragment_histogram statistics)[f :=
                                    qs_fragment_histogram statistics ! f + 1]\<rparr>);
                       state = set_statistics index statistics state
                   in Some (TakeSome
                        \<lparr>tr_info = op_info (qp_packet front), tr_bytes = bytes, tr_sequence = qp_sequence front,
                         tr_offset = offset, tr_fragment_index = qp_fragment_index front, tr_more = more,
                         tr_frequency = frequency_hz, tr_rate = data_rate_bps, tr_category = service_class,
                         tr_power = power_dbm, tr_bandwidth = sch_bandwidth_hz sch,
                         tr_tx_time = slot_start sch absolute\<rparr>
                        (publish_queue_tables mac index state))))
      | _ \<Rightarrow> Some TakeNone)"

definition drop_too_big :: "TdmaMac \<Rightarrow> nat \<Rightarrow> nat \<Rightarrow> QueuedPacket \<Rightarrow> State \<Rightarrow> State" where
  "drop_too_big mac index pos dropped state =
     (let state = set_queue index (remove_nth pos (queues state index)) state;
          statistics = queue_statistics state ! index;
          state = set_statistics index (statistics\<lparr>qs_too_big := qs_too_big statistics + 1\<rparr>) state;
          info = op_info (qp_packet dropped);
          state = record_packet_drop mac index (pi_source info) (pi_destination info)
            (length (op_payload (qp_packet dropped))) DropTooBig state;
          state = publish_queue_tables mac index state
      in credit_token state)"

definition take_step :: "TdmaMac \<Rightarrow> u64 \<Rightarrow> nat \<Rightarrow> State \<Rightarrow> TakeStep panics" where
  "take_step mac absolute used state =
     (case schedule state of
        None \<Rightarrow> Some TakeNone
      | Some sch \<Rightarrow> do {
          sl \<leftarrow> slot sch absolute;
          (case sl of
             TxSlot frequency_hz data_rate_bps service_class power_dbm destination \<Rightarrow>
               (case queue_index state service_class destination of
                  None \<Rightarrow> Some TakeNone
                | Some index \<Rightarrow>
                    (let available = slot_capacity sch data_rate_bps - used
                     in if available = 0 then Some TakeNone
                        else (case position (addressed destination) (queues state index) of
                            None \<Rightarrow> Some TakeNone
                          | Some pos \<Rightarrow>
                              (let front = queues state index ! pos;
                                   remaining = length (op_payload (qp_packet front)) - qp_offset front
                               in if remaining > available \<and> \<not> fragmentation_enable state
                                  then (if used \<noteq> 0 then Some TakeNone
                                        else Some (TakeDropped (drop_too_big mac index pos front state)))
                                  else take_item mac sch absolute sl index pos front available state))))
           | _ \<Rightarrow> Some TakeNone) })"

definition queued_count :: "State \<Rightarrow> nat" where
  "queued_count state = sum_list (map (\<lambda>i. length (queues state i)) [0..<5])"

lemma position_Some: "position p xs = Some i \<Longrightarrow> i < length xs \<and> p (xs ! i) \<and> (\<forall>j < i. \<not> p (xs ! j))"
  by (auto simp: position_def find_Some_iff)

lemma length_remove_nth: "i < length xs \<Longrightarrow> length (remove_nth i xs) = length xs - 1"
  by (simp add: remove_nth_def)

lemma queued_count_upd:
  assumes "i < 5"
  shows "sum_list (map (\<lambda>j. length ((f(i := q)) j)) [0..<5]) + length (f i) =
     sum_list (map (\<lambda>j. length (f j)) [0..<5]) + length q"
proof -
  from assms consider "i = 0" | "i = 1" | "i = 2" | "i = 3" | "i = 4" by linarith
  then show ?thesis by cases (simp_all add: upt_rec eval_nat_numeral)
qed

lemma queued_count_set_queue:
  "i < 5 \<Longrightarrow> queued_count (set_queue i q state) + length (queues state i) = queued_count state + length q"
  using queued_count_upd [of i "queues state" q] by (simp add: queued_count_def set_queue_def)

lemma queued_count_cong: "queues a = queues b \<Longrightarrow> queued_count a = queued_count b"
  by (simp add: queued_count_def)

lemma core_set_statistics [simp]: "core (set_statistics i x state) = core state"
  by (simp add: set_statistics_def core_statistics_update)

lemmas set_statistics_fields [simp] = core_set_statistics [THEN core_eqD]

lemma credit_token_fields [simp]:
  "queues (credit_token state) = queues state" "schedule (credit_token state) = schedule state"
  "flow_control_enable (credit_token state) = flow_control_enable state"
  "flow_control_tokens (credit_token state) = flow_control_tokens state"
  "queue_depth (credit_token state) = queue_depth state" "next_sequence (credit_token state) = next_sequence state"
  "fragmentation_enable (credit_token state) = fragmentation_enable state"
  "queue_statistics (credit_token state) = queue_statistics state"
  by (simp_all add: credit_token_def)

lemma set_queue_fields [simp]:
  "queues (set_queue i q state) = (queues state)(i := q)" "schedule (set_queue i q state) = schedule state"
  "flow_control_enable (set_queue i q state) = flow_control_enable state"
  "flow_control_tokens (set_queue i q state) = flow_control_tokens state"
  "available_tokens (set_queue i q state) = available_tokens state"
  "queue_depth (set_queue i q state) = queue_depth state" "next_sequence (set_queue i q state) = next_sequence state"
  "fragmentation_enable (set_queue i q state) = fragmentation_enable state"
  by (simp_all add: set_queue_def)

lemma queue_index_less: "queue_index state c d = Some i \<Longrightarrow> i < 5"
proof -
  assume "queue_index state c d = Some i"
  moreover have "unat (min c (4::u8)) \<le> unat (4::u8)"
    unfolding word_le_nat_alt [symmetric] by simp
  ultimately show ?thesis
    by (auto simp: queue_index_def Let_def find_Some_iff rev_nth split: if_splits)
qed

lemma priority_to_queue_less: "priority_to_queue p < 5"
  by (simp add: priority_to_queue_def)

lemma take_item_not_dropped: "take_item mac sch a sl i j x n state \<noteq> Some (TakeDropped state')"
  by (simp add: take_item_def Let_def split: Slot.split option.split)

lemma take_step_TakeDropped:
  assumes "take_step mac a u state = Some (TakeDropped state')"
  obtains sch index pos where "schedule state = Some sch" "index < 5" "u = 0" "\<not> fragmentation_enable state"
    "pos < length (queues state index)" "state' = drop_too_big mac index pos (queues state index ! pos) state"
proof -
  from assms obtain sch where sch: "schedule state = Some sch"
    by (cases "schedule state") (auto simp: take_step_def)
  with assms obtain f r c p d where sl: "slot sch a = Some (TxSlot f r c p d)"
    by (cases "slot sch a") (auto simp: take_step_def split: Slot.splits)
  from assms obtain i where i: "queue_index state c d = Some i"
    by (cases "queue_index state c d") (auto simp: take_step_def sch sl)
  from assms obtain j where j: "position (addressed d) (queues state i) = Some j"
    by (cases "position (addressed d) (queues state i)") (auto simp: take_step_def sch sl i Let_def split: if_splits)
  from assms show ?thesis
    using that [OF sch queue_index_less [OF i], of j] position_Some [OF j]
    by (auto simp: take_step_def sch sl i j Let_def take_item_not_dropped split: if_splits)
qed

lemma queues_drop_too_big:
  "queues (drop_too_big mac i pos d state) = (queues state)(i := remove_nth pos (queues state i))"
  by (simp add: drop_too_big_def Let_def)

lemma take_step_decreases:
  assumes "take_step mac a u state = Some (TakeDropped state')"
  shows "queued_count state' < queued_count state"
proof -
  from assms obtain i pos where i: "i < 5" and pos: "pos < length (queues state i)"
      and s: "state' = drop_too_big mac i pos (queues state i ! pos) state"
    by (rule take_step_TakeDropped)
  have "queued_count state' = queued_count (set_queue i (remove_nth pos (queues state i)) state)"
    unfolding s by (rule queued_count_cong) (simp add: queues_drop_too_big)
  with queued_count_set_queue [OF i, of "remove_nth pos (queues state i)" state] pos
  show ?thesis by (simp add: length_remove_nth)
qed

function take_transmission :: "TdmaMac \<Rightarrow> u64 \<Rightarrow> nat \<Rightarrow> State \<Rightarrow> (Transmission option \<times> State) panics" where
  "take_transmission mac absolute used state =
     (case take_step mac absolute used state of
        None \<Rightarrow> panic
      | Some TakeNone \<Rightarrow> Some (None, state)
      | Some (TakeDropped state') \<Rightarrow> take_transmission mac absolute used state'
      | Some (TakeSome item state') \<Rightarrow> Some (Some item, state'))"
  by pat_completeness auto
termination
  by (relation "measure (\<lambda>(mac, absolute, used, state). queued_count state)") (auto intro: take_step_decreases)

declare take_transmission.simps [simp del]

text \<open>What a transmission is made of, and what it leaves in the queue it came from.\<close>

definition takes :: "Schedule \<Rightarrow> u64 \<Rightarrow> nat \<Rightarrow> State \<Rightarrow> nat \<Rightarrow> nat \<Rightarrow> Transmission \<Rightarrow> State \<Rightarrow> bool" where
  "takes sch a u state i j item state' \<longleftrightarrow>
     i < 5 \<and> j < length (queues state i)
     \<and> (let front = queues state i ! j; payload = op_payload (qp_packet front)
        in (\<exists>f r c p d. slot sch a = Some (TxSlot f r c p d) \<and> addressed d front
              \<and> (\<forall>k < j. \<not> addressed d (queues state i ! k))
              \<and> tr_frequency item = f \<and> tr_rate item = r \<and> tr_category item = c \<and> tr_power item = p
              \<and> 0 < slot_capacity sch r - u
              \<and> length (tr_bytes item) = min (length payload - qp_offset front) (slot_capacity sch r - u))
           \<and> tr_bytes item = take (length (tr_bytes item)) (drop (qp_offset front) payload)
           \<and> qp_offset front \<le> length payload
           \<and> tr_info item = op_info (qp_packet front) \<and> tr_sequence item = qp_sequence front
           \<and> tr_offset item = qp_offset front \<and> tr_fragment_index item = qp_fragment_index front
           \<and> tr_more item = (qp_offset front + length (tr_bytes item) < length payload)
           \<and> tr_bandwidth item = sch_bandwidth_hz sch \<and> tr_tx_time item = slot_start sch a
           \<and> queues state' = (queues state)(i :=
                if tr_more item
                then (queues state i)[j := front\<lparr>qp_offset := qp_offset front + length (tr_bytes item),
                        qp_fragment_index := saturating_add (qp_fragment_index front) 1\<rparr>]
                else remove_nth j (queues state i))
           \<and> available_tokens state' =
                (if tr_more item then available_tokens state else available_tokens (credit_token state)))"

text \<open>The parts of the state no step of the transmit path changes: all but the queues, the
  available tokens, the frame sequence number, the statistics and the history.\<close>

definition same_config :: "State \<Rightarrow> State \<Rightarrow> bool" where
  "same_config a b \<longleftrightarrow> core (a\<lparr>queues := queues b, available_tokens := available_tokens b,
     frame_sequence := frame_sequence b\<rparr>) = core b"

lemma same_configD:
  assumes "same_config a b"
  shows "schedule a = schedule b \<and> flow_control_enable a = flow_control_enable b
    \<and> flow_control_tokens a = flow_control_tokens b \<and> queue_depth a = queue_depth b
    \<and> fragmentation_enable a = fragmentation_enable b \<and> strict_dequeue a = strict_dequeue b
    \<and> next_sequence a = next_sequence b \<and> reassembly a = reassembly b \<and> pending_rx a = pending_rx b
    \<and> timers a = timers b \<and> started a = started b \<and> next_tx_slot a = next_tx_slot b
    \<and> aggregation_enable a = aggregation_enable b"
  using core_eqD [OF assms [unfolded same_config_def]] by simp

lemma same_config_refl [simp]: "same_config a a"
  by (simp add: same_config_def)

lemma same_config_trans: "same_config a b \<Longrightarrow> same_config b c \<Longrightarrow> same_config a c"
  by (cases a; cases b; cases c) (simp add: same_config_def core_def)

lemma same_config_core: "core a = core b \<Longrightarrow> same_config a c = same_config b c" "core a = core b \<Longrightarrow> same_config c a = same_config c b"
  by (cases a; cases b; cases c; simp add: same_config_def core_def)+

lemma same_config_set_queue [simp]: "same_config (set_queue i q a) b = same_config a b" "same_config b (set_queue i q a) = same_config b a"
  by (cases a; cases b; simp add: same_config_def core_def set_queue_def)+

lemma same_config_credit [simp]: "same_config (credit_token a) b = same_config a b" "same_config b (credit_token a) = same_config b a"
  by (cases a; cases b; simp add: same_config_def core_def credit_token_def)+

lemma take_step_TakeSome:
  assumes "take_step mac a u state = Some (TakeSome item state')"
  shows "\<exists>sch i j. schedule state = Some sch \<and> takes sch a u state i j item state' \<and> same_config state state'"
proof -
  from assms obtain sch where sch: "schedule state = Some sch"
    by (cases "schedule state") (auto simp: take_step_def)
  with assms obtain f r c p d where sl: "slot sch a = Some (TxSlot f r c p d)"
    by (cases "slot sch a") (auto simp: take_step_def split: Slot.splits)
  from assms obtain i where i: "queue_index state c d = Some i"
    by (cases "queue_index state c d") (auto simp: take_step_def sch sl)
  from assms obtain j where j: "position (addressed d) (queues state i) = Some j"
    by (cases "position (addressed d) (queues state i)") (auto simp: take_step_def sch sl i Let_def split: if_splits)
  let ?front = "queues state i ! j" and ?av = "slot_capacity sch r - u"
  from assms have item: "take_item mac sch a (TxSlot f r c p d) i j ?front ?av state = Some (TakeSome item state')"
      and av: "0 < ?av"
    by (auto simp: take_step_def sch sl i j Let_def split: if_splits)
  let ?pl = "op_payload (qp_packet ?front)"
  have le: "qp_offset ?front \<le> length ?pl"
    using item by (auto simp: take_item_def Let_def slice_def split: option.splits if_splits)
  then have le2: "qp_offset ?front + min (length ?pl - qp_offset ?front) ?av \<le> length ?pl" by simp
  have q: "credit_token (set_queue i x state) = set_queue i x (credit_token state)" for x
    by (simp add: credit_token_def set_queue_def)
  show ?thesis
  proof (intro exI conjI)
    show "schedule state = Some sch" by (rule sch)
    show "takes sch a u state i j item state'"
    proof (cases "qp_offset ?front + min (length ?pl - qp_offset ?front) ?av < length ?pl")
      case True
      with item le2 queue_index_less [OF i] position_Some [OF j] sl av le show ?thesis
        by (clarsimp simp: takes_def take_item_def Let_def le)
    next
      case False
      with item le2 queue_index_less [OF i] position_Some [OF j] sl av le show ?thesis
        by (clarsimp simp: takes_def take_item_def Let_def q le)
    qed
    show "same_config state state'"
      using item le2 by (clarsimp simp: take_item_def Let_def same_config_core(2) [OF core_publish]
          same_config_core(2) [OF core_set_statistics])
  qed
qed

lemma drop_too_big_config: "same_config state (drop_too_big mac i pos d state)"
  by (simp add: drop_too_big_def Let_def same_config_core(2) [OF core_publish]
      same_config_core(2) [OF core_record_drop] same_config_core(2) [OF core_set_statistics])

lemma drop_too_big_tokens:
  "available_tokens (drop_too_big mac i pos d state) = available_tokens (credit_token state)"
  by (simp add: drop_too_big_def Let_def credit_token_def)

text \<open>A transmission is one step after zero or more drops.\<close>

lemma take_transmission_induct [consumes 1, case_names none dropped item]:
  assumes "take_transmission mac a u state = Some (r, state')"
    and "\<And>state. take_step mac a u state = Some TakeNone \<Longrightarrow> P state None state"
    and "\<And>state state1 r state'. take_step mac a u state = Some (TakeDropped state1) \<Longrightarrow> P state1 r state' \<Longrightarrow> P state r state'"
    and "\<And>state item state'. take_step mac a u state = Some (TakeSome item state') \<Longrightarrow> P state (Some item) state'"
  shows "P state r state'"
  using assms
proof (induction mac a u state rule: take_transmission.induct)
  case (1 mac a u state)
  then show ?case
    by (subst (asm) take_transmission.simps) (auto split: option.splits TakeStep.splits)
qed

lemma take_transmission_config:
  assumes "take_transmission mac a u state = Some (r, state')"
  shows "same_config state state'"
  using assms
proof (induction rule: take_transmission_induct)
  case (dropped state state1 r state')
  then show ?case
    by (metis take_step_TakeDropped drop_too_big_config same_config_trans)
qed (auto dest: take_step_TakeSome)

lemma takes_bounds: "takes sch a u state i j item state' \<Longrightarrow> i < 5 \<and> j < length (queues state i)"
  by (simp add: takes_def)

lemma takes_queues:
  "takes sch a u state i j item state' \<Longrightarrow>
   queues state' = (queues state)(i :=
     if tr_more item
     then (queues state i)[j := (queues state i ! j)\<lparr>qp_offset := qp_offset (queues state i ! j) + length (tr_bytes item),
             qp_fragment_index := saturating_add (qp_fragment_index (queues state i ! j)) 1\<rparr>]
     else remove_nth j (queues state i))"
  unfolding takes_def Let_def by blast

lemma takes_tokens:
  "takes sch a u state i j item state' \<Longrightarrow>
   available_tokens state' = (if tr_more item then available_tokens state else available_tokens (credit_token state))"
  unfolding takes_def Let_def by blast

lemma takes_count:
  "takes sch a u state i j item state' \<Longrightarrow>
   queued_count state' + (if tr_more item then 0 else 1) = queued_count state"
proof -
  assume t: "takes sch a u state i j item state'"
  then obtain q where q: "queues state' = (queues state)(i := q)"
      "length q + (if tr_more item then 0 else 1) = length (queues state i)" "i < 5"
    using takes_queues [OF t] takes_bounds [OF t] by (auto simp: length_remove_nth split: if_splits)
  have "queued_count state' = queued_count (set_queue i q state)"
    by (rule queued_count_cong) (simp add: q)
  with queued_count_set_queue [OF q(3), of q state] q(2) show ?thesis by auto
qed

lemma take_transmission_count:
  assumes "take_transmission mac a u state = Some (r, state')"
  shows "case r of None \<Rightarrow> queued_count state' \<le> queued_count state
     | Some item \<Rightarrow> queued_count state' + (if tr_more item then 0 else 1) \<le> queued_count state"
  using assms
proof (induction rule: take_transmission_induct)
  case (dropped state state1 r state')
  from take_step_decreases [OF dropped(1)] dropped(2) show ?case by (auto split: option.splits)
next
  case (item state item state')
  then obtain sch i j where "takes sch a u state i j item state'"
    using take_step_TakeSome by blast
  from takes_count [OF this] show ?case by simp
qed simp


section \<open>transmit\_slot\<close>

text \<open>The condition that ends the aggregation loop after an item.\<close>

definition stop_aggregation :: "bool \<Rightarrow> f64 \<Rightarrow> nat \<Rightarrow> nat \<Rightarrow> Transmission \<Rightarrow> bool" where
  "stop_aggregation aggregate threshold capacity used item \<longleftrightarrow>
     \<not> aggregate \<or> tr_more item \<or> used \<ge> capacity
     \<or> f64_le threshold
         (f64_mul (f64_div (f64_of_int (int used)) (f64_of_int (int (max capacity 1)))) 0x4059000000000000)"

function transmit_loop ::
  "TdmaMac \<Rightarrow> u64 \<Rightarrow> bool \<Rightarrow> f64 \<Rightarrow> nat \<Rightarrow> nat \<Rightarrow> Transmission list \<Rightarrow> State \<Rightarrow> (Transmission list \<times> State) panics" where
  "transmit_loop mac absolute aggregate threshold capacity used items state =
     (case take_transmission mac absolute used state of
        None \<Rightarrow> panic
      | Some (None, state') \<Rightarrow> Some (items, state')
      | Some (Some item, state') \<Rightarrow>
          (let used' = saturating_add_usize used (length (tr_bytes item))
           in if stop_aggregation aggregate threshold capacity used' item
              then Some (items @ [item], state')
              else transmit_loop mac absolute aggregate threshold capacity used' (items @ [item]) state'))"
  by pat_completeness auto
termination
  by (relation "measure (\<lambda>(mac, absolute, aggregate, threshold, capacity, used, items, state). queued_count state)")
    (auto simp: stop_aggregation_def dest!: take_transmission_count)

declare transmit_loop.simps [simp del]

definition tx_duration :: "nat \<Rightarrow> u64 \<Rightarrow> u64 \<Rightarrow> u64 panics" where
  "tx_duration component_bytes rate slot_duration_us =
     (if rate = 0 then panic
      else Some (word_of_nat (min (component_bytes * 8000000 div unat rate)
                                  (unat (saturating_sub slot_duration_us 1)))))"

definition tx_properties :: "Transmission \<Rightarrow> nat \<Rightarrow> u64 \<Rightarrow> TxProperties panics" where
  "tx_properties transmission component_bytes slot_duration_us = do {
     duration \<leftarrow> tx_duration component_bytes (tr_rate transmission) slot_duration_us;
     Some \<lparr>txp_frequency_hz = tr_frequency transmission, txp_bandwidth_hz = tr_bandwidth transmission,
           txp_tx_power_dbm = tr_power transmission, txp_duration_microseconds = duration,
           txp_offset_microseconds = 0, txp_tx_time_microseconds = tr_tx_time transmission,
           txp_antenna_index = 0, txp_spectral_mask_index = 0, txp_sub_id = 0\<rparr> }"

definition wire_message :: "Transmission \<Rightarrow> TdmaMessage" where
  "wire_message item =
     \<lparr>tm_message_type = 1,
      tm_destination = ucast (pi_destination (tr_info item)),
      tm_priority = ucast (pi_priority (tr_info item)),
      tm_data = tr_bytes item,
      tm_fragment =
        (if tr_offset item \<noteq> 0 \<or> tr_more item
         then Some \<lparr>tf_more = tr_more item, tf_index = ucast (tr_fragment_index item),
                    tf_offset = (if tr_offset item < 2 ^ 32 then word_of_nat (tr_offset item) else - 1),
                    tf_sequence = tr_sequence item\<rparr>
         else None)\<rparr>"

text \<open>The destination of the frame: that of all its items, or broadcast.\<close>

definition frame_destination :: "Transmission list \<Rightarrow> u16" where
  "frame_destination items =
     (case map (\<lambda>item. pi_destination (tr_info item)) items of
        [] \<Rightarrow> BROADCAST_NEM
      | d # ds \<Rightarrow> foldl (\<lambda>left right. if left = right then left else BROADCAST_NEM) d ds)"

text \<open>The part of \<open>transmit_slot\<close> that sends the frame, after the state lock is
  released.\<close>

definition send_frame :: "TdmaMac \<Rightarrow> u64 \<Rightarrow> i64 \<Rightarrow> u64 \<Rightarrow> u64 \<Rightarrow> Transmission list \<Rightarrow> State \<Rightarrow> State panics" where
  "send_frame mac absolute now frame_seq slot_duration_us items state =
     (case items of
        [] \<Rightarrow> Some state
      | first # _ \<Rightarrow>
          (let wire = \<lparr>bm_absolute_slot_index = absolute, bm_data_rate_bps = tr_rate first,
                       bm_messages = map wire_message items\<rparr>;
               serialization = env_encode_message (mac_env mac) wire
           in case u16_try_from (length serialization) of
                None \<Rightarrow> Some state
              | Some serialization_len \<Rightarrow>
                  (let payload = be_bytes 2 serialization_len @ serialization;
                       destination = frame_destination items;
                       component_bytes = sum_list (map (\<lambda>item. length (tr_bytes item)) items)
                   in do {
                     header \<leftarrow> ModelHeader_encode
                       \<lparr>mh_registration_id = MAC_REGISTRATION_TDMA, mh_sequence = frame_seq,
                        mh_data_rate_bps = tr_rate first, mh_category = tr_category first,
                        mh_message_type = 1, mh_flags = 0\<rparr>;
                     tx \<leftarrow> tx_properties first component_bytes slot_duration_us;
                     tx_data \<leftarrow> TxProperties_encode tx;
                     let info = (tr_info first)\<lparr>pi_source := mac_id mac, pi_destination := destination\<rparr>;
                     let state = emit (SendDownstreamPacket \<lparr>op_info = info, op_payload = payload\<rparr>
                           [(CONTROL_MODEL_HEADER, header), (CONTROL_TX_PROPERTIES, tx_data)]) state;
                     let state = increment mac ''TxFrameSent'' 1 state;
                     let state = increment mac ''TxComponentBytes''
                           (fold (\<lambda>item total. saturating_add total (word_of_nat (length (tr_bytes item)))) items 0) state;
                     let state = increment mac ''TxWireBytes''
                           (word_of_nat (saturating_add_usize (length payload) PHY_ENVELOPE_BYTES)) state;
                     let state = increment mac ''TxAirtimeMicroseconds'' (txp_duration_microseconds tx) state;
                     Some (emit (UpdateNeighborTx destination (tr_rate first) (if sint now < 0 then 0 else now)) state) })))"

text \<open>The part that takes the items, under the state lock: the items, the tokens to report
  (if any), and the sequence number of the frame.\<close>

definition transmit_locked ::
  "TdmaMac \<Rightarrow> u64 \<Rightarrow> Schedule \<Rightarrow> u64 \<Rightarrow> State \<Rightarrow> (Transmission list \<times> u16 option \<times> u64 \<times> State) panics" where
  "transmit_locked mac absolute sch data_rate_bps state = do {
     let previous_tokens = available_tokens state;
     (items, state) \<leftarrow> transmit_loop mac absolute (aggregation_enable state)
        (aggregation_threshold state) (slot_capacity sch data_rate_bps) 0 [] state;
     let state = (if items \<noteq> []
          then fold (\<lambda>item. record_packet_accept mac
                   (packet_queue DataMessage (pi_priority (tr_info item))) (mac_id mac)
                   (pi_destination (tr_info item)) (length (tr_bytes item)) False) items
                 (update_aggregation_histogram mac (length items) state)
          else state);
     let flow_update = (if flow_control_enable state \<and> available_tokens state \<noteq> previous_tokens
          then Some (available_tokens state) else None);
     let frame_seq = frame_sequence state;
     let state = (if items \<noteq> [] then state\<lparr>frame_sequence := frame_sequence state + 1\<rparr> else state);
     Some (items, flow_update, frame_seq, state) }"

definition transmit_on_time :: "TdmaMac \<Rightarrow> Schedule \<Rightarrow> u64 \<Rightarrow> u64 \<Rightarrow> i64 \<Rightarrow> State \<Rightarrow> State panics" where
  "transmit_on_time mac sch absolute data_rate_bps now state = do {
      (items, flow_update, frame_seq, state) \<leftarrow> transmit_locked mac absolute sch data_rate_bps state;
      state \<leftarrow> (case flow_update of Some tokens \<Rightarrow> send_flow_update mac tokens state | None \<Rightarrow> Some state);
      send_frame mac absolute now frame_seq (sch_slot_duration_us sch) items state }"

definition transmit_slot :: "TdmaMac \<Rightarrow> u64 \<Rightarrow> State \<Rightarrow> State panics" where
  "transmit_slot mac absolute state =
     (let (now, state) = now_us mac state
      in do {
        on_time \<leftarrow> (case schedule state of
            None \<Rightarrow> Some False
          | Some sch \<Rightarrow> map_option (\<lambda>k. k = absolute) (absolute_slot sch now));
        if \<not> on_time then update_tx_slot_status mac absolute now TxMissed state
        else do {
          state \<leftarrow> update_tx_slot_status mac absolute now TxValid state;
          (case schedule state of
             None \<Rightarrow> Some state
           | Some sch \<Rightarrow> do {
               sl \<leftarrow> slot sch absolute;
               (case sl of
                  TxSlot _ data_rate_bps _ _ _ \<Rightarrow> transmit_on_time mac sch absolute data_rate_bps now state
                | _ \<Rightarrow> Some state) }) } })"


section \<open>downstream\<close>

definition own_packet :: "OwnedPacket \<Rightarrow> OwnedPacket option" where
  "own_packet packet = (if length (op_payload packet) > 64 * 2 ^ 20 then None else Some packet)"

definition count_overflow :: "TdmaMac \<Rightarrow> nat \<Rightarrow> OwnedPacket \<Rightarrow> State \<Rightarrow> State" where
  "count_overflow mac index packet state =
     (let statistics = queue_statistics state ! index;
          state = set_statistics index (statistics\<lparr>qs_overflow := qs_overflow statistics + 1\<rparr>) state;
          state = increment mac ''TxQueueOverflowPackets'' 1 state;
          state = increment mac ''TxQueueOverflowBytes'' (word_of_nat (length (op_payload packet))) state;
          state = record_packet_drop mac index (pi_source (op_info packet)) (pi_destination (op_info packet))
            (length (op_payload packet)) DropQueueOverflow state
      in publish_queue_tables mac index state)"

text \<open>A full queue drops the oldest packet none of which has been sent, or the oldest.\<close>

definition make_room :: "TdmaMac \<Rightarrow> nat \<Rightarrow> State \<Rightarrow> State panics" where
  "make_room mac index state =
     (if length (queues state index) \<ge> queue_depth state then
        (let dropped_position = unwrap_or (position (\<lambda>queued. qp_fragment_index queued = 0) (queues state index)) 0
         in if dropped_position < length (queues state index)
            then (let dropped = queues state index ! dropped_position;
                      state = set_queue index (remove_nth dropped_position (queues state index)) state
                  in Some (credit_token (count_overflow mac index (qp_packet dropped) state)))
            else panic)
      else Some state)"

definition enqueue_packet :: "TdmaMac \<Rightarrow> nat \<Rightarrow> OwnedPacket \<Rightarrow> State \<Rightarrow> State" where
  "enqueue_packet mac index packet state =
    (let state = (if flow_control_enable state
                     then state\<lparr>available_tokens := available_tokens state - 1\<rparr> else state);
         state = state\<lparr>next_sequence := next_sequence state + 1\<rparr>;
         state = set_queue index (queues state index @
                     [\<lparr>qp_packet = packet, qp_sequence = next_sequence state, qp_offset = 0, qp_fragment_index = 0\<rparr>]) state;
         statistics = queue_statistics state ! index;
         state = set_statistics index (statistics\<lparr>qs_enqueued := qs_enqueued statistics + 1\<rparr>) state;
         state = maximize mac (''highWaterMarkQueue'' @ digit index)
                     (word_of_nat (length (queues state index))) state
     in publish_queue_tables mac index state)"

definition downstream :: "TdmaMac \<Rightarrow> OwnedPacket \<Rightarrow> State \<Rightarrow> State panics" where
  "downstream mac packet state =
     (case own_packet packet of
        None \<Rightarrow> Some state
      | Some packet \<Rightarrow>
          (let index = priority_to_queue (pi_priority (op_info packet))
           in if flow_control_enable state \<and> available_tokens state = 0
              then Some (record_packet_drop mac index (pi_source (op_info packet)) (pi_source (op_info packet))
                     (length (op_payload packet)) DropFlowControl state)
              else if queue_depth state = 0 then Some (count_overflow mac index packet state)
              else map_option (enqueue_packet mac index packet) (make_room mac index state)))"


section \<open>The invariant of the sending side\<close>

text \<open>
  Every queued packet has an offset inside its payload, no queue is longer than the configured
  depth, the schedule is well-formed, and with flow control every token is either available or
  held by a queued packet.
\<close>

definition packet_ok :: "QueuedPacket \<Rightarrow> bool" where
  "packet_ok q \<longleftrightarrow> qp_offset q \<le> length (op_payload (qp_packet q))"

definition schedule_ok :: "State \<Rightarrow> bool" where
  "schedule_ok state \<longleftrightarrow> (case schedule state of None \<Rightarrow> True | Some sch \<Rightarrow> wf_schedule sch)"

definition tokens_ok :: "State \<Rightarrow> bool" where
  "tokens_ok state \<longleftrightarrow> (flow_control_enable state \<longrightarrow>
     unat (available_tokens state) + queued_count state = unat (flow_control_tokens state))"

definition send_inv :: "State \<Rightarrow> bool" where
  "send_inv state \<longleftrightarrow>
     schedule_ok state \<and> tokens_ok state
     \<and> (\<forall>i < 5. list_all packet_ok (queues state i) \<and> length (queues state i) \<le> queue_depth state)"

lemma credit_token_unat:
  assumes "flow_control_enable state" "unat (available_tokens state) < unat (flow_control_tokens state)"
  shows "unat (available_tokens (credit_token state)) = unat (available_tokens state) + 1"
proof -
  have "unat (saturating_add (available_tokens state) 1) = unat (available_tokens state) + 1"
  proof -
    have "unat (flow_control_tokens state) < 65536" by simp
    with assms(2) have "unat (available_tokens state) + 1 \<le> 65535" by linarith
    then show ?thesis by (simp add: unat_saturating_add)
  qed
  moreover from this assms have "saturating_add (available_tokens state) 1 \<le> flow_control_tokens state"
    by (simp add: word_le_nat_alt)
  ultimately show ?thesis using assms(1) by (simp add: credit_token_def min_def)
qed

lemma tokens_ok_credit:
  assumes "tokens_ok state" "same_config state state'" "queued_count state' + 1 = queued_count state"
    "available_tokens state' = available_tokens (credit_token state)"
  shows "tokens_ok state'"
  using assms same_configD [OF assms(2)] credit_token_unat [of state] by (auto simp: tokens_ok_def)

lemma tokens_ok_same:
  assumes "tokens_ok state" "same_config state state'" "queued_count state' = queued_count state"
    "available_tokens state' = available_tokens state"
  shows "tokens_ok state'"
  using assms same_configD [OF assms(2)] by (auto simp: tokens_ok_def)

lemma in_set_remove_nth: "x \<in> set (remove_nth i xs) \<Longrightarrow> x \<in> set xs"
  by (auto simp: remove_nth_def dest: in_set_takeD in_set_dropD)

lemma list_all_remove_nth: "list_all p xs \<Longrightarrow> list_all p (remove_nth i xs)"
  by (auto simp: list_all_iff dest: in_set_remove_nth)

lemma schedule_ok_config: "same_config a b \<Longrightarrow> schedule_ok a = schedule_ok b"
  by (simp add: schedule_ok_def same_configD)

lemma queue_depth_config: "same_config a b \<Longrightarrow> queue_depth a = queue_depth b"
  by (simp add: same_configD)

lemma send_inv_dropped:
  assumes "take_step mac a u state = Some (TakeDropped state')" "send_inv state"
  shows "send_inv state'"
proof -
  from assms(1) obtain i pos where i: "i < 5" "pos < length (queues state i)"
      and s: "state' = drop_too_big mac i pos (queues state i ! pos) state"
    by (rule take_step_TakeDropped)
  have c: "same_config state state'" by (simp add: s drop_too_big_config)
  have "queued_count state' = queued_count (set_queue i (remove_nth pos (queues state i)) state)"
    by (rule queued_count_cong) (simp add: s queues_drop_too_big)
  then have "queued_count state' + 1 = queued_count state"
    using queued_count_set_queue [OF i(1), of "remove_nth pos (queues state i)" state] i(2)
    by (simp add: length_remove_nth)
  then have "tokens_ok state'"
    using assms(2) s drop_too_big_tokens by (intro tokens_ok_credit [OF _ c]) (simp_all add: send_inv_def)
  moreover have "queues state' = (queues state)(i := remove_nth pos (queues state i))"
    by (simp add: s queues_drop_too_big)
  ultimately show ?thesis
    using assms(2) i schedule_ok_config [OF c] queue_depth_config [OF c]
    by (auto simp: send_inv_def list_all_remove_nth length_remove_nth)
qed

lemma takes_progress:
  assumes "takes sch a u state i j item state'"
  shows "qp_offset (queues state i ! j) + length (tr_bytes item) \<le> length (op_payload (qp_packet (queues state i ! j)))"
proof -
  obtain n where "length (tr_bytes item) = min (length (op_payload (qp_packet (queues state i ! j))) - qp_offset (queues state i ! j)) n"
      "qp_offset (queues state i ! j) \<le> length (op_payload (qp_packet (queues state i ! j)))"
    using assms unfolding takes_def Let_def by blast
  then show ?thesis by simp
qed

lemma list_all_update: "list_all p xs \<Longrightarrow> p x \<Longrightarrow> list_all p (xs[i := x])"
  by (induction xs arbitrary: i) (auto split: nat.split)

lemma send_inv_takes:
  assumes "takes sch a u state i j item state'" "same_config state state'" "send_inv state"
  shows "send_inv state'"
proof -
  note b = takes_bounds [OF assms(1)]
  have "tokens_ok state'"
    using takes_count [OF assms(1)] takes_tokens [OF assms(1)] assms(2,3) tokens_ok_credit [of state state']
      tokens_ok_same [of state state']
    by (auto simp: send_inv_def split: if_splits)
  moreover have "packet_ok (queues state i ! j)"
    using assms(3) b by (auto simp: send_inv_def list_all_length)
  then have "list_all packet_ok (queues state' k) \<and> length (queues state' k) \<le> queue_depth state'" if "k < 5" for k
    using takes_queues [OF assms(1)] takes_progress [OF assms(1)] assms(3) b that queue_depth_config [OF assms(2)]
    by (auto simp: send_inv_def packet_ok_def list_all_remove_nth length_remove_nth intro!: list_all_update)
  ultimately show ?thesis
    using assms(3) schedule_ok_config [OF assms(2)] by (simp add: send_inv_def)
qed

lemma send_inv_take_transmission:
  assumes "take_transmission mac a u state = Some (r, state')" "send_inv state"
  shows "send_inv state'"
  using assms
proof (induction rule: take_transmission_induct)
  case (dropped state state1 r state')
  then show ?case using send_inv_dropped by blast
next
  case (item state item state')
  then show ?case using take_step_TakeSome send_inv_takes by blast
qed

lemma send_inv_core: "core a = core b \<Longrightarrow> send_inv a = send_inv b"
  using core_eqD [of a b] by (simp add: send_inv_def schedule_ok_def tokens_ok_def queued_count_def)

lemma take_step_dropped_config:
  assumes "take_step mac a u state = Some (TakeDropped state')"
  shows "same_config state state'"
  using assms by (rule take_step_TakeDropped) (simp add: drop_too_big_config)

lemma take_step_no_panic:
  assumes "send_inv state"
  shows "take_step mac a u state \<noteq> None"
proof (cases "schedule state")
  case (Some sch)
  with assms have wf: "wf_schedule sch" by (simp add: send_inv_def schedule_ok_def)
  obtain sl where sl: "slot sch a = Some sl" using wf_slot_nth [OF wf] by blast
  show ?thesis
  proof (cases sl)
    case (TxSlot f r c p d)
    have ti: "\<exists>y. take_item mac sch a (TxSlot f r c p d) i j (queues state i ! j) n state = Some y"
      if "i < 5" "j < length (queues state i)" for i j n
    proof -
      have "packet_ok (queues state i ! j)" using assms that by (auto simp: send_inv_def list_all_length)
      then show ?thesis by (simp add: take_item_def packet_ok_def Let_def)
    qed
    then show ?thesis
      using Some sl TxSlot
      by (auto simp: take_step_def Let_def split: option.split dest!: position_Some queue_index_less intro!: ti)
  qed (use Some sl in \<open>simp_all add: take_step_def\<close>)
qed (simp add: take_step_def)

lemma take_transmission_no_panic:
  "send_inv state \<Longrightarrow> take_transmission mac a u state \<noteq> None"
proof (induction mac a u state rule: take_transmission.induct)
  case (1 mac a u state)
  then show ?case
    using take_step_no_panic [OF 1(2), of mac a u] send_inv_dropped
    by (subst take_transmission.simps) (auto simp del: not_None_eq split: option.split TakeStep.split)
qed

text \<open>One transmission fits what is left of the slot.\<close>

definition tx_rate :: "Schedule \<Rightarrow> u64 \<Rightarrow> u64" where
  "tx_rate sch a = (case slot sch a of Some (TxSlot _ r _ _ _) \<Rightarrow> r | _ \<Rightarrow> 0)"

lemma take_transmission_fits:
  assumes "take_transmission mac a u state = Some (Some item, state')" "schedule state = Some sch"
  shows "u + length (tr_bytes item) \<le> slot_capacity sch (tx_rate sch a) \<and> tr_rate item = tx_rate sch a
    \<and> (\<exists>f c p d. slot sch a = Some (TxSlot f (tr_rate item) c p d) \<and> tr_frequency item = f \<and> tr_category item = c \<and> tr_power item = p)
    \<and> tr_tx_time item = slot_start sch a \<and> tr_bandwidth item = sch_bandwidth_hz sch"
proof -
  have "r = Some item \<Longrightarrow> schedule state = Some sch \<Longrightarrow> \<exists>s i j. takes sch a u s i j item state'"
    if "take_transmission mac a u state = Some (r, state')" for r state state'
    using that
  proof (induction rule: take_transmission_induct)
    case (dropped state state1 r state')
    then show ?case using same_configD [OF take_step_dropped_config [OF dropped(1)]] by simp
  next
    case (item state it state')
    from take_step_TakeSome [OF item(1)] item(2,3) show ?case by auto
  qed simp
  from this [OF assms(1) refl assms(2)] obtain s i j where "takes sch a u s i j item state'" by blast
  then obtain f r c p d m where *: "slot sch a = Some (TxSlot f r c p d)" "tr_frequency item = f" "tr_rate item = r"
      "tr_category item = c" "tr_power item = p" "0 < slot_capacity sch r - u"
      "length (tr_bytes item) = min m (slot_capacity sch r - u)"
      "tr_tx_time item = slot_start sch a" "tr_bandwidth item = sch_bandwidth_hz sch"
    unfolding takes_def Let_def by blast
  then have "u + length (tr_bytes item) \<le> slot_capacity sch r" by linarith
  with * show ?thesis by (simp add: tx_rate_def)
qed

abbreviation item_bytes :: "Transmission list \<Rightarrow> nat" where
  "item_bytes items \<equiv> sum_list (map (\<lambda>item. length (tr_bytes item)) items)"

lemma slot_capacity_usize: "slot_capacity sch r \<le> usize_max"
  by (simp add: slot_capacity_def Let_def)

lemma transmit_loop_spec:
  assumes "send_inv state" "schedule state = Some sch" "used = item_bytes items"
    "used \<le> slot_capacity sch (tx_rate sch a)" "list_all (\<lambda>item. tr_rate item = tx_rate sch a) items"
  shows "\<exists>items' state'. transmit_loop mac a agg thr cap used items state = Some (items', state')
    \<and> send_inv state' \<and> same_config state state' \<and> item_bytes items' \<le> slot_capacity sch (tx_rate sch a)
    \<and> list_all (\<lambda>item. tr_rate item = tx_rate sch a) items' \<and> (\<exists>more. items' = items @ more)"
  using assms
proof (induction mac a agg thr cap used items state rule: transmit_loop.induct)
  case (1 mac a agg thr cap used items state)
  obtain r state1 where t: "take_transmission mac a used state = Some (r, state1)"
    using take_transmission_no_panic [OF 1(2), of mac a used] by (cases "take_transmission mac a used state") auto
  note inv = send_inv_take_transmission [OF t 1(2)] and cfg = take_transmission_config [OF t]
  show ?case
  proof (cases r)
    case None
    with t inv cfg 1 show ?thesis by (subst transmit_loop.simps) simp
  next
    case (Some item)
    note fits = take_transmission_fits [OF t [unfolded Some] 1(3)]
    let ?used = "saturating_add_usize used (length (tr_bytes item))"
    have u: "?used = item_bytes (items @ [item])" "?used \<le> slot_capacity sch (tx_rate sch a)"
      using fits 1(4) slot_capacity_usize [of sch "tx_rate sch a"] by (simp_all add: saturating_add_usize_def)
    show ?thesis
    proof (cases "stop_aggregation agg thr cap ?used item")
      case True
      with t Some inv cfg u fits 1 show ?thesis by (subst transmit_loop.simps) auto
    next
      case False
      have "schedule state1 = Some sch" using 1(3) same_configD [OF cfg] by simp
      then obtain items' state' where *: "transmit_loop mac a agg thr cap ?used (items @ [item]) state1 = Some (items', state')"
          "send_inv state'" "same_config state1 state'" "item_bytes items' \<le> slot_capacity sch (tx_rate sch a)"
          "list_all (\<lambda>item. tr_rate item = tx_rate sch a) items'" "\<exists>more. items' = (items @ [item]) @ more"
        using 1(1) [OF t [unfolded Some] refl refl refl False inv] u fits 1(6) by auto
      have "transmit_loop mac a agg thr cap used items state = Some (items', state')"
        using t Some False *(1) by (subst transmit_loop.simps) simp
      with * same_config_trans [OF cfg *(3)] show ?thesis by auto
    qed
  qed
qed


lemma sends_queue_ops [simp]:
  "sends (set_queue i q state) = sends state" "sends (credit_token state) = sends state"
  "sends (set_statistics i x state) = sends state"
  by (simp_all add: sends_def set_queue_def credit_token_def set_statistics_def)

lemma sends_drop_too_big [simp]: "sends (drop_too_big mac i pos d state) = sends state"
  by (simp add: drop_too_big_def Let_def)

lemma sends_take_item: "take_item mac sch a sl i j x n state = Some (TakeSome item state') \<Longrightarrow> sends state' = sends state"
  by (auto simp: take_item_def Let_def split: Slot.splits option.splits if_splits)

lemma sends_take_step: "take_step mac a u state = Some (TakeSome item state') \<Longrightarrow> sends state' = sends state"
  by (auto simp: take_step_def Let_def sends_take_item split: option.splits Slot.splits if_splits Option.bind_splits)

lemma sends_take_transmission:
  assumes "take_transmission mac a u state = Some (r, state')"
  shows "sends state' = sends state"
  using assms
proof (induction rule: take_transmission_induct)
  case (dropped state state1 r state')
  from dropped(1) have "sends state1 = sends state" by (rule take_step_TakeDropped) simp
  with dropped(2) show ?case by simp
qed (simp_all add: sends_take_step)

lemma sends_transmit_loop:
  "transmit_loop mac a agg thr cap u items state = Some (items', state') \<Longrightarrow> sends state' = sends state"
proof (induction mac a agg thr cap u items state rule: transmit_loop.induct)
  case (1 mac a agg thr cap u items state)
  from 1(2) obtain r state1 where t: "take_transmission mac a u state = Some (r, state1)"
    by (subst (asm) transmit_loop.simps) (auto split: option.splits)
  note s = sends_take_transmission [OF t]
  show ?case
  proof (cases r)
    case None
    with 1(2) t s show ?thesis by (subst (asm) transmit_loop.simps) simp
  next
    case (Some item)
    show ?thesis
      using 1(2) t s Some 1(1) [OF t [unfolded Some] refl refl refl]
      by (subst (asm) transmit_loop.simps) (auto simp: Let_def split: if_splits)
  qed
qed

lemma fold_record_accept:
  "core (fold (\<lambda>item. record_packet_accept mac (q item) s (d item) (n item) b) items state) = core state"
  "sends (fold (\<lambda>item. record_packet_accept mac (q item) s (d item) (n item) b) items state) = sends state"
  by (induction items arbitrary: state) simp_all



lemma unat_u64_less: "unat (w::u64) < 2 ^ 64"
  using unsigned_less [of w] by simp

lemma tx_duration_fits:
  assumes "rate \<noteq> 0" "bytes \<le> slot_capacity sch rate" "sch_overhead_us sch \<le> sch_slot_duration_us sch"
  shows "\<exists>d. tx_duration bytes rate (sch_slot_duration_us sch) = Some d
    \<and> unat d \<le> unat (sch_slot_duration_us sch) - unat (sch_overhead_us sch)
    \<and> unat d = min (bytes * 8000000 div unat rate) (unat (sch_slot_duration_us sch) - 1)"
proof -
  let ?us = "unat (sch_slot_duration_us sch) - unat (sch_overhead_us sch)"
  have r: "0 < unat rate" using assms(1) by (simp add: unat_gt_0)
  have "bytes \<le> unat rate * ?us div 8000000"
    using assms(2) by (simp add: slot_capacity_def Let_def unat_saturating_sub)
  then have "bytes * 8000000 \<le> unat rate * ?us"
    by (metis div_times_less_eq_dividend le_trans mult_le_mono1)
  then have "bytes * 8000000 div unat rate \<le> ?us"
    using r by (metis div_le_mono nonzero_mult_div_cancel_left less_numeral_extra(3))
  moreover let ?m = "min (bytes * 8000000 div unat rate) (unat (sch_slot_duration_us sch) - 1)"
  have "unat (sch_slot_duration_us sch) < 2 ^ 64" by (rule unat_u64_less)
  then have "?m < 2 ^ 64" by linarith
  then have "unat (word_of_nat ?m :: u64) = ?m"
    by (simp add: unat_of_nat take_bit_nat_eq_self_iff flip: take_bit_eq_mod)
  ultimately show ?thesis
    using assms(1) by (simp add: tx_duration_def unat_saturating_sub)
qed

text \<open>The frame a transmit slot sends.\<close>

definition frame_of :: "TdmaMac \<Rightarrow> Schedule \<Rightarrow> u64 \<Rightarrow> Transmission list \<Rightarrow> TxProperties \<Rightarrow> OwnedPacket \<Rightarrow> bool" where
  "frame_of mac sch a items tx p \<longleftrightarrow>
     (let serialization = env_encode_message (mac_env mac)
            \<lparr>bm_absolute_slot_index = a, bm_data_rate_bps = tx_rate sch a, bm_messages = map wire_message items\<rparr>
      in length serialization < 65536
         \<and> op_payload p = be_bytes 2 (word_of_nat (length serialization) :: u16) @ serialization)
     \<and> pi_source (op_info p) = mac_id mac \<and> pi_destination (op_info p) = frame_destination items
     \<and> txp_tx_time_microseconds tx = tr_tx_time (hd items) \<and> txp_frequency_hz tx = tr_frequency (hd items)
     \<and> unat (txp_duration_microseconds tx) \<le> unat (sch_slot_duration_us sch) - unat (sch_overhead_us sch)"

lemma send_frame_spec:
  assumes "wf_schedule sch" "item_bytes items \<le> slot_capacity sch (tx_rate sch a)"
    "list_all (\<lambda>item. tr_rate item = tx_rate sch a) items" "items \<noteq> [] \<Longrightarrow> tx_rate sch a \<noteq> 0"
  shows "\<exists>state'. send_frame mac a now seq (sch_slot_duration_us sch) items state = Some state'
    \<and> core state' = core state
    \<and> (sends state' = sends state
       \<or> (\<exists>p tx header tx_data. items \<noteq> [] \<and> frame_of mac sch a items tx p
           \<and> sends state' = sends state @ [SendDownstreamPacket p
                [(CONTROL_MODEL_HEADER, header), (CONTROL_TX_PROPERTIES, tx_data)]]
           \<and> TxProperties_encode tx = Some tx_data))"
proof (cases items)
  case Nil
  then show ?thesis by (simp add: send_frame_def)
next
  case (Cons first rest)
  have rate: "tr_rate first = tx_rate sch a" "tx_rate sch a \<noteq> 0" using assms Cons by auto
  have ov: "sch_overhead_us sch \<le> sch_slot_duration_us sch" using assms(1) by (simp add: wf_schedule_def less_imp_le)
  let ?ser = "env_encode_message (mac_env mac)
     \<lparr>bm_absolute_slot_index = a, bm_data_rate_bps = tx_rate sch a, bm_messages = map wire_message items\<rparr>"
  obtain d where d: "tx_duration (item_bytes items) (tr_rate first) (sch_slot_duration_us sch) = Some d"
      "unat d \<le> unat (sch_slot_duration_us sch) - unat (sch_overhead_us sch)"
    using tx_duration_fits [OF rate(2) assms(2) ov] rate(1) by auto
  show ?thesis
  proof (cases "length ?ser < 65536")
    case False
    then show ?thesis using rate by (simp add: send_frame_def Cons u16_try_from_def Let_def)
  next
    case True
    let ?info = "(tr_info first)\<lparr>pi_source := mac_id mac, pi_destination := frame_destination items\<rparr>"
    let ?p = "\<lparr>op_info = ?info, op_payload = be_bytes 2 (word_of_nat (length ?ser) :: u16) @ ?ser\<rparr>"
    obtain tx where tx: "tx_properties first (item_bytes items) (sch_slot_duration_us sch) = Some tx"
        "txp_duration_microseconds tx = d" "txp_tx_time_microseconds tx = tr_tx_time first"
        "txp_frequency_hz tx = tr_frequency first"
      using d(1) by (simp add: tx_properties_def)
    obtain tx_data where txd: "TxProperties_encode tx = Some tx_data" by (simp add: TxProperties_bytes)
    have "frame_of mac sch a items tx ?p"
      using True d(2) tx(2-4) Cons by (simp add: frame_of_def)
    moreover have "\<exists>state' header. send_frame mac a now seq (sch_slot_duration_us sch) items state = Some state'
        \<and> core state' = core state
        \<and> sends state' = sends state @ [SendDownstreamPacket ?p [(CONTROL_MODEL_HEADER, header), (CONTROL_TX_PROPERTIES, tx_data)]]"
      using True rate tx(1) txd
      by (simp add: send_frame_def Cons u16_try_from_def Let_def ModelHeader_bytes core_emit)
    ultimately show ?thesis using Cons txd by (elim exE) (metis list.distinct(1))
  qed
qed

lemma transmit_locked_spec:
  assumes inv: "send_inv state" and sch: "schedule state = Some sch" and r: "tx_rate sch a = r"
  shows "\<exists>items fu seq state'. transmit_locked mac a sch r state = Some (items, fu, seq, state')
    \<and> send_inv state' \<and> same_config state state' \<and> sends state' = sends state
    \<and> item_bytes items \<le> slot_capacity sch (tx_rate sch a)
    \<and> list_all (\<lambda>item. tr_rate item = tx_rate sch a) items"
proof -
  obtain items s2 where l: "transmit_loop mac a (aggregation_enable state) (aggregation_threshold state)
        (slot_capacity sch r) 0 [] state = Some (items, s2)"
      and i2: "send_inv s2" and cfg2: "same_config state s2"
      and b: "item_bytes items \<le> slot_capacity sch (tx_rate sch a)"
      and rates: "list_all (\<lambda>item. tr_rate item = tx_rate sch a) items"
    using transmit_loop_spec [OF inv sch, of 0 "[]" a mac "aggregation_enable state" "aggregation_threshold state"
        "slot_capacity sch r"] by auto
  define s3 where "s3 = (if items \<noteq> []
     then fold (\<lambda>item. record_packet_accept mac
              (packet_queue DataMessage (pi_priority (tr_info item))) (mac_id mac)
              (pi_destination (tr_info item)) (length (tr_bytes item)) False) items
            (update_aggregation_histogram mac (length items) s2)
     else s2)"
  have c3: "core s3 = core s2" and d3: "sends s3 = sends s2"
    by (simp_all add: s3_def fold_record_accept)
  define s4 where "s4 = (if items \<noteq> [] then s3\<lparr>frame_sequence := frame_sequence s3 + 1\<rparr> else s3)"
  have "same_config s3 s4" by (cases s3) (simp add: s4_def same_config_def core_def)
  then have cfg: "same_config state s4"
    using same_config_trans [OF cfg2] same_config_core(1) [OF c3] by blast
  have "send_inv s3" using i2 send_inv_core [OF c3] by blast
  then have i4: "send_inv s4" by (simp add: s4_def send_inv_def schedule_ok_def tokens_ok_def queued_count_def)
  have d4: "sends s4 = sends state" using d3 sends_transmit_loop [OF l] by (simp add: s4_def sends_def)
  have "\<exists>fu seq. transmit_locked mac a sch r state = Some (items, fu, seq, s4)"
    using l by (simp add: transmit_locked_def Let_def s3_def s4_def)
  with i4 cfg d4 b rates show ?thesis by blast
qed

text \<open>A handler that sends nothing, or one frame whose data fits the slot.\<close>

definition frame_sent :: "TdmaMac \<Rightarrow> Schedule \<Rightarrow> u64 \<Rightarrow> State \<Rightarrow> State \<Rightarrow> bool" where
  "frame_sent mac sch a state state' \<longleftrightarrow>
     sends state' = sends state
     \<or> (\<exists>items p tx header tx_data. items \<noteq> [] \<and> frame_of mac sch a items tx p
         \<and> item_bytes items \<le> slot_capacity sch (tx_rate sch a)
         \<and> sends state' = sends state @ [SendDownstreamPacket p
              [(CONTROL_MODEL_HEADER, header), (CONTROL_TX_PROPERTIES, tx_data)]]
         \<and> TxProperties_encode tx = Some tx_data)"

lemma frame_sent_from: "sends s = sends t \<Longrightarrow> frame_sent mac sch a s x = frame_sent mac sch a t x"
  by (simp add: frame_sent_def)

lemma transmit_on_time_spec:
  assumes inv: "send_inv s1" and sch: "schedule s1 = Some sch" and sl: "slot sch a = Some (TxSlot f r c p d)"
  shows "\<exists>state'. transmit_on_time mac sch a r now s1 = Some state'
    \<and> send_inv state' \<and> same_config s1 state' \<and> frame_sent mac sch a s1 state'"
proof -
  have wf: "wf_schedule sch" using inv sch by (simp add: send_inv_def schedule_ok_def)
  have r: "tx_rate sch a = r" using sl by (simp add: tx_rate_def)
  have r0: "r \<noteq> 0" using wf_slot_slot [OF wf sl] by simp
  obtain items fu seq s4 where l: "transmit_locked mac a sch r s1 = Some (items, fu, seq, s4)"
      and i4: "send_inv s4" and cfg: "same_config s1 s4" and d4: "sends s4 = sends s1"
      and b: "item_bytes items \<le> slot_capacity sch (tx_rate sch a)"
      and rates: "list_all (\<lambda>item. tr_rate item = tx_rate sch a) items"
    using transmit_locked_spec [OF inv sch r] by blast
  obtain s5 where s5: "(case fu of Some tokens \<Rightarrow> send_flow_update mac tokens s4 | None \<Rightarrow> Some s4) = Some s5"
      and c5: "core s5 = core s4" and d5: "sends s5 = sends s4"
  proof (cases fu)
    case (Some t)
    obtain s where s: "send_flow_update mac t s4 = Some s" using flow_update_total by blast
    with Some that core_flow_update [OF s] sends_flow_update [OF s] show ?thesis by simp
  qed simp
  obtain s6 where s6: "send_frame mac a now seq (sch_slot_duration_us sch) items s5 = Some s6"
      and c6: "core s6 = core s5"
      and d6: "sends s6 = sends s5
         \<or> (\<exists>p tx header tx_data. items \<noteq> [] \<and> frame_of mac sch a items tx p
             \<and> sends s6 = sends s5 @ [SendDownstreamPacket p
                  [(CONTROL_MODEL_HEADER, header), (CONTROL_TX_PROPERTIES, tx_data)]]
             \<and> TxProperties_encode tx = Some tx_data)"
    using send_frame_spec [OF wf b rates] r r0 by blast
  have c: "core s6 = core s4" using c5 c6 by simp
  have "send_inv s6" "same_config s1 s6"
    using i4 cfg send_inv_core [OF c] same_config_core(2) [OF c] by blast+
  moreover have "frame_sent mac sch a s1 s6"
    using d6 b unfolding frame_sent_def d5 d4 by blast
  moreover have "transmit_on_time mac sch a r now s1 = Some s6"
    using l s5 s6 by (simp add: transmit_on_time_def)
  ultimately show ?thesis by blast
qed

lemma transmit_slot_spec:
  assumes inv: "send_inv state" and sch: "schedule state = Some sch"
  shows "\<exists>state'. transmit_slot mac a state = Some state' \<and> send_inv state' \<and> same_config state state'
    \<and> frame_sent mac sch a state state'
    \<and> (sends state' \<noteq> sends state \<longrightarrow> absolute_slot sch (fst (now_us mac state)) = Some a)"
proof -
  define now where "now = fst (now_us mac state)"
  define s0 where "s0 = snd (now_us mac state)"
  have n: "now_us mac state = (now, s0)" by (simp add: now_def s0_def)
  have c0: "core s0 = core state" and d0: "sends s0 = sends state" by (simp_all add: s0_def)
  have sch0: "schedule s0 = Some sch" using core_eqD [OF c0] sch by simp
  have wf: "wf_schedule sch" using inv sch by (simp add: send_inv_def schedule_ok_def)
  obtain k where k: "absolute_slot sch now = Some k"
    using wf by (simp add: absolute_slot_def wf_schedule_def)
  define st where "st = (if k = a then TxValid else TxMissed)"
  obtain s1 where s1: "update_tx_slot_status mac a now st s0 = Some s1"
    using tx_status_total [of s0 mac a now st] sch0 wf by auto
  have c1: "core s1 = core state" and d1: "sends s1 = sends state"
    using core_tx_status [OF s1] sends_tx_status [OF s1] c0 d0 by simp_all
  have i1: "send_inv s1" and cfg1: "same_config state s1"
    using inv send_inv_core [OF c1] same_config_core(2) [OF c1, of state] by simp_all
  have sch1: "schedule s1 = Some sch" using core_eqD [OF c1] sch by simp
  obtain sl where sl: "slot sch a = Some sl" using wf_slot_nth [OF wf] by blast
  show ?thesis
  proof (cases "k = a \<and> is_tx sl")
    case False
    have "transmit_slot mac a state = Some s1"
      using False n sch0 k s1 sl sch1 by (cases sl) (auto simp: transmit_slot_def st_def)
    then show ?thesis using i1 cfg1 d1 by (auto simp: frame_sent_def)
  next
    case True
    then obtain f r c p d where tx: "sl = TxSlot f r c p d" by (cases sl) auto
    have eq: "transmit_slot mac a state = transmit_on_time mac sch a r now s1"
      using True n sch0 k s1 sl sch1 tx by (simp add: transmit_slot_def st_def transmit_on_time_def)
    obtain s6 where s6: "transmit_on_time mac sch a r now s1 = Some s6" "send_inv s6" "same_config s1 s6"
        "frame_sent mac sch a s1 s6"
      using transmit_on_time_spec [OF i1 sch1 sl [unfolded tx]] by blast
    have "absolute_slot sch (fst (now_us mac state)) = Some a" using k True by (simp add: now_def)
    then show ?thesis
      using eq s6 same_config_trans [OF cfg1 s6(3)] frame_sent_from [OF d1] by auto
  qed
qed

lemma core_count_overflow [simp]: "core (count_overflow mac i p state) = core state"
  by (simp add: count_overflow_def Let_def)

lemmas count_overflow_fields [simp] = core_count_overflow [THEN core_eqD]

lemma make_room_spec:
  assumes inv: "send_inv state" and i: "i < 5" and depth: "queue_depth state \<noteq> 0"
  shows "\<exists>state'. make_room mac i state = Some state' \<and> send_inv state' \<and> same_config state state'
    \<and> length (queues state' i) < queue_depth state
    \<and> (available_tokens state \<noteq> 0 \<longrightarrow> available_tokens state' \<noteq> 0)
    \<and> (\<forall>j. j \<noteq> i \<longrightarrow> queues state' j = queues state j)
    \<and> (queues state' i = queues state i \<or> (\<exists>k < length (queues state i). queues state' i = remove_nth k (queues state i)))"
proof (cases "length (queues state i) \<ge> queue_depth state")
  case False
  then show ?thesis using inv by (simp add: make_room_def)
next
  case True
  define k where "k = unwrap_or (position (\<lambda>q. qp_fragment_index q = 0) (queues state i)) 0"
  have k: "k < length (queues state i)"
    using True depth position_Some [of "\<lambda>q. qp_fragment_index q = 0" "queues state i"]
    by (cases "position (\<lambda>q. qp_fragment_index q = 0) (queues state i)") (auto simp: k_def unwrap_or_def)
  define s1 where "s1 = count_overflow mac i (qp_packet (queues state i ! k)) (set_queue i (remove_nth k (queues state i)) state)"
  have q1: "queues s1 = (queues state)(i := remove_nth k (queues state i))" by (simp add: s1_def)
  have cfg: "same_config state (credit_token s1)"
    using same_config_core(2) [OF core_count_overflow] by (simp add: s1_def)
  have tok: "available_tokens (credit_token s1) = available_tokens (credit_token state)"
    by (simp add: s1_def credit_token_def)
  have "queued_count (credit_token s1) = queued_count (set_queue i (remove_nth k (queues state i)) state)"
    by (rule queued_count_cong) (simp add: q1)
  then have cnt: "queued_count (credit_token s1) + 1 = queued_count state"
    using queued_count_set_queue [OF i, of "remove_nth k (queues state i)" state] k by (simp add: length_remove_nth)
  have tk: "tokens_ok (credit_token s1)"
    using inv by (intro tokens_ok_credit [OF _ cfg cnt tok]) (simp add: send_inv_def)
  have len: "length (queues state i) = queue_depth state" using True inv i by (auto simp: send_inv_def intro: le_antisym)
  have "send_inv (credit_token s1)"
    using inv tk schedule_ok_config [OF cfg] queue_depth_config [OF cfg] i k len
    by (auto simp: send_inv_def q1 list_all_remove_nth length_remove_nth)
  moreover have "available_tokens (credit_token s1) \<noteq> 0" if a: "available_tokens state \<noteq> 0"
  proof (cases "flow_control_enable state")
    case True
    have "unat (available_tokens state) < unat (flow_control_tokens state)"
      using inv cnt True by (auto simp: send_inv_def tokens_ok_def)
    from credit_token_unat [OF True this] show ?thesis unfolding tok by auto
  qed (use a tok in \<open>simp add: credit_token_def\<close>)
  moreover have "make_room mac i state = Some (credit_token s1)"
    using True k by (simp add: make_room_def Let_def k_def [symmetric] s1_def)
  ultimately show ?thesis
    using cfg q1 k len depth by (auto simp: length_remove_nth)
qed

text \<open>The queue entry of a new packet.\<close>

definition enqueued_state :: "TdmaMac \<Rightarrow> nat \<Rightarrow> OwnedPacket \<Rightarrow> State \<Rightarrow> State \<Rightarrow> bool" where
  "enqueued_state mac i packet state state' \<longleftrightarrow>
     queues state' = (queues state)(i := queues state i @
        [\<lparr>qp_packet = packet, qp_sequence = next_sequence state + 1, qp_offset = 0, qp_fragment_index = 0\<rparr>])
     \<and> next_sequence state' = next_sequence state + 1
     \<and> available_tokens state' = (if flow_control_enable state then available_tokens state - 1 else available_tokens state)
     \<and> same_config (state\<lparr>next_sequence := 0\<rparr>) (state'\<lparr>next_sequence := 0\<rparr>)"

lemma enqueue_packet_spec: "enqueued_state mac i packet state (enqueue_packet mac i packet state)"
proof -
  have *: "same_config (s\<lparr>next_sequence := 0\<rparr>) (t\<lparr>next_sequence := 0\<rparr>) = same_config (s\<lparr>next_sequence := 0\<rparr>) (u\<lparr>next_sequence := 0\<rparr>)"
    if "core t = core u" for s t u
    using that by (cases s; cases t; cases u) (simp add: same_config_def core_def)
  have "same_config (state\<lparr>next_sequence := 0\<rparr>) ((set_queue i q (state\<lparr>available_tokens := a, next_sequence := n\<rparr>))\<lparr>next_sequence := 0\<rparr>)"
    "same_config (state\<lparr>next_sequence := 0\<rparr>) ((set_queue i q (state\<lparr>next_sequence := n\<rparr>))\<lparr>next_sequence := 0\<rparr>)" for q a n
    by (cases state, simp add: same_config_def core_def set_queue_def)+
  then show ?thesis
    by (simp add: enqueued_state_def enqueue_packet_def Let_def * [OF core_publish] * [OF core_counter(2)]
        * [OF core_set_statistics])
qed

lemma enqueued_inv:
  assumes "enqueued_state mac i packet state state'" "send_inv state" "i < 5"
    "length (queues state i) < queue_depth state"
    "flow_control_enable state \<Longrightarrow> available_tokens state \<noteq> 0"
  shows "send_inv state'"
proof -
  note e = assms(1) [unfolded enqueued_state_def]
  have cfg: "same_config (state\<lparr>next_sequence := 0\<rparr>) (state'\<lparr>next_sequence := 0\<rparr>)" using e by simp
  note c = same_configD [OF cfg, simplified]
  have "queued_count state' = queued_count (set_queue i (queues state' i) state)"
    using e by (intro queued_count_cong) simp
  then have cnt: "queued_count state' = queued_count state + 1"
    using queued_count_set_queue [OF assms(3), of "queues state' i" state] e by simp
  have "unat (available_tokens state - 1) = unat (available_tokens state) - 1" if "available_tokens state \<noteq> 0"
    using that by (metis unat_minus_one)
  moreover have "0 < unat (available_tokens state)" if "available_tokens state \<noteq> 0" using that by (simp add: unat_gt_0)
  ultimately have "tokens_ok state'"
    using assms(2,5) e c cnt by (auto simp: send_inv_def tokens_ok_def)
  moreover have "schedule_ok state'" using assms(2) c by (simp add: send_inv_def schedule_ok_def)
  ultimately show ?thesis
    using assms(2-4) e c by (auto simp: send_inv_def packet_ok_def)
qed

lemma downstream_inv:
  assumes "send_inv state"
  shows "\<exists>state'. downstream mac packet state = Some state' \<and> send_inv state'"
proof -
  define i where "i = priority_to_queue (pi_priority (op_info packet))"
  have i: "i < 5" by (simp add: i_def priority_to_queue_less)
  consider "length (op_payload packet) > 64 * 2 ^ 20" | "flow_control_enable state \<and> available_tokens state = 0"
    | "queue_depth state = 0"
    | "length (op_payload packet) \<le> 64 * 2 ^ 20" "flow_control_enable state \<Longrightarrow> available_tokens state \<noteq> 0" "queue_depth state \<noteq> 0"
    by fastforce
  then show ?thesis
  proof cases
    case 4
    obtain s1 where s1: "make_room mac i state = Some s1" "send_inv s1" "same_config state s1"
        "length (queues s1 i) < queue_depth state" "available_tokens state \<noteq> 0 \<longrightarrow> available_tokens s1 \<noteq> 0"
      using make_room_spec [OF assms i 4(3)] by blast
    have "send_inv (enqueue_packet mac i packet s1)"
      using s1(4,5) 4(2) same_configD [OF s1(3)]
      by (intro enqueued_inv [OF enqueue_packet_spec s1(2) i]) auto
    then show ?thesis using 4 s1(1) by (auto simp: downstream_def own_packet_def Let_def i_def)
  qed (use assms send_inv_core [OF core_record_drop] send_inv_core [OF core_count_overflow] in \<open>auto simp: downstream_def own_packet_def Let_def\<close>)
qed

end
