(* ===== verification/Tdma_Receive.thy ===== *)
theory Tdma_Receive
  imports Fragments Tdma_Transmit
begin

text \<open>
  The receiving side of the TDMA radio model (\<^verbatim>\<open>rust/plugins/tdma/src/lib.rs\<close>):
  \<open>upstream\<close> checks a received frame against the schedule and keeps the earliest
  reception of a slot, \<open>complete_receive\<close> at the end of the slot decides its reception
  from the noise and the PCR curve (\<^verbatim>\<open>pcr.rs\<close>), reassembles fragments and delivers.
\<close>


section \<open>Packet completion rate\<close>

definition probability :: "(f64 \<Rightarrow> f64 \<Rightarrow> f64) \<Rightarrow> PcrManager \<Rightarrow> u64 \<Rightarrow> f64 \<Rightarrow> nat \<Rightarrow> f64" where
  "probability powf self rate sinr packet_length =
     (case pcr_curves self rate of
        None \<Rightarrow> 0
      | Some points \<Rightarrow>
          (let p = (case binary_search (map (f64_total_key \<circ> fst) points) (f64_total_key sinr) of
               Inl index \<Rightarrow> snd (points ! index)
             | Inr index \<Rightarrow>
                 if index = 0 then 0
                 else if index = length points then 0x3FF0000000000000
                 else interpolate (points ! (index - 1)) (points ! index) sinr);
               p = (if pcr_packet_size self = 0 then p
                    else powf p (f64_div (f64_of_int (int packet_length)) (f64_of_int (int (pcr_packet_size self)))))
           in f64_clamp 0 0x3FF0000000000000 p))"

definition random_unit :: "u64 \<Rightarrow> f64 \<times> u64" where
  "random_unit s =
     (let s = s XOR push_bit 13 s; s = s XOR drop_bit 7 s; s = s XOR push_bit 17 s
      in (f64_div (f64_of_int (uint s)) (f64_of_int (uint (- 1 :: u64))), s))"


section \<open>upstream\<close>

record RxControls =
  rc_header :: "ModelHeader option"
  rc_rx :: "RxProperties option"
  rc_segments :: "RxFrequencySegment list option"

definition read_control :: "RxControls \<Rightarrow> ControlMessage \<Rightarrow> RxControls panics" where
  "read_control c message =
     (let (msg_type, data) = message
      in if msg_type = CONTROL_MODEL_HEADER then do {
           header \<leftarrow> ModelHeader_decode data; Some (c\<lparr>rc_header := header\<rparr>) }
         else if msg_type = CONTROL_RX_PROPERTIES then do {
           rx \<leftarrow> RxProperties_decode data; Some (c\<lparr>rc_rx := rx\<rparr>) }
         else if msg_type = CONTROL_RX_FREQUENCY_SEGMENTS then do {
           segments \<leftarrow> RxFrequencySegments_decode data; Some (c\<lparr>rc_segments := segments\<rparr>) }
         else Some c)"

fun read_controls :: "RxControls \<Rightarrow> ControlMessage list \<Rightarrow> RxControls panics" where
  "read_controls c [] = Some c"
| "read_controls c (m # ms) = do { c \<leftarrow> read_control c m; read_controls c ms }"

text \<open>The envelope of the payload: a big-endian length and that many bytes of protobuf; the
  frame must also be one the framework may pass on.\<close>

definition read_wire :: "Env \<Rightarrow> byte list \<Rightarrow> (nat \<times> TdmaBaseModelMessage) option" where
  "read_wire env payload =
     (if length payload < 2 then None
      else (let serialization_len = unat (of_be_bytes (take 2 payload) :: u16)
            in if serialization_len = 0 \<or> length payload < serialization_len + 2 then None
               else map_option (\<lambda>wire. (serialization_len, wire))
                      (env_decode_message env (take serialization_len (drop 2 payload)))))"

definition schedule_timer :: "TdmaMac \<Rightarrow> i64 \<Rightarrow> u32 \<Rightarrow> byte list \<Rightarrow> State \<Rightarrow> u64 \<times> State" where
  "schedule_timer mac when event data state =
     (let when = (if sint when < 0 then 0 else when)
      in (env_schedule_timed_event (mac_env mac)
            (effects state @ [ScheduleTimedEvent (when div 1000000) (ucast (when mod 1000000)) event data]),
          emit (ScheduleTimedEvent (when div 1000000) (ucast (when mod 1000000)) event data) state))"

text \<open>A frame that passed all checks: the earliest start of reception in the slot wins.\<close>

definition accept_reception :: "TdmaMac \<Rightarrow> Schedule \<Rightarrow> u64 \<Rightarrow> i64 \<Rightarrow> PendingReception \<Rightarrow> State \<Rightarrow> State panics" where
  "accept_reception mac sch current_slot now pending state =
     (case pending_rx state current_slot of
        Some previous \<Rightarrow>
          (let state = (if sint (fsq_start_time_microseconds (pr_spectrum_query pending))
                           < sint (fsq_start_time_microseconds (pr_spectrum_query previous))
                        then state\<lparr>pending_rx := (pending_rx state)(current_slot \<mapsto> pending)\<rparr> else state)
           in update_rx_slot_status mac current_slot current_slot now RxLock state)
      | None \<Rightarrow> do {
          let state = state\<lparr>pending_rx := (pending_rx state)(current_slot \<mapsto> pending)\<rparr>;
          state \<leftarrow> update_rx_slot_status mac current_slot current_slot now RxValid state;
          let slot_end = slot_start sch (saturating_add current_slot 1);
          let (timer, state) = schedule_timer mac slot_end TIMER_RX_COMPLETE (be_bytes 8 current_slot) state;
          if timer \<noteq> 0
          then Some (state\<lparr>timers := AList.update timer TIMER_RX_COMPLETE (timers state)\<rparr>)
          else (case pending_rx state current_slot of
              Some pending \<Rightarrow> Some (record_all_message_drops mac (pi_source (pr_info pending))
                  (bm_messages (pr_wire pending)) DropBadControl
                  (state\<lparr>pending_rx := (pending_rx state)(current_slot := None)\<rparr>))
            | None \<Rightarrow> Some state) })"

text \<open>The checks of a frame against the schedule, in the order of the code.\<close>

definition receive_frame ::
  "TdmaMac \<Rightarrow> Schedule \<Rightarrow> i64 \<Rightarrow> RxProperties \<Rightarrow> FfiSpectrumQuery \<Rightarrow> PendingReception \<Rightarrow> State \<Rightarrow> State panics" where
  "receive_frame mac sch now rx query pending state =
     (let wire = pr_wire pending;
          drop_all = record_all_message_drops mac (pi_source (pr_info pending)) (bm_messages wire);
          start_of_reception = fsq_start_time_microseconds query;
          end_of_reception = i64_saturating_add start_of_reception
             (i64_from_u64_or_max (rxp_duration_microseconds rx));
          last_microsecond = (if rxp_duration_microseconds rx = 0 then start_of_reception
             else i64_saturating_sub end_of_reception 1)
      in do {
        last_slot \<leftarrow> absolute_slot sch last_microsecond;
        current_slot \<leftarrow> absolute_slot sch now;
        if last_slot \<noteq> bm_absolute_slot_index wire then do {
          state \<leftarrow> update_rx_slot_status mac current_slot current_slot now RxTooLong state;
          Some (drop_all DropTooLong state) }
        else if current_slot \<noteq> bm_absolute_slot_index wire then do {
          sl \<leftarrow> slot sch (bm_absolute_slot_index wire);
          state \<leftarrow> update_rx_slot_status mac current_slot (bm_absolute_slot_index wire) now
             (case sl of RxSlot _ \<Rightarrow> RxMissed | IdleSlot \<Rightarrow> RxIdle | TxSlot _ _ _ _ _ \<Rightarrow> RxTx) state;
          Some (drop_all DropSlotError state) }
        else do {
          sl \<leftarrow> slot sch current_slot;
          (case sl of
             IdleSlot \<Rightarrow> do {
               state \<leftarrow> update_rx_slot_status mac current_slot current_slot now RxIdle state;
               Some (drop_all DropSlotError state) }
           | TxSlot _ _ _ _ _ \<Rightarrow> do {
               state \<leftarrow> update_rx_slot_status mac current_slot current_slot now RxTx state;
               Some (drop_all DropSlotError state) }
           | RxSlot frequency_hz \<Rightarrow>
               if frequency_hz \<noteq> fsq_frequency_hz query then do {
                 state \<leftarrow> update_rx_slot_status mac current_slot current_slot now RxWrongFrequency state;
                 Some (drop_all DropFrequency state) }
               else accept_reception mac sch current_slot now pending state) } })"

definition upstream :: "TdmaMac \<Rightarrow> OwnedPacket \<Rightarrow> ControlMessage list \<Rightarrow> State \<Rightarrow> State panics" where
  "upstream mac packet messages state =
     (case own_packet packet of None \<Rightarrow> Some state | Some packet \<Rightarrow>
      if length messages > 4096 then Some state else
      (case read_wire (mac_env mac) (op_payload packet) of None \<Rightarrow> Some state | Some (serialization_len, wire) \<Rightarrow> do {
        c \<leftarrow> read_controls \<lparr>rc_header = None, rc_rx = None, rc_segments = None\<rparr> messages;
        let drop_all = record_all_message_drops mac (pi_source (op_info packet)) (bm_messages wire);
        if \<not> started state then Some state
        else (case rc_header c of None \<Rightarrow> Some (drop_all DropBadControl state) | Some model \<Rightarrow>
              (case rc_rx c of None \<Rightarrow> Some (drop_all DropBadControl state) | Some rx \<Rightarrow>
               if mh_registration_id model \<noteq> MAC_REGISTRATION_TDMA then Some (drop_all DropRegistrationId state)
               else if bm_data_rate_bps wire = 0 then Some (drop_all DropBadControl state)
               else (case schedule state of None \<Rightarrow> Some state | Some sch \<Rightarrow>
                     (let (now, state) = now_us mac state;
                          query = FfiSpectrumQuery_from_rx rx
                            (Option.bind (rc_segments c) (\<lambda>segments. case segments of [] \<Rightarrow> None | s # _ \<Rightarrow> Some s))
                      in receive_frame mac sch now rx query
                           \<lparr>pr_info = op_info packet, pr_wire = wire, pr_model_sequence = mh_sequence model,
                            pr_packet_len = serialization_len, pr_spectrum_query = query\<rparr> state)))) }))"


section \<open>Reassembly\<close>

text \<open>\<open>pieces.entry(offset).or_insert(data)\<close> on ascending keys.\<close>

fun insert_piece :: "nat \<Rightarrow> byte list \<Rightarrow> (nat \<times> byte list) list \<Rightarrow> (nat \<times> byte list) list" where
  "insert_piece off data [] = [(off, data)]"
| "insert_piece off data ((o', d) # ps) =
     (if off < o' then (off, data) # (o', d) # ps
      else if off = o' then (o', d) # ps
      else (o', d) # insert_piece off data ps)"

text \<open>The loop over the pieces: the bytes up to the first gap.\<close>

fun assemble :: "nat \<Rightarrow> byte list \<Rightarrow> (nat \<times> byte list) list \<Rightarrow> nat \<times> byte list" where
  "assemble expected assembled [] = (expected, assembled)"
| "assemble expected assembled ((off, piece) # ps) =
     (if off \<noteq> expected then (expected, assembled)
      else assemble (expected + length piece) (assembled @ piece) ps)"

text \<open>A fragment added to its entry: the entry, and the packet when it is complete.\<close>

definition add_fragment ::
  "i64 \<Rightarrow> TdmaMessageType \<Rightarrow> FfiPacketInfo \<Rightarrow> TdmaFragment \<Rightarrow> byte list \<Rightarrow> Reassembly option
   \<Rightarrow> Reassembly \<times> OwnedPacket option" where
  "add_fragment now message_type info fragment data existing =
     (let offset = unat (tf_offset fragment);
          entry = unwrap_or existing
            \<lparr>ra_info = info, ra_message_type = message_type, ra_total_len = None, ra_pieces = [],
             ra_last_update_us = now\<rparr>;
          entry = entry\<lparr>ra_last_update_us := now, ra_pieces := insert_piece offset data (ra_pieces entry)\<rparr>;
          entry = (if tf_more fragment then entry
                   else entry\<lparr>ra_total_len := map_option (\<lambda>piece. saturating_add_usize offset (length piece))
                          (map_of (ra_pieces entry) offset)\<rparr>);
          (expected, assembled) = assemble 0 [] (ra_pieces entry)
      in (entry, if ra_total_len entry = Some expected
                 then Some \<lparr>op_info = ra_info entry, op_payload = assembled\<rparr> else None))"

definition expire_entry :: "TdmaMac \<Rightarrow> (u16 \<times> u8 \<times> u64) \<Rightarrow> State \<Rightarrow> State" where
  "expire_entry mac key state =
     (case map_of (reassembly state) key of
        None \<Rightarrow> state
      | Some entry \<Rightarrow>
          record_packet_drop mac (packet_queue (ra_message_type entry) (pi_priority (ra_info entry))) (fst key)
            (pi_destination (ra_info entry)) (sum_list (map (length \<circ> snd) (ra_pieces entry))) DropMissingFragment
            (state\<lparr>reassembly := AList.delete key (reassembly state)\<rparr>))"

definition expire_reassembly :: "TdmaMac \<Rightarrow> i64 \<Rightarrow> State \<Rightarrow> State" where
  "expire_reassembly mac now state =
     (let timeout = fragment_timeout_us state;
          expired = map fst (filter (\<lambda>(key, entry).
            sint (i64_saturating_sub now (ra_last_update_us entry)) \<ge> sint timeout) (reassembly state))
      in fold (expire_entry mac) expired state)"


section \<open>complete\_receive\<close>

text \<open>One message of a received frame; the deliveries are collected in order.\<close>

definition receive_message ::
  "TdmaMac \<Rightarrow> i64 \<Rightarrow> FfiPacketInfo \<Rightarrow> TdmaMessage \<Rightarrow> State \<times> OwnedPacket list \<Rightarrow> State \<times> OwnedPacket list" where
  "receive_message mac now frame_info message acc =
     (let (state, deliveries) = acc
      in case (TdmaMessageType_try_from (tm_message_type message), u16_of_u32 (tm_destination message),
               u8_of_u32 (tm_priority message)) of
        (Some message_type, Some destination, Some priority) \<Rightarrow>
          if \<not> promiscuous state \<and> destination \<noteq> mac_id mac \<and> destination \<noteq> BROADCAST_NEM
          then (record_packet_drop mac (packet_queue message_type priority) (pi_source frame_info) destination
                  (length (tm_data message)) DropDestination state, deliveries)
          else
            (let info = frame_info\<lparr>pi_destination := destination, pi_priority := priority\<rparr>;
                 finish = (\<lambda>complete state.
                   (let state = record_packet_accept mac
                          (packet_queue message_type (pi_priority (op_info complete))) (pi_source info)
                          (pi_destination (op_info complete)) (length (op_payload complete)) True state
                    in (state, if message_type = ControlMsg then deliveries else deliveries @ [complete])))
             in case tm_fragment message of
                  None \<Rightarrow> finish \<lparr>op_info = info, op_payload = tm_data message\<rparr> state
                | Some fragment \<Rightarrow>
                    if saturating_add_usize (unat (tf_offset fragment)) (length (tm_data message)) > 64 * 2 ^ 20
                    then (state, deliveries)
                    else
                      (let key = (pi_source info, priority, tf_sequence fragment);
                           (entry, complete) = add_fragment now message_type info fragment (tm_data message)
                             (map_of (reassembly state) key)
                       in case complete of
                            None \<Rightarrow> (state\<lparr>reassembly := AList.update key entry (reassembly state)\<rparr>, deliveries)
                          | Some packet \<Rightarrow>
                              finish packet (state\<lparr>reassembly := AList.delete key (reassembly state)\<rparr>)))
      | _ \<Rightarrow> (state, deliveries))"

definition complete_receive :: "TdmaMac \<Rightarrow> u64 \<Rightarrow> State \<Rightarrow> State" where
  "complete_receive mac absolute state =
     (case pending_rx state absolute of
        None \<Rightarrow> state
      | Some pending \<Rightarrow>
          (let state = state\<lparr>pending_rx := (pending_rx state)(absolute := None)\<rparr>
           in if \<not> started state then state
              else
                (let query = pr_spectrum_query pending;
                     wire = pr_wire pending;
                     info = pr_info pending;
                     noise = env_reception_noise (mac_env mac) (effects state) query;
                     state = emit (ReceptionNoise query) state
                 in case noise of
                      None \<Rightarrow> record_all_message_drops mac (pi_source info) (bm_messages wire) DropBadSpectrumQuery state
                    | Some spectrum \<Rightarrow>
                        (let (now, state) = now_us mac state;
                             sinr = f64_sub (fsq_rx_power_dbm query) (fsr_noise_floor_dbm spectrum);
                             (received, state) =
                               (case pcr state of
                                  None \<Rightarrow> (True, state)
                                | Some curve \<Rightarrow>
                                    (let p = probability (env_powf (mac_env mac)) curve (bm_data_rate_bps wire) sinr
                                               (pr_packet_len pending);
                                         (r, s) = random_unit (random_state state)
                                     in (\<not> f64_lt p r, state\<lparr>random_state := s\<rparr>)))
                         in if \<not> received
                            then record_all_message_drops mac (pi_source info) (bm_messages wire) DropSinr state
                            else
                              (let state = expire_reassembly mac now state;
                                   (state, deliveries) =
                                     fold (receive_message mac now info) (bm_messages wire) (state, []);
                                   state = emit (UpdateNeighborRx (pi_source info) (pr_model_sequence pending) sinr
                                     (fsr_noise_floor_dbm spectrum) (if sint now < 0 then 0 else now)
                                     (fsq_duration_microseconds query) (bm_data_rate_bps wire)) state
                               in fold (\<lambda>packet. emit (SendUpstreamPacket packet)) deliveries state)))))"


section \<open>Reassembly in any order\<close>

lemma insert_piece_filter:
  "contiguous n frs \<Longrightarrow> (off, b) \<in> set frs \<Longrightarrow>
   insert_piece off b (filter (\<lambda>x. x \<in> S) frs) = filter (\<lambda>x. x \<in> insert (off, b) S) frs"
proof (induction n frs rule: contiguous.induct)
  case (2 n o' piece ps)
  note ge = contiguous_ge [of "n + length piece" ps]
  show ?case
  proof (cases "(off, b) \<in> set ps")
    case True
    then have "n < off" using ge [of off b] 2 by (cases piece) auto
    with 2 True show ?thesis by auto
  next
    case False
    then have ob: "off = n" "b = piece" "o' = n" using 2 by auto
    have f: "filter (\<lambda>x. x = (n, piece) \<or> x \<in> S) ps = filter (\<lambda>x. x \<in> S) ps"
      using False ob by (auto intro!: filter_cong)
    show ?thesis
    proof (cases "filter (\<lambda>x. x \<in> S) ps")
      case (Cons y ys)
      then have "y \<in> set ps" by (metis filter_is_subset list.set_intros(1) subsetD)
      then have "n < fst y" using ge [of "fst y" "snd y"] 2 by (cases piece) auto
      then show ?thesis using ob Cons f by (cases y) auto
    qed (use ob f in auto)
  qed
qed simp

lemma assemble_all: "contiguous n frs \<Longrightarrow> assemble n acc frs = (n + length (concat (map snd frs)), acc @ concat (map snd frs))"
  by (induction n frs arbitrary: acc rule: contiguous.induct) auto

lemma assemble_gap:
  "contiguous n frs \<Longrightarrow> \<not> set frs \<subseteq> S \<Longrightarrow>
   fst (assemble n acc (filter (\<lambda>x. x \<in> S) frs)) < n + length (concat (map snd frs))"
proof (induction n frs arbitrary: acc rule: contiguous.induct)
  case (2 n o' piece ps)
  show ?case
  proof (cases "(o', piece) \<in> S")
    case True
    with 2 show ?thesis by (auto simp: add.assoc)
  next
    case False
    have "fst (assemble n acc (filter (\<lambda>x. x \<in> S) ps)) = n"
    proof (cases "filter (\<lambda>x. x \<in> S) ps")
      case (Cons y ys)
      then have "y \<in> set ps" by (metis filter_is_subset list.set_intros(1) subsetD)
      then have "n < fst y" using contiguous_ge [of "n + length piece" ps "fst y" "snd y"] 2 by (cases piece) auto
      with Cons show ?thesis by (cases y) simp
    qed simp
    with False 2 show ?thesis by (cases piece) auto
  qed
qed simp

text \<open>The entry of a packet of which the pieces of a set have arrived.\<close>

definition entry_has :: "(FfiPacketInfo \<Rightarrow> bool) \<Rightarrow> byte list \<Rightarrow> (nat \<times> byte list) list \<Rightarrow> (nat \<times> byte list) set \<Rightarrow> Reassembly option \<Rightarrow> bool" where
  "entry_has P payload frs S e \<longleftrightarrow>
     (case e of
        None \<Rightarrow> S = {}
      | Some entry \<Rightarrow> ra_pieces entry = filter (\<lambda>x. x \<in> S) frs \<and> P (ra_info entry)
          \<and> ra_total_len entry = (if last frs \<in> S then Some (length payload) else None))"

definition fragment_of :: "byte list \<Rightarrow> (nat \<times> byte list) \<Rightarrow> TdmaFragment \<Rightarrow> bool" where
  "fragment_of payload x f \<longleftrightarrow>
     unat (tf_offset f) = fst x \<and> tf_more f = (fst x + length (snd x) < length payload)"

lemma add_fragment_step:
  assumes frs: "fragmentation payload frs" and len: "length payload \<le> usize_max" and x: "x \<in> set frs"
    and e: "entry_has P payload frs S e" and f: "fragment_of payload x f" and P: "P info"
  shows "\<exists>entry c. add_fragment now mt info f (snd x) e = (entry, c)
    \<and> entry_has P payload frs (insert x S) (Some entry)
    \<and> c = (if set frs \<subseteq> insert x S then Some \<lparr>op_info = ra_info entry, op_payload = payload\<rparr> else None)"
proof -
  obtain off b where xb: "x = (off, b)" by (cases x)
  have c: "contiguous 0 frs" and p: "concat (map snd frs) = payload" using frs by (auto simp: fragmentation_def)
  have ff: "unat (tf_offset f) = off" "tf_more f = (off + length b < length payload)" using f xb by (auto simp: fragment_of_def)
  note fin = contiguous_end [OF c x [unfolded xb], unfolded p]
  let ?S = "insert x S"
  define e0 where "e0 = unwrap_or e \<lparr>ra_info = info, ra_message_type = mt, ra_total_len = None, ra_pieces = [], ra_last_update_us = now\<rparr>"
  have e0: "ra_pieces e0 = filter (\<lambda>x. x \<in> S) frs" "P (ra_info e0)"
      "ra_total_len e0 = (if last frs \<in> S then Some (length payload) else None)"
    using e P by (auto simp: entry_has_def e0_def unwrap_or_def split: option.splits)
  have ins: "insert_piece off b (filter (\<lambda>x. x \<in> S) frs) = filter (\<lambda>x. x \<in> ?S) frs"
    using insert_piece_filter [OF c x [unfolded xb], of S] by (simp add: xb)
  have look: "map_of (filter (\<lambda>x. x \<in> ?S) frs) off = Some b"
    using x xb by (intro map_of_filter_mem contiguous_distinct [OF c]) auto
  have tot: "(if tf_more f then ra_total_len e0 else Some (saturating_add_usize off (length b)))
      = (if last frs \<in> ?S then Some (length payload) else None)"
  proof (cases "off + length b = length payload")
    case True
    then have "x = last frs" using fin xb by simp
    with True ff(2) len show ?thesis by (simp add: saturating_add_usize_def)
  next
    case False
    then have "x \<noteq> last frs" "off + length b < length payload" using fin xb by auto
    with ff(2) e0(3) show ?thesis by simp
  qed
  define e1 where "e1 = e0\<lparr>ra_last_update_us := now, ra_pieces := filter (\<lambda>x. x \<in> ?S) frs,
     ra_total_len := (if last frs \<in> ?S then Some (length payload) else None)\<rparr>"
  obtain ex as where asm: "assemble 0 [] (filter (\<lambda>x. x \<in> ?S) frs) = (ex, as)" by fastforce
  have "add_fragment now mt info f (snd x) e =
      (e1, if ra_total_len e1 = Some ex then Some \<lparr>op_info = ra_info e0, op_payload = as\<rparr> else None)"
    using e0 ins look tot asm
    by (auto simp: add_fragment_def Let_def e0_def [symmetric] e1_def ff(1) xb split: if_splits)
  moreover have "entry_has P payload frs ?S (Some e1)" using e0 by (simp add: entry_has_def e1_def)
  moreover have "(if ra_total_len e1 = Some ex then Some \<lparr>op_info = ra_info e0, op_payload = as\<rparr> else None)
      = (if set frs \<subseteq> ?S then Some \<lparr>op_info = ra_info e0, op_payload = payload\<rparr> else None)"
  proof (cases "set frs \<subseteq> ?S")
    case True
    then have "filter (\<lambda>x. x \<in> ?S) frs = frs" by (auto intro: filter_True)
    then have "ex = length payload" "as = payload" using asm assemble_all [OF c, of "[]"] p by auto
    moreover have "last frs \<in> ?S" using True frs last_in_set [of frs] unfolding fragmentation_def by blast
    ultimately show ?thesis using True by (simp add: e1_def)
  next
    case False
    then have "ex < length payload" using assemble_gap [OF c False, of "[]"] asm p by simp
    then show ?thesis using False by (simp add: e1_def)
  qed
  moreover have "ra_info e1 = ra_info e0" by (simp add: e1_def)
  ultimately show ?thesis by auto
qed

section \<open>Expiry\<close>

lemma expire_entry_map:
  "map_of (reassembly (expire_entry mac key state)) k = (if k = key then None else map_of (reassembly state) k)"
proof (cases "map_of (reassembly state) key")
  case (Some e)
  let ?s = "state\<lparr>reassembly := AList.delete key (reassembly state)\<rparr>"
  have "reassembly (record_packet_drop mac q s d n r ?s) = AList.delete key (reassembly state)" for q s d n r
    using core_eqD [OF core_record_drop [of mac q s d n r ?s]] by simp
  with Some show ?thesis by (simp add: expire_entry_def delete_conv')
qed (simp add: expire_entry_def)

lemma expire_entries_map:
  "map_of (reassembly (fold (expire_entry mac) ks state)) k = (if k \<in> set ks then None else map_of (reassembly state) k)"
  by (induction ks arbitrary: state) (simp_all add: expire_entry_map)

text \<open>The reassembly check drops exactly the partial packets whose last fragment is at least the
  configured timeout old, and keeps the others unchanged.\<close>

lemma expire_reassembly_exact:
  assumes "distinct (map fst (reassembly state))"
  shows "map_of (reassembly (expire_reassembly mac now state)) k =
    (case map_of (reassembly state) k of
       None \<Rightarrow> None
     | Some e \<Rightarrow>
         if sint (i64_saturating_sub now (ra_last_update_us e)) \<ge> sint (fragment_timeout_us state) then None else Some e)"
proof -
  let ?old = "\<lambda>(key, entry). sint (i64_saturating_sub now (ra_last_update_us entry)) \<ge> sint (fragment_timeout_us state)"
  have "k \<in> fst ` set (filter ?old (reassembly state)) \<longleftrightarrow>
      (case map_of (reassembly state) k of None \<Rightarrow> False | Some e \<Rightarrow> ?old (k, e))"
  proof (cases "map_of (reassembly state) k")
    case None
    then have "k \<notin> fst ` set (reassembly state)" by (simp add: map_of_eq_None_iff)
    then show ?thesis unfolding None by auto
  next
    case (Some e)
    then have "(k, x) \<in> set (reassembly state) \<longleftrightarrow> x = e" for x
      using assms by (metis map_of_eq_Some_iff option.inject)
    note mem = this
    have "k \<in> fst ` set (filter ?old xs) \<longleftrightarrow> (\<exists>x. (k, x) \<in> set xs \<and> ?old (k, x))"
        for xs :: "((u16 \<times> u8 \<times> u64) \<times> Reassembly) list"
      by (induction xs) auto
    from this [of "reassembly state"] have "k \<in> fst ` set (filter ?old (reassembly state)) \<longleftrightarrow> (\<exists>x. x = e \<and> ?old (k, x))"
      unfolding mem .
    then show ?thesis unfolding Some by simp
  qed
  then show ?thesis
    by (simp add: expire_reassembly_def Let_def expire_entries_map split: option.splits)
qed

section \<open>Frames\<close>

definition key_of :: "FfiPacketInfo \<Rightarrow> TdmaMessage \<Rightarrow> (u16 \<times> u8 \<times> u64) option" where
  "key_of info message =
     (case (u8_of_u32 (tm_priority message), tm_fragment message) of
        (Some priority, Some fragment) \<Rightarrow> Some (pi_source info, priority, tf_sequence fragment)
      | _ \<Rightarrow> None)"

lemma receive_message_other:
  assumes "key_of info m \<noteq> Some k"
  shows "map_of (reassembly (fst (receive_message mac now info m (state, ds)))) k = map_of (reassembly state) k"
proof (cases "TdmaMessageType_try_from (tm_message_type m) = None \<or> u16_of_u32 (tm_destination m) = None \<or> u8_of_u32 (tm_priority m) = None \<or> tm_fragment m = None")
  case True
  then show ?thesis by (auto simp: receive_message_def Let_def split: option.split)
next
  case False
  then obtain t d p f where "TdmaMessageType_try_from (tm_message_type m) = Some t" "u16_of_u32 (tm_destination m) = Some d"
     "u8_of_u32 (tm_priority m) = Some p" and f: "tm_fragment m = Some f" by auto
  moreover then have "(pi_source info, p, tf_sequence f) \<noteq> k" using assms by (auto simp: key_of_def)
  ultimately show ?thesis
    by (simp add: receive_message_def Let_def update_conv' delete_conv' split: option.split prod.split)
qed

text \<open>A message that carries one fragment of a data packet for this node.\<close>

definition carries :: "TdmaMac \<Rightarrow> bool \<Rightarrow> (u16 \<times> u8 \<times> u64) \<Rightarrow> u16 \<Rightarrow> byte list \<Rightarrow> (nat \<times> byte list) \<Rightarrow> FfiPacketInfo \<Rightarrow> TdmaMessage \<Rightarrow> bool" where
  "carries mac promisc k d payload x info m \<longleftrightarrow>
     tm_message_type m = 1 \<and> u16_of_u32 (tm_destination m) = Some d \<and> key_of info m = Some k
     \<and> (promisc \<or> d = mac_id mac \<or> d = BROADCAST_NEM)
     \<and> tm_data m = snd x \<and> (\<exists>f. tm_fragment m = Some f \<and> fragment_of payload x f)"

definition info_for :: "(u16 \<times> u8 \<times> u64) \<Rightarrow> u16 \<Rightarrow> FfiPacketInfo \<Rightarrow> bool" where
  "info_for k d info \<longleftrightarrow> pi_source info = fst k \<and> pi_priority info = fst (snd k) \<and> pi_destination info = d"

lemma receive_message_fragment:
  assumes frs: "fragmentation payload frs" and len: "length payload \<le> 64 * 2 ^ 20" and x: "x \<in> set frs"
    and e: "entry_has (info_for k d) payload frs S (map_of (reassembly state) k)"
    and m: "carries mac (promiscuous state) k d payload x info m"
  shows "\<exists>state' i. info_for k d i
    \<and> receive_message mac now info m (state, ds) =
        (state', if set frs \<subseteq> insert x S then ds @ [\<lparr>op_info = i, op_payload = payload\<rparr>] else ds)
    \<and> (if set frs \<subseteq> insert x S then map_of (reassembly state') k = None
       else entry_has (info_for k d) payload frs (insert x S) (map_of (reassembly state') k))"
proof -
  obtain p f where p: "u8_of_u32 (tm_priority m) = Some p" and f: "tm_fragment m = Some f" "fragment_of payload x f"
      and k: "k = (pi_source info, p, tf_sequence f)"
    using m by (auto simp: carries_def key_of_def split: option.splits)
  define info' where "info' = info\<lparr>pi_destination := d, pi_priority := p\<rparr>"
  have P: "info_for k d info'" by (simp add: info_for_def info'_def k)
  have k': "(pi_source info', p, tf_sequence f) = k" by (simp add: info'_def k)
  have um: "length payload \<le> usize_max" using len by (simp add: usize_max_def)
  obtain entry c where a: "add_fragment now DataMessage info' f (snd x) (map_of (reassembly state) k) = (entry, c)"
      and h: "entry_has (info_for k d) payload frs (insert x S) (Some entry)"
      and c: "c = (if set frs \<subseteq> insert x S then Some \<lparr>op_info = ra_info entry, op_payload = payload\<rparr> else None)"
    using add_fragment_step [OF frs um x e f(2) P] by blast
  have fits: "\<not> saturating_add_usize (unat (tf_offset f)) (length (snd x)) > 64 * 2 ^ 20"
    using contiguous_end [of 0 frs "fst x" "snd x"] frs x len f(2)
    by (auto simp: fragmentation_def fragment_of_def saturating_add_usize_def)
  have i: "info_for k d (ra_info entry)" using h by (simp add: entry_has_def)
  have t: "TdmaMessageType_try_from (tm_message_type m) = Some DataMessage" "u16_of_u32 (tm_destination m) = Some d"
      "\<not> (\<not> promiscuous state \<and> d \<noteq> mac_id mac \<and> d \<noteq> BROADCAST_NEM)" "tm_data m = snd x"
    using m by (auto simp: carries_def TdmaMessageType_try_from_def)
  show ?thesis
  proof (cases "set frs \<subseteq> insert x S")
    case True
    have "\<exists>s'. receive_message mac now info m (state, ds) = (s', ds @ [\<lparr>op_info = ra_info entry, op_payload = payload\<rparr>])
        \<and> map_of (reassembly s') k = None"
      using True t p f(1) a c fits unfolding receive_message_def
      by (simp add: Let_def info'_def [symmetric] k' delete_conv')
    with True i show ?thesis by auto
  next
    case False
    have "receive_message mac now info m (state, ds) = (state\<lparr>reassembly := AList.update k entry (reassembly state)\<rparr>, ds)"
      using False t p f(1) a c fits unfolding receive_message_def
      by (auto simp: Let_def info'_def [symmetric] k')
    with False h i show ?thesis by (auto simp: update_conv')
  qed
qed

text \<open>What reaches the reassembly of a node: a message, with its time and the header of its frame, or a check
  for old partial packets, which \<open>complete_receive\<close> makes before the messages of a frame and the
  reassembly timer makes by itself.\<close>

datatype RxEvent = RxMessage i64 FfiPacketInfo TdmaMessage | RxCheck i64

fun receive_step :: "TdmaMac \<Rightarrow> RxEvent \<Rightarrow> State \<times> OwnedPacket list \<Rightarrow> State \<times> OwnedPacket list" where
  "receive_step mac (RxMessage now info m) acc = receive_message mac now info m acc"
| "receive_step mac (RxCheck now) acc = (expire_reassembly mac now (fst acc), snd acc)"

definition receive_all :: "TdmaMac \<Rightarrow> RxEvent list \<Rightarrow> State \<times> OwnedPacket list \<Rightarrow> State \<times> OwnedPacket list" where
  "receive_all mac evs acc = fold (receive_step mac) evs acc"

text \<open>The events of a frame are what \<open>complete_receive\<close> does with it.\<close>

definition frame_events :: "i64 \<Rightarrow> FfiPacketInfo \<Rightarrow> TdmaMessage list \<Rightarrow> RxEvent list" where
  "frame_events now info ms = RxCheck now # map (RxMessage now info) ms"

lemma receive_all_frame:
  "receive_all mac (frame_events now info ms) (state, ds) = fold (receive_message mac now info) ms (expire_reassembly mac now state, ds)"
proof -
  have "receive_step mac \<circ> RxMessage now info = receive_message mac now info" by (simp add: fun_eq_iff)
  then show ?thesis by (simp add: receive_all_def frame_events_def fold_map)
qed

lemma receive_all_append: "receive_all mac (xs @ ys) acc = receive_all mac ys (receive_all mac xs acc)"
  by (simp add: receive_all_def)

fun carried_by :: "TdmaMac \<Rightarrow> bool \<Rightarrow> (u16 \<times> u8 \<times> u64) \<Rightarrow> u16 \<Rightarrow> byte list \<Rightarrow> (nat \<times> byte list) \<Rightarrow> RxEvent \<Rightarrow> bool" where
  "carried_by mac b k d payload x (RxMessage now info m) \<longleftrightarrow> carries mac b k d payload x info m"
| "carried_by mac b k d payload x (RxCheck now) \<longleftrightarrow> False"

text \<open>The times at which messages with the key arrive; a check is in time when it is made less than the
  timeout after each of them.\<close>

definition key_times :: "(u16 \<times> u8 \<times> u64) \<Rightarrow> RxEvent list \<Rightarrow> i64 set" where
  "key_times k evs = {t. \<exists>i m. RxMessage t i m \<in> set evs \<and> key_of i m = Some k}"

definition in_time :: "i64 \<Rightarrow> i64 set \<Rightarrow> i64 \<Rightarrow> bool" where
  "in_time timeout ts now \<longleftrightarrow> (\<forall>t \<in> ts. sint (i64_saturating_sub now t) < sint timeout)"

fun foreign :: "i64 \<Rightarrow> i64 set \<Rightarrow> (u16 \<times> u8 \<times> u64) \<Rightarrow> RxEvent \<Rightarrow> bool" where
  "foreign timeout ts k (RxMessage now info m) \<longleftrightarrow> key_of info m \<noteq> Some k"
| "foreign timeout ts k (RxCheck now) \<longleftrightarrow> in_time timeout ts now"

text \<open>The pieces of a packet among the events.\<close>

definition pieces_in :: "TdmaMac \<Rightarrow> bool \<Rightarrow> (u16 \<times> u8 \<times> u64) \<Rightarrow> u16 \<Rightarrow> byte list \<Rightarrow> (nat \<times> byte list) list
    \<Rightarrow> RxEvent list \<Rightarrow> (nat \<times> byte list) set" where
  "pieces_in mac promisc k d payload frs evs = {x \<in> set frs. \<exists>ev \<in> set evs. carried_by mac promisc k d payload x ev}"

text \<open>Events that bring a fragment of the packet, or nothing with its key, or a check in time.\<close>

definition own_or_other :: "TdmaMac \<Rightarrow> bool \<Rightarrow> i64 \<Rightarrow> i64 set \<Rightarrow> (u16 \<times> u8 \<times> u64) \<Rightarrow> u16 \<Rightarrow> byte list \<Rightarrow> (nat \<times> byte list) list
    \<Rightarrow> RxEvent \<Rightarrow> bool" where
  "own_or_other mac promisc timeout ts k d payload frs ev \<longleftrightarrow>
     foreign timeout ts k ev \<or> (\<exists>x \<in> set frs. carried_by mac promisc k d payload x ev)"

lemma carries_unique:
  assumes "carries mac b k d payload x info m" "carries mac b k d payload y info m"
  shows "x = y"
  using assms by (cases x; cases y) (auto simp: carries_def fragment_of_def)

lemma carries_key: "carries mac b k d payload x info m \<Longrightarrow> key_of info m = Some k"
  by (simp add: carries_def)

lemma carried_by_unique: "carried_by mac b k d payload x ev \<Longrightarrow> carried_by mac b k d payload y ev \<Longrightarrow> x = y"
  by (cases ev) (auto dest: carries_unique)

lemma carried_not_foreign: "foreign timeout ts k ev \<Longrightarrow> \<not> carried_by mac b k d payload x ev"
  by (cases ev) (auto dest: carries_key)

text \<open>What the messages and the checks leave as it is.\<close>

lemma receive_message_config:
  "promiscuous (fst (receive_message mac now info m (state, ds))) = promiscuous state"
  "fragment_timeout_us (fst (receive_message mac now info m (state, ds))) = fragment_timeout_us state"
  "distinct (map fst (reassembly state)) \<Longrightarrow> distinct (map fst (reassembly (fst (receive_message mac now info m (state, ds)))))"
  by (auto simp: receive_message_def Let_def distinct_update distinct_delete split: option.split prod.split)

lemma expire_entry_config:
  "promiscuous (expire_entry mac key state) = promiscuous state"
  "fragment_timeout_us (expire_entry mac key state) = fragment_timeout_us state"
  "distinct (map fst (reassembly state)) \<Longrightarrow> distinct (map fst (reassembly (expire_entry mac key state)))"
  by (auto simp: expire_entry_def distinct_delete split: option.split)

lemma expire_entries_config:
  "promiscuous (fold (expire_entry mac) ks state) = promiscuous state"
  "fragment_timeout_us (fold (expire_entry mac) ks state) = fragment_timeout_us state"
  "distinct (map fst (reassembly state)) \<Longrightarrow> distinct (map fst (reassembly (fold (expire_entry mac) ks state)))"
  by (induction ks arbitrary: state) (simp_all add: expire_entry_config)

lemma expire_reassembly_config:
  "promiscuous (expire_reassembly mac now state) = promiscuous state"
  "fragment_timeout_us (expire_reassembly mac now state) = fragment_timeout_us state"
  "distinct (map fst (reassembly state)) \<Longrightarrow> distinct (map fst (reassembly (expire_reassembly mac now state)))"
  by (simp_all add: expire_reassembly_def Let_def expire_entries_config)

text \<open>A message with the key leaves the entry with the time it came at, or no entry.\<close>

lemma receive_message_updates:
  assumes "map_of (reassembly (fst (receive_message mac now info m (state, ds)))) k = Some e" "key_of info m = Some k"
  shows "ra_last_update_us e = now \<or> map_of (reassembly state) k = Some e"
proof -
  obtain p f where p: "u8_of_u32 (tm_priority m) = Some p" "tm_fragment m = Some f" "k = (pi_source info, p, tf_sequence f)"
    using assms(2) by (auto simp: key_of_def split: option.splits)
  have last: "ra_last_update_us (fst (add_fragment now t i f data existing)) = now" for t i data existing
    by (simp add: add_fragment_def Let_def split_beta)
  show ?thesis
  proof (cases "TdmaMessageType_try_from (tm_message_type m) = None \<or> u16_of_u32 (tm_destination m) = None")
    case True
    then show ?thesis using assms(1) p(1) by (auto simp: receive_message_def Let_def split: option.splits)
  next
    case False
    then obtain t d where t: "TdmaMessageType_try_from (tm_message_type m) = Some t" "u16_of_u32 (tm_destination m) = Some d" by auto
    define i where "i = info\<lparr>pi_destination := d, pi_priority := p\<rparr>"
    obtain entry c where a: "add_fragment now t i f (tm_data m) (map_of (reassembly state) k) = (entry, c)" by fastforce
    have k: "(pi_source i, p, tf_sequence f) = k" by (simp add: i_def p(3))
    have entry: "ra_last_update_us entry = now" using last [of t i "tm_data m" "map_of (reassembly state) k"] a by simp
    show ?thesis
      using assms(1) p(1,2) t entry a unfolding receive_message_def
      by (cases c) (auto simp: Let_def i_def [symmetric] k update_conv' delete_conv' split: if_splits)
  qed
qed

text \<open>The receiver is a fragment receiver for every packet of at most 64 MiB.\<close>

definition has_pieces :: "bool \<Rightarrow> i64 \<Rightarrow> i64 set \<Rightarrow> (u16 \<times> u8 \<times> u64) \<Rightarrow> u16 \<Rightarrow> byte list \<Rightarrow> (nat \<times> byte list) list
    \<Rightarrow> (nat \<times> byte list) set \<Rightarrow> State \<times> OwnedPacket list \<Rightarrow> bool" where
  "has_pieces b timeout ts k d payload frs S acc \<longleftrightarrow> promiscuous (fst acc) = b \<and> fragment_timeout_us (fst acc) = timeout
     \<and> distinct (map fst (reassembly (fst acc)))
     \<and> (\<forall>e. map_of (reassembly (fst acc)) k = Some e \<longrightarrow> ra_last_update_us e \<in> ts)
     \<and> entry_has (info_for k d) payload frs S (map_of (reassembly (fst acc)) k)"

definition delivers :: "(u16 \<times> u8 \<times> u64) \<Rightarrow> u16 \<Rightarrow> byte list \<Rightarrow> State \<times> OwnedPacket list \<Rightarrow> State \<times> OwnedPacket list \<Rightarrow> bool" where
  "delivers k d payload acc acc' \<longleftrightarrow>
     (\<exists>i. info_for k d i \<and> snd acc' = snd acc @ [\<lparr>op_info = i, op_payload = payload\<rparr>])
     \<and> map_of (reassembly (fst acc')) k = None"

text \<open>A fragment of a packet in the conditions under which it counts.\<close>

definition counted_piece :: "TdmaMac \<Rightarrow> bool \<Rightarrow> i64 set \<Rightarrow> (u16 \<times> u8 \<times> u64) \<Rightarrow> u16 \<Rightarrow> byte list \<Rightarrow> (nat \<times> byte list) list
    \<Rightarrow> (nat \<times> byte list) \<Rightarrow> RxEvent \<Rightarrow> bool" where
  "counted_piece mac b ts k d payload frs x ev \<longleftrightarrow> fragmentation payload frs \<and> length payload \<le> 64 * 2 ^ 20 \<and>
     carried_by mac b k d payload x ev \<and> (\<forall>now i m. ev = RxMessage now i m \<longrightarrow> now \<in> ts)"

lemma receive_piece_step:
  assumes own: "counted_piece mac b ts k d payload frs x ev" and x: "x \<in> set frs" and h: "has_pieces b timeout ts k d payload frs S acc"
  shows "(\<not> set frs \<subseteq> insert x S \<longrightarrow> has_pieces b timeout ts k d payload frs (insert x S) (receive_step mac ev acc)) \<and>
    (set frs \<subseteq> insert x S \<longrightarrow> delivers k d payload acc (receive_step mac ev acc) \<and> has_pieces b timeout ts k d payload frs {} (receive_step mac ev acc))"
proof -
  obtain now info m where ev: "ev = RxMessage now info m" using own by (cases ev) (auto simp: counted_piece_def)
  obtain state ds where acc: "acc = (state, ds)" by (cases acc)
  have c: "carries mac (promiscuous state) k d payload x info m" and frs: "fragmentation payload frs" "length payload \<le> 64 * 2 ^ 20"
      and e: "entry_has (info_for k d) payload frs S (map_of (reassembly state) k)" and now: "now \<in> ts"
      and old: "promiscuous state = b" "fragment_timeout_us state = timeout" "distinct (map fst (reassembly state))"
        "\<forall>e. map_of (reassembly state) k = Some e \<longrightarrow> ra_last_update_us e \<in> ts"
    using own h by (auto simp: ev acc has_pieces_def counted_piece_def)
  have times: "\<forall>e. map_of (reassembly (fst (receive_message mac now info m (state, ds)))) k = Some e \<longrightarrow> ra_last_update_us e \<in> ts"
    using receive_message_updates [of mac now info m state ds k] carries_key [OF c] old(4) now by metis
  obtain state' i where r: "info_for k d i"
      "receive_message mac now info m (state, ds) = (state', if set frs \<subseteq> insert x S then ds @ [\<lparr>op_info = i, op_payload = payload\<rparr>] else ds)"
      "if set frs \<subseteq> insert x S then map_of (reassembly state') k = None
       else entry_has (info_for k d) payload frs (insert x S) (map_of (reassembly state') k)"
    using receive_message_fragment [OF frs x e c, of now ds] by blast
  have st: "promiscuous state' = b" "fragment_timeout_us state' = timeout" "distinct (map fst (reassembly state'))"
      "\<forall>e. map_of (reassembly state') k = Some e \<longrightarrow> ra_last_update_us e \<in> ts"
    using receive_message_config(1,2) [of mac now info m state ds] receive_message_config(3) [OF old(3), of mac now info m ds] times old(1,2)
    unfolding r(2) fst_conv by simp_all
  show ?thesis
  proof (cases "set frs \<subseteq> insert x S")
    case True
    then show ?thesis using r st by (auto simp: ev acc has_pieces_def delivers_def entry_has_def)
  next
    case False
    then show ?thesis using r st by (simp add: ev acc has_pieces_def)
  qed
qed

lemma receive_foreign_step:
  assumes "foreign timeout ts k ev" and h: "has_pieces b timeout ts k d payload frs S acc"
  shows "has_pieces b timeout ts k d payload frs S (receive_step mac ev acc)"
proof (cases ev)
  case (RxMessage now info m)
  then show ?thesis using assms
    by (cases acc) (simp add: has_pieces_def receive_message_other receive_message_config)
next
  case (RxCheck now)
  have dist: "distinct (map fst (reassembly (fst acc)))" and t: "fragment_timeout_us (fst acc) = timeout" using h by (simp_all add: has_pieces_def)
  have "map_of (reassembly (expire_reassembly mac now (fst acc))) k = map_of (reassembly (fst acc)) k"
  proof (cases "map_of (reassembly (fst acc)) k")
    case None
    then show ?thesis using expire_reassembly_exact [OF dist, of mac now k] by simp
  next
    case (Some e)
    then have "sint (i64_saturating_sub now (ra_last_update_us e)) < sint timeout"
      using assms RxCheck by (auto simp: has_pieces_def in_time_def)
    then show ?thesis using expire_reassembly_exact [OF dist, of mac now k] Some t by simp
  qed
  then show ?thesis using h RxCheck dist by (simp add: has_pieces_def expire_reassembly_config)
qed

interpretation tdma_receiver: fragment_receiver
  "receive_step mac" frs "has_pieces b timeout ts k d payload frs" "counted_piece mac b ts k d payload frs"
  "foreign timeout ts k" "delivers k d payload"
  for mac b timeout ts k d payload frs
proof
  show "counted_piece mac b ts k d payload frs x ev \<Longrightarrow> counted_piece mac b ts k d payload frs y ev \<Longrightarrow> x = y" for x y ev
    by (auto simp: counted_piece_def dest: carried_by_unique)
  show "foreign timeout ts k ev \<Longrightarrow> \<not> counted_piece mac b ts k d payload frs x ev" for ev x
    by (auto simp: counted_piece_def dest: carried_not_foreign)
  show "foreign timeout ts k ev \<Longrightarrow> has_pieces b timeout ts k d payload frs S s \<Longrightarrow>
      has_pieces b timeout ts k d payload frs S (receive_step mac ev s)" for ev S s
    by (rule receive_foreign_step)
  show "counted_piece mac b ts k d payload frs x ev \<Longrightarrow> x \<in> set frs \<Longrightarrow> has_pieces b timeout ts k d payload frs S s \<Longrightarrow>
      \<not> set frs \<subseteq> insert x S \<Longrightarrow> has_pieces b timeout ts k d payload frs (insert x S) (receive_step mac ev s)" for x ev S s
    using receive_piece_step by blast
  show "counted_piece mac b ts k d payload frs x ev \<Longrightarrow> x \<in> set frs \<Longrightarrow> has_pieces b timeout ts k d payload frs S s \<Longrightarrow>
      set frs \<subseteq> insert x S \<Longrightarrow> delivers k d payload s (receive_step mac ev s) \<and>
      has_pieces b timeout ts k d payload frs {} (receive_step mac ev s)" for x ev S s
    using receive_piece_step by blast
qed

lemma receive_all_complete:
  assumes frs: "fragmentation payload frs" and len: "length payload \<le> 64 * 2 ^ 20"
    and new: "map_of (reassembly state) k = None" "distinct (map fst (reassembly state))"
    and evs: "\<forall>ev \<in> set (evs @ [last_ev]). own_or_other mac (promiscuous state) (fragment_timeout_us state)
        (key_times k (evs @ [last_ev])) k d payload frs ev"
    and missing: "\<not> set frs \<subseteq> pieces_in mac (promiscuous state) k d payload frs evs"
    and all: "set frs \<subseteq> pieces_in mac (promiscuous state) k d payload frs (evs @ [last_ev])"
  shows "\<exists>i. info_for k d i \<and>
    snd (receive_all mac (evs @ [last_ev]) (state, ds)) =
      snd (receive_all mac evs (state, ds)) @ [\<lparr>op_info = i, op_payload = payload\<rparr>]
    \<and> map_of (reassembly (fst (receive_all mac (evs @ [last_ev]) (state, ds)))) k = None"
proof -
  let ?b = "promiscuous state" and ?ts = "key_times k (evs @ [last_ev])" and ?t = "fragment_timeout_us state"
  let ?c = "counted_piece mac ?b ?ts k d payload frs"
  have c: "?c x ev = carried_by mac ?b k d payload x ev" if "ev \<in> set (evs @ [last_ev])" for x ev
    using that frs len carries_key unfolding counted_piece_def key_times_def by (cases ev) fastforce+
  have p: "pieces_in mac ?b k d payload frs es = pieces_of ?c frs es" if "set es \<subseteq> set (evs @ [last_ev])" for es
    using c that by (auto simp: pieces_in_def pieces_of_def subset_iff)
  have start: "has_pieces ?b ?t ?ts k d payload frs {} (state, ds)" using new by (simp add: has_pieces_def entry_has_def)
  have all_ok: "\<forall>ev \<in> set (evs @ [last_ev]). foreign ?t ?ts k ev \<or> (\<exists>x \<in> set frs. ?c x ev)"
    using evs c by (auto simp: own_or_other_def)
  have subs: "set evs \<subseteq> set (evs @ [last_ev])" "set (evs @ [last_ev]) \<subseteq> set (evs @ [last_ev])" by auto
  from tdma_receiver.complete [OF start all_ok missing [unfolded p [OF subs(1)]] all [unfolded p [OF subs(2)]]] show ?thesis
    unfolding receive_all_def delivers_def by auto
qed


section \<open>Lock on the earliest reception\<close>

definition start_of :: "PendingReception \<Rightarrow> int" where
  "start_of p = sint (fsq_start_time_microseconds (pr_spectrum_query p))"

text \<open>Receptions that pass the checks in one slot, in the order they arrive.\<close>

fun accept_all :: "TdmaMac \<Rightarrow> Schedule \<Rightarrow> u64 \<Rightarrow> (i64 \<times> PendingReception) list \<Rightarrow> State \<Rightarrow> State panics" where
  "accept_all mac sch cur [] state = Some state"
| "accept_all mac sch cur ((now, p) # ps) state = do {
     state \<leftarrow> accept_reception mac sch cur now p state;
     accept_all mac sch cur ps state }"

lemma accept_reception_locked:
  assumes "accept_reception mac sch cur now p state = Some state'" "pending_rx state cur = Some q"
  shows "pending_rx state' cur = Some (if start_of p < start_of q then p else q)"
proof -
  obtain s where u: "update_rx_slot_status mac cur cur now RxLock s = Some state'"
      and s: "s = (if start_of p < start_of q then state\<lparr>pending_rx := (pending_rx state)(cur \<mapsto> p)\<rparr> else state)"
    using assms by (auto simp: accept_reception_def start_of_def)
  then show ?thesis using core_eqD [OF core_rx_status [OF u]] assms(2) by auto
qed

lemma accept_reception_first:
  assumes "accept_reception mac sch cur now p state = Some state'" "pending_rx state cur = None"
    "\<And>es. env_schedule_timed_event (mac_env mac) es \<noteq> 0"
  shows "pending_rx state' cur = Some p"
proof -
  define s where "s = state\<lparr>pending_rx := (pending_rx state)(cur \<mapsto> p)\<rparr>"
  obtain s1 where u: "update_rx_slot_status mac cur cur now RxValid s = Some s1"
    using assms(1,2) by (cases "update_rx_slot_status mac cur cur now RxValid s") (auto simp: accept_reception_def s_def)
  have "pending_rx s1 cur = Some p" using core_eqD [OF core_rx_status [OF u]] by (simp add: s_def)
  then show ?thesis
    using assms u by (auto simp: accept_reception_def s_def [symmetric] schedule_timer_def Let_def)
qed

lemma accept_all_locked:
  assumes "accept_all mac sch cur ps state = Some state'" "pending_rx state cur = Some q"
  shows "\<exists>w \<in> insert q (snd ` set ps). pending_rx state' cur = Some w
    \<and> (\<forall>p \<in> snd ` set ps. start_of w \<le> start_of p) \<and> start_of w \<le> start_of q
    \<and> (start_of w = start_of q \<longrightarrow> w = q)"
  using assms
proof (induction ps arbitrary: state q)
  case (Cons x ps)
  obtain now p where x: "x = (now, p)" by (cases x)
  from Cons.prems obtain s1 where a: "accept_reception mac sch cur now p state = Some s1"
      and r: "accept_all mac sch cur ps s1 = Some state'" by (auto simp: x split: Option.bind_splits)
  note l = accept_reception_locked [OF a Cons.prems(2)]
  from Cons.IH [OF r l] obtain w where w: "w \<in> insert (if start_of p < start_of q then p else q) (snd ` set ps)"
      "pending_rx state' cur = Some w" "\<forall>p \<in> snd ` set ps. start_of w \<le> start_of p"
      "start_of w \<le> start_of (if start_of p < start_of q then p else q)"
      "start_of w = start_of (if start_of p < start_of q then p else q) \<longrightarrow> w = (if start_of p < start_of q then p else q)"
    by blast
  show ?case
  proof (intro bexI [of _ w] conjI ballI impI)
    show "w \<in> insert q (snd ` set (x # ps))" using w(1) x by (auto split: if_splits)
    show "pending_rx state' cur = Some w" by (rule w(2))
    show "start_of w \<le> start_of r" if "r \<in> snd ` set (x # ps)" for r
      using that w(3,4) x by (auto split: if_splits)
    show "start_of w \<le> start_of q" using w(4) by (auto split: if_splits)
    show "w = q" if "start_of w = start_of q" using that w(4,5) by (auto split: if_splits)
  qed
qed auto

end
