(* ===== verification/Tdma_Mac.thy ===== *)
theory Tdma_Mac
  imports Tdma_Receive
begin

text \<open>
  The entry points of the TDMA radio model (\<^verbatim>\<open>rust/plugins/tdma/src/lib.rs\<close>):
  start and stop, timed events, and the schedule event.
\<close>


section \<open>Timers\<close>

definition add_timer :: "u64 \<Rightarrow> u32 \<Rightarrow> State \<Rightarrow> State" where
  "add_timer timer kind state =
     (if timer \<noteq> 0 then state\<lparr>timers := AList.update timer kind (timers state)\<rparr> else state)"

definition schedule_reassembly_check :: "TdmaMac \<Rightarrow> State \<Rightarrow> State" where
  "schedule_reassembly_check mac state =
     (if \<not> started state then state
      else (let (now, state) = now_us mac state;
                (timer, state) = schedule_timer mac (i64_saturating_add now (fragment_check_us state))
                  TIMER_REASSEMBLY_CHECK (be_bytes 8 (0::u64)) state
            in add_timer timer TIMER_REASSEMBLY_CHECK state))"

definition schedule_neighbor_status :: "TdmaMac \<Rightarrow> State \<Rightarrow> State" where
  "schedule_neighbor_status mac state =
     (if \<not> started state then state
      else (let (now, state) = now_us mac state;
                (timer, state) = schedule_timer mac (i64_saturating_add now (neighbor_metric_update_us state))
                  TIMER_NEIGHBOR_STATUS (be_bytes 8 (0::u64)) state
            in add_timer timer TIMER_NEIGHBOR_STATUS state))"

text \<open>A new schedule starts at the next multiframe.\<close>

definition schedule_next_tx :: "TdmaMac \<Rightarrow> bool \<Rightarrow> State \<Rightarrow> State panics" where
  "schedule_next_tx mac first_after_schedule state =
     (let (now, state) = now_us mac state
      in case schedule state of
           None \<Rightarrow> Some state
         | Some sch \<Rightarrow>
             if \<not> started state then Some state
             else do {
               current \<leftarrow> absolute_slot sch now;
               after \<leftarrow> (if first_after_schedule
                   then (let cycle = cycle_slots sch
                         in if cycle = 0 then panic else Some (current div cycle * cycle + cycle - 1))
                   else Some current);
               next \<leftarrow> next_tx sch after;
               Some (case next of
                   None \<Rightarrow> state
                 | Some sl \<Rightarrow>
                     (let (timer, state) = schedule_timer mac (slot_start sch sl) TIMER_TX_SLOT (be_bytes 8 sl) state
                      in if timer \<noteq> 0
                         then state\<lparr>timers := AList.update timer TIMER_TX_SLOT (timers state), next_tx_slot := Some sl\<rparr>
                         else state)) })"


section \<open>Start and stop\<close>

definition start :: "TdmaMac \<Rightarrow> State \<Rightarrow> (bool \<times> State) panics" where
  "start mac state =
     (if pcr_uri state = '''' then Some (False, state)
      else (case env_load_pcr (mac_env mac) (pcr_uri state) of
          None \<Rightarrow> Some (False, state)
        | Some curve \<Rightarrow> do {
            let state = state\<lparr>pcr := Some curve, available_tokens := flow_control_tokens state, started := True\<rparr>;
            state \<leftarrow> (if flow_control_enable state then send_flow_update mac (available_tokens state) state
                     else Some state);
            state \<leftarrow> schedule_next_tx mac True state;
            Some (True, schedule_neighbor_status mac (schedule_reassembly_check mac state)) }))"

definition stop :: "TdmaMac \<Rightarrow> State \<Rightarrow> State" where
  "stop mac state =
     (let pending = map fst (timers state);
          state = state\<lparr>started := False, next_tx_slot := None, pending_rx := Map.empty, timers := []\<rparr>
      in fold (\<lambda>timer. emit (CancelTimedEvent timer)) pending state)"


section \<open>Timed events\<close>

definition timed :: "TdmaMac \<Rightarrow> u64 \<Rightarrow> u32 \<Rightarrow> byte list \<Rightarrow> State \<Rightarrow> State panics" where
  "timed mac timer_id event data state =
     (let state = state\<lparr>timers := AList.delete timer_id (timers state)\<rparr>
      in if length data \<noteq> 8 then Some state
         else (let val = of_be_bytes data :: u64
               in if event = TIMER_TX_SLOT then
                    (if next_tx_slot state \<noteq> Some val then Some state
                     else do {
                       state \<leftarrow> transmit_slot mac val (state\<lparr>next_tx_slot := None\<rparr>);
                       schedule_next_tx mac False state })
                  else if event = TIMER_RX_COMPLETE then Some (complete_receive mac val state)
                  else if event = TIMER_REASSEMBLY_CHECK then
                    Some (if \<not> started state then state
                          else (let (now, state) = now_us mac state
                                in schedule_reassembly_check mac (expire_reassembly mac now state)))
                  else if event = TIMER_NEIGHBOR_STATUS then
                    Some (if \<not> started state then state
                          else schedule_neighbor_status mac (emit UpdateNeighborStatus state))
                  else Some state))"


section \<open>The schedule event\<close>

text \<open>\<open>error.contains(text)\<close>.\<close>

definition contains :: "string \<Rightarrow> string \<Rightarrow> bool" where
  "contains s t = list_ex (\<lambda>i. take (length t) (drop i s) = t) [0..<Suc (length s)]"

definition reject_counter :: "string \<Rightarrow> string" where
  "reject_counter error =
     (if contains error ''slot index is out of range'' then ''scheduler.scheduleRejectSlotIndexRange''
      else if contains error ''frame index is out of range'' then ''scheduler.scheduleRejectFrameIndexRange''
      else if contains error ''before full schedule'' then ''scheduler.scheduleRejectUpdateBeforeFull''
      else ''scheduler.scheduleRejectOther'')"

definition slot_row :: "Schedule \<Rightarrow> nat \<Rightarrow> Slot \<Rightarrow> FfiStatisticValue list" where
  "slot_row sch index sl =
     (let i = word_of_nat index :: u64; n = ucast (sch_slots_per_frame sch) :: u64
      in [StatU64 i, StatU64 (i div n), StatU64 (i mod n)]
         @ (case sl of
              TxSlot frequency_hz data_rate_bps service_class power_dbm destination \<Rightarrow>
                [StatString ''TX'', StatU64 frequency_hz, StatU64 data_rate_bps, StatF64 power_dbm,
                 StatU64 (ucast service_class), StatU64 (ucast destination)]
            | RxSlot frequency_hz \<Rightarrow>
                [StatString ''RX'', StatU64 frequency_hz, StatString '''', StatString '''', StatString '''', StatString '''']
            | IdleSlot \<Rightarrow>
                [StatString ''IDLE'', StatString '''', StatString '''', StatString '''', StatString '''', StatString '''']))"

definition publish_schedule_tables :: "TdmaMac \<Rightarrow> Schedule \<Rightarrow> State \<Rightarrow> State" where
  "publish_schedule_tables mac sch state =
     (let state = fold (\<lambda>(key, name, val). set_table_row mac ''scheduler.StructureInfoTable'' [key]
            [StatString name, StatU64 val])
            [(0, ''bandwidth'', sch_bandwidth_hz sch), (1, ''frames'', ucast (sch_frames_per_multiframe sch)),
             (2, ''slots'', ucast (sch_slots_per_frame sch)), (3, ''slotduration'', sch_slot_duration_us sch),
             (4, ''slotoverhead'', sch_overhead_us sch)] state
      in fold (\<lambda>(index, sl). set_table_row mac ''scheduler.ScheduleInfoTable'' [word_of_nat index]
            (slot_row sch index sl)) (enumerate 0 (sch_slots sch)) state)"

fun slot_frequency :: "Slot \<Rightarrow> u64 option" where
  "slot_frequency (TxSlot frequency_hz _ _ _ _) = Some frequency_hz"
| "slot_frequency (RxSlot frequency_hz) = Some frequency_hz"
| "slot_frequency IdleSlot = None"

definition schedule_frequencies :: "Schedule \<Rightarrow> u64 list" where
  "schedule_frequencies sch = sort (remdups (List.map_filter slot_frequency (sch_slots sch)))"

text \<open>What an accepted schedule changes before the next transmit slot is scheduled.\<close>

definition install_schedule :: "TdmaMac \<Rightarrow> Schedule \<Rightarrow> bool \<Rightarrow> State \<Rightarrow> State" where
  "install_schedule mac sch full state =
     (let state = increment mac (if full then ''scheduler.scheduleAcceptFull'' else ''scheduler.scheduleAcceptUpdate'') 1 state;
          state = (if full
             then (fold (clear_table mac)
                     [''scheduler.ScheduleInfoTable'', ''scheduler.StructureInfoTable'', ''TxSlotStatusTable'',
                      ''RxSlotStatusTable''] state)\<lparr>tx_slot_statistics := Map.empty, rx_slot_statistics := Map.empty\<rparr>
             else state);
          state = publish_schedule_tables mac sch state;
          foi_data = FrequencyOfInterest_encode
             \<lparr>foi_bandwidth_hz = sch_bandwidth_hz sch, foi_frequencies_hz = schedule_frequencies sch\<rparr>;
          state = state\<lparr>schedule := Some sch, next_tx_slot := None,
                        reassembly := (if full then [] else reassembly state)\<rparr>;
          stale = map fst (filter (\<lambda>(timer, kind). kind = TIMER_TX_SLOT) (timers state));
          state = state\<lparr>timers := filter (\<lambda>(timer, kind). timer \<notin> set stale) (timers state)\<rparr>;
          state = fold (\<lambda>timer. emit (CancelTimedEvent timer)) stale state
      in (case foi_data of
            Some data \<Rightarrow> emit (SendDownstreamControl [(CONTROL_FREQUENCY_INTEREST, data)]) state
          | None \<Rightarrow> state))"

definition process_event :: "TdmaMac \<Rightarrow> u16 \<Rightarrow> byte list \<Rightarrow> State \<Rightarrow> State panics" where
  "process_event mac event bytes state =
     (if event \<noteq> EVENT_TDMA_SCHEDULE then Some state
      else (case parse_schedule (env_decode_schedule (mac_env mac)) bytes (schedule state) of
          None \<Rightarrow> panic
        | Some (Inl error) \<Rightarrow> Some (increment mac (reject_counter error) 1 state)
        | Some (Inr (sch, full)) \<Rightarrow> schedule_next_tx mac full (install_schedule mac sch full state)))"


section \<open>What the handlers keep\<close>

text \<open>The fields the sending invariant speaks about.\<close>

definition send_part where
  "send_part state = (schedule state, flow_control_enable state, available_tokens state, flow_control_tokens state,
     queues state, queue_depth state)"

lemma send_inv_part: "send_part a = send_part b \<Longrightarrow> send_inv a = send_inv b"
  by (simp add: send_part_def send_inv_def schedule_ok_def tokens_ok_def queued_count_def)

lemma send_part_core: "core a = core b \<Longrightarrow> send_part a = send_part b"
  using core_eqD [of a b] by (simp add: send_part_def)

lemma send_part_update [simp]:
  "send_part (state\<lparr>reassembly := x1\<rparr>) = send_part state" "send_part (state\<lparr>pending_rx := x2\<rparr>) = send_part state"
  "send_part (state\<lparr>timers := x3\<rparr>) = send_part state" "send_part (state\<lparr>random_state := x4\<rparr>) = send_part state"
  "send_part (state\<lparr>next_tx_slot := x5\<rparr>) = send_part state" "send_part (state\<lparr>started := x6\<rparr>) = send_part state"
  "send_part (state\<lparr>tx_slot_statistics := x7\<rparr>) = send_part state" "send_part (state\<lparr>rx_slot_statistics := x8\<rparr>) = send_part state"
  "send_part (state\<lparr>pcr := x9\<rparr>) = send_part state"
  by (simp_all add: send_part_def)

lemmas send_part_calls [simp] =
  core_emit [THEN send_part_core] core_counter(1) [THEN send_part_core] core_counter(3) [THEN send_part_core]
  core_counter(4) [THEN send_part_core] core_now [THEN send_part_core]
  core_record_accept [THEN send_part_core] core_record_drop [THEN send_part_core] core_record_all [THEN send_part_core]

lemma now_us_part: "now_us mac state = (now, state') \<Longrightarrow> send_part state' = send_part state \<and> schedule state' = schedule state \<and> started state' = started state"
  by (auto simp: now_us_def)

lemma schedule_timer_part: "schedule_timer mac w e d state = (timer, state') \<Longrightarrow> send_part state' = send_part state \<and> started state' = started state"
  by (auto simp: schedule_timer_def Let_def)

lemma add_timer_part [simp]: "send_part (add_timer t k state) = send_part state"
  by (simp add: add_timer_def)

lemma schedule_check_part [simp]: "send_part (schedule_reassembly_check mac state) = send_part state"
  by (auto simp: schedule_reassembly_check_def Let_def dest!: now_us_part schedule_timer_part split: prod.split)

lemma schedule_status_part [simp]: "send_part (schedule_neighbor_status mac state) = send_part state"
  by (auto simp: schedule_neighbor_status_def Let_def dest!: now_us_part schedule_timer_part split: prod.split)

lemma fold_part: "(\<And>x s. x \<in> set xs \<Longrightarrow> send_part (f x s) = send_part s) \<Longrightarrow> send_part (fold f xs s) = send_part s"
  by (induction xs arbitrary: s) simp_all

lemma expire_entry_part [simp]: "send_part (expire_entry mac k state) = send_part state"
  by (simp add: expire_entry_def split: option.split)

lemma expire_part [simp]: "send_part (expire_reassembly mac now state) = send_part state"
  by (simp add: expire_reassembly_def Let_def fold_part)

lemma receive_message_part: "send_part (fst (receive_message mac now info m acc)) = send_part (fst acc)"
  by (cases acc) (auto simp: receive_message_def Let_def split: option.split prod.split)

lemma receive_messages_part: "send_part (fst (fold (receive_message mac now info) ms acc)) = send_part (fst acc)"
  by (induction ms arbitrary: acc) (simp_all add: receive_message_part)

lemma fold_receive_part: "fold (receive_message mac now info) ms (s, ds) = (s', ds') \<Longrightarrow> send_part s' = send_part s"
  using receive_messages_part [of mac now info ms "(s, ds)"] by simp

lemma complete_receive_part: "send_part (complete_receive mac a state) = send_part state"
  by (auto simp: complete_receive_def Let_def fold_part
      dest!: now_us_part fold_receive_part split: option.splits prod.splits)

lemma stop_part: "send_part (stop mac state) = send_part state"
  by (simp add: stop_def Let_def fold_part)


section \<open>No handler panics\<close>

lemma read_control_total: "\<exists>c'. read_control c m = Some c'"
proof -
  obtain t d where m: "m = (t, d)" by (cases m)
  obtain a b r where "ModelHeader_decode d = Some a" "RxProperties_decode d = Some b" "RxFrequencySegments_decode d = Some r"
    using model_header.decode_no_panic [of d] rx_properties.decode_no_panic [of d] rx_segments.decode_no_panic [of d]
    by auto
  then show ?thesis by (simp add: read_control_def m)
qed

lemma read_controls_total: "\<exists>c'. read_controls c ms = Some c'"
proof (induction ms arbitrary: c)
  case (Cons m ms)
  obtain c1 where "read_control c m = Some c1" using read_control_total by blast
  with Cons show ?case by simp
qed simp

lemma rx_status_ok:
  assumes "schedule_ok state"
  shows "\<exists>state'. update_rx_slot_status mac a r n s state = Some state' \<and> send_part state' = send_part state"
proof -
  have "\<forall>sch. schedule state = Some sch \<longrightarrow> wf_schedule sch" using assms by (simp add: schedule_ok_def split: option.splits)
  then obtain state' where s: "update_rx_slot_status mac a r n s state = Some state'" using rx_status_total by blast
  with send_part_core [OF core_rx_status [OF s]] show ?thesis by blast
qed

lemma schedule_ok_part: "send_part a = send_part b \<Longrightarrow> schedule_ok a = schedule_ok b"
  by (simp add: send_part_def schedule_ok_def)

lemma accept_reception_ok:
  assumes "schedule_ok state"
  shows "\<exists>state'. accept_reception mac sch cur now p state = Some state' \<and> send_part state' = send_part state"
proof (cases "pending_rx state cur")
  case (Some previous)
  define s where "s = (if sint (fsq_start_time_microseconds (pr_spectrum_query p))
       < sint (fsq_start_time_microseconds (pr_spectrum_query previous))
     then state\<lparr>pending_rx := (pending_rx state)(cur \<mapsto> p)\<rparr> else state)"
  have s: "send_part s = send_part state" by (simp add: s_def)
  then obtain s' where "update_rx_slot_status mac cur cur now RxLock s = Some s'" "send_part s' = send_part s"
    using rx_status_ok [of s] assms schedule_ok_part by blast
  then show ?thesis using Some s by (simp add: accept_reception_def s_def [symmetric])
next
  case None
  define s where "s = state\<lparr>pending_rx := (pending_rx state)(cur \<mapsto> p)\<rparr>"
  have s: "send_part s = send_part state" by (simp add: s_def)
  then obtain s' where s': "update_rx_slot_status mac cur cur now RxValid s = Some s'" "send_part s' = send_part s"
    using rx_status_ok [of s] assms schedule_ok_part by blast
  obtain t s2 where t: "schedule_timer mac (slot_start sch (saturating_add cur 1)) TIMER_RX_COMPLETE (be_bytes 8 cur) s' = (t, s2)"
    by fastforce
  then show ?thesis
    using None s s' schedule_timer_part [OF t]
    by (auto simp: accept_reception_def s_def [symmetric] split: option.split)
qed

lemma receive_frame_ok:
  assumes "schedule_ok state" "wf_schedule sch"
  shows "\<exists>state'. receive_frame mac sch now rx query p state = Some state' \<and> send_part state' = send_part state"
proof -
  have a: "\<exists>k. absolute_slot sch t = Some k" for t using assms(2) by (simp add: absolute_slot_def wf_schedule_def)
  obtain l where l: "absolute_slot sch (if rxp_duration_microseconds rx = 0 then fsq_start_time_microseconds query
      else i64_saturating_sub (i64_saturating_add (fsq_start_time_microseconds query)
             (i64_from_u64_or_max (rxp_duration_microseconds rx))) 1) = Some l" using a by blast
  obtain c where c: "absolute_slot sch now = Some c" using a by blast
  obtain s1 where s1: "slot sch (bm_absolute_slot_index (pr_wire p)) = Some s1" using wf_slot_nth [OF assms(2)] by blast
  obtain s2 where s2: "slot sch c = Some s2" using wf_slot_nth [OF assms(2)] by blast
  have dr: "\<exists>s. (update_rx_slot_status mac x y now z state \<bind> (\<lambda>st. Some (record_all_message_drops mac src ms rr st))) = Some s
      \<and> send_part s = send_part state" for x y z src ms rr
  proof -
    obtain s where "update_rx_slot_status mac x y now z state = Some s" "send_part s = send_part state"
      using rx_status_ok [OF assms(1)] by blast
    then show ?thesis by simp
  qed
  show ?thesis
    unfolding receive_frame_def Let_def l c
    by (cases s1; cases s2) (simp_all add: s1 s2 dr accept_reception_ok [OF assms(1)])
qed

lemma upstream_ok:
  assumes "send_inv state"
  shows "\<exists>state'. upstream mac packet messages state = Some state' \<and> send_part state' = send_part state"
proof (cases "own_packet packet")
  case (Some p)
  obtain c where c: "read_controls \<lparr>rc_header = None, rc_rx = None, rc_segments = None\<rparr> messages = Some c"
    using read_controls_total by blast
  have "\<exists>state'. receive_frame mac sch now rx q pen s1 = Some state' \<and> send_part state' = send_part state"
    if "schedule state = Some sch" "now_us mac state = (now, s1)" for sch now s1 rx q pen
  proof -
    have "schedule_ok s1" "wf_schedule sch" "send_part s1 = send_part state"
      using that assms now_us_part [OF that(2)] by (auto simp: send_inv_def schedule_ok_def)
    then show ?thesis using receive_frame_ok by metis
  qed
  then show ?thesis
    using Some c by (auto simp: upstream_def Let_def split: option.split prod.split)
qed (simp add: upstream_def)

lemma schedule_next_tx_ok:
  assumes "schedule_ok state"
  shows "\<exists>state'. schedule_next_tx mac b state = Some state' \<and> send_part state' = send_part state"
proof -
  obtain now s1 where n: "now_us mac state = (now, s1)" by fastforce
  note p = now_us_part [OF n]
  show ?thesis
  proof (cases "schedule state")
    case (Some sch)
    then have wf: "wf_schedule sch" using assms by (simp add: schedule_ok_def)
    obtain cur where cur: "absolute_slot sch now = Some cur" using wf by (simp add: absolute_slot_def wf_schedule_def)
    have after: "\<exists>k. (if b then (let cycle = cycle_slots sch in if cycle = 0 then panic
        else Some (cur div cycle * cycle + cycle - 1)) else Some cur) = Some k"
      using wf_cycle_slots_nonzero [OF wf] by (auto simp: Let_def)
    then obtain k where k: "(if b then (let cycle = cycle_slots sch in if cycle = 0 then panic
        else Some (cur div cycle * cycle + cycle - 1)) else Some cur) = Some k" by blast
    obtain r where r: "next_tx sch k = Some r" using next_tx_total [OF wf] by blast
    have eq: "schedule_next_tx mac b state = (if \<not> started s1 then Some s1 else Some (case r of None \<Rightarrow> s1
        | Some sl \<Rightarrow> (let (timer, s) = schedule_timer mac (slot_start sch sl) TIMER_TX_SLOT (be_bytes 8 sl) s1
            in if timer \<noteq> 0 then s\<lparr>timers := AList.update timer TIMER_TX_SLOT (timers s), next_tx_slot := Some sl\<rparr> else s)))"
      using Some n p cur r unfolding schedule_next_tx_def by (simp add: k)
    show ?thesis
    proof (cases r)
      case (Some sl)
      obtain t s2 where t: "schedule_timer mac (slot_start sch sl) TIMER_TX_SLOT (be_bytes 8 sl) s1 = (t, s2)" by fastforce
      show ?thesis using eq Some t p schedule_timer_part [OF t] by simp
    qed (use eq p in simp)
  qed (use n p in \<open>simp add: schedule_next_tx_def\<close>)
qed

lemma send_part_schedule: "send_part a = send_part b \<Longrightarrow> send_part (a\<lparr>schedule := x\<rparr>) = send_part (b\<lparr>schedule := x\<rparr>)"
  by (simp add: send_part_def)

lemma publish_schedule_part [simp]: "send_part (publish_schedule_tables mac sch state) = send_part state"
  by (auto simp: publish_schedule_tables_def Let_def fold_part split: prod.split)

lemma install_schedule_part: "send_part (install_schedule mac sch full state) = send_part (state\<lparr>schedule := Some sch\<rparr>)"
proof -
  have f: "send_part (fold (clear_table mac) ns s) = send_part s" "send_part (fold (\<lambda>t. emit (CancelTimedEvent t)) ts s) = send_part s" for ns ts s
    by (simp_all add: fold_part)
  show ?thesis
    unfolding install_schedule_def Let_def
    by (auto simp: f simp del: fold_simps intro!: send_part_schedule split: option.split)
qed

lemma process_event_ok:
  assumes "send_inv state"
  shows "\<exists>state'. process_event mac e bytes state = Some state' \<and> send_inv state'"
proof (cases "e = EVENT_TDMA_SCHEDULE")
  case True
  have wf: "\<And>s. schedule state = Some s \<Longrightarrow> wf_schedule s" using assms by (simp add: send_inv_def schedule_ok_def)
  have ps: "res_ok (\<lambda>(s, full). wf_schedule s)
      (parse_schedule (env_decode_schedule (mac_env mac)) bytes (schedule state))"
    using res_ok_weaken [OF parse_event_wf [OF wf]]
    by (auto simp: parse_schedule_def split: sum.split)
  show ?thesis
  proof (cases "parse_schedule (env_decode_schedule (mac_env mac)) bytes (schedule state)")
    case None
    with ps show ?thesis by simp
  next
    case (Some r)
    show ?thesis
    proof (cases r)
      case (Inl error)
      have "send_inv (increment mac (reject_counter error) 1 state)"
        using assms send_inv_core [OF core_counter(1)] by blast
      then show ?thesis using True Some Inl by (simp add: process_event_def)
    next
      case (Inr p)
      obtain sch full where p: "p = (sch, full)" by (cases p)
      have w: "wf_schedule sch" using ps Some Inr p by (simp add: res_ok_def)
      have inv: "send_inv (install_schedule mac sch full state)"
        using assms w send_inv_part [OF install_schedule_part]
        by (simp add: send_inv_def schedule_ok_def tokens_ok_def queued_count_def)
      then obtain s2 where s2: "schedule_next_tx mac full (install_schedule mac sch full state) = Some s2"
          "send_part s2 = send_part (install_schedule mac sch full state)"
        using schedule_next_tx_ok unfolding send_inv_def by blast
      then show ?thesis
        using inv send_inv_part [OF s2(2)] Some Inr p True by (simp add: process_event_def)
    qed
  qed
qed (use assms in \<open>simp add: process_event_def\<close>)



section \<open>Reachable states\<close>

lemma send_inv_partI: "send_inv b \<Longrightarrow> send_part a = send_part b \<Longrightarrow> send_inv a"
  using send_inv_part by blast

lemma transmit_slot_ok:
  assumes "send_inv state"
  shows "\<exists>state'. transmit_slot mac a state = Some state' \<and> send_inv state'"
proof (cases "schedule state")
  case None
  obtain now s1 where n: "now_us mac state = (now, s1)" by fastforce
  have "send_inv s1" using assms send_inv_part [of s1 state] now_us_part [OF n] by simp
  then show ?thesis
    using None n now_us_part [OF n] by (auto simp: transmit_slot_def update_tx_slot_status_def)
next
  case (Some sch)
  then show ?thesis using transmit_slot_spec [OF assms] by blast
qed

lemma timed_ok:
  assumes "send_inv state"
  shows "\<exists>state'. timed mac t e d state = Some state' \<and> send_inv state'"
proof -
  define s0 where "s0 = state\<lparr>timers := AList.delete t (timers state)\<rparr>"
  have i0: "send_inv s0" using assms send_inv_part [of s0 state] by (simp add: s0_def)
  have tx: "\<exists>s. transmit_slot mac v (s0\<lparr>next_tx_slot := None\<rparr>) \<bind> schedule_next_tx mac False = Some s \<and> send_inv s" for v
  proof -
    have "send_inv (s0\<lparr>next_tx_slot := None\<rparr>)" using i0 send_inv_part [of "s0\<lparr>next_tx_slot := None\<rparr>" s0] by simp
    then obtain s1 where s1: "transmit_slot mac v (s0\<lparr>next_tx_slot := None\<rparr>) = Some s1" "send_inv s1"
      using transmit_slot_ok by blast
    then obtain s2 where s2: "schedule_next_tx mac False s1 = Some s2" "send_part s2 = send_part s1"
      using schedule_next_tx_ok [of s1 mac False] by (auto simp: send_inv_def)
    from s1(1) s2(1) send_inv_partI [OF s1(2) s2(2)] show ?thesis by simp
  qed
  have ck: "send_inv (schedule_reassembly_check mac (expire_reassembly mac now s1))" if "now_us mac s0 = (now, s1)" for now s1
    using now_us_part [OF that] by (intro send_inv_partI [OF i0]) simp
  have st: "send_inv (schedule_neighbor_status mac (emit UpdateNeighborStatus s0))"
    by (intro send_inv_partI [OF i0]) simp
  have cr: "send_inv (complete_receive mac v s0)" for v
    using i0 send_inv_part [OF complete_receive_part] by blast
  show ?thesis
    unfolding timed_def s0_def [symmetric] Let_def
    using i0 tx ck st cr by (auto split: prod.split)
qed

text \<open>The calls the framework makes of a running model.\<close>

datatype Call =
    CallDownstream OwnedPacket
  | CallUpstream OwnedPacket "ControlMessage list"
  | CallTimed u64 u32 "byte list"
  | CallEvent u16 "byte list"

fun handle :: "TdmaMac \<Rightarrow> Call \<Rightarrow> State \<Rightarrow> State panics" where
  "handle mac (CallDownstream packet) state = downstream mac packet state"
| "handle mac (CallUpstream packet messages) state = upstream mac packet messages state"
| "handle mac (CallTimed timer_id event data) state = timed mac timer_id event data state"
| "handle mac (CallEvent event bytes) state = process_event mac event bytes state"

lemma handle_ok: "send_inv state \<Longrightarrow> \<exists>state'. handle mac call state = Some state' \<and> send_inv state'"
proof (cases call)
  case (CallUpstream p ms)
  assume i: "send_inv state"
  obtain s where s: "upstream mac p ms state = Some s" "send_part s = send_part state" using upstream_ok [OF i] by blast
  from CallUpstream s(1) send_inv_partI [OF i s(2)] show ?thesis by simp
qed (auto intro: downstream_inv timed_ok process_event_ok)

text \<open>The states a model can be in after it was started with empty queues, until it is started again: it gets
  calls of the framework and may be stopped (a stopped model still gets calls).\<close>

inductive reachable :: "TdmaMac \<Rightarrow> State \<Rightarrow> State \<Rightarrow> bool" for mac state0 where
  started: "start mac state0 = Some (True, state) \<Longrightarrow> reachable mac state0 state"
| called: "reachable mac state0 state \<Longrightarrow> handle mac call state = Some state' \<Longrightarrow> reachable mac state0 state'"
| stopped: "reachable mac state0 state \<Longrightarrow> reachable mac state0 (stop mac state)"

inductive_cases reachable_cases: "reachable mac state0 state"

definition fresh :: "State \<Rightarrow> bool" where
  "fresh state \<longleftrightarrow> schedule_ok state \<and> (\<forall>i < 5. queues state i = [])"

lemma start_ok:
  assumes "fresh state"
  shows "\<exists>b state'. start mac state = Some (b, state') \<and> (b \<longrightarrow> send_inv state')"
proof -
  define s0 where "s0 = (\<lambda>curve. state\<lparr>pcr := Some curve, available_tokens := flow_control_tokens state, started := True\<rparr>)"
  have i0: "send_inv (s0 c)" for c
    using assms by (simp add: fresh_def send_inv_def s0_def schedule_ok_def tokens_ok_def queued_count_def)
  have "\<exists>s1. (if flow_control_enable (s0 c) then send_flow_update mac (available_tokens (s0 c)) (s0 c) else Some (s0 c)) = Some s1 \<and> send_inv s1" for c
  proof (cases "flow_control_enable (s0 c)")
    case True
    obtain s where s: "send_flow_update mac (available_tokens (s0 c)) (s0 c) = Some s" using flow_update_total by blast
    with True i0 send_inv_core [OF core_flow_update [OF s]] show ?thesis by simp
  qed (use i0 in simp)
  then obtain s1 where s1: "(if flow_control_enable (s0 c) then send_flow_update mac (available_tokens (s0 c)) (s0 c) else Some (s0 c)) = Some (s1 c)" "send_inv (s1 c)" for c
    by metis
  have "\<exists>s2. schedule_next_tx mac True (s1 c) = Some s2 \<and> send_inv s2" for c
  proof -
    have "schedule_ok (s1 c)" using s1(2) [of c] by (simp add: send_inv_def)
    then obtain s where s: "schedule_next_tx mac True (s1 c) = Some s" "send_part s = send_part (s1 c)"
      using schedule_next_tx_ok by blast
    from s(1) send_inv_partI [OF s1(2) s(2)] show ?thesis by blast
  qed
  then obtain s2 where s2: "schedule_next_tx mac True (s1 c) = Some (s2 c)" "send_inv (s2 c)" for c by metis
  have "send_inv (schedule_neighbor_status mac (schedule_reassembly_check mac (s2 c)))" for c
    by (intro send_inv_partI [OF s2(2) [of c]]) simp
  then show ?thesis
    using s1(1) s2(1) unfolding start_def Let_def s0_def by (auto split: option.split)
qed

text \<open>A start hands out all tokens again and leaves the queues as they are.\<close>

lemma start_part:
  assumes "start mac state = Some (True, state')" "schedule_ok state"
  shows "send_part state' = send_part (state\<lparr>available_tokens := flow_control_tokens state\<rparr>)"
proof -
  obtain curve where c: "pcr_uri state \<noteq> ''''" "env_load_pcr (mac_env mac) (pcr_uri state) = Some curve"
    using assms(1) by (auto simp: start_def split: if_splits option.splits)
  define s0 where "s0 = state\<lparr>pcr := Some curve, available_tokens := flow_control_tokens state, started := True\<rparr>"
  obtain s1 s2 where s1: "(if flow_control_enable s0 then send_flow_update mac (available_tokens s0) s0 else Some s0) = Some s1"
    and s2: "schedule_next_tx mac True s1 = Some s2" "state' = schedule_neighbor_status mac (schedule_reassembly_check mac s2)"
    using assms(1) c by (auto simp: start_def s0_def [symmetric] Let_def split: Option.bind_splits)
  have p1: "send_part s1 = send_part s0"
    using s1 by (auto split: if_splits dest!: core_flow_update intro: send_part_core)
  then have "schedule s1 = schedule s0" by (simp add: send_part_def)
  then have "schedule_ok s1" using assms(2) by (simp add: schedule_ok_def s0_def)
  from schedule_next_tx_ok [OF this, of mac True] have "send_part s2 = send_part s1" using s2(1) by auto
  then have "send_part state' = send_part s0" using p1 by (simp add: s2(2))
  then show ?thesis by (simp add: s0_def send_part_def)
qed

lemma reachable_inv:
  assumes "reachable mac state0 state" "fresh state0"
  shows "send_inv state"
  using assms
proof (induction rule: reachable.induct)
  case (started state)
  then show ?case using start_ok [of state0 mac] by auto
next
  case (called state call state')
  then show ?case using handle_ok [of state mac call] by auto
next
  case (stopped state)
  then show ?case using send_inv_partI [OF _ stop_part] by blast
qed


section \<open>A stopped radio model\<close>

definition quiet :: "State \<Rightarrow> bool" where
  "quiet state \<longleftrightarrow> \<not> started state \<and> next_tx_slot state = None \<and> pending_rx state = Map.empty"

lemma quiet_core: "core a = core b \<Longrightarrow> quiet a = quiet b"
  using core_eqD [of a b] by (simp add: quiet_def)

lemma quiet_config: "same_config a b \<Longrightarrow> quiet a = quiet b"
  using same_configD [of a b] by (simp add: quiet_def)

lemma quiet_update [simp]:
  "quiet (emit e state) = quiet state" "quiet (state\<lparr>timers := x1\<rparr>) = quiet state"
  "quiet (state\<lparr>available_tokens := x2\<rparr>) = quiet state" "quiet (state\<lparr>next_sequence := x3\<rparr>) = quiet state"
  "quiet (set_queue i q state) = quiet state" "quiet (credit_token state) = quiet state"
  "sends (state\<lparr>timers := x1\<rparr>) = sends state" "sends (state\<lparr>available_tokens := x2\<rparr>) = sends state"
  "sends (state\<lparr>next_sequence := x3\<rparr>) = sends state"
  by (simp_all add: quiet_def emit_def set_queue_def credit_token_def sends_def)

lemma quiet_statistics [simp]:
  "quiet (increment mac n k state) = quiet state" "quiet (maximize mac n k state) = quiet state"
  "quiet (publish_queue_tables mac i state) = quiet state" "quiet (set_statistics i x state) = quiet state"
  "quiet (count_overflow mac i p state) = quiet state" "quiet (record_packet_drop mac i s d len r state) = quiet state"
  by (simp_all add: quiet_core [OF core_counter(1)] quiet_core [OF core_counter(2)] quiet_core [OF core_publish]
      quiet_core [OF core_set_statistics] quiet_core [OF core_count_overflow] quiet_core [OF core_record_drop])

lemma stop_quiet: "quiet (stop mac state)"
proof -
  have "quiet s \<Longrightarrow> quiet (fold (\<lambda>timer. emit (CancelTimedEvent timer)) ts s)" for ts s
    by (induction ts arbitrary: s) simp_all
  then show ?thesis by (simp add: stop_def Let_def quiet_def)
qed

lemma sends_count_overflow [simp]: "sends (count_overflow mac i p state) = sends state"
  by (simp add: count_overflow_def Let_def)

lemma make_room_quiet: "make_room mac i state = Some state' \<Longrightarrow> quiet state' = quiet state \<and> sends state' = sends state"
  by (auto simp: make_room_def Let_def split: if_splits)

lemma enqueue_quiet: "quiet (enqueue_packet mac i p state) = quiet state \<and> sends (enqueue_packet mac i p state) = sends state"
  by (simp add: enqueue_packet_def Let_def)

lemma downstream_quiet:
  assumes "quiet state" "downstream mac packet state = Some state'"
  shows "quiet state' \<and> sends state' = sends state"
  using assms
  by (auto simp: downstream_def Let_def enqueue_quiet dest!: make_room_quiet split: option.splits if_splits)

lemma upstream_quiet:
  assumes "\<not> started state" "upstream mac packet messages state = Some state'"
  shows "state' = state"
  using assms by (auto simp: upstream_def Let_def split: option.splits if_splits Option.bind_splits prod.splits)

lemma timed_quiet:
  assumes "quiet state" "timed mac t e d state = Some state'"
  shows "quiet state' \<and> sends state' = sends state"
  using assms by (auto simp: timed_def Let_def quiet_def complete_receive_def sends_def split: if_splits)

lemma fold_quiet:
  "(\<And>x s. x \<in> set xs \<Longrightarrow> quiet (f x s) = quiet s \<and> sends (f x s) = sends s) \<Longrightarrow>
   quiet (fold f xs s) = quiet s \<and> sends (fold f xs s) = sends s"
  by (induction xs arbitrary: s) simp_all

lemma publish_schedule_quiet:
  "quiet (publish_schedule_tables mac sch state) = quiet state \<and> sends (publish_schedule_tables mac sch state) = sends state"
proof -
  have *: "quiet (set_table_row mac n ks vs s) = quiet s \<and> sends (set_table_row mac n ks vs s) = sends s" for n ks vs s
    by (simp add: quiet_core [OF core_counter(3)])
  show ?thesis
    unfolding publish_schedule_tables_def Let_def
    using fold_quiet [where f = "\<lambda>(index, sl). set_table_row mac ''scheduler.ScheduleInfoTable'' [word_of_nat index] (slot_row sch index sl)"]
    by (simp add: * split: prod.split)
qed

lemma install_schedule_quiet:
  assumes "quiet state"
  shows "quiet (install_schedule mac sch full state) \<and> sends (install_schedule mac sch full state) = sends state"
proof -
  have c: "quiet (fold (clear_table mac) ns s) = quiet s \<and> sends (fold (clear_table mac) ns s) = sends s" for ns s
    by (rule fold_quiet) (simp add: quiet_core [OF core_counter(4)])
  have e: "quiet (fold (\<lambda>timer. emit (CancelTimedEvent timer)) ts s) = quiet s
      \<and> sends (fold (\<lambda>timer. emit (CancelTimedEvent timer)) ts s) = sends s" for ts s
    by (rule fold_quiet) simp
  have u: "quiet (s\<lparr>tx_slot_statistics := x, rx_slot_statistics := y\<rparr>) = quiet s"
      "quiet (s\<lparr>schedule := p, next_tx_slot := None, reassembly := r\<rparr>) = (\<not> started s \<and> pending_rx s = Map.empty)"
      "sends (s\<lparr>schedule := p, next_tx_slot := None, reassembly := r\<rparr>) = sends s"
      "quiet (s\<lparr>schedule := p, next_tx_slot := None\<rparr>) = (\<not> started s \<and> pending_rx s = Map.empty)"
      "sends (s\<lparr>schedule := p, next_tx_slot := None\<rparr>) = sends s" for s x y p r
    by (simp_all add: quiet_def sends_def)
  define t where "t = (let state = increment mac (if full then ''scheduler.scheduleAcceptFull'' else ''scheduler.scheduleAcceptUpdate'') 1 state
     in publish_schedule_tables mac sch (if full
             then (fold (clear_table mac)
                     [''scheduler.ScheduleInfoTable'', ''scheduler.StructureInfoTable'', ''TxSlotStatusTable'',
                      ''RxSlotStatusTable''] state)\<lparr>tx_slot_statistics := Map.empty, rx_slot_statistics := Map.empty\<rparr>
             else state))"
  have "quiet t \<and> sends t = sends state"
    using assms by (simp add: t_def Let_def publish_schedule_quiet quiet_core [OF core_counter(4)] u)
  moreover have "quiet t \<Longrightarrow> \<not> started t \<and> pending_rx t = Map.empty" by (simp add: quiet_def)
  ultimately show ?thesis
    unfolding install_schedule_def Let_def t_def [unfolded Let_def, symmetric]
    by (simp add: e u split: option.split)
qed

lemma process_event_quiet:
  assumes "quiet state" "process_event mac e bytes state = Some state'"
  shows "quiet state' \<and> sends state' = sends state"
proof -
  have nx: "quiet s \<Longrightarrow> schedule_next_tx mac b s = Some s' \<Longrightarrow> quiet s' \<and> sends s' = sends s" for b s s'
    by (auto simp: schedule_next_tx_def now_us_def Let_def quiet_def emit_def sends_def split: option.splits)
  show ?thesis
  proof (cases "e = EVENT_TDMA_SCHEDULE")
    case True
    show ?thesis
    proof (cases "parse_schedule (env_decode_schedule (mac_env mac)) bytes (schedule state)")
      case (Some r)
      with True assms nx install_schedule_quiet [OF assms(1)] show ?thesis
        by (cases r) (fastforce simp: process_event_def)+
    qed (use True assms in \<open>simp add: process_event_def\<close>)
  qed (use assms in \<open>simp add: process_event_def\<close>)
qed

lemma handle_quiet:
  assumes "quiet state" "handle mac call state = Some state'"
  shows "quiet state' \<and> sends state' = sends state"
proof (cases call)
  case (CallUpstream packet messages)
  with assms upstream_quiet [of state mac packet messages state'] show ?thesis by (simp add: quiet_def)
next
  case (CallDownstream packet)
  with assms show ?thesis using downstream_quiet [OF assms(1)] by simp
next
  case (CallTimed t e d)
  with assms show ?thesis using timed_quiet [OF assms(1)] by simp
next
  case (CallEvent e bytes)
  with assms show ?thesis using process_event_quiet [OF assms(1)] by simp
qed

lemma record_packet_drop_unicast:
  assumes "d \<noteq> BROADCAST_NEM" "q < length (unicast_drop state)"
  shows "broadcast_drop (record_packet_drop mac q s d n r state) = broadcast_drop state"
    "(unicast_drop (record_packet_drop mac q s d n r state) ! q) s \<noteq> None"
  using assms
  by (simp_all add: record_packet_drop_def check_generation_def table_generation_def set_table_row_def emit_def Let_def
      split: option.splits prod.splits)

section \<open>Properties\<close>

text \<open>A radio model with a clock that stands still and a framework that grants every timer, used to
  show that the hypotheses below can hold.\<close>

definition example_env :: Env where
  "example_env =
     \<lparr>env_now_us = (\<lambda>_. 0), env_table_generation = (\<lambda>_ _. 0), env_schedule_timed_event = (\<lambda>_. 1),
      env_reception_noise = (\<lambda>_ _. None), env_powf = (\<lambda>x _. x), env_decode_schedule = (\<lambda>_. Inl ''''),
      env_encode_message = (\<lambda>m. concat (map tm_data (bm_messages m))), env_decode_message = (\<lambda>_. None),
      env_load_pcr = (\<lambda>_. Some \<lparr>pcr_curves = Map.empty, pcr_packet_size = 0\<rparr>)\<rparr>"

definition example_mac :: TdmaMac where
  "example_mac = fst (new_mac 1 example_env (\<lambda>_. 1) (\<lambda>_. 0))"

definition example_state :: State where
  "example_state = (initial_state 1)\<lparr>pcr_uri := ''pcr.xml'', flow_control_enable := True,
     schedule := Some example_schedule\<rparr>"

definition example_packet :: OwnedPacket where
  "example_packet =
     \<lparr>op_info = \<lparr>pi_source = 1, pi_destination = 2, pi_priority = 0, pi_creation_time_sec = 0,
        pi_creation_time_usec = 0\<rparr>, op_payload = [1, 2, 3]\<rparr>"

lemma example_fresh: "fresh example_state"
  by (simp add: fresh_def example_state_def initial_state_def schedule_ok_def example_schedule_wf)

lemma example_started: "\<exists>state. start example_mac example_state = Some (True, state)"
proof -
  obtain b state where s: "start example_mac example_state = Some (b, state)"
    using start_ok [OF example_fresh, of example_mac] by blast
  moreover have "b"
    using s by (auto simp: start_def example_state_def initial_state_def example_mac_def new_mac_def example_env_def
        Let_def split: Option.bind_splits)
  ultimately show ?thesis by auto
qed

lemma example_reachable: "\<exists>state. reachable example_mac example_state state"
  using example_started reachable.started by blast

text \<open>C1: once started from empty queues, the radio model never panics: in every state it can reach
  by packets, timers and events, the next call returns and keeps the invariant of the sending side
  (well-formed schedule, token count, queue bounds, fragment offsets within their packets).\<close>

theorem tdma_never_panics:
  assumes "reachable mac state0 state" and "fresh state0"
  shows "\<exists>state'. handle mac call state = Some state' \<and> send_inv state'"
  using handle_ok [OF reachable_inv [OF assms]] .

theorem tdma_never_panics_witness:
  "\<exists>state state'. reachable example_mac example_state state
     \<and> handle example_mac (CallDownstream example_packet) state = Some state' \<and> send_inv state'"
  using example_reachable tdma_never_panics [OF _ example_fresh] by blast

text \<open>C7: a transmit slot either sends nothing or sends one frame, in that slot: the frame's
  components together fit the bytes the slot can carry at its data rate, the announced airtime fits
  the slot without its overhead, the transmit time and frequency are the schedule's, and the frame is
  sent only while the clock is inside the slot.\<close>

theorem transmit_slot_fits:
  assumes "send_inv state" and "schedule state = Some sch"
  shows "\<exists>state'. transmit_slot mac a state = Some state' \<and> send_inv state'
    \<and> frame_sent mac sch a state state'
    \<and> (sends state' \<noteq> sends state \<longrightarrow> absolute_slot sch (fst (now_us mac state)) = Some a)"
  using transmit_slot_spec [OF assms] by blast

lemma example_state_inv: "send_inv example_state"
proof -
  have "queued_count example_state = 0"
    by (simp add: queued_count_def example_state_def initial_state_def)
  then show ?thesis
    by (simp add: send_inv_def tokens_ok_def schedule_ok_def example_schedule_wf)
      (simp add: example_state_def initial_state_def example_schedule_wf)
qed

theorem transmit_slot_fits_witness:
  "\<exists>state'. transmit_slot example_mac 0 example_state = Some state'
     \<and> frame_sent example_mac example_schedule 0 example_state state'"
  using transmit_slot_fits [OF example_state_inv, of example_schedule example_mac 0]
  by (auto simp: example_state_def)

text \<open>An outgoing packet of at most 64 MiB that finds a token is appended to the queue of its
  priority class with the next sequence number; a full queue first gives up one packet, and the other
  queues are left alone.\<close>

lemma downstream_enqueues:
  assumes inv: "send_inv state" and small: "length (op_payload packet) \<le> 64 * 2 ^ 20"
    and depth: "queue_depth state \<noteq> 0" and tokens: "flow_control_enable state \<Longrightarrow> available_tokens state \<noteq> 0"
  defines "i \<equiv> priority_to_queue (pi_priority (op_info packet))"
  shows "\<exists>state' rest. downstream mac packet state = Some state' \<and> send_inv state'
    \<and> queues state' i = rest @ [\<lparr>qp_packet = packet, qp_sequence = next_sequence state + 1, qp_offset = 0,
          qp_fragment_index = 0\<rparr>]
    \<and> (rest = queues state i \<or> (\<exists>k < length (queues state i). rest = remove_nth k (queues state i)))
    \<and> (\<forall>j. j \<noteq> i \<longrightarrow> queues state' j = queues state j)
    \<and> flow_control_enable state' = flow_control_enable state \<and> flow_control_tokens state' = flow_control_tokens state"
proof -
  have i: "i < 5" by (simp add: i_def priority_to_queue_less)
  obtain s1 where s1: "make_room mac i state = Some s1" "send_inv s1" "same_config state s1"
      "length (queues s1 i) < queue_depth state" "available_tokens state \<noteq> 0 \<longrightarrow> available_tokens s1 \<noteq> 0"
      "\<forall>j. j \<noteq> i \<longrightarrow> queues s1 j = queues state j"
      "queues s1 i = queues state i \<or> (\<exists>k < length (queues state i). queues s1 i = remove_nth k (queues state i))"
    using make_room_spec [OF inv i depth] by blast
  let ?s = "enqueue_packet mac i packet s1"
  have "downstream mac packet state = Some ?s"
    using small depth tokens s1(1) by (auto simp: downstream_def own_packet_def i_def Let_def)
  moreover have e: "enqueued_state mac i packet s1 ?s" by (rule enqueue_packet_spec)
  moreover have c: "queue_depth s1 = queue_depth state" "flow_control_enable s1 = flow_control_enable state"
      "next_sequence s1 = next_sequence state"
    using same_configD [OF s1(3)] by auto
  have "send_inv ?s"
    using s1(4,5) tokens c by (intro enqueued_inv [OF e s1(2) i]) auto
  moreover have "queues ?s i = queues s1 i @ [\<lparr>qp_packet = packet, qp_sequence = next_sequence state + 1,
      qp_offset = 0, qp_fragment_index = 0\<rparr>]" "\<forall>j. j \<noteq> i \<longrightarrow> queues ?s j = queues state j"
    using e c(3) s1(6) by (auto simp: enqueued_state_def)
  moreover have "flow_control_enable ?s = flow_control_enable state" "flow_control_tokens ?s = flow_control_tokens state"
    using e same_configD [OF s1(3)] same_configD [of "s1\<lparr>next_sequence := 0\<rparr>" "?s\<lparr>next_sequence := 0\<rparr>"]
    by (auto simp: enqueued_state_def)
  ultimately show ?thesis using s1(7) by metis
qed

text \<open>C22: flow control loses and invents no token. With flow control enabled, in every state reached from a
  start with empty queues by packets, timers, events and stops, until the next start, the tokens that
  are available and the packets that are queued add up to the configured number; with and without flow
  control no queue is longer than the configured depth.\<close>

theorem tdma_tokens_conserved:
  assumes "reachable mac state0 state" and "fresh state0"
  shows "(flow_control_enable state \<longrightarrow>
      unat (available_tokens state) + queued_count state = unat (flow_control_tokens state))
    \<and> (\<forall>i < 5. length (queues state i) \<le> queue_depth state)"
  using reachable_inv [OF assms] by (auto simp: send_inv_def tokens_ok_def)

text \<open>One packet is queued: nine of the ten tokens are left.\<close>

lemma example_one_queued:
  "\<exists>state. reachable example_mac example_state state \<and> flow_control_enable state \<and> flow_control_tokens state = 10
     \<and> queued_count state = 1"
proof -
  obtain s where s: "start example_mac example_state = Some (True, s)" using example_started by blast
  have "schedule_ok example_state" using example_fresh by (simp add: fresh_def)
  from start_part [OF s this] have p: "flow_control_enable s" "flow_control_tokens s = 10" "available_tokens s = 10"
      "queue_depth s \<noteq> 0" "\<And>i. queues s i = []"
    by (auto simp: send_part_def example_state_def initial_state_def)
  have r: "reachable example_mac example_state s" using s by (rule reachable.started)
  have i: "priority_to_queue (pi_priority (op_info example_packet)) = 0" "length (op_payload example_packet) = 3"
    by (simp_all add: example_packet_def priority_to_queue_def)
  obtain s' rest where s': "downstream example_mac example_packet s = Some s'" "flow_control_enable s' = flow_control_enable s"
      "flow_control_tokens s' = flow_control_tokens s" "length (queues s' 0) = Suc (length rest)"
      "rest = [] \<or> (\<exists>k < length (queues s 0). rest = remove_nth k (queues s 0))" "\<forall>j. j \<noteq> 0 \<longrightarrow> queues s' j = queues s j"
    using downstream_enqueues [OF reachable_inv [OF r example_fresh], of example_packet example_mac] p i by auto
  have "reachable example_mac example_state s'" using s'(1) by (intro reachable.called [OF r, of "CallDownstream example_packet"]) simp
  moreover have "queued_count s' = 1" using s'(4-6) p(5) by (simp add: queued_count_def upt_rec)
  ultimately show ?thesis using s'(2,3) p by metis
qed

theorem tdma_tokens_conserved_witness:
  "\<exists>state. reachable example_mac example_state state \<and> flow_control_enable state \<and> queued_count state = 1
     \<and> unat (available_tokens state) = 9"
proof -
  obtain state where s: "reachable example_mac example_state state" "flow_control_enable state" "flow_control_tokens state = 10"
      "queued_count state = 1"
    using example_one_queued by blast
  then have "unat (available_tokens state) = 9" using tdma_tokens_conserved [OF s(1) example_fresh] by simp
  with s show ?thesis by blast
qed

text \<open>The restart is the limit of this: \<open>stop\<close> keeps the queues and \<open>start\<close> grants every token again, so the packets
  that were queued hold no token any more.\<close>

lemma restart_grants_all_tokens:
  assumes "send_inv state" "start mac (stop mac state) = Some (True, state')"
  shows "queues state' = queues state
    \<and> unat (available_tokens state') + queued_count state' = unat (flow_control_tokens state') + queued_count state"
proof -
  have k: "schedule (stop mac state) = schedule state" "flow_control_tokens (stop mac state) = flow_control_tokens state"
      "queues (stop mac state) = queues state"
    using stop_part [of mac state] by (simp_all add: send_part_def)
  then have "schedule_ok (stop mac state)" using assms(1) by (simp add: send_inv_def schedule_ok_def)
  from start_part [OF assms(2) this] k have "queues state' = queues state" "available_tokens state' = flow_control_tokens state'"
    by (auto simp: send_part_def)
  then show ?thesis using queued_count_cong [of state' state] by simp
qed

text \<open>A stopped radio model is silent. As long as it is not started again, no packet, timer or
  event makes it send a packet in either direction, and nothing starts it.\<close>

lemma stopped_mac_is_silent:
  assumes "quiet state" and "handle mac call state = Some state'"
  shows "quiet state' \<and> sends state' = sends state"
  using handle_quiet [OF assms] .

text \<open>A schedule event that is rejected changes nothing but the counters: the current schedule,
  the queues, the pending transmission and the timers stay as they are.\<close>

lemma rejected_schedule_keeps_state:
  assumes "parse_schedule (env_decode_schedule (mac_env mac)) bytes (schedule state) = Some (Inl error)"
  shows "\<exists>state'. process_event mac event bytes state = Some state' \<and> core state' = core state
    \<and> sends state' = sends state"
  using assms by (simp add: process_event_def)

text \<open>A packet refused for lack of tokens is counted as unicast even when it is a broadcast: the
  call passes the packet's source where the destination is expected.\<close>

lemma flow_control_drop_miscounted:
  assumes "flow_control_enable state" and "available_tokens state = 0" and "length (op_payload packet) \<le> 64 * 2 ^ 20"
    and "pi_destination (op_info packet) = BROADCAST_NEM" and "pi_source (op_info packet) \<noteq> BROADCAST_NEM"
    and "length (unicast_drop state) = 5"
  shows "\<exists>state'. downstream mac packet state = Some state' \<and> broadcast_drop state' = broadcast_drop state
    \<and> (unicast_drop state' ! priority_to_queue (pi_priority (op_info packet))) (pi_source (op_info packet)) \<noteq> None"
  using assms record_packet_drop_unicast [OF assms(5), of "priority_to_queue (pi_priority (op_info packet))" state mac
      "pi_source (op_info packet)" "length (op_payload packet)" DropFlowControl]
  by (simp add: downstream_def own_packet_def Let_def priority_to_queue_less)

end
