(* ===== verification/Tdma_Link.thy ===== *)
theory Tdma_Link
  imports Tdma_Mac
begin

text \<open>
  The sending and the receiving side of the TDMA radio model together: the transmissions of one
  queued packet are a fragmentation of its payload, and the receiver that gets their wire
  messages, in any order, repeated and mixed with other traffic, delivers the packet.
\<close>

text \<open>A transmission taken from a queued packet, and the packet it leaves behind.\<close>

definition item_from :: "QueuedPacket \<Rightarrow> Transmission \<Rightarrow> bool" where
  "item_from q item \<longleftrightarrow>
     (let payload = op_payload (qp_packet q)
      in tr_bytes item = take (length (tr_bytes item)) (drop (qp_offset q) payload)
         \<and> qp_offset q + length (tr_bytes item) \<le> length payload
         \<and> (qp_offset q < length payload \<longrightarrow> tr_bytes item \<noteq> [])
         \<and> tr_info item = op_info (qp_packet q) \<and> tr_sequence item = qp_sequence q
         \<and> tr_offset item = qp_offset q
         \<and> tr_more item = (qp_offset q + length (tr_bytes item) < length payload))"

definition advance :: "QueuedPacket \<Rightarrow> Transmission \<Rightarrow> QueuedPacket" where
  "advance q item = q\<lparr>qp_offset := qp_offset q + length (tr_bytes item),
                      qp_fragment_index := saturating_add (qp_fragment_index q) 1\<rparr>"

lemma take_item_from:
  assumes "take_item mac sch a sl i j q n state = Some (TakeSome item state')" "0 < n"
    and "j < length (queues state i)"
  shows "item_from q item"
    and "tr_more item \<Longrightarrow> queues state' i ! j = advance q item"
proof -
  let ?p = "op_payload (qp_packet q)"
  define taken where "taken = min (length ?p - qp_offset q) n"
  obtain bytes where b: "slice ?p (qp_offset q) (qp_offset q + taken) = Some bytes"
    using assms(1) by (auto simp: take_item_def Let_def taken_def split: Slot.splits option.splits)
  have le: "qp_offset q + taken \<le> length ?p" and bytes: "bytes = take taken (drop (qp_offset q) ?p)" "length bytes = taken"
    using b by (auto simp: slice_def split: if_splits)
  have item: "tr_bytes item = bytes" "tr_info item = op_info (qp_packet q)" "tr_sequence item = qp_sequence q" "tr_offset item = qp_offset q"
    "tr_more item = (qp_offset q + taken < length ?p)"
    using assms(1) b by (auto simp: take_item_def Let_def taken_def split: Slot.splits)
  have "qp_offset q < length ?p \<Longrightarrow> bytes \<noteq> []" using bytes(2) assms(2) by (auto simp: taken_def)
  then show "item_from q item" using item le bytes by (simp add: item_from_def Let_def)
  show "tr_more item \<Longrightarrow> queues state' i ! j = advance q item"
    using assms(1,3) b item(1,5) bytes(2)
    by (auto simp: take_item_def Let_def advance_def taken_def split: Slot.splits)
qed

text \<open>All transmissions of a packet, from its first to its last, as \<open>take_item\<close> makes them. The states are those in
  which it is called: between two transmissions of the packet the queues may change in any way, as long
  as the packet is in one of them as the transmission before left it.\<close>

inductive packet_items :: "TdmaMac \<Rightarrow> QueuedPacket \<Rightarrow> Transmission list \<Rightarrow> bool" for mac where
  final: "take_item mac sch a sl i j q n state = Some (TakeSome item state') \<Longrightarrow> 0 < n \<Longrightarrow>
    j < length (queues state i) \<Longrightarrow> queues state i ! j = q \<Longrightarrow> \<not> tr_more item \<Longrightarrow> packet_items mac q [item]"
| more: "take_item mac sch a sl i j q n state = Some (TakeSome item state') \<Longrightarrow> 0 < n \<Longrightarrow>
    j < length (queues state i) \<Longrightarrow> queues state i ! j = q \<Longrightarrow> tr_more item \<Longrightarrow>
    packet_items mac (queues state' i ! j) items \<Longrightarrow> packet_items mac q (item # items)"

lemma packet_items_cases:
  assumes "packet_items mac q items"
  obtains item where "items = [item]" "item_from q item" "\<not> tr_more item"
    | item rest where "items = item # rest" "item_from q item" "tr_more item" "packet_items mac (advance q item) rest"
  using assms by (cases rule: packet_items.cases) (metis take_item_from)+

definition piece_of :: "Transmission \<Rightarrow> nat \<times> byte list" where
  "piece_of item = (tr_offset item, tr_bytes item)"

lemma item_from_final: "item_from q item \<Longrightarrow> \<not> tr_more item \<Longrightarrow> tr_bytes item = drop (qp_offset q) (op_payload (qp_packet q))"
proof -
  assume i: "item_from q item" "\<not> tr_more item"
  let ?n = "length (tr_bytes item)" and ?d = "drop (qp_offset q) (op_payload (qp_packet q))"
  have t: "tr_bytes item = take ?n ?d" "\<not> qp_offset q + ?n < length (op_payload (qp_packet q))"
    using i unfolding item_from_def Let_def by blast+
  have "length ?d \<le> ?n" using t(2) by simp
  then have "take ?n ?d = ?d" by (rule take_all)
  then show ?thesis using t(1) by simp
qed

lemma packet_items_cover:
  assumes "packet_items mac q items" "qp_offset q < length (op_payload (qp_packet q))"
  shows "contiguous (qp_offset q) (map piece_of items)
    \<and> concat (map tr_bytes items) = drop (qp_offset q) (op_payload (qp_packet q))"
  using assms
proof (induction rule: packet_items.induct)
  case (final sch a sl i j q n state item state')
  note from_q = take_item_from(1) [OF final(1-3)]
  then show ?case using item_from_final [OF from_q final(5)] final(5,6) by (auto simp: piece_of_def item_from_def Let_def)
next
  case (more sch a sl i j q n state item state' items)
  let ?n = "length (tr_bytes item)" and ?p = "op_payload (qp_packet q)"
  note next_q = take_item_from(2) [OF more.hyps(1-3,5)]
  have f: "tr_bytes item = take ?n (drop (qp_offset q) ?p)" "tr_bytes item \<noteq> []" "tr_offset item = qp_offset q"
      "qp_offset q + ?n < length ?p"
    using take_item_from(1) [OF more.hyps(1-3)] more.hyps(5) more.prems by (auto simp: item_from_def Let_def)
  have IH: "contiguous (qp_offset q + ?n) (map piece_of items)" "concat (map tr_bytes items) = drop (qp_offset q + ?n) ?p"
    using more.IH f(4) by (simp_all add: next_q advance_def)
  have "tr_bytes item @ drop (qp_offset q + ?n) ?p = drop (qp_offset q) ?p"
    using f(1) take_drop_join by metis
  then show ?case using IH f by (simp add: piece_of_def [of item])
qed

lemma packet_items_ids:
  "packet_items mac q items \<Longrightarrow> \<forall>item \<in> set items. tr_info item = op_info (qp_packet q) \<and> tr_sequence item = qp_sequence q
     \<and> tr_more item = (tr_offset item + length (tr_bytes item) < length (op_payload (qp_packet q)))"
proof (induction rule: packet_items.induct)
  case (final sch a sl i j q n state item state')
  then show ?case using take_item_from(1) [OF final(1-3)] by (simp add: item_from_def Let_def)
next
  case (more sch a sl i j q n state item state' items)
  then show ?case using take_item_from(1) [OF more.hyps(1-3)] take_item_from(2) [OF more.hyps(1-3,5)]
    by (auto simp: item_from_def Let_def advance_def)
qed

lemma packet_items_fragmentation:
  assumes "packet_items mac q items" "qp_offset q = 0" "op_payload (qp_packet q) \<noteq> []"
  shows "fragmentation (op_payload (qp_packet q)) (map piece_of items)"
proof -
  have "items \<noteq> []" using assms(1) by (cases rule: packet_items_cases) auto
  then show ?thesis
    using packet_items_cover [OF assms(1)] assms(2,3) by (simp add: fragmentation_def comp_def piece_of_def)
qed

text \<open>The key under which the receiver collects the fragments of a packet.\<close>

definition packet_key :: "u16 \<Rightarrow> QueuedPacket \<Rightarrow> u16 \<times> u8 \<times> u64" where
  "packet_key src q = (src, pi_priority (op_info (qp_packet q)), qp_sequence q)"

lemma items_carry:
  assumes "packet_items sender q items" "qp_offset q = 0" "length (op_payload (qp_packet q)) \<le> 64 * 2 ^ 20"
    "op_payload (qp_packet q) \<noteq> []" "item \<in> set items" "2 \<le> length items"
    "pi_source info = src" "promisc \<or> d = mac_id mac \<or> d = BROADCAST_NEM" "d = pi_destination (op_info (qp_packet q))"
  shows "carries mac promisc (packet_key src q) d (op_payload (qp_packet q)) (piece_of item) info (wire_message item)"
proof -
  let ?p = "op_payload (qp_packet q)"
  have frs: "fragmentation ?p (map piece_of items)" by (rule packet_items_fragmentation [OF assms(1,2,4)])
  note ids = packet_items_ids [OF assms(1), rule_format, OF assms(5)]
  have x: "(tr_offset item, tr_bytes item) \<in> set (map piece_of items)" using assms(5) by (auto simp: piece_of_def)
  have c: "contiguous 0 (map piece_of items)" "concat (map snd (map piece_of items)) = ?p" using frs by (auto simp: fragmentation_def)
  note fin = contiguous_end [OF c(1) x, unfolded c(2)]
  have off: "tr_offset item < 2 ^ 32" using fin assms(3) by simp
  have "tr_offset item \<noteq> 0 \<or> tr_more item"
  proof (rule ccontr)
    assume "\<not> (tr_offset item \<noteq> 0 \<or> tr_more item)"
    then have z: "tr_offset item = 0" "\<not> tr_more item" by auto
    then have l: "(0, tr_bytes item) = last (map piece_of items)" using ids fin by auto
    obtain a b rest where it: "items = a # b # rest" using assms(6) by (cases items; cases "tl items") auto
    have f: "fst (piece_of a) = 0" "distinct (map fst (map piece_of items))"
      using c(1) contiguous_distinct [OF c(1)] it by (auto simp: piece_of_def)
    have "last (map piece_of items) \<in> set (map piece_of (b # rest))" by (simp add: it last_map)
    then have "0 \<in> fst ` set (map piece_of (b # rest))" using l by (metis fst_conv image_eqI)
    with f it show False by auto
  qed
  then show ?thesis
    using ids assms(7-9) off
    by (auto simp: carries_def wire_message_def key_of_def packet_key_def fragment_of_def piece_of_def
        unat_of_nat take_bit_nat_eq_self_iff simp flip: take_bit_eq_mod)
qed


lemma packet_items_nonempty:
  assumes "packet_items mac q items" "2 \<le> length items"
  shows "op_payload (qp_packet q) \<noteq> []"
  using assms by (cases rule: packet_items_cases) (auto simp: item_from_def Let_def)

lemma fragmentation_inj:
  assumes "fragmentation payload (map piece_of items)"
  shows "inj_on piece_of (set items)"
proof -
  have "contiguous 0 (map piece_of items)" using assms by (simp add: fragmentation_def)
  then have "distinct (map fst (map piece_of items))" by (rule contiguous_distinct)
  then have "inj_on (fst \<circ> piece_of) (set items)" by (simp add: distinct_map o_def)
  then show ?thesis by (rule inj_on_imageI2)
qed

section \<open>Properties\<close>

text \<open>When several receptions fall into one slot, the one that is kept for the end of the slot is
  one that started first.\<close>

lemma earliest_reception_wins:
  assumes "accept_all mac sch cur ((now, p) # ps) state = Some state'" and "pending_rx state cur = None"
    and "\<And>es. env_schedule_timed_event (mac_env mac) es \<noteq> 0"
  shows "\<exists>w \<in> insert p (snd ` set ps). pending_rx state' cur = Some w
    \<and> (\<forall>x \<in> insert p (snd ` set ps). start_of w \<le> start_of x)"
proof -
  obtain s1 where s1: "accept_reception mac sch cur now p state = Some s1" "accept_all mac sch cur ps s1 = Some state'"
    using assms(1) by (auto split: Option.bind_splits)
  have "pending_rx s1 cur = Some p" using accept_reception_first [OF s1(1) assms(2,3)] .
  from accept_all_locked [OF s1(2) this] show ?thesis by auto
qed

definition example_reception :: "i64 \<Rightarrow> PendingReception" where
  "example_reception t = \<lparr>pr_info = op_info example_packet,
     pr_wire = \<lparr>bm_absolute_slot_index = 0, bm_data_rate_bps = 1, bm_messages = []\<rparr>,
     pr_model_sequence = 0, pr_packet_len = 0, pr_spectrum_query = \<lparr>fsq_frequency_hz = 1, fsq_start_time_microseconds = t,
       fsq_duration_microseconds = 1, fsq_rx_power_dbm = 0, fsq_antenna_index = 0\<rparr>\<rparr>"

text \<open>C2: what one node's queue sends, another node's receiver puts together. The transmissions that \<open>take_item\<close>
  makes of a packet that is sent in several parts, received in any order, repeated and mixed with other
  messages and with checks for old partial packets, deliver exactly the packet's payload, with its source,
  priority and destination, when the last missing part arrives. The checks have to come less than the
  fragment timeout after each part that has arrived.\<close>

theorem fragments_reassemble:
  assumes items: "packet_items sender q items" "qp_offset q = 0" "2 \<le> length items"
    and size: "length (op_payload (qp_packet q)) \<le> 64 * 2 ^ 20"
    and dest: "promiscuous state \<or> pi_destination (op_info (qp_packet q)) \<in> {mac_id mac, BROADCAST_NEM}"
    and new: "map_of (reassembly state) (packet_key src q) = None" "distinct (map fst (reassembly state))"
    and all_evs: "all_evs = evs @ [RxMessage now info (wire_message item)]"
    and messages: "\<forall>t i m. RxMessage t i m \<in> set all_evs \<longrightarrow>
        key_of i m \<noteq> Some (packet_key src q) \<or> pi_source i = src \<and> m \<in> wire_message ` set items"
    and checks: "\<forall>t. RxCheck t \<in> set all_evs \<longrightarrow> in_time (fragment_timeout_us state) (key_times (packet_key src q) all_evs) t"
    and last: "item \<in> set items" "pi_source info = src"
      "\<forall>t i. RxMessage t i (wire_message item) \<in> set evs \<longrightarrow> pi_source i \<noteq> src"
    and others: "\<forall>x \<in> set items - {item}. \<exists>t i. RxMessage t i (wire_message x) \<in> set evs \<and> pi_source i = src"
  shows "\<exists>i. pi_source i = src \<and> pi_priority i = pi_priority (op_info (qp_packet q))
    \<and> pi_destination i = pi_destination (op_info (qp_packet q))
    \<and> snd (receive_all mac all_evs (state, ds)) =
        snd (receive_all mac evs (state, ds)) @ [\<lparr>op_info = i, op_payload = op_payload (qp_packet q)\<rparr>]"
proof -
  let ?p = "op_payload (qp_packet q)" and ?d = "pi_destination (op_info (qp_packet q))" and ?k = "packet_key src q"
  let ?b = "promiscuous state" and ?frs = "map piece_of items"
  have ne: "?p \<noteq> []" using packet_items_nonempty [OF items(1,3)] .
  have frs: "fragmentation ?p ?frs" using packet_items_fragmentation [OF items(1,2) ne] .
  have carry: "x \<in> set items \<Longrightarrow> pi_source i = src \<Longrightarrow> carries mac ?b ?k ?d ?p (piece_of x) i (wire_message x)" for x i
    using dest by (intro items_carry [OF items(1,2) size ne _ items(3)]) auto
  have own: "own_or_other mac ?b (fragment_timeout_us state) (key_times ?k all_evs) ?k ?d ?p ?frs ev" if "ev \<in> set all_evs" for ev
  proof (cases ev)
    case (RxMessage t i m)
    then show ?thesis using messages that carry by (fastforce simp: own_or_other_def)
  next
    case (RxCheck t)
    then show ?thesis using checks that by (simp add: own_or_other_def)
  qed
  have inj: "x \<in> set items \<Longrightarrow> y \<in> set items \<Longrightarrow> piece_of x = piece_of y \<Longrightarrow> x = y" for x y
    using fragmentation_inj [OF frs] by (simp add: inj_on_def)
  have missing: "piece_of item \<notin> pieces_in mac ?b ?k ?d ?p ?frs evs"
  proof
    assume "piece_of item \<in> pieces_in mac ?b ?k ?d ?p ?frs evs"
    then obtain ev where ev: "ev \<in> set evs" "carried_by mac ?b ?k ?d ?p (piece_of item) ev" by (auto simp: pieces_in_def)
    obtain t i m where m: "ev = RxMessage t i m" "carries mac ?b ?k ?d ?p (piece_of item) i m" using ev(2) by (cases ev) simp_all
    then obtain x where x: "pi_source i = src" "x \<in> set items" "m = wire_message x"
      using messages carries_key [OF m(2)] ev(1) by (fastforce simp: all_evs)
    with m carry [OF x(2,1)] inj [OF x(2) last(1)] have "x = item" by (metis carries_unique)
    with x m(1) ev(1) last(3) show False by blast
  qed
  have there: "set ?frs \<subseteq> pieces_in mac ?b ?k ?d ?p ?frs all_evs"
  proof
    fix z assume "z \<in> set ?frs"
    then obtain x where x: "x \<in> set items" "z = piece_of x" by auto
    have "\<exists>t i. RxMessage t i (wire_message x) \<in> set all_evs \<and> pi_source i = src"
    proof (cases "x = item")
      case False
      then have "\<exists>t i. RxMessage t i (wire_message x) \<in> set evs \<and> pi_source i = src" using others x(1) by simp
      then show ?thesis by (auto simp: all_evs)
    qed (use last(2) in \<open>auto simp: all_evs\<close>)
    then obtain t i where "RxMessage t i (wire_message x) \<in> set all_evs" "pi_source i = src" by blast
    then show "z \<in> pieces_in mac ?b ?k ?d ?p ?frs all_evs"
      using carry [OF x(1)] x by (auto simp: pieces_in_def intro!: bexI [of _ "RxMessage t i (wire_message x)"])
  qed
  have "\<not> set ?frs \<subseteq> pieces_in mac ?b ?k ?d ?p ?frs evs" using missing last(1) by auto
  from receive_all_complete [OF frs size new _ this, of "RxMessage now info (wire_message item)" ds] own there show ?thesis
    by (auto simp: info_for_def packet_key_def all_evs)
qed

text \<open>A packet of three bytes, sent in a part of two bytes and a part of one byte.\<close>

definition example_queued :: QueuedPacket where
  "example_queued = \<lparr>qp_packet = example_packet\<lparr>op_info := (op_info example_packet)\<lparr>pi_destination := 1\<rparr>\<rparr>,
     qp_sequence = 9, qp_offset = 0, qp_fragment_index = 0\<rparr>"

definition example_part :: "nat \<Rightarrow> byte list \<Rightarrow> u16 \<Rightarrow> bool \<Rightarrow> Transmission" where
  "example_part off bytes index m = \<lparr>tr_info = op_info (qp_packet example_queued), tr_bytes = bytes, tr_sequence = 9,
     tr_offset = off, tr_fragment_index = index, tr_more = m, tr_frequency = 1, tr_rate = 1, tr_category = 0,
     tr_power = 0, tr_bandwidth = sch_bandwidth_hz example_schedule, tr_tx_time = slot_start example_schedule 0\<rparr>"

definition example_sending :: "QueuedPacket \<Rightarrow> State" where
  "example_sending q = example_state\<lparr>queues := (queues example_state)(0 := [q])\<rparr>"

lemma example_take:
  assumes "slice (op_payload (qp_packet q)) (qp_offset q) (qp_offset q + min (length (op_payload (qp_packet q)) - qp_offset q) n) = Some bytes"
  shows "\<exists>state'. take_item example_mac example_schedule 0 (TxSlot 1 1 0 0 1) 0 0 q n (example_sending q) = Some (TakeSome
    \<lparr>tr_info = op_info (qp_packet q), tr_bytes = bytes, tr_sequence = qp_sequence q, tr_offset = qp_offset q,
     tr_fragment_index = qp_fragment_index q, tr_more = qp_offset q + min (length (op_payload (qp_packet q)) - qp_offset q) n < length (op_payload (qp_packet q)),
     tr_frequency = 1, tr_rate = 1, tr_category = 0, tr_power = 0, tr_bandwidth = sch_bandwidth_hz example_schedule,
     tr_tx_time = slot_start example_schedule 0\<rparr> state')"
  using assms by (simp add: take_item_def Let_def)

lemma example_parts: "packet_items example_mac example_queued [example_part 0 [1, 2] 0 True, example_part 2 [3] 1 False]"
proof -
  let ?q2 = "advance example_queued (example_part 0 [1, 2] 0 True)"
  have q: "op_payload (qp_packet example_queued) = [1, 2, 3]" "qp_offset example_queued = 0" "qp_sequence example_queued = 9"
      "qp_fragment_index example_queued = 0" by (simp_all add: example_queued_def example_packet_def)
  have q2: "op_payload (qp_packet ?q2) = [1, 2, 3]" "qp_offset ?q2 = 2" "qp_sequence ?q2 = 9" "qp_fragment_index ?q2 = 1"
      "op_info (qp_packet ?q2) = op_info (qp_packet example_queued)"
    using q by (simp_all add: advance_def example_part_def saturating_add_def)
  have one: "queues (example_sending x) 0 ! 0 = x" "0 < length (queues (example_sending x) 0)" for x by (simp_all add: example_sending_def)
  obtain s1 where s1: "take_item example_mac example_schedule 0 (TxSlot 1 1 0 0 1) 0 0 example_queued 2 (example_sending example_queued) =
      Some (TakeSome (example_part 0 [1, 2] 0 True) s1)"
    using example_take [of example_queued 2 "[1, 2]"] q by (auto simp: example_part_def slice_def)
  obtain s2 where s2: "take_item example_mac example_schedule 0 (TxSlot 1 1 0 0 1) 0 0 ?q2 2 (example_sending ?q2) =
      Some (TakeSome (example_part 2 [3] 1 False) s2)"
    using example_take [of ?q2 2 "[3]"] q2 by (auto simp: example_part_def slice_def)
  have more: "tr_more (example_part 0 [1, 2] 0 True)" "\<not> tr_more (example_part 2 [3] 1 False)" by (simp_all add: example_part_def)
  have "queues s1 0 ! 0 = ?q2" using take_item_from(2) [OF s1 _ one(2) more(1)] by simp
  then show ?thesis
    using packet_items.more [OF s1 _ one(2,1) more(1)] packet_items.final [OF s2 _ one(2,1) more(2)] by simp
qed

definition example_arrivals :: "RxEvent list" where
  "example_arrivals = [RxMessage 0 (op_info example_packet) (wire_message (example_part 2 [3] 1 False)), RxCheck 10]"

theorem fragments_reassemble_witness:
  "\<exists>i. pi_source i = 1 \<and>
     snd (receive_all example_mac (example_arrivals @ [RxMessage 20 (op_info example_packet) (wire_message (example_part 0 [1, 2] 0 True))])
       (example_state, [])) =
      snd (receive_all example_mac example_arrivals (example_state, [])) @ [\<lparr>op_info = i, op_payload = [1, 2, 3]\<rparr>]"
proof -
  let ?a = "example_part 0 [1, 2] 0 True" and ?b = "example_part 2 [3] 1 False"
  let ?all = "example_arrivals @ [RxMessage 20 (op_info example_packet) (wire_message ?a)]"
  have ne: "wire_message ?b \<noteq> wire_message ?a" by (simp add: wire_message_def example_part_def)
  have src: "pi_source (op_info example_packet) = 1" "mac_id example_mac = 1"
    by (simp_all add: example_packet_def example_mac_def new_mac_def Let_def)
  have q: "qp_offset example_queued = 0" "pi_destination (op_info (qp_packet example_queued)) = 1"
      "op_payload (qp_packet example_queued) = [1, 2, 3]" "reassembly example_state = []" "fragment_timeout_us example_state = 5000000"
    by (simp_all add: example_queued_def example_packet_def example_state_def initial_state_def)
  have k: "key_times k ?all \<subseteq> {0, 20}" for k by (auto simp: key_times_def example_arrivals_def)
  have "in_time 5000000 (key_times k ?all) 10" for k
  proof -
    have "in_time 5000000 {0, 20} 10" by (simp add: in_time_def i64_saturating_sub_def i64_clamp_def i64_min_def i64_max_def)
    then show ?thesis using k [of k] by (auto simp: in_time_def)
  qed
  then show ?thesis
    using fragments_reassemble [OF example_parts q(1), where all_evs = ?all and evs = example_arrivals and item = ?a and now = 20
        and info = "op_info example_packet" and state = example_state and mac = example_mac and src = 1 and ds = "[]"]
      ne src q by (auto simp: example_arrivals_def)
qed

end
