(* ===== verification/Flow_Control.thy ===== *)
theory Flow_Control
  imports Wire_Lists
begin

text \<open>
  Token flow control between a radio model and its transport:
  \<^verbatim>\<open>rust/emane-core/src/flow_control_manager.rs\<close> (the side that owns the tokens) and
  \<^verbatim>\<open>rust/emane-core/src/flow_control_client.rs\<close> (the side that waits for them). The
  16-bit counters are words and wrap, as in a release build.
\<close>


section \<open>The manager\<close>

record FlowControlManager =
  tokens_available :: u16
  total_tokens_available :: u16
  shadow_token_count :: u16
  last_tokens_update :: u16
  ack_pending :: bool

definition manager_new :: FlowControlManager where
  "manager_new = \<lparr>tokens_available = 0, total_tokens_available = 0, shadow_token_count = 0,
                  last_tokens_update = 0, ack_pending = True\<rparr>"

definition update_shadow_and_ack :: "FlowControlManager \<Rightarrow> u16 \<times> FlowControlManager" where
  "update_shadow_and_ack self =
     (let tokens = tokens_available self
      in (tokens, self\<lparr>shadow_token_count := tokens, last_tokens_update := tokens, ack_pending := True\<rparr>))"

definition manager_start :: "u16 \<Rightarrow> FlowControlManager \<Rightarrow> u16 \<times> FlowControlManager" where
  "manager_start total_tokens self =
     update_shadow_and_ack (self\<lparr>total_tokens_available := total_tokens, tokens_available := total_tokens\<rparr>)"

definition manager_stop :: "FlowControlManager \<Rightarrow> FlowControlManager" where
  "manager_stop self = self\<lparr>total_tokens_available := 0, tokens_available := 0, shadow_token_count := 0\<rparr>"

definition add_token :: "u16 \<Rightarrow> FlowControlManager \<Rightarrow> (u16 \<times> bool \<times> u16 option) \<times> FlowControlManager" where
  "add_token tokens self =
     (let status = (unat (tokens_available self) + unat tokens \<le> unat (total_tokens_available self));
          self = (if status then self\<lparr>tokens_available := tokens_available self + tokens\<rparr> else self);
          (send_update, self) =
            (if shadow_token_count self = 0 \<and> tokens_available self > 0
             then (case update_shadow_and_ack self of (t, s) \<Rightarrow> (Some t, s))
             else (None, self))
      in ((tokens_available self, status, send_update), self))"

definition manager_remove_token :: "FlowControlManager \<Rightarrow> (u16 \<times> bool) \<times> FlowControlManager" where
  "manager_remove_token self =
     (if ack_pending self then ((tokens_available self, False), self)
      else if tokens_available self = 0 then ((tokens_available self, False), self)
      else (let self = self\<lparr>tokens_available := tokens_available self - 1,
                            shadow_token_count := shadow_token_count self - 1\<rparr>
            in ((tokens_available self, True), self)))"

definition manager_process_message :: "u16 \<Rightarrow> FlowControlManager \<Rightarrow> u16 option \<times> FlowControlManager" where
  "manager_process_message tokens self =
     (if \<not> ack_pending self then (case update_shadow_and_ack self of (t, s) \<Rightarrow> (Some t, s))
      else if tokens = last_tokens_update self then (None, self\<lparr>ack_pending := False\<rparr>)
      else (case update_shadow_and_ack self of (t, s) \<Rightarrow> (Some t, s)))"


text \<open>The C interface: a null pointer is \<open>None\<close>, and every entry point then answers with
  zeros and leaves everything as it is.\<close>

record FfiAddTokenResult =
  add_tokens_available :: u16
  add_status :: bool
  add_has_send_update :: bool
  add_send_update :: u16

record FfiRemoveTokenResult =
  remove_tokens_available :: u16
  remove_status :: bool

record FfiProcessMessageResult =
  process_has_send_update :: bool
  process_send_update :: u16

definition ffi_manager_start :: "FlowControlManager option \<Rightarrow> u16 \<Rightarrow> u16 \<times> FlowControlManager option" where
  "ffi_manager_start ptr total_tokens =
     (case ptr of Some m \<Rightarrow> (case manager_start total_tokens m of (t, m) \<Rightarrow> (t, Some m)) | None \<Rightarrow> (0, None))"

definition ffi_manager_stop :: "FlowControlManager option \<Rightarrow> FlowControlManager option" where
  "ffi_manager_stop ptr = map_option manager_stop ptr"

definition ffi_add_token :: "FlowControlManager option \<Rightarrow> u16 \<Rightarrow> FfiAddTokenResult \<times> FlowControlManager option" where
  "ffi_add_token ptr tokens =
     (case ptr of
        Some m \<Rightarrow>
          (case add_token tokens m of ((available, status, send_update), m) \<Rightarrow>
            (\<lparr>add_tokens_available = available, add_status = status,
              add_has_send_update = (send_update \<noteq> None), add_send_update = unwrap_or send_update 0\<rparr>, Some m))
      | None \<Rightarrow>
          (\<lparr>add_tokens_available = 0, add_status = False, add_has_send_update = False, add_send_update = 0\<rparr>, None))"

definition ffi_remove_token :: "FlowControlManager option \<Rightarrow> FfiRemoveTokenResult \<times> FlowControlManager option" where
  "ffi_remove_token ptr =
     (case ptr of
        Some m \<Rightarrow>
          (case manager_remove_token m of ((available, status), m) \<Rightarrow>
            (\<lparr>remove_tokens_available = available, remove_status = status\<rparr>, Some m))
      | None \<Rightarrow> (\<lparr>remove_tokens_available = 0, remove_status = False\<rparr>, None))"

definition ffi_process_message ::
  "FlowControlManager option \<Rightarrow> u16 \<Rightarrow> FfiProcessMessageResult \<times> FlowControlManager option" where
  "ffi_process_message ptr tokens =
     (case ptr of
        Some m \<Rightarrow>
          (case manager_process_message tokens m of (res, m) \<Rightarrow>
            (\<lparr>process_has_send_update = (res \<noteq> None), process_send_update = unwrap_or res 0\<rparr>, Some m))
      | None \<Rightarrow> (\<lparr>process_has_send_update = False, process_send_update = 0\<rparr>, None))"


section \<open>The client\<close>

record FlowControlState =
  client_tokens :: u16
  client_cancel :: bool

definition client_new :: FlowControlState where
  "client_new = \<lparr>client_tokens = 0, client_cancel = False\<rparr>"

text \<open>\<open>start\<close> and every received message send the current count back.\<close>

definition client_start :: "FlowControlState \<Rightarrow> u16 \<times> FlowControlState" where
  "client_start state = (client_tokens state, state)"

definition client_stop :: "FlowControlState \<Rightarrow> FlowControlState" where
  "client_stop state = state\<lparr>client_cancel := True\<rparr>"

text \<open>\<open>None\<close> stands for a caller that waits on the condition variable; it runs this
  again when it is notified.\<close>

definition client_remove_token :: "FlowControlState \<Rightarrow> ((u16 \<times> bool) \<times> FlowControlState) option" where
  "client_remove_token state =
     (if client_tokens state = 0 \<and> \<not> client_cancel state then None
      else if client_cancel state then Some ((0, False), state)
      else Some ((client_tokens state - 1, True), state\<lparr>client_tokens := client_tokens state - 1\<rparr>))"

definition client_process_message :: "u16 \<Rightarrow> FlowControlState \<Rightarrow> u16 \<times> FlowControlState" where
  "client_process_message tokens state = (tokens, state\<lparr>client_tokens := tokens\<rparr>)"


section \<open>Sequences of calls\<close>

datatype ManagerCall = MStart u16 | MStop | MAdd u16 | MRemove | MMessage u16

fun manager_call :: "ManagerCall \<Rightarrow> FlowControlManager \<Rightarrow> FlowControlManager" where
  "manager_call (MStart n) m = snd (manager_start n m)"
| "manager_call MStop m = manager_stop m"
| "manager_call (MAdd n) m = snd (add_token n m)"
| "manager_call MRemove m = snd (manager_remove_token m)"
| "manager_call (MMessage n) m = snd (manager_process_message n m)"

definition manager_run :: "ManagerCall list \<Rightarrow> FlowControlManager \<Rightarrow> FlowControlManager" where
  "manager_run calls m = fold manager_call calls m"

definition manager_inv :: "FlowControlManager \<Rightarrow> bool" where
  "manager_inv m \<longleftrightarrow> tokens_available m \<le> total_tokens_available m"

lemma update_shadow_fields [simp]:
  "fst (update_shadow_and_ack m) = tokens_available m"
  "tokens_available (snd (update_shadow_and_ack m)) = tokens_available m"
  "total_tokens_available (snd (update_shadow_and_ack m)) = total_tokens_available m"
  "shadow_token_count (snd (update_shadow_and_ack m)) = tokens_available m"
  "last_tokens_update (snd (update_shadow_and_ack m)) = tokens_available m"
  "ack_pending (snd (update_shadow_and_ack m))"
  by (simp_all add: update_shadow_and_ack_def Let_def)

lemma add_token_fields:
  "tokens_available (snd (add_token n m)) =
     (if unat (tokens_available m) + unat n \<le> unat (total_tokens_available m)
      then tokens_available m + n else tokens_available m)"
  "total_tokens_available (snd (add_token n m)) = total_tokens_available m"
  by (simp_all add: add_token_def Let_def case_prod_unfold)

lemma unat_add_small:
  assumes "unat (a::u16) + unat b \<le> unat (c::u16)"
  shows "unat (a + b) = unat a + unat b"
proof -
  have "unat c < 65536" by (rule unat_u16_less)
  with assms have "unat a + unat b < 65536" by linarith
  then show ?thesis by (simp add: unat_word_ariths)
qed

lemma manager_call_inv: "manager_inv m \<Longrightarrow> manager_inv (manager_call call m)"
proof (cases call)
  case (MAdd n)
  assume "manager_inv m"
  with MAdd show ?thesis
    by (auto simp: manager_inv_def add_token_fields word_le_nat_alt unat_add_small)
next
  case MRemove
  assume m: "manager_inv m"
  have "tokens_available m - 1 \<le> tokens_available m" if "tokens_available m \<noteq> 0"
    using that by (simp add: word_le_nat_alt unat_minus_one)
  with m MRemove show ?thesis
    by (auto simp: manager_inv_def manager_remove_token_def Let_def)
next
  case (MMessage n)
  assume "manager_inv m"
  with MMessage show ?thesis
    by (simp add: manager_inv_def manager_process_message_def case_prod_unfold)
qed (simp_all add: manager_inv_def manager_start_def manager_stop_def)

lemma manager_run_inv: "manager_inv m \<Longrightarrow> manager_inv (manager_run calls m)"
  unfolding manager_run_def by (induction calls arbitrary: m) (simp_all add: manager_call_inv)

text \<open>The number of removals in a row that succeed.\<close>

fun grants :: "nat \<Rightarrow> FlowControlManager \<Rightarrow> bool list" where
  "grants 0 m = []"
| "grants (Suc k) m = (case manager_remove_token m of ((_, ok), m') \<Rightarrow> ok # grants k m')"

lemma grants_available:
  "\<not> ack_pending m \<Longrightarrow>
   grants k m = replicate (min k (unat (tokens_available m))) True @ replicate (k - unat (tokens_available m)) False"
proof (induction k arbitrary: m)
  case (Suc k)
  show ?case
  proof (cases "tokens_available m = 0")
    case True
    then show ?thesis using Suc by (simp add: manager_remove_token_def)
  next
    case False
    then have u: "unat (tokens_available m - 1) = unat (tokens_available m) - 1" "0 < unat (tokens_available m)"
      by (simp_all add: unat_minus_one unat_gt_0)
    let ?m = "m\<lparr>tokens_available := tokens_available m - 1, shadow_token_count := shadow_token_count m - 1\<rparr>"
    have "grants (Suc k) m = True # grants k ?m"
      using False Suc.prems by (simp add: manager_remove_token_def Let_def)
    also have "grants k ?m = replicate (min k (unat (tokens_available m) - 1)) True
        @ replicate (k - (unat (tokens_available m) - 1)) False"
      using Suc.IH [of ?m] Suc.prems u by simp
    finally show ?thesis using u(2) by (cases "unat (tokens_available m)") (simp_all add: min_def)
  qed
qed simp

fun client_takes :: "nat \<Rightarrow> FlowControlState \<Rightarrow> nat" where
  "client_takes 0 s = 0"
| "client_takes (Suc k) s = (case client_remove_token s of Some ((_, True), s') \<Rightarrow> Suc (client_takes k s') | _ \<Rightarrow> 0)"

lemma client_takes_tokens: "\<not> client_cancel s \<Longrightarrow> client_takes k s = min k (unat (client_tokens s))"
proof (induction k arbitrary: s)
  case (Suc k)
  show ?case
  proof (cases "client_tokens s = 0")
    case True
    then show ?thesis using Suc.prems by (simp add: client_remove_token_def)
  next
    case False
    then have u: "unat (client_tokens s - 1) = unat (client_tokens s) - 1" "0 < unat (client_tokens s)"
      by (simp_all add: unat_minus_one unat_gt_0)
    then show ?thesis
      using False Suc.prems Suc.IH [of "s\<lparr>client_tokens := client_tokens s - 1\<rparr>"]
      by (simp add: client_remove_token_def)
  qed
qed simp


section \<open>Properties\<close>

text \<open>Whatever calls are made on a new flow control manager, it never has more tokens than it
  was started with.\<close>

lemma manager_tokens_bounded:
  "tokens_available (manager_run calls manager_new) \<le> total_tokens_available (manager_run calls manager_new)"
  using manager_run_inv [of manager_new calls] by (simp add: manager_inv_def manager_new_def)

text \<open>Once the transport acknowledged the token count, removals succeed exactly as often as
  there are tokens, in a row, and then fail.\<close>

lemma manager_grants_tokens:
  assumes "\<not> ack_pending m"
  shows "grants k m = replicate (min k (unat (tokens_available m))) True
           @ replicate (k - unat (tokens_available m)) False"
  using assms by (rule grants_available)

text \<open>The manager and the transport's client agree on the count after the handshake the
  manager starts: the manager sends its count, the client adopts and echoes it, and the echo
  clears the pending acknowledgement without another message.\<close>

lemma flow_control_handshake:
  "case manager_start n m of (tokens, m1) \<Rightarrow>
     (case client_process_message tokens c of (echo, c1) \<Rightarrow>
       (case manager_process_message echo m1 of (again, m2) \<Rightarrow>
          client_tokens c1 = n \<and> tokens_available m2 = n \<and> \<not> ack_pending m2 \<and> again = None))"
  by (simp add: manager_start_def client_process_message_def manager_process_message_def
      update_shadow_and_ack_def Let_def)

text \<open>A client that is not cancelled hands out exactly the tokens it was sent and then makes
  the caller wait; a cancelled client never waits and never hands out a token.\<close>

lemma client_hands_out_tokens:
  "client_takes k (\<lparr>client_tokens = n, client_cancel = False\<rparr>) = min k (unat n)
   \<and> client_remove_token (\<lparr>client_tokens = 0, client_cancel = False\<rparr>) = None
   \<and> client_remove_token (client_stop s) = Some ((0, False), client_stop s)"
  by (simp_all add: client_takes_tokens client_remove_token_def client_stop_def)

text \<open>A row of removals that all find a token, and the state after the handshake.\<close>

lemma run_removals:
  "\<not> ack_pending m \<Longrightarrow> k \<le> unat (tokens_available m) \<Longrightarrow>
   manager_run (replicate k MRemove) m =
     m\<lparr>tokens_available := tokens_available m - of_nat k, shadow_token_count := shadow_token_count m - of_nat k\<rparr>"
proof (induction k arbitrary: m)
  case 0
  then show ?case by (simp add: manager_run_def)
next
  case (Suc k)
  then have "tokens_available m \<noteq> 0" by auto
  then have u: "unat (tokens_available m - 1) = unat (tokens_available m) - 1" by (simp add: unat_minus_one)
  let ?m = "m\<lparr>tokens_available := tokens_available m - 1, shadow_token_count := shadow_token_count m - 1\<rparr>"
  have "manager_run (replicate (Suc k) MRemove) m = manager_run (replicate k MRemove) ?m"
    using Suc.prems \<open>tokens_available m \<noteq> 0\<close> by (simp add: manager_run_def manager_remove_token_def Let_def)
  also have "\<dots> = m\<lparr>tokens_available := tokens_available m - of_nat (Suc k), shadow_token_count := shadow_token_count m - of_nat (Suc k)\<rparr>"
    using Suc.IH [of ?m] Suc.prems u by (simp add: algebra_simps)
  finally show ?case .
qed

lemma run_handshake:
  "manager_run [MStart n, MMessage n] m =
     \<lparr>tokens_available = n, total_tokens_available = n, shadow_token_count = n, last_tokens_update = n, ack_pending = False\<rparr>"
  by (simp add: manager_run_def manager_start_def manager_process_message_def update_shadow_and_ack_def Let_def)

lemma manager_run_append: "manager_run (xs @ ys) m = manager_run ys (manager_run xs m)"
  by (simp add: manager_run_def)

text \<open>C35: tokens that come back while some are still there are not added to the shadow count. When a manager
  started with \<open>n\<close> tokens hands out \<open>k\<close> of them, gets \<open>j\<close> back before it runs out and then hands out all it has,
  its shadow count goes below zero by \<open>j\<close> and wraps (a debug build panics on the subtraction), and the tokens
  that come back next are not announced. Without the early return the same tokens are announced.\<close>

theorem shadow_count_underflows:
  fixes m0 :: FlowControlManager
  assumes "0 < j" "unat j \<le> k" "k < unat n" "0 < i" "i \<le> n"
  defines "drained \<equiv> manager_run ([MStart n, MMessage n] @ replicate k MRemove @ [MAdd j] @ replicate (unat n - k + unat j) MRemove) m0"
    and "plain \<equiv> manager_run ([MStart n, MMessage n] @ replicate (unat n) MRemove) m0"
  shows "tokens_available drained = 0 \<and> shadow_token_count drained = - j \<and> fst (add_token i drained) = (i, True, None)
    \<and> fst (add_token i plain) = (i, True, Some i)"
proof -
  let ?m = "\<lparr>tokens_available = n, total_tokens_available = n, shadow_token_count = n, last_tokens_update = n, ack_pending = False\<rparr>"
  define d where "d = n - (of_nat k :: u16)"
  have "k < 65536" using assms(3) unat_u16_less [of n] by linarith
  then have k: "of_nat k \<le> n" "unat (of_nat k :: u16) = k" using assms(3) by (simp_all add: word_le_nat_alt unat_of_nat)
  then have d: "unat d = unat n - k" by (simp add: d_def unat_sub)
  then have dj: "unat d + unat j \<le> unat n" "d \<noteq> 0" using assms(2,3) by auto
  note sum = unat_add_small [OF dj(1)]
  have m1: "manager_run (replicate k MRemove) ?m = ?m\<lparr>tokens_available := d, shadow_token_count := d\<rparr>"
    using run_removals [of ?m k] assms(3) by (simp add: d_def)
  have m2: "manager_run [MAdd j] (?m\<lparr>tokens_available := d, shadow_token_count := d\<rparr>) = ?m\<lparr>tokens_available := d + j, shadow_token_count := d\<rparr>"
    using dj by (simp add: manager_run_def add_token_def Let_def)
  have k3: "unat n - k + unat j = unat (d + j)" using sum d by simp
  have m3: "drained = ?m\<lparr>tokens_available := 0, shadow_token_count := - j\<rparr>"
    unfolding drained_def manager_run_append run_handshake m1 m2 k3
    using run_removals [of "?m\<lparr>tokens_available := d + j, shadow_token_count := d\<rparr>" "unat (d + j)"] by simp
  have p: "plain = ?m\<lparr>tokens_available := 0, shadow_token_count := 0\<rparr>"
    unfolding plain_def manager_run_append run_handshake using run_removals [of ?m "unat n"] by simp
  have "- j \<noteq> 0" "i \<noteq> 0" using assms(1,4) by auto
  then show ?thesis using assms(5) unfolding m3 p
    by (simp add: add_token_def update_shadow_and_ack_def word_le_nat_alt word_gt_0)
qed

theorem shadow_count_underflows_witness:
  "shadow_token_count (manager_run ([MStart 3, MMessage 3] @ replicate 1 MRemove @ [MAdd 1] @ replicate 3 MRemove) manager_new) = 0xFFFF"
  using shadow_count_underflows [of 1 1 3 2 manager_new] by simp

end
