(* ===== verification/Timer_Service.thy ===== *)
theory Timer_Service
  imports Emane_Prelude
begin

text \<open>
  The timer service, \<^verbatim>\<open>rust/emane-core/src/timer_service.rs\<close>: a heap of entries
  ordered by expiry, a set of cancelled ids and one worker thread. The state is a mutex-guarded
  record; the worker releases the mutex while it runs a callback and while it waits, so calls of
  \<open>schedule\<close> and \<open>cancel\<close> from other threads fall between its critical sections. The worker is
  a state machine with one phase per point where it does not hold the mutex, every critical
  section is one step, and the log records what the worker calls. Pointers are addresses.
  Timer ids are \<open>usize\<close> values taken from a counter; the model has no wrap of the counter,
  which \<open>2 ^ 64\<close> calls of \<open>schedule\<close> would reach.
\<close>


section \<open>State\<close>

type_synonym addr = nat

record TimerEntry =
  event_id :: nat
  expire_time_micros :: u64
  schedule_time_micros :: u64
  interval_micros :: u64
  timer_arg :: addr
  p_user :: addr
  timer_callback :: addr
  free_callback :: "addr option"

text \<open>\<open>Ord::cmp\<close> is reversed so that the maximum of the heap is the earliest entry:
  \<open>timer_before a b\<close> says that \<open>a\<close> is greater than \<open>b\<close> in that order.\<close>

definition timer_before :: "TimerEntry \<Rightarrow> TimerEntry \<Rightarrow> bool" where
  "timer_before self other \<longleftrightarrow>
     expire_time_micros self < expire_time_micros other
     \<or> expire_time_micros self = expire_time_micros other \<and> event_id self < event_id other"

text \<open>The heap as the list of its entries in the order \<open>pop\<close> gives them.\<close>

fun heap_push :: "TimerEntry \<Rightarrow> TimerEntry list \<Rightarrow> TimerEntry list" where
  "heap_push e [] = [e]"
| "heap_push e (t # ts) = (if timer_before e t then e # t # ts else t # heap_push e ts)"

record TimerState =
  timer_heap :: "TimerEntry list"
  cancelled :: "nat set"
  next_event_id :: nat
  shutdown :: bool

text \<open>\<open>LoopTop\<close>: about to take the mutex at the head of the loop. \<open>Waiting\<close>: on the
  condition variable, with the deadline of \<open>wait_timeout\<close>. \<open>Firing\<close> and \<open>Freeing\<close>: inside a
  callback.\<close>

datatype Phase = LoopTop | Waiting "u64 option" | Firing TimerEntry u64 | Freeing | Exited

datatype TimerEffect = Scheduled TimerEntry | Fired TimerEntry u64 | Freed TimerEntry

record TimerSystem =
  timer_state :: TimerState
  phase :: Phase
  calls :: "TimerEffect list"

definition timer_init :: TimerSystem where
  "timer_init = \<lparr>timer_state = \<lparr>timer_heap = [], cancelled = {}, next_event_id = 1, shutdown = False\<rparr>,
                 phase = LoopTop, calls = []\<rparr>"

text \<open>\<open>notify_one\<close>: only a waiting worker notices.\<close>

definition notify_one :: "Phase \<Rightarrow> Phase" where
  "notify_one p = (case p of Waiting _ \<Rightarrow> LoopTop | _ \<Rightarrow> p)"


section \<open>Operations\<close>

definition emane_rs_timer_schedule ::
  "u64 \<Rightarrow> u64 \<Rightarrow> addr \<Rightarrow> addr \<Rightarrow> addr \<Rightarrow> addr option \<Rightarrow> u64 \<Rightarrow> TimerSystem \<Rightarrow> nat \<times> TimerSystem" where
  "emane_rs_timer_schedule expire_micros interval arg user callback free now_micros sys =
     (let state = timer_state sys;
          new_id = next_event_id state;
          entry = \<lparr>event_id = new_id, expire_time_micros = expire_micros,
                   schedule_time_micros = now_micros, interval_micros = interval, timer_arg = arg,
                   p_user = user, timer_callback = callback, free_callback = free\<rparr>;
          wake_thread = (case timer_heap state of
              head # _ \<Rightarrow> expire_micros < expire_time_micros head
            | [] \<Rightarrow> True);
          state = state\<lparr>next_event_id := new_id + 1, timer_heap := heap_push entry (timer_heap state)\<rparr>
      in (new_id, sys\<lparr>timer_state := state,
                      phase := (if wake_thread then notify_one (phase sys) else phase sys),
                      calls := calls sys @ [Scheduled entry]\<rparr>))"

definition emane_rs_timer_cancel :: "nat \<Rightarrow> TimerSystem \<Rightarrow> bool \<times> TimerSystem" where
  "emane_rs_timer_cancel cancel_id sys =
     (let state = timer_state sys
      in (True, sys\<lparr>timer_state := state\<lparr>cancelled := insert cancel_id (cancelled state)\<rparr>,
                    phase := notify_one (phase sys)\<rparr>))"

text \<open>Running the free callback of an entry that is gone, where it has one.\<close>

definition free_entry :: "TimerEntry \<Rightarrow> TimerSystem \<Rightarrow> TimerSystem" where
  "free_entry head sys =
     (case free_callback head of
        Some _ \<Rightarrow> sys\<lparr>phase := Freeing, calls := calls sys @ [Freed head]\<rparr>
      | None \<Rightarrow> sys\<lparr>phase := LoopTop\<rparr>)"

text \<open>The critical section at the head of \<open>timer_thread\<close>'s loop, at the time
  \<open>now_micros\<close>.\<close>

definition timer_poll :: "u64 \<Rightarrow> TimerSystem \<Rightarrow> TimerSystem" where
  "timer_poll now_micros sys =
     (let state = timer_state sys
      in if shutdown state then sys\<lparr>phase := Exited\<rparr>
         else (case timer_heap state of
             [] \<Rightarrow> sys\<lparr>phase := Waiting None\<rparr>
           | head # rest \<Rightarrow>
               if event_id head \<in> cancelled state
               then free_entry head
                      (sys\<lparr>timer_state := state\<lparr>timer_heap := rest, cancelled := cancelled state - {event_id head}\<rparr>\<rparr>)
               else if expire_time_micros head \<le> now_micros
               then sys\<lparr>timer_state := state\<lparr>timer_heap := rest\<rparr>, phase := Firing head now_micros,
                        calls := calls sys @ [Fired head now_micros]\<rparr>
               else sys\<lparr>phase := Waiting (Some (expire_time_micros head))\<rparr>))"

text \<open>The critical section after the callback of an entry returned.\<close>

definition timer_after_callback :: "TimerEntry \<Rightarrow> u64 \<Rightarrow> TimerSystem \<Rightarrow> TimerSystem" where
  "timer_after_callback head now_micros sys =
     (let state = timer_state sys
      in if interval_micros head > 0 \<and> event_id head \<notin> cancelled state
         then sys\<lparr>timer_state := state\<lparr>timer_heap := heap_push
                    (head\<lparr>schedule_time_micros := now_micros,
                         expire_time_micros := now_micros + interval_micros head\<rparr>) (timer_heap state)\<rparr>,
                  phase := LoopTop\<rparr>
         else free_entry head
                (sys\<lparr>timer_state := state\<lparr>cancelled := cancelled state - {event_id head}\<rparr>\<rparr>))"


section \<open>Interleavings\<close>

text \<open>
  What can happen next: a call of the API from any thread at any moment (a callback may make one
  too), and the worker's next critical section. A waiting worker may wake up at any time, which
  covers timeouts and spurious wake-ups. An action that the phase does not allow is \<open>None\<close>.
\<close>

datatype TimerAction =
  Schedule u64 u64 addr addr addr "addr option" u64 | Cancel nat | Poll u64 | CallbackReturns | FreeReturns | Wake

fun timer_act :: "TimerAction \<Rightarrow> TimerSystem \<Rightarrow> TimerSystem option" where
  "timer_act (Schedule e i a u c f now) sys = Some (snd (emane_rs_timer_schedule e i a u c f now sys))"
| "timer_act (Cancel i) sys = Some (snd (emane_rs_timer_cancel i sys))"
| "timer_act (Poll now) sys = (if phase sys = LoopTop then Some (timer_poll now sys) else None)"
| "timer_act CallbackReturns sys =
     (case phase sys of Firing head now \<Rightarrow> Some (timer_after_callback head now sys) | _ \<Rightarrow> None)"
| "timer_act FreeReturns sys = (if phase sys = Freeing then Some (sys\<lparr>phase := LoopTop\<rparr>) else None)"
| "timer_act Wake sys = (case phase sys of Waiting _ \<Rightarrow> Some (sys\<lparr>phase := LoopTop\<rparr>) | _ \<Rightarrow> None)"

inductive timer_steps :: "TimerSystem \<Rightarrow> TimerSystem \<Rightarrow> bool" where
  refl: "timer_steps s s"
| step: "timer_steps s s' \<Longrightarrow> timer_act a s' = Some s'' \<Longrightarrow> timer_steps s s''"

definition timer_reachable :: "TimerSystem \<Rightarrow> bool" where
  "timer_reachable s \<longleftrightarrow> timer_steps timer_init s"


section \<open>Invariants\<close>

text \<open>The entries the service still owes something: pending ones and the one whose callback
  runs.\<close>

definition live :: "TimerSystem \<Rightarrow> TimerEntry list" where
  "live s = (case phase s of Firing e _ \<Rightarrow> [e] | _ \<Rightarrow> []) @ timer_heap (timer_state s)"

abbreviation live_ids :: "TimerSystem \<Rightarrow> nat set" where
  "live_ids s \<equiv> event_id ` set (live s)"

lemma set_heap_push [simp]: "set (heap_push e ts) = insert e (set ts)"
  by (induction ts) auto

lemma distinct_heap_push:
  "distinct (map event_id (heap_push e ts)) \<longleftrightarrow> event_id e \<notin> event_id ` set ts \<and> distinct (map event_id ts)"
  by (induction ts) auto

lemma timer_before_trans: "timer_before a b \<Longrightarrow> timer_before b c \<Longrightarrow> timer_before a c"
  by (auto simp: timer_before_def)

lemma timer_before_linear: "event_id a \<noteq> event_id b \<Longrightarrow> timer_before a b \<or> timer_before b a"
  by (auto simp: timer_before_def)

lemma sorted_heap_push:
  "sorted_wrt timer_before ts \<Longrightarrow> event_id e \<notin> event_id ` set ts \<Longrightarrow> sorted_wrt timer_before (heap_push e ts)"
  by (induction ts) (auto dest: timer_before_trans timer_before_linear)

text \<open>The heap is in order, ids are unique and were given out, nothing fired early.\<close>

definition order_inv :: "TimerSystem \<Rightarrow> bool" where
  "order_inv s \<longleftrightarrow>
     sorted_wrt timer_before (timer_heap (timer_state s))
     \<and> distinct (map event_id (live s))
     \<and> (\<forall>i \<in> live_ids s. i < next_event_id (timer_state s))
     \<and> (\<forall>e now. Fired e now \<in> set (calls s) \<longrightarrow> expire_time_micros e \<le> now)"

text \<open>A waiting worker waits for nothing later than the earliest entry.\<close>

definition wait_inv :: "TimerSystem \<Rightarrow> bool" where
  "wait_inv s \<longleftrightarrow>
     (case phase s of
        Waiting None \<Rightarrow> timer_heap (timer_state s) = []
      | Waiting (Some d) \<Rightarrow> (\<forall>t \<in> set (timer_heap (timer_state s)). d \<le> expire_time_micros t)
      | _ \<Rightarrow> True)"

lemma notify_one_cases: "notify_one p = (if \<exists>d. p = Waiting d then LoopTop else p)"
  by (cases p) (auto simp: notify_one_def)

lemmas timer_defs =
  emane_rs_timer_schedule_def emane_rs_timer_cancel_def free_entry_def timer_poll_def
  timer_after_callback_def Let_def

lemma order_inv_schedule:
  assumes "order_inv s"
  shows "order_inv (snd (emane_rs_timer_schedule e i a u c f now s))"
proof -
  have "phase s = Firing x n \<Longrightarrow> event_id x < next_event_id (timer_state s)"
    "t \<in> set (timer_heap (timer_state s)) \<Longrightarrow> event_id t < next_event_id (timer_state s)" for x n t
    using assms by (auto simp: order_inv_def live_def)
  note less = this
  have fresh: "next_event_id (timer_state s) \<notin> event_id ` set (timer_heap (timer_state s))"
    using less(2) by (auto dest: less_not_refl2)
  show ?thesis
  proof (cases "phase s")
    case (Firing x n)
    then show ?thesis using assms less(1) [OF Firing] less(2) fresh
      by (auto simp: order_inv_def timer_defs live_def notify_one_cases distinct_heap_push less_SucI
          intro!: sorted_heap_push)
  qed (use assms less(2) fresh in \<open>auto simp: order_inv_def timer_defs live_def notify_one_cases distinct_heap_push less_SucI
          intro!: sorted_heap_push\<close>)
qed

lemma order_inv_cancel: "order_inv s \<Longrightarrow> order_inv (snd (emane_rs_timer_cancel i s))"
  by (cases "phase s") (simp_all add: order_inv_def timer_defs live_def notify_one_cases)

lemma order_inv_poll: "order_inv s \<Longrightarrow> phase s = LoopTop \<Longrightarrow> order_inv (timer_poll now s)"
  by (cases "timer_heap (timer_state s)")
    (auto simp: order_inv_def timer_defs live_def split: option.split)

lemma order_inv_after_callback:
  "order_inv s \<Longrightarrow> phase s = Firing h now \<Longrightarrow> order_inv (timer_after_callback h now s)"
  by (cases "free_callback h")
    (auto simp: order_inv_def timer_defs live_def distinct_heap_push intro!: sorted_heap_push)

lemma order_inv_act:
  assumes inv: "order_inv s" and act: "timer_act a s = Some s'"
  shows "order_inv s'"
proof (cases a)
  case (Poll now)
  with inv act show ?thesis by (auto dest: order_inv_poll split: if_splits)
next
  case CallbackReturns
  with inv act show ?thesis by (auto simp: order_inv_after_callback split: Phase.splits)
next
  case FreeReturns
  with inv act show ?thesis by (auto simp: order_inv_def live_def split: if_splits)
next
  case Wake
  with inv act show ?thesis by (auto simp: order_inv_def live_def split: Phase.splits)
qed (use inv act in \<open>auto simp: order_inv_schedule order_inv_cancel\<close>)

lemma timer_steps_inv:
  assumes "timer_steps s s'" and "I s" and "\<And>a s s'. I s \<Longrightarrow> timer_act a s = Some s' \<Longrightarrow> I s'"
  shows "I s'"
  using assms(1,2) by induction (auto intro: assms(3))

lemma timer_act_cases [consumes 1, case_names Schedule Cancel Poll After Other]:
  assumes "timer_act a s = Some s'"
    and "\<And>e i ar u c f now. s' = snd (emane_rs_timer_schedule e i ar u c f now s) \<Longrightarrow> P"
    and "\<And>i. s' = snd (emane_rs_timer_cancel i s) \<Longrightarrow> P"
    and "\<And>now. phase s = LoopTop \<Longrightarrow> s' = timer_poll now s \<Longrightarrow> P"
    and "\<And>h now. phase s = Firing h now \<Longrightarrow> s' = timer_after_callback h now s \<Longrightarrow> P"
    and "phase s = Freeing \<or> (\<exists>d. phase s = Waiting d) \<Longrightarrow> s' = s\<lparr>phase := LoopTop\<rparr> \<Longrightarrow> P"
  shows P
  using assms by (cases a) (auto split: if_splits Phase.splits)

lemma wait_inv_schedule:
  assumes order: "order_inv s" and inv: "wait_inv s"
  shows "wait_inv (snd (emane_rs_timer_schedule e i ar u c f now s))"
proof (cases "phase s")
  case (Waiting d)
  show ?thesis
  proof (cases d)
    case None
    with Waiting inv show ?thesis by (simp add: wait_inv_def timer_defs notify_one_def)
  next
    case (Some w)
    have "\<forall>t \<in> set (timer_heap (timer_state s)). w \<le> expire_time_micros t"
      using inv Waiting Some by (simp add: wait_inv_def)
    then show ?thesis using Waiting Some
      by (cases "timer_heap (timer_state s)") (auto simp: wait_inv_def timer_defs notify_one_def)
  qed
qed (simp_all add: wait_inv_def timer_defs notify_one_def)

lemma wait_inv_act:
  assumes "order_inv s" and "wait_inv s" and "timer_act a s = Some s'"
  shows "wait_inv s'"
  using assms(3)
proof (cases rule: timer_act_cases)
  case Schedule
  with assms(1,2) show ?thesis by (simp add: wait_inv_schedule)
next
  case Cancel
  then show ?thesis by (cases "phase s") (simp_all add: wait_inv_def timer_defs notify_one_def)
next
  case Poll
  with assms(1) show ?thesis
    by (cases "timer_heap (timer_state s)")
      (auto simp: wait_inv_def timer_defs order_inv_def timer_before_def split: option.splits)
next
  case (After h now)
  then show ?thesis by (cases "free_callback h") (simp_all add: wait_inv_def timer_defs)
qed (simp add: wait_inv_def)

lemma timer_init_inv: "order_inv timer_init" "wait_inv timer_init"
  by (simp_all add: order_inv_def wait_inv_def timer_init_def live_def)

lemma timer_reachable_inv:
  assumes "timer_reachable s"
  shows "order_inv s \<and> wait_inv s"
proof (rule timer_steps_inv)
  show "timer_steps timer_init s" using assms by (simp add: timer_reachable_def)
qed (auto simp: timer_init_inv intro: order_inv_act wait_inv_act)


section \<open>What each critical section does to the observable state\<close>

definition fires :: "nat \<Rightarrow> TimerSystem \<Rightarrow> TimerEffect list" where
  "fires i s = filter (\<lambda>x. case x of Fired e _ \<Rightarrow> event_id e = i | _ \<Rightarrow> False) (calls s)"

definition freed_count :: "nat \<Rightarrow> TimerSystem \<Rightarrow> nat" where
  "freed_count i s = length (filter (\<lambda>x. case x of Freed e \<Rightarrow> event_id e = i | _ \<Rightarrow> False) (calls s))"

definition scheduled :: "TimerSystem \<Rightarrow> TimerEntry set" where
  "scheduled s = {e. Scheduled e \<in> set (calls s)}"

lemma live_notify [simp]:
  "(case notify_one p of Firing e x \<Rightarrow> [e] | _ \<Rightarrow> []) = (case p of Firing e x \<Rightarrow> [e] | _ \<Rightarrow> [])"
  by (cases p) (simp_all add: notify_one_def)

lemma Firing_notify [simp]: "Firing e x = notify_one p \<longleftrightarrow> Firing e x = p"
  by (cases p) (simp_all add: notify_one_def)

lemma schedule_view:
  fixes s e i ar u c f now
  defines "s' \<equiv> snd (emane_rs_timer_schedule e i ar u c f now s)"
    and "t \<equiv> \<lparr>event_id = next_event_id (timer_state s), expire_time_micros = e, schedule_time_micros = now,
           interval_micros = i, timer_arg = ar, p_user = u, timer_callback = c, free_callback = f\<rparr>"
  shows "set (live s') = insert t (set (live s))"
    and "cancelled (timer_state s') = cancelled (timer_state s)"
    and "next_event_id (timer_state s') = Suc (next_event_id (timer_state s))"
    and "calls s' = calls s @ [Scheduled t]"
  by (simp_all add: s'_def t_def emane_rs_timer_schedule_def Let_def live_def split: list.split)

lemma cancel_view:
  fixes s i
  defines "s' \<equiv> snd (emane_rs_timer_cancel i s)"
  shows "live s' = live s" "cancelled (timer_state s') = insert i (cancelled (timer_state s))"
    and "next_event_id (timer_state s') = next_event_id (timer_state s)" "calls s' = calls s"
  by (simp_all add: s'_def emane_rs_timer_cancel_def Let_def live_def)

text \<open>The head of the loop drops a cancelled head, fires a due one, or only changes the phase.\<close>

lemma poll_view:
  assumes "phase s = LoopTop"
  obtains (dropped) h where "h \<in> set (live s)" "event_id h \<in> cancelled (timer_state s)"
      "live s = h # timer_heap (timer_state (timer_poll now s))"
      "live (timer_poll now s) = timer_heap (timer_state (timer_poll now s))"
      "cancelled (timer_state (timer_poll now s)) = cancelled (timer_state s) - {event_id h}"
      "calls (timer_poll now s) = calls s @ (if free_callback h = None then [] else [Freed h])"
  | (fired) h where "event_id h \<notin> cancelled (timer_state s)" "live (timer_poll now s) = live s"
      "h \<in> set (live s)"
      "cancelled (timer_state (timer_poll now s)) = cancelled (timer_state s)"
      "calls (timer_poll now s) = calls s @ [Fired h now]"
  | (waits) "live (timer_poll now s) = live s" "timer_state (timer_poll now s) = timer_state s"
      "calls (timer_poll now s) = calls s"
proof (cases "timer_heap (timer_state s)")
  case Nil
  then show thesis using assms waits by (auto simp: timer_poll_def Let_def live_def split: if_splits)
next
  case (Cons h ts)
  consider "shutdown (timer_state s)" | "\<not> shutdown (timer_state s)" "event_id h \<in> cancelled (timer_state s)"
    | "\<not> shutdown (timer_state s)" "event_id h \<notin> cancelled (timer_state s)" "expire_time_micros h \<le> now"
    | "\<not> shutdown (timer_state s)" "event_id h \<notin> cancelled (timer_state s)" "\<not> expire_time_micros h \<le> now"
    by blast
  then show thesis
  proof cases
    case 2
    show ?thesis by (rule dropped [of h])
        (use 2 Cons assms in \<open>auto simp: timer_poll_def free_entry_def Let_def live_def split: option.split\<close>)
  next
    case 3
    show ?thesis by (rule fired [of h])
        (use 3 Cons assms in \<open>auto simp: timer_poll_def Let_def live_def\<close>)
  qed (use waits Cons assms in \<open>auto simp: timer_poll_def Let_def live_def\<close>)
qed

lemma poll_next_id: "next_event_id (timer_state (timer_poll now s)) = next_event_id (timer_state s)"
  by (simp add: timer_poll_def free_entry_def Let_def split: list.split option.split)

text \<open>After a callback an entry is pushed again or goes.\<close>

lemma after_view:
  assumes "phase s = Firing h now"
  obtains (again) h' where "event_id h \<notin> cancelled (timer_state s)"
      "event_id h' = event_id h" "free_callback h' = free_callback h"
      "set (live s) = insert h (set (timer_heap (timer_state s)))"
      "set (live (timer_after_callback h now s)) = insert h' (set (timer_heap (timer_state s)))"
      "cancelled (timer_state (timer_after_callback h now s)) = cancelled (timer_state s)"
      "calls (timer_after_callback h now s) = calls s"
  | (gone) "live s = h # timer_heap (timer_state s)"
      "live (timer_after_callback h now s) = timer_heap (timer_state s)"
      "cancelled (timer_state (timer_after_callback h now s)) = cancelled (timer_state s) - {event_id h}"
      "calls (timer_after_callback h now s) = calls s @ (if free_callback h = None then [] else [Freed h])"
proof (cases "interval_micros h > 0 \<and> event_id h \<notin> cancelled (timer_state s)")
  case True
  show thesis
    by (rule again [of "h\<lparr>schedule_time_micros := now, expire_time_micros := now + interval_micros h\<rparr>"])
      (use True assms in \<open>auto simp: timer_after_callback_def Let_def live_def\<close>)
next
  case False
  show thesis
    by (rule gone)
      (use False assms in \<open>auto simp: timer_after_callback_def free_entry_def Let_def live_def split: option.split\<close>)
qed

lemma after_next_id:
  "next_event_id (timer_state (timer_after_callback h now s)) = next_event_id (timer_state s)"
  by (simp add: timer_after_callback_def free_entry_def Let_def split: option.split)


section \<open>Cancellation\<close>

definition cancels :: "nat \<Rightarrow> TimerSystem \<Rightarrow> bool" where
  "cancels i s \<longleftrightarrow> order_inv s \<and> i < next_event_id (timer_state s)
     \<and> (i \<in> live_ids s \<longrightarrow> i \<in> cancelled (timer_state s))"

lemma live_distinct: "order_inv s \<Longrightarrow> distinct (map event_id (live s))"
  by (simp add: order_inv_def)

lemma cancels_act:
  assumes c: "cancels i s" and act: "timer_act a s = Some s'"
  shows "cancels i s' \<and> fires i s' = fires i s"
proof -
  have "order_inv s'" using c act by (auto simp: cancels_def intro: order_inv_act)
  have d: "distinct (map event_id (live s))" using c by (simp add: cancels_def live_distinct)
  from act show ?thesis
  proof (cases rule: timer_act_cases)
    case Schedule
    with c \<open>order_inv s'\<close> show ?thesis by (auto simp: cancels_def schedule_view fires_def)
  next
    case Cancel
    with c \<open>order_inv s'\<close> show ?thesis by (auto simp: cancels_def cancel_view fires_def)
  next
    case (Poll now)
    from Poll(1) show ?thesis
      by (cases rule: poll_view [where now = now])
        (use Poll(2) c d \<open>order_inv s'\<close> in \<open>auto simp: cancels_def poll_next_id fires_def image_iff\<close>)
  next
    case (After h now)
    from After(1) show ?thesis
      by (cases rule: after_view)
        (use After(2) c d \<open>order_inv s'\<close> in \<open>auto simp: cancels_def after_next_id fires_def image_iff\<close>)
  next
    case Other
    with c \<open>order_inv s'\<close> show ?thesis by (auto simp: cancels_def live_def fires_def)
  qed
qed

lemma cancel_stops_firing:
  assumes "timer_reachable s" "i < next_event_id (timer_state s)"
    and "timer_steps (snd (emane_rs_timer_cancel i s)) s'"
  shows "fires i s' = fires i s"
proof -
  let ?s = "snd (emane_rs_timer_cancel i s)"
  have c: "cancels i ?s"
    using assms(1,2) timer_reachable_inv order_inv_cancel by (auto simp: cancels_def cancel_view)
  have "fires i ?s = fires i s" by (simp add: fires_def cancel_view)
  moreover have "cancels i s' \<and> fires i s' = fires i ?s"
    using assms(3) by (rule timer_steps_inv) (use c in \<open>auto dest: cancels_act\<close>)
  ultimately show ?thesis by simp
qed


section \<open>The free callback\<close>

text \<open>Every entry that is still live was scheduled with the same id and free callback; the free
  callback of an id ran once when the entry is gone and not at all before.\<close>

definition free_inv :: "TimerSystem \<Rightarrow> bool" where
  "free_inv s \<longleftrightarrow>
     (\<forall>t \<in> set (live s). \<exists>e \<in> scheduled s. event_id e = event_id t \<and> free_callback e = free_callback t)
     \<and> (\<forall>e \<in> scheduled s. event_id e < next_event_id (timer_state s))
     \<and> (\<forall>e \<in> scheduled s. \<forall>e' \<in> scheduled s. event_id e = event_id e' \<longrightarrow> e = e')
     \<and> (\<forall>i. freed_count i s \<noteq> 0 \<longrightarrow> i < next_event_id (timer_state s))
     \<and> (\<forall>e \<in> scheduled s. freed_count (event_id e) s =
          (if free_callback e = None \<or> event_id e \<in> live_ids s then 0 else 1))"

lemma free_inv_schedule:
  assumes "free_inv s"
  shows "free_inv (snd (emane_rs_timer_schedule e i ar u c f now s))"
proof -
  let ?t = "\<lparr>event_id = next_event_id (timer_state s), expire_time_micros = e, schedule_time_micros = now,
           interval_micros = i, timer_arg = ar, p_user = u, timer_callback = c, free_callback = f\<rparr>"
  let ?s = "snd (emane_rs_timer_schedule e i ar u c f now s)"
  have sch: "scheduled ?s = insert ?t (scheduled s)" by (auto simp: scheduled_def schedule_view)
  have fc: "freed_count j ?s = freed_count j s" for j by (simp add: freed_count_def schedule_view)
  have fresh: "e' \<in> scheduled s \<Longrightarrow> event_id e' \<noteq> next_event_id (timer_state s)" for e'
    using assms by (auto simp: free_inv_def)
  have "freed_count (next_event_id (timer_state s)) s = 0"
    using assms by (auto simp: free_inv_def)
  then show ?thesis
    using assms fresh unfolding free_inv_def sch fc schedule_view
    by (auto simp: less_Suc_eq)
qed

lemma freed_count_calls:
  "calls s' = calls s @ (if free_callback h = None then [] else [Freed h]) \<Longrightarrow>
   freed_count i s' = freed_count i s + (if free_callback h \<noteq> None \<and> event_id h = i then 1 else 0)"
  by (simp add: freed_count_def)

lemma free_inv_gone:
  assumes inv: "free_inv s" and d: "distinct (map event_id (live s))"
    and "live s = h # live s'" and c: "calls s' = calls s @ (if free_callback h = None then [] else [Freed h])"
    and n: "next_event_id (timer_state s') = next_event_id (timer_state s)"
  shows "free_inv s'"
proof -
  have l: "set (live s) = insert h (set (live s'))" and h: "event_id h \<notin> live_ids s'"
    using assms(3) d by auto
  have sch: "scheduled s' = scheduled s" using c by (auto simp: scheduled_def split: if_splits)
  obtain e where e: "e \<in> scheduled s" "event_id e = event_id h" "free_callback e = free_callback h"
    using inv l by (auto simp: free_inv_def)
  then have lt: "event_id h < next_event_id (timer_state s)" using inv by (auto simp: free_inv_def)
  have count: "freed_count (event_id x) s' =
      (if free_callback x = None \<or> event_id x \<in> live_ids s' then 0 else 1)" if x: "x \<in> scheduled s" for x
  proof (cases "event_id x = event_id h")
    case True
    with e x inv have "x = e" by (auto simp: free_inv_def)
    with inv x e l h show ?thesis by (auto simp: free_inv_def freed_count_calls [OF c])
  next
    case False
    with inv x l show ?thesis by (auto simp: free_inv_def freed_count_calls [OF c])
  qed
  have "\<forall>i. freed_count i s' \<noteq> 0 \<longrightarrow> i < next_event_id (timer_state s)"
    using inv lt by (auto simp: free_inv_def freed_count_calls [OF c])
  with inv l count show ?thesis unfolding free_inv_def sch n by auto
qed

lemma free_inv_same:
  assumes "free_inv s" and "live_ids s' = live_ids s" and "scheduled s' = scheduled s"
    and "\<And>i. freed_count i s' = freed_count i s" and "next_event_id (timer_state s') = next_event_id (timer_state s)"
    and "\<And>t. t \<in> set (live s') \<Longrightarrow> \<exists>t' \<in> set (live s). event_id t' = event_id t \<and> free_callback t' = free_callback t"
  shows "free_inv s'"
proof -
  have "\<exists>e \<in> scheduled s. event_id e = event_id t \<and> free_callback e = free_callback t" if "t \<in> set (live s')" for t
  proof -
    obtain t' where "t' \<in> set (live s)" "event_id t' = event_id t" "free_callback t' = free_callback t"
      using assms(6) \<open>t \<in> set (live s')\<close> by blast
    with assms(1) show ?thesis unfolding free_inv_def by fastforce
  qed
  with assms(1) show ?thesis unfolding free_inv_def assms(2-5) by simp
qed

lemma free_inv_act:
  assumes o: "order_inv s" and inv: "free_inv s" and act: "timer_act a s = Some s'"
  shows "free_inv s'"
  using act
proof (cases rule: timer_act_cases)
  case Schedule
  with inv show ?thesis by (simp add: free_inv_schedule)
next
  case Cancel
  with inv show ?thesis
    by (intro free_inv_same [OF inv]) (auto simp: cancel_view scheduled_def freed_count_def)
next
  case (Poll now)
  from Poll(1) show ?thesis
  proof (cases rule: poll_view [where now = now])
    case (dropped h)
    then show ?thesis
      using Poll(2) by (intro free_inv_gone [OF inv live_distinct [OF o]]) (auto simp: poll_next_id)
  qed (use Poll(2) in \<open>auto intro!: free_inv_same [OF inv] simp: scheduled_def freed_count_def poll_next_id\<close>)
next
  case (After h now)
  from After(1) show ?thesis
  proof (cases rule: after_view)
    case (again h')
    then show ?thesis
      using After(2) by (intro free_inv_same [OF inv]) (auto simp: scheduled_def freed_count_def after_next_id)
  next
    case gone
    then show ?thesis
      using After(2) by (intro free_inv_gone [OF inv live_distinct [OF o]]) (auto simp: after_next_id)
  qed
next
  case Other
  then show ?thesis
    by (intro free_inv_same [OF inv]) (auto simp: live_def scheduled_def freed_count_def)
qed

lemma timer_reachable_free:
  assumes "timer_reachable s"
  shows "order_inv s \<and> free_inv s"
proof (rule timer_steps_inv)
  show "timer_steps timer_init s" using assms by (simp add: timer_reachable_def)
  show "order_inv timer_init \<and> free_inv timer_init"
    using timer_init_inv(1) by (simp add: free_inv_def timer_init_def live_def scheduled_def freed_count_def)
qed (auto intro: order_inv_act free_inv_act)


text \<open>An id that was given out and is no longer live never leaves the cancelled set.\<close>

definition finished :: "nat \<Rightarrow> TimerSystem \<Rightarrow> bool" where
  "finished i s \<longleftrightarrow> order_inv s \<and> i < next_event_id (timer_state s) \<and> i \<notin> live_ids s
     \<and> i \<in> cancelled (timer_state s)"

lemma finished_act:
  assumes c: "finished i s" and act: "timer_act a s = Some s'"
  shows "finished i s'"
proof -
  have "order_inv s'" using c act by (auto simp: finished_def intro: order_inv_act)
  from act show ?thesis
  proof (cases rule: timer_act_cases)
    case Schedule
    with c \<open>order_inv s'\<close> show ?thesis by (auto simp: finished_def schedule_view)
  next
    case Cancel
    with c \<open>order_inv s'\<close> show ?thesis by (auto simp: finished_def cancel_view)
  next
    case (Poll now)
    from Poll(1) show ?thesis
      by (cases rule: poll_view [where now = now])
        (use Poll(2) c \<open>order_inv s'\<close> in \<open>auto simp: finished_def poll_next_id\<close>)
  next
    case (After h now)
    from After(1) show ?thesis
      by (cases rule: after_view)
        (use After(2) c \<open>order_inv s'\<close> in \<open>auto simp: finished_def after_next_id image_iff\<close>)
  next
    case Other
    with c \<open>order_inv s'\<close> show ?thesis by (auto simp: finished_def live_def)
  qed
qed

lemma finished_stays_cancelled:
  assumes "finished i s" "timer_steps s s'"
  shows "i \<in> cancelled (timer_state s')"
proof -
  have "finished i s'" using assms(2,1) by (rule timer_steps_inv) (rule finished_act)
  then show ?thesis by (simp add: finished_def)
qed

section \<open>Properties\<close>

text \<open>C32: in every interleaving of schedules, cancellations and worker steps, no timer fires
  before its expiry, and the pending timers are in firing order with unique ids.\<close>

theorem timers_never_early:
  assumes "timer_reachable s"
  shows "(\<forall>e now. Fired e now \<in> set (calls s) \<longrightarrow> expire_time_micros e \<le> now)
    \<and> sorted_wrt timer_before (timer_heap (timer_state s))
    \<and> distinct (map event_id (timer_heap (timer_state s)))"
  using timer_reachable_inv [OF assms] by (auto simp: order_inv_def live_def)

text \<open>A run of the service on concrete actions.\<close>

fun timer_run :: "TimerAction list \<Rightarrow> TimerSystem \<Rightarrow> TimerSystem option" where
  "timer_run [] s = Some s"
| "timer_run (a # as) s = (case timer_act a s of None \<Rightarrow> None | Some s \<Rightarrow> timer_run as s)"

lemma timer_run_steps: "timer_run as s = Some s' \<Longrightarrow> timer_steps s0 s \<Longrightarrow> timer_steps s0 s'"
  by (induction as arbitrary: s) (auto split: option.splits intro: timer_steps.step)

lemma timer_run_the: "timer_run as s \<noteq> None \<Longrightarrow> timer_steps s (the (timer_run as s))"
  by (auto intro: timer_run_steps [OF _ timer_steps.refl])

lemma timer_run_reachable: "timer_run as timer_init \<noteq> None \<Longrightarrow> timer_reachable (the (timer_run as timer_init))"
  by (simp add: timer_reachable_def timer_run_the del: not_None_eq)

definition example_actions :: "TimerAction list" where
  "example_actions = [Schedule 100 0 1 2 3 (Some 4) 10, Schedule 50 20 1 2 3 (Some 5) 10, Poll 60, Cancel 2, CallbackReturns]"

definition example_entry :: "nat \<Rightarrow> u64 \<Rightarrow> u64 \<Rightarrow> addr \<Rightarrow> TimerEntry" where
  "example_entry i e n f = \<lparr>event_id = i, expire_time_micros = e, schedule_time_micros = 10, interval_micros = n,
     timer_arg = 1, p_user = 2, timer_callback = 3, free_callback = Some f\<rparr>"

definition example_timers :: TimerSystem where
  "example_timers = the (timer_run example_actions timer_init)"

lemma example_timers_reachable: "timer_reachable example_timers"
proof -
  have "timer_run example_actions timer_init \<noteq> None" by code_simp
  then show ?thesis unfolding example_timers_def by (rule timer_run_reachable)
qed

theorem timers_never_early_witness:
  "\<exists>e now. Fired e now \<in> set (calls example_timers) \<and> expire_time_micros e \<le> now"
proof -
  have "Fired (example_entry 2 50 20 5) 60 \<in> set (calls example_timers)" by code_simp
  with timers_never_early [OF example_timers_reachable] show ?thesis by blast
qed

text \<open>When a timer fires, no pending timer expires before it: the worker takes timers in
  order of expiry.\<close>

lemma earliest_timer_fires:
  assumes "timer_reachable s" and "phase s = LoopTop"
    and "calls (timer_poll now s) = calls s @ [Fired e now]" and "t \<in> set (timer_heap (timer_state s))"
  shows "t = e \<or> timer_before e t"
proof -
  have "sorted_wrt timer_before (timer_heap (timer_state s))"
    using timer_reachable_inv [OF assms(1)] by (simp add: order_inv_def)
  with assms(2-) show ?thesis
    by (cases "timer_heap (timer_state s)")
      (auto simp: timer_poll_def free_entry_def Let_def split: if_splits option.splits)
qed

text \<open>C11: after a timer that was given out is cancelled it never fires again, whatever happens
  next, also when the cancellation comes while its callback runs and the timer is periodic.\<close>

theorem cancelled_timer_never_fires:
  assumes "timer_reachable s" and "i < next_event_id (timer_state s)"
    and "timer_steps (snd (emane_rs_timer_cancel i s)) s'"
  shows "fires i s' = fires i s"
  using assms by (rule cancel_stops_firing)

theorem cancelled_timer_never_fires_witness:
  "\<exists>s'. timer_steps (snd (emane_rs_timer_cancel 1 example_timers)) s' \<and> fires 1 s' = fires 1 example_timers
     \<and> timer_heap (timer_state s') = []"
proof -
  let ?c = "snd (emane_rs_timer_cancel 1 example_timers)"
  let ?as = "[FreeReturns, Poll 200, FreeReturns]"
  let ?s = "the (timer_run ?as ?c)"
  have "timer_run ?as ?c \<noteq> None" "timer_heap (timer_state ?s) = []" "1 < next_event_id (timer_state example_timers)"
    by code_simp+
  moreover from this(1) have "timer_steps ?c ?s" by (rule timer_run_the)
  ultimately show ?thesis
    using cancelled_timer_never_fires [OF example_timers_reachable, of 1 ?s] by blast
qed

text \<open>C30: the free callback of a timer never runs while the timer is pending or its callback
  runs, and has run exactly once when the timer is gone.\<close>

theorem free_callback_exactly_once:
  assumes "timer_reachable s" and "Scheduled e \<in> set (calls s)" and "free_callback e \<noteq> None"
  shows "freed_count (event_id e) s = (if event_id e \<in> live_ids s then 0 else 1)"
  using timer_reachable_free [OF assms(1)] assms(2,3) by (auto simp: free_inv_def scheduled_def)

theorem free_callback_exactly_once_witness: "freed_count 2 example_timers = 1 \<and> freed_count 1 example_timers = 0"
proof -
  let ?e = "example_entry 1 100 0 4" and ?f = "example_entry 2 50 20 5"
  have "Scheduled ?e \<in> set (calls example_timers)" "Scheduled ?f \<in> set (calls example_timers)" by code_simp+
  moreover have "map event_id (live example_timers) = [1]" by code_simp
  then have "live_ids example_timers = {1}" by (metis list.set(1,2) list.set_map)
  ultimately show ?thesis
    using free_callback_exactly_once [OF example_timers_reachable, of ?e]
      free_callback_exactly_once [OF example_timers_reachable, of ?f] by (simp add: example_entry_def)
qed

text \<open>C31: no wake-up is lost. A worker that waits without a deadline has nothing pending, and one
  that waits with a deadline has nothing pending that expires earlier, although \<open>schedule\<close>
  notifies it only for a new earliest timer.\<close>

theorem worker_never_oversleeps:
  assumes "timer_reachable s" and "phase s = Waiting d"
  shows "case d of None \<Rightarrow> timer_heap (timer_state s) = []
    | Some w \<Rightarrow> (\<forall>t \<in> set (timer_heap (timer_state s)). w \<le> expire_time_micros t)"
  using timer_reachable_inv [OF assms(1)] assms(2) by (cases d) (simp_all add: wait_inv_def)

theorem worker_never_oversleeps_witness:
  "\<exists>s. timer_reachable s \<and> phase s = Waiting (Some 50)
     \<and> (\<forall>t \<in> set (timer_heap (timer_state s)). 50 \<le> expire_time_micros t)"
proof -
  let ?as = "[Schedule 50 0 1 2 3 None 10, Poll 20, Schedule 70 0 1 2 3 None 30]"
  let ?s = "the (timer_run ?as timer_init)"
  have "timer_run ?as timer_init \<noteq> None" "phase ?s = Waiting (Some 50)" by code_simp+
  then have r: "timer_reachable ?s" by (intro timer_run_reachable)
  show ?thesis
    using worker_never_oversleeps [OF r \<open>phase ?s = Waiting (Some 50)\<close>] r \<open>phase ?s = Waiting (Some 50)\<close>
    by (intro exI [of _ ?s]) simp
qed

text \<open>Cancelling reports success for an id that names no timer; the id then stays in the set
  of cancelled ids for as long as no timer with that id is live, so every late cancellation
  leaves an entry behind.\<close>

lemma cancel_of_finished_timer_leaks:
  assumes "timer_reachable s" and "i < next_event_id (timer_state s)" and "i \<notin> live_ids s"
    and "timer_steps (snd (emane_rs_timer_cancel i s)) s'"
  shows "fst (emane_rs_timer_cancel i s) \<and> i \<in> cancelled (timer_state s')"
proof
  show "fst (emane_rs_timer_cancel i s)" by (simp add: emane_rs_timer_cancel_def Let_def)
  show "i \<in> cancelled (timer_state s')"
    using finished_stays_cancelled [OF _ assms(4)] assms(1-3) timer_reachable_inv order_inv_cancel
    by (auto simp: finished_def cancel_view)
qed

end
