(* ===== verification/Boundary_Message.thy ===== *)
theory Boundary_Message
  imports Wire_Codec Plugin_Types
begin

text \<open>
  The boundary between an emulator and a transport in another process
  (\<^verbatim>\<open>rust/emane-core/src/boundary_message_manager.rs\<close>): packets and control messages are
  framed and sent over datagrams or a TCP stream. Holds the framing, the endpoint state, the receive
  loops over what a socket returns, and the proofs that messages survive the wire, that a stream is
  taken apart independently of how it arrives in pieces, and that no input makes a receiver panic.
  Sockets, address resolution and threads are parameters: a receive loop is a function of the list of
  results its reads return.
\<close>


section \<open>Messages\<close>

definition DATA_MESSAGE :: u16 where "DATA_MESSAGE = 1"
definition CONTROL_MESSAGE :: u16 where "CONTROL_MESSAGE = 2"
definition HEADER_LENGTH :: nat where "HEADER_LENGTH = 6"
definition DATA_HEADER_LENGTH :: nat where "DATA_HEADER_LENGTH = 13"
definition CONTROL_HEADER_LENGTH :: nat where "CONTROL_HEADER_LENGTH = 4"
definition MAX_MESSAGE_LENGTH :: nat where "MAX_MESSAGE_LENGTH = 64 * 1024 * 1024"

lemmas boundary_constants = DATA_MESSAGE_def CONTROL_MESSAGE_def HEADER_LENGTH_def DATA_HEADER_LENGTH_def
  CONTROL_HEADER_LENGTH_def MAX_MESSAGE_LENGTH_def

text \<open>The places where the code returns an error message, as values.\<close>

datatype BoundaryError =
    UnsupportedProtocol string
  | NullPayload
  | TooManyControls
  | ControlNotLegacy u32
  | ControlTooLong u16
  | PacketLengthOverflow
  | PacketTooLong
  | ControlLengthOverflow
  | ControlMessageTooLong
  | TruncatedCount
  | TruncatedControlHeader
  | TruncatedControlPayload
  | TrailingBytes
  | TruncatedHeader
  | InvalidLength
  | TruncatedPacketHeader
  | PacketLengthMismatch
  | TruncatedControl
  | ControlLengthMismatch
  | UnknownMessageType u16
  | EndpointClosed
  | SendFailed string
  | ShortWrite nat nat
  | NotConnected

datatype BoundaryProtocol = Udp | TcpServer | TcpClient

definition BoundaryProtocol_platform :: "string \<Rightarrow> BoundaryError + BoundaryProtocol" where
  "BoundaryProtocol_platform value =
     (if value = ''udp'' then Inr Udp
      else if value = ''tcp'' then Inr TcpServer
      else Inl (UnsupportedProtocol value))"

definition BoundaryProtocol_transport :: "string \<Rightarrow> BoundaryError + BoundaryProtocol" where
  "BoundaryProtocol_transport value =
     (if value = ''udp'' then Inr Udp
      else if value = ''tcp'' then Inr TcpClient
      else Inl (UnsupportedProtocol value))"

record OwnedControlMessage =
  ocm_message_type :: u32
  ocm_payload :: "byte list"

record BoundaryPacket =
  bp_info :: FfiPacketInfo
  bp_payload :: "byte list"
  bp_controls :: "OwnedControlMessage list"

datatype BoundaryMessage = PacketMessage BoundaryPacket | ControlMessages "OwnedControlMessage list"


section \<open>Encoding\<close>

text \<open>Reading a slice past the memory behind its pointer is undefined; the model panics there.\<close>

definition ffi_slice :: "FfiSlice \<Rightarrow> (BoundaryError, byte list) result_panics" where
  "ffi_slice s =
     (if fs_len s = 0 then ok_res []
      else (case fs_data s of
          None \<Rightarrow> err_res NullPayload
        | Some mem \<Rightarrow> map_option Inr (slice mem 0 (fs_len s))))"

definition encode_control :: "byte list \<Rightarrow> FfiControlMessage \<Rightarrow> (BoundaryError, byte list) result_panics" where
  "encode_control data control =
     (if unat (fcm_msg_type control) \<ge> 2 ^ 16 then err_res (ControlNotLegacy (fcm_msg_type control))
      else (let message_type = ucast (fcm_msg_type control) :: u16
            in res_bind (ffi_slice (fcm_payload control)) (\<lambda>payload.
                 if length payload > 0xFFFF then err_res (ControlTooLong message_type)
                 else ok_res (data @ be_bytes 2 message_type @ be_bytes 2 (word_of_nat (length payload) :: u16)
                        @ payload))))"

definition encode_controls :: "FfiControlMessage list \<Rightarrow> (BoundaryError, byte list) result_panics" where
  "encode_controls controls =
     (if length controls > 0xFFFF then err_res TooManyControls
      else res_fold encode_control (be_bytes 2 (word_of_nat (length controls) :: u16)) controls)"

definition packet_message :: "FfiPacket \<Rightarrow> FfiControlMessage list \<Rightarrow> (BoundaryError, byte list) result_panics" where
  "packet_message packet controls =
     res_bind (ffi_slice (fp_payload packet)) (\<lambda>payload.
     res_bind (encode_controls controls) (\<lambda>controls.
       case Option.bind (Option.bind (checked_add HEADER_LENGTH DATA_HEADER_LENGTH)
              (\<lambda>len. checked_add len (length payload))) (\<lambda>len. checked_add len (length controls)) of
         None \<Rightarrow> err_res PacketLengthOverflow
       | Some total_len \<Rightarrow>
           if total_len > MAX_MESSAGE_LENGTH \<or> length payload > 0xFFFFFFFF then err_res PacketTooLong
           else ok_res (be_bytes 2 DATA_MESSAGE
                  @ be_bytes 4 (word_of_nat total_len :: u32)
                  @ be_bytes 2 (pi_source (fp_info packet))
                  @ be_bytes 2 (pi_destination (fp_info packet))
                  @ be_bytes 4 (word_of_nat (length payload) :: u32)
                  @ be_bytes 4 (word_of_nat (length controls) :: u32)
                  @ [pi_priority (fp_info packet)]
                  @ payload
                  @ controls)))"

definition control_message :: "FfiControlMessage list \<Rightarrow> (BoundaryError, byte list) result_panics" where
  "control_message controls =
     res_bind (encode_controls controls) (\<lambda>controls.
       case Option.bind (checked_add HEADER_LENGTH CONTROL_HEADER_LENGTH) (\<lambda>len. checked_add len (length controls)) of
         None \<Rightarrow> err_res ControlLengthOverflow
       | Some total_len \<Rightarrow>
           if total_len > MAX_MESSAGE_LENGTH then err_res ControlMessageTooLong
           else ok_res (be_bytes 2 CONTROL_MESSAGE
                  @ be_bytes 4 (word_of_nat total_len :: u32)
                  @ be_bytes 4 (word_of_nat (length controls) :: u32)
                  @ controls))"


section \<open>Decoding\<close>

fun decode_control_loop ::
  "nat \<Rightarrow> byte list \<Rightarrow> OwnedControlMessage list \<Rightarrow> (BoundaryError, OwnedControlMessage list) result_panics" where
  "decode_control_loop 0 data controls =
     (if data \<noteq> [] then err_res TrailingBytes else ok_res controls)"
| "decode_control_loop (Suc n) data controls =
     (if length data < 4 then err_res TruncatedControlHeader
      else do {
        message_type \<leftarrow> get_u16 data 0;
        len \<leftarrow> get_u16 data 2;
        data \<leftarrow> slice data 4 (length data);
        if length data < unat len then err_res TruncatedControlPayload
        else do {
          payload \<leftarrow> slice data 0 (unat len);
          data \<leftarrow> slice data (unat len) (length data);
          decode_control_loop n data
            (controls @ [\<lparr>ocm_message_type = ucast message_type, ocm_payload = payload\<rparr>]) } })"

definition decode_controls :: "byte list \<Rightarrow> (BoundaryError, OwnedControlMessage list) result_panics" where
  "decode_controls data =
     (if length data < 2 then err_res TruncatedCount
      else do {
        count \<leftarrow> get_u16 data 0;
        data \<leftarrow> slice data 2 (length data);
        decode_control_loop (unat count) data [] })"

text \<open>The body of a packet; \<open>now\<close> is the system time as seconds and microseconds.\<close>

definition decode_packet :: "u64 \<times> u32 \<Rightarrow> byte list \<Rightarrow> (BoundaryError, BoundaryMessage) result_panics" where
  "decode_packet now data =
     (if length data < HEADER_LENGTH + DATA_HEADER_LENGTH then err_res TruncatedPacketHeader
      else do {
        header \<leftarrow> slice data HEADER_LENGTH (HEADER_LENGTH + DATA_HEADER_LENGTH);
        source \<leftarrow> get_u16 header 0;
        destination \<leftarrow> get_u16 header 2;
        payload_length \<leftarrow> get_u32 header 4;
        control_length \<leftarrow> get_u32 header 8;
        case Option.bind (Option.bind (checked_add HEADER_LENGTH DATA_HEADER_LENGTH)
               (\<lambda>len. checked_add len (unat payload_length))) (\<lambda>len. checked_add len (unat control_length)) of
          None \<Rightarrow> err_res PacketLengthOverflow
        | Some expected \<Rightarrow>
            if expected \<noteq> length data then err_res PacketLengthMismatch
            else do {
              let payload_start = HEADER_LENGTH + DATA_HEADER_LENGTH;
              let control_start = payload_start + unat payload_length;
              priority \<leftarrow> index_get header 12;
              payload \<leftarrow> slice data payload_start control_start;
              rest \<leftarrow> slice data control_start (length data);
              res_bind (decode_controls rest) (\<lambda>controls.
                ok_res (PacketMessage
                  \<lparr>bp_info = \<lparr>pi_source = source, pi_destination = destination, pi_priority = priority,
                     pi_creation_time_sec = fst now, pi_creation_time_usec = snd now\<rparr>,
                   bp_payload = payload, bp_controls = controls\<rparr>)) } })"

definition decode_control_message :: "byte list \<Rightarrow> (BoundaryError, BoundaryMessage) result_panics" where
  "decode_control_message data =
     (if length data < HEADER_LENGTH + CONTROL_HEADER_LENGTH then err_res TruncatedControl
      else do {
        len \<leftarrow> get_u32 data HEADER_LENGTH;
        if HEADER_LENGTH + CONTROL_HEADER_LENGTH + unat len \<noteq> length data then err_res ControlLengthMismatch
        else do {
          rest \<leftarrow> slice data (HEADER_LENGTH + CONTROL_HEADER_LENGTH) (length data);
          res_bind (decode_controls rest) (\<lambda>controls. ok_res (ControlMessages controls)) } })"

definition decode_message :: "u64 \<times> u32 \<Rightarrow> byte list \<Rightarrow> (BoundaryError, BoundaryMessage) result_panics" where
  "decode_message now data =
     (if length data < HEADER_LENGTH then err_res TruncatedHeader
      else do {
        message_type \<leftarrow> get_u16 data 0;
        total_len \<leftarrow> get_u32 data 2;
        if unat total_len \<noteq> length data \<or> unat total_len > MAX_MESSAGE_LENGTH then err_res InvalidLength
        else if message_type = DATA_MESSAGE then decode_packet now data
        else if message_type = CONTROL_MESSAGE then decode_control_message data
        else err_res (UnknownMessageType message_type) })"


section \<open>Endpoints\<close>

text \<open>
  The state the threads of an endpoint share: whether it was closed and which of the two sockets
  it has, together with what was written to them. What a socket returns is a parameter.
\<close>

record SharedState =
  bs_cancel :: bool
  bs_udp :: bool
  bs_tcp :: bool
  bs_written :: "byte list list"

record BoundaryIo =
  io_send_to :: "byte list \<Rightarrow> string + nat"
  io_write_all :: "byte list \<Rightarrow> string + unit"

definition boundary_send :: "BoundaryIo \<Rightarrow> byte list \<Rightarrow> SharedState \<Rightarrow> (BoundaryError + unit) \<times> SharedState" where
  "boundary_send io data shared =
     (if bs_cancel shared then (Inl EndpointClosed, shared)
      else if bs_udp shared
      then (case io_send_to io data of
          Inl error \<Rightarrow> (Inl (SendFailed error), shared)
        | Inr sent \<Rightarrow>
            (if sent = length data then Inr () else Inl (ShortWrite sent (length data)),
             shared\<lparr>bs_written := bs_written shared @ [take sent data]\<rparr>))
      else if bs_tcp shared
      then (case io_write_all io data of
          Inl error \<Rightarrow> (Inl (SendFailed error), shared)
        | Inr _ \<Rightarrow> (Inr (), shared\<lparr>bs_written := bs_written shared @ [data]\<rparr>))
      else (Inl NotConnected, shared))"

definition send_message ::
  "BoundaryIo \<Rightarrow> (BoundaryError, byte list) result_panics \<Rightarrow> SharedState \<Rightarrow> ((BoundaryError + unit) \<times> SharedState) panics" where
  "send_message io message shared =
     (case message of
        None \<Rightarrow> None
      | Some (Inl error) \<Rightarrow> Some (Inl error, shared)
      | Some (Inr data) \<Rightarrow> Some (boundary_send io data shared))"

definition send_packet ::
  "BoundaryIo \<Rightarrow> FfiPacket \<Rightarrow> FfiControlMessage list \<Rightarrow> SharedState \<Rightarrow> ((BoundaryError + unit) \<times> SharedState) panics" where
  "send_packet io packet controls shared = send_message io (packet_message packet controls) shared"

definition send_control ::
  "BoundaryIo \<Rightarrow> FfiControlMessage list \<Rightarrow> SharedState \<Rightarrow> ((BoundaryError + unit) \<times> SharedState) panics" where
  "send_control io controls shared = send_message io (control_message controls) shared"

definition boundary_close :: "SharedState \<Rightarrow> SharedState" where
  "boundary_close shared = shared\<lparr>bs_cancel := True, bs_udp := False, bs_tcp := False\<rparr>"

text \<open>
  A receiving thread passes the messages it decodes to the handler; the model lists them in order.
  The clock is read for every packet and is a function of what was handled before.
\<close>

type_synonym boundary_clock = "BoundaryMessage list \<Rightarrow> u64 \<times> u32"

definition dispatch :: "boundary_clock \<Rightarrow> byte list \<Rightarrow> BoundaryMessage list \<Rightarrow> BoundaryMessage list panics" where
  "dispatch now data handled =
     (case decode_message (now handled) data of
        None \<Rightarrow> None
      | Some (Inl error) \<Rightarrow> Some handled
      | Some (Inr message) \<Rightarrow> Some (handled @ [message]))"

text \<open>What a read of a socket returns, until the thread sees the cancel flag.\<close>

datatype ReadResult = ReadBytes "byte list" | ReadTimeout | ReadFailed

fun receive_udp :: "boundary_clock \<Rightarrow> ReadResult list \<Rightarrow> BoundaryMessage list \<Rightarrow> BoundaryMessage list panics" where
  "receive_udp now [] handled = Some handled"
| "receive_udp now (ReadBytes data # reads) handled = do {
     handled \<leftarrow> dispatch now data handled;
     receive_udp now reads handled }"
| "receive_udp now (ReadTimeout # reads) handled = receive_udp now reads handled"
| "receive_udp now (ReadFailed # reads) handled = Some handled"

text \<open>The inner loop of the stream receiver. The first result tells whether the stream goes on;
  the length of a message is read from its header and bounds it below, so the loop ends.\<close>

function drain_received ::
  "boundary_clock \<Rightarrow> byte list \<Rightarrow> BoundaryMessage list \<Rightarrow> (bool \<times> byte list \<times> BoundaryMessage list) panics" where
  "drain_received now received handled =
     (if length received < HEADER_LENGTH then Some (True, received, handled)
      else do {
        total_len \<leftarrow> get_u32 received 2;
        if \<not> (HEADER_LENGTH \<le> unat total_len \<and> unat total_len \<le> MAX_MESSAGE_LENGTH) then Some (False, received, handled)
        else if length received < unat total_len then Some (True, received, handled)
        else do {
          data \<leftarrow> slice received 0 (unat total_len);
          handled \<leftarrow> dispatch now data handled;
          received \<leftarrow> slice received (unat total_len) (length received);
          drain_received now received handled } })"
  by pat_completeness auto
termination
  by (relation "measure (\<lambda>(now, received, handled). length received)")
    (auto dest!: slice_SomeD simp: HEADER_LENGTH_def)

declare drain_received.simps [simp del]

fun receive_stream ::
  "boundary_clock \<Rightarrow> ReadResult list \<Rightarrow> byte list \<Rightarrow> BoundaryMessage list \<Rightarrow> BoundaryMessage list panics" where
  "receive_stream now [] received handled = Some handled"
| "receive_stream now (ReadBytes data # reads) received handled =
     (if data = [] then Some handled
      else do {
        (open_stream, received, handled) \<leftarrow> drain_received now (received @ data) handled;
        if open_stream then receive_stream now reads received handled else Some handled })"
| "receive_stream now (ReadTimeout # reads) received handled = receive_stream now reads received handled"
| "receive_stream now (ReadFailed # reads) received handled = Some handled"

text \<open>
  The threads of the two TCP endpoints: for every connection that is accepted or made and could be
  configured and registered, the stream is received with an empty buffer.
\<close>

datatype ConnectResult = Connected bool "ReadResult list" | ConnectRetry | ConnectFailed

definition set_active_stream :: "SharedState \<Rightarrow> SharedState" where
  "set_active_stream shared = shared\<lparr>bs_tcp := True\<rparr>"

definition clear_active_stream :: "SharedState \<Rightarrow> SharedState" where
  "clear_active_stream shared = shared\<lparr>bs_tcp := False\<rparr>"

definition receive_connection ::
  "boundary_clock \<Rightarrow> bool \<Rightarrow> ReadResult list \<Rightarrow> SharedState \<times> BoundaryMessage list
   \<Rightarrow> (SharedState \<times> BoundaryMessage list) panics" where
  "receive_connection now configured reads sh =
     (case sh of (shared, handled) \<Rightarrow>
        if configured
        then do {
          handled \<leftarrow> receive_stream now reads [] handled;
          Some (clear_active_stream (set_active_stream shared), handled) }
        else Some (shared, handled))"

fun receive_tcp_server ::
  "boundary_clock \<Rightarrow> ConnectResult list \<Rightarrow> SharedState \<times> BoundaryMessage list
   \<Rightarrow> (SharedState \<times> BoundaryMessage list) panics" where
  "receive_tcp_server now [] sh = Some sh"
| "receive_tcp_server now (Connected configured reads # cs) sh = do {
     sh \<leftarrow> receive_connection now configured reads sh;
     receive_tcp_server now cs sh }"
| "receive_tcp_server now (ConnectRetry # cs) sh = receive_tcp_server now cs sh"
| "receive_tcp_server now (ConnectFailed # cs) sh = Some sh"

fun receive_tcp_client ::
  "boundary_clock \<Rightarrow> ConnectResult list \<Rightarrow> SharedState \<times> BoundaryMessage list
   \<Rightarrow> (SharedState \<times> BoundaryMessage list) panics" where
  "receive_tcp_client now [] sh = Some sh"
| "receive_tcp_client now (Connected configured reads # cs) sh = do {
     sh \<leftarrow> receive_connection now configured reads sh;
     receive_tcp_client now cs sh }"
| "receive_tcp_client now (ConnectRetry # cs) sh = receive_tcp_client now cs sh"
| "receive_tcp_client now (ConnectFailed # cs) sh = receive_tcp_client now cs sh"

section \<open>Decoding never panics\<close>

declare get_u16_in_range [simp] get_u32_in_range [simp]

abbreviation returns :: "('e, 'a) result_panics \<Rightarrow> bool" where
  "returns \<equiv> res_ok (\<lambda>_. True)"

lemma returns_bind: "returns m \<Longrightarrow> (\<And>x. returns (f x)) \<Longrightarrow> returns (res_bind m f)"
  by (rule res_ok_bind)

lemma returns_iff: "returns m \<longleftrightarrow> m \<noteq> None"
  by (auto simp: res_ok_def split: option.splits sum.splits)

lemma decode_control_loop_returns: "returns (decode_control_loop n data controls)"
  by (induction n data controls rule: decode_control_loop.induct) auto

lemma decode_controls_returns: "returns (decode_controls data)"
  by (simp add: decode_controls_def decode_control_loop_returns)

lemma decode_packet_returns: "returns (decode_packet now data)"
  by (auto simp: decode_packet_def boundary_constants checked_add_def index_get_def Let_def
      intro!: returns_bind decode_controls_returns)

lemma decode_control_message_returns: "returns (decode_control_message data)"
  by (auto simp: decode_control_message_def boundary_constants intro!: returns_bind decode_controls_returns)

lemma decode_message_returns: "returns (decode_message now data)"
  by (simp add: decode_message_def boundary_constants decode_packet_returns decode_control_message_returns)


section \<open>Round trips\<close>

definition slice_bytes :: "FfiSlice \<Rightarrow> byte list" where
  "slice_bytes s = (if fs_len s = 0 then [] else take (fs_len s) (the (fs_data s)))"

definition owned_control :: "FfiControlMessage \<Rightarrow> OwnedControlMessage" where
  "owned_control c = \<lparr>ocm_message_type = fcm_msg_type c, ocm_payload = slice_bytes (fcm_payload c)\<rparr>"

definition legacy_control :: "OwnedControlMessage \<Rightarrow> bool" where
  "legacy_control c \<longleftrightarrow> unat (ocm_message_type c) < 2 ^ 16 \<and> length (ocm_payload c) < 2 ^ 16"

definition control_bytes :: "OwnedControlMessage \<Rightarrow> byte list" where
  "control_bytes c = be_bytes 2 (ucast (ocm_message_type c) :: u16)
     @ be_bytes 2 (word_of_nat (length (ocm_payload c)) :: u16) @ ocm_payload c"

lemma ffi_slice_ok: "ffi_slice s = ok_res b \<Longrightarrow> b = slice_bytes s"
  by (auto simp: ffi_slice_def slice_bytes_def slice_def ok_res_def err_res_def split: if_splits option.splits)

lemma ffi_slice_returns: "valid_slice s \<Longrightarrow> returns (ffi_slice s)"
  by (auto simp: ffi_slice_def valid_slice_def res_ok_def ok_res_def err_res_def split: option.splits)

lemma encode_control_ok:
  "encode_control data c = ok_res d \<Longrightarrow>
   d = data @ control_bytes (owned_control c) \<and> legacy_control (owned_control c)"
  by (auto simp: encode_control_def res_bind_ok_iff owned_control_def legacy_control_def control_bytes_def Let_def
      not_le split: if_splits dest!: ffi_slice_ok)

lemma encode_control_fold_ok:
  "res_fold encode_control data cs = ok_res d \<Longrightarrow>
   d = data @ concat (map control_bytes (map owned_control cs)) \<and> list_all legacy_control (map owned_control cs)"
proof (induction cs arbitrary: data)
  case (Cons c cs)
  from Cons.prems obtain d1 where "encode_control data c = ok_res d1" "res_fold encode_control d1 cs = ok_res d"
    by (auto simp: res_bind_ok_iff)
  with encode_control_ok [of data c d1] Cons.IH [of d1] show ?case by simp
qed simp

lemma legacy_type: "legacy_control c \<Longrightarrow> ucast (ucast (ocm_message_type c) :: u16) = ocm_message_type c"
  by (simp add: legacy_control_def word_unat_eq_iff unsigned_ucast_eq unsigned_take_bit_eq take_bit_nat_eq_self_iff)

lemma decode_control_loop_bytes:
  "list_all legacy_control cs \<Longrightarrow> n = length cs \<Longrightarrow>
   decode_control_loop n (concat (map control_bytes cs)) acc = ok_res (acc @ cs)"
proof (induction cs arbitrary: acc n)
  case (Cons c cs)
  let ?d = "control_bytes c @ concat (map control_bytes cs)"
  have c: "legacy_control c" using Cons.prems by simp
  then have len: "length (ocm_payload c) < 65536" by (simp add: legacy_control_def)
  have "\<lparr>ocm_message_type = ocm_message_type c, ocm_payload = ocm_payload c\<rparr> = c" by simp
  with Cons c len show ?case
    by (simp add: control_bytes_def legacy_type)
qed simp

lemma decode_encode_controls:
  "encode_controls cs = ok_res d \<Longrightarrow> decode_controls d = ok_res (map owned_control cs)"
  by (auto simp: encode_controls_def decode_controls_def decode_control_loop_bytes simp del: map_map
      split: if_splits dest!: encode_control_fold_ok)

text \<open>Messages an endpoint sends, and what the other end hands to its handler for them.\<close>

datatype SentMessage = SentPacket FfiPacket "FfiControlMessage list" | SentControl "FfiControlMessage list"

fun message_bytes :: "SentMessage \<Rightarrow> (BoundaryError, byte list) result_panics" where
  "message_bytes (SentPacket packet controls) = packet_message packet controls"
| "message_bytes (SentControl controls) = control_message controls"

fun received_as :: "u64 \<times> u32 \<Rightarrow> SentMessage \<Rightarrow> BoundaryMessage" where
  "received_as now (SentPacket packet controls) = PacketMessage
     \<lparr>bp_info = (fp_info packet)\<lparr>pi_creation_time_sec := fst now, pi_creation_time_usec := snd now\<rparr>,
      bp_payload = slice_bytes (fp_payload packet), bp_controls = map owned_control controls\<rparr>"
| "received_as now (SentControl controls) = ControlMessages (map owned_control controls)"

text \<open>The frame a stream carries: its length is in the header.\<close>

definition framed :: "byte list \<Rightarrow> bool" where
  "framed m \<longleftrightarrow> HEADER_LENGTH \<le> length m \<and> length m \<le> MAX_MESSAGE_LENGTH
     \<and> take 4 (drop 2 m) = be_bytes 4 (word_of_nat (length m) :: u32)"

lemma packet_message_ok:
  assumes "packet_message packet controls = ok_res m"
  shows "framed m \<and> decode_message now m = ok_res (received_as now (SentPacket packet controls))"
proof -
  obtain p c where p: "ffi_slice (fp_payload packet) = ok_res p" and c: "encode_controls controls = ok_res c"
    using assms by (auto simp: packet_message_def res_bind_ok_iff)
  define n where "n = 19 + length p + length c"
  have small: "n \<le> 64 * 1024 * 1024" and m: "m = be_bytes 2 (1::u16) @ be_bytes 4 (word_of_nat n :: u32)
      @ be_bytes 2 (pi_source (fp_info packet)) @ be_bytes 2 (pi_destination (fp_info packet))
      @ be_bytes 4 (word_of_nat (length p) :: u32) @ be_bytes 4 (word_of_nat (length c) :: u32)
      @ [pi_priority (fp_info packet)] @ p @ c"
    using assms p c by (auto simp: packet_message_def n_def boundary_constants checked_add_def split: if_splits)
  have len: "length m = n" and w: "n < 2 ^ 32" "length p < 2 ^ 32" "length c < 2 ^ 32" "n \<le> usize_max" "6 \<le> n"
    using small by (auto simp: m n_def usize_max_def)
  have "framed m" using small by (simp add: framed_def boundary_constants len) (simp add: m n_def)
  moreover have "decode_message now m = decode_packet now m"
    using small w unat_u32_of_nat [OF w(1)] by (simp add: decode_message_def boundary_constants len) (simp add: m)
  moreover have "decode_packet now m = ok_res (received_as now (SentPacket packet controls))"
    using w decode_encode_controls [OF c] ffi_slice_ok [OF p]
    by (cases "fp_info packet")
      (simp add: decode_packet_def boundary_constants checked_add_def index_get_def m unat_u32_of_nat n_def nth_append)
  ultimately show ?thesis by simp
qed

lemma control_message_ok:
  assumes "control_message controls = ok_res m"
  shows "framed m \<and> decode_message now m = ok_res (received_as now (SentControl controls))"
proof -
  obtain c where c: "encode_controls controls = ok_res c"
    using assms by (auto simp: control_message_def res_bind_ok_iff)
  define n where "n = 10 + length c"
  have small: "n \<le> 64 * 1024 * 1024" and m: "m = be_bytes 2 (2::u16) @ be_bytes 4 (word_of_nat n :: u32)
      @ be_bytes 4 (word_of_nat (length c) :: u32) @ c"
    using assms c by (auto simp: control_message_def n_def boundary_constants checked_add_def split: if_splits)
  have len: "length m = n" and w: "n < 2 ^ 32" "length c < 2 ^ 32" "6 \<le> n"
    using small by (auto simp: m n_def)
  have "framed m" using small by (simp add: framed_def boundary_constants len) (simp add: m n_def)
  moreover have "decode_message now m = decode_control_message m"
    using small w unat_u32_of_nat [OF w(1)] by (simp add: decode_message_def boundary_constants len) (simp add: m)
  moreover have "decode_control_message m = ok_res (received_as now (SentControl controls))"
    using w decode_encode_controls [OF c]
    by (simp add: decode_control_message_def boundary_constants m unat_u32_of_nat n_def)
  ultimately show ?thesis by simp
qed

lemma message_bytes_ok:
  "message_bytes x = ok_res m \<Longrightarrow> framed m \<and> decode_message now m = ok_res (received_as now x)"
  by (cases x) (simp_all add: packet_message_ok control_message_ok)


section \<open>Streams\<close>

lemma dispatch_total: "\<exists>h. dispatch now data handled = Some h"
  using decode_message_returns [of "now handled" data]
  by (auto simp: dispatch_def returns_iff split: option.split sum.split)

lemma drain_received_total: "\<exists>r. drain_received now received handled = Some r"
proof (induction now received handled rule: drain_received.induct)
  case (1 now received handled)
  show ?case
    using "1.IH" dispatch_total [of now "take (unat (of_be_bytes (take 4 (drop 2 received)) :: u32)) received" handled]
    by (subst drain_received.simps) (auto simp: HEADER_LENGTH_def)
qed

text \<open>More bytes do not change what was already taken out of the stream.\<close>

lemma drain_received_append:
  "drain_received now xs h = Some (open_stream, rest, h') \<Longrightarrow>
   drain_received now (xs @ ys) h =
     (if open_stream then drain_received now (rest @ ys) h' else Some (False, rest @ ys, h'))"
proof (induction now xs h arbitrary: open_stream rest h' rule: drain_received.induct)
  case (1 now xs h)
  let ?t = "unat (of_be_bytes (take 4 (drop 2 xs)) :: u32)"
  consider (short) "length xs < 6" | (bad) "6 \<le> length xs" "\<not> (6 \<le> ?t \<and> ?t \<le> MAX_MESSAGE_LENGTH)"
    | (part) "6 \<le> length xs" "6 \<le> ?t" "?t \<le> MAX_MESSAGE_LENGTH" "length xs < ?t"
    | (whole) "6 \<le> length xs" "6 \<le> ?t" "?t \<le> MAX_MESSAGE_LENGTH" "?t \<le> length xs" by linarith
  then show ?case
  proof cases
    case short
    with "1.prems" show ?thesis by (auto simp: drain_received.simps [of now xs] HEADER_LENGTH_def)
  next
    case bad
    with "1.prems" have "\<not> open_stream" "rest = xs" "h' = h"
      by (auto simp: drain_received.simps [of now xs] HEADER_LENGTH_def)
    with bad show ?thesis by (subst drain_received.simps) (simp add: HEADER_LENGTH_def)
  next
    case part
    with "1.prems" show ?thesis by (auto simp: drain_received.simps [of now xs] HEADER_LENGTH_def)
  next
    case whole
    obtain h1 where h1: "dispatch now (take ?t xs) h = Some h1" using dispatch_total by blast
    have "drain_received now (drop ?t xs) h1 = Some (open_stream, rest, h')"
      using "1.prems" whole h1 by (simp add: drain_received.simps [of now xs] HEADER_LENGTH_def)
    with "1.IH" whole h1 have "drain_received now (drop ?t xs @ ys) h1 =
        (if open_stream then drain_received now (rest @ ys) h' else Some (False, rest @ ys, h'))"
      by (simp add: HEADER_LENGTH_def)
    with whole h1 show ?thesis
      by (simp add: drain_received.simps [of now "xs @ ys"] HEADER_LENGTH_def)
  qed
qed

fun read_bytes :: "ReadResult list \<Rightarrow> byte list" where
  "read_bytes [] = []"
| "read_bytes (ReadBytes data # reads) = data @ read_bytes reads"
| "read_bytes (_ # reads) = read_bytes reads"

definition live_reads :: "ReadResult list \<Rightarrow> bool" where
  "live_reads reads \<longleftrightarrow> ReadBytes [] \<notin> set reads \<and> ReadFailed \<notin> set reads"

lemma receive_stream_drain:
  "live_reads reads \<Longrightarrow> drain_received now received handled = Some (True, received, handled) \<Longrightarrow>
   receive_stream now reads received handled =
     map_option (\<lambda>(open_stream, received, handled). handled) (drain_received now (received @ read_bytes reads) handled)"
proof (induction now reads received handled rule: receive_stream.induct)
  case (2 now data reads received handled)
  obtain ok r h where d: "drain_received now (received @ data) handled = Some (ok, r, h)"
    using drain_received_total [of now "received @ data" handled] by auto
  have app: "drain_received now ((received @ data) @ read_bytes reads) handled =
      (if ok then drain_received now (r @ read_bytes reads) h else Some (False, r @ read_bytes reads, h))"
    by (rule drain_received_append [OF d])
  have "ok \<Longrightarrow> drain_received now r h = Some (True, r, h)"
    using drain_received_append [OF d, of "[]"] d by simp
  with 2 d app show ?case by (auto simp: live_reads_def)
qed (auto simp: live_reads_def)

text \<open>A stream of whole frames is taken apart into exactly these frames.\<close>

fun dispatch_all :: "boundary_clock \<Rightarrow> byte list list \<Rightarrow> BoundaryMessage list \<Rightarrow> BoundaryMessage list panics" where
  "dispatch_all now [] handled = Some handled"
| "dispatch_all now (m # ms) handled = do { handled \<leftarrow> dispatch now m handled; dispatch_all now ms handled }"

lemma drain_framed:
  assumes "framed m"
  shows "drain_received now (m @ ys) h = do { h \<leftarrow> dispatch now m h; drain_received now ys h }"
proof -
  have "length m < 2 ^ 32" "6 \<le> length m" "length m \<le> MAX_MESSAGE_LENGTH"
    using assms by (auto simp: framed_def boundary_constants)
  moreover have "take 4 (drop 2 (m @ ys)) = be_bytes 4 (word_of_nat (length m) :: u32)"
    using assms by (simp add: framed_def HEADER_LENGTH_def)
  ultimately show ?thesis
    by (subst drain_received.simps) (simp add: HEADER_LENGTH_def unat_u32_of_nat)
qed

lemma drain_frames:
  "list_all framed ms \<Longrightarrow>
   drain_received now (concat ms) h = map_option (\<lambda>h. (True, [], h)) (dispatch_all now ms h)"
proof (induction ms arbitrary: h)
  case Nil
  then show ?case by (simp add: drain_received.simps HEADER_LENGTH_def)
next
  case (Cons m ms)
  then show ?case by (cases "dispatch now m h") (simp_all add: drain_framed)
qed

fun deliver :: "boundary_clock \<Rightarrow> SentMessage list \<Rightarrow> BoundaryMessage list \<Rightarrow> BoundaryMessage list" where
  "deliver now [] handled = handled"
| "deliver now (x # xs) handled = deliver now xs (handled @ [received_as (now handled) x])"

lemma dispatch_all_sent:
  "list_all2 (\<lambda>x m. message_bytes x = ok_res m) xs ms \<Longrightarrow> dispatch_all now ms h = Some (deliver now xs h)"
proof (induction xs ms arbitrary: h rule: list_all2_induct)
  case (Cons x xs m ms)
  then have "dispatch now m h = Some (h @ [received_as (now h) x])"
    using message_bytes_ok [of x m "now h"] by (simp add: dispatch_def ok_res_def)
  with Cons show ?case by simp
qed simp

lemma receive_stream_total: "\<exists>h. receive_stream now reads received handled = Some h"
proof (induction now reads received handled rule: receive_stream.induct)
  case (2 now data reads received handled)
  then show ?case using drain_received_total [of now "received @ data" handled] by (cases "data = []") auto
qed auto

lemma receive_connection_total: "\<exists>sh'. receive_connection now configured reads sh = Some sh'"
  using receive_stream_total [of now reads "[]" "snd sh"]
  by (cases sh) (auto simp: receive_connection_def)

lemma receive_udp_total: "\<exists>h. receive_udp now reads handled = Some h"
  by (induction now reads handled rule: receive_udp.induct) (use dispatch_total in force)+

lemma receive_tcp_server_total: "\<exists>sh'. receive_tcp_server now cs sh = Some sh'"
  by (induction now cs sh rule: receive_tcp_server.induct) (use receive_connection_total in force)+

lemma receive_tcp_client_total: "\<exists>sh'. receive_tcp_client now cs sh = Some sh'"
  by (induction now cs sh rule: receive_tcp_client.induct) (use receive_connection_total in force)+

definition example_controls :: "FfiControlMessage list" where
  "example_controls = [\<lparr>fcm_msg_type = 104, fcm_payload = slice_of [1, 2, 3]\<rparr>]"

definition example_sent :: "SentMessage list" where
  "example_sent =
     [SentPacket \<lparr>fp_info = \<lparr>pi_source = 1, pi_destination = 2, pi_priority = 3, pi_creation_time_sec = 0,
        pi_creation_time_usec = 0\<rparr>, fp_payload = slice_of [7, 8]\<rparr> example_controls, SentControl example_controls]"

definition example_stream :: "byte list" where
  "example_stream = concat (map (\<lambda>x. projr (the (message_bytes x))) example_sent)"

lemma example_sent_ok:
  "list_all2 (\<lambda>x m. message_bytes x = ok_res m) example_sent (map (\<lambda>x. projr (the (message_bytes x))) example_sent)"
  by (simp add: example_sent_def example_controls_def packet_message_def control_message_def encode_controls_def
      encode_control_def ffi_slice_def slice_of_def boundary_constants checked_add_def usize_max_def ok_res_def
      res_bind_def Let_def)

text \<open>A packet or a list of control messages that an endpoint can send is decoded by the other
  end to the same source, destination, priority, payload and control messages; the creation time is the
  time of reception.\<close>

lemma boundary_roundtrip:
  assumes "message_bytes x = ok_res m"
  shows "decode_message now m = ok_res (received_as now x)"
  using message_bytes_ok [OF assms] by blast

text \<open>C5: messages written to a stream one after the other reach the handler of the other end
  exactly once each, whole and in order, however the stream is cut into reads and whatever timeouts
  come between them.\<close>

theorem boundary_stream_delivers:
  assumes "list_all2 (\<lambda>x m. message_bytes x = ok_res m) xs ms"
    and "live_reads reads" and "read_bytes reads = concat ms"
  shows "receive_stream now reads [] handled = Some (deliver now xs handled)"
proof -
  have "list_all framed ms"
    using assms(1) message_bytes_ok by (induction rule: list_all2_induct) auto
  then have "drain_received now (concat ms) handled = Some (True, [], deliver now xs handled)"
    by (simp add: drain_frames dispatch_all_sent [OF assms(1)])
  moreover have "drain_received now [] handled = Some (True, [], handled)"
    by (simp add: drain_received.simps HEADER_LENGTH_def)
  ultimately show ?thesis using receive_stream_drain [OF assms(2)] assms(3) by simp
qed

theorem boundary_stream_delivers_witness:
  "receive_stream (\<lambda>_. (5, 6)) [ReadBytes (take 3 example_stream), ReadTimeout, ReadBytes (drop 3 example_stream)] [] [] =
     Some (deliver (\<lambda>_. (5, 6)) example_sent [])"
proof -
  obtain m1 m2 where m: "message_bytes (example_sent ! 0) = ok_res m1" "message_bytes (example_sent ! 1) = ok_res m2"
    using example_sent_ok by (auto simp: example_sent_def)
  then have "length example_stream = length m1 + length m2"
    by (simp add: example_stream_def example_sent_def ok_res_def)
  then have "6 \<le> length example_stream"
    using message_bytes_ok [OF m(1), of "(0, 0)"] by (simp add: framed_def HEADER_LENGTH_def)
  then have "live_reads [ReadBytes (take 3 example_stream), ReadTimeout, ReadBytes (drop 3 example_stream)]"
    by (auto simp: live_reads_def)
  then show ?thesis
    by (rule boundary_stream_delivers [OF example_sent_ok]) (simp add: example_stream_def)
qed

text \<open>Whatever bytes arrive, over datagrams, streams or connections, in whatever pieces, no
  receiver of an endpoint panics, and all of them end with the reads they are given.\<close>

lemma boundary_receivers_never_panic:
  "decode_message time data \<noteq> panic \<and> receive_udp now reads handled \<noteq> panic
   \<and> receive_stream now reads received handled \<noteq> panic
   \<and> receive_tcp_server now connects sh \<noteq> panic \<and> receive_tcp_client now connects sh \<noteq> panic"
  using decode_message_returns [of time data] receive_udp_total [of now reads handled]
    receive_stream_total [of now reads received handled] receive_tcp_server_total [of now connects sh]
    receive_tcp_client_total [of now connects sh]
  by (simp add: returns_iff)

end
