(* ===== verification/Ota_Manager.thy ===== *)
theory Ota_Manager
  imports Wire_Codec Fragments
begin

text \<open>
  The manager of the over-the-air channel between emulators
  (\<^verbatim>\<open>rust/emane-core/src/ota_manager.rs\<close>): messages of events, controls and a packet are sent in
  parts that fit a maximum datagram, received parts are collected until a message is whole, and old
  parts are dropped. Holds the state, every call and the turn of the receive loop, and the proofs that
  each returns and keeps the invariant.

  The calls that leave the manager are recorded in order in \<open>om_effects\<close>; what the statistics service
  and the socket return is a function of that history. The protobuf codec is a parameter. Every call is
  one step: the code takes the lock several times in a call, but keeps nothing between the sections
  except values it does not change. Times are nanoseconds.
\<close>


section \<open>Data\<close>

text \<open>The protobuf messages of \<^verbatim>\<open>protos/otaheader.proto\<close> and
  \<^verbatim>\<open>protos/event.proto\<close>; their codec is a parameter.\<close>

record PayloadInfo =
  event_length :: u32
  control_length :: u32
  data_length :: u32

record OtaHeader =
  oh_source :: u32
  oh_destination :: u32
  oh_sequence :: u64
  oh_uuid :: "byte list"
  oh_payload_info :: "PayloadInfo option"

record Serialization =
  sz_nem_id :: u32
  sz_event_id :: u32
  sz_data :: "byte list"

text \<open>The packed header of a part: nine bytes, integers in network order.\<close>

record PartInfo =
  part_more :: u8
  part_offset :: u32
  part_size :: u32

definition PART_INFO_SIZE :: nat where "PART_INFO_SIZE = 9"
definition MAX_OTA_PAYLOAD :: nat where "MAX_OTA_PAYLOAD = 64 * 1024 * 1024"

definition part_info_bytes :: "PartInfo \<Rightarrow> byte list" where
  "part_info_bytes info = [part_more info] @ be_bytes 4 (part_offset info) @ be_bytes 4 (part_size info)"

definition read_part_info :: "byte list \<Rightarrow> nat \<Rightarrow> PartInfo panics" where
  "read_part_info buf at = do {
     more_flag \<leftarrow> index_get buf at;
     offset \<leftarrow> get_u32 buf (at + 1);
     size \<leftarrow> get_u32 buf (at + 5);
     Some \<lparr>part_more = more_flag, part_offset = offset, part_size = size\<rparr> }"

type_synonym uuid = "byte list"
type_synonym PartKey = "u16 \<times> u64"
type_synonym PacketStatisticKey = "uuid \<times> u16"
type_synonym EventStatisticKey = "uuid \<times> u16"

text \<open>The B-tree of parts is an association list with ascending offsets; times are nanoseconds.\<close>

record PartsData =
  pd_total_size :: nat
  pd_events_size :: nat
  pd_controls_size :: nat
  pd_data_size :: nat
  pd_parts :: "(nat \<times> byte list) list"
  pd_last_part_time :: int
  pd_uuid :: uuid

text \<open>Calls that leave the manager, in order: counters, table rows, events handed to the event
  service, packets handed to the callback of a user, datagrams.\<close>

datatype OtaEffect =
    IncrementNativeCounter u64
  | SetNativeTableRow u64 "u64 list" "NativeTableValue list"
  | RouteSerializedEvent u16 u16 "byte list"
  | PacketCallback nat nat u16 u16 uuid "byte list" "byte list"
  | SendDatagram "byte list"

record OtaEnv =
  oe_encode_header :: "OtaHeader \<Rightarrow> byte list"
  oe_decode_header :: "byte list \<Rightarrow> OtaHeader option"
  oe_decode_events :: "byte list \<Rightarrow> Serialization list option"
  oe_table_generation :: "OtaEffect list \<Rightarrow> u64 \<Rightarrow> u64 option"
  oe_send_to :: "OtaEffect list \<Rightarrow> byte list \<Rightarrow> bool"
  oe_try_clone :: "OtaEffect list \<Rightarrow> bool"
  oe_make_socket :: "string \<Rightarrow> string \<Rightarrow> u8 \<Rightarrow> bool \<Rightarrow> bool"

record OtaStatistics =
  os_downstream_packets :: u64
  os_upstream_packets :: u64
  os_missing_parts :: u64
  os_packet_table :: u64
  os_event_tx :: u64
  os_event_rx :: u64
  os_event_table :: u64
  os_packet_row_limit :: nat
  os_event_row_limit :: nat
  os_packet_generation :: u64
  os_event_generation :: u64
  os_packet_rows :: "(PacketStatisticKey \<times> u64 list) list"
  os_event_rows :: "(EventStatisticKey \<times> u64 list) list"

record OtaUser =
  ou_context :: nat
  ou_callback :: "nat option"

record OtaManager =
  om_socket :: bool
  om_uuid :: uuid
  om_ota_mtu :: nat
  om_part_check_threshold :: int
  om_part_timeout_threshold :: int
  om_sequence_number :: u64
  om_part_store :: "(PartKey \<times> PartsData) list"
  om_last_part_check_time :: int
  om_nem_users :: "(u16 \<times> OtaUser list) list"
  om_group_addr :: "string option"
  om_running :: bool
  om_upstream_packets :: u64
  om_reassembly_timeouts :: u64
  om_statistics :: OtaStatistics
  om_effects :: "OtaEffect list"


section \<open>Statistics\<close>

definition ota_emit :: "OtaEffect \<Rightarrow> OtaManager \<Rightarrow> OtaManager" where
  "ota_emit e manager = manager\<lparr>om_effects := om_effects manager @ [e]\<rparr>"

definition hex_digit :: "nat \<Rightarrow> char" where
  "hex_digit n = ''0123456789abcdef'' ! n"

definition hex_byte :: "u8 \<Rightarrow> string" where
  "hex_byte b = [hex_digit (unat b div 16), hex_digit (unat b mod 16)]"

definition format_uuid :: "uuid \<Rightarrow> string" where
  "format_uuid u =
     concat (map hex_byte (take 4 u)) @ ''-'' @ concat (map hex_byte (take 2 (drop 4 u))) @ ''-''
     @ concat (map hex_byte (take 2 (drop 6 u))) @ ''-'' @ concat (map hex_byte (take 2 (drop 8 u))) @ ''-''
     @ concat (map hex_byte (take 6 (drop 10 u)))"

definition statistic_key :: "uuid \<Rightarrow> u16 \<Rightarrow> u64 list" where
  "statistic_key u i = [of_be_bytes (take 8 u), of_be_bytes (drop 8 u), ucast i]"

text \<open>Counting a packet: the rows are forgotten when the table was cleared, and the row of the
  packet is updated unless the table is full.\<close>

definition refresh_packet_rows :: "OtaEnv \<Rightarrow> OtaManager \<Rightarrow> OtaManager" where
  "refresh_packet_rows env manager =
     (let st = om_statistics manager;
          generation = unwrap_or (oe_table_generation env (om_effects manager) (os_packet_table st)) (os_packet_generation st)
      in if generation \<noteq> os_packet_generation st
         then manager\<lparr>om_statistics := st\<lparr>os_packet_rows := [], os_packet_generation := generation\<rparr>\<rparr> else manager)"

definition count_packet_row :: "PacketStatisticKey \<Rightarrow> nat \<Rightarrow> OtaManager \<Rightarrow> OtaManager panics" where
  "count_packet_row key column manager =
     (let st = om_statistics manager
      in if map_of (os_packet_rows st) key = None \<and> length (os_packet_rows st) \<ge> os_packet_row_limit st
         then Some manager
         else do {
           let counts = unwrap_or (map_of (os_packet_rows st) key) [0, 0, 0];
           count \<leftarrow> index_get counts column;
           let counts = counts[column := saturating_add count 1];
           let manager = manager\<lparr>om_statistics := st\<lparr>os_packet_rows := AList.update key counts (os_packet_rows st)\<rparr>\<rparr>;
           Some (ota_emit (SetNativeTableRow (os_packet_table st) (statistic_key (fst key) (snd key))
                   (TableU64 (ucast (snd key)) # TableString (format_uuid (fst key)) # map TableU64 counts)) manager) })"

definition statistics_packet :: "OtaEnv \<Rightarrow> PacketStatisticKey \<Rightarrow> nat \<Rightarrow> OtaManager \<Rightarrow> OtaManager panics" where
  "statistics_packet env key column manager = do {
     let st = om_statistics manager;
     counter \<leftarrow> index_get [os_downstream_packets st, os_upstream_packets st, os_missing_parts st] column;
     let manager = ota_emit (IncrementNativeCounter counter) manager;
     count_packet_row key column (refresh_packet_rows env manager) }"

definition refresh_event_rows :: "OtaEnv \<Rightarrow> OtaManager \<Rightarrow> OtaManager" where
  "refresh_event_rows env manager =
     (let st = om_statistics manager;
          generation = unwrap_or (oe_table_generation env (om_effects manager) (os_event_table st)) (os_event_generation st)
      in if generation \<noteq> os_event_generation st
         then manager\<lparr>om_statistics := st\<lparr>os_event_rows := [], os_event_generation := generation\<rparr>\<rparr> else manager)"

definition count_event_row :: "EventStatisticKey \<Rightarrow> nat \<Rightarrow> OtaManager \<Rightarrow> OtaManager panics" where
  "count_event_row key column manager =
     (let st = om_statistics manager
      in if map_of (os_event_rows st) key = None \<and> length (os_event_rows st) \<ge> os_event_row_limit st
         then Some manager
         else do {
           let counts = unwrap_or (map_of (os_event_rows st) key) [0, 0];
           count \<leftarrow> index_get counts column;
           let counts = counts[column := saturating_add count 1];
           let manager = manager\<lparr>om_statistics := st\<lparr>os_event_rows := AList.update key counts (os_event_rows st)\<rparr>\<rparr>;
           Some (ota_emit (SetNativeTableRow (os_event_table st) (statistic_key (fst key) (snd key))
                   (TableU64 (ucast (snd key)) # TableString (format_uuid (fst key)) # map TableU64 counts)) manager) })"

definition statistics_event :: "OtaEnv \<Rightarrow> EventStatisticKey \<Rightarrow> bool \<Rightarrow> OtaManager \<Rightarrow> OtaManager panics" where
  "statistics_event env key receive manager =
     (let st = om_statistics manager;
          manager = ota_emit (IncrementNativeCounter (if receive then os_event_rx st else os_event_tx st)) manager
      in count_event_row key (if receive then 1 else 0) (refresh_event_rows env manager))"

definition configure_statistics :: "u32 \<Rightarrow> u32 \<Rightarrow> OtaManager \<Rightarrow> OtaManager" where
  "configure_statistics packet_row_limit event_row_limit manager =
     manager\<lparr>om_statistics := (om_statistics manager)\<lparr>os_packet_row_limit := unat packet_row_limit,
       os_event_row_limit := unat event_row_limit\<rparr>\<rparr>"


text \<open>Registration returns a handle, or nothing.\<close>

definition OtaStatistics_register ::
  "(string \<Rightarrow> u64 option) \<Rightarrow> (string \<Rightarrow> u64 option) \<Rightarrow> (u64 \<Rightarrow> u64 option) \<Rightarrow> OtaStatistics" where
  "OtaStatistics_register register_counter register_table table_generation =
     (let packet_table = unwrap_or (register_table ''OTAChannelPacketCountTable'') 0;
          event_table = unwrap_or (register_table ''OTAEventCountTable'') 0
      in \<lparr>os_downstream_packets = unwrap_or (register_counter ''numOTAChannelDownstreamPackets'') 0,
          os_upstream_packets = unwrap_or (register_counter ''numOTAChannelUpstreamPackets'') 0,
          os_missing_parts = unwrap_or (register_counter ''numOTAChannelUpstreamPacketsDroppedMissingPart'') 0,
          os_packet_table = packet_table,
          os_event_tx = unwrap_or (register_counter ''numOTAEventsTx'') 0,
          os_event_rx = unwrap_or (register_counter ''numOTAEventsRx'') 0,
          os_event_table = event_table,
          os_packet_row_limit = 0, os_event_row_limit = 0,
          os_packet_generation = unwrap_or (table_generation packet_table) 0,
          os_event_generation = unwrap_or (table_generation event_table) 0,
          os_packet_rows = [], os_event_rows = []\<rparr>)"

definition OtaManager_new :: "OtaStatistics \<Rightarrow> int \<Rightarrow> OtaManager" where
  "OtaManager_new statistics now =
     \<lparr>om_socket = False, om_uuid = replicate 16 0, om_ota_mtu = 0,
      om_part_check_threshold = 2 * 1000000000, om_part_timeout_threshold = 5 * 1000000000,
      om_sequence_number = 0, om_part_store = [], om_last_part_check_time = now, om_nem_users = [],
      om_group_addr = None, om_running = False, om_upstream_packets = 0, om_reassembly_timeouts = 0,
      om_statistics = statistics, om_effects = []\<rparr>"


section \<open>Users, opening and closing\<close>

definition users_of :: "u16 \<Rightarrow> OtaManager \<Rightarrow> OtaUser list" where
  "users_of i manager = unwrap_or (map_of (om_nem_users manager) i) []"

definition emane_rs_ota_manager_register_user :: "u16 \<Rightarrow> nat \<Rightarrow> OtaManager \<Rightarrow> OtaManager" where
  "emane_rs_ota_manager_register_user i p_user manager =
     manager\<lparr>om_nem_users := AList.update i (users_of i manager @ [\<lparr>ou_context = p_user, ou_callback = None\<rparr>])
       (om_nem_users manager)\<rparr>"

definition register_native_user :: "u16 \<Rightarrow> nat \<Rightarrow> nat \<Rightarrow> OtaManager \<Rightarrow> OtaManager" where
  "register_native_user i context callback manager =
     manager\<lparr>om_nem_users := AList.update i
       (filter (\<lambda>user. ou_context user \<noteq> context) (users_of i manager)
          @ [\<lparr>ou_context = context, ou_callback = Some callback\<rparr>])
       (om_nem_users manager)\<rparr>"

definition unregister_native_user :: "u16 \<Rightarrow> nat \<Rightarrow> OtaManager \<Rightarrow> OtaManager" where
  "unregister_native_user i context manager =
     (case map_of (om_nem_users manager) i of
        None \<Rightarrow> manager
      | Some users \<Rightarrow>
          (let users = filter (\<lambda>user. ou_context user \<noteq> context) users
           in if users = [] then manager\<lparr>om_nem_users := AList.delete i (om_nem_users manager)\<rparr>
              else manager\<lparr>om_nem_users := AList.update i users (om_nem_users manager)\<rparr>))"

definition emane_rs_ota_manager_unregister_user :: "u16 \<Rightarrow> OtaManager \<Rightarrow> OtaManager" where
  "emane_rs_ota_manager_unregister_user i manager =
     manager\<lparr>om_nem_users := AList.delete i (om_nem_users manager)\<rparr>"

text \<open>Parsing the address and creating and binding the socket is one parameter.\<close>

definition emane_rs_ota_manager_open ::
  "OtaEnv \<Rightarrow> string option \<Rightarrow> string option \<Rightarrow> u8 \<Rightarrow> bool \<Rightarrow> uuid option \<Rightarrow> nat \<Rightarrow> u16 \<Rightarrow> u16 \<Rightarrow> OtaManager
   \<Rightarrow> bool \<times> OtaManager" where
  "emane_rs_ota_manager_open env group_addr device ttl loopback uuid_ptr mtu check_secs timeout_secs manager =
     (case (group_addr, uuid_ptr) of
        (Some addr, Some u) \<Rightarrow>
          if om_running manager then (False, manager)
          else if \<not> oe_make_socket env addr (unwrap_or device []) ttl loopback then (False, manager)
          else (True, manager\<lparr>om_socket := True, om_uuid := u, om_ota_mtu := mtu,
                  om_part_check_threshold := uint check_secs * 1000000000,
                  om_part_timeout_threshold := uint timeout_secs * 1000000000,
                  om_group_addr := Some addr, om_part_store := [], om_running := True\<rparr>)
      | _ \<Rightarrow> (False, manager))"

definition emane_rs_ota_manager_close :: "OtaManager \<Rightarrow> OtaManager" where
  "emane_rs_ota_manager_close manager = manager\<lparr>om_running := False, om_socket := False, om_part_store := []\<rparr>"


section \<open>Receiving\<close>

definition parse_uuid :: "byte list \<Rightarrow> uuid option" where
  "parse_uuid bytes = (if length bytes = 16 then Some bytes else None)"

definition route_event :: "OtaEnv \<Rightarrow> uuid \<Rightarrow> Serialization \<Rightarrow> OtaManager \<Rightarrow> OtaManager panics" where
  "route_event env remote serialization manager =
     (case (u16_of_u32 (sz_nem_id serialization), u16_of_u32 (sz_event_id serialization)) of
        (Some nem_id, Some event_id) \<Rightarrow>
          statistics_event env (remote, event_id) True
            (ota_emit (RouteSerializedEvent nem_id event_id (sz_data serialization)) manager)
      | _ \<Rightarrow> Some manager)"

fun route_events :: "OtaEnv \<Rightarrow> uuid \<Rightarrow> Serialization list \<Rightarrow> OtaManager \<Rightarrow> OtaManager panics" where
  "route_events env remote [] manager = Some manager"
| "route_events env remote (s # ss) manager = do {
     manager \<leftarrow> route_event env remote s manager;
     route_events env remote ss manager }"

definition call_user :: "u16 \<Rightarrow> u16 \<Rightarrow> uuid \<Rightarrow> byte list \<Rightarrow> byte list \<Rightarrow> OtaUser \<Rightarrow> OtaManager \<Rightarrow> OtaManager" where
  "call_user source destination remote data controls user manager =
     (case ou_callback user of
        None \<Rightarrow> manager
      | Some callback \<Rightarrow>
          ota_emit (PacketCallback callback (ou_context user) source destination remote data controls) manager)"

definition handle_ota_message ::
  "OtaEnv \<Rightarrow> u16 \<Rightarrow> u16 \<Rightarrow> uuid \<Rightarrow> nat \<Rightarrow> nat \<Rightarrow> nat \<Rightarrow> byte list \<Rightarrow> OtaManager \<Rightarrow> (bool \<times> OtaManager) panics" where
  "handle_ota_message env source destination remote events_size controls_size data_size payload manager =
     (case Option.bind (checked_add events_size controls_size) (\<lambda>size. checked_add size data_size) of
        None \<Rightarrow> Some (False, manager)
      | Some expected_size \<Rightarrow>
          if expected_size \<noteq> length payload \<or> expected_size > MAX_OTA_PAYLOAD then Some (False, manager)
          else do {
            manager \<leftarrow> (if events_size > 0 then do {
                 bytes \<leftarrow> slice payload 0 events_size;
                 (case oe_decode_events env bytes of
                    None \<Rightarrow> Some manager
                  | Some serializations \<Rightarrow> route_events env remote serializations manager) }
               else Some manager);
            let offset = events_size;
            controls \<leftarrow> (if controls_size > 0 then slice payload offset (offset + controls_size) else Some []);
            let offset = offset + controls_size;
            data \<leftarrow> (if data_size > 0 then slice payload offset (offset + data_size) else Some []);
            if data_size > 0 then do {
              let manager = manager\<lparr>om_upstream_packets := saturating_add (om_upstream_packets manager) 1\<rparr>;
              manager \<leftarrow> statistics_packet env (remote, source) 1 manager;
              let users = concat (map snd (om_nem_users manager));
              Some (True, fold (call_user source destination remote data controls) users manager) }
            else Some (True, manager) })"

text \<open>\<open>BTreeMap::insert\<close> on ascending keys.\<close>

fun btree_insert :: "nat \<Rightarrow> 'v \<Rightarrow> (nat \<times> 'v) list \<Rightarrow> (nat \<times> 'v) list" where
  "btree_insert k v [] = [(k, v)]"
| "btree_insert k v ((k', v') # ps) =
     (if k < k' then (k, v) # (k', v') # ps
      else if k = k' then (k, v) # ps
      else (k', v') # btree_insert k v ps)"

text \<open>The \<open>all\<close> over the parts with its running offset.\<close>

fun all_contiguous :: "nat \<Rightarrow> nat \<Rightarrow> (nat \<times> byte list) list \<Rightarrow> bool \<times> nat" where
  "all_contiguous expected_total next_offset [] = (True, next_offset)"
| "all_contiguous expected_total next_offset ((offset, part) # ps) =
     (if offset \<noteq> next_offset then (False, next_offset)
      else (let next_offset = saturating_add_usize next_offset (length part)
            in if next_offset \<le> expected_total then all_contiguous expected_total next_offset ps
               else (False, next_offset)))"

text \<open>A part added to the entry of its message.\<close>

definition add_part :: "int \<Rightarrow> nat \<Rightarrow> byte list \<Rightarrow> PartsData \<Rightarrow> PartsData" where
  "add_part now offset bytes entry =
     (let total_size = (case map_of (pd_parts entry) offset of
            Some previous \<Rightarrow> pd_total_size entry - length previous
          | None \<Rightarrow> pd_total_size entry)
      in entry\<lparr>pd_parts := btree_insert offset bytes (pd_parts entry),
               pd_total_size := saturating_add_usize total_size (length bytes),
               pd_last_part_time := now\<rparr>)"

text \<open>The three lengths a header announces.\<close>

definition header_sizes :: "OtaHeader \<Rightarrow> nat \<times> nat \<times> nat" where
  "header_sizes header =
     (let payload_info = unwrap_or (oh_payload_info header) \<lparr>event_length = 0, control_length = 0, data_length = 0\<rparr>
      in (unat (event_length payload_info), unat (control_length payload_info), unat (data_length payload_info)))"

definition part_entry :: "int \<Rightarrow> uuid \<Rightarrow> nat \<times> nat \<times> nat \<Rightarrow> PartsData option \<Rightarrow> PartsData" where
  "part_entry now remote sizes existing =
     (case sizes of (event_len, control_len, data_len) \<Rightarrow>
        (let entry = unwrap_or existing
               \<lparr>pd_total_size = 0, pd_events_size = event_len, pd_controls_size = control_len,
                pd_data_size = data_len, pd_parts = [], pd_last_part_time = now, pd_uuid = remote\<rparr>
         in if pd_events_size entry = 0 \<and> pd_controls_size entry = 0 \<and> pd_data_size entry = 0
            then entry\<lparr>pd_events_size := event_len, pd_controls_size := control_len, pd_data_size := data_len\<rparr>
            else entry))"

text \<open>The entry with its new part is stored, or the whole message handled when nothing is missing.\<close>

definition store_part :: "OtaEnv \<Rightarrow> OtaHeader \<Rightarrow> PartKey \<Rightarrow> nat \<Rightarrow> PartsData \<Rightarrow> OtaManager \<Rightarrow> OtaManager panics" where
  "store_part env header key expected_total entry manager =
     (case all_contiguous expected_total 0 (pd_parts entry) of (contiguous_parts, next_offset) \<Rightarrow>
        if pd_total_size entry = expected_total \<and> contiguous_parts \<and> next_offset = expected_total
        then map_option snd (handle_ota_message env (ucast (oh_source header)) (ucast (oh_destination header))
               (pd_uuid entry) (pd_events_size entry) (pd_controls_size entry) (pd_data_size entry)
               (concat (map snd (pd_parts entry)))
               (manager\<lparr>om_part_store := AList.delete key (om_part_store manager)\<rparr>))
        else Some (manager\<lparr>om_part_store := AList.update key entry (om_part_store manager)\<rparr>))"

definition receive_part ::
  "OtaEnv \<Rightarrow> int \<Rightarrow> OtaHeader \<Rightarrow> uuid \<Rightarrow> PartInfo \<Rightarrow> byte list \<Rightarrow> OtaManager \<Rightarrow> (bool \<times> OtaManager) panics" where
  "receive_part env now header remote info bytes manager =
     (let key = (ucast (oh_source header), oh_sequence header);
          (event_len, control_len, data_len) = header_sizes header;
          offset = unat (part_offset info);
          size = unat (part_size info)
      in case Option.bind (checked_add event_len control_len) (\<lambda>size. checked_add size data_len) of
           None \<Rightarrow> Some (True, manager)
         | Some expected_total \<Rightarrow>
             if expected_total > MAX_OTA_PAYLOAD \<or> checked_add offset size = None \<or> offset + size > expected_total
                \<or> (part_more info = 0 \<and> offset + size \<noteq> expected_total)
             then Some (True, manager)
             else
               (let entry = part_entry now remote (event_len, control_len, data_len) (map_of (om_part_store manager) key)
                in if pd_events_size entry \<noteq> event_len \<or> pd_controls_size entry \<noteq> control_len
                      \<or> pd_data_size entry \<noteq> data_len \<or> pd_uuid entry \<noteq> remote
                   then Some (True, manager\<lparr>om_part_store := AList.delete key (om_part_store manager)\<rparr>)
                   else map_option (Pair False)
                          (store_part env header key expected_total (add_part now offset bytes entry) manager)))"

text \<open>The handling of one datagram; the first result tells whether the loop body was left with
  \<open>continue\<close>.\<close>

definition receive_datagram :: "OtaEnv \<Rightarrow> int \<Rightarrow> byte list \<Rightarrow> OtaManager \<Rightarrow> (bool \<times> OtaManager) panics" where
  "receive_datagram env now buf manager =
     (if length buf < 2 then Some (False, manager)
      else do {
        header_len \<leftarrow> map_option unat (get_u16 buf 0);
        if length buf < 2 + header_len + PART_INFO_SIZE then Some (False, manager)
        else do {
          header_bytes \<leftarrow> slice buf 2 (2 + header_len);
          (case oe_decode_header env header_bytes of
             None \<Rightarrow> Some (False, manager)
           | Some header \<Rightarrow>
               if oh_source header > 0xFFFF \<or> oh_destination header > 0xFFFF then Some (True, manager)
               else do {
                 let part_info_offset = 2 + header_len;
                 info \<leftarrow> read_part_info buf part_info_offset;
                 if part_more info > 1 then Some (True, manager)
                 else (case parse_uuid (oh_uuid header) of
                     None \<Rightarrow> Some (True, manager)
                   | Some remote \<Rightarrow>
                       if remote = om_uuid manager then Some (False, manager)
                       else do {
                         let payload_index = part_info_offset + PART_INFO_SIZE;
                         let size = unat (part_size info);
                         if checked_add payload_index size \<noteq> Some (length buf) then Some (False, manager)
                         else do {
                           bytes \<leftarrow> slice buf payload_index (payload_index + size);
                           if part_more info = 0 \<and> part_offset info = 0 then
                             (case header_sizes header of (event_len, control_len, data_len) \<Rightarrow>
                                map_option (\<lambda>(_, manager). (False, manager))
                                  (handle_ota_message env (ucast (oh_source header)) (ucast (oh_destination header))
                                     remote event_len control_len data_len bytes manager))
                           else receive_part env now header remote info bytes manager } }) }) } })"

text \<open>\<open>now.duration_since(then).unwrap_or(Duration::ZERO)\<close>.\<close>

definition elapsed :: "int \<Rightarrow> int \<Rightarrow> int" where
  "elapsed now since = max 0 (now - since)"

definition part_expired :: "int \<Rightarrow> OtaManager \<Rightarrow> PartsData \<Rightarrow> bool" where
  "part_expired now manager value \<longleftrightarrow>
     elapsed now (pd_last_part_time value) \<ge> om_part_timeout_threshold manager"

fun count_missing :: "OtaEnv \<Rightarrow> (PartKey \<times> PartsData) list \<Rightarrow> OtaManager \<Rightarrow> OtaManager panics" where
  "count_missing env [] manager = Some manager"
| "count_missing env ((key, value) # es) manager = do {
     manager \<leftarrow> statistics_packet env (pd_uuid value, fst key) 2 manager;
     count_missing env es manager }"

definition cleanup_parts :: "OtaEnv \<Rightarrow> int \<Rightarrow> OtaManager \<Rightarrow> OtaManager panics" where
  "cleanup_parts env now manager =
     (if elapsed now (om_last_part_check_time manager) \<ge> om_part_check_threshold manager
      then (let expired = filter (\<lambda>(key, value). part_expired now manager value) (om_part_store manager);
                kept = filter (\<lambda>(key, value). \<not> part_expired now manager value) (om_part_store manager);
                manager = manager\<lparr>om_part_store := kept, om_last_part_check_time := now\<rparr>
            in if expired = [] then Some manager
               else count_missing env expired
                      (manager\<lparr>om_reassembly_timeouts :=
                         saturating_add (om_reassembly_timeouts manager) (word_of_nat (length expired))\<rparr>))
      else Some manager)"

text \<open>One turn of the receive loop; the first result tells whether the loop goes on.\<close>

datatype OtaReceive = OtaDatagram int "byte list" | OtaTimeout | OtaError

fun process_loop_step :: "OtaEnv \<Rightarrow> OtaReceive \<Rightarrow> OtaManager \<Rightarrow> (bool \<times> OtaManager) panics" where
  "process_loop_step env (OtaDatagram now buf) manager = do {
     (continued, manager) \<leftarrow> receive_datagram env now buf manager;
     if continued then Some (True, manager)
     else do {
       manager \<leftarrow> cleanup_parts env now manager;
       Some (om_running manager, manager) } }"
| "process_loop_step env OtaTimeout manager = Some (om_running manager, manager)"
| "process_loop_step env OtaError manager = Some (False, manager)"


section \<open>Sending\<close>

text \<open>The bytes of one segment (events, controls or packet) that fall into the part.\<close>

definition append_segment :: "byte list \<Rightarrow> nat \<Rightarrow> nat \<times> nat \<Rightarrow> (byte list \<times> nat \<times> nat) panics" where
  "append_segment seg start p =
     (case p of (p_offset, p_size) \<Rightarrow>
        if start \<le> p_offset \<and> p_offset < start + length seg \<and> p_size > 0
        then do {
          let offset_in = p_offset - start;
          let n = min p_size (length seg - offset_in);
          bytes \<leftarrow> slice seg offset_in (offset_in + n);
          Some (bytes, p_offset + n, p_size - n) }
        else Some ([], p_offset, p_size))"

definition part_payload :: "byte list \<Rightarrow> byte list \<Rightarrow> byte list \<Rightarrow> nat \<Rightarrow> nat \<Rightarrow> byte list panics" where
  "part_payload events controls packet p_offset p_size = do {
     (b1, p) \<leftarrow> append_segment events 0 (p_offset, p_size);
     (b2, p) \<leftarrow> append_segment controls (length events) p;
     (b3, p) \<leftarrow> append_segment packet (length events + length controls) p;
     Some (b1 @ b2 @ b3) }"

text \<open>The loop that sends the parts; a part has at least one byte, so it ends.\<close>

function send_parts ::
  "OtaEnv \<Rightarrow> byte list \<Rightarrow> nat \<Rightarrow> byte list \<Rightarrow> byte list \<Rightarrow> byte list \<Rightarrow> nat \<Rightarrow> OtaManager \<Rightarrow> (bool \<times> OtaManager) panics" where
  "send_parts env header_bytes mtu events controls packet sent_bytes manager =
     (let total_payload_size = length events + length controls + length packet;
          header_len = length header_bytes;
          overhead = 2 + header_len + PART_INFO_SIZE
      in if sent_bytes < total_payload_size
         then
           (let total_wire_size = total_payload_size - sent_bytes + header_len + 2 + PART_INFO_SIZE;
                more_flag = mtu \<noteq> 0 \<and> total_wire_size > mtu;
                payload_size = (if more_flag then mtu - overhead else total_payload_size - sent_bytes);
                info = \<lparr>part_more = (if more_flag then 1 else 0), part_offset = word_of_nat sent_bytes,
                        part_size = word_of_nat payload_size\<rparr>
            in if payload_size = 0 \<or> payload_size > 0xFFFFFFFF then Some (False, manager)
               else do {
                 bytes \<leftarrow> part_payload events controls packet sent_bytes payload_size;
                 let message = be_bytes 2 (word_of_nat header_len :: u16) @ header_bytes @ part_info_bytes info @ bytes;
                 if length message \<noteq> overhead + payload_size then Some (False, manager)
                 else if \<not> oe_send_to env (om_effects manager) message then Some (False, manager)
                 else send_parts env header_bytes mtu events controls packet (sent_bytes + payload_size)
                        (ota_emit (SendDatagram message) manager) })
         else Some (True, manager))"
  by pat_completeness auto
termination
  by (relation "measure (\<lambda>(env, h, mtu, events, controls, packet, sent, manager).
        length events + length controls + length packet - sent)") auto

declare send_parts.simps [simp del]

fun count_events :: "OtaEnv \<Rightarrow> uuid \<Rightarrow> Serialization list \<Rightarrow> OtaManager \<Rightarrow> OtaManager panics" where
  "count_events env u [] manager = Some manager"
| "count_events env u (s # ss) manager = do {
     manager \<leftarrow> (case u16_of_u32 (sz_event_id s) of
        Some event_id \<Rightarrow> statistics_event env (u, event_id) False manager
      | None \<Rightarrow> Some manager);
     count_events env u ss manager }"

text \<open>\<open>from_raw_parts\<close> of a pointer that is not null.\<close>

definition raw_slice :: "FfiSlice \<Rightarrow> byte list panics" where
  "raw_slice s = (case fs_data s of None \<Rightarrow> Some [] | Some mem \<Rightarrow> slice mem 0 (fs_len s))"

definition null_slice :: "FfiSlice \<Rightarrow> bool" where
  "null_slice s \<longleftrightarrow> fs_len s \<noteq> 0 \<and> fs_data s = None"

definition emane_rs_ota_manager_send_ota_packet ::
  "OtaEnv \<Rightarrow> u16 \<Rightarrow> u16 \<Rightarrow> FfiSlice \<Rightarrow> FfiSlice \<Rightarrow> FfiSlice \<Rightarrow> OtaManager \<Rightarrow> (bool \<times> OtaManager) panics" where
  "emane_rs_ota_manager_send_ota_packet env source destination packet_data controls_data events_data manager =
     (if null_slice packet_data \<or> null_slice controls_data \<or> null_slice events_data
         \<or> fs_len packet_data > 0xFFFFFFFF \<or> fs_len controls_data > 0xFFFFFFFF \<or> fs_len events_data > 0xFFFFFFFF
      then Some (False, manager)
      else (case Option.bind (checked_add (fs_len events_data) (fs_len controls_data))
                   (\<lambda>size. checked_add size (fs_len packet_data)) of
          None \<Rightarrow> Some (False, manager)
        | Some total_payload_size \<Rightarrow>
            if total_payload_size > MAX_OTA_PAYLOAD then Some (False, manager)
            else if \<not> om_socket manager then Some (False, manager)
            else do {
              let manager = manager\<lparr>om_sequence_number := om_sequence_number manager + 1\<rparr>;
              if \<not> oe_try_clone env (om_effects manager) \<or> om_group_addr manager = None then Some (False, manager)
              else do {
                let header = \<lparr>oh_source = ucast source, oh_destination = ucast destination,
                    oh_sequence = om_sequence_number manager, oh_uuid = om_uuid manager,
                    oh_payload_info = Some \<lparr>event_length = word_of_nat (fs_len events_data),
                      control_length = word_of_nat (fs_len controls_data),
                      data_length = word_of_nat (fs_len packet_data)\<rparr>\<rparr>;
                let header_bytes = oe_encode_header env header;
                if length header_bytes > 0xFFFF then Some (False, manager)
                else do {
                  events \<leftarrow> raw_slice events_data;
                  controls \<leftarrow> raw_slice controls_data;
                  packet \<leftarrow> raw_slice packet_data;
                  let overhead = 2 + length header_bytes + PART_INFO_SIZE;
                  if om_ota_mtu manager \<noteq> 0 \<and> om_ota_mtu manager \<le> overhead \<and> total_payload_size \<noteq> 0
                  then Some (False, manager)
                  else do {
                    (sent, manager) \<leftarrow> send_parts env header_bytes (om_ota_mtu manager) events controls packet 0 manager;
                    if \<not> sent then Some (False, manager)
                    else do {
                      manager \<leftarrow> statistics_packet env (om_uuid manager, source) 0 manager;
                      manager \<leftarrow> (if fs_len events_data > 0
                        then (case oe_decode_events env events of
                            None \<Rightarrow> Some manager
                          | Some serializations \<Rightarrow> count_events env (om_uuid manager) serializations manager)
                        else Some manager);
                      Some (True, manager) } } } } }))"


section \<open>Calls\<close>

text \<open>All calls of the manager; a receive is one turn of the loop of the receiving thread. Each is
  one step: the lock is held while the state changes.\<close>

datatype OtaCall =
    Receive OtaReceive
  | SendPacket u16 u16 FfiSlice FfiSlice FfiSlice
  | RegisterUser u16 nat
  | RegisterNative u16 nat nat
  | UnregisterUser u16
  | UnregisterNative u16 nat
  | ConfigureStatistics u32 u32
  | OpenManager "string option" "string option" u8 bool "uuid option" nat u16 u16
  | CloseManager

fun ota_handle :: "OtaEnv \<Rightarrow> OtaCall \<Rightarrow> OtaManager \<Rightarrow> OtaManager panics" where
  "ota_handle env (Receive r) m = map_option snd (process_loop_step env r m)"
| "ota_handle env (SendPacket source destination packet controls events) m =
     map_option snd (emane_rs_ota_manager_send_ota_packet env source destination packet controls events m)"
| "ota_handle env (RegisterUser i p) m = Some (emane_rs_ota_manager_register_user i p m)"
| "ota_handle env (RegisterNative i c f) m = Some (register_native_user i c f m)"
| "ota_handle env (UnregisterUser i) m = Some (emane_rs_ota_manager_unregister_user i m)"
| "ota_handle env (UnregisterNative i c) m = Some (unregister_native_user i c m)"
| "ota_handle env (ConfigureStatistics p e) m = Some (configure_statistics p e m)"
| "ota_handle env (OpenManager addr dev ttl loop u mtu check timeout) m =
     Some (snd (emane_rs_ota_manager_open env addr dev ttl loop u mtu check timeout m))"
| "ota_handle env CloseManager m = Some (emane_rs_ota_manager_close m)"

fun valid_call :: "OtaCall \<Rightarrow> bool" where
  "valid_call (SendPacket source destination packet controls events) \<longleftrightarrow>
     valid_slice packet \<and> valid_slice controls \<and> valid_slice events"
| "valid_call _ \<longleftrightarrow> True"


section \<open>Invariant\<close>

definition stats_ok :: "OtaStatistics \<Rightarrow> bool" where
  "stats_ok st \<longleftrightarrow> (\<forall>r \<in> set (os_packet_rows st). length (snd r) = 3) \<and> (\<forall>r \<in> set (os_event_rows st). length (snd r) = 2)"

definition ota_inv :: "OtaManager \<Rightarrow> bool" where
  "ota_inv m \<longleftrightarrow> stats_ok (om_statistics m) \<and> distinct (map fst (om_part_store m))"

text \<open>Effects other than statistics: what leaves the manager.\<close>

fun visible :: "OtaEffect \<Rightarrow> bool" where
  "visible (IncrementNativeCounter c) \<longleftrightarrow> False"
| "visible (SetNativeTableRow t k v) \<longleftrightarrow> False"
| "visible _ \<longleftrightarrow> True"

definition sent_out :: "OtaManager \<Rightarrow> OtaEffect list" where
  "sent_out m = filter visible (om_effects m)"

text \<open>A step that changes the statistics and the history only, and sends \<open>es\<close>.\<close>

definition outputs :: "OtaEffect list \<Rightarrow> OtaManager \<Rightarrow> OtaManager \<Rightarrow> bool" where
  "outputs es m m' \<longleftrightarrow> (\<exists>st log. m' = m\<lparr>om_statistics := st, om_effects := om_effects m @ log\<rparr>
      \<and> filter visible log = es \<and> (stats_ok (om_statistics m) \<longrightarrow> stats_ok st))"

lemma outputs_refl: "outputs [] m m"
  unfolding outputs_def by (rule exI [of _ "om_statistics m"], rule exI [of _ "[]"]) simp

lemma outputs_trans: "outputs es m m' \<Longrightarrow> outputs es' m' m'' \<Longrightarrow> outputs (es @ es') m m''"
  unfolding outputs_def
  by (elim exE conjE, rule_tac x = sta in exI, rule_tac x = "log @ loga" in exI) simp

lemma outputs_emit: "outputs (filter visible [e]) m (ota_emit e m)"
  unfolding outputs_def ota_emit_def
  by (rule exI [of _ "om_statistics m"], rule exI [of _ "[e]"]) simp

lemma outputs_statistics:
  assumes "stats_ok (om_statistics m) \<Longrightarrow> stats_ok st"
  shows "outputs [] m (m\<lparr>om_statistics := st\<rparr>)"
  unfolding outputs_def using assms by (intro exI [of _ st] exI [of _ "[]"]) simp

lemma outputsD:
  assumes "outputs es m m'"
  shows "sent_out m' = sent_out m @ es" "om_part_store m' = om_part_store m" "om_uuid m' = om_uuid m"
    "om_part_timeout_threshold m' = om_part_timeout_threshold m" "om_nem_users m' = om_nem_users m"
    "om_running m' = om_running m" "om_ota_mtu m' = om_ota_mtu m" "ota_inv m \<Longrightarrow> ota_inv m'"
  using assms by (auto simp: outputs_def sent_out_def ota_inv_def)

lemma stats_ok_counts:
  "stats_ok st \<Longrightarrow> length (unwrap_or (map_of (os_packet_rows st) key) [0, 0, 0]) = 3"
  "stats_ok st \<Longrightarrow> length (unwrap_or (map_of (os_event_rows st) key') [0, 0]) = 2"
  by (auto simp: stats_ok_def unwrap_or_def split: option.split dest!: map_of_SomeD)

lemma set_update_subset: "set (AList.update k v al) \<subseteq> insert (k, v) (set al)"
  by (induction al) auto

lemma stats_ok_update:
  "stats_ok st \<Longrightarrow> length c = 3 \<Longrightarrow> stats_ok (st\<lparr>os_packet_rows := AList.update key c (os_packet_rows st)\<rparr>)"
  "stats_ok st \<Longrightarrow> length e = 2 \<Longrightarrow> stats_ok (st\<lparr>os_event_rows := AList.update key' e (os_event_rows st)\<rparr>)"
  using set_update_subset [of key c "os_packet_rows st"] set_update_subset [of key' e "os_event_rows st"]
  by (auto simp: stats_ok_def)

lemma refresh_packet_rows_ok: "outputs [] m (refresh_packet_rows env m)"
  by (auto simp: refresh_packet_rows_def Let_def outputs_refl stats_ok_def intro!: outputs_statistics)

lemma count_packet_row_ok:
  assumes "stats_ok (om_statistics m)" and "column < 3"
  shows "\<exists>m'. count_packet_row key column m = Some m' \<and> outputs [] m m'"
proof (cases "map_of (os_packet_rows (om_statistics m)) key = None \<and> length (os_packet_rows (om_statistics m)) \<ge> os_packet_row_limit (om_statistics m)")
  case True
  then show ?thesis by (auto simp: count_packet_row_def Let_def outputs_refl)
next
  case False
  let ?st = "om_statistics m"
  define counts where "counts = unwrap_or (map_of (os_packet_rows ?st) key) [0, 0, 0]"
  have len: "length counts = 3" using stats_ok_counts [OF assms(1)] by (simp add: counts_def)
  define counts' where "counts' = counts[column := saturating_add (counts ! column) 1]"
  let ?st' = "?st\<lparr>os_packet_rows := AList.update key counts' (os_packet_rows ?st)\<rparr>"
  let ?e = "SetNativeTableRow (os_packet_table ?st) (statistic_key (fst key) (snd key))
      (TableU64 (ucast (snd key)) # TableString (format_uuid (fst key)) # map TableU64 counts')"
  have st': "stats_ok ?st'" using assms(1) len by (simp add: counts'_def stats_ok_update)
  have "count_packet_row key column m = Some (ota_emit ?e (m\<lparr>om_statistics := ?st'\<rparr>))"
    unfolding count_packet_row_def Let_def counts_def [symmetric]
    using assms(2) len by (subst if_not_P [OF False]) (simp add: index_get_def counts'_def)
  moreover have "outputs [] m (ota_emit ?e (m\<lparr>om_statistics := ?st'\<rparr>))"
    unfolding outputs_def ota_emit_def using st' by (intro exI [of _ ?st'] exI [of _ "[?e]"]) simp
  ultimately show ?thesis by blast
qed

lemma refresh_event_rows_ok: "outputs [] m (refresh_event_rows env m)"
  by (auto simp: refresh_event_rows_def Let_def outputs_refl stats_ok_def intro!: outputs_statistics)

lemma count_event_row_ok:
  assumes "stats_ok (om_statistics m)" and "column < 2"
  shows "\<exists>m'. count_event_row key column m = Some m' \<and> outputs [] m m'"
proof (cases "map_of (os_event_rows (om_statistics m)) key = None \<and> length (os_event_rows (om_statistics m)) \<ge> os_event_row_limit (om_statistics m)")
  case True
  then show ?thesis by (auto simp: count_event_row_def Let_def outputs_refl)
next
  case False
  let ?st = "om_statistics m"
  define counts where "counts = unwrap_or (map_of (os_event_rows ?st) key) [0, 0]"
  have len: "length counts = 2" using stats_ok_counts [OF assms(1)] by (simp add: counts_def)
  define counts' where "counts' = counts[column := saturating_add (counts ! column) 1]"
  let ?st' = "?st\<lparr>os_event_rows := AList.update key counts' (os_event_rows ?st)\<rparr>"
  let ?e = "SetNativeTableRow (os_event_table ?st) (statistic_key (fst key) (snd key))
      (TableU64 (ucast (snd key)) # TableString (format_uuid (fst key)) # map TableU64 counts')"
  have st': "stats_ok ?st'" using assms(1) len by (simp add: counts'_def stats_ok_update)
  have "count_event_row key column m = Some (ota_emit ?e (m\<lparr>om_statistics := ?st'\<rparr>))"
    unfolding count_event_row_def Let_def counts_def [symmetric]
    using assms(2) len by (subst if_not_P [OF False]) (simp add: index_get_def counts'_def)
  moreover have "outputs [] m (ota_emit ?e (m\<lparr>om_statistics := ?st'\<rparr>))"
    unfolding outputs_def ota_emit_def using st' by (intro exI [of _ ?st'] exI [of _ "[?e]"]) simp
  ultimately show ?thesis by blast
qed

lemma outputs_stats: "outputs es m m' \<Longrightarrow> stats_ok (om_statistics m) \<Longrightarrow> stats_ok (om_statistics m')"
  by (auto simp: outputs_def)

lemma statistics_packet_ok:
  assumes "stats_ok (om_statistics m)" and "column < 3"
  shows "\<exists>m'. statistics_packet env key column m = Some m' \<and> outputs [] m m'"
proof -
  let ?c = "[os_downstream_packets (om_statistics m), os_upstream_packets (om_statistics m), os_missing_parts (om_statistics m)] ! column"
  let ?m = "refresh_packet_rows env (ota_emit (IncrementNativeCounter ?c) m)"
  have r: "outputs [] m ?m"
    using outputs_trans [OF outputs_emit refresh_packet_rows_ok, of "IncrementNativeCounter ?c" m env] by simp
  obtain m' where "count_packet_row key column ?m = Some m'" "outputs [] ?m m'"
    using count_packet_row_ok [OF outputs_stats [OF r assms(1)] assms(2)] by blast
  then show ?thesis
    using outputs_trans [OF r] assms(2) by (auto simp: statistics_packet_def Let_def index_get_def)
qed

lemma statistics_event_ok:
  assumes "stats_ok (om_statistics m)"
  shows "\<exists>m'. statistics_event env key receive m = Some m' \<and> outputs [] m m'"
proof -
  let ?c = "if receive then os_event_rx (om_statistics m) else os_event_tx (om_statistics m)"
  let ?m = "refresh_event_rows env (ota_emit (IncrementNativeCounter ?c) m)"
  have r: "outputs [] m ?m"
    using outputs_trans [OF outputs_emit refresh_event_rows_ok, of "IncrementNativeCounter ?c" m env] by simp
  have "(if receive then 1 else 0) < (2::nat)" by simp
  from count_event_row_ok [OF outputs_stats [OF r assms] this]
  obtain m' where "count_event_row key (if receive then 1 else 0) ?m = Some m'" "outputs [] ?m m'" by blast
  then show ?thesis
    using outputs_trans [OF r] by (auto simp: statistics_event_def Let_def)
qed


section \<open>Messages\<close>

text \<open>What a message with the given events, controls and packet sends to the event service and to
  the users.\<close>

fun event_output :: "Serialization list \<Rightarrow> OtaEffect list" where
  "event_output [] = []"
| "event_output (s # ss) =
     (case (u16_of_u32 (sz_nem_id s), u16_of_u32 (sz_event_id s)) of
        (Some nem_id, Some event_id) \<Rightarrow> [RouteSerializedEvent nem_id event_id (sz_data s)]
      | _ \<Rightarrow> []) @ event_output ss"

definition callbacks :: "u16 \<Rightarrow> u16 \<Rightarrow> uuid \<Rightarrow> byte list \<Rightarrow> byte list \<Rightarrow> OtaUser list \<Rightarrow> OtaEffect list" where
  "callbacks source destination remote data controls users =
     concat (map (\<lambda>user. case ou_callback user of
        None \<Rightarrow> []
      | Some callback \<Rightarrow> [PacketCallback callback (ou_context user) source destination remote data controls]) users)"

definition message_output :: "OtaEnv \<Rightarrow> u16 \<Rightarrow> u16 \<Rightarrow> uuid \<Rightarrow> byte list \<Rightarrow> byte list \<Rightarrow> byte list \<Rightarrow> OtaManager \<Rightarrow> OtaEffect list" where
  "message_output env source destination remote events controls packet m =
     (if events = [] then []
      else case oe_decode_events env events of None \<Rightarrow> [] | Some ss \<Rightarrow> event_output ss)
     @ (if packet = [] then []
        else callbacks source destination remote packet controls (concat (map snd (om_nem_users m))))"

lemma route_event_ok:
  assumes "stats_ok (om_statistics m)"
  shows "\<exists>m'. route_event env remote s m = Some m' \<and> outputs (event_output [s]) m m'"
proof (cases "u16_of_u32 (sz_nem_id s) = None \<or> u16_of_u32 (sz_event_id s) = None")
  case True
  then show ?thesis by (auto simp: route_event_def outputs_refl split: option.split)
next
  case False
  then obtain n e where ne: "u16_of_u32 (sz_nem_id s) = Some n" "u16_of_u32 (sz_event_id s) = Some e" by auto
  let ?m = "ota_emit (RouteSerializedEvent n e (sz_data s)) m"
  have o: "outputs [RouteSerializedEvent n e (sz_data s)] m ?m"
    using outputs_emit [of "RouteSerializedEvent n e (sz_data s)" m] by simp
  obtain m' where "statistics_event env (remote, e) True ?m = Some m'" "outputs [] ?m m'"
    using statistics_event_ok [OF outputs_stats [OF o assms]] by blast
  with outputs_trans [OF o] ne show ?thesis by (auto simp: route_event_def)
qed

lemma route_events_ok:
  "stats_ok (om_statistics m) \<Longrightarrow> \<exists>m'. route_events env remote ss m = Some m' \<and> outputs (event_output ss) m m'"
proof (induction ss arbitrary: m)
  case Nil
  then show ?case by (simp add: outputs_refl)
next
  case (Cons s ss)
  obtain m1 where m1: "route_event env remote s m = Some m1" "outputs (event_output [s]) m m1"
    using route_event_ok [OF Cons.prems] by blast
  obtain m2 where "route_events env remote ss m1 = Some m2" "outputs (event_output ss) m1 m2"
    using Cons.IH [OF outputs_stats [OF m1(2) Cons.prems]] by blast
  with m1 outputs_trans [OF m1(2)] show ?case by (force split: option.split)
qed

lemma call_users_output:
  "outputs (callbacks source destination remote data controls users) m
     (fold (call_user source destination remote data controls) users m)"
proof (induction users arbitrary: m)
  case Nil
  then show ?case by (simp add: callbacks_def outputs_refl)
next
  case (Cons user users)
  have "outputs (callbacks source destination remote data controls [user]) m
      (call_user source destination remote data controls user m)"
  proof (cases "ou_callback user")
    case None
    then show ?thesis by (simp add: callbacks_def call_user_def outputs_refl)
  next
    case (Some f)
    with outputs_emit [of "PacketCallback f (ou_context user) source destination remote data controls" m]
    show ?thesis by (simp add: callbacks_def call_user_def)
  qed
  from outputs_trans [OF this Cons.IH] show ?case by (simp add: callbacks_def)
qed

text \<open>A message changes the number of packets received, besides.\<close>

definition handled :: "OtaEffect list \<Rightarrow> OtaManager \<Rightarrow> OtaManager \<Rightarrow> bool" where
  "handled es m m' \<longleftrightarrow> (\<exists>n. outputs es (m\<lparr>om_upstream_packets := n\<rparr>) m')"

lemma handledI: "outputs es m m' \<Longrightarrow> handled es m m'"
  unfolding handled_def by (rule exI [of _ "om_upstream_packets m"]) simp

lemma handledD:
  assumes "handled es m m'"
  shows "sent_out m' = sent_out m @ es" "om_part_store m' = om_part_store m" "om_uuid m' = om_uuid m"
    "om_part_timeout_threshold m' = om_part_timeout_threshold m" "om_nem_users m' = om_nem_users m"
    "om_running m' = om_running m" "ota_inv m \<Longrightarrow> ota_inv m'"
proof -
  from assms obtain n where o: "outputs es (m\<lparr>om_upstream_packets := n\<rparr>) m'" by (auto simp: handled_def)
  from outputsD [OF o] show "sent_out m' = sent_out m @ es" "om_part_store m' = om_part_store m" "om_uuid m' = om_uuid m"
    "om_part_timeout_threshold m' = om_part_timeout_threshold m" "om_nem_users m' = om_nem_users m"
    "om_running m' = om_running m" "ota_inv m \<Longrightarrow> ota_inv m'"
    by (simp_all add: sent_out_def ota_inv_def)
qed

lemma outputs_upstream:
  "outputs es m m' \<Longrightarrow> outputs es (m\<lparr>om_upstream_packets := n\<rparr>) (m'\<lparr>om_upstream_packets := n\<rparr>)"
  unfolding outputs_def by (elim exE conjE, rule_tac x = st in exI, rule_tac x = log in exI) simp

lemma handle_ota_message_bad:
  assumes "e + c + d \<noteq> length payload \<or> e + c + d > MAX_OTA_PAYLOAD"
  shows "handle_ota_message env source destination remote e c d payload m = Some (False, m)"
  using assms by (auto simp: handle_ota_message_def checked_add_def)

lemma handle_ota_message_ok:
  assumes len: "e + c + d = length payload" "length payload \<le> MAX_OTA_PAYLOAD" and st: "stats_ok (om_statistics m)"
  shows "\<exists>m'. handle_ota_message env source destination remote e c d payload m = Some (True, m')
    \<and> handled (message_output env source destination remote (take e payload) (take c (drop e payload)) (drop (e + c) payload) m) m m'"
proof -
  let ?ev = "take e payload" and ?ct = "take c (drop e payload)" and ?pk = "drop (e + c) payload"
  let ?eo = "if ?ev = [] then [] else case oe_decode_events env ?ev of None \<Rightarrow> [] | Some ss \<Rightarrow> event_output ss"
  have add: "Option.bind (checked_add e c) (\<lambda>size. checked_add size d) = Some (length payload)"
    using len by (simp add: checked_add_def usize_max_def MAX_OTA_PAYLOAD_def)
  have e0: "?ev = [] \<longleftrightarrow> e = 0" and p0: "?pk = [] \<longleftrightarrow> d = 0" using len(1) by auto
  have "\<exists>m1. (if e > 0 then do {
                 bytes \<leftarrow> slice payload 0 e;
                 (case oe_decode_events env bytes of
                    None \<Rightarrow> Some m
                  | Some serializations \<Rightarrow> route_events env remote serializations m) }
               else Some m) = Some m1 \<and> outputs ?eo m m1"
    using len(1) route_events_ok [OF st] outputs_refl by (auto simp: e0 split: option.split)
  then obtain m1 where m1: "(if e > 0 then do {
                 bytes \<leftarrow> slice payload 0 e;
                 (case oe_decode_events env bytes of
                    None \<Rightarrow> Some m
                  | Some serializations \<Rightarrow> route_events env remote serializations m) }
               else Some m) = Some m1" and o1: "outputs ?eo m m1" by blast
  have ct: "(if c > 0 then slice payload e (e + c) else Some []) = Some ?ct" using len(1) by auto
  have pk: "(if d > 0 then slice payload (e + c) (e + c + d) else Some []) = Some ?pk" using len(1) p0 by auto
  show ?thesis
  proof (cases "d = 0")
    case True
    then have "handle_ota_message env source destination remote e c d payload m = Some (True, m1)"
      using len add m1 ct pk by (simp add: handle_ota_message_def)
    with True p0 o1 show ?thesis by (auto simp: message_output_def intro: handledI)
  next
    case False
    let ?m2 = "m1\<lparr>om_upstream_packets := saturating_add (om_upstream_packets m1) 1\<rparr>"
    have "stats_ok (om_statistics ?m2)" using outputs_stats [OF o1 st] by simp
    then obtain m3 where m3: "statistics_packet env (remote, source) 1 ?m2 = Some m3" "outputs [] ?m2 m3"
      using statistics_packet_ok [of ?m2 1 env "(remote, source)"] by auto
    let ?m4 = "fold (call_user source destination remote ?pk ?ct) (concat (map snd (om_nem_users m3))) m3"
    have "handle_ota_message env source destination remote e c d payload m = Some (True, ?m4)"
      using len add m1 ct pk False m3(1) by (simp add: handle_ota_message_def Let_def)
    moreover have "om_nem_users m3 = om_nem_users m" using outputsD [OF m3(2)] outputsD [OF o1] by simp
    moreover from outputs_trans [OF outputs_trans [OF outputs_upstream [OF o1] m3(2)] call_users_output]
    have "handled (?eo @ callbacks source destination remote ?pk ?ct (concat (map snd (om_nem_users m3)))) m ?m4"
      unfolding handled_def append_Nil2 append_assoc by blast
    ultimately show ?thesis using False p0 by (auto simp: message_output_def)
  qed
qed

lemma handle_ota_message_total:
  assumes "stats_ok (om_statistics m)"
  shows "\<exists>b m' es. handle_ota_message env source destination remote e c d payload m = Some (b, m') \<and> handled es m m'"
proof (cases "e + c + d = length payload \<and> length payload \<le> MAX_OTA_PAYLOAD")
  case True
  then show ?thesis using handle_ota_message_ok [of e c d payload m] assms by blast
next
  case False
  then show ?thesis using handle_ota_message_bad [of e c d payload] handledI [OF outputs_refl] by fastforce
qed

lemma cleanup_parts_ok:
  assumes "stats_ok (om_statistics m)"
  shows "\<exists>m'. cleanup_parts env now m = Some m' \<and> sent_out m' = sent_out m \<and> om_uuid m' = om_uuid m
    \<and> om_part_timeout_threshold m' = om_part_timeout_threshold m \<and> om_running m' = om_running m
    \<and> om_nem_users m' = om_nem_users m \<and> stats_ok (om_statistics m')
    \<and> om_part_store m' = (if elapsed now (om_last_part_check_time m) \<ge> om_part_check_threshold m
         then filter (\<lambda>(key, value). \<not> part_expired now m value) (om_part_store m) else om_part_store m)"
proof -
  have missing: "stats_ok (om_statistics m) \<Longrightarrow> \<exists>m'. count_missing env es m = Some m' \<and> outputs [] m m'" for es m
  proof (induction es arbitrary: m)
    case (Cons x es)
    obtain m1 where m1: "statistics_packet env (pd_uuid (snd x), fst (fst x)) 2 m = Some m1" "outputs [] m m1"
      using statistics_packet_ok [OF Cons.prems, of 2 env "(pd_uuid (snd x), fst (fst x))"] by auto
    obtain m2 where "count_missing env es m1 = Some m2" "outputs [] m1 m2"
      using Cons.IH [OF outputs_stats [OF m1(2) Cons.prems]] by blast
    with m1 outputs_trans [OF m1(2)] show ?case by (cases x) auto
  qed (simp add: outputs_refl)
  show ?thesis
  proof (cases "elapsed now (om_last_part_check_time m) \<ge> om_part_check_threshold m
      \<and> filter (\<lambda>(key, value). part_expired now m value) (om_part_store m) \<noteq> []")
    case False
    then show ?thesis using assms by (auto simp: cleanup_parts_def Let_def sent_out_def)
  next
    case True
    let ?x = "filter (\<lambda>(key, value). part_expired now m value) (om_part_store m)"
    define m1 where "m1 = m\<lparr>om_part_store := filter (\<lambda>(key, value). \<not> part_expired now m value) (om_part_store m),
        om_last_part_check_time := now,
        om_reassembly_timeouts := saturating_add (om_reassembly_timeouts m) (word_of_nat (length ?x))\<rparr>"
    have "stats_ok (om_statistics m1)" using assms by (simp add: m1_def)
    then obtain m2 where m2: "count_missing env ?x m1 = Some m2" "outputs [] m1 m2" using missing by blast
    have "cleanup_parts env now m = Some m2" using True m2(1) by (simp add: cleanup_parts_def Let_def m1_def)
    moreover have "sent_out m1 = sent_out m" by (simp add: sent_out_def m1_def)
    ultimately show ?thesis
      using outputsD [OF m2(2)] outputs_stats [OF m2(2)] assms True by (simp add: m1_def)
  qed
qed

declare get_u16_in_range [simp] get_u32_in_range [simp]


section \<open>Datagrams\<close>

lemma read_part_info_total: "at + PART_INFO_SIZE \<le> length buf \<Longrightarrow> \<exists>info. read_part_info buf at = Some info"
  by (simp add: read_part_info_def PART_INFO_SIZE_def index_get_def get_u32_def)

text \<open>What the handling of a part or a datagram leaves alone.\<close>

definition receives :: "OtaManager \<Rightarrow> OtaManager \<Rightarrow> bool" where
  "receives m m' \<longleftrightarrow> om_uuid m' = om_uuid m \<and> om_part_timeout_threshold m' = om_part_timeout_threshold m
     \<and> om_nem_users m' = om_nem_users m \<and> om_running m' = om_running m \<and> (ota_inv m \<longrightarrow> ota_inv m')"

definition key_kept :: "PartKey \<Rightarrow> OtaManager \<Rightarrow> OtaManager \<Rightarrow> bool" where
  "key_kept k m m' \<longleftrightarrow> map_of (om_part_store m') k = map_of (om_part_store m) k"

lemma handled_receives: "handled es m m' \<Longrightarrow> receives m m'"
  using handledD [of es m m'] by (auto simp: receives_def)

lemma receives_trans: "receives m m' \<Longrightarrow> receives m' m'' \<Longrightarrow> receives m m''"
  by (auto simp: receives_def)

lemma receives_refl: "receives m m"
  by (simp add: receives_def)

lemma receives_store:
  "receives m (m\<lparr>om_part_store := AList.update k e (om_part_store m)\<rparr>)"
  "receives m (m\<lparr>om_part_store := AList.delete k (om_part_store m)\<rparr>)"
  by (auto simp: receives_def ota_inv_def distinct_update distinct_delete)

text \<open>A step that keeps the parts of every key but one.\<close>

definition touches :: "PartKey \<Rightarrow> OtaManager \<Rightarrow> OtaManager \<Rightarrow> bool" where
  "touches key m m' \<longleftrightarrow> receives m m' \<and> (\<forall>k. k \<noteq> key \<longrightarrow> key_kept k m m')"

lemma touches_store:
  "touches key m (m\<lparr>om_part_store := AList.update key e (om_part_store m)\<rparr>)"
  "touches key m (m\<lparr>om_part_store := AList.delete key (om_part_store m)\<rparr>)"
  by (simp_all add: touches_def receives_store key_kept_def update_conv' delete_conv')

lemma touches_refl: "touches key m m"
  by (simp add: touches_def receives_refl key_kept_def)

lemma touches_handled: "touches key m m' \<Longrightarrow> handled es m' m'' \<Longrightarrow> touches key m m''"
  using handledD(2) [of es m' m''] receives_trans [OF _ handled_receives]
  by (auto simp: touches_def key_kept_def)

lemma store_part_total:
  assumes "ota_inv m"
  shows "\<exists>m'. store_part env h key expected entry m = Some m' \<and> touches key m m'"
proof -
  let ?del = "m\<lparr>om_part_store := AList.delete key (om_part_store m)\<rparr>"
  have st: "stats_ok (om_statistics ?del)" using assms by (simp add: ota_inv_def)
  obtain b m' es where h: "handle_ota_message env (ucast (oh_source h)) (ucast (oh_destination h)) (pd_uuid entry)
      (pd_events_size entry) (pd_controls_size entry) (pd_data_size entry) (concat (map snd (pd_parts entry))) ?del
      = Some (b, m')" "handled es ?del m'"
    using handle_ota_message_total [OF st] by blast
  obtain c n where cn: "all_contiguous expected 0 (pd_parts entry) = (c, n)" by fastforce
  show ?thesis
    using h touches_handled [OF touches_store(2) h(2)] touches_store(1) by (simp add: store_part_def cn)
qed

lemma receive_part_total:
  assumes "ota_inv m"
  shows "\<exists>b m'. receive_part env now h remote info bytes m = Some (b, m') \<and> touches (ucast (oh_source h), oh_sequence h) m m'"
proof -
  let ?k = "(ucast (oh_source h) :: u16, oh_sequence h)"
  obtain e c d where sz: "header_sizes h = (e, c, d)" by (metis prod_cases3)
  let ?add = "Option.bind (checked_add e c) (\<lambda>size. checked_add size d)"
  let ?entry = "part_entry now remote (e, c, d) (map_of (om_part_store m) ?k)"
  obtain m' where st: "store_part env h ?k (the ?add) (add_part now (unat (part_offset info)) bytes ?entry) m = Some m'" "touches ?k m m'"
    using store_part_total [OF assms] by blast
  then show ?thesis
    using touches_refl [of ?k m] touches_store(2) [of ?k m]
    by (cases ?add) (auto simp: receive_part_def sz Let_def)
qed

text \<open>The key of the message a datagram belongs to.\<close>

definition datagram_key :: "OtaEnv \<Rightarrow> byte list \<Rightarrow> PartKey option" where
  "datagram_key env buf =
     map_option (\<lambda>h. (ucast (oh_source h), oh_sequence h))
       (oe_decode_header env (take (unat (of_be_bytes (take 2 buf) :: u16)) (drop 2 buf)))"

lemma receive_datagram_total:
  assumes "ota_inv m"
  shows "\<exists>b m'. receive_datagram env now buf m = Some (b, m') \<and> receives m m'
    \<and> (\<forall>k. datagram_key env buf \<noteq> Some k \<longrightarrow> key_kept k m m')"
proof -
  let ?n = "unat (of_be_bytes (take 2 buf) :: u16)"
  let ?h = "take ?n (drop 2 buf)"
  have same: "receives m m \<and> (\<forall>k. datagram_key env buf \<noteq> Some k \<longrightarrow> key_kept k m m)"
    by (simp add: receives_refl key_kept_def)
  show ?thesis
  proof (cases "2 + ?n + PART_INFO_SIZE \<le> length buf \<and> oe_decode_header env ?h \<noteq> None")
    case False
    then show ?thesis using same by (cases "length buf < 2") (auto simp: receive_datagram_def)
  next
    case True
    then obtain h where h: "oe_decode_header env ?h = Some h" and len: "2 + ?n + PART_INFO_SIZE \<le> length buf" by auto
    have key: "datagram_key env buf = Some (ucast (oh_source h), oh_sequence h)" by (simp add: datagram_key_def h)
    obtain info where info: "read_part_info buf (2 + ?n) = Some info" using read_part_info_total len by blast
    let ?bytes = "take (unat (part_size info)) (drop (2 + ?n + PART_INFO_SIZE) buf)"
    obtain e c d where sz: "header_sizes h = (e, c, d)" by (metis prod_cases3)
    have st: "stats_ok (om_statistics m)" using assms by (simp add: ota_inv_def)
    obtain b1 m1 where part: "receive_part env now h (oh_uuid h) info ?bytes m = Some (b1, m1)"
        "touches (ucast (oh_source h), oh_sequence h) m m1"
      using receive_part_total [OF assms] by blast
    obtain b2 m2 es where whole: "handle_ota_message env (ucast (oh_source h)) (ucast (oh_destination h)) (oh_uuid h)
        e c d ?bytes m = Some (b2, m2)" "handled es m m2"
      using handle_ota_message_total [OF st] by blast
    have p: "receives m m1 \<and> (\<forall>k. datagram_key env buf \<noteq> Some k \<longrightarrow> key_kept k m m1)"
      using part(2) by (auto simp: touches_def key)
    have w: "receives m m2 \<and> (\<forall>k. datagram_key env buf \<noteq> Some k \<longrightarrow> key_kept k m m2)"
      using handled_receives [OF whole(2)] handledD(2) [OF whole(2)] by (simp add: key_kept_def)
    have "2 \<le> length buf" using len by simp
    then have "receive_datagram env now buf m \<in>
        {Some (False, m), Some (True, m), Some (b1, m1), Some (False, m2)}"
      using len h info part(1) whole(1) sz
      by (auto simp: receive_datagram_def parse_uuid_def checked_add_def Let_def)
    with same p w show ?thesis by blast
  qed
qed

lemma map_of_filter_distinct:
  "distinct (map fst xs) \<Longrightarrow>
   map_of (filter (\<lambda>(k, v). P v) xs) k = (case map_of xs k of None \<Rightarrow> None | Some v \<Rightarrow> if P v then Some v else None)"
proof (induction xs)
  case (Cons x xs)
  then have "fst x = k \<Longrightarrow> map_of xs k = None" by (auto simp: map_of_eq_None_iff)
  with Cons show ?case by (cases x) (auto split: option.split)
qed simp

lemma process_loop_step_total:
  assumes "ota_inv m"
  shows "\<exists>b m'. process_loop_step env r m = Some (b, m') \<and> receives m m'"
proof (cases r)
  case (OtaDatagram now buf)
  obtain b m1 where m1: "receive_datagram env now buf m = Some (b, m1)" "receives m m1"
    using receive_datagram_total [OF assms] by blast
  then have inv: "ota_inv m1" using assms by (simp add: receives_def)
  then have "stats_ok (om_statistics m1)" by (simp add: ota_inv_def)
  from cleanup_parts_ok [OF this, of env now] obtain m2 where m2: "cleanup_parts env now m1 = Some m2"
      and r2: "receives m1 m2"
    using inv by (auto simp: receives_def ota_inv_def distinct_map_filter)
  show ?thesis using OtaDatagram m1 m2 receives_trans [OF m1(2) r2] by (cases b) auto
qed (auto simp: receives_refl)

end
