(* ===== verification/Ota_Link.thy ===== *)
theory Ota_Link
  imports Ota_Manager
begin

text \<open>
  Sending and receiving over the air together: the parts a manager sends are a fragmentation of the
  message, and the manager is a fragment receiver for them, so a message arrives whole in any order of
  its datagrams.
\<close>



section \<open>Sending parts\<close>

text \<open>The datagram of one part of a message of a given size.\<close>

definition ota_datagram :: "byte list \<Rightarrow> nat \<Rightarrow> nat \<times> byte list \<Rightarrow> byte list" where
  "ota_datagram header_bytes total_size x =
     be_bytes 2 (word_of_nat (length header_bytes) :: u16) @ header_bytes
     @ part_info_bytes \<lparr>part_more = (if fst x + length (snd x) < total_size then 1 else 0),
         part_offset = word_of_nat (fst x), part_size = word_of_nat (length (snd x))\<rparr> @ snd x"

lemma length_part_info_bytes [simp]: "length (part_info_bytes info) = PART_INFO_SIZE"
  by (simp add: part_info_bytes_def PART_INFO_SIZE_def)

lemma length_ota_datagram: "length (ota_datagram hb n x) = 2 + length hb + PART_INFO_SIZE + length (snd x)"
  by (simp add: ota_datagram_def)

lemma append_segment_take:
  assumes "start \<le> off"
  shows "append_segment seg start (off, n) =
    Some (take n (drop (off - start) seg), off + length (take n (drop (off - start) seg)),
          n - length (take n (drop (off - start) seg)))"
  using assms by (auto simp: append_segment_def Let_def min_def)

lemma append_segment_0: "append_segment seg start (off, 0) = Some ([], off, 0)"
  by (simp add: append_segment_def)

lemma minus_take: "n - length (take n xs) = n - length xs"
  by simp

lemma take_drop_three:
  "take n (drop off (a @ b @ c)) = take n (drop off a)
     @ take (n - length (take n (drop off a))) (drop (off - length a) b)
     @ take (n - length (take n (drop off a)) - length (take (n - length (take n (drop off a))) (drop (off - length a) b)))
         (drop (off - length a - length b) c)"
  unfolding minus_take drop_append take_append ..

lemma part_payload_take:
  "part_payload events controls packet off n = Some (take n (drop off (events @ controls @ packet)))"
proof -
  let ?b1 = "take n (drop off events)"
  let ?o1 = "off + length ?b1" and ?n1 = "n - length ?b1"
  have s1: "append_segment events 0 (off, n) = Some (?b1, ?o1, ?n1)"
    using append_segment_take [of 0 off events n] by simp
  show ?thesis
  proof (cases "?n1 = 0")
    case True
    then have "n \<le> length (drop off events)" by (auto simp: min_def split: if_splits)
    with s1 True show ?thesis by (simp add: part_payload_def append_segment_0)
  next
    case False
    then have e: "?b1 = drop off events" "length (drop off events) < n" by (auto simp: min_def split: if_splits)
    have o1: "length events \<le> ?o1" using e by auto
    define k where "k = ?o1 - length events"
    have k: "?o1 = length events + k" "k = off - length events" using o1 e by (auto simp: k_def)
    let ?b2 = "take ?n1 (drop k controls)"
    let ?o2 = "?o1 + length ?b2" and ?n2 = "?n1 - length ?b2"
    have s2: "append_segment controls (length events) (?o1, ?n1) = Some (?b2, ?o2, ?n2)"
      using append_segment_take [OF o1, of controls ?n1] by (simp add: k_def)
    show ?thesis
    proof (cases "?n2 = 0")
      case True
      then have "?n1 \<le> length (drop k controls)" using False by (auto simp: min_def split: if_splits)
      with s1 s2 True e k show ?thesis by (simp add: part_payload_def append_segment_0) arith
    next
      case F2: False
      then have e2: "?b2 = drop k controls" "length (drop k controls) < ?n1" by (auto simp: min_def split: if_splits)
      have o2: "length events + length controls \<le> ?o2" unfolding e2(1) k(1) length_drop by arith
      have s3: "append_segment packet (length events + length controls) (?o2, ?n2) =
          Some (take ?n2 (drop (?o2 - (length events + length controls)) packet),
            ?o2 + length (take ?n2 (drop (?o2 - (length events + length controls)) packet)),
            ?n2 - length (take ?n2 (drop (?o2 - (length events + length controls)) packet)))"
        using append_segment_take [OF o2, of packet ?n2] by simp
      have "?o2 - (length events + length controls) = k - length controls"
        unfolding e2(1) k(1) length_drop by arith
      then have "part_payload events controls packet off n = Some (?b1 @ ?b2 @ take ?n2 (drop (k - length controls) packet))"
        unfolding part_payload_def s1 s2 s3 bind.bind_lunit prod.case by simp
      also have "?b1 @ ?b2 @ take ?n2 (drop (k - length controls) packet) = take n (drop off (events @ controls @ packet))"
        unfolding take_drop_three k(2) ..
      finally show ?thesis .
    qed
  qed
qed

lemma send_parts_ok:
  fixes events controls packet :: "byte list"
  defines "payload \<equiv> events @ controls @ packet"
  assumes len: "length payload \<le> MAX_OTA_PAYLOAD" and mtu: "mtu = 0 \<or> 2 + length hb + PART_INFO_SIZE < mtu"
    and "sent \<le> length payload"
  shows "\<exists>b m' frs. send_parts env hb mtu events controls packet sent m = Some (b, m') \<and> contiguous sent frs
    \<and> outputs (map (\<lambda>x. SendDatagram (ota_datagram hb (length payload) x)) frs) m m'
    \<and> (\<exists>rest. concat (map snd frs) @ rest = drop sent payload \<and> (b \<longrightarrow> rest = []))
    \<and> (mtu = 0 \<or> (\<forall>x \<in> set frs. length (ota_datagram hb (length payload) x) \<le> mtu))
    \<and> ((\<forall>es d. oe_send_to env es d) \<longrightarrow> b)"
  using assms(4)
proof (induction "length payload - sent" arbitrary: sent m rule: less_induct)
  case less
  have tot: "length events + length controls + length packet = length payload" by (simp add: payload_def)
  show ?case
  proof (cases "sent < length payload")
    case False
    then have "send_parts env hb mtu events controls packet sent m = Some (True, m)"
      by (subst send_parts.simps) (simp add: tot)
    moreover have "drop sent payload = []" using False by simp
    ultimately show ?thesis by (intro exI [of _ True] exI [of _ m] exI [of _ "[]"]) (simp add: outputs_refl)
  next
    case True
    define over where "over = 2 + length hb + PART_INFO_SIZE"
    define more where "more = (mtu \<noteq> 0 \<and> length payload - sent + length hb + 2 + PART_INFO_SIZE > mtu)"
    define n where "n = (if more then mtu - over else length payload - sent)"
    have n: "0 < n" "sent + n \<le> length payload" "more = (sent + n < length payload)" "mtu = 0 \<or> over + n \<le> mtu" "n \<le> 0xFFFFFFFF"
      using True mtu len by (auto simp: n_def more_def over_def MAX_OTA_PAYLOAD_def)
    define x where "x = (sent, take n (drop sent payload))"
    have x: "length (snd x) = n" using n(2) by (simp add: x_def)
    define msg where "msg = ota_datagram hb (length payload) x"
    have pay: "part_payload events controls packet sent n = Some (snd x)"
      by (simp add: part_payload_take x_def payload_def)
    have msg: "be_bytes 2 (word_of_nat (length hb) :: u16) @ hb @ part_info_bytes \<lparr>part_more = (if more then 1 else 0),
        part_offset = word_of_nat sent, part_size = word_of_nat n\<rparr> @ snd x = msg"
      using n(3) x by (simp add: msg_def ota_datagram_def x_def)
    have mlen: "length msg = over + n" by (simp add: msg_def length_ota_datagram over_def x)
    have step: "send_parts env hb mtu events controls packet sent m =
        (if \<not> oe_send_to env (om_effects m) msg then Some (False, m)
         else send_parts env hb mtu events controls packet (sent + n) (ota_emit (SendDatagram msg) m))"
      unfolding send_parts.simps [of env hb mtu events controls packet sent m] Let_def tot over_def [symmetric]
        more_def [symmetric] n_def [symmetric] pay bind.bind_lunit msg mlen
      using True n(1,5) by simp
    show ?thesis
    proof (cases "oe_send_to env (om_effects m) msg")
      case False
      then show ?thesis using step
        by (intro exI [of _ False] exI [of _ m] exI [of _ "[]"]) (auto simp: outputs_refl)
    next
      case sent_ok: True
      let ?m1 = "ota_emit (SendDatagram msg) m"
      have "length payload - (sent + n) < length payload - sent" using n True by simp
      from less.hyps [OF this n(2), of ?m1] obtain b m' frs rest where
        r: "send_parts env hb mtu events controls packet (sent + n) ?m1 = Some (b, m')" "contiguous (sent + n) frs"
          "outputs (map (\<lambda>x. SendDatagram (ota_datagram hb (length payload) x)) frs) ?m1 m'"
          "concat (map snd frs) @ rest = drop (sent + n) payload" "b \<longrightarrow> rest = []"
          "mtu = 0 \<or> (\<forall>x \<in> set frs. length (ota_datagram hb (length payload) x) \<le> mtu)"
          "(\<forall>es d. oe_send_to env es d) \<longrightarrow> b"
        by blast
      have o: "outputs [SendDatagram msg] m ?m1" using outputs_emit [of "SendDatagram msg" m] by simp
      have "snd x @ concat (map snd frs) @ rest = drop sent payload"
        unfolding r(4) x_def by (simp add: take_drop_join)
      moreover have "contiguous sent (x # frs)" using r(2) x n(1) by (auto simp: x_def)
      moreover have "outputs (map (\<lambda>x. SendDatagram (ota_datagram hb (length payload) x)) (x # frs)) m m'"
        using outputs_trans [OF o r(3)] by (simp add: msg_def)
      moreover have "mtu = 0 \<or> (\<forall>x \<in> set (x # frs). length (ota_datagram hb (length payload) x) \<le> mtu)"
        using r(6) n(4) mlen by (auto simp: msg_def)
      ultimately show ?thesis using step sent_ok r(1,5,7)
        by (intro exI [of _ b] exI [of _ m'] exI [of _ "x # frs"]) auto
    qed
  qed
qed

lemma count_events_ok: "stats_ok (om_statistics m) \<Longrightarrow> \<exists>m'. count_events env u ss m = Some m' \<and> outputs [] m m'"
proof (induction ss arbitrary: m)
  case (Cons s ss)
  obtain m1 where m1: "(case u16_of_u32 (sz_event_id s) of
        Some event_id \<Rightarrow> statistics_event env (u, event_id) False m
      | None \<Rightarrow> Some m) = Some m1" "outputs [] m m1"
  proof (cases "u16_of_u32 (sz_event_id s)")
    case (Some a)
    with statistics_event_ok [OF Cons.prems, of env "(u, a)" False] that show ?thesis by auto
  qed (use outputs_refl in auto)
  obtain m2 where "count_events env u ss m1 = Some m2" "outputs [] m1 m2"
    using Cons.IH [OF outputs_stats [OF m1(2) Cons.prems]] by blast
  with m1 outputs_trans [OF m1(2)] show ?case by auto
qed (simp add: outputs_refl)

lemma receives_outputs: "outputs es m m' \<Longrightarrow> receives m m'"
  by (rule handled_receives [OF handledI])

definition raw_bytes :: "FfiSlice \<Rightarrow> byte list" where
  "raw_bytes s = (case fs_data s of None \<Rightarrow> [] | Some mem \<Rightarrow> take (fs_len s) mem)"

lemma raw_slice_ok: "valid_slice s \<Longrightarrow> \<not> null_slice s \<Longrightarrow> raw_slice s = Some (raw_bytes s) \<and> length (raw_bytes s) = fs_len s"
  by (auto simp: raw_slice_def raw_bytes_def valid_slice_def null_slice_def split: option.splits)

text \<open>The header the manager puts before every part of a message.\<close>

definition packet_header :: "u16 \<Rightarrow> u16 \<Rightarrow> FfiSlice \<Rightarrow> FfiSlice \<Rightarrow> FfiSlice \<Rightarrow> OtaManager \<Rightarrow> OtaHeader" where
  "packet_header source destination packet controls events m =
     \<lparr>oh_source = ucast source, oh_destination = ucast destination, oh_sequence = om_sequence_number m + 1,
      oh_uuid = om_uuid m, oh_payload_info = Some \<lparr>event_length = word_of_nat (fs_len events),
        control_length = word_of_nat (fs_len controls), data_length = word_of_nat (fs_len packet)\<rparr>\<rparr>"

definition sends_message ::
  "OtaEnv \<Rightarrow> u16 \<Rightarrow> u16 \<Rightarrow> FfiSlice \<Rightarrow> FfiSlice \<Rightarrow> FfiSlice \<Rightarrow> OtaManager \<Rightarrow> OtaManager \<Rightarrow> (nat \<times> byte list) list \<Rightarrow> bool" where
  "sends_message env source destination packet controls events m m' frs \<longleftrightarrow>
     (let payload = raw_bytes events @ raw_bytes controls @ raw_bytes packet;
          header_bytes = oe_encode_header env (packet_header source destination packet controls events m)
      in contiguous 0 frs \<and> concat (map snd frs) = payload
         \<and> sent_out m' = sent_out m @ map (\<lambda>x. SendDatagram (ota_datagram header_bytes (length payload) x)) frs
         \<and> length header_bytes \<le> 0xFFFF \<and> length payload \<le> MAX_OTA_PAYLOAD
         \<and> length (raw_bytes packet) = fs_len packet \<and> length (raw_bytes controls) = fs_len controls
         \<and> length (raw_bytes events) = fs_len events
         \<and> (om_ota_mtu m = 0 \<or> (\<forall>x \<in> set frs. length (ota_datagram header_bytes (length payload) x) \<le> om_ota_mtu m)))"

text \<open>A message the manager can send, over a socket that takes every datagram.\<close>

definition sendable :: "OtaEnv \<Rightarrow> u16 \<Rightarrow> u16 \<Rightarrow> FfiSlice \<Rightarrow> FfiSlice \<Rightarrow> FfiSlice \<Rightarrow> OtaManager \<Rightarrow> bool" where
  "sendable env source destination packet controls events m \<longleftrightarrow>
     (let overhead = 2 + length (oe_encode_header env (packet_header source destination packet controls events m)) + PART_INFO_SIZE
      in \<not> null_slice packet \<and> \<not> null_slice controls \<and> \<not> null_slice events
         \<and> fs_len events + fs_len controls + fs_len packet \<le> MAX_OTA_PAYLOAD
         \<and> om_socket m \<and> om_group_addr m \<noteq> None \<and> (\<forall>es. oe_try_clone env es)
         \<and> overhead \<le> 2 + 0xFFFF + PART_INFO_SIZE \<and> (om_ota_mtu m = 0 \<or> overhead < om_ota_mtu m)
         \<and> (\<forall>es d. oe_send_to env es d))"

definition send_keeps :: "OtaManager \<Rightarrow> OtaManager \<Rightarrow> bool" where
  "send_keeps m m' \<longleftrightarrow> receives m m' \<and> om_part_store m' = om_part_store m"

lemma send_keeps_sequence: "send_keeps m (m\<lparr>om_sequence_number := n\<rparr>)"
  by (simp add: send_keeps_def receives_def ota_inv_def)

lemma send_keeps_trans: "send_keeps m m' \<Longrightarrow> outputs es m' m'' \<Longrightarrow> send_keeps m m''"
  using receives_trans [OF _ receives_outputs] outputsD(2) by (auto simp: send_keeps_def)

lemma send_ota_packet_ok:
  assumes inv: "ota_inv m" and valid: "valid_slice packet" "valid_slice controls" "valid_slice events"
  shows "\<exists>b m'. emane_rs_ota_manager_send_ota_packet env source destination packet controls events m = Some (b, m')
    \<and> send_keeps m m' \<and> (b \<longrightarrow> (\<exists>frs. sends_message env source destination packet controls events m m' frs))
    \<and> (sendable env source destination packet controls events m \<longrightarrow> b)"
proof -
  let ?add = "Option.bind (checked_add (fs_len events) (fs_len controls)) (\<lambda>size. checked_add size (fs_len packet))"
  let ?m1 = "m\<lparr>om_sequence_number := om_sequence_number m + 1\<rparr>"
  let ?hb = "oe_encode_header env (packet_header source destination packet controls events m)"
  let ?res = "emane_rs_ota_manager_send_ota_packet env source destination packet controls events m"
  define bad where "bad \<longleftrightarrow> null_slice packet \<or> null_slice controls \<or> null_slice events
      \<or> fs_len packet > 0xFFFFFFFF \<or> fs_len controls > 0xFFFFFFFF \<or> fs_len events > 0xFFFFFFFF
      \<or> ?add = None \<or> the ?add > MAX_OTA_PAYLOAD \<or> \<not> om_socket m"
  define bad2 where "bad2 \<longleftrightarrow> \<not> oe_try_clone env (om_effects m) \<or> om_group_addr m = None \<or> length ?hb > 0xFFFF
      \<or> (om_ota_mtu m \<noteq> 0 \<and> om_ota_mtu m \<le> 2 + length ?hb + PART_INFO_SIZE \<and> the ?add \<noteq> 0)"
  have hdr: "\<lparr>oh_source = ucast source, oh_destination = ucast destination, oh_sequence = om_sequence_number ?m1,
      oh_uuid = om_uuid ?m1, oh_payload_info = Some \<lparr>event_length = word_of_nat (fs_len events),
        control_length = word_of_nat (fs_len controls), data_length = word_of_nat (fs_len packet)\<rparr>\<rparr>
      = packet_header source destination packet controls events m"
    by (simp add: packet_header_def)
  have keep: "send_keeps m m" "send_keeps m ?m1"
    using send_keeps_sequence [of m "om_sequence_number m"] send_keeps_sequence by simp_all
  have sendable: "\<not> bad \<and> \<not> bad2 \<and> (\<forall>es d. oe_send_to env es d)" if "sendable env source destination packet controls events m"
    using that by (auto simp: sendable_def bad_def bad2_def Let_def checked_add_def usize_max_def MAX_OTA_PAYLOAD_def)
  consider bad | "\<not> bad" bad2 | "\<not> bad" "\<not> bad2" by blast
  then show ?thesis
  proof cases
    case 1
    then have "?res = Some (False, m)"
      by (cases ?add) (auto simp: bad_def emane_rs_ota_manager_send_ota_packet_def)
    with keep 1 sendable show ?thesis by blast
  next
    case 2
    note raw = raw_slice_ok [OF valid(1)] raw_slice_ok [OF valid(2)] raw_slice_ok [OF valid(3)]
    obtain n where n: "?add = Some n" "n \<le> MAX_OTA_PAYLOAD" using 2(1) by (auto simp: bad_def)
    have "?res = Some (False, ?m1)"
      using 2 raw n unfolding emane_rs_ota_manager_send_ota_packet_def Let_def hdr
      by (auto simp: bad_def bad2_def)
    with keep 2 sendable show ?thesis by blast
  next
    case 3
    have raw: "raw_slice packet = Some (raw_bytes packet)" "raw_slice controls = Some (raw_bytes controls)"
        "raw_slice events = Some (raw_bytes events)" and rl: "length (raw_bytes packet) = fs_len packet"
        "length (raw_bytes controls) = fs_len controls" "length (raw_bytes events) = fs_len events"
      using 3(1) raw_slice_ok valid by (auto simp: bad_def)
    let ?payload = "raw_bytes events @ raw_bytes controls @ raw_bytes packet"
    have add: "?add = Some (length ?payload)" and max: "length ?payload \<le> MAX_OTA_PAYLOAD"
      using 3(1) rl by (auto simp: bad_def checked_add_def split: if_splits)
    have st1: "stats_ok (om_statistics ?m1)" using inv by (simp add: ota_inv_def)
    have hb: "length ?hb \<le> 0xFFFF" using 3(2) by (auto simp: bad2_def)
    obtain b m2 frs where s: "send_parts env ?hb (om_ota_mtu ?m1) (raw_bytes events) (raw_bytes controls) (raw_bytes packet) 0 ?m1 = Some (b, m2)"
        "contiguous 0 frs" "outputs (map (\<lambda>x. SendDatagram (ota_datagram ?hb (length ?payload) x)) frs) ?m1 m2"
        "b \<longrightarrow> concat (map snd frs) = ?payload"
        "om_ota_mtu ?m1 = 0 \<or> (\<forall>x \<in> set frs. length (ota_datagram ?hb (length ?payload) x) \<le> om_ota_mtu ?m1)"
        "(\<forall>es d. oe_send_to env es d) \<longrightarrow> b"
    proof (cases "?payload = []")
      case True
      then have "send_parts env ?hb (om_ota_mtu ?m1) (raw_bytes events) (raw_bytes controls) (raw_bytes packet) 0 ?m1 = Some (True, ?m1)"
        by (subst send_parts.simps) simp
      then show ?thesis using that [of True ?m1 "[]"] True outputs_refl by simp
    next
      case False
      then have "om_ota_mtu ?m1 = 0 \<or> 2 + length ?hb + PART_INFO_SIZE < om_ota_mtu ?m1"
        using 3(2) add by (auto simp: bad2_def)
      from send_parts_ok [OF max this le0, of env ?m1, unfolded drop_0] obtain b m2 frs rest where
        r: "send_parts env ?hb (om_ota_mtu ?m1) (raw_bytes events) (raw_bytes controls) (raw_bytes packet) 0 ?m1 = Some (b, m2)"
          "contiguous 0 frs" "outputs (map (\<lambda>x. SendDatagram (ota_datagram ?hb (length ?payload) x)) frs) ?m1 m2"
          "concat (map snd frs) @ rest = ?payload" "b \<longrightarrow> rest = []"
          "om_ota_mtu ?m1 = 0 \<or> (\<forall>x \<in> set frs. length (ota_datagram ?hb (length ?payload) x) \<le> om_ota_mtu ?m1)"
          "(\<forall>es d. oe_send_to env es d) \<longrightarrow> b"
        by blast
      show ?thesis by (rule that [OF r(1-3) _ r(6,7)]) (use r(4,5) in auto)
    qed
    have core: "?res = (if \<not> b then Some (False, m2) else do {
        manager \<leftarrow> statistics_packet env (om_uuid m2, source) 0 m2;
        manager \<leftarrow> (if fs_len events > 0
          then (case oe_decode_events env (raw_bytes events) of
              None \<Rightarrow> Some manager
            | Some serializations \<Rightarrow> count_events env (om_uuid manager) serializations manager)
          else Some manager);
        Some (True, manager) })"
      using 3 add max raw hb s(1) unfolding emane_rs_ota_manager_send_ota_packet_def Let_def hdr
      by (auto simp: bad_def bad2_def)
    have st2: "stats_ok (om_statistics m2)" using outputs_stats [OF s(3) st1] .
    show ?thesis
    proof (cases b)
      case False
      with core send_keeps_trans [OF keep(2) s(3)] sendable s(6) show ?thesis by auto
    next
      case True
      obtain m3 where m3: "statistics_packet env (om_uuid m2, source) 0 m2 = Some m3" "outputs [] m2 m3"
        using statistics_packet_ok [OF st2, of 0 env "(om_uuid m2, source)"] by auto
      have st3: "stats_ok (om_statistics m3)" using outputs_stats [OF m3(2) st2] .
      obtain m4 where m4: "(if fs_len events > 0
          then (case oe_decode_events env (raw_bytes events) of
              None \<Rightarrow> Some m3
            | Some serializations \<Rightarrow> count_events env (om_uuid m3) serializations m3)
          else Some m3) = Some m4" "outputs [] m3 m4"
      proof (cases "fs_len events > 0 \<and> oe_decode_events env (raw_bytes events) \<noteq> None")
        case True
        then obtain ss where "oe_decode_events env (raw_bytes events) = Some ss" by auto
        with True count_events_ok [OF st3, of env "om_uuid m3" ss] that show ?thesis by auto
      next
        case False
        then show ?thesis using that [of m3] outputs_refl by auto
      qed
      have o: "outputs (map (\<lambda>x. SendDatagram (ota_datagram ?hb (length ?payload) x)) frs) ?m1 m4"
        using outputs_trans [OF s(3) outputs_trans [OF m3(2) m4(2)]] by simp
      have "?res = Some (True, m4)" using core True m3(1) m4(1) by simp
      moreover have "send_keeps m m4" using send_keeps_trans [OF keep(2) o] .
      moreover have "sends_message env source destination packet controls events m m4 frs"
        using s(2,4,5) True hb max rl outputsD(1) [OF o] by (simp add: sends_message_def Let_def sent_out_def)
      ultimately show ?thesis by auto
    qed
  qed
qed


section \<open>Reassembly\<close>

lemma btree_insert_filter:
  "contiguous n frs \<Longrightarrow> (off, b) \<in> set frs \<Longrightarrow>
   btree_insert off b (filter (\<lambda>x. x \<in> S) frs) = filter (\<lambda>x. x \<in> insert (off, b) S) frs"
proof (induction n frs rule: contiguous.induct)
  case (2 n o' piece ps)
  note ge = contiguous_ge [of "n + length piece" ps]
  show ?case
  proof (cases "(off, b) \<in> set ps")
    case True
    then have "n < off" using ge [of off b] 2 by (cases piece) auto
    with 2 True show ?thesis by auto
  next
    case False
    then have ob: "off = n" "b = piece" "o' = n" using 2 by auto
    have f: "filter (\<lambda>x. x = (n, piece) \<or> x \<in> S) ps = filter (\<lambda>x. x \<in> S) ps"
      using False ob by (auto intro!: filter_cong)
    show ?thesis
    proof (cases "filter (\<lambda>x. x \<in> S) ps")
      case (Cons y ys)
      then have "y \<in> set ps" by (metis filter_is_subset list.set_intros(1) subsetD)
      then have "n < fst y" using ge [of "fst y" "snd y"] 2 by (cases piece) auto
      then show ?thesis using ob Cons f by (cases y) auto
    qed (use ob f in auto)
  qed
qed simp

lemma all_contiguous_all:
  "contiguous n frs \<Longrightarrow> n + length (concat (map snd frs)) \<le> expected \<Longrightarrow> expected \<le> usize_max \<Longrightarrow>
   all_contiguous expected n frs = (True, n + length (concat (map snd frs)))"
  by (induction n frs rule: contiguous.induct) (auto simp: saturating_add_usize_def Let_def)

lemma size_filter_less:
  "contiguous n frs \<Longrightarrow> \<not> set frs \<subseteq> S \<Longrightarrow>
   length (concat (map snd (filter (\<lambda>x. x \<in> S) frs))) < length (concat (map snd frs))"
proof (induction n frs rule: contiguous.induct)
  case (2 n off piece ps)
  have le: "length (concat (map snd (filter (\<lambda>x. x \<in> S) xs))) \<le> length (concat (map snd xs))" for xs :: "(nat \<times> byte list) list"
    by (induction xs) auto
  show ?case
  proof (cases "(off, piece) \<in> S")
    case False
    with 2 le [of ps] show ?thesis by (cases piece) auto
  qed (use 2 in auto)
qed simp

lemma size_filter_insert:
  assumes "distinct frs" "x \<in> set frs"
  shows "length (concat (map snd (filter (\<lambda>y. y \<in> insert x S) frs))) =
    (if x \<in> S then length (concat (map snd (filter (\<lambda>y. y \<in> S) frs)))
     else length (concat (map snd (filter (\<lambda>y. y \<in> S) frs))) + length (snd x))"
proof (cases "x \<in> S")
  case True
  then show ?thesis by (simp add: insert_absorb)
next
  case False
  from assms show ?thesis
  proof (induction frs)
    case (Cons y ys)
    show ?case
    proof (cases "y = x")
      case True
      then have "filter (\<lambda>y. y \<in> insert x S) ys = filter (\<lambda>y. y \<in> S) ys"
        using Cons.prems by (intro filter_cong) auto
      then show ?thesis using True False by simp
    next
      case F: False
      then show ?thesis using Cons False by auto
    qed
  qed simp
qed

text \<open>The entry of a message of which the pieces of a set have arrived.\<close>

definition parts_have :: "OtaHeader \<Rightarrow> (nat \<times> byte list) list \<Rightarrow> int \<Rightarrow> (nat \<times> byte list) set \<Rightarrow> PartsData option \<Rightarrow> bool" where
  "parts_have h frs t0 S existing \<longleftrightarrow>
     (case existing of
        None \<Rightarrow> S = {}
      | Some entry \<Rightarrow> pd_parts entry = filter (\<lambda>x. x \<in> S) frs
          \<and> (pd_events_size entry, pd_controls_size entry, pd_data_size entry) = header_sizes h
          \<and> pd_uuid entry = oh_uuid h
          \<and> pd_total_size entry = length (concat (map snd (filter (\<lambda>x. x \<in> S) frs)))
          \<and> t0 \<le> pd_last_part_time entry)"

text \<open>A header that a receiver with the identifier \<open>local\<close> accepts for a payload.\<close>

definition header_for :: "OtaHeader \<Rightarrow> uuid \<Rightarrow> byte list \<Rightarrow> bool" where
  "header_for h local payload \<longleftrightarrow> oh_source h \<le> 0xFFFF \<and> oh_destination h \<le> 0xFFFF
     \<and> length (oh_uuid h) = 16 \<and> oh_uuid h \<noteq> local \<and> length payload \<le> MAX_OTA_PAYLOAD
     \<and> (case header_sizes h of (e, c, d) \<Rightarrow> e + c + d = length payload)"

abbreviation header_key :: "OtaHeader \<Rightarrow> PartKey" where
  "header_key h \<equiv> (ucast (oh_source h), oh_sequence h)"

definition whole_output :: "OtaEnv \<Rightarrow> OtaHeader \<Rightarrow> byte list \<Rightarrow> OtaManager \<Rightarrow> OtaEffect list" where
  "whole_output env h payload m =
     (case header_sizes h of (e, c, d) \<Rightarrow>
        message_output env (ucast (oh_source h)) (ucast (oh_destination h)) (oh_uuid h)
          (take e payload) (take c (drop e payload)) (drop (e + c) payload) m)"

lemma receive_part_own:
  assumes frs: "fragmentation payload frs" and x: "x \<in> set frs" and h: "header_for h local payload"
    and has: "parts_have h frs t0 S (map_of (om_part_store m) (header_key h))" and inv: "ota_inv m" and t: "t0 \<le> now"
    and info: "part_more info = (if fst x + length (snd x) < length payload then 1 else 0)"
      "unat (part_offset info) = fst x" "unat (part_size info) = length (snd x)"
  shows "\<exists>m'. receive_part env now h (oh_uuid h) info (snd x) m = Some (False, m') \<and> receives m m'
    \<and> (if set frs \<subseteq> insert x S
       then sent_out m' = sent_out m @ whole_output env h payload m \<and> map_of (om_part_store m') (header_key h) = None
       else sent_out m' = sent_out m \<and> (\<exists>entry. map_of (om_part_store m') (header_key h) = Some entry
         \<and> parts_have h frs t0 (insert x S) (Some entry) \<and> pd_last_part_time entry = now))"
proof -
  obtain off b where xb: "x = (off, b)" by (cases x)
  obtain e c d where sz: "header_sizes h = (e, c, d)" by (metis prod_cases3)
  have con: "contiguous 0 frs" and pl: "concat (map snd frs) = payload" using frs by (auto simp: fragmentation_def)
  have tot: "e + c + d = length payload" "length payload \<le> MAX_OTA_PAYLOAD" using h by (auto simp: header_for_def sz)
  have fits: "off + length b \<le> length payload" using contiguous_end [OF con x [unfolded xb]] pl by simp
  have dist: "distinct (map fst frs)" by (rule contiguous_distinct [OF con])
  have um: "length payload \<le> usize_max" using tot(2) by (simp add: MAX_OTA_PAYLOAD_def usize_max_def)
  let ?k = "header_key h" and ?S = "insert x S"
  define e0 where "e0 = part_entry now (oh_uuid h) (e, c, d) (map_of (om_part_store m) ?k)"
  have e0: "pd_parts e0 = filter (\<lambda>x. x \<in> S) frs" "pd_events_size e0 = e" "pd_controls_size e0 = c" "pd_data_size e0 = d"
      "pd_uuid e0 = oh_uuid h" "pd_total_size e0 = length (concat (map snd (filter (\<lambda>x. x \<in> S) frs)))"
    using has by (auto simp: e0_def part_entry_def parts_have_def unwrap_or_def sz Let_def split: option.splits)
  have look: "map_of (filter (\<lambda>x. x \<in> S) frs) off = (if x \<in> S then Some b else None)"
  proof (cases "x \<in> S")
    case True
    then show ?thesis using map_of_filter_mem [OF dist] x by (simp add: xb)
  next
    case False
    then have "(off, b') \<notin> set (filter (\<lambda>x. x \<in> S) frs)" for b'
      using x False eq_key_imp_eq_value [OF dist, of off b b'] by (auto simp: xb)
    then have "map_of (filter (\<lambda>x. x \<in> S) frs) off = None" by (force simp: map_of_eq_None_iff)
    with False show ?thesis by simp
  qed
  have dis: "distinct frs" using dist by (simp add: distinct_map)
  have size: "length (concat (map snd (filter (\<lambda>y. y \<in> T) frs))) \<le> length payload" for T
    unfolding pl [symmetric] by (induction frs) auto
  have sub: "length b \<le> length (concat (map snd (filter (\<lambda>y. y \<in> S) frs)))" if "x \<in> S"
    using size_filter_insert [OF dis x, of "S - {x}", unfolded insert_Diff_single insert_absorb [OF that]] by (simp add: xb)
  define e1 where "e1 = add_part now off b e0"
  have e1: "pd_parts e1 = filter (\<lambda>x. x \<in> ?S) frs" "pd_events_size e1 = e" "pd_controls_size e1 = c" "pd_data_size e1 = d"
      "pd_uuid e1 = oh_uuid h" "pd_last_part_time e1 = now"
    using e0 btree_insert_filter [OF con x [unfolded xb], of S] by (simp_all add: e1_def add_part_def Let_def xb)
  have total: "pd_total_size e1 = length (concat (map snd (filter (\<lambda>x. x \<in> ?S) frs)))"
    using e0(1,6) look sub size_filter_insert [OF dis x, of S] size [of ?S] um
    by (auto simp: e1_def add_part_def Let_def saturating_add_usize_def xb)
  have part: "receive_part env now h (oh_uuid h) info (snd x) m =
      map_option (Pair False) (store_part env h ?k (length payload) e1 m)"
    using tot um fits info e0(2-5)
    by (simp add: receive_part_def sz Let_def checked_add_def e0_def [symmetric] e1_def xb)
  show ?thesis
  proof (cases "set frs \<subseteq> ?S")
    case True
    then have all: "filter (\<lambda>x. x \<in> ?S) frs = frs" by (auto intro: filter_True)
    let ?del = "m\<lparr>om_part_store := AList.delete ?k (om_part_store m)\<rparr>"
    have st: "stats_ok (om_statistics ?del)" using inv by (simp add: ota_inv_def)
    obtain m' where m': "handle_ota_message env (ucast (oh_source h)) (ucast (oh_destination h)) (oh_uuid h) e c d payload ?del = Some (True, m')"
        "handled (message_output env (ucast (oh_source h)) (ucast (oh_destination h)) (oh_uuid h)
          (take e payload) (take c (drop e payload)) (drop (e + c) payload) ?del) ?del m'"
      using handle_ota_message_ok [OF tot st] by blast
    have p1: "pd_parts e1 = frs" "pd_total_size e1 = length payload" unfolding e1(1) total all pl by (rule refl)+
    have "store_part env h ?k (length payload) e1 m = Some m'"
      using all_contiguous_all [OF con, of "length payload"] pl um e1(2-5) p1 m'(1)
      by (simp add: store_part_def)
    moreover have "receives m m'" using receives_trans [OF receives_store(2) handled_receives [OF m'(2)]] .
    moreover have "message_output env s dd u ev ct pk ?del = message_output env s dd u ev ct pk m" for s dd u ev ct pk
      by (simp add: message_output_def)
    ultimately show ?thesis
      using True part handledD [OF m'(2)] by (simp add: whole_output_def sz sent_out_def delete_conv')
  next
    case False
    then have "pd_total_size e1 \<noteq> length payload"
      using size_filter_less [OF con False] pl total by simp
    then have "store_part env h ?k (length payload) e1 m = Some (m\<lparr>om_part_store := AList.update ?k e1 (om_part_store m)\<rparr>)"
      by (simp add: store_part_def split: prod.split)
    moreover have "parts_have h frs t0 ?S (Some e1)" using e1 total t sz by (simp add: parts_have_def)
    ultimately show ?thesis
      using False part e1(6) receives_store(1) [of m ?k e1] by (auto simp: sent_out_def update_conv')
  qed
qed

lemma ota_datagram_take:
  assumes "length hb \<le> 0xFFFF"
  shows "unat (of_be_bytes (take 2 (ota_datagram hb n x)) :: u16) = length hb"
    "take (length hb) (drop 2 (ota_datagram hb n x)) = hb"
    "drop (2 + length hb + PART_INFO_SIZE) (ota_datagram hb n x) = snd x"
    "read_part_info (ota_datagram hb n x) (2 + length hb) = Some \<lparr>part_more = (if fst x + length (snd x) < n then 1 else 0),
       part_offset = word_of_nat (fst x), part_size = word_of_nat (length (snd x))\<rparr>"
  using assms
  by (simp_all add: ota_datagram_def part_info_bytes_def PART_INFO_SIZE_def read_part_info_def index_get_def nth_append)

text \<open>A datagram of a message in several parts is handled as that part.\<close>

lemma receive_datagram_part:
  assumes hb: "length hb \<le> 0xFFFF" "oe_decode_header env hb = Some h" and h: "header_for h (om_uuid m) payload"
    and fits: "fst x + length (snd x) \<le> length payload" and several: "fst x \<noteq> 0 \<or> fst x + length (snd x) < length payload"
  shows "receive_datagram env now (ota_datagram hb (length payload) x) m =
    receive_part env now h (oh_uuid h) \<lparr>part_more = (if fst x + length (snd x) < length payload then 1 else 0),
       part_offset = word_of_nat (fst x), part_size = word_of_nat (length (snd x))\<rparr> (snd x) m"
proof -
  let ?d = "ota_datagram hb (length payload) x"
  have small: "length payload \<le> 64 * 1024 * 1024" using h by (simp add: header_for_def MAX_OTA_PAYLOAD_def)
  have w: "unat (word_of_nat (fst x) :: u32) = fst x" "unat (word_of_nat (length (snd x)) :: u32) = length (snd x)"
    using small fits by (simp_all add: unat_u32_of_nat)
  have z: "(word_of_nat (fst x) :: u32) = 0 \<longleftrightarrow> fst x = 0" by (metis w(1) unat_0 unat_eq_zero)
  have len: "length ?d = 2 + length hb + PART_INFO_SIZE + length (snd x)" by (rule length_ota_datagram)
  have um: "length ?d \<le> usize_max" using len small fits hb(1) by (simp add: usize_max_def PART_INFO_SIZE_def)
  note t = ota_datagram_take [OF hb(1), of "length payload" x]
  have src: "\<not> (oh_source h > 0xFFFF \<or> oh_destination h > 0xFFFF)" "parse_uuid (oh_uuid h) = Some (oh_uuid h)" "oh_uuid h \<noteq> om_uuid m"
    using h by (auto simp: header_for_def parse_uuid_def)
  have sl: "slice ?d (2 + length hb + PART_INFO_SIZE) (2 + length hb + PART_INFO_SIZE + length (snd x)) = Some (snd x)"
    using len t(3) by simp
  have s2: "slice ?d 2 (2 + length hb) = Some hb" using len t(2) by simp
  show ?thesis
    using src several w z len um
    by (cases "fst x = 0") (simp_all add: receive_datagram_def t(1,2,4) hb(2) sl checked_add_def Let_def del: add_2_eq_Suc)
qed

lemma fragment_several:
  assumes "fragmentation payload frs" "2 \<le> length frs" "x \<in> set frs"
  shows "fst x + length (snd x) \<le> length payload" "fst x \<noteq> 0 \<or> fst x + length (snd x) < length payload"
proof -
  have c: "contiguous 0 frs" "concat (map snd frs) = payload" using assms(1) by (auto simp: fragmentation_def)
  note fin = contiguous_end [OF c(1), of "fst x" "snd x", unfolded c(2)]
  show "fst x + length (snd x) \<le> length payload" using fin assms(3) by simp
  show "fst x \<noteq> 0 \<or> fst x + length (snd x) < length payload"
  proof (rule ccontr)
    assume "\<not> (fst x \<noteq> 0 \<or> fst x + length (snd x) < length payload)"
    then have z: "fst x = 0" "x = last frs" using fin assms(3) by (cases x; auto)+
    obtain a b rest where it: "frs = a # b # rest" using assms(2) by (cases frs; cases "tl frs") auto
    have f: "fst a = 0" "distinct (map fst frs)" using c(1) contiguous_distinct [OF c(1)] it by (cases a; auto)+
    have "x \<in> set (b # rest)" using z(2) it by (metis last_ConsR last_in_set list.distinct(1))
    with f it z(1) show False by (metis distinct.simps(2) image_eqI list.set_map list.simps(9))
  qed
qed

text \<open>The parts of one message, and everything that does not concern it, within the reassembly
  timeout after \<open>t0\<close>.\<close>

definition ota_has :: "OtaHeader \<Rightarrow> (nat \<times> byte list) list \<Rightarrow> uuid \<Rightarrow> int \<Rightarrow> int \<Rightarrow> (nat \<times> byte list) set \<Rightarrow> OtaManager \<Rightarrow> bool" where
  "ota_has h frs local t0 timeout S m \<longleftrightarrow> ota_inv m \<and> om_uuid m = local \<and> om_part_timeout_threshold m = timeout \<and> 0 < timeout
     \<and> parts_have h frs t0 S (map_of (om_part_store m) (header_key h))"

definition ota_carries ::
  "OtaEnv \<Rightarrow> OtaHeader \<Rightarrow> (nat \<times> byte list) list \<Rightarrow> byte list \<Rightarrow> uuid \<Rightarrow> int \<Rightarrow> int \<Rightarrow> (nat \<times> byte list) \<Rightarrow> OtaCall \<Rightarrow> bool" where
  "ota_carries env h frs payload local t0 timeout x call \<longleftrightarrow>
     fragmentation payload frs \<and> 2 \<le> length frs \<and> x \<in> set frs \<and> header_for h local payload
     \<and> (\<exists>now hb. call = Receive (OtaDatagram now (ota_datagram hb (length payload) x)) \<and> length hb \<le> 0xFFFF
          \<and> oe_decode_header env hb = Some h \<and> t0 \<le> now \<and> now < t0 + timeout)"

fun ota_other :: "OtaEnv \<Rightarrow> OtaHeader \<Rightarrow> int \<Rightarrow> int \<Rightarrow> OtaCall \<Rightarrow> bool" where
  "ota_other env h t0 timeout (Receive (OtaDatagram now buf)) \<longleftrightarrow>
     now < t0 + timeout \<and> datagram_key env buf \<noteq> Some (header_key h)"
| "ota_other env h t0 timeout (OpenManager addr dev ttl loopback u mtu check secs) \<longleftrightarrow> False"
| "ota_other env h t0 timeout CloseManager \<longleftrightarrow> False"
| "ota_other env h t0 timeout call \<longleftrightarrow> valid_call call"

definition ota_step :: "OtaEnv \<Rightarrow> OtaCall \<Rightarrow> OtaManager \<Rightarrow> OtaManager" where
  "ota_step env call m = the (ota_handle env call m)"

definition ota_completes :: "OtaEnv \<Rightarrow> OtaHeader \<Rightarrow> byte list \<Rightarrow> OtaManager \<Rightarrow> OtaManager \<Rightarrow> bool" where
  "ota_completes env h payload m m' \<longleftrightarrow> sent_out m' = sent_out m @ whole_output env h payload m"

lemma ota_has_receives:
  "ota_has h frs local t0 timeout S m \<Longrightarrow> receives m m' \<Longrightarrow> key_kept (header_key h) m m' \<Longrightarrow> ota_has h frs local t0 timeout S m'"
  by (simp add: ota_has_def receives_def key_kept_def)

text \<open>The check for old parts keeps a message of the last \<open>timeout\<close> nanoseconds.\<close>

lemma cleanup_parts_has:
  assumes has: "ota_has h frs local t0 timeout S m" and now: "now < t0 + timeout"
  shows "\<exists>m'. cleanup_parts env now m = Some m' \<and> ota_has h frs local t0 timeout S m' \<and> sent_out m' = sent_out m
    \<and> om_nem_users m' = om_nem_users m"
proof -
  have inv: "stats_ok (om_statistics m)" "distinct (map fst (om_part_store m))" and pos: "0 < timeout" "om_part_timeout_threshold m = timeout"
    using has by (auto simp: ota_has_def ota_inv_def)
  obtain m' where m': "cleanup_parts env now m = Some m'" "sent_out m' = sent_out m" "om_uuid m' = om_uuid m"
      "om_part_timeout_threshold m' = om_part_timeout_threshold m" "om_nem_users m' = om_nem_users m" "stats_ok (om_statistics m')"
      "om_part_store m' = (if elapsed now (om_last_part_check_time m) \<ge> om_part_check_threshold m
         then filter (\<lambda>(key, value). \<not> part_expired now m value) (om_part_store m) else om_part_store m)"
    using cleanup_parts_ok [OF inv(1), of env now] by blast
  have "map_of (om_part_store m') (header_key h) = map_of (om_part_store m) (header_key h)"
  proof (cases "map_of (om_part_store m) (header_key h)")
    case (Some entry)
    then have "t0 \<le> pd_last_part_time entry" using has by (simp add: ota_has_def parts_have_def)
    then have "\<not> part_expired now m entry" using now pos by (auto simp: part_expired_def elapsed_def)
    with Some show ?thesis using m'(7) map_of_filter_distinct [OF inv(2), of "\<lambda>v. \<not> part_expired now m v"] by simp
  qed (use m'(7) map_of_filter_distinct [OF inv(2), of "\<lambda>v. \<not> part_expired now m v"] in simp)
  moreover have "distinct (map fst (om_part_store m'))" using m'(7) inv(2) by (simp add: distinct_map_filter)
  ultimately show ?thesis using m' has by (auto simp: ota_has_def ota_inv_def)
qed

lemma ota_other_kept:
  assumes has: "ota_has h frs local t0 timeout S m" and other: "ota_other env h t0 timeout call"
  shows "ota_has h frs local t0 timeout S (ota_step env call m)"
proof -
  have inv: "ota_inv m" using has by (simp add: ota_has_def)
  have upd: "ota_has h frs local t0 timeout S (m\<lparr>om_nem_users := u\<rparr>)"
      "ota_has h frs local t0 timeout S (m\<lparr>om_statistics := (om_statistics m)\<lparr>os_packet_row_limit := a, os_event_row_limit := b\<rparr>\<rparr>)" for u a b
    using has by (simp_all add: ota_has_def ota_inv_def stats_ok_def)
  show ?thesis
  proof (cases call)
    case (Receive r)
    show ?thesis
    proof (cases r)
      case (OtaDatagram now buf)
      obtain b m1 where m1: "receive_datagram env now buf m = Some (b, m1)" "receives m m1"
          "\<forall>k. datagram_key env buf \<noteq> Some k \<longrightarrow> key_kept k m m1"
        using receive_datagram_total [OF inv] by blast
      have h1: "ota_has h frs local t0 timeout S m1"
        using ota_has_receives [OF has m1(2)] m1(3) other by (simp add: Receive OtaDatagram)
      obtain m2 where "cleanup_parts env now m1 = Some m2" "ota_has h frs local t0 timeout S m2"
        using cleanup_parts_has [OF h1] other by (auto simp: Receive OtaDatagram)
      with m1(1) h1 show ?thesis by (cases b) (auto simp: ota_step_def Receive OtaDatagram)
    qed (use has in \<open>auto simp: ota_step_def Receive\<close>)
  next
    case (SendPacket s d p c e)
    then have v: "valid_slice p" "valid_slice c" "valid_slice e" using other by auto
    obtain b m1 where "emane_rs_ota_manager_send_ota_packet env s d p c e m = Some (b, m1)" "send_keeps m m1"
      using send_ota_packet_ok [OF inv v] by blast
    then show ?thesis using ota_has_receives [OF has] by (simp add: SendPacket ota_step_def send_keeps_def key_kept_def)
  qed (use other has upd in \<open>auto simp: ota_step_def configure_statistics_def emane_rs_ota_manager_register_user_def
      register_native_user_def unregister_native_user_def emane_rs_ota_manager_unregister_user_def Let_def split: option.split\<close>)
qed

lemma ota_carries_step:
  assumes has: "ota_has h frs local t0 timeout S m" and own: "ota_carries env h frs payload local t0 timeout x call"
  shows "if set frs \<subseteq> insert x S
    then ota_completes env h payload m (ota_step env call m) \<and> ota_has h frs local t0 timeout {} (ota_step env call m)
    else ota_has h frs local t0 timeout (insert x S) (ota_step env call m)"
proof -
  from own obtain now hb where frs: "fragmentation payload frs" "2 \<le> length frs" "x \<in> set frs" and h: "header_for h local payload"
      and call: "call = Receive (OtaDatagram now (ota_datagram hb (length payload) x))" and hb: "length hb \<le> 0xFFFF" "oe_decode_header env hb = Some h"
      and t: "t0 \<le> now" "now < t0 + timeout"
    by (auto simp: ota_carries_def)
  have m: "ota_inv m" "om_uuid m = local" "parts_have h frs t0 S (map_of (om_part_store m) (header_key h))"
    using has by (auto simp: ota_has_def)
  have hm: "header_for h (om_uuid m) payload" using h m(2) by simp
  let ?info = "\<lparr>part_more = (if fst x + length (snd x) < length payload then 1 else 0),
       part_offset = word_of_nat (fst x), part_size = word_of_nat (length (snd x))\<rparr> :: PartInfo"
  note sev = fragment_several [OF frs]
  have "length payload \<le> 64 * 1024 * 1024" using h by (simp add: header_for_def MAX_OTA_PAYLOAD_def)
  then have w: "unat (part_offset ?info) = fst x" "unat (part_size ?info) = length (snd x)"
    using sev(1) by (simp_all add: unat_u32_of_nat)
  obtain m1 where p: "receive_part env now h (oh_uuid h) ?info (snd x) m = Some (False, m1)" "receives m m1"
      "if set frs \<subseteq> insert x S
       then sent_out m1 = sent_out m @ whole_output env h payload m \<and> map_of (om_part_store m1) (header_key h) = None
       else sent_out m1 = sent_out m \<and> (\<exists>entry. map_of (om_part_store m1) (header_key h) = Some entry
         \<and> parts_have h frs t0 (insert x S) (Some entry) \<and> pd_last_part_time entry = now)"
    using receive_part_own [OF frs(1,3) h m(3,1) t(1) _ w] by auto
  have r: "receive_datagram env now (ota_datagram hb (length payload) x) m = Some (False, m1)"
    using receive_datagram_part [OF hb hm sev] p(1) by simp
  let ?T = "if set frs \<subseteq> insert x S then {} else insert x S"
  have h1: "ota_has h frs local t0 timeout ?T m1"
    using has p(2,3) by (auto simp: ota_has_def receives_def parts_have_def split: if_splits)
  obtain m2 where c: "cleanup_parts env now m1 = Some m2" "ota_has h frs local t0 timeout ?T m2" "sent_out m2 = sent_out m1"
    using cleanup_parts_has [OF h1 t(2)] by blast
  have "ota_step env call m = m2" using r c(1) by (simp add: ota_step_def call)
  with c p(3) show ?thesis by (auto simp: ota_completes_def split: if_splits)
qed

lemma ota_carries_unique:
  assumes "ota_carries env h frs payload local t0 timeout x call" "ota_carries env h frs payload local t0 timeout y call"
  shows "x = y"
proof -
  from assms obtain hb hb' where frs: "fragmentation payload frs" "x \<in> set frs" "y \<in> set frs" "header_for h local payload"
      and hb: "length hb \<le> 0xFFFF" "length hb' \<le> 0xFFFF"
      and eq: "ota_datagram hb (length payload) x = ota_datagram hb' (length payload) y"
    by (auto simp: ota_carries_def)
  have c: "contiguous 0 frs" "concat (map snd frs) = payload" using frs(1) by (auto simp: fragmentation_def)
  have fits: "fst z + length (snd z) < 2 ^ 32" if "z \<in> set frs" for z
    using contiguous_end [OF c(1), of "fst z" "snd z"] that c(2) frs(4) by (simp add: header_for_def MAX_OTA_PAYLOAD_def)
  have len: "length hb = length hb'" using ota_datagram_take(1) [OF hb(1)] ota_datagram_take(1) [OF hb(2)] eq by metis
  have "snd x = snd y" using ota_datagram_take(3) [OF hb(1)] ota_datagram_take(3) [OF hb(2)] eq len by metis
  moreover have "(word_of_nat (fst x) :: u32) = word_of_nat (fst y)"
    using ota_datagram_take(4) [OF hb(1), of "length payload" x] ota_datagram_take(4) [OF hb(2), of "length payload" y] eq len by simp
  then have "unat (word_of_nat (fst x) :: u32) = unat (word_of_nat (fst y) :: u32)" by simp
  then have "fst x = fst y" using fits [OF frs(2)] fits [OF frs(3)] by (simp add: unat_u32_of_nat)
  ultimately show ?thesis by (simp add: prod_eq_iff)
qed

lemma ota_other_no_piece:
  assumes "ota_other env h t0 timeout call"
  shows "\<not> ota_carries env h frs payload local t0 timeout x call"
proof
  assume "ota_carries env h frs payload local t0 timeout x call"
  then obtain now hb where call: "call = Receive (OtaDatagram now (ota_datagram hb (length payload) x))" "length hb \<le> 0xFFFF"
      "oe_decode_header env hb = Some h" by (auto simp: ota_carries_def)
  then have "datagram_key env (ota_datagram hb (length payload) x) = Some (header_key h)"
    using ota_datagram_take(1,2) [OF call(2), of "length payload" x] by (simp add: datagram_key_def)
  with assms call(1) show False by simp
qed

interpretation ota_receiver: fragment_receiver
  "ota_step env" frs "ota_has h frs local t0 timeout" "ota_carries env h frs payload local t0 timeout"
  "ota_other env h t0 timeout" "ota_completes env h payload"
  for env frs h local t0 timeout payload
proof
  fix x call S m
  assume own: "ota_carries env h frs payload local t0 timeout x call" and has: "ota_has h frs local t0 timeout S m"
  note s = ota_carries_step [OF has own]
  show "\<not> set frs \<subseteq> insert x S \<Longrightarrow> ota_has h frs local t0 timeout (insert x S) (ota_step env call m)"
    using s by presburger
  show "set frs \<subseteq> insert x S \<Longrightarrow> ota_completes env h payload m (ota_step env call m) \<and> ota_has h frs local t0 timeout {} (ota_step env call m)"
    using s by presburger
qed (blast intro: ota_carries_unique ota_other_kept dest: ota_other_no_piece)+


section \<open>Runs\<close>

fun ota_run :: "OtaEnv \<Rightarrow> OtaCall list \<Rightarrow> OtaManager \<Rightarrow> OtaManager panics" where
  "ota_run env [] m = Some m"
| "ota_run env (call # calls) m = do { m \<leftarrow> ota_handle env call m; ota_run env calls m }"

lemma ota_handle_total:
  assumes inv: "ota_inv m" and valid: "valid_call call"
  shows "\<exists>m'. ota_handle env call m = Some m' \<and> ota_inv m'"
proof (cases call)
  case (Receive r)
  then show ?thesis using process_loop_step_total [OF inv, of env r] inv by (auto simp: receives_def)
next
  case (SendPacket s d p c e)
  then have v: "valid_slice p" "valid_slice c" "valid_slice e" using valid by auto
  show ?thesis using SendPacket send_ota_packet_ok [OF inv v, of env s d] inv by (auto simp: send_keeps_def receives_def)
qed (use inv in \<open>auto simp: ota_inv_def stats_ok_def configure_statistics_def emane_rs_ota_manager_register_user_def
      register_native_user_def unregister_native_user_def emane_rs_ota_manager_unregister_user_def
      emane_rs_ota_manager_open_def emane_rs_ota_manager_close_def Let_def split: option.split\<close>)

lemma ota_new_inv: "ota_inv (OtaManager_new (OtaStatistics_register reg_counter reg_table generation) now)"
  by (simp add: OtaManager_new_def OtaStatistics_register_def ota_inv_def stats_ok_def Let_def)

lemma ota_run_total:
  "list_all valid_call calls \<Longrightarrow> ota_inv m \<Longrightarrow> \<exists>m'. ota_run env calls m = Some m' \<and> ota_inv m'"
proof (induction calls arbitrary: m)
  case (Cons call calls)
  obtain m1 where "ota_handle env call m = Some m1" "ota_inv m1" using ota_handle_total [OF Cons.prems(2), of call env] Cons.prems(1) by auto
  with Cons show ?case by auto
qed simp

text \<open>A header codec with the round trip that the protobuf library documents, for the examples.\<close>

definition example_encode_header :: "OtaHeader \<Rightarrow> byte list" where
  "example_encode_header h =
     be_bytes 4 (oh_source h) @ be_bytes 4 (oh_destination h) @ be_bytes 8 (oh_sequence h)
     @ (case oh_payload_info h of
          None \<Rightarrow> [0]
        | Some i \<Rightarrow> [1] @ be_bytes 4 (event_length i) @ be_bytes 4 (control_length i) @ be_bytes 4 (data_length i))
     @ oh_uuid h"

definition example_decode_header :: "byte list \<Rightarrow> OtaHeader option" where
  "example_decode_header d =
     (if length d < 17 then None
      else if d ! 16 = 0
      then Some \<lparr>oh_source = of_be_bytes (take 4 d), oh_destination = of_be_bytes (take 4 (drop 4 d)),
             oh_sequence = of_be_bytes (take 8 (drop 8 d)), oh_uuid = drop 17 d, oh_payload_info = None\<rparr>
      else Some \<lparr>oh_source = of_be_bytes (take 4 d), oh_destination = of_be_bytes (take 4 (drop 4 d)),
             oh_sequence = of_be_bytes (take 8 (drop 8 d)), oh_uuid = drop 29 d,
             oh_payload_info = Some \<lparr>event_length = of_be_bytes (take 4 (drop 17 d)),
               control_length = of_be_bytes (take 4 (drop 21 d)), data_length = of_be_bytes (take 4 (drop 25 d))\<rparr>\<rparr>)"

lemma example_header_roundtrip: "example_decode_header (example_encode_header h) = Some h"
  by (cases h) (auto simp: example_decode_header_def example_encode_header_def nth_append split: option.split)

definition example_ota_env :: OtaEnv where
  "example_ota_env = \<lparr>oe_encode_header = example_encode_header, oe_decode_header = example_decode_header,
     oe_decode_events = (\<lambda>_. None), oe_table_generation = (\<lambda>_ _. None), oe_send_to = (\<lambda>_ _. True),
     oe_try_clone = (\<lambda>_. True), oe_make_socket = (\<lambda>_ _ _ _. True)\<rparr>"

definition example_manager :: "uuid \<Rightarrow> OtaManager" where
  "example_manager u = register_native_user 1 7 8
     ((OtaManager_new (OtaStatistics_register (\<lambda>_. None) (\<lambda>_. None) (\<lambda>_. None)) 0)
        \<lparr>om_socket := True, om_uuid := u, om_ota_mtu := 59, om_group_addr := Some ''224.1.2.8:45702'', om_running := True\<rparr>)"

definition example_packet_slice :: FfiSlice where
  "example_packet_slice = slice_of [1, 2, 3, 4]"

lemma example_manager_inv: "ota_inv (example_manager u)"
  by (simp add: example_manager_def register_native_user_def OtaManager_new_def OtaStatistics_register_def ota_inv_def stats_ok_def)

lemma example_sendable:
  assumes "length u = 16"
  shows "sendable example_ota_env 1 2 example_packet_slice (slice_of []) (slice_of []) (example_manager u)"
proof -
  have "length (example_encode_header (packet_header 1 2 example_packet_slice (slice_of []) (slice_of []) (example_manager u))) = 45"
    using assms by (simp add: example_encode_header_def packet_header_def example_manager_def register_native_user_def OtaManager_new_def)
  then show ?thesis
    by (simp add: sendable_def example_ota_env_def example_packet_slice_def slice_of_def null_slice_def PART_INFO_SIZE_def
        MAX_OTA_PAYLOAD_def example_manager_def register_native_user_def OtaManager_new_def)
qed


section \<open>Properties\<close>

text \<open>C29: from a new manager, no sequence of sends, received datagrams, timeouts, registrations, openings
  and closings makes the manager panic, whatever bytes the datagrams hold.\<close>

theorem ota_never_panics:
  assumes "list_all valid_call calls"
  shows "ota_run env calls (OtaManager_new (OtaStatistics_register reg_counter reg_table generation) now) \<noteq> panic"
  using ota_run_total [OF assms ota_new_inv [of reg_counter reg_table generation now], of env] by auto

theorem ota_never_panics_witness:
  "ota_run example_ota_env [OpenManager (Some ''224.1.2.8:45702'') None 1 False (Some (replicate 16 3)) 59 2 5,
      SendPacket 1 2 example_packet_slice (slice_of []) (slice_of []), Receive (OtaDatagram 5 [0, 1, 2])]
    (OtaManager_new (OtaStatistics_register (\<lambda>_. None) (\<lambda>_. None) (\<lambda>_. None)) 0) \<noteq> panic"
  by (rule ota_never_panics) (simp add: example_packet_slice_def)

text \<open>A message that fits the protocol is sent: its parts are adjacent, not empty, and together
  exactly the events, controls and packet in this order, each part goes out in a datagram of its own with
  the header of the message, and no datagram is longer than a configured maximum.\<close>

lemma ota_send_parts_cover:
  assumes "ota_inv m" and "valid_slice packet" "valid_slice controls" "valid_slice events"
    and "sendable env source destination packet controls events m"
  shows "\<exists>m' frs. emane_rs_ota_manager_send_ota_packet env source destination packet controls events m = Some (True, m')
    \<and> sends_message env source destination packet controls events m m' frs"
  using send_ota_packet_ok [OF assms(1-4), of env source destination] assms(5) by auto

lemma packet_header_for:
  assumes "sends_message env source destination packet controls events ms ms' frs"
    and "length (om_uuid ms) = 16" "om_uuid ms \<noteq> local"
  shows "header_for (packet_header source destination packet controls events ms) local
      (raw_bytes events @ raw_bytes controls @ raw_bytes packet)"
    "header_sizes (packet_header source destination packet controls events ms) = (fs_len events, fs_len controls, fs_len packet)"
    "ucast (oh_source (packet_header source destination packet controls events ms)) = source"
    "ucast (oh_destination (packet_header source destination packet controls events ms)) = destination"
proof -
  let ?h = "packet_header source destination packet controls events ms"
  have l: "fs_len events + fs_len controls + fs_len packet \<le> 64 * 1024 * 1024"
      "length (raw_bytes events) = fs_len events" "length (raw_bytes controls) = fs_len controls" "length (raw_bytes packet) = fs_len packet"
    using assms(1) by (auto simp: sends_message_def Let_def MAX_OTA_PAYLOAD_def)
  show sz: "header_sizes ?h = (fs_len events, fs_len controls, fs_len packet)"
    using l(1) by (simp add: header_sizes_def packet_header_def unwrap_or_def unat_u32_of_nat)
  show sd: "ucast (oh_source ?h) = source" "ucast (oh_destination ?h) = destination"
    by (simp_all add: packet_header_def) (rule bit_word_eqI; simp add: bit_simps)+
  have "ucast w \<le> (0xFFFF :: u32)" for w :: u16
    using u16_of_ucast [of w] by (auto simp: u16_of_u32_def split: if_splits)
  then show "header_for ?h local (raw_bytes events @ raw_bytes controls @ raw_bytes packet)"
    using assms(2,3) l by (simp add: header_for_def sz MAX_OTA_PAYLOAD_def) (simp add: packet_header_def)
qed

text \<open>C3: a message one manager sends in several datagrams is delivered by another: when the last of its
  datagrams arrives, in whatever order, however often repeated and whatever else the manager does meanwhile,
  within the reassembly timeout, exactly its events go to the event service and its packet and controls to
  every registered user.\<close>

theorem ota_message_delivered:
  assumes codec: "\<And>h. oe_decode_header env (oe_encode_header env h) = Some h"
    and send: "ota_inv ms" "valid_slice packet" "valid_slice controls" "valid_slice events"
      "emane_rs_ota_manager_send_ota_packet env source destination packet controls events ms = Some (True, ms')"
      "sent_out ms' = sent_out ms @ map SendDatagram ds" "2 \<le> length ds"
    and ids: "length (om_uuid ms) = 16" "om_uuid ms \<noteq> om_uuid m"
    and start: "ota_inv m" "map_of (om_part_store m) (source, om_sequence_number ms + 1) = None"
      "timeout = om_part_timeout_threshold m" "0 < timeout"
    and calls: "\<forall>call \<in> set (evs @ [Receive (OtaDatagram now d)]).
        ota_other env (packet_header source destination packet controls events ms) t0 timeout call
        \<or> (\<exists>t d'. call = Receive (OtaDatagram t d') \<and> d' \<in> set ds \<and> t0 \<le> t \<and> t < t0 + timeout)"
    and last: "d \<in> set ds" "\<forall>t. Receive (OtaDatagram t d) \<notin> set evs"
    and others: "\<forall>d' \<in> set ds - {d}. \<exists>t. Receive (OtaDatagram t d') \<in> set evs"
  shows "sent_out (fold (ota_step env) (evs @ [Receive (OtaDatagram now d)]) m) =
    sent_out (fold (ota_step env) evs m)
      @ message_output env source destination (om_uuid ms) (raw_bytes events) (raw_bytes controls) (raw_bytes packet)
          (fold (ota_step env) evs m)"
proof -
  let ?h = "packet_header source destination packet controls events ms"
  let ?pl = "raw_bytes events @ raw_bytes controls @ raw_bytes packet"
  let ?hb = "oe_encode_header env ?h"
  let ?dg = "ota_datagram ?hb (length ?pl)"
  obtain frs where fr: "sends_message env source destination packet controls events ms ms' frs"
    using send_ota_packet_ok [OF send(1-4), of env source destination] send(5) by auto
  then have f: "contiguous 0 frs" "concat (map snd frs) = ?pl" "length ?hb \<le> 0xFFFF"
      and out: "sent_out ms' = sent_out ms @ map SendDatagram (map ?dg frs)"
    by (auto simp: sends_message_def Let_def comp_def)
  have "map SendDatagram ds = map SendDatagram (map ?dg frs)" using out send(6) by simp
  then have ds: "ds = map ?dg frs" by (rule map_injective) (auto simp: inj_on_def)
  have two: "2 \<le> length frs" "frs \<noteq> []" using send(7) ds by auto
  have frs: "fragmentation ?pl frs" using f two by (auto simp: fragmentation_def)
  note hdr = packet_header_for [OF fr ids]
  have key: "header_key ?h = (source, om_sequence_number ms + 1)" using hdr(3) by (simp add: packet_header_def)
  let ?c = "ota_carries env ?h frs ?pl (om_uuid m) t0 timeout"
  have carry: "?c x (Receive (OtaDatagram t (?dg x)))" if "x \<in> set frs" "t0 \<le> t" "t < t0 + timeout" for x t
    using that frs two hdr(1) f(3) codec by (auto simp: ota_carries_def)
  have has: "ota_has ?h frs (om_uuid m) t0 timeout {} m"
    using start key by (simp add: ota_has_def parts_have_def)
  obtain x0 where x0: "x0 \<in> set frs" "d = ?dg x0" using last(1) ds by auto
  have own: "\<exists>y \<in> set frs. ?c y call" if "call = Receive (OtaDatagram t d')" "d' \<in> set ds" "t0 \<le> t" "t < t0 + timeout" for call t d'
    using that carry ds by auto
  have all: "\<forall>call \<in> set (evs @ [Receive (OtaDatagram now d)]). ota_other env ?h t0 timeout call \<or> (\<exists>x \<in> set frs. ?c x call)"
    using calls own by blast
  have got: "x \<in> pieces_of ?c frs es" if g: "x \<in> set frs" "Receive (OtaDatagram t (?dg x)) \<in> set es"
      "\<forall>call \<in> set es. ota_other env ?h t0 timeout call \<or> (\<exists>x \<in> set frs. ?c x call)" for x t es
  proof -
    have "\<not> ota_other env ?h t0 timeout (Receive (OtaDatagram t (?dg x)))"
      using ota_datagram_take(1,2) [OF f(3), of "length ?pl" x] codec by (simp add: datagram_key_def)
    then obtain y where y: "y \<in> set frs" "?c y (Receive (OtaDatagram t (?dg x)))" using g(2,3) by blast
    then have "t0 \<le> t" "t < t0 + timeout" by (auto simp: ota_carries_def)
    then have "?c x (Receive (OtaDatagram t (?dg x)))" using carry g(1) by blast
    with g(1,2) show ?thesis by (auto simp: pieces_of_def)
  qed
  have missing: "\<not> set frs \<subseteq> pieces_of ?c frs evs"
  proof
    assume "set frs \<subseteq> pieces_of ?c frs evs"
    then obtain call where call: "call \<in> set evs" "?c x0 call" using x0(1) by (auto simp: pieces_of_def)
    then obtain t hb where t: "call = Receive (OtaDatagram t (ota_datagram hb (length ?pl) x0))" "length hb \<le> 0xFFFF"
        "oe_decode_header env hb = Some ?h" "t0 \<le> t" "t < t0 + timeout" by (auto simp: ota_carries_def)
    have "\<not> ota_other env ?h t0 timeout call" using ota_other_no_piece call(2) by blast
    then obtain t' d' where d': "call = Receive (OtaDatagram t' d')" "d' \<in> set ds" using calls call(1) by auto
    then obtain y where y: "y \<in> set frs" "call = Receive (OtaDatagram t (?dg y))" using t(1) ds by auto
    then have "?c y call" using carry t(4,5) by simp
    then have "y = x0" using ota_carries_unique call(2) by blast
    with y(2) call(1) last(2) x0(2) show False by auto
  qed
  have complete: "set frs \<subseteq> pieces_of ?c frs (evs @ [Receive (OtaDatagram now d)])"
  proof
    fix x assume x: "x \<in> set frs"
    show "x \<in> pieces_of ?c frs (evs @ [Receive (OtaDatagram now d)])"
    proof (cases "?dg x = d")
      case True
      then show ?thesis using got [OF x _ all, of now] by simp
    next
      case False
      then obtain t where "Receive (OtaDatagram t (?dg x)) \<in> set evs" using others x ds by auto
      then show ?thesis using got [OF x _ all, of t] by simp
    qed
  qed
  have l: "length (raw_bytes events) = fs_len events" "length (raw_bytes controls) = fs_len controls"
    using fr by (auto simp: sends_message_def Let_def)
  have "oh_uuid ?h = om_uuid ms" by (simp add: packet_header_def)
  then have "whole_output env ?h ?pl m0 =
      message_output env source destination (om_uuid ms) (raw_bytes events) (raw_bytes controls) (raw_bytes packet) m0" for m0
    using hdr(2-4) l by (simp add: whole_output_def)
  with ota_receiver.complete [OF has all missing complete] show ?thesis
    by (simp add: ota_completes_def)
qed

theorem ota_message_delivered_witness:
  "\<exists>ms' ds d evs m.
     emane_rs_ota_manager_send_ota_packet example_ota_env 1 2 example_packet_slice (slice_of []) (slice_of [])
       (example_manager (replicate 16 9)) = Some (True, ms')
     \<and> sent_out ms' = sent_out (example_manager (replicate 16 9)) @ map SendDatagram ds \<and> 2 \<le> length ds
     \<and> m = fold (ota_step example_ota_env) evs (example_manager (replicate 16 5))
     \<and> sent_out (ota_step example_ota_env (Receive (OtaDatagram 20 d)) m) =
         sent_out m @ message_output example_ota_env 1 2 (replicate 16 9) [] [] [1, 2, 3, 4] m"
proof -
  let ?ms = "example_manager (replicate 16 9)" and ?m = "example_manager (replicate 16 5)" and ?p = example_packet_slice
  have v: "valid_slice ?p" "valid_slice (slice_of [])" "valid_slice (slice_of [])" by (simp_all add: example_packet_slice_def)
  have ok: "sendable example_ota_env 1 2 ?p (slice_of []) (slice_of []) ?ms" by (rule example_sendable) simp
  obtain ms' frs where s: "emane_rs_ota_manager_send_ota_packet example_ota_env 1 2 ?p (slice_of []) (slice_of []) ?ms = Some (True, ms')"
      and f: "sends_message example_ota_env 1 2 ?p (slice_of []) (slice_of []) ?ms ms' frs"
    using send_ota_packet_ok [OF example_manager_inv [of "replicate 16 9"] v, of example_ota_env 1 2] ok by auto
  let ?hb = "example_encode_header (packet_header 1 2 ?p (slice_of []) (slice_of []) ?ms)"
  have raw: "raw_bytes ?p = [1, 2, 3, 4]" "raw_bytes (slice_of []) = []" "fs_len ?p = 4" "Suc (Suc (Suc (Suc 0))) = 4"
    by (simp_all add: raw_bytes_def example_packet_slice_def slice_of_def)
  define ds where "ds = map (ota_datagram ?hb 4) frs"
  have env: "oe_encode_header example_ota_env = example_encode_header" by (simp add: example_ota_env_def)
  have mtu: "om_ota_mtu ?ms = 59" by (simp add: example_manager_def register_native_user_def OtaManager_new_def)
  have frs: "concat (map snd frs) = [1, 2, 3, 4]" "sent_out ms' = sent_out ?ms @ map SendDatagram ds"
      "\<forall>x \<in> set frs. length (ota_datagram ?hb 4 x) \<le> 59"
    using f mtu by (auto simp: sends_message_def Let_def raw ds_def env comp_def)
  have "length ?hb = 45"
    by (simp add: example_encode_header_def packet_header_def example_manager_def register_native_user_def OtaManager_new_def)
  then have short: "\<forall>x \<in> set frs. length (snd x) \<le> 3" using frs(3) by (simp add: length_ota_datagram PART_INFO_SIZE_def)
  have two: "2 \<le> length ds"
  proof (rule ccontr)
    assume "\<not> 2 \<le> length ds"
    then consider "frs = []" | x where "frs = [x]" by (cases frs; cases "tl frs") (auto simp: ds_def)
    then show False using frs(1) short by cases auto
  qed
  then obtain d where d: "d \<in> set ds" by (cases ds) auto
  define evs where "evs = map (\<lambda>d. Receive (OtaDatagram 10 d)) (filter (\<lambda>d'. d' \<noteq> d) ds)"
  have codec: "oe_decode_header example_ota_env (oe_encode_header example_ota_env h) = Some h" for h
    by (simp add: example_ota_env_def example_header_roundtrip)
  have m: "om_uuid ?ms = replicate 16 9" "om_uuid ?m = replicate 16 5" "om_part_store ?m = []"
      "om_part_timeout_threshold ?m = 5000000000"
    by (simp_all add: example_manager_def register_native_user_def OtaManager_new_def)
  have "sent_out (fold (ota_step example_ota_env) (evs @ [Receive (OtaDatagram 20 d)]) ?m) =
      sent_out (fold (ota_step example_ota_env) evs ?m)
        @ message_output example_ota_env 1 2 (om_uuid ?ms) (raw_bytes (slice_of [])) (raw_bytes (slice_of [])) (raw_bytes ?p)
            (fold (ota_step example_ota_env) evs ?m)"
    by (rule ota_message_delivered [OF codec example_manager_inv v s frs(2) two _ _ example_manager_inv _ refl, where ?t0.0 = 0])
      (use d in \<open>auto simp: m evs_def\<close>)
  then show ?thesis using s frs(2) two unfolding m raw by auto
qed

text \<open>A datagram that carries the manager's own identifier changes nothing and delivers nothing,
  whatever the rest of it says.\<close>

lemma ota_own_datagram_ignored:
  assumes "oe_decode_header env (take (unat (of_be_bytes (take 2 buf) :: u16)) (drop 2 buf)) = Some h"
    and "oh_uuid h = om_uuid m"
  shows "\<exists>continued. receive_datagram env now buf m = Some (continued, m)"
proof (cases "2 + unat (of_be_bytes (take 2 buf) :: u16) + PART_INFO_SIZE \<le> length buf")
  case True
  then obtain info where "read_part_info buf (2 + unat (of_be_bytes (take 2 buf) :: u16)) = Some info"
    using read_part_info_total by blast
  with True assms show ?thesis by (auto simp: receive_datagram_def parse_uuid_def Let_def)
next
  case False
  then show ?thesis by (cases "length buf < 2") (auto simp: receive_datagram_def)
qed

definition example_own_header :: OtaHeader where
  "example_own_header = \<lparr>oh_source = 1, oh_destination = 2, oh_sequence = 1, oh_uuid = replicate 16 9, oh_payload_info = None\<rparr>"

text \<open>C40: the loop of a manager that was closed ends at the next timeout and after a good datagram, but
  a datagram with a source beyond 16 bits makes it go on without looking at the flag.\<close>

theorem ota_malformed_keeps_loop:
  assumes "\<not> om_running m" and "2 + unat (of_be_bytes (take 2 buf) :: u16) + PART_INFO_SIZE \<le> length buf"
    and "oe_decode_header env (take (unat (of_be_bytes (take 2 buf) :: u16)) (drop 2 buf)) = Some h"
    and "oh_source h > 0xFFFF"
  shows "process_loop_step env (OtaDatagram now buf) m = Some (True, m)
    \<and> process_loop_step env OtaTimeout m = Some (False, m)"
  using assms by (simp add: receive_datagram_def)

theorem ota_malformed_keeps_loop_witness:
  "let m = emane_rs_ota_manager_close (example_manager (replicate 16 9));
       buf = ota_datagram (example_encode_header (example_own_header\<lparr>oh_source := 0x10000\<rparr>)) 1 (0, [7])
   in process_loop_step example_ota_env (OtaDatagram 0 buf) m = Some (True, m)
    \<and> process_loop_step example_ota_env OtaTimeout m = Some (False, m)"
proof -
  let ?h = "example_own_header\<lparr>oh_source := 0x10000\<rparr>"
  have hb: "length (example_encode_header ?h) \<le> 0xFFFF" by (simp add: example_encode_header_def example_own_header_def)
  have "oe_decode_header example_ota_env (example_encode_header ?h) = Some ?h"
    by (simp add: example_ota_env_def example_header_roundtrip)
  then show ?thesis unfolding Let_def
    by (intro ota_malformed_keeps_loop [where h = ?h])
      (simp_all add: emane_rs_ota_manager_close_def ota_datagram_take [OF hb] length_ota_datagram)
qed

end
