(* ===== verification/Event_Service.thy ===== *)
theory Event_Service
  imports Ota_Manager "HOL-Library.Sublist"
begin

text \<open>
  The event service, \<^verbatim>\<open>emane-core/src/event_service.rs\<close>: layers register for events by number, an event
  is handed to the layers registered for it, locally and over a multicast channel between emulators.
  The record \<open>EventService\<close> holds the registry, the state behind the second mutex and the socket; calls
  that leave the service (callbacks, datagrams, statistics) are appended to \<open>es_effects\<close>. A call is one
  step: the code reads the registry once under its lock and calls back after it. The protobuf codec, the
  socket and the answers of the statistics service are the record \<open>EventEnv\<close>.
\<close>

section \<open>Data\<close>

record EventServiceUser =
  eu_build_id :: u16
  eu_nem_id :: u16
  eu_context :: nat
  eu_callback :: "nat option"

record EventServiceRegistry =
  er_users :: "u16 \<rightharpoonup> EventServiceUser"
  er_registrations :: "u16 \<rightharpoonup> u16 list"

type_synonym EventChannelKey = "uuid \<times> u16"

text \<open>A row counts the events sent and received under its key.\<close>

record EventChannelStatistics =
  ecs_transmitted :: u64
  ecs_received :: u64
  ecs_table :: u64
  ecs_row_limit :: nat
  ecs_generation :: u64
  ecs_rows :: "(EventChannelKey \<times> u64 \<times> u64) list"

text \<open>The protobuf message of \<^verbatim>\<open>protos/event.proto\<close>; its codec is a parameter.\<close>

record EventMessage =
  em_uuid :: "byte list"
  em_sequence_number :: u64
  em_serializations :: "Serialization list"

datatype EventEffect =
    EventIncrement u64
  | EventSetRow u64 "u64 list" "NativeTableValue list"
  | EventCallback nat nat u16 FfiSlice
  | EventDatagram string "byte list"

record EventEnv =
  ee_encode :: "EventMessage \<Rightarrow> byte list"
  ee_decode :: "byte list \<Rightarrow> EventMessage option"
  ee_table_generation :: "EventEffect list \<Rightarrow> u64 \<Rightarrow> u64 option"
  ee_parse_addr :: "string \<Rightarrow> bool"
  ee_try_clone :: "EventEffect list \<Rightarrow> bool"
  ee_send_to :: "EventEffect list \<Rightarrow> byte list \<Rightarrow> bool"
  ee_make_socket :: "string \<Rightarrow> string \<Rightarrow> u32 \<Rightarrow> bool \<Rightarrow> bool"

text \<open>The two statics and the socket of the service, and the calls that leave it.\<close>

record EventService =
  es_registry :: EventServiceRegistry
  es_socket :: bool
  es_uuid :: uuid
  es_seq_num :: u64
  es_mcast_addr :: "string option"
  es_running :: bool
  es_transmitted :: u64
  es_received :: u64
  es_statistics :: EventChannelStatistics
  es_effects :: "EventEffect list"

definition event_emit :: "EventEffect list \<Rightarrow> EventService \<Rightarrow> EventService" where
  "event_emit es svc = svc\<lparr>es_effects := es_effects svc @ es\<rparr>"


section \<open>Registry\<close>

definition get_event_service_registry :: EventServiceRegistry where
  "get_event_service_registry = \<lparr>er_users = Map.empty, er_registrations = Map.empty\<rparr>"

definition emane_rs_event_service_register_user :: "u16 \<Rightarrow> u16 \<Rightarrow> nat \<Rightarrow> EventService \<Rightarrow> EventService" where
  "emane_rs_event_service_register_user build_id nem_id p_user svc =
     (let reg = es_registry svc
      in svc\<lparr>es_registry := reg\<lparr>er_users := (er_users reg)(build_id \<mapsto>
           \<lparr>eu_build_id = build_id, eu_nem_id = nem_id, eu_context = p_user, eu_callback = None\<rparr>)\<rparr>\<rparr>)"

definition register_native_event_user :: "u16 \<Rightarrow> u16 \<Rightarrow> nat \<Rightarrow> nat \<Rightarrow> EventService \<Rightarrow> EventService" where
  "register_native_event_user build_id nem_id context callback svc =
     (let reg = es_registry svc
      in svc\<lparr>es_registry := reg\<lparr>er_users := (er_users reg)(build_id \<mapsto>
           \<lparr>eu_build_id = build_id, eu_nem_id = nem_id, eu_context = context, eu_callback = Some callback\<rparr>)\<rparr>\<rparr>)"

definition unregister_user :: "u16 \<Rightarrow> EventService \<Rightarrow> EventService" where
  "unregister_user build_id svc =
     (let reg = es_registry svc
      in svc\<lparr>es_registry := \<lparr>er_users = (er_users reg)(build_id := None),
           er_registrations = map_option (filter (\<lambda>registered. registered \<noteq> build_id)) \<circ> er_registrations reg\<rparr>\<rparr>)"

definition registered_for :: "u16 \<Rightarrow> EventService \<Rightarrow> u16 list" where
  "registered_for event svc = unwrap_or (er_registrations (es_registry svc) event) []"

definition emane_rs_event_service_register_event :: "u16 \<Rightarrow> u16 \<Rightarrow> EventService \<Rightarrow> bool \<times> EventService" where
  "emane_rs_event_service_register_event build_id event svc =
     (let reg = es_registry svc
      in if er_users reg build_id \<noteq> None
         then (let build_ids = registered_for event svc;
                   build_ids = (if build_id \<notin> set build_ids then build_ids @ [build_id] else build_ids)
               in (True, svc\<lparr>es_registry := reg\<lparr>er_registrations := (er_registrations reg)(event \<mapsto> build_ids)\<rparr>\<rparr>))
         else (False, svc))"

text \<open>The callbacks of the registered users that a filter lets through, in the order of registration.\<close>

definition event_callbacks :: "(u16 \<Rightarrow> EventServiceUser \<Rightarrow> bool) \<Rightarrow> u16 \<Rightarrow> EventService \<Rightarrow> (nat \<times> nat) list" where
  "event_callbacks wanted event svc =
     List.map_filter (\<lambda>registered_build_id.
         Option.bind (er_users (es_registry svc) registered_build_id) (\<lambda>user.
           if wanted registered_build_id user then map_option (Pair (eu_context user)) (eu_callback user) else None))
       (registered_for event svc)"

definition missing_data :: "FfiSlice \<Rightarrow> bool" where
  "missing_data data \<longleftrightarrow> fs_len data \<noteq> 0 \<and> fs_data data = None"

definition emane_rs_event_service_route_local_event :: "u16 \<Rightarrow> u16 \<Rightarrow> u16 \<Rightarrow> FfiSlice \<Rightarrow> EventService \<Rightarrow> EventService" where
  "emane_rs_event_service_route_local_event build_id nem_id event data svc =
     (if missing_data data then svc
      else event_emit (map (\<lambda>(context, callback). EventCallback callback context event data)
             (event_callbacks (\<lambda>registered_build_id user.
                (build_id = 0 \<or> registered_build_id \<noteq> build_id) \<and> (nem_id = 0 \<or> eu_nem_id user = nem_id)) event svc)) svc)"

definition emane_rs_event_service_process_event_message ::
  "u16 \<Rightarrow> u16 \<Rightarrow> FfiSlice \<Rightarrow> u16 \<Rightarrow> EventService \<Rightarrow> EventService" where
  "emane_rs_event_service_process_event_message nem_id event data ignore_nem svc =
     (if missing_data data then svc
      else event_emit (map (\<lambda>(context, callback). EventCallback callback context event data)
             (event_callbacks (\<lambda>registered_build_id user.
                (ignore_nem = 0 \<or> ignore_nem \<noteq> eu_nem_id user) \<and> (nem_id = 0 \<or> eu_nem_id user = nem_id)) event svc)) svc)"

definition route_serialized_event :: "u16 \<Rightarrow> u16 \<Rightarrow> byte list \<Rightarrow> u16 \<Rightarrow> EventService \<Rightarrow> EventService" where
  "route_serialized_event nem_id event data ignore_nem svc =
     emane_rs_event_service_process_event_message nem_id event (slice_of data) ignore_nem svc"


section \<open>Statistics of the event channel\<close>

definition EventChannelStatistics_register ::
  "(string \<Rightarrow> u64 option) \<Rightarrow> (string \<Rightarrow> u64 option) \<Rightarrow> (u64 \<Rightarrow> u64 option) \<Rightarrow> EventChannelStatistics" where
  "EventChannelStatistics_register register_counter register_table table_generation =
     (let transmitted = unwrap_or (register_counter ''numEventChannelEventsTx'') 0;
          received = unwrap_or (register_counter ''numEventChannelEventsRx'') 0;
          table = unwrap_or (register_table ''EventChannelEventCountTable'') 0
      in \<lparr>ecs_transmitted = transmitted, ecs_received = received, ecs_table = table, ecs_row_limit = 0,
          ecs_generation = unwrap_or (table_generation table) 0, ecs_rows = []\<rparr>)"

text \<open>The rows are forgotten when the table was cleared; a new key is counted while there is room.\<close>

definition refresh_channel_rows :: "EventEnv \<Rightarrow> EventService \<Rightarrow> EventService" where
  "refresh_channel_rows env svc =
     (let st = es_statistics svc;
          generation = unwrap_or (ee_table_generation env (es_effects svc) (ecs_table st)) (ecs_generation st)
      in if generation \<noteq> ecs_generation st
         then svc\<lparr>es_statistics := st\<lparr>ecs_rows := [], ecs_generation := generation\<rparr>\<rparr> else svc)"

definition count_channel_row :: "EventChannelKey \<Rightarrow> bool \<Rightarrow> EventService \<Rightarrow> EventService" where
  "count_channel_row key receive svc =
     (let st = es_statistics svc
      in if map_of (ecs_rows st) key = None \<and> length (ecs_rows st) \<ge> ecs_row_limit st then svc
         else (let (tx, rx) = unwrap_or (map_of (ecs_rows st) key) (0, 0);
                   (tx, rx) = (if receive then (tx, saturating_add rx 1) else (saturating_add tx 1, rx));
                   svc = svc\<lparr>es_statistics := st\<lparr>ecs_rows := AList.update key (tx, rx) (ecs_rows st)\<rparr>\<rparr>
               in event_emit [EventSetRow (ecs_table st) (statistic_key (fst key) (snd key))
                    [TableU64 (ucast (snd key)), TableString (format_uuid (fst key)), TableU64 tx, TableU64 rx]] svc))"

definition channel_update :: "EventEnv \<Rightarrow> EventChannelKey \<Rightarrow> bool \<Rightarrow> EventService \<Rightarrow> EventService" where
  "channel_update env key receive svc =
     (let st = es_statistics svc;
          svc = event_emit [EventIncrement (if receive then ecs_received st else ecs_transmitted st)] svc
      in count_channel_row key receive (refresh_channel_rows env svc))"

definition get_event_service_state :: "EventChannelStatistics \<Rightarrow> EventService" where
  "get_event_service_state statistics =
     \<lparr>es_registry = get_event_service_registry, es_socket = False, es_uuid = replicate 16 0, es_seq_num = 0,
      es_mcast_addr = None, es_running = False, es_transmitted = 0, es_received = 0, es_statistics = statistics,
      es_effects = []\<rparr>"

definition configure_channel_statistics :: "u32 \<Rightarrow> EventService \<Rightarrow> EventService" where
  "configure_channel_statistics row_limit svc =
     svc\<lparr>es_statistics := (es_statistics svc)\<lparr>ecs_row_limit := unat row_limit\<rparr>\<rparr>"


section \<open>The event channel\<close>

text \<open>The string behind a C pointer ends before the first zero byte.\<close>

definition c_str :: "string \<Rightarrow> string" where
  "c_str mem = takeWhile (\<lambda>c. c \<noteq> CHR 0x00) mem"

definition device_name :: "string option \<Rightarrow> string" where
  "device_name device = (case device of None \<Rightarrow> [] | Some mem \<Rightarrow> c_str mem)"

text \<open>Parsing the address and creating, configuring and binding the socket is one parameter.\<close>

definition emane_rs_event_service_mcast_open ::
  "EventEnv \<Rightarrow> string option \<Rightarrow> string option \<Rightarrow> i32 \<Rightarrow> bool \<Rightarrow> uuid option \<Rightarrow> EventService \<Rightarrow> bool \<times> EventService" where
  "emane_rs_event_service_mcast_open env addr device ttl loopback uuid_ptr svc =
     (case (addr, uuid_ptr) of
        (Some addr, Some u) \<Rightarrow>
          if \<not> (0 \<le> sint ttl \<and> sint ttl \<le> 255) then (False, svc)
          else if es_running svc then (False, svc)
          else if \<not> ee_make_socket env (c_str addr) (device_name device) ttl loopback then (False, svc)
          else (True, svc\<lparr>es_socket := True, es_mcast_addr := Some (c_str addr), es_uuid := u, es_running := True\<rparr>)
      | _ \<Rightarrow> (False, svc))"

definition emane_rs_event_service_mcast_close :: "EventService \<Rightarrow> EventService" where
  "emane_rs_event_service_mcast_close svc = svc\<lparr>es_running := False, es_socket := False\<rparr>"

definition event_message :: "uuid \<Rightarrow> u16 \<Rightarrow> u16 \<Rightarrow> byte list \<Rightarrow> u64 \<Rightarrow> EventMessage" where
  "event_message u event nem_id data seq_num =
     \<lparr>em_uuid = u, em_sequence_number = seq_num,
      em_serializations = [\<lparr>sz_nem_id = ucast nem_id, sz_event_id = ucast event, sz_data = data\<rparr>]\<rparr>"

definition event_data :: "FfiSlice \<Rightarrow> byte list" where
  "event_data data = (if fs_len data = 0 then [] else take (fs_len data) (unwrap_or (fs_data data) []))"

definition emane_rs_event_service_send_event_multicast ::
  "EventEnv \<Rightarrow> uuid option \<Rightarrow> u16 \<Rightarrow> u16 \<Rightarrow> FfiSlice \<Rightarrow> u64 \<Rightarrow> string option \<Rightarrow> EventService \<Rightarrow> EventService" where
  "emane_rs_event_service_send_event_multicast env uuid_ptr event nem_id data seq_num addr svc =
     (case (uuid_ptr, addr) of
        (Some u, Some addr) \<Rightarrow>
          if missing_data data \<or> fs_len data > 0xFFFFFFFF then svc
          else
            (let buf = ee_encode env (event_message u event nem_id (event_data data) seq_num);
                 final_buf = be_bytes 2 (word_of_nat (length buf) :: u16) @ buf
             in if length buf \<le> 0xFFFF \<and> ee_parse_addr env (c_str addr) \<and> es_socket svc
                   \<and> ee_try_clone env (es_effects svc) \<and> ee_send_to env (es_effects svc) final_buf
                then (let svc = event_emit [EventDatagram (c_str addr) final_buf] svc;
                          svc = svc\<lparr>es_transmitted := saturating_add (es_transmitted svc) 1\<rparr>
                      in channel_update env (u, event) False svc)
                else svc)
      | _ \<Rightarrow> svc)"

text \<open>\<open>CString::new\<close> fails on a string with a zero byte and the result is unwrapped.\<close>

definition emane_rs_event_service_send_event ::
  "EventEnv \<Rightarrow> u16 \<Rightarrow> u16 \<Rightarrow> u16 \<Rightarrow> FfiSlice \<Rightarrow> EventService \<Rightarrow> EventService panics" where
  "emane_rs_event_service_send_event env build_id nem_id event data svc =
     (if missing_data data then Some svc
      else
        (let svc = emane_rs_event_service_route_local_event build_id nem_id event data svc
         in case es_mcast_addr svc of
              None \<Rightarrow> Some svc
            | Some addr \<Rightarrow>
                (let svc = svc\<lparr>es_seq_num := es_seq_num svc + 1\<rparr>
                 in if CHR 0x00 \<in> set addr then panic
                    else Some (emane_rs_event_service_send_event_multicast env (Some (es_uuid svc)) event nem_id data
                           (es_seq_num svc) (Some addr) svc))))"

text \<open>One event of a received message.\<close>

definition receive_event :: "EventEnv \<Rightarrow> uuid \<Rightarrow> Serialization \<Rightarrow> EventService \<Rightarrow> EventService" where
  "receive_event env source serialization svc =
     (case (u16_of_u32 (sz_nem_id serialization), u16_of_u32 (sz_event_id serialization)) of
        (Some recv_nem_id, Some recv_event_id) \<Rightarrow>
          (let svc = emane_rs_event_service_process_event_message recv_nem_id recv_event_id
                 (slice_of (sz_data serialization)) 0 svc;
               svc = svc\<lparr>es_received := saturating_add (es_received svc) 1\<rparr>
           in channel_update env (source, recv_event_id) True svc)
      | _ \<Rightarrow> svc)"

definition receive_event_datagram :: "EventEnv \<Rightarrow> uuid \<Rightarrow> byte list \<Rightarrow> EventService \<Rightarrow> EventService panics" where
  "receive_event_datagram env local_uuid buf svc = do {
     packet_len \<leftarrow> map_option unat (get_u16 buf 0);
     if length buf - 2 \<noteq> packet_len then Some svc
     else do {
       bytes \<leftarrow> slice buf 2 (length buf);
       (case ee_decode env bytes of
          None \<Rightarrow> Some svc
        | Some msg \<Rightarrow>
            if length (em_uuid msg) = 16 \<and> em_uuid msg \<noteq> local_uuid
            then Some (fold (receive_event env (em_uuid msg)) (em_serializations msg) svc)
            else Some svc) } }"

text \<open>One turn of the receive loop on what the socket returned; the first result tells whether the
  loop goes on.\<close>

datatype EventReceive = ReceivedDatagram "byte list" | ReceiveTimeout | ReceiveError

fun event_loop_step :: "EventEnv \<Rightarrow> uuid \<Rightarrow> EventReceive \<Rightarrow> EventService \<Rightarrow> (bool \<times> EventService) panics" where
  "event_loop_step env local_uuid (ReceivedDatagram buf) svc =
     (if length buf > 2
      then map_option (\<lambda>svc. (es_running svc, svc)) (receive_event_datagram env local_uuid buf svc)
      else Some (True, svc))"
| "event_loop_step env local_uuid ReceiveTimeout svc = Some (es_running svc, svc)"
| "event_loop_step env local_uuid ReceiveError svc = Some (False, svc)"

section \<open>Invariant\<close>

text \<open>Every call of the service as one action; the panic of a call is \<open>None\<close>.\<close>

datatype EventAction =
    RegisterUser u16 u16 nat
  | RegisterNativeUser u16 u16 nat nat
  | UnregisterUser u16
  | RegisterEvent u16 u16
  | RouteLocal u16 u16 u16 FfiSlice
  | ProcessMessage u16 u16 FfiSlice u16
  | ConfigureStatistics u32
  | McastOpen "string option" "string option" i32 bool "uuid option"
  | McastClose
  | SendEvent u16 u16 u16 FfiSlice
  | LoopTurn uuid EventReceive

fun event_act :: "EventEnv \<Rightarrow> EventAction \<Rightarrow> EventService \<Rightarrow> EventService panics" where
  "event_act env (RegisterUser b n u) svc = Some (emane_rs_event_service_register_user b n u svc)"
| "event_act env (RegisterNativeUser b n c cb) svc = Some (register_native_event_user b n c cb svc)"
| "event_act env (UnregisterUser b) svc = Some (unregister_user b svc)"
| "event_act env (RegisterEvent b e) svc = Some (snd (emane_rs_event_service_register_event b e svc))"
| "event_act env (RouteLocal b n e d) svc = Some (emane_rs_event_service_route_local_event b n e d svc)"
| "event_act env (ProcessMessage n e d i) svc = Some (emane_rs_event_service_process_event_message n e d i svc)"
| "event_act env (ConfigureStatistics l) svc = Some (configure_channel_statistics l svc)"
| "event_act env (McastOpen a d t l u) svc = Some (snd (emane_rs_event_service_mcast_open env a d t l u svc))"
| "event_act env McastClose svc = Some (emane_rs_event_service_mcast_close svc)"
| "event_act env (SendEvent b n e d) svc = emane_rs_event_service_send_event env b n e d svc"
| "event_act env (LoopTurn u r) svc = map_option snd (event_loop_step env u r svc)"

fun event_run :: "EventEnv \<Rightarrow> EventAction list \<Rightarrow> EventService \<Rightarrow> EventService panics" where
  "event_run env [] svc = Some svc"
| "event_run env (a # as) svc = Option.bind (event_act env a svc) (event_run env as)"

definition event_inv :: "EventService \<Rightarrow> bool" where
  "event_inv svc \<longleftrightarrow>
     (\<forall>event. distinct (registered_for event svc)
        \<and> (\<forall>b \<in> set (registered_for event svc). er_users (es_registry svc) b \<noteq> None))
     \<and> (\<forall>addr. es_mcast_addr svc = Some addr \<longrightarrow> CHR 0x00 \<notin> set addr)"

text \<open>What the invariant is about, which counting and calling back leave alone.\<close>

definition event_core :: "EventService \<Rightarrow> EventServiceRegistry \<times> bool \<times> uuid \<times> string option \<times> bool" where
  "event_core svc = (es_registry svc, es_socket svc, es_uuid svc, es_mcast_addr svc, es_running svc)"

lemma event_inv_core: "event_core svc' = event_core svc \<Longrightarrow> event_inv svc' = event_inv svc"
  by (simp add: event_core_def event_inv_def registered_for_def)

lemma event_core_emit [simp]: "event_core (event_emit es svc) = event_core svc"
  by (simp add: event_core_def event_emit_def)

lemma event_core_updates [simp]:
  "event_core (svc\<lparr>es_statistics := st\<rparr>) = event_core svc"
  "event_core (svc\<lparr>es_transmitted := n\<rparr>) = event_core svc"
  "event_core (svc\<lparr>es_received := n\<rparr>) = event_core svc"
  "event_core (svc\<lparr>es_seq_num := n\<rparr>) = event_core svc"
  by (simp_all add: event_core_def)

lemma event_core_refresh [simp]: "event_core (refresh_channel_rows env svc) = event_core svc"
  by (simp add: refresh_channel_rows_def Let_def)

lemma event_core_count [simp]: "event_core (count_channel_row key receive svc) = event_core svc"
  by (simp add: count_channel_row_def Let_def split: prod.split)

lemma event_core_channel_update [simp]: "event_core (channel_update env key receive svc) = event_core svc"
  by (simp add: channel_update_def Let_def)

lemma event_core_route_local [simp]:
  "event_core (emane_rs_event_service_route_local_event b n e d svc) = event_core svc"
  by (simp add: emane_rs_event_service_route_local_event_def)

lemma event_core_process_message [simp]:
  "event_core (emane_rs_event_service_process_event_message n e d i svc) = event_core svc"
  by (simp add: emane_rs_event_service_process_event_message_def)

lemma event_core_receive_event [simp]: "event_core (receive_event env u s svc) = event_core svc"
  by (simp add: receive_event_def Let_def split: option.split)

lemma event_core_receive_events [simp]: "event_core (fold (receive_event env u) ss svc) = event_core svc"
  by (induction ss arbitrary: svc) simp_all

lemma event_core_send_multicast [simp]:
  "event_core (emane_rs_event_service_send_event_multicast env u e n d q a svc) = event_core svc"
  by (simp add: emane_rs_event_service_send_event_multicast_def Let_def split: option.split)

lemma event_coreD:
  assumes "event_core svc' = event_core svc"
  shows "es_registry svc' = es_registry svc" "es_socket svc' = es_socket svc" "es_uuid svc' = es_uuid svc"
    "es_mcast_addr svc' = es_mcast_addr svc" "es_running svc' = es_running svc"
    "registered_for e svc' = registered_for e svc"
  using assms by (simp_all add: event_core_def registered_for_def)

lemma receive_event_datagram_total:
  assumes "length buf > 2"
  shows "\<exists>svc'. receive_event_datagram env u buf svc = Some svc' \<and> event_core svc' = event_core svc"
proof -
  obtain w where "get_u16 buf 0 = Some w" using assms get_u16_in_range [of 0 buf] by auto
  moreover have "slice buf 2 (length buf) = Some (drop 2 buf)" using assms by (simp add: slice_in_range)
  ultimately show ?thesis by (simp add: receive_event_datagram_def split: option.split)
qed

lemma event_loop_step_total: "\<exists>goes_on svc'. event_loop_step env u r svc = Some (goes_on, svc') \<and> event_core svc' = event_core svc"
proof (cases r)
  case (ReceivedDatagram buf)
  then show ?thesis using receive_event_datagram_total [of buf env u svc] by (cases "length buf > 2") auto
qed auto

lemma send_event_total:
  assumes "event_inv svc"
  shows "\<exists>svc'. emane_rs_event_service_send_event env b n e d svc = Some svc' \<and> event_core svc' = event_core svc"
proof (cases "es_mcast_addr svc")
  case None
  then have "es_mcast_addr (emane_rs_event_service_route_local_event b n e d svc) = None"
    using event_coreD(4) [OF event_core_route_local, of b n e d svc] by simp
  then show ?thesis by (simp add: emane_rs_event_service_send_event_def)
next
  case (Some addr)
  then have "es_mcast_addr (emane_rs_event_service_route_local_event b n e d svc) = Some addr" "CHR 0x00 \<notin> set addr"
    using event_coreD(4) [OF event_core_route_local, of b n e d svc] assms by (simp_all add: event_inv_def)
  then show ?thesis by (simp add: emane_rs_event_service_send_event_def Let_def)
qed

lemma event_inv_registry:
  assumes "event_inv svc" "es_mcast_addr svc' = es_mcast_addr svc"
    and "\<And>e. distinct (registered_for e svc')" "\<And>e b. b \<in> set (registered_for e svc') \<Longrightarrow> er_users (es_registry svc') b \<noteq> None"
  shows "event_inv svc'"
  using assms by (simp add: event_inv_def)

lemma event_inv_act:
  assumes inv: "event_inv svc"
  shows "\<exists>svc'. event_act env a svc = Some svc' \<and> event_inv svc'"
proof (cases a)
  case (RegisterUser b n u)
  have "event_inv (emane_rs_event_service_register_user b n u svc)"
    using inv by (rule event_inv_registry)
      (use inv in \<open>auto simp: emane_rs_event_service_register_user_def event_inv_def registered_for_def Let_def\<close>)
  then show ?thesis using RegisterUser by simp
next
  case (RegisterNativeUser b n c cb)
  have "event_inv (register_native_event_user b n c cb svc)"
    using inv by (rule event_inv_registry)
      (use inv in \<open>auto simp: register_native_event_user_def event_inv_def registered_for_def Let_def\<close>)
  then show ?thesis using RegisterNativeUser by simp
next
  case (UnregisterUser b)
  have reg: "registered_for e (unregister_user b svc) = filter (\<lambda>r. r \<noteq> b) (registered_for e svc)" for e
    by (cases "er_registrations (es_registry svc) e") (simp_all add: unregister_user_def registered_for_def Let_def unwrap_or_def)
  have "er_users (es_registry (unregister_user b svc)) = (er_users (es_registry svc))(b := None)"
      "es_mcast_addr (unregister_user b svc) = es_mcast_addr svc" by (simp_all add: unregister_user_def Let_def)
  then have "event_inv (unregister_user b svc)"
    using inv by (intro event_inv_registry [OF inv]) (auto simp: reg event_inv_def)
  then show ?thesis using UnregisterUser by simp
next
  case (RegisterEvent b e)
  show ?thesis
  proof (cases "er_users (es_registry svc) b")
    case None
    then show ?thesis using RegisterEvent inv by (simp add: emane_rs_event_service_register_event_def)
  next
    case (Some user)
    let ?svc = "snd (emane_rs_event_service_register_event b e svc)"
    have reg: "registered_for e' ?svc =
        (if e' = e \<and> b \<notin> set (registered_for e svc) then registered_for e svc @ [b] else registered_for e' svc)" for e'
      using Some by (simp add: emane_rs_event_service_register_event_def registered_for_def Let_def)
    have "er_users (es_registry ?svc) = er_users (es_registry svc)" "es_mcast_addr ?svc = es_mcast_addr svc"
      using Some by (simp_all add: emane_rs_event_service_register_event_def Let_def)
    then have "event_inv ?svc"
      using inv by (intro event_inv_registry [OF inv]) (auto simp: reg event_inv_def Some split: if_splits)
    then show ?thesis using RegisterEvent by simp
  qed
next
  case (McastOpen addr d t l u)
  have "CHR 0x00 \<notin> set (c_str m)" for m by (auto simp: c_str_def dest: set_takeWhileD)
  then have "event_inv (snd (emane_rs_event_service_mcast_open env addr d t l u svc))"
    using inv by (auto simp: emane_rs_event_service_mcast_open_def event_inv_def registered_for_def split: option.split)
  then show ?thesis using McastOpen by simp
next
  case McastClose
  then show ?thesis using inv by (simp add: emane_rs_event_service_mcast_close_def event_inv_def registered_for_def)
next
  case (SendEvent b n e d)
  obtain svc' where "emane_rs_event_service_send_event env b n e d svc = Some svc'" "event_core svc' = event_core svc"
    using send_event_total [OF inv] by blast
  then show ?thesis using SendEvent event_inv_core [of svc' svc] inv by simp
next
  case (LoopTurn u r)
  obtain goes_on svc' where "event_loop_step env u r svc = Some (goes_on, svc')" "event_core svc' = event_core svc"
    using event_loop_step_total by blast
  then show ?thesis using LoopTurn event_inv_core [of svc' svc] inv by simp
next
  case (RouteLocal b n e d)
  then show ?thesis using inv event_inv_core [OF event_core_route_local] by simp
next
  case (ProcessMessage n e d i)
  then show ?thesis using inv event_inv_core [OF event_core_process_message] by simp
next
  case (ConfigureStatistics l)
  then show ?thesis using inv event_inv_core [OF event_core_updates(1)] by (simp add: configure_channel_statistics_def)
qed

lemma event_run_inv:
  assumes "event_inv svc"
  shows "\<exists>svc'. event_run env as svc = Some svc' \<and> event_inv svc'"
  using assms
proof (induction as arbitrary: svc)
  case (Cons a as)
  then show ?case using event_inv_act [of svc env a] by fastforce
qed simp

lemma event_inv_init: "event_inv (get_event_service_state st)"
  by (simp add: event_inv_def get_event_service_state_def get_event_service_registry_def registered_for_def unwrap_or_def)


section \<open>Delivery\<close>

definition event_reachable :: "EventEnv \<Rightarrow> EventService \<Rightarrow> bool" where
  "event_reachable env svc \<longleftrightarrow> (\<exists>st as. event_run env as (get_event_service_state st) = Some svc)"

lemma event_reachable_inv: "event_reachable env svc \<Longrightarrow> event_inv svc"
  unfolding event_reachable_def using event_run_inv [OF event_inv_init] by (metis option.inject)

text \<open>The layers an event for \<open>nem_id\<close> is meant for: registered, with a callback, on that node (or any
  when it is 0) and not on the ignored one.\<close>

definition event_recipient :: "u16 \<Rightarrow> u16 \<Rightarrow> u16 \<Rightarrow> EventService \<Rightarrow> u16 \<Rightarrow> bool" where
  "event_recipient nem_id event ignore_nem svc b \<longleftrightarrow>
     b \<in> set (registered_for event svc)
     \<and> (\<exists>user. er_users (es_registry svc) b = Some user \<and> eu_callback user \<noteq> None
          \<and> (ignore_nem = 0 \<or> ignore_nem \<noteq> eu_nem_id user) \<and> (nem_id = 0 \<or> eu_nem_id user = nem_id))"

definition event_call :: "u16 \<Rightarrow> FfiSlice \<Rightarrow> EventService \<Rightarrow> u16 \<Rightarrow> EventEffect" where
  "event_call event data svc b =
     (let user = the (er_users (es_registry svc) b) in EventCallback (the (eu_callback user)) (eu_context user) event data)"

lemma map_filter_Some_conv:
  assumes "\<And>x. x \<in> set xs \<Longrightarrow> f x = (if P x then Some (g x) else None)"
  shows "List.map_filter f xs = map g (filter P xs)"
  using assms by (induction xs) (simp_all add: List.map_filter_simps)

lemma process_event_message_calls:
  assumes "\<not> missing_data data"
  shows "es_effects (emane_rs_event_service_process_event_message nem_id event data ignore_nem svc) =
    es_effects svc @ map (event_call event data svc) (filter (event_recipient nem_id event ignore_nem svc) (registered_for event svc))"
proof -
  let ?wanted = "\<lambda>b user. (ignore_nem = 0 \<or> ignore_nem \<noteq> eu_nem_id user) \<and> (nem_id = 0 \<or> eu_nem_id user = nem_id)"
  have "event_callbacks ?wanted event svc =
      map (\<lambda>b. (eu_context (the (er_users (es_registry svc) b)), the (eu_callback (the (er_users (es_registry svc) b)))))
        (filter (event_recipient nem_id event ignore_nem svc) (registered_for event svc))"
    unfolding event_callbacks_def
  proof (rule map_filter_Some_conv)
    fix b assume "b \<in> set (registered_for event svc)"
    then show "Option.bind (er_users (es_registry svc) b)
        (\<lambda>user. if ?wanted b user then map_option (Pair (eu_context user)) (eu_callback user) else None) =
      (if event_recipient nem_id event ignore_nem svc b
       then Some (eu_context (the (er_users (es_registry svc) b)), the (eu_callback (the (er_users (es_registry svc) b)))) else None)"
      by (cases "er_users (es_registry svc) b") (auto simp: event_recipient_def)
  qed
  with assms show ?thesis
    by (simp add: emane_rs_event_service_process_event_message_def event_emit_def event_call_def Let_def comp_def)
qed

text \<open>In every reachable state of the event service, an event message calls each layer it is meant
  for exactly once, in the order in which the layers registered for the event, and nobody else: the
  callbacks are those of a list without repetitions of exactly the recipients.\<close>

lemma event_calls_each_recipient_once:
  assumes "event_reachable env svc" "\<not> missing_data data"
  shows "\<exists>bs. distinct bs \<and> set bs = {b. event_recipient nem_id event ignore_nem svc b}
    \<and> subseq bs (registered_for event svc)
    \<and> es_effects (emane_rs_event_service_process_event_message nem_id event data ignore_nem svc) =
        es_effects svc @ map (event_call event data svc) bs"
proof -
  let ?bs = "filter (event_recipient nem_id event ignore_nem svc) (registered_for event svc)"
  have "distinct ?bs" using event_reachable_inv [OF assms(1)] by (simp add: event_inv_def)
  moreover have "set ?bs = {b. event_recipient nem_id event ignore_nem svc b}" by (auto simp: event_recipient_def)
  ultimately show ?thesis using process_event_message_calls [OF assms(2)] subseq_filter_left by blast
qed

text \<open>The callbacks among the effects of a service.\<close>

definition callbacks_made :: "EventService \<Rightarrow> EventEffect list" where
  "callbacks_made svc = filter (\<lambda>e. case e of EventCallback _ _ _ _ \<Rightarrow> True | _ \<Rightarrow> False) (es_effects svc)"

lemma callbacks_made_channel_update [simp]: "callbacks_made (channel_update env key receive svc) = callbacks_made svc"
  by (simp add: channel_update_def count_channel_row_def refresh_channel_rows_def event_emit_def callbacks_made_def Let_def
      split: prod.split)

lemma callbacks_made_received [simp]: "callbacks_made (svc\<lparr>es_received := n\<rparr>) = callbacks_made svc"
  by (simp add: callbacks_made_def)

lemma callbacks_made_process:
  assumes "\<not> missing_data data"
  shows "callbacks_made (emane_rs_event_service_process_event_message nem_id event data ignore_nem svc) =
    callbacks_made svc @ map (event_call event data svc) (filter (event_recipient nem_id event ignore_nem svc) (registered_for event svc))"
  unfolding callbacks_made_def process_event_message_calls [OF assms]
  by (simp add: event_call_def Let_def filter_map comp_def)

lemma last_datagram:
  assumes "event_inv svc" "es_mcast_addr svc = Some addr" "\<not> missing_data data" "fs_len data \<le> 0xFFFFFFFF"
    and "length (ee_encode env (event_message (es_uuid svc) event nem_id (event_data data) (es_seq_num svc + 1))) \<le> 0xFFFF"
    and "ee_parse_addr env addr" "es_socket svc" "\<And>es. ee_try_clone env es" "\<And>es bs. ee_send_to env es bs"
  shows "\<exists>svc'. emane_rs_event_service_send_event env build_id nem_id event data svc = Some svc'
    \<and> EventDatagram addr (be_bytes 2 (word_of_nat (length (ee_encode env
          (event_message (es_uuid svc) event nem_id (event_data data) (es_seq_num svc + 1)))) :: u16)
        @ ee_encode env (event_message (es_uuid svc) event nem_id (event_data data) (es_seq_num svc + 1)))
      \<in> set (es_effects svc')"
proof -
  let ?svc = "emane_rs_event_service_route_local_event build_id nem_id event data svc"
  have core: "es_mcast_addr ?svc = Some addr" "es_socket ?svc" "es_uuid ?svc = es_uuid svc" "es_seq_num ?svc = es_seq_num svc"
    using assms(2, 7) by (simp_all add: emane_rs_event_service_route_local_event_def event_emit_def)
  have nul: "CHR 0x00 \<notin> set addr" using assms(1, 2) by (simp add: event_inv_def)
  then have "c_str addr = addr" by (auto simp: c_str_def takeWhile_eq_all_conv)
  then show ?thesis using assms core nul
    by (auto simp: emane_rs_event_service_send_event_def emane_rs_event_service_send_event_multicast_def Let_def
        channel_update_def count_channel_row_def refresh_channel_rows_def event_emit_def split: prod.split)
qed

text \<open>No call of the event service panics, in any order: users and events registered and
  unregistered, events sent, routed and received with whatever the datagrams hold, the channel opened,
  closed and configured.\<close>

lemma event_service_never_panics:
  "\<exists>svc. event_run env as (get_event_service_state st) = Some svc"
  using event_run_inv [OF event_inv_init] by blast

text \<open>C26: An event sent on a running channel goes out as a datagram that, received by the service of
  another emulator, calls exactly the layers of that emulator registered for it, once each and with the
  bytes that were sent; the sender itself ignores the datagram when it hears it. The codec is any whose
  decoding inverts its encoding.\<close>

theorem event_reaches_remote_layers:
  assumes "event_reachable env a" "es_mcast_addr a = Some addr" "es_socket a" "length (es_uuid a) = 16"
    and "\<not> missing_data data" "fs_len data \<le> 0xFFFFFFFF"
    and m: "m = event_message (es_uuid a) event nem_id (event_data data) (es_seq_num a + 1)"
    and codec: "ee_decode env (ee_encode env m) = Some m" "ee_decode env' (ee_encode env m) = Some m"
    and size: "0 < length (ee_encode env m)" "length (ee_encode env m) \<le> 0xFFFF"
    and net: "ee_parse_addr env addr" "\<And>es. ee_try_clone env es" "\<And>es bs. ee_send_to env es bs"
    and other: "local_uuid \<noteq> es_uuid a"
  shows "\<exists>a' dg b'. emane_rs_event_service_send_event env build_id nem_id event data a = Some a'
    \<and> EventDatagram addr dg \<in> set (es_effects a')
    \<and> event_loop_step env' local_uuid (ReceivedDatagram dg) b = Some (es_running b, b')
    \<and> callbacks_made b' = callbacks_made b @ map (event_call event (slice_of (event_data data)) b)
        (filter (event_recipient nem_id event 0 b) (registered_for event b))
    \<and> event_loop_step env (es_uuid a) (ReceivedDatagram dg) a' = Some (es_running a', a')"
proof -
  let ?buf = "ee_encode env m"
  let ?dg = "be_bytes 2 (word_of_nat (length ?buf) :: u16) @ ?buf"
  obtain a' where a': "emane_rs_event_service_send_event env build_id nem_id event data a = Some a'"
      "EventDatagram addr ?dg \<in> set (es_effects a')"
    using last_datagram [OF event_reachable_inv [OF assms(1)] assms(2, 5, 6) size(2) [unfolded m] net(1) assms(3) net(2, 3)] m by blast
  have dg: "length ?dg > 2" "map_option unat (get_u16 ?dg 0) = Some (length ?buf)" "slice ?dg 2 (length ?dg) = Some ?buf"
    using size by (simp_all add: get_u16_def slice_in_range unat_u16_of_nat)
  have remote: "receive_event_datagram env' local_uuid ?dg b = Some (receive_event env' (es_uuid a)
      \<lparr>sz_nem_id = ucast nem_id, sz_event_id = ucast event, sz_data = event_data data\<rparr> b)"
    using dg codec(2) assms(4) other m by (simp add: receive_event_datagram_def event_message_def)
  have own: "receive_event_datagram env (es_uuid a) ?dg a' = Some a'"
    using dg codec(1) m by (simp add: receive_event_datagram_def event_message_def)
  have calls: "callbacks_made (receive_event env' (es_uuid a)
      \<lparr>sz_nem_id = ucast nem_id, sz_event_id = ucast event, sz_data = event_data data\<rparr> b) =
    callbacks_made b @ map (event_call event (slice_of (event_data data)) b)
        (filter (event_recipient nem_id event 0 b) (registered_for event b))"
    using callbacks_made_process [of "slice_of (event_data data)" nem_id event 0 b]
    by (simp add: receive_event_def u16_of_ucast Let_def missing_data_def slice_of_def)
  have running: "es_running (receive_event env' (es_uuid a) s b) = es_running b" for s
    using event_coreD(5) [OF event_core_receive_event] .
  have "event_loop_step env' local_uuid (ReceivedDatagram ?dg) b = Some (es_running b, receive_event env' (es_uuid a)
      \<lparr>sz_nem_id = ucast nem_id, sz_event_id = ucast event, sz_data = event_data data\<rparr> b)"
    using dg(1) remote running by simp
  moreover have "event_loop_step env (es_uuid a) (ReceivedDatagram ?dg) a' = Some (es_running a', a')"
    using dg(1) own by simp
  ultimately show ?thesis using a' calls by blast
qed

text \<open>The table of the channel keeps to its row limit.\<close>

lemma channel_rows_bounded:
  "length (ecs_rows (es_statistics (channel_update env key receive svc)))
     \<le> max (length (ecs_rows (es_statistics svc))) (ecs_row_limit (es_statistics svc))"
proof -
  have len: "length (AList.update k v rows) = (if map_of rows k = None then Suc (length rows) else length rows)"
    for k :: EventChannelKey and v :: "u64 \<times> u64" and rows
    by (induction rows) auto
  have count: "length (ecs_rows (es_statistics (count_channel_row key receive svc)))
      \<le> max (length (ecs_rows (es_statistics svc))) (ecs_row_limit (es_statistics svc))" for svc
    by (simp add: count_channel_row_def event_emit_def Let_def len split: prod.split)
  show ?thesis
    unfolding channel_update_def Let_def
    by (rule order_trans [OF count]) (simp add: refresh_channel_rows_def event_emit_def Let_def)
qed

text \<open>A datagram of at most two bytes lets the receive loop go on without looking at the running flag,
  also on a closed channel.\<close>

lemma short_datagram_keeps_loop:
  assumes "length buf \<le> 2"
  shows "event_loop_step env u (ReceivedDatagram buf) (emane_rs_event_service_mcast_close svc)
    = Some (True, emane_rs_event_service_mcast_close svc)"
  using assms by simp

text \<open>A codec for messages with one event, and services with one layer registered for event 100.\<close>

definition example_event_env :: EventEnv where
  "example_event_env =
     \<lparr>ee_encode = (\<lambda>m. em_uuid m @ be_bytes 8 (em_sequence_number m)
        @ concat (map (\<lambda>s. be_bytes 4 (sz_nem_id s) @ be_bytes 4 (sz_event_id s) @ sz_data s) (em_serializations m))),
      ee_decode = (\<lambda>bs. Some \<lparr>em_uuid = take 16 bs, em_sequence_number = of_be_bytes (take 8 (drop 16 bs)),
        em_serializations = [\<lparr>sz_nem_id = of_be_bytes (take 4 (drop 24 bs)), sz_event_id = of_be_bytes (take 4 (drop 28 bs)),
          sz_data = drop 32 bs\<rparr>]\<rparr>),
      ee_table_generation = (\<lambda>_ _. None), ee_parse_addr = (\<lambda>_. True), ee_try_clone = (\<lambda>_. True),
      ee_send_to = (\<lambda>_ _. True), ee_make_socket = (\<lambda>_ _ _ _. True)\<rparr>"

definition example_event_service :: "uuid \<Rightarrow> EventService" where
  "example_event_service u = the (event_run example_event_env
     [RegisterNativeUser 1 7 500 600, RegisterEvent 1 100, RegisterEvent 1 100, McastOpen (Some ''group'') None 1 True (Some u)]
     (get_event_service_state (EventChannelStatistics_register (\<lambda>_. None) (\<lambda>_. None) (\<lambda>_. None))))"

lemma example_event_service_reachable: "event_reachable example_event_env (example_event_service u)"
  unfolding event_reachable_def example_event_service_def
  using event_run_inv [OF event_inv_init] by (metis option.sel)

lemma example_event_service_fields:
  "es_mcast_addr (example_event_service u) = Some ''group''" "es_socket (example_event_service u)"
  "es_uuid (example_event_service u) = u" "es_seq_num (example_event_service u) = 0"
  "registered_for 100 (example_event_service u) = [1]"
  "er_users (es_registry (example_event_service u)) 1 =
     Some \<lparr>eu_build_id = 1, eu_nem_id = 7, eu_context = 500, eu_callback = Some 600\<rparr>"
  by (simp_all add: example_event_service_def example_event_env_def get_event_service_state_def get_event_service_registry_def
      register_native_event_user_def emane_rs_event_service_register_event_def registered_for_def
      emane_rs_event_service_mcast_open_def c_str_def Let_def)

theorem event_reaches_remote_layers_witness:
  "\<exists>a' dg b'. emane_rs_event_service_send_event example_event_env 0 7 100 (slice_of [1, 2])
        (example_event_service (replicate 16 1)) = Some a'
    \<and> EventDatagram ''group'' dg \<in> set (es_effects a')
    \<and> event_loop_step example_event_env (replicate 16 2) (ReceivedDatagram dg) (example_event_service (replicate 16 2))
        = Some (es_running (example_event_service (replicate 16 2)), b')
    \<and> callbacks_made b' = callbacks_made (example_event_service (replicate 16 2)) @ [EventCallback 600 500 100 (slice_of [1, 2])]"
proof -
  let ?a = "example_event_service (replicate 16 1)" and ?b = "example_event_service (replicate 16 2)"
  let ?m = "event_message (replicate 16 1) 100 7 [1, 2] 1"
  have data: "\<not> missing_data (slice_of [1, 2])" "fs_len (slice_of [1, 2]) \<le> 0xFFFFFFFF" "event_data (slice_of [1, 2]) = [1, 2]"
    by (simp_all add: missing_data_def slice_of_def event_data_def)
  have codec: "ee_decode example_event_env (ee_encode example_event_env ?m) = Some ?m"
      "length (ee_encode example_event_env ?m) = 34"
    by (simp_all add: example_event_env_def event_message_def)
  have rec: "filter (event_recipient 7 100 0 ?b) (registered_for 100 ?b) = [1]"
    by (simp add: event_recipient_def example_event_service_fields)
  have call: "event_call 100 (slice_of [1, 2]) ?b 1 = EventCallback 600 500 100 (slice_of [1, 2])"
    by (simp add: event_call_def example_event_service_fields)
  have "\<exists>a' dg b'. emane_rs_event_service_send_event example_event_env 0 7 100 (slice_of [1, 2]) ?a = Some a'
    \<and> EventDatagram ''group'' dg \<in> set (es_effects a')
    \<and> event_loop_step example_event_env (replicate 16 2) (ReceivedDatagram dg) ?b = Some (es_running ?b, b')
    \<and> callbacks_made b' = callbacks_made ?b @ map (event_call 100 (slice_of (event_data (slice_of [1, 2]))) ?b)
        (filter (event_recipient 7 100 0 ?b) (registered_for 100 ?b))
    \<and> event_loop_step example_event_env (es_uuid ?a) (ReceivedDatagram dg) a' = Some (es_running a', a')"
    by (rule event_reaches_remote_layers [OF example_event_service_reachable, where m = ?m])
      (use data codec in \<open>simp_all add: example_event_service_fields, simp_all add: example_event_env_def\<close>)
  then show ?thesis unfolding rec data list.map call by blast
qed

end
