(* ===== verification/Nem_Queued_Layer.thy ===== *)
theory Nem_Queued_Layer
  imports Plugin_Types Ieee_F64
begin

text \<open>
  The work queue of a layer, \<^verbatim>\<open>emane-core/src/nem_queued_layer.rs\<close>: tasks from other threads are put
  into a queue and an event descriptor wakes the worker, which takes the whole queue and runs it. The
  record \<open>NemQueuedLayer\<close> holds the fields of the struct, the position of the worker in its loop and the
  position of a call of \<open>stop\<close>; \<open>layer_act\<close> is one atomic step (a critical section, a write to the event
  descriptor) of one of the threads, and \<open>layer_steps\<close> their interleavings. Statistics handles and what the
  statistics service answers are parameters; \<open>epoll\<close> and the descriptors are events of the environment.
\<close>

section \<open>Tasks and statistics\<close>

datatype QueueTaskKind =
    DownstreamPacketTask
  | UpstreamPacketTask
  | DownstreamControlTask
  | UpstreamControlTask
  | ConfigurationTask
  | FileDescriptorTask
  | EventTask u16
  | TimedEventTask u64 u64 u64

text \<open>The operation of a task is a closure; the model names it. Times are microseconds.\<close>

record QueuedTask =
  qt_operation :: nat
  qt_enqueued :: nat
  qt_kind :: QueueTaskKind

record LayerStatistics =
  ls_queued :: u64
  ls_processed_downstream_packet :: u64
  ls_processed_upstream_packet :: u64
  ls_processed_downstream_control :: u64
  ls_processed_upstream_control :: u64
  ls_processed_event :: u64
  ls_processed_configuration :: u64
  ls_processed_timed_event :: u64
  ls_average_wait :: u64
  ls_average_depth :: u64
  ls_average_timer_latency :: u64
  ls_average_timer_latency_ratio :: u64
  ls_event_table :: u64

definition LayerStatistics_register ::
  "(string \<Rightarrow> u64 option) \<Rightarrow> (string \<Rightarrow> u64 option) \<Rightarrow> (string \<Rightarrow> u64 option) \<Rightarrow> LayerStatistics" where
  "LayerStatistics_register register_counter register_average register_table =
     (let counter = (\<lambda>name. unwrap_or (register_counter name) 0);
          average = (\<lambda>name. unwrap_or (register_average name) 0)
      in \<lparr>ls_queued = counter ''numAPIQueued'',
          ls_processed_downstream_packet = counter ''processedDownstreamPackets'',
          ls_processed_upstream_packet = counter ''processedUpstreamPackets'',
          ls_processed_downstream_control = counter ''processedDownstreamControl'',
          ls_processed_upstream_control = counter ''processedUpstreamControl'',
          ls_processed_event = counter ''processedEvents'',
          ls_processed_configuration = counter ''processedConfiguration'',
          ls_processed_timed_event = counter ''processedTimedEvents'',
          ls_average_wait = average ''avgProcessAPIQueueWait'',
          ls_average_depth = average ''avgProcessAPIQueueDepth'',
          ls_average_timer_latency = average ''avgTimedEventLatency'',
          ls_average_timer_latency_ratio = average ''avgTimedEventLatencyRatio'',
          ls_event_table = unwrap_or (register_table ''EventReceptionTable'') 0\<rparr>)"

record EventCounts =
  ec_generation :: u64
  ec_counts :: "u16 \<rightharpoonup> u64"

text \<open>What a layer does to the outside, in order: statistics, the operations of its tasks and the
  callbacks of its file descriptors.\<close>

datatype LayerEffect =
    LayerIncrement u64
  | LayerSample u64 f64
  | LayerSetRow u64 "u64 list" "NativeTableValue list"
  | RunTask nat
  | RunFdCallback int nat


section \<open>State\<close>

definition LIFECYCLE_CREATED :: u8 where "LIFECYCLE_CREATED = 0"
definition LIFECYCLE_RUNNING :: u8 where "LIFECYCLE_RUNNING = 1"
definition LIFECYCLE_STOPPED :: u8 where "LIFECYCLE_STOPPED = 2"

lemmas lifecycle_defs = LIFECYCLE_CREATED_def LIFECYCLE_RUNNING_def LIFECYCLE_STOPPED_def

text \<open>
  Where the worker thread is: waiting in \<open>epoll_wait\<close>, woken with the event descriptor read, with
  the queue taken but the cancel flag not yet read, running the tasks it took, or ended. A call of
  \<open>stop\<close> is before its write to the event descriptor or waiting for the worker.
\<close>

datatype Worker = NoWorker | WorkerWaiting | WorkerWoken | WorkerTook "QueuedTask list" | WorkerRunning "QueuedTask list" | WorkerEnded

datatype StopPhase = NoStop | StopWrite | StopJoin

text \<open>
  Beside the fields of the code: the worker, the writes to the event descriptor that calls of
  \<open>enqueue\<close> still have to make (with the statistics they record before), the call of \<open>stop\<close> in
  progress (it holds the thread lock), and the history: the tasks accepted, what became of them
  (\<open>True\<close> when the task ran, \<open>False\<close> when it was thrown away) and the effects.
\<close>

record NemQueuedLayer =
  nl_queue :: "QueuedTask list"
  nl_cancel :: bool
  nl_lifecycle :: u8
  nl_event_fd :: nat
  nl_callbacks :: "int \<rightharpoonup> (bool \<times> nat)"
  nl_statistics :: LayerStatistics
  nl_event_counts :: EventCounts
  nl_worker :: Worker
  nl_writes :: "(QueueTaskKind \<times> nat) list"
  nl_stop :: StopPhase
  nl_accepted :: "QueuedTask list"
  nl_fates :: "(QueuedTask \<times> bool) list"
  nl_effects :: "LayerEffect list"

definition new_inner :: "LayerStatistics \<Rightarrow> NemQueuedLayer" where
  "new_inner statistics =
     \<lparr>nl_queue = [], nl_cancel = False, nl_lifecycle = LIFECYCLE_CREATED, nl_event_fd = 0, nl_callbacks = Map.empty,
      nl_statistics = statistics, nl_event_counts = \<lparr>ec_generation = 0, ec_counts = Map.empty\<rparr>,
      nl_worker = NoWorker, nl_writes = [], nl_stop = NoStop, nl_accepted = [], nl_fates = [], nl_effects = []\<rparr>"

definition is_running :: "NemQueuedLayer \<Rightarrow> bool" where
  "is_running layer \<longleftrightarrow> nl_lifecycle layer = LIFECYCLE_RUNNING"

definition accepts_direct_calls :: "NemQueuedLayer \<Rightarrow> bool" where
  "accepts_direct_calls layer \<longleftrightarrow> nl_lifecycle layer = LIFECYCLE_CREATED"

definition layer_emit :: "LayerEffect list \<Rightarrow> NemQueuedLayer \<Rightarrow> NemQueuedLayer" where
  "layer_emit es layer = layer\<lparr>nl_effects := nl_effects layer @ es\<rparr>"


section \<open>Operations\<close>

text \<open>The critical section of \<open>enqueue\<close>; a task that is not accepted is given back.\<close>

definition enqueue :: "QueueTaskKind \<Rightarrow> nat \<Rightarrow> nat \<Rightarrow> NemQueuedLayer \<Rightarrow> bool \<times> NemQueuedLayer" where
  "enqueue kind operation now layer =
     (if nl_lifecycle layer \<noteq> LIFECYCLE_RUNNING then (False, layer)
      else (let task = \<lparr>qt_operation = operation, qt_enqueued = now, qt_kind = kind\<rparr>;
                queue = nl_queue layer @ [task]
            in (True, layer\<lparr>nl_queue := queue, nl_writes := nl_writes layer @ [(kind, length queue)],
                            nl_accepted := nl_accepted layer @ [task]\<rparr>)))"

text \<open>How the manager hands a call, an event or a timer to a layer (\<open>Invocation\<close> of \<^verbatim>\<open>nem_manager.rs\<close>): it is run
  by the caller when the layer has no queue or its queue was not started yet, accepted while the queue runs,
  and dropped when the queue is stopped. The first component is what the caller runs.\<close>

definition call_kind :: "bool \<Rightarrow> bool \<Rightarrow> QueueTaskKind" where
  "call_kind downstream has_packet =
     (if has_packet then (if downstream then DownstreamPacketTask else UpstreamPacketTask)
      else (if downstream then DownstreamControlTask else UpstreamControlTask))"

definition layer_submit :: "QueueTaskKind \<Rightarrow> nat \<Rightarrow> nat \<Rightarrow> NemQueuedLayer option \<Rightarrow> nat list \<times> NemQueuedLayer option" where
  "layer_submit kind operation now queue =
     (case queue of
        None \<Rightarrow> ([operation], None)
      | Some layer \<Rightarrow>
          (case enqueue kind operation now layer of
             (True, layer) \<Rightarrow> ([], Some layer)
           | (False, layer) \<Rightarrow> (if accepts_direct_calls layer then [operation] else [], Some layer)))"

lemma layer_submit_lifecycle:
  shows "nl_lifecycle layer = LIFECYCLE_RUNNING \<Longrightarrow> \<exists>layer'. layer_submit kind operation now (Some layer) = ([], Some layer') \<and>
        nl_queue layer' = nl_queue layer @ [\<lparr>qt_operation = operation, qt_enqueued = now, qt_kind = kind\<rparr>]"
    and "nl_lifecycle layer = LIFECYCLE_CREATED \<Longrightarrow> layer_submit kind operation now (Some layer) = ([operation], Some layer)"
    and "nl_lifecycle layer = LIFECYCLE_STOPPED \<Longrightarrow> layer_submit kind operation now (Some layer) = ([], Some layer)"
  by (simp_all add: layer_submit_def enqueue_def accepts_direct_calls_def Let_def lifecycle_defs)

text \<open>The rest of \<open>enqueue\<close>: statistics and the write to the event descriptor.\<close>

definition enqueue_write :: "QueueTaskKind \<times> nat \<Rightarrow> NemQueuedLayer \<Rightarrow> NemQueuedLayer" where
  "enqueue_write w layer =
     (let (kind, depth) = w;
          layer = (if kind \<noteq> FileDescriptorTask
                   then layer_emit [LayerIncrement (ls_queued (nl_statistics layer)),
                          LayerSample (ls_average_depth (nl_statistics layer)) (f64_of_int (int depth))] layer
                   else layer)
      in layer\<lparr>nl_writes := remove1 w (nl_writes layer), nl_event_fd := nl_event_fd layer + 1\<rparr>)"

text \<open>The event counts of a layer; \<open>table_generation\<close> is what the statistics service returns.\<close>

definition count_event :: "(LayerEffect list \<Rightarrow> u64 \<Rightarrow> u64 option) \<Rightarrow> u16 \<Rightarrow> NemQueuedLayer \<Rightarrow> NemQueuedLayer" where
  "count_event table_generation event_id layer =
     (let table = ls_event_table (nl_statistics layer)
      in if table = 0 then layer
         else (let generation = unwrap_or (table_generation (nl_effects layer) table) 0;
                   events = nl_event_counts layer;
                   events = (if ec_generation events \<noteq> generation
                             then \<lparr>ec_generation = generation, ec_counts = Map.empty\<rparr> else events);
                   count = saturating_add (unwrap_or (ec_counts events event_id) 0) 1;
                   layer = layer\<lparr>nl_event_counts := events\<lparr>ec_counts := (ec_counts events)(event_id \<mapsto> count)\<rparr>\<rparr>
               in layer_emit [LayerSetRow table [ucast event_id] [TableU64 (ucast event_id), TableU64 count]] layer))"

definition count_timed_event :: "u64 \<Rightarrow> u64 \<Rightarrow> u64 \<Rightarrow> u64 \<Rightarrow> NemQueuedLayer \<Rightarrow> NemQueuedLayer" where
  "count_timed_event now expire_microseconds schedule_microseconds fire_microseconds layer =
     (let st = nl_statistics layer;
          latency = f64_of_int (uint (saturating_sub now expire_microseconds));
          requested = saturating_sub expire_microseconds schedule_microseconds;
          ratio = (if requested = 0 then f64_of_int 1
                   else f64_div (f64_of_int (uint (saturating_sub fire_microseconds expire_microseconds)))
                          (f64_of_int (uint requested)))
      in layer_emit [LayerSample (ls_average_timer_latency st) latency,
           LayerSample (ls_average_timer_latency_ratio st) ratio] layer)"

text \<open>One task of the loop of the worker; \<open>now\<close> is the monotonic and \<open>system\<close> the system time. The operation of
  the task is taken to return: a panic inside it would end the worker and lose the rest of the batch, and
  is outside the model. \<open>nl_fates\<close> is history, written where the code calls the operation.\<close>

definition process_task ::
  "(LayerEffect list \<Rightarrow> u64 \<Rightarrow> u64 option) \<Rightarrow> nat \<Rightarrow> u64 \<Rightarrow> QueuedTask \<Rightarrow> NemQueuedLayer \<Rightarrow> NemQueuedLayer" where
  "process_task table_generation now system task layer =
     (let st = nl_statistics layer;
          layer = (if qt_kind task \<noteq> FileDescriptorTask
                   then layer_emit [LayerSample (ls_average_wait st) (f64_of_int (int (now - qt_enqueued task)))] layer
                   else layer);
          layer = (case qt_kind task of
              DownstreamPacketTask \<Rightarrow> layer_emit [LayerIncrement (ls_processed_downstream_packet st)] layer
            | UpstreamPacketTask \<Rightarrow> layer_emit [LayerIncrement (ls_processed_upstream_packet st)] layer
            | DownstreamControlTask \<Rightarrow> layer_emit [LayerIncrement (ls_processed_downstream_control st)] layer
            | UpstreamControlTask \<Rightarrow> layer_emit [LayerIncrement (ls_processed_upstream_control st)] layer
            | ConfigurationTask \<Rightarrow> layer_emit [LayerIncrement (ls_processed_configuration st)] layer
            | FileDescriptorTask \<Rightarrow> layer
            | EventTask event_id \<Rightarrow>
                count_event table_generation event_id (layer_emit [LayerIncrement (ls_processed_event st)] layer)
            | TimedEventTask expire schedule fire \<Rightarrow>
                count_timed_event system expire schedule fire (layer_emit [LayerIncrement (ls_processed_timed_event st)] layer))
      in layer_emit [RunTask (qt_operation task)] (layer\<lparr>nl_fates := nl_fates layer @ [(task, True)]\<rparr>))"

definition layer_start :: "NemQueuedLayer \<Rightarrow> NemQueuedLayer" where
  "layer_start layer =
     (if nl_worker layer \<noteq> NoWorker then layer
      else layer\<lparr>nl_cancel := False, nl_lifecycle := LIFECYCLE_RUNNING, nl_worker := WorkerWaiting\<rparr>)"

text \<open>\<open>stop\<close> in its three parts: the critical section, the write, and the rest after the worker ended.\<close>

definition stop_begin :: "NemQueuedLayer \<Rightarrow> NemQueuedLayer" where
  "stop_begin layer = layer\<lparr>nl_cancel := True, nl_lifecycle := LIFECYCLE_STOPPED, nl_stop := StopWrite\<rparr>"

definition stop_write :: "NemQueuedLayer \<Rightarrow> NemQueuedLayer" where
  "stop_write layer = layer\<lparr>nl_event_fd := nl_event_fd layer + 1, nl_stop := StopJoin\<rparr>"

definition stop_end :: "NemQueuedLayer \<Rightarrow> NemQueuedLayer" where
  "stop_end layer = layer\<lparr>nl_worker := NoWorker, nl_cancel := False, nl_stop := NoStop\<rparr>"

definition add_fd :: "int \<Rightarrow> bool \<Rightarrow> nat \<Rightarrow> NemQueuedLayer \<Rightarrow> NemQueuedLayer" where
  "add_fd fd is_read cb layer = layer\<lparr>nl_callbacks := (nl_callbacks layer)(fd \<mapsto> (is_read, cb))\<rparr>"

definition remove_fd :: "int \<Rightarrow> NemQueuedLayer \<Rightarrow> NemQueuedLayer" where
  "remove_fd fd layer = layer\<lparr>nl_callbacks := (nl_callbacks layer)(fd := None)\<rparr>"

definition fd_ready :: "int \<Rightarrow> NemQueuedLayer \<Rightarrow> NemQueuedLayer" where
  "fd_ready fd layer =
     (case nl_callbacks layer fd of
        None \<Rightarrow> layer
      | Some (_, f) \<Rightarrow> layer_emit [RunFdCallback fd f] layer)"

text \<open>The steps of the worker between its critical sections.\<close>

fun worker_step :: "(LayerEffect list \<Rightarrow> u64 \<Rightarrow> u64 option) \<Rightarrow> nat \<Rightarrow> u64 \<Rightarrow> NemQueuedLayer \<Rightarrow> NemQueuedLayer option" where
  "worker_step table_generation now system layer =
     (case nl_worker layer of
        WorkerWaiting \<Rightarrow>
          if nl_event_fd layer > 0 then Some (layer\<lparr>nl_event_fd := 0, nl_worker := WorkerWoken\<rparr>) else None
      | WorkerWoken \<Rightarrow> Some (layer\<lparr>nl_worker := WorkerTook (nl_queue layer), nl_queue := []\<rparr>)
      | WorkerTook current_queue \<Rightarrow>
          if nl_cancel layer
          then Some (layer\<lparr>nl_worker := WorkerEnded, nl_fates := nl_fates layer @ map (\<lambda>t. (t, False)) current_queue\<rparr>)
          else Some (layer\<lparr>nl_worker := WorkerRunning current_queue\<rparr>)
      | WorkerRunning [] \<Rightarrow> Some (layer\<lparr>nl_worker := WorkerWaiting\<rparr>)
      | WorkerRunning (task # tasks) \<Rightarrow>
          Some (process_task table_generation now system task (layer\<lparr>nl_worker := WorkerRunning tasks\<rparr>))
      | _ \<Rightarrow> None)"

declare worker_step.simps [simp del]

text \<open>The actions of all threads on a layer; an action that is not possible is \<open>None\<close>. \<open>start\<close> and
  \<open>stop\<close> take the thread lock, which a call of \<open>stop\<close> holds until it returns.\<close>

datatype LayerAction =
    Enqueue QueueTaskKind nat nat
  | EnqueueWrite QueueTaskKind nat
  | WorkerAct nat u64
  | FdReady int
  | WaitFailed
  | AddFd int bool nat
  | RemoveFd int
  | StartLayer
  | StopBegin
  | StopWriteFd
  | StopEnd

fun layer_act :: "(LayerEffect list \<Rightarrow> u64 \<Rightarrow> u64 option) \<Rightarrow> LayerAction \<Rightarrow> NemQueuedLayer \<Rightarrow> NemQueuedLayer option" where
  "layer_act g (Enqueue kind operation now) layer = Some (snd (enqueue kind operation now layer))"
| "layer_act g (EnqueueWrite kind depth) layer =
     (if (kind, depth) \<in> set (nl_writes layer) then Some (enqueue_write (kind, depth) layer) else None)"
| "layer_act g (WorkerAct now system) layer = worker_step g now system layer"
| "layer_act g (FdReady fd) layer = (if nl_worker layer = WorkerWaiting then Some (fd_ready fd layer) else None)"
| "layer_act g WaitFailed layer =
     (if nl_worker layer = WorkerWaiting then Some (layer\<lparr>nl_worker := WorkerEnded\<rparr>) else None)"
| "layer_act g (AddFd fd is_read cb) layer = Some (add_fd fd is_read cb layer)"
| "layer_act g (RemoveFd fd) layer = Some (remove_fd fd layer)"
| "layer_act g StartLayer layer = (if nl_stop layer = NoStop then Some (layer_start layer) else None)"
| "layer_act g StopBegin layer = (if nl_stop layer = NoStop then Some (stop_begin layer) else None)"
| "layer_act g StopWriteFd layer = (if nl_stop layer = StopWrite then Some (stop_write layer) else None)"
| "layer_act g StopEnd layer =
     (if nl_stop layer = StopJoin \<and> nl_worker layer \<in> {NoWorker, WorkerEnded} then Some (stop_end layer) else None)"

inductive layer_steps :: "(LayerEffect list \<Rightarrow> u64 \<Rightarrow> u64 option) \<Rightarrow> LayerAction list \<Rightarrow> NemQueuedLayer \<Rightarrow> NemQueuedLayer \<Rightarrow> bool"
  for g where
  none: "layer_steps g [] s s"
| step: "layer_steps g as s s' \<Longrightarrow> layer_act g a s' = Some s'' \<Longrightarrow> layer_steps g (as @ [a]) s s''"

definition layer_reachable :: "(LayerEffect list \<Rightarrow> u64 \<Rightarrow> u64 option) \<Rightarrow> NemQueuedLayer \<Rightarrow> bool" where
  "layer_reachable g s \<longleftrightarrow> (\<exists>st as. layer_steps g as (new_inner st) s)"


section \<open>Invariant\<close>

fun taken :: "Worker \<Rightarrow> QueuedTask list" where
  "taken (WorkerTook b) = b"
| "taken (WorkerRunning b) = b"
| "taken _ = []"

text \<open>The part of a layer that the invariant is about; statistics do not change it.\<close>

definition layer_core :: "NemQueuedLayer \<Rightarrow> QueuedTask list \<times> bool \<times> u8 \<times> nat \<times> Worker \<times> (QueueTaskKind \<times> nat) list \<times> StopPhase
    \<times> QueuedTask list \<times> (QueuedTask \<times> bool) list" where
  "layer_core s = (nl_queue s, nl_cancel s, nl_lifecycle s, nl_event_fd s, nl_worker s, nl_writes s, nl_stop s, nl_accepted s, nl_fates s)"

definition layer_inv :: "NemQueuedLayer \<Rightarrow> bool" where
  "layer_inv s \<longleftrightarrow>
     nl_accepted s = map fst (nl_fates s) @ taken (nl_worker s) @ nl_queue s
     \<and> (nl_queue s \<noteq> [] \<longrightarrow> nl_event_fd s > 0 \<or> nl_writes s \<noteq> [] \<or> nl_worker s = WorkerWoken)
     \<and> (nl_cancel s \<longleftrightarrow> nl_stop s \<noteq> NoStop)
     \<and> (nl_stop s = StopJoin \<longrightarrow> nl_event_fd s > 0 \<or> nl_worker s \<notin> {WorkerWaiting} \<union> range WorkerRunning)
     \<and> (nl_stop s \<noteq> NoStop \<longrightarrow> nl_lifecycle s = LIFECYCLE_STOPPED)
     \<and> (nl_lifecycle s \<noteq> LIFECYCLE_RUNNING \<and> nl_stop s = NoStop \<longrightarrow> nl_worker s = NoWorker)"

lemma layer_inv_core: "layer_core s' = layer_core s \<Longrightarrow> layer_inv s' = layer_inv s"
  by (simp add: layer_core_def layer_inv_def)

lemma layer_core_emit [simp]: "layer_core (layer_emit es s) = layer_core s"
  by (simp add: layer_core_def layer_emit_def)

lemma layer_core_count_event [simp]: "layer_core (count_event g e s) = layer_core s"
  by (simp add: count_event_def Let_def layer_core_def layer_emit_def)

lemma layer_core_count_timed_event [simp]: "layer_core (count_timed_event n a b c s) = layer_core s"
  by (simp add: count_timed_event_def Let_def)

lemma layer_core_fates: "layer_core s' = layer_core s \<Longrightarrow> layer_core (s'\<lparr>nl_fates := nl_fates s' @ xs\<rparr>) = layer_core (s\<lparr>nl_fates := nl_fates s @ xs\<rparr>)"
  by (simp add: layer_core_def)

lemma layer_core_process_task:
  "layer_core (process_task g now system t s) = layer_core (s\<lparr>nl_fates := nl_fates s @ [(t, True)]\<rparr>)"
  unfolding process_task_def Let_def layer_core_emit
  by (rule layer_core_fates) (cases "qt_kind t", simp_all)

lemma layer_core_enqueue_write:
  "layer_core (enqueue_write (k, d) s) = layer_core (s\<lparr>nl_writes := remove1 (k, d) (nl_writes s), nl_event_fd := nl_event_fd s + 1\<rparr>)"
  by (simp add: enqueue_write_def layer_core_def layer_emit_def)

lemma layer_inv_worker:
  assumes inv: "layer_inv s" and w: "worker_step g now system s = Some s'"
  shows "layer_inv s'"
proof (cases "nl_worker s")
  case (WorkerRunning b)
  show ?thesis
  proof (cases b)
    case Nil
    then show ?thesis using inv w WorkerRunning by (auto simp: worker_step.simps layer_inv_def)
  next
    case (Cons t ts)
    then have s': "s' = process_task g now system t (s\<lparr>nl_worker := WorkerRunning ts\<rparr>)"
      using w WorkerRunning by (simp add: worker_step.simps)
    have "layer_inv (s\<lparr>nl_worker := WorkerRunning ts, nl_fates := nl_fates s @ [(t, True)]\<rparr>)"
      using inv WorkerRunning Cons by (auto simp: layer_inv_def)
    then show ?thesis unfolding s' using layer_inv_core [OF layer_core_process_task, of g now system t "s\<lparr>nl_worker := WorkerRunning ts\<rparr>"] by simp
  qed
qed (use inv w in \<open>auto simp: worker_step.simps layer_inv_def comp_def lifecycle_defs split: if_splits\<close>)

lemma layer_inv_enqueue:
  assumes inv: "layer_inv s"
  shows "layer_inv (snd (enqueue k op t s))"
proof (cases "nl_lifecycle s = LIFECYCLE_RUNNING")
  case True
  then have "nl_stop s = NoStop" using inv by (auto simp: layer_inv_def lifecycle_defs)
  with True inv show ?thesis by (simp add: enqueue_def layer_inv_def Let_def)
next
  case False
  then show ?thesis using inv by (simp add: enqueue_def)
qed

lemma layer_inv_act:
  assumes inv: "layer_inv s" and a: "layer_act g a s = Some s'"
  shows "layer_inv s'"
proof (cases a)
  case (Enqueue k o' t)
  then show ?thesis using layer_inv_enqueue [OF inv] a by auto
next
  case (EnqueueWrite k d)
  then have s': "s' = enqueue_write (k, d) s" using a by (auto split: if_splits)
  have "layer_inv (s\<lparr>nl_writes := remove1 (k, d) (nl_writes s), nl_event_fd := nl_event_fd s + 1\<rparr>)"
    using inv by (auto simp: layer_inv_def)
  then show ?thesis unfolding s' using layer_inv_core [OF layer_core_enqueue_write] by blast
next
  case (WorkerAct now system)
  then show ?thesis using layer_inv_worker [OF inv] a by auto
next
  case (FdReady fd)
  then have s': "s' = fd_ready fd s" using a by (auto split: if_splits)
  have "layer_core (fd_ready fd s) = layer_core s" by (simp add: fd_ready_def split: option.split)
  then show ?thesis using layer_inv_core inv s' by blast
next
  case WaitFailed
  then have "nl_worker s = WorkerWaiting" "s' = s\<lparr>nl_worker := WorkerEnded\<rparr>" using a by (simp_all split: if_splits)
  with inv show ?thesis by (auto simp: layer_inv_def)
next
  case (AddFd fd r cb)
  then have "s' = add_fd fd r cb s" using a by simp
  with inv show ?thesis by (simp add: layer_inv_def add_fd_def)
next
  case (RemoveFd fd)
  then have "s' = remove_fd fd s" using a by simp
  with inv show ?thesis by (simp add: layer_inv_def remove_fd_def)
next
  case StartLayer
  then have "nl_stop s = NoStop" "s' = layer_start s" using a by (simp_all split: if_splits)
  with inv show ?thesis by (auto simp: layer_inv_def layer_start_def)
next
  case StopBegin
  then have "s' = stop_begin s" using a by (simp split: if_splits)
  with inv show ?thesis by (simp add: layer_inv_def stop_begin_def)
next
  case StopWriteFd
  then have "nl_stop s = StopWrite" "s' = stop_write s" using a by (simp_all split: if_splits)
  with inv show ?thesis by (simp add: layer_inv_def stop_write_def)
next
  case StopEnd
  then have "nl_worker s = NoWorker \<or> nl_worker s = WorkerEnded" "s' = stop_end s" using a by (simp_all split: if_splits)
  with inv show ?thesis by (auto simp: layer_inv_def stop_end_def)
qed

lemma layer_steps_inv: "layer_steps g as s s' \<Longrightarrow> layer_inv s \<Longrightarrow> layer_inv s'"
  by (induction rule: layer_steps.induct) (auto intro: layer_inv_act)

lemma layer_reachable_inv: "layer_reachable g s \<Longrightarrow> layer_inv s"
  unfolding layer_reachable_def by (auto elim!: layer_steps_inv) (simp add: new_inner_def layer_inv_def)

section \<open>Progress of a stop\<close>

text \<open>How far the worker is from its end once the cancel flag is set.\<close>

fun worker_distance :: "Worker \<Rightarrow> nat" where
  "worker_distance (WorkerRunning b) = length b + 4"
| "worker_distance WorkerWaiting = 3"
| "worker_distance WorkerWoken = 2"
| "worker_distance (WorkerTook b) = 1"
| "worker_distance _ = 0"

fun is_worker_act :: "LayerAction \<Rightarrow> bool" where
  "is_worker_act (WorkerAct _ _) = True"
| "is_worker_act _ = False"

lemma process_task_core_fields:
  "nl_worker (process_task g now system t s) = nl_worker s"
  "nl_stop (process_task g now system t s) = nl_stop s"
  using layer_core_process_task [of g now system t s] by (simp_all add: layer_core_def)

lemma enqueue_write_core_fields:
  "nl_worker (enqueue_write (k, d) s) = nl_worker s"
  "nl_stop (enqueue_write (k, d) s) = nl_stop s"
  using layer_core_enqueue_write [of k d s] by (simp_all add: layer_core_def)

lemma worker_step_stopping:
  assumes "worker_step g now system s = Some s'" "nl_cancel s"
  shows "nl_stop s' = nl_stop s \<and> worker_distance (nl_worker s') < worker_distance (nl_worker s)"
proof (cases "nl_worker s")
  case (WorkerRunning b)
  then show ?thesis using assms by (cases b) (auto simp: worker_step.simps process_task_core_fields)
qed (use assms in \<open>auto simp: worker_step.simps split: if_splits\<close>)

lemma worker_not_stuck_in_stop:
  assumes "layer_inv s" "nl_stop s = StopJoin" "nl_worker s \<notin> {NoWorker, WorkerEnded}"
  shows "\<exists>s'. worker_step g now system s = Some s'"
proof (cases "nl_worker s")
  case (WorkerRunning b)
  then show ?thesis by (cases b) (auto simp: worker_step.simps)
qed (use assms in \<open>auto simp: worker_step.simps layer_inv_def\<close>)

lemma layer_act_in_stop:
  assumes "layer_inv s" "nl_stop s = StopJoin" "layer_act g a s = Some s'" "a \<noteq> StopEnd"
  shows "nl_stop s' = StopJoin
    \<and> worker_distance (nl_worker s') + (if is_worker_act a then 1 else 0) \<le> worker_distance (nl_worker s)"
proof (cases a)
  case (WorkerAct now system)
  have "nl_cancel s" using assms(1, 2) by (simp add: layer_inv_def)
  then show ?thesis using worker_step_stopping [of g now system s s'] assms WorkerAct by auto
next
  case (Enqueue k op t)
  then show ?thesis using assms by (auto simp: enqueue_def Let_def)
next
  case (EnqueueWrite k d)
  then have "s' = enqueue_write (k, d) s" using assms by (auto split: if_splits)
  then show ?thesis using assms EnqueueWrite by (simp add: enqueue_write_core_fields)
next
  case (FdReady fd)
  then have "s' = fd_ready fd s" using assms by (auto split: if_splits)
  then show ?thesis using assms FdReady by (auto simp: fd_ready_def layer_emit_def split: option.split)
qed (use assms in \<open>auto simp: add_fd_def remove_fd_def split: if_splits\<close>)

lemma layer_steps_in_stop:
  assumes "layer_steps g as s s'" "layer_inv s" "nl_stop s = StopJoin" "StopEnd \<notin> set as"
  shows "nl_stop s' = StopJoin
    \<and> worker_distance (nl_worker s') + length (filter is_worker_act as) \<le> worker_distance (nl_worker s)"
  using assms
proof (induction rule: layer_steps.induct)
  case (step as s s' a s'')
  have inv: "layer_inv s'" using layer_steps_inv [OF step.hyps(1) step.prems(1)] .
  have IH: "nl_stop s' = StopJoin
      \<and> worker_distance (nl_worker s') + length (filter is_worker_act as) \<le> worker_distance (nl_worker s)"
    using step by simp
  show ?case using layer_act_in_stop [OF inv _ step.hyps(2)] IH step.prems by (cases "is_worker_act a") auto
qed simp

lemma layer_steps_append:
  assumes "layer_steps g bs s' s''" "layer_steps g as s s'"
  shows "layer_steps g (as @ bs) s s''"
  using assms
  by (induction arbitrary: s rule: layer_steps.induct) (auto simp flip: append_assoc intro: layer_steps.step)

lemma layer_reachable_steps: "layer_reachable g s \<Longrightarrow> layer_steps g as s s' \<Longrightarrow> layer_reachable g s'"
  unfolding layer_reachable_def using layer_steps_append by blast


section \<open>Properties\<close>

text \<open>C24: Whatever the threads of a layer do in whatever order, the tasks it accepted are, in the order
  of acceptance, those that have met their fate (run by the worker, or thrown away by a stop), those the
  worker has taken and not yet run, and those in the queue: no accepted task is lost, run twice or
  overtaken by a later one.\<close>

theorem layer_fifo_once:
  assumes "layer_reachable g s"
  shows "nl_accepted s = map fst (nl_fates s) @ taken (nl_worker s) @ nl_queue s"
  using layer_reachable_inv [OF assms] by (simp add: layer_inv_def)

text \<open>C25: A \<open>stop\<close> that waits for the worker returns: from there on the worker can always take its next
  step until it has ended, it takes no more steps than the tasks it had already taken plus four, and
  nothing the other threads do in between (tasks offered, descriptors registered or ready) adds to that.\<close>

theorem layer_stop_terminates:
  assumes "layer_reachable g s" "nl_stop s = StopJoin" "layer_steps g as s s'" "StopEnd \<notin> set as"
  shows "length (filter is_worker_act as) \<le> length (taken (nl_worker s)) + 4
    \<and> (nl_worker s' \<notin> {NoWorker, WorkerEnded} \<longrightarrow> (\<exists>s''. layer_act g (WorkerAct now system) s' = Some s''))
    \<and> (nl_worker s' \<in> {NoWorker, WorkerEnded} \<longrightarrow> (\<exists>s''. layer_act g StopEnd s' = Some s'' \<and> nl_worker s'' = NoWorker))"
proof -
  have inv: "layer_inv s" using assms(1) by (rule layer_reachable_inv)
  have inv': "layer_inv s'" using layer_steps_inv [OF assms(3) inv] .
  have *: "nl_stop s' = StopJoin"
      "worker_distance (nl_worker s') + length (filter is_worker_act as) \<le> worker_distance (nl_worker s)"
    using layer_steps_in_stop [OF assms(3) inv assms(2) assms(4)] by simp_all
  have "worker_distance (nl_worker s) \<le> length (taken (nl_worker s)) + 4" by (cases "nl_worker s") simp_all
  with * show ?thesis using worker_not_stuck_in_stop [OF inv' *(1)] by (auto simp: stop_end_def)
qed

fun layer_run :: "(LayerEffect list \<Rightarrow> u64 \<Rightarrow> u64 option) \<Rightarrow> LayerAction list \<Rightarrow> NemQueuedLayer \<Rightarrow> NemQueuedLayer option" where
  "layer_run g [] s = Some s"
| "layer_run g (a # as) s = (case layer_act g a s of None \<Rightarrow> None | Some s' \<Rightarrow> layer_run g as s')"

lemma layer_run_steps:
  assumes "layer_run g as s = Some s'"
  shows "layer_steps g as s s'"
  using assms
proof (induction as arbitrary: s)
  case Nil
  then show ?case by (simp add: layer_steps.none)
next
  case (Cons a as)
  then obtain s1 where s1: "layer_act g a s = Some s1" "layer_run g as s1 = Some s'" by (auto split: option.splits)
  have "layer_steps g [a] s s1" using layer_steps.step [OF layer_steps.none s1(1)] by simp
  then show ?case using layer_steps_append [OF Cons.IH [OF s1(2)]] by fastforce
qed

lemma layer_run_reachable: "layer_run g as (new_inner st) = Some s \<Longrightarrow> layer_reachable g s"
  unfolding layer_reachable_def using layer_run_steps by blast

lemma layer_act_stopped:
  assumes "nl_worker s = NoWorker" "nl_lifecycle s = LIFECYCLE_STOPPED" "layer_act g a s = Some s'" "a \<noteq> StartLayer"
  shows "nl_worker s' = NoWorker \<and> nl_lifecycle s' = LIFECYCLE_STOPPED \<and> nl_fates s' = nl_fates s \<and> nl_accepted s' = nl_accepted s"
proof (cases a)
  case (EnqueueWrite k d)
  then have "s' = enqueue_write (k, d) s" using assms by (auto split: if_splits)
  then show ?thesis using assms layer_core_enqueue_write [of k d s] by (simp add: layer_core_def)
qed (use assms in \<open>auto simp: enqueue_def lifecycle_defs worker_step.simps add_fd_def remove_fd_def stop_begin_def
      stop_write_def stop_end_def split: if_splits\<close>)

lemma layer_steps_stopped:
  assumes "layer_steps g as s s'" "nl_worker s = NoWorker" "nl_lifecycle s = LIFECYCLE_STOPPED" "StartLayer \<notin> set as"
  shows "nl_worker s' = NoWorker \<and> nl_lifecycle s' = LIFECYCLE_STOPPED \<and> nl_fates s' = nl_fates s \<and> nl_accepted s' = nl_accepted s"
  using assms
proof (induction rule: layer_steps.induct)
  case (step as s s' a s'')
  then show ?case using layer_act_stopped [of s' g a s''] by auto
qed simp

text \<open>Once a stop has returned, the layer stays silent until it is started again: whatever the other
  threads do, there is no worker, no task is accepted and none is run or thrown away.\<close>

lemma stopped_layer_is_silent:
  assumes "layer_reachable g s" "nl_lifecycle s = LIFECYCLE_STOPPED" "nl_stop s = NoStop"
    and "layer_steps g as s s'" "StartLayer \<notin> set as"
  shows "nl_worker s' = NoWorker \<and> nl_fates s' = nl_fates s \<and> nl_accepted s' = nl_accepted s"
proof -
  have worker: "nl_worker s = NoWorker"
    using layer_reachable_inv [OF assms(1)] assms(2, 3) by (simp add: layer_inv_def lifecycle_defs)
  show ?thesis using layer_steps_stopped [OF assms(4) worker assms(2, 5)] by simp
qed

text \<open>A layer that ran one task and was stopped, and one in the middle of a stop, as examples.\<close>

definition example_statistics :: LayerStatistics where
  "example_statistics = LayerStatistics_register (\<lambda>_. None) (\<lambda>_. None) (\<lambda>_. None)"

definition example_stopping :: "LayerAction list" where
  "example_stopping =
     [StartLayer, Enqueue ConfigurationTask 1 10, EnqueueWrite ConfigurationTask 1, WorkerAct 11 11, WorkerAct 11 11,
      WorkerAct 11 11, StopBegin, StopWriteFd]"

lemmas layer_example_simps = example_statistics_def example_stopping_def LayerStatistics_register_def new_inner_def
  lifecycle_defs layer_start_def enqueue_def enqueue_write_def layer_emit_def process_task_def worker_step.simps
  stop_begin_def stop_write_def stop_end_def Let_def

lemma example_stopping_run:
  "\<exists>s. layer_run (\<lambda>_ _. None) example_stopping (new_inner example_statistics) = Some s \<and> nl_stop s = StopJoin
     \<and> nl_worker s = WorkerRunning [\<lparr>qt_operation = 1, qt_enqueued = 10, qt_kind = ConfigurationTask\<rparr>]
     \<and> nl_accepted s = [\<lparr>qt_operation = 1, qt_enqueued = 10, qt_kind = ConfigurationTask\<rparr>]
     \<and> nl_fates s = [] \<and> nl_queue s = []"
  by (simp add: layer_example_simps)

theorem layer_fifo_once_witness:
  "\<exists>s. layer_reachable (\<lambda>_ _. None) s \<and> length (taken (nl_worker s)) = 1
     \<and> nl_accepted s = map fst (nl_fates s) @ taken (nl_worker s) @ nl_queue s"
proof -
  obtain s where s: "layer_run (\<lambda>_ _. None) example_stopping (new_inner example_statistics) = Some s"
      "nl_worker s = WorkerRunning [\<lparr>qt_operation = 1, qt_enqueued = 10, qt_kind = ConfigurationTask\<rparr>]"
    using example_stopping_run by blast
  show ?thesis using layer_fifo_once [OF layer_run_reachable [OF s(1)]] layer_run_reachable [OF s(1)] s(2)
    by (intro exI [of _ s]) simp
qed

theorem layer_stop_terminates_witness:
  "\<exists>s. layer_reachable (\<lambda>_ _. None) s \<and> nl_stop s = StopJoin
     \<and> (\<exists>s''. layer_act (\<lambda>_ _. None) (WorkerAct 20 20) s = Some s'')"
proof -
  obtain s where s: "layer_run (\<lambda>_ _. None) example_stopping (new_inner example_statistics) = Some s" "nl_stop s = StopJoin"
      "nl_worker s = WorkerRunning [\<lparr>qt_operation = 1, qt_enqueued = 10, qt_kind = ConfigurationTask\<rparr>]"
    using example_stopping_run by blast
  have "\<exists>s''. layer_act (\<lambda>_ _. None) (WorkerAct 20 20) s = Some s''"
    using layer_stop_terminates [OF layer_run_reachable [OF s(1)] s(2) layer_steps.none, where now = 20 and system = 20] s(3)
    by simp
  then show ?thesis using layer_run_reachable [OF s(1)] s(2) by blast
qed

text \<open>The worker runs the tasks it took, one per step.\<close>

lemma run_taken:
  "nl_worker s = WorkerRunning ts \<Longrightarrow>
   \<exists>s'. layer_run g (replicate (length ts) (WorkerAct now system)) s = Some s'
     \<and> nl_worker s' = WorkerRunning [] \<and> nl_fates s' = nl_fates s @ map (\<lambda>t. (t, True)) ts"
proof (induction ts arbitrary: s)
  case (Cons t ts)
  let ?s = "process_task g now system t (s\<lparr>nl_worker := WorkerRunning ts\<rparr>)"
  have s: "nl_worker ?s = WorkerRunning ts" "nl_fates ?s = nl_fates s @ [(t, True)]"
    using layer_core_process_task [of g now system t "s\<lparr>nl_worker := WorkerRunning ts\<rparr>"] by (simp_all add: layer_core_def)
  have "layer_act g (WorkerAct now system) s = Some ?s" using Cons.prems by (simp add: worker_step.simps)
  then show ?case using Cons.IH [OF s(1)] s(2) by simp
qed simp

lemma layer_run_append:
  "layer_run g as s = Some s1 \<Longrightarrow> layer_run g (as @ bs) s = layer_run g bs s1"
  by (induction as arbitrary: s) (auto split: option.splits)

text \<open>A stop that falls between the two critical sections of the worker, after one more task was accepted; and
  the next start, with the worker running until its batch is done.\<close>

lemma run_stop_between:
  assumes "nl_worker s = WorkerTook batch" "nl_lifecycle s = LIFECYCLE_RUNNING" "nl_stop s = NoStop"
  shows "\<exists>s1. layer_run g [Enqueue kind operation now, StopBegin, WorkerAct t u, StopWriteFd, StopEnd] s = Some s1
    \<and> nl_queue s1 = nl_queue s @ [\<lparr>qt_operation = operation, qt_enqueued = now, qt_kind = kind\<rparr>]
    \<and> nl_fates s1 = nl_fates s @ map (\<lambda>t. (t, False)) batch \<and> nl_worker s1 = NoWorker \<and> nl_stop s1 = NoStop
    \<and> nl_lifecycle s1 = LIFECYCLE_STOPPED \<and> 0 < nl_event_fd s1"
  using assms by (simp add: enqueue_def Let_def stop_begin_def stop_write_def stop_end_def worker_step.simps)

lemma run_restart:
  assumes "nl_worker s = NoWorker" "nl_stop s = NoStop" "0 < nl_event_fd s"
  shows "\<exists>s'. layer_run g (StartLayer # replicate (3 + length (nl_queue s)) (WorkerAct now system)) s = Some s'
    \<and> nl_fates s' = nl_fates s @ map (\<lambda>t. (t, True)) (nl_queue s)"
proof -
  have "\<exists>s1. layer_run g [StartLayer, WorkerAct now system, WorkerAct now system, WorkerAct now system] s = Some s1
      \<and> nl_worker s1 = WorkerRunning (nl_queue s) \<and> nl_fates s1 = nl_fates s"
    using assms by (simp add: layer_start_def worker_step.simps)
  then obtain s1 where s1: "layer_run g (StartLayer # replicate 3 (WorkerAct now system)) s = Some s1"
      "nl_worker s1 = WorkerRunning (nl_queue s)" "nl_fates s1 = nl_fates s"
    by (auto simp: numeral_3_eq_3)
  have "layer_run g (StartLayer # replicate (3 + length (nl_queue s)) (WorkerAct now system)) s =
      layer_run g (replicate (length (nl_queue s)) (WorkerAct now system)) s1"
    using layer_run_append [OF s1(1)] by (simp only: replicate_add append_Cons)
  then show ?thesis using run_taken [OF s1(2), of g now system] s1(3) by metis
qed

text \<open>C38: The worker takes the queue before it reads the cancel flag, and \<open>stop\<close> does not empty the queue. From
  every reachable state of a running layer in which the worker holds a batch it took, there is a run in which
  one more task is accepted and the layer stopped, so that the whole batch is thrown away while the
  queue, with the new task, is still there when \<open>stop\<close> has returned; after the next start the worker
  runs it all, although the tasks accepted before it never ran.\<close>

theorem stale_task_survives_stop:
  assumes "layer_reachable g s" "nl_worker s = WorkerTook batch" "nl_lifecycle s = LIFECYCLE_RUNNING"
  shows "\<exists>s1 s2. layer_run g [Enqueue kind operation now, StopBegin, WorkerAct t u, StopWriteFd, StopEnd] s = Some s1
     \<and> nl_lifecycle s1 = LIFECYCLE_STOPPED \<and> nl_stop s1 = NoStop
     \<and> nl_queue s1 = nl_queue s @ [\<lparr>qt_operation = operation, qt_enqueued = now, qt_kind = kind\<rparr>]
     \<and> layer_run g (StartLayer # replicate (3 + length (nl_queue s1)) (WorkerAct t' u')) s1 = Some s2
     \<and> nl_fates s2 = nl_fates s @ map (\<lambda>x. (x, False)) batch @ map (\<lambda>x. (x, True)) (nl_queue s1)"
proof -
  have "nl_stop s = NoStop" using layer_reachable_inv [OF assms(1)] assms(3) by (auto simp: layer_inv_def lifecycle_defs)
  from run_stop_between [OF assms(2,3) this, of g kind operation now t u] obtain s1 where
    s1: "layer_run g [Enqueue kind operation now, StopBegin, WorkerAct t u, StopWriteFd, StopEnd] s = Some s1"
      "nl_queue s1 = nl_queue s @ [\<lparr>qt_operation = operation, qt_enqueued = now, qt_kind = kind\<rparr>]"
      "nl_fates s1 = nl_fates s @ map (\<lambda>t. (t, False)) batch" "nl_worker s1 = NoWorker" "nl_stop s1 = NoStop"
      "nl_lifecycle s1 = LIFECYCLE_STOPPED" "0 < nl_event_fd s1"
    by blast
  from run_restart [OF s1(4,5,7), of g t' u'] obtain s2 where
    "layer_run g (StartLayer # replicate (3 + length (nl_queue s1)) (WorkerAct t' u')) s1 = Some s2"
      "nl_fates s2 = nl_fates s1 @ map (\<lambda>t. (t, True)) (nl_queue s1)"
    by blast
  with s1 show ?thesis by (intro exI [of _ s1] exI [of _ s2]) simp
qed

text \<open>A layer whose worker took one task.\<close>

lemma example_taken_run:
  "\<exists>s. layer_run (\<lambda>_ _. None) [StartLayer, Enqueue ConfigurationTask 1 10, EnqueueWrite ConfigurationTask 1, WorkerAct 11 11,
       WorkerAct 11 11] (new_inner example_statistics) = Some s
     \<and> nl_worker s = WorkerTook [\<lparr>qt_operation = 1, qt_enqueued = 10, qt_kind = ConfigurationTask\<rparr>]
     \<and> nl_lifecycle s = LIFECYCLE_RUNNING \<and> nl_fates s = [] \<and> nl_queue s = []"
  by (simp add: layer_example_simps)

theorem stale_task_survives_stop_witness:
  "\<exists>s s2. layer_reachable (\<lambda>_ _. None) s
     \<and> layer_run (\<lambda>_ _. None) ([Enqueue DownstreamPacketTask 2 12, StopBegin, WorkerAct 13 13, StopWriteFd, StopEnd, StartLayer]
         @ replicate 4 (WorkerAct 14 14)) s = Some s2
     \<and> map (\<lambda>(task, ran). (qt_operation task, ran)) (nl_fates s2) = [(1, False), (2, True)]"
proof -
  obtain s where s: "layer_reachable (\<lambda>_ _. None) s"
      "nl_worker s = WorkerTook [\<lparr>qt_operation = 1, qt_enqueued = 10, qt_kind = ConfigurationTask\<rparr>]"
      "nl_lifecycle s = LIFECYCLE_RUNNING" "nl_fates s = []" "nl_queue s = []"
    using example_taken_run layer_run_reachable by blast
  from stale_task_survives_stop [OF s(1-3), of DownstreamPacketTask 2 12 13 13 14 14] obtain s1 s2 where
    r: "layer_run (\<lambda>_ _. None) [Enqueue DownstreamPacketTask 2 12, StopBegin, WorkerAct 13 13, StopWriteFd, StopEnd] s = Some s1"
      "nl_queue s1 = [\<lparr>qt_operation = 2, qt_enqueued = 12, qt_kind = DownstreamPacketTask\<rparr>]"
      "layer_run (\<lambda>_ _. None) (StartLayer # replicate (3 + length (nl_queue s1)) (WorkerAct 14 14)) s1 = Some s2"
      "nl_fates s2 = map (\<lambda>x. (x, False)) [\<lparr>qt_operation = 1, qt_enqueued = 10, qt_kind = ConfigurationTask\<rparr>] @ map (\<lambda>x. (x, True)) (nl_queue s1)"
    unfolding s(4,5) append_Nil by blast
  have "layer_run (\<lambda>_ _. None) ([Enqueue DownstreamPacketTask 2 12, StopBegin, WorkerAct 13 13, StopWriteFd, StopEnd, StartLayer]
         @ replicate 4 (WorkerAct 14 14)) s = Some s2"
    using layer_run_append [OF r(1), of "StartLayer # replicate 4 (WorkerAct 14 14)"] r(2,3) by simp
  moreover have "map (\<lambda>(task, ran). (qt_operation task, ran)) (nl_fates s2) = [(1, False), (2, True)]" using r(2,4) by simp
  ultimately show ?thesis using s(1) by (intro exI [of _ s] exI [of _ s2] conjI)
qed

end
