(* ===== verification/Noise_Recorder.thy ===== *)
theory Noise_Recorder
  imports Ieee_F64
begin

text \<open>
  The recorder of received energy, \<^verbatim>\<open>emane-core/src/noise_recorder.rs\<close>: time is cut into bins, and a
  wheel of as many slots as can be in use at once holds the energy of each bin and sub-band. Holds the
  model of the wheel and of the recorder, and the wheel's operations as modular arithmetic on its cells.
  Times are microseconds as integers; plain arithmetic that overflows its type panics, and the
  saturating operations of the code are written out. The sums of bins are not checked: a bin is the
  quotient of a time, and from the start bin of an update on they are not negative.
\<close>

section \<open>Arithmetic\<close>

text \<open>Plain \<open>i64\<close>, \<open>u64\<close> and \<open>usize\<close> arithmetic panics on overflow (\<open>i64_plain\<close> checks a sum that is taken over the integers); \<open>as usize\<close> of an \<open>i64\<close> keeps the low 64 bits;
  \<open>/\<close> and \<open>%\<close> of \<open>i64\<close> round towards zero.\<close>

definition u64_add :: "u64 \<Rightarrow> u64 \<Rightarrow> u64 panics" where
  "u64_add a b = (if unat a + unat b < 2 ^ 64 then Some (a + b) else panic)"

definition u64_sub :: "u64 \<Rightarrow> u64 \<Rightarrow> u64 panics" where
  "u64_sub a b = (if b \<le> a then Some (a - b) else panic)"

definition u64_mul :: "u64 \<Rightarrow> u64 \<Rightarrow> u64 panics" where
  "u64_mul a b = (if unat a * unat b < 2 ^ 64 then Some (a * b) else panic)"

definition usize_sub :: "nat \<Rightarrow> nat \<Rightarrow> nat panics" where
  "usize_sub a b = (if b \<le> a then Some (a - b) else panic)"

definition as_usize :: "int \<Rightarrow> nat" where
  "as_usize x = nat (x mod 2 ^ 64)"

definition i64_sat :: "int \<Rightarrow> int" where
  "i64_sat x = max i64_min (min i64_max x)"

definition i64_plain :: "int \<Rightarrow> int panics" where
  "i64_plain x = (if i64_min \<le> x \<and> x \<le> i64_max then Some x else panic)"

definition i64_quot :: "int \<Rightarrow> int \<Rightarrow> int" where
  "i64_quot a b = (if a < 0 then - ((- a) div b) else a div b)"

definition i64_rem :: "int \<Rightarrow> int \<Rightarrow> int" where
  "i64_rem a b = a - i64_quot a b * b"

text \<open>\<open>x.ceil() as usize\<close>, saturating, and \<open>==\<close> on \<open>f64\<close>.\<close>

definition f64_ceil_usize :: "f64 \<Rightarrow> nat" where
  "f64_ceil_usize x =
     (if f64_is_nan x \<or> f64_sign x then 0
      else if f64_is_inf x then usize_max
      else min usize_max (nat (- ((- (f64_significand x * 2 ^ nat (f64_shift x))) div 2 ^ 1074))))"

definition f64_eq :: "f64 \<Rightarrow> f64 \<Rightarrow> bool" where
  "f64_eq a b \<longleftrightarrow> f64_le a b \<and> f64_le b a"

definition f64_one :: f64 where "f64_one = 0x3FF0000000000000"


section \<open>The wheel\<close>

record Wheel =
  wh_slots :: nat
  wh_bins :: nat
  wh_store :: "f64 list"

definition Wheel_new :: "nat \<Rightarrow> nat \<Rightarrow> Wheel" where
  "Wheel_new slots bins = \<lparr>wh_slots = slots, wh_bins = bins, wh_store = replicate (slots * bins) 0\<rparr>"

text \<open>The nested loops over slots and bins: the cells in order, each of them changed.\<close>

definition wheel_cells :: "nat \<Rightarrow> nat list \<Rightarrow> nat list \<Rightarrow> nat list" where
  "wheel_cells bins is js = concat (map (\<lambda>i. map (\<lambda>j. i * bins + j) js) is)"

fun update_cells :: "(f64 \<Rightarrow> f64) \<Rightarrow> nat list \<Rightarrow> f64 list \<Rightarrow> f64 list panics" where
  "update_cells f [] store = Some store"
| "update_cells f (k # ks) store = (if k < length store then update_cells f ks (store[k := f (store ! k)]) else panic)"

definition wheel_apply :: "(f64 \<Rightarrow> f64) \<Rightarrow> nat \<Rightarrow> nat \<Rightarrow> nat \<Rightarrow> nat \<Rightarrow> Wheel \<Rightarrow> Wheel panics" where
  "wheel_apply f begin_slot slots bin_begin bins wheel =
     (if slots > wh_slots wheel \<or> begin_slot \<ge> wh_slots wheel then panic
      else if slots = 0 then Some wheel
      else if bins > wh_bins wheel \<or> bin_begin \<ge> wh_bins wheel then panic
      else if bins = 0 then Some wheel
      else do {
        let remainder = (if begin_slot + slots > wh_slots wheel then (begin_slot + slots) mod wh_slots wheel else 0);
        let limit = begin_slot + slots - remainder;
        store \<leftarrow> update_cells f (wheel_cells (wh_bins wheel) [begin_slot..<limit] [bin_begin..<bin_begin + bins]) (wh_store wheel);
        store \<leftarrow> (if remainder > 0
                 then update_cells f (wheel_cells (wh_bins wheel) [0..<remainder] [bin_begin..<bin_begin + bins]) store
                 else Some store);
        Some (wheel\<lparr>wh_store := store\<rparr>) })"

definition Wheel_add :: "nat \<Rightarrow> nat \<Rightarrow> f64 \<Rightarrow> nat \<Rightarrow> nat \<Rightarrow> Wheel \<Rightarrow> Wheel panics" where
  "Wheel_add begin_slot slots v bin_begin bins = wheel_apply (\<lambda>old. f64_add old v) begin_slot slots bin_begin bins"

definition Wheel_set :: "nat \<Rightarrow> nat \<Rightarrow> f64 \<Rightarrow> nat \<Rightarrow> nat \<Rightarrow> Wheel \<Rightarrow> Wheel panics" where
  "Wheel_set begin_slot slots v bin_begin bins = wheel_apply (\<lambda>_. v) begin_slot slots bin_begin bins"

definition Wheel_get :: "nat \<Rightarrow> nat \<Rightarrow> Wheel \<Rightarrow> f64 list panics" where
  "Wheel_get begin_slot slots wheel =
     (if slots > wh_slots wheel \<or> begin_slot \<ge> wh_slots wheel then panic
      else do {
        let values = replicate (slots * wh_bins wheel) 0;
        lead \<leftarrow> usize_sub slots 1;
        if begin_slot \<ge> lead then do {
          let src_start = (begin_slot + 1 - slots) * wh_bins wheel;
          src \<leftarrow> slice (wh_store wheel) src_start (src_start + slots * wh_bins wheel);
          copy_from_slice values 0 (length values) src }
        else do {
          let remainder = slots - begin_slot - 1;
          let src_start1 = (wh_slots wheel - remainder) * wh_bins wheel;
          let len1 = remainder * wh_bins wheel;
          src \<leftarrow> slice (wh_store wheel) src_start1 (src_start1 + len1);
          values \<leftarrow> copy_from_slice values 0 len1 src;
          let len2 = (begin_slot + 1) * wh_bins wheel;
          src \<leftarrow> slice (wh_store wheel) 0 len2;
          copy_from_slice values len1 (len1 + len2) src } })"


section \<open>The recorder\<close>

record NoiseRecorder =
  nr_total_window_bins :: int
  nr_total_wheel_bins :: int
  nr_bin_size_microseconds :: int
  nr_bandwidth_bin_size_hz :: u64
  nr_band_start_frequency_hz :: u64
  nr_total_sub_band_bins :: nat
  nr_band_end_frequency_hz :: u64
  nr_wheel :: Wheel
  nr_rx_sensitivity_milli_watt :: f64
  nr_max_end_of_reception_bin :: int
  nr_min_start_of_reception_bin :: int
  nr_eor_bin_map :: "u16 \<rightharpoonup> (u16 \<rightharpoonup> int)"
  nr_bin_power_apply_map :: "(u64 \<times> u64) \<rightharpoonup> (nat \<times> nat \<times> f64) list"

definition frequency_overlap_ratio :: "u64 \<Rightarrow> u64 \<Rightarrow> u64 \<Rightarrow> u64 \<Rightarrow> (f64 \<times> u64 \<times> u64) panics" where
  "frequency_overlap_ratio frequency1 bandwidth1 frequency2 bandwidth2 = do {
     upper1 \<leftarrow> u64_add frequency1 (bandwidth1 div 2);
     lower1 \<leftarrow> u64_sub frequency1 (bandwidth1 div 2);
     upper2 \<leftarrow> u64_add frequency2 (bandwidth2 div 2);
     lower2 \<leftarrow> u64_sub frequency2 (bandwidth2 div 2);
     let part = (\<lambda>width. f64_div (f64_of_int (uint width)) (f64_of_int (uint bandwidth2)));
     Some (if lower2 < upper1 \<and> upper2 > lower1
           then (if lower2 \<ge> lower1
                 then (if upper2 \<le> upper1 then (f64_one, lower2, upper2) else (part (upper1 - lower2), lower2, upper1))
                 else (if upper2 \<le> upper1 then (part (upper2 - lower1), lower1, upper2)
                       else (part (upper1 - lower1), lower1, upper1)))
           else (0, 0, 0)) }"

definition NoiseRecorder_new :: "int \<Rightarrow> int \<Rightarrow> int \<Rightarrow> int \<Rightarrow> f64 \<Rightarrow> u64 \<Rightarrow> u64 \<Rightarrow> u64 \<Rightarrow> NoiseRecorder" where
  "NoiseRecorder_new bin max_offset max_propagation max_duration sensitivity frequency_hz bandwidth_hz bandwidth_bin_size_hz =
     (let bin = max bin 1;
          max_offset = max max_offset 0;
          max_propagation = max max_propagation 0;
          max_duration = max max_duration bin;
          total_window_bins = max (max_duration div bin) 1;
          total_wheel_bins = max (i64_sat (i64_sat (max_offset + max_propagation) + i64_sat (max_duration * 2)) div bin) 1;
          band_start = saturating_sub frequency_hz (bandwidth_hz div 2);
          total_sub_band_bins = (if bandwidth_bin_size_hz > 0
             then f64_ceil_usize (f64_div (f64_of_int (uint bandwidth_hz)) (f64_of_int (uint bandwidth_bin_size_hz))) + 1
             else 1);
          band_end = (if bandwidth_bin_size_hz = 0
             then saturating_sub (saturating_add band_start bandwidth_hz) 1
             else saturating_sub (saturating_add band_start
                    (saturating_mul (word_of_nat total_sub_band_bins) bandwidth_bin_size_hz)) 1)
      in \<lparr>nr_total_window_bins = total_window_bins, nr_total_wheel_bins = total_wheel_bins, nr_bin_size_microseconds = bin,
          nr_bandwidth_bin_size_hz = bandwidth_bin_size_hz, nr_band_start_frequency_hz = band_start,
          nr_total_sub_band_bins = total_sub_band_bins, nr_band_end_frequency_hz = band_end,
          nr_wheel = Wheel_new (as_usize total_wheel_bins) total_sub_band_bins, nr_rx_sensitivity_milli_watt = sensitivity,
          nr_max_end_of_reception_bin = 0, nr_min_start_of_reception_bin = 0, nr_eor_bin_map = Map.empty,
          nr_bin_power_apply_map = Map.empty\<rparr>)"

definition timepoint_to_bin :: "NoiseRecorder \<Rightarrow> int \<Rightarrow> bool \<Rightarrow> int" where
  "timepoint_to_bin nr tp adjust =
     (if tp = 0 then 0
      else i64_quot tp (nr_bin_size_microseconds nr)
           - (if adjust \<and> i64_rem tp (nr_bin_size_microseconds nr) = 0 then 1 else 0))"

text \<open>The bins of the band a frequency range touches: first, last and how many.\<close>

definition sub_band_range :: "NoiseRecorder \<Rightarrow> u64 \<Rightarrow> u64 \<Rightarrow> (nat \<times> nat \<times> nat) panics" where
  "sub_band_range nr start_hz end_hz = do {
     last_bin \<leftarrow> usize_sub (nr_total_sub_band_bins nr) 1;
     if nr_bandwidth_bin_size_hz nr > 0 then do {
       let first = (if start_hz > nr_band_start_frequency_hz nr
            then unat ((start_hz - nr_band_start_frequency_hz nr) div nr_bandwidth_bin_size_hz nr) else 0);
       final \<leftarrow> (if end_hz < nr_band_end_frequency_hz nr
            then usize_sub last_bin (unat ((nr_band_end_frequency_hz nr - end_hz) div nr_bandwidth_bin_size_hz nr))
            else Some last_bin);
       width \<leftarrow> usize_sub final first;
       Some (first, final, width + 1) }
     else Some (0, last_bin, 1) }"

text \<open>One turn of the loop that gathers the shares of the bins: neighbouring bins that are covered
  wholly become one entry. The state is the list, the pending start and share, and whether they count.\<close>

type_synonym ApplyState = "(nat \<times> nat \<times> f64) list \<times> nat \<times> f64 \<times> bool"

definition bin_power_apply :: "NoiseRecorder \<Rightarrow> u64 \<Rightarrow> u64 \<Rightarrow> nat \<Rightarrow> ApplyState \<Rightarrow> ApplyState panics" where
  "bin_power_apply nr start_hz end_hz bin st = do {
     let (applies, pending_start, pending_multi, is_pending) = st;
     bin_offset \<leftarrow> u64_mul (word_of_nat bin) (nr_bandwidth_bin_size_hz nr);
     bin_start \<leftarrow> u64_add bin_offset (nr_band_start_frequency_hz nr);
     centre \<leftarrow> u64_add bin_start (nr_bandwidth_bin_size_hz nr div 2);
     width \<leftarrow> u64_sub end_hz start_hz;
     middle \<leftarrow> u64_add start_hz (width div 2);
     (ratio, _, _) \<leftarrow> frequency_overlap_ratio centre (nr_bandwidth_bin_size_hz nr) middle width;
     let flushed = (if is_pending then applies @ [(pending_start, bin - 1, pending_multi)] else applies);
     Some (if f64_lt 0 ratio \<and> f64_lt ratio f64_one then (flushed @ [(bin, bin, ratio)], pending_start, pending_multi, False)
           else if f64_eq ratio f64_one
             then (if is_pending then st else (applies, bin, ratio, True))
           else (flushed, pending_start, pending_multi, False)) }"

fun bin_power_loop :: "NoiseRecorder \<Rightarrow> u64 \<Rightarrow> u64 \<Rightarrow> nat list \<Rightarrow> ApplyState \<Rightarrow> ApplyState panics" where
  "bin_power_loop nr start_hz end_hz [] st = Some st"
| "bin_power_loop nr start_hz end_hz (bin # bins) st = do {
     st \<leftarrow> bin_power_apply nr start_hz end_hz bin st;
     bin_power_loop nr start_hz end_hz bins st }"

definition remember_applies :: "u64 \<Rightarrow> u64 \<Rightarrow> nat \<Rightarrow> nat \<Rightarrow> NoiseRecorder \<Rightarrow> NoiseRecorder panics" where
  "remember_applies start_hz end_hz first final nr =
     (if nr_bandwidth_bin_size_hz nr > 0 \<and> nr_bin_power_apply_map nr (start_hz, end_hz) = None
      then do {
        (applies, pending_start, pending_multi, is_pending) \<leftarrow>
           bin_power_loop nr start_hz end_hz [first..<Suc final] ([], 0, 0, False);
        let applies = (if is_pending then applies @ [(pending_start, final, pending_multi)] else applies);
        Some (nr\<lparr>nr_bin_power_apply_map := (nr_bin_power_apply_map nr)((start_hz, end_hz) \<mapsto> applies)\<rparr>) }
      else Some nr)"

definition stored_max_eor_bin :: "NoiseRecorder \<Rightarrow> u16 \<Rightarrow> u16 list \<Rightarrow> int" where
  "stored_max_eor_bin nr antenna transmitters =
     foldl (\<lambda>stored transmitter.
        case Option.bind (nr_eor_bin_map nr transmitter) (\<lambda>amap. amap antenna) of
          Some eor_bin \<Rightarrow> if stored < eor_bin then eor_bin else stored
        | None \<Rightarrow> stored) 0 transmitters"

definition store_eor_bins :: "u16 \<Rightarrow> int \<Rightarrow> u16 list \<Rightarrow> NoiseRecorder \<Rightarrow> NoiseRecorder" where
  "store_eor_bins antenna eor_bin transmitters nr =
     nr\<lparr>nr_eor_bin_map := foldl (\<lambda>m transmitter.
          m(transmitter \<mapsto> (unwrap_or (m transmitter) Map.empty)(antenna \<mapsto> eor_bin))) (nr_eor_bin_map nr) transmitters\<rparr>"


section \<open>Recording a reception\<close>

text \<open>The power of a reception written to the sub-bands of its frequency range with \<open>op\<close>.\<close>

fun apply_powers :: "(f64 \<Rightarrow> nat \<Rightarrow> nat \<Rightarrow> Wheel \<Rightarrow> Wheel panics) \<Rightarrow> f64 \<Rightarrow> (nat \<times> nat \<times> f64) list \<Rightarrow> Wheel \<Rightarrow> Wheel panics" where
  "apply_powers op rx_power [] wheel = Some wheel"
| "apply_powers op rx_power ((first, final, multiplier) # as) wheel = do {
     wheel \<leftarrow> op (f64_mul rx_power multiplier) first (final - first + 1) wheel;
     apply_powers op rx_power as wheel }"

text \<open>What the parts of \<open>update\<close> share: the reception's power, sub-bands and slots.\<close>

record Reception =
  rc_power :: f64
  rc_applies :: "(nat \<times> nat \<times> f64) list"
  rc_first :: nat
  rc_width :: nat
  rc_start_bin :: int
  rc_end_bin :: int
  rc_start_index :: nat

definition rc_bins :: "Reception \<Rightarrow> int" where
  "rc_bins r = rc_end_bin r - rc_start_bin r + 1"

definition write_first :: "NoiseRecorder \<Rightarrow> Reception \<Rightarrow> NoiseRecorder panics" where
  "write_first nr r = do {
     wheel \<leftarrow> (if nr_total_sub_band_bins nr > 1
        then apply_powers (Wheel_set (rc_start_index r) (as_usize (rc_bins r))) (rc_power r) (rc_applies r) (nr_wheel nr)
        else Wheel_set (rc_start_index r) (as_usize (rc_bins r)) (rc_power r) (rc_first r) (rc_width r) (nr_wheel nr));
     Some (nr\<lparr>nr_wheel := wheel, nr_min_start_of_reception_bin := rc_start_bin r,
              nr_max_end_of_reception_bin := rc_end_bin r\<rparr>) }"

definition before_count :: "NoiseRecorder \<Rightarrow> Reception \<Rightarrow> int" where
  "before_count nr r =
     (if rc_start_bin r < nr_min_start_of_reception_bin nr
      then (if rc_end_bin r < nr_min_start_of_reception_bin nr then rc_bins r
            else nr_min_start_of_reception_bin nr - rc_start_bin r)
      else 0)"

definition after_count :: "NoiseRecorder \<Rightarrow> Reception \<Rightarrow> int" where
  "after_count nr r =
     (if rc_end_bin r > nr_max_end_of_reception_bin nr
      then (if rc_start_bin r > nr_max_end_of_reception_bin nr then rc_bins r
            else rc_end_bin r - nr_max_end_of_reception_bin nr)
      else 0)"

definition write_before :: "NoiseRecorder \<Rightarrow> Reception \<Rightarrow> Wheel \<Rightarrow> Wheel panics" where
  "write_before nr r wheel =
     (if rc_start_bin r < nr_min_start_of_reception_bin nr
      then (if nr_total_sub_band_bins nr > 1
            then do {
              wheel \<leftarrow> Wheel_set (rc_start_index r) (as_usize (before_count nr r)) 0 0 (nr_total_sub_band_bins nr) wheel;
              apply_powers (Wheel_set (rc_start_index r) (as_usize (rc_bins r))) (rc_power r) (rc_applies r) wheel }
            else Wheel_set (rc_start_index r) (as_usize (before_count nr r)) (rc_power r) (rc_first r) (rc_width r) wheel)
      else Some wheel)"

definition write_after :: "NoiseRecorder \<Rightarrow> Reception \<Rightarrow> Wheel \<Rightarrow> Wheel panics" where
  "write_after nr r wheel =
     (if rc_end_bin r > nr_max_end_of_reception_bin nr
      then do {
        let after_start_index = (rc_start_index r + as_usize (rc_bins r) - as_usize (after_count nr r))
              mod as_usize (nr_total_wheel_bins nr);
        if nr_total_sub_band_bins nr > 1
        then do {
          wheel \<leftarrow> Wheel_set after_start_index (as_usize (after_count nr r)) 0 0 (nr_total_sub_band_bins nr) wheel;
          apply_powers (Wheel_set (rc_start_index r) (as_usize (rc_bins r))) (rc_power r) (rc_applies r) wheel }
        else Wheel_set after_start_index (as_usize (after_count nr r)) (rc_power r) (rc_first r) (rc_width r) wheel }
      else Some wheel)"

definition write_within :: "NoiseRecorder \<Rightarrow> Reception \<Rightarrow> Wheel \<Rightarrow> Wheel panics" where
  "write_within nr r wheel =
     (let within = rc_bins r - before_count nr r - after_count nr r;
          within_start_index = (rc_start_index r + as_usize (before_count nr r)) mod as_usize (nr_total_wheel_bins nr)
      in if nr_total_sub_band_bins nr > 1
         then apply_powers (Wheel_add within_start_index (as_usize within)) (rc_power r) (rc_applies r) wheel
         else Wheel_add within_start_index (as_usize within) (rc_power r) (rc_first r) (rc_width r) wheel)"

definition clear_gaps :: "NoiseRecorder \<Rightarrow> Reception \<Rightarrow> Wheel \<Rightarrow> Wheel panics" where
  "clear_gaps nr r wheel = do {
     wheel \<leftarrow> (if before_count nr r > 0
        then Wheel_set ((rc_start_index r + as_usize (before_count nr r)) mod as_usize (nr_total_wheel_bins nr))
               (as_usize (nr_min_start_of_reception_bin nr - (rc_start_bin r + before_count nr r)))
               0 0 (nr_total_sub_band_bins nr) wheel
        else Some wheel);
     if after_count nr r > 0
     then Wheel_set (as_usize (nr_max_end_of_reception_bin nr + 1) mod as_usize (nr_total_wheel_bins nr))
            (as_usize (rc_start_bin r - nr_max_end_of_reception_bin nr - 1))
            0 0 (nr_total_sub_band_bins nr) wheel
     else Some wheel }"

definition write_more :: "NoiseRecorder \<Rightarrow> Reception \<Rightarrow> NoiseRecorder panics" where
  "write_more nr r = do {
     wheel \<leftarrow> write_before nr r (nr_wheel nr);
     wheel \<leftarrow> write_after nr r wheel;
     wheel \<leftarrow> (if rc_bins r - before_count nr r - after_count nr r > 0 then write_within nr r wheel else clear_gaps nr r wheel);
     Some (nr\<lparr>nr_wheel := wheel,
       nr_min_start_of_reception_bin :=
         (if before_count nr r > 0 then rc_start_bin r else nr_min_start_of_reception_bin nr),
       nr_max_end_of_reception_bin :=
         (if after_count nr r > 0 then rc_end_bin r else nr_max_end_of_reception_bin nr)\<rparr>) }"

definition record_reception :: "f64 \<Rightarrow> int \<Rightarrow> int \<Rightarrow> nat \<Rightarrow> nat \<Rightarrow> u64 \<Rightarrow> u64 \<Rightarrow> NoiseRecorder \<Rightarrow> NoiseRecorder panics" where
  "record_reception rx_power start_bin end_bin first width start_hz end_hz nr =
     (let nr = (if i64_sat (nr_max_end_of_reception_bin nr + nr_total_wheel_bins nr) \<le> start_bin
                then nr\<lparr>nr_max_end_of_reception_bin := 0, nr_min_start_of_reception_bin := 0\<rparr> else nr);
          r = \<lparr>rc_power = rx_power, rc_applies = unwrap_or (nr_bin_power_apply_map nr (start_hz, end_hz)) [],
               rc_first = first, rc_width = width, rc_start_bin = start_bin, rc_end_bin = end_bin,
               rc_start_index = as_usize start_bin mod as_usize (nr_total_wheel_bins nr)\<rparr>
      in if nr_max_end_of_reception_bin nr = 0 \<and> nr_min_start_of_reception_bin nr = 0
         then write_first nr r else write_more nr r)"

definition noise_update ::
  "int \<Rightarrow> int \<Rightarrow> int \<Rightarrow> int \<Rightarrow> f64 \<Rightarrow> u16 list \<Rightarrow> u64 \<Rightarrow> u64 \<Rightarrow> u16 \<Rightarrow> bool \<Rightarrow> NoiseRecorder
   \<Rightarrow> ((int \<times> int) \<times> NoiseRecorder) panics" where
  "noise_update tx_time offset propagation duration rx_power transmitters start_hz end_hz antenna is_more nr = do {
     tx_end \<leftarrow> i64_plain (tx_time + offset);
     start_of_reception \<leftarrow> i64_plain (tx_end + propagation);
     end_of_reception \<leftarrow> i64_plain (start_of_reception + duration);
     let reported = timepoint_to_bin nr start_of_reception False;
     end_bin \<leftarrow> i64_plain (timepoint_to_bin nr end_of_reception True);
     (first, final, width) \<leftarrow> sub_band_range nr start_hz end_hz;
     nr \<leftarrow> remember_applies start_hz end_hz first final nr;
     let stored = stored_max_eor_bin nr antenna transmitters;
     let start_bin = (if reported \<le> stored then stored + 1 else reported);
     nr \<leftarrow> (if end_bin \<ge> start_bin then record_reception rx_power start_bin end_bin first width start_hz end_hz nr else Some nr);
     let nr = (if is_more then nr else store_eor_bins antenna end_bin transmitters nr);
     Some ((start_of_reception, end_of_reception), nr) }"


section \<open>Reading a window\<close>

text \<open>A negative number of bins is a huge \<open>usize\<close>, for which \<open>reserve\<close> and \<open>vec!\<close> panic.\<close>

definition window_values :: "NoiseRecorder \<Rightarrow> int \<Rightarrow> int \<Rightarrow> int \<Rightarrow> f64 list panics" where
  "window_values nr start_bin end_bin count =
     (if count < 0 then panic
      else if nr_max_end_of_reception_bin nr \<noteq> 0 \<and> nr_min_start_of_reception_bin nr \<noteq> 0
      then do {
        let after = (if end_bin > nr_max_end_of_reception_bin nr
              then min (end_bin - nr_max_end_of_reception_bin nr) count else 0);
        let lead = (if start_bin < nr_min_start_of_reception_bin nr
              then min (nr_min_start_of_reception_bin nr - start_bin) count else 0);
        let remainder = count - (lead + after);
        mid \<leftarrow> (if remainder > 0
              then Wheel_get (as_usize (i64_rem (end_bin - after) (nr_total_wheel_bins nr))) (as_usize remainder) (nr_wheel nr)
              else Some []);
        Some (replicate (as_usize lead * nr_total_sub_band_bins nr) 0 @ mid
              @ replicate (as_usize after * nr_total_sub_band_bins nr) 0) }
      else Some (replicate (as_usize count * nr_total_sub_band_bins nr) 0))"

text \<open>The inner \<open>None\<close> is the \<open>None\<close> of the code: the window is not available.\<close>

definition try_get :: "int \<Rightarrow> int \<Rightarrow> int \<Rightarrow> NoiseRecorder \<Rightarrow> (f64 list \<times> int) option panics" where
  "try_get now duration start_time nr =
     (if duration < 0 \<or> now < 0 then Some None
      else
        (let now_bin = timepoint_to_bin nr now True;
             min_start = (now_bin - nr_total_window_bins nr + 1) * nr_bin_size_microseconds nr;
             valid_start = (if start_time = i64_min then min_start else start_time)
         in if start_time \<noteq> i64_min \<and> (start_time < min_start \<or> start_time > now) then Some None
            else
              (let start_bin = timepoint_to_bin nr valid_start False;
                   end_time = (if duration \<noteq> 0 then valid_start + duration else now)
               in if duration \<noteq> 0 \<and> (end_time > i64_max \<or> end_time > now) then Some None
                  else
                    (let end_bin = timepoint_to_bin nr end_time True;
                         count = end_bin - start_bin + 1;
                         start_of_window = start_bin * nr_bin_size_microseconds nr
                     in if start_of_window \<ge> min_start
                        then map_option (\<lambda>window. Some (window, start_of_window)) (window_values nr start_bin end_bin count)
                        else Some None))))"

definition noise_get :: "int \<Rightarrow> int \<Rightarrow> int \<Rightarrow> NoiseRecorder \<Rightarrow> (f64 list \<times> int) panics" where
  "noise_get now duration start_time nr = Option.bind (try_get now duration start_time nr) (\<lambda>w. w)"


section \<open>The wheel as modular cells\<close>

definition wheel_ok :: "Wheel \<Rightarrow> bool" where
  "wheel_ok w \<longleftrightarrow> 0 < wh_slots w \<and> 0 < wh_bins w \<and> length (wh_store w) = wh_slots w * wh_bins w"

lemma update_cells_ok:
  assumes "distinct ks" "\<forall>k \<in> set ks. k < length store"
  shows "\<exists>store'. update_cells f ks store = Some store' \<and> length store' = length store
    \<and> (\<forall>k. store' ! k = (if k \<in> set ks then f (store ! k) else store ! k))"
  using assms
proof (induction ks arbitrary: store)
  case (Cons k ks)
  then obtain store' where "update_cells f ks (store[k := f (store ! k)]) = Some store'" "length store' = length store"
      "\<forall>i. store' ! i = (if i \<in> set ks then f (store[k := f (store ! k)] ! i) else store[k := f (store ! k)] ! i)"
    using Cons.IH [of "store[k := f (store ! k)]"] by auto
  with Cons.prems show ?case by (auto simp: nth_list_update)
qed simp

lemma set_wheel_cells: "set (wheel_cells B is js) = (\<lambda>(i, j). i * B + j) ` (set is \<times> set js)"
  by (force simp: wheel_cells_def)

lemma cell_index_eq:
  assumes "j < B" "j' < B"
  shows "i * B + j = i' * B + j' \<longleftrightarrow> i = i' \<and> j = (j'::nat)"
proof
  assume e: "i * B + j = i' * B + j'"
  have "(i * B + j) div B = i" "(i' * B + j') div B = i'" using assms by simp_all
  with e have "i = i'" by simp
  with e show "i = i' \<and> j = j'" by simp
qed simp

lemma distinct_wheel_cells:
  assumes "distinct is" "distinct js" "\<forall>j \<in> set js. j < B"
  shows "distinct (wheel_cells B is js)"
  using assms(1)
proof (induction "is")
  case (Cons i "is")
  have inner: "distinct (map (\<lambda>j. i * B + j) js)" using assms(2) by (simp add: distinct_map inj_on_def)
  have "set (map (\<lambda>j. i * B + j) js) \<inter> set (wheel_cells B is js) = {}"
    using Cons.prems assms(3) by (auto simp: set_wheel_cells cell_index_eq)
  with Cons inner show ?case by (simp add: wheel_cells_def)
qed (simp add: wheel_cells_def)

lemma cell_less: "i < S \<Longrightarrow> j < B \<Longrightarrow> i * B + j < S * (B::nat)"
proof -
  assume "i < S" "j < B"
  then have "i * B + j < Suc i * B" by simp
  also have "\<dots> \<le> S * B" using \<open>i < S\<close> by (intro mult_le_mono1) simp
  finally show ?thesis .
qed

lemma wheel_range_conv:
  assumes "i < S" "a < S" "n \<le> S" "0 < n"
  defines "r \<equiv> if a + n > S then (a + n) mod S else 0"
  shows "(i + S - a) mod S < n \<longleftrightarrow> (a \<le> i \<and> i < a + n - r) \<or> i < (r::nat)"
proof (cases "a + n > S")
  case True
  have "(a + n) mod S = a + n - S" using True assms(1-3) by (simp add: mod_if)
  then have r: "r = a + n - S" using True by (simp add: r_def)
  show ?thesis
  proof (cases "a \<le> i")
    case True
    then have "(i + S - a) mod S = i - a" using assms(1, 2) by (simp add: mod_if)
    then show ?thesis using True r assms by auto
  next
    case False
    then have "(i + S - a) mod S = i + S - a" using assms(1, 2) by simp
    then show ?thesis using False r assms(1-3) \<open>a + n > S\<close> by auto
  qed
next
  case False
  then have r: "r = 0" by (simp add: r_def)
  show ?thesis
  proof (cases "a \<le> i")
    case True
    then have "(i + S - a) mod S = i - a" using assms(1, 2) by (simp add: mod_if)
    then show ?thesis using True r by auto
  next
    case False
    then have "(i + S - a) mod S = i + S - a" using assms(1, 2) by simp
    then show ?thesis using False r \<open>\<not> a + n > S\<close> by auto
  qed
qed

text \<open>The cells an operation changes: the slots counted from the first one around the wheel.\<close>

definition wheel_changed :: "(f64 \<Rightarrow> f64) \<Rightarrow> nat \<Rightarrow> nat \<Rightarrow> nat \<Rightarrow> nat \<Rightarrow> Wheel \<Rightarrow> Wheel \<Rightarrow> bool" where
  "wheel_changed f a n bb nb w w' \<longleftrightarrow>
     wheel_ok w' \<and> wh_slots w' = wh_slots w \<and> wh_bins w' = wh_bins w
     \<and> (\<forall>i < wh_slots w. \<forall>j < wh_bins w. wh_store w' ! (i * wh_bins w + j) =
          (if (i + wh_slots w - a) mod wh_slots w < n \<and> bb \<le> j \<and> j < bb + nb
           then f (wh_store w ! (i * wh_bins w + j)) else wh_store w ! (i * wh_bins w + j)))"

lemma wheel_apply_changed:
  assumes ok: "wheel_ok w" and a: "a < wh_slots w" and n: "n \<le> wh_slots w" and b: "bb < wh_bins w" "bb + nb \<le> wh_bins w"
  shows "\<exists>w'. wheel_apply f a n bb nb w = Some w' \<and> wheel_changed f a n bb nb w w'"
proof (cases "n = 0 \<or> nb = 0")
  case True
  then show ?thesis using assms by (auto simp: wheel_apply_def wheel_changed_def)
next
  case False
  let ?S = "wh_slots w" and ?B = "wh_bins w"
  let ?r = "if a + n > ?S then (a + n) mod ?S else 0"
  let ?js = "[bb..<bb + nb]"
  let ?ks1 = "wheel_cells ?B [a..<a + n - ?r] ?js" and ?ks2 = "wheel_cells ?B [0..<?r] ?js"
  have r: "a + n - ?r \<le> ?S" "?r \<le> a" using a n by (auto simp: mod_if)
  have len: "length (wh_store w) = ?S * ?B" using ok by (simp add: wheel_ok_def)
  have less: "\<forall>k \<in> set (wheel_cells ?B is ?js). k < ?S * ?B" if "set is \<subseteq> {..<?S}" for "is"
    using that b by (auto simp: set_wheel_cells intro!: cell_less)
  have js: "\<forall>j \<in> set ?js. j < ?B" using b by auto
  have "\<forall>k \<in> set ?ks1. k < length (wh_store w)" unfolding len using r by (intro less) auto
  then obtain s1 where s1: "update_cells f ?ks1 (wh_store w) = Some s1" "length s1 = ?S * ?B"
      "\<forall>k. s1 ! k = (if k \<in> set ?ks1 then f (wh_store w ! k) else wh_store w ! k)"
    using update_cells_ok [OF distinct_wheel_cells [OF distinct_upt distinct_upt js], of "a" "a + n - ?r" "wh_store w" f] len by metis
  have "\<forall>k \<in> set ?ks2. k < length s1" unfolding s1(2) using r a by (intro less) auto
  then obtain s2 where s2: "update_cells f ?ks2 s1 = Some s2" "length s2 = ?S * ?B"
      "\<forall>k. s2 ! k = (if k \<in> set ?ks2 then f (s1 ! k) else s1 ! k)"
    using update_cells_ok [OF distinct_wheel_cells [OF distinct_upt distinct_upt js], of 0 ?r s1 f] s1(2) by metis
  have mem: "i * ?B + j \<in> set (wheel_cells ?B is ?js) \<longleftrightarrow> i \<in> set is \<and> bb \<le> j \<and> j < bb + nb" if "j < ?B" for i j "is"
    using that js by (force simp: set_wheel_cells cell_index_eq)
  have res: "s2 ! (i * ?B + j) = (if (i + ?S - a) mod ?S < n \<and> bb \<le> j \<and> j < bb + nb
      then f (wh_store w ! (i * ?B + j)) else wh_store w ! (i * ?B + j))" if "i < ?S" "j < ?B" for i j
    using s1(3) s2(3) mem [OF that(2)] wheel_range_conv [OF that(1) a n] False r by auto
  have run: "wheel_apply f a n bb nb w = Some (w\<lparr>wh_store := s2\<rparr>)"
  proof (cases "?r > 0")
    case True
    then show ?thesis using False a n b s1(1) s2(1) by (simp add: wheel_apply_def Let_def)
  next
    case rz: False
    then have "s2 = s1" using s2(1) by (simp add: wheel_cells_def)
    then show ?thesis using rz False a n b s1(1) by (simp add: wheel_apply_def Let_def)
  qed
  have "wheel_changed f a n bb nb w (w\<lparr>wh_store := s2\<rparr>)"
    using ok s2(2) res by (auto simp: wheel_changed_def wheel_ok_def)
  with run show ?thesis by blast
qed

lemma nth_take_drop_append:
  assumes "i < l1" "src + l1 \<le> length st"
  shows "(take l1 (drop src st) @ ys) ! i = st ! (src + i)"
  using assms by (simp add: nth_append)

lemma two_part_copy:
  assumes "src + l1 = length st" "l1 + l2 = N" "l2 \<le> length st"
  shows "do { s \<leftarrow> slice st src (src + l1); vals \<leftarrow> copy_from_slice (replicate N z) 0 l1 s;
              s \<leftarrow> slice st 0 l2; copy_from_slice vals l1 (l1 + l2) s }
    = Some (take l1 (drop src st) @ take l2 st)"
  using assms by (auto simp: copy_from_slice_def)

lemma Wheel_get_values:
  assumes ok: "wheel_ok w" and a: "a < wh_slots w" and n: "0 < n" "n \<le> wh_slots w"
  shows "\<exists>vs. Wheel_get a n w = Some vs \<and> length vs = n * wh_bins w
    \<and> (\<forall>k < n. \<forall>j < wh_bins w. vs ! (k * wh_bins w + j) =
         wh_store w ! (((a + 1 + k + wh_slots w - n) mod wh_slots w) * wh_bins w + j))"
proof -
  let ?S = "wh_slots w" and ?B = "wh_bins w"
  have len: "length (wh_store w) = ?S * ?B" using ok by (simp add: wheel_ok_def)
  show ?thesis
  proof (cases "n - 1 \<le> a")
    case True
    let ?src = "(a + 1 - n) * ?B"
    have "?src + n * ?B = (a + 1) * ?B" using True n by (simp flip: add_mult_distrib)
    also have "\<dots> \<le> ?S * ?B" using a by (intro mult_le_mono1) simp
    finally have le: "?src + n * ?B \<le> ?S * ?B" .
    have "Wheel_get a n w = Some (take (n * ?B) (drop ?src (wh_store w)))"
      using a n True le len by (simp add: Wheel_get_def usize_sub_def copy_from_slice_def)
    moreover have "take (n * ?B) (drop ?src (wh_store w)) ! (k * ?B + j) =
        wh_store w ! (((a + 1 + k + ?S - n) mod ?S) * ?B + j)" if "k < n" "j < ?B" for k j
    proof -
      have "k * ?B + j < n * ?B" using cell_less that by simp
      moreover have "(a + 1 + k + ?S - n) mod ?S = a + 1 - n + k" using True a that n by (simp add: mod_if)
      moreover have "?src \<le> length (wh_store w)" using le len by linarith
      ultimately show ?thesis by (simp add: add_mult_distrib add.assoc)
    qed
    ultimately show ?thesis using le len by auto
  next
    case False
    let ?r = "n - a - 1"
    let ?src = "(?S - ?r) * ?B"
    have "?S - ?r + ?r = ?S" "?r + (a + 1) = n" using False n a by linarith+
    then have sum: "?src + ?r * ?B = ?S * ?B" "?r * ?B + (a + 1) * ?B = n * ?B"
      by (metis add_mult_distrib)+
    have le: "(a + 1) * ?B \<le> ?S * ?B" using a by (intro mult_le_mono1) simp
    let ?vs = "take (?r * ?B) (drop ?src (wh_store w)) @ take ((a + 1) * ?B) (wh_store w)"
    have "Wheel_get a n w = do { s \<leftarrow> slice (wh_store w) ?src (?src + ?r * ?B);
        vals \<leftarrow> copy_from_slice (replicate (n * ?B) 0) 0 (?r * ?B) s;
        s \<leftarrow> slice (wh_store w) 0 ((a + 1) * ?B); copy_from_slice vals (?r * ?B) (?r * ?B + (a + 1) * ?B) s }"
      using a n False by (simp add: Wheel_get_def usize_sub_def Let_def del: slice_in_range)
    also have "\<dots> = Some ?vs" by (rule two_part_copy) (use sum le len in simp_all)
    finally have "Wheel_get a n w = Some ?vs" .
    moreover have "?vs ! (k * ?B + j) = wh_store w ! (((a + 1 + k + ?S - n) mod ?S) * ?B + j)"
      if k: "k < n" and j: "j < ?B" for k j
    proof (cases "k < ?r")
      case True
      have c: "k * ?B + j < ?r * ?B" using cell_less [OF True j] .
      have "a + 1 + k + ?S - n = ?S - ?r + k" "?S - ?r + k < ?S" using True False n a by linarith+
      then have "(a + 1 + k + ?S - n) mod ?S = ?S - ?r + k" by simp
      moreover have "?vs ! (k * ?B + j) = wh_store w ! (?src + (k * ?B + j))"
        by (rule nth_take_drop_append [OF c]) (use sum len in linarith)
      ultimately show ?thesis by (simp add: add_mult_distrib add.assoc)
    next
      case ge: False
      then have k': "k * ?B + j = ?r * ?B + ((k - ?r) * ?B + j)" by (simp flip: add_mult_distrib add.assoc)
      have "k - ?r < a + 1" using ge k False by linarith
      then have c: "(k - ?r) * ?B + j < (a + 1) * ?B" using cell_less j by blast
      have "a + 1 + k + ?S - n = ?S + (k - ?r)" using ge False n a by linarith
      moreover have "k - ?r < ?S" using \<open>k - ?r < a + 1\<close> a by linarith
      ultimately have m: "(a + 1 + k + ?S - n) mod ?S = k - ?r" by (metis mod_add_self1 mod_less)
      have l: "length (take (?r * ?B) (drop ?src (wh_store w))) = ?r * ?B" using sum len by simp
      show ?thesis unfolding k' m using c l by (simp add: nth_append)
    qed
    ultimately show ?thesis using sum le len by auto
  qed
qed

text \<open>With one bin per slot a cell belongs to the absolute bins that agree modulo the slots.\<close>

definition wcell :: "Wheel \<Rightarrow> int \<Rightarrow> f64" where
  "wcell w b = wh_store w ! nat (b mod int (wh_slots w))"

lemma slot_distance:
  assumes "0 < S" "0 \<le> n"
  shows "(nat (b mod int S) + S - nat (s mod int S)) mod S < nat n \<longleftrightarrow> (b - s) mod int S < n"
proof -
  have "nat (s mod int S) < S" using assms by (simp add: nat_less_iff)
  then have "int ((nat (b mod int S) + S - nat (s mod int S)) mod S) = (b mod int S + int S - s mod int S) mod int S"
    using assms by (simp add: zmod_int of_nat_diff)
  also have "\<dots> = (b mod int S - s mod int S + int S) mod int S" by (simp add: algebra_simps)
  also have "\<dots> = (b - s) mod int S" by (simp add: mod_diff_eq)
  finally show ?thesis using assms by linarith
qed

lemma wheel_apply_cells:
  assumes ok: "wheel_ok w" "wh_bins w = 1" and n: "0 \<le> n" "n \<le> int (wh_slots w)"
  shows "\<exists>w'. wheel_apply f (nat (s mod int (wh_slots w))) (nat n) 0 1 w = Some w'
    \<and> wheel_ok w' \<and> wh_slots w' = wh_slots w \<and> wh_bins w' = 1
    \<and> (\<forall>b. wcell w' b = (if (b - s) mod int (wh_slots w) < n then f (wcell w b) else wcell w b))"
proof -
  let ?S = "wh_slots w"
  have S: "0 < ?S" using ok by (simp add: wheel_ok_def)
  have idx: "nat (c mod int ?S) < ?S" for c using S by (simp add: nat_less_iff)
  obtain w' where w': "wheel_apply f (nat (s mod int ?S)) (nat n) 0 1 w = Some w'" "wheel_changed f (nat (s mod int ?S)) (nat n) 0 1 w w'"
    using wheel_apply_changed [OF ok(1) idx, where n = "nat n" and bb = 0 and nb = 1] n ok(2) by fastforce
  have "(nat (b mod int ?S) + ?S - nat (s mod int ?S)) mod ?S < nat n \<longleftrightarrow> (b - s) mod int ?S < n" for b
    by (rule slot_distance) (use S n in simp_all)
  then have "wcell w' b = (if (b - s) mod int ?S < n then f (wcell w b) else wcell w b)" for b
    using w'(2) idx [of b] ok(2) by (simp add: wheel_changed_def wcell_def)
  then show ?thesis using w' ok(2) by (auto simp: wheel_changed_def)
qed

lemma Wheel_get_cells:
  assumes ok: "wheel_ok w" "wh_bins w = 1" and n: "0 < n" "n \<le> int (wh_slots w)"
  shows "Wheel_get (nat (e mod int (wh_slots w))) (nat n) w = Some (map (wcell w) [e - n + 1..e])"
proof -
  let ?S = "wh_slots w"
  have S: "0 < ?S" using ok by (simp add: wheel_ok_def)
  have idx: "nat (c mod int ?S) < ?S" for c using S by (simp add: nat_less_iff)
  obtain vs where vs: "Wheel_get (nat (e mod int ?S)) (nat n) w = Some vs" "length vs = nat n"
      "\<forall>k < nat n. vs ! k = wh_store w ! ((nat (e mod int ?S) + 1 + k + ?S - nat n) mod ?S)"
    using Wheel_get_values [OF ok(1) idx, of "nat n" e] n ok(2) nat_le_iff [of n ?S] by auto
  have "vs = map (wcell w) [e - n + 1..e]"
  proof (rule nth_equalityI)
    show "length vs = length (map (wcell w) [e - n + 1..e])" using vs(2) n by simp
  next
    fix k assume "k < length vs"
    then have k: "k < nat n" using vs(2) by simp
    have le: "nat n \<le> nat (e mod int ?S) + 1 + k + ?S" using n by linarith
    have "int ((nat (e mod int ?S) + 1 + k + ?S - nat n) mod ?S) = (e mod int ?S + 1 + int k + int ?S - n) mod int ?S"
      using le S n by (simp add: zmod_int of_nat_diff algebra_simps)
    also have "\<dots> = (e mod int ?S + (1 + int k - n) + int ?S) mod int ?S" by (simp add: algebra_simps)
    also have "\<dots> = (e + (1 + int k - n)) mod int ?S" by (simp add: mod_add_left_eq)
    also have "\<dots> = (e - n + 1 + int k) mod int ?S" by (simp add: algebra_simps)
    finally have m: "(nat (e mod int ?S) + 1 + k + ?S - nat n) mod ?S = nat ((e - n + 1 + int k) mod int ?S)" by linarith
    have "[e - n + 1..e] ! k = e - n + 1 + int k" using k n by simp
    then show "vs ! k = map (wcell w) [e - n + 1..e] ! k" using vs(2, 3) k m n by (simp add: wcell_def)
  qed
  with vs(1) show ?thesis by simp
qed

text \<open>C33: The two loops of the wheel, over the slots up to the end of the store and over those that wrap
  around to its start, are one pass over the slots counted modulo the wheel: setting or adding changes
  exactly the cells whose slot lies fewer than the given number of slots after the first one and whose
  bin is in the given range, each of them once, and panics for no such arguments.\<close>

theorem wheel_loops_modular:
  assumes "wheel_ok w" "a < wh_slots w" "n \<le> wh_slots w" "bb < wh_bins w" "bb + nb \<le> wh_bins w"
  shows "\<exists>w' w''. Wheel_set a n v bb nb w = Some w' \<and> Wheel_add a n v bb nb w = Some w''
    \<and> (\<forall>i < wh_slots w. \<forall>j < wh_bins w.
         (let k = i * wh_bins w + j; changed = ((i + wh_slots w - a) mod wh_slots w < n \<and> bb \<le> j \<and> j < bb + nb)
          in wh_store w' ! k = (if changed then v else wh_store w ! k)
             \<and> wh_store w'' ! k = (if changed then f64_add (wh_store w ! k) v else wh_store w ! k)))"
proof -
  obtain w' w'' where "Wheel_set a n v bb nb w = Some w'" "wheel_changed (\<lambda>_. v) a n bb nb w w'"
      "Wheel_add a n v bb nb w = Some w''" "wheel_changed (\<lambda>old. f64_add old v) a n bb nb w w''"
    using wheel_apply_changed [OF assms] unfolding Wheel_set_def Wheel_add_def by blast
  then show ?thesis by (auto simp: wheel_changed_def Let_def)
qed

theorem wheel_loops_modular_witness:
  "\<exists>w'. Wheel_set 2 2 f64_one 0 1 (Wheel_new 3 1) = Some w' \<and> wh_store w' ! 0 = f64_one \<and> wh_store w' ! 1 = 0"
proof -
  have w: "wheel_ok (Wheel_new 3 1)" "wh_slots (Wheel_new 3 1) = 3" "wh_bins (Wheel_new 3 1) = 1" "wh_store (Wheel_new 3 1) ! 1 = 0"
    by (simp_all add: wheel_ok_def Wheel_new_def)
  obtain w' where w': "Wheel_set 2 2 f64_one 0 1 (Wheel_new 3 1) = Some w'"
      "\<forall>i < 3. \<forall>j < 1. (let k = i * 1 + j; changed = ((i + 3 - 2) mod 3 < 2 \<and> 0 \<le> j \<and> j < 0 + 1)
          in wh_store w' ! k = (if changed then f64_one else wh_store (Wheel_new 3 1) ! k))"
    using wheel_loops_modular [OF w(1), of 2 2 0 1 f64_one] unfolding w by (auto simp: Let_def)
  show ?thesis using w'(1) w'(2) [rule_format, of 0 0] w'(2) [rule_format, of 1 0] w(4) by simp
qed

end
