(* ===== verification/Noise_Energy.thy ===== *)
theory Noise_Energy
  imports Noise_Recorder
begin

text \<open>
  What the recorder promises: the record \<open>NoiseSpec\<close> keeps the energy of every bin as a function, and
  \<open>noise_rel\<close> relates a recorder without sub-bands to it. Updates and window reads implement the
  specification; the limits of the wheel, beyond which they do not, are stated and shown.
\<close>



section \<open>What is recorded\<close>

text \<open>The specification: the range of bins with something in them, and the energy of every bin. A
  reception adds its power to every bin it covers; one that starts a whole wheel after everything
  recorded starts afresh.\<close>

record NoiseSpec =
  ns_range :: "(int \<times> int) option"
  ns_energy :: "int \<Rightarrow> f64"

definition spec_empty :: NoiseSpec where
  "spec_empty = \<lparr>ns_range = None, ns_energy = (\<lambda>_. 0)\<rparr>"

definition spec_recent :: "int \<Rightarrow> int \<Rightarrow> NoiseSpec \<Rightarrow> NoiseSpec" where
  "spec_recent W s sp = (case ns_range sp of Some (lo, hi) \<Rightarrow> if hi + W \<le> s then spec_empty else sp | None \<Rightarrow> sp)"

definition spec_record :: "int \<Rightarrow> f64 \<Rightarrow> int \<Rightarrow> int \<Rightarrow> NoiseSpec \<Rightarrow> NoiseSpec" where
  "spec_record W p s e sp =
     (let sp = spec_recent W s sp
      in case ns_range sp of
           None \<Rightarrow> \<lparr>ns_range = Some (s, e), ns_energy = (\<lambda>b. if s \<le> b \<and> b \<le> e then p else 0)\<rparr>
         | Some (lo, hi) \<Rightarrow>
             \<lparr>ns_range = Some (min lo s, max hi e),
              ns_energy = (\<lambda>b. if s \<le> b \<and> b \<le> e
                 then (if lo \<le> b \<and> b \<le> hi then f64_add (ns_energy sp b) p else p) else ns_energy sp b)\<rparr>)"

definition ring :: "int \<Rightarrow> Wheel \<Rightarrow> bool" where
  "ring W w \<longleftrightarrow> wheel_ok w \<and> wh_bins w = 1 \<and> int (wh_slots w) = W \<and> W < 2 ^ 62"

definition recorded :: "int \<Rightarrow> Wheel \<Rightarrow> int \<Rightarrow> int \<Rightarrow> (int \<Rightarrow> f64) \<Rightarrow> bool" where
  "recorded W w lo hi energy \<longleftrightarrow>
     0 < lo \<and> lo \<le> hi \<and> hi < 2 ^ 62
     \<and> (\<forall>b. lo \<le> b \<longrightarrow> b \<le> hi \<longrightarrow> hi - W < b \<longrightarrow> wcell w b = energy b) \<and> (\<forall>b. b < lo \<or> hi < b \<longrightarrow> energy b = 0)"

text \<open>A recorder without sub-bands and the specification it implements.\<close>

definition noise_rel :: "NoiseRecorder \<Rightarrow> NoiseSpec \<Rightarrow> bool" where
  "noise_rel nr sp \<longleftrightarrow>
     nr_bandwidth_bin_size_hz nr = 0 \<and> nr_total_sub_band_bins nr = 1 \<and> 0 < nr_bin_size_microseconds nr
     \<and> 0 < nr_total_window_bins nr \<and> ring (nr_total_wheel_bins nr) (nr_wheel nr)
     \<and> (case ns_range sp of
          None \<Rightarrow> nr_min_start_of_reception_bin nr = 0 \<and> nr_max_end_of_reception_bin nr = 0 \<and> ns_energy sp = (\<lambda>_. 0)
        | Some (lo, hi) \<Rightarrow> nr_min_start_of_reception_bin nr = lo \<and> nr_max_end_of_reception_bin nr = hi
            \<and> recorded (nr_total_wheel_bins nr) (nr_wheel nr) lo hi (ns_energy sp))"

text \<open>A reception the wheel has room for: not longer than the wheel, not older than a wheel before the
  last recorded bin, and, unless it starts afresh, not reaching further than a wheel beyond it.\<close>

definition reception_fits :: "int \<Rightarrow> int \<Rightarrow> int \<Rightarrow> NoiseSpec \<Rightarrow> bool" where
  "reception_fits W s e sp \<longleftrightarrow>
     0 < s \<and> s \<le> e \<and> e - s < W \<and> e < 2 ^ 62
     \<and> (case ns_range sp of Some (lo, hi) \<Rightarrow> hi - W < s \<and> (s < hi + W \<longrightarrow> e \<le> hi + W) | None \<Rightarrow> True)"

lemma ring_pos: "ring W w \<Longrightarrow> 0 < W"
  by (simp add: ring_def wheel_ok_def)

lemma as_usize_small: "0 \<le> x \<Longrightarrow> x < 2 ^ 64 \<Longrightarrow> as_usize x = nat x"
  by (simp add: as_usize_def)

lemma index_mod: "0 < W \<Longrightarrow> 0 \<le> x \<Longrightarrow> nat x mod nat W = nat (x mod W)"
  by (simp add: nat_mod_distrib)

lemma index_add: "0 < W \<Longrightarrow> 0 \<le> k \<Longrightarrow> (nat (x mod W) + nat k) mod nat W = nat ((x + k) mod W)"
proof -
  assume W: "0 < W" and k: "0 \<le> k"
  have "nat (x mod W) + nat k = nat (x mod W + k)" using W k by (simp add: nat_add_distrib)
  then show ?thesis using W k by (simp add: index_mod mod_add_left_eq)
qed

lemma mod_range:
  assumes "0 \<le> n" "n \<le> W" "0 < W" "x + n - W \<le> b" "b < x + W"
  shows "(b - x) mod W < n \<longleftrightarrow> x \<le> b \<and> b < x + (n::int)"
proof (cases "x \<le> b")
  case True
  then have "(b - x) mod W = b - x" using assms by simp
  then show ?thesis using True by auto
next
  case False
  have "(b - x) mod W = (b - x + W) mod W" by simp
  also have "\<dots> = b - x + W" using False assms by (intro mod_pos_pos_trivial) auto
  finally show ?thesis using False assms by auto
qed

lemma ring_op:
  assumes r: "ring W w" and n: "0 \<le> n" "n \<le> W" and x: "x + n \<le> hi + 1" "hi < x + W"
  shows "\<exists>w'. wheel_apply f (nat (x mod W)) (nat n) 0 1 w = Some w' \<and> ring W w'
    \<and> (\<forall>b. hi - W < b \<longrightarrow> b \<le> hi \<longrightarrow> wcell w' b = (if x \<le> b \<and> b < x + n then f (wcell w b) else wcell w b))"
proof -
  have W: "int (wh_slots w) = W" "0 < W" using r ring_pos by (auto simp: ring_def)
  obtain w' where "wheel_apply f (nat (x mod W)) (nat n) 0 1 w = Some w'" "wheel_ok w'" "wh_slots w' = wh_slots w" "wh_bins w' = 1"
      "\<forall>b. wcell w' b = (if (b - x) mod W < n then f (wcell w b) else wcell w b)"
    using wheel_apply_cells [of w n f x] r n W by (auto simp: ring_def)
  moreover have "(b - x) mod W < n \<longleftrightarrow> x \<le> b \<and> b < x + n" if "hi - W < b" "b \<le> hi" for b
    by (rule mod_range) (use n W x that in linarith)+
  ultimately show ?thesis using r by (auto simp: ring_def)
qed

text \<open>An operation that may have nothing to do.\<close>

lemma ring_op_if:
  assumes r: "ring W w" and n: "0 \<le> n" "n \<le> W" and x: "x + n \<le> hi + 1" "hi < x + W" and c: "\<not> c \<Longrightarrow> n = 0"
  shows "\<exists>w'. (if c then wheel_apply f (nat (x mod W)) (nat n) 0 1 w else Some w) = Some w' \<and> ring W w'
    \<and> (\<forall>b. hi - W < b \<longrightarrow> b \<le> hi \<longrightarrow> wcell w' b = (if x \<le> b \<and> b < x + n then f (wcell w b) else wcell w b))"
proof (cases c)
  case True
  then show ?thesis using ring_op [OF r n x] by simp
next
  case False
  then show ?thesis using r c by auto
qed

text \<open>The situation of \<open>write_more\<close> in a recorder without sub-bands: what was recorded and a reception
  that fits.\<close>

definition more_fits :: "NoiseRecorder \<Rightarrow> Reception \<Rightarrow> bool" where
  "more_fits nr r \<longleftrightarrow>
     nr_total_sub_band_bins nr = 1 \<and> rc_first r = 0 \<and> rc_width r = 1
     \<and> rc_start_index r = nat (rc_start_bin r mod nr_total_wheel_bins nr)
     \<and> 0 < nr_total_wheel_bins nr \<and> nr_total_wheel_bins nr < 2 ^ 62
     \<and> 0 < nr_min_start_of_reception_bin nr \<and> nr_min_start_of_reception_bin nr \<le> nr_max_end_of_reception_bin nr
     \<and> nr_max_end_of_reception_bin nr < 2 ^ 62
     \<and> 0 < rc_start_bin r \<and> rc_start_bin r \<le> rc_end_bin r \<and> rc_end_bin r < 2 ^ 62
     \<and> rc_end_bin r - rc_start_bin r < nr_total_wheel_bins nr
     \<and> nr_max_end_of_reception_bin nr - nr_total_wheel_bins nr < rc_start_bin r
     \<and> rc_start_bin r < nr_max_end_of_reception_bin nr + nr_total_wheel_bins nr
     \<and> rc_end_bin r \<le> nr_max_end_of_reception_bin nr + nr_total_wheel_bins nr"

definition more_hi :: "NoiseRecorder \<Rightarrow> Reception \<Rightarrow> int" where
  "more_hi nr r = max (nr_max_end_of_reception_bin nr) (rc_end_bin r)"

definition cells_changed :: "int \<Rightarrow> int \<Rightarrow> (f64 \<Rightarrow> f64) \<Rightarrow> int \<Rightarrow> int \<Rightarrow> Wheel \<Rightarrow> Wheel \<Rightarrow> bool" where
  "cells_changed W hi f x n w w' \<longleftrightarrow>
     (\<forall>b. hi - W < b \<longrightarrow> b \<le> hi \<longrightarrow> wcell w' b = (if x \<le> b \<and> b < x + n then f (wcell w b) else wcell w b))"

lemma write_before_cells:
  assumes m: "more_fits nr r" and w: "ring (nr_total_wheel_bins nr) w"
  shows "\<exists>w'. write_before nr r w = Some w' \<and> ring (nr_total_wheel_bins nr) w'
    \<and> cells_changed (nr_total_wheel_bins nr) (more_hi nr r) (\<lambda>_. rc_power r) (rc_start_bin r) (before_count nr r) w w'"
proof -
  have n: "0 \<le> before_count nr r" "before_count nr r \<le> nr_total_wheel_bins nr"
      "rc_start_bin r + before_count nr r \<le> more_hi nr r + 1" "more_hi nr r < rc_start_bin r + nr_total_wheel_bins nr"
      "\<not> rc_start_bin r < nr_min_start_of_reception_bin nr \<Longrightarrow> before_count nr r = 0"
    using m by (auto simp: more_fits_def more_hi_def before_count_def rc_bins_def)
  have "as_usize (before_count nr r) = nat (before_count nr r)"
    by (rule as_usize_small) (use n m in \<open>auto simp: more_fits_def\<close>)
  then have "write_before nr r w = (if rc_start_bin r < nr_min_start_of_reception_bin nr
      then wheel_apply (\<lambda>_. rc_power r) (nat (rc_start_bin r mod nr_total_wheel_bins nr)) (nat (before_count nr r)) 0 1 w else Some w)"
    using m by (simp add: write_before_def more_fits_def Wheel_set_def)
  then show ?thesis using ring_op_if [OF w n, where f = "\<lambda>_. rc_power r"] by (simp add: cells_changed_def)
qed

lemma write_after_cells:
  assumes m: "more_fits nr r" and w: "ring (nr_total_wheel_bins nr) w"
  shows "\<exists>w'. write_after nr r w = Some w' \<and> ring (nr_total_wheel_bins nr) w'
    \<and> cells_changed (nr_total_wheel_bins nr) (more_hi nr r) (\<lambda>_. rc_power r) (rc_end_bin r + 1 - after_count nr r) (after_count nr r) w w'"
proof -
  let ?W = "nr_total_wheel_bins nr" and ?x = "rc_end_bin r + 1 - after_count nr r"
  have n: "0 \<le> after_count nr r" "after_count nr r \<le> ?W" "?x + after_count nr r \<le> more_hi nr r + 1"
      "\<not> rc_end_bin r > nr_max_end_of_reception_bin nr \<Longrightarrow> after_count nr r = 0"
      "rc_end_bin r > nr_max_end_of_reception_bin nr \<Longrightarrow> more_hi nr r < ?x + ?W"
      "after_count nr r \<le> rc_bins r" "0 \<le> rc_bins r" "rc_bins r < 2 ^ 64" "0 < ?W" "?W < 2 ^ 64"
    using m by (auto simp: more_fits_def more_hi_def after_count_def rc_bins_def)
  have u: "as_usize (after_count nr r) = nat (after_count nr r)" "as_usize (rc_bins r) = nat (rc_bins r)" "as_usize ?W = nat ?W"
    by (rule as_usize_small, use n in linarith, use n in linarith)+
  have "nat (rc_bins r) - nat (after_count nr r) = nat (rc_bins r - after_count nr r)" using n by (simp add: nat_diff_distrib)
  then have "(nat (rc_start_bin r mod ?W) + nat (rc_bins r) - nat (after_count nr r)) mod nat ?W =
      (nat (rc_start_bin r mod ?W) + nat (rc_bins r - after_count nr r)) mod nat ?W"
    using n by (metis Nat.add_diff_assoc nat_mono)
  also have "\<dots> = nat ((rc_start_bin r + (rc_bins r - after_count nr r)) mod ?W)" using n by (intro index_add) auto
  also have "rc_start_bin r + (rc_bins r - after_count nr r) = ?x" by (simp add: rc_bins_def)
  finally have idx: "(nat (rc_start_bin r mod ?W) + nat (rc_bins r) - nat (after_count nr r)) mod nat ?W = nat (?x mod ?W)" .
  show ?thesis
  proof (cases "rc_end_bin r > nr_max_end_of_reception_bin nr")
    case True
    then have "write_after nr r w = wheel_apply (\<lambda>_. rc_power r) (nat (?x mod ?W)) (nat (after_count nr r)) 0 1 w"
      using m u idx by (simp add: write_after_def more_fits_def Wheel_set_def)
    then show ?thesis using ring_op [OF w n(1-3) n(5) [OF True], of "\<lambda>_. rc_power r"] by (simp add: cells_changed_def)
  next
    case False
    then show ?thesis using w n(4) by (auto simp: write_after_def cells_changed_def)
  qed
qed

lemma write_within_cells:
  assumes m: "more_fits nr r" and w: "ring (nr_total_wheel_bins nr) w"
    and pos: "rc_bins r - before_count nr r - after_count nr r > 0"
  shows "\<exists>w'. write_within nr r w = Some w' \<and> ring (nr_total_wheel_bins nr) w'
    \<and> cells_changed (nr_total_wheel_bins nr) (more_hi nr r) (\<lambda>old. f64_add old (rc_power r)) (rc_start_bin r + before_count nr r)
        (rc_bins r - before_count nr r - after_count nr r) w w'"
proof -
  let ?W = "nr_total_wheel_bins nr" and ?x = "rc_start_bin r + before_count nr r"
    and ?n = "rc_bins r - before_count nr r - after_count nr r"
  have n: "0 \<le> ?n" "?n \<le> ?W" "?x + ?n \<le> more_hi nr r + 1" "more_hi nr r < ?x + ?W"
      "0 \<le> before_count nr r" "before_count nr r < 2 ^ 64" "?n < 2 ^ 64" "0 < ?W" "?W < 2 ^ 64"
    using m pos by (auto simp: more_fits_def more_hi_def after_count_def before_count_def rc_bins_def)
  have u: "as_usize (before_count nr r) = nat (before_count nr r)" "as_usize ?n = nat ?n" "as_usize ?W = nat ?W"
    by (rule as_usize_small, use n in linarith, use n in linarith)+
  have "(nat (rc_start_bin r mod ?W) + nat (before_count nr r)) mod nat ?W = nat (?x mod ?W)" using n by (intro index_add) auto
  then have "write_within nr r w = wheel_apply (\<lambda>old. f64_add old (rc_power r)) (nat (?x mod ?W)) (nat ?n) 0 1 w"
    using m u by (simp add: write_within_def more_fits_def Wheel_add_def Let_def)
  then show ?thesis using ring_op [OF w n(1-4), of "\<lambda>old. f64_add old (rc_power r)"] by (simp add: cells_changed_def)
qed

text \<open>Nothing shared with what was recorded: the bins between are cleared, on one side.\<close>

lemma clear_gaps_cells:
  assumes m: "more_fits nr r" and w: "ring (nr_total_wheel_bins nr) w"
    and disj: "\<not> rc_bins r - before_count nr r - after_count nr r > 0"
  shows "\<exists>w'. clear_gaps nr r w = Some w' \<and> ring (nr_total_wheel_bins nr) w'
    \<and> (if rc_end_bin r < nr_min_start_of_reception_bin nr
       then cells_changed (nr_total_wheel_bins nr) (more_hi nr r) (\<lambda>_. 0) (rc_end_bin r + 1)
              (nr_min_start_of_reception_bin nr - rc_end_bin r - 1) w w'
       else nr_max_end_of_reception_bin nr < rc_start_bin r
         \<and> cells_changed (nr_total_wheel_bins nr) (more_hi nr r) (\<lambda>_. 0) (nr_max_end_of_reception_bin nr + 1)
              (rc_start_bin r - nr_max_end_of_reception_bin nr - 1) w w')"
proof -
  let ?W = "nr_total_wheel_bins nr" and ?lo = "nr_min_start_of_reception_bin nr" and ?hi = "nr_max_end_of_reception_bin nr"
  have W: "0 < ?W" "?W < 2 ^ 64" "as_usize ?W = nat ?W" using m as_usize_small [of ?W] by (auto simp: more_fits_def)
  consider (before) "rc_end_bin r < ?lo" "before_count nr r = rc_bins r" "after_count nr r = 0"
    | (after) "?hi < rc_start_bin r" "\<not> rc_end_bin r < ?lo" "before_count nr r = 0" "after_count nr r = rc_bins r"
    using m disj by (auto simp: more_fits_def after_count_def before_count_def rc_bins_def split: if_splits)
  then show ?thesis
  proof cases
    case before
    let ?n = "?lo - rc_end_bin r - 1"
    have n: "0 \<le> ?n" "?n \<le> ?W" "rc_end_bin r + 1 + ?n \<le> more_hi nr r + 1" "more_hi nr r < rc_end_bin r + 1 + ?W"
        "?n < 2 ^ 64" "0 < rc_bins r" "rc_bins r < 2 ^ 64"
      using m before(1) by (auto simp: more_fits_def more_hi_def rc_bins_def)
    have u: "as_usize ?n = nat ?n" "as_usize (rc_bins r) = nat (rc_bins r)"
      by (rule as_usize_small, use n in linarith, use n in linarith)+
    have "(nat (rc_start_bin r mod ?W) + nat (rc_bins r)) mod nat ?W = nat ((rc_end_bin r + 1) mod ?W)"
      using index_add [of ?W "rc_bins r" "rc_start_bin r"] W n by (simp add: rc_bins_def)
    moreover have "?lo - (rc_start_bin r + rc_bins r) = ?n" by (simp add: rc_bins_def)
    then have "as_usize (?lo - (rc_start_bin r + rc_bins r)) = nat ?n" using u(1) by (simp only:)
    ultimately have "clear_gaps nr r w = wheel_apply (\<lambda>_. 0) (nat ((rc_end_bin r + 1) mod ?W)) (nat ?n) 0 1 w"
      using m u W n before by (simp add: clear_gaps_def more_fits_def Wheel_set_def)
    then show ?thesis using ring_op [OF w n(1-4), of "\<lambda>_. 0"] before by (simp add: cells_changed_def)
  next
    case after
    let ?n = "rc_start_bin r - ?hi - 1"
    have n: "0 \<le> ?n" "?n \<le> ?W" "?hi + 1 + ?n \<le> more_hi nr r + 1" "more_hi nr r < ?hi + 1 + ?W"
        "?n < 2 ^ 64" "0 \<le> ?hi + 1" "?hi + 1 < 2 ^ 64" "0 < rc_bins r"
      using m after(1) by (auto simp: more_fits_def more_hi_def rc_bins_def)
    have u: "as_usize ?n = nat ?n" "as_usize (?hi + 1) = nat (?hi + 1)"
      by (rule as_usize_small, use n in linarith, use n in linarith)+
    have "nat (?hi + 1) mod nat ?W = nat ((?hi + 1) mod ?W)" using n W by (intro index_mod) auto
    then have "clear_gaps nr r w = wheel_apply (\<lambda>_. 0) (nat ((?hi + 1) mod ?W)) (nat ?n) 0 1 w"
      using m u W n after by (simp add: clear_gaps_def more_fits_def Wheel_set_def)
    then show ?thesis using ring_op [OF w n(1-4), of "\<lambda>_. 0"] after by (simp add: cells_changed_def)
  qed
qed

lemma cells_changedD:
  assumes "cells_changed W (more_hi nr r) f x n w w'"
    and "b \<le> max (nr_max_end_of_reception_bin nr) (rc_end_bin r)" "max (nr_max_end_of_reception_bin nr) (rc_end_bin r) - W < b"
  shows "wcell w' b = (if x \<le> b \<and> b < x + n then f (wcell w b) else wcell w b)"
  using assms by (simp add: cells_changed_def more_hi_def)

text \<open>The energy of a bin after a reception was recorded over what there was.\<close>

definition new_energy :: "NoiseRecorder \<Rightarrow> Reception \<Rightarrow> (int \<Rightarrow> f64) \<Rightarrow> int \<Rightarrow> f64" where
  "new_energy nr r energy b =
     (if rc_start_bin r \<le> b \<and> b \<le> rc_end_bin r
      then (if nr_min_start_of_reception_bin nr \<le> b \<and> b \<le> nr_max_end_of_reception_bin nr
            then f64_add (energy b) (rc_power r) else rc_power r)
      else energy b)"

definition more_window :: "NoiseRecorder \<Rightarrow> Reception \<Rightarrow> int \<Rightarrow> bool" where
  "more_window nr r b \<longleftrightarrow>
     min (nr_min_start_of_reception_bin nr) (rc_start_bin r) \<le> b \<and> b \<le> max (nr_max_end_of_reception_bin nr) (rc_end_bin r)
     \<and> max (nr_max_end_of_reception_bin nr) (rc_end_bin r) - nr_total_wheel_bins nr < b"

lemma overlap_cells:
  assumes m: "more_fits nr r" and pos: "rc_bins r - before_count nr r - after_count nr r > 0"
    and rec: "recorded (nr_total_wheel_bins nr) w (nr_min_start_of_reception_bin nr) (nr_max_end_of_reception_bin nr) energy"
    and w1: "cells_changed (nr_total_wheel_bins nr) (more_hi nr r) (\<lambda>_. rc_power r) (rc_start_bin r) (before_count nr r) w w1"
    and w2: "cells_changed (nr_total_wheel_bins nr) (more_hi nr r) (\<lambda>_. rc_power r)
      (rc_end_bin r + 1 - after_count nr r) (after_count nr r) w1 w2"
    and w3: "cells_changed (nr_total_wheel_bins nr) (more_hi nr r) (\<lambda>old. f64_add old (rc_power r))
      (rc_start_bin r + before_count nr r) (rc_bins r - before_count nr r - after_count nr r) w2 w3"
    and b: "more_window nr r b"
  shows "wcell w3 b = new_energy nr r energy b"
proof -
  let ?lo = "nr_min_start_of_reception_bin nr" and ?hi = "nr_max_end_of_reception_bin nr"
  let ?s = "rc_start_bin r" and ?e = "rc_end_bin r" and ?bc = "before_count nr r" and ?ac = "after_count nr r"
  have shape: "?s + ?bc = max ?lo ?s" "?s + rc_bins r - ?ac = min ?hi ?e + 1" "?lo \<le> ?e" "?s \<le> ?hi" "?s + rc_bins r = ?e + 1"
    using m pos by (auto simp: more_fits_def after_count_def before_count_def rc_bins_def split: if_splits)
  note b' = b [unfolded more_window_def]
  have c1: "wcell w1 b = (if ?s \<le> b \<and> b < ?s + ?bc then rc_power r else wcell w b)"
    using cells_changedD [OF w1] b' by auto
  have c2: "wcell w2 b = (if ?e + 1 - ?ac \<le> b \<and> b < ?e + 1 then rc_power r else wcell w1 b)"
    using cells_changedD [OF w2] b' by auto
  have "?s + ?bc + (rc_bins r - ?bc - ?ac) = ?s + rc_bins r - ?ac" by simp
  then have c3: "wcell w3 b = (if ?s + ?bc \<le> b \<and> b < ?s + rc_bins r - ?ac then f64_add (wcell w2 b) (rc_power r) else wcell w2 b)"
    using cells_changedD [OF w3] b' by auto
  consider "b < ?lo" "?s \<le> b" "b \<le> ?e" | "?lo \<le> b" "b \<le> ?hi" | "?hi < b" "?s \<le> b" "b \<le> ?e"
    using b' shape by fastforce
  then show ?thesis
  proof cases
    case 2
    then have "wcell w b = energy b" using rec b' by (auto simp: recorded_def)
    then show ?thesis using 2 c1 c2 c3 shape by (auto simp: new_energy_def)
  qed (use c1 c2 c3 shape in \<open>auto simp: new_energy_def\<close>)
qed

lemma gap_cells:
  assumes m: "more_fits nr r"
    and rec: "recorded (nr_total_wheel_bins nr) w (nr_min_start_of_reception_bin nr) (nr_max_end_of_reception_bin nr) energy"
    and w1: "cells_changed (nr_total_wheel_bins nr) (more_hi nr r) (\<lambda>_. rc_power r) (rc_start_bin r) (before_count nr r) w w1"
    and w2: "cells_changed (nr_total_wheel_bins nr) (more_hi nr r) (\<lambda>_. rc_power r)
      (rc_end_bin r + 1 - after_count nr r) (after_count nr r) w1 w2"
    and w3: "if rc_end_bin r < nr_min_start_of_reception_bin nr
       then cells_changed (nr_total_wheel_bins nr) (more_hi nr r) (\<lambda>_. 0) (rc_end_bin r + 1)
              (nr_min_start_of_reception_bin nr - rc_end_bin r - 1) w2 w3
       else nr_max_end_of_reception_bin nr < rc_start_bin r
         \<and> cells_changed (nr_total_wheel_bins nr) (more_hi nr r) (\<lambda>_. 0) (nr_max_end_of_reception_bin nr + 1)
              (rc_start_bin r - nr_max_end_of_reception_bin nr - 1) w2 w3"
    and b: "more_window nr r b"
  shows "wcell w3 b = new_energy nr r energy b"
proof -
  let ?lo = "nr_min_start_of_reception_bin nr" and ?hi = "nr_max_end_of_reception_bin nr"
  let ?s = "rc_start_bin r" and ?e = "rc_end_bin r" and ?bc = "before_count nr r" and ?ac = "after_count nr r"
  note b' = b [unfolded more_window_def]
  have c1: "wcell w1 b = (if ?s \<le> b \<and> b < ?s + ?bc then rc_power r else wcell w b)"
    using cells_changedD [OF w1] b' by auto
  have c2: "wcell w2 b = (if ?e + 1 - ?ac \<le> b \<and> b < ?e + 1 then rc_power r else wcell w1 b)"
    using cells_changedD [OF w2] b' by auto
  have old: "wcell w b = energy b" if "?lo \<le> b" "b \<le> ?hi" using rec b' that by (auto simp: recorded_def)
  have zero: "b < ?lo \<Longrightarrow> energy b = 0" "?hi < b \<Longrightarrow> energy b = 0" using rec by (auto simp: recorded_def)
  have se: "?s \<le> ?e" "?lo \<le> ?hi" using m by (auto simp: more_fits_def)
  show ?thesis
  proof (cases "?e < ?lo")
    case True
    then have k: "?bc = ?e - ?s + 1" "?ac = 0" using se by (auto simp: after_count_def before_count_def rc_bins_def)
    have "wcell w3 b = (if ?e < b \<and> b < ?lo then 0 else wcell w2 b)"
      using cells_changedD [of _ nr r _ _ _ w2 w3 b] w3 True b' by auto
    then show ?thesis using True c1 c2 old zero b' k se by (auto simp: new_energy_def)
  next
    case False
    then have k: "?hi < ?s" "?ac = ?e - ?s + 1" "?bc = 0" using w3 se by (auto simp: after_count_def before_count_def rc_bins_def)
    have "wcell w3 b = (if ?hi < b \<and> b < ?s then 0 else wcell w2 b)"
      using cells_changedD [of _ nr r _ _ _ w2 w3 b] w3 False b' by auto
    then show ?thesis using c1 c2 old zero b' k se by (auto simp: new_energy_def)
  qed
qed

lemma write_more_refines:
  assumes m: "more_fits nr r" and w: "ring (nr_total_wheel_bins nr) (nr_wheel nr)"
    and rec: "recorded (nr_total_wheel_bins nr) (nr_wheel nr) (nr_min_start_of_reception_bin nr) (nr_max_end_of_reception_bin nr) energy"
  shows "\<exists>w'. write_more nr r = Some (nr\<lparr>nr_wheel := w',
        nr_min_start_of_reception_bin := min (nr_min_start_of_reception_bin nr) (rc_start_bin r),
        nr_max_end_of_reception_bin := max (nr_max_end_of_reception_bin nr) (rc_end_bin r)\<rparr>)
    \<and> ring (nr_total_wheel_bins nr) w'
    \<and> recorded (nr_total_wheel_bins nr) w' (min (nr_min_start_of_reception_bin nr) (rc_start_bin r))
        (max (nr_max_end_of_reception_bin nr) (rc_end_bin r)) (new_energy nr r energy)"
proof -
  let ?W = "nr_total_wheel_bins nr" and ?lo = "nr_min_start_of_reception_bin nr" and ?hi = "nr_max_end_of_reception_bin nr"
  let ?s = "rc_start_bin r" and ?e = "rc_end_bin r" and ?bc = "before_count nr r" and ?ac = "after_count nr r"
  obtain w1 where w1: "write_before nr r (nr_wheel nr) = Some w1" "ring ?W w1"
      "cells_changed ?W (more_hi nr r) (\<lambda>_. rc_power r) ?s ?bc (nr_wheel nr) w1"
    using write_before_cells [OF m w] by blast
  obtain w2 where w2: "write_after nr r w1 = Some w2" "ring ?W w2"
      "cells_changed ?W (more_hi nr r) (\<lambda>_. rc_power r) (?e + 1 - ?ac) ?ac w1 w2"
    using write_after_cells [OF m w1(2)] by blast
  obtain w3 where w3: "(if rc_bins r - ?bc - ?ac > 0 then write_within nr r w2 else clear_gaps nr r w2) = Some w3" "ring ?W w3"
      "\<And>b. more_window nr r b \<Longrightarrow> wcell w3 b = new_energy nr r energy b"
  proof (cases "rc_bins r - ?bc - ?ac > 0")
    case True
    then show ?thesis using write_within_cells [OF m w2(2) True] overlap_cells [OF m True rec w1(3) w2(3)] that by auto
  next
    case False
    then show ?thesis using clear_gaps_cells [OF m w2(2) False] gap_cells [OF m rec w1(3) w2(3)] that by auto
  qed
  have "0 < min ?lo ?s" "min ?lo ?s \<le> max ?hi ?e" "max ?hi ?e < 2 ^ 62" using m by (auto simp: more_fits_def)
  moreover have "new_energy nr r energy b = 0" if "b < min ?lo ?s \<or> max ?hi ?e < b" for b
    using rec that by (auto simp: recorded_def new_energy_def)
  ultimately have "recorded ?W w3 (min ?lo ?s) (max ?hi ?e) (new_energy nr r energy)"
    using w3(3) by (simp add: recorded_def more_window_def)
  moreover have "min ?lo ?s = (if ?bc > 0 then ?s else ?lo)" "max ?hi ?e = (if ?ac > 0 then ?e else ?hi)"
    using m by (auto simp: more_fits_def after_count_def before_count_def rc_bins_def)
  then have "write_more nr r = Some (nr\<lparr>nr_wheel := w3, nr_min_start_of_reception_bin := min ?lo ?s,
      nr_max_end_of_reception_bin := max ?hi ?e\<rparr>)"
    by (simp only: write_more_def w1(1) w2(1) w3(1) Option.bind.bind_lunit)
  ultimately show ?thesis using w3(2) by blast
qed

lemma i64_sat_small: "0 \<le> x \<Longrightarrow> x < 2 ^ 63 \<Longrightarrow> i64_sat x = x"
  by (simp add: i64_sat_def i64_min_def i64_max_def)

lemma write_first_refines:
  assumes w: "ring (nr_total_wheel_bins nr) (nr_wheel nr)" "nr_total_sub_band_bins nr = 1"
    and r: "rc_first r = 0" "rc_width r = 1" "rc_start_index r = nat (rc_start_bin r mod nr_total_wheel_bins nr)"
    and fits: "0 < rc_start_bin r" "rc_start_bin r \<le> rc_end_bin r" "rc_end_bin r - rc_start_bin r < nr_total_wheel_bins nr"
      "rc_end_bin r < 2 ^ 62"
  shows "\<exists>w'. write_first nr r = Some (nr\<lparr>nr_wheel := w', nr_min_start_of_reception_bin := rc_start_bin r,
        nr_max_end_of_reception_bin := rc_end_bin r\<rparr>)
    \<and> ring (nr_total_wheel_bins nr) w'
    \<and> recorded (nr_total_wheel_bins nr) w' (rc_start_bin r) (rc_end_bin r)
        (\<lambda>b. if rc_start_bin r \<le> b \<and> b \<le> rc_end_bin r then rc_power r else 0)"
proof -
  let ?W = "nr_total_wheel_bins nr"
  have n: "0 \<le> rc_bins r" "rc_bins r \<le> ?W" "rc_start_bin r + rc_bins r \<le> rc_end_bin r + 1" "rc_end_bin r < rc_start_bin r + ?W"
    using fits by (auto simp: rc_bins_def)
  have "as_usize (rc_bins r) = nat (rc_bins r)" using fits by (intro as_usize_small) (auto simp: rc_bins_def)
  then have "write_first nr r = map_option (\<lambda>w'. nr\<lparr>nr_wheel := w', nr_min_start_of_reception_bin := rc_start_bin r,
        nr_max_end_of_reception_bin := rc_end_bin r\<rparr>)
      (wheel_apply (\<lambda>_. rc_power r) (nat (rc_start_bin r mod ?W)) (nat (rc_bins r)) 0 1 (nr_wheel nr))"
    using w r by (simp add: write_first_def Wheel_set_def map_conv_bind_option comp_def)
  with ring_op [OF w(1) n, of "\<lambda>_. rc_power r"] fits show ?thesis
    by (auto simp: recorded_def rc_bins_def)
qed

lemma record_reception_refines:
  assumes rel: "noise_rel nr sp" and fits: "reception_fits (nr_total_wheel_bins nr) s e sp"
  shows "\<exists>nr'. record_reception p s e 0 1 start_hz end_hz nr = Some nr'
    \<and> noise_rel nr' (spec_record (nr_total_wheel_bins nr) p s e sp)"
proof -
  let ?W = "nr_total_wheel_bins nr"
  have W: "0 < ?W" "?W < 2 ^ 62" using rel ring_pos [of ?W "nr_wheel nr"] by (auto simp: noise_rel_def ring_def)
  define nr0 where "nr0 = (if i64_sat (nr_max_end_of_reception_bin nr + ?W) \<le> s
      then nr\<lparr>nr_max_end_of_reception_bin := 0, nr_min_start_of_reception_bin := 0\<rparr> else nr)"
  define r where "r = \<lparr>rc_power = p, rc_applies = unwrap_or (nr_bin_power_apply_map nr0 (start_hz, end_hz)) [],
      rc_first = 0, rc_width = 1, rc_start_bin = s, rc_end_bin = e, rc_start_index = as_usize s mod as_usize ?W\<rparr>"
  have r: "rc_power r = p" "rc_first r = 0" "rc_width r = 1" "rc_start_bin r = s" "rc_end_bin r = e" by (simp_all add: r_def)
  have nr0: "nr_total_wheel_bins nr0 = ?W" "nr_wheel nr0 = nr_wheel nr" by (simp_all add: nr0_def)
  have run: "record_reception p s e 0 1 start_hz end_hz nr =
      (if nr_max_end_of_reception_bin nr0 = 0 \<and> nr_min_start_of_reception_bin nr0 = 0 then write_first nr0 r else write_more nr0 r)"
    by (simp add: record_reception_def Let_def nr0_def r_def)
  have "as_usize s = nat s" "as_usize ?W = nat ?W"
    by (rule as_usize_small, use W fits in \<open>auto simp: reception_fits_def\<close>)+
  then have idx: "rc_start_index r = nat (s mod ?W)" using index_mod [OF W(1), of s] fits by (simp add: r_def reception_fits_def)
  have rel0: "noise_rel nr0 (spec_recent ?W s sp)"
  proof (cases "ns_range sp")
    case None
    then show ?thesis using rel by (simp add: nr0_def spec_recent_def noise_rel_def)
  next
    case (Some lh)
    obtain lo hi where lh: "lh = (lo, hi)" by (cases lh)
    then have "i64_sat (nr_max_end_of_reception_bin nr + ?W) = hi + ?W"
      using rel Some W by (intro trans [OF i64_sat_small]) (auto simp: noise_rel_def recorded_def)
    then show ?thesis using rel Some lh by (simp add: nr0_def spec_recent_def spec_empty_def noise_rel_def)
  qed
  have f: "0 < s" "s \<le> e" "e - s < ?W" "e < 2 ^ 62" using fits by (simp_all add: reception_fits_def)
  show ?thesis
  proof (cases "ns_range (spec_recent ?W s sp)")
    case None
    obtain w' where "write_first nr0 r = Some (nr0\<lparr>nr_wheel := w', nr_min_start_of_reception_bin := s,
          nr_max_end_of_reception_bin := e\<rparr>)" "ring ?W w'" "recorded ?W w' s e (\<lambda>b. if s \<le> b \<and> b \<le> e then p else 0)"
      using write_first_refines [of nr0 r] rel0 idx f unfolding r nr0 noise_rel_def by blast
    then show ?thesis using run rel0 None nr0 by (simp add: noise_rel_def spec_record_def)
  next
    case (Some lh)
    obtain lo hi where lh: "lh = (lo, hi)" by (cases lh)
    have old: "nr_min_start_of_reception_bin nr0 = lo" "nr_max_end_of_reception_bin nr0 = hi"
        "recorded ?W (nr_wheel nr) lo hi (ns_energy (spec_recent ?W s sp))"
      using rel0 Some lh nr0 by (auto simp: noise_rel_def)
    have sp: "ns_range sp = Some (lo, hi)" "\<not> hi + ?W \<le> s"
      using Some lh by (auto simp: spec_recent_def spec_empty_def split: option.splits prod.splits if_splits)
    have m: "more_fits nr0 r"
      using f old sp fits W nr0 rel0 idx by (simp add: more_fits_def r noise_rel_def recorded_def reception_fits_def)
    have ring0: "ring (nr_total_wheel_bins nr0) (nr_wheel nr0)" using rel0 by (simp add: noise_rel_def)
    obtain w' where "write_more nr0 r = Some (nr0\<lparr>nr_wheel := w', nr_min_start_of_reception_bin := min lo s,
          nr_max_end_of_reception_bin := max hi e\<rparr>)" "ring ?W w'"
        "recorded ?W w' (min lo s) (max hi e) (new_energy nr0 r (ns_energy (spec_recent ?W s sp)))"
      using write_more_refines [OF m ring0, of "ns_energy (spec_recent ?W s sp)"] old unfolding r nr0 by blast
    moreover have "new_energy nr0 r (ns_energy (spec_recent ?W s sp)) = ns_energy (spec_record ?W p s e sp)"
      using Some lh old by (auto simp: new_energy_def spec_record_def r Let_def)
    moreover have "record_reception p s e 0 1 start_hz end_hz nr = write_more nr0 r"
      using run old by (auto simp: recorded_def)
    ultimately show ?thesis using rel0 Some lh nr0 by (simp add: noise_rel_def spec_record_def Let_def)
  qed
qed

lemma noise_rel_eor [simp]: "noise_rel (store_eor_bins a b ts nr) sp = noise_rel nr sp"
  by (simp add: noise_rel_def store_eor_bins_def split: option.split)

lemma noise_rel_fresh:
  assumes "nr_bandwidth_bin_size_hz nr = 0" "nr_total_sub_band_bins nr = 1" "0 < nr_bin_size_microseconds nr"
    and "0 < nr_total_window_bins nr" "0 < nr_total_wheel_bins nr" "nr_total_wheel_bins nr < 2 ^ 62"
    and "nr_wheel nr = Wheel_new (as_usize (nr_total_wheel_bins nr)) 1"
    and "nr_min_start_of_reception_bin nr = 0" "nr_max_end_of_reception_bin nr = 0"
  shows "noise_rel nr spec_empty"
proof -
  have "as_usize (nr_total_wheel_bins nr) = nat (nr_total_wheel_bins nr)" using assms by (intro as_usize_small) auto
  with assms show ?thesis by (simp add: noise_rel_def spec_empty_def ring_def wheel_ok_def Wheel_new_def)
qed

lemma noise_rel_new:
  assumes "nr_total_wheel_bins (NoiseRecorder_new bin offset prop duration sens frequency_hz bandwidth_hz 0) < 2 ^ 62"
  shows "noise_rel (NoiseRecorder_new bin offset prop duration sens frequency_hz bandwidth_hz 0) spec_empty"
proof (rule noise_rel_fresh)
  show "nr_total_wheel_bins (NoiseRecorder_new bin offset prop duration sens frequency_hz bandwidth_hz 0) < 2 ^ 62" by (rule assms)
qed (simp_all add: NoiseRecorder_new_def Let_def less_max_iff_disj)

lemma i64_rem_pos: "0 \<le> a \<Longrightarrow> i64_rem a b = a mod b"
  by (simp add: i64_rem_def i64_quot_def minus_div_mult_eq_mod)

lemma zero_energies:
  assumes "\<And>b. x \<le> b \<Longrightarrow> b \<le> y \<Longrightarrow> energy b = 0" "n = nat (y - x + 1)"
  shows "replicate n 0 = map energy [x..y]"
  using assms by (auto intro!: nth_equalityI)

lemma upto_three:
  assumes "x \<le> y" "y \<le> z" "z \<le> v"
  shows "[x..v] = [x..y - 1] @ [y..z] @ [z + 1..v]"
  using upto_split1 [of x y v] upto_split2 [of y z v] assms by simp

lemma window_values_exact:
  assumes rel: "noise_rel nr sp" and b: "0 \<le> b0" "b0 \<le> b1 + 1" "b1 < 2 ^ 62"
    and recent: "\<And>lo hi. ns_range sp = Some (lo, hi) \<Longrightarrow> hi - nr_total_wheel_bins nr < b0"
  shows "window_values nr b0 b1 (b1 - b0 + 1) = Some (map (ns_energy sp) [b0..b1])"
proof (cases "ns_range sp")
  case None
  then show ?thesis using rel b as_usize_small [of "b1 - b0 + 1"]
    by (simp add: window_values_def noise_rel_def zero_energies [of b0 b1 "\<lambda>_. 0"])
next
  case (Some lh)
  obtain lo hi where lh: "lh = (lo, hi)" by (cases lh)
  let ?W = "nr_total_wheel_bins nr"
  have nr: "nr_min_start_of_reception_bin nr = lo" "nr_max_end_of_reception_bin nr = hi" "nr_total_sub_band_bins nr = 1"
      "recorded ?W (nr_wheel nr) lo hi (ns_energy sp)" "ring ?W (nr_wheel nr)"
    using rel Some lh by (auto simp: noise_rel_def)
  note rec = nr(4) [unfolded recorded_def]
  define after where "after = (if b1 > hi then min (b1 - hi) (b1 - b0 + 1) else 0)"
  define before where "before = (if b0 < lo then min (lo - b0) (b1 - b0 + 1) else 0)"
  have "0 \<le> before" "before < 2 ^ 64" "0 \<le> after" "after < 2 ^ 64" using b rec by (auto simp: before_def after_def)
  then have u: "as_usize before = nat before" "as_usize after = nat after" by (simp_all add: as_usize_small)
  have run: "window_values nr b0 b1 (b1 - b0 + 1) =
      map_option (\<lambda>mid. replicate (nat before) 0 @ mid @ replicate (nat after) 0)
        (if b1 - b0 + 1 - (before + after) > 0
         then Wheel_get (as_usize (i64_rem (b1 - after) ?W)) (as_usize (b1 - b0 + 1 - (before + after))) (nr_wheel nr) else Some [])"
    unfolding window_values_def Let_def nr(1-3) before_def [symmetric] after_def [symmetric] u
    using rec b by (simp add: map_conv_bind_option comp_def)
  show ?thesis
  proof (cases "b1 - b0 + 1 - (before + after) > 0")
    case True
    define x y where "x = max b0 lo" and "y = min b1 hi"
    have shape: "before = x - b0" "after = b1 - y" "x \<le> y" "b0 \<le> x" "lo \<le> x" "y \<le> b1" "y \<le> hi" "x = b0 \<or> x = lo" "y = b1 \<or> y = hi"
      using True b rec by (auto simp: before_def after_def x_def y_def split: if_splits)
    have r: "hi - ?W < b0" using recent Some lh by blast
    have n: "0 < y - x + 1" "y - x + 1 \<le> ?W" "b1 - after = y" "b1 - b0 + 1 - (before + after) = y - x + 1" "0 \<le> y" "?W < 2 ^ 62" "0 < ?W"
      using shape b r nr(5) ring_pos [OF nr(5)] by (auto simp: ring_def)
    have "0 \<le> y mod ?W" "y mod ?W < 2 ^ 64" using n(6) pos_mod_bound [OF n(7), of y] pos_mod_sign [OF n(7), of y] by simp_all
    then have g1: "as_usize (i64_rem y ?W) = nat (y mod ?W)" using n(5) by (simp add: i64_rem_pos as_usize_small)
    have g2: "as_usize (y - x + 1) = nat (y - x + 1)" using n(1, 2, 6) by (intro as_usize_small) simp_all
    have g3: "Wheel_get (nat (y mod ?W)) (nat (y - x + 1)) (nr_wheel nr) = Some (map (wcell (nr_wheel nr)) [x..y])"
      using Wheel_get_cells [of "nr_wheel nr" "y - x + 1" y] nr(5) n by (simp add: ring_def)
    have "map (wcell (nr_wheel nr)) [x..y] = map (ns_energy sp) [x..y]" using rec r shape by auto
    then have "window_values nr b0 b1 (b1 - b0 + 1) =
        Some (replicate (nat before) 0 @ map (ns_energy sp) [x..y] @ replicate (nat after) 0)"
      unfolding run n(3, 4) g1 g2 g3 using n(1) by simp
    moreover have "replicate (nat before) 0 = map (ns_energy sp) [b0..x - 1]"
      using rec shape by (intro zero_energies) auto
    moreover have "replicate (nat after) 0 = map (ns_energy sp) [y + 1..b1]"
      using rec shape by (intro zero_energies) auto
    moreover have "[b0..b1] = [b0..x - 1] @ [x..y] @ [y + 1..b1]" using shape by (intro upto_three) auto
    ultimately show ?thesis by simp
  next
    case False
    then have z: "ns_energy sp c = 0" if "b0 \<le> c" "c \<le> b1" for c
      using rec b that by (auto simp: before_def after_def split: if_splits)
    have "nat before + nat after = nat (b1 - b0 + 1)"
      using False b rec by (auto simp: before_def after_def split: if_splits)
    with z have "replicate (nat before + nat after) 0 = map (ns_energy sp) [b0..b1]" by (intro zero_energies) auto
    then show ?thesis using run False by (simp add: replicate_add)
  qed
qed


section \<open>Properties\<close>

text \<open>C19: Recording implements the specification, for a recorder without sub-bands, times whose sums fit
  64 bits and a reception that the wheel has room for: an update returns the start and end of the
  reception and adds its power to exactly the bins from its start, or from the bin after the last one
  already recorded for the same transmitter and antenna, to its end; an update with no such bin
  changes no energy.\<close>

theorem noise_update_refines:
  fixes nr tx_time offset propagation duration antenna transmitters
  defines "sor \<equiv> tx_time + offset + propagation"
  defines "s \<equiv> max (timepoint_to_bin nr sor False) (stored_max_eor_bin nr antenna transmitters + 1)"
  defines "e \<equiv> timepoint_to_bin nr (sor + duration) True"
  assumes "noise_rel nr sp" and "s \<le> e \<Longrightarrow> reception_fits (nr_total_wheel_bins nr) s e sp"
    and "\<forall>x \<in> {tx_time + offset, sor, sor + duration, e}. i64_min \<le> x \<and> x \<le> i64_max"
  shows "\<exists>nr'. noise_update tx_time offset propagation duration p transmitters start_hz end_hz antenna is_more nr =
        Some ((sor, sor + duration), nr')
    \<and> noise_rel nr' (if s \<le> e then spec_record (nr_total_wheel_bins nr) p s e sp else sp)"
proof -
  have s: "s = (if timepoint_to_bin nr sor False \<le> stored_max_eor_bin nr antenna transmitters
      then stored_max_eor_bin nr antenna transmitters + 1 else timepoint_to_bin nr sor False)"
    by (auto simp: s_def)
  obtain nr1 where nr1: "(if e \<ge> s then record_reception p s e 0 1 start_hz end_hz nr else Some nr) = Some nr1"
      "noise_rel nr1 (if s \<le> e then spec_record (nr_total_wheel_bins nr) p s e sp else sp)"
    using record_reception_refines [of nr sp s e p start_hz end_hz] assms(4, 5) by (cases "s \<le> e") auto
  have "noise_update tx_time offset propagation duration p transmitters start_hz end_hz antenna is_more nr =
      map_option (\<lambda>nr. ((sor, sor + duration), if is_more then nr else store_eor_bins antenna e transmitters nr))
        (if e \<ge> s then record_reception p s e 0 1 start_hz end_hz nr else Some nr)"
  proof -
    have p: "i64_plain (tx_time + offset) = Some (tx_time + offset)" "i64_plain sor = Some sor"
        "i64_plain (sor + duration) = Some (sor + duration)" "i64_plain e = Some e"
      using assms(6) by (simp_all add: i64_plain_def)
    show ?thesis
      unfolding noise_update_def Let_def p(1) bind.simps sor_def [symmetric] p(2,3) e_def [symmetric] p(4)
      using assms(4) s by (simp add: sub_band_range_def remember_applies_def usize_sub_def noise_rel_def map_conv_bind_option comp_def)
  qed
  with nr1 show ?thesis by (cases "s \<le> e") simp_all
qed

text \<open>C20: Reading implements the specification: a window inside the recorded time (its start not before
  the oldest window the recorder keeps and its end not after now) is returned with the energy of every
  one of its bins, zeroes included, in order, and with the time at which its first bin starts.\<close>

theorem noise_window_exact:
  fixes nr now start_time duration
  defines "oldest \<equiv> (timepoint_to_bin nr now True - nr_total_window_bins nr + 1) * nr_bin_size_microseconds nr"
  defines "st \<equiv> if start_time = i64_min then oldest else start_time"
  defines "ed \<equiv> if duration = 0 then now else st + duration"
  defines "b0 \<equiv> timepoint_to_bin nr st False" and "b1 \<equiv> timepoint_to_bin nr ed True"
  assumes "noise_rel nr sp" "0 \<le> duration" "0 \<le> now" "ed \<le> now" "now \<le> i64_max"
    and "start_time \<noteq> i64_min \<Longrightarrow> oldest \<le> start_time \<and> start_time \<le> now"
    and "0 \<le> b0" "b0 \<le> b1 + 1" "b1 < 2 ^ 62" "oldest \<le> b0 * nr_bin_size_microseconds nr"
    and "\<And>lo hi. ns_range sp = Some (lo, hi) \<Longrightarrow> hi - nr_total_wheel_bins nr < b0"
  shows "try_get now duration start_time nr = Some (Some (map (ns_energy sp) [b0..b1], b0 * nr_bin_size_microseconds nr))"
proof -
  have "window_values nr b0 b1 (b1 - b0 + 1) = Some (map (ns_energy sp) [b0..b1])"
    using assms(6, 12-14, 16) by (rule window_values_exact)
  moreover have "try_get now duration start_time nr =
      map_option (\<lambda>window. Some (window, b0 * nr_bin_size_microseconds nr)) (window_values nr b0 b1 (b1 - b0 + 1))"
    using assms(7-11, 15) unfolding b0_def b1_def ed_def st_def oldest_def by (auto simp: try_get_def Let_def)
  ultimately show ?thesis by simp
qed

section \<open>Where recording goes wrong\<close>

text \<open>The cell of an absolute bin and a sub-band.\<close>

definition band_cell :: "Wheel \<Rightarrow> int \<Rightarrow> nat \<Rightarrow> f64" where
  "band_cell w b j = wh_store w ! (nat (b mod int (wh_slots w)) * wh_bins w + j)"

lemma wheel_apply_band_cells:
  assumes ok: "wheel_ok w" and n: "0 \<le> n" "n \<le> int (wh_slots w)" and bb: "bb < wh_bins w" "bb + nb \<le> wh_bins w"
  shows "\<exists>w'. wheel_apply f (nat (s mod int (wh_slots w))) (nat n) bb nb w = Some w'
    \<and> wheel_ok w' \<and> wh_slots w' = wh_slots w \<and> wh_bins w' = wh_bins w
    \<and> (\<forall>b. \<forall>j < wh_bins w. band_cell w' b j = (if (b - s) mod int (wh_slots w) < n \<and> bb \<le> j \<and> j < bb + nb
         then f (band_cell w b j) else band_cell w b j))"
proof -
  let ?S = "wh_slots w"
  have S: "0 < ?S" using ok by (simp add: wheel_ok_def)
  have idx: "nat (c mod int ?S) < ?S" for c using S by (simp add: nat_less_iff)
  obtain w' where w': "wheel_apply f (nat (s mod int ?S)) (nat n) bb nb w = Some w'" "wheel_changed f (nat (s mod int ?S)) (nat n) bb nb w w'"
    using wheel_apply_changed [OF ok idx _ bb, where n = "nat n"] n by fastforce
  have "(nat (b mod int ?S) + ?S - nat (s mod int ?S)) mod ?S < nat n \<longleftrightarrow> (b - s) mod int ?S < n" for b
    by (rule slot_distance) (use S n in simp_all)
  then show ?thesis using w' idx by (auto simp: wheel_changed_def band_cell_def)
qed

text \<open>C36: A reception that starts after everything recorded, but within a wheel of it, and ends more than
  a wheel beyond it loses its tail: the gap before it is cleared after it was written, around the wheel and
  over its last bins, which then hold no energy at all.\<close>

theorem noise_tail_cleared:
  assumes "noise_rel nr sp" "ns_range sp = Some (lo, hi)" "hi < s" "s < hi + nr_total_wheel_bins nr"
    and "hi + nr_total_wheel_bins nr < b" "b \<le> e" "e - s < nr_total_wheel_bins nr" "e < 2 ^ 62"
  shows "\<exists>nr'. record_reception p s e 0 1 start_hz end_hz nr = Some nr'
    \<and> wh_store (nr_wheel nr') ! nat (b mod nr_total_wheel_bins nr) = 0"
proof -
  let ?W = "nr_total_wheel_bins nr"
  have nr: "nr_min_start_of_reception_bin nr = lo" "nr_max_end_of_reception_bin nr = hi" "nr_total_sub_band_bins nr = 1"
      "0 < lo" "lo \<le> hi" "hi < 2 ^ 62" "ring ?W (nr_wheel nr)"
    using assms(1, 2) by (auto simp: noise_rel_def recorded_def)
  have W: "0 < ?W" "?W < 2 ^ 62" "int (wh_slots (nr_wheel nr)) = ?W" using nr(7) ring_pos [OF nr(7)] by (auto simp: ring_def)
  have u: "as_usize s = nat s" "as_usize ?W = nat ?W" "as_usize (e - s + 1) = nat (e - s + 1)" "as_usize (hi + 1) = nat (hi + 1)"
      "as_usize (s - hi - 1) = nat (s - hi - 1)"
    by (rule as_usize_small, use assms nr W in simp, use assms nr W in simp)+
  have idx: "nat s mod nat ?W = nat (s mod ?W)" "nat (hi + 1) mod nat ?W = nat ((hi + 1) mod ?W)"
    using W nr assms by (intro index_mod; simp)+
  have sat: "i64_sat (hi + ?W) = hi + ?W" using nr W by (intro i64_sat_small) auto
  obtain w1 where w1: "wheel_apply (\<lambda>_. p) (nat (s mod ?W)) (nat (e - s + 1)) 0 1 (nr_wheel nr) = Some w1" "ring ?W w1"
    using wheel_apply_cells [of "nr_wheel nr" "e - s + 1" "\<lambda>_. p" s] nr(7) W assms by (auto simp: ring_def)
  obtain w2 where w2: "wheel_apply (\<lambda>_. 0) (nat ((hi + 1) mod ?W)) (nat (s - hi - 1)) 0 1 w1 = Some w2" "wh_slots w2 = wh_slots w1"
      "\<And>c. wcell w2 c = (if (c - (hi + 1)) mod ?W < s - hi - 1 then 0 else wcell w1 c)"
    using wheel_apply_cells [of w1 "s - hi - 1" "\<lambda>_. 0" "hi + 1"] w1(2) assms by (auto simp: ring_def)
  have "(b - (hi + 1)) mod ?W = (b - (hi + 1) - ?W) mod ?W" by simp
  also have "\<dots> = b - (hi + 1) - ?W" using assms W by (intro mod_pos_pos_trivial) linarith+
  finally have zero: "wcell w2 b = 0" using w2(3) [of b] assms by simp
  define r where "r = \<lparr>rc_power = p, rc_applies = unwrap_or (nr_bin_power_apply_map nr (start_hz, end_hz)) [],
      rc_first = 0, rc_width = 1, rc_start_bin = s, rc_end_bin = e, rc_start_index = nat (s mod ?W)\<rparr>"
  then have r: "rc_power r = p" "rc_first r = 0" "rc_width r = 1" "rc_start_bin r = s" "rc_end_bin r = e"
      "rc_start_index r = nat (s mod ?W)" "rc_bins r = e - s + 1" by (simp_all add: rc_bins_def)
  have counts: "\<not> s < lo" "hi < e" "before_count nr r = 0" "after_count nr r = e - s + 1" "\<not> 0 < e - s + 1 - 0 - (e - s + 1)" "0 < e - s + 1"
    using assms nr(5) by (auto simp: before_count_def after_count_def r nr(1, 2))
  have "nat (s mod ?W) mod nat ?W = nat (s mod ?W)" using W by (simp add: nat_less_iff)
  then have "write_after nr r (nr_wheel nr) = Some w1"
    using w1(1) counts(2) by (simp only: write_after_def nr(2, 3) r counts u Wheel_set_def diff_add_inverse2 Let_def) simp
  moreover have "clear_gaps nr r w1 = Some w2"
    using w2(1) counts(6) by (simp add: clear_gaps_def nr r counts(3, 4) u idx Wheel_set_def)
  moreover have "write_before nr r (nr_wheel nr) = Some (nr_wheel nr)" using counts(1) by (simp add: write_before_def r nr)
  ultimately have "write_more nr r = Some (nr\<lparr>nr_wheel := w2, nr_min_start_of_reception_bin := lo, nr_max_end_of_reception_bin := e\<rparr>)"
    using counts(6) by (simp add: write_more_def counts(3, 4) r nr)
  moreover have "record_reception p s e 0 1 start_hz end_hz nr = write_more nr r"
    using nr(4) [THEN less_imp_neq] sat assms(4) by (simp add: record_reception_def Let_def r_def nr u idx)
  ultimately show ?thesis using zero w2(2) w1(2) by (auto simp: wcell_def ring_def)
qed

text \<open>C37: With sub-bands, a reception that starts before everything recorded and overlaps it replaces the
  energy in the overlap: it is first written over its whole length, then added once more where bins were
  recorded, so such a bin ends with twice its own power and nothing of what was there.\<close>

theorem sub_band_overlap_replaced:
  assumes "1 < nr_total_sub_band_bins nr" "wheel_ok (nr_wheel nr)" "wh_bins (nr_wheel nr) = nr_total_sub_band_bins nr"
    and "int (wh_slots (nr_wheel nr)) = nr_total_wheel_bins nr" "nr_total_wheel_bins nr < 2 ^ 62"
    and "nr_bin_power_apply_map nr (start_hz, end_hz) = Some [(k, k, share)]" "k < nr_total_sub_band_bins nr"
    and "nr_min_start_of_reception_bin nr = lo" "nr_max_end_of_reception_bin nr = hi" "0 < s" "s < lo" "lo \<le> b" "b \<le> e" "e \<le> hi"
    and "hi < 2 ^ 62" "hi - s < nr_total_wheel_bins nr"
  shows "\<exists>nr'. record_reception p s e first width start_hz end_hz nr = Some nr'
    \<and> band_cell (nr_wheel nr') b k = f64_add (f64_mul p share) (f64_mul p share)"
proof -
  let ?W = "nr_total_wheel_bins nr" and ?B = "nr_total_sub_band_bins nr" and ?v = "f64_mul p share" and ?w = "nr_wheel nr"
  have W: "0 < ?W" "?W < 2 ^ 62" using assms by (auto simp: wheel_ok_def)
  have u: "as_usize s = nat s" "as_usize ?W = nat ?W" "as_usize (e - s + 1) = nat (e - s + 1)" "as_usize (lo - s) = nat (lo - s)"
      "as_usize (e - s + 1 - (lo - s)) = nat (e - lo + 1)"
    by (rule as_usize_small [THEN trans], use assms W in simp, use assms W in simp, simp)+
  have idx: "nat s mod nat ?W = nat (s mod ?W)" "(nat (s mod ?W) + nat (lo - s)) mod nat ?W = nat (lo mod ?W)"
    using W assms index_mod [of ?W s] index_add [of ?W "lo - s" s] by simp_all
  obtain w1 where w1: "wheel_apply (\<lambda>_. 0) (nat (s mod ?W)) (nat (lo - s)) 0 ?B ?w = Some w1" "wheel_ok w1"
      "wh_slots w1 = wh_slots ?w" "wh_bins w1 = wh_bins ?w"
    using wheel_apply_band_cells [of ?w "lo - s" 0 ?B "\<lambda>_. 0" s] assms by auto
  obtain w2 where w2: "wheel_apply (\<lambda>_. ?v) (nat (s mod ?W)) (nat (e - s + 1)) k 1 w1 = Some w2" "wheel_ok w2"
      "wh_slots w2 = wh_slots ?w" "wh_bins w2 = wh_bins ?w"
      "\<And>c. band_cell w2 c k = (if (c - s) mod ?W < e - s + 1 then ?v else band_cell w1 c k)"
    using wheel_apply_band_cells [of w1 "e - s + 1" k 1 "\<lambda>_. ?v" s] assms w1 by auto
  obtain w3 where w3: "wheel_apply (\<lambda>old. f64_add old ?v) (nat (lo mod ?W)) (nat (e - lo + 1)) k 1 w2 = Some w3"
      "\<And>c. band_cell w3 c k = (if (c - lo) mod ?W < e - lo + 1 then f64_add (band_cell w2 c k) ?v else band_cell w2 c k)"
    using wheel_apply_band_cells [of w2 "e - lo + 1" k 1 "\<lambda>old. f64_add old ?v" lo] assms w2 by auto
  have "(b - s) mod ?W = b - s" "(b - lo) mod ?W = b - lo" using assms by (intro mod_pos_pos_trivial; linarith)+
  then have cell: "band_cell w3 b k = f64_add ?v ?v" using w2(5) [of b] w3(2) [of b] assms by simp
  have sat: "i64_sat (hi + ?W) = hi + ?W" using assms W by (intro i64_sat_small) auto
  define r where "r = \<lparr>rc_power = p, rc_applies = [(k, k, share)], rc_first = first, rc_width = width, rc_start_bin = s,
      rc_end_bin = e, rc_start_index = nat (s mod ?W)\<rparr>"
  then have r: "rc_power r = p" "rc_applies r = [(k, k, share)]" "rc_start_bin r = s" "rc_end_bin r = e"
      "rc_start_index r = nat (s mod ?W)" "rc_bins r = e - s + 1" by (simp_all add: rc_bins_def)
  have counts: "before_count nr r = lo - s" "after_count nr r = 0" "0 < e - s + 1 - (lo - s)"
    using assms(8-14) by (auto simp: before_count_def after_count_def r)
  have "write_before nr r ?w = Some w2"
    using w1(1) w2(1) assms(1, 8, 11) by (simp add: write_before_def r counts u Wheel_set_def)
  moreover have "write_after nr r w2 = Some w2" using assms(9, 14) by (simp add: write_after_def r)
  moreover have "write_within nr r w2 = Some w3"
    using w3(1) assms(1) u(5) by (simp add: write_within_def r counts u(1-4) idx Wheel_add_def Let_def)
  ultimately have "write_more nr r = Some (nr\<lparr>nr_wheel := w3, nr_min_start_of_reception_bin := s, nr_max_end_of_reception_bin := hi\<rparr>)"
    using counts(3) assms(9, 11) by (simp add: write_more_def counts(1, 2) r)
  moreover have "record_reception p s e first width start_hz end_hz nr = write_more nr r"
    using sat assms(6, 8-14) W(1) by (simp add: record_reception_def Let_def r_def u idx)
  ultimately show ?thesis using cell by auto
qed

section \<open>Examples\<close>

text \<open>A recorder with bins of ten microseconds, windows of ten bins and a wheel of twenty, empty and
  with two bins recorded.\<close>

definition example_recorder :: NoiseRecorder where
  "example_recorder = NoiseRecorder_new 10 0 0 100 0 2400000000 1000000 0"

definition example_recorded :: NoiseRecorder where
  "example_recorded = example_recorder\<lparr>nr_wheel := \<lparr>wh_slots = 20, wh_bins = 1,
       wh_store = (replicate 20 0)[11 := f64_one, 12 := f64_one]\<rparr>,
     nr_min_start_of_reception_bin := 91, nr_max_end_of_reception_bin := 92\<rparr>"

definition example_energies :: NoiseSpec where
  "example_energies = \<lparr>ns_range = Some (91, 92), ns_energy = (\<lambda>b. if b = 91 \<or> b = 92 then f64_one else 0)\<rparr>"

lemma NoiseRecorder_new_fields:
  "nr_total_wheel_bins (NoiseRecorder_new bin mo mp md sens f bw bs) =
     max (i64_sat (i64_sat (max mo 0 + max mp 0) + i64_sat (max md (max bin 1) * 2)) div max bin 1) 1"
  "nr_total_window_bins (NoiseRecorder_new bin mo mp md sens f bw bs) = max (max md (max bin 1) div max bin 1) 1"
  "nr_bin_size_microseconds (NoiseRecorder_new bin mo mp md sens f bw bs) = max bin 1"
  "nr_bandwidth_bin_size_hz (NoiseRecorder_new bin mo mp md sens f bw bs) = bs"
  "nr_eor_bin_map (NoiseRecorder_new bin mo mp md sens f bw bs) = Map.empty"
  "nr_total_sub_band_bins (NoiseRecorder_new bin mo mp md sens f bw 0) = 1"
  by (simp_all only: NoiseRecorder_new_def Let_def NoiseRecorder.select_convs less_irrefl if_False)

lemma example_recorder_fields:
  "nr_total_wheel_bins example_recorder = 20" "nr_total_window_bins example_recorder = 10"
  "nr_bin_size_microseconds example_recorder = 10" "nr_total_sub_band_bins example_recorder = 1"
  "nr_bandwidth_bin_size_hz example_recorder = 0" "nr_eor_bin_map example_recorder = Map.empty"
  by (simp_all add: example_recorder_def NoiseRecorder_new_fields i64_sat_def i64_min_def i64_max_def)

lemma example_recorder_rel: "noise_rel example_recorder spec_empty"
  using noise_rel_new [of 10 0 0 100 0 2400000000 1000000] example_recorder_fields(1) by (simp add: example_recorder_def)

lemma example_recorded_rel: "noise_rel example_recorded example_energies"
proof -
  have "wcell (nr_wheel example_recorded) b = ns_energy example_energies b" if "91 \<le> b" "b \<le> 92" for b
  proof -
    have "b = 91 \<or> b = 92" using that by arith
    then show ?thesis by (auto simp: wcell_def example_recorded_def example_energies_def)
  qed
  moreover have "ns_energy example_energies b = 0" if "b < 91 \<or> 92 < b" for b using that by (auto simp: example_energies_def)
  ultimately have "recorded 20 (nr_wheel example_recorded) 91 92 (ns_energy example_energies)" by (simp add: recorded_def)
  then show ?thesis
    by (simp add: noise_rel_def ring_def wheel_ok_def example_recorded_def example_energies_def example_recorder_fields)
qed

theorem noise_update_refines_witness:
  "\<exists>nr'. noise_update 910 0 0 100 f64_one [1] 0 0 0 False example_recorder = Some ((910, 1010), nr')
     \<and> noise_rel nr' (spec_record 20 f64_one 91 100 spec_empty)"
proof -
  have "max (timepoint_to_bin example_recorder 910 False) (stored_max_eor_bin example_recorder 0 [1] + 1) = 91"
      "timepoint_to_bin example_recorder 1010 True = 100" "reception_fits 20 91 100 spec_empty"
    by (simp_all add: timepoint_to_bin_def example_recorder_fields i64_quot_def i64_rem_def stored_max_eor_bin_def
        reception_fits_def spec_empty_def)
  then show ?thesis
    using noise_update_refines [OF example_recorder_rel, where tx_time = 910 and offset = 0 and propagation = 0 and duration = 100
        and antenna = 0 and transmitters = "[1]" and p = f64_one and start_hz = 0 and end_hz = 0 and is_more = False]
    by (simp add: example_recorder_fields i64_min_def i64_max_def)
qed

theorem noise_window_exact_witness:
  "try_get 940 30 910 example_recorded = Some (Some ([f64_one, f64_one, 0], 910))"
proof -
  have bins: "timepoint_to_bin example_recorded 940 True = 93" "timepoint_to_bin example_recorded 910 False = 91"
      "nr_bin_size_microseconds example_recorded = 10" "nr_total_window_bins example_recorded = 10"
      "nr_total_wheel_bins example_recorded = 20"
    by (simp_all add: timepoint_to_bin_def example_recorded_def example_recorder_fields i64_quot_def i64_rem_def)
  have "[91..93::int] = [91, 92, 93]" by (simp add: upto.simps)
  then have "map (ns_energy example_energies) [91..93] = [f64_one, f64_one, 0]" by (simp add: example_energies_def)
  then show ?thesis
    using noise_window_exact [OF example_recorded_rel, of 30 940 910] by (simp add: bins i64_min_def i64_max_def example_energies_def)
qed

theorem noise_tail_cleared_witness:
  "\<exists>nr'. record_reception f64_one 100 115 0 1 0 0 example_recorded = Some nr'
     \<and> wh_store (nr_wheel nr') ! nat (113 mod 20) = 0"
  using noise_tail_cleared [OF example_recorded_rel, of 91 92 100 113 115 f64_one 0 0]
  by (simp add: example_energies_def example_recorded_def example_recorder_fields)

definition example_sub_bands :: NoiseRecorder where
  "example_sub_bands = example_recorder\<lparr>nr_total_sub_band_bins := 2,
     nr_wheel := \<lparr>wh_slots = 20, wh_bins = 2, wh_store = replicate 40 0\<rparr>,
     nr_bin_power_apply_map := [(950, 1000) \<mapsto> [(0, 0, f64_one)]],
     nr_min_start_of_reception_bin := 91, nr_max_end_of_reception_bin := 95\<rparr>"

theorem sub_band_overlap_replaced_witness:
  "\<exists>nr'. record_reception f64_one 90 92 0 1 950 1000 example_sub_bands = Some nr'
     \<and> band_cell (nr_wheel nr') 91 0 = f64_add (f64_mul f64_one f64_one) (f64_mul f64_one f64_one)"
  by (rule sub_band_overlap_replaced [where lo = 91 and hi = 95])
    (simp_all add: example_sub_bands_def example_recorder_fields wheel_ok_def)

end
