(* ===== verification/Layer_Counters.thy ===== *)
theory Layer_Counters
  imports Plugin_Types Ieee_F64
begin

text \<open>
  The services a layer calls and the counters every layer keeps
  (\<^verbatim>\<open>rust/emane-plugin-api/src/lib.rs\<close>: \<open>FfiFrameworkService\<close>,
  \<open>CommonLayerCounters\<close>). The framework is seen from the layer: the calls a layer makes
  are recorded in order, and what a call returns (a handle, a table generation, a timer id) and
  what a clock shows are parameters that may depend on all calls made before. The counts behind
  the accept and drop tables are process-wide in the code, shared by the layers; here they are a
  part of the framework state.
\<close>

section \<open>The framework\<close>

definition STATISTIC_VALUE_U64 :: u32 where "STATISTIC_VALUE_U64 = 1"

record StatisticValue =
  sv_value_type :: u32
  sv_u64_value :: u64
  sv_f64_value :: f64
  sv_string_value :: "string option"

definition statistic_u64 :: "u64 \<Rightarrow> StatisticValue" where
  "statistic_u64 v = \<lparr>sv_value_type = STATISTIC_VALUE_U64, sv_u64_value = v, sv_f64_value = 0, sv_string_value = None\<rparr>"

text \<open>An array of control messages as it crosses the interface: a pointer, \<open>None\<close> when
  it is null, and a count.\<close>

type_synonym Messages = "FfiControlMessage list option \<times> nat"

definition controls :: "Messages \<Rightarrow> FfiControlMessage list option" where
  "controls = (\<lambda>(messages, count).
     if count > 4096 \<or> (count \<noteq> 0 \<and> messages = None) then None
     else if count = 0 then Some []
     else map_option (take count) messages)"

definition messages_of :: "FfiControlMessage list \<Rightarrow> Messages" where
  "messages_of ms = (Some ms, length ms)"

datatype FrameworkCall =
    RegisterCounter string string
  | RegisterAverage string string
  | RegisterTable string "string list" string
  | IncrementCounter u64 u64
  | SampleAverage u64 f64
  | SetTableRow u64 "u64 list" "StatisticValue list"
  | SendDownstreamPacket u16 "FfiPacket option" Messages
  | SendUpstreamPacket u16 "FfiPacket option" Messages
  | SendDownstreamControl u16 Messages
  | SendUpstreamControl u16 Messages
  | ScheduleTimedEvent u16 u64 u32 u32 FfiSlice
  | CancelTimedEvent u16 u64
  | MaximizeCounter u64 u64
  | UpdateNeighborTx u16 u64 u64
  | UpdateNeighborRx u16 u64 f64 f64 u64 u64 u64
  | UpdateQueueMetric u16 u32 u32 u32 u64
  | PublishR2ri u64 u64 u64 u64
  | RegisterRfSignalTable u16
  | ConfigureRfSignalTable u64 bool bool
  | UpdateRfSignalTable u64 u16 u16 u64 f64 f64 f64 f64

record CommonAcceptCounts =
  ac_tx_packets :: u64
  ac_tx_bytes :: u64
  ac_rx_packets :: u64
  ac_rx_bytes :: u64

definition CommonAcceptCounts_default :: CommonAcceptCounts where
  "CommonAcceptCounts_default = \<lparr>ac_tx_packets = 0, ac_tx_bytes = 0, ac_rx_packets = 0, ac_rx_bytes = 0\<rparr>"

record CommonTableState =
  ts_generation :: u64
  ts_accepts :: "u16 \<rightharpoonup> CommonAcceptCounts"
  ts_drops :: "u16 \<rightharpoonup> u64 list"

definition CommonTableState_default :: CommonTableState where
  "CommonTableState_default = \<lparr>ts_generation = 0, ts_accepts = Map.empty, ts_drops = Map.empty\<rparr>"

record Framework =
  fw_calls :: "FrameworkCall list"
  fw_table_states :: "u64 \<rightharpoonup> CommonTableState"

record FrameworkApi =
  api_answer :: "FrameworkCall list \<Rightarrow> u64"
  api_table_generation :: "FrameworkCall list \<Rightarrow> u64 \<Rightarrow> u64"
  api_elapsed :: "FrameworkCall list \<Rightarrow> u64"
  api_now :: "FrameworkCall list \<Rightarrow> u64"

definition fw_call :: "FrameworkCall \<Rightarrow> Framework \<Rightarrow> Framework" where
  "fw_call c fw = fw\<lparr>fw_calls := fw_calls fw @ [c]\<rparr>"

text \<open>A call that returns a value: the answer depends on every call so far, this one included.\<close>

definition fw_ask :: "FrameworkApi \<Rightarrow> FrameworkCall \<Rightarrow> Framework \<Rightarrow> u64 \<times> Framework" where
  "fw_ask api c fw = (let fw = fw_call c fw in (api_answer api (fw_calls fw), fw))"

definition fw_table_generation :: "FrameworkApi \<Rightarrow> u64 \<Rightarrow> Framework \<Rightarrow> u64" where
  "fw_table_generation api handle fw = api_table_generation api (fw_calls fw) handle"

definition elapsed_microseconds :: "FrameworkApi \<Rightarrow> Framework \<Rightarrow> u64" where
  "elapsed_microseconds api fw = api_elapsed api (fw_calls fw)"

definition unix_microseconds :: "FrameworkApi \<Rightarrow> Framework \<Rightarrow> u64" where
  "unix_microseconds api fw = api_now api (fw_calls fw)"


section \<open>Registration\<close>

record TrafficCounters =
  average_processing_delay :: u64
  packets_unicast_tx :: u64
  bytes_unicast_tx :: u64
  packets_broadcast_tx :: u64
  bytes_broadcast_tx :: u64
  packets_unicast_rx :: u64
  bytes_unicast_rx :: u64
  packets_unicast_drop :: u64
  packets_broadcast_rx :: u64
  bytes_broadcast_rx :: u64
  packets_broadcast_drop :: u64
  packets_unicast_generated :: u64
  bytes_unicast_generated :: u64
  packets_broadcast_generated :: u64
  bytes_broadcast_generated :: u64

record CommonLayerCounters =
  lc_upstream :: TrafficCounters
  lc_downstream :: TrafficCounters
  lc_unicast_drop_table :: u64
  lc_broadcast_drop_table :: u64
  lc_unicast_accept_table :: u64
  lc_broadcast_accept_table :: u64
  lc_unicast_drop_columns :: nat
  lc_broadcast_drop_columns :: nat

text \<open>\<open>CString::new\<close> refuses a string with a NUL; the literals of the code have none, so
  only the instance suffix and the labels of the caller matter.\<close>

definition has_nul :: "string \<Rightarrow> bool" where
  "has_nul s \<longleftrightarrow> CHR 0x00 \<in> set s"

definition register_counter :: "FrameworkApi \<Rightarrow> string \<Rightarrow> string \<times> string \<Rightarrow> Framework \<Rightarrow> u64 \<times> Framework" where
  "register_counter api inst = (\<lambda>(base, description) fw.
     if has_nul (base @ inst) \<or> has_nul description then (0, fw)
     else fw_ask api (RegisterCounter (base @ inst) description) fw)"

definition register_average :: "FrameworkApi \<Rightarrow> string \<Rightarrow> string \<times> string \<Rightarrow> Framework \<Rightarrow> u64 \<times> Framework" where
  "register_average api inst = (\<lambda>(base, description) fw.
     if has_nul (base @ inst) \<or> has_nul description then (0, fw)
     else fw_ask api (RegisterAverage (base @ inst) description) fw)"

definition register_table :: "FrameworkApi \<Rightarrow> string \<Rightarrow> string \<Rightarrow> string list \<Rightarrow> string \<Rightarrow> Framework \<Rightarrow> u64 \<times> Framework" where
  "register_table api inst base labels description fw =
     (if has_nul (base @ inst) \<or> list_ex has_nul labels \<or> has_nul description then (0, fw)
      else fw_ask api (RegisterTable (base @ inst) labels description) fw)"

text \<open>The counters registered one after the other.\<close>

fun register_counters :: "FrameworkApi \<Rightarrow> string \<Rightarrow> (string \<times> string) list \<Rightarrow> Framework \<Rightarrow> u64 list \<times> Framework" where
  "register_counters api inst [] fw = ([], fw)"
| "register_counters api inst (c # cs) fw =
     (let (handle, fw) = register_counter api inst c fw;
          (handles, fw) = register_counters api inst cs fw
      in (handle # handles, fw))"

definition upstream_counters :: "(string \<times> string) list" where
  "upstream_counters =
     [(''numUpstreamPacketsUnicastTx'', ''Number of upstream unicast packets transmitted''),
      (''numUpstreamBytesUnicastTx'', ''Number of upstream unicast bytes transmitted''),
      (''numUpstreamPacketsBroadcastTx'', ''Number of upstream broadcast packets transmitted''),
      (''numUpstreamBytesBroadcastTx'', ''Number of upstream broadcast bytes transmitted''),
      (''numUpstreamPacketsUnicastRx'', ''Number of upstream unicast packets received''),
      (''numUpstreamBytesUnicastRx'', ''Number of upstream unicast bytes received''),
      (''numUpstreamPacketsUnicastDrop'', ''Number of upstream unicast packets dropped''),
      (''numUpstreamPacketsBroadcastRx'', ''Number of upstream broadcast packets received''),
      (''numUpstreamBytesBroadcastRx'', ''Number of upstream broadcast bytes received''),
      (''numUpstreamPacketsBroadcastDrop'', ''Number of upstream broadcast packets dropped'')]"

definition downstream_counters :: "(string \<times> string) list" where
  "downstream_counters =
     [(''numDownstreamPacketsUnicastTx'', ''Number of downstream unicast packets transmitted''),
      (''numDownstreamBytesUnicastTx'', ''Number of downstream unicast bytes transmitted''),
      (''numDownstreamPacketsBroadcastTx'', ''Number of downstream broadcast packets transmitted''),
      (''numDownstreamBytesBroadcastTx'', ''Number of downstream broadcast bytes transmitted''),
      (''numDownstreamPacketsUnicastRx'', ''Number of downstream unicast packets received''),
      (''numDownstreamBytesUnicastRx'', ''Number of downstream unicast bytes received''),
      (''numDownstreamPacketsUnicastDrop'', ''Number of downstream unicast packets dropped''),
      (''numDownstreamPacketsBroadcastRx'', ''Number of downstream broadcast packets received''),
      (''numDownstreamBytesBroadcastRx'', ''Number of downstream broadcast bytes received''),
      (''numDownstreamPacketsBroadcastDrop'', ''Number of downstream broadcast packets dropped''),
      (''numDownstreamPacketsUnicastGenerated'', ''Number of layer generated downstream unicast packets''),
      (''numDownstreamBytesUnicastGenerated'', ''Number of layer generated downstream unicast bytes''),
      (''numDownstreamPacketsBroadcastGenerated'', ''Number of layer generated downstream broadcast packets''),
      (''numDownstreamBytesBroadcastGenerated'', ''Number of layer generated downstream broadcast bytes'')]"

text \<open>The handles in the order of the fields; a handle that was not registered is 0.\<close>

definition handle_at :: "u64 list \<Rightarrow> nat \<Rightarrow> u64" where
  "handle_at handles i = (if i < length handles then handles ! i else 0)"

definition traffic_counters :: "u64 \<Rightarrow> u64 list \<Rightarrow> TrafficCounters" where
  "traffic_counters average handles =
     \<lparr>average_processing_delay = average,
      packets_unicast_tx = handle_at handles 0, bytes_unicast_tx = handle_at handles 1,
      packets_broadcast_tx = handle_at handles 2, bytes_broadcast_tx = handle_at handles 3,
      packets_unicast_rx = handle_at handles 4, bytes_unicast_rx = handle_at handles 5,
      packets_unicast_drop = handle_at handles 6,
      packets_broadcast_rx = handle_at handles 7, bytes_broadcast_rx = handle_at handles 8,
      packets_broadcast_drop = handle_at handles 9,
      packets_unicast_generated = handle_at handles 10, bytes_unicast_generated = handle_at handles 11,
      packets_broadcast_generated = handle_at handles 12, bytes_broadcast_generated = handle_at handles 13\<rparr>"

definition accept_labels :: "string list" where
  "accept_labels = [''NEM'', ''Num Pkts Tx'', ''Num Bytes Tx'', ''Num Pkts Rx'', ''Num Bytes Rx'']"

definition register_with_drop_labels ::
  "FrameworkApi \<Rightarrow> string \<Rightarrow> string list \<Rightarrow> string list \<Rightarrow> Framework \<Rightarrow> CommonLayerCounters \<times> Framework" where
  "register_with_drop_labels api inst unicast_drop_labels broadcast_drop_labels fw =
     (let effective_broadcast_labels =
            (if broadcast_drop_labels = [] then unicast_drop_labels else broadcast_drop_labels);
          ((unicast_drop_table, broadcast_drop_table, unicast_drop_columns, broadcast_drop_columns), fw) =
            (if unicast_drop_labels = [] then ((0, 0, 0, 0), fw)
             else (let (unicast_table, fw) = register_table api inst ''UnicastPacketDropTable''
                         (''NEM'' # unicast_drop_labels) ''Unicast packets dropped by reason code'' fw;
                       (broadcast_table, fw) = register_table api inst ''BroadcastPacketDropTable''
                         (''NEM'' # effective_broadcast_labels) ''Broadcast packets dropped by reason code'' fw
                   in ((unicast_table, broadcast_table, length unicast_drop_labels,
                        length effective_broadcast_labels), fw)));
          (up_average, fw) = register_average api inst (''avgUpstreamProcessingDelay'', ''Average upstream processing delay'') fw;
          (up_handles, fw) = register_counters api inst upstream_counters fw;
          (down_average, fw) = register_average api inst (''avgDownstreamProcessingDelay'', ''Average downstream processing delay'') fw;
          (down_handles, fw) = register_counters api inst downstream_counters fw;
          (unicast_accept, fw) = register_table api inst ''UnicastPacketAcceptTable'' accept_labels ''Unicast packets accepted'' fw;
          (broadcast_accept, fw) = register_table api inst ''BroadcastPacketAcceptTable'' accept_labels ''Broadcast packets accepted'' fw
      in (\<lparr>lc_upstream = traffic_counters up_average up_handles,
           lc_downstream = traffic_counters down_average down_handles,
           lc_unicast_drop_table = unicast_drop_table, lc_broadcast_drop_table = broadcast_drop_table,
           lc_unicast_accept_table = unicast_accept, lc_broadcast_accept_table = broadcast_accept,
           lc_unicast_drop_columns = unicast_drop_columns, lc_broadcast_drop_columns = broadcast_drop_columns\<rparr>, fw))"

definition CommonLayerCounters_register :: "FrameworkApi \<Rightarrow> Framework \<Rightarrow> CommonLayerCounters \<times> Framework" where
  "CommonLayerCounters_register api = register_with_drop_labels api [] [] []"


section \<open>Counting\<close>

definition counter_increment :: "u64 \<Rightarrow> u64 \<Rightarrow> Framework \<Rightarrow> Framework" where
  "counter_increment handle amount fw = (if handle \<noteq> 0 then fw_call (IncrementCounter handle amount) fw else fw)"

text \<open>\<open>u64::try_from(n).unwrap_or(u64::MAX)\<close> for a \<open>usize\<close>.\<close>

definition u64_or_max :: "nat \<Rightarrow> u64" where
  "u64_or_max n = (if n < 2 ^ 64 then word_of_nat n else - 1)"

definition inbound :: "TrafficCounters \<Rightarrow> u16 \<Rightarrow> nat \<Rightarrow> Framework \<Rightarrow> Framework" where
  "inbound counters destination bytes fw =
     (let (packets, byte_counter) =
            (if destination = 0xFFFF then (packets_broadcast_rx counters, bytes_broadcast_rx counters)
             else (packets_unicast_rx counters, bytes_unicast_rx counters));
          fw = counter_increment packets 1 fw
      in counter_increment byte_counter (u64_or_max bytes) fw)"

definition outbound :: "TrafficCounters \<Rightarrow> u16 \<Rightarrow> nat \<Rightarrow> u64 \<Rightarrow> bool \<Rightarrow> Framework \<Rightarrow> Framework" where
  "outbound counters destination bytes processing_delay_microseconds self_generated fw =
     (let (packets, byte_counter) =
            (if self_generated
             then (if destination = 0xFFFF
                   then (packets_broadcast_generated counters, bytes_broadcast_generated counters)
                   else (packets_unicast_generated counters, bytes_unicast_generated counters))
             else if destination = 0xFFFF then (packets_broadcast_tx counters, bytes_broadcast_tx counters)
             else (packets_unicast_tx counters, bytes_unicast_tx counters));
          fw = counter_increment packets 1 fw;
          fw = counter_increment byte_counter (u64_or_max bytes) fw
      in if average_processing_delay counters \<noteq> 0
         then fw_call (SampleAverage (average_processing_delay counters) (f64_of_int (uint processing_delay_microseconds))) fw
         else fw)"

definition drop_packet :: "TrafficCounters \<Rightarrow> u16 \<Rightarrow> Framework \<Rightarrow> Framework" where
  "drop_packet counters destination fw =
     counter_increment (if destination = 0xFFFF then packets_broadcast_drop counters else packets_unicast_drop counters) 1 fw"

text \<open>The state of a table, cleared when the table was cleared since its last row.\<close>

definition current_table_state :: "FrameworkApi \<Rightarrow> u64 \<Rightarrow> Framework \<Rightarrow> CommonTableState" where
  "current_table_state api table fw =
     (let generation = fw_table_generation api table fw;
          state = unwrap_or (fw_table_states fw table) CommonTableState_default
      in if ts_generation state \<noteq> generation
         then state\<lparr>ts_generation := generation, ts_accepts := Map.empty, ts_drops := Map.empty\<rparr>
         else state)"

definition count_accept :: "nat \<Rightarrow> bool \<Rightarrow> CommonAcceptCounts \<Rightarrow> CommonAcceptCounts" where
  "count_accept bytes upstream counts =
     (if upstream
      then counts\<lparr>ac_rx_packets := saturating_add (ac_rx_packets counts) 1,
                  ac_rx_bytes := saturating_add (ac_rx_bytes counts) (u64_or_max bytes)\<rparr>
      else counts\<lparr>ac_tx_packets := saturating_add (ac_tx_packets counts) 1,
                  ac_tx_bytes := saturating_add (ac_tx_bytes counts) (u64_or_max bytes)\<rparr>)"

definition accept_row :: "u16 \<Rightarrow> CommonAcceptCounts \<Rightarrow> StatisticValue list" where
  "accept_row source counts = map statistic_u64
     [ucast source, ac_tx_packets counts, ac_tx_bytes counts, ac_rx_packets counts, ac_rx_bytes counts]"

definition set_accept_row ::
  "FrameworkApi \<Rightarrow> CommonLayerCounters \<Rightarrow> u16 \<Rightarrow> u16 \<Rightarrow> nat \<Rightarrow> bool \<Rightarrow> Framework \<Rightarrow> Framework" where
  "set_accept_row api self source destination bytes upstream fw =
     (let table = (if destination = 0xFFFF then lc_broadcast_accept_table self else lc_unicast_accept_table self)
      in if table = 0 then fw
         else (let state = current_table_state api table fw;
                   counts = count_accept bytes upstream
                     (unwrap_or (ts_accepts state source) CommonAcceptCounts_default);
                   state = state\<lparr>ts_accepts := (ts_accepts state)(source \<mapsto> counts)\<rparr>
               in fw_call (SetTableRow table [ucast source] (accept_row source counts))
                    (fw\<lparr>fw_table_states := (fw_table_states fw)(table \<mapsto> state)\<rparr>)))"

definition set_drop_row ::
  "FrameworkApi \<Rightarrow> CommonLayerCounters \<Rightarrow> u16 \<Rightarrow> u16 \<Rightarrow> nat \<Rightarrow> bool \<Rightarrow> Framework \<Rightarrow> Framework panics" where
  "set_drop_row api self source destination drop_code upstream fw =
     (let (table, columns) =
            (if destination = 0xFFFF then (lc_broadcast_drop_table self, lc_broadcast_drop_columns self)
             else (lc_unicast_drop_table self, lc_unicast_drop_columns self))
      in if table = 0 \<or> drop_code = 0 \<or> drop_code > columns then Some fw
         else (let peer = (if upstream then source else destination);
                   state = current_table_state api table fw;
                   counts = unwrap_or (ts_drops state peer) (replicate columns 0)
               in do {
                 old \<leftarrow> index_get counts (drop_code - 1);
                 counts \<leftarrow> index_set counts (drop_code - 1) (saturating_add old 1);
                 Some (fw_call (SetTableRow table [ucast peer] (map statistic_u64 (ucast peer # counts)))
                    (fw\<lparr>fw_table_states := (fw_table_states fw)(table \<mapsto> state\<lparr>ts_drops := (ts_drops state)(peer \<mapsto> counts)\<rparr>)\<rparr>)) }))"

definition downstream_rx_packet :: "CommonLayerCounters \<Rightarrow> u16 \<Rightarrow> u16 \<Rightarrow> nat \<Rightarrow> Framework \<Rightarrow> Framework" where
  "downstream_rx_packet self source destination bytes = inbound (lc_downstream self) destination bytes"

definition downstream_tx_packet ::
  "FrameworkApi \<Rightarrow> CommonLayerCounters \<Rightarrow> u16 \<Rightarrow> u16 \<Rightarrow> nat \<Rightarrow> u64 \<Rightarrow> bool \<Rightarrow> Framework \<Rightarrow> Framework" where
  "downstream_tx_packet api self source destination bytes processing_delay_microseconds self_generated fw =
     set_accept_row api self source destination bytes False
       (outbound (lc_downstream self) destination bytes processing_delay_microseconds self_generated fw)"

definition downstream_drop_packet ::
  "FrameworkApi \<Rightarrow> CommonLayerCounters \<Rightarrow> u16 \<Rightarrow> u16 \<Rightarrow> nat \<Rightarrow> Framework \<Rightarrow> Framework panics" where
  "downstream_drop_packet api self source destination drop_code fw =
     set_drop_row api self source destination drop_code False (drop_packet (lc_downstream self) destination fw)"

definition upstream_rx_packet :: "CommonLayerCounters \<Rightarrow> u16 \<Rightarrow> u16 \<Rightarrow> nat \<Rightarrow> Framework \<Rightarrow> Framework" where
  "upstream_rx_packet self source destination bytes = inbound (lc_upstream self) destination bytes"

definition upstream_tx_packet ::
  "FrameworkApi \<Rightarrow> CommonLayerCounters \<Rightarrow> u16 \<Rightarrow> u16 \<Rightarrow> nat \<Rightarrow> u64 \<Rightarrow> Framework \<Rightarrow> Framework" where
  "upstream_tx_packet api self source destination bytes processing_delay_microseconds fw =
     set_accept_row api self source destination bytes True
       (outbound (lc_upstream self) destination bytes processing_delay_microseconds False fw)"

definition upstream_drop_packet ::
  "FrameworkApi \<Rightarrow> CommonLayerCounters \<Rightarrow> u16 \<Rightarrow> u16 \<Rightarrow> nat \<Rightarrow> Framework \<Rightarrow> Framework panics" where
  "upstream_drop_packet api self source destination drop_code fw =
     set_drop_row api self source destination drop_code True (drop_packet (lc_upstream self) destination fw)"


section \<open>The tables as counts of packets\<close>

text \<open>What the layers of a process do with their counters; other calls of a layer may come
  between.\<close>

datatype CounterOp =
    DownstreamRx u16 u16 nat
  | DownstreamTx u16 u16 nat u64 bool
  | DownstreamDrop u16 u16 nat
  | UpstreamRx u16 u16 nat
  | UpstreamTx u16 u16 nat u64
  | UpstreamDrop u16 u16 nat
  | OtherCall FrameworkCall

fun counter_op :: "FrameworkApi \<Rightarrow> CommonLayerCounters \<Rightarrow> CounterOp \<Rightarrow> Framework \<Rightarrow> Framework panics" where
  "counter_op api c (DownstreamRx s d b) fw = Some (downstream_rx_packet c s d b fw)"
| "counter_op api c (DownstreamTx s d b delay generated) fw = Some (downstream_tx_packet api c s d b delay generated fw)"
| "counter_op api c (DownstreamDrop s d code) fw = downstream_drop_packet api c s d code fw"
| "counter_op api c (UpstreamRx s d b) fw = Some (upstream_rx_packet c s d b fw)"
| "counter_op api c (UpstreamTx s d b delay) fw = Some (upstream_tx_packet api c s d b delay fw)"
| "counter_op api c (UpstreamDrop s d code) fw = upstream_drop_packet api c s d code fw"
| "counter_op api c (OtherCall call) fw = Some (fw_call call fw)"

fun layers_run :: "FrameworkApi \<Rightarrow> (CommonLayerCounters \<times> CounterOp) list \<Rightarrow> Framework \<Rightarrow> Framework panics" where
  "layers_run api [] fw = Some fw"
| "layers_run api ((c, op) # ops) fw = do { fw \<leftarrow> counter_op api c op fw; layers_run api ops fw }"

text \<open>A packet counted in a table: the NEM of its row with the size and direction of an accepted
  packet, or the reason of a dropped one.\<close>

datatype TableEvent = Accepted u16 nat bool | Dropped u16 nat

definition accept_table :: "CommonLayerCounters \<Rightarrow> u16 \<Rightarrow> u64" where
  "accept_table c d = (if d = 0xFFFF then lc_broadcast_accept_table c else lc_unicast_accept_table c)"

definition drop_table :: "CommonLayerCounters \<Rightarrow> u16 \<Rightarrow> u64" where
  "drop_table c d = (if d = 0xFFFF then lc_broadcast_drop_table c else lc_unicast_drop_table c)"

definition drop_columns :: "CommonLayerCounters \<Rightarrow> u16 \<Rightarrow> nat" where
  "drop_columns c d = (if d = 0xFFFF then lc_broadcast_drop_columns c else lc_unicast_drop_columns c)"

fun table_event :: "CommonLayerCounters \<Rightarrow> u64 \<Rightarrow> CounterOp \<Rightarrow> TableEvent option" where
  "table_event c t (DownstreamTx s d b _ _) = (if t \<noteq> 0 \<and> accept_table c d = t then Some (Accepted s b False) else None)"
| "table_event c t (UpstreamTx s d b _) = (if t \<noteq> 0 \<and> accept_table c d = t then Some (Accepted s b True) else None)"
| "table_event c t (DownstreamDrop s d code) =
     (if t \<noteq> 0 \<and> drop_table c d = t \<and> code \<noteq> 0 \<and> code \<le> drop_columns c d then Some (Dropped d code) else None)"
| "table_event c t (UpstreamDrop s d code) =
     (if t \<noteq> 0 \<and> drop_table c d = t \<and> code \<noteq> 0 \<and> code \<le> drop_columns c d then Some (Dropped s code) else None)"
| "table_event c t _ = None"

text \<open>The events of a table in a run, each with the generation the framework answers before the
  row is set, which is the last call of the operation.\<close>

type_synonym TableTrace = "(u64 \<times> TableEvent) list"

fun table_trace :: "FrameworkApi \<Rightarrow> u64 \<Rightarrow> (CommonLayerCounters \<times> CounterOp) list \<Rightarrow> Framework \<Rightarrow> TableTrace" where
  "table_trace api t [] fw = []"
| "table_trace api t ((c, op) # ops) fw =
     (case counter_op api c op fw of
        None \<Rightarrow> []
      | Some fw' \<Rightarrow>
          (case table_event c t op of
             None \<Rightarrow> []
           | Some e \<Rightarrow> [(api_table_generation api (butlast (fw_calls fw')) t, e)])
          @ table_trace api t ops fw')"

text \<open>The events since the table was last cleared: the longest end of the trace with the
  generation of the last event.\<close>

definition epoch :: "TableTrace \<Rightarrow> TableEvent list" where
  "epoch trace = map snd (rev (takeWhile (\<lambda>e. fst e = fst (last trace)) (rev trace)))"

definition saturated :: "nat \<Rightarrow> u64" where
  "saturated n = word_of_nat (min n (2 ^ 64 - 1))"

definition accepted_sizes :: "u16 \<Rightarrow> bool \<Rightarrow> TableEvent list \<Rightarrow> nat list" where
  "accepted_sizes nem upstream es = [b. Accepted n b up \<leftarrow> es, n = nem \<and> up = upstream]"

definition accepted_counts :: "u16 \<Rightarrow> TableEvent list \<Rightarrow> CommonAcceptCounts" where
  "accepted_counts nem es =
     \<lparr>ac_tx_packets = saturated (length (accepted_sizes nem False es)),
      ac_tx_bytes = saturated (sum_list (accepted_sizes nem False es)),
      ac_rx_packets = saturated (length (accepted_sizes nem True es)),
      ac_rx_bytes = saturated (sum_list (accepted_sizes nem True es))\<rparr>"

definition dropped_counts :: "nat \<Rightarrow> u16 \<Rightarrow> TableEvent list \<Rightarrow> u64 list" where
  "dropped_counts columns nem es =
     map (\<lambda>i. saturated (length (filter (\<lambda>e. e = Dropped nem (Suc i)) es))) [0..<columns]"

fun event_row :: "nat \<Rightarrow> TableEvent list \<Rightarrow> TableEvent \<Rightarrow> u64 list \<times> StatisticValue list" where
  "event_row columns es (Accepted nem _ _) =
     ([ucast nem], accept_row nem (accepted_counts nem es))"
| "event_row columns es (Dropped nem _) =
     ([ucast nem], map statistic_u64 (ucast nem # dropped_counts columns nem es))"

fun has_accepted :: "u16 \<Rightarrow> TableEvent \<Rightarrow> bool" where
  "has_accepted nem (Accepted n _ _) \<longleftrightarrow> n = nem"
| "has_accepted nem (Dropped _ _) \<longleftrightarrow> False"

fun has_dropped :: "u16 \<Rightarrow> TableEvent \<Rightarrow> bool" where
  "has_dropped nem (Accepted _ _ _) \<longleftrightarrow> False"
| "has_dropped nem (Dropped n _) \<longleftrightarrow> n = nem"

definition spec_table_state :: "nat \<Rightarrow> TableTrace \<Rightarrow> CommonTableState option" where
  "spec_table_state columns trace =
     (if trace = [] then None
      else Some \<lparr>ts_generation = fst (last trace),
                 ts_accepts = (\<lambda>nem. if list_ex (has_accepted nem) (epoch trace)
                                      then Some (accepted_counts nem (epoch trace)) else None),
                 ts_drops = (\<lambda>nem. if list_ex (has_dropped nem) (epoch trace)
                                    then Some (dropped_counts columns nem (epoch trace)) else None)\<rparr>)"

text \<open>The layers agree on the number of reasons of a drop table.\<close>

definition columns_agree :: "(u64 \<Rightarrow> nat) \<Rightarrow> CommonLayerCounters \<Rightarrow> bool" where
  "columns_agree columns c \<longleftrightarrow>
     (lc_unicast_drop_table c \<noteq> 0 \<longrightarrow> lc_unicast_drop_columns c = columns (lc_unicast_drop_table c)) \<and>
     (lc_broadcast_drop_table c \<noteq> 0 \<longrightarrow> lc_broadcast_drop_columns c = columns (lc_broadcast_drop_table c))"


section \<open>The counts are exact\<close>

lemma epoch_snoc:
  "epoch (tr @ [(g, e)]) = (if tr \<noteq> [] \<and> fst (last tr) = g then epoch tr @ [e] else [e])"
proof -
  have *: "map snd (takeWhile (\<lambda>x. fst x = g) (rev tr)) = []" if "tr = [] \<or> fst (last tr) \<noteq> g"
    using that by (cases tr rule: rev_cases) auto
  then show ?thesis by (auto simp: epoch_def rev_map)
qed

lemma unat_saturated: "unat (saturated n) = min n (2 ^ 64 - 1)"
  by (simp add: saturated_def unat_of_nat)

lemma unat_u64_or_max: "unat (u64_or_max n) = min n (2 ^ 64 - 1)"
  by (simp add: u64_or_max_def unat_of_nat unat_neg_one)

lemma saturated_add:
  "saturating_add (saturated a) (u64_or_max b) = saturated (a + b)"
  "saturating_add (saturated a) 1 = saturated (Suc a)"
  by (simp_all add: word_unat_eq_iff unat_saturating_add unat_saturated unat_u64_or_max)

lemma saturated_zero [simp]: "saturated 0 = 0"
  by (simp add: saturated_def)

lemma accepted_sizes_simps [simp]:
  "accepted_sizes nem up [] = []"
  "accepted_sizes nem up (es @ fs) = accepted_sizes nem up es @ accepted_sizes nem up fs"
  "accepted_sizes nem up [Accepted n b u] = (if n = nem \<and> u = up then [b] else [])"
  "accepted_sizes nem up [Dropped n code] = []"
  by (simp_all add: accepted_sizes_def)

lemma not_accepted_sizes: "\<not> list_ex (has_accepted nem) es \<Longrightarrow> accepted_sizes nem up es = []"
proof (induction es)
  case (Cons e es)
  then show ?case by (cases e) (auto simp: accepted_sizes_def)
qed simp

lemma not_dropped_counts:
  assumes "\<not> list_ex (has_dropped nem) es"
  shows "dropped_counts columns nem es = replicate columns 0"
proof -
  have "filter (\<lambda>e. e = Dropped nem (Suc i)) es = []" for i
    using assms by (auto simp: filter_empty_conv list_ex_iff)
  then show ?thesis by (simp add: dropped_counts_def map_replicate_const)
qed

lemma accepted_counts_none:
  "\<not> list_ex (has_accepted nem) es \<Longrightarrow> accepted_counts nem es = CommonAcceptCounts_default"
  by (simp add: accepted_counts_def CommonAcceptCounts_default_def not_accepted_sizes)

lemma count_accept_counts:
  "count_accept b up (accepted_counts nem es) = accepted_counts nem (es @ [Accepted nem b up])"
  by (simp add: count_accept_def accepted_counts_def saturated_add)

lemma accepted_counts_other:
  "n \<noteq> nem \<Longrightarrow> accepted_counts nem (es @ [Accepted n b up]) = accepted_counts nem es"
  "accepted_counts nem (es @ [Dropped n code]) = accepted_counts nem es"
  by (simp_all add: accepted_counts_def)

lemma dropped_counts_other:
  "n \<noteq> nem \<Longrightarrow> dropped_counts columns nem (es @ [Dropped n code]) = dropped_counts columns nem es"
  "dropped_counts columns nem (es @ [Accepted n b up]) = dropped_counts columns nem es"
  by (simp_all add: dropped_counts_def)

lemma dropped_counts_step:
  assumes "0 < code" "code \<le> columns"
  shows "(dropped_counts columns nem es)[code - 1 := saturating_add (dropped_counts columns nem es ! (code - 1)) 1]
    = dropped_counts columns nem (es @ [Dropped nem code])"
  using assms by (intro nth_equalityI) (auto simp: dropped_counts_def nth_list_update saturated_add)

lemma length_dropped_counts [simp]: "length (dropped_counts columns nem es) = columns"
  by (simp add: dropped_counts_def)

text \<open>The table state an operation starts from counts the events since the last clear.\<close>

definition fresh_epoch :: "u64 \<Rightarrow> TableTrace \<Rightarrow> TableEvent list" where
  "fresh_epoch g tr = (if tr \<noteq> [] \<and> fst (last tr) = g then epoch tr else [])"

lemma current_table_state_spec:
  assumes "fw_table_states fw t = spec_table_state columns tr" and g: "g = fw_table_generation api t fw"
  shows "current_table_state api t fw =
    \<lparr>ts_generation = g,
     ts_accepts = (\<lambda>nem. if list_ex (has_accepted nem) (fresh_epoch g tr)
                          then Some (accepted_counts nem (fresh_epoch g tr)) else None),
     ts_drops = (\<lambda>nem. if list_ex (has_dropped nem) (fresh_epoch g tr)
                        then Some (dropped_counts columns nem (fresh_epoch g tr)) else None)\<rparr>"
  using assms by (auto simp: current_table_state_def Let_def spec_table_state_def fresh_epoch_def
      CommonTableState_default_def)

lemma epoch_fresh: "epoch (tr @ [(g, e)]) = fresh_epoch g tr @ [e]"
  by (simp add: epoch_snoc fresh_epoch_def)

lemma spec_after_accept:
  "spec_table_state columns (tr @ [(g, Accepted nem b up)]) = Some
    \<lparr>ts_generation = g,
     ts_accepts = (\<lambda>n. if list_ex (has_accepted n) (fresh_epoch g tr)
                          then Some (accepted_counts n (fresh_epoch g tr)) else None)
                  (nem \<mapsto> accepted_counts nem (fresh_epoch g tr @ [Accepted nem b up])),
     ts_drops = (\<lambda>n. if list_ex (has_dropped n) (fresh_epoch g tr)
                        then Some (dropped_counts columns n (fresh_epoch g tr)) else None)\<rparr>"
  by (auto simp: spec_table_state_def epoch_fresh fun_eq_iff accepted_counts_other dropped_counts_other)

lemma spec_after_drop:
  "spec_table_state columns (tr @ [(g, Dropped nem code)]) = Some
    \<lparr>ts_generation = g,
     ts_accepts = (\<lambda>n. if list_ex (has_accepted n) (fresh_epoch g tr)
                          then Some (accepted_counts n (fresh_epoch g tr)) else None),
     ts_drops = (\<lambda>n. if list_ex (has_dropped n) (fresh_epoch g tr)
                        then Some (dropped_counts columns n (fresh_epoch g tr)) else None)
                (nem \<mapsto> dropped_counts columns nem (fresh_epoch g tr @ [Dropped nem code]))\<rparr>"
  by (auto simp: spec_table_state_def epoch_fresh fun_eq_iff accepted_counts_other dropped_counts_other)

lemma fw_call_fields [simp]:
  "fw_table_states (fw_call c fw) = fw_table_states fw"
  "fw_calls (fw_call c fw) = fw_calls fw @ [c]"
  by (simp_all add: fw_call_def)

lemma counting_keeps_tables [simp]:
  "fw_table_states (counter_increment h a fw) = fw_table_states fw"
  "fw_table_states (inbound tc d b fw) = fw_table_states fw"
  "fw_table_states (outbound tc d b p q fw) = fw_table_states fw"
  "fw_table_states (drop_packet tc d fw) = fw_table_states fw"
  by (simp_all add: counter_increment_def inbound_def outbound_def drop_packet_def Let_def)

lemma set_accept_row_step:
  assumes st: "\<And>t. fw_table_states fw t = spec_table_state (columns t) (tr t)"
    and t: "accept_table c d \<noteq> 0" and g: "g = fw_table_generation api (accept_table c d) fw"
  shows "set_accept_row api c s d b up fw =
    fw_call (SetTableRow (accept_table c d) [ucast s] (accept_row s (accepted_counts s (epoch (tr (accept_table c d) @ [(g, Accepted s b up)])))))
      (fw\<lparr>fw_table_states := (\<lambda>t. spec_table_state (columns t)
             (if t = accept_table c d then tr t @ [(g, Accepted s b up)] else tr t))\<rparr>)"
proof -
  define t where "t = accept_table c d"
  note cur = current_table_state_spec [OF st, of g api t, OF g [folded t_def]]
  let ?f = "fresh_epoch g (tr t)"
  have entry: "unwrap_or (ts_accepts (current_table_state api t fw) s) CommonAcceptCounts_default = accepted_counts s ?f"
    by (simp add: cur accepted_counts_none)
  have "set_accept_row api c s d b up fw =
    fw_call (SetTableRow t [ucast s] (accept_row s (accepted_counts s (?f @ [Accepted s b up]))))
      (fw\<lparr>fw_table_states := (fw_table_states fw)(t \<mapsto>
        (current_table_state api t fw)\<lparr>ts_accepts := (ts_accepts (current_table_state api t fw))
           (s \<mapsto> accepted_counts s (?f @ [Accepted s b up]))\<rparr>)\<rparr>)"
    using t by (simp add: set_accept_row_def accept_table_def [symmetric] t_def [symmetric] Let_def entry count_accept_counts)
  moreover have "(current_table_state api t fw)\<lparr>ts_accepts := (ts_accepts (current_table_state api t fw))
           (s \<mapsto> accepted_counts s (?f @ [Accepted s b up]))\<rparr> = the (spec_table_state (columns t) (tr t @ [(g, Accepted s b up)]))"
    by (simp add: cur spec_after_accept)
  moreover have "(fw_table_states fw)(t \<mapsto> the (spec_table_state (columns t) (tr t @ [(g, Accepted s b up)]))) =
      (\<lambda>x. spec_table_state (columns x) (if x = t then tr x @ [(g, Accepted s b up)] else tr x))"
    by (auto simp: fun_eq_iff st spec_after_accept)
  ultimately show ?thesis by (simp add: t_def [symmetric] epoch_fresh)
qed

lemma set_drop_row_step:
  assumes st: "\<And>t. fw_table_states fw t = spec_table_state (columns t) (tr t)"
    and t: "drop_table c d \<noteq> 0" and code: "code \<noteq> 0" "code \<le> drop_columns c d" and agree: "columns_agree columns c"
    and g: "g = fw_table_generation api (drop_table c d) fw"
    and peer: "peer = (if up then s else d)"
  shows "set_drop_row api c s d code up fw = Some
    (fw_call (SetTableRow (drop_table c d) [ucast peer] (map statistic_u64 (ucast peer #
       dropped_counts (columns (drop_table c d)) peer (epoch (tr (drop_table c d) @ [(g, Dropped peer code)])))))
      (fw\<lparr>fw_table_states := (\<lambda>t. spec_table_state (columns t)
             (if t = drop_table c d then tr t @ [(g, Dropped peer code)] else tr t))\<rparr>))"
proof -
  define t where "t = drop_table c d"
  note cur = current_table_state_spec [OF st, of g api t, OF g [folded t_def]]
  let ?f = "fresh_epoch g (tr t)"
  have cols: "drop_columns c d = columns t"
    using agree t by (auto simp: columns_agree_def drop_columns_def drop_table_def t_def)
  have entry: "unwrap_or (ts_drops (current_table_state api t fw) peer) (replicate (columns t) 0) = dropped_counts (columns t) peer ?f"
    by (simp add: cur not_dropped_counts)
  have tab: "(if d = 0xFFFF then (lc_broadcast_drop_table c, lc_broadcast_drop_columns c)
             else (lc_unicast_drop_table c, lc_unicast_drop_columns c)) = (t, columns t)"
    using cols by (auto simp: t_def drop_table_def drop_columns_def)
  have lt: "code - 1 < columns t" using code cols by simp
  have step: "(dropped_counts (columns t) peer ?f)[code - 1 := saturating_add (dropped_counts (columns t) peer ?f ! (code - 1)) 1]
      = dropped_counts (columns t) peer (?f @ [Dropped peer code])"
    using dropped_counts_step code cols by simp
  have "set_drop_row api c s d code up fw = Some (
    fw_call (SetTableRow t [ucast peer] (map statistic_u64 (ucast peer # dropped_counts (columns t) peer (?f @ [Dropped peer code]))))
      (fw\<lparr>fw_table_states := (fw_table_states fw)(t \<mapsto>
        (current_table_state api t fw)\<lparr>ts_drops := (ts_drops (current_table_state api t fw))
           (peer \<mapsto> dropped_counts (columns t) peer (?f @ [Dropped peer code]))\<rparr>)\<rparr>))"
    using t code cols lt
    by (simp add: set_drop_row_def tab t_def [symmetric] Let_def peer [symmetric] entry index_get_def index_set_def step [unfolded One_nat_def])
  moreover have "(current_table_state api t fw)\<lparr>ts_drops := (ts_drops (current_table_state api t fw))
           (peer \<mapsto> dropped_counts (columns t) peer (?f @ [Dropped peer code]))\<rparr> = the (spec_table_state (columns t) (tr t @ [(g, Dropped peer code)]))"
    by (simp add: cur spec_after_drop)
  moreover have "(fw_table_states fw)(t \<mapsto> the (spec_table_state (columns t) (tr t @ [(g, Dropped peer code)]))) =
      (\<lambda>x. spec_table_state (columns x) (if x = t then tr x @ [(g, Dropped peer code)] else tr x))"
    by (auto simp: fun_eq_iff st spec_after_drop)
  ultimately show ?thesis by (simp add: t_def [symmetric] epoch_fresh)
qed

text \<open>One operation: it never panics, adds its event to the trace of its table and ends with the
  row of that event.\<close>

definition op_trace :: "FrameworkApi \<Rightarrow> CommonLayerCounters \<Rightarrow> u64 \<Rightarrow> CounterOp \<Rightarrow> Framework \<Rightarrow> TableTrace" where
  "op_trace api c t op fw' =
     (case table_event c t op of None \<Rightarrow> [] | Some e \<Rightarrow> [(api_table_generation api (butlast (fw_calls fw')) t, e)])"

definition op_exact ::
  "FrameworkApi \<Rightarrow> (u64 \<Rightarrow> nat) \<Rightarrow> CommonLayerCounters \<Rightarrow> CounterOp \<Rightarrow> (u64 \<Rightarrow> TableTrace) \<Rightarrow> Framework \<Rightarrow> bool" where
  "op_exact api columns c op tr fw' \<longleftrightarrow>
     (\<forall>t. fw_table_states fw' t = spec_table_state (columns t) (tr t @ op_trace api c t op fw')) \<and>
     (\<forall>t e. table_event c t op = Some e \<longrightarrow>
        last (fw_calls fw') = (case event_row (columns t) (epoch (tr t @ op_trace api c t op fw')) e of
           (key, row) \<Rightarrow> SetTableRow t key row))"

lemma accept_op_exact:
  assumes st: "\<And>t. fw_table_states fw t = spec_table_state (columns t) (tr t)"
    and e: "\<And>t. table_event c t op = (if t \<noteq> 0 \<and> accept_table c d = t then Some (Accepted s b up) else None)"
  shows "op_exact api columns c op tr (set_accept_row api c s d b up fw)"
proof (cases "accept_table c d = 0")
  case True
  then have "set_accept_row api c s d b up fw = fw" by (simp add: set_accept_row_def accept_table_def [symmetric])
  then show ?thesis using True st by (auto simp: e op_trace_def op_exact_def)
next
  case False
  then show ?thesis
    by (auto simp: set_accept_row_step [OF st False refl] e op_trace_def fw_table_generation_def op_exact_def)
qed

lemma drop_op_exact:
  assumes st: "\<And>t. fw_table_states fw t = spec_table_state (columns t) (tr t)" and agree: "columns_agree columns c"
    and e: "\<And>t. table_event c t op = (if t \<noteq> 0 \<and> drop_table c d = t \<and> code \<noteq> 0 \<and> code \<le> drop_columns c d
            then Some (Dropped (if up then s else d) code) else None)"
  shows "\<exists>fw'. set_drop_row api c s d code up fw = Some fw' \<and> op_exact api columns c op tr fw'"
proof (cases "drop_table c d = 0 \<or> code = 0 \<or> code > drop_columns c d")
  case True
  then have "set_drop_row api c s d code up fw = Some fw"
    by (auto simp: set_drop_row_def drop_table_def drop_columns_def)
  then show ?thesis using True st by (auto simp: e op_trace_def op_exact_def)
next
  case False
  then have t: "drop_table c d \<noteq> 0" "code \<noteq> 0" "code \<le> drop_columns c d" by auto
  then show ?thesis
    by (auto simp: set_drop_row_step [OF st t agree refl refl] e op_trace_def fw_table_generation_def op_exact_def)
qed

lemma counter_op_exact:
  assumes st: "\<And>t. fw_table_states fw t = spec_table_state (columns t) (tr t)" and agree: "columns_agree columns c"
  shows "\<exists>fw'. counter_op api c op fw = Some fw' \<and> op_exact api columns c op tr fw'"
proof (cases op)
  case (DownstreamTx s d b p q)
  then show ?thesis using st by (auto simp: downstream_tx_packet_def intro!: accept_op_exact)
next
  case (UpstreamTx s d b p)
  then show ?thesis using st by (auto simp: upstream_tx_packet_def intro!: accept_op_exact)
next
  case (DownstreamDrop s d code)
  show ?thesis unfolding DownstreamDrop counter_op.simps downstream_drop_packet_def
    using st by (intro drop_op_exact agree) simp_all
next
  case (UpstreamDrop s d code)
  show ?thesis unfolding UpstreamDrop counter_op.simps upstream_drop_packet_def
    using st by (intro drop_op_exact agree) simp_all
qed (use st in \<open>simp_all add: op_exact_def op_trace_def downstream_rx_packet_def upstream_rx_packet_def\<close>)

lemma layers_run_append: "layers_run api (ops @ more_ops) fw = do { fw \<leftarrow> layers_run api ops fw; layers_run api more_ops fw }"
  by (induction ops arbitrary: fw) (auto split: bind_splits)

lemma layers_run_exact:
  assumes "\<And>t. fw_table_states fw t = spec_table_state (columns t) (tr t)"
    and "\<forall>(c, op) \<in> set ops. columns_agree columns c"
  shows "\<exists>fw'. layers_run api ops fw = Some fw' \<and>
     (\<forall>t. fw_table_states fw' t = spec_table_state (columns t) (tr t @ table_trace api t ops fw))"
  using assms
proof (induction ops arbitrary: fw tr)
  case (Cons p ops)
  obtain c op where p: "p = (c, op)" by (cases p)
  have agree: "columns_agree columns c" using Cons.prems(2) p by simp
  from counter_op_exact [OF Cons.prems(1) agree, of api op]
  obtain fw' where fw': "counter_op api c op fw = Some fw'"
    "\<And>t. fw_table_states fw' t = spec_table_state (columns t) (tr t @ op_trace api c t op fw')"
    unfolding op_exact_def by blast
  from Cons.IH [OF fw'(2)] Cons.prems(2) fw'(1) show ?case by (simp add: p op_trace_def)
qed simp


lemma table_trace_append:
  assumes "layers_run api ops fw = Some fw'"
  shows "table_trace api t (ops @ more_ops) fw = table_trace api t ops fw @ table_trace api t more_ops fw'"
  using assms by (induction ops arbitrary: fw) (auto split: bind_splits)

text \<open>C18: Packet tables are exact. In a process whose layers, in any interleaving and with any other
  framework calls between, count packets with \<open>CommonLayerCounters\<close>, no counting operation
  panics, and every one that counts a packet in a table ends by setting the row of the packet's NEM to
  the number of packets and bytes (saturating at 64 bits) accepted in each direction, or dropped for
  each reason, since the framework last changed the generation of that table.\<close>

theorem packet_tables_exact:
  assumes "fw_table_states fw0 = Map.empty"
    and "\<forall>(c, op) \<in> set (ops @ [(c, op)]). columns_agree columns c"
    and "table_event c t op = Some e"
  shows "\<exists>fw. layers_run api (ops @ [(c, op)]) fw0 = Some fw \<and>
    last (fw_calls fw) = (case event_row (columns t) (epoch (table_trace api t (ops @ [(c, op)]) fw0)) e of
      (key, row) \<Rightarrow> SetTableRow t key row)"
proof -
  have st: "fw_table_states fw0 t = spec_table_state (columns t) []" for t
    using assms(1) by (simp add: spec_table_state_def)
  obtain fw1 where fw1: "layers_run api ops fw0 = Some fw1"
    "\<And>t. fw_table_states fw1 t = spec_table_state (columns t) (table_trace api t ops fw0)"
    using layers_run_exact [OF st, of ops api] assms(2) by auto
  obtain fw2 where fw2: "counter_op api c op fw1 = Some fw2"
    "op_exact api columns c op (\<lambda>t. table_trace api t ops fw0) fw2"
    using counter_op_exact [OF fw1(2)] assms(2) by fastforce
  then show ?thesis using fw1(1) assms(3)
    by (simp add: layers_run_append table_trace_append [OF fw1(1)] op_exact_def op_trace_def)
qed

text \<open>A table cleared once: the layer accepts two packets, the generation changes, and the row of the
  next packet counts only the packets after the change.\<close>

definition witness_counters :: CommonLayerCounters where
  "witness_counters = \<lparr>lc_upstream = traffic_counters 0 [], lc_downstream = traffic_counters 0 [],
     lc_unicast_drop_table = 5, lc_broadcast_drop_table = 6, lc_unicast_accept_table = 7,
     lc_broadcast_accept_table = 8, lc_unicast_drop_columns = 2, lc_broadcast_drop_columns = 2\<rparr>"

definition witness_api :: FrameworkApi where
  "witness_api = \<lparr>api_answer = (\<lambda>_. 1), api_table_generation = (\<lambda>calls _. if length calls < 2 then 0 else 1),
     api_elapsed = (\<lambda>_. 0), api_now = (\<lambda>_. 0)\<rparr>"

definition witness_ops :: "(CommonLayerCounters \<times> CounterOp) list" where
  "witness_ops = map (\<lambda>op. (witness_counters, op))
     [UpstreamTx 1 2 100 0, UpstreamDrop 1 2 1, UpstreamTx 1 2 50 0, DownstreamTx 1 2 30 0 False]"

lemmas witness_defs = witness_ops_def witness_counters_def witness_api_def upstream_tx_packet_def
  downstream_tx_packet_def upstream_drop_packet_def set_accept_row_def set_drop_row_def outbound_def
  drop_packet_def counter_increment_def traffic_counters_def handle_at_def current_table_state_def
  fw_table_generation_def CommonTableState_default_def accept_table_def drop_table_def drop_columns_def
  epoch_def accept_row_def accepted_counts_def accepted_sizes_def saturated_def index_get_def index_set_def
  fw_call_def Let_def

theorem packet_tables_exact_witness:
  "\<exists>fw. layers_run witness_api (witness_ops @ [(witness_counters, UpstreamTx 1 2 20 0)])
      \<lparr>fw_calls = [], fw_table_states = Map.empty\<rparr> = Some fw \<and>
    last (fw_calls fw) = SetTableRow 7 [1] (map statistic_u64 [1, 1, 30, 2, 70])"
proof -
  have e: "table_event witness_counters 7 (UpstreamTx 1 2 20 0) = Some (Accepted 1 20 True)"
    by (simp add: witness_counters_def accept_table_def)
  have agree: "\<forall>(c, op) \<in> set (witness_ops @ [(witness_counters, UpstreamTx 1 2 20 0)]). columns_agree (\<lambda>_. 2) c"
    by (simp add: witness_ops_def columns_agree_def witness_counters_def)
  have row: "event_row 2 (epoch (table_trace witness_api 7 (witness_ops @ [(witness_counters, UpstreamTx 1 2 20 0)])
      \<lparr>fw_calls = [], fw_table_states = Map.empty\<rparr>)) (Accepted 1 20 True) = ([1], map statistic_u64 [1, 1, 30, 2, 70])"
    by (simp add: witness_defs)
  show ?thesis using packet_tables_exact [OF _ agree e, of "\<lparr>fw_calls = [], fw_table_states = Map.empty\<rparr>" witness_api]
    unfolding row by simp
qed

section \<open>Drop rows have the length of their table\<close>

definition drop_rows_ok :: "(u64 \<Rightarrow> nat) \<Rightarrow> Framework \<Rightarrow> bool" where
  "drop_rows_ok columns fw \<longleftrightarrow>
     (\<forall>t st nem row. fw_table_states fw t = Some st \<longrightarrow> ts_drops st nem = Some row \<longrightarrow> length row = columns t)"

lemma drop_rows_ok_same_tables:
  "fw_table_states fw' = fw_table_states fw \<Longrightarrow> drop_rows_ok columns fw' \<longleftrightarrow> drop_rows_ok columns fw"
  by (simp add: drop_rows_ok_def)

lemma drop_rows_ok_call [simp]: "drop_rows_ok columns (fw_call c fw) \<longleftrightarrow> drop_rows_ok columns fw"
  by (rule drop_rows_ok_same_tables) simp

lemma drop_rows_ok_counting [simp]:
  "drop_rows_ok columns (inbound tc d b fw) \<longleftrightarrow> drop_rows_ok columns fw"
  "drop_rows_ok columns (outbound tc d b p q fw) \<longleftrightarrow> drop_rows_ok columns fw"
  "drop_rows_ok columns (drop_packet tc d fw) \<longleftrightarrow> drop_rows_ok columns fw"
  by (rule drop_rows_ok_same_tables; simp)+

lemma current_table_rows:
  assumes "drop_rows_ok columns fw" "ts_drops (current_table_state api t fw) nem = Some row"
  shows "length row = columns t"
proof (cases "fw_table_states fw t")
  case None
  then show ?thesis using assms(2)
    by (auto simp: current_table_state_def Let_def CommonTableState_default_def split: if_splits)
next
  case (Some st)
  then show ?thesis using assms
    by (auto simp: current_table_state_def Let_def drop_rows_ok_def split: if_splits)
qed

lemma drop_rows_ok_update:
  assumes "drop_rows_ok columns fw" "\<And>nem row. ts_drops st nem = Some row \<Longrightarrow> length row = columns t"
  shows "drop_rows_ok columns (fw\<lparr>fw_table_states := (fw_table_states fw)(t \<mapsto> st)\<rparr>)"
  using assms by (auto simp: drop_rows_ok_def)

lemma set_accept_row_rows:
  assumes "drop_rows_ok columns fw"
  shows "drop_rows_ok columns (set_accept_row api c s d b up fw)"
  using assms current_table_rows [OF assms]
  by (auto simp: set_accept_row_def Let_def intro!: drop_rows_ok_update)

lemma set_drop_row_rows:
  assumes ok: "drop_rows_ok columns fw" and agree: "columns_agree columns c"
  shows "\<exists>fw'. set_drop_row api c s d code up fw = Some fw' \<and> drop_rows_ok columns fw'"
proof (cases "drop_table c d = 0 \<or> code = 0 \<or> code > drop_columns c d")
  case True
  then have "set_drop_row api c s d code up fw = Some fw"
    by (auto simp: set_drop_row_def drop_table_def drop_columns_def)
  with ok show ?thesis by simp
next
  case False
  define t where "t = drop_table c d"
  define peer where "peer = (if up then s else d)"
  define st where "st = current_table_state api t fw"
  define row where "row = unwrap_or (ts_drops st peer) (replicate (columns t) 0)"
  have cols: "drop_columns c d = columns t"
    using agree False by (auto simp: columns_agree_def drop_columns_def drop_table_def t_def)
  have tab: "(if d = 0xFFFF then (lc_broadcast_drop_table c, lc_broadcast_drop_columns c)
             else (lc_unicast_drop_table c, lc_unicast_drop_columns c)) = (t, columns t)"
    using cols by (auto simp: t_def drop_table_def drop_columns_def)
  have rows: "length r = columns t" if "ts_drops st n = Some r" for n r
    using current_table_rows [OF ok] that by (simp add: st_def)
  have row: "length row = columns t"
    using rows by (cases "ts_drops st peer") (simp_all add: row_def)
  have nz: "t \<noteq> 0" "code \<noteq> 0" "\<not> columns t < code" "code - 1 < length row"
    using False cols row by (auto simp: t_def)
  have "set_drop_row api c s d code up fw = Some (fw_call (SetTableRow t [ucast peer]
      (map statistic_u64 (ucast peer # row[code - 1 := saturating_add (row ! (code - 1)) 1])))
      (fw\<lparr>fw_table_states := (fw_table_states fw)(t \<mapsto>
         st\<lparr>ts_drops := (ts_drops st)(peer \<mapsto> row[code - 1 := saturating_add (row ! (code - 1)) 1])\<rparr>)\<rparr>))"
    unfolding set_drop_row_def tab Let_def case_prod_conv peer_def [symmetric] st_def [symmetric] row_def [symmetric]
    using nz by (simp add: index_get_def index_set_def)
  moreover have "drop_rows_ok columns (fw\<lparr>fw_table_states := (fw_table_states fw)(t \<mapsto>
         st\<lparr>ts_drops := (ts_drops st)(peer \<mapsto> row[code - 1 := saturating_add (row ! (code - 1)) 1])\<rparr>)\<rparr>)"
    using rows row by (intro drop_rows_ok_update ok) (auto split: if_splits)
  ultimately show ?thesis by simp
qed

lemmas counter_rows = set_accept_row_rows set_drop_row_rows

lemma counters_keep_rows:
  assumes "drop_rows_ok columns fw"
  shows "drop_rows_ok columns (upstream_rx_packet c s d b fw)" "drop_rows_ok columns (downstream_rx_packet c s d b fw)"
    "drop_rows_ok columns (upstream_tx_packet api c s d b delay fw)"
    "drop_rows_ok columns (downstream_tx_packet api c s d b delay generated fw)"
  using assms
  by (simp_all add: upstream_rx_packet_def downstream_rx_packet_def upstream_tx_packet_def downstream_tx_packet_def
      set_accept_row_rows)

lemma drops_total:
  assumes "drop_rows_ok columns fw" "columns_agree columns c"
  shows "\<exists>fw'. upstream_drop_packet api c s d code fw = Some fw' \<and> drop_rows_ok columns fw'"
    and "\<exists>fw'. downstream_drop_packet api c s d code fw = Some fw' \<and> drop_rows_ok columns fw'"
  using assms by (auto simp: upstream_drop_packet_def downstream_drop_packet_def intro!: set_drop_row_rows)


section \<open>Counting sends nothing\<close>

fun counting_call :: "FrameworkCall \<Rightarrow> bool" where
  "counting_call (IncrementCounter _ _) \<longleftrightarrow> True"
| "counting_call (SampleAverage _ _) \<longleftrightarrow> True"
| "counting_call (SetTableRow _ _ _) \<longleftrightarrow> True"
| "counting_call (MaximizeCounter _ _) \<longleftrightarrow> True"
| "counting_call (UpdateNeighborTx _ _ _) \<longleftrightarrow> True"
| "counting_call (UpdateNeighborRx _ _ _ _ _ _ _) \<longleftrightarrow> True"
| "counting_call (UpdateQueueMetric _ _ _ _ _) \<longleftrightarrow> True"
| "counting_call (UpdateRfSignalTable _ _ _ _ _ _ _ _) \<longleftrightarrow> True"
| "counting_call _ \<longleftrightarrow> False"

text \<open>The calls between two framework states that are not counting.\<close>

definition acts_between :: "Framework \<Rightarrow> Framework \<Rightarrow> FrameworkCall list \<Rightarrow> bool" where
  "acts_between fw fw' cs \<longleftrightarrow>
     (\<exists>calls. fw_calls fw' = fw_calls fw @ calls \<and> filter (\<lambda>c. \<not> counting_call c) calls = cs)"

lemma acts_refl [simp]: "acts_between fw fw []"
  by (simp add: acts_between_def)

lemma acts_trans: "acts_between a b cs \<Longrightarrow> acts_between b c ds \<Longrightarrow> acts_between a c (cs @ ds)"
  by (auto simp: acts_between_def)

lemma acts_quiet_left: "acts_between a b [] \<Longrightarrow> acts_between b c ds \<Longrightarrow> acts_between a c ds"
  using acts_trans by fastforce

lemma acts_quiet_right: "acts_between a b cs \<Longrightarrow> acts_between b c [] \<Longrightarrow> acts_between a c cs"
  using acts_trans by fastforce

lemma acts_call: "acts_between fw (fw_call c fw) (if counting_call c then [] else [c])"
  by (simp add: acts_between_def)

lemma acts_calls_eq: "fw_calls fw' = fw_calls fw @ calls \<Longrightarrow> acts_between fw fw' (filter (\<lambda>c. \<not> counting_call c) calls)"
  by (auto simp: acts_between_def)

lemma acts_unique: "acts_between fw fw' cs \<Longrightarrow> acts_between fw fw' ds \<Longrightarrow> cs = ds"
  by (auto simp: acts_between_def)

lemma increment_quiet: "acts_between fw (counter_increment h a fw) []"
  using acts_call [of fw "IncrementCounter h a"] by (simp add: counter_increment_def)

lemma increments_quiet: "acts_between fw (counter_increment h a (counter_increment h' a' fw)) []"
  by (rule acts_quiet_left [OF increment_quiet increment_quiet])

lemma sampled_quiet: "acts_between fw (fw_call (SampleAverage k x) (counter_increment h a (counter_increment h' a' fw))) []"
  using acts_quiet_left [OF increments_quiet acts_call [of _ "SampleAverage k x"]] by simp

lemma inbound_quiet: "acts_between fw (inbound tc d b fw) []"
  by (simp add: inbound_def Let_def increments_quiet)

lemma outbound_quiet: "acts_between fw (outbound tc d b p q fw) []"
  by (simp add: outbound_def Let_def increments_quiet sampled_quiet)

lemma drop_packet_quiet: "acts_between fw (drop_packet tc d fw) []"
  by (simp add: drop_packet_def increment_quiet)

lemma set_accept_row_quiet: "acts_between fw (set_accept_row api c s d b up fw) []"
  by (auto simp: set_accept_row_def Let_def acts_between_def fw_call_def)

lemma set_drop_row_quiet: "set_drop_row api c s d code up fw = Some fw' \<Longrightarrow> acts_between fw fw' []"
  by (auto simp: set_drop_row_def Let_def acts_between_def fw_call_def split: if_splits bind_splits)

lemma counters_quiet:
  "acts_between fw (upstream_rx_packet c s d b fw) []" "acts_between fw (downstream_rx_packet c s d b fw) []"
  "acts_between fw (upstream_tx_packet api c s d b delay fw) []"
  "acts_between fw (downstream_tx_packet api c s d b delay generated fw) []"
  by (auto simp: upstream_rx_packet_def downstream_rx_packet_def upstream_tx_packet_def downstream_tx_packet_def
      intro: inbound_quiet acts_quiet_left [OF outbound_quiet set_accept_row_quiet])

lemma drops_quiet:
  "upstream_drop_packet api c s d code fw = Some fw' \<Longrightarrow> acts_between fw fw' []"
  "downstream_drop_packet api c s d code fw = Some fw' \<Longrightarrow> acts_between fw fw' []"
  by (auto simp: upstream_drop_packet_def downstream_drop_packet_def
      intro: acts_quiet_left [OF drop_packet_quiet set_drop_row_quiet])


end
