(* ===== verification/Ieee_F32.thy ===== *)
theory Ieee_F32
  imports Ieee_F64
begin

text \<open>
  The \<open>f32\<close> operations of Rust the modelled code uses, on bit patterns: comparisons, division,
  remainder, conversions to and from \<open>f64\<close> and integers, rounded to nearest with ties to even.
  A finite pattern denotes \<open>f32_significand w * 2 ^ (f32_shift w - 149)\<close>. The rounding of
  \<open>f64\<close> values to integers is here too.
\<close>

section \<open>Fields and values\<close>

definition f32_sign :: "f32 \<Rightarrow> bool" where
  "f32_sign w = bit w 31"

definition f32_biased :: "f32 \<Rightarrow> int" where
  "f32_biased w = uint (drop_bit 23 w AND 0xFF)"

definition f32_fraction :: "f32 \<Rightarrow> int" where
  "f32_fraction w = uint (w AND 0x7FFFFF)"

definition f32_nan :: f32 where "f32_nan = 0x7FC00000"

definition f32_inf :: "bool \<Rightarrow> f32" where
  "f32_inf s = (if s then 0xFF800000 else 0x7F800000)"

definition f32_zero :: "bool \<Rightarrow> f32" where
  "f32_zero s = (if s then 0x80000000 else 0)"

definition f32_is_nan :: "f32 \<Rightarrow> bool" where
  "f32_is_nan w \<longleftrightarrow> 0x7F800000 < w AND 0x7FFFFFFF"

definition f32_is_inf :: "f32 \<Rightarrow> bool" where
  "f32_is_inf w \<longleftrightarrow> w AND 0x7FFFFFFF = 0x7F800000"

definition f32_is_zero :: "f32 \<Rightarrow> bool" where
  "f32_is_zero w \<longleftrightarrow> w AND 0x7FFFFFFF = 0"

definition f32_significand :: "f32 \<Rightarrow> int" where
  "f32_significand w =
     (let m = (if f32_biased w = 0 then f32_fraction w else 2 ^ 23 + f32_fraction w)
      in if f32_sign w then - m else m)"

definition f32_shift :: "f32 \<Rightarrow> int" where
  "f32_shift w = max 0 (f32_biased w - 1)"

text \<open>Comparisons of values that are not NaN compare the patterns as signed magnitudes, with both
  zeros equal.\<close>

definition f32_key :: "f32 \<Rightarrow> int" where
  "f32_key w = (let m = uint (w AND 0x7FFFFFFF) in if f32_sign w then - m else m)"

definition f32_lt :: "f32 \<Rightarrow> f32 \<Rightarrow> bool" where
  "f32_lt a b \<longleftrightarrow> \<not> f32_is_nan a \<and> \<not> f32_is_nan b \<and> f32_key a < f32_key b"

definition f32_le :: "f32 \<Rightarrow> f32 \<Rightarrow> bool" where
  "f32_le a b \<longleftrightarrow> \<not> f32_is_nan a \<and> \<not> f32_is_nan b \<and> f32_key a \<le> f32_key b"


section \<open>Arithmetic\<close>

definition f32_round :: "bool \<Rightarrow> int \<Rightarrow> int \<Rightarrow> int \<Rightarrow> f32" where
  "f32_round s n d x =
     (let e = max (frac_log2 n d + x) (- 126);
          (a, b) = pow2_frac n d (e - 23 - x);
          bits = (e + 126) * 0x800000 + round_half_even a b
      in if bits \<ge> 0x7F800000 then f32_inf s
         else word_of_int bits OR f32_zero s)"

definition f32_of_fraction :: "bool \<Rightarrow> int \<Rightarrow> int \<Rightarrow> int \<Rightarrow> f32" where
  "f32_of_fraction z n d x =
     (if n = 0 then f32_zero z else f32_round (n < 0) \<bar>n\<bar> d x)"

definition f32_div :: "f32 \<Rightarrow> f32 \<Rightarrow> f32" where
  "f32_div a b =
     (let s = (f32_sign a \<noteq> f32_sign b)
      in if f32_is_nan a \<or> f32_is_nan b then f32_nan
         else if f32_is_inf a then (if f32_is_inf b then f32_nan else f32_inf s)
         else if f32_is_inf b then f32_zero s
         else if f32_is_zero b then (if f32_is_zero a then f32_nan else f32_inf s)
         else f32_of_fraction s (sgn (f32_significand b) * f32_significand a) \<bar>f32_significand b\<bar>
                (f32_shift a - f32_shift b))"

text \<open>\<open>a % b\<close> is exact and has the sign of \<open>a\<close>.\<close>

definition f32_rem :: "f32 \<Rightarrow> f32 \<Rightarrow> f32" where
  "f32_rem a b =
     (if f32_is_nan a \<or> f32_is_nan b \<or> f32_is_inf a \<or> f32_is_zero b then f32_nan
      else if f32_is_inf b then a
      else (let k = min (f32_shift a) (f32_shift b);
                m = \<bar>f32_significand a\<bar> * 2 ^ nat (f32_shift a - k);
                n = \<bar>f32_significand b\<bar> * 2 ^ nat (f32_shift b - k);
                r = m mod n
            in f32_of_fraction (f32_sign a) (if f32_sign a then - r else r) 1 (k - 149)))"

text \<open>\<open>x.floor() as usize\<close>; a cast saturates and takes NaN to 0.\<close>

definition f32_floor_as_usize :: "f32 \<Rightarrow> nat" where
  "f32_floor_as_usize w =
     (if f32_is_nan w then 0
      else if f32_is_inf w then (if f32_sign w then 0 else usize_max)
      else (let (a, b) = pow2_frac (f32_significand w) 1 (149 - f32_shift w)
            in min usize_max (nat (a div b))))"

definition f64_of_f32 :: "f32 \<Rightarrow> f64" where
  "f64_of_f32 w =
     (if f32_is_nan w then f64_nan
      else if f32_is_inf w then f64_inf (f32_sign w)
      else f64_of_fraction (f32_sign w) (f32_significand w) 1 (f32_shift w - 149))"

text \<open>\<open>x.round() as u64\<close>: half-way cases away from zero, then a saturating cast.\<close>

definition f64_round_as_u64 :: "f64 \<Rightarrow> u64" where
  "f64_round_as_u64 w =
     (if f64_is_nan w \<or> f64_sign w then 0
      else if f64_is_inf w then - 1
      else (let (a, b) = pow2_frac (f64_significand w) 1 (1074 - f64_shift w);
                q = (2 * a + b) div (2 * b)
            in if q < 2 ^ 64 then word_of_int q else - 1))"

definition U64_MAX_AS_F64 :: f64 where "U64_MAX_AS_F64 = f64_of_int (2 ^ 64 - 1)"

text \<open>The literals of the modelled code.\<close>

definition F32_100 :: f32 where "F32_100 = 0x42C80000"
definition F32_65535 :: f32 where "F32_65535 = 0x477FFF00"
definition F64_1E6 :: f64 where "F64_1E6 = 0x412E848000000000"

lemma f32_literals:
  "F32_100 = f32_of_fraction False 100 1 0" "F32_65535 = f32_of_fraction False 65535 1 0"
  "F64_1E6 = f64_of_int 1000000"
  by code_simp+

end
