(* ===== verification/Rust_Text.thy ===== *)
theory Rust_Text
  imports Ieee_F32
begin

text \<open>
  Text as the plugins read it: C strings with their UTF-8 check, the number, boolean and address
  parsers of the Rust standard library, and the configuration request of the plugin interface
  (\<^verbatim>\<open>rust/emane-plugin-api/src/lib.rs\<close>: \<open>FfiConfigRequest\<close>). A string is
  the list of its UTF-8 bytes.
\<close>

section \<open>UTF-8\<close>

definition byte_between :: "nat \<Rightarrow> nat \<Rightarrow> char \<Rightarrow> bool" where
  "byte_between lo hi c \<longleftrightarrow> lo \<le> of_char c \<and> of_char c \<le> hi"

abbreviation continuation :: "char \<Rightarrow> bool" where
  "continuation \<equiv> byte_between 0x80 0xBF"

text \<open>Well-formed sequences: no overlong forms, no surrogates, nothing above U+10FFFF.\<close>

fun utf8_valid :: "string \<Rightarrow> bool" where
  "utf8_valid [] \<longleftrightarrow> True"
| "utf8_valid (a # s) \<longleftrightarrow>
     (if byte_between 0 0x7F a then utf8_valid s
      else if byte_between 0xC2 0xDF a then
        (case s of b # s' \<Rightarrow> continuation b \<and> utf8_valid s' | _ \<Rightarrow> False)
      else if byte_between 0xE0 0xEF a then
        (case s of b # c # s' \<Rightarrow>
            (if a = CHR 0xE0 then byte_between 0xA0 0xBF b
             else if a = CHR 0xED then byte_between 0x80 0x9F b else continuation b)
            \<and> continuation c \<and> utf8_valid s'
         | _ \<Rightarrow> False)
      else if byte_between 0xF0 0xF4 a then
        (case s of b # c # d # s' \<Rightarrow>
            (if a = CHR 0xF0 then byte_between 0x90 0xBF b
             else if a = CHR 0xF4 then byte_between 0x80 0x8F b else continuation b)
            \<and> continuation c \<and> continuation d \<and> utf8_valid s'
         | _ \<Rightarrow> False)
      else False)"

text \<open>\<open>CStr::from_ptr(p).to_str().ok()\<close> for a pointer that is not null.\<close>

definition to_str :: "string \<Rightarrow> string option" where
  "to_str s = (if utf8_valid s then Some s else None)"

text \<open>\<open>str::trim\<close> removes characters with the Unicode property White_Space at both ends; these
  are their encodings.\<close>

definition white_space :: "string list" where
  "white_space =
     [[CHR 0x09], [CHR 0x0A], [CHR 0x0B], [CHR 0x0C], [CHR 0x0D], [CHR 0x20],
      [CHR 0xC2, CHR 0x85], [CHR 0xC2, CHR 0xA0], [CHR 0xE1, CHR 0x9A, CHR 0x80],
      [CHR 0xE2, CHR 0x80, CHR 0x80], [CHR 0xE2, CHR 0x80, CHR 0x81], [CHR 0xE2, CHR 0x80, CHR 0x82],
      [CHR 0xE2, CHR 0x80, CHR 0x83], [CHR 0xE2, CHR 0x80, CHR 0x84], [CHR 0xE2, CHR 0x80, CHR 0x85],
      [CHR 0xE2, CHR 0x80, CHR 0x86], [CHR 0xE2, CHR 0x80, CHR 0x87], [CHR 0xE2, CHR 0x80, CHR 0x88],
      [CHR 0xE2, CHR 0x80, CHR 0x89], [CHR 0xE2, CHR 0x80, CHR 0x8A], [CHR 0xE2, CHR 0x80, CHR 0xA8],
      [CHR 0xE2, CHR 0x80, CHR 0xA9], [CHR 0xE2, CHR 0x80, CHR 0xAF], [CHR 0xE2, CHR 0x81, CHR 0x9F],
      [CHR 0xE3, CHR 0x80, CHR 0x80]]"

definition strip_prefix :: "string \<Rightarrow> string \<Rightarrow> string option" where
  "strip_prefix p s = (if take (length p) s = p then Some (drop (length p) s) else None)"

function trim_front :: "string list \<Rightarrow> string \<Rightarrow> string" where
  "trim_front ws s =
     (case find (\<lambda>w. w \<noteq> [] \<and> strip_prefix w s \<noteq> None) ws of
        None \<Rightarrow> s
      | Some w \<Rightarrow> trim_front ws (drop (length w) s))"
  by auto
termination
proof (relation "measure (\<lambda>(ws, s). length s)")
  fix ws :: "string list" and s w :: string
  assume "find (\<lambda>w. w \<noteq> [] \<and> strip_prefix w s \<noteq> None) ws = Some w"
  then have w: "w \<noteq> []" "take (length w) s = w"
    by (auto simp: find_Some_iff strip_prefix_def split: if_splits)
  have "s \<noteq> []"
  proof
    assume "s = []"
    with w show False by simp
  qed
  with w(1) show "((ws, drop (length w) s), (ws, s)) \<in> measure (\<lambda>(ws, s). length s)" by simp
qed simp

declare trim_front.simps [simp del]

definition trim :: "string \<Rightarrow> string" where
  "trim s = rev (trim_front (map rev white_space) (rev (trim_front white_space s)))"

definition ascii_lower :: "char \<Rightarrow> char" where
  "ascii_lower c = (if byte_between 0x41 0x5A c then char_of (of_char c + (32::nat)) else c)"

definition to_ascii_lowercase :: "string \<Rightarrow> string" where
  "to_ascii_lowercase = map ascii_lower"

text \<open>\<open>s.split(c)\<close>: one field more than there are separators.\<close>

fun split_on :: "char \<Rightarrow> string \<Rightarrow> string list" where
  "split_on c [] = [[]]"
| "split_on c (x # s) =
     (if x = c then [] # split_on c s
      else (case split_on c s of [] \<Rightarrow> [[x]] | f # fs \<Rightarrow> (x # f) # fs))"


section \<open>Numbers\<close>

definition is_digit :: "char \<Rightarrow> bool" where
  "is_digit = byte_between 0x30 0x39"

definition digit_value :: "char \<Rightarrow> nat" where
  "digit_value c = of_char c - 0x30"

definition digits_value :: "string \<Rightarrow> nat" where
  "digits_value = foldl (\<lambda>n c. 10 * n + digit_value c) 0"

text \<open>\<open>from_str\<close> of the unsigned types: an optional plus sign and decimal digits, at most the
  largest value of the type.\<close>

definition parse_unsigned :: "nat \<Rightarrow> string \<Rightarrow> nat option" where
  "parse_unsigned largest s =
     (let digits = (case s of c # rest \<Rightarrow> if c = CHR ''+'' \<and> rest \<noteq> [] then rest else s | [] \<Rightarrow> s)
      in if digits = [] \<or> \<not> list_all is_digit digits \<or> digits_value digits > largest then None
         else Some (digits_value digits))"

definition parse_u8 :: "string \<Rightarrow> u8 option" where
  "parse_u8 s = map_option word_of_nat (parse_unsigned 0xFF s)"

definition parse_u16 :: "string \<Rightarrow> u16 option" where
  "parse_u16 s = map_option word_of_nat (parse_unsigned 0xFFFF s)"

definition parse_u32 :: "string \<Rightarrow> u32 option" where
  "parse_u32 s = map_option word_of_nat (parse_unsigned 0xFFFFFFFF s)"

definition parse_u64 :: "string \<Rightarrow> u64 option" where
  "parse_u64 s = map_option word_of_nat (parse_unsigned 0xFFFFFFFFFFFFFFFF s)"

text \<open>\<open>from_str\<close> of the floating-point types. A decimal number is \<open>n / d\<close>.\<close>

datatype Decimal = DecimalNumber nat nat | DecimalInf | DecimalNan

definition scale10 :: "nat \<Rightarrow> int \<Rightarrow> Decimal" where
  "scale10 n e = (if e \<ge> 0 then DecimalNumber (n * 10 ^ nat e) 1 else DecimalNumber n (10 ^ nat (- e)))"

text \<open>The exponent after the digits, if any: \<open>e\<close> or \<open>E\<close>, a sign and at least one
  digit.\<close>

definition parse_exponent :: "string \<Rightarrow> int option" where
  "parse_exponent s =
     (case s of
        [] \<Rightarrow> Some 0
      | c # rest \<Rightarrow>
          if c = CHR ''e'' \<or> c = CHR ''E''
          then (let (negative, digits) =
                  (case rest of
                     x # ds \<Rightarrow> if x = CHR ''-'' then (True, ds) else if x = CHR ''+'' then (False, ds) else (False, rest)
                   | [] \<Rightarrow> (False, rest))
                in if digits = [] \<or> \<not> list_all is_digit digits then None
                   else Some (if negative then - int (digits_value digits) else int (digits_value digits)))
          else None)"

definition parse_number :: "string \<Rightarrow> Decimal option" where
  "parse_number s =
     (let whole = takeWhile is_digit s; rest = dropWhile is_digit s;
          (fraction, rest) =
            (case rest of
               c # r \<Rightarrow> if c = CHR ''.'' then (takeWhile is_digit r, dropWhile is_digit r) else ([], rest)
             | [] \<Rightarrow> ([], rest))
      in if whole @ fraction = [] then None
         else map_option (\<lambda>e. scale10 (digits_value (whole @ fraction)) (e - int (length fraction)))
                (parse_exponent rest))"

definition parse_decimal :: "string \<Rightarrow> (bool \<times> Decimal) option" where
  "parse_decimal s =
     (let (negative, body) =
            (case s of
               c # r \<Rightarrow> if c = CHR ''-'' then (True, r) else if c = CHR ''+'' then (False, r) else (False, s)
             | [] \<Rightarrow> (False, s));
          name = to_ascii_lowercase body
      in case parse_number body of
           Some d \<Rightarrow> Some (negative, d)
         | None \<Rightarrow>
             if name = ''inf'' \<or> name = ''infinity'' then Some (negative, DecimalInf)
             else if name = ''nan'' then Some (negative, DecimalNan)
             else None)"

text \<open>A NaN has the canonical pattern: the code only asks whether a value is finite.\<close>

definition parse_f64 :: "string \<Rightarrow> f64 option" where
  "parse_f64 s = map_option (\<lambda>(negative, d).
     case d of DecimalInf \<Rightarrow> f64_inf negative | DecimalNan \<Rightarrow> f64_nan
     | DecimalNumber n m \<Rightarrow> f64_of_fraction negative (if negative then - int n else int n) (int m) 0)
     (parse_decimal s)"

definition parse_f32 :: "string \<Rightarrow> f32 option" where
  "parse_f32 s = map_option (\<lambda>(negative, d).
     case d of DecimalInf \<Rightarrow> f32_inf negative | DecimalNan \<Rightarrow> f32_nan
     | DecimalNumber n m \<Rightarrow> f32_of_fraction negative (if negative then - int n else int n) (int m) 0)
     (parse_decimal s)"

text \<open>\<open>Ipv4Addr::from_str\<close>: four numbers below 256 without leading zeros.\<close>

definition parse_octet :: "string \<Rightarrow> u8 option" where
  "parse_octet s =
     (if s = [] \<or> length s > 3 \<or> \<not> list_all is_digit s \<or> (length s > 1 \<and> hd s = CHR ''0'') \<or> digits_value s > 255
      then None else Some (word_of_nat (digits_value s)))"

definition parse_ipv4_addr :: "string \<Rightarrow> u8 list option" where
  "parse_ipv4_addr s =
     (case map parse_octet (split_on CHR ''.'' s) of
        [Some a, Some b, Some c, Some d] \<Rightarrow> Some [a, b, c, d]
      | _ \<Rightarrow> None)"


section \<open>Configuration requests\<close>

text \<open>A C string is \<open>None\<close> for a null pointer.\<close>

record FfiConfigStringArray =
  ca_data :: "string option list option"
  ca_len :: nat

record FfiConfigItem =
  ci_name :: "string option"
  ci_values :: FfiConfigStringArray

record FfiConfigRequest =
  cr_data :: "FfiConfigItem list option"
  cr_len :: nat

text \<open>\<open>iter().map(f).collect::<Option<Vec<_>>>()\<close> where \<open>f\<close> may panic: the first
  \<open>None\<close> ends it.\<close>

fun collect_option :: "('a \<Rightarrow> 'b option panics) \<Rightarrow> 'a list \<Rightarrow> 'b list option panics" where
  "collect_option f [] = Some (Some [])"
| "collect_option f (x # xs) =
     (case f x of
        None \<Rightarrow> None
      | Some None \<Rightarrow> Some None
      | Some (Some y) \<Rightarrow> map_option (map_option ((#) y)) (collect_option f xs))"

definition config_value :: "string option \<Rightarrow> string option panics" where
  "config_value v = Some (case v of None \<Rightarrow> None | Some s \<Rightarrow> to_str s)"

text \<open>The array behind a pointer; reading past its memory or through a null pointer is undefined
  behaviour, which counts as a panic.\<close>

definition raw_parts :: "'a list option \<Rightarrow> nat \<Rightarrow> 'a list panics" where
  "raw_parts ptr len =
     (if len = 0 then Some []
      else case ptr of None \<Rightarrow> None | Some mem \<Rightarrow> if len \<le> length mem then Some (take len mem) else None)"


end
