(* ===== verification/Comm_Effect_Filter.thy ===== *)
theory Comm_Effect_Filter
  imports Plugin_Types Rust_Text
begin

text \<open>
  The effects and filters of the communication effect shim
  (\<^verbatim>\<open>rust/plugins/commeffect-shim/src/lib.rs\<close>): the effects of an event, the rules of a
  filter and which frames they match, and the filter file. The XML library is a parameter: a node
  type with the accessors the code calls.
\<close>

section \<open>Effects\<close>

record CommEffectMessage =
  cm_nem_id :: u32
  cm_latency_seconds :: f32
  cm_jitter_seconds :: f32
  cm_probability_loss :: f32
  cm_probability_duplicate :: f32
  cm_unicast_bit_rate_bps :: u64
  cm_broadcast_bit_rate_bps :: u64

record CommEffect =
  ef_latency_microseconds :: u64
  ef_jitter_microseconds :: u64
  ef_probability_loss :: f32
  ef_probability_duplicate :: f32
  ef_unicast_bit_rate_bps :: u64
  ef_broadcast_bit_rate_bps :: u64

definition seconds_to_microseconds :: "f32 \<Rightarrow> u64 option" where
  "seconds_to_microseconds seconds =
     (let v = f64_mul (f64_of_f32 seconds) F64_1E6
      in if f32_is_finite seconds \<and> f32_le 0 seconds \<and> f64_le v U64_MAX_AS_F64
         then Some (f64_round_as_u64 v) else None)"

definition probabilities_valid :: "f32 \<Rightarrow> f32 \<Rightarrow> bool" where
  "probabilities_valid loss duplicate \<longleftrightarrow>
     f32_is_finite loss \<and> (f32_le 0 loss \<and> f32_le loss F32_100) \<and>
     f32_is_finite duplicate \<and> (f32_le 0 duplicate \<and> f32_le duplicate F32_65535)"

definition Effect_from_message :: "CommEffectMessage \<Rightarrow> CommEffect option" where
  "Effect_from_message message = do {
     latency \<leftarrow> seconds_to_microseconds (cm_latency_seconds message);
     jitter \<leftarrow> seconds_to_microseconds (cm_jitter_seconds message);
     if cm_nem_id message \<le> 0xFFFF \<and> probabilities_valid (cm_probability_loss message) (cm_probability_duplicate message)
     then Some \<lparr>ef_latency_microseconds = latency, ef_jitter_microseconds = jitter,
                ef_probability_loss = cm_probability_loss message,
                ef_probability_duplicate = cm_probability_duplicate message,
                ef_unicast_bit_rate_bps = cm_unicast_bit_rate_bps message,
                ef_broadcast_bit_rate_bps = cm_broadcast_bit_rate_bps message\<rparr>
     else None }"


section \<open>Filters\<close>

datatype ProtocolRule = Udp "u16 option" "u16 option" | Number u8

record Ipv4Rule =
  ru_source :: "u8 list option"
  ru_destination :: "u8 list option"
  ru_total_length :: "u16 option"
  ru_tos :: "u8 option"
  ru_ttl :: "u8 option"
  ru_protocols :: "ProtocolRule list"

record Target =
  ta_ipv4 :: "Ipv4Rule option"

record Filter =
  fi_target :: Target
  fi_effect :: CommEffect

text \<open>\<open>u16::from_be_bytes([d[i], d[i + 1]])\<close>.\<close>

definition u16_at :: "byte list \<Rightarrow> nat \<Rightarrow> u16 panics" where
  "u16_at d i = do { a \<leftarrow> index_get d i; b \<leftarrow> index_get d (i + 1); Some (of_be_bytes [a, b]) }"

text \<open>\<open>rule.is_some_and(|value| field != value)\<close>; the field is read only when there is a rule.\<close>

definition differs :: "'a option \<Rightarrow> 'a panics \<Rightarrow> bool panics" where
  "differs r field = (case r of None \<Rightarrow> Some False | Some v \<Rightarrow> map_option (\<lambda>x. x \<noteq> v) field)"

text \<open>A chain of \<open>||\<close>.\<close>

fun or_chain :: "bool panics list \<Rightarrow> bool panics" where
  "or_chain [] = Some False"
| "or_chain (a # as) = do { x \<leftarrow> a; if x then Some True else or_chain as }"

definition protocol_matches :: "byte list \<Rightarrow> nat \<Rightarrow> ProtocolRule \<Rightarrow> bool panics" where
  "protocol_matches ip header_len protocol =
     (case protocol of
        Number v \<Rightarrow> do { p \<leftarrow> index_get ip 9; Some (p = v) }
      | Udp source destination \<Rightarrow> do {
          p \<leftarrow> index_get ip 9;
          if p \<noteq> 17 \<or> length ip < header_len + 8 then Some False
          else do {
            udp \<leftarrow> slice ip header_len (length ip);
            refused \<leftarrow> or_chain [differs source (u16_at udp 0), differs destination (u16_at udp 2)];
            Some (\<not> refused) } })"

definition Target_matches :: "Target \<Rightarrow> byte list \<Rightarrow> bool panics" where
  "Target_matches self frame =
     (case ta_ipv4 self of
        None \<Rightarrow> Some True
      | Some rule \<Rightarrow>
          if length frame < 34 then Some False
          else do {
            ethertype \<leftarrow> u16_at frame 12;
            if ethertype \<noteq> 0x0800 then Some False
            else do {
              ip \<leftarrow> slice frame 14 (length frame);
              first \<leftarrow> index_get ip 0;
              let header_len = unat (first AND 0x0F) * 4;
              if drop_bit 4 first \<noteq> 4 \<or> header_len < 20 \<or> length ip < header_len then Some False
              else do {
                refused \<leftarrow> or_chain
                  [differs (ru_source rule) (slice ip 12 16), differs (ru_destination rule) (slice ip 16 20),
                   differs (ru_total_length rule) (u16_at ip 2), differs (ru_tos rule) (index_get ip 1),
                   differs (ru_ttl rule) (index_get ip 8)];
                if refused then Some False
                else if ru_protocols rule = [] then Some True
                else or_chain (map (protocol_matches ip header_len) (ru_protocols rule)) } } })"

text \<open>\<open>filters.iter().find(|filter| filter.target.matches(payload))\<close>.\<close>

fun find_filter :: "byte list \<Rightarrow> Filter list \<Rightarrow> Filter option panics" where
  "find_filter payload [] = Some None"
| "find_filter payload (f # fs) = do {
     m \<leftarrow> Target_matches (fi_target f) payload;
     if m then Some (Some f) else find_filter payload fs }"


section \<open>The filter file\<close>

record 'n XmlApi =
  xml_read_file :: "string \<Rightarrow> string option"
  xml_parse :: "string \<Rightarrow> 'n option"
  xml_children :: "'n \<Rightarrow> 'n list"
  xml_is_element :: "'n \<Rightarrow> bool"
  xml_tag_name :: "'n \<Rightarrow> string"
  xml_has_tag_name :: "'n \<Rightarrow> string \<Rightarrow> bool"
  xml_attribute :: "'n \<Rightarrow> string \<Rightarrow> string option"
  xml_text :: "'n \<Rightarrow> string option"

type_synonym 'a checked = "string + 'a"

definition check_bind :: "'a checked \<Rightarrow> ('a \<Rightarrow> 'b checked) \<Rightarrow> 'b checked" where
  "check_bind m f = (case m of Inl e \<Rightarrow> Inl e | Inr x \<Rightarrow> f x)"

definition ok_or :: "string \<Rightarrow> 'a option \<Rightarrow> 'a checked" where
  "ok_or e x = (case x of None \<Rightarrow> Inl e | Some y \<Rightarrow> Inr y)"

fun check_map :: "('a \<Rightarrow> 'b checked) \<Rightarrow> 'a list \<Rightarrow> 'b list checked" where
  "check_map f [] = Inr []"
| "check_map f (x # xs) = check_bind (f x) (\<lambda>y. check_bind (check_map f xs) (\<lambda>ys. Inr (y # ys)))"

text \<open>A value equal to the default of its type is no rule.\<close>

definition parse_optional :: "'n XmlApi \<Rightarrow> (string \<Rightarrow> 'w::zero option) \<Rightarrow> 'n \<Rightarrow> string \<Rightarrow> 'w option checked" where
  "parse_optional xml parse node name =
     (case xml_attribute xml node name of
        None \<Rightarrow> Inr None
      | Some v \<Rightarrow> check_bind (ok_or (''invalid '' @ name) (parse v)) (\<lambda>v. Inr (if v \<noteq> 0 then Some v else None)))"

definition parse_ipv4 :: "string option \<Rightarrow> u8 list option checked" where
  "parse_ipv4 v =
     (case v of
        None \<Rightarrow> Inr None
      | Some v \<Rightarrow> check_bind (ok_or ''invalid IPv4 address'' (parse_ipv4_addr v)) (\<lambda>address.
          Inr (if address \<noteq> [0, 0, 0, 0] then Some address else None)))"

definition parse_duration :: "'n XmlApi \<Rightarrow> 'n option \<Rightarrow> u64 checked" where
  "parse_duration xml node =
     (case node of
        None \<Rightarrow> Inr 0
      | Some node \<Rightarrow>
          check_bind (ok_or ''invalid duration seconds'' (parse_u64 (unwrap_or (xml_attribute xml node ''sec'') ''0''))) (\<lambda>seconds.
          check_bind (ok_or ''invalid duration microseconds'' (parse_u64 (unwrap_or (xml_attribute xml node ''usec'') ''0''))) (\<lambda>microseconds.
          if unat seconds * 1000000 < 2 ^ 64 \<and> unat seconds * 1000000 + unat microseconds < 2 ^ 64
          then Inr (seconds * 1000000 + microseconds)
          else Inl ''duration overflow'')))"

definition text_value :: "'n XmlApi \<Rightarrow> (string \<Rightarrow> 'w::zero option) \<Rightarrow> 'n \<Rightarrow> string \<Rightarrow> 'w checked" where
  "text_value xml parse parent name =
     (case find (\<lambda>node. xml_is_element xml node \<and> xml_tag_name xml node = name) (xml_children xml parent) of
        None \<Rightarrow> Inr 0
      | Some node \<Rightarrow> ok_or (''invalid '' @ name) (parse (trim (unwrap_or (xml_text xml node) ''0''))))"

definition load_protocol :: "'n XmlApi \<Rightarrow> 'n \<Rightarrow> ProtocolRule checked" where
  "load_protocol xml child =
     (if xml_tag_name xml child = ''udp'' then
        check_bind (parse_optional xml parse_u16 child ''sport'') (\<lambda>source.
        check_bind (parse_optional xml parse_u16 child ''dport'') (\<lambda>destination.
        Inr (Udp source destination)))
      else if xml_tag_name xml child = ''protocol'' then
        check_bind (ok_or ''invalid protocol type'' (parse_u8 (unwrap_or (xml_attribute xml child ''type'') ''0'')))
          (\<lambda>v. Inr (Number v))
      else Inl ''unexpected IPv4 rule'')"

definition load_ipv4 :: "'n XmlApi \<Rightarrow> 'n \<Rightarrow> Ipv4Rule checked" where
  "load_ipv4 xml ipv4 =
     check_bind (check_map (load_protocol xml) (filter (xml_is_element xml) (xml_children xml ipv4))) (\<lambda>protocols.
     check_bind (parse_ipv4 (xml_attribute xml ipv4 ''src'')) (\<lambda>source.
     check_bind (parse_ipv4 (xml_attribute xml ipv4 ''dst'')) (\<lambda>destination.
     check_bind (parse_optional xml parse_u16 ipv4 ''len'') (\<lambda>total_length.
     check_bind (parse_optional xml parse_u8 ipv4 ''tos'') (\<lambda>tos.
     check_bind (parse_optional xml parse_u8 ipv4 ''ttl'') (\<lambda>ttl.
     Inr \<lparr>ru_source = source, ru_destination = destination, ru_total_length = total_length, ru_tos = tos,
          ru_ttl = ttl, ru_protocols = protocols\<rparr>))))))"

definition find_child :: "'n XmlApi \<Rightarrow> 'n \<Rightarrow> string \<Rightarrow> 'n option" where
  "find_child xml node name = find (\<lambda>child. xml_has_tag_name xml child name) (xml_children xml node)"

definition load_filter :: "'n XmlApi \<Rightarrow> 'n \<Rightarrow> Filter checked" where
  "load_filter xml node =
     (if xml_tag_name xml node \<noteq> ''filter'' then Inl ''unexpected CommEffect filter element''
      else
        check_bind (ok_or ''filter missing target'' (find_child xml node ''target'')) (\<lambda>target_node.
        check_bind (ok_or ''filter missing effect'' (find_child xml node ''effect'')) (\<lambda>effect_node.
        check_bind (case find_child xml target_node ''ipv4'' of
                      None \<Rightarrow> Inr None
                    | Some ipv4 \<Rightarrow> check_bind (load_ipv4 xml ipv4) (\<lambda>r. Inr (Some r))) (\<lambda>ipv4.
        check_bind (text_value xml parse_f32 effect_node ''loss'') (\<lambda>loss.
        check_bind (text_value xml parse_f32 effect_node ''duplicate'') (\<lambda>duplicate.
        if \<not> probabilities_valid loss duplicate then Inl ''invalid effect probability''
        else
          check_bind (parse_duration xml (find_child xml effect_node ''latency'')) (\<lambda>latency.
          check_bind (parse_duration xml (find_child xml effect_node ''jitter'')) (\<lambda>jitter.
          check_bind (text_value xml parse_u64 effect_node ''unicastbitrate'') (\<lambda>unicast.
          check_bind (text_value xml parse_u64 effect_node ''broadcastbitrate'') (\<lambda>broadcast.
          Inr \<lparr>fi_target = \<lparr>ta_ipv4 = ipv4\<rparr>,
               fi_effect = \<lparr>ef_latency_microseconds = latency, ef_jitter_microseconds = jitter,
                 ef_probability_loss = loss, ef_probability_duplicate = duplicate,
                 ef_unicast_bit_rate_bps = unicast, ef_broadcast_bit_rate_bps = broadcast\<rparr>\<rparr>))))))))))"

definition load_filters :: "'n XmlApi \<Rightarrow> string \<Rightarrow> Filter list checked" where
  "load_filters xml path =
     check_bind (ok_or ''read'' (xml_read_file xml path)) (\<lambda>text.
     check_bind (ok_or ''parse'' (xml_parse xml text)) (\<lambda>root.
     if xml_tag_name xml root \<noteq> ''commeffect'' then Inl ''invalid CommEffect filter root''
     else
       check_bind (check_map (load_filter xml) (filter (xml_is_element xml) (xml_children xml root))) (\<lambda>filters.
       if filters = [] then Inl ''CommEffect filter file contains no filters'' else Inr filters)))"


section \<open>Matching is total\<close>

lemma or_chain_eq:
  "list_all (\<lambda>x. x \<noteq> None) xs \<Longrightarrow> or_chain xs = Some (list_ex (\<lambda>x. x = Some True) xs)"
  by (induction xs) auto

declare or_chain.simps [simp del]

lemma u16_at_Some: "i + 1 < length d \<Longrightarrow> u16_at d i = Some (of_be_bytes [d ! i, d ! (i + 1)])"
  by (simp add: u16_at_def index_get_def)

lemma differs_not_None: "field \<noteq> None \<Longrightarrow> differs r field \<noteq> None"
  by (auto simp: differs_def split: option.splits)

lemma differs_True: "differs r (Some x) = Some True \<longleftrightarrow> r \<noteq> None \<and> r \<noteq> Some x"
  by (auto simp: differs_def split: option.splits)

lemma protocol_matches_not_None: "20 \<le> length ip \<Longrightarrow> protocol_matches ip header_len p \<noteq> None"
proof (cases p)
  case (Udp s d)
  assume l: "20 \<le> length ip"
  show ?thesis
  proof (cases "ip ! 9 = 17 \<and> header_len + 8 \<le> length ip")
    case True
    then have u: "u16_at (drop header_len ip) 0 \<noteq> None" "u16_at (drop header_len ip) 2 \<noteq> None"
      by (auto simp: u16_at_def index_get_def)
    then have "list_all (\<lambda>x. x \<noteq> None) [differs s (u16_at (drop header_len ip) 0), differs d (u16_at (drop header_len ip) 2)]"
      by (simp add: differs_not_None del: not_None_eq)
    from or_chain_eq [OF this] show ?thesis using True l Udp
      by (simp add: protocol_matches_def index_get_def not_less)
  next
    case False
    then show ?thesis using l Udp by (auto simp: protocol_matches_def index_get_def)
  qed
qed (simp add: protocol_matches_def index_get_def)

lemma ipv4_fields_not_None:
  assumes "20 \<le> length ip"
  shows "list_all (\<lambda>x. x \<noteq> None)
    [differs (ru_source rule) (slice ip 12 16), differs (ru_destination rule) (slice ip 16 20),
     differs (ru_total_length rule) (u16_at ip 2), differs (ru_tos rule) (index_get ip 1),
     differs (ru_ttl rule) (index_get ip 8)]"
proof -
  have "slice ip 12 16 \<noteq> None" "slice ip 16 20 \<noteq> None" "u16_at ip 2 \<noteq> None" "index_get ip 1 \<noteq> None" "index_get ip 8 \<noteq> None"
    using assms by (simp_all add: u16_at_def index_get_def)
  then show ?thesis by (simp add: differs_not_None del: not_None_eq)
qed

lemma protocols_not_None:
  "20 \<le> length ip \<Longrightarrow> list_all (\<lambda>x. x \<noteq> None) (map (protocol_matches ip header_len) ps)"
  using protocol_matches_not_None by (auto simp: list_all_iff simp del: not_None_eq)

lemma Target_matches_total: "\<exists>b. Target_matches t frame = Some b"
proof (cases "ta_ipv4 t = None \<or> length frame < 34")
  case True
  then show ?thesis by (auto simp: Target_matches_def split: option.splits)
next
  case False
  then obtain rule where rule: "ta_ipv4 t = Some rule" and l: "34 \<le> length frame" by auto
  define ip where "ip = drop 14 frame"
  have ip: "20 \<le> length ip" using l by (simp add: ip_def)
  have s: "slice frame 14 (length frame) = Some ip" using l by (simp add: ip_def)
  have f: "index_get ip 0 = Some (ip ! 0)" using ip by (auto simp: index_get_def)
  have e: "u16_at frame 12 = Some (of_be_bytes [frame ! 12, frame ! 13])" using l by (simp add: u16_at_Some)
  obtain refused where r: "or_chain
    [differs (ru_source rule) (slice ip 12 16), differs (ru_destination rule) (slice ip 16 20),
     differs (ru_total_length rule) (u16_at ip 2), differs (ru_tos rule) (index_get ip 1),
     differs (ru_ttl rule) (index_get ip 8)] = Some refused"
    using or_chain_eq [OF ipv4_fields_not_None [OF ip]] by blast
  obtain m where m: "or_chain (map (protocol_matches ip (unat (ip ! 0 AND 0x0F) * 4)) (ru_protocols rule)) = Some m"
    using or_chain_eq [OF protocols_not_None [OF ip]] by blast
  have "Target_matches t frame \<noteq> None"
    using l by (auto simp: Target_matches_def rule e s f r m Let_def simp del: slice_in_range One_nat_def)
  then show ?thesis by blast
qed

lemma find_filter_total: "\<exists>f. find_filter payload fs = Some f"
proof (induction fs)
  case (Cons f fs)
  then show ?case using Target_matches_total [of "fi_target f" payload] by auto
qed simp


section \<open>A filter matches the packets its rules describe\<close>

definition agrees :: "'a option \<Rightarrow> 'a \<Rightarrow> bool" where
  "agrees r x \<longleftrightarrow> (case r of None \<Rightarrow> True | Some v \<Rightarrow> x = v)"

record Ipv4Packet =
  ip_header_words :: nat
  ip_tos :: u8
  ip_total_length :: u16
  ip_ident_flags :: "u8 list"
  ip_ttl :: u8
  ip_protocol :: u8
  ip_checksum :: "u8 list"
  ip_source :: "u8 list"
  ip_destination :: "u8 list"
  ip_options :: "u8 list"
  ip_transport :: "u8 list"

text \<open>An Ethernet frame with an IPv4 packet, byte by byte as RFC 791 lays it out.\<close>

definition ipv4_bytes :: "Ipv4Packet \<Rightarrow> byte list" where
  "ipv4_bytes p = [word_of_nat (64 + ip_header_words p), ip_tos p] @ be_bytes 2 (ip_total_length p) @ ip_ident_flags p
     @ [ip_ttl p, ip_protocol p] @ ip_checksum p @ ip_source p @ ip_destination p @ ip_options p @ ip_transport p"

definition ipv4_frame :: "byte list \<Rightarrow> Ipv4Packet \<Rightarrow> byte list" where
  "ipv4_frame macs p = macs @ [0x08, 0x00] @ ipv4_bytes p"

definition ipv4_ok :: "Ipv4Packet \<Rightarrow> bool" where
  "ipv4_ok p \<longleftrightarrow> 5 \<le> ip_header_words p \<and> ip_header_words p \<le> 15 \<and> length (ip_ident_flags p) = 4 \<and>
     length (ip_checksum p) = 2 \<and> length (ip_source p) = 4 \<and> length (ip_destination p) = 4 \<and>
     length (ip_options p) = 4 * (ip_header_words p - 5)"

definition protocol_agrees :: "Ipv4Packet \<Rightarrow> ProtocolRule \<Rightarrow> bool" where
  "protocol_agrees p r =
     (case r of
        Number v \<Rightarrow> ip_protocol p = v
      | Udp s d \<Rightarrow> ip_protocol p = 17 \<and> 8 \<le> length (ip_transport p) \<and>
          agrees s (of_be_bytes (take 2 (ip_transport p))) \<and> agrees d (of_be_bytes (take 2 (drop 2 (ip_transport p)))))"

definition rule_agrees :: "Ipv4Packet \<Rightarrow> Ipv4Rule \<Rightarrow> bool" where
  "rule_agrees p rule \<longleftrightarrow> agrees (ru_source rule) (ip_source p) \<and> agrees (ru_destination rule) (ip_destination p) \<and>
     agrees (ru_total_length rule) (ip_total_length p) \<and> agrees (ru_tos rule) (ip_tos p) \<and> agrees (ru_ttl rule) (ip_ttl p) \<and>
     (ru_protocols rule = [] \<or> list_ex (protocol_agrees p) (ru_protocols rule))"

lemma first_byte:
  assumes "5 \<le> n" "n \<le> 15"
  shows "drop_bit 4 (word_of_nat (64 + n) :: u8) = 4" "unat ((word_of_nat (64 + n) :: u8) AND 0x0F) = n"
proof -
  have "n \<in> {5, 6, 7, 8, 9, 10, 11, 12, 13, 14, 15}" using assms by (simp, presburger)
  then show "drop_bit 4 (word_of_nat (64 + n) :: u8) = 4" "unat ((word_of_nat (64 + n) :: u8) AND 0x0F) = n"
    by (auto simp: drop_bit_eq_div word_eq_iff_unsigned)
qed

lemma length4E:
  assumes "length xs = 4" obtains a b c d where "xs = [a, b, c, d]"
  using assms by (auto simp: numeral_eq_Suc length_Suc_conv)

lemma ipv4_bytes_fields:
  assumes "ipv4_ok p"
  defines "ip \<equiv> ipv4_bytes p"
  shows "slice ip 12 16 = Some (ip_source p)" "slice ip 16 20 = Some (ip_destination p)"
    "u16_at ip 2 = Some (ip_total_length p)" "index_get ip 1 = Some (ip_tos p)" "index_get ip 8 = Some (ip_ttl p)"
    "index_get ip 9 = Some (ip_protocol p)" "index_get ip 0 = Some (word_of_nat (64 + ip_header_words p))"
    "length ip = ip_header_words p * 4 + length (ip_transport p)"
    "drop (ip_header_words p * 4) ip = ip_transport p"
proof -
  obtain a b c d where idf: "ip_ident_flags p = [a, b, c, d]" using assms(1) by (auto simp: ipv4_ok_def elim: length4E)
  obtain e f where tl: "be_bytes 2 (ip_total_length p) = [e, f]"
    using length_be_bytes [of 2 "ip_total_length p"] by (auto simp: numeral_2_eq_2 length_Suc_conv simp del: length_be_bytes)
  have tl': "of_be_bytes [e, f] = ip_total_length p"
    unfolding tl [symmetric] by (simp add: of_be_be_bytes take_bit_word_eq_self)
  have w: "ip_header_words p * 4 = 20 + length (ip_options p)" using assms(1) unfolding ipv4_ok_def by linarith
  have ip: "ip = [word_of_nat (64 + ip_header_words p), ip_tos p, e, f, a, b, c, d, ip_ttl p, ip_protocol p]
      @ ip_checksum p @ ip_source p @ ip_destination p @ ip_options p @ ip_transport p"
    by (simp add: ip_def ipv4_bytes_def idf tl)
  show "slice ip 12 16 = Some (ip_source p)" "slice ip 16 20 = Some (ip_destination p)"
    "length ip = ip_header_words p * 4 + length (ip_transport p)"
    using assms(1) by (simp_all add: ip w ipv4_ok_def)
  define pre where "pre = [word_of_nat (64 + ip_header_words p), ip_tos p, e, f, a, b, c, d, ip_ttl p, ip_protocol p]
      @ ip_checksum p @ ip_source p @ ip_destination p @ ip_options p"
  have "length pre = ip_header_words p * 4" using assms(1) by (simp add: pre_def w ipv4_ok_def)
  moreover have "ip = pre @ ip_transport p" by (simp add: ip pre_def)
  ultimately show "drop (ip_header_words p * 4) ip = ip_transport p" by simp
  show "u16_at ip 2 = Some (ip_total_length p)" "index_get ip 1 = Some (ip_tos p)" "index_get ip 8 = Some (ip_ttl p)"
    "index_get ip 9 = Some (ip_protocol p)" "index_get ip 0 = Some (word_of_nat (64 + ip_header_words p))"
    by (simp_all add: ip u16_at_def index_get_def tl')
qed


lemma protocol_matches_agrees:
  assumes ok: "ipv4_ok p"
  shows "protocol_matches (ipv4_bytes p) (ip_header_words p * 4) r = Some (protocol_agrees p r)"
proof (cases r)
  case (Number v)
  then show ?thesis by (simp add: protocol_matches_def protocol_agrees_def ipv4_bytes_fields [OF ok])
next
  case (Udp s d)
  let ?t = "ip_transport p"
  have sl: "slice (ipv4_bytes p) (ip_header_words p * 4) (length (ipv4_bytes p)) = Some ?t"
    using ipv4_bytes_fields(8,9) [OF ok] by (simp add: slice_def)
  have sl': "slice (ipv4_bytes p) (ip_header_words p * 4) (ip_header_words p * 4 + length ?t) = Some ?t"
    using sl ipv4_bytes_fields(8) [OF ok] by metis
  show ?thesis
  proof (cases "ip_protocol p = 17 \<and> 8 \<le> length ?t")
    case True
    then obtain a b c e r where "?t = a # b # c # e # r" by (auto simp: Suc_le_length_iff numeral_eq_Suc)
    then have t: "u16_at ?t 0 = Some (of_be_bytes (take 2 ?t))" "u16_at ?t 2 = Some (of_be_bytes (take 2 (drop 2 ?t)))"
      by (simp_all add: u16_at_def index_get_def)
    have "or_chain [differs s (u16_at ?t 0), differs d (u16_at ?t 2)] =
        Some (\<not> (agrees s (of_be_bytes (take 2 ?t)) \<and> agrees d (of_be_bytes (take 2 (drop 2 ?t)))))"
      unfolding t by (auto simp: or_chain.simps differs_def agrees_def split: option.splits)
    then show ?thesis using True Udp ipv4_bytes_fields(6,8) [OF ok]
      by (simp add: protocol_matches_def protocol_agrees_def sl' del: slice_in_range)
  next
    case False
    then show ?thesis using Udp ipv4_bytes_fields(6,8) [OF ok]
      by (auto simp: protocol_matches_def protocol_agrees_def)
  qed
qed

lemma refused_iff:
  assumes ok: "ipv4_ok p"
  shows "or_chain
    [differs (ru_source rule) (slice (ipv4_bytes p) 12 16), differs (ru_destination rule) (slice (ipv4_bytes p) 16 20),
     differs (ru_total_length rule) (u16_at (ipv4_bytes p) 2), differs (ru_tos rule) (index_get (ipv4_bytes p) 1),
     differs (ru_ttl rule) (index_get (ipv4_bytes p) 8)] =
    Some (\<not> (agrees (ru_source rule) (ip_source p) \<and> agrees (ru_destination rule) (ip_destination p) \<and>
     agrees (ru_total_length rule) (ip_total_length p) \<and> agrees (ru_tos rule) (ip_tos p) \<and> agrees (ru_ttl rule) (ip_ttl p)))"
  unfolding ipv4_bytes_fields [OF ok]
  by (auto simp: or_chain.simps differs_def agrees_def split: option.splits)

lemma protocols_agree:
  assumes ok: "ipv4_ok p"
  shows "or_chain (map (protocol_matches (ipv4_bytes p) (ip_header_words p * 4)) rs) = Some (list_ex (protocol_agrees p) rs)"
  by (induction rs) (simp_all add: or_chain.simps protocol_matches_agrees [OF ok])

text \<open>C27: A filter matches what its rule describes. On the frame of any IPv4 packet, with or without
  options, \<open>Target::matches\<close> holds exactly when the addresses, the total length, the type of service and
  the time to live agree with the rule wherever it has one, and one of its protocol rules (if there are
  any) agrees with the protocol and, for UDP, with the ports.\<close>

theorem filter_matches_rule:
  assumes "ipv4_ok p" "length macs = 12" "ta_ipv4 t = Some rule"
  shows "Target_matches t (ipv4_frame macs p) = Some (rule_agrees p rule)"
proof -
  note ok = assms(1)
  have words: "5 \<le> ip_header_words p" "ip_header_words p \<le> 15" using ok by (simp_all add: ipv4_ok_def)
  have l: "\<not> length (ipv4_frame macs p) < 34"
    using ipv4_bytes_fields(8) [OF ok] words assms(2) by (simp add: ipv4_frame_def)
  have s: "slice (ipv4_frame macs p) 14 (length (ipv4_frame macs p)) = Some (ipv4_bytes p)"
    using assms(2) by (simp add: ipv4_frame_def slice_def)
  have e: "u16_at (ipv4_frame macs p) 12 = Some 0x0800"
    using assms(2) by (simp add: ipv4_frame_def u16_at_def index_get_def nth_append of_be_bytes_def)
  have h: "\<not> ip_header_words p < 5" "\<not> ip_header_words p * 4 < 20" "\<not> length (ipv4_bytes p) < ip_header_words p * 4"
    using words ipv4_bytes_fields(8) [OF ok] by simp_all
  obtain b0 where b0: "index_get (ipv4_bytes p) 0 = Some b0" "drop_bit 4 b0 = 4" "unat (b0 AND 0x0F) = ip_header_words p"
    using ipv4_bytes_fields(7) [OF ok] first_byte [OF words] by blast
  show ?thesis
    unfolding Target_matches_def
    by (simp add: assms(3) l e s b0 h Let_def refused_iff [OF ok, unfolded One_nat_def]
        protocols_agree [OF ok] rule_agrees_def del: slice_in_range) blast
qed

definition witness_packet :: Ipv4Packet where
  "witness_packet = \<lparr>ip_header_words = 5, ip_tos = 0, ip_total_length = 28, ip_ident_flags = [0, 1, 0, 0], ip_ttl = 64,
     ip_protocol = 17, ip_checksum = [0, 0], ip_source = [10, 0, 0, 1], ip_destination = [10, 0, 0, 2],
     ip_options = [], ip_transport = [0, 53, 0, 80, 0, 8, 0, 0]\<rparr>"

definition witness_target :: Target where
  "witness_target = \<lparr>ta_ipv4 = Some \<lparr>ru_source = None, ru_destination = Some [10, 0, 0, 2], ru_total_length = None,
     ru_tos = None, ru_ttl = None, ru_protocols = [Number 6, Udp None (Some 80)]\<rparr>\<rparr>"

theorem filter_matches_rule_witness:
  "Target_matches witness_target (ipv4_frame (replicate 12 0) witness_packet) = Some True"
proof -
  obtain rule where r: "ta_ipv4 witness_target = Some rule" "rule_agrees witness_packet rule"
    by (simp add: witness_target_def rule_agrees_def agrees_def protocol_agrees_def witness_packet_def of_be_bytes_def)
  have ok: "ipv4_ok witness_packet" by (simp add: ipv4_ok_def witness_packet_def)
  show ?thesis using filter_matches_rule [OF ok _ r(1), of "replicate 12 0"] r(2) by simp
qed

end
