(* ===== verification/Comm_Effect.thy ===== *)
theory Comm_Effect
  imports Layer_Counters Wire_Control Comm_Effect_Filter
begin

text \<open>
  The communication effect shim (\<^verbatim>\<open>rust/plugins/commeffect-shim/src/lib.rs\<close>): its state
  and its handlers. A handler takes and returns the shim with the framework state; \<open>None\<close> is a
  panic, or the undefined behaviour of reading through a null pointer. The generator of random numbers
  is a parameter: the state counts the numbers drawn, and the n-th draw is any number of the range the
  code asks for. The decoder of protobuf events, the XML library and the file system are parameters.
\<close>

section \<open>State\<close>

definition EVENT_COMM_EFFECT :: u16 where "EVENT_COMM_EFFECT = 103"
definition TIMER_UPSTREAM_PACKET :: u32 where "TIMER_UPSTREAM_PACKET = 1"
definition CE_BROADCAST_NEM :: u16 where "CE_BROADCAST_NEM = 0xFFFF"
definition CONTROL_COMM_EFFECT_HEADER :: u32 where "CONTROL_COMM_EFFECT_HEADER = 0x454D0005"

record CommEffectAcceptInfo =
  pa_tx_bytes :: u64
  pa_rx_bytes :: u64

datatype CommEffectDropReason =
  DropEffect | DropGroupId | DropRegistrationId | DropDestination | DropBadMessage | DropNoProfile
| DropReceiveBuffer | DropTimer

primrec reason_index :: "CommEffectDropReason \<Rightarrow> nat" where
  "reason_index DropEffect = 0"
| "reason_index DropGroupId = 1"
| "reason_index DropRegistrationId = 2"
| "reason_index DropDestination = 3"
| "reason_index DropBadMessage = 4"
| "reason_index DropNoProfile = 5"
| "reason_index DropReceiveBuffer = 6"
| "reason_index DropTimer = 7"

record CommEffectShim =
  ce_id :: u16
  ce_counters :: CommonLayerCounters
  ce_default_connectivity :: bool
  ce_promiscuous :: bool
  ce_group_id :: u32
  ce_receive_buffer_period_microseconds :: u64
  ce_filter_file :: "string option"
  ce_filters :: "Filter list"
  ce_profiles :: "u16 \<rightharpoonup> CommEffect"
  ce_broadcast_accept :: "u16 \<rightharpoonup> CommEffectAcceptInfo"
  ce_broadcast_drop :: "u16 \<rightharpoonup> u64 list"
  ce_unicast_accept :: "u16 \<rightharpoonup> CommEffectAcceptInfo"
  ce_unicast_drop :: "u16 \<rightharpoonup> u64 list"
  ce_packet_tables :: "string \<rightharpoonup> u64"
  ce_table_generations :: "string \<rightharpoonup> u64"
  ce_end_of_reception :: "u16 \<rightharpoonup> u64"
  ce_sequence :: u32
  ce_rng :: nat

record Rng =
  gen_percent :: "nat \<Rightarrow> f32"
  gen_jitter :: "nat \<Rightarrow> int \<Rightarrow> int \<Rightarrow> int"

type_synonym Shim = "CommEffectShim \<times> Framework"


section \<open>Packet tables\<close>

definition packet_table_generation :: "FrameworkApi \<Rightarrow> CommEffectShim \<Rightarrow> string \<Rightarrow> Framework \<Rightarrow> u64" where
  "packet_table_generation api state name fw =
     (case ce_packet_tables state name of None \<Rightarrow> 0 | Some handle \<Rightarrow> fw_table_generation api handle fw)"

definition set_packet_row :: "CommEffectShim \<Rightarrow> string \<Rightarrow> u16 \<Rightarrow> StatisticValue list \<Rightarrow> Framework \<Rightarrow> Framework" where
  "set_packet_row state name nem_id row fw =
     (case ce_packet_tables state name of
        None \<Rightarrow> fw
      | Some handle \<Rightarrow> fw_call (SetTableRow handle [ucast nem_id] row) fw)"

text \<open>\<open>table_generations.insert(name, generation)\<close> with the answer whether the generation
  changed.\<close>

definition note_generation :: "string \<Rightarrow> u64 \<Rightarrow> CommEffectShim \<Rightarrow> bool \<times> CommEffectShim" where
  "note_generation name generation state =
     (case ce_table_generations state name of None \<Rightarrow> False | Some previous \<Rightarrow> previous \<noteq> generation,
      state\<lparr>ce_table_generations := (ce_table_generations state)(name \<mapsto> generation)\<rparr>)"

definition record_accept :: "FrameworkApi \<Rightarrow> FfiPacketInfo \<Rightarrow> nat \<Rightarrow> bool \<Rightarrow> Shim \<Rightarrow> Shim" where
  "record_accept api info nbytes is_inbound = (\<lambda>(state, fw).
     let broadcast = (pi_destination info = CE_BROADCAST_NEM);
         name = (if broadcast then ''Broadcast'' else ''Unicast'') @ ''ByteAcceptTable0'';
         generation = packet_table_generation api state name fw;
         (reset, state) = note_generation name generation state;
         infos = (if broadcast then ce_broadcast_accept state else ce_unicast_accept state);
         infos = (if reset then Map.empty else infos);
         entry = unwrap_or (infos (pi_source info)) \<lparr>pa_tx_bytes = 0, pa_rx_bytes = 0\<rparr>;
         entry = (if is_inbound
                  then entry\<lparr>pa_rx_bytes := saturating_add (pa_rx_bytes entry) (word_of_nat nbytes)\<rparr>
                  else entry\<lparr>pa_tx_bytes := saturating_add (pa_tx_bytes entry) (word_of_nat nbytes)\<rparr>);
         infos = infos(pi_source info \<mapsto> entry);
         state = (if broadcast then state\<lparr>ce_broadcast_accept := infos\<rparr> else state\<lparr>ce_unicast_accept := infos\<rparr>);
         row = map statistic_u64 [ucast (pi_source info), pa_tx_bytes entry, pa_rx_bytes entry]
     in (state, set_packet_row state name (pi_source info) row fw))"

definition record_drop :: "FrameworkApi \<Rightarrow> FfiPacketInfo \<Rightarrow> nat \<Rightarrow> CommEffectDropReason \<Rightarrow> Shim \<Rightarrow> Shim panics" where
  "record_drop api info nbytes reason = (\<lambda>(state, fw).
     let broadcast = (pi_destination info = CE_BROADCAST_NEM);
         name = (if broadcast then ''Broadcast'' else ''Unicast'') @ ''ByteDropTable0'';
         generation = packet_table_generation api state name fw;
         (reset, state) = note_generation name generation state;
         infos = (if broadcast then ce_broadcast_drop state else ce_unicast_drop state);
         infos = (if reset then Map.empty else infos);
         entry = unwrap_or (infos (pi_source info)) (replicate 8 0)
     in do {
       old \<leftarrow> index_get entry (reason_index reason);
       entry \<leftarrow> index_set entry (reason_index reason) (saturating_add old (word_of_nat nbytes));
       let infos = infos(pi_source info \<mapsto> entry);
       let state = (if broadcast then state\<lparr>ce_broadcast_drop := infos\<rparr> else state\<lparr>ce_unicast_drop := infos\<rparr>);
       let fw = set_packet_row state name (pi_source info)
         (map statistic_u64 (ucast (pi_source info) # entry)) fw;
       fw \<leftarrow> upstream_drop_packet api (ce_counters state) (pi_source info) (pi_destination info)
               (reason_index reason + 1) fw;
       Some (state, fw) })"


section \<open>Pending packets\<close>

definition slice_contents :: "FfiSlice \<Rightarrow> byte list panics" where
  "slice_contents s = raw_parts (fs_data s) (fs_len s)"

definition not_header :: "FfiControlMessage \<Rightarrow> bool" where
  "not_header m \<longleftrightarrow> fcm_msg_type m \<noteq> CONTROL_COMM_EFFECT_HEADER"

definition encode_message :: "FfiControlMessage \<Rightarrow> byte list panics" where
  "encode_message m = do {
     body \<leftarrow> slice_contents (fcm_payload m);
     Some (be_bytes 4 (fcm_msg_type m) @ be_bytes 4 (word_of_nat (length body) :: u32) @ body) }"

fun encode_messages :: "FfiControlMessage list \<Rightarrow> byte list panics" where
  "encode_messages [] = Some []"
| "encode_messages (m # ms) = do { a \<leftarrow> encode_message m; b \<leftarrow> encode_messages ms; Some (a @ b) }"

definition encode_pending :: "FfiPacket \<Rightarrow> FfiControlMessage list \<Rightarrow> u64 \<Rightarrow> byte list panics" where
  "encode_pending packet messages processing_delay_microseconds = do {
     payload \<leftarrow> slice_contents (fp_payload packet);
     let outgoing = filter not_header messages;
     body \<leftarrow> encode_messages outgoing;
     Some (be_bytes 2 (pi_source (fp_info packet)) @ be_bytes 2 (pi_destination (fp_info packet))
           @ [pi_priority (fp_info packet)]
           @ be_bytes 8 (pi_creation_time_sec (fp_info packet)) @ be_bytes 4 (pi_creation_time_usec (fp_info packet))
           @ be_bytes 8 processing_delay_microseconds
           @ be_bytes 4 (word_of_nat (length payload) :: u32) @ payload
           @ be_bytes 2 (word_of_nat (length outgoing) :: u16) @ body) }"

record Pending =
  pe_packet :: FfiPacket
  pe_messages :: "FfiControlMessage list"
  pe_processing_delay_microseconds :: u64

text \<open>The loop over the control messages; \<open>Some None\<close> is the early return.\<close>

fun decode_messages :: "byte list \<Rightarrow> nat \<Rightarrow> nat \<Rightarrow> (FfiControlMessage list \<times> nat) option panics" where
  "decode_messages data offset 0 = Some (Some ([], offset))"
| "decode_messages data offset (Suc count) =
     (case checked_add offset 8 of
        None \<Rightarrow> Some None
      | Some header_end \<Rightarrow>
          if header_end > length data then Some None
          else do {
            kind \<leftarrow> slice data offset (offset + 4);
            len \<leftarrow> slice data (offset + 4) (offset + 8);
            let offset = offset + 8;
            case checked_add offset (unat (of_be_bytes len :: u32)) of
              None \<Rightarrow> Some None
            | Some end \<Rightarrow>
                if end > length data then Some None
                else do {
                  body \<leftarrow> slice data offset end;
                  rest \<leftarrow> decode_messages data end count;
                  Some (map_option (\<lambda>(ms, offset).
                    (\<lparr>fcm_msg_type = of_be_bytes kind, fcm_payload = slice_of body\<rparr> # ms, offset)) rest) } })"

definition decode_pending :: "byte list \<Rightarrow> Pending option panics" where
  "decode_pending data =
     (if length data < 31 then Some None
      else do {
        source \<leftarrow> slice data 0 2;
        destination \<leftarrow> slice data 2 4;
        priority \<leftarrow> index_get data 4;
        creation_time_sec \<leftarrow> slice data 5 13;
        creation_time_usec \<leftarrow> slice data 13 17;
        processing_delay \<leftarrow> slice data 17 25;
        payload_len \<leftarrow> slice data 25 29;
        case checked_add 29 (unat (of_be_bytes payload_len :: u32)) of
          None \<Rightarrow> Some None
        | Some payload_end \<Rightarrow>
            (case checked_add payload_end 2 of
               None \<Rightarrow> Some None
             | Some limit \<Rightarrow>
                 if limit > length data then Some None
                 else do {
                   payload \<leftarrow> slice data 29 payload_end;
                   count \<leftarrow> slice data payload_end (payload_end + 2);
                   entries \<leftarrow> decode_messages data (payload_end + 2) (unat (of_be_bytes count :: u16));
                   case entries of
                     None \<Rightarrow> Some None
                   | Some (messages, offset) \<Rightarrow>
                       if offset \<noteq> length data then Some None
                       else Some (Some
                         \<lparr>pe_packet = \<lparr>fp_info = \<lparr>pi_source = of_be_bytes source, pi_destination = of_be_bytes destination,
                              pi_priority = priority, pi_creation_time_sec = of_be_bytes creation_time_sec,
                              pi_creation_time_usec = of_be_bytes creation_time_usec\<rparr>,
                            fp_payload = slice_of payload\<rparr>,
                          pe_messages = messages,
                          pe_processing_delay_microseconds = of_be_bytes processing_delay\<rparr>) }) })"


section \<open>Packets\<close>

definition CommEffect_downstream :: "FrameworkApi \<Rightarrow> FfiPacket option \<Rightarrow> Messages \<Rightarrow> Shim \<Rightarrow> Shim panics" where
  "CommEffect_downstream api packet messages = (\<lambda>(state, fw).
     case controls messages of
       None \<Rightarrow> Some (state, fw)
     | Some incoming \<Rightarrow>
         (case packet of
            None \<Rightarrow> Some (state, fw_call (SendDownstreamControl (ce_id state) messages) fw)
          | Some p \<Rightarrow> do {
              let info = fp_info p;
              let header = \<lparr>ceh_group_id = ce_group_id state, ceh_sequence = ce_sequence state,
                            ceh_tx_time_microseconds = unix_microseconds api fw\<rparr>;
              let fw = downstream_rx_packet (ce_counters state) (pi_source info) (pi_destination info) (fs_len (fp_payload p)) fw;
              let state = state\<lparr>ce_sequence := ce_sequence state + 1\<rparr>;
              encoded \<leftarrow> CommEffectHeader_encode header;
              let outgoing = filter not_header incoming @
                [\<lparr>fcm_msg_type = CONTROL_COMM_EFFECT_HEADER, fcm_payload = slice_of encoded\<rparr>];
              let fw = downstream_tx_packet api (ce_counters state) (pi_source info) (pi_destination info)
                (fs_len (fp_payload p)) (elapsed_microseconds api fw) False fw;
              let fw = fw_call (SendDownstreamPacket (ce_id state) (Some p) (messages_of outgoing)) fw;
              Some (record_accept api info (fs_len (fp_payload p)) False (state, fw)) }))"

definition send_upstream_now :: "FrameworkApi \<Rightarrow> FfiPacket \<Rightarrow> FfiControlMessage list \<Rightarrow> u64 \<Rightarrow> Shim \<Rightarrow> Shim" where
  "send_upstream_now api packet incoming processing_delay_microseconds = (\<lambda>(state, fw).
     let info = fp_info packet;
         outgoing = filter not_header incoming;
         fw = upstream_tx_packet api (ce_counters state) (pi_source info) (pi_destination info)
           (fs_len (fp_payload packet)) processing_delay_microseconds fw;
         fw = fw_call (SendUpstreamPacket (ce_id state) (Some packet) (messages_of outgoing)) fw
     in record_accept api info (fs_len (fp_payload packet)) True (state, fw))"

text \<open>\<open>rng.gen_range(0.0..100.0)\<close> and \<open>rng.gen_range(lo..hi)\<close>.\<close>

definition draw_percent :: "Rng \<Rightarrow> CommEffectShim \<Rightarrow> f32 \<times> CommEffectShim" where
  "draw_percent rng state = (gen_percent rng (ce_rng state), state\<lparr>ce_rng := ce_rng state + 1\<rparr>)"

definition draw_jitter :: "Rng \<Rightarrow> int \<Rightarrow> int \<Rightarrow> CommEffectShim \<Rightarrow> int \<times> CommEffectShim" where
  "draw_jitter rng lo hi state = (gen_jitter rng (ce_rng state) lo hi, state\<lparr>ce_rng := ce_rng state + 1\<rparr>)"

definition task_count :: "Rng \<Rightarrow> f32 \<Rightarrow> f32 \<Rightarrow> CommEffectShim \<Rightarrow> nat \<times> CommEffectShim" where
  "task_count rng loss duplicate state =
     (let (lost, state) =
            (if f32_le F32_100 loss then (True, state)
             else if f32_lt 0 loss then (let (x, state) = draw_percent rng state in (f32_lt x loss, state))
             else (False, state))
      in if lost then (0, state)
         else (let whole = f32_floor_as_usize (f32_div duplicate F32_100);
                   remainder = f32_rem duplicate F32_100;
                   (extra, state) =
                     (if f32_lt 0 remainder
                      then (let (x, state) = draw_percent rng state in (f32_le x remainder, state))
                      else (False, state))
               in (saturating_add_usize (saturating_add_usize 1 whole) (if extra then 1 else 0), state)))"

definition reception_time :: "nat \<Rightarrow> u64 \<Rightarrow> u64" where
  "reception_time len bitrate =
     (if bitrate = 0 then 0
      else word_of_nat (min (len * 8 * 1000000 div unat bitrate) (2 ^ 64 - 1)))"

definition expiration_of :: "u64 \<Rightarrow> u64 \<Rightarrow> u64 \<Rightarrow> int \<Rightarrow> u64" where
  "expiration_of now end latency jitter =
     (let base = saturating_add end latency
      in if jitter < 0 then max (saturating_sub base (word_of_int (- jitter))) now
         else saturating_add base (word_of_int jitter))"

text \<open>The loop over the copies of a packet: one timer each; whether one of them failed.\<close>

fun schedule_copies ::
  "FrameworkApi \<Rightarrow> Rng \<Rightarrow> FfiPacket \<Rightarrow> FfiControlMessage list \<Rightarrow> CommEffect \<Rightarrow> u64 \<Rightarrow> u64 \<Rightarrow> nat \<Rightarrow> bool \<Rightarrow> Shim \<Rightarrow> (bool \<times> Shim) panics" where
  "schedule_copies api rng packet incoming effect now end 0 failed (state, fw) = Some (failed, (state, fw))"
| "schedule_copies api rng packet incoming effect now end (Suc copies) failed (state, fw) = do {
     let j = uint (ef_jitter_microseconds effect);
     let (jitter, state) = (if j = 0 then (0, state) else draw_jitter rng (- j) j state);
     let expiration = expiration_of now end (ef_latency_microseconds effect) jitter;
     data \<leftarrow> encode_pending packet incoming 0;
     data \<leftarrow> copy_from_slice data 17 25 (be_bytes 8 (elapsed_microseconds api fw));
     let (timer_id, fw) = fw_ask api (ScheduleTimedEvent (ce_id state) (expiration div 1000000)
       (ucast (expiration mod 1000000)) TIMER_UPSTREAM_PACKET (slice_of data)) fw;
     schedule_copies api rng packet incoming effect now end copies (failed \<or> timer_id = 0) (state, fw) }"

text \<open>The checks of \<open>upstream\<close> on a packet, in their order: the reason to drop it, or nothing.\<close>

definition header_check :: "CommEffectShim \<Rightarrow> FfiPacket \<Rightarrow> FfiControlMessage list \<Rightarrow> CommEffectDropReason option panics" where
  "header_check state packet incoming =
     (if fs_len (fp_payload packet) \<noteq> 0 \<and> fs_data (fp_payload packet) = None then Some (Some DropBadMessage)
      else case find (\<lambda>m. fcm_msg_type m = CONTROL_COMM_EFFECT_HEADER) incoming of
        None \<Rightarrow> Some (Some DropRegistrationId)
      | Some m \<Rightarrow>
          if fs_data (fcm_payload m) = None \<and> fs_len (fcm_payload m) \<noteq> 0 then Some (Some DropBadMessage)
          else do {
            header_data \<leftarrow> slice_contents (fcm_payload m);
            header \<leftarrow> CommEffectHeader_decode header_data;
            case header of
              None \<Rightarrow> Some (Some DropBadMessage)
            | Some header \<Rightarrow>
                if \<not> ce_promiscuous state \<and> pi_destination (fp_info packet) \<noteq> CE_BROADCAST_NEM
                   \<and> pi_destination (fp_info packet) \<noteq> ce_id state
                then Some (Some DropDestination)
                else if ceh_group_id header \<noteq> ce_group_id state then Some (Some DropGroupId)
                else Some None })"

definition find_effect :: "CommEffectShim \<Rightarrow> u16 \<Rightarrow> byte list \<Rightarrow> CommEffect option panics" where
  "find_effect state source payload = do {
     found \<leftarrow> find_filter payload (ce_filters state);
     Some (case found of Some f \<Rightarrow> Some (fi_effect f) | None \<Rightarrow> ce_profiles state source) }"

definition apply_effect ::
  "FrameworkApi \<Rightarrow> Rng \<Rightarrow> FfiPacket \<Rightarrow> FfiControlMessage list \<Rightarrow> byte list \<Rightarrow> CommEffect \<Rightarrow> Shim \<Rightarrow> Shim panics" where
  "apply_effect api rng packet incoming payload effect = (\<lambda>(state, fw).
     let info = fp_info packet;
         nbytes = fs_len (fp_payload packet);
         now = unix_microseconds api fw;
         bitrate = (if pi_destination info = CE_BROADCAST_NEM then ef_broadcast_bit_rate_bps effect
                    else ef_unicast_bit_rate_bps effect);
         reception = reception_time (length payload) bitrate;
         previous = ce_end_of_reception state (pi_source info);
         period = ce_receive_buffer_period_microseconds state
     in if period \<noteq> 0 \<and> (case previous of None \<Rightarrow> False | Some end \<Rightarrow> saturating_sub end now > period)
        then record_drop api info nbytes DropReceiveBuffer (state, fw)
        else (let end = saturating_add (max (unwrap_or previous now) now) reception;
                  state = state\<lparr>ce_end_of_reception := (ce_end_of_reception state)(pi_source info \<mapsto> end)\<rparr>;
                  (copies, state) = task_count rng (ef_probability_loss effect) (ef_probability_duplicate effect) state
              in if copies = 0 then record_drop api info nbytes DropEffect (state, fw)
                 else do {
                   (failed, shim) \<leftarrow> schedule_copies api rng packet incoming effect now end copies False (state, fw);
                   if failed then record_drop api info nbytes DropTimer shim else Some shim }))"

definition CommEffect_upstream :: "FrameworkApi \<Rightarrow> Rng \<Rightarrow> FfiPacket option \<Rightarrow> Messages \<Rightarrow> Shim \<Rightarrow> Shim panics" where
  "CommEffect_upstream api rng packet messages = (\<lambda>(state, fw).
     case controls messages of
       None \<Rightarrow> Some (state, fw)
     | Some incoming \<Rightarrow>
         (case packet of
            None \<Rightarrow> Some (state, fw_call (SendUpstreamControl (ce_id state) messages) fw)
          | Some p \<Rightarrow> do {
              let info = fp_info p;
              let nbytes = fs_len (fp_payload p);
              let fw = upstream_rx_packet (ce_counters state) (pi_source info) (pi_destination info) nbytes fw;
              check \<leftarrow> header_check state p incoming;
              case check of
                Some reason \<Rightarrow> record_drop api info nbytes reason (state, fw)
              | None \<Rightarrow> do {
                  payload \<leftarrow> slice_contents (fp_payload p);
                  effect \<leftarrow> find_effect state (pi_source info) payload;
                  case effect of
                    None \<Rightarrow>
                      if ce_default_connectivity state
                      then Some (send_upstream_now api p incoming (elapsed_microseconds api fw) (state, fw))
                      else record_drop api info nbytes DropNoProfile (state, fw)
                  | Some effect \<Rightarrow> apply_effect api rng p incoming payload effect (state, fw) } }))"

text \<open>The event of a timer: its identifier and the data it was scheduled with.\<close>

definition CommEffect_timed :: "FrameworkApi \<Rightarrow> u32 \<Rightarrow> FfiSlice \<Rightarrow> Shim \<Rightarrow> Shim panics" where
  "CommEffect_timed api event_id data = (\<lambda>(state, fw).
     if event_id \<noteq> TIMER_UPSTREAM_PACKET \<or> fs_data data = None then Some (state, fw)
     else do {
       bytes \<leftarrow> slice_contents data;
       decoded \<leftarrow> decode_pending bytes;
       case decoded of
         None \<Rightarrow> Some (state, fw)
       | Some p \<Rightarrow> do {
           let info = fp_info (pe_packet p);
           let nbytes = fs_len (fp_payload (pe_packet p));
           let fw = upstream_tx_packet api (ce_counters state) (pi_source info) (pi_destination info) nbytes
             (pe_processing_delay_microseconds p) fw;
           let fw = fw_call (SendUpstreamPacket (ce_id state) (Some (pe_packet p)) (messages_of (pe_messages p))) fw;
           Some (record_accept api info nbytes True (state, fw)) } })"


section \<open>Events, configuration and lifecycle\<close>

text \<open>The profiles of an event, in the order of its effects; the effects were checked before.\<close>

fun insert_profiles :: "CommEffectMessage list \<Rightarrow> (u16 \<rightharpoonup> CommEffect) \<Rightarrow> (u16 \<rightharpoonup> CommEffect) panics" where
  "insert_profiles [] profiles = Some profiles"
| "insert_profiles (m # ms) profiles =
     (if cm_nem_id m \<noteq> 0
      then do { effect \<leftarrow> Effect_from_message m; insert_profiles ms (profiles(ucast (cm_nem_id m) \<mapsto> effect)) }
      else insert_profiles ms profiles)"

definition CommEffect_event :: "(byte list \<Rightarrow> CommEffectMessage list option) \<Rightarrow> u16 \<Rightarrow> FfiSlice \<Rightarrow> CommEffectShim \<Rightarrow> CommEffectShim panics" where
  "CommEffect_event decode event_id data state =
     (if event_id \<noteq> EVENT_COMM_EFFECT \<or> fs_data data = None then Some state
      else do {
        bytes \<leftarrow> slice_contents data;
        case decode bytes of
          None \<Rightarrow> Some state
        | Some effects \<Rightarrow>
            if list_ex (\<lambda>m. Effect_from_message m = None) effects then Some state
            else do {
              profiles \<leftarrow> insert_profiles effects (ce_profiles state);
              Some (state\<lparr>ce_profiles := profiles, ce_default_connectivity := False\<rparr>) } })"

definition config_item :: "FfiConfigItem \<Rightarrow> (string \<times> string list) option panics" where
  "config_item item = do {
     raw_name \<leftarrow> ci_name item;
     case to_str raw_name of
       None \<Rightarrow> Some None
     | Some name \<Rightarrow>
         if ca_len (ci_values item) > 4096 \<or> (ca_len (ci_values item) \<noteq> 0 \<and> ca_data (ci_values item) = None)
         then Some None
         else do {
           raw \<leftarrow> raw_parts (ca_data (ci_values item)) (ca_len (ci_values item));
           vs \<leftarrow> collect_option config_value raw;
           Some (map_option (\<lambda>vs. (name, vs)) vs) } }"

definition config_items :: "FfiConfigRequest option \<Rightarrow> (string \<times> string list) list option panics" where
  "config_items request =
     (case request of
        None \<Rightarrow> Some None
      | Some request \<Rightarrow>
          if cr_len request > 4096 \<or> (cr_len request \<noteq> 0 \<and> cr_data request = None) then Some None
          else do {
            items \<leftarrow> raw_parts (cr_data request) (cr_len request);
            collect_option config_item items })"

definition parse_bool :: "string \<Rightarrow> bool option" where
  "parse_bool v =
     (let v = to_ascii_lowercase v
      in if v = ''true'' \<or> v = ''on'' \<or> v = ''yes'' \<or> v = ''1'' then Some True
         else if v = ''false'' \<or> v = ''off'' \<or> v = ''no'' \<or> v = ''0'' then Some False
         else None)"

definition parse_period :: "string \<Rightarrow> u64 option" where
  "parse_period v = do {
     seconds \<leftarrow> parse_f64 v;
     let microseconds = f64_mul seconds F64_1E6;
     if \<not> f64_is_finite seconds \<or> f64_lt seconds 0 \<or> f64_lt U64_MAX_AS_F64 microseconds then None
     else Some (f64_round_as_u64 microseconds) }"

text \<open>One item: \<open>None\<close> is \<open>return false\<close>.\<close>

definition configure_item :: "string \<Rightarrow> string \<Rightarrow> bool \<Rightarrow> CommEffectShim \<Rightarrow> (bool \<times> CommEffectShim) option" where
  "configure_item name v connectivity_seen state =
     (if (name = ''defaultconnectivitymode'' \<or> name = ''defaultconnectivity'') \<and> \<not> connectivity_seen
      then map_option (\<lambda>b. (True, state\<lparr>ce_default_connectivity := b\<rparr>)) (parse_bool v)
      else if name = ''enablepromiscuousmode''
      then map_option (\<lambda>b. (connectivity_seen, state\<lparr>ce_promiscuous := b\<rparr>)) (parse_bool v)
      else if name = ''groupid''
      then map_option (\<lambda>n. (connectivity_seen, state\<lparr>ce_group_id := n\<rparr>)) (parse_u32 v)
      else if name = ''receivebufferperiod''
      then map_option (\<lambda>n. (connectivity_seen, state\<lparr>ce_receive_buffer_period_microseconds := n\<rparr>)) (parse_period v)
      else if name = ''filterfile'' \<and> v \<noteq> [] then Some (connectivity_seen, state\<lparr>ce_filter_file := Some v\<rparr>)
      else None)"

text \<open>The loop keeps what it changed before an item it refuses.\<close>

fun configure_items :: "(string \<times> string list) list \<Rightarrow> bool \<Rightarrow> CommEffectShim \<Rightarrow> bool \<times> CommEffectShim" where
  "configure_items [] seen state = (True, state)"
| "configure_items ((name, vs) # items) seen state =
     (case vs of
        [v] \<Rightarrow> (case configure_item name v seen state of
                  None \<Rightarrow> (False, state)
                | Some (seen, state) \<Rightarrow> configure_items items seen state)
      | _ \<Rightarrow> (False, state))"

definition CommEffect_configure :: "FfiConfigRequest option \<Rightarrow> CommEffectShim \<Rightarrow> (bool \<times> CommEffectShim) panics" where
  "CommEffect_configure request state = do {
     items \<leftarrow> config_items request;
     case items of None \<Rightarrow> Some (False, state) | Some items \<Rightarrow> Some (configure_items items False state) }"

definition CommEffect_start :: "'n XmlApi \<Rightarrow> CommEffectShim \<Rightarrow> bool \<times> CommEffectShim" where
  "CommEffect_start xml state =
     (case ce_filter_file state of
        None \<Rightarrow> (True, state)
      | Some path \<Rightarrow>
          (case load_filters xml (unwrap_or (strip_prefix ''file://'' path) path) of
             Inl _ \<Rightarrow> (False, state)
           | Inr filters \<Rightarrow> (True, state\<lparr>ce_filters := filters\<rparr>)))"

definition CommEffect_stop :: "CommEffectShim \<Rightarrow> CommEffectShim" where
  "CommEffect_stop state = state\<lparr>ce_end_of_reception := Map.empty\<rparr>"

definition byte_accept_labels :: "string list" where
  "byte_accept_labels = [''NEM'', ''Num Bytes Tx'', ''Num Bytes Rx'']"

definition drop_reason_labels :: "string list" where
  "drop_reason_labels = [''Effect'', ''Grp Id'', ''Reg Id'', ''Dst MAC'', ''Bad Msg'', ''No Profile'', ''Rx Buff'', ''Timer'']"

text \<open>The tables are registered one after the other; a handle 0 is not kept.\<close>

fun register_packet_tables ::
  "FrameworkApi \<Rightarrow> (string \<times> string list \<times> string) list \<Rightarrow> (string \<rightharpoonup> u64) \<Rightarrow> Framework \<Rightarrow> (string \<rightharpoonup> u64) \<times> Framework" where
  "register_packet_tables api [] tables fw = (tables, fw)"
| "register_packet_tables api ((name, labels, description) # ts) tables fw =
     (let (handle, fw) = fw_ask api (RegisterTable name labels description) fw
      in register_packet_tables api ts (if handle \<noteq> 0 then tables(name \<mapsto> handle) else tables) fw)"

definition packet_tables_to_register :: "(string \<times> string list \<times> string) list" where
  "packet_tables_to_register =
     [(''BroadcastByteAcceptTable0'', byte_accept_labels, ''Broadcast bytes accepted''),
      (''UnicastByteAcceptTable0'', byte_accept_labels, ''Unicast bytes accepted''),
      (''BroadcastByteDropTable0'', ''NEM'' # drop_reason_labels, ''Broadcast bytes dropped by reason''),
      (''UnicastByteDropTable0'', ''NEM'' # drop_reason_labels, ''Unicast bytes dropped by reason'')]"

definition CommEffect_init :: "FrameworkApi \<Rightarrow> u16 \<Rightarrow> Framework \<Rightarrow> Shim" where
  "CommEffect_init api nem fw =
     (let (packet_tables, fw) = register_packet_tables api packet_tables_to_register Map.empty fw;
          (counters, fw) = register_with_drop_labels api ''0'' drop_reason_labels [] fw
      in (\<lparr>ce_id = nem, ce_counters = counters, ce_default_connectivity = True, ce_promiscuous = False,
           ce_group_id = 0, ce_receive_buffer_period_microseconds = 1000000, ce_filter_file = None,
           ce_filters = [], ce_profiles = Map.empty, ce_broadcast_accept = Map.empty,
           ce_broadcast_drop = Map.empty, ce_unicast_accept = Map.empty, ce_unicast_drop = Map.empty,
           ce_packet_tables = packet_tables, ce_table_generations = Map.empty,
           ce_end_of_reception = Map.empty, ce_sequence = 0, ce_rng = 0\<rparr>, fw))"


section \<open>Pending packets come back\<close>

definition readable :: "FfiSlice \<Rightarrow> bool" where
  "readable s \<longleftrightarrow> slice_contents s \<noteq> None"

definition contents :: "FfiSlice \<Rightarrow> byte list" where
  "contents s = the (slice_contents s)"

text \<open>A message with its payload copied, as \<open>decode_pending\<close> builds it.\<close>

definition copied :: "FfiControlMessage \<Rightarrow> FfiControlMessage" where
  "copied m = \<lparr>fcm_msg_type = fcm_msg_type m, fcm_payload = slice_of (contents (fcm_payload m))\<rparr>"

text \<open>What the interface promises of a packet and its messages: the memory is there, and no slice
  has 4 GiB or more.\<close>

definition pending_ok :: "FfiPacket \<Rightarrow> FfiControlMessage list \<Rightarrow> bool" where
  "pending_ok packet messages \<longleftrightarrow> readable (fp_payload packet) \<and> fs_len (fp_payload packet) < 2 ^ 32 \<and>
     length messages \<le> 4096 \<and> list_all (\<lambda>m. readable (fcm_payload m) \<and> fs_len (fcm_payload m) < 2 ^ 32) messages"

lemma readable_contents:
  assumes "readable s"
  shows "slice_contents s = Some (contents s)" "length (contents s) = fs_len s"
  using assms by (auto simp: readable_def contents_def slice_contents_def raw_parts_def split: if_splits option.splits)

lemma slice_bytes_slice_of [simp]: "slice_contents (slice_of bs) = Some bs"
  by (simp add: slice_contents_def raw_parts_def slice_of_def)

definition pending_message_bytes :: "FfiControlMessage \<Rightarrow> byte list" where
  "pending_message_bytes m = be_bytes 4 (fcm_msg_type m) @ be_bytes 4 (word_of_nat (fs_len (fcm_payload m)) :: u32) @ contents (fcm_payload m)"

lemma length_message_bytes:
  "readable (fcm_payload m) \<Longrightarrow> length (pending_message_bytes m) = 8 + fs_len (fcm_payload m)"
  by (simp add: pending_message_bytes_def readable_contents)

lemma encode_messages_bytes:
  "list_all (\<lambda>m. readable (fcm_payload m)) ms \<Longrightarrow> encode_messages ms = Some (concat (map pending_message_bytes ms))"
  by (induction ms) (simp_all add: encode_message_def readable_contents pending_message_bytes_def)

lemma unat_of_nat32: "n < 2 ^ 32 \<Longrightarrow> unat (word_of_nat n :: u32) = n"
  by (simp add: unat_of_nat)

lemma decode_messages_encoded:
  assumes "list_all (\<lambda>m. readable (fcm_payload m) \<and> fs_len (fcm_payload m) < 2 ^ 32) ms"
    and "length (p @ concat (map pending_message_bytes ms)) < 2 ^ 64"
  shows "decode_messages (p @ concat (map pending_message_bytes ms)) (length p) (length ms)
    = Some (Some (map copied ms, length (p @ concat (map pending_message_bytes ms))))"
  using assms
proof (induction ms arbitrary: p)
  case (Cons m ms)
  define n where "n = fs_len (fcm_payload m)"
  define body where "body = contents (fcm_payload m)"
  define q where "q = concat (map pending_message_bytes ms)"
  let ?d = "p @ pending_message_bytes m @ q"
  have r: "length body = n" "n < 2 ^ 32" "length (pending_message_bytes m) = 8 + n"
    using Cons.prems(1) by (simp_all add: n_def body_def readable_contents length_message_bytes)
  have len: "length p + 8 + n + length q < 2 ^ 64"
    using Cons.prems(2) r by (simp add: q_def)
  have d: "?d = p @ be_bytes 4 (fcm_msg_type m) @ be_bytes 4 (word_of_nat n :: u32) @ body @ q"
    by (simp add: pending_message_bytes_def n_def body_def)
  have IH: "decode_messages ?d (length p + 8 + n) (length ms) = Some (Some (map copied ms, length ?d))"
    using Cons.IH [of "p @ pending_message_bytes m"] Cons.prems r by (simp add: q_def add.assoc)
  have kind: "slice ?d (length p) (length p + 4) = Some (be_bytes 4 (fcm_msg_type m))"
    unfolding d by (rule slice_append) simp_all
  have lenb: "slice ?d (length p + 4) (length p + 8) = Some (be_bytes 4 (word_of_nat n :: u32))"
    unfolding d using slice_append [of "p @ be_bytes 4 (fcm_msg_type m)" "length p + 4" "length p + 8"
        "be_bytes 4 (word_of_nat n :: u32)" "body @ q"] by simp
  have bod: "slice ?d (length p + 8) (length p + 8 + n) = Some body"
    unfolding d using slice_append [of "p @ be_bytes 4 (fcm_msg_type m) @ be_bytes 4 (word_of_nat n :: u32)"
        "length p + 8" "length p + 8 + n" body q] r by simp
  have k: "(of_be_bytes (be_bytes 4 (fcm_msg_type m)) :: u32) = fcm_msg_type m"
    by (simp add: of_be_be_bytes take_bit_word_eq_self)
  have c: "checked_add (length p) 8 = Some (length p + 8)" "checked_add (length p + 8) n = Some (length p + 8 + n)"
    using len by (simp_all add: checked_add_def usize_max_def)
  have l: "length p + 8 \<le> length ?d" "length p + 8 + n \<le> length ?d" using r by simp_all
  have "decode_messages ?d (length p) (length (m # ms)) = Some (Some (copied m # map copied ms, length ?d))"
    using l c by (simp add: kind lenb bod unat_of_nat32 [OF r(2)] k IH copied_def Let_def body_def [symmetric]
        del: append_assoc slice_in_range)
  then show ?case by (simp add: q_def)
qed simp

definition pending_header :: "FfiPacketInfo \<Rightarrow> u64 \<Rightarrow> nat \<Rightarrow> byte list" where
  "pending_header info delay n =
     be_bytes 2 (pi_source info) @ be_bytes 2 (pi_destination info) @ [pi_priority info]
     @ be_bytes 8 (pi_creation_time_sec info) @ be_bytes 4 (pi_creation_time_usec info)
     @ be_bytes 8 delay @ be_bytes 4 (word_of_nat n :: u32)"

definition pending_bytes :: "FfiPacket \<Rightarrow> FfiControlMessage list \<Rightarrow> u64 \<Rightarrow> byte list" where
  "pending_bytes packet messages delay =
     (pending_header (fp_info packet) delay (fs_len (fp_payload packet)) @ contents (fp_payload packet)
      @ be_bytes 2 (word_of_nat (length (filter not_header messages)) :: u16))
     @ concat (map pending_message_bytes (filter not_header messages))"

lemma length_pending_header [simp]: "length (pending_header info delay n) = 29"
  by (simp add: pending_header_def)

lemma sendable_filter:
  "pending_ok p ms \<Longrightarrow> list_all (\<lambda>m. readable (fcm_payload m) \<and> fs_len (fcm_payload m) < 2 ^ 32) (filter not_header ms)"
  by (auto simp: pending_ok_def list_all_iff)

lemma sendable_count: "pending_ok p ms \<Longrightarrow> length (filter not_header ms) \<le> 4096"
  using le_trans [OF length_filter_le] by (auto simp: pending_ok_def)

lemma encode_pending_bytes:
  assumes "pending_ok packet messages"
  shows "encode_pending packet messages delay = Some (pending_bytes packet messages delay)"
  using assms encode_messages_bytes [of "filter not_header messages"] sendable_filter [OF assms]
  by (simp add: encode_pending_def pending_ok_def readable_contents pending_bytes_def pending_header_def list_all_iff Let_def)

lemma messages_bytes_bound:
  assumes "list_all (\<lambda>m. readable (fcm_payload m) \<and> fs_len (fcm_payload m) < 2 ^ 32) ms"
  shows "length (concat (map pending_message_bytes ms)) \<le> length ms * (2 ^ 32 + 8)"
  using assms by (induction ms) (auto simp: length_message_bytes)

lemma pending_bytes_bound:
  assumes "pending_ok packet messages"
  shows "length (pending_bytes packet messages delay) < 2 ^ 64"
proof -
  have "length (filter not_header messages) \<le> 4096"
    using assms by (rule sendable_count)
  then have "length (filter not_header messages) * (2 ^ 32 + 8) \<le> 4096 * (2 ^ 32 + 8 :: nat)" by (rule mult_right_mono) simp
  moreover note messages_bytes_bound [OF sendable_filter [OF assms]]
  moreover have "length (contents (fp_payload packet)) < 2 ^ 32"
    using assms by (simp add: pending_ok_def readable_contents)
  ultimately show ?thesis by (simp add: pending_bytes_def)
qed

lemma pending_delay_rewritten:
  "copy_from_slice (pending_bytes p ms delay) 17 25 (be_bytes 8 delay') = Some (pending_bytes p ms delay')"
  by (simp add: copy_from_slice_def pending_bytes_def pending_header_def)

lemma pending_header_fields:
  assumes d: "d = pending_header info delay n @ r" and n: "n < 2 ^ 32"
  shows "slice d 0 2 = Some (be_bytes 2 (pi_source info))" "slice d 2 4 = Some (be_bytes 2 (pi_destination info))"
    "index_get d 4 = Some (pi_priority info)" "slice d 5 13 = Some (be_bytes 8 (pi_creation_time_sec info))"
    "slice d 13 17 = Some (be_bytes 4 (pi_creation_time_usec info))" "slice d 17 25 = Some (be_bytes 8 delay)"
    "slice d 25 29 = Some (be_bytes 4 (word_of_nat n :: u32))"
  unfolding d pending_header_def by (simp_all add: index_get_def nth_append)

definition pending_of :: "FfiPacket \<Rightarrow> FfiControlMessage list \<Rightarrow> u64 \<Rightarrow> Pending" where
  "pending_of packet messages delay =
     \<lparr>pe_packet = packet\<lparr>fp_payload := slice_of (contents (fp_payload packet))\<rparr>,
      pe_messages = map copied (filter not_header messages), pe_processing_delay_microseconds = delay\<rparr>"

lemma pending_roundtrip:
  assumes s: "pending_ok packet messages"
  shows "decode_pending (pending_bytes packet messages delay) = Some (Some (pending_of packet messages delay))"
proof -
  define n where "n = fs_len (fp_payload packet)"
  define ms where "ms = filter not_header messages"
  define h where "h = pending_header (fp_info packet) delay n"
  define c where "c = be_bytes 2 (word_of_nat (length ms) :: u16)"
  define body where "body = contents (fp_payload packet)"
  define p where "p = h @ body @ c"
  define d where "d = p @ concat (map pending_message_bytes ms)"
  have n: "length body = n" "n < 2 ^ 32" using s by (simp_all add: n_def body_def pending_ok_def readable_contents)
  have lp: "length p = 31 + n" by (simp add: p_def h_def c_def n)
  have D: "pending_bytes packet messages delay = d"
    by (simp add: d_def p_def h_def c_def n_def ms_def body_def pending_bytes_def)
  have ld: "length d < 2 ^ 64" using pending_bytes_bound [OF s] D by metis
  have le: "31 + n \<le> length d" by (simp add: d_def lp)
  have msl: "length ms \<le> 4096" using sendable_count [OF s] by (simp add: ms_def)
  have hd: "d = pending_header (fp_info packet) delay n @ (body @ c @ concat (map pending_message_bytes ms))"
    by (simp add: d_def p_def h_def)
  note f = pending_header_fields [OF hd n(2)]
  have pay: "slice d 29 (29 + n) = Some body"
    unfolding hd by (rule slice_append) (simp_all add: n)
  have cnt: "slice d (29 + n) (31 + n) = Some c"
    using slice_append [of "h @ body" "29 + n" "31 + n" c "concat (map pending_message_bytes ms)"]
    by (simp add: d_def p_def h_def c_def n)
  have dec: "decode_messages d (31 + n) (length ms) = Some (Some (map copied ms, length d))"
    using decode_messages_encoded [OF sendable_filter [OF s], of p] ld lp
    unfolding d_def ms_def [symmetric] by simp
  have u: "unat (word_of_nat n :: u32) = n" "unat (word_of_nat (length ms) :: u16) = length ms"
    using n(2) msl by (simp_all add: unat_of_nat)
  have ca: "checked_add 29 n = Some (29 + n)" "checked_add (29 + n) 2 = Some (31 + n)"
    using ld le by (simp_all add: checked_add_def usize_max_def)
  have lim: "\<not> length d < 31" "\<not> length d < 31 + n" using le by simp_all
  have "decode_pending d = Some (Some (pending_of packet messages delay))"
    unfolding decode_pending_def
    by (simp add: lim f u ca pay cnt dec c_def pending_of_def ms_def [symmetric] body_def [symmetric] n_def [symmetric]
        del: slice_in_range)
  then show ?thesis by (simp add: D)
qed


end
