(* ===== verification/Comm_Effect_Link.thy ===== *)
theory Comm_Effect_Link
  imports Comm_Effect
begin

text \<open>
  Properties of the communication effect shim: no sequence of handler calls panics, a packet that one
  shim sends comes out of the timers of another one unchanged, and the effects keep a source within its
  bit rate and the receive buffer.
\<close>

section \<open>Totality\<close>

lemma decode_messages_total: "\<exists>r. decode_messages data offset count = Some r"
proof (induction count arbitrary: offset)
  case (Suc count)
  show ?case
  proof (cases "checked_add offset 8")
    case None
    then show ?thesis by simp
  next
    case (Some header_end)
    then have h: "header_end = offset + 8" by (simp add: checked_add_def split: if_splits)
    show ?thesis
    proof (cases "header_end > length data")
      case False
      then obtain len where len: "slice data (offset + 4) (offset + 8) = Some len"
        and kind: "slice data offset (offset + 4) = Some (take 4 (drop offset data))"
        using h by simp
      show ?thesis
      proof (cases "checked_add (offset + 8) (unat (of_be_bytes len :: u32))")
        case None
        then show ?thesis using Some False h len kind by (simp add: Let_def del: slice_in_range)
      next
        case (Some e)
        then have e: "offset + 8 \<le> e" by (auto simp: checked_add_def split: if_splits)
        obtain r where "decode_messages data e count = Some r" using Suc.IH by blast
        then show ?thesis using Some \<open>checked_add offset 8 = Some header_end\<close> False h len kind e
          by (cases "e > length data") (simp_all add: Let_def)
      qed
    qed (use Some in simp)
  qed
qed simp

lemma decode_pending_total: "\<exists>r. decode_pending data = Some r"
proof (cases "length data < 31")
  case True
  then show ?thesis by (simp add: decode_pending_def)
next
  case False
  define n where "n = unat (of_be_bytes (take 4 (drop 25 data)) :: u32)"
  obtain r where r: "decode_messages data (31 + n) (unat (of_be_bytes (take 2 (drop (29 + n) data)) :: u16)) = Some r"
    using decode_messages_total by blast
  have ca: "checked_add 29 n = Some (29 + n)" "checked_add (29 + n) 2 = Some (31 + n)" if "31 + n \<le> usize_max"
    using that by (simp_all add: checked_add_def)
  show ?thesis using False r n_def
    by (cases "29 + n \<le> usize_max"; cases "31 + n \<le> usize_max"; cases "31 + n \<le> length data"; cases r)
       (simp_all add: decode_pending_def index_get_def checked_add_def not_less split: prod.splits)
qed

text \<open>The rows of the byte tables have a column for every reason.\<close>

definition byte_rows_ok :: "(u16 \<rightharpoonup> u64 list) \<Rightarrow> bool" where
  "byte_rows_ok m \<longleftrightarrow> (\<forall>nem row. m nem = Some row \<longrightarrow> length row = 8)"

definition shim_inv :: "(u64 \<Rightarrow> nat) \<Rightarrow> Shim \<Rightarrow> bool" where
  "shim_inv columns = (\<lambda>(state, fw). byte_rows_ok (ce_broadcast_drop state) \<and> byte_rows_ok (ce_unicast_drop state) \<and>
     columns_agree columns (ce_counters state) \<and> drop_rows_ok columns fw)"

lemma byte_rows_ok_empty [simp]: "byte_rows_ok Map.empty"
  by (simp add: byte_rows_ok_def)

lemma byte_rows_ok_update: "byte_rows_ok m \<Longrightarrow> length row = 8 \<Longrightarrow> byte_rows_ok (m(nem \<mapsto> row))"
  by (auto simp: byte_rows_ok_def)

lemma reason_index_less: "reason_index r < 8"
  by (cases r) simp_all

lemma byte_row_length: "byte_rows_ok m \<Longrightarrow> length (unwrap_or (m nem) (replicate 8 0)) = 8"
  by (cases "m nem") (auto simp: byte_rows_ok_def)

text \<open>What accepting a packet leaves alone.\<close>

definition same_core :: "CommEffectShim \<Rightarrow> CommEffectShim \<Rightarrow> bool" where
  "same_core s s' \<longleftrightarrow> ce_id s' = ce_id s \<and> ce_counters s' = ce_counters s \<and> ce_group_id s' = ce_group_id s \<and>
     ce_end_of_reception s' = ce_end_of_reception s \<and> ce_profiles s' = ce_profiles s \<and> ce_filters s' = ce_filters s \<and>
     ce_receive_buffer_period_microseconds s' = ce_receive_buffer_period_microseconds s \<and>
     ce_default_connectivity s' = ce_default_connectivity s \<and> ce_promiscuous s' = ce_promiscuous s"

lemma set_packet_row_quiet: "acts_between fw (set_packet_row s name nem row fw) []"
  using acts_call [of fw "SetTableRow h k row" for h k] by (auto simp: set_packet_row_def split: option.splits)

lemma set_packet_row_tables [simp]: "fw_table_states (set_packet_row s name nem row fw) = fw_table_states fw"
  by (simp add: set_packet_row_def split: option.splits)

lemma record_accept_form:
  "\<exists>infos generations st name row. record_accept api info n up (s, fw) =
     (if pi_destination info = CE_BROADCAST_NEM
      then s\<lparr>ce_table_generations := generations, ce_broadcast_accept := infos\<rparr>
      else s\<lparr>ce_table_generations := generations, ce_unicast_accept := infos\<rparr>,
      set_packet_row st name (pi_source info) row fw)"
  unfolding record_accept_def Let_def note_generation_def prod.case by (rule exI)+ (rule refl)

lemma record_accept_props:
  assumes "record_accept api info n up (s, fw) = (s', fw')"
  shows "acts_between fw fw' []" "same_core s s'" "fw_table_states fw' = fw_table_states fw"
    "ce_broadcast_drop s' = ce_broadcast_drop s" "ce_unicast_drop s' = ce_unicast_drop s"
proof -
  obtain infos gens st name row where r: "s' = (if pi_destination info = CE_BROADCAST_NEM
      then s\<lparr>ce_table_generations := gens, ce_broadcast_accept := infos\<rparr>
      else s\<lparr>ce_table_generations := gens, ce_unicast_accept := infos\<rparr>)"
    "fw' = set_packet_row st name (pi_source info) row fw"
    using record_accept_form [of api info n up s fw] assms by auto
  show "acts_between fw fw' []" "fw_table_states fw' = fw_table_states fw"
    by (simp_all add: r set_packet_row_quiet)
  show "same_core s s'" "ce_broadcast_drop s' = ce_broadcast_drop s" "ce_unicast_drop s' = ce_unicast_drop s"
    by (simp_all add: r(1) same_core_def)
qed

lemma record_accept_inv:
  assumes "shim_inv columns (s, fw)"
  shows "shim_inv columns (record_accept api info n up (s, fw))"
proof -
  obtain s' fw' where r: "record_accept api info n up (s, fw) = (s', fw')" by fastforce
  show ?thesis using assms record_accept_props [OF r] drop_rows_ok_same_tables [of fw' fw]
    by (simp add: r shim_inv_def same_core_def)
qed


lemma record_drop_total:
  assumes inv: "shim_inv columns (s, fw)"
  shows "\<exists>s' fw'. record_drop api info n reason (s, fw) = Some (s', fw') \<and> shim_inv columns (s', fw') \<and>
    same_core s s' \<and> acts_between fw fw' []"
proof -
  define broadcast where "broadcast = (pi_destination info = CE_BROADCAST_NEM)"
  define name where "name = (if broadcast then ''Broadcast'' else ''Unicast'') @ ''ByteDropTable0''"
  define s1 where "s1 = snd (note_generation name (packet_table_generation api s name fw) s)"
  define reset where "reset = fst (note_generation name (packet_table_generation api s name fw) s)"
  define infos where "infos = (if reset then Map.empty else if broadcast then ce_broadcast_drop s1 else ce_unicast_drop s1)"
  define entry where "entry = unwrap_or (infos (pi_source info)) (replicate 8 0)"
  define entry' where "entry' = entry[reason_index reason := saturating_add (entry ! reason_index reason) (word_of_nat n)]"
  define s2 where "s2 = (if broadcast then s1\<lparr>ce_broadcast_drop := infos(pi_source info \<mapsto> entry')\<rparr>
      else s1\<lparr>ce_unicast_drop := infos(pi_source info \<mapsto> entry')\<rparr>)"
  define fw1 where "fw1 = set_packet_row s2 name (pi_source info) (map statistic_u64 (ucast (pi_source info) # entry')) fw"
  have s1: "same_core s s1" "ce_broadcast_drop s1 = ce_broadcast_drop s" "ce_unicast_drop s1 = ce_unicast_drop s"
    by (simp_all add: s1_def note_generation_def same_core_def)
  have infos: "byte_rows_ok infos" using inv s1 by (simp add: infos_def shim_inv_def)
  have e: "length entry = 8" "length entry' = 8"
    using byte_row_length [OF infos] by (simp_all add: entry_def entry'_def)
  have core: "same_core s s2" using s1(1) by (simp add: s2_def same_core_def)
  have agree: "columns_agree columns (ce_counters s2)" using inv core by (simp add: shim_inv_def same_core_def)
  have rows: "drop_rows_ok columns fw1"
    using inv drop_rows_ok_same_tables [of fw1 fw] by (simp add: fw1_def shim_inv_def)
  obtain fw2 where fw2: "upstream_drop_packet api (ce_counters s2) (pi_source info) (pi_destination info) (reason_index reason + 1) fw1
      = Some fw2" "drop_rows_ok columns fw2"
    using drops_total(1) [OF rows agree] by blast
  have "record_drop api info n reason (s, fw) = Some (s2, fw2)"
    unfolding record_drop_def Let_def case_prod_unfold fst_conv snd_conv broadcast_def [symmetric] name_def [symmetric]
      s1_def [symmetric] reset_def [symmetric] infos_def [symmetric] entry_def [symmetric]
    using fw2(1) reason_index_less [of reason] e
    by (simp only: index_get_def index_set_def if_True bind.bind_lunit entry'_def [symmetric] s2_def [symmetric] fw1_def [symmetric])
  moreover have "shim_inv columns (s2, fw2)"
    using inv s1 agree fw2(2) byte_rows_ok_update [OF infos e(2)] by (simp add: shim_inv_def s2_def)
  moreover have "acts_between fw fw2 []"
    using acts_quiet_left [OF set_packet_row_quiet drops_quiet(1)] fw2(1) by (simp add: fw1_def)
  ultimately show ?thesis using core by blast
qed


section \<open>Scheduling the copies\<close>

definition timer_call :: "u16 \<Rightarrow> u64 \<Rightarrow> byte list \<Rightarrow> FrameworkCall" where
  "timer_call nem expiration data = ScheduleTimedEvent nem (expiration div 1000000)
     (ucast (expiration mod 1000000)) TIMER_UPSTREAM_PACKET (slice_of data)"

definition drawn_jitter :: "Rng \<Rightarrow> CommEffect \<Rightarrow> nat \<Rightarrow> int" where
  "drawn_jitter rng effect k =
     (let j = uint (ef_jitter_microseconds effect) in if j = 0 then 0 else gen_jitter rng k (- j) j)"

text \<open>The timers a packet gets: one for each copy, with the packet as encoded by \<open>encode\<close> for
  some processing delay, at the time of some draw of the jitter.\<close>

definition copy_timers ::
  "Rng \<Rightarrow> u16 \<Rightarrow> CommEffect \<Rightarrow> u64 \<Rightarrow> u64 \<Rightarrow> (u64 \<Rightarrow> byte list \<Rightarrow> bool) \<Rightarrow> FrameworkCall list \<Rightarrow> bool" where
  "copy_timers rng nem effect now end encodes calls \<longleftrightarrow>
     (\<forall>c \<in> set calls. \<exists>k delay data. encodes delay data \<and>
        c = timer_call nem (expiration_of now end (ef_latency_microseconds effect) (drawn_jitter rng effect k)) data)"

lemma rng_unchanged: "\<exists>k. s = s\<lparr>ce_rng := k\<rparr>" for s :: CommEffectShim
  by (rule exI [of _ "ce_rng s"]) simp

lemma schedule_copies_calls:
  assumes d0: "encode_pending packet incoming 0 = Some d0" "25 \<le> length d0"
  shows "\<exists>fl s' fw' cs. schedule_copies api rng packet incoming effect now end n failed (s, fw) = Some (fl, s', fw') \<and>
     (\<exists>k. s' = s\<lparr>ce_rng := k\<rparr>) \<and> fw_table_states fw' = fw_table_states fw \<and>
     fw_calls fw' = fw_calls fw @ cs \<and> length cs = n \<and>
     copy_timers rng (ce_id s) effect now end (\<lambda>delay d. copy_from_slice d0 17 25 (be_bytes 8 delay) = Some d) cs \<and>
     ((\<forall>calls. api_answer api calls \<noteq> 0) \<longrightarrow> fl = failed)"
proof (induction n arbitrary: failed s fw)
  case 0
  show ?case
    by (rule exI [of _ failed], rule exI [of _ s], rule exI [of _ fw], rule exI [of _ "[]"])
       (simp add: copy_timers_def rng_unchanged)
next
  case (Suc n)
  define j where "j = uint (ef_jitter_microseconds effect)"
  define s1 where "s1 = (if j = 0 then s else s\<lparr>ce_rng := ce_rng s + 1\<rparr>)"
  define delay where "delay = elapsed_microseconds api fw"
  define expiration where "expiration = expiration_of now end (ef_latency_microseconds effect) (drawn_jitter rng effect (ce_rng s))"
  obtain d where d: "copy_from_slice d0 17 25 (be_bytes 8 delay) = Some d"
    using d0(2) by (simp add: copy_from_slice_def)
  define c where "c = timer_call (ce_id s) expiration d"
  have draw: "(if j = 0 then (0, s) else draw_jitter rng (- j) j s) = (drawn_jitter rng effect (ce_rng s), s1)"
    by (simp add: draw_jitter_def drawn_jitter_def s1_def j_def Let_def)
  have ident: "ce_id s1 = ce_id s" by (simp add: s1_def)
  let ?f1 = "fw_call c fw"
  have step: "schedule_copies api rng packet incoming effect now end (Suc n) failed (s, fw) =
    schedule_copies api rng packet incoming effect now end n (failed \<or> api_answer api (fw_calls ?f1) = 0) (s1, ?f1)"
    by (simp add: Let_def j_def [symmetric] draw d0(1) delay_def [symmetric] d fw_ask_def ident
        expiration_def [symmetric] c_def timer_call_def)
  obtain fl s' fw' cs k where IH:
    "schedule_copies api rng packet incoming effect now end n (failed \<or> api_answer api (fw_calls ?f1) = 0) (s1, ?f1) = Some (fl, s', fw')"
    "s' = s1\<lparr>ce_rng := k\<rparr>" "fw_table_states fw' = fw_table_states ?f1" "fw_calls fw' = fw_calls ?f1 @ cs" "length cs = n"
    "copy_timers rng (ce_id s1) effect now end (\<lambda>delay d. copy_from_slice d0 17 25 (be_bytes 8 delay) = Some d) cs"
    "(\<forall>calls. api_answer api calls \<noteq> 0) \<longrightarrow> fl = (failed \<or> api_answer api (fw_calls ?f1) = 0)"
    using Suc.IH [of "failed \<or> api_answer api (fw_calls ?f1) = 0" s1 ?f1] by (elim exE conjE)
  have "\<exists>k. s' = s\<lparr>ce_rng := k\<rparr>" using IH(2) by (intro exI [of _ k]) (simp add: s1_def)
  moreover have "copy_timers rng (ce_id s) effect now end (\<lambda>delay d. copy_from_slice d0 17 25 (be_bytes 8 delay) = Some d) (c # cs)"
    using IH(6) d unfolding copy_timers_def ident c_def expiration_def by auto
  moreover have "fw_calls fw' = fw_calls fw @ (c # cs)" using IH(4) by simp
  ultimately show ?case unfolding step
    using IH(1,3,5,7) by (intro exI [of _ fl] exI [of _ s'] exI [of _ fw'] exI [of _ "c # cs"]) simp
qed

lemma task_count_core: "task_count rng loss dup s = (n, s') \<Longrightarrow> \<exists>k. s' = s\<lparr>ce_rng := k\<rparr>"
proof -
  assume a: "task_count rng loss dup s = (n, s')"
  from a rng_unchanged [of s] show ?thesis
    by (auto simp: task_count_def draw_percent_def Let_def split: if_splits)
qed

lemma encode_messages_total:
  "list_all (\<lambda>m. readable (fcm_payload m)) ms \<Longrightarrow> \<exists>d. encode_messages ms = Some d"
  by (simp add: encode_messages_bytes)

definition messages_readable :: "FfiControlMessage list \<Rightarrow> bool" where
  "messages_readable ms \<longleftrightarrow> list_all (\<lambda>m. valid_slice (fcm_payload m) \<and> (not_header m \<longrightarrow> readable (fcm_payload m))) ms"

lemma encode_pending_total:
  assumes "readable (fp_payload p)" "messages_readable ms"
  shows "\<exists>d. encode_pending p ms delay = Some d \<and> 25 \<le> length d"
proof -
  have "list_all (\<lambda>m. readable (fcm_payload m)) (filter not_header ms)"
    using assms(2) by (auto simp: messages_readable_def list_all_iff)
  then obtain b where "encode_messages (filter not_header ms) = Some b" using encode_messages_total by blast
  then show ?thesis using readable_contents [OF assms(1)] by (simp add: encode_pending_def Let_def)
qed


section \<open>Applying an effect\<close>

definition buffer_full :: "CommEffectShim \<Rightarrow> u16 \<Rightarrow> u64 \<Rightarrow> bool" where
  "buffer_full s source now \<longleftrightarrow> ce_receive_buffer_period_microseconds s \<noteq> 0 \<and>
     (case ce_end_of_reception s source of None \<Rightarrow> False
      | Some end \<Rightarrow> saturating_sub end now > ce_receive_buffer_period_microseconds s)"

definition effect_reception :: "CommEffect \<Rightarrow> FfiPacketInfo \<Rightarrow> nat \<Rightarrow> u64" where
  "effect_reception effect info len = reception_time len
     (if pi_destination info = CE_BROADCAST_NEM then ef_broadcast_bit_rate_bps effect else ef_unicast_bit_rate_bps effect)"

definition end_after :: "CommEffectShim \<Rightarrow> u16 \<Rightarrow> u64 \<Rightarrow> u64 \<Rightarrow> u64" where
  "end_after s source now reception = saturating_add (max (unwrap_or (ce_end_of_reception s source) now) now) reception"

lemma task_count_end_of_reception:
  "fst (task_count rng loss dup (s\<lparr>ce_end_of_reception := x\<rparr>)) = fst (task_count rng loss dup s)"
  by (simp add: task_count_def draw_percent_def Let_def split: prod.splits)

lemma shim_inv_fields:
  "shim_inv columns (s\<lparr>ce_end_of_reception := x\<rparr>, fw) \<longleftrightarrow> shim_inv columns (s, fw)"
  "shim_inv columns (s\<lparr>ce_rng := k\<rparr>, fw) \<longleftrightarrow> shim_inv columns (s, fw)"
  by (simp_all add: shim_inv_def)

lemma shim_inv_calls:
  "shim_inv columns (s, fw) \<Longrightarrow> fw_table_states fw' = fw_table_states fw \<Longrightarrow> shim_inv columns (s, fw')"
  using drop_rows_ok_same_tables [of fw' fw] by (simp add: shim_inv_def)

lemma same_core_trans: "same_core a b \<Longrightarrow> same_core b c \<Longrightarrow> same_core a c"
  by (simp add: same_core_def)

lemma same_core_rng: "same_core s (s\<lparr>ce_rng := k\<rparr>)"
  by (simp add: same_core_def)

lemma copy_timers_not_counting:
  "copy_timers rng nem effect now end encodes cs \<Longrightarrow> filter (\<lambda>c. \<not> counting_call c) cs = cs"
  by (auto simp: copy_timers_def timer_call_def filter_id_conv)

definition encodes_pending :: "FfiPacket \<Rightarrow> FfiControlMessage list \<Rightarrow> u64 \<Rightarrow> byte list \<Rightarrow> bool" where
  "encodes_pending packet incoming delay data \<longleftrightarrow>
     (\<exists>d0. encode_pending packet incoming 0 = Some d0 \<and> copy_from_slice d0 17 25 (be_bytes 8 delay) = Some data)"

text \<open>The copies of a packet after the end of reception is known.\<close>

lemma apply_copies:
  assumes inv: "shim_inv columns (s, fw)" and rd: "readable (fp_payload packet)" "messages_readable incoming"
  shows "\<exists>s' fw' cs. (do { (failed, shim) \<leftarrow> schedule_copies api rng packet incoming effect now end n False (s, fw);
                   if failed then record_drop api info len DropTimer shim else Some shim }) = Some (s', fw') \<and>
     shim_inv columns (s', fw') \<and> same_core s s' \<and> acts_between fw fw' cs \<and> length cs = n \<and>
     copy_timers rng (ce_id s) effect now end (encodes_pending packet incoming) cs"
proof -
  obtain d0 where d0: "encode_pending packet incoming 0 = Some d0" "25 \<le> length d0"
    using encode_pending_total [OF rd] by blast
  obtain fl s1 fw1 cs k where c: "schedule_copies api rng packet incoming effect now end n False (s, fw) = Some (fl, s1, fw1)"
    "s1 = s\<lparr>ce_rng := k\<rparr>" "fw_table_states fw1 = fw_table_states fw" "fw_calls fw1 = fw_calls fw @ cs" "length cs = n"
    "copy_timers rng (ce_id s) effect now end (\<lambda>delay d. copy_from_slice d0 17 25 (be_bytes 8 delay) = Some d) cs"
    using schedule_copies_calls [OF d0, of api rng effect now "end" n False s fw] by (elim exE conjE)
  have t: "copy_timers rng (ce_id s) effect now end (encodes_pending packet incoming) cs"
    using c(6) d0(1) by (simp add: copy_timers_def encodes_pending_def)
  have acts: "acts_between fw fw1 cs"
    using acts_calls_eq [OF c(4)] copy_timers_not_counting [OF t] by simp
  have inv1: "shim_inv columns (s1, fw1)"
    using shim_inv_calls [OF inv c(3)] c(2) by (simp add: shim_inv_fields)
  have core: "same_core s s1" by (simp add: c(2) same_core_rng)
  show ?thesis
  proof (cases fl)
    case False
    then show ?thesis using c(1,5) inv1 core acts t by auto
  next
    case True
    obtain s2 fw2 where "record_drop api info len DropTimer (s1, fw1) = Some (s2, fw2)" "shim_inv columns (s2, fw2)"
      "same_core s1 s2" "acts_between fw1 fw2 []"
      using record_drop_total [OF inv1] by blast
    then show ?thesis using True c(1,5) same_core_trans [OF core] acts_quiet_right [OF acts] t by auto
  qed
qed

definition effect_applied ::
  "Rng \<Rightarrow> FfiPacket \<Rightarrow> FfiControlMessage list \<Rightarrow> CommEffect \<Rightarrow> u64 \<Rightarrow> u64 \<Rightarrow> Shim \<Rightarrow> Shim \<Rightarrow> FrameworkCall list \<Rightarrow> bool" where
  "effect_applied rng packet incoming effect now end = (\<lambda>(s, fw) (s', fw') cs.
     same_core (s\<lparr>ce_end_of_reception := (ce_end_of_reception s)(pi_source (fp_info packet) \<mapsto> end)\<rparr>) s' \<and>
     acts_between fw fw' cs \<and>
     length cs = fst (task_count rng (ef_probability_loss effect) (ef_probability_duplicate effect) s) \<and>
     copy_timers rng (ce_id s) effect now end (encodes_pending packet incoming) cs)"

lemma apply_effect_outcome:
  assumes inv: "shim_inv columns (s, fw)" and rd: "readable (fp_payload packet)" "messages_readable incoming"
    and now: "now = unix_microseconds api fw"
  shows "\<exists>s' fw'. apply_effect api rng packet incoming payload effect (s, fw) = Some (s', fw') \<and> shim_inv columns (s', fw') \<and>
     (if buffer_full s (pi_source (fp_info packet)) now then same_core s s' \<and> acts_between fw fw' []
      else \<exists>cs. effect_applied rng packet incoming effect now
             (end_after s (pi_source (fp_info packet)) now (effect_reception effect (fp_info packet) (length payload))) (s, fw) (s', fw') cs)"
proof (cases "buffer_full s (pi_source (fp_info packet)) now")
  case True
  obtain s' fw' where "record_drop api (fp_info packet) (fs_len (fp_payload packet)) DropReceiveBuffer (s, fw) = Some (s', fw')"
    "shim_inv columns (s', fw')" "same_core s s'" "acts_between fw fw' []"
    using record_drop_total [OF inv] by blast
  then show ?thesis using True 
    by (simp add: apply_effect_def Let_def now [symmetric] buffer_full_def [symmetric] del: One_nat_def)
next
  case False
  define source where "source = pi_source (fp_info packet)"
  define e where "e = end_after s source now (effect_reception effect (fp_info packet) (length payload))"
  define s1 where "s1 = s\<lparr>ce_end_of_reception := (ce_end_of_reception s)(source \<mapsto> e)\<rparr>"
  obtain n s2 where tc: "task_count rng (ef_probability_loss effect) (ef_probability_duplicate effect) s1 = (n, s2)" by fastforce
  then obtain k where s2: "s2 = s1\<lparr>ce_rng := k\<rparr>" using task_count_core by blast
  have n: "fst (task_count rng (ef_probability_loss effect) (ef_probability_duplicate effect) s) = n"
    using tc task_count_end_of_reception unfolding s1_def by (metis fst_conv)
  have inv2: "shim_inv columns (s2, fw)" using inv by (simp add: s2 s1_def shim_inv_fields)
  have core: "same_core s1 s2" by (simp add: s2 same_core_rng)
  have ident: "ce_id s2 = ce_id s" by (simp add: s2 s1_def)
  have run: "apply_effect api rng packet incoming payload effect (s, fw) =
    (if n = 0 then record_drop api (fp_info packet) (fs_len (fp_payload packet)) DropEffect (s2, fw)
     else do { (failed, shim) \<leftarrow> schedule_copies api rng packet incoming effect now e n False (s2, fw);
               if failed then record_drop api (fp_info packet) (fs_len (fp_payload packet)) DropTimer shim else Some shim })"
    unfolding apply_effect_def Let_def prod.case now [symmetric] buffer_full_def [symmetric]
      effect_reception_def [symmetric] end_after_def [symmetric] source_def [symmetric] e_def [symmetric] s1_def [symmetric] tc
    by (simp only: source_def False if_False)
  show ?thesis
  proof (cases "n = 0")
    case True
    obtain s' fw' where "record_drop api (fp_info packet) (fs_len (fp_payload packet)) DropEffect (s2, fw) = Some (s', fw')"
      "shim_inv columns (s', fw')" "same_core s2 s'" "acts_between fw fw' []"
      using record_drop_total [OF inv2] by blast
    then show ?thesis using False True n same_core_trans [OF core]
      unfolding run e_def [symmetric, unfolded source_def] effect_applied_def s1_def source_def by (auto simp: copy_timers_def)
  next
    case nz: False
    obtain s' fw' cs where "(do { (failed, shim) \<leftarrow> schedule_copies api rng packet incoming effect now e n False (s2, fw);
               if failed then record_drop api (fp_info packet) (fs_len (fp_payload packet)) DropTimer shim else Some shim }) = Some (s', fw')"
      "shim_inv columns (s', fw')" "same_core s2 s'" "acts_between fw fw' cs" "length cs = n"
      "copy_timers rng (ce_id s2) effect now e (encodes_pending packet incoming) cs"
      using apply_copies [OF inv2 rd] by blast
    then show ?thesis using False nz n same_core_trans [OF core] ident
      unfolding run e_def [symmetric, unfolded source_def] effect_applied_def s1_def source_def by auto
  qed
qed


section \<open>No sequence of handler calls panics\<close>

record 'n ShimEnv =
  se_api :: FrameworkApi
  se_rng :: Rng
  se_xml :: "'n XmlApi"
  se_decode :: "byte list \<Rightarrow> CommEffectMessage list option"

datatype ShimAction =
    ActDownstream "FfiPacket option" Messages
  | ActUpstream "FfiPacket option" Messages
  | ActTimed u32 FfiSlice
  | ActEvent u16 FfiSlice
  | ActConfigure "FfiConfigRequest option"
  | ActStart
  | ActStop

fun shim_act :: "'n ShimEnv \<Rightarrow> ShimAction \<Rightarrow> Shim \<Rightarrow> Shim panics" where
  "shim_act env (ActDownstream p ms) shim = CommEffect_downstream (se_api env) p ms shim"
| "shim_act env (ActUpstream p ms) shim = CommEffect_upstream (se_api env) (se_rng env) p ms shim"
| "shim_act env (ActTimed e d) shim = CommEffect_timed (se_api env) e d shim"
| "shim_act env (ActEvent e d) (s, fw) = do { s \<leftarrow> CommEffect_event (se_decode env) e d s; Some (s, fw) }"
| "shim_act env (ActConfigure r) (s, fw) = do { (_, s) \<leftarrow> CommEffect_configure r s; Some (s, fw) }"
| "shim_act env ActStart (s, fw) = Some (snd (CommEffect_start (se_xml env) s), fw)"
| "shim_act env ActStop (s, fw) = Some (CommEffect_stop s, fw)"

fun shim_run :: "'n ShimEnv \<Rightarrow> ShimAction list \<Rightarrow> Shim \<Rightarrow> Shim panics" where
  "shim_run env [] shim = Some shim"
| "shim_run env (a # as) shim = do { shim \<leftarrow> shim_act env a shim; shim_run env as shim }"

text \<open>What the C interface promises: memory behind every pointer that is not null.\<close>

definition messages_ok :: "Messages \<Rightarrow> bool" where
  "messages_ok = (\<lambda>(ptr, count). case ptr of None \<Rightarrow> True | Some ms \<Rightarrow> count \<le> length ms \<and> messages_readable (take count ms))"

definition shim_packet_ok :: "FfiPacket option \<Rightarrow> bool" where
  "shim_packet_ok p \<longleftrightarrow> (case p of None \<Rightarrow> True | Some p \<Rightarrow> valid_slice (fp_payload p))"

definition item_ok :: "FfiConfigItem \<Rightarrow> bool" where
  "item_ok i \<longleftrightarrow> ci_name i \<noteq> None \<and> (case ca_data (ci_values i) of None \<Rightarrow> True | Some vs \<Rightarrow> ca_len (ci_values i) \<le> length vs)"

definition request_ok :: "FfiConfigRequest option \<Rightarrow> bool" where
  "request_ok r \<longleftrightarrow> (case r of None \<Rightarrow> True | Some r \<Rightarrow>
     (case cr_data r of None \<Rightarrow> True | Some items \<Rightarrow> cr_len r \<le> length items \<and> list_all item_ok (take (cr_len r) items)))"

fun act_ok :: "ShimAction \<Rightarrow> bool" where
  "act_ok (ActDownstream p ms) \<longleftrightarrow> messages_ok ms"
| "act_ok (ActUpstream p ms) \<longleftrightarrow> shim_packet_ok p \<and> messages_ok ms"
| "act_ok (ActTimed e d) \<longleftrightarrow> valid_slice d"
| "act_ok (ActEvent e d) \<longleftrightarrow> valid_slice d"
| "act_ok (ActConfigure r) \<longleftrightarrow> request_ok r"
| "act_ok ActStart \<longleftrightarrow> True"
| "act_ok ActStop \<longleftrightarrow> True"

lemma valid_slice_readable:
  "valid_slice s \<Longrightarrow> \<not> (fs_len s \<noteq> 0 \<and> fs_data s = None) \<Longrightarrow> readable s"
  by (auto simp: valid_slice_def readable_def slice_contents_def raw_parts_def split: option.splits)

lemma valid_slice_data_readable: "valid_slice s \<Longrightarrow> fs_data s \<noteq> None \<Longrightarrow> readable s"
  using valid_slice_readable by simp

lemma messages_ok_controls: "messages_ok ms \<Longrightarrow> controls ms = Some incoming \<Longrightarrow> messages_readable incoming"
  by (auto simp: messages_ok_def controls_def messages_readable_def split: if_splits option.splits)

lemma header_check_total:
  assumes "messages_readable incoming"
  shows "\<exists>r. header_check s p incoming = Some r"
proof (cases "find (\<lambda>m. fcm_msg_type m = CONTROL_COMM_EFFECT_HEADER) incoming")
  case None
  then show ?thesis by (simp add: header_check_def)
next
  case (Some m)
  then have "valid_slice (fcm_payload m)"
    using assms by (auto simp: find_Some_iff messages_readable_def list_all_iff)
  then have r: "readable (fcm_payload m)" if "\<not> (fs_data (fcm_payload m) = None \<and> fs_len (fcm_payload m) \<noteq> 0)"
    using that valid_slice_readable by blast
  have "CommEffectHeader_decode d \<noteq> None" for d by (rule comm_effect_header.decode_no_panic)
  then obtain h where h: "CommEffectHeader_decode (contents (fcm_payload m)) = Some h" by blast
  show ?thesis
  proof (cases "fs_data (fcm_payload m) = None \<and> fs_len (fcm_payload m) \<noteq> 0")
    case True
    then show ?thesis by (simp add: header_check_def Some)
  next
    case False
    show ?thesis
      using readable_contents(1) [OF r [OF False]] h False
      by (auto simp: header_check_def Some split: option.splits)
  qed
qed

lemma header_check_passed: "header_check s p incoming = Some None \<Longrightarrow> \<not> (fs_len (fp_payload p) \<noteq> 0 \<and> fs_data (fp_payload p) = None)"
  by (auto simp: header_check_def split: if_splits)

lemma shim_inv_counting:
  "shim_inv columns (s, fw) \<Longrightarrow> shim_inv columns (s, upstream_rx_packet c a b n fw)"
  "shim_inv columns (s, fw) \<Longrightarrow> shim_inv columns (s, downstream_rx_packet c a b n fw)"
  "shim_inv columns (s, fw) \<Longrightarrow> shim_inv columns (s, upstream_tx_packet api c a b n delay fw)"
  "shim_inv columns (s, fw) \<Longrightarrow> shim_inv columns (s, downstream_tx_packet api c a b n delay g fw)"
  "shim_inv columns (s, fw) \<Longrightarrow> shim_inv columns (s, fw_call call fw)"
  by (simp_all add: shim_inv_def counters_keep_rows)

lemma send_upstream_now_inv:
  "shim_inv columns (s, fw) \<Longrightarrow> shim_inv columns (send_upstream_now api p incoming delay (s, fw))"
  by (simp add: send_upstream_now_def Let_def record_accept_inv shim_inv_counting)

text \<open>A packet in the shim once it is counted.\<close>

definition counted :: "CommEffectShim \<Rightarrow> FfiPacket \<Rightarrow> Framework \<Rightarrow> Framework" where
  "counted s p fw = upstream_rx_packet (ce_counters s) (pi_source (fp_info p)) (pi_destination (fp_info p)) (fs_len (fp_payload p)) fw"

lemma upstream_dropped:
  assumes "controls ms = Some incoming" "header_check s p incoming = Some (Some reason)"
  shows "CommEffect_upstream api rng (Some p) ms (s, fw) =
    record_drop api (fp_info p) (fs_len (fp_payload p)) reason (s, counted s p fw)"
  using assms by (simp add: CommEffect_upstream_def Let_def counted_def)

lemma upstream_passed:
  assumes "controls ms = Some incoming" "header_check s p incoming = Some None" "readable (fp_payload p)"
    and "find_effect s (pi_source (fp_info p)) (contents (fp_payload p)) = Some eff"
  shows "CommEffect_upstream api rng (Some p) ms (s, fw) =
    (case eff of
       None \<Rightarrow> if ce_default_connectivity s
          then Some (send_upstream_now api p incoming (elapsed_microseconds api (counted s p fw)) (s, counted s p fw))
          else record_drop api (fp_info p) (fs_len (fp_payload p)) DropNoProfile (s, counted s p fw)
     | Some e \<Rightarrow> apply_effect api rng p incoming (contents (fp_payload p)) e (s, counted s p fw))"
  using assms readable_contents(1) [OF assms(3)]
  by (cases eff) (simp_all add: CommEffect_upstream_def Let_def counted_def [symmetric])

lemma counted_inv: "shim_inv columns (s, fw) \<Longrightarrow> shim_inv columns (s, counted s p fw)"
  by (simp add: counted_def shim_inv_counting)

lemma find_effect_total: "\<exists>eff. find_effect s source payload = Some eff"
  using find_filter_total [of payload "ce_filters s"] by (auto simp: find_effect_def)

lemma upstream_packet_total:
  assumes inv: "shim_inv columns (s, fw)" and ok: "valid_slice (fp_payload p)" "messages_readable incoming"
    and c: "controls ms = Some incoming"
  shows "\<exists>shim. CommEffect_upstream api rng (Some p) ms (s, fw) = Some shim \<and> shim_inv columns shim"
proof -
  have inv1: "shim_inv columns (s, counted s p fw)" using inv by (rule counted_inv)
  have dropped: "\<exists>shim. record_drop api (fp_info p) n reason (s, counted s p fw) = Some shim \<and> shim_inv columns shim" for n reason
    using record_drop_total [OF inv1] by blast
  obtain check where check: "header_check s p incoming = Some check" using header_check_total [OF ok(2)] by blast
  show ?thesis
  proof (cases check)
    case (Some reason)
    then show ?thesis using upstream_dropped [OF c] check dropped by simp
  next
    case None
    then have pay: "readable (fp_payload p)" using valid_slice_readable ok(1) header_check_passed check by blast
    obtain eff where eff: "find_effect s (pi_source (fp_info p)) (contents (fp_payload p)) = Some eff"
      using find_effect_total by blast
    note run = upstream_passed [OF c check [unfolded None] pay eff]
    show ?thesis
    proof (cases eff)
      case None
      then show ?thesis unfolding run using dropped send_upstream_now_inv [OF inv1] by (simp del: split_paired_Ex)
    next
      case (Some e)
      then show ?thesis unfolding run using apply_effect_outcome [OF inv1 pay ok(2) refl] by fastforce
    qed
  qed
qed

lemma upstream_total:
  assumes "shim_inv columns (s, fw)" "shim_packet_ok p" "messages_ok ms"
  shows "\<exists>shim. CommEffect_upstream api rng p ms (s, fw) = Some shim \<and> shim_inv columns shim"
proof (cases "controls ms = None \<or> p = None")
  case True
  then show ?thesis using assms(1) by (auto simp: CommEffect_upstream_def shim_inv_counting split: option.splits)
next
  case False
  then obtain incoming q where "controls ms = Some incoming" "p = Some q" by auto
  then show ?thesis using upstream_packet_total [OF assms(1) _ messages_ok_controls [OF assms(3)]] assms(2)
    by (simp add: shim_packet_ok_def del: split_paired_Ex)
qed

lemma downstream_total:
  assumes inv: "shim_inv columns (s, fw)"
  shows "\<exists>shim. CommEffect_downstream api p ms (s, fw) = Some shim \<and> shim_inv columns shim"
proof -
  have seq: "shim_inv columns (s\<lparr>ce_sequence := k\<rparr>, f) \<longleftrightarrow> shim_inv columns (s, f)" for k f by (simp add: shim_inv_def)
  have enc: "\<exists>d. CommEffectHeader_encode h = Some d" for h by (simp add: CommEffectHeader_bytes)
  show ?thesis
  proof (cases "controls ms = None \<or> p = None")
    case True
    then show ?thesis using inv by (auto simp: CommEffect_downstream_def shim_inv_counting split: option.splits)
  next
    case False
    then obtain incoming q where "controls ms = Some incoming" "p = Some q" by auto
    then show ?thesis using inv
      by (simp add: CommEffect_downstream_def Let_def CommEffectHeader_bytes record_accept_inv shim_inv_counting seq)
  qed
qed

lemma timed_total:
  assumes inv: "shim_inv columns (s, fw)" and ok: "valid_slice d"
  shows "\<exists>shim. CommEffect_timed api e d (s, fw) = Some shim \<and> shim_inv columns shim"
proof (cases "e \<noteq> TIMER_UPSTREAM_PACKET \<or> fs_data d = None")
  case True
  then show ?thesis using inv by (simp add: CommEffect_timed_def)
next
  case False
  then have "readable d" using valid_slice_data_readable [OF ok] by simp
  then have r: "slice_contents d = Some (contents d)" by (rule readable_contents)
  obtain pend where pend: "decode_pending (contents d) = Some pend" using decode_pending_total by blast
  show ?thesis
  proof (cases pend)
    case None
    then show ?thesis using inv False r pend by (simp add: CommEffect_timed_def)
  next
    case (Some p)
    define f where "f = fw_call (SendUpstreamPacket (ce_id s) (Some (pe_packet p)) (messages_of (pe_messages p)))
      (upstream_tx_packet api (ce_counters s) (pi_source (fp_info (pe_packet p))) (pi_destination (fp_info (pe_packet p)))
        (fs_len (fp_payload (pe_packet p))) (pe_processing_delay_microseconds p) fw)"
    have "shim_inv columns (s, f)" unfolding f_def by (intro shim_inv_counting inv)
    moreover have "CommEffect_timed api e d (s, fw) =
        Some (record_accept api (fp_info (pe_packet p)) (fs_len (fp_payload (pe_packet p))) True (s, f))"
      using False r pend Some by (auto simp: CommEffect_timed_def Let_def f_def)
    ultimately show ?thesis using record_accept_inv by simp
  qed
qed

lemma insert_profiles_total:
  "\<not> list_ex (\<lambda>m. Effect_from_message m = None) ms \<Longrightarrow> \<exists>p'. insert_profiles ms p = Some p'"
  by (induction ms arbitrary: p) auto

lemma event_total:
  assumes "valid_slice d"
  shows "\<exists>s'. CommEffect_event decode e d s = Some s' \<and> (shim_inv columns (s', fw) \<longleftrightarrow> shim_inv columns (s, fw))"
proof (cases "e \<noteq> EVENT_COMM_EFFECT \<or> fs_data d = None")
  case True
  then show ?thesis by (simp add: CommEffect_event_def)
next
  case False
  then have "readable d" using valid_slice_data_readable [OF assms] by simp
  then have r: "slice_contents d = Some (contents d)" by (rule readable_contents)
  show ?thesis
  proof (cases "\<exists>ms. decode (contents d) = Some ms \<and> \<not> list_ex (\<lambda>m. Effect_from_message m = None) ms")
    case True
    then obtain ms p' where "decode (contents d) = Some ms" "\<not> list_ex (\<lambda>m. Effect_from_message m = None) ms"
      "insert_profiles ms (ce_profiles s) = Some p'" using insert_profiles_total by blast
    then show ?thesis using False r by (auto simp: CommEffect_event_def shim_inv_def)
  next
    case bad: False
    then have "CommEffect_event decode e d s = Some s"
      using False r by (auto simp: CommEffect_event_def split: option.splits)
    then show ?thesis by simp
  qed
qed

lemma config_value_collected: "\<exists>r. collect_option config_value vs = Some r"
  by (induction vs) (auto simp: config_value_def split: option.splits)

lemma config_values_bind: "\<exists>r. (collect_option config_value vs \<bind> (\<lambda>vs. Some (g vs))) = Some r"
  using config_value_collected [of vs] by auto

lemma config_item_total: "item_ok i \<Longrightarrow> \<exists>r. config_item i = Some r"
  by (auto simp: config_values_bind item_ok_def config_item_def raw_parts_def split: option.splits if_splits)

lemma collect_option_total: "(\<And>x. x \<in> set xs \<Longrightarrow> \<exists>r. f x = Some r) \<Longrightarrow> \<exists>r. collect_option f xs = Some r"
proof (induction xs)
  case (Cons x xs)
  then obtain r rs where "f x = Some r" "collect_option f xs = Some rs" by fastforce
  then show ?case by (cases r) simp_all
qed simp

lemma config_items_total:
  assumes "request_ok r"
  shows "\<exists>items. config_items r = Some items"
proof (cases "\<exists>req items. r = Some req \<and> cr_data req = Some items \<and> cr_len req \<le> 4096 \<and> cr_len req \<noteq> 0")
  case True
  then obtain req items where r: "r = Some req" "cr_data req = Some items" "cr_len req \<le> 4096" "cr_len req \<noteq> 0" by blast
  then have ok: "cr_len req \<le> length items" "list_all item_ok (take (cr_len req) items)"
    using assms by (simp_all add: request_ok_def)
  have "\<exists>v. config_item x = Some v" if "x \<in> set (take (cr_len req) items)" for x
    using ok(2) that config_item_total by (simp add: list_all_iff)
  from collect_option_total [OF this] show ?thesis using r ok(1) by (simp add: config_items_def raw_parts_def)
next
  case False
  then show ?thesis by (cases r) (auto simp: config_items_def raw_parts_def)
qed

lemma configure_item_inv:
  "configure_item name v seen s = Some (seen', s') \<Longrightarrow> shim_inv columns (s', fw) \<longleftrightarrow> shim_inv columns (s, fw)"
  by (auto simp: configure_item_def shim_inv_def split: if_splits)

lemma configure_items_inv: "shim_inv columns (snd (configure_items items seen s), fw) \<longleftrightarrow> shim_inv columns (s, fw)"
proof (induction items arbitrary: seen s)
  case (Cons i items)
  obtain name vs where "i = (name, vs)" by (cases i)
  then show ?case using Cons.IH configure_item_inv by (auto split: list.splits option.splits)
qed simp

lemma shim_act_total:
  assumes inv: "shim_inv columns (s, fw)" and ok: "act_ok a"
  shows "\<exists>shim. shim_act env a (s, fw) = Some shim \<and> shim_inv columns shim"
proof (cases a)
  case (ActDownstream p ms)
  then show ?thesis using downstream_total [OF inv] by simp
next
  case (ActUpstream p ms)
  then show ?thesis using upstream_total [OF inv] ok by simp
next
  case (ActTimed e d)
  then show ?thesis using timed_total [OF inv] ok by simp
next
  case (ActEvent e d)
  then show ?thesis using event_total [of d "se_decode env" e s columns fw] inv ok by auto
next
  case (ActConfigure r)
  then obtain items where items: "config_items r = Some items" using config_items_total ok by fastforce
  then show ?thesis using ActConfigure inv configure_items_inv [of columns _ False s fw]
    by (cases items) (auto simp: CommEffect_configure_def case_prod_unfold)
next
  case ActStart
  then show ?thesis using inv by (auto simp: CommEffect_start_def shim_inv_def split: option.splits sum.splits)
next
  case ActStop
  then show ?thesis using inv by (simp add: CommEffect_stop_def shim_inv_def)
qed

lemma shim_run_total:
  assumes "shim_inv columns shim" "list_all act_ok as"
  shows "\<exists>shim'. shim_run env as shim = Some shim' \<and> shim_inv columns shim'"
  using assms
proof (induction as arbitrary: shim)
  case (Cons a as)
  obtain s fw where "shim = (s, fw)" by (cases shim)
  then obtain shim1 where "shim_act env a shim = Some shim1" "shim_inv columns shim1"
    using shim_act_total Cons.prems by fastforce
  then show ?case using Cons.IH [of shim1] Cons.prems(2) by simp
qed simp

lemma fw_ask_tables [simp]: "fw_table_states (snd (fw_ask api c fw)) = fw_table_states fw"
  by (simp add: fw_ask_def Let_def)

lemma register_keeps_tables [simp]:
  "fw_table_states (snd (register_counter api inst c fw)) = fw_table_states fw"
  "fw_table_states (snd (register_average api inst c fw)) = fw_table_states fw"
  "fw_table_states (snd (register_table api inst base labels description fw)) = fw_table_states fw"
  by (simp_all add: register_counter_def register_average_def register_table_def case_prod_unfold)

lemma register_counters_tables [simp]: "fw_table_states (snd (register_counters api inst cs fw)) = fw_table_states fw"
  by (induction cs arbitrary: fw) (simp_all add: case_prod_unfold Let_def)

lemma register_all_tables [simp]:
  "fw_table_states (snd (register_with_drop_labels api inst us bs fw)) = fw_table_states fw"
  by (simp add: register_with_drop_labels_def case_prod_unfold Let_def)

lemma register_packet_tables_tables [simp]:
  "fw_table_states (snd (register_packet_tables api ts tables fw)) = fw_table_states fw"
proof (induction ts arbitrary: tables fw)
  case (Cons t ts)
  then show ?case by (cases t) (simp add: case_prod_unfold Let_def)
qed simp

lemma init_inv:
  assumes "drop_rows_ok columns fw" "columns_agree columns (ce_counters (fst (CommEffect_init api nem fw)))"
  shows "shim_inv columns (CommEffect_init api nem fw)"
proof -
  have "fw_table_states (snd (CommEffect_init api nem fw)) = fw_table_states fw"
    by (simp add: CommEffect_init_def case_prod_unfold Let_def)
  then show ?thesis
    using assms drop_rows_ok_same_tables [of "snd (CommEffect_init api nem fw)" fw]
    by (simp add: shim_inv_def case_prod_unfold CommEffect_init_def Let_def)
qed

text \<open>C28: The shim never panics. From \<open>init\<close>, no sequence of calls of its handlers (packets and
  control messages in both directions, timers, events, configuration, start, stop) with any contents panics
  or reads through a null pointer, as long as the memory behind the pointers of the caller is there; the
  bytes of a timer or an event may be anything, and so may the answers of the framework, the clock and the
  random numbers. The hypothesis on the columns is that a drop table has as many columns as it was
  registered with.\<close>

theorem comm_effect_never_panics:
  assumes "drop_rows_ok columns fw0"
    and "columns_agree columns (ce_counters (fst (CommEffect_init (se_api env) nem fw0)))"
    and "list_all act_ok as"
  shows "\<exists>shim. shim_run env as (CommEffect_init (se_api env) nem fw0) = Some shim"
  using shim_run_total [OF init_inv [OF assms(1,2)] assms(3)] by blast

definition witness_env :: "unit ShimEnv" where
  "witness_env = \<lparr>se_api = witness_api, se_rng = \<lparr>gen_percent = (\<lambda>_. 0), gen_jitter = (\<lambda>_ lo _. lo)\<rparr>,
     se_xml = \<lparr>xml_read_file = (\<lambda>_. None), xml_parse = (\<lambda>_. None), xml_children = (\<lambda>_. []), xml_is_element = (\<lambda>_. True),
       xml_tag_name = (\<lambda>_. []), xml_has_tag_name = (\<lambda>_ _. False), xml_attribute = (\<lambda>_ _. None), xml_text = (\<lambda>_. None)\<rparr>,
     se_decode = (\<lambda>_. None)\<rparr>"

definition witness_info :: FfiPacketInfo where
  "witness_info = \<lparr>pi_source = 1, pi_destination = 2, pi_priority = 0, pi_creation_time_sec = 0, pi_creation_time_usec = 0\<rparr>"

definition witness_actions :: "ShimAction list" where
  "witness_actions =
     [ActUpstream (Some \<lparr>fp_info = witness_info, fp_payload = slice_of [1, 2, 3]\<rparr>) (None, 0),
      ActUpstream (Some \<lparr>fp_info = witness_info, fp_payload = \<lparr>fs_data = None, fs_len = 9\<rparr>\<rparr>) (None, 0),
      ActTimed 1 (slice_of (replicate 40 0xFF)), ActEvent 103 (slice_of [0xFF]), ActConfigure None, ActStart, ActStop]"

theorem comm_effect_never_panics_witness:
  "\<exists>shim. shim_run witness_env witness_actions
     (CommEffect_init (se_api witness_env) 7 \<lparr>fw_calls = [], fw_table_states = Map.empty\<rparr>) = Some shim"
proof (rule comm_effect_never_panics [where columns = "\<lambda>_. 8"])
  show "drop_rows_ok (\<lambda>_. 8) \<lparr>fw_calls = [], fw_table_states = Map.empty\<rparr>" by (simp add: drop_rows_ok_def)
  show "columns_agree (\<lambda>_. 8) (ce_counters (fst (CommEffect_init (se_api witness_env) 7
     \<lparr>fw_calls = [], fw_table_states = Map.empty\<rparr>)))"
    by (simp add: columns_agree_def CommEffect_init_def register_with_drop_labels_def case_prod_unfold Let_def drop_reason_labels_def)
  show "list_all act_ok witness_actions"
    by (simp add: witness_actions_def shim_packet_ok_def messages_ok_def request_ok_def valid_slice_def slice_of_def)
qed

section \<open>From shim to shim\<close>

definition header_message :: "byte list \<Rightarrow> FfiControlMessage" where
  "header_message h = \<lparr>fcm_msg_type = CONTROL_COMM_EFFECT_HEADER, fcm_payload = slice_of h\<rparr>"

lemma downstream_sends:
  assumes "controls ms = Some incoming"
  shows "\<exists>s' fw' header h. CommEffect_downstream api (Some p) ms (s, fw) = Some (s', fw') \<and>
    CommEffectHeader_encode header = Some h \<and> ceh_group_id header = ce_group_id s \<and> length h = 17 \<and>
    acts_between fw fw' [SendDownstreamPacket (ce_id s) (Some p) (messages_of (filter not_header incoming @ [header_message h]))]"
proof -
  define header where "header = \<lparr>ceh_group_id = ce_group_id s, ceh_sequence = ce_sequence s,
    ceh_tx_time_microseconds = unix_microseconds api fw\<rparr>"
  obtain h where h: "CommEffectHeader_encode header = Some h" "length h = 17" by (simp add: CommEffectHeader_bytes)
  define s1 where "s1 = s\<lparr>ce_sequence := ce_sequence s + 1\<rparr>"
  define f1 where "f1 = downstream_rx_packet (ce_counters s) (pi_source (fp_info p)) (pi_destination (fp_info p)) (fs_len (fp_payload p)) fw"
  define f2 where "f2 = downstream_tx_packet api (ce_counters s1) (pi_source (fp_info p)) (pi_destination (fp_info p))
    (fs_len (fp_payload p)) (elapsed_microseconds api f1) False f1"
  define call where "call = SendDownstreamPacket (ce_id s1) (Some p) (messages_of (filter not_header incoming @ [header_message h]))"
  obtain s' fw' where r: "record_accept api (fp_info p) (fs_len (fp_payload p)) False (s1, fw_call call f2) = (s', fw')" by fastforce
  have "CommEffect_downstream api (Some p) ms (s, fw) = Some (s', fw')"
    unfolding CommEffect_downstream_def prod.case assms option.case Let_def f1_def [symmetric] header_def [symmetric] h(1)
      s1_def [symmetric] f2_def [symmetric] bind.bind_lunit header_message_def [symmetric] call_def [symmetric] r by (rule refl)
  moreover have "acts_between fw fw' [call]"
  proof -
    have "acts_between fw f2 []" unfolding f1_def f2_def by (rule acts_quiet_left [OF counters_quiet(2) counters_quiet(4)])
    moreover have "acts_between f2 (fw_call call f2) [call]" using acts_call [of f2 call] by (simp add: call_def)
    ultimately show ?thesis using acts_quiet_left acts_quiet_right record_accept_props(1) [OF r] by blast
  qed
  moreover have "ceh_group_id header = ce_group_id s" "ce_id s1 = ce_id s" by (simp_all add: header_def s1_def)
  ultimately show ?thesis using h call_def by metis
qed

lemma not_header_message [simp]: "\<not> not_header (header_message h)"
  by (simp add: header_message_def not_header_def)

lemma filter_not_header_sent [simp]:
  "filter not_header (filter not_header incoming @ [header_message h]) = filter not_header incoming"
  by simp

lemma sent_sendable:
  assumes "pending_ok p incoming" "length (filter not_header incoming) < 4096" "length h = 17"
  shows "pending_ok p (filter not_header incoming @ [header_message h])"
  using assms by (auto simp: pending_ok_def header_message_def readable_def list_all_iff) (simp_all add: slice_of_def)

lemma sendable_readable:
  assumes "pending_ok p ms" shows "readable (fp_payload p)" "messages_readable ms" "controls (messages_of ms) = Some ms"
proof -
  show "readable (fp_payload p)" using assms by (simp add: pending_ok_def)
  have "valid_slice s" if "readable s" for s
    using that by (auto simp: readable_def slice_contents_def raw_parts_def valid_slice_def split: if_splits option.splits)
  then show "messages_readable ms" using assms by (auto simp: pending_ok_def messages_readable_def list_all_iff)
  show "controls (messages_of ms) = Some ms" using assms by (auto simp: pending_ok_def controls_def messages_of_def)
qed

lemma slice_of_data: "fs_data (slice_of h) = Some h"
  by (simp add: slice_of_def)

lemma sent_header_accepted:
  assumes "CommEffectHeader_encode header = Some h" "ceh_group_id header = ce_group_id s" "readable (fp_payload p)"
    and "ce_promiscuous s \<or> pi_destination (fp_info p) = CE_BROADCAST_NEM \<or> pi_destination (fp_info p) = ce_id s"
  shows "header_check s p (filter not_header incoming @ [header_message h]) = Some None"
proof -
  have "CommEffectHeader_decode h = Some (Some header)"
    using comm_effect_header.roundtrip [of header h] assms(1) by simp
  moreover have "find (\<lambda>m. fcm_msg_type m = CONTROL_COMM_EFFECT_HEADER) (filter not_header incoming @ [header_message h])
      = Some (header_message h)"
    by (induction incoming) (simp_all add: header_message_def not_header_def)
  moreover have "\<not> (fs_len (fp_payload p) \<noteq> 0 \<and> fs_data (fp_payload p) = None)"
    using assms(3) by (auto simp: readable_def slice_contents_def raw_parts_def split: if_splits option.splits)
  moreover have "fcm_payload (header_message h) = slice_of h" by (simp add: header_message_def)
  ultimately show ?thesis using assms(2,4) by (auto simp: header_check_def slice_of_data)
qed

lemma encodes_pending_bytes: "pending_ok p ms \<Longrightarrow> encodes_pending p ms delay data \<longleftrightarrow> data = pending_bytes p ms delay"
  using encode_pending_bytes [of p ms 0] by (auto simp: encodes_pending_def pending_delay_rewritten)

text \<open>A packet as it leaves: the payload and the control messages copied, without the header.\<close>

definition delivered :: "CommEffectShim \<Rightarrow> FfiPacket \<Rightarrow> FfiControlMessage list \<Rightarrow> FrameworkCall" where
  "delivered s p incoming = SendUpstreamPacket (ce_id s)
     (Some (p\<lparr>fp_payload := slice_of (contents (fp_payload p))\<rparr>)) (messages_of (map copied (filter not_header incoming)))"

lemma timed_delivers:
  assumes "pending_ok p ms"
  shows "\<exists>s' fw'. CommEffect_timed api TIMER_UPSTREAM_PACKET (slice_of (pending_bytes p ms delay)) (s, fw) = Some (s', fw') \<and>
    acts_between fw fw' [delivered s p ms]"
proof -
  define q where "q = p\<lparr>fp_payload := slice_of (contents (fp_payload p))\<rparr>"
  define f1 where "f1 = upstream_tx_packet api (ce_counters s) (pi_source (fp_info q)) (pi_destination (fp_info q))
    (fs_len (fp_payload q)) delay fw"
  obtain s' fw' where r: "record_accept api (fp_info q) (fs_len (fp_payload q)) True (s, fw_call (delivered s p ms) f1) = (s', fw')"
    by fastforce
  have "CommEffect_timed api TIMER_UPSTREAM_PACKET (slice_of (pending_bytes p ms delay)) (s, fw) = Some (s', fw')"
    using pending_roundtrip [OF assms] r
    by (simp add: CommEffect_timed_def Let_def pending_of_def q_def [symmetric] f1_def [symmetric] delivered_def)
       (simp add: slice_of_def)
  moreover have "acts_between fw fw' [delivered s p ms]"
  proof -
    have "acts_between fw f1 []" unfolding f1_def by (rule counters_quiet)
    moreover have "acts_between f1 (fw_call (delivered s p ms) f1) [delivered s p ms]"
      using acts_call [of f1 "delivered s p ms"] by (simp add: delivered_def)
    ultimately show ?thesis using acts_quiet_left acts_quiet_right record_accept_props(1) [OF r] by blast
  qed
  ultimately show ?thesis by blast
qed

lemma delivered_sent: "delivered s p (filter not_header incoming @ [header_message h]) = delivered s p incoming"
  by (simp add: delivered_def)

text \<open>C6: Delivery through the effects. A packet one shim sends down (with its control messages and the
  header the shim adds) and another shim of the same group receives, under an effect and while its receive
  buffer has room, schedules exactly as many timers as the effect gives copies, and sends nothing else; and
  whenever one of these timers fires, whatever the state of the shim then, it sends up exactly one packet,
  with the same packet information, the same payload bytes and the same control messages, the header
  removed.\<close>

theorem comm_effect_delivers:
  assumes "controls ms = Some incoming" "pending_ok p incoming" "length (filter not_header incoming) < 4096"
    and "shim_inv columns (b, fb)" "ce_group_id b = ce_group_id a"
    and "ce_promiscuous b \<or> pi_destination (fp_info p) = CE_BROADCAST_NEM \<or> pi_destination (fp_info p) = ce_id b"
    and "find_effect b (pi_source (fp_info p)) (contents (fp_payload p)) = Some (Some effect)"
    and "\<not> buffer_full b (pi_source (fp_info p)) (unix_microseconds api_b (counted b p fb))"
  shows "\<exists>a' fa' sent b' fb' timers.
    CommEffect_downstream api_a (Some p) ms (a, fa) = Some (a', fa') \<and>
    acts_between fa fa' [SendDownstreamPacket (ce_id a) (Some p) sent] \<and>
    CommEffect_upstream api_b rng (Some p) sent (b, fb) = Some (b', fb') \<and> acts_between fb fb' timers \<and>
    length timers = fst (task_count rng (ef_probability_loss effect) (ef_probability_duplicate effect) b) \<and>
    (\<forall>t \<in> set timers. \<exists>sec usec data. t = ScheduleTimedEvent (ce_id b) sec usec TIMER_UPSTREAM_PACKET data \<and>
       (\<forall>c fc. \<exists>c' fc'. CommEffect_timed api_b TIMER_UPSTREAM_PACKET data (c, fc) = Some (c', fc') \<and>
          acts_between fc fc' [delivered c p incoming]))"
proof -
  obtain a' fa' header h where down: "CommEffect_downstream api_a (Some p) ms (a, fa) = Some (a', fa')"
    "CommEffectHeader_encode header = Some h" "ceh_group_id header = ce_group_id a" "length h = 17"
    "acts_between fa fa' [SendDownstreamPacket (ce_id a) (Some p) (messages_of (filter not_header incoming @ [header_message h]))]"
    using downstream_sends [OF assms(1), of api_a p a fa] by blast
  define out where "out = filter not_header incoming @ [header_message h]"
  have s: "pending_ok p out" unfolding out_def using sent_sendable assms(2,3) down(4) by blast
  have check: "header_check b p out = Some None"
    unfolding out_def using sent_header_accepted [OF down(2)] down(3) assms(5,6) sendable_readable(1) [OF s] by simp
  have run: "CommEffect_upstream api_b rng (Some p) (messages_of out) (b, fb) =
      apply_effect api_b rng p out (contents (fp_payload p)) effect (b, counted b p fb)"
    using upstream_passed [OF sendable_readable(3) [OF s] check sendable_readable(1) [OF s] assms(7)] by simp
  obtain b' fb' timers e where up: "apply_effect api_b rng p out (contents (fp_payload p)) effect (b, counted b p fb) = Some (b', fb')"
    "effect_applied rng p out effect (unix_microseconds api_b (counted b p fb)) e (b, counted b p fb) (b', fb') timers"
    using apply_effect_outcome [OF counted_inv [OF assms(4)] sendable_readable(1,2) [OF s] refl] assms(8) by (metis (no_types, lifting))
  have timers: "acts_between fb fb' timers"
    "length timers = fst (task_count rng (ef_probability_loss effect) (ef_probability_duplicate effect) b)"
    "copy_timers rng (ce_id b) effect (unix_microseconds api_b (counted b p fb)) e (encodes_pending p out) timers"
    using up(2) acts_quiet_left [OF counters_quiet(1)] by (auto simp: effect_applied_def counted_def)
  have fire: "\<exists>sec usec data. t = ScheduleTimedEvent (ce_id b) sec usec TIMER_UPSTREAM_PACKET data \<and>
       (\<forall>c fc. \<exists>c' fc'. CommEffect_timed api_b TIMER_UPSTREAM_PACKET data (c, fc) = Some (c', fc') \<and>
          acts_between fc fc' [delivered c p incoming])" if t: "t \<in> set timers" for t
  proof -
    obtain delay x where "t = timer_call (ce_id b) x (pending_bytes p out delay)"
      using timers(3) t encodes_pending_bytes [OF s] by (auto simp: copy_timers_def)
    then show ?thesis using timed_delivers [OF s, of api_b delay] delivered_sent unfolding out_def timer_call_def by metis
  qed
  show ?thesis
    using down(1,5) run up(1) timers(1,2) fire unfolding out_def by metis
qed

definition witness_shim :: CommEffectShim where
  "witness_shim = fst (CommEffect_init witness_api 2 \<lparr>fw_calls = [], fw_table_states = Map.empty\<rparr>)"

definition witness_effect :: CommEffect where
  "witness_effect = \<lparr>ef_latency_microseconds = 1000, ef_jitter_microseconds = 0, ef_probability_loss = 0,
     ef_probability_duplicate = 0, ef_unicast_bit_rate_bps = 8000, ef_broadcast_bit_rate_bps = 8000\<rparr>"

definition witness_sent :: FfiPacket where
  "witness_sent = \<lparr>fp_info = witness_info, fp_payload = slice_of [1, 2, 3]\<rparr>"

lemma witness_shim_fields:
  "ce_id witness_shim = 2" "ce_group_id witness_shim = 0" "ce_filters witness_shim = []"
  "ce_receive_buffer_period_microseconds witness_shim = 1000000" "ce_end_of_reception witness_shim = Map.empty"
  "ce_broadcast_drop witness_shim = Map.empty" "ce_unicast_drop witness_shim = Map.empty"
  "columns_agree (\<lambda>_. 8) (ce_counters witness_shim)"
  by (simp_all add: witness_shim_def CommEffect_init_def register_with_drop_labels_def case_prod_unfold Let_def
      drop_reason_labels_def columns_agree_def)

lemma witness_inv: "shim_inv (\<lambda>_. 8) (witness_shim\<lparr>ce_profiles := ps\<rparr>, \<lparr>fw_calls = [], fw_table_states = Map.empty\<rparr>)"
  by (simp add: shim_inv_def witness_shim_fields drop_rows_ok_def)

lemma witness_sent_fields:
  "pi_source (fp_info witness_sent) = 1" "pi_destination (fp_info witness_sent) = 2"
  "contents (fp_payload witness_sent) = [1, 2, 3]" "readable (fp_payload witness_sent)" "fs_len (fp_payload witness_sent) = 3"
  by (simp_all add: witness_sent_def witness_info_def contents_def readable_def) (simp add: slice_of_def)

theorem comm_effect_delivers_witness:
  "\<exists>a' fa' sent b' fb' timers.
    CommEffect_downstream witness_api (Some witness_sent) (None, 0) (witness_shim, \<lparr>fw_calls = [], fw_table_states = Map.empty\<rparr>) = Some (a', fa') \<and>
    CommEffect_upstream witness_api (se_rng witness_env) (Some witness_sent) sent
      (witness_shim\<lparr>ce_profiles := [1 \<mapsto> witness_effect]\<rparr>, \<lparr>fw_calls = [], fw_table_states = Map.empty\<rparr>) = Some (b', fb') \<and>
    acts_between \<lparr>fw_calls = [], fw_table_states = Map.empty\<rparr> fb' timers \<and>
    length timers = fst (task_count (se_rng witness_env) 0 0 (witness_shim\<lparr>ce_profiles := [1 \<mapsto> witness_effect]\<rparr>))"
proof -
  let ?b = "witness_shim\<lparr>ce_profiles := [1 \<mapsto> witness_effect]\<rparr>"
  have c: "controls (None, 0) = Some []" by (simp add: controls_def)
  have s: "pending_ok witness_sent []" by (simp add: pending_ok_def witness_sent_fields)
  have e: "find_effect ?b (pi_source (fp_info witness_sent)) (contents (fp_payload witness_sent)) = Some (Some witness_effect)"
    by (simp add: find_effect_def witness_shim_fields witness_sent_fields)
  have n: "\<not> buffer_full ?b (pi_source (fp_info witness_sent)) now" for now
    by (simp add: buffer_full_def witness_shim_fields)
  have p: "ef_probability_loss witness_effect = 0" "ef_probability_duplicate witness_effect = 0" by (simp_all add: witness_effect_def)
  have d: "ce_group_id ?b = ce_group_id witness_shim"
    "ce_promiscuous ?b \<or> pi_destination (fp_info witness_sent) = CE_BROADCAST_NEM \<or> pi_destination (fp_info witness_sent) = ce_id ?b"
    by (simp_all add: witness_shim_fields witness_sent_fields)
  have l: "length (filter not_header []) < 4096" by simp
  show ?thesis
    using comm_effect_delivers [OF c s l witness_inv d e n, of witness_api _ witness_api "se_rng witness_env"]
    unfolding p by blast
qed


section \<open>Pacing\<close>

text \<open>The time a timer is due, in microseconds.\<close>

fun due :: "FrameworkCall \<Rightarrow> nat" where
  "due (ScheduleTimedEvent _ sec usec _ _) = unat sec * 1000000 + unat usec"
| "due _ = 0"

lemma due_timer_call: "due (timer_call nem x data) = unat x"
proof -
  have m: "unat (x mod 1000000) < 1000000" by (simp add: unat_mod)
  have "unat (ucast (x mod 1000000) :: u32) = unat (x mod 1000000)"
    using m by (simp add: unsigned_ucast_eq take_bit_nat_eq_self_iff)
  moreover have "unat (x div 1000000) = unat x div 1000000" "unat (x mod 1000000) = unat x mod 1000000"
    by (simp_all add: unat_div unat_mod)
  ultimately show ?thesis by (simp add: timer_call_def)
qed

text \<open>What \<open>gen_range\<close> promises.\<close>

definition rng_ok :: "Rng \<Rightarrow> bool" where
  "rng_ok rng \<longleftrightarrow> (\<forall>k lo hi. lo < hi \<longrightarrow> lo \<le> gen_jitter rng k lo hi \<and> gen_jitter rng k lo hi < hi)"

lemma drawn_jitter_range:
  assumes "rng_ok rng"
  shows "\<bar>drawn_jitter rng effect k\<bar> \<le> uint (ef_jitter_microseconds effect)"
proof (cases "uint (ef_jitter_microseconds effect) = 0")
  case False
  define j where "j = uint (ef_jitter_microseconds effect)"
  have "- j < j" using False uint_nonnegative [of "ef_jitter_microseconds effect"] unfolding j_def by linarith
  then have "- j \<le> gen_jitter rng k (- j) j" "gen_jitter rng k (- j) j < j"
    using assms unfolding rng_ok_def by blast+
  then show ?thesis using False by (simp add: drawn_jitter_def Let_def j_def [symmetric])
qed (simp add: drawn_jitter_def)

lemma unat_word_of_int: "0 \<le> i \<Longrightarrow> i < 2 ^ 64 \<Longrightarrow> unat (word_of_int i :: u64) = nat i"
  by (simp add: unsigned_of_int take_bit_int_eq_self)

lemma u64_le_max: "unat w \<le> 2 ^ 64 - 1" for w :: u64
proof -
  have "unat w < 2 ^ LENGTH(64)" by (rule unsigned_less)
  then show ?thesis by simp
qed

lemma clamped_early:
  "x = max (min b m - j) n \<Longrightarrow> j \<le> w \<Longrightarrow> n \<le> e \<Longrightarrow> e \<le> b \<Longrightarrow> n \<le> x \<and> min b m \<le> x + w \<and> x \<le> b + w"
  for x :: nat
  by (auto simp: min_def max_def)

lemma clamped_late:
  "x = min (min b m + j) m \<Longrightarrow> j \<le> w \<Longrightarrow> n \<le> e \<Longrightarrow> e \<le> b \<Longrightarrow> e \<le> m \<Longrightarrow> n \<le> x \<and> min b m \<le> x + w \<and> x \<le> b + w"
  for x :: nat
  by (auto simp: min_def)

lemma expiration_bounds:
  fixes latency :: u64
  assumes j: "\<bar>jitter\<bar> \<le> uint (w :: u64)" and now: "now \<le> e"
  defines "x \<equiv> unat (expiration_of now e latency jitter)"
  shows "unat now \<le> x \<and> min (unat e + unat latency) (2 ^ 64 - 1) \<le> x + unat w \<and> x \<le> unat e + unat latency + unat w"
proof -
  have w: "uint w < 2 ^ 64" "uint w = int (unat w)" using uint_lt2p [of w] by simp_all
  have jj: "\<bar>jitter\<bar> < 2 ^ 64" using j w by linarith
  have base: "unat (saturating_add e latency) = min (unat e + unat latency) (2 ^ 64 - 1)"
    by (simp add: unat_saturating_add)
  have n: "unat now \<le> unat e" "unat e \<le> 2 ^ 64 - 1" using now u64_le_max [of e] by (simp_all add: word_le_nat_alt)
  consider "jitter < 0" | "0 \<le> jitter" by linarith
  then show ?thesis
  proof cases
    case 1
    have u: "unat (word_of_int (- jitter) :: u64) = nat (- jitter)" using 1 jj by (intro unat_word_of_int) auto
    have "x = max (min (unat e + unat latency) (2 ^ 64 - 1) - nat (- jitter)) (unat now)"
      using 1 u base by (simp add: x_def expiration_of_def Let_def unat_saturating_sub max_def word_le_nat_alt)
    moreover have "nat (- jitter) \<le> unat w" using j w 1 by linarith
    ultimately show ?thesis
      by (rule clamped_early [OF _ _ n(1)]) simp
  next
    case 2
    have u: "unat (word_of_int jitter :: u64) = nat jitter" using 2 jj by (intro unat_word_of_int) auto
    have "x = min (min (unat e + unat latency) (2 ^ 64 - 1) + nat jitter) (2 ^ 64 - 1)"
      using 2 u base by (simp add: x_def expiration_of_def Let_def unat_saturating_add)
    moreover have "nat jitter \<le> unat w" using j w 2 by linarith
    ultimately show ?thesis
      by (rule clamped_late [OF _ _ n(1) _ n(2)]) simp
  qed
qed

definition reception_start :: "CommEffectShim \<Rightarrow> u16 \<Rightarrow> u64 \<Rightarrow> nat" where
  "reception_start s source now = max (unat (unwrap_or (ce_end_of_reception s source) now)) (unat now)"

lemma unat_max: "unat (max a b) = max (unat a) (unat b)"
  by (simp add: max_def word_le_nat_alt)

lemma unat_end_after: "unat (end_after s source now r) = min (reception_start s source now + unat r) (2 ^ 64 - 1)"
  by (simp add: end_after_def reception_start_def unat_saturating_add unat_max)

lemma now_le_end_after: "now \<le> end_after s source now r"
proof -
  have "unat now \<le> 2 ^ 64 - 1" by (rule u64_le_max)
  then show ?thesis by (simp add: word_le_nat_alt unat_end_after reception_start_def)
qed

lemma buffer_bound:
  assumes "\<not> buffer_full s source now" "ce_receive_buffer_period_microseconds s \<noteq> 0"
  shows "reception_start s source now \<le> unat now + unat (ce_receive_buffer_period_microseconds s)"
  using assms
  by (cases "ce_end_of_reception s source")
     (auto simp: buffer_full_def reception_start_def word_le_nat_alt word_less_nat_alt unat_saturating_sub not_less)

definition effect_bit_rate :: "CommEffect \<Rightarrow> FfiPacketInfo \<Rightarrow> u64" where
  "effect_bit_rate effect info =
     (if pi_destination info = CE_BROADCAST_NEM then ef_broadcast_bit_rate_bps effect else ef_unicast_bit_rate_bps effect)"

text \<open>Microseconds a packet of some bytes takes at a bit rate; none at rate 0.\<close>

definition transmission_time :: "nat \<Rightarrow> u64 \<Rightarrow> nat" where
  "transmission_time len rate = (if rate = 0 then 0 else len * 8 * 1000000 div unat rate)"

lemma unat_effect_reception:
  "unat (effect_reception effect info len) = min (transmission_time len (effect_bit_rate effect info)) (2 ^ 64 - 1)"
proof -
  have "unat (word_of_nat (min n (2 ^ 64 - 1)) :: u64) = min n (2 ^ 64 - 1)" for n :: nat by (simp add: unat_of_nat)
  then show ?thesis
    unfolding effect_reception_def effect_bit_rate_def reception_time_def transmission_time_def by simp
qed

text \<open>C12: Effects pace a source. When a packet under an effect is received at \<open>now\<close>, either the
  receive buffer is full and nothing but counters changes, or the packet is received after the previous one
  of its source for the time it takes at the bit rate, never more than the buffer period (when there is
  one) after now, and every copy is due no earlier than now and within the jitter of the end of reception
  plus the latency. Times saturate at 64 bits.\<close>

theorem comm_effect_pacing:
  assumes "shim_inv columns (s, fw)" "controls ms = Some incoming" "pending_ok p incoming" "rng_ok rng"
    and "header_check s p incoming = Some None"
    and "find_effect s (pi_source (fp_info p)) (contents (fp_payload p)) = Some (Some effect)"
    and now: "now = unix_microseconds api (counted s p fw)"
  shows "\<exists>s' fw' timers. CommEffect_upstream api rng (Some p) ms (s, fw) = Some (s', fw') \<and> acts_between fw fw' timers \<and>
    (if buffer_full s (pi_source (fp_info p)) now
     then timers = [] \<and> ce_end_of_reception s' = ce_end_of_reception s
     else \<exists>e. ce_end_of_reception s' = (ce_end_of_reception s)(pi_source (fp_info p) \<mapsto> e) \<and>
       unat e = min (reception_start s (pi_source (fp_info p)) now
                       + transmission_time (fs_len (fp_payload p)) (effect_bit_rate effect (fp_info p))) (2 ^ 64 - 1) \<and>
       (ce_receive_buffer_period_microseconds s \<noteq> 0 \<longrightarrow>
          reception_start s (pi_source (fp_info p)) now \<le> unat now + unat (ce_receive_buffer_period_microseconds s)) \<and>
       (\<forall>t \<in> set timers. unat now \<le> due t \<and>
          min (unat e + unat (ef_latency_microseconds effect)) (2 ^ 64 - 1) \<le> due t + unat (ef_jitter_microseconds effect) \<and>
          due t \<le> unat e + unat (ef_latency_microseconds effect) + unat (ef_jitter_microseconds effect)))"
proof -
  define source where "source = pi_source (fp_info p)"
  define n where "n = length (contents (fp_payload p))"
  define e where "e = end_after s source now (effect_reception effect (fp_info p) n)"
  have rd: "readable (fp_payload p)" "messages_readable incoming" using sendable_readable [OF assms(3)] by simp_all
  have len: "fs_len (fp_payload p) = n" using readable_contents(2) [OF rd(1)] by (simp add: n_def)
  have q: "acts_between fw (counted s p fw) []" by (simp add: counted_def counters_quiet)
  have run: "CommEffect_upstream api rng (Some p) ms (s, fw) =
      apply_effect api rng p incoming (contents (fp_payload p)) effect (s, counted s p fw)"
    using upstream_passed [OF assms(2,5) rd(1) assms(6)] by simp
  obtain s' fw' where out: "apply_effect api rng p incoming (contents (fp_payload p)) effect (s, counted s p fw) = Some (s', fw')"
    "if buffer_full s source now then same_core s s' \<and> acts_between (counted s p fw) fw' []
     else \<exists>cs. effect_applied rng p incoming effect now e (s, counted s p fw) (s', fw') cs"
    using apply_effect_outcome [OF counted_inv [OF assms(1)] rd now] unfolding source_def e_def n_def by blast
  have ue: "unat e = min (reception_start s source now + transmission_time n (effect_bit_rate effect (fp_info p))) (2 ^ 64 - 1)"
    by (simp add: e_def unat_end_after unat_effect_reception)
  show ?thesis
  proof (cases "buffer_full s source now")
    case True
    then show ?thesis using out run acts_trans [OF q] unfolding source_def [symmetric] by (auto simp: same_core_def)
  next
    case False
    obtain cs where cs: "effect_applied rng p incoming effect now e (s, counted s p fw) (s', fw') cs" using out(2) False by auto
    have due: "unat now \<le> due t \<and>
          min (unat e + unat (ef_latency_microseconds effect)) (2 ^ 64 - 1) \<le> due t + unat (ef_jitter_microseconds effect) \<and>
          due t \<le> unat e + unat (ef_latency_microseconds effect) + unat (ef_jitter_microseconds effect)" if t: "t \<in> set cs" for t
    proof -
      obtain k data where "t = timer_call (ce_id s) (expiration_of now e (ef_latency_microseconds effect) (drawn_jitter rng effect k)) data"
        using cs t by (auto simp: effect_applied_def copy_timers_def)
      then show ?thesis
        using expiration_bounds [OF drawn_jitter_range [OF assms(4)] now_le_end_after] by (simp add: due_timer_call e_def)
    qed
    have "acts_between fw fw' cs" using cs acts_quiet_left [OF q] by (auto simp: effect_applied_def)
    moreover have "ce_end_of_reception s' = (ce_end_of_reception s)(source \<mapsto> e)"
      using cs by (auto simp: effect_applied_def same_core_def source_def)
    ultimately show ?thesis
      using False out(1) run ue due buffer_bound [OF False] unfolding source_def [symmetric] len by (intro exI conjI) auto
  qed
qed

theorem comm_effect_pacing_witness:
  "\<exists>s' fw' timers e. CommEffect_upstream witness_api (se_rng witness_env) (Some witness_sent)
      (messages_of [header_message (the (CommEffectHeader_encode \<lparr>ceh_group_id = 0, ceh_sequence = 0, ceh_tx_time_microseconds = 0\<rparr>))])
      (witness_shim\<lparr>ce_profiles := [1 \<mapsto> witness_effect]\<rparr>, \<lparr>fw_calls = [], fw_table_states = Map.empty\<rparr>) = Some (s', fw') \<and>
    acts_between \<lparr>fw_calls = [], fw_table_states = Map.empty\<rparr> fw' timers \<and>
    ce_end_of_reception s' 1 = Some e \<and> unat e = 3000 \<and> (\<forall>t \<in> set timers. due t = 4000)"
proof -
  let ?s = "witness_shim\<lparr>ce_profiles := [1 \<mapsto> witness_effect]\<rparr>"
  let ?fw = "\<lparr>fw_calls = [], fw_table_states = Map.empty\<rparr>"
  define header where "header = \<lparr>ceh_group_id = 0, ceh_sequence = 0, ceh_tx_time_microseconds = 0 :: i64\<rparr>"
  define h where "h = the (CommEffectHeader_encode header)"
  have h: "CommEffectHeader_encode header = Some h" "length h = 17" by (simp_all add: h_def CommEffectHeader_bytes)
  define ms where "ms = filter not_header [] @ [header_message h]"
  have s: "pending_ok witness_sent ms" unfolding ms_def
    by (rule sent_sendable [OF _ _ h(2)]) (simp_all add: pending_ok_def witness_sent_fields)
  have c: "controls (messages_of ms) = Some ms" using sendable_readable(3) [OF s] .
  have r: "rng_ok (se_rng witness_env)" by (simp add: rng_ok_def witness_env_def)
  have k: "header_check ?s witness_sent ms = Some None" unfolding ms_def
    by (rule sent_header_accepted [OF h(1)]) (simp_all add: header_def witness_shim_fields witness_sent_fields)
  have e: "find_effect ?s (pi_source (fp_info witness_sent)) (contents (fp_payload witness_sent)) = Some (Some witness_effect)"
    by (simp add: find_effect_def witness_shim_fields witness_sent_fields)
  have n: "0 = unix_microseconds witness_api (counted ?s witness_sent ?fw)" by (simp add: unix_microseconds_def witness_api_def)
  have full: "\<not> buffer_full ?s 1 0" by (simp add: buffer_full_def witness_shim_fields)
  have t: "transmission_time 3 (effect_bit_rate witness_effect (fp_info witness_sent)) = 3000"
    by (simp add: transmission_time_def effect_bit_rate_def witness_effect_def)
  have st: "reception_start ?s 1 0 = 0" by (simp add: reception_start_def witness_shim_fields)
  have ms': "ms = [header_message h]" by (simp add: ms_def)
  have lat: "unat (ef_latency_microseconds witness_effect) = 1000" "unat (ef_jitter_microseconds witness_effect) = 0"
    by (simp_all add: witness_effect_def)
  from comm_effect_pacing [OF witness_inv c s r k e n] full t st
  obtain s' fw' timers e where o: "CommEffect_upstream witness_api (se_rng witness_env) (Some witness_sent) (messages_of ms) (?s, ?fw) = Some (s', fw')"
    "acts_between ?fw fw' timers" "ce_end_of_reception s' 1 = Some e" "unat e = 3000"
    "\<forall>t \<in> set timers. min (unat e + 1000) (2 ^ 64 - 1) \<le> due t \<and> due t \<le> unat e + 1000"
    by (auto simp: witness_sent_fields lat)
  then have "\<forall>t \<in> set timers. due t = 4000" by (auto intro: antisym)
  with o show ?thesis unfolding ms' h_def header_def by blast
qed

end
