(* ===== verification/Queue_Metrics.thy ===== *)
theory Queue_Metrics
  imports Emane_Prelude
begin

text \<open>
  The queue metrics of a radio (\<^verbatim>\<open>rust/emane-core/src/queue_metric_manager.rs\<close>): high
  water marks and the average delay of every queue between two reports. Integers wrap as in an optimised
  build. A hash map is a map together with the order in which it is walked, which the language leaves
  open: the report takes the order as a parameter.
\<close>

section \<open>The manager\<close>

record R2RIQueueMetric =
  qm_queue_id :: u16
  qm_queue_max_size :: u32
  qm_queue_current_depth_high_water :: u32
  qm_num_discards_high_water :: u32
  qm_avg_delay_microseconds :: u64

record QueueData =
  qd_max_queue_size :: u32
  qd_queue_high_water_mark :: u32
  qd_num_samples :: u32
  qd_num_discards_high_water_mark :: u32
  qd_sum_delay_microseconds :: u64

definition QueueData_new :: "u32 \<Rightarrow> QueueData" where
  "QueueData_new max_size = \<lparr>qd_max_queue_size = max_size, qd_queue_high_water_mark = 0, qd_num_samples = 0,
     qd_num_discards_high_water_mark = 0, qd_sum_delay_microseconds = 0\<rparr>"

definition QueueData_reset :: "QueueData \<Rightarrow> QueueData" where
  "QueueData_reset self = self\<lparr>qd_num_discards_high_water_mark := 0, qd_sum_delay_microseconds := 0,
     qd_num_samples := 0, qd_queue_high_water_mark := 0\<rparr>"

record QueueMetricManager =
  qm_nem_id :: u16
  qm_queue_data_map :: "u16 \<rightharpoonup> QueueData"

definition QueueMetricManager_new :: "u16 \<Rightarrow> QueueMetricManager" where
  "QueueMetricManager_new nem_id = \<lparr>qm_nem_id = nem_id, qm_queue_data_map = Map.empty\<rparr>"

definition update_queue_data :: "u32 \<Rightarrow> u32 \<Rightarrow> u32 \<Rightarrow> u64 \<Rightarrow> QueueData \<Rightarrow> QueueData" where
  "update_queue_data max_queue_size current_queue_depth num_discards delay_microseconds data =
     (let data = data\<lparr>qd_num_samples := qd_num_samples data + 1,
                      qd_sum_delay_microseconds := qd_sum_delay_microseconds data + delay_microseconds\<rparr>;
          data = (if qd_max_queue_size data \<noteq> max_queue_size
                  then data\<lparr>qd_max_queue_size := max_queue_size, qd_queue_high_water_mark := 0\<rparr> else data);
          data = (if qd_queue_high_water_mark data < current_queue_depth
                  then data\<lparr>qd_queue_high_water_mark := current_queue_depth\<rparr> else data)
      in if qd_num_discards_high_water_mark data < num_discards
         then data\<lparr>qd_num_discards_high_water_mark := num_discards\<rparr> else data)"

definition update_queue_metric :: "u16 \<Rightarrow> u32 \<Rightarrow> u32 \<Rightarrow> u32 \<Rightarrow> u64 \<Rightarrow> QueueMetricManager \<Rightarrow> QueueMetricManager" where
  "update_queue_metric queue_id max_queue_size current_queue_depth num_discards delay_microseconds self =
     (let data = unwrap_or (qm_queue_data_map self queue_id) (QueueData_new 0)
      in self\<lparr>qm_queue_data_map := (qm_queue_data_map self)
           (queue_id \<mapsto> update_queue_data max_queue_size current_queue_depth num_discards delay_microseconds data)\<rparr>)"

definition queue_metric :: "u16 \<Rightarrow> QueueData \<Rightarrow> R2RIQueueMetric" where
  "queue_metric queue_id data =
     \<lparr>qm_queue_id = queue_id, qm_queue_max_size = qd_max_queue_size data,
      qm_queue_current_depth_high_water = qd_queue_high_water_mark data,
      qm_num_discards_high_water = qd_num_discards_high_water_mark data,
      qm_avg_delay_microseconds =
        (if qd_num_samples data > 0 then qd_sum_delay_microseconds data div ucast (qd_num_samples data) else 0)\<rparr>"

text \<open>The loop over the map in the order \<open>order\<close> of its keys.\<close>

fun collect_queue_metrics :: "u16 list \<Rightarrow> (u16 \<rightharpoonup> QueueData) \<Rightarrow> R2RIQueueMetric list \<times> (u16 \<rightharpoonup> QueueData)" where
  "collect_queue_metrics [] datas = ([], datas)"
| "collect_queue_metrics (queue_id # order) datas =
     (case datas queue_id of
        None \<Rightarrow> collect_queue_metrics order datas
      | Some data \<Rightarrow>
          (let (metrics, datas') = collect_queue_metrics order (datas(queue_id \<mapsto> QueueData_reset data))
           in (queue_metric queue_id data # metrics, datas')))"

definition get_queue_metrics :: "u16 list \<Rightarrow> QueueMetricManager \<Rightarrow> R2RIQueueMetric list \<times> QueueMetricManager" where
  "get_queue_metrics order self =
     (let (metrics, datas) = collect_queue_metrics order (qm_queue_data_map self)
      in (metrics, self\<lparr>qm_queue_data_map := datas\<rparr>))"

definition add_queue_metric :: "u16 \<Rightarrow> u32 \<Rightarrow> QueueMetricManager \<Rightarrow> bool \<times> QueueMetricManager" where
  "add_queue_metric queue_id max_queue_size self =
     (if qm_queue_data_map self queue_id = None
      then (True, self\<lparr>qm_queue_data_map := (qm_queue_data_map self)(queue_id \<mapsto> QueueData_new max_queue_size)\<rparr>)
      else (False, self))"

definition remove_queue_metric :: "u16 \<Rightarrow> QueueMetricManager \<Rightarrow> bool \<times> QueueMetricManager" where
  "remove_queue_metric queue_id self =
     (qm_queue_data_map self queue_id \<noteq> None, self\<lparr>qm_queue_data_map := (qm_queue_data_map self)(queue_id := None)\<rparr>)"


section \<open>What a report shows\<close>

text \<open>One update of a queue: its size, depth, discards and delay.\<close>

record QueueSample =
  sa_max_size :: u32
  sa_depth :: u32
  sa_discards :: u32
  sa_delay :: u64

text \<open>A queue in the abstract: the size it had at the last report and the samples since then. The depth
  counts from the last sample that changed the size.\<close>

record QueueHistory =
  hi_size :: u32
  hi_samples :: "QueueSample list"

definition current_size :: "QueueHistory \<Rightarrow> u32" where
  "current_size h = (if hi_samples h = [] then hi_size h else sa_max_size (last (hi_samples h)))"

definition same_size_samples :: "QueueHistory \<Rightarrow> QueueSample list" where
  "same_size_samples h = rev (takeWhile (\<lambda>s. sa_max_size s = current_size h) (rev (hi_samples h)))"

definition maximum :: "u32 list \<Rightarrow> u32" where
  "maximum xs = fold max xs 0"

definition history_data :: "QueueHistory \<Rightarrow> QueueData" where
  "history_data h =
     \<lparr>qd_max_queue_size = current_size h,
      qd_queue_high_water_mark = maximum (map sa_depth (same_size_samples h)),
      qd_num_samples = word_of_nat (length (hi_samples h)),
      qd_num_discards_high_water_mark = maximum (map sa_discards (hi_samples h)),
      qd_sum_delay_microseconds = sum_list (map sa_delay (hi_samples h))\<rparr>"

text \<open>The calls of the manager, with the order of a report.\<close>

datatype QueueOp = QueueUpdate u16 QueueSample | QueueGet "u16 list" | QueueAdd u16 u32 | QueueRemove u16

fun queue_op :: "QueueOp \<Rightarrow> QueueMetricManager \<Rightarrow> QueueMetricManager" where
  "queue_op (QueueUpdate q s) m = update_queue_metric q (sa_max_size s) (sa_depth s) (sa_discards s) (sa_delay s) m"
| "queue_op (QueueGet order) m = snd (get_queue_metrics order m)"
| "queue_op (QueueAdd q n) m = snd (add_queue_metric q n m)"
| "queue_op (QueueRemove q) m = snd (remove_queue_metric q m)"

text \<open>The abstract queues.\<close>

fun history_op :: "QueueOp \<Rightarrow> (u16 \<rightharpoonup> QueueHistory) \<Rightarrow> (u16 \<rightharpoonup> QueueHistory)" where
  "history_op (QueueUpdate q s) hs =
     (let h = unwrap_or (hs q) \<lparr>hi_size = 0, hi_samples = []\<rparr> in hs(q \<mapsto> h\<lparr>hi_samples := hi_samples h @ [s]\<rparr>))"
| "history_op (QueueGet order) hs = (\<lambda>q. map_option (\<lambda>h. \<lparr>hi_size = current_size h, hi_samples = []\<rparr>) (hs q))"
| "history_op (QueueAdd q n) hs = (if hs q = None then hs(q \<mapsto> \<lparr>hi_size = n, hi_samples = []\<rparr>) else hs)"
| "history_op (QueueRemove q) hs = hs(q := None)"

text \<open>A walk of the map visits every key once.\<close>

fun order_ok :: "QueueOp \<Rightarrow> (u16 \<rightharpoonup> QueueHistory) \<Rightarrow> bool" where
  "order_ok (QueueGet order) hs \<longleftrightarrow> distinct order \<and> (\<forall>q. q \<in> set order \<longleftrightarrow> hs q \<noteq> None)"
| "order_ok _ hs \<longleftrightarrow> True"

fun orders_ok :: "QueueOp list \<Rightarrow> (u16 \<rightharpoonup> QueueHistory) \<Rightarrow> bool" where
  "orders_ok [] hs \<longleftrightarrow> True"
| "orders_ok (op # ops) hs \<longleftrightarrow> order_ok op hs \<and> orders_ok ops (history_op op hs)"

lemma fold_max_append: "maximum (xs @ [x]) = max (maximum xs) x"
  by (simp add: maximum_def max.commute)

lemma same_size_snoc:
  "same_size_samples (h\<lparr>hi_samples := hi_samples h @ [s]\<rparr>) =
    (if hi_samples h \<noteq> [] \<and> current_size h = sa_max_size s then same_size_samples h @ [s] else [s])"
proof (cases "hi_samples h = []")
  case True
  then show ?thesis by (simp add: same_size_samples_def current_size_def)
next
  case False
  then obtain xs x where x: "hi_samples h = xs @ [x]" by (metis rev_exhaust)
  show ?thesis by (simp add: same_size_samples_def current_size_def x)
qed

lemma update_history:
  "update_queue_data (sa_max_size s) (sa_depth s) (sa_discards s) (sa_delay s) (history_data h)
    = history_data (h\<lparr>hi_samples := hi_samples h @ [s]\<rparr>)"
proof -
  have depth: "(if current_size h \<noteq> sa_max_size s then max 0 (sa_depth s)
      else max (maximum (map sa_depth (same_size_samples h))) (sa_depth s)) =
      maximum (map sa_depth (same_size_samples (h\<lparr>hi_samples := hi_samples h @ [s]\<rparr>)))"
    unfolding same_size_snoc
    by (auto simp: fold_max_append) (simp_all add: maximum_def same_size_samples_def)
  have m: "max a b = (if a < b then b else a)" for a b :: u32 by (auto simp: max_def)
  have cs: "current_size (h\<lparr>hi_samples := hi_samples h @ [s]\<rparr>) = sa_max_size s" by (simp add: current_size_def)
  show ?thesis
    by (rule QueueData.equality)
       (simp_all add: update_queue_data_def Let_def history_data_def cs depth [symmetric] fold_max_append m)
qed

lemma reset_history: "QueueData_reset (history_data h) = history_data \<lparr>hi_size = current_size h, hi_samples = []\<rparr>"
  by (simp add: QueueData_reset_def history_data_def current_size_def same_size_samples_def maximum_def)

lemma new_history: "history_data \<lparr>hi_size = n, hi_samples = []\<rparr> = QueueData_new n"
  by (simp add: QueueData_new_def history_data_def current_size_def same_size_samples_def maximum_def)

lemma collect_queue_metrics_spec:
  assumes "distinct order" "\<forall>q \<in> set order. datas q \<noteq> None"
  shows "collect_queue_metrics order datas =
    (map (\<lambda>q. queue_metric q (the (datas q))) order,
     \<lambda>q. if q \<in> set order then map_option QueueData_reset (datas q) else datas q)"
  using assms
proof (induction order arbitrary: datas)
  case (Cons q order)
  obtain d where d: "datas q = Some d" using Cons.prems(2) by auto
  have "\<forall>x \<in> set order. (datas(q \<mapsto> QueueData_reset d)) x \<noteq> None" using Cons.prems by auto
  then have rest: "collect_queue_metrics order (datas(q \<mapsto> QueueData_reset d)) =
     (map (\<lambda>x. queue_metric x (the ((datas(q \<mapsto> QueueData_reset d)) x))) order,
      \<lambda>x. if x \<in> set order then map_option QueueData_reset ((datas(q \<mapsto> QueueData_reset d)) x)
          else (datas(q \<mapsto> QueueData_reset d)) x)"
    using Cons.prems(1) by (intro Cons.IH) simp_all
  have same: "map (\<lambda>x. queue_metric x (the ((datas(q \<mapsto> QueueData_reset d)) x))) order =
    map (\<lambda>x. queue_metric x (the (datas x))) order"
    using Cons.prems(1) by (intro map_cong) auto
  show ?case unfolding collect_queue_metrics.simps d option.case rest same
    using Cons.prems(1) d by (auto simp: fun_eq_iff)
qed simp

definition queues_rel :: "QueueMetricManager \<Rightarrow> (u16 \<rightharpoonup> QueueHistory) \<Rightarrow> bool" where
  "queues_rel m hs \<longleftrightarrow> qm_queue_data_map m = map_option history_data \<circ> hs"

lemma queue_op_refines:
  assumes rel: "queues_rel m hs" and ok: "order_ok op hs"
  shows "queues_rel (queue_op op m) (history_op op hs)"
proof (cases op)
  case (QueueUpdate q s)
  have "unwrap_or (qm_queue_data_map m q) (QueueData_new 0) = history_data (unwrap_or (hs q) \<lparr>hi_size = 0, hi_samples = []\<rparr>)"
    using rel by (cases "hs q") (simp_all add: queues_rel_def new_history)
  then show ?thesis using rel QueueUpdate
    by (auto simp: queues_rel_def update_queue_metric_def Let_def update_history fun_eq_iff)
next
  case (QueueGet order)
  have c: "collect_queue_metrics order (qm_queue_data_map m) =
    (map (\<lambda>q. queue_metric q (the (qm_queue_data_map m q))) order,
     \<lambda>q. if q \<in> set order then map_option QueueData_reset (qm_queue_data_map m q) else qm_queue_data_map m q)"
    using ok rel QueueGet by (intro collect_queue_metrics_spec) (auto simp: queues_rel_def)
  show ?thesis
    using ok rel QueueGet
    by (auto simp: queues_rel_def get_queue_metrics_def c fun_eq_iff reset_history option.map_comp comp_def)
next
  case (QueueAdd q n)
  then show ?thesis using rel by (auto simp: queues_rel_def add_queue_metric_def new_history fun_eq_iff)
next
  case (QueueRemove q)
  then show ?thesis using rel by (auto simp: queues_rel_def remove_queue_metric_def fun_eq_iff)
qed

lemma queue_ops_refine:
  assumes "queues_rel m hs" "orders_ok ops hs"
  shows "queues_rel (fold queue_op ops m) (fold history_op ops hs)"
  using assms by (induction ops arbitrary: m hs) (simp_all add: queue_op_refines)

text \<open>C17: Queue metrics are exact. After any sequence of updates, additions, removals and reports, a report
  lists every queue exactly once, in the order of the walk, with the size of its last update, the largest
  depth seen since that size, the largest number of discards and the average of the delays (sums in 64 bits,
  counts in 32 bits) of the updates since the report before it.\<close>

theorem queue_metrics_exact:
  assumes "orders_ok (ops @ [QueueGet order]) Map.empty"
  shows "fst (get_queue_metrics order (fold queue_op ops (QueueMetricManager_new nem))) =
    map (\<lambda>q. let h = the (fold history_op ops Map.empty q)
              in \<lparr>qm_queue_id = q, qm_queue_max_size = current_size h,
                  qm_queue_current_depth_high_water = maximum (map sa_depth (same_size_samples h)),
                  qm_num_discards_high_water = maximum (map sa_discards (hi_samples h)),
                  qm_avg_delay_microseconds =
                    (if (word_of_nat (length (hi_samples h)) :: u32) > 0
                     then sum_list (map sa_delay (hi_samples h)) div ucast (word_of_nat (length (hi_samples h)) :: u32)
                     else 0)\<rparr>) order"
proof -
  have split: "orders_ok (xs @ ys) hs \<longleftrightarrow> orders_ok xs hs \<and> orders_ok ys (fold history_op xs hs)" for xs ys hs
    by (induction xs arbitrary: hs) simp_all
  let ?m = "fold queue_op ops (QueueMetricManager_new nem)" and ?hs = "fold history_op ops Map.empty"
  have rel: "queues_rel ?m ?hs"
    using assms by (intro queue_ops_refine) (simp_all add: split queues_rel_def QueueMetricManager_new_def comp_def)
  have ok: "distinct order" "\<forall>q. q \<in> set order \<longleftrightarrow> ?hs q \<noteq> None" using assms by (simp_all add: split)
  have all: "\<forall>q \<in> set order. qm_queue_data_map ?m q \<noteq> None" using rel ok(2) by (auto simp: queues_rel_def)
  have "fst (get_queue_metrics order ?m) = map (\<lambda>q. queue_metric q (the (qm_queue_data_map ?m q))) order"
    by (simp add: get_queue_metrics_def collect_queue_metrics_spec [OF ok(1) all])
  moreover have "the (qm_queue_data_map ?m q) = history_data (the (?hs q))" if "q \<in> set order" for q
    using rel ok(2) that by (auto simp: queues_rel_def)
  ultimately show ?thesis by (auto simp: queue_metric_def history_data_def Let_def)
qed

definition witness_queue_ops :: "QueueOp list" where
  "witness_queue_ops =
     [QueueAdd 0 10, QueueUpdate 0 \<lparr>sa_max_size = 10, sa_depth = 7, sa_discards = 1, sa_delay = 100\<rparr>, QueueGet [0],
      QueueUpdate 0 \<lparr>sa_max_size = 10, sa_depth = 9, sa_discards = 3, sa_delay = 100\<rparr>,
      QueueUpdate 0 \<lparr>sa_max_size = 20, sa_depth = 4, sa_discards = 2, sa_delay = 300\<rparr>]"

lemma witness_queue_orders: "orders_ok (witness_queue_ops @ [QueueGet [0]]) Map.empty"
  by (auto simp: witness_queue_ops_def Let_def)

theorem queue_metrics_exact_witness:
  "fst (get_queue_metrics [0] (fold queue_op witness_queue_ops (QueueMetricManager_new 1))) =
     [\<lparr>qm_queue_id = 0, qm_queue_max_size = 20, qm_queue_current_depth_high_water = 4,
       qm_num_discards_high_water = 3, qm_avg_delay_microseconds = 200\<rparr>]"
  unfolding queue_metrics_exact [OF witness_queue_orders]
  by (simp add: witness_queue_ops_def Let_def current_size_def same_size_samples_def maximum_def)

end
