(* ===== verification/Neighbor_Metrics.thy ===== *)
theory Neighbor_Metrics
  imports Ieee_F32
begin

text \<open>
  The neighbor metrics of a radio (\<^verbatim>\<open>rust/emane-core/src/neighbor_metric_manager.rs\<close>):
  frames, missed frames, utilization, signal statistics and data rates of every neighbor, in a table for
  reports to a router and in a table of pairs of interval and long-term data. A \<open>Duration\<close> is its number
  of nanoseconds. Integers wrap as in an optimised build. The order of the walk over a hash map, which the
  language leaves open, is a parameter of the report. A null manager is \<open>None\<close>; a panic is \<open>None\<close> too.
\<close>

section \<open>Durations and square roots\<close>

type_synonym Duration = nat

definition DURATION_LIMIT :: int where "DURATION_LIMIT = 2 ^ 64"

text \<open>The constructor from seconds rounds to the nearest nanosecond, ties to even, and panics on negative
  and on too large or undefined values.\<close>

definition from_secs_f64 :: "f64 \<Rightarrow> Duration option" where
  "from_secs_f64 secs =
     (if f64_is_nan secs \<or> f64_is_inf secs \<or> f64_significand secs < 0 then None
      else let (num, den) = pow2_frac (f64_significand secs) 1 (1074 - f64_shift secs)
           in if num \<ge> DURATION_LIMIT * den then None
              else Some (nat (round_half_even (num * 1000000000) den)))"

definition as_secs_f64 :: "Duration \<Rightarrow> f64" where
  "as_secs_f64 d = f64_add (f64_of_int (int (d div 1000000000)))
     (f64_div (f64_of_int (int (d mod 1000000000))) (f64_of_int 1000000000))"

definition as_micros_u64 :: "Duration \<Rightarrow> u64" where
  "as_micros_u64 d = word_of_nat (d div 1000)"

function isqrt :: "int \<Rightarrow> int" where
  "isqrt n = (if n < 1 then 0 else let r = 2 * isqrt (n div 4) in if (r + 1) * (r + 1) \<le> n then r + 1 else r)"
  by pat_completeness auto
termination by (relation "measure nat") auto

declare isqrt.simps [simp del]

text \<open>The square root of a positive value: the integer root of the value scaled by an even power of two,
  with a last bit for a remainder, rounded once.\<close>

definition f64_sqrt :: "f64 \<Rightarrow> f64" where
  "f64_sqrt a =
     (if f64_is_nan a then f64_nan
      else if f64_is_zero a then a
      else if f64_sign a then f64_nan
      else if f64_is_inf a then a
      else let e = f64_shift a - 1074;
               half = (e - 110) div 2;
               scaled = f64_significand a * 2 ^ nat (e - 2 * half);
               r = isqrt scaled
           in f64_of_fraction False (2 * r + (if r * r < scaled then 1 else 0)) 1 (half - 1))"

definition f32_of_f64 :: "f64 \<Rightarrow> f32" where
  "f32_of_f64 w =
     (if f64_is_nan w then f32_nan
      else if f64_is_inf w then f32_inf (f64_sign w)
      else f32_of_fraction (f64_sign w) (f64_significand w) 1 (f64_shift w - 1074))"


section \<open>The data of a neighbor\<close>

record R2RINeighborMetric =
  nm_neighbor_id :: u16
  nm_num_rx_frames :: u64
  nm_num_tx_frames :: u64
  nm_num_rx_missed_frames :: u64
  nm_rx_utilization_microseconds :: u64
  nm_sinr_avg :: f32
  nm_sinr_std :: f32
  nm_noise_floor_avg :: f32
  nm_noise_floor_stdv :: f32
  nm_rx_data_rate_avg :: u64
  nm_tx_data_rate_avg :: u64

record NeighborMetricStatus =
  ns_neighbor_id :: u16
  ns_num_rx_frames :: u64
  ns_num_tx_frames :: u64
  ns_num_rx_missed_frames :: u64
  ns_rx_utilization_microseconds :: u64
  ns_last_rx_time_seconds :: f64
  ns_last_tx_time_seconds :: f64
  ns_sinr_avg :: f64
  ns_sinr_std :: f64
  ns_noise_floor_avg :: f64
  ns_noise_floor_stdv :: f64
  ns_rx_data_rate_avg :: u64
  ns_tx_data_rate_avg :: u64

record NeighborStatusSnapshot =
  sn_neighbor_id :: u16
  sn_num_rx_frames :: u64
  sn_num_tx_frames :: u64
  sn_num_rx_missed_frames :: u64
  sn_bandwidth_utilization_ratio :: f64
  sn_sinr_avg :: f64
  sn_noise_floor_avg :: f64
  sn_rx_age_seconds :: f64

record NeighborData =
  nd_nem_id :: u16
  nd_last_rx_seq_num :: u64
  nd_have_ever_had_rx_activity :: bool
  nd_last_rx_time :: Duration
  nd_last_tx_time :: Duration
  nd_num_rx_frames :: u64
  nd_num_rx_missed_frames :: u64
  nd_num_tx_frames :: u64
  nd_rx_utilization_microseconds :: u64
  nd_sinr_sum :: f64
  nd_sinr_sum2 :: f64
  nd_noise_floor_sum :: f64
  nd_noise_floor_sum2 :: f64
  nd_rx_data_rate_min :: u64
  nd_rx_data_rate_max :: u64
  nd_rx_data_rate_avg :: u64
  nd_tx_data_rate_min :: u64
  nd_tx_data_rate_max :: u64
  nd_tx_data_rate_avg :: u64
  nd_uuid :: "u8 list"

definition NeighborData_new :: "u16 \<Rightarrow> NeighborData" where
  "NeighborData_new nem_id =
     \<lparr>nd_nem_id = nem_id, nd_last_rx_seq_num = 0, nd_have_ever_had_rx_activity = False, nd_last_rx_time = 0,
      nd_last_tx_time = 0, nd_num_rx_frames = 0, nd_num_rx_missed_frames = 0, nd_num_tx_frames = 0,
      nd_rx_utilization_microseconds = 0, nd_sinr_sum = 0, nd_sinr_sum2 = 0, nd_noise_floor_sum = 0,
      nd_noise_floor_sum2 = 0, nd_rx_data_rate_min = 0, nd_rx_data_rate_max = 0, nd_rx_data_rate_avg = 0,
      nd_tx_data_rate_min = 0, nd_tx_data_rate_max = 0, nd_tx_data_rate_avg = 0, nd_uuid = replicate 16 0\<rparr>"

definition clear_data :: "NeighborData \<Rightarrow> NeighborData" where
  "clear_data self = self\<lparr>nd_num_rx_missed_frames := 0, nd_num_rx_frames := 0, nd_num_tx_frames := 0,
     nd_rx_utilization_microseconds := 0, nd_sinr_sum := 0, nd_sinr_sum2 := 0, nd_noise_floor_sum := 0,
     nd_noise_floor_sum2 := 0, nd_rx_data_rate_min := 0, nd_rx_data_rate_max := 0, nd_rx_data_rate_avg := 0,
     nd_tx_data_rate_min := 0, nd_tx_data_rate_max := 0, nd_tx_data_rate_avg := 0\<rparr>"

definition update_running_average :: "u64 \<Rightarrow> u64 \<Rightarrow> u64 \<Rightarrow> u64" where
  "update_running_average avg count val = (if count = 1 then val else (avg * (count - 1) + val) div count)"

definition update_min_max :: "u64 \<Rightarrow> u64 \<Rightarrow> u64 \<Rightarrow> u64 \<times> u64" where
  "update_min_max lo hi val =
     ((if lo > val \<or> lo = 0 then val else lo), (if hi < val \<or> hi = 0 then val else hi))"

text \<open>A count that wraps to zero divides by zero, which panics; a count reaches zero only after \<open>2 ^ 64\<close>
  frames, and the quotient of HOL stands for it there.\<close>

definition update_tx_activity_data :: "NeighborData \<Rightarrow> u64 \<Rightarrow> Duration \<Rightarrow> NeighborData" where
  "update_tx_activity_data data data_rate_bps tx_time =
     (let data = data\<lparr>nd_num_tx_frames := nd_num_tx_frames data + 1, nd_last_tx_time := tx_time\<rparr>;
          data = data\<lparr>nd_tx_data_rate_avg :=
                   update_running_average (nd_tx_data_rate_avg data) (nd_num_tx_frames data) data_rate_bps\<rparr>;
          (lo, hi) = update_min_max (nd_tx_data_rate_min data) (nd_tx_data_rate_max data) data_rate_bps
      in data\<lparr>nd_tx_data_rate_min := lo, nd_tx_data_rate_max := hi\<rparr>)"

definition update_rx_activity_data :: "NeighborData \<Rightarrow> u64 \<Rightarrow> u8 list \<Rightarrow> Duration \<Rightarrow> NeighborData" where
  "update_rx_activity_data data seq_num uuid rx_time =
     (let data = (if uuid = nd_uuid data
                  then if seq_num > nd_last_rx_seq_num data
                       then data\<lparr>nd_num_rx_missed_frames :=
                                   nd_num_rx_missed_frames data + (seq_num - nd_last_rx_seq_num data - 1),
                                 nd_last_rx_seq_num := seq_num\<rparr>
                       else if nd_num_rx_missed_frames data > 0
                       then data\<lparr>nd_num_rx_missed_frames := nd_num_rx_missed_frames data - 1\<rparr>
                       else data
                  else data\<lparr>nd_uuid := uuid, nd_last_rx_seq_num := seq_num\<rparr>)
      in data\<lparr>nd_num_rx_frames := nd_num_rx_frames data + 1, nd_last_rx_time := rx_time,
              nd_have_ever_had_rx_activity := True\<rparr>)"

definition update_rx_activity_channel_data ::
  "NeighborData \<Rightarrow> f64 \<Rightarrow> f64 \<Rightarrow> u64 \<Rightarrow> u64 \<Rightarrow> NeighborData" where
  "update_rx_activity_channel_data data sinr noise_floor duration_us data_rate_bps =
     (let data = data\<lparr>nd_rx_utilization_microseconds := nd_rx_utilization_microseconds data + duration_us,
                      nd_sinr_sum := f64_add (nd_sinr_sum data) sinr,
                      nd_sinr_sum2 := f64_add (nd_sinr_sum2 data) (f64_mul sinr sinr),
                      nd_noise_floor_sum := f64_add (nd_noise_floor_sum data) noise_floor,
                      nd_noise_floor_sum2 := f64_add (nd_noise_floor_sum2 data) (f64_mul noise_floor noise_floor)\<rparr>;
          (lo, hi) = update_min_max (nd_rx_data_rate_min data) (nd_rx_data_rate_max data) data_rate_bps;
          data = data\<lparr>nd_rx_data_rate_min := lo, nd_rx_data_rate_max := hi\<rparr>
      in data\<lparr>nd_rx_data_rate_avg :=
           update_running_average (nd_rx_data_rate_avg data) (nd_num_rx_frames data) data_rate_bps\<rparr>)"

definition get_avg_and_std :: "f64 \<Rightarrow> f64 \<Rightarrow> u64 \<Rightarrow> f64 \<times> f64" where
  "get_avg_and_std s s2 count =
     (if count = 0 then (0, 0)
      else let n = f64_of_int (uint count);
               avg = f64_div s n;
               delta = f64_sub s2 (f64_div (f64_mul s s) n)
           in (avg, if count > 1 \<and> f64_lt 0 delta
                    then f64_sqrt (f64_div delta (f64_sub n (f64_of_int 1))) else 0))"


section \<open>The manager\<close>

record NeighborMetricManager =
  nmm_nem_id :: u16
  nmm_r2ri_metric_table :: "u16 \<rightharpoonup> NeighborData"
  nmm_neighbor_data_table :: "u16 \<rightharpoonup> NeighborData \<times> NeighborData"
  nmm_neighbor_delete_age_microseconds :: Duration
  nmm_last_neighbor_status_update_time :: Duration

definition NeighborMetricManager_new :: "u16 \<Rightarrow> NeighborMetricManager" where
  "NeighborMetricManager_new nem_id =
     \<lparr>nmm_nem_id = nem_id, nmm_r2ri_metric_table = Map.empty, nmm_neighbor_data_table = Map.empty,
      nmm_neighbor_delete_age_microseconds = 60 * 1000000000, nmm_last_neighbor_status_update_time = 0\<rparr>"

definition set_neighbor_delete_time_microseconds :: "Duration \<Rightarrow> NeighborMetricManager \<Rightarrow> NeighborMetricManager" where
  "set_neighbor_delete_time_microseconds age self = self\<lparr>nmm_neighbor_delete_age_microseconds := age\<rparr>"

text \<open>The two lookups insert the default data; the modelled operations write the updated data back.\<close>

definition lookup_r2ri_metric :: "NeighborMetricManager \<Rightarrow> u16 \<Rightarrow> NeighborData" where
  "lookup_r2ri_metric self nem_id = unwrap_or (nmm_r2ri_metric_table self nem_id) (NeighborData_new nem_id)"

definition lookup_neighbor_data :: "NeighborMetricManager \<Rightarrow> u16 \<Rightarrow> NeighborData \<times> NeighborData" where
  "lookup_neighbor_data self nem_id =
     unwrap_or (nmm_neighbor_data_table self nem_id) (NeighborData_new nem_id, NeighborData_new nem_id)"

definition handle_r2ri_tx_activity :: "u16 \<Rightarrow> u64 \<Rightarrow> Duration \<Rightarrow> NeighborMetricManager \<Rightarrow> NeighborMetricManager" where
  "handle_r2ri_tx_activity dst data_rate_bps tx_time self =
     self\<lparr>nmm_r2ri_metric_table := (nmm_r2ri_metric_table self)
       (dst \<mapsto> update_tx_activity_data (lookup_r2ri_metric self dst) data_rate_bps tx_time)\<rparr>"

definition handle_neighbor_tx_activity :: "u16 \<Rightarrow> u64 \<Rightarrow> Duration \<Rightarrow> NeighborMetricManager \<Rightarrow> NeighborMetricManager" where
  "handle_neighbor_tx_activity dst data_rate_bps tx_time self =
     (let (interval, long_term) = lookup_neighbor_data self dst
      in self\<lparr>nmm_neighbor_data_table := (nmm_neighbor_data_table self)
           (dst \<mapsto> (update_tx_activity_data interval data_rate_bps tx_time,
                    update_tx_activity_data long_term data_rate_bps tx_time))\<rparr>)"

definition handle_tx_activity :: "u16 \<Rightarrow> u64 \<Rightarrow> Duration \<Rightarrow> NeighborMetricManager \<Rightarrow> NeighborMetricManager" where
  "handle_tx_activity dst data_rate_bps tx_time self =
     handle_neighbor_tx_activity dst data_rate_bps tx_time
       (if dst \<noteq> 0xFFFF then handle_r2ri_tx_activity dst data_rate_bps tx_time self else self)"

text \<open>A received frame: the arguments of \<open>handle_rx_activity\<close> after the source.\<close>

record RxActivity =
  ra_seq_num :: u64
  ra_uuid :: "u8 list"
  ra_sinr :: f64
  ra_noise_floor :: f64
  ra_rx_time :: Duration
  ra_duration :: Duration
  ra_data_rate_bps :: u64

definition rx_update :: "RxActivity \<Rightarrow> NeighborData \<Rightarrow> NeighborData" where
  "rx_update rx data =
     update_rx_activity_channel_data (update_rx_activity_data data (ra_seq_num rx) (ra_uuid rx) (ra_rx_time rx))
       (ra_sinr rx) (ra_noise_floor rx) (as_micros_u64 (ra_duration rx)) (ra_data_rate_bps rx)"

definition handle_r2ri_rx_activity :: "u16 \<Rightarrow> RxActivity \<Rightarrow> NeighborMetricManager \<Rightarrow> NeighborMetricManager" where
  "handle_r2ri_rx_activity src rx self =
     self\<lparr>nmm_r2ri_metric_table := (nmm_r2ri_metric_table self)(src \<mapsto> rx_update rx (lookup_r2ri_metric self src))\<rparr>"

definition update_neighbor_rx_activity :: "u16 \<Rightarrow> RxActivity \<Rightarrow> NeighborMetricManager \<Rightarrow> NeighborMetricManager" where
  "update_neighbor_rx_activity src rx self =
     (let (interval, long_term) = lookup_neighbor_data self src
      in self\<lparr>nmm_neighbor_data_table := (nmm_neighbor_data_table self)
           (src \<mapsto> (rx_update rx interval, rx_update rx long_term))\<rparr>)"

definition handle_rx_activity :: "u16 \<Rightarrow> RxActivity \<Rightarrow> NeighborMetricManager \<Rightarrow> NeighborMetricManager" where
  "handle_rx_activity src rx self = update_neighbor_rx_activity src rx (handle_r2ri_rx_activity src rx self)"

definition r2ri_metric :: "u16 \<Rightarrow> NeighborData \<Rightarrow> R2RINeighborMetric" where
  "r2ri_metric nem_id data =
     (let (sinr_avg, sinr_std) = get_avg_and_std (nd_sinr_sum data) (nd_sinr_sum2 data) (nd_num_rx_frames data);
          (nf_avg, nf_std) = get_avg_and_std (nd_noise_floor_sum data) (nd_noise_floor_sum2 data) (nd_num_rx_frames data)
      in \<lparr>nm_neighbor_id = nem_id, nm_num_rx_frames = nd_num_rx_frames data, nm_num_tx_frames = nd_num_tx_frames data,
          nm_num_rx_missed_frames = nd_num_rx_missed_frames data,
          nm_rx_utilization_microseconds = nd_rx_utilization_microseconds data,
          nm_sinr_avg = f32_of_f64 sinr_avg, nm_sinr_std = f32_of_f64 sinr_std,
          nm_noise_floor_avg = f32_of_f64 nf_avg, nm_noise_floor_stdv = f32_of_f64 nf_std,
          nm_rx_data_rate_avg = nd_rx_data_rate_avg data, nm_tx_data_rate_avg = nd_tx_data_rate_avg data\<rparr>)"

text \<open>The walk over a table: entries that are too old are collected for removal, the others are reported and
  replaced. The removal follows the walk.\<close>

fun walk_table ::
  "u16 list \<Rightarrow> ('d \<Rightarrow> bool) \<Rightarrow> (u16 \<Rightarrow> 'd \<Rightarrow> 'm) \<Rightarrow> ('d \<Rightarrow> 'd) \<Rightarrow> (u16 \<rightharpoonup> 'd) \<Rightarrow> 'm list \<times> u16 list \<times> (u16 \<rightharpoonup> 'd)" where
  "walk_table [] old report clear table = ([], [], table)"
| "walk_table (nem_id # order) old report clear table =
     (case table nem_id of
        None \<Rightarrow> walk_table order old report clear table
      | Some data \<Rightarrow>
          if old data
          then (let (metrics, to_remove, table') = walk_table order old report clear table
                in (metrics, nem_id # to_remove, table'))
          else (let (metrics, to_remove, table') = walk_table order old report clear (table(nem_id \<mapsto> clear data))
                in (report nem_id data # metrics, to_remove, table')))"

definition remove_all :: "u16 list \<Rightarrow> (u16 \<rightharpoonup> 'd) \<Rightarrow> (u16 \<rightharpoonup> 'd)" where
  "remove_all to_remove table = fold (\<lambda>nem_id t. t(nem_id := None)) to_remove table"

definition get_neighbor_metrics ::
  "u16 list \<Rightarrow> Duration \<Rightarrow> NeighborMetricManager \<Rightarrow> R2RINeighborMetric list \<times> NeighborMetricManager" where
  "get_neighbor_metrics order current_time self =
     (let (metrics, to_remove, table) =
        walk_table order (\<lambda>data. current_time - nd_last_rx_time data > nmm_neighbor_delete_age_microseconds self)
          r2ri_metric clear_data (nmm_r2ri_metric_table self)
      in (metrics, self\<lparr>nmm_r2ri_metric_table := remove_all to_remove table\<rparr>))"

definition metric_status :: "u16 \<Rightarrow> NeighborData \<Rightarrow> NeighborMetricStatus" where
  "metric_status nem_id data =
     (let (sinr_avg, sinr_std) = get_avg_and_std (nd_sinr_sum data) (nd_sinr_sum2 data) (nd_num_rx_frames data);
          (nf_avg, nf_std) = get_avg_and_std (nd_noise_floor_sum data) (nd_noise_floor_sum2 data) (nd_num_rx_frames data)
      in \<lparr>ns_neighbor_id = nem_id, ns_num_rx_frames = nd_num_rx_frames data, ns_num_tx_frames = nd_num_tx_frames data,
          ns_num_rx_missed_frames = nd_num_rx_missed_frames data,
          ns_rx_utilization_microseconds = nd_rx_utilization_microseconds data,
          ns_last_rx_time_seconds = as_secs_f64 (nd_last_rx_time data),
          ns_last_tx_time_seconds = as_secs_f64 (nd_last_tx_time data),
          ns_sinr_avg = sinr_avg, ns_sinr_std = sinr_std, ns_noise_floor_avg = nf_avg, ns_noise_floor_stdv = nf_std,
          ns_rx_data_rate_avg = nd_rx_data_rate_avg data, ns_tx_data_rate_avg = nd_tx_data_rate_avg data\<rparr>)"

definition get_neighbor_metric_status :: "u16 \<Rightarrow> NeighborMetricManager \<Rightarrow> NeighborMetricStatus option" where
  "get_neighbor_metric_status nem_id self =
     map_option (\<lambda>pair. metric_status nem_id (snd pair)) (nmm_neighbor_data_table self nem_id)"

definition neighbor_snapshot :: "Duration \<Rightarrow> Duration \<Rightarrow> u16 \<Rightarrow> NeighborData \<Rightarrow> NeighborStatusSnapshot" where
  "neighbor_snapshot current_time last_update neighbor_id interval =
     (let elapsed_seconds = as_secs_f64 (current_time - last_update);
          n = nd_num_rx_frames interval
      in \<lparr>sn_neighbor_id = neighbor_id, sn_num_rx_frames = n, sn_num_tx_frames = nd_num_tx_frames interval,
          sn_num_rx_missed_frames = nd_num_rx_missed_frames interval,
          sn_bandwidth_utilization_ratio =
            (if last_update = 0 \<or> f64_is_zero elapsed_seconds then 0
             else f64_div (f64_div (f64_of_int (uint (nd_rx_utilization_microseconds interval))) F64_1E6) elapsed_seconds),
          sn_sinr_avg = (if n = 0 then 0 else f64_div (nd_sinr_sum interval) (f64_of_int (uint n))),
          sn_noise_floor_avg = (if n = 0 then 0 else f64_div (nd_noise_floor_sum interval) (f64_of_int (uint n))),
          sn_rx_age_seconds = (if nd_have_ever_had_rx_activity interval
                               then as_secs_f64 (current_time - nd_last_rx_time interval) else 0)\<rparr>)"

definition clear_interval :: "NeighborData \<times> NeighborData \<Rightarrow> NeighborData \<times> NeighborData" where
  "clear_interval pair = (clear_data (fst pair), snd pair)"

definition get_neighbor_statuses ::
  "u16 list \<Rightarrow> Duration \<Rightarrow> NeighborMetricManager \<Rightarrow> NeighborStatusSnapshot list \<times> NeighborMetricManager" where
  "get_neighbor_statuses order current_time self =
     (let (statuses, _, table) =
        walk_table order (\<lambda>_. False)
          (\<lambda>nem_id pair. neighbor_snapshot current_time (nmm_last_neighbor_status_update_time self) nem_id (fst pair))
          clear_interval (nmm_neighbor_data_table self)
      in (statuses, self\<lparr>nmm_neighbor_data_table := table, nmm_last_neighbor_status_update_time := current_time\<rparr>))"

section \<open>The foreign interface\<close>

definition emane_rs_neighbor_metric_manager_set_delete_time ::
  "NeighborMetricManager option \<Rightarrow> u64 \<Rightarrow> NeighborMetricManager option" where
  "emane_rs_neighbor_metric_manager_set_delete_time ptr age_usec =
     map_option (set_neighbor_delete_time_microseconds (unat age_usec * 1000)) ptr"

definition emane_rs_neighbor_metric_manager_update_tx ::
  "NeighborMetricManager option \<Rightarrow> u16 \<Rightarrow> u64 \<Rightarrow> f64 \<Rightarrow> NeighborMetricManager option option" where
  "emane_rs_neighbor_metric_manager_update_tx ptr dst data_rate_bps tx_time_sec =
     (case ptr of
        None \<Rightarrow> Some None
      | Some m \<Rightarrow> map_option (\<lambda>tx_time. Some (handle_tx_activity dst data_rate_bps tx_time m)) (from_secs_f64 tx_time_sec))"

text \<open>The sixteen bytes behind the \<open>uuid\<close> pointer are a list of that length.\<close>

definition emane_rs_neighbor_metric_manager_update_rx_long ::
  "NeighborMetricManager option \<Rightarrow> u16 \<Rightarrow> u64 \<Rightarrow> u8 list \<Rightarrow> f64 \<Rightarrow> f64 \<Rightarrow> f64 \<Rightarrow> u64 \<Rightarrow> u64 \<Rightarrow>
   NeighborMetricManager option option" where
  "emane_rs_neighbor_metric_manager_update_rx_long ptr src seq_num uuid sinr noise_floor rx_time_sec duration_usec data_rate_bps =
     (case ptr of
        None \<Rightarrow> Some None
      | Some m \<Rightarrow> map_option
          (\<lambda>rx_time. Some (handle_rx_activity src
             \<lparr>ra_seq_num = seq_num, ra_uuid = uuid, ra_sinr = sinr, ra_noise_floor = noise_floor, ra_rx_time = rx_time,
              ra_duration = unat duration_usec * 1000, ra_data_rate_bps = data_rate_bps\<rparr> m))
          (from_secs_f64 rx_time_sec))"

definition emane_rs_neighbor_metric_manager_update_rx_short ::
  "NeighborMetricManager option \<Rightarrow> u16 \<Rightarrow> u64 \<Rightarrow> u8 list \<Rightarrow> f64 \<Rightarrow> NeighborMetricManager option option" where
  "emane_rs_neighbor_metric_manager_update_rx_short ptr src seq_num uuid rx_time_sec =
     (case ptr of
        None \<Rightarrow> Some None
      | Some m \<Rightarrow> map_option
          (\<lambda>rx_time. Some (handle_rx_activity src
             \<lparr>ra_seq_num = seq_num, ra_uuid = uuid, ra_sinr = 0, ra_noise_floor = 0, ra_rx_time = rx_time,
              ra_duration = 0, ra_data_rate_bps = 0\<rparr> m))
          (from_secs_f64 rx_time_sec))"

text \<open>The metrics of the report, copied field by field into a structure of the same fields.\<close>

definition emane_rs_neighbor_metric_manager_get_metrics ::
  "u16 list \<Rightarrow> NeighborMetricManager option \<Rightarrow> f64 \<Rightarrow>
   (R2RINeighborMetric list \<times> NeighborMetricManager option) option" where
  "emane_rs_neighbor_metric_manager_get_metrics order ptr current_time_sec =
     (case ptr of
        None \<Rightarrow> Some ([], None)
      | Some m \<Rightarrow> map_option
          (\<lambda>current_time. let (metrics, m') = get_neighbor_metrics order current_time m in (metrics, Some m'))
          (from_secs_f64 current_time_sec))"

record FfiNeighborData =
  fn_nem_id :: u16
  fn_num_rx_frames :: u64
  fn_num_tx_frames :: u64
  fn_num_rx_missed_frames :: u64
  fn_rx_utilization_microseconds :: u64
  fn_sinr_avg :: f64
  fn_sinr_std :: f64
  fn_noise_floor_avg :: f64
  fn_noise_floor_stdv :: f64
  fn_rx_data_rate_avg :: u64
  fn_tx_data_rate_avg :: u64
  fn_last_rx_time_sec :: f64
  fn_have_ever_had_rx_activity :: bool

definition ffi_neighbor_data :: "u16 \<Rightarrow> NeighborData \<Rightarrow> FfiNeighborData" where
  "ffi_neighbor_data nem_id data =
     (let (sinr_avg, sinr_std) = get_avg_and_std (nd_sinr_sum data) (nd_sinr_sum2 data) (nd_num_rx_frames data);
          (nf_avg, nf_std) = get_avg_and_std (nd_noise_floor_sum data) (nd_noise_floor_sum2 data) (nd_num_rx_frames data)
      in \<lparr>fn_nem_id = nem_id, fn_num_rx_frames = nd_num_rx_frames data, fn_num_tx_frames = nd_num_tx_frames data,
          fn_num_rx_missed_frames = nd_num_rx_missed_frames data,
          fn_rx_utilization_microseconds = nd_rx_utilization_microseconds data,
          fn_sinr_avg = sinr_avg, fn_sinr_std = sinr_std, fn_noise_floor_avg = nf_avg, fn_noise_floor_stdv = nf_std,
          fn_rx_data_rate_avg = nd_rx_data_rate_avg data, fn_tx_data_rate_avg = nd_tx_data_rate_avg data,
          fn_last_rx_time_sec = as_secs_f64 (nd_last_rx_time data),
          fn_have_ever_had_rx_activity = nd_have_ever_had_rx_activity data\<rparr>)"

definition neighbor_status_report ::
  "u16 list \<Rightarrow> Duration \<Rightarrow> NeighborMetricManager \<Rightarrow> FfiNeighborData list \<times> NeighborMetricManager" where
  "neighbor_status_report order current_time m =
     (let (results, to_remove, table) =
        walk_table order (\<lambda>pair. current_time - nd_last_rx_time (fst pair) > nmm_neighbor_delete_age_microseconds m)
          (\<lambda>nem_id pair. ffi_neighbor_data nem_id (fst pair)) clear_interval (nmm_neighbor_data_table m)
      in (results, m\<lparr>nmm_neighbor_data_table := remove_all to_remove table\<rparr>))"

definition emane_rs_neighbor_metric_manager_get_status ::
  "u16 list \<Rightarrow> NeighborMetricManager option \<Rightarrow> f64 \<Rightarrow>
   (FfiNeighborData list \<times> NeighborMetricManager option) option" where
  "emane_rs_neighbor_metric_manager_get_status order ptr current_time_sec =
     (case ptr of
        None \<Rightarrow> Some ([], None)
      | Some m \<Rightarrow> map_option
          (\<lambda>current_time. let (results, m') = neighbor_status_report order current_time m in (results, Some m'))
          (from_secs_f64 current_time_sec))"


section \<open>Numbers\<close>

lemma isqrt_spec: "0 \<le> n \<Longrightarrow> 0 \<le> isqrt n \<and> isqrt n * isqrt n \<le> n \<and> n < (isqrt n + 1) * (isqrt n + 1)"
proof (induction n rule: isqrt.induct)
  case (1 n)
  show ?case
  proof (cases "n < 1")
    case True
    then show ?thesis using 1(2) by (subst (1 2 3 4 5) isqrt.simps) simp
  next
    case False
    define r where "r = isqrt (n div 4)"
    have ih: "0 \<le> r" "r * r \<le> n div 4" "n div 4 < (r + 1) * (r + 1)"
      using 1(1) [OF False] False unfolding r_def by simp_all
    have "4 * (r * r) \<le> n" "n < 4 * ((r + 1) * (r + 1))" using ih(2,3) by linarith+
    then have "2 * r * (2 * r) \<le> n" "n < (2 * r + 1 + 1) * (2 * r + 1 + 1)" by (simp_all add: algebra_simps)
    moreover have "isqrt n = (if (2 * r + 1) * (2 * r + 1) \<le> n then 2 * r + 1 else 2 * r)"
      using False by (subst isqrt.simps) (simp add: r_def Let_def)
    ultimately show ?thesis using ih(1) by auto
  qed
qed

section \<open>Histories\<close>

text \<open>The calls that read or write the tables, and what the two that report on the neighbors put out: snapshots
  of \<open>get_neighbor_statuses\<close> and rows of the foreign \<open>get_status\<close>. A walk visits every key of its table once.\<close>

datatype NeighborOp =
    NeighborTx u16 u64 Duration
  | NeighborRx u16 RxActivity
  | NeighborMetrics "u16 list" Duration
  | NeighborStatuses "u16 list" Duration
  | NeighborStatusReport "u16 list" Duration
  | NeighborDeleteAge Duration

datatype NeighborReport = ReportSnapshot NeighborStatusSnapshot | ReportRow FfiNeighborData

fun report_neighbor :: "NeighborReport \<Rightarrow> u16" where
  "report_neighbor (ReportSnapshot s) = sn_neighbor_id s"
| "report_neighbor (ReportRow r) = fn_nem_id r"

fun report_rx :: "NeighborReport \<Rightarrow> u64" where
  "report_rx (ReportSnapshot s) = sn_num_rx_frames s"
| "report_rx (ReportRow r) = fn_num_rx_frames r"

fun report_tx :: "NeighborReport \<Rightarrow> u64" where
  "report_tx (ReportSnapshot s) = sn_num_tx_frames s"
| "report_tx (ReportRow r) = fn_num_tx_frames r"

fun neighbor_op :: "NeighborOp \<Rightarrow> NeighborMetricManager \<Rightarrow> NeighborReport list \<times> NeighborMetricManager" where
  "neighbor_op (NeighborTx dst rate time) m = ([], handle_tx_activity dst rate time m)"
| "neighbor_op (NeighborRx src rx) m = ([], handle_rx_activity src rx m)"
| "neighbor_op (NeighborMetrics order time) m = ([], snd (get_neighbor_metrics order time m))"
| "neighbor_op (NeighborStatuses order time) m = map_prod (map ReportSnapshot) id (get_neighbor_statuses order time m)"
| "neighbor_op (NeighborStatusReport order time) m = map_prod (map ReportRow) id (neighbor_status_report order time m)"
| "neighbor_op (NeighborDeleteAge age) m = ([], set_neighbor_delete_time_microseconds age m)"

definition walk_ok :: "u16 list \<Rightarrow> (u16 \<rightharpoonup> 'd) \<Rightarrow> bool" where
  "walk_ok order table \<longleftrightarrow> distinct order \<and> set order = dom table"

fun op_walk_ok :: "NeighborOp \<Rightarrow> NeighborMetricManager \<Rightarrow> bool" where
  "op_walk_ok (NeighborMetrics order time) m \<longleftrightarrow> walk_ok order (nmm_r2ri_metric_table m)"
| "op_walk_ok (NeighborStatuses order time) m \<longleftrightarrow> walk_ok order (nmm_neighbor_data_table m)"
| "op_walk_ok (NeighborStatusReport order time) m \<longleftrightarrow> walk_ok order (nmm_neighbor_data_table m)"
| "op_walk_ok _ m \<longleftrightarrow> True"

fun neighbor_run :: "NeighborOp list \<Rightarrow> NeighborMetricManager \<Rightarrow> NeighborReport list \<times> NeighborMetricManager" where
  "neighbor_run [] m = ([], m)"
| "neighbor_run (op # ops) m =
     (let (reports, m') = neighbor_op op m; (reports', m'') = neighbor_run ops m' in (reports @ reports', m''))"

fun walks_ok :: "NeighborOp list \<Rightarrow> NeighborMetricManager \<Rightarrow> bool" where
  "walks_ok [] m \<longleftrightarrow> True"
| "walks_ok (op # ops) m \<longleftrightarrow> op_walk_ok op m \<and> walks_ok ops (snd (neighbor_op op m))"

text \<open>What the calls do to the data of one neighbor.\<close>

fun data_event :: "u16 \<Rightarrow> NeighborOp \<Rightarrow> (NeighborData \<Rightarrow> NeighborData) option" where
  "data_event nem (NeighborTx dst rate time) = (if dst = nem then Some (\<lambda>d. update_tx_activity_data d rate time) else None)"
| "data_event nem (NeighborRx src rx) = (if src = nem then Some (rx_update rx) else None)"
| "data_event nem _ = None"

text \<open>No call of a sequence takes the row of a neighbor away; only the foreign \<open>get_status\<close> does, when the neighbor
  was not heard for the delete age.\<close>

fun kept :: "u16 \<Rightarrow> NeighborOp list \<Rightarrow> NeighborMetricManager \<Rightarrow> bool" where
  "kept nem [] m \<longleftrightarrow> True"
| "kept nem (op # ops) m \<longleftrightarrow>
     (get_neighbor_metric_status nem m \<noteq> None \<longrightarrow> get_neighbor_metric_status nem (snd (neighbor_op op m)) \<noteq> None)
     \<and> kept nem ops (snd (neighbor_op op m))"

lemma walk_table_spec:
  assumes "distinct order"
  shows "walk_table order old report clear table =
    (map (\<lambda>q. report q (the (table q))) (filter (\<lambda>q. pred_option (\<lambda>d. \<not> old d) (table q) \<and> table q \<noteq> None) order),
     filter (\<lambda>q. pred_option old (table q) \<and> table q \<noteq> None) order,
     \<lambda>q. if q \<in> set order then map_option (\<lambda>d. if old d then d else clear d) (table q) else table q)"
  using assms
proof (induction order arbitrary: table)
  case (Cons q order)
  have same: "map (\<lambda>x. report x (the (t x))) (filter (\<lambda>x. pred_option (\<lambda>d. \<not> old d) (t x) \<and> t x \<noteq> None) order) =
      map (\<lambda>x. report x (the (table x))) (filter (\<lambda>x. pred_option (\<lambda>d. \<not> old d) (table x) \<and> table x \<noteq> None) order)"
    "filter (\<lambda>x. pred_option old (t x) \<and> t x \<noteq> None) order = filter (\<lambda>x. pred_option old (table x) \<and> table x \<noteq> None) order"
    if "t = table(q \<mapsto> d)" for t d
    using Cons.prems that by (auto intro!: map_cong filter_cong)
  show ?case
  proof (cases "table q")
    case (Some d)
    then show ?thesis using Cons same [of "table(q \<mapsto> clear d)" "clear d"] by (cases "old d") (auto simp: fun_eq_iff)
  qed (use Cons in \<open>auto simp: fun_eq_iff\<close>)
qed (simp add: fun_eq_iff)

lemma remove_all_apply: "remove_all ks t = (\<lambda>q. if q \<in> set ks then None else t q)"
  unfolding remove_all_def by (induction ks arbitrary: t) (auto simp: fun_eq_iff)

lemma statuses_table:
  assumes "distinct order"
  shows "nmm_neighbor_data_table (snd (get_neighbor_statuses order time m)) =
    (\<lambda>q. if q \<in> set order then map_option clear_interval (nmm_neighbor_data_table m q) else nmm_neighbor_data_table m q)"
  using assms by (simp add: get_neighbor_statuses_def walk_table_spec fun_eq_iff)

definition too_old :: "Duration \<Rightarrow> NeighborMetricManager \<Rightarrow> NeighborData \<times> NeighborData \<Rightarrow> bool" where
  "too_old time m pair \<longleftrightarrow> nmm_neighbor_delete_age_microseconds m < time - nd_last_rx_time (fst pair)"

lemma status_report_walk:
  assumes "walk_ok order (nmm_neighbor_data_table m)"
  shows "nmm_neighbor_data_table (snd (neighbor_status_report order time m)) q =
      (case nmm_neighbor_data_table m q of None \<Rightarrow> None
       | Some pair \<Rightarrow> if too_old time m pair then None else Some (clear_interval pair))"
    and "fst (neighbor_status_report order time m) =
      map (\<lambda>q. ffi_neighbor_data q (fst (the (nmm_neighbor_data_table m q))))
        (filter (\<lambda>q. pred_option (\<lambda>pair. \<not> too_old time m pair) (nmm_neighbor_data_table m q)) order)"
proof -
  have o: "distinct order" "set order = dom (nmm_neighbor_data_table m)" using assms by (simp_all add: walk_ok_def)
  show "nmm_neighbor_data_table (snd (neighbor_status_report order time m)) q =
      (case nmm_neighbor_data_table m q of None \<Rightarrow> None
       | Some pair \<Rightarrow> if too_old time m pair then None else Some (clear_interval pair))"
    using o(2) by (auto simp: neighbor_status_report_def walk_table_spec [OF o(1)] remove_all_apply too_old_def split: option.splits)
  show "fst (neighbor_status_report order time m) =
      map (\<lambda>q. ffi_neighbor_data q (fst (the (nmm_neighbor_data_table m q))))
        (filter (\<lambda>q. pred_option (\<lambda>pair. \<not> too_old time m pair) (nmm_neighbor_data_table m q)) order)"
    using o(2) by (auto simp: neighbor_status_report_def walk_table_spec [OF o(1)] too_old_def domIff intro!: map_cong filter_cong)
qed

lemma handle_tx_table:
  "nmm_neighbor_data_table (handle_tx_activity dst rate time m) = (nmm_neighbor_data_table m)
     (dst \<mapsto> map_prod (\<lambda>d. update_tx_activity_data d rate time) (\<lambda>d. update_tx_activity_data d rate time)
       (unwrap_or (nmm_neighbor_data_table m dst) (NeighborData_new dst, NeighborData_new dst)))"
  by (simp add: handle_tx_activity_def handle_neighbor_tx_activity_def handle_r2ri_tx_activity_def
      lookup_neighbor_data_def split_beta map_prod_def)

lemma handle_rx_table:
  "nmm_neighbor_data_table (handle_rx_activity src rx m) = (nmm_neighbor_data_table m)
     (src \<mapsto> map_prod (rx_update rx) (rx_update rx)
       (unwrap_or (nmm_neighbor_data_table m src) (NeighborData_new src, NeighborData_new src)))"
  by (simp add: handle_rx_activity_def update_neighbor_rx_activity_def handle_r2ri_rx_activity_def
      lookup_neighbor_data_def split_beta map_prod_def)

lemma other_tables:
  "nmm_neighbor_data_table (snd (get_neighbor_metrics order time m)) = nmm_neighbor_data_table m"
  "nmm_neighbor_data_table (set_neighbor_delete_time_microseconds age m) = nmm_neighbor_data_table m"
  by (simp_all add: get_neighbor_metrics_def set_neighbor_delete_time_microseconds_def split_beta)

lemmas table_simps = statuses_table handle_tx_table handle_rx_table other_tables

text \<open>The long-term data of a neighbor is the fold of its events.\<close>

definition long_term :: "u16 \<Rightarrow> NeighborMetricManager \<Rightarrow> NeighborData option" where
  "long_term nem m = map_option snd (nmm_neighbor_data_table m nem)"

lemma status_long_term: "get_neighbor_metric_status nem m = map_option (metric_status nem) (long_term nem m)"
  by (simp add: get_neighbor_metric_status_def long_term_def option.map_comp comp_def)

lemma long_term_op:
  assumes "op_walk_ok op m" "long_term nem m \<noteq> None \<longrightarrow> long_term nem (snd (neighbor_op op m)) \<noteq> None"
  shows "long_term nem (snd (neighbor_op op m)) =
    (case data_event nem op of
       None \<Rightarrow> long_term nem m
     | Some f \<Rightarrow> Some (f (unwrap_or (long_term nem m) (NeighborData_new nem))))"
proof (cases op)
  case (NeighborStatusReport order time)
  then have "walk_ok order (nmm_neighbor_data_table m)" using assms(1) by simp
  then show ?thesis using assms(2) NeighborStatusReport
    by (cases "nmm_neighbor_data_table m nem") (auto simp: long_term_def status_report_walk(1) clear_interval_def split: if_splits)
qed (use assms in \<open>auto simp: long_term_def table_simps walk_ok_def clear_interval_def unwrap_or_def option.map_comp comp_def
      split: option.splits\<close>)

definition data_events :: "u16 \<Rightarrow> NeighborOp list \<Rightarrow> (NeighborData \<Rightarrow> NeighborData) list" where
  "data_events nem ops = List.map_filter (data_event nem) ops"

lemma long_term_run:
  assumes "walks_ok ops m" "kept nem ops m"
  shows "long_term nem (snd (neighbor_run ops m)) =
    (if data_events nem ops = [] then long_term nem m
     else Some (fold (\<lambda>f. f) (data_events nem ops) (unwrap_or (long_term nem m) (NeighborData_new nem))))"
  using assms
proof (induction ops arbitrary: m)
  case (Cons op ops)
  have "long_term nem (snd (neighbor_run (op # ops) m)) = long_term nem (snd (neighbor_run ops (snd (neighbor_op op m))))"
    by (simp add: split_beta)
  then show ?case using Cons long_term_op [of op m nem]
    by (cases "data_event nem op") (simp_all add: data_events_def List.map_filter_simps status_long_term)
qed (simp add: data_events_def List.map_filter_simps)

section \<open>Missed frames\<close>

text \<open>The frames of a source in a sequence of calls.\<close>

fun rx_frame :: "u16 \<Rightarrow> NeighborOp \<Rightarrow> RxActivity option" where
  "rx_frame nem (NeighborRx src rx) = (if src = nem then Some rx else None)"
| "rx_frame nem _ = None"

definition rx_frames :: "u16 \<Rightarrow> NeighborOp list \<Rightarrow> RxActivity list" where
  "rx_frames nem ops = List.map_filter (rx_frame nem) ops"

text \<open>The counters after the frames with the sequence numbers \<open>S\<close>, none below \<open>first\<close>: received and missed frames
  together fill the range from \<open>first\<close> to the largest number.\<close>

definition missed_inv :: "u8 list \<Rightarrow> u64 \<Rightarrow> u64 set \<Rightarrow> NeighborData \<Rightarrow> bool" where
  "missed_inv uuid first S d \<longleftrightarrow>
     nd_uuid d = uuid \<and> nd_last_rx_seq_num d \<in> S \<and> (\<forall>s \<in> S. first \<le> s \<and> s \<le> nd_last_rx_seq_num d) \<and>
     unat (nd_num_rx_missed_frames d) + card S = unat (nd_last_rx_seq_num d) - unat first + 1 \<and>
     nd_num_rx_frames d = word_of_nat (card S)"

lemma tx_counters [simp]:
  "nd_uuid (update_tx_activity_data d rate time) = nd_uuid d"
  "nd_last_rx_seq_num (update_tx_activity_data d rate time) = nd_last_rx_seq_num d"
  "nd_num_rx_missed_frames (update_tx_activity_data d rate time) = nd_num_rx_missed_frames d"
  "nd_num_rx_frames (update_tx_activity_data d rate time) = nd_num_rx_frames d"
  "nd_num_tx_frames (update_tx_activity_data d rate time) = nd_num_tx_frames d + 1"
  "nd_rx_utilization_microseconds (update_tx_activity_data d rate time) = nd_rx_utilization_microseconds d"
  by (simp_all add: update_tx_activity_data_def Let_def split_beta)

lemma rx_counters [simp]:
  "nd_uuid (rx_update rx d) = ra_uuid rx"
  "nd_last_rx_seq_num (rx_update rx d) =
     (if ra_uuid rx = nd_uuid d then max (nd_last_rx_seq_num d) (ra_seq_num rx) else ra_seq_num rx)"
  "nd_num_rx_missed_frames (rx_update rx d) =
     (if ra_uuid rx = nd_uuid d
      then if ra_seq_num rx > nd_last_rx_seq_num d
           then nd_num_rx_missed_frames d + (ra_seq_num rx - nd_last_rx_seq_num d - 1)
           else if nd_num_rx_missed_frames d > 0 then nd_num_rx_missed_frames d - 1 else nd_num_rx_missed_frames d
      else nd_num_rx_missed_frames d)"
  "nd_num_rx_frames (rx_update rx d) = nd_num_rx_frames d + 1"
  "nd_num_tx_frames (rx_update rx d) = nd_num_tx_frames d"
  "nd_rx_utilization_microseconds (rx_update rx d) = nd_rx_utilization_microseconds d + as_micros_u64 (ra_duration rx)"
  by (auto simp: rx_update_def update_rx_activity_data_def update_rx_activity_channel_data_def Let_def split_beta max_def)

lemma seen_card:
  assumes "finite S" "\<forall>s \<in> S. lo \<le> s \<and> s \<le> (hi :: u64)" "x \<notin> S" "lo \<le> x" "x \<le> hi"
  shows "card S < unat hi - unat lo + 1"
proof -
  have "unat ` insert x S \<subseteq> {unat lo..unat hi}" using assms by (auto simp: word_le_nat_alt)
  then have "card (unat ` insert x S) \<le> card {unat lo..unat hi}" by (intro card_mono) simp_all
  moreover have "card (unat ` insert x S) = card (insert x S)" by (intro card_image) (auto simp: inj_on_def word_unat_eq_iff)
  moreover have "card (insert x S) = Suc (card S)" using assms(1,3) by simp
  moreover have "unat lo \<le> unat hi" using assms(4,5) by (simp add: word_le_nat_alt)
  ultimately show ?thesis by simp
qed

lemma missed_inv_rx:
  assumes inv: "missed_inv uuid first S d" and new: "ra_seq_num rx \<notin> S" "first \<le> ra_seq_num rx" and u: "ra_uuid rx = uuid"
  shows "missed_inv uuid first (insert (ra_seq_num rx) S) (rx_update rx d)"
proof -
  let ?s = "ra_seq_num rx" and ?l = "nd_last_rx_seq_num d" and ?m = "nd_num_rx_missed_frames d"
  have i: "nd_uuid d = uuid" "?l \<in> S" "\<forall>s \<in> S. first \<le> s \<and> s \<le> ?l"
    "unat ?m + card S = unat ?l - unat first + 1" "nd_num_rx_frames d = word_of_nat (card S)"
    using inv by (simp_all add: missed_inv_def)
  have fin: "finite S" by simp
  have card: "card (insert ?s S) = card S + 1" using new(1) by simp
  have fl: "unat first \<le> unat ?l" using i(2,3) by (simp add: word_le_nat_alt)
  have count: "unat (nd_num_rx_missed_frames (rx_update rx d)) + card (insert ?s S) = unat (max ?l ?s) - unat first + 1"
  proof (cases "?l < ?s")
    case True
    have gap: "unat (?s - ?l - 1) = unat ?s - unat ?l - 1"
    proof -
      have "?s - ?l \<noteq> 0" using True by simp
      then have "unat (?s - ?l - 1) = unat (?s - ?l) - 1" by (rule unat_minus_one)
      then show ?thesis using True by (simp add: unat_sub word_le_nat_alt word_less_nat_alt)
    qed
    have pos: "card S > 0" using i(2) by (auto simp: card_gt_0_iff)
    have less: "unat ?s < 2 ^ 64" using unsigned_less [of ?s] by simp
    have "unat ?m + (unat ?s - unat ?l - 1) < 2 ^ 64" using i(4) pos less True fl by (simp add: word_less_nat_alt)
    then have "unat (?m + (?s - ?l - 1)) = unat ?m + (unat ?s - unat ?l - 1)" by (simp add: unat_word_ariths(1) gap)
    moreover have "max ?l ?s = ?s" using True by (intro max_absorb2) simp
    moreover have "unat ?l < unat ?s" using True by (simp add: word_less_nat_alt)
    ultimately show ?thesis using True i(1,4) u fl by (simp add: card)
  next
    case False
    have "card S < unat ?l - unat first + 1" using seen_card [OF fin i(3) new(1)] new(2) False by simp
    then have pos: "unat ?m > 0" using i(4) by simp
    then have gt: "?m > 0" by (simp add: word_less_nat_alt)
    have "unat (?m - 1) = unat ?m - 1" using pos by (intro unat_minus_one) auto
    then show ?thesis using False i(1,4) u pos gt by (simp add: card max_def)
  qed
  have range: "\<forall>s \<in> insert ?s S. first \<le> s \<and> s \<le> max ?l ?s" using i(3) new(2) by (auto simp: max_def)
  have seen: "max ?l ?s \<in> insert ?s S" using i(2) by (simp add: max_def)
  show ?thesis
    unfolding missed_inv_def using count range seen i(1,5) u by (simp add: card del: rx_counters(3))
qed

lemma missed_inv_tx: "missed_inv uuid first S d \<Longrightarrow> missed_inv uuid first S (update_tx_activity_data d rate time)"
  by (simp add: missed_inv_def)

lemma missed_inv_events:
  assumes "missed_inv uuid first S d" "\<forall>rx \<in> set (rx_frames nem ops). ra_uuid rx = uuid \<and> first \<le> ra_seq_num rx"
    "distinct (map ra_seq_num (rx_frames nem ops))" "S \<inter> ra_seq_num ` set (rx_frames nem ops) = {}"
  shows "missed_inv uuid first (S \<union> ra_seq_num ` set (rx_frames nem ops)) (fold (\<lambda>f. f) (data_events nem ops) d)"
  using assms
proof (induction ops arbitrary: S d)
  case (Cons op ops)
  show ?case
  proof (cases "rx_frame nem op")
    case None
    then have frames: "rx_frames nem (op # ops) = rx_frames nem ops" by (simp add: rx_frames_def List.map_filter_simps)
    have "missed_inv uuid first S ((case data_event nem op of None \<Rightarrow> \<lambda>d. d | Some f \<Rightarrow> f) d)"
      using None Cons.prems(1) by (cases op) (auto simp: missed_inv_tx split: if_splits)
    from Cons.IH [OF this] Cons.prems(2-4) show ?thesis
      unfolding frames by (cases "data_event nem op") (simp_all add: data_events_def List.map_filter_simps)
  next
    case (Some rx)
    then have frames: "rx_frames nem (op # ops) = rx # rx_frames nem ops" by (simp add: rx_frames_def List.map_filter_simps)
    have events: "data_events nem (op # ops) = rx_update rx # data_events nem ops"
      using Some by (cases op) (auto simp: data_events_def List.map_filter_simps split: if_splits)
    have "missed_inv uuid first (insert (ra_seq_num rx) S) (rx_update rx d)"
      using Cons.prems by (intro missed_inv_rx) (auto simp: frames)
    from Cons.IH [OF this] Cons.prems(2-4) show ?thesis by (auto simp: frames events)
  qed
qed (simp add: rx_frames_def data_events_def List.map_filter_simps)

definition never_heard :: "NeighborData \<Rightarrow> bool" where
  "never_heard d \<longleftrightarrow> nd_uuid d = replicate 16 0 \<and> nd_last_rx_seq_num d = 0 \<and> nd_num_rx_missed_frames d = 0 \<and> nd_num_rx_frames d = 0"

text \<open>The number from which frames are counted. New data have the uuid of sixteen zeroes and the last number 0, so a
  sender with that uuid is counted from 1, whatever number is heard first.\<close>

definition first_counted :: "RxActivity \<Rightarrow> u64" where
  "first_counted rx = (if ra_uuid rx = replicate 16 0 \<and> ra_seq_num rx \<noteq> 0 then 1 else ra_seq_num rx)"

lemma missed_inv_first:
  assumes "never_heard d"
  shows "missed_inv (ra_uuid rx) (first_counted rx) {ra_seq_num rx} (rx_update rx d)"
proof (cases "ra_uuid rx = replicate 16 0 \<and> ra_seq_num rx \<noteq> 0")
  case True
  then have pos: "0 < ra_seq_num rx" "1 \<le> ra_seq_num rx" by (auto simp: word_gt_0 word_le_nat_alt Suc_leI unat_gt_0)
  have "unat (ra_seq_num rx - 1) = unat (ra_seq_num rx) - 1" using True by (intro unat_minus_one) auto
  moreover have "max 0 (ra_seq_num rx) = ra_seq_num rx" by (intro max_absorb2) simp
  ultimately show ?thesis using assms True pos by (simp add: never_heard_def missed_inv_def first_counted_def)
qed (use assms in \<open>auto simp: never_heard_def missed_inv_def first_counted_def\<close>)

lemma missed_inv_history:
  assumes "never_heard d" "rx_frames nem ops = rx # rxs"
    "\<forall>r \<in> set rxs. ra_uuid r = ra_uuid rx \<and> first_counted rx \<le> ra_seq_num r" "distinct (map ra_seq_num (rx # rxs))"
  shows "missed_inv (ra_uuid rx) (first_counted rx) (ra_seq_num ` set (rx # rxs)) (fold (\<lambda>f. f) (data_events nem ops) d)"
  using assms
proof (induction ops arbitrary: d)
  case (Cons op ops)
  show ?case
  proof (cases "rx_frame nem op")
    case None
    then have frames: "rx_frames nem ops = rx # rxs"
      using Cons.prems(2) by (simp add: rx_frames_def List.map_filter_simps)
    have "never_heard ((case data_event nem op of None \<Rightarrow> \<lambda>d. d | Some f \<Rightarrow> f) d)"
      using None Cons.prems(1) by (cases op) (auto simp: never_heard_def split: if_splits)
    from Cons.IH [OF this frames] Cons.prems(3,4) show ?thesis
      by (cases "data_event nem op") (simp_all add: data_events_def List.map_filter_simps)
  next
    case (Some r)
    then have r: "r = rx" and frames: "rx_frames nem ops = rxs"
      using Cons.prems(2) by (simp_all add: rx_frames_def List.map_filter_simps)
    have events: "data_events nem (op # ops) = rx_update rx # data_events nem ops"
      using Some r by (cases op) (auto simp: data_events_def List.map_filter_simps split: if_splits)
    have new: "{ra_seq_num rx} \<inter> ra_seq_num ` set rxs = {}" using Cons.prems(4) by auto
    from missed_inv_events [OF missed_inv_first [OF Cons.prems(1)], of nem ops] Cons.prems(3,4) new
    show ?thesis by (simp add: frames events)
  qed
qed (simp add: rx_frames_def List.map_filter_simps)

lemma data_events_Nil: "data_events nem ops = [] \<Longrightarrow> rx_frames nem ops = []"
proof (induction ops)
  case (Cons op ops)
  then show ?case by (cases op) (auto simp: data_events_def rx_frames_def List.map_filter_simps split: if_splits option.splits)
qed (simp add: rx_frames_def List.map_filter_simps)

lemma missed_inv_Max: "missed_inv uuid first S d \<Longrightarrow> nd_last_rx_seq_num d = Max S"
  by (intro Max_eqI [symmetric]) (auto simp: missed_inv_def)

lemma metric_status_counters:
  "ns_num_rx_frames (metric_status nem d) = nd_num_rx_frames d"
  "ns_num_tx_frames (metric_status nem d) = nd_num_tx_frames d"
  "ns_num_rx_missed_frames (metric_status nem d) = nd_num_rx_missed_frames d"
  by (simp_all add: metric_status_def split_beta)


definition witness_rx :: "u64 \<Rightarrow> RxActivity" where
  "witness_rx s = \<lparr>ra_seq_num = s, ra_uuid = replicate 16 0, ra_sinr = 0, ra_noise_floor = 0, ra_rx_time = 1000,
     ra_duration = 200000, ra_data_rate_bps = 1000000\<rparr>"

definition witness_neighbor_ops :: "NeighborOp list" where
  "witness_neighbor_ops = [NeighborTx 2 1000 0, NeighborRx 2 (witness_rx 5), NeighborStatuses [2] 2000,
     NeighborRx 2 (witness_rx 9), NeighborStatusReport [2] 3000, NeighborRx 2 (witness_rx 3)]"

lemma status_none: "get_neighbor_metric_status nem m = None \<longleftrightarrow> nmm_neighbor_data_table m nem = None"
  by (simp add: get_neighbor_metric_status_def)

lemma report_keeps_table:
  assumes "walk_ok order (nmm_neighbor_data_table m)" "nmm_neighbor_data_table m q = Some pair" "\<not> too_old time m pair"
  shows "nmm_neighbor_data_table (snd (neighbor_status_report order time m)) q = Some (clear_interval pair)"
  using status_report_walk(1) [OF assms(1)] assms(2,3) by simp

lemma witness_neighbor_walks:
  "walks_ok witness_neighbor_ops (NeighborMetricManager_new 1)" "kept 2 witness_neighbor_ops (NeighborMetricManager_new 1)"
proof -
  define m where "m = snd (neighbor_run (take 4 witness_neighbor_ops) (NeighborMetricManager_new 1))"
  have "nmm_neighbor_data_table m q \<noteq> None \<longleftrightarrow> q = 2" for q
    by (simp add: m_def witness_neighbor_ops_def handle_tx_table handle_rx_table statuses_table NeighborMetricManager_new_def split_beta)
  then have walk: "walk_ok [2] (nmm_neighbor_data_table m)" by (auto simp: walk_ok_def)
  have age: "nmm_neighbor_delete_age_microseconds m = 60 * 1000000000"
    by (simp add: m_def witness_neighbor_ops_def handle_tx_activity_def handle_neighbor_tx_activity_def handle_r2ri_tx_activity_def
        handle_rx_activity_def update_neighbor_rx_activity_def handle_r2ri_rx_activity_def get_neighbor_statuses_def
        NeighborMetricManager_new_def split_beta)
  have "dom (nmm_neighbor_data_table m) = set [2]" using walk by (simp add: walk_ok_def)
  then have "2 \<in> dom (nmm_neighbor_data_table m)" by (simp only: list.set insertI1)
  then obtain pair where pair: "nmm_neighbor_data_table m 2 = Some pair" by blast
  have "\<not> too_old 3000 m pair" by (simp add: too_old_def age)
  note k = report_keeps_table [OF walk pair this]
  have m: "m = handle_rx_activity 2 (witness_rx 9) (snd (get_neighbor_statuses [2] 2000 (handle_rx_activity 2 (witness_rx 5)
      (handle_tx_activity 2 1000 0 (NeighborMetricManager_new 1)))))"
    by (simp add: m_def witness_neighbor_ops_def split_beta)
  show "walks_ok witness_neighbor_ops (NeighborMetricManager_new 1)"
    using walk unfolding m
    by (auto simp: witness_neighbor_ops_def walk_ok_def handle_tx_table handle_rx_table NeighborMetricManager_new_def)
  show "kept 2 witness_neighbor_ops (NeighborMetricManager_new 1)"
    using k unfolding m
    by (simp add: witness_neighbor_ops_def status_none handle_tx_table handle_rx_table statuses_table)
qed

lemma witness_neighbor_new: "get_neighbor_metric_status 2 (NeighborMetricManager_new 1) = None"
  by (simp add: status_none NeighborMetricManager_new_def)



section \<open>Intervals\<close>

text \<open>The interval data of a neighbor and what the snapshots and the rows of the status reports have reported of it.\<close>

definition interval :: "u16 \<Rightarrow> NeighborMetricManager \<Rightarrow> NeighborData" where
  "interval nem m = fst (unwrap_or (nmm_neighbor_data_table m nem) (NeighborData_new nem, NeighborData_new nem))"

definition reported :: "u16 \<Rightarrow> (NeighborReport \<Rightarrow> u64) \<Rightarrow> NeighborReport list \<Rightarrow> u64" where
  "reported nem count reports = sum_list (map count (filter (\<lambda>r. report_neighbor r = nem) reports))"

lemma reported_append: "reported nem count (xs @ ys) = reported nem count xs + reported nem count ys"
  by (simp add: reported_def)

lemma reported_Nil [simp]: "reported nem count [] = 0"
  by (simp add: reported_def)

lemma reported_walk:
  assumes "distinct order" "\<And>q. report_neighbor (rep q) = q"
  shows "reported nem count (map rep (filter P order)) = (if nem \<in> set order \<and> P nem then count (rep nem) else 0)"
  using assms(1) by (induction order) (auto simp: reported_def assms(2) filter_empty_conv)

text \<open>The frames a manager was told of, in a sequence of calls.\<close>

fun sent_to :: "u16 \<Rightarrow> NeighborOp \<Rightarrow> bool" where
  "sent_to nem (NeighborTx dst rate time) \<longleftrightarrow> dst = nem"
| "sent_to nem _ \<longleftrightarrow> False"

definition totals_agree :: "u16 \<Rightarrow> NeighborReport list \<Rightarrow> NeighborMetricManager \<Rightarrow> bool" where
  "totals_agree nem reports m \<longleftrightarrow>
     (let whole = unwrap_or (long_term nem m) (NeighborData_new nem)
      in reported nem report_rx reports + nd_num_rx_frames (interval nem m) = nd_num_rx_frames whole \<and>
         reported nem report_tx reports + nd_num_tx_frames (interval nem m) = nd_num_tx_frames whole)"

lemma report_fields [simp]:
  "sn_neighbor_id (neighbor_snapshot time latest q d) = q"
  "sn_num_rx_frames (neighbor_snapshot time latest q d) = nd_num_rx_frames d"
  "sn_num_tx_frames (neighbor_snapshot time latest q d) = nd_num_tx_frames d"
  "fn_nem_id (ffi_neighbor_data q d) = q"
  "fn_num_rx_frames (ffi_neighbor_data q d) = nd_num_rx_frames d"
  "fn_num_tx_frames (ffi_neighbor_data q d) = nd_num_tx_frames d"
  by (simp_all add: neighbor_snapshot_def ffi_neighbor_data_def Let_def split_beta)

lemma interval_row:
  "nmm_neighbor_data_table m nem = Some pair \<Longrightarrow> interval nem m = fst pair"
  "nmm_neighbor_data_table m nem = None \<Longrightarrow> interval nem m = NeighborData_new nem"
  by (simp_all add: interval_def)

lemma new_and_cleared [simp]:
  "nd_num_rx_frames (NeighborData_new nem) = 0" "nd_num_tx_frames (NeighborData_new nem) = 0"
  "nd_num_rx_frames (clear_data d) = 0" "nd_num_tx_frames (clear_data d) = 0"
  by (simp_all add: clear_data_def NeighborData_new_def)

text \<open>A snapshot and a status report put out the interval of a neighbor and clear it.\<close>

lemma statuses_report:
  assumes "walk_ok order (nmm_neighbor_data_table m)"
    and "count = report_rx \<and> field = nd_num_rx_frames \<or> count = report_tx \<and> field = nd_num_tx_frames"
  shows "reported nem count (map ReportSnapshot (fst (get_neighbor_statuses order time m))) = field (interval nem m)"
    and "field (interval nem (snd (get_neighbor_statuses order time m))) = 0"
proof -
  let ?t = "nmm_neighbor_data_table m"
  let ?r = "\<lambda>q. ReportSnapshot (neighbor_snapshot time (nmm_last_neighbor_status_update_time m) q (fst (the (?t q))))"
  have o: "distinct order" "set order = dom ?t" using assms(1) by (simp_all add: walk_ok_def)
  have "map ReportSnapshot (fst (get_neighbor_statuses order time m)) = map ?r (filter (\<lambda>q. ?t q \<noteq> None) order)"
    by (simp add: get_neighbor_statuses_def walk_table_spec [OF o(1)] comp_def)
      (auto intro!: map_cong filter_cong simp: option.pred_True)
  then have "reported nem count (map ReportSnapshot (fst (get_neighbor_statuses order time m))) =
      (if nem \<in> set order \<and> ?t nem \<noteq> None then count (?r nem) else 0)"
    by (simp only: reported_walk [OF o(1), of ?r] report_neighbor.simps report_fields)
  then show "reported nem count (map ReportSnapshot (fst (get_neighbor_statuses order time m))) = field (interval nem m)"
    using assms(2) o(2) by (cases "?t nem") (auto simp: interval_row domIff)
  show "field (interval nem (snd (get_neighbor_statuses order time m))) = 0"
    using assms(2) o by (cases "?t nem") (auto simp: interval_def statuses_table clear_interval_def)
qed

lemma status_report_report:
  assumes walk: "walk_ok order (nmm_neighbor_data_table m)"
    and count: "count = report_rx \<and> field = nd_num_rx_frames \<or> count = report_tx \<and> field = nd_num_tx_frames"
    and keep: "nmm_neighbor_data_table m nem \<noteq> None \<longrightarrow> nmm_neighbor_data_table (snd (neighbor_status_report order time m)) nem \<noteq> None"
  shows "reported nem count (map ReportRow (fst (neighbor_status_report order time m))) = field (interval nem m)"
    and "field (interval nem (snd (neighbor_status_report order time m))) = 0"
proof -
  let ?t = "nmm_neighbor_data_table m"
  have o: "distinct order" "set order = dom ?t" using walk by (simp_all add: walk_ok_def)
  note rows = status_report_walk [OF walk, of time]
  have rep: "reported nem count (map ReportRow (fst (neighbor_status_report order time m))) =
      (if nem \<in> set order \<and> pred_option (\<lambda>pair. \<not> too_old time m pair) (?t nem)
       then count (ReportRow (ffi_neighbor_data nem (fst (the (?t nem))))) else 0)"
    unfolding rows(2) map_map comp_def by (rule reported_walk [OF o(1)]) simp
  show "reported nem count (map ReportRow (fst (neighbor_status_report order time m))) = field (interval nem m)"
    using rep count keep o(2) by (cases "?t nem") (auto simp: interval_row rows(1) split: if_splits)
  show "field (interval nem (snd (neighbor_status_report order time m))) = 0"
    using count by (cases "?t nem") (auto simp: interval_def rows(1) clear_interval_def)
qed

lemma fold_interval_simps:
  "interval nem (handle_tx_activity dst rate time m) =
     (if dst = nem then update_tx_activity_data (interval nem m) rate time else interval nem m)"
  "interval nem (handle_rx_activity src rx m) = (if src = nem then rx_update rx (interval nem m) else interval nem m)"
  "interval nem (snd (get_neighbor_metrics order time m)) = interval nem m"
  "interval nem (set_neighbor_delete_time_microseconds age m) = interval nem m"
  by (simp_all add: interval_def table_simps)

lemma totals_agree_op:
  assumes agree: "totals_agree nem reports m" and ok: "op_walk_ok op m"
    and keep: "get_neighbor_metric_status nem m \<noteq> None \<longrightarrow> get_neighbor_metric_status nem (snd (neighbor_op op m)) \<noteq> None"
  shows "totals_agree nem (reports @ fst (neighbor_op op m)) (snd (neighbor_op op m))"
proof -
  have lt: "long_term nem (snd (neighbor_op op m)) =
    (case data_event nem op of
       None \<Rightarrow> long_term nem m
     | Some f \<Rightarrow> Some (f (unwrap_or (long_term nem m) (NeighborData_new nem))))"
    using keep by (intro long_term_op [OF ok]) (simp add: status_long_term)
  show ?thesis
  proof (cases op)
    case (NeighborStatuses order time)
    then have walk: "walk_ok order (nmm_neighbor_data_table m)" using ok by simp
    show ?thesis
      using agree lt NeighborStatuses statuses_report [OF walk, of report_rx nd_num_rx_frames]
        statuses_report [OF walk, of report_tx nd_num_tx_frames]
      by (simp add: totals_agree_def reported_append Let_def)
  next
    case (NeighborStatusReport order time)
    then have walk: "walk_ok order (nmm_neighbor_data_table m)" using ok by simp
    have k: "nmm_neighbor_data_table m nem \<noteq> None \<longrightarrow> nmm_neighbor_data_table (snd (neighbor_status_report order time m)) nem \<noteq> None"
      using keep NeighborStatusReport by (simp only: status_none neighbor_op.simps snd_map_prod id_apply not_False_eq_True)
    show ?thesis
      using agree lt NeighborStatusReport status_report_report [OF walk _ k, of report_rx nd_num_rx_frames]
        status_report_report [OF walk _ k, of report_tx nd_num_tx_frames]
      by (simp add: totals_agree_def reported_append Let_def)
  qed (use agree lt in \<open>auto simp: totals_agree_def Let_def fold_interval_simps add.assoc [symmetric]\<close>)
qed

lemma totals_agree_run:
  assumes "totals_agree nem reports m" "walks_ok ops m" "kept nem ops m"
  shows "totals_agree nem (reports @ fst (neighbor_run ops m)) (snd (neighbor_run ops m))"
  using assms
proof (induction ops arbitrary: reports m)
  case (Cons op ops)
  show ?case
    using Cons.IH [OF totals_agree_op [OF Cons.prems(1)]] Cons.prems(2,3) by (simp add: split_beta)
qed simp

lemma event_counts:
  "nd_num_rx_frames (fold (\<lambda>f. f) (data_events nem ops) d) = nd_num_rx_frames d + word_of_nat (length (rx_frames nem ops))"
  "nd_num_tx_frames (fold (\<lambda>f. f) (data_events nem ops) d) = nd_num_tx_frames d + word_of_nat (length (filter (sent_to nem) ops))"
proof (induction ops arbitrary: d)
  case (Cons op ops)
  case 1
  then show ?case using Cons by (cases op) (auto simp: data_events_def rx_frames_def List.map_filter_simps)
  case 2
  then show ?case using Cons by (cases op) (auto simp: data_events_def rx_frames_def List.map_filter_simps)
qed (simp_all add: data_events_def rx_frames_def List.map_filter_simps)

text \<open>C16: The reports cut the history of a neighbor into intervals without loss or repetition. Take a manager
  without a row for the neighbor and any sequence of calls that does not remove the row again, status
  snapshots and reports of the foreign interface included. If the neighbor has a status in the end, the
  received and the transmitted frames reported of it so far, together with those of the interval under
  way, are the frames of its long-term status, and these are the frames of the calls.\<close>

theorem neighbor_intervals_partition:
  assumes "get_neighbor_metric_status nem m0 = None" and "walks_ok ops m0" and "kept nem ops m0"
    and "neighbor_run ops m0 = (reports, m)" and "get_neighbor_metric_status nem m = Some status"
  shows "reported nem report_rx reports + nd_num_rx_frames (interval nem m) = ns_num_rx_frames status \<and>
    reported nem report_tx reports + nd_num_tx_frames (interval nem m) = ns_num_tx_frames status \<and>
    ns_num_rx_frames status = word_of_nat (length (rx_frames nem ops)) \<and>
    ns_num_tx_frames status = word_of_nat (length (filter (sent_to nem) ops))"
proof -
  have new: "long_term nem m0 = None" "interval nem m0 = NeighborData_new nem"
    using assms(1) by (simp_all add: status_long_term interval_row status_none [symmetric])
  then have "totals_agree nem [] m0" by (simp add: totals_agree_def)
  from totals_agree_run [OF this assms(2,3)] assms(4) have agree: "totals_agree nem reports m" by simp
  obtain d where d: "long_term nem m = Some d" "status = metric_status nem d"
    using assms(5) by (auto simp: status_long_term)
  have "d = fold (\<lambda>f. f) (data_events nem ops) (NeighborData_new nem)"
    using long_term_run [OF assms(2,3)] new(1) d(1) assms(4) by (auto split: if_splits)
  then show ?thesis using agree d by (simp add: totals_agree_def Let_def metric_status_counters event_counts)
qed

theorem neighbor_intervals_partition_witness:
  "\<exists>status. get_neighbor_metric_status 2 (snd (neighbor_run witness_neighbor_ops (NeighborMetricManager_new 1))) = Some status \<and>
    reported 2 report_rx (fst (neighbor_run witness_neighbor_ops (NeighborMetricManager_new 1))) +
      nd_num_rx_frames (interval 2 (snd (neighbor_run witness_neighbor_ops (NeighborMetricManager_new 1)))) = 3 \<and>
    ns_num_rx_frames status = 3"
proof -
  let ?m = "snd (neighbor_run witness_neighbor_ops (NeighborMetricManager_new 1))"
  have "long_term 2 ?m \<noteq> None"
    unfolding long_term_run [OF witness_neighbor_walks]
    by (simp add: data_events_def witness_neighbor_ops_def List.map_filter_simps)
  then obtain status where s: "get_neighbor_metric_status 2 ?m = Some status" by (auto simp: status_long_term)
  have frames: "rx_frames 2 witness_neighbor_ops = [witness_rx 5, witness_rx 9, witness_rx 3]"
    by (simp add: rx_frames_def witness_neighbor_ops_def List.map_filter_simps)
  from neighbor_intervals_partition [OF witness_neighbor_new witness_neighbor_walks prod.collapse [symmetric] s] s
  show ?thesis unfolding frames by simp
qed


end
