(* ===== verification/Shim_Layers.thy ===== *)
theory Shim_Layers
  imports Comm_Effect Wire_Lists
begin

text \<open>
  The plain layers under \<^verbatim>\<open>rust/plugins\<close>: the bypass MAC and PHY, the dummy MAC, the timing
  analysis shim and the PHY API test shim. Each handler takes the layer and the framework it calls; a null
  packet or plugin pointer is \<open>None\<close>.
  The bypass MAC and the timing analysis shim mark packets with a header of their own on the way down and take
  it off on the way up; the locale \<open>header_layer\<close> states that contract, \<open>header_stack\<close> what two
  such layers on top of each other give, and both are interpreted on the models of the plugins.
\<close>

section \<open>Bypass MAC\<close>

definition MAC_REGISTRATION_BYPASS :: u16 where "MAC_REGISTRATION_BYPASS = 0x0001"

record BypassMac =
  bm_id :: u16
  bm_counters :: CommonLayerCounters
  bm_sequence :: u64

type_synonym 's layer = "'s \<times> Framework"

definition BypassMac_init :: "FrameworkApi \<Rightarrow> u16 \<Rightarrow> Framework \<Rightarrow> BypassMac layer" where
  "BypassMac_init api nem_id fw =
     (let (counters, fw) = register_with_drop_labels api [] [''Reg Id''] [] fw
      in (\<lparr>bm_id = nem_id, bm_counters = counters, bm_sequence = 0\<rparr>, fw))"

text \<open>The same function in both bypass layers.\<close>

definition Bypass_configure :: "FfiConfigRequest option \<Rightarrow> bool" where
  "Bypass_configure request = (case request of None \<Rightarrow> False | Some request \<Rightarrow> cr_len request = 0)"

text \<open>\<open>messages.iter().any(..)\<close> stops at the first valid header.\<close>

fun bypass_header_valid :: "FfiControlMessage list \<Rightarrow> bool panics" where
  "bypass_header_valid [] = Some False"
| "bypass_header_valid (m # ms) =
     (if fcm_msg_type m = CONTROL_MODEL_HEADER \<and> fs_len (fcm_payload m) = 24 \<and> fs_data (fcm_payload m) \<noteq> None
      then do {
        data \<leftarrow> slice_contents (fcm_payload m);
        header \<leftarrow> ModelHeader_decode data;
        if (case header of None \<Rightarrow> False | Some header \<Rightarrow> mh_registration_id header = MAC_REGISTRATION_BYPASS)
        then Some True else bypass_header_valid ms }
      else bypass_header_valid ms)"

definition not_model_header :: "FfiControlMessage \<Rightarrow> bool" where
  "not_model_header m \<longleftrightarrow> fcm_msg_type m \<noteq> CONTROL_MODEL_HEADER"

definition BypassMac_upstream :: "FrameworkApi \<Rightarrow> FfiPacket option \<Rightarrow> Messages \<Rightarrow> BypassMac layer \<Rightarrow> BypassMac layer panics" where
  "BypassMac_upstream api packet messages = (\<lambda>(mac, fw).
     case packet of
       None \<Rightarrow> Some (mac, fw_call (SendUpstreamControl (bm_id mac) messages) fw)
     | Some p \<Rightarrow>
         (case controls messages of
            None \<Rightarrow> Some (mac, fw)
          | Some ms \<Rightarrow> do {
              let source = pi_source (fp_info p);
              let destination = pi_destination (fp_info p);
              let bytes = fs_len (fp_payload p);
              let fw = upstream_rx_packet (bm_counters mac) source destination bytes fw;
              valid \<leftarrow> bypass_header_valid ms;
              if \<not> valid
              then do { fw \<leftarrow> upstream_drop_packet api (bm_counters mac) source destination 1 fw; Some (mac, fw) }
              else do {
                let outgoing = filter not_model_header ms;
                let fw = upstream_tx_packet api (bm_counters mac) source destination bytes (elapsed_microseconds api fw) fw;
                Some (mac, fw_call (SendUpstreamPacket (bm_id mac) (Some p) (messages_of outgoing)) fw) } }))"

definition bypass_header :: "u64 \<Rightarrow> ModelHeader" where
  "bypass_header seq =
     \<lparr>mh_registration_id = MAC_REGISTRATION_BYPASS, mh_sequence = seq, mh_data_rate_bps = 0, mh_category = 0,
      mh_message_type = 0, mh_flags = 0\<rparr>"

definition BypassMac_downstream :: "FrameworkApi \<Rightarrow> FfiPacket option \<Rightarrow> Messages \<Rightarrow> BypassMac layer \<Rightarrow> BypassMac layer panics" where
  "BypassMac_downstream api packet messages = (\<lambda>(mac, fw).
     case packet of
       None \<Rightarrow> Some (mac, fw_call (SendDownstreamControl (bm_id mac) messages) fw)
     | Some p \<Rightarrow>
         (case controls messages of
            None \<Rightarrow> Some (mac, fw)
          | Some ms \<Rightarrow> do {
              let source = pi_source (fp_info p);
              let destination = pi_destination (fp_info p);
              let bytes = fs_len (fp_payload p);
              let fw = downstream_rx_packet (bm_counters mac) source destination bytes fw;
              header \<leftarrow> ModelHeader_encode (bypass_header (bm_sequence mac));
              let mac = mac\<lparr>bm_sequence := bm_sequence mac + 1\<rparr>;
              let outgoing = filter not_model_header ms @ [\<lparr>fcm_msg_type = CONTROL_MODEL_HEADER, fcm_payload = slice_of header\<rparr>];
              let fw = downstream_tx_packet api (bm_counters mac) source destination bytes (elapsed_microseconds api fw) False fw;
              Some (mac, fw_call (SendDownstreamPacket (bm_id mac) (Some p) (messages_of outgoing)) fw) }))"


section \<open>Bypass PHY and dummy MAC\<close>

record BypassPhy =
  bp_id :: u16
  bp_counters :: CommonLayerCounters

definition BypassPhy_init :: "FrameworkApi \<Rightarrow> u16 \<Rightarrow> Framework \<Rightarrow> BypassPhy layer" where
  "BypassPhy_init api nem_id fw =
     (let (counters, fw) = CommonLayerCounters_register api fw in (\<lparr>bp_id = nem_id, bp_counters = counters\<rparr>, fw))"

definition BypassPhy_upstream :: "FrameworkApi \<Rightarrow> FfiPacket option \<Rightarrow> Messages \<Rightarrow> BypassPhy layer \<Rightarrow> BypassPhy layer" where
  "BypassPhy_upstream api packet messages = (\<lambda>(phy, fw).
     case packet of
       None \<Rightarrow> (phy, fw_call (SendUpstreamControl (bp_id phy) messages) fw)
     | Some p \<Rightarrow>
         (let source = pi_source (fp_info p); destination = pi_destination (fp_info p); bytes = fs_len (fp_payload p);
              fw = upstream_rx_packet (bp_counters phy) source destination bytes fw;
              fw = upstream_tx_packet api (bp_counters phy) source destination bytes (elapsed_microseconds api fw) fw
          in (phy, fw_call (SendUpstreamPacket (bp_id phy) (Some p) messages) fw)))"

definition BypassPhy_downstream :: "FrameworkApi \<Rightarrow> FfiPacket option \<Rightarrow> Messages \<Rightarrow> BypassPhy layer \<Rightarrow> BypassPhy layer" where
  "BypassPhy_downstream api packet messages = (\<lambda>(phy, fw).
     case packet of
       None \<Rightarrow> (phy, fw_call (SendDownstreamControl (bp_id phy) messages) fw)
     | Some p \<Rightarrow>
         (let source = pi_source (fp_info p); destination = pi_destination (fp_info p); bytes = fs_len (fp_payload p);
              fw = downstream_rx_packet (bp_counters phy) source destination bytes fw;
              fw = downstream_tx_packet api (bp_counters phy) source destination bytes (elapsed_microseconds api fw) False fw
          in (phy, fw_call (SendDownstreamPacket (bp_id phy) (Some p) messages) fw)))"

record DummyMac =
  dm_id :: u16
  dm_counters :: CommonLayerCounters

definition DummyMac_init :: "FrameworkApi \<Rightarrow> u16 \<Rightarrow> Framework \<Rightarrow> DummyMac layer" where
  "DummyMac_init api nem_id fw =
     (let (counters, fw) = CommonLayerCounters_register api fw in (\<lparr>dm_id = nem_id, dm_counters = counters\<rparr>, fw))"

definition DummyMac_configure :: "DummyMac option \<Rightarrow> FfiConfigRequest option \<Rightarrow> bool" where
  "DummyMac_configure plugin request \<longleftrightarrow>
     plugin \<noteq> None \<and> (case request of None \<Rightarrow> False | Some request \<Rightarrow> cr_len request = 0)"

definition DummyMac_upstream :: "FrameworkApi \<Rightarrow> FfiPacket option \<Rightarrow> Messages \<Rightarrow> DummyMac layer \<Rightarrow> DummyMac layer" where
  "DummyMac_upstream api packet messages = (\<lambda>(mac, fw).
     let fw = (case packet of None \<Rightarrow> fw
               | Some p \<Rightarrow> upstream_rx_packet (dm_counters mac) (pi_source (fp_info p)) (pi_destination (fp_info p))
                   (fs_len (fp_payload p)) fw);
         fw = fw_call (SendUpstreamPacket (dm_id mac) packet messages) fw;
         fw = (case packet of None \<Rightarrow> fw
               | Some p \<Rightarrow> upstream_tx_packet api (dm_counters mac) (pi_source (fp_info p)) (pi_destination (fp_info p))
                   (fs_len (fp_payload p)) 0 fw)
     in (mac, fw))"

definition DummyMac_downstream :: "FrameworkApi \<Rightarrow> FfiPacket option \<Rightarrow> Messages \<Rightarrow> DummyMac layer \<Rightarrow> DummyMac layer" where
  "DummyMac_downstream api packet messages = (\<lambda>(mac, fw).
     let fw = (case packet of None \<Rightarrow> fw
               | Some p \<Rightarrow> downstream_rx_packet (dm_counters mac) (pi_source (fp_info p)) (pi_destination (fp_info p))
                   (fs_len (fp_payload p)) fw);
         fw = fw_call (SendDownstreamPacket (dm_id mac) packet messages) fw;
         fw = (case packet of None \<Rightarrow> fw
               | Some p \<Rightarrow> downstream_tx_packet api (dm_counters mac) (pi_source (fp_info p)) (pi_destination (fp_info p))
                   (fs_len (fp_payload p)) 0 False fw)
     in (mac, fw))"


section \<open>Timing analysis shim\<close>

definition CONTROL_TIMING_ANALYSIS_HEADER :: u32 where "CONTROL_TIMING_ANALYSIS_HEADER = 0x454D0006"

record TimingEntry =
  te_source :: u16
  te_packet_id :: u16
  te_tx_microseconds :: u64
  te_rx_microseconds :: u64

record TimingAnalysis =
  ta_id :: u16
  ta_max_queue_size :: u32
  ta_packet_id :: u16
  ta_entries :: "TimingEntry list"

definition TimingAnalysis_init :: "u16 \<Rightarrow> TimingAnalysis" where
  "TimingAnalysis_init nem_id = \<lparr>ta_id = nem_id, ta_max_queue_size = 0, ta_packet_id = 0, ta_entries = []\<rparr>"

definition TimingAnalysis_configure :: "FfiConfigRequest option \<Rightarrow> TimingAnalysis \<Rightarrow> (bool \<times> TimingAnalysis) panics" where
  "TimingAnalysis_configure request state =
     (case request of
        None \<Rightarrow> Some (False, state)
      | Some request \<Rightarrow>
          if cr_len request > 1 \<or> (cr_len request \<noteq> 0 \<and> cr_data request = None) then Some (False, state)
          else if cr_len request = 0 then Some (True, state)
          else do {
            items \<leftarrow> raw_parts (cr_data request) 1;
            item \<leftarrow> index_get items 0;
            if ci_name item = None \<or> ca_len (ci_values item) \<noteq> 1 \<or> ca_data (ci_values item) = None then Some (False, state)
            else do {
              name \<leftarrow> ci_name item;
              vals \<leftarrow> raw_parts (ca_data (ci_values item)) 1;
              v \<leftarrow> index_get vals 0;
              if name \<noteq> ''maxqueuesize'' then Some (False, state)
              else case v of
                None \<Rightarrow> Some (False, state)
              | Some raw \<Rightarrow>
                  (case to_str raw of
                     None \<Rightarrow> Some (False, state)
                   | Some text \<Rightarrow>
                       (case parse_u32 text of
                          None \<Rightarrow> Some (False, state)
                        | Some n \<Rightarrow> Some (True, state\<lparr>ta_max_queue_size := n\<rparr>))) } })"

text \<open>The loop of \<open>stop\<close> writes the entries in their order; the text of a line is left to the formatting of
  the language, so the lines are the entries.\<close>

definition TimingAnalysis_stop :: "bool \<Rightarrow> TimingAnalysis \<Rightarrow> TimingEntry list \<times> TimingAnalysis" where
  "TimingAnalysis_stop file_created state =
     (if ta_entries state = [] \<or> \<not> file_created then ([], state)
      else (ta_entries state, state\<lparr>ta_entries := []\<rparr>))"

text \<open>\<open>find_map\<close>: the first message of the type that decodes.\<close>

fun find_timing_header :: "FfiControlMessage list \<Rightarrow> TimingAnalysisHeader option panics" where
  "find_timing_header [] = Some None"
| "find_timing_header (m # ms) =
     (if fcm_msg_type m \<noteq> CONTROL_TIMING_ANALYSIS_HEADER \<or> fs_data (fcm_payload m) = None then find_timing_header ms
      else do {
        data \<leftarrow> slice_contents (fcm_payload m);
        header \<leftarrow> TimingAnalysisHeader_decode data;
        case header of None \<Rightarrow> find_timing_header ms | Some h \<Rightarrow> Some (Some h) })"

definition record_timing :: "TimingAnalysisHeader \<Rightarrow> u64 \<Rightarrow> TimingAnalysis \<Rightarrow> TimingAnalysis" where
  "record_timing header now state =
     (let entries = (if ta_max_queue_size state \<noteq> 0 \<and> length (ta_entries state) \<ge> unat (ta_max_queue_size state)
                     then tl (ta_entries state) else ta_entries state)
      in state\<lparr>ta_entries := entries @ [\<lparr>te_source = tah_source header, te_packet_id = tah_packet_id header,
           te_tx_microseconds = tah_tx_time_microseconds header, te_rx_microseconds = now\<rparr>]\<rparr>)"

definition not_timing_header :: "FfiControlMessage \<Rightarrow> bool" where
  "not_timing_header m \<longleftrightarrow> fcm_msg_type m \<noteq> CONTROL_TIMING_ANALYSIS_HEADER"

definition TimingAnalysis_upstream ::
  "FrameworkApi \<Rightarrow> FfiPacket option \<Rightarrow> Messages \<Rightarrow> TimingAnalysis layer \<Rightarrow> TimingAnalysis layer panics" where
  "TimingAnalysis_upstream api packet messages = (\<lambda>(state, fw).
     case controls messages of
       None \<Rightarrow> Some (state, fw)
     | Some incoming \<Rightarrow>
         (case packet of
            None \<Rightarrow> Some (state, fw_call (SendUpstreamControl (ta_id state) messages) fw)
          | Some p \<Rightarrow> do {
              header \<leftarrow> find_timing_header incoming;
              let state = (case header of None \<Rightarrow> state | Some header \<Rightarrow> record_timing header (unix_microseconds api fw) state);
              Some (state, fw_call (SendUpstreamPacket (ta_id state) (Some p) (messages_of (filter not_timing_header incoming))) fw) }))"

definition TimingAnalysis_downstream ::
  "FrameworkApi \<Rightarrow> FfiPacket option \<Rightarrow> Messages \<Rightarrow> TimingAnalysis layer \<Rightarrow> TimingAnalysis layer panics" where
  "TimingAnalysis_downstream api packet messages = (\<lambda>(state, fw).
     case controls messages of
       None \<Rightarrow> Some (state, fw)
     | Some incoming \<Rightarrow>
         (case packet of
            None \<Rightarrow> Some (state, fw_call (SendDownstreamControl (ta_id state) messages) fw)
          | Some p \<Rightarrow> do {
              let header = \<lparr>tah_tx_time_microseconds = unix_microseconds api fw, tah_source = ta_id state,
                            tah_packet_id = ta_packet_id state\<rparr>;
              let state = state\<lparr>ta_packet_id := ta_packet_id state + 1\<rparr>;
              body \<leftarrow> TimingAnalysisHeader_encode header;
              let outgoing = filter not_timing_header incoming @
                [\<lparr>fcm_msg_type = CONTROL_TIMING_ANALYSIS_HEADER, fcm_payload = slice_of body\<rparr>];
              Some (state, fw_call (SendDownstreamPacket (ta_id state) (Some p) (messages_of outgoing)) fw) }))"


section \<open>PHY API test shim\<close>

definition CONTROL_TX_FREQUENCY_SEGMENTS :: u32 where "CONTROL_TX_FREQUENCY_SEGMENTS = 0x454D0007"
definition CONTROL_TX_TRANSMITTERS :: u32 where "CONTROL_TX_TRANSMITTERS = 0x454D0008"
definition CONTROL_TX_ANTENNA_PROFILE :: u32 where "CONTROL_TX_ANTENNA_PROFILE = 0x454D0009"
definition TIMER_TRANSMIT :: u32 where "TIMER_TRANSMIT = 1"

text \<open>The segments of the shim have the fields of the segments of the interface.\<close>

record PhyApiTest =
  pt_id :: u16
  pt_packet_size :: u16
  pt_interval_microseconds :: u64
  pt_destination :: u16
  pt_bandwidth_hz :: u64
  pt_frequencies :: "TxFrequencySegment list"
  pt_transmitters :: "TxTransmitter list"
  pt_antenna_profile :: "TxAntennaProfile option"
  pt_tx_power_dbm :: f64
  pt_timer_id :: u64
  pt_bandwidth_configured :: bool

definition PhyApiTest_init :: "u16 \<Rightarrow> PhyApiTest" where
  "PhyApiTest_init nem_id =
     \<lparr>pt_id = nem_id, pt_packet_size = 128, pt_interval_microseconds = 1000000, pt_destination = 0xFFFF, pt_bandwidth_hz = 0,
      pt_frequencies = [], pt_transmitters = [], pt_antenna_profile = None, pt_tx_power_dbm = 0, pt_timer_id = 0,
      pt_bandwidth_configured = False\<rparr>"

definition phy_config_item :: "FfiConfigItem \<Rightarrow> (string \<times> string list) option panics" where
  "phy_config_item item =
     (case ci_name item of
        None \<Rightarrow> Some None
      | Some raw_name \<Rightarrow>
          if ca_len (ci_values item) > 255 \<or> (ca_len (ci_values item) \<noteq> 0 \<and> ca_data (ci_values item) = None) then Some None
          else case to_str raw_name of
            None \<Rightarrow> Some None
          | Some name \<Rightarrow> do {
              raw \<leftarrow> raw_parts (ca_data (ci_values item)) (ca_len (ci_values item));
              vs \<leftarrow> collect_option config_value raw;
              Some (map_option (\<lambda>vs. (name, vs)) vs) })"

definition phy_config_items :: "FfiConfigRequest option \<Rightarrow> (string \<times> string list) list option panics" where
  "phy_config_items request =
     (case request of
        None \<Rightarrow> Some None
      | Some request \<Rightarrow>
          if cr_len request > 4096 \<or> (cr_len request \<noteq> 0 \<and> cr_data request = None) then Some None
          else do {
            items \<leftarrow> raw_parts (cr_data request) (cr_len request);
            collect_option phy_config_item items })"

definition scale_suffix :: "string \<Rightarrow> string \<times> int" where
  "scale_suffix v =
     (if v = [] then (v, 1)
      else if last v \<in> {CHR ''K'', CHR ''k''} then (butlast v, 1000)
      else if last v \<in> {CHR ''M'', CHR ''m''} then (butlast v, 1000000)
      else if last v \<in> {CHR ''G'', CHR ''g''} then (butlast v, 1000000000)
      else (v, 1))"

definition parse_scaled_u64 :: "string \<Rightarrow> u64 option" where
  "parse_scaled_u64 v = do {
     let (number, multiplier) = scale_suffix (trim v);
     number \<leftarrow> parse_f64 number;
     let scaled = f64_mul number (f64_of_int multiplier);
     if f64_le 0 number \<and> f64_is_finite scaled \<and> f64_le scaled U64_MAX_AS_F64
     then Some (f64_round_as_u64 scaled) else None }"

definition phy_seconds_to_microseconds :: "string \<Rightarrow> u64 option" where
  "phy_seconds_to_microseconds v = do {
     seconds \<leftarrow> parse_f64 v;
     let microseconds = f64_mul seconds F64_1E6;
     if f64_is_finite seconds \<and> f64_le 0 seconds \<and> f64_le microseconds U64_MAX_AS_F64
     then Some (f64_round_as_u64 microseconds) else None }"

definition parse_frequency :: "string \<Rightarrow> TxFrequencySegment option" where
  "parse_frequency v =
     (case split_on CHR '':'' v of
        f # fs \<Rightarrow> do {
          hz \<leftarrow> parse_scaled_u64 f;
          (case fs of
             d # fs \<Rightarrow> do {
               duration \<leftarrow> phy_seconds_to_microseconds d;
               (case fs of
                  x # fs \<Rightarrow> do {
                    offset \<leftarrow> phy_seconds_to_microseconds x;
                    if fs = [] then Some \<lparr>tfs_frequency_hz = hz, tfs_duration_microseconds = duration,
                                          tfs_offset_microseconds = offset\<rparr>
                    else None }
                | [] \<Rightarrow> None) }
           | [] \<Rightarrow> None) }
      | [] \<Rightarrow> None)"

definition parse_packet_rate :: "string \<Rightarrow> u64 option" where
  "parse_packet_rate v = do {
     rate \<leftarrow> parse_f64 v;
     if \<not> f64_is_finite rate \<or> f64_lt rate 0 then None
     else if f64_is_zero rate then Some 0
     else do {
       let interval = f64_div F64_1E6 rate;
       if f64_lt U64_MAX_AS_F64 interval then None
       else Some (f64_round_as_u64 (if f64_lt interval (f64_of_int 1) then f64_of_int 1 else interval)) } }"

definition parse_transmitter :: "string \<Rightarrow> TxTransmitter option" where
  "parse_transmitter v =
     (case split_on CHR '':'' v of
        [nem_id, tx_power] \<Rightarrow> do {
          nem_id \<leftarrow> parse_u16 nem_id;
          tx_power_dbm \<leftarrow> parse_f64 tx_power;
          if nem_id = 0 \<or> \<not> f64_is_finite tx_power_dbm then None
          else Some \<lparr>ttx_nem_id = nem_id, ttx_tx_power_dbm = tx_power_dbm\<rparr> }
      | _ \<Rightarrow> None)"

text \<open>The loops over the values clear the list first and keep what they have pushed when a value fails.\<close>

fun parse_all :: "(string \<Rightarrow> 'a option) \<Rightarrow> string list \<Rightarrow> bool \<times> 'a list" where
  "parse_all parse [] = (True, [])"
| "parse_all parse (v # vs) =
     (case parse v of None \<Rightarrow> (False, []) | Some x \<Rightarrow> (let (ok, xs) = parse_all parse vs in (ok, x # xs)))"

definition with_profile :: "u16 \<Rightarrow> f64 \<Rightarrow> f64 \<Rightarrow> (TxAntennaProfile \<Rightarrow> TxAntennaProfile) \<Rightarrow> PhyApiTest \<Rightarrow> PhyApiTest" where
  "with_profile profile_id azimuth elevation f state =
     state\<lparr>pt_antenna_profile := Some (f (unwrap_or (pt_antenna_profile state)
       \<lparr>tap_profile_id = profile_id, tap_azimuth_degrees = azimuth, tap_elevation_degrees = elevation\<rparr>))\<rparr>"

definition parse_degrees :: "f64 \<Rightarrow> f64 \<Rightarrow> string \<Rightarrow> f64 option" where
  "parse_degrees lo hi v = do {
     degrees \<leftarrow> parse_f64 v;
     if f64_is_finite degrees \<and> f64_in_range lo hi degrees then Some degrees else None }"

definition phy_configure_item :: "string \<Rightarrow> string list \<Rightarrow> PhyApiTest \<Rightarrow> bool \<times> PhyApiTest" where
  "phy_configure_item name vs state =
     (let one = (case vs of [v] \<Rightarrow> True | _ \<Rightarrow> False); v = (case vs of v # _ \<Rightarrow> v | [] \<Rightarrow> [])
      in if name = ''packetsize'' \<and> one then
           (case parse_u16 v of None \<Rightarrow> (False, state)
            | Some n \<Rightarrow> if n = 0 then (False, state) else (True, state\<lparr>pt_packet_size := n\<rparr>))
         else if name = ''packetrate'' \<and> one then
           (case parse_packet_rate v of None \<Rightarrow> (False, state)
            | Some n \<Rightarrow> (True, state\<lparr>pt_interval_microseconds := n\<rparr>))
         else if name = ''destination'' \<and> one then
           (case parse_u16 v of None \<Rightarrow> (False, state) | Some n \<Rightarrow> (True, state\<lparr>pt_destination := n\<rparr>))
         else if name = ''bandwidth'' \<and> one then
           (case parse_scaled_u64 v of None \<Rightarrow> (False, state)
            | Some n \<Rightarrow> if n = 0 then (False, state)
                       else (True, state\<lparr>pt_bandwidth_hz := n, pt_bandwidth_configured := True\<rparr>))
         else if name = ''frequency'' \<and> length vs \<le> 255 then
           (let (ok, segments) = parse_all parse_frequency vs in (ok, state\<lparr>pt_frequencies := segments\<rparr>))
         else if name = ''txpower'' \<and> one then
           (case parse_f64 v of None \<Rightarrow> (False, state)
            | Some n \<Rightarrow> if \<not> f64_is_finite n then (False, state) else (True, state\<lparr>pt_tx_power_dbm := n\<rparr>))
         else if name = ''transmitter'' \<and> length vs \<le> 255 then
           (let (ok, ts) = parse_all parse_transmitter vs in (ok, state\<lparr>pt_transmitters := ts\<rparr>))
         else if name = ''antennaprofileid'' \<and> one then
           (case parse_u16 v of None \<Rightarrow> (False, state)
            | Some n \<Rightarrow> if n = 0 then (False, state)
                       else (True, with_profile n 0 0 (\<lambda>p. p\<lparr>tap_profile_id := n\<rparr>) state))
         else if name = ''antennaazimuth'' \<and> one then
           (case parse_degrees 0 0x4076800000000000 v of None \<Rightarrow> (False, state)
            | Some d \<Rightarrow> (True, with_profile 0 d 0 (\<lambda>p. p\<lparr>tap_azimuth_degrees := d\<rparr>) state))
         else if name = ''antennaelevation'' \<and> one then
           (case parse_degrees 0xC056800000000000 0x4056800000000000 v of None \<Rightarrow> (False, state)
            | Some d \<Rightarrow> (True, with_profile 0 0 d (\<lambda>p. p\<lparr>tap_elevation_degrees := d\<rparr>) state))
         else (False, state))"

fun phy_configure_items :: "(string \<times> string list) list \<Rightarrow> PhyApiTest \<Rightarrow> bool \<times> PhyApiTest" where
  "phy_configure_items [] state = (True, state)"
| "phy_configure_items ((name, vs) # items) state =
     (let (ok, state) = phy_configure_item name vs state
      in if ok then phy_configure_items items state else (False, state))"

definition PhyApiTest_configure :: "FfiConfigRequest option \<Rightarrow> PhyApiTest \<Rightarrow> (bool \<times> PhyApiTest) panics" where
  "PhyApiTest_configure request state = do {
     items \<leftarrow> phy_config_items request;
     case items of None \<Rightarrow> Some (False, state) | Some items \<Rightarrow> Some (phy_configure_items items state) }"

definition PhyApiTest_start :: "PhyApiTest option \<Rightarrow> bool" where
  "PhyApiTest_start plugin = (case plugin of None \<Rightarrow> False | Some state \<Rightarrow> pt_bandwidth_configured state)"

definition schedule_next :: "FrameworkApi \<Rightarrow> PhyApiTest layer \<Rightarrow> PhyApiTest layer" where
  "schedule_next api = (\<lambda>(state, fw).
     if pt_interval_microseconds state = 0 then (state, fw)
     else (let (timer, fw) = fw_ask api (ScheduleTimedEvent (pt_id state) (pt_interval_microseconds state div 1000000)
                 (ucast (pt_interval_microseconds state mod 1000000)) TIMER_TRANSMIT \<lparr>fs_data = None, fs_len = 0\<rparr>) fw
           in (state\<lparr>pt_timer_id := timer\<rparr>, fw)))"

definition PhyApiTest_stop :: "PhyApiTest layer \<Rightarrow> PhyApiTest layer" where
  "PhyApiTest_stop = (\<lambda>(state, fw).
     if pt_timer_id state \<noteq> 0
     then (state\<lparr>pt_timer_id := 0\<rparr>, fw_call (CancelTimedEvent (pt_id state) (pt_timer_id state)) fw)
     else (state, fw))"

definition test_packet :: "u64 \<Rightarrow> PhyApiTest \<Rightarrow> FfiPacket panics" where
  "test_packet now state = do {
     payload \<leftarrow> index_set (replicate (unat (pt_packet_size state)) 0) 0 0xBE;
     Some \<lparr>fp_info = \<lparr>pi_source = pt_id state, pi_destination = pt_destination state, pi_priority = 0,
                       pi_creation_time_sec = now div 1000000, pi_creation_time_usec = ucast (now mod 1000000)\<rparr>,
           fp_payload = slice_of payload\<rparr> }"

definition test_properties :: "u64 \<Rightarrow> PhyApiTest \<Rightarrow> TxProperties" where
  "test_properties now state =
     (let first = (case pt_frequencies state of [] \<Rightarrow> \<lparr>tfs_frequency_hz = 0, tfs_duration_microseconds = 0, tfs_offset_microseconds = 0\<rparr>
                   | f # _ \<Rightarrow> f)
      in \<lparr>txp_frequency_hz = tfs_frequency_hz first, txp_bandwidth_hz = pt_bandwidth_hz state,
          txp_tx_power_dbm = pt_tx_power_dbm state, txp_duration_microseconds = tfs_duration_microseconds first,
          txp_offset_microseconds = tfs_offset_microseconds first, txp_tx_time_microseconds = now,
          txp_antenna_index = 0, txp_spectral_mask_index = 0, txp_sub_id = 0\<rparr>)"

definition message_of :: "u32 \<Rightarrow> byte list option \<Rightarrow> FfiControlMessage list" where
  "message_of t bytes = (case bytes of None \<Rightarrow> [] | Some b \<Rightarrow> [\<lparr>fcm_msg_type = t, fcm_payload = slice_of b\<rparr>])"

definition test_controls :: "u64 \<Rightarrow> PhyApiTest \<Rightarrow> FfiControlMessage list panics" where
  "test_controls now state = do {
     properties \<leftarrow> TxProperties_encode (test_properties now state);
     let segment_bytes = (if pt_frequencies state = [] then None else TxFrequencySegments_encode (pt_frequencies state));
     let transmitter_bytes = (if pt_transmitters state = [] then None else TxTransmitters_encode (pt_transmitters state));
     antenna_bytes \<leftarrow> (case pt_antenna_profile state of None \<Rightarrow> Some None | Some profile \<Rightarrow> TxAntennaProfile_encode profile);
     Some (message_of CONTROL_TX_PROPERTIES (Some properties)
           @ message_of CONTROL_TX_FREQUENCY_SEGMENTS segment_bytes
           @ message_of CONTROL_TX_TRANSMITTERS transmitter_bytes
           @ message_of CONTROL_TX_ANTENNA_PROFILE antenna_bytes) }"

definition PhyApiTest_timed :: "FrameworkApi \<Rightarrow> u32 \<Rightarrow> PhyApiTest layer \<Rightarrow> PhyApiTest layer panics" where
  "PhyApiTest_timed api event_id = (\<lambda>(state, fw).
     if event_id \<noteq> TIMER_TRANSMIT then Some (state, fw)
     else do {
       let now = unix_microseconds api fw;
       packet \<leftarrow> test_packet now state;
       messages \<leftarrow> test_controls now state;
       Some (schedule_next api (state, fw_call (SendDownstreamPacket (pt_id state) (Some packet) (messages_of messages)) fw)) })"


section \<open>Layers with a header\<close>

text \<open>A layer that marks packets: the number of its header, how a header it accepts looks, its two handlers.
  Going down, the layer removes messages with the number of its header, appends a header and sends the packet
  once; going up, it takes its header off and sends the packet once.\<close>

locale header_layer =
  fixes own :: u32
    and is_header :: "FfiControlMessage \<Rightarrow> bool"
    and layer_id :: "'s \<Rightarrow> u16"
    and down :: "FrameworkApi \<Rightarrow> FfiPacket option \<Rightarrow> Messages \<Rightarrow> 's layer \<Rightarrow> 's layer panics"
    and up :: "FrameworkApi \<Rightarrow> FfiPacket option \<Rightarrow> Messages \<Rightarrow> 's layer \<Rightarrow> 's layer panics"
  assumes header_type: "is_header h \<Longrightarrow> fcm_msg_type h = own"
    and down_marks: "controls ms = Some incoming \<Longrightarrow>
      \<exists>s' fw' h. is_header h \<and> down api (Some p) ms (s, fw) = Some (s', fw') \<and>
        acts_between fw fw' [SendDownstreamPacket (layer_id s) (Some p)
          (messages_of (filter (\<lambda>m. fcm_msg_type m \<noteq> own) incoming @ [h]))]"
    and up_strips: "is_header h \<Longrightarrow> list_all (\<lambda>m. fcm_msg_type m \<noteq> own) others \<Longrightarrow> length others < 4096 \<Longrightarrow>
      \<exists>s' fw'. up api (Some p) (messages_of (others @ [h])) (s, fw) = Some (s', fw') \<and>
        acts_between fw fw' [SendUpstreamPacket (layer_id s) (Some p) (messages_of others)]"

text \<open>Two such layers with different headers on top of each other, at the sender (\<open>su\<close>, \<open>sl\<close>) and at the
  receiver (\<open>ru\<close>, \<open>rl\<close>).\<close>

locale header_stack =
  upper: header_layer own_u is_header_u id_u down_u up_u + lower: header_layer own_l is_header_l id_l down_l up_l
  for own_u is_header_u id_u and down_u :: "FrameworkApi \<Rightarrow> FfiPacket option \<Rightarrow> Messages \<Rightarrow> 's layer \<Rightarrow> 's layer panics" and up_u
    and own_l is_header_l id_l and down_l :: "FrameworkApi \<Rightarrow> FfiPacket option \<Rightarrow> Messages \<Rightarrow> 't layer \<Rightarrow> 't layer panics" and up_l +
  assumes distinct_headers: "own_u \<noteq> own_l"
begin

lemma controls_messages_of: "length ms \<le> 4096 \<Longrightarrow> controls (messages_of ms) = Some ms"
  by (auto simp: controls_def messages_of_def)

lemma transparent:
  assumes ms: "controls ms = Some incoming"
    and room: "length (filter (\<lambda>m. fcm_msg_type m \<noteq> own_u \<and> fcm_msg_type m \<noteq> own_l) incoming) < 4095"
    and fits: "length (filter (\<lambda>m. fcm_msg_type m \<noteq> own_u) incoming) < 4096"
  shows "\<exists>su' fsu m1 sl' fsl m2 rl' frl m3 ru' fru.
    down_u api_s (Some p) ms (su, fw1) = Some (su', fsu) \<and> acts_between fw1 fsu [SendDownstreamPacket (id_u su) (Some p) m1] \<and>
    down_l api_s (Some p) m1 (sl, fw2) = Some (sl', fsl) \<and> acts_between fw2 fsl [SendDownstreamPacket (id_l sl) (Some p) m2] \<and>
    up_l api_r (Some p) m2 (rl, fw3) = Some (rl', frl) \<and> acts_between fw3 frl [SendUpstreamPacket (id_l rl) (Some p) m3] \<and>
    up_u api_r (Some p) m3 (ru, fw4) = Some (ru', fru) \<and>
    acts_between fw4 fru [SendUpstreamPacket (id_u ru) (Some p)
      (messages_of (filter (\<lambda>m. fcm_msg_type m \<noteq> own_u \<and> fcm_msg_type m \<noteq> own_l) incoming))]"
proof -
  define rest where "rest = filter (\<lambda>m. fcm_msg_type m \<noteq> own_u \<and> fcm_msg_type m \<noteq> own_l) incoming"
  obtain su' fsu hu where u: "is_header_u hu" "down_u api_s (Some p) ms (su, fw1) = Some (su', fsu)"
    "acts_between fw1 fsu [SendDownstreamPacket (id_u su) (Some p) (messages_of (filter (\<lambda>m. fcm_msg_type m \<noteq> own_u) incoming @ [hu]))]"
    using upper.down_marks [OF ms, of api_s p su fw1] by blast
  let ?out = "filter (\<lambda>m. fcm_msg_type m \<noteq> own_u) incoming @ [hu]"
  have c: "controls (messages_of ?out) = Some ?out" using fits by (intro controls_messages_of) simp
  have f: "filter (\<lambda>m. fcm_msg_type m \<noteq> own_l) ?out = rest @ [hu]"
    using upper.header_type [OF u(1)] distinct_headers by (simp add: rest_def conj_commute)
  obtain sl' fsl hl where l: "is_header_l hl" "down_l api_s (Some p) (messages_of ?out) (sl, fw2) = Some (sl', fsl)"
    "acts_between fw2 fsl [SendDownstreamPacket (id_l sl) (Some p) (messages_of ((rest @ [hu]) @ [hl]))]"
    using lower.down_marks [OF c, of api_s p sl fw2] unfolding f by blast
  have types: "list_all (\<lambda>m. fcm_msg_type m \<noteq> own_l) (rest @ [hu])" "list_all (\<lambda>m. fcm_msg_type m \<noteq> own_u) rest"
    using upper.header_type [OF u(1)] distinct_headers by (auto simp: rest_def list_all_iff)
  have len: "length (rest @ [hu]) < 4096" "length rest < 4096" using room by (simp_all add: rest_def)
  obtain rl' frl where r: "up_l api_r (Some p) (messages_of ((rest @ [hu]) @ [hl])) (rl, fw3) = Some (rl', frl)"
    "acts_between fw3 frl [SendUpstreamPacket (id_l rl) (Some p) (messages_of (rest @ [hu]))]"
    using lower.up_strips [OF l(1) types(1) len(1), of api_r p rl fw3] by blast
  obtain ru' fru where t: "up_u api_r (Some p) (messages_of (rest @ [hu])) (ru, fw4) = Some (ru', fru)"
    "acts_between fw4 fru [SendUpstreamPacket (id_u ru) (Some p) (messages_of rest)]"
    using upper.up_strips [OF u(1) types(2) len(2), of api_r p ru fw4] by blast
  show ?thesis using u(2,3) l(2,3) r t unfolding rest_def by blast
qed

end

text \<open>The headers of the two plugins.\<close>

definition is_bypass_header :: "FfiControlMessage \<Rightarrow> bool" where
  "is_bypass_header m \<longleftrightarrow>
     (\<exists>seq b. ModelHeader_encode (bypass_header seq) = Some b \<and>
        m = \<lparr>fcm_msg_type = CONTROL_MODEL_HEADER, fcm_payload = slice_of b\<rparr>)"

definition is_timing_header :: "FfiControlMessage \<Rightarrow> bool" where
  "is_timing_header m \<longleftrightarrow>
     (\<exists>header b. TimingAnalysisHeader_encode header = Some b \<and>
        m = \<lparr>fcm_msg_type = CONTROL_TIMING_ANALYSIS_HEADER, fcm_payload = slice_of b\<rparr>)"

lemma header_types:
  "is_bypass_header h \<Longrightarrow> fcm_msg_type h = CONTROL_MODEL_HEADER"
  "is_timing_header h \<Longrightarrow> fcm_msg_type h = CONTROL_TIMING_ANALYSIS_HEADER"
  by (auto simp: is_bypass_header_def is_timing_header_def)

lemma slice_contents_slice_of [simp]: "slice_contents (slice_of b) = Some b"
  by (simp add: slice_contents_def slice_of_def raw_parts_def)

lemma slice_of_fields: "fs_data (slice_of b) = Some b" "fs_len (slice_of b) = length b"
  by (simp_all add: slice_of_def)

lemma bypass_header_valid_sent:
  assumes "is_bypass_header h" "list_all (\<lambda>m. fcm_msg_type m \<noteq> CONTROL_MODEL_HEADER) ms"
  shows "bypass_header_valid (ms @ [h]) = Some True"
proof -
  obtain seq b where b: "ModelHeader_encode (bypass_header seq) = Some b"
    "h = \<lparr>fcm_msg_type = CONTROL_MODEL_HEADER, fcm_payload = slice_of b\<rparr>"
    using assms(1) by (auto simp: is_bypass_header_def)
  have "ModelHeader_decode b = Some (Some (bypass_header seq))"
    using model_header.roundtrip [of "bypass_header seq" b] b(1) by simp
  moreover have "length b = 24" using b(1) by (auto simp: ModelHeader_bytes)
  ultimately have "bypass_header_valid [h] = Some True"
    by (simp add: b(2) slice_of_fields bypass_header_def)
  then show ?thesis using assms(2) by (induction ms) simp_all
qed

lemma find_timing_header_sent:
  assumes "is_timing_header h" "list_all (\<lambda>m. fcm_msg_type m \<noteq> CONTROL_TIMING_ANALYSIS_HEADER) ms"
  shows "\<exists>header. find_timing_header (ms @ [h]) = Some (Some header)"
proof -
  obtain header b where b: "TimingAnalysisHeader_encode header = Some b"
    "h = \<lparr>fcm_msg_type = CONTROL_TIMING_ANALYSIS_HEADER, fcm_payload = slice_of b\<rparr>"
    using assms(1) by (auto simp: is_timing_header_def)
  have "TimingAnalysisHeader_decode b = Some (Some header)"
    using timing_analysis_header.roundtrip [of header b] b(1) by simp
  then have "find_timing_header [h] = Some (Some header)" by (simp add: b(2) slice_of_fields)
  then show ?thesis using assms(2) by (induction ms) simp_all
qed

lemma filter_own:
  "list_all (\<lambda>m. fcm_msg_type m \<noteq> own) ms \<Longrightarrow> fcm_msg_type h = own \<Longrightarrow> filter (\<lambda>m. fcm_msg_type m \<noteq> own) (ms @ [h]) = ms"
  by (simp add: list_all_iff)

lemma send_acts: "acts_between fw f2 [] \<Longrightarrow> \<not> counting_call c \<Longrightarrow> acts_between fw (fw_call c f2) [c]"
  using acts_quiet_left [of fw f2 "fw_call c f2" "[c]"] acts_call [of f2 c] by simp

lemma bypass_down:
  assumes "controls ms = Some incoming"
  shows "\<exists>s' fw' h. is_bypass_header h \<and> BypassMac_downstream api (Some p) ms (s, fw) = Some (s', fw') \<and>
    acts_between fw fw' [SendDownstreamPacket (bm_id s) (Some p)
      (messages_of (filter (\<lambda>m. fcm_msg_type m \<noteq> CONTROL_MODEL_HEADER) incoming @ [h]))]"
proof -
  obtain b where b: "ModelHeader_encode (bypass_header (bm_sequence s)) = Some b" by (simp add: ModelHeader_bytes)
  define h where "h = \<lparr>fcm_msg_type = CONTROL_MODEL_HEADER, fcm_payload = slice_of b\<rparr>"
  have h: "is_bypass_header h" using b by (auto simp: h_def is_bypass_header_def)
  have same: "bm_id (s\<lparr>bm_sequence := n\<rparr>) = bm_id s" for n by simp
  show ?thesis
    unfolding BypassMac_downstream_def not_model_header_def prod.case option.case assms Let_def b bind.bind_lunit h_def [symmetric] same
    by (intro exI conjI, rule h, rule refl, rule send_acts)
       (rule acts_quiet_left [OF counters_quiet(2) counters_quiet(4)], simp)
qed

lemma bypass_up:
  assumes "is_bypass_header h" "list_all (\<lambda>m. fcm_msg_type m \<noteq> CONTROL_MODEL_HEADER) ms" "length ms < 4096"
  shows "\<exists>s' fw'. BypassMac_upstream api (Some p) (messages_of (ms @ [h])) (s, fw) = Some (s', fw') \<and>
    acts_between fw fw' [SendUpstreamPacket (bm_id s) (Some p) (messages_of ms)]"
proof -
  have c: "controls (messages_of (ms @ [h])) = Some (ms @ [h])" using assms(3) by (simp add: controls_def messages_of_def)
  have f: "filter not_model_header (ms @ [h]) = ms"
    unfolding not_model_header_def using assms(1,2) by (intro filter_own) (auto simp: is_bypass_header_def)
  show ?thesis
    unfolding BypassMac_upstream_def prod.case option.case c Let_def bypass_header_valid_sent [OF assms(1,2)] bind.bind_lunit f
      not_True_eq_False if_False
    by (intro exI conjI, rule refl, rule send_acts)
       (rule acts_quiet_left [OF counters_quiet(1) counters_quiet(3)], simp)
qed

interpretation bypass_mac: header_layer CONTROL_MODEL_HEADER is_bypass_header bm_id BypassMac_downstream BypassMac_upstream
  by unfold_locales (rule header_types bypass_down bypass_up; assumption)+

lemma timing_down:
  assumes "controls ms = Some incoming"
  shows "\<exists>s' fw' h. is_timing_header h \<and> TimingAnalysis_downstream api (Some p) ms (s, fw) = Some (s', fw') \<and>
    acts_between fw fw' [SendDownstreamPacket (ta_id s) (Some p)
      (messages_of (filter (\<lambda>m. fcm_msg_type m \<noteq> CONTROL_TIMING_ANALYSIS_HEADER) incoming @ [h]))]"
proof -
  define header where "header = \<lparr>tah_tx_time_microseconds = unix_microseconds api fw, tah_source = ta_id s, tah_packet_id = ta_packet_id s\<rparr>"
  obtain b where b: "TimingAnalysisHeader_encode header = Some b" by (simp add: TimingAnalysisHeader_bytes)
  define h where "h = \<lparr>fcm_msg_type = CONTROL_TIMING_ANALYSIS_HEADER, fcm_payload = slice_of b\<rparr>"
  have h: "is_timing_header h" using b by (auto simp: h_def is_timing_header_def)
  have same: "ta_id (s\<lparr>ta_packet_id := n\<rparr>) = ta_id s" for n by simp
  show ?thesis
    unfolding TimingAnalysis_downstream_def not_timing_header_def prod.case option.case assms Let_def header_def [symmetric] b
      bind.bind_lunit h_def [symmetric] same
    by (intro exI conjI, rule h, rule refl, rule send_acts) simp_all
qed

lemma timing_up:
  assumes "is_timing_header h" "list_all (\<lambda>m. fcm_msg_type m \<noteq> CONTROL_TIMING_ANALYSIS_HEADER) ms" "length ms < 4096"
  shows "\<exists>s' fw'. TimingAnalysis_upstream api (Some p) (messages_of (ms @ [h])) (s, fw) = Some (s', fw') \<and>
    acts_between fw fw' [SendUpstreamPacket (ta_id s) (Some p) (messages_of ms)]"
proof -
  have c: "controls (messages_of (ms @ [h])) = Some (ms @ [h])" using assms(3) by (simp add: controls_def messages_of_def)
  have f: "filter not_timing_header (ms @ [h]) = ms"
    unfolding not_timing_header_def using assms(1,2) by (intro filter_own) (auto simp: is_timing_header_def)
  obtain header where header: "find_timing_header (ms @ [h]) = Some (Some header)"
    using find_timing_header_sent [OF assms(1,2)] by blast
  have i: "ta_id (record_timing header now s) = ta_id s" for now by (simp add: record_timing_def Let_def)
  show ?thesis
    unfolding TimingAnalysis_upstream_def prod.case option.case c Let_def header bind.bind_lunit f i
    by (intro exI conjI, rule refl, rule send_acts) simp_all
qed

interpretation timing_shim: header_layer CONTROL_TIMING_ANALYSIS_HEADER is_timing_header ta_id
  TimingAnalysis_downstream TimingAnalysis_upstream
  by unfold_locales (rule header_types timing_down timing_up; assumption)+

interpretation timing_over_bypass: header_stack CONTROL_TIMING_ANALYSIS_HEADER is_timing_header ta_id
  TimingAnalysis_downstream TimingAnalysis_upstream
  CONTROL_MODEL_HEADER is_bypass_header bm_id BypassMac_downstream BypassMac_upstream
  by unfold_locales (simp add: CONTROL_TIMING_ANALYSIS_HEADER_def CONTROL_MODEL_HEADER_def)

text \<open>C13: The headers of a stack of layers are transparent. A packet sent down through the timing analysis shim and
  the bypass MAC of one node and handed up through the bypass MAC and the timing analysis shim of another is
  sent up exactly once by each, unchanged, and its control messages arrive in their order without those that
  carry the numbers of the two headers; no handler panics, whatever the states of the four layers.\<close>

theorem stacked_layers_transparent:
  assumes "controls ms = Some incoming"
    and "length (filter (\<lambda>m. fcm_msg_type m \<noteq> CONTROL_TIMING_ANALYSIS_HEADER \<and> fcm_msg_type m \<noteq> CONTROL_MODEL_HEADER) incoming) < 4095"
    and "length (filter (\<lambda>m. fcm_msg_type m \<noteq> CONTROL_TIMING_ANALYSIS_HEADER) incoming) < 4096"
  shows "\<exists>st' f1 m1 sb' f2 m2 rb' f3 m3 rt' f4.
    TimingAnalysis_downstream api_s (Some p) ms (st, fw1) = Some (st', f1) \<and>
    acts_between fw1 f1 [SendDownstreamPacket (ta_id st) (Some p) m1] \<and>
    BypassMac_downstream api_s (Some p) m1 (sb, fw2) = Some (sb', f2) \<and>
    acts_between fw2 f2 [SendDownstreamPacket (bm_id sb) (Some p) m2] \<and>
    BypassMac_upstream api_r (Some p) m2 (rb, fw3) = Some (rb', f3) \<and>
    acts_between fw3 f3 [SendUpstreamPacket (bm_id rb) (Some p) m3] \<and>
    TimingAnalysis_upstream api_r (Some p) m3 (rt, fw4) = Some (rt', f4) \<and>
    acts_between fw4 f4 [SendUpstreamPacket (ta_id rt) (Some p)
      (messages_of (filter (\<lambda>m. fcm_msg_type m \<noteq> CONTROL_TIMING_ANALYSIS_HEADER \<and> fcm_msg_type m \<noteq> CONTROL_MODEL_HEADER) incoming))]"
  by (rule timing_over_bypass.transparent [OF assms])

definition witness_layer_api :: FrameworkApi where
  "witness_layer_api = \<lparr>api_answer = (\<lambda>_. 1), api_table_generation = (\<lambda>_ _. 0), api_elapsed = (\<lambda>_. 5), api_now = (\<lambda>_. 1000)\<rparr>"

definition witness_layer_fw :: Framework where
  "witness_layer_fw = \<lparr>fw_calls = [], fw_table_states = Map.empty\<rparr>"

definition witness_layer_packet :: FfiPacket where
  "witness_layer_packet = \<lparr>fp_info = \<lparr>pi_source = 1, pi_destination = 2, pi_priority = 0, pi_creation_time_sec = 0,
     pi_creation_time_usec = 0\<rparr>, fp_payload = slice_of [1, 2, 3]\<rparr>"

theorem stacked_layers_transparent_witness:
  "\<exists>st' f1 m1 rt' f4.
    TimingAnalysis_downstream witness_layer_api (Some witness_layer_packet) (None, 0) (TimingAnalysis_init 1, witness_layer_fw) = Some (st', f1) \<and>
    acts_between witness_layer_fw f1 [SendDownstreamPacket 1 (Some witness_layer_packet) m1] \<and>
    acts_between witness_layer_fw f4 [SendUpstreamPacket 2 (Some witness_layer_packet) (messages_of [])]"
proof -
  have c: "controls (None, 0) = Some []" by (simp add: controls_def)
  from stacked_layers_transparent [OF c, of witness_layer_api witness_layer_packet "TimingAnalysis_init 1" witness_layer_fw
      undefined witness_layer_fw witness_layer_api undefined witness_layer_fw "TimingAnalysis_init 2" witness_layer_fw]
  show ?thesis by (auto simp: TimingAnalysis_init_def)
qed


section \<open>The timing log\<close>

datatype TimingStep = TimingUp "FfiPacket option" Messages | TimingDown "FfiPacket option" Messages

fun timing_step :: "FrameworkApi \<Rightarrow> TimingStep \<Rightarrow> TimingAnalysis layer \<Rightarrow> TimingAnalysis layer panics" where
  "timing_step api (TimingUp packet messages) st = TimingAnalysis_upstream api packet messages st"
| "timing_step api (TimingDown packet messages) st = TimingAnalysis_downstream api packet messages st"

fun timing_run :: "FrameworkApi \<Rightarrow> TimingStep list \<Rightarrow> TimingAnalysis layer \<Rightarrow> TimingAnalysis layer panics" where
  "timing_run api [] st = Some st"
| "timing_run api (x # xs) st = do { st \<leftarrow> timing_step api x st; timing_run api xs st }"

text \<open>What a step is to record: a packet from below with a readable header.\<close>

fun timing_entry :: "FrameworkApi \<Rightarrow> TimingStep \<Rightarrow> Framework \<Rightarrow> TimingEntry list" where
  "timing_entry api (TimingUp (Some p) messages) fw =
     (case controls messages of
        None \<Rightarrow> []
      | Some ms \<Rightarrow>
          (case find_timing_header ms of
             Some (Some h) \<Rightarrow> [\<lparr>te_source = tah_source h, te_packet_id = tah_packet_id h,
               te_tx_microseconds = tah_tx_time_microseconds h, te_rx_microseconds = unix_microseconds api fw\<rparr>]
           | _ \<Rightarrow> []))"
| "timing_entry api _ fw = []"

fun timing_log :: "FrameworkApi \<Rightarrow> TimingStep list \<Rightarrow> TimingAnalysis layer \<Rightarrow> TimingEntry list" where
  "timing_log api [] st = []"
| "timing_log api (x # xs) st =
     timing_entry api x (snd st) @ (case timing_step api x st of None \<Rightarrow> [] | Some st' \<Rightarrow> timing_log api xs st')"

definition latest :: "u32 \<Rightarrow> 'a list \<Rightarrow> 'a list" where
  "latest n xs = (if n = 0 then xs else drop (length xs - unat n) xs)"

lemma latest_push:
  "latest n (xs @ [x]) =
    (if n \<noteq> 0 \<and> length (latest n xs) \<ge> unat n then tl (latest n xs) else latest n xs) @ [x]"
proof (cases "n = 0")
  case False
  then have "0 < unat n" by (simp add: unat_gt_0)
  then show ?thesis using False by (auto simp: latest_def tl_drop drop_Suc [symmetric] Suc_diff_le)
qed (simp add: latest_def)

lemma record_timing_latest:
  "ta_entries s = latest (ta_max_queue_size s) log \<Longrightarrow>
    ta_entries (record_timing h now s) = latest (ta_max_queue_size s) (log @ [\<lparr>te_source = tah_source h,
      te_packet_id = tah_packet_id h, te_tx_microseconds = tah_tx_time_microseconds h, te_rx_microseconds = now\<rparr>]) \<and>
    ta_max_queue_size (record_timing h now s) = ta_max_queue_size s"
  by (simp add: record_timing_def Let_def latest_push)

lemma timing_step_latest:
  assumes "ta_entries s = latest n log" "ta_max_queue_size s = n" "timing_step api x (s, fw) = Some (s', fw')"
  shows "ta_entries s' = latest n (log @ timing_entry api x fw) \<and> ta_max_queue_size s' = n"
proof (cases x)
  case (TimingUp packet messages)
  then show ?thesis using assms record_timing_latest [of s log]
    by (cases packet) (auto simp: TimingAnalysis_upstream_def Let_def split: option.splits bind_splits)
next
  case (TimingDown packet messages)
  then show ?thesis using assms
    by (auto simp: TimingAnalysis_downstream_def Let_def split: option.splits bind_splits)
qed

lemma timing_run_latest:
  assumes "ta_entries s = latest n log" "ta_max_queue_size s = n" "timing_run api xs (s, fw) = Some (s', fw')"
  shows "ta_entries s' = latest n (log @ timing_log api xs (s, fw))"
  using assms
proof (induction xs arbitrary: s fw log)
  case (Cons x xs)
  then obtain s1 fw1 where step: "timing_step api x (s, fw) = Some (s1, fw1)" and rest: "timing_run api xs (s1, fw1) = Some (s', fw')"
    by (auto split: bind_splits)
  from timing_step_latest [OF Cons.prems(1,2) step] have "ta_entries s1 = latest n (log @ timing_entry api x fw)" "ta_max_queue_size s1 = n"
    by simp_all
  from Cons.IH [OF this rest] show ?case by (simp add: step)
qed simp

text \<open>The timing log is a sliding window. After any packets and control messages in both directions, the file
  that \<open>stop\<close> writes holds exactly the latest recorded packets, in the order of their arrival: all of
  them when the configured size is 0, at most that many otherwise; and a stopped shim keeps none of them.\<close>

theorem timing_log_latest:
  assumes "ta_entries s = []" and "timing_run api steps (s, fw) = Some (s', fw')"
  shows "fst (TimingAnalysis_stop True s') = latest (ta_max_queue_size s) (timing_log api steps (s, fw)) \<and>
    ta_entries (snd (TimingAnalysis_stop True s')) = [] \<and>
    (ta_max_queue_size s \<noteq> 0 \<longrightarrow> length (fst (TimingAnalysis_stop True s')) \<le> unat (ta_max_queue_size s))"
proof -
  have "ta_entries s' = latest (ta_max_queue_size s) ([] @ timing_log api steps (s, fw))"
    using assms by (intro timing_run_latest) (simp_all add: latest_def)
  then show ?thesis by (auto simp: TimingAnalysis_stop_def latest_def)
qed

theorem timing_log_latest_witness:
  "fst (TimingAnalysis_stop True (TimingAnalysis_init 1)) =
     latest 0 (timing_log witness_layer_api [TimingUp None (None, 0)] (TimingAnalysis_init 1, witness_layer_fw))"
proof -
  have r: "timing_run witness_layer_api [TimingUp None (None, 0)] (TimingAnalysis_init 1, witness_layer_fw) =
    Some (TimingAnalysis_init 1, fw_call (SendUpstreamControl 1 (None, 0)) witness_layer_fw)"
    by (simp add: TimingAnalysis_upstream_def controls_def TimingAnalysis_init_def)
  have e: "ta_entries (TimingAnalysis_init 1) = []" "ta_max_queue_size (TimingAnalysis_init 1) = 0" by (simp_all add: TimingAnalysis_init_def)
  from timing_log_latest [OF e(1) r] show ?thesis by (simp only: e(2) simp_thms)
qed


section \<open>The test packets\<close>

lemma phy_configure_item_size:
  "pt_packet_size s \<noteq> 0 \<Longrightarrow> pt_packet_size (snd (phy_configure_item name vs s)) \<noteq> 0 \<and> pt_id (snd (phy_configure_item name vs s)) = pt_id s"
  by (simp add: phy_configure_item_def with_profile_def Let_def split_beta split: option.split)

lemma phy_configure_items_size:
  "pt_packet_size s \<noteq> 0 \<Longrightarrow> pt_packet_size (snd (phy_configure_items items s)) \<noteq> 0 \<and> pt_id (snd (phy_configure_items items s)) = pt_id s"
proof (induction items s rule: phy_configure_items.induct)
  case (2 name vs items s)
  then show ?case using phy_configure_item_size [of s name vs]
    by (cases "phy_configure_item name vs s") (auto simp: Let_def)
qed simp

text \<open>What a receiver reads of the transmission: the properties, and the lists that are configured.\<close>

definition announces :: "FfiControlMessage list \<Rightarrow> PhyApiTest \<Rightarrow> u64 \<Rightarrow> bool" where
  "announces ms s now \<longleftrightarrow>
     (\<exists>b antenna. TxProperties_decode b = Some (Some (test_properties now s)) \<and>
        ms = message_of CONTROL_TX_PROPERTIES (Some b)
          @ message_of CONTROL_TX_FREQUENCY_SEGMENTS (if pt_frequencies s = [] then None else TxFrequencySegments_encode (pt_frequencies s))
          @ message_of CONTROL_TX_TRANSMITTERS (if pt_transmitters s = [] then None else TxTransmitters_encode (pt_transmitters s))
          @ message_of CONTROL_TX_ANTENNA_PROFILE antenna \<and>
        (case antenna of
           None \<Rightarrow> (case pt_antenna_profile s of None \<Rightarrow> True | Some profile \<Rightarrow> \<not> profile_in_range profile)
         | Some c \<Rightarrow> TxAntennaProfile_decode c = Some (pt_antenna_profile s)))"

lemma test_controls_announce: "\<exists>ms. test_controls now s = Some ms \<and> announces ms s now"
proof -
  obtain b where b: "TxProperties_encode (test_properties now s) = Some b" by (simp add: TxProperties_bytes)
  then have d: "TxProperties_decode b = Some (Some (test_properties now s))"
    using tx_properties.roundtrip [of "test_properties now s" b] by simp
  obtain a where a: "(case pt_antenna_profile s of None \<Rightarrow> Some None | Some profile \<Rightarrow> TxAntennaProfile_encode profile) = Some a"
    using tx_antenna_profile.encode_no_panic by (cases "pt_antenna_profile s") auto
  have ad: "case a of
      None \<Rightarrow> (case pt_antenna_profile s of None \<Rightarrow> True | Some profile \<Rightarrow> \<not> profile_in_range profile)
    | Some c \<Rightarrow> TxAntennaProfile_decode c = Some (pt_antenna_profile s)"
    using a tx_antenna_profile.roundtrip
    by (cases "pt_antenna_profile s"; cases a) (auto simp: TxAntennaProfile_bytes split: if_splits)
  show ?thesis
    unfolding test_controls_def b a bind.bind_lunit Let_def announces_def
    by (intro exI conjI, rule refl, rule d, rule refl, rule ad)
qed

definition test_timers :: "PhyApiTest \<Rightarrow> FrameworkCall list" where
  "test_timers s =
     (if pt_interval_microseconds s = 0 then []
      else [ScheduleTimedEvent (pt_id s) (pt_interval_microseconds s div 1000000)
              (ucast (pt_interval_microseconds s mod 1000000)) TIMER_TRANSMIT \<lparr>fs_data = None, fs_len = 0\<rparr>])"

lemma schedule_next_acts: "acts_between fw (snd (schedule_next api (s, fw))) (test_timers s)"
  by (simp add: schedule_next_def test_timers_def fw_ask_def Let_def acts_between_def)

text \<open>A configured test shim transmits at every timer: the handler does not panic, sends exactly one packet of
  the configured size, from its own id to the configured destination, whose control messages announce exactly
  the configured frequency, bandwidth, power, segments, transmitters and antenna profile, and asks for the next
  timer exactly when a packet rate is configured.\<close>

theorem phy_api_test_transmits:
  assumes "PhyApiTest_configure request (PhyApiTest_init nem) = Some (True, s)"
  shows "\<exists>s' fw' p ms. PhyApiTest_timed api TIMER_TRANSMIT (s, fw) = Some (s', fw') \<and>
    acts_between fw fw' (SendDownstreamPacket nem (Some p) (messages_of ms) # test_timers s) \<and>
    pi_source (fp_info p) = nem \<and> pi_destination (fp_info p) = pt_destination s \<and>
    fs_len (fp_payload p) = unat (pt_packet_size s) \<and> announces ms s (unix_microseconds api fw)"
proof -
  have "pt_packet_size (PhyApiTest_init nem) \<noteq> 0" by (simp add: PhyApiTest_init_def)
  from phy_configure_items_size [OF this] have s: "pt_packet_size s \<noteq> 0" "pt_id s = nem"
    using assms by (auto simp: PhyApiTest_configure_def PhyApiTest_init_def split: bind_splits option.splits)
       (metis snd_conv)+
  let ?now = "unix_microseconds api fw"
  obtain ms where ms: "test_controls ?now s = Some ms" "announces ms s ?now" using test_controls_announce by blast
  have "0 < unat (pt_packet_size s)" using s(1) by (simp add: unat_gt_0)
  then obtain p where p: "test_packet ?now s = Some p" "pi_source (fp_info p) = nem" "pi_destination (fp_info p) = pt_destination s"
    "fs_len (fp_payload p) = unat (pt_packet_size s)"
    by (simp add: test_packet_def index_set_def slice_of_def s(2))
  let ?c = "SendDownstreamPacket nem (Some p) (messages_of ms)"
  have run: "PhyApiTest_timed api TIMER_TRANSMIT (s, fw) = Some (schedule_next api (s, fw_call ?c fw))"
    by (simp add: PhyApiTest_timed_def p(1) ms(1) s(2) Let_def)
  have "acts_between fw (fw_call ?c fw) [?c]" using acts_call [of fw ?c] by simp
  from acts_trans [OF this schedule_next_acts]
  have "acts_between fw (snd (schedule_next api (s, fw_call ?c fw))) (?c # test_timers s)" by simp
  then show ?thesis using run p(2-4) ms(2) by (metis prod.collapse)
qed

lemma witness_phy_configured: "PhyApiTest_configure (Some \<lparr>cr_data = None, cr_len = 0\<rparr>) (PhyApiTest_init 3) = Some (True, PhyApiTest_init 3)"
  by (simp add: PhyApiTest_configure_def phy_config_items_def raw_parts_def)

theorem phy_api_test_transmits_witness:
  "\<exists>s' fw' p ms. PhyApiTest_timed witness_layer_api TIMER_TRANSMIT (PhyApiTest_init 3, witness_layer_fw) = Some (s', fw') \<and>
    acts_between witness_layer_fw fw' (SendDownstreamPacket 3 (Some p) (messages_of ms) # test_timers (PhyApiTest_init 3)) \<and>
    fs_len (fp_payload p) = unat (pt_packet_size (PhyApiTest_init 3))"
  using phy_api_test_transmits [OF witness_phy_configured] by blast


end
