(* ===== verification/Nem_Ota.thy ===== *)
theory Nem_Ota
  imports Shim_Layers Wire_Mimo
begin

text \<open>
  How a packet and its control messages travel over the air (\<^verbatim>\<open>rust/emane-core/src/nem_manager.rs\<close>):
  a packet of a radio model with its transmit properties is framed with the headers of the original emulator,
  which are protocol buffers; any other packet travels with its control messages as they are. The protocol
  buffer codec is third-party code and a parameter, \<open>OtaCodec\<close>, whose law is that it decodes what it
  encodes. The message types follow \<^verbatim>\<open>rust/protos\<close>; the optional filter data of the PHY header is left
  out, because the code never sets and never reads it.
\<close>

section \<open>Protocol buffer messages\<close>

record PbTransmitter =
  pb_nem_id :: u32
  pb_powerd_bm :: f64

record PbFrequencySegment =
  pb_frequency_hz :: u64
  pb_offset_microseconds :: u64
  pb_duration_microseconds :: u64
  pb_segment_powerd_bm :: "f64 option"

record PbPointing =
  pb_profile_id :: u32
  pb_azimuth_degrees :: f64
  pb_elevation_degrees :: f64

record PbTransmitAntenna =
  pb_antenna_index :: u32
  pb_frequency_group_index :: u32
  pb_bandwidth_hz :: u64
  pb_fixed_gaind_bi :: "f64 option"
  pb_pointing :: "PbPointing option"
  pb_spectral_mask_index :: "u32 option"

record CommonPhyHeader =
  ph_registration_id :: u32
  ph_sub_id :: u32
  ph_sequence_number :: u32
  ph_tx_time_microseconds :: u64
  ph_transmitters :: "PbTransmitter list"
  ph_frequency_groups :: "PbFrequencySegment list list"
  ph_transmit_antennas :: "PbTransmitAntenna list"

record CommonMacHeader =
  cmh_registration_id :: u32
  cmh_sequence_number :: u64

record CommEffectShimHeader =
  cesh_group_id :: u32
  cesh_sequence_number :: u32
  cesh_tx_time_microseconds :: u64

record OtaCodec =
  encode_phy :: "CommonPhyHeader \<Rightarrow> byte list"
  decode_phy :: "byte list \<Rightarrow> CommonPhyHeader option"
  encode_mac :: "CommonMacHeader \<Rightarrow> byte list"
  decode_mac :: "byte list \<Rightarrow> CommonMacHeader option"
  encode_shim :: "CommEffectShimHeader \<Rightarrow> byte list"
  decode_shim :: "byte list \<Rightarrow> CommEffectShimHeader option"


section \<open>Control messages\<close>

definition MAX_CONTROL_WIRE_SIZE :: nat where "MAX_CONTROL_WIRE_SIZE = 16 * 1024 * 1024"
definition PHY_FRAMEWORK_REGISTRATION :: u32 where "PHY_FRAMEWORK_REGISTRATION = 7"
definition PHY_COMM_EFFECT_REGISTRATION :: u32 where "PHY_COMM_EFFECT_REGISTRATION = 5"
definition MAC_REGISTRATION_BENTPIPE :: u16 where "MAC_REGISTRATION_BENTPIPE = 0x0006"
definition CONTROL_MIMO_TX_PROPERTIES :: u32 where "CONTROL_MIMO_TX_PROPERTIES = 0x454D000C"

text \<open>\<open>control_payload\<close>: the first message of the kind whose payload can be read.\<close>

fun control_payload :: "FfiControlMessage list \<Rightarrow> u32 \<Rightarrow> byte list option panics" where
  "control_payload [] kind = Some None"
| "control_payload (m # ms) kind =
     (if fcm_msg_type m \<noteq> kind \<or> fs_len (fcm_payload m) > MAX_CONTROL_WIRE_SIZE
         \<or> (fs_len (fcm_payload m) \<noteq> 0 \<and> fs_data (fcm_payload m) = None)
      then control_payload ms kind
      else map_option Some (slice_contents (fcm_payload m)))"

definition find_payload :: "(byte list \<Rightarrow> 'a option panics) \<Rightarrow> u32 \<Rightarrow> FfiControlMessage list \<Rightarrow> 'a option panics" where
  "find_payload decode kind ms = do {
     payload \<leftarrow> control_payload ms kind;
     case payload of None \<Rightarrow> Some None | Some data \<Rightarrow> decode data }"

fun find_tx_properties :: "FfiControlMessage list \<Rightarrow> TxProperties option panics" where
  "find_tx_properties [] = Some None"
| "find_tx_properties (m # ms) =
     (if fcm_msg_type m \<noteq> CONTROL_TX_PROPERTIES \<or> fs_len (fcm_payload m) \<noteq> 55 \<or> fs_data (fcm_payload m) = None
      then find_tx_properties ms
      else do {
        data \<leftarrow> slice_contents (fcm_payload m);
        tx \<leftarrow> TxProperties_decode data;
        case tx of None \<Rightarrow> find_tx_properties ms | Some tx \<Rightarrow> Some (Some tx) })"

definition find_tx_frequency_segments :: "FfiControlMessage list \<Rightarrow> TxFrequencySegment list option panics" where
  "find_tx_frequency_segments = find_payload TxFrequencySegments_decode CONTROL_TX_FREQUENCY_SEGMENTS"

definition find_tx_transmitters :: "FfiControlMessage list \<Rightarrow> TxTransmitter list option panics" where
  "find_tx_transmitters = find_payload TxTransmitters_decode CONTROL_TX_TRANSMITTERS"

definition find_mimo_tx_properties :: "FfiControlMessage list \<Rightarrow> MimoTxProperties option panics" where
  "find_mimo_tx_properties = find_payload MimoTxProperties_decode CONTROL_MIMO_TX_PROPERTIES"


section \<open>Framing\<close>

definition max_zero :: "i64 \<Rightarrow> u64" where
  "max_zero t = (if sint t < 0 then 0 else t)"

definition default_mimo :: "TxProperties \<Rightarrow> TxFrequencySegment list option \<Rightarrow> MimoTxProperties" where
  "default_mimo tx segments =
     \<lparr>mtp_frequency_groups =
        [case segments of
           None \<Rightarrow> [\<lparr>mts_frequency_hz = txp_frequency_hz tx, mts_tx_power_dbm = txp_tx_power_dbm tx,
                    mts_duration_microseconds = txp_duration_microseconds tx,
                    mts_offset_microseconds = txp_offset_microseconds tx\<rparr>]
         | Some segments \<Rightarrow>
             map (\<lambda>s. \<lparr>mts_frequency_hz = tfs_frequency_hz s, mts_tx_power_dbm = txp_tx_power_dbm tx,
                       mts_duration_microseconds = tfs_duration_microseconds s,
                       mts_offset_microseconds = tfs_offset_microseconds s\<rparr>) segments],
      mtp_transmit_antennas =
        [\<lparr>mta_frequency_group_index = 0, mta_antenna_index = txp_antenna_index tx,
          mta_bandwidth_hz = txp_bandwidth_hz tx, mta_spectral_mask_index = txp_spectral_mask_index tx,
          mta_pattern = DefaultPattern\<rparr>]\<rparr>"

definition pb_segment :: "MimoTxFrequencySegment \<Rightarrow> PbFrequencySegment" where
  "pb_segment s = \<lparr>pb_frequency_hz = mts_frequency_hz s, pb_offset_microseconds = mts_offset_microseconds s,
     pb_duration_microseconds = mts_duration_microseconds s, pb_segment_powerd_bm = Some (mts_tx_power_dbm s)\<rparr>"

definition pb_antenna :: "MimoTxAntenna \<Rightarrow> PbTransmitAntenna" where
  "pb_antenna a =
     (let (fixed, pointing) =
        (case mta_pattern a of
           DefaultPattern \<Rightarrow> (None, None)
         | IdealOmni gain \<Rightarrow> (Some gain, None)
         | Profile p \<Rightarrow> (None, Some \<lparr>pb_profile_id = ucast (tap_profile_id p), pb_azimuth_degrees = tap_azimuth_degrees p,
                                    pb_elevation_degrees = tap_elevation_degrees p\<rparr>))
      in \<lparr>pb_antenna_index = ucast (mta_antenna_index a), pb_frequency_group_index = ucast (mta_frequency_group_index a),
          pb_bandwidth_hz = (if mta_spectral_mask_index a = 0 then mta_bandwidth_hz a else 0),
          pb_fixed_gaind_bi = fixed, pb_pointing = pointing,
          pb_spectral_mask_index = (if mta_spectral_mask_index a \<noteq> 0 then Some (ucast (mta_spectral_mask_index a)) else None)\<rparr>)"

definition pb_transmitter :: "TxTransmitter \<Rightarrow> PbTransmitter" where
  "pb_transmitter t = \<lparr>pb_nem_id = ucast (ttx_nem_id t), pb_powerd_bm = ttx_tx_power_dbm t\<rparr>"

text \<open>The payload of a packet; \<open>Some None\<close> when its pointer is null.\<close>

definition packet_payload :: "FfiPacket \<Rightarrow> byte list option panics" where
  "packet_payload packet =
     (if fs_len (fp_payload packet) = 0 then Some (Some [])
      else if fs_data (fp_payload packet) = None then Some None
      else map_option Some (slice_contents (fp_payload packet)))"

text \<open>Two headers, each after its length in two bytes, and the payload.\<close>

definition frame :: "byte list \<Rightarrow> byte list \<Rightarrow> byte list option \<Rightarrow> byte list option" where
  "frame phy mac payload = do {
     payload \<leftarrow> payload;
     phy_length \<leftarrow> u16_try_from (length phy);
     mac_length \<leftarrow> u16_try_from (length mac);
     Some (be_bytes 2 phy_length @ phy @ be_bytes 2 mac_length @ mac @ payload) }"

definition comm_effect_phy :: "FfiPacket \<Rightarrow> CommEffectHeader \<Rightarrow> CommonPhyHeader" where
  "comm_effect_phy packet header =
     \<lparr>ph_registration_id = PHY_COMM_EFFECT_REGISTRATION, ph_sub_id = ceh_sequence header, ph_sequence_number = 0,
      ph_tx_time_microseconds = max_zero (ceh_tx_time_microseconds header),
      ph_transmitters = [\<lparr>pb_nem_id = ucast (pi_source (fp_info packet)), pb_powerd_bm = 0\<rparr>],
      ph_frequency_groups = [[\<lparr>pb_frequency_hz = 0, pb_offset_microseconds = 0, pb_duration_microseconds = 0,
                               pb_segment_powerd_bm = None\<rparr>]],
      ph_transmit_antennas = []\<rparr>"

definition encode_legacy_commeffect_payload :: "OtaCodec \<Rightarrow> FfiPacket \<Rightarrow> FfiControlMessage list \<Rightarrow> byte list option panics" where
  "encode_legacy_commeffect_payload codec packet ms = do {
     header \<leftarrow> find_payload CommEffectHeader_decode CONTROL_COMM_EFFECT_HEADER ms;
     case header of
       None \<Rightarrow> Some None
     | Some header \<Rightarrow> do {
         let phy = encode_phy codec (comm_effect_phy packet header);
         let shim = encode_shim codec \<lparr>cesh_group_id = ceh_group_id header, cesh_sequence_number = ceh_sequence header,
                      cesh_tx_time_microseconds = max_zero (ceh_tx_time_microseconds header)\<rparr>;
         payload \<leftarrow> packet_payload packet;
         Some (frame phy shim payload) } }"

definition framework_phy :: "u16 \<Rightarrow> TxProperties \<Rightarrow> TxTransmitter list \<Rightarrow> MimoTxProperties \<Rightarrow> CommonPhyHeader" where
  "framework_phy phy_sequence tx ts mimo =
     \<lparr>ph_registration_id = PHY_FRAMEWORK_REGISTRATION, ph_sub_id = ucast (txp_sub_id tx),
      ph_sequence_number = ucast phy_sequence, ph_tx_time_microseconds = max_zero (txp_tx_time_microseconds tx),
      ph_transmitters = map pb_transmitter ts,
      ph_frequency_groups = map (map pb_segment) (mtp_frequency_groups mimo),
      ph_transmit_antennas = map pb_antenna (mtp_transmit_antennas mimo)\<rparr>"

definition sent_transmitters :: "FfiPacket \<Rightarrow> TxProperties \<Rightarrow> FfiControlMessage list \<Rightarrow> TxTransmitter list panics" where
  "sent_transmitters packet tx ms = do {
     ts \<leftarrow> find_tx_transmitters ms;
     Some (unwrap_or ts [\<lparr>ttx_nem_id = pi_source (fp_info packet), ttx_tx_power_dbm = txp_tx_power_dbm tx\<rparr>]) }"

definition sent_mimo :: "TxProperties \<Rightarrow> FfiControlMessage list \<Rightarrow> MimoTxProperties panics" where
  "sent_mimo tx ms = do {
     mimo \<leftarrow> find_mimo_tx_properties ms;
     case mimo of
       Some mimo \<Rightarrow> Some mimo
     | None \<Rightarrow> do { segments \<leftarrow> find_tx_frequency_segments ms; Some (default_mimo tx segments) } }"

definition encode_legacy_ota_payload :: "OtaCodec \<Rightarrow> FfiPacket \<Rightarrow> Messages \<Rightarrow> u16 \<Rightarrow> byte list option panics" where
  "encode_legacy_ota_payload codec packet messages phy_sequence =
     (case controls messages of
        None \<Rightarrow> Some None
      | Some ms \<Rightarrow> do {
          model \<leftarrow> find_payload ModelHeader_decode CONTROL_MODEL_HEADER ms;
          case model of
            None \<Rightarrow> encode_legacy_commeffect_payload codec packet ms
          | Some model \<Rightarrow> do {
              tx \<leftarrow> find_tx_properties ms;
              case tx of
                None \<Rightarrow> Some None
              | Some tx \<Rightarrow> do {
                  ts \<leftarrow> sent_transmitters packet tx ms;
                  mimo \<leftarrow> sent_mimo tx ms;
                  let phy = encode_phy codec (framework_phy phy_sequence tx ts mimo);
                  let mac = encode_mac codec \<lparr>cmh_registration_id = ucast (mh_registration_id model),
                              cmh_sequence_number = mh_sequence model\<rparr>;
                  payload \<leftarrow> packet_payload packet;
                  Some (frame phy mac payload) } } })"

section \<open>Taking a frame apart\<close>

text \<open>A header after its length in two bytes, from an offset: its bytes and where it ends.\<close>

definition take_header :: "byte list \<Rightarrow> nat \<Rightarrow> (byte list \<times> nat) option" where
  "take_header data start = do {
     length_end \<leftarrow> checked_add start 2;
     length_bytes \<leftarrow> slice data start length_end;
     header_end \<leftarrow> checked_add length_end (unat (of_be_bytes length_bytes :: u16));
     header \<leftarrow> slice data length_end header_end;
     Some (header, header_end) }"

text \<open>The MAC header: missing when the frame ends before its length or when it does not decode.\<close>

definition take_mac :: "OtaCodec \<Rightarrow> byte list \<Rightarrow> nat \<Rightarrow> (CommonMacHeader option \<times> nat) option" where
  "take_mac codec data phy_end = do {
     length_end \<leftarrow> checked_add phy_end 2;
     case slice data phy_end length_end of
       None \<Rightarrow> Some (None, phy_end)
     | Some length_bytes \<Rightarrow> do {
         mac_end \<leftarrow> checked_add (phy_end + 2) (unat (of_be_bytes length_bytes :: u16));
         header \<leftarrow> slice data (phy_end + 2) mac_end;
         case decode_mac codec header of
           Some mac \<Rightarrow> Some (Some mac, mac_end)
         | None \<Rightarrow> Some (None, phy_end) } }"

text \<open>\<open>i64::try_from(u).unwrap_or(i64::MAX)\<close>.\<close>

definition i64_or_max :: "u64 \<Rightarrow> i64" where
  "i64_or_max u = (if uint u \<le> i64_max then u else word_of_int i64_max)"

definition received_segment :: "f64 \<Rightarrow> PbFrequencySegment \<Rightarrow> MimoTxFrequencySegment" where
  "received_segment tx_power s =
     \<lparr>mts_frequency_hz = pb_frequency_hz s, mts_tx_power_dbm = unwrap_or (pb_segment_powerd_bm s) tx_power,
      mts_duration_microseconds = pb_duration_microseconds s, mts_offset_microseconds = pb_offset_microseconds s\<rparr>"

definition received_antenna :: "PbTransmitAntenna \<Rightarrow> MimoTxAntenna option" where
  "received_antenna a = do {
     pattern \<leftarrow> (case pb_fixed_gaind_bi a of
        Some gain \<Rightarrow> Some (IdealOmni gain)
      | None \<Rightarrow>
          (case pb_pointing a of
             Some p \<Rightarrow> do { profile_id \<leftarrow> u16_of_u32 (pb_profile_id p);
               Some (Profile \<lparr>tap_profile_id = profile_id, tap_azimuth_degrees = pb_azimuth_degrees p,
                              tap_elevation_degrees = pb_elevation_degrees p\<rparr>) }
           | None \<Rightarrow> Some DefaultPattern));
     group \<leftarrow> u16_of_u32 (pb_frequency_group_index a);
     index \<leftarrow> u16_of_u32 (pb_antenna_index a);
     mask \<leftarrow> u16_of_u32 (unwrap_or (pb_spectral_mask_index a) 0);
     Some \<lparr>mta_frequency_group_index = group, mta_antenna_index = index, mta_bandwidth_hz = pb_bandwidth_hz a,
           mta_spectral_mask_index = mask, mta_pattern = pattern\<rparr> }"

definition received_transmitter :: "PbTransmitter \<Rightarrow> TxTransmitter option" where
  "received_transmitter t = do {
     nem_id \<leftarrow> u16_of_u32 (pb_nem_id t);
     Some \<lparr>ttx_nem_id = nem_id, ttx_tx_power_dbm = pb_powerd_bm t\<rparr> }"

definition received_tx_segment :: "PbFrequencySegment \<Rightarrow> TxFrequencySegment" where
  "received_tx_segment s = \<lparr>tfs_frequency_hz = pb_frequency_hz s, tfs_duration_microseconds = pb_duration_microseconds s,
     tfs_offset_microseconds = pb_offset_microseconds s\<rparr>"

definition segments_start :: "PbFrequencySegment list \<Rightarrow> u64" where
  "segments_start segments = Min (set (map pb_offset_microseconds segments))"

definition segments_duration :: "PbFrequencySegment list \<Rightarrow> u64" where
  "segments_duration segments =
     max 1 (saturating_sub (Max (set (map (\<lambda>s. saturating_add (pb_offset_microseconds s) (pb_duration_microseconds s)) segments)))
              (segments_start segments))"

definition received_properties ::
  "CommonPhyHeader \<Rightarrow> f64 \<Rightarrow> PbTransmitAntenna \<Rightarrow> PbFrequencySegment list \<Rightarrow> TxProperties option" where
  "received_properties phy tx_power antenna segments =
     (case segments of
        [] \<Rightarrow> None
      | first_segment # _ \<Rightarrow> do {
          antenna_index \<leftarrow> u16_of_u32 (pb_antenna_index antenna);
          mask \<leftarrow> u16_of_u32 (unwrap_or (pb_spectral_mask_index antenna) 0);
          sub_id \<leftarrow> u16_of_u32 (ph_sub_id phy);
          Some \<lparr>txp_frequency_hz = pb_frequency_hz first_segment, txp_bandwidth_hz = pb_bandwidth_hz antenna,
                txp_tx_power_dbm = unwrap_or (pb_segment_powerd_bm first_segment) tx_power,
                txp_duration_microseconds = segments_duration segments,
                txp_offset_microseconds = segments_start segments,
                txp_tx_time_microseconds = i64_or_max (ph_tx_time_microseconds phy),
                txp_antenna_index = antenna_index, txp_spectral_mask_index = mask, txp_sub_id = sub_id\<rparr> })"

definition received_mimo :: "CommonPhyHeader \<Rightarrow> f64 \<Rightarrow> MimoTxProperties" where
  "received_mimo phy tx_power =
     \<lparr>mtp_frequency_groups = map (map (received_segment tx_power)) (ph_frequency_groups phy),
      mtp_transmit_antennas = List.map_filter received_antenna (ph_transmit_antennas phy)\<rparr>"

definition received_model :: "CommonMacHeader \<Rightarrow> ModelHeader option" where
  "received_model mac = do {
     registration_id \<leftarrow> u16_of_u32 (cmh_registration_id mac);
     Some \<lparr>mh_registration_id = registration_id, mh_sequence = cmh_sequence_number mac, mh_data_rate_bps = 0, mh_category = 0,
           mh_message_type = (if cmh_registration_id mac = ucast MAC_REGISTRATION_BENTPIPE then 1 else 0), mh_flags = 0\<rparr> }"

type_synonym DecodedLegacyOta = "byte list \<times> FfiControlMessage list"

definition owned_message :: "u32 \<Rightarrow> byte list \<Rightarrow> FfiControlMessage" where
  "owned_message kind payload = \<lparr>fcm_msg_type = kind, fcm_payload = slice_of payload\<rparr>"

text \<open>The transmission as the headers describe it: the power of the source, its first antenna and the
  segments of that antenna's group.\<close>

definition received_transmission ::
  "u16 \<Rightarrow> CommonPhyHeader \<Rightarrow> (f64 \<times> PbTransmitAntenna \<times> PbFrequencySegment list) option" where
  "received_transmission source phy = do {
     transmitter \<leftarrow> find (\<lambda>t. pb_nem_id t = ucast source) (ph_transmitters phy);
     (case ph_transmit_antennas phy of
        [] \<Rightarrow> None
      | antenna # _ \<Rightarrow>
          if unat (pb_frequency_group_index antenna) < length (ph_frequency_groups phy)
          then (let segments = ph_frequency_groups phy ! unat (pb_frequency_group_index antenna)
                in if segments = [] then None else Some (pb_powerd_bm transmitter, antenna, segments))
          else None) }"

definition decode_framework :: "OtaCodec \<Rightarrow> byte list \<Rightarrow> u16 \<Rightarrow> CommonPhyHeader \<Rightarrow> nat \<Rightarrow> DecodedLegacyOta option panics" where
  "decode_framework codec data source phy phy_end =
     (case take_mac codec data phy_end of
        None \<Rightarrow> Some None
      | Some (mac, mac_end) \<Rightarrow>
          (case received_transmission source phy of
             None \<Rightarrow> Some None
           | Some (tx_power, antenna, segments) \<Rightarrow>
               (case received_properties phy tx_power antenna segments of
                  None \<Rightarrow> Some None
                | Some properties \<Rightarrow> do {
                    tx \<leftarrow> TxProperties_encode properties;
                    mimo \<leftarrow> MimoTxProperties_encode (received_mimo phy tx_power);
                    case (TxFrequencySegments_encode (map received_tx_segment segments),
                          TxTransmitters_encode (List.map_filter received_transmitter (ph_transmitters phy)), mimo) of
                      (Some segments, Some transmitters, Some mimo) \<Rightarrow> do {
                        model \<leftarrow> (case mac of
                           None \<Rightarrow> Some (Some [])
                         | Some mac \<Rightarrow>
                             (case received_model mac of
                                None \<Rightarrow> Some None
                              | Some model \<Rightarrow> do {
                                  bytes \<leftarrow> ModelHeader_encode model;
                                  Some (Some [owned_message CONTROL_MODEL_HEADER bytes]) }));
                        case (model, slice data mac_end (length data)) of
                          (Some model, Some payload) \<Rightarrow>
                            Some (Some (payload, model @ [owned_message CONTROL_TX_PROPERTIES tx,
                              owned_message CONTROL_TX_FREQUENCY_SEGMENTS segments,
                              owned_message CONTROL_TX_TRANSMITTERS transmitters,
                              owned_message CONTROL_MIMO_TX_PROPERTIES mimo]))
                        | _ \<Rightarrow> Some None }
                    | _ \<Rightarrow> Some None })))"

definition decode_comm_effect :: "OtaCodec \<Rightarrow> byte list \<Rightarrow> nat \<Rightarrow> DecodedLegacyOta option panics" where
  "decode_comm_effect codec data phy_end =
     (case take_header data phy_end of
        None \<Rightarrow> Some None
      | Some (bytes, shim_end) \<Rightarrow>
          (case decode_shim codec bytes of
             None \<Rightarrow> Some None
           | Some shim \<Rightarrow> do {
               header \<leftarrow> CommEffectHeader_encode \<lparr>ceh_group_id = cesh_group_id shim, ceh_sequence = cesh_sequence_number shim,
                           ceh_tx_time_microseconds = i64_or_max (cesh_tx_time_microseconds shim)\<rparr>;
               case slice data shim_end (length data) of
                 None \<Rightarrow> Some None
               | Some payload \<Rightarrow> Some (Some (payload, [owned_message CONTROL_COMM_EFFECT_HEADER header])) }))"

definition decode_legacy_ota_payload :: "OtaCodec \<Rightarrow> byte list \<Rightarrow> u16 \<Rightarrow> DecodedLegacyOta option panics" where
  "decode_legacy_ota_payload codec data source =
     (case take_header data 0 of
        None \<Rightarrow> Some None
      | Some (bytes, phy_end) \<Rightarrow>
          (case decode_phy codec bytes of
             None \<Rightarrow> Some None
           | Some phy \<Rightarrow>
               if ph_registration_id phy = PHY_COMM_EFFECT_REGISTRATION then decode_comm_effect codec data phy_end
               else if ph_registration_id phy \<noteq> PHY_FRAMEWORK_REGISTRATION then Some None
               else decode_framework codec data source phy phy_end))"


section \<open>Private control messages\<close>

fun encode_control_loop :: "FfiControlMessage list \<Rightarrow> byte list \<Rightarrow> byte list option panics" where
  "encode_control_loop [] data = Some (Some data)"
| "encode_control_loop (m # ms) data =
     (let len = fs_len (fcm_payload m)
      in if len > 0xFFFFFFFF \<or> (len \<noteq> 0 \<and> fs_data (fcm_payload m) = None) then Some None
         else case Option.bind (checked_add 8 len) (\<lambda>required. checked_add (length data) required) of
           None \<Rightarrow> Some None
         | Some n \<Rightarrow>
             if n > MAX_CONTROL_WIRE_SIZE then Some None
             else do {
               payload \<leftarrow> slice_contents (fcm_payload m);
               encode_control_loop ms
                 (data @ be_bytes 4 (fcm_msg_type m) @ be_bytes 4 (word_of_nat len :: u32) @ payload) })"

definition encode_ota_controls :: "Messages \<Rightarrow> byte list option panics" where
  "encode_ota_controls messages =
     (case controls messages of
        None \<Rightarrow> Some None
      | Some ms \<Rightarrow>
          (case u16_try_from (length ms) of
             None \<Rightarrow> Some None
           | Some count \<Rightarrow> encode_control_loop ms (be_bytes 2 count)))"

text \<open>The loop over the entries; \<open>Some None\<close> is the early return.\<close>

fun decode_control_entries :: "byte list \<Rightarrow> nat \<Rightarrow> nat \<Rightarrow> ((u32 \<times> byte list) list \<times> nat) option panics" where
  "decode_control_entries data offset 0 = Some (Some ([], offset))"
| "decode_control_entries data offset (Suc count) =
     (case checked_add offset 8 of
        None \<Rightarrow> Some None
      | Some header_end \<Rightarrow>
          if header_end > length data then Some None
          else do {
            type_bytes \<leftarrow> slice data offset (offset + 4);
            len_bytes \<leftarrow> slice data (offset + 4) header_end;
            case checked_add header_end (unat (of_be_bytes len_bytes :: u32)) of
              None \<Rightarrow> Some None
            | Some end_offset \<Rightarrow>
                if end_offset > length data then Some None
                else do {
                  payload \<leftarrow> slice data header_end end_offset;
                  rest \<leftarrow> decode_control_entries data end_offset count;
                  Some (map_option (\<lambda>(entries, offset). ((of_be_bytes type_bytes, payload) # entries, offset)) rest) } })"

definition decode_ota_controls :: "byte list \<Rightarrow> FfiControlMessage list option panics" where
  "decode_ota_controls data =
     (if length data < 2 \<or> length data > MAX_CONTROL_WIRE_SIZE then Some None
      else do {
        count_bytes \<leftarrow> slice data 0 2;
        r \<leftarrow> decode_control_entries data 2 (unat (of_be_bytes count_bytes :: u16));
        case r of
          None \<Rightarrow> Some None
        | Some (entries, offset) \<Rightarrow>
            Some (if offset \<noteq> length data then None else Some (map (\<lambda>(kind, payload). owned_message kind payload) entries)) })"

section \<open>Frames come back\<close>

text \<open>The law of the protocol buffer codec, at the header \<open>x\<close>: what it encodes, it decodes.\<close>

definition decodes :: "('a \<Rightarrow> byte list) \<Rightarrow> (byte list \<Rightarrow> 'a option) \<Rightarrow> 'a \<Rightarrow> bool" where
  "decodes encode decode x \<longleftrightarrow> decode (encode x) = Some x"

abbreviation model_mac :: "ModelHeader \<Rightarrow> CommonMacHeader" where
  "model_mac model \<equiv> \<lparr>cmh_registration_id = ucast (mh_registration_id model), cmh_sequence_number = mh_sequence model\<rparr>"

lemma received_transmitter_sent [simp]: "received_transmitter (pb_transmitter t) = Some t"
  by (simp add: received_transmitter_def pb_transmitter_def)

lemma received_segment_sent [simp]: "received_segment tx_power (pb_segment s) = s"
  by (simp add: received_segment_def pb_segment_def)

text \<open>An antenna with a spectral mask travels without its bandwidth.\<close>

definition wire_antenna :: "MimoTxAntenna \<Rightarrow> MimoTxAntenna" where
  "wire_antenna a = (if mta_spectral_mask_index a = 0 then a else a\<lparr>mta_bandwidth_hz := 0\<rparr>)"

definition wire_mimo :: "MimoTxProperties \<Rightarrow> MimoTxProperties" where
  "wire_mimo mimo = mimo\<lparr>mtp_transmit_antennas := map wire_antenna (mtp_transmit_antennas mimo)\<rparr>"

lemma u16_of_zero [simp]: "u16_of_u32 0 = Some 0"
  by (simp add: u16_of_u32_def)

lemma received_antenna_sent [simp]: "received_antenna (pb_antenna a) = Some (wire_antenna a)"
  by (cases "mta_pattern a") (auto simp: received_antenna_def pb_antenna_def wire_antenna_def)

lemma map_filter_Some: "(\<And>x. f (g x) = Some (h x)) \<Longrightarrow> List.map_filter f (map g xs) = map h xs"
  by (induction xs) (simp_all add: List.map_filter_simps)

lemma received_mimo_sent: "received_mimo (framework_phy seq tx ts mimo) tx_power = wire_mimo mimo"
  by (simp add: received_mimo_def framework_phy_def wire_mimo_def map_filter_Some [where h = wire_antenna] comp_def)

lemma received_transmitters_sent:
  "List.map_filter received_transmitter (ph_transmitters (framework_phy seq tx ts mimo)) = ts"
  by (simp add: framework_phy_def map_filter_Some [where h = "\<lambda>x. x"])

lemma frame_Some:
  "frame phy mac payload = Some data \<longleftrightarrow>
    (\<exists>body. payload = Some body \<and> length phy < 2 ^ 16 \<and> length mac < 2 ^ 16 \<and>
      data = be_bytes 2 (word_of_nat (length phy) :: u16) @ phy @ be_bytes 2 (word_of_nat (length mac) :: u16) @ mac @ body)"
  by (auto simp: frame_def u16_try_from_def split: bind_splits if_splits)

lemma take_header_frame:
  assumes "length p = start" "length h < 2 ^ 16" "start \<le> 2 ^ 17"
  shows "take_header (p @ be_bytes 2 (word_of_nat (length h) :: u16) @ h @ q) start = Some (h, start + 2 + length h)"
proof -
  have u: "unat (word_of_nat (length h) :: u16) = length h" using assms(2) by (simp add: unat_of_nat take_bit_nat_eq_self)
  have s1: "slice (p @ be_bytes 2 (word_of_nat (length h) :: u16) @ h @ q) start (start + 2) = Some (be_bytes 2 (word_of_nat (length h) :: u16))"
    using assms(1) by (intro slice_append) simp_all
  have s2: "slice ((p @ be_bytes 2 (word_of_nat (length h) :: u16)) @ h @ q) (start + 2) (start + 2 + length h) = Some h"
    using assms(1) by (intro slice_append) simp_all
  show ?thesis using assms(2,3) s1 s2 by (simp add: take_header_def checked_add_def usize_max_def u)
qed

lemma take_mac_frame:
  assumes "length p = start" "length h < 2 ^ 16" "start \<le> 2 ^ 17" "decode_mac codec h = Some mac"
  shows "take_mac codec (p @ be_bytes 2 (word_of_nat (length h) :: u16) @ h @ q) start = Some (Some mac, start + 2 + length h)"
proof -
  have u: "unat (word_of_nat (length h) :: u16) = length h" using assms(2) by (simp add: unat_of_nat take_bit_nat_eq_self)
  have s1: "slice (p @ be_bytes 2 (word_of_nat (length h) :: u16) @ h @ q) start (start + 2) = Some (be_bytes 2 (word_of_nat (length h) :: u16))"
    using assms(1) by (intro slice_append) simp_all
  have s2: "slice ((p @ be_bytes 2 (word_of_nat (length h) :: u16)) @ h @ q) (start + 2) (start + 2 + length h) = Some h"
    using assms(1) by (intro slice_append) simp_all
  show ?thesis using assms(2,3,4) s1 s2 by (simp add: take_mac_def checked_add_def usize_max_def u)
qed

lemma slice_rest: "length p = i \<Longrightarrow> slice (p @ q) i (length (p @ q)) = Some q"
  using slice_append [of p i "length (p @ q)" q "[]"] by simp

lemma frame_parts:
  assumes "frame a b (Some body) = Some data"
  shows "take_header data 0 = Some (a, 2 + length a)"
    and "take_header data (2 + length a) = Some (b, 4 + length a + length b)"
    and "decode_mac codec b = Some mac \<Longrightarrow> take_mac codec data (2 + length a) = Some (Some mac, 4 + length a + length b)"
    and "slice data (4 + length a + length b) (length data) = Some body"
proof -
  define p where "p = be_bytes 2 (word_of_nat (length a) :: u16) @ a"
  define m where "m = be_bytes 2 (word_of_nat (length b) :: u16) @ b"
  have len: "length a < 2 ^ 16" "length b < 2 ^ 16" "data = p @ m @ body" using assms by (auto simp: frame_Some p_def m_def)
  have pl: "length p = 2 + length a" "length (p @ m) = 4 + length a + length b" by (simp_all add: p_def m_def)
  show "take_header data 0 = Some (a, 2 + length a)"
    using take_header_frame [of "[]" 0 a "m @ body"] len(1) by (simp add: len(3) p_def)
  show "take_header data (2 + length a) = Some (b, 4 + length a + length b)"
    using take_header_frame [of p "2 + length a" b body] len(1,2) pl by (simp add: len(3) m_def)
  show "take_mac codec data (2 + length a) = Some (Some mac, 4 + length a + length b)" if "decode_mac codec b = Some mac"
    using take_mac_frame [of p "2 + length a" b codec mac body] len(1,2) pl that by (simp add: len(3) m_def)
  show "slice data (4 + length a + length b) (length data) = Some body"
    using slice_rest [of "p @ m" "4 + length a + length b" body] pl(2) by (simp add: len(3))
qed

text \<open>What the receiver finds in the messages a frame is taken apart into.\<close>

lemma control_payload_owned [simp]:
  "length b \<le> MAX_CONTROL_WIRE_SIZE \<Longrightarrow> control_payload (owned_message kind b # ms) kind = Some (Some b)"
  "k \<noteq> kind \<Longrightarrow> control_payload (owned_message k b # ms) kind = control_payload ms kind"
  by (simp_all add: owned_message_def slice_of_fields)

lemma max_zero_i64: "sint t \<ge> 0 \<Longrightarrow> i64_or_max (max_zero t) = t" "sint t < 0 \<Longrightarrow> i64_or_max (max_zero t) = 0"
proof -
  show "i64_or_max (max_zero t) = t" if "sint t \<ge> 0"
  proof -
    have "sint t < 2 ^ 63" using sint_lt [of t] by simp
    moreover have "uint t = sint t" using that calculation by (simp add: uint_sint take_bit_int_eq_self_iff)
    ultimately show ?thesis using that by (simp add: i64_or_max_def max_zero_def i64_max_def)
  qed
  show "sint t < 0 \<Longrightarrow> i64_or_max (max_zero t) = 0" by (simp add: i64_or_max_def max_zero_def i64_max_def)
qed

text \<open>What a receiver is told of a transmission: the registration and sequence number of the model header, the
  sub id, the time of the transmission (0 for a negative one), the first antenna with its first segment, and
  the span of all segments of that antenna.\<close>

definition wire_model :: "ModelHeader \<Rightarrow> ModelHeader" where
  "wire_model model = \<lparr>mh_registration_id = mh_registration_id model, mh_sequence = mh_sequence model,
     mh_data_rate_bps = 0, mh_category = 0,
     mh_message_type = (if mh_registration_id model = MAC_REGISTRATION_BENTPIPE then 1 else 0), mh_flags = 0\<rparr>"

definition tx_segment_of :: "MimoTxFrequencySegment \<Rightarrow> TxFrequencySegment" where
  "tx_segment_of s = \<lparr>tfs_frequency_hz = mts_frequency_hz s, tfs_duration_microseconds = mts_duration_microseconds s,
     tfs_offset_microseconds = mts_offset_microseconds s\<rparr>"

definition tells_properties :: "TxProperties \<Rightarrow> MimoTxAntenna \<Rightarrow> MimoTxFrequencySegment list \<Rightarrow> TxProperties \<Rightarrow> bool" where
  "tells_properties tx antenna segments properties \<longleftrightarrow>
     txp_sub_id properties = txp_sub_id tx \<and>
     txp_tx_time_microseconds properties = (if sint (txp_tx_time_microseconds tx) < 0 then 0 else txp_tx_time_microseconds tx) \<and>
     txp_frequency_hz properties = mts_frequency_hz (hd segments) \<and>
     txp_tx_power_dbm properties = mts_tx_power_dbm (hd segments) \<and>
     txp_antenna_index properties = mta_antenna_index antenna \<and>
     txp_spectral_mask_index properties = mta_spectral_mask_index antenna \<and>
     txp_bandwidth_hz properties = (if mta_spectral_mask_index antenna = 0 then mta_bandwidth_hz antenna else 0) \<and>
     txp_offset_microseconds properties = Min (mts_offset_microseconds ` set segments) \<and>
     txp_duration_microseconds properties =
       max 1 (saturating_sub (Max ((\<lambda>s. saturating_add (mts_offset_microseconds s) (mts_duration_microseconds s)) ` set segments))
                (txp_offset_microseconds properties))"

text \<open>The five messages of a frame.\<close>

definition framework_messages :: "byte list \<Rightarrow> byte list \<Rightarrow> byte list \<Rightarrow> byte list \<Rightarrow> byte list \<Rightarrow> FfiControlMessage list" where
  "framework_messages hb pb sb tb mb =
     [owned_message CONTROL_MODEL_HEADER hb, owned_message CONTROL_TX_PROPERTIES pb,
      owned_message CONTROL_TX_FREQUENCY_SEGMENTS sb, owned_message CONTROL_TX_TRANSMITTERS tb,
      owned_message CONTROL_MIMO_TX_PROPERTIES mb]"

definition received_framework ::
  "ModelHeader \<Rightarrow> TxProperties \<Rightarrow> TxTransmitter list \<Rightarrow> MimoTxProperties \<Rightarrow> FfiControlMessage list \<Rightarrow> bool" where
  "received_framework model tx ts mimo ms \<longleftrightarrow>
     (let antenna = hd (mtp_transmit_antennas mimo);
          segments = mtp_frequency_groups mimo ! unat (mta_frequency_group_index antenna)
      in \<exists>hb pb sb tb mb properties.
        ms = framework_messages hb pb sb tb mb \<and>
        ModelHeader_decode hb = Some (Some (wire_model model)) \<and>
        TxProperties_decode pb = Some (Some properties) \<and> tells_properties tx antenna segments properties \<and>
        TxFrequencySegments_decode sb = Some (Some (map tx_segment_of segments)) \<and>
        TxTransmitters_decode tb = Some (Some ts) \<and>
        MimoTxProperties_decode mb = Some (Some (wire_mimo mimo)) \<and>
        length hb \<le> MAX_CONTROL_WIRE_SIZE \<and> length pb \<le> MAX_CONTROL_WIRE_SIZE \<and> length sb \<le> MAX_CONTROL_WIRE_SIZE \<and>
        length tb \<le> MAX_CONTROL_WIRE_SIZE \<and> length mb \<le> MAX_CONTROL_WIRE_SIZE)"

text \<open>The MIMO properties a frame can carry: those with a valid encoding whose first antenna has a group.\<close>

definition mimo_sendable :: "MimoTxProperties \<Rightarrow> bool" where
  "mimo_sendable mimo \<longleftrightarrow>
     (case MimoTxProperties_encode (wire_mimo mimo) of
        Some (Some data) \<Rightarrow> length data \<le> MAX_CONTROL_WIRE_SIZE | _ \<Rightarrow> False) \<and>
     unat (mta_frequency_group_index (hd (mtp_transmit_antennas mimo))) < length (mtp_frequency_groups mimo)"

lemma mimo_sendable_facts:
  assumes "mimo_sendable mimo"
  obtains mb where "MimoTxProperties_encode (wire_mimo mimo) = Some (Some mb)" "length mb \<le> MAX_CONTROL_WIRE_SIZE" "mtp_transmit_antennas mimo \<noteq> []"
    "\<forall>g \<in> set (mtp_frequency_groups mimo). g \<noteq> [] \<and> length g < 65536"
proof -
  obtain mb where mb: "MimoTxProperties_encode (wire_mimo mimo) = Some (Some mb)" and l: "length mb \<le> MAX_CONTROL_WIRE_SIZE"
    using assms by (auto simp: mimo_sendable_def split: option.splits)
  have "mtp_transmit_antennas mimo \<noteq> []" "\<forall>g \<in> set (mtp_frequency_groups mimo). g \<noteq> [] \<and> length g < 65536"
    using MimoTxProperties_encodeD(2,6) [OF mb] by (simp_all add: wire_mimo_def)
  then show ?thesis using that mb l by blast
qed

lemma ucast_u16_inj: "(ucast (a :: u16) :: u32) = ucast b \<Longrightarrow> a = b"
  using u16_of_ucast by (metis option.inject)

lemma received_transmission_sent:
  assumes "source \<in> ttx_nem_id ` set ts" "mtp_transmit_antennas mimo \<noteq> []"
    and "a = hd (mtp_transmit_antennas mimo)" "unat (mta_frequency_group_index a) < length (mtp_frequency_groups mimo)"
    and "segments = mtp_frequency_groups mimo ! unat (mta_frequency_group_index a)" "segments \<noteq> []"
  shows "\<exists>tx_power. received_transmission source (framework_phy seq tx ts mimo) = Some (tx_power, pb_antenna a, map pb_segment segments)"
proof -
  obtain t where t: "t \<in> set ts" "ttx_nem_id t = source" using assms(1) by auto
  have "find (\<lambda>t. pb_nem_id t = ucast source) (map pb_transmitter ts) \<noteq> None"
    using t by (auto simp: find_None_iff pb_transmitter_def)
  then obtain f where f: "find (\<lambda>t. pb_nem_id t = ucast source) (map pb_transmitter ts) = Some f" by blast
  obtain as where as: "mtp_transmit_antennas mimo = a # as" using assms(2,3) by (cases "mtp_transmit_antennas mimo") simp_all
  have i: "unat (pb_frequency_group_index (pb_antenna a)) = unat (mta_frequency_group_index a)"
    by (simp add: pb_antenna_def split_beta unsigned_ucast_eq take_bit_nat_eq_self_iff less_trans [OF unat_u16_less])
  show ?thesis
    using f i assms(4-6) by (simp add: received_transmission_def framework_phy_def as Let_def)
qed

lemma received_properties_sent:
  assumes "segments \<noteq> []"
  shows "\<exists>properties. received_properties (framework_phy seq tx ts mimo) tx_power (pb_antenna a) (map pb_segment segments) = Some properties \<and>
    tells_properties tx a segments properties"
proof -
  obtain s ss where s: "segments = s # ss" using assms by (cases segments) simp_all
  have i: "u16_of_u32 (pb_antenna_index (pb_antenna a)) = Some (mta_antenna_index a)"
    "u16_of_u32 (unwrap_or (pb_spectral_mask_index (pb_antenna a)) 0) = Some (mta_spectral_mask_index a)"
    by (simp_all add: pb_antenna_def split_beta)
  have p: "u16_of_u32 (ph_sub_id (framework_phy seq tx ts mimo)) = Some (txp_sub_id tx)"
    "i64_or_max (ph_tx_time_microseconds (framework_phy seq tx ts mimo)) =
      (if sint (txp_tx_time_microseconds tx) < 0 then 0 else txp_tx_time_microseconds tx)"
    using max_zero_i64 [of "txp_tx_time_microseconds tx"] by (simp_all add: framework_phy_def not_less)
  have q: "pb_frequency_hz (pb_segment s) = mts_frequency_hz s" "pb_segment_powerd_bm (pb_segment s) = Some (mts_tx_power_dbm s)"
    by (simp_all add: pb_segment_def)
  have span: "segments_start (map pb_segment segments) = Min (mts_offset_microseconds ` set segments)"
    "segments_duration (map pb_segment segments) =
       max 1 (saturating_sub (Max ((\<lambda>s. saturating_add (mts_offset_microseconds s) (mts_duration_microseconds s)) ` set segments))
                (Min (mts_offset_microseconds ` set segments)))"
    by (simp_all add: segments_duration_def segments_start_def image_image pb_segment_def)
  have b: "pb_bandwidth_hz (pb_antenna a) = (if mta_spectral_mask_index a = 0 then mta_bandwidth_hz a else 0)"
    by (simp add: pb_antenna_def split_beta)
  show ?thesis
    using span i p q b unfolding received_properties_def tells_properties_def s list.map list.case by simp
qed

lemma received_tx_segments_sent: "map received_tx_segment (map pb_segment segments) = map tx_segment_of segments"
  by (simp add: received_tx_segment_def pb_segment_def tx_segment_of_def)

lemma tx_segments_encodable:
  assumes "segments \<noteq> []" "length segments < 65536"
  obtains sb where "TxFrequencySegments_encode segments = Some sb" "TxFrequencySegments_decode sb = Some (Some segments)"
    "length sb \<le> MAX_CONTROL_WIRE_SIZE"
proof -
  have "(word_of_nat (length segments) :: u16) \<noteq> 0"
    using assms by (simp add: unat_of_nat take_bit_nat_eq_self word_unat_eq_iff)
  then obtain sb where sb: "TxFrequencySegments_encode segments = Some sb" "length sb = 3 + length (concat (map TxFrequencySegment_bytes segments))"
    using assms(2) by (auto simp: TxFrequencySegments_encode_def encode_counted_def u16_try_from_def)
  have "length (concat (map TxFrequencySegment_bytes segments)) = 24 * length segments"
    by (induction segments) (simp_all add: TxFrequencySegment_bytes_def)
  then have "length sb \<le> MAX_CONTROL_WIRE_SIZE" using sb(2) assms(2) by (simp add: MAX_CONTROL_WIRE_SIZE_def)
  then show ?thesis using that sb(1) tx_segments.roundtrip [of segments sb] by simp
qed

lemma received_model_sent:
  "received_model (model_mac model) = Some (wire_model model)"
  using ucast_u16_inj [of "mh_registration_id model" MAC_REGISTRATION_BENTPIPE] by (auto simp: received_model_def wire_model_def)

lemma transmitters_encodable:
  assumes "TxTransmitters_encode ts = Some tb"
  shows "TxTransmitters_decode tb = Some (Some ts)" "length tb \<le> MAX_CONTROL_WIRE_SIZE"
proof -
  show "TxTransmitters_decode tb = Some (Some ts)" using transmitters.roundtrip [of ts tb] assms by simp
  have "length ts < 2 ^ 16" "length tb = 3 + length (concat (map TxTransmitter_bytes ts))"
    using assms by (auto simp: TxTransmitters_encode_def encode_counted_def u16_try_from_def split: if_splits bind_splits)
  moreover have "length (concat (map TxTransmitter_bytes ts)) = 10 * length ts"
    by (induction ts) (simp_all add: TxTransmitter_bytes_def)
  ultimately show "length tb \<le> MAX_CONTROL_WIRE_SIZE" by (simp add: MAX_CONTROL_WIRE_SIZE_def)
qed

lemma framework_frame_decodes:
  assumes codec: "decodes (encode_phy codec) (decode_phy codec) (framework_phy seq tx ts mimo)" "decodes (encode_mac codec) (decode_mac codec) (model_mac model)"
    and frame: "frame (encode_phy codec (framework_phy seq tx ts mimo))
      (encode_mac codec (model_mac model)) (Some body) = Some data"
    and source: "source \<in> ttx_nem_id ` set ts" and ts: "TxTransmitters_encode ts \<noteq> None" and mimo: "mimo_sendable mimo"
  shows "\<exists>ms. decode_legacy_ota_payload codec data source = Some (Some (body, ms)) \<and> received_framework model tx ts mimo ms"
proof -
  define phy where "phy = framework_phy seq tx ts mimo"
  define mac where "mac = model_mac model"
  define a where "a = hd (mtp_transmit_antennas mimo)"
  define segments where "segments = mtp_frequency_groups mimo ! unat (mta_frequency_group_index a)"
  have f: "frame (encode_phy codec phy) (encode_mac codec mac) (Some body) = Some data" using frame by (simp add: phy_def mac_def)
  have c: "decode_phy codec (encode_phy codec phy) = Some phy" "decode_mac codec (encode_mac codec mac) = Some mac"
    using codec by (simp_all add: decodes_def phy_def mac_def)
  obtain mb where mb: "MimoTxProperties_encode (wire_mimo mimo) = Some (Some mb)" "length mb \<le> MAX_CONTROL_WIRE_SIZE"
    "mtp_transmit_antennas mimo \<noteq> []" "\<forall>g \<in> set (mtp_frequency_groups mimo). g \<noteq> [] \<and> length g < 65536"
    using mimo_sendable_facts [OF mimo] by blast
  have idx: "unat (mta_frequency_group_index a) < length (mtp_frequency_groups mimo)" using mimo by (simp add: mimo_sendable_def a_def)
  have seg: "segments \<noteq> []" "length segments < 65536" using mb(4) nth_mem [OF idx] by (auto simp: segments_def)
  obtain tx_power where tr: "received_transmission source phy = Some (tx_power, pb_antenna a, map pb_segment segments)"
    using received_transmission_sent [OF source mb(3) a_def idx segments_def seg(1)] unfolding phy_def by blast
  obtain properties where pr: "received_properties phy tx_power (pb_antenna a) (map pb_segment segments) = Some properties"
    "tells_properties tx a segments properties"
    using received_properties_sent [OF seg(1)] unfolding phy_def by metis
  let ?segs = "map tx_segment_of segments"
  obtain sb where sb: "TxFrequencySegments_encode ?segs = Some sb" "TxFrequencySegments_decode sb = Some (Some ?segs)" "length sb \<le> MAX_CONTROL_WIRE_SIZE"
    using tx_segments_encodable [of ?segs] seg by auto
  obtain tb where tb: "TxTransmitters_encode ts = Some tb" using ts by blast
  obtain pb where pb: "TxProperties_encode properties = Some pb" "TxProperties_decode pb = Some (Some properties)" "length pb = 55"
    using tx_properties.roundtrip [of properties] by (simp add: TxProperties_bytes)
  obtain hb where hb: "ModelHeader_encode (wire_model model) = Some hb" "ModelHeader_decode hb = Some (Some (wire_model model))" "length hb = 24"
    using model_header.roundtrip [of "wire_model model"] by (simp add: ModelHeader_bytes)
  have recv: "received_mimo phy tx_power = wire_mimo mimo" "List.map_filter received_transmitter (ph_transmitters phy) = ts"
    "received_model mac = Some (wire_model model)"
    unfolding phy_def mac_def by (rule received_mimo_sent received_transmitters_sent received_model_sent)+
  have "decode_framework codec data source phy (2 + length (encode_phy codec phy)) = Some (Some (body, framework_messages hb pb sb tb mb))"
    unfolding decode_framework_def frame_parts(3) [OF f c(2)] option.case prod.case tr pr(1) pb(1) bind.bind_lunit received_tx_segments_sent
      sb(1) recv hb(1) frame_parts(4) [OF f] mb(1) tb framework_messages_def
    by simp
  moreover have "ph_registration_id phy = PHY_FRAMEWORK_REGISTRATION" by (simp add: phy_def framework_phy_def)
  ultimately have dec: "decode_legacy_ota_payload codec data source = Some (Some (body, framework_messages hb pb sb tb mb))"
    by (simp add: decode_legacy_ota_payload_def frame_parts(1) [OF f] c(1) PHY_FRAMEWORK_REGISTRATION_def PHY_COMM_EFFECT_REGISTRATION_def)
  have small: "length hb \<le> MAX_CONTROL_WIRE_SIZE" "length pb \<le> MAX_CONTROL_WIRE_SIZE"
    using hb(3) pb(3) by (simp_all add: MAX_CONTROL_WIRE_SIZE_def)
  have "received_framework model tx ts mimo (framework_messages hb pb sb tb mb)"
    unfolding received_framework_def Let_def a_def [symmetric] segments_def [symmetric]
    by (intro exI conjI)
       (rule hb(2) transmitters_encodable [OF tb] mimo_tx.roundtrip [OF mb(1)] sb(2,3) pb(2) pr(2) small mb(2) | rule refl)+
  with dec show ?thesis by blast
qed

section \<open>Control messages come back\<close>

definition control_entry :: "FfiControlMessage \<Rightarrow> byte list" where
  "control_entry m = be_bytes 4 (fcm_msg_type m) @ be_bytes 4 (word_of_nat (fs_len (fcm_payload m)) :: u32) @ contents (fcm_payload m)"

lemma contents_readable:
  assumes "slice_contents s = Some payload"
  shows "readable s" "contents s = payload" "length payload = fs_len s"
  using assms by (auto simp: readable_def contents_def slice_contents_def raw_parts_def split: if_splits option.splits)

lemma encode_control_loop_Some:
  assumes "encode_control_loop ms data = Some (Some out)"
  shows "list_all (\<lambda>m. readable (fcm_payload m) \<and> fs_len (fcm_payload m) < 2 ^ 32) ms \<and> out = data @ concat (map control_entry ms) \<and>
    (ms \<noteq> [] \<longrightarrow> length out \<le> MAX_CONTROL_WIRE_SIZE)"
  using assms
proof (induction ms arbitrary: data)
  case (Cons m ms)
  let ?len = "fs_len (fcm_payload m)"
  obtain payload where p: "slice_contents (fcm_payload m) = Some payload" "\<not> ?len > 0xFFFFFFFF"
    "length data + (8 + ?len) \<le> MAX_CONTROL_WIRE_SIZE"
    "encode_control_loop ms (data @ be_bytes 4 (fcm_msg_type m) @ be_bytes 4 (word_of_nat ?len :: u32) @ payload) = Some (Some out)"
    using Cons.prems by (auto simp: Let_def checked_add_def split: if_splits option.splits bind_splits)
  note r = contents_readable [OF p(1)]
  have e: "be_bytes 4 (fcm_msg_type m) @ be_bytes 4 (word_of_nat ?len :: u32) @ payload = control_entry m"
    using r(2) by (simp add: control_entry_def)
  have ih: "list_all (\<lambda>m. readable (fcm_payload m) \<and> fs_len (fcm_payload m) < 2 ^ 32) ms"
    "out = (data @ control_entry m) @ concat (map control_entry ms)" "ms \<noteq> [] \<longrightarrow> length out \<le> MAX_CONTROL_WIRE_SIZE"
    using Cons.IH [OF p(4) [unfolded e]] by auto
  have "length (control_entry m) = 8 + ?len" using r by (simp add: control_entry_def)
  then have "ms = [] \<Longrightarrow> length out \<le> MAX_CONTROL_WIRE_SIZE" using p(3) ih(2) by simp
  then show ?case using ih r(1) p(2) by auto
qed simp

lemma decode_control_entries_sent:
  assumes "list_all (\<lambda>m. readable (fcm_payload m) \<and> fs_len (fcm_payload m) < 2 ^ 32) ms" "length p = offset"
    "length (p @ concat (map control_entry ms) @ q) \<le> 2 ^ 40"
  shows "decode_control_entries (p @ concat (map control_entry ms) @ q) offset (length ms) =
    Some (Some (map (\<lambda>m. (fcm_msg_type m, contents (fcm_payload m))) ms, offset + length (concat (map control_entry ms))))"
  using assms
proof (induction ms arbitrary: p offset)
  case (Cons m ms)
  let ?t = "be_bytes 4 (fcm_msg_type m)" and ?l = "be_bytes 4 (word_of_nat (fs_len (fcm_payload m)) :: u32)"
  let ?b = "contents (fcm_payload m)" and ?rest = "concat (map control_entry ms) @ q"
  let ?data = "p @ concat (map control_entry (m # ms)) @ q"
  have m: "readable (fcm_payload m)" "fs_len (fcm_payload m) < 2 ^ 32" using Cons.prems(1) by simp_all
  have len: "length ?b = fs_len (fcm_payload m)"
    using m(1) contents_readable(2,3) by (fastforce simp: readable_def)
  have u: "unat (of_be_bytes ?l :: u32) = length ?b" using m(2) len by (simp add: unat_u32_of_nat)
  have data: "?data = p @ ?t @ (?l @ ?b @ ?rest)" "?data = (p @ ?t) @ ?l @ (?b @ ?rest)" "?data = (p @ ?t @ ?l) @ ?b @ ?rest"
    "?data = (p @ control_entry m) @ concat (map control_entry ms) @ q" by (simp_all add: control_entry_def)
  have s: "slice ?data offset (offset + 4) = Some ?t" "slice ?data (offset + 4) (offset + 8) = Some ?l"
    "slice ?data (offset + 8) (offset + 8 + length ?b) = Some ?b"
    using slice_append [of p offset "offset + 4" ?t "?l @ ?b @ ?rest"] slice_append [of "p @ ?t" "offset + 4" "offset + 8" ?l "?b @ ?rest"]
      slice_append [of "p @ ?t @ ?l" "offset + 8" "offset + 8 + length ?b" ?b ?rest] Cons.prems(2)
    unfolding data(1-3) [symmetric] by simp_all
  have big: "offset + 8 + length ?b \<le> length ?data" using Cons.prems(2) unfolding data(3) by simp
  have e: "length (control_entry m) = 8 + length ?b" by (simp add: control_entry_def)
  have ih: "decode_control_entries ?data (offset + 8 + length ?b) (length ms) =
    Some (Some (map (\<lambda>m. (fcm_msg_type m, contents (fcm_payload m))) ms, offset + 8 + length ?b + length (concat (map control_entry ms))))"
    using Cons.IH [of "p @ control_entry m" "offset + 8 + length ?b"] Cons.prems e unfolding data(4) by simp
  have lim: "offset + 8 + length ?b \<le> usize_max" using big Cons.prems(3) by (simp add: usize_max_def)
  show ?case
    using big lim ih s u e
    by (simp add: checked_add_def del: concat.simps list.map(2) append.simps append_assoc)
       (simp add: e)
qed simp

lemma ota_controls_roundtrip:
  assumes "controls messages = Some ms" "encode_ota_controls messages = Some (Some data)"
  shows "decode_ota_controls data = Some (Some (map copied ms)) \<and> list_all (\<lambda>m. readable (fcm_payload m)) ms"
proof -
  have n: "length ms < 2 ^ 16" and l: "encode_control_loop ms (be_bytes 2 (word_of_nat (length ms) :: u16)) = Some (Some data)"
    using assms by (auto simp: encode_ota_controls_def u16_try_from_def split: if_splits)
  note e = encode_control_loop_Some [OF l]
  have data: "data = be_bytes 2 (word_of_nat (length ms) :: u16) @ concat (map control_entry ms) @ []" using e by simp
  have size: "length data \<le> MAX_CONTROL_WIRE_SIZE" using e by (cases "ms = []") (auto simp: MAX_CONTROL_WIRE_SIZE_def)
  have u: "unat (word_of_nat (length ms) :: u16) = length ms" using n by (simp add: unat_of_nat take_bit_nat_eq_self)
  have s: "slice data 0 2 = Some (be_bytes 2 (word_of_nat (length ms) :: u16))"
    using slice_append [of "[]" 0 2 "be_bytes 2 (word_of_nat (length ms) :: u16)" "concat (map control_entry ms)"] by (simp add: data)
  have "decode_control_entries data 2 (length ms) =
    Some (Some (map (\<lambda>m. (fcm_msg_type m, contents (fcm_payload m))) ms, 2 + length (concat (map control_entry ms))))"
    unfolding data using e size by (intro decode_control_entries_sent) (simp_all add: MAX_CONTROL_WIRE_SIZE_def)
  moreover have "length data = 2 + length (concat (map control_entry ms))" "\<not> length data < 2" by (simp_all add: data)
  ultimately have "decode_ota_controls data = Some (Some (map copied ms))"
    using size s u by (simp add: decode_ota_controls_def copied_def owned_message_def)
  moreover have "list_all (\<lambda>m. readable (fcm_payload m)) ms" using e by (simp add: list_all_iff)
  ultimately show ?thesis by simp
qed

lemma comm_effect_frame_decodes:
  assumes codec: "decodes (encode_phy codec) (decode_phy codec) (comm_effect_phy packet header)"
      "decodes (encode_shim codec) (decode_shim codec) \<lparr>cesh_group_id = ceh_group_id header,
      cesh_sequence_number = ceh_sequence header, cesh_tx_time_microseconds = max_zero (ceh_tx_time_microseconds header)\<rparr>"
    and frame: "frame (encode_phy codec (comm_effect_phy packet header)) (encode_shim codec \<lparr>cesh_group_id = ceh_group_id header,
      cesh_sequence_number = ceh_sequence header, cesh_tx_time_microseconds = max_zero (ceh_tx_time_microseconds header)\<rparr>) (Some body) = Some data"
  shows "\<exists>hb. decode_legacy_ota_payload codec data source = Some (Some (body, [owned_message CONTROL_COMM_EFFECT_HEADER hb])) \<and>
    CommEffectHeader_decode hb = Some (Some (header\<lparr>ceh_tx_time_microseconds :=
      if sint (ceh_tx_time_microseconds header) < 0 then 0 else ceh_tx_time_microseconds header\<rparr>))"
proof -
  define phy where "phy = comm_effect_phy packet header"
  define shim where "shim = \<lparr>cesh_group_id = ceh_group_id header, cesh_sequence_number = ceh_sequence header,
    cesh_tx_time_microseconds = max_zero (ceh_tx_time_microseconds header)\<rparr>"
  have f: "frame (encode_phy codec phy) (encode_shim codec shim) (Some body) = Some data" using frame by (simp add: phy_def shim_def)
  have c: "decode_phy codec (encode_phy codec phy) = Some phy" "decode_shim codec (encode_shim codec shim) = Some shim"
    using codec by (simp_all add: decodes_def phy_def shim_def)
  let ?h = "\<lparr>ceh_group_id = cesh_group_id shim, ceh_sequence = cesh_sequence_number shim,
    ceh_tx_time_microseconds = i64_or_max (cesh_tx_time_microseconds shim)\<rparr>"
  obtain hb where hb: "CommEffectHeader_encode ?h = Some hb" by (simp add: CommEffectHeader_bytes)
  have "?h = header\<lparr>ceh_tx_time_microseconds := if sint (ceh_tx_time_microseconds header) < 0 then 0 else ceh_tx_time_microseconds header\<rparr>"
    using max_zero_i64 [of "ceh_tx_time_microseconds header"] by (simp add: shim_def not_less)
  moreover have "CommEffectHeader_decode hb = Some (Some ?h)" using comm_effect_header.roundtrip [of ?h hb] hb by simp
  moreover have "decode_comm_effect codec data (2 + length (encode_phy codec phy)) = Some (Some (body, [owned_message CONTROL_COMM_EFFECT_HEADER hb]))"
    unfolding decode_comm_effect_def frame_parts(2) [OF f] option.case prod.case c(2) hb bind.bind_lunit frame_parts(4) [OF f] by (rule refl)
  moreover have "ph_registration_id phy = PHY_COMM_EFFECT_REGISTRATION" by (simp add: phy_def comm_effect_phy_def)
  ultimately show ?thesis by (auto simp: decode_legacy_ota_payload_def frame_parts(1) [OF f] c(1))
qed


end
