(* ===== verification/Nem_Runtime.thy ===== *)
theory Nem_Runtime
  imports Nem_Ota Boundary_Message
begin

text \<open>
  The routes of the NEM manager (\<^verbatim>\<open>rust/emane-core/src/nem_manager.rs\<close>): how a packet leaves the bottom of a
  stack for the over-the-air manager, the boundary and the other local nodes, how it enters a stack from them,
  and how control messages and timers reach their layers. A route answers the list of what it does: calls of
  layers, sends at a boundary, sends over the air. A call is handed to the queue of its layer.
\<close>

section \<open>The runtime\<close>

text \<open>A call of a layer, copied from the memory of its caller: the packet and the control messages. The
  queue of the layer (theory \<open>Nem_Queued_Layer\<close>) runs it on the layer's own thread.\<close>

type_synonym QueuedCall = "(FfiPacketInfo \<times> byte list) option \<times> (u32 \<times> byte list) list"

definition capture_control :: "FfiControlMessage \<Rightarrow> (u32 \<times> byte list) option panics" where
  "capture_control m =
     (if fs_len (fcm_payload m) > 16 * 1024 * 1024 \<or> (fs_len (fcm_payload m) \<noteq> 0 \<and> fs_data (fcm_payload m) = None)
      then Some None
      else map_option (\<lambda>payload. Some (fcm_msg_type m, payload)) (slice_contents (fcm_payload m)))"

definition QueuedCall_capture :: "FfiPacket option \<Rightarrow> Messages \<Rightarrow> QueuedCall option panics" where
  "QueuedCall_capture packet messages = do {
     captured \<leftarrow> (case packet of
        None \<Rightarrow> Some (Some None)
      | Some p \<Rightarrow>
          if fs_len (fp_payload p) > 64 * 1024 * 1024 \<or> (fs_len (fp_payload p) \<noteq> 0 \<and> fs_data (fp_payload p) = None)
          then Some None
          else map_option (\<lambda>payload. Some (Some (fp_info p, payload))) (slice_contents (fp_payload p)));
     case captured of
       None \<Rightarrow> Some None
     | Some captured \<Rightarrow>
         (case controls messages of
            None \<Rightarrow> Some None
          | Some ms \<Rightarrow> do {
              cs \<leftarrow> collect_option capture_control ms;
              Some (map_option (\<lambda>cs. (captured, cs)) cs) }) }"

text \<open>The arguments \<open>run\<close> passes to the plugin.\<close>

definition call_packet :: "QueuedCall \<Rightarrow> FfiPacket option" where
  "call_packet call = map_option (\<lambda>(info, payload). \<lparr>fp_info = info, fp_payload = slice_of payload\<rparr>) (fst call)"

definition call_messages :: "QueuedCall \<Rightarrow> FfiControlMessage list" where
  "call_messages call = map (\<lambda>(kind, payload). owned_message kind payload) (snd call)"

datatype BoundaryRole = PlatformRole | TransportRole

datatype RuntimeEffect =
    LayerCall u16 nat bool QueuedCall
  | LayerEvent u16 nat u16 "byte list"
  | LayerTimedEvent u16 nat u64 u32 "byte list" "u64 \<times> u64 \<times> u64"
  | BoundarySend u16 "byte list"
  | OtaSend u16 u16 "byte list" "byte list"

text \<open>The stacks of the nodes by their heights, layer 0 on top; the boundaries and the sequence numbers.\<close>

record Runtime =
  rt_invocations :: "u16 \<rightharpoonup> nat"
  rt_boundaries :: "u16 \<rightharpoonup> BoundaryRole"
  rt_phy_tx_sequences :: "u16 \<rightharpoonup> u16"

definition next_phy_tx_sequence :: "u16 \<Rightarrow> Runtime \<Rightarrow> u16 \<times> Runtime" where
  "next_phy_tx_sequence nem_id rt =
     (let current = unwrap_or (rt_phy_tx_sequences rt nem_id) 0
      in (current, rt\<lparr>rt_phy_tx_sequences := (rt_phy_tx_sequences rt)(nem_id \<mapsto> current + 1)\<rparr>))"

definition invocation :: "Runtime \<Rightarrow> u16 \<Rightarrow> nat \<Rightarrow> (u16 \<times> nat) option" where
  "invocation rt nem_id index =
     (case rt_invocations rt nem_id of None \<Rightarrow> None | Some height \<Rightarrow> if index < height then Some (nem_id, index) else None)"

definition last_invocation :: "Runtime \<Rightarrow> u16 \<Rightarrow> (u16 \<times> nat) option" where
  "last_invocation rt nem_id =
     (case rt_invocations rt nem_id of None \<Rightarrow> None | Some height \<Rightarrow> if height > 0 then Some (nem_id, height - 1) else None)"

definition rt_boundary :: "Runtime \<Rightarrow> u16 \<Rightarrow> BoundaryRole \<Rightarrow> bool" where
  "rt_boundary rt nem_id role \<longleftrightarrow> rt_boundaries rt nem_id = Some role"

text \<open>An invocation: the node and the position of the layer in its stack. \<open>LayerCall\<close>, \<open>LayerEvent\<close> and
  \<open>LayerTimedEvent\<close> say that the call is handed to the queue of that layer; whether the queue accepts it, the caller
  runs it or it is dropped depends on the state of the queue and is \<open>layer_submit\<close> of theory
  \<open>Nem_Queued_Layer\<close>, with the task kind of \<open>call_kind\<close>. A call that cannot be copied is not handed over.\<close>

definition Invocation_process :: "u16 \<times> nat \<Rightarrow> bool \<Rightarrow> FfiPacket option \<Rightarrow> Messages \<Rightarrow> RuntimeEffect list panics" where
  "Invocation_process target down packet messages = do {
     call \<leftarrow> QueuedCall_capture packet messages;
     Some (case call of None \<Rightarrow> [] | Some call \<Rightarrow> [LayerCall (fst target) (snd target) down call]) }"

definition Invocation_process_event :: "u16 \<times> nat \<Rightarrow> u16 \<Rightarrow> FfiSlice \<Rightarrow> RuntimeEffect list panics" where
  "Invocation_process_event target event_id data =
     (if fs_len data > 16 * 1024 * 1024 \<or> (fs_len data \<noteq> 0 \<and> fs_data data = None) then Some []
      else map_option (\<lambda>bytes. [LayerEvent (fst target) (snd target) event_id bytes]) (slice_contents data))"

definition Invocation_process_timed_event :: "u16 \<times> nat \<Rightarrow> u64 \<Rightarrow> u32 \<Rightarrow> byte list \<Rightarrow> u64 \<times> u64 \<times> u64 \<Rightarrow> RuntimeEffect list" where
  "Invocation_process_timed_event target timer_id event_id data stamps = [LayerTimedEvent (fst target) (snd target) timer_id event_id data stamps]"

text \<open>An endpoint sends what it can encode; its answer is ignored.\<close>

definition boundary_effect :: "u16 \<Rightarrow> (BoundaryError, byte list) result_panics \<Rightarrow> RuntimeEffect list panics" where
  "boundary_effect nem_id encoded =
     (case encoded of None \<Rightarrow> None | Some (Inl e) \<Rightarrow> Some [] | Some (Inr data) \<Rightarrow> Some [BoundarySend nem_id data])"

text \<open>The part of \<open>route_downstream\<close> that hands the packet to the over-the-air manager.\<close>

definition route_ota :: "OtaCodec \<Rightarrow> u16 \<Rightarrow> FfiPacket \<Rightarrow> Messages \<Rightarrow> Runtime \<Rightarrow> (RuntimeEffect list \<times> Runtime) panics" where
  "route_ota codec nem_id p messages rt = do {
     (phy_sequence, rt) \<leftarrow> (case controls messages of
        None \<Rightarrow> Some (0, rt)
      | Some ms \<Rightarrow> do {
          model \<leftarrow> control_payload ms CONTROL_MODEL_HEADER;
          tx \<leftarrow> control_payload ms CONTROL_TX_PROPERTIES;
          Some (if model = None \<or> tx = None then (0, rt) else next_phy_tx_sequence nem_id rt) });
     legacy_payload \<leftarrow> encode_legacy_ota_payload codec p messages phy_sequence;
     private_controls \<leftarrow> (if legacy_payload = None then encode_ota_controls messages else Some None);
     private_payload \<leftarrow> packet_payload p;
     let destination = pi_destination (fp_info p);
     Some (case legacy_payload of
         Some payload \<Rightarrow> [OtaSend nem_id destination payload (be_bytes 2 (0 :: u16))]
       | None \<Rightarrow>
           (case (private_controls, private_payload) of
              (Some cs, Some payload) \<Rightarrow> [OtaSend nem_id destination payload cs]
            | _ \<Rightarrow> []), rt) }"

fun process_all :: "(u16 \<times> nat) list \<Rightarrow> FfiPacket option \<Rightarrow> Messages \<Rightarrow> RuntimeEffect list panics" where
  "process_all [] packet messages = Some []"
| "process_all (target # targets) packet messages = do {
     a \<leftarrow> Invocation_process target False packet messages;
     b \<leftarrow> process_all targets packet messages;
     Some (a @ b) }"

text \<open>The other local nodes, in the order \<open>order\<close> of the walk over the table of stacks.\<close>

definition local_targets :: "u16 list \<Rightarrow> u16 \<Rightarrow> u16 list \<Rightarrow> Runtime \<Rightarrow> (u16 \<times> nat) list" where
  "local_targets order nem_id transmitters rt =
     List.map_filter (last_invocation rt) (filter (\<lambda>i. i \<noteq> nem_id \<and> i \<notin> set transmitters) order)"

definition route_downstream ::
  "OtaCodec \<Rightarrow> u16 list \<Rightarrow> u16 \<Rightarrow> nat \<Rightarrow> FfiPacket option \<Rightarrow> Messages \<Rightarrow> Runtime \<Rightarrow> (RuntimeEffect list \<times> Runtime) panics" where
  "route_downstream codec order nem_id current_index packet messages rt =
     (case invocation rt nem_id (current_index + 1) of
        Some target \<Rightarrow> map_option (\<lambda>es. (es, rt)) (Invocation_process target True packet messages)
      | None \<Rightarrow>
          (case packet of
             None \<Rightarrow> Some ([], rt)
           | Some p \<Rightarrow>
               if rt_boundary rt nem_id TransportRole
               then (case controls messages of
                       None \<Rightarrow> Some ([], rt)
                     | Some ms \<Rightarrow> map_option (\<lambda>es. (es, rt)) (boundary_effect nem_id (packet_message p ms)))
               else do {
                 (sent, rt) \<leftarrow> route_ota codec nem_id p messages rt;
                 transmitters \<leftarrow> (case controls messages of None \<Rightarrow> Some None | Some ms \<Rightarrow> find_tx_transmitters ms);
                 delivered \<leftarrow> process_all (local_targets order nem_id (map ttx_nem_id (unwrap_or transmitters [])) rt) packet messages;
                 Some (sent @ delivered, rt) }))"

definition route_upstream :: "u16 \<Rightarrow> nat \<Rightarrow> FfiPacket option \<Rightarrow> Messages \<Rightarrow> Runtime \<Rightarrow> RuntimeEffect list panics" where
  "route_upstream nem_id current_index packet messages rt =
     (if current_index > 0
      then (case invocation rt nem_id (current_index - 1) of
              None \<Rightarrow> Some []
            | Some target \<Rightarrow> Invocation_process target False packet messages)
      else if rt_boundary rt nem_id PlatformRole
      then (case (controls messages, packet) of
              (Some ms, Some p) \<Rightarrow> boundary_effect nem_id (packet_message p ms)
            | _ \<Rightarrow> Some [])
      else Some [])"

definition route_control :: "u16 \<Rightarrow> nat \<Rightarrow> bool \<Rightarrow> Messages \<Rightarrow> Runtime \<Rightarrow> RuntimeEffect list panics" where
  "route_control nem_id current_index down messages rt =
     (let target = (if down then invocation rt nem_id (current_index + 1)
                    else if current_index > 0 then invocation rt nem_id (current_index - 1) else None)
      in case target of
           Some target \<Rightarrow> Invocation_process target down None messages
         | None \<Rightarrow>
             if rt_boundary rt nem_id (if down then TransportRole else PlatformRole)
             then (case controls messages of
                     None \<Rightarrow> Some []
                   | Some ms \<Rightarrow> boundary_effect nem_id (control_message ms))
             else Some [])"

definition owned_messages :: "OwnedControlMessage list \<Rightarrow> Messages" where
  "owned_messages cs = messages_of (map (\<lambda>c. owned_message (ocm_message_type c) (ocm_payload c)) cs)"

definition process_boundary_message :: "u16 \<Rightarrow> BoundaryRole \<Rightarrow> BoundaryMessage \<Rightarrow> Runtime \<Rightarrow> RuntimeEffect list panics" where
  "process_boundary_message nem_id role message rt =
     (case (case role of PlatformRole \<Rightarrow> invocation rt nem_id 0 | TransportRole \<Rightarrow> last_invocation rt nem_id) of
        None \<Rightarrow> Some []
      | Some target \<Rightarrow>
          (case message of
             PacketMessage p \<Rightarrow>
               Invocation_process target (role = PlatformRole)
                 (Some \<lparr>fp_info = Boundary_Message.bp_info p, fp_payload = slice_of (Boundary_Message.bp_payload p)\<rparr>)
                 (owned_messages (Boundary_Message.bp_controls p))
           | ControlMessages cs \<Rightarrow> Invocation_process target (role = PlatformRole) None (owned_messages cs)))"

text \<open>A packet that comes from the over-the-air manager, for the node of the context; \<open>now\<close> is the clock.\<close>

definition ota_packet ::
  "OtaCodec \<Rightarrow> u64 \<times> u32 \<Rightarrow> u16 \<Rightarrow> u16 \<Rightarrow> u16 \<Rightarrow> u8 \<Rightarrow> FfiSlice \<Rightarrow> FfiSlice \<Rightarrow> Runtime \<Rightarrow> RuntimeEffect list panics" where
  "ota_packet codec now nem_id source destination priority data control_data rt =
     (if (fs_len data \<noteq> 0 \<and> fs_data data = None) \<or> (fs_len control_data \<noteq> 0 \<and> fs_data control_data = None) then Some []
      else do {
        control_bytes \<leftarrow> slice_contents control_data;
        bytes \<leftarrow> slice_contents data;
        decoded_controls \<leftarrow> decode_ota_controls control_bytes;
        legacy \<leftarrow> decode_legacy_ota_payload codec bytes source;
        case (case legacy of Some x \<Rightarrow> Some x | None \<Rightarrow> map_option (\<lambda>ms. (bytes, ms)) decoded_controls) of
          None \<Rightarrow> Some []
        | Some (payload, ms) \<Rightarrow> do {
            transmitters \<leftarrow> find_tx_transmitters ms;
            if list_ex (\<lambda>t. ttx_nem_id t = nem_id) (unwrap_or transmitters []) then Some []
            else (case last_invocation rt nem_id of
                    None \<Rightarrow> Some []
                  | Some target \<Rightarrow>
                      Invocation_process target False
                        (Some \<lparr>fp_info = \<lparr>pi_source = source, pi_destination = destination, pi_priority = priority,
                                 pi_creation_time_sec = fst now, pi_creation_time_usec = snd now\<rparr>,
                               fp_payload = slice_of payload\<rparr>)
                        (messages_of ms)) } })"

text \<open>Timers: a plugin asks for a time in seconds and microseconds, absolute or as a small interval.\<close>

definition timed_event_expiration :: "u64 \<Rightarrow> u64 \<Rightarrow> u64" where
  "timed_event_expiration requested now =
     (if requested \<ge> now then requested
      else if requested < now div 2 then saturating_add now requested
      else now)"

record TimerDispatch =
  td_nem_id :: u16
  td_layer_index :: nat
  td_plugin_event_id :: u32
  td_data :: "byte list"

text \<open>The time and the record a layer's timer is handed to the timer service with.\<close>

definition schedule_timed_event ::
  "u16 \<Rightarrow> nat \<Rightarrow> u64 \<Rightarrow> u32 \<Rightarrow> u32 \<Rightarrow> FfiSlice \<Rightarrow> u64 \<Rightarrow> (u64 \<times> TimerDispatch) panics" where
  "schedule_timed_event nem_id layer_index time_sec time_usec event_id data now = do {
     payload \<leftarrow> (if fs_data data = None \<or> fs_len data = 0 then Some [] else slice_contents data);
     let requested = saturating_add (saturating_mul time_sec 1000000) (ucast time_usec);
     Some (timed_event_expiration requested now,
       \<lparr>td_nem_id = nem_id, td_layer_index = layer_index, td_plugin_event_id = event_id, td_data = payload\<rparr>) }"

definition timer_dispatch :: "u64 \<Rightarrow> u64 \<times> u64 \<times> u64 \<Rightarrow> TimerDispatch option \<Rightarrow> Runtime \<Rightarrow> RuntimeEffect list" where
  "timer_dispatch timer_id stamps user rt =
     (case user of
        None \<Rightarrow> []
      | Some d \<Rightarrow>
          (case invocation rt (td_nem_id d) (td_layer_index d) of
             None \<Rightarrow> []
           | Some target \<Rightarrow> Invocation_process_timed_event target timer_id (td_plugin_event_id d) (td_data d) stamps))"
section \<open>Over the air\<close>

lemma collect_captured:
  assumes "list_all (\<lambda>(k, b). length b \<le> 16 * 1024 * 1024) es"
  shows "collect_option capture_control (map (\<lambda>(k, b). owned_message k b) es) = Some (Some es)"
  using assms
  by (induction es) (auto simp: capture_control_def owned_message_def slice_of_fields)

lemma capture_owned:
  assumes "list_all (\<lambda>(k, b). length b \<le> 16 * 1024 * 1024) es" "length es \<le> 4096" "length body \<le> 64 * 1024 * 1024"
  shows "QueuedCall_capture (Some \<lparr>fp_info = info, fp_payload = slice_of body\<rparr>) (messages_of (map (\<lambda>(k, b). owned_message k b) es)) =
    Some (Some (Some (info, body), es))"
proof -
  have "controls (messages_of (map (\<lambda>(k, b). owned_message k b) es)) = Some (map (\<lambda>(k, b). owned_message k b) es)"
    using assms(2) by (simp add: controls_def messages_of_def)
  then show ?thesis using assms(3) collect_captured [OF assms(1)]
    by (simp add: QueuedCall_capture_def slice_of_fields del: split_paired_All)
qed

definition framework_entries :: "byte list \<Rightarrow> byte list \<Rightarrow> byte list \<Rightarrow> byte list \<Rightarrow> byte list \<Rightarrow> (u32 \<times> byte list) list" where
  "framework_entries hb pb sb tb mb = [(CONTROL_MODEL_HEADER, hb), (CONTROL_TX_PROPERTIES, pb),
     (CONTROL_TX_FREQUENCY_SEGMENTS, sb), (CONTROL_TX_TRANSMITTERS, tb), (CONTROL_MIMO_TX_PROPERTIES, mb)]"

lemma framework_entries_messages:
  "map (\<lambda>(k, b). owned_message k b) (framework_entries hb pb sb tb mb) = framework_messages hb pb sb tb mb"
  by (simp add: framework_entries_def framework_messages_def)

lemmas control_kinds = CONTROL_MODEL_HEADER_def CONTROL_TX_PROPERTIES_def CONTROL_TX_FREQUENCY_SEGMENTS_def
  CONTROL_TX_TRANSMITTERS_def CONTROL_MIMO_TX_PROPERTIES_def

lemma kinds_before_transmitters:
  "CONTROL_MODEL_HEADER \<noteq> CONTROL_TX_TRANSMITTERS" "CONTROL_TX_PROPERTIES \<noteq> CONTROL_TX_TRANSMITTERS"
  "CONTROL_TX_FREQUENCY_SEGMENTS \<noteq> CONTROL_TX_TRANSMITTERS"
  by (simp_all add: control_kinds)

lemma framework_transmitters:
  assumes "TxTransmitters_decode tb = Some (Some ts)" "length tb \<le> MAX_CONTROL_WIRE_SIZE"
  shows "find_tx_transmitters (framework_messages hb pb sb tb mb) = Some (Some ts)"
proof -
  have "control_payload (framework_messages hb pb sb tb mb) CONTROL_TX_TRANSMITTERS = Some (Some tb)"
    unfolding framework_messages_def using assms(2) kinds_before_transmitters by (simp del: control_payload.simps)
  then show ?thesis using assms(1) by (simp add: find_tx_transmitters_def find_payload_def)
qed

lemma decode_no_controls: "decode_ota_controls (be_bytes 2 (0 :: u16)) = Some (Some [])"
  by (simp add: decode_ota_controls_def MAX_CONTROL_WIRE_SIZE_def)

lemma received_call:
  assumes "received_framework model tx ts mimo ms" "length body \<le> 64 * 1024 * 1024"
  shows "\<exists>call. Invocation_process target down (Some \<lparr>fp_info = info, fp_payload = slice_of body\<rparr>) (messages_of ms) =
      Some [LayerCall (fst target) (snd target) down call] \<and> fst call = Some (info, body) \<and> call_messages call = ms \<and>
    find_tx_transmitters ms = Some (Some ts)"
proof -
  obtain hb pb sb tb mb where ms: "ms = framework_messages hb pb sb tb mb" "TxTransmitters_decode tb = Some (Some ts)"
    "length hb \<le> MAX_CONTROL_WIRE_SIZE" "length pb \<le> MAX_CONTROL_WIRE_SIZE" "length sb \<le> MAX_CONTROL_WIRE_SIZE"
    "length tb \<le> MAX_CONTROL_WIRE_SIZE" "length mb \<le> MAX_CONTROL_WIRE_SIZE"
    using assms(1) unfolding received_framework_def Let_def by (elim exE conjE)
  let ?es = "framework_entries hb pb sb tb mb"
  have "list_all (\<lambda>(k, b). length b \<le> 16 * 1024 * 1024) ?es" "length ?es \<le> 4096"
    using ms(3-7) by (simp_all add: framework_entries_def MAX_CONTROL_WIRE_SIZE_def)
  from capture_owned [OF this assms(2), of info] have
    "QueuedCall_capture (Some \<lparr>fp_info = info, fp_payload = slice_of body\<rparr>) (messages_of ms) = Some (Some (Some (info, body), ?es))"
    by (simp add: framework_entries_messages ms(1))
  then show ?thesis using framework_transmitters [OF ms(2,6)]
    by (simp add: Invocation_process_def call_messages_def framework_entries_messages ms(1))
qed

text \<open>The packet of a radio model with its transmission, at the bottom of a stack without a boundary.\<close>

definition transmits :: "Runtime \<Rightarrow> u16 \<Rightarrow> nat \<Rightarrow> FfiPacket \<Rightarrow> FfiControlMessage list \<Rightarrow> byte list \<Rightarrow>
  ModelHeader \<Rightarrow> TxProperties \<Rightarrow> TxTransmitter list \<Rightarrow> MimoTxProperties \<Rightarrow> bool" where
  "transmits rt nem i p ms body model tx ts mimo \<longleftrightarrow>
     invocation rt nem (i + 1) = None \<and> \<not> rt_boundary rt nem TransportRole \<and>
     packet_payload p = Some (Some body) \<and>
     find_payload ModelHeader_decode CONTROL_MODEL_HEADER ms = Some (Some model) \<and>
     find_tx_properties ms = Some (Some tx) \<and> sent_transmitters p tx ms = Some ts \<and> sent_mimo tx ms = Some mimo \<and>
     nem \<in> ttx_nem_id ` set ts \<and> TxTransmitters_encode ts \<noteq> None \<and> mimo_sendable mimo"

definition headers_fit :: "OtaCodec \<Rightarrow> ModelHeader \<Rightarrow> TxProperties \<Rightarrow> TxTransmitter list \<Rightarrow> MimoTxProperties \<Rightarrow> u16 \<Rightarrow> bool" where
  "headers_fit codec model tx ts mimo seq \<longleftrightarrow>
     length (encode_phy codec (framework_phy seq tx ts mimo)) < 2 ^ 16 \<and>
     length (encode_mac codec (model_mac model)) < 2 ^ 16"

lemma transmits_frame:
  assumes "transmits rt nem i p ms body model tx ts mimo" "controls messages = Some ms" "headers_fit codec model tx ts mimo seq"
  shows "\<exists>data. encode_legacy_ota_payload codec p messages seq = Some (Some data) \<and>
    frame (encode_phy codec (framework_phy seq tx ts mimo))
      (encode_mac codec (model_mac model)) (Some body) = Some data"
  using assms by (simp add: transmits_def headers_fit_def encode_legacy_ota_payload_def frame_def u16_try_from_def Let_def)

text \<open>The sequence number of the transmission: the next one of the node, once both headers can be read.\<close>

lemma find_payload_read: "find_payload decode kind ms = Some (Some x) \<Longrightarrow> \<exists>b. control_payload ms kind = Some (Some b)"
  by (auto simp: find_payload_def split: bind_splits option.splits)

lemma control_payload_total: "list_all (\<lambda>m. readable (fcm_payload m)) ms \<Longrightarrow> control_payload ms kind \<noteq> None"
  by (induction ms) (auto simp: readable_def)

lemma find_tx_properties_read:
  "find_tx_properties ms = Some (Some tx) \<Longrightarrow> list_all (\<lambda>m. readable (fcm_payload m)) ms \<Longrightarrow>
    \<exists>b. control_payload ms CONTROL_TX_PROPERTIES = Some (Some b)"
proof (induction ms)
  case (Cons m ms)
  obtain b where "slice_contents (fcm_payload m) = Some b" using Cons.prems(2) by (auto simp: readable_def)
  then show ?case using Cons by (auto simp: MAX_CONTROL_WIRE_SIZE_def split: if_splits)
qed simp

lemma route_ota_transmits:
  assumes "transmits rt nem i p ms body model tx ts mimo" "controls messages = Some ms" "list_all (\<lambda>m. readable (fcm_payload m)) ms"
    and "seq = unwrap_or (rt_phy_tx_sequences rt nem) 0" "headers_fit codec model tx ts mimo seq"
  shows "\<exists>data. route_ota codec nem p messages rt =
      Some ([OtaSend nem (pi_destination (fp_info p)) data (be_bytes 2 (0 :: u16))], snd (next_phy_tx_sequence nem rt)) \<and>
    frame (encode_phy codec (framework_phy seq tx ts mimo))
      (encode_mac codec (model_mac model)) (Some body) = Some data"
proof -
  obtain data where data: "encode_legacy_ota_payload codec p messages seq = Some (Some data)"
    "frame (encode_phy codec (framework_phy seq tx ts mimo))
      (encode_mac codec (model_mac model)) (Some body) = Some data"
    using transmits_frame [OF assms(1,2,5)] by blast
  have found: "find_payload ModelHeader_decode CONTROL_MODEL_HEADER ms = Some (Some model)" "find_tx_properties ms = Some (Some tx)"
    "packet_payload p = Some (Some body)"
    using assms(1) unfolding transmits_def by simp_all
  obtain b where b: "control_payload ms CONTROL_MODEL_HEADER = Some (Some b)" using find_payload_read [OF found(1)] by blast
  obtain c where c: "control_payload ms CONTROL_TX_PROPERTIES = Some (Some c)" using find_tx_properties_read [OF found(2) assms(3)] by blast
  obtain rt' where rt': "next_phy_tx_sequence nem rt = (seq, rt')" by (simp add: next_phy_tx_sequence_def Let_def assms(4))
  have "route_ota codec nem p messages rt =
    Some ([OtaSend nem (pi_destination (fp_info p)) data (be_bytes 2 (0 :: u16))], snd (next_phy_tx_sequence nem rt))"
    unfolding route_ota_def assms(2) option.case b c rt' bind.bind_lunit by (simp add: rt' data(1) found(3))
  with data(2) show ?thesis by blast
qed

lemma ota_packet_received:
  assumes dec: "decode_legacy_ota_payload codec data source = Some (Some (body, ms))" and recv: "received_framework model tx ts mimo ms"
    and size: "length body \<le> 64 * 1024 * 1024" and peer: "last_invocation rt peer = Some (peer, k)" "peer \<notin> ttx_nem_id ` set ts"
  shows "\<exists>call. ota_packet codec now peer source destination priority (slice_of data) (slice_of (be_bytes 2 (0 :: u16))) rt =
      Some [LayerCall peer k False call] \<and>
    fst call = Some (\<lparr>pi_source = source, pi_destination = destination, pi_priority = priority, pi_creation_time_sec = fst now,
      pi_creation_time_usec = snd now\<rparr>, body) \<and> call_messages call = ms"
proof -
  let ?info = "\<lparr>pi_source = source, pi_destination = destination, pi_priority = priority, pi_creation_time_sec = fst now,
      pi_creation_time_usec = snd now\<rparr>"
  obtain call where call: "Invocation_process (peer, k) False (Some \<lparr>fp_info = ?info, fp_payload = slice_of body\<rparr>) (messages_of ms) =
      Some [LayerCall peer k False call]" "fst call = Some (?info, body)" "call_messages call = ms" "find_tx_transmitters ms = Some (Some ts)"
    using received_call [OF recv size, of "(peer, k)" False ?info] by auto
  have "\<not> list_ex (\<lambda>t. ttx_nem_id t = peer) ts" using peer(2) by (auto simp: list_ex_iff)
  then have "ota_packet codec now peer source destination priority (slice_of data) (slice_of (be_bytes 2 (0 :: u16))) rt =
      Some [LayerCall peer k False call]"
    unfolding ota_packet_def using call(1,4) peer(1) dec decode_no_controls by (simp add: slice_of_fields)
  then show ?thesis using call(2,3) by blast
qed


section \<open>The local medium\<close>

lemma find_tx_transmitters_returns: "list_all (\<lambda>m. readable (fcm_payload m)) ms \<Longrightarrow> find_tx_transmitters ms \<noteq> None"
  using control_payload_total [of ms CONTROL_TX_TRANSMITTERS] transmitters.decode_no_panic
  by (auto simp: find_tx_transmitters_def find_payload_def split: bind_splits option.splits)

lemma capture_controls_returns: "list_all (\<lambda>m. readable (fcm_payload m)) ms \<Longrightarrow> collect_option capture_control ms \<noteq> None"
  by (induction ms) (auto simp: capture_control_def readable_def split: option.splits)

lemma capture_returns:
  assumes "packet_payload p = Some (Some body)" "controls messages = Some ms" "list_all (\<lambda>m. readable (fcm_payload m)) ms"
  shows "QueuedCall_capture (Some p) messages \<noteq> None"
proof -
  have "slice_contents (fp_payload p) = Some body"
    using assms(1) by (auto simp: packet_payload_def slice_contents_def raw_parts_def split: if_splits option.splits)
  moreover obtain cs where "collect_option capture_control ms = Some cs" using capture_controls_returns [OF assms(3)] by blast
  ultimately show ?thesis by (simp add: QueuedCall_capture_def assms(2))
qed

lemma process_all_captured:
  assumes "QueuedCall_capture packet messages = Some call"
  shows "process_all targets packet messages =
    Some (case call of None \<Rightarrow> [] | Some call \<Rightarrow> map (\<lambda>(n, k). LayerCall n k False call) targets)"
  by (induction targets) (auto simp: Invocation_process_def assms split: option.splits)

lemma route_downstream_medium:
  assumes "transmits rt nem i p ms body model tx ts mimo" "controls messages = Some ms" "list_all (\<lambda>m. readable (fcm_payload m)) ms"
    and "route_ota codec nem p messages rt = Some (sent, rt')" "find_tx_transmitters ms = Some listed"
    and "QueuedCall_capture (Some p) messages = Some call"
  shows "route_downstream codec order nem i (Some p) messages rt =
    Some (sent @ (case call of None \<Rightarrow> [] | Some call \<Rightarrow>
      map (\<lambda>(n, k). LayerCall n k False call) (local_targets order nem (map ttx_nem_id (unwrap_or listed [])) rt')), rt')"
  using assms by (simp add: route_downstream_def transmits_def process_all_captured)

text \<open>With readable messages the hand-over to the over-the-air manager returns, whatever they say.\<close>

lemma find_payload_returns:
  "list_all (\<lambda>m. readable (fcm_payload m)) ms \<Longrightarrow> (\<And>d. decode d \<noteq> None) \<Longrightarrow> find_payload decode kind ms \<noteq> None"
  using control_payload_total [of ms kind] by (auto simp: find_payload_def split: bind_splits option.splits)

lemma find_tx_properties_returns: "list_all (\<lambda>m. readable (fcm_payload m)) ms \<Longrightarrow> find_tx_properties ms \<noteq> None"
proof (induction ms)
  case (Cons m ms)
  obtain d where d: "slice_contents (fcm_payload m) = Some d" using Cons.prems by (auto simp: readable_def)
  obtain tx where "TxProperties_decode d = Some tx" using tx_properties.decode_no_panic by blast
  then show ?case using d Cons by (cases tx) simp_all
qed simp

lemma commeffect_payload_returns:
  assumes "list_all (\<lambda>m. readable (fcm_payload m)) ms" "packet_payload p \<noteq> None"
  shows "encode_legacy_commeffect_payload codec p ms \<noteq> None"
  using find_payload_returns [OF assms(1), of CommEffectHeader_decode CONTROL_COMM_EFFECT_HEADER] comm_effect_header.decode_no_panic assms(2)
  by (auto simp: encode_legacy_commeffect_payload_def Let_def split: bind_splits option.splits)

lemma sent_returns:
  assumes "list_all (\<lambda>m. readable (fcm_payload m)) ms"
  shows "sent_transmitters p tx ms \<noteq> None" "sent_mimo tx ms \<noteq> None"
  using find_tx_transmitters_returns [OF assms] find_payload_returns [OF assms, of MimoTxProperties_decode CONTROL_MIMO_TX_PROPERTIES]
    find_payload_returns [OF assms, of TxFrequencySegments_decode CONTROL_TX_FREQUENCY_SEGMENTS] mimo_tx.decode_no_panic tx_segments.decode_no_panic
  by (auto simp: sent_transmitters_def sent_mimo_def find_mimo_tx_properties_def find_tx_frequency_segments_def split: bind_splits option.splits)

lemma legacy_payload_returns:
  assumes "controls messages = Some ms" "list_all (\<lambda>m. readable (fcm_payload m)) ms" "packet_payload p \<noteq> None"
  shows "encode_legacy_ota_payload codec p messages seq \<noteq> None"
proof -
  obtain model where m: "find_payload ModelHeader_decode CONTROL_MODEL_HEADER ms = Some model"
    using find_payload_returns [OF assms(2), of ModelHeader_decode CONTROL_MODEL_HEADER] model_header.decode_no_panic by blast
  obtain tx where t: "find_tx_properties ms = Some tx" using find_tx_properties_returns [OF assms(2)] by blast
  show ?thesis
  proof (cases model)
    case None
    then show ?thesis using m commeffect_payload_returns [OF assms(2,3)] by (simp add: encode_legacy_ota_payload_def assms(1))
  next
    case (Some model)
    show ?thesis
    proof (cases tx)
      case None
      then show ?thesis using m t Some by (simp add: encode_legacy_ota_payload_def assms(1))
    next
      case tx: (Some tx)
      obtain ts mimo body where "sent_transmitters p tx ms = Some ts" "sent_mimo tx ms = Some mimo" "packet_payload p = Some body"
        using sent_returns [OF assms(2)] assms(3) by (metis option.exhaust)
      then show ?thesis using m t Some tx by (simp add: encode_legacy_ota_payload_def assms(1) Let_def)
    qed
  qed
qed

lemma control_loop_returns: "list_all (\<lambda>m. readable (fcm_payload m)) ms \<Longrightarrow> encode_control_loop ms data \<noteq> None"
  by (induction ms arbitrary: data) (auto simp: readable_def Let_def split: bind_splits option.splits)

lemma route_ota_returns:
  assumes "controls messages = Some ms" "list_all (\<lambda>m. readable (fcm_payload m)) ms" "packet_payload p \<noteq> None"
  shows "\<exists>sent rt'. route_ota codec nem p messages rt = Some (sent, rt') \<and> rt_invocations rt' = rt_invocations rt \<and>
    (\<forall>n k d c. LayerCall n k d c \<notin> set sent) \<and> length sent \<le> 1"
proof -
  obtain a b where ab: "control_payload ms CONTROL_MODEL_HEADER = Some a" "control_payload ms CONTROL_TX_PROPERTIES = Some b"
    using control_payload_total [OF assms(2)] by blast
  define r where "r = (if a = None \<or> b = None then (0, rt) else next_phy_tx_sequence nem rt)"
  obtain legacy where l: "encode_legacy_ota_payload codec p messages (fst r) = Some legacy" using legacy_payload_returns [OF assms] by blast
  obtain extra where q: "encode_ota_controls messages = Some extra"
    using control_loop_returns [OF assms(2)] by (fastforce simp: encode_ota_controls_def assms(1) Let_def split: option.splits)
  obtain payload where y: "packet_payload p = Some payload" using assms(3) by blast
  have inv: "rt_invocations (snd r) = rt_invocations rt" by (simp add: r_def next_phy_tx_sequence_def Let_def)
  have "route_ota codec nem p messages rt = Some (case legacy of
         Some d \<Rightarrow> [OtaSend nem (pi_destination (fp_info p)) d (be_bytes 2 (0 :: u16))]
       | None \<Rightarrow> (case (extra, payload) of (Some cs, Some d) \<Rightarrow> [OtaSend nem (pi_destination (fp_info p)) d cs] | _ \<Rightarrow> []), snd r)"
    unfolding route_ota_def assms(1) option.case ab bind.bind_lunit r_def [symmetric]
    using l q y by (cases r; cases legacy) simp_all
  then show ?thesis by (auto simp: inv split: option.splits)
qed

lemma last_invocation_at: "last_invocation rt n = Some (m, k) \<Longrightarrow> m = n \<and> n \<in> dom (rt_invocations rt)"
  by (auto simp: last_invocation_def split: option.splits if_splits)

lemma distinct_local_targets: "distinct order \<Longrightarrow> distinct (local_targets order nem xs rt)"
  by (auto simp: local_targets_def List.map_filter_def distinct_map intro!: inj_onI) (metis last_invocation_at)

lemma set_local_targets:
  "set (local_targets order nem xs rt) = {(n, k). n \<in> set order \<and> n \<noteq> nem \<and> n \<notin> set xs \<and> last_invocation rt n = Some (n, k)}"
proof -
  have "(a, k) \<in> set (local_targets order nem xs rt) \<longleftrightarrow>
      (\<exists>n. n \<in> set order \<and> n \<noteq> nem \<and> n \<notin> set xs \<and> last_invocation rt n = Some (a, k))" for a k
    by (force simp: local_targets_def List.map_filter_def)
  then show ?thesis using last_invocation_at by auto blast+
qed

text \<open>C14: a packet that leaves the bottom of a stack without a boundary is, besides the one send over the air at
  most, handed once to the lowest layer of every other local node that has one and is not listed as a transmitter,
  and to nobody else, with the same captured packet and messages, in whatever order the table of stacks is walked.\<close>

theorem local_medium_shared:
  assumes "invocation rt nem (i + 1) = None" "\<not> rt_boundary rt nem TransportRole"
    and "controls messages = Some ms" "list_all (\<lambda>m. readable (fcm_payload m)) ms" "find_tx_transmitters ms = Some listed"
    and "QueuedCall_capture (Some p) messages = Some (Some call)" "distinct order" "set order = dom (rt_invocations rt)"
  shows "\<exists>sent local rt'. route_downstream codec order nem i (Some p) messages rt = Some (sent @ local, rt') \<and> length sent \<le> 1 \<and>
    (\<forall>n k d c. LayerCall n k d c \<notin> set sent) \<and> distinct local \<and>
    set local = {LayerCall n k False call | n k. n \<noteq> nem \<and> n \<notin> ttx_nem_id ` set (unwrap_or listed []) \<and>
      last_invocation rt n = Some (n, k)}"
proof -
  have payload: "packet_payload p \<noteq> None"
    using assms(6) by (auto simp: packet_payload_def QueuedCall_capture_def split: if_splits bind_splits)
  obtain sent rt' where sent: "route_ota codec nem p messages rt = Some (sent, rt')" "rt_invocations rt' = rt_invocations rt"
    "\<forall>n k d c. LayerCall n k d c \<notin> set sent" "length sent \<le> 1"
    using route_ota_returns [OF assms(3,4) payload] by blast
  define ls where "ls = map (\<lambda>(n, k). LayerCall n k False call) (local_targets order nem (map ttx_nem_id (unwrap_or listed [])) rt')"
  have route: "route_downstream codec order nem i (Some p) messages rt = Some (sent @ ls, rt')"
    using assms(1-3,5,6) sent(1) by (simp add: route_downstream_def process_all_captured ls_def)
  have same: "last_invocation rt' = last_invocation rt" by (simp add: last_invocation_def fun_eq_iff sent(2))
  have "distinct ls" using distinct_local_targets [OF assms(7)] by (auto simp: ls_def distinct_map inj_on_def)
  moreover have "set ls = {LayerCall n k False call | n k. n \<noteq> nem \<and> n \<notin> ttx_nem_id ` set (unwrap_or listed []) \<and>
      last_invocation rt n = Some (n, k)}"
    using assms(8) last_invocation_at by (fastforce simp: ls_def set_local_targets same)
  ultimately show ?thesis using route sent(3,4) by blast
qed

text \<open>C4: a packet a radio model sends with its transmission becomes one send over the air with the next sequence
  number of the node; a peer that receives these bytes, and is not one of the transmitters, calls its lowest layer
  once, with the same payload, the sending node as source, the same destination, and control messages that
  decode to the transmission: the model header, the transmit properties, the frequency segments of the first
  antenna, the transmitters and the MIMO description, each as the frame carries it.\<close>

theorem ota_reaches_remote_phy:
  assumes seq: "seq = unwrap_or (rt_phy_tx_sequences rt nem) 0"
    and "decodes (encode_phy codec) (decode_phy codec) (framework_phy seq tx ts mimo)" "decodes (encode_mac codec) (decode_mac codec) (model_mac model)"
    and "transmits rt nem i p ms body model tx ts mimo" "controls messages = Some ms" "list_all (\<lambda>m. readable (fcm_payload m)) ms"
    and "headers_fit codec model tx ts mimo seq" "length body \<le> 64 * 1024 * 1024"
    and "last_invocation remote peer = Some (peer, k)" "peer \<notin> ttx_nem_id ` set ts"
  shows "\<exists>data local call. route_downstream codec order nem i (Some p) messages rt =
      Some (OtaSend nem (pi_destination (fp_info p)) data [0, 0] # local, rt\<lparr>rt_phy_tx_sequences := (rt_phy_tx_sequences rt)(nem \<mapsto> seq + 1)\<rparr>) \<and>
    ota_packet codec now peer nem (pi_destination (fp_info p)) priority (slice_of data) (slice_of [0, 0]) remote = Some [LayerCall peer k False call] \<and>
    fst call = Some (\<lparr>pi_source = nem, pi_destination = pi_destination (fp_info p), pi_priority = priority,
      pi_creation_time_sec = fst now, pi_creation_time_usec = snd now\<rparr>, body) \<and>
    received_framework model tx ts mimo (call_messages call)"
proof -
  have zero: "be_bytes 2 (0 :: u16) = [0, 0]" by code_simp
  have rt': "snd (next_phy_tx_sequence nem rt) = rt\<lparr>rt_phy_tx_sequences := (rt_phy_tx_sequences rt)(nem \<mapsto> seq + 1)\<rparr>"
    by (simp add: next_phy_tx_sequence_def seq Let_def)
  obtain data where data: "route_ota codec nem p messages rt = Some ([OtaSend nem (pi_destination (fp_info p)) data [0, 0]], snd (next_phy_tx_sequence nem rt))"
    "frame (encode_phy codec (framework_phy seq tx ts mimo)) (encode_mac codec (model_mac model)) (Some body) = Some data"
    using route_ota_transmits [OF assms(4-6) seq assms(7)] unfolding zero by blast
  have tr: "nem \<in> ttx_nem_id ` set ts" "TxTransmitters_encode ts \<noteq> None" "mimo_sendable mimo" "packet_payload p = Some (Some body)"
    using assms(4) unfolding transmits_def by simp_all
  obtain ms' where dec: "decode_legacy_ota_payload codec data nem = Some (Some (body, ms'))" "received_framework model tx ts mimo ms'"
    using framework_frame_decodes [OF assms(2,3) data(2) tr(1-3)] by blast
  obtain call where call: "ota_packet codec now peer nem (pi_destination (fp_info p)) priority (slice_of data) (slice_of [0, 0]) remote = Some [LayerCall peer k False call]"
    "fst call = Some (\<lparr>pi_source = nem, pi_destination = pi_destination (fp_info p), pi_priority = priority,
      pi_creation_time_sec = fst now, pi_creation_time_usec = snd now\<rparr>, body)" "call_messages call = ms'"
    using ota_packet_received [OF dec assms(8-10), of now "pi_destination (fp_info p)" priority] unfolding zero by blast
  obtain listed captured where "find_tx_transmitters ms = Some listed" "QueuedCall_capture (Some p) messages = Some captured"
    using find_tx_transmitters_returns [OF assms(6)] capture_returns [OF tr(4) assms(5,6)] by blast
  from route_downstream_medium [OF assms(4-6) data(1) this, of order]
  have "\<exists>local. route_downstream codec order nem i (Some p) messages rt =
      Some (OtaSend nem (pi_destination (fp_info p)) data [0, 0] # local, rt\<lparr>rt_phy_tx_sequences := (rt_phy_tx_sequences rt)(nem \<mapsto> seq + 1)\<rparr>)"
    unfolding rt' by simp
  then show ?thesis using call(1,2) dec(2) unfolding call(3) [symmetric] by blast
qed

text \<open>A message of the native interface cannot cross a boundary, and the packet it comes with is dropped.\<close>

lemma ffi_slice_readable: "readable s \<Longrightarrow> ffi_slice s = ok_res (contents s)"
  by (auto simp: readable_def contents_def ffi_slice_def slice_contents_def raw_parts_def slice_def ok_res_def split: if_splits option.splits)

lemma encode_control_fold_native:
  assumes "m \<in> set ms" "unat (fcm_msg_type m) \<ge> 2 ^ 16" "list_all (\<lambda>m. readable (fcm_payload m)) ms"
  shows "\<exists>e. res_fold encode_control data ms = err_res e"
  using assms
proof (induction ms arbitrary: data)
  case (Cons c cs)
  have "(\<exists>e. encode_control data c = err_res e) \<or> (\<exists>d. encode_control data c = ok_res d \<and> m \<in> set cs)"
    using Cons.prems by (auto simp: encode_control_def ffi_slice_readable Let_def)
  then show ?case using Cons.IH Cons.prems by auto
qed simp

text \<open>C39: a packet that leaves the top of a stack through a boundary together with a control message of the native
  interface, whose number does not fit 16 bits, is not sent at all and no error is reported.\<close>

theorem platform_boundary_loses_native_controls:
  assumes "rt_boundary rt nem PlatformRole" "controls messages = Some ms" "m \<in> set ms" "unat (fcm_msg_type m) \<ge> 2 ^ 16"
    and "list_all (\<lambda>m. readable (fcm_payload m)) ms" "readable (fp_payload p)"
  shows "route_upstream nem 0 (Some p) messages rt = Some []"
proof -
  obtain e where "encode_controls ms = err_res e"
    using encode_control_fold_native [OF assms(3-5), of "be_bytes 2 (word_of_nat (length ms) :: u16)"]
    by (cases "length ms > 0xFFFF") (auto simp: encode_controls_def)
  then have "packet_message p ms = err_res e"
    using ffi_slice_readable [OF assms(6)] by (simp add: packet_message_def)
  then show ?thesis using assms(1,2) by (simp add: route_upstream_def boundary_effect_def err_res_def)
qed

section \<open>A node and its peer\<close>

definition sample_model :: ModelHeader where
  "sample_model = \<lparr>mh_registration_id = 2, mh_sequence = 7, mh_data_rate_bps = 1000000, mh_category = 0, mh_message_type = 0, mh_flags = 0\<rparr>"

definition sample_tx :: TxProperties where
  "sample_tx = \<lparr>txp_frequency_hz = 2347000000, txp_bandwidth_hz = 1000000, txp_tx_power_dbm = 0, txp_duration_microseconds = 800,
     txp_offset_microseconds = 0, txp_tx_time_microseconds = 5, txp_antenna_index = 0, txp_spectral_mask_index = 0, txp_sub_id = 1\<rparr>"

definition sample_ms :: "FfiControlMessage list" where
  "sample_ms = [owned_message CONTROL_MODEL_HEADER (the (ModelHeader_encode sample_model)),
     owned_message CONTROL_TX_PROPERTIES (the (TxProperties_encode sample_tx))]"

definition sample_p :: FfiPacket where
  "sample_p = \<lparr>fp_info = \<lparr>pi_source = 1, pi_destination = 65535, pi_priority = 0, pi_creation_time_sec = 0, pi_creation_time_usec = 0\<rparr>,
     fp_payload = slice_of [1, 2, 3]\<rparr>"

definition sample_rt :: Runtime where
  "sample_rt = \<lparr>rt_invocations = [1 \<mapsto> 3, 2 \<mapsto> 2, 3 \<mapsto> 0], rt_boundaries = [1 \<mapsto> PlatformRole], rt_phy_tx_sequences = Map.empty\<rparr>"

definition sample_transmitters :: "TxTransmitter list" where
  "sample_transmitters = [\<lparr>ttx_nem_id = 1, ttx_tx_power_dbm = 0\<rparr>]"

definition sample_mimo :: MimoTxProperties where
  "sample_mimo = default_mimo sample_tx None"

text \<open>A codec that knows the two headers of the sample.\<close>

definition sample_codec :: OtaCodec where
  "sample_codec = \<lparr>encode_phy = (\<lambda>_. [1, 1]), decode_phy = (\<lambda>_. Some (framework_phy 0 sample_tx sample_transmitters sample_mimo)),
     encode_mac = (\<lambda>_. [2]), decode_mac = (\<lambda>_. Some (model_mac sample_model)), encode_shim = (\<lambda>_. []), decode_shim = (\<lambda>_. None)\<rparr>"

lemma sample_readable: "list_all (\<lambda>m. readable (fcm_payload m)) sample_ms"
  by (simp add: sample_ms_def readable_def owned_message_def)

lemma sample_controls: "controls (messages_of sample_ms) = Some sample_ms"
  by (simp add: controls_def messages_of_def sample_ms_def)

lemma sample_payloads:
  "control_payload sample_ms CONTROL_MODEL_HEADER = Some (Some (the (ModelHeader_encode sample_model)))"
  "k \<noteq> CONTROL_MODEL_HEADER \<Longrightarrow> k \<noteq> CONTROL_TX_PROPERTIES \<Longrightarrow> control_payload sample_ms k = Some None"
  by (simp_all add: sample_ms_def owned_message_def slice_of_fields MAX_CONTROL_WIRE_SIZE_def ModelHeader_bytes)

lemma sample_sent: "find_payload ModelHeader_decode CONTROL_MODEL_HEADER sample_ms = Some (Some sample_model)"
  "find_tx_properties sample_ms = Some (Some sample_tx)" "find_tx_transmitters sample_ms = Some None"
  "sent_transmitters sample_p sample_tx sample_ms = Some sample_transmitters" "sent_mimo sample_tx sample_ms = Some sample_mimo"
proof -
  show "find_payload ModelHeader_decode CONTROL_MODEL_HEADER sample_ms = Some (Some sample_model)"
    using sample_payloads(1) model_header.roundtrip [of sample_model] by (simp add: find_payload_def ModelHeader_bytes)
  show "find_tx_properties sample_ms = Some (Some sample_tx)"
    using tx_properties.roundtrip [of sample_tx]
    by (simp add: sample_ms_def owned_message_def slice_of_fields TxProperties_bytes CONTROL_MODEL_HEADER_def CONTROL_TX_PROPERTIES_def)
  show t: "find_tx_transmitters sample_ms = Some None"
    by (simp add: find_tx_transmitters_def find_payload_def sample_payloads(2) control_kinds)
  show "sent_transmitters sample_p sample_tx sample_ms = Some sample_transmitters"
    by (simp add: sent_transmitters_def t sample_p_def sample_tx_def sample_transmitters_def)
  show "sent_mimo sample_tx sample_ms = Some sample_mimo"
    by (simp add: sent_mimo_def find_mimo_tx_properties_def find_tx_frequency_segments_def find_payload_def sample_payloads(2) control_kinds sample_mimo_def)
qed

lemma sample_mimo_sendable: "mimo_sendable sample_mimo"
proof -
  have same: "wire_mimo sample_mimo = sample_mimo" by (simp add: wire_mimo_def wire_antenna_def sample_mimo_def default_mimo_def sample_tx_def)
  obtain d where "MimoTxProperties_encode sample_mimo = Some (Some d)" "length d < 200"
    by (simp add: sample_mimo_def default_mimo_def sample_tx_def MimoTxProperties_encode_def mimo_encode_simps MimoTxGroup_bytes_def
      MimoTxFrequencySegment_bytes_def push_all_append [OF MimoTxGroup_push_bytes] push_all_append [OF MimoTxAntenna_push_bytes])
  then show ?thesis by (simp add: mimo_sendable_def same MAX_CONTROL_WIRE_SIZE_def) (simp add: sample_mimo_def default_mimo_def)
qed

lemma sample_transmits: "transmits sample_rt 1 2 sample_p sample_ms [1, 2, 3] sample_model sample_tx sample_transmitters sample_mimo"
proof -
  have "invocation sample_rt 1 (2 + 1) = None" "\<not> rt_boundary sample_rt 1 TransportRole"
    "1 \<in> ttx_nem_id ` set sample_transmitters" "packet_payload sample_p = Some (Some [1, 2, 3])" 
    by (simp_all add: invocation_def rt_boundary_def sample_rt_def sample_transmitters_def packet_payload_def sample_p_def slice_of_fields)
  moreover have "TxTransmitters_encode sample_transmitters \<noteq> None"
    by (simp add: TxTransmitters_encode_def sample_transmitters_def transmitter_valid_def f64_is_finite_def encode_counted_def u16_try_from_def)
  ultimately show ?thesis using sample_sent sample_mimo_sendable by (simp add: transmits_def)
qed

theorem ota_reaches_remote_phy_witness:
  "\<exists>data local call. route_downstream sample_codec [3, 2, 1] 1 2 (Some sample_p) (messages_of sample_ms) sample_rt =
      Some (OtaSend 1 65535 data [0, 0] # local, sample_rt\<lparr>rt_phy_tx_sequences := [1 \<mapsto> 1]\<rparr>) \<and>
    ota_packet sample_codec (10, 0) 2 1 65535 0 (slice_of data) (slice_of [0, 0]) sample_rt = Some [LayerCall 2 1 False call] \<and>
    map_option snd (fst call) = Some [1, 2, 3]"
proof -
  have "decodes (encode_phy sample_codec) (decode_phy sample_codec) (framework_phy 0 sample_tx sample_transmitters sample_mimo)"
    "decodes (encode_mac sample_codec) (decode_mac sample_codec) (model_mac sample_model)"
    "headers_fit sample_codec sample_model sample_tx sample_transmitters sample_mimo 0"
    by (simp_all add: decodes_def sample_codec_def headers_fit_def)
  moreover have "last_invocation sample_rt 2 = Some (2, 1)" "2 \<notin> ttx_nem_id ` set sample_transmitters"
    "rt_phy_tx_sequences sample_rt = Map.empty" "pi_destination (fp_info sample_p) = 65535"
    by (simp_all add: last_invocation_def sample_rt_def sample_transmitters_def sample_p_def)
  ultimately show ?thesis
    using ota_reaches_remote_phy [of 0 sample_rt 1 sample_codec sample_tx sample_transmitters sample_mimo sample_model 2 sample_p sample_ms
      "[1, 2, 3]" "messages_of sample_ms" sample_rt 2 1 "[3, 2, 1]" "(10, 0)" 0] sample_transmits sample_controls sample_readable
    by (auto simp del: split_paired_Ex)
qed

theorem local_medium_shared_witness:
  "\<exists>sent local rt' call. QueuedCall_capture (Some sample_p) (messages_of sample_ms) = Some (Some call) \<and>
    route_downstream sample_codec [3, 2, 1] 1 2 (Some sample_p) (messages_of sample_ms) sample_rt = Some (sent @ local, rt') \<and>
    LayerCall 2 1 False call \<in> set local \<and> (\<forall>k. LayerCall 3 k False call \<notin> set local)"
proof -
  have "list_all (\<lambda>(k, b). length b \<le> 16 * 1024 * 1024)
      [(CONTROL_MODEL_HEADER, the (ModelHeader_encode sample_model)), (CONTROL_TX_PROPERTIES, the (TxProperties_encode sample_tx))]"
    by (simp add: ModelHeader_bytes TxProperties_bytes)
  from capture_owned [OF this, of "[1, 2, 3]" "fp_info sample_p"]
  obtain call where call: "QueuedCall_capture (Some sample_p) (messages_of sample_ms) = Some (Some call)"
    by (simp add: sample_ms_def sample_p_def)
  have "invocation sample_rt 1 (2 + 1) = None" "\<not> rt_boundary sample_rt 1 TransportRole"
    using sample_transmits by (simp_all add: transmits_def)
  moreover have "distinct [3, 2, 1 :: u16]" "set [3, 2, 1] = dom (rt_invocations sample_rt)" by (auto simp: sample_rt_def split: if_splits)
  ultimately obtain sent local rt' where "route_downstream sample_codec [3, 2, 1] 1 2 (Some sample_p) (messages_of sample_ms) sample_rt = Some (sent @ local, rt')"
    "set local = {LayerCall n k False call | n k. n \<noteq> 1 \<and> n \<notin> ttx_nem_id ` set (unwrap_or None ([] :: TxTransmitter list)) \<and> last_invocation sample_rt n = Some (n, k)}"
    using local_medium_shared [OF _ _ sample_controls sample_readable sample_sent(3) call, of sample_rt 1 2 "[3, 2, 1]" sample_codec]
    by (elim meta_impE exE conjE) (assumption | rule that)+
  moreover from this(2) have "LayerCall 2 1 False call \<in> set local \<and> (\<forall>k. LayerCall 3 k False call \<notin> set local)"
    by (simp add: last_invocation_def sample_rt_def)
  ultimately show ?thesis using call by blast
qed

theorem platform_boundary_loses_native_controls_witness:
  "route_upstream 1 0 (Some sample_p) (messages_of sample_ms) sample_rt = Some []"
  using platform_boundary_loses_native_controls [of sample_rt 1 "messages_of sample_ms" sample_ms "hd sample_ms" sample_p, OF _ sample_controls _ _ sample_readable]
  by (simp add: sample_rt_def rt_boundary_def sample_ms_def sample_p_def readable_def owned_message_def CONTROL_MODEL_HEADER_def)

end
