(* ===== verification/Rf_Pipe.thy ===== *)
theory Rf_Pipe
  imports Shim_Layers
begin

text \<open>
  The RF pipe radio model (\<^verbatim>\<open>rust/plugins/rfpipe/src/lib.rs\<close> and \<^verbatim>\<open>rust/plugins/rfpipe/src/pcr.rs\<close>):
  packets wait in one queue, are sent one after the other at the data rate, and are received with the probability
  of a completion curve, after the time the reception takes. The part of the model that never changes after
  \<open>init\<close> is the record \<open>RfpipeMac\<close>, the part behind the mutex the record \<open>RfState\<close>. A handler takes and
  returns the state with the framework; \<open>None\<close> is a panic or a read through a null pointer. The protocol
  buffer codec of the MAC header, the functions \<open>log10\<close> and \<open>powf\<close> of the mathematical library, the XML library
  and the order in which a hash set is walked are parameters.
\<close>

section \<open>Packet completion curve\<close>

record PcrCurve =
  pc_points :: "(f64 \<times> f64) list"
  pc_packet_size :: nat

text \<open>\<open>x.round() as i64\<close>.\<close>

definition f64_round_as_i64 :: "f64 \<Rightarrow> i64" where
  "f64_round_as_i64 w =
     (if f64_is_nan w then 0
      else if f64_is_inf w then (if f64_sign w then i64_clamp i64_min else i64_clamp i64_max)
      else (let (a, b) = pow2_frac \<bar>f64_significand w\<bar> 1 (1074 - f64_shift w);
                q = (2 * a + b) div (2 * b)
            in i64_clamp (if f64_sign w then - q else q)))"

text \<open>The loop over the rows; the SINR values have to increase.\<close>

fun load_rows :: "'n XmlApi \<Rightarrow> 'n list \<Rightarrow> (f64 \<times> f64) list \<Rightarrow> (f64 \<times> f64) list checked" where
  "load_rows xml [] points = Inr points"
| "load_rows xml (row # rows) points =
     check_bind (ok_or ''PCR row is missing sinr'' (xml_attribute xml row ''sinr'')) (\<lambda>sinr.
     check_bind (ok_or ''PCR row has an invalid sinr'' (parse_f64 sinr)) (\<lambda>sinr.
     check_bind (ok_or ''PCR row is missing por'' (xml_attribute xml row ''por'')) (\<lambda>percent.
     check_bind (ok_or ''PCR row has an invalid por'' (parse_f64 percent)) (\<lambda>percent.
     if \<not> f64_is_finite sinr \<or> \<not> f64_is_finite percent \<or> \<not> f64_in_range 0 (f64_of_int 100) percent
     then Inl ''PCR row is outside its valid range''
     else if points \<noteq> [] \<and> f64_le sinr (fst (last points)) then Inl ''PCR SINR values must be strictly increasing''
     else load_rows xml rows (points @ [(sinr, f64_div percent (f64_of_int 100))])))))"

definition PcrCurve_load :: "'n XmlApi \<Rightarrow> string \<Rightarrow> PcrCurve checked" where
  "PcrCurve_load xml uri =
     check_bind (ok_or ''failed to read PCR curve'' (xml_read_file xml (unwrap_or (strip_prefix ''file://'' uri) uri))) (\<lambda>content.
     check_bind (ok_or ''failed to parse PCR curve'' (xml_parse xml content)) (\<lambda>root.
     if \<not> xml_has_tag_name xml root ''pcr'' then Inl ''PCR curve has an invalid document root''
     else (case filter (\<lambda>node. xml_has_tag_name xml node ''table'') (xml_children xml root) of
        [] \<Rightarrow> Inl ''PCR curve has no table''
      | [table] \<Rightarrow>
          check_bind (ok_or ''PCR table has an invalid pktsize''
            (parse_unsigned (2 ^ 64) (unwrap_or (xml_attribute xml table ''pktsize'') ''0''))) (\<lambda>packet_size.
          check_bind (load_rows xml (filter (\<lambda>node. xml_has_tag_name xml node ''row'') (xml_children xml table)) []) (\<lambda>points.
          if points = [] then Inl ''PCR curve has no rows''
          else Inr \<lparr>pc_points = points, pc_packet_size = packet_size\<rparr>))
      | _ \<Rightarrow> Inl ''PCR curve has multiple tables'')))"

definition PcrCurve_probability :: "(f64 \<Rightarrow> f64 \<Rightarrow> f64) \<Rightarrow> PcrCurve \<Rightarrow> f64 \<Rightarrow> nat \<Rightarrow> f64" where
  "PcrCurve_probability powf self sinr packet_length =
     (let points = pc_points self;
          p = (case binary_search (map (f64_total_key \<circ> fst) points) (f64_total_key sinr) of
                 Inl index \<Rightarrow> snd (points ! index)
               | Inr index \<Rightarrow>
                   if index = 0 then 0
                   else if index = length points then f64_of_int 1
                   else interpolate (points ! (index - 1)) (points ! index) sinr);
          p = (if pc_packet_size self = 0 then p
               else powf p (f64_div (f64_of_int (int packet_length)) (f64_of_int (int (pc_packet_size self)))))
      in f64_clamp 0 (f64_of_int 1) p)"


section \<open>State\<close>

definition EVENT_TRANSMIT :: u32 where "EVENT_TRANSMIT = 1"
definition EVENT_RECEIVE :: u32 where "EVENT_RECEIVE = 2"
definition EVENT_R2RI_REPORT :: u32 where "EVENT_R2RI_REPORT = 3"
definition QUEUE_CAPACITY :: nat where "QUEUE_CAPACITY = 255"
definition RF_BROADCAST_NEM :: u16 where "RF_BROADCAST_NEM = 0xFFFF"
definition MAC_REGISTRATION_RFPIPE :: u16 where "MAC_REGISTRATION_RFPIPE = 0x0004"

record RfPacket =
  op_info :: FfiPacketInfo
  op_payload :: "byte list"
  op_controls :: "(u32 \<times> byte list) list"

record PendingTx =
  tx_packet :: RfPacket
  tx_acquired_at :: i64
  tx_ready_at :: i64
  tx_duration :: u64
  tx_data_rate :: u64

record RfState =
  rf_promiscuous_mode :: bool
  rf_data_rate_bps :: u64
  rf_delay_microseconds :: i64
  rf_jitter_microseconds :: i64
  rf_flow_control_enable :: bool
  rf_flow_control_tokens :: u16
  rf_available_tokens :: u16
  rf_pcr_curve_uri :: string
  rf_pcr_curve :: "PcrCurve option"
  rf_sequence :: u64
  rf_queue :: "PendingTx list"
  rf_current_end_of_transmission :: i64
  rf_next_transmit_wakeup :: i64
  rf_pending_receptions :: "u64 \<rightharpoonup> RfPacket \<times> i64"
  rf_next_reception_id :: u64
  rf_radiometric_enabled :: bool
  rf_radiometric_report_interval_microseconds :: u64
  rf_neighbor_metric_delete_microseconds :: u64
  rf_signal_table_handle :: u64
  rf_signal_average_all_antennas :: bool
  rf_signal_average_all_frequencies :: bool
  rf_queue_discards :: u32
  rf_timers :: "u64 set"
  rf_random_state :: u64
  rf_started :: bool

record RfpipeMac =
  rm_id :: u16
  rm_counters :: CommonLayerCounters
  rm_queue_delay_counter :: u64
  rm_average_queue_delay :: u64
  rm_queue_high_water_counter :: u64

record RfEnv =
  re_api :: FrameworkApi
  re_encode :: "u64 \<Rightarrow> byte list"
  re_decode :: "byte list \<Rightarrow> u64 option"
  re_log10 :: "f64 \<Rightarrow> f64"
  re_powf :: "f64 \<Rightarrow> f64 \<Rightarrow> f64"

definition rf_drop_labels :: "string list" where
  "rf_drop_labels = [''SINR'', ''Reg Id'', ''Dst MAC'', ''Queue Overflow'', ''Bad Control'', ''Bad Spectrum Query'', ''Flow Control'']"

definition RfpipeMac_new :: "FrameworkApi \<Rightarrow> u16 \<Rightarrow> Framework \<Rightarrow> RfpipeMac \<times> RfState layer" where
  "RfpipeMac_new api nem_id fw =
     (let (queue_delay_counter, fw) = fw_ask api (RegisterCounter ''numDownstreamQueueDelay''
            ''Accumulation of downstream queue delay in microseconds'') fw;
          (average_queue_delay, fw) = fw_ask api (RegisterAverage ''avgDownstreamQueueDelay''
            ''Average downstream queue delay in microseconds'') fw;
          (high_water_counter, fw) = fw_ask api (RegisterCounter ''numHighWaterMark'' ''Downstream queue high water mark in packets'') fw;
          (counters, fw) = register_with_drop_labels api ''0'' rf_drop_labels [] fw;
          (table_handle, fw) = fw_ask api (RegisterRfSignalTable nem_id) fw
      in (\<lparr>rm_id = nem_id, rm_counters = counters, rm_queue_delay_counter = queue_delay_counter,
           rm_average_queue_delay = average_queue_delay, rm_queue_high_water_counter = high_water_counter\<rparr>,
          \<lparr>rf_promiscuous_mode = False, rf_data_rate_bps = 1000000, rf_delay_microseconds = 0, rf_jitter_microseconds = 0,
           rf_flow_control_enable = False, rf_flow_control_tokens = 10, rf_available_tokens = 10, rf_pcr_curve_uri = [],
           rf_pcr_curve = None, rf_sequence = 0, rf_queue = [], rf_current_end_of_transmission = 0, rf_next_transmit_wakeup = 0,
           rf_pending_receptions = Map.empty, rf_next_reception_id = 0, rf_radiometric_enabled = False,
           rf_radiometric_report_interval_microseconds = 1000000, rf_neighbor_metric_delete_microseconds = 60000000,
           rf_signal_table_handle = table_handle, rf_signal_average_all_antennas = False,
           rf_signal_average_all_frequencies = False, rf_queue_discards = 0, rf_timers = {},
           rf_random_state = 0x9E3779B97F4A7C15 XOR ucast nem_id, rf_started = False\<rparr>, fw))"


section \<open>Helpers\<close>

text \<open>\<open>parse_bool\<close> is the function of the communication effect shim.\<close>

definition rf_parse_scaled_u64 :: "string \<Rightarrow> u64 option" where
  "rf_parse_scaled_u64 v = do {
     let (number, multiplier) = scale_suffix v;
     number \<leftarrow> parse_f64 number;
     let scaled = f64_mul number (f64_of_int multiplier);
     if f64_le 0 number \<and> f64_is_finite scaled \<and> f64_le scaled U64_MAX_AS_F64
     then Some (f64_round_as_u64 scaled) else None }"

definition rf_seconds_to_microseconds :: "string \<Rightarrow> i64 option" where
  "rf_seconds_to_microseconds v = do {
     seconds \<leftarrow> parse_f64 v;
     let microseconds = f64_mul seconds F64_1E6;
     if f64_le 0 seconds \<and> f64_is_finite microseconds \<and> f64_le microseconds (f64_of_int i64_max)
     then Some (f64_round_as_i64 microseconds) else None }"

definition rf_config_item :: "FfiConfigItem \<Rightarrow> (string \<times> string list) option panics" where
  "rf_config_item item =
     (case ci_name item of
        None \<Rightarrow> Some None
      | Some raw_name \<Rightarrow>
          if ca_len (ci_values item) > 4096 \<or> (ca_len (ci_values item) \<noteq> 0 \<and> ca_data (ci_values item) = None) then Some None
          else case to_str raw_name of
            None \<Rightarrow> Some None
          | Some name \<Rightarrow> do {
              raw \<leftarrow> raw_parts (ca_data (ci_values item)) (ca_len (ci_values item));
              vs \<leftarrow> collect_option config_value raw;
              Some (map_option (\<lambda>vs. (name, vs)) vs) })"

definition rf_configuration :: "FfiConfigRequest option \<Rightarrow> (string \<times> string list) list option panics" where
  "rf_configuration request =
     (case request of
        None \<Rightarrow> Some None
      | Some request \<Rightarrow>
          if cr_len request > 4096 \<or> (cr_len request \<noteq> 0 \<and> cr_data request = None) then Some None
          else do {
            items \<leftarrow> raw_parts (cr_data request) (cr_len request);
            collect_option rf_config_item items })"

definition own_control :: "FfiControlMessage \<Rightarrow> (u32 \<times> byte list) option panics" where
  "own_control m =
     (if fs_len (fcm_payload m) > 16 * 1024 * 1024 \<or> (fs_len (fcm_payload m) \<noteq> 0 \<and> fs_data (fcm_payload m) = None)
      then Some None
      else map_option (\<lambda>payload. Some (fcm_msg_type m, payload)) (slice_contents (fcm_payload m)))"

definition rf_own_packet :: "FfiPacket option \<Rightarrow> Messages \<Rightarrow> RfPacket option panics" where
  "rf_own_packet packet messages =
     (case packet of
        None \<Rightarrow> Some None
      | Some p \<Rightarrow>
          if (fs_len (fp_payload p) \<noteq> 0 \<and> fs_data (fp_payload p) = None) \<or> fs_len (fp_payload p) > 64 * 1024 * 1024 then Some None
          else do {
            payload \<leftarrow> slice_contents (fp_payload p);
            case controls messages of
              None \<Rightarrow> Some None
            | Some ms \<Rightarrow> do {
                cs \<leftarrow> collect_option own_control ms;
                Some (map_option (\<lambda>cs. \<lparr>op_info = fp_info p, op_payload = payload, op_controls = cs\<rparr>) cs) } })"

text \<open>\<open>find_map\<close>: the first message of the type and length whose payload decodes.\<close>

fun find_sized :: "(byte list \<Rightarrow> 'a option panics) \<Rightarrow> u32 \<Rightarrow> nat \<Rightarrow> FfiControlMessage list \<Rightarrow> 'a option panics" where
  "find_sized decode kind len [] = Some None"
| "find_sized decode kind len (m # ms) =
     (if fcm_msg_type m = kind \<and> fs_len (fcm_payload m) = len \<and> fs_data (fcm_payload m) \<noteq> None
      then do {
        data \<leftarrow> slice_contents (fcm_payload m);
        decoded \<leftarrow> decode data;
        case decoded of None \<Rightarrow> find_sized decode kind len ms | Some x \<Rightarrow> Some (Some x) }
      else find_sized decode kind len ms)"

definition find_header :: "FfiControlMessage list \<Rightarrow> ModelHeader option panics" where
  "find_header = find_sized ModelHeader_decode CONTROL_MODEL_HEADER 24"

definition find_rx_properties :: "FfiControlMessage list \<Rightarrow> RxProperties option panics" where
  "find_rx_properties = find_sized RxProperties_decode CONTROL_RX_PROPERTIES 63"

definition now_microseconds :: "FrameworkApi \<Rightarrow> Framework \<Rightarrow> i64" where
  "now_microseconds api fw = i64_from_u64_or_max (unix_microseconds api fw)"

definition smax :: "i64 \<Rightarrow> i64 \<Rightarrow> i64" where
  "smax a b = (if sint a > sint b then a else b)"

definition duration_microseconds :: "nat \<Rightarrow> u64 \<Rightarrow> u64" where
  "duration_microseconds len data_rate =
     (if data_rate = 0 then 0
      else (let bits = saturating_mul (saturating_mul (word_of_nat len) 8) 1000000
            in bits div data_rate + (if bits mod data_rate > 0 then 1 else 0)))"

definition rf_random_unit :: "RfState \<Rightarrow> f64 \<times> RfState" where
  "rf_random_unit state =
     (let v = rf_random_state state; v = v XOR push_bit 13 v; v = v XOR drop_bit 7 v; v = v XOR push_bit 17 v
      in (f64_div (f64_of_int (uint (drop_bit 11 v))) (f64_of_int (2 ^ 53)), state\<lparr>rf_random_state := v\<rparr>))"


section \<open>Sending\<close>

definition rf_schedule :: "RfEnv \<Rightarrow> RfpipeMac \<Rightarrow> i64 \<Rightarrow> u32 \<Rightarrow> byte list \<Rightarrow> Framework \<Rightarrow> u64 \<times> Framework" where
  "rf_schedule env mac when event_id data fw =
     (let w = (if sint when < 0 then 0 else when) :: u64
      in fw_ask (re_api env) (ScheduleTimedEvent (rm_id mac) (w div 1000000) (ucast (w mod 1000000)) event_id (slice_of data)) fw)"

definition rf_add_timer :: "u64 \<Rightarrow> RfState \<Rightarrow> RfState" where
  "rf_add_timer timer state = (if timer \<noteq> 0 then state\<lparr>rf_timers := insert timer (rf_timers state)\<rparr> else state)"

definition schedule_transmit :: "RfEnv \<Rightarrow> RfpipeMac \<Rightarrow> i64 \<Rightarrow> RfState layer \<Rightarrow> RfState layer" where
  "schedule_transmit env mac when = (\<lambda>(state, fw).
     if \<not> rf_started state \<or> (rf_next_transmit_wakeup state \<noteq> 0 \<and> sint (rf_next_transmit_wakeup state) \<le> sint when)
     then (state, fw)
     else (let state = state\<lparr>rf_next_transmit_wakeup := when\<rparr>;
               (timer, fw) = rf_schedule env mac when EVENT_TRANSMIT (be_bytes 8 when) fw
           in (rf_add_timer timer state, fw)))"

definition keeps_control :: "u32 \<times> byte list \<Rightarrow> bool" where
  "keeps_control c \<longleftrightarrow> fst c \<noteq> CONTROL_MODEL_HEADER \<and> fst c \<noteq> CONTROL_TX_PROPERTIES"

definition control_view :: "u32 \<times> byte list \<Rightarrow> FfiControlMessage" where
  "control_view c = \<lparr>fcm_msg_type = fst c, fcm_payload = slice_of (snd c)\<rparr>"

definition rf_tx_properties :: "u64 \<Rightarrow> i64 \<Rightarrow> TxProperties" where
  "rf_tx_properties duration now =
     \<lparr>txp_frequency_hz = 0, txp_bandwidth_hz = 0, txp_tx_power_dbm = f64_nan, txp_duration_microseconds = max duration 1,
      txp_offset_microseconds = 0, txp_tx_time_microseconds = now, txp_antenna_index = 0, txp_spectral_mask_index = 0,
      txp_sub_id = 0\<rparr>"

definition nonneg :: "i64 \<Rightarrow> u64" where
  "nonneg t = (if sint t < 0 then 0 else t)"

definition rf_send_packet :: "RfEnv \<Rightarrow> RfpipeMac \<Rightarrow> RfPacket \<Rightarrow> ModelHeader \<Rightarrow> u64 \<Rightarrow> i64 \<Rightarrow> Framework \<Rightarrow> Framework panics" where
  "rf_send_packet env mac packet header duration acquired_at fw =
     (let serialization = re_encode env (mh_data_rate_bps header); info = op_info packet
      in case u16_try_from (length serialization) of
           None \<Rightarrow> Some fw
         | Some len \<Rightarrow> do {
             let payload = be_bytes 2 len @ serialization @ op_payload packet;
             header_bytes \<leftarrow> ModelHeader_encode header;
             tx_bytes \<leftarrow> TxProperties_encode (rf_tx_properties duration (now_microseconds (re_api env) fw));
             let message_views = map control_view (filter keeps_control (op_controls packet)) @
               [control_view (CONTROL_MODEL_HEADER, header_bytes), control_view (CONTROL_TX_PROPERTIES, tx_bytes)];
             let fw = downstream_tx_packet (re_api env) (rm_counters mac) (pi_source info) (pi_destination info)
               (length (op_payload packet))
               (nonneg (i64_saturating_sub (now_microseconds (re_api env) fw) acquired_at)) False fw;
             let fw = fw_call (SendDownstreamPacket (rm_id mac) (Some \<lparr>fp_info = info, fp_payload = slice_of payload\<rparr>)
               (messages_of message_views)) fw;
             Some (fw_call (UpdateNeighborTx (pi_destination info) (mh_data_rate_bps header)
               (nonneg (now_microseconds (re_api env) fw))) fw) })"

definition rf_send_flow_update :: "RfpipeMac \<Rightarrow> u16 \<Rightarrow> Framework \<Rightarrow> Framework panics" where
  "rf_send_flow_update mac tokens fw = do {
     bytes \<leftarrow> FlowControlToken_encode \<lparr>fct_tokens = tokens\<rparr>;
     Some (fw_call (SendUpstreamControl (rm_id mac) (messages_of [control_view (CONTROL_FLOW_CONTROL_TOKEN, bytes)])) fw) }"

definition rf_credit_token :: "RfState \<Rightarrow> RfState" where
  "rf_credit_token state =
     (if rf_flow_control_enable state
      then state\<lparr>rf_available_tokens := min (saturating_add (rf_available_tokens state) 1) (rf_flow_control_tokens state)\<rparr>
      else state)"

definition rf_header :: "u64 \<Rightarrow> u64 \<Rightarrow> ModelHeader" where
  "rf_header seq data_rate =
     \<lparr>mh_registration_id = MAC_REGISTRATION_RFPIPE, mh_sequence = seq, mh_data_rate_bps = data_rate, mh_category = 0,
      mh_message_type = 0, mh_flags = 0\<rparr>"

text \<open>The critical section of \<open>drive_transmit\<close>: the packet to send with its header, and the state after it.\<close>

definition take_pending :: "RfpipeMac \<Rightarrow> i64 \<Rightarrow> RfState layer \<Rightarrow> (PendingTx \<times> ModelHeader) option \<times> RfState layer" where
  "take_pending mac now = (\<lambda>(state, fw).
     case rf_queue state of
       [] \<Rightarrow> (None, (state, fw))
     | pending # rest \<Rightarrow>
         if sint (rf_current_end_of_transmission state) \<le> sint now \<and> sint (tx_ready_at pending) \<le> sint now
         then (let queue_delay = nonneg (i64_saturating_sub now (tx_acquired_at pending));
                   fw = fw_call (IncrementCounter (rm_queue_delay_counter mac) queue_delay) fw;
                   fw = fw_call (SampleAverage (rm_average_queue_delay mac) (f64_of_int (uint queue_delay))) fw;
                   state = rf_credit_token (state\<lparr>rf_queue := rest\<rparr>);
                   header = rf_header (rf_sequence state) (tx_data_rate pending);
                   state = state\<lparr>rf_sequence := rf_sequence state + 1,
                     rf_current_end_of_transmission := i64_saturating_add now (tx_duration pending)\<rparr>
               in (Some (pending, header), (state, fw)))
         else (None, (state, fw)))"

definition next_wakeup :: "i64 \<Rightarrow> RfState \<Rightarrow> i64 option" where
  "next_wakeup now state =
     (case rf_queue state of
        [] \<Rightarrow> None
      | entry # _ \<Rightarrow> Some (smax (smax (tx_ready_at entry) (rf_current_end_of_transmission state)) now))"

definition drive_transmit :: "RfEnv \<Rightarrow> RfpipeMac \<Rightarrow> i64 \<Rightarrow> RfState layer \<Rightarrow> RfState layer panics" where
  "drive_transmit env mac now = (\<lambda>(state, fw).
     if \<not> rf_started state then Some (state, fw)
     else do {
       let (transmission, (state, fw)) = take_pending mac now (state, fw);
       let wakeup = next_wakeup now state;
       fw \<leftarrow> (case transmission of
          None \<Rightarrow> Some fw
        | Some (pending, header) \<Rightarrow> do {
            fw \<leftarrow> rf_send_packet env mac (tx_packet pending) header (tx_duration pending) (tx_acquired_at pending) fw;
            if rf_flow_control_enable state then rf_send_flow_update mac (rf_available_tokens state) fw else Some fw });
       Some (case wakeup of None \<Rightarrow> (state, fw) | Some when \<Rightarrow> schedule_transmit env mac when (state, fw)) })"

text \<open>The loop that drops the oldest packets of a full queue.\<close>

fun rf_make_room :: "RfEnv \<Rightarrow> RfpipeMac \<Rightarrow> PendingTx list \<Rightarrow> RfState layer \<Rightarrow> RfState layer panics" where
  "rf_make_room env mac [] (state, fw) = Some (state\<lparr>rf_queue := []\<rparr>, fw)"
| "rf_make_room env mac (dropped # rest) (state, fw) =
     (if length (dropped # rest) \<ge> QUEUE_CAPACITY
      then do {
        let info = op_info (tx_packet dropped);
        fw \<leftarrow> downstream_drop_packet (re_api env) (rm_counters mac) (pi_source info) (pi_destination info) 4 fw;
        let state = state\<lparr>rf_queue_discards := saturating_add (rf_queue_discards state) 1\<rparr>;
        rf_make_room env mac rest (rf_credit_token state, fw) }
      else Some (state\<lparr>rf_queue := dropped # rest\<rparr>, fw))"

definition rf_jitter :: "RfState \<Rightarrow> i64 \<times> RfState" where
  "rf_jitter state =
     (if rf_jitter_microseconds state = 0 then (0, state)
      else (let (r, state) = rf_random_unit state
            in (f64_round_as_i64 (f64_mul (f64_sub r (f64_div (f64_of_int 1) (f64_of_int 2)))
                  (f64_of_int (sint (rf_jitter_microseconds state)))), state)))"

definition rf_enqueue :: "RfEnv \<Rightarrow> RfpipeMac \<Rightarrow> i64 \<Rightarrow> RfPacket \<Rightarrow> RfState layer \<Rightarrow> (i64 \<times> RfState layer) panics" where
  "rf_enqueue env mac now packet = (\<lambda>(state, fw). do {
     let state = (if rf_flow_control_enable state then state\<lparr>rf_available_tokens := rf_available_tokens state - 1\<rparr> else state);
     let data_rate = rf_data_rate_bps state;
     let duration = max (duration_microseconds (length (op_payload packet)) data_rate) 1;
     let (jitter, state) = rf_jitter state;
     let ready_at = smax (i64_saturating_add (i64_saturating_add now (rf_delay_microseconds state)) jitter) now;
     (state, fw) \<leftarrow> rf_make_room env mac (rf_queue state) (state, fw);
     let state = state\<lparr>rf_queue := rf_queue state @ [\<lparr>tx_packet = packet, tx_acquired_at = now, tx_ready_at = ready_at,
       tx_duration = duration, tx_data_rate = data_rate\<rparr>]\<rparr>;
     let fw = fw_call (MaximizeCounter (rm_queue_high_water_counter mac) (word_of_nat (length (rf_queue state)))) fw;
     Some (smax (smax ready_at (rf_current_end_of_transmission state)) now, (state, fw)) })"

definition u32_or_max :: "nat \<Rightarrow> u32" where
  "u32_or_max n = (if n < 2 ^ 32 then word_of_nat n else - 1)"

definition rf_downstream :: "RfEnv \<Rightarrow> RfpipeMac \<Rightarrow> FfiPacket option \<Rightarrow> Messages \<Rightarrow> RfState layer \<Rightarrow> RfState layer panics" where
  "rf_downstream env mac packet messages = (\<lambda>(state, fw).
     if packet = None then Some (state, fw_call (SendDownstreamControl (rm_id mac) messages) fw)
     else do {
       owned \<leftarrow> rf_own_packet packet messages;
       case owned of
         None \<Rightarrow> Some (state, fw)
       | Some packet \<Rightarrow> do {
           let source = pi_source (op_info packet);
           let destination = pi_destination (op_info packet);
           let fw = downstream_rx_packet (rm_counters mac) source destination (length (op_payload packet)) fw;
           let now = now_microseconds (re_api env) fw;
           if \<not> rf_started state \<or> (rf_flow_control_enable state \<and> rf_available_tokens state = 0)
           then do {
             fw \<leftarrow> downstream_drop_packet (re_api env) (rm_counters mac) source destination 7 fw;
             Some (state, fw) }
           else do {
             (ready_at, (state, fw)) \<leftarrow> rf_enqueue env mac now packet (state, fw);
             let fw = fw_call (UpdateQueueMetric 0 (word_of_nat QUEUE_CAPACITY) (u32_or_max (length (rf_queue state)))
               (rf_queue_discards state) 0) fw;
             if sint ready_at \<le> sint now then drive_transmit env mac now (state, fw)
             else Some (schedule_transmit env mac ready_at (state, fw)) } } })"


section \<open>Receiving\<close>

definition rf_send_upstream :: "RfEnv \<Rightarrow> RfpipeMac \<Rightarrow> RfPacket \<times> i64 \<Rightarrow> Framework \<Rightarrow> Framework" where
  "rf_send_upstream env mac = (\<lambda>(packet, received_at) fw.
     let info = op_info packet;
         fw = upstream_tx_packet (re_api env) (rm_counters mac) (pi_source info) (pi_destination info) (length (op_payload packet))
           (i64_saturating_sub (now_microseconds (re_api env) fw) received_at) fw
     in fw_call (SendUpstreamPacket (rm_id mac) (Some \<lparr>fp_info = info, fp_payload = slice_of (op_payload packet)\<rparr>)
          (messages_of (map control_view (op_controls packet)))) fw)"

text \<open>The header of the model in front of the payload: its data rate and the payload after it.\<close>

definition strip_mac_header :: "RfEnv \<Rightarrow> byte list \<Rightarrow> (u64 \<times> byte list) option panics" where
  "strip_mac_header env payload =
     (if length payload < 2 then Some None
      else do {
        prefix \<leftarrow> slice payload 0 2;
        let serialization_len = unat (of_be_bytes prefix :: u16);
        if serialization_len = 0 \<or> length payload < serialization_len + 2 then Some None
        else do {
          serialization \<leftarrow> slice payload 2 (2 + serialization_len);
          case re_decode env serialization of
            None \<Rightarrow> Some None
          | Some data_rate \<Rightarrow>
              if data_rate = 0 then Some None else Some (Some (data_rate, drop (serialization_len + 2) payload)) } })"

definition receiver_sensitivity :: "RfEnv \<Rightarrow> RxProperties \<Rightarrow> f64" where
  "receiver_sensitivity env rx =
     f64_add (f64_add (f64_of_int (- 174)) (f64_mul (f64_of_int 10) (re_log10 env (f64_of_int (uint (max (rxp_bandwidth_hz rx) 1))))))
       (f64_of_int 4)"

definition rf_sinr :: "RxProperties \<Rightarrow> f64" where
  "rf_sinr rx = f64_sub (rxp_rx_power_dbm rx) (rxp_noise_floor_dbm rx)"

text \<open>Whether the packet is received at all, and whether it is for this node.\<close>

definition rf_accepts :: "RfEnv \<Rightarrow> RfpipeMac \<Rightarrow> RxProperties \<Rightarrow> RfPacket \<Rightarrow> RfState \<Rightarrow> bool \<times> bool \<times> RfState" where
  "rf_accepts env mac rx packet state =
     (let probability = (case rf_pcr_curve state of
            None \<Rightarrow> f64_of_int 1
          | Some curve \<Rightarrow> PcrCurve_probability (re_powf env) curve (rf_sinr rx) (length (op_payload packet)));
          (r, state) = rf_random_unit state
      in (f64_le r probability,
          rf_promiscuous_mode state \<or> pi_destination (op_info packet) = rm_id mac \<or> pi_destination (op_info packet) = RF_BROADCAST_NEM,
          state))"

definition rf_hold :: "RfEnv \<Rightarrow> RfpipeMac \<Rightarrow> RxProperties \<Rightarrow> RfPacket \<times> i64 \<Rightarrow> RfState layer \<Rightarrow> RfState layer" where
  "rf_hold env mac rx reception = (\<lambda>(state, fw).
     let reception_id = max (rf_next_reception_id state + 1) 1;
         state = state\<lparr>rf_next_reception_id := reception_id,
           rf_pending_receptions := (rf_pending_receptions state)(reception_id \<mapsto> reception)\<rparr>;
         when = i64_saturating_add (now_microseconds (re_api env) fw) (rxp_duration_microseconds rx);
         (timer, fw) = rf_schedule env mac when EVENT_RECEIVE (be_bytes 8 reception_id) fw
     in if timer = 0
        then (state\<lparr>rf_pending_receptions := (rf_pending_receptions state)(reception_id := None)\<rparr>, rf_send_upstream env mac reception fw)
        else (rf_add_timer timer state, fw))"

text \<open>A packet with its header off: metrics, tables, and what becomes of it.\<close>

definition rf_receive :: "RfEnv \<Rightarrow> RfpipeMac \<Rightarrow> ModelHeader \<Rightarrow> RxProperties \<Rightarrow> u64 \<Rightarrow> RfPacket \<times> i64 \<Rightarrow> RfState layer \<Rightarrow> RfState layer panics" where
  "rf_receive env mac header rx data_rate reception = (\<lambda>(state, fw). do {
     let info = op_info (fst reception);
     let fw = fw_call (UpdateNeighborRx (pi_source info) (mh_sequence header) (rf_sinr rx) (rxp_noise_floor_dbm rx)
       (nonneg (now_microseconds (re_api env) fw)) (rxp_duration_microseconds rx) data_rate) fw;
     let fw = fw_call (UpdateRfSignalTable (rf_signal_table_handle state) (pi_source info) 0 (rxp_frequency_hz rx) (rxp_rx_power_dbm rx)
       (rf_sinr rx) (rxp_noise_floor_dbm rx) (receiver_sensitivity env rx)) fw;
     let (por_accepted, destination_accepted, state) = rf_accepts env mac rx (fst reception) state;
     if \<not> por_accepted \<or> \<not> destination_accepted
     then do {
       fw \<leftarrow> upstream_drop_packet (re_api env) (rm_counters mac) (pi_source info) (pi_destination info) (if por_accepted then 3 else 1) fw;
       Some (state, fw) }
     else Some (rf_hold env mac rx reception (state, fw)) })"

definition rf_upstream :: "RfEnv \<Rightarrow> RfpipeMac \<Rightarrow> FfiPacket option \<Rightarrow> Messages \<Rightarrow> RfState layer \<Rightarrow> RfState layer panics" where
  "rf_upstream env mac packet messages = (\<lambda>(state, fw).
     case packet of
       None \<Rightarrow> Some (state, fw_call (SendUpstreamControl (rm_id mac) messages) fw)
     | Some p \<Rightarrow> do {
         let received_at = now_microseconds (re_api env) fw;
         let source = pi_source (fp_info p);
         let destination = pi_destination (fp_info p);
         let fw = upstream_rx_packet (rm_counters mac) source destination (fs_len (fp_payload p)) fw;
         let reject = (\<lambda>code. do {
           fw \<leftarrow> upstream_drop_packet (re_api env) (rm_counters mac) source destination code fw;
           Some (state, fw) });
         case controls messages of
           None \<Rightarrow> reject 5
         | Some ms \<Rightarrow> do {
             header \<leftarrow> find_header ms;
             rx \<leftarrow> find_rx_properties ms;
             case (header, rx) of
               (Some header, Some rx) \<Rightarrow>
                 if mh_registration_id header \<noteq> MAC_REGISTRATION_RFPIPE then reject 2
                 else do {
                   owned \<leftarrow> rf_own_packet (Some p) messages;
                   case owned of
                     None \<Rightarrow> Some (state, fw)
                   | Some packet \<Rightarrow> do {
                       stripped \<leftarrow> strip_mac_header env (op_payload packet);
                       case stripped of
                         None \<Rightarrow> Some (state, fw)
                       | Some (data_rate, payload) \<Rightarrow>
                           rf_receive env mac header rx data_rate (packet\<lparr>op_payload := payload\<rparr>, received_at) (state, fw) } }
             | _ \<Rightarrow> reject 5 } })"


section \<open>Timers, configuration and lifecycle\<close>

definition rf_report :: "RfEnv \<Rightarrow> RfpipeMac \<Rightarrow> RfState layer \<Rightarrow> RfState layer" where
  "rf_report env mac = (\<lambda>(state, fw).
     if rf_started state \<and> rf_radiometric_enabled state
     then (let interval = rf_radiometric_report_interval_microseconds state;
               fw = fw_call (PublishR2ri (rf_data_rate_bps state) (rf_data_rate_bps state) interval
                 (rf_neighbor_metric_delete_microseconds state)) fw;
               when = i64_saturating_add (now_microseconds (re_api env) fw) interval;
               (timer, fw) = rf_schedule env mac when EVENT_R2RI_REPORT (be_bytes 8 when) fw
           in (rf_add_timer timer state, fw))
     else (state, fw))"

definition rf_timed :: "RfEnv \<Rightarrow> RfpipeMac \<Rightarrow> u64 \<Rightarrow> u32 \<Rightarrow> FfiSlice \<Rightarrow> RfState layer \<Rightarrow> RfState layer panics" where
  "rf_timed env mac timer_id event_id data = (\<lambda>(state, fw). do {
     let state = state\<lparr>rf_timers := rf_timers state - {timer_id}\<rparr>;
     if fs_len data \<noteq> 8 \<or> fs_data data = None then Some (state, fw)
     else do {
       bytes \<leftarrow> slice_contents data;
       let v = (of_be_bytes bytes :: u64);
       if event_id = EVENT_TRANSMIT
       then (if rf_next_transmit_wakeup state \<noteq> v then Some (state, fw)
             else drive_transmit env mac (now_microseconds (re_api env) fw) (state\<lparr>rf_next_transmit_wakeup := 0\<rparr>, fw))
       else if event_id = EVENT_RECEIVE
       then Some (case rf_pending_receptions state v of
                    None \<Rightarrow> (state, fw)
                  | Some reception \<Rightarrow>
                      (state\<lparr>rf_pending_receptions := (rf_pending_receptions state)(v := None)\<rparr>, rf_send_upstream env mac reception fw))
       else if event_id = EVENT_R2RI_REPORT then Some (rf_report env mac (state, fw))
       else Some (state, fw) } })"

text \<open>One item of a configuration: \<open>None\<close> is \<open>return false\<close>.\<close>

definition rf_configure_item :: "string \<Rightarrow> string \<Rightarrow> RfState \<Rightarrow> RfState option" where
  "rf_configure_item name v state =
     (if name = ''enablepromiscuousmode'' \<or> name = ''promiscuousmode''
      then map_option (\<lambda>b. state\<lparr>rf_promiscuous_mode := b\<rparr>) (parse_bool v)
      else if name = ''datarate''
      then Option.bind (rf_parse_scaled_u64 v) (\<lambda>n. if n = 0 then None else Some (state\<lparr>rf_data_rate_bps := n\<rparr>))
      else if name = ''delay'' then map_option (\<lambda>n. state\<lparr>rf_delay_microseconds := n\<rparr>) (rf_seconds_to_microseconds v)
      else if name = ''jitter'' then map_option (\<lambda>n. state\<lparr>rf_jitter_microseconds := n\<rparr>) (rf_seconds_to_microseconds v)
      else if name = ''flowcontrolenable'' then map_option (\<lambda>b. state\<lparr>rf_flow_control_enable := b\<rparr>) (parse_bool v)
      else if name = ''flowcontroltokens''
      then map_option (\<lambda>n. state\<lparr>rf_flow_control_tokens := n, rf_available_tokens := n\<rparr>) (parse_u16 v)
      else if name = ''pcrcurveuri'' then Some (state\<lparr>rf_pcr_curve_uri := v\<rparr>)
      else if name = ''radiometricenable'' then map_option (\<lambda>b. state\<lparr>rf_radiometric_enabled := b\<rparr>) (parse_bool v)
      else if name = ''radiometricreportinterval''
      then Option.bind (rf_seconds_to_microseconds v) (\<lambda>n.
        if 100000 \<le> sint n \<and> sint n \<le> 60000000 then Some (state\<lparr>rf_radiometric_report_interval_microseconds := n\<rparr>) else None)
      else if name = ''neighbormetricdeletetime''
      then Option.bind (rf_seconds_to_microseconds v) (\<lambda>n.
        if 1000000 \<le> sint n \<and> sint n \<le> 3660000000 then Some (state\<lparr>rf_neighbor_metric_delete_microseconds := n\<rparr>) else None)
      else if name = ''rfsignaltable.averageallantennas''
      then map_option (\<lambda>b. state\<lparr>rf_signal_average_all_antennas := b\<rparr>) (parse_bool v)
      else if name = ''rfsignaltable.averageallfrequencies''
      then map_option (\<lambda>b. state\<lparr>rf_signal_average_all_frequencies := b\<rparr>) (parse_bool v)
      else None)"

fun rf_configure_items :: "(string \<times> string list) list \<Rightarrow> RfState \<Rightarrow> bool \<times> RfState" where
  "rf_configure_items [] state = (True, state)"
| "rf_configure_items ((name, vs) # items) state =
     (case vs of
        [] \<Rightarrow> (False, state)
      | v # _ \<Rightarrow> (case rf_configure_item name v state of
                   None \<Rightarrow> (False, state)
                 | Some state \<Rightarrow> rf_configure_items items state))"

definition rf_configure :: "RfEnv \<Rightarrow> FfiConfigRequest option \<Rightarrow> RfState layer \<Rightarrow> (bool \<times> RfState layer) panics" where
  "rf_configure env request = (\<lambda>(state, fw). do {
     items \<leftarrow> rf_configuration request;
     Some (case items of
       None \<Rightarrow> (False, (state, fw))
     | Some items \<Rightarrow>
         (let (ok, state) = rf_configure_items items state
          in if \<not> ok \<or> rf_signal_table_handle state = 0 then (False, (state, fw))
             else (let (answer, fw) = fw_ask (re_api env) (ConfigureRfSignalTable (rf_signal_table_handle state)
                         (rf_signal_average_all_antennas state) (rf_signal_average_all_frequencies state)) fw
                   in (answer \<noteq> 0, (state, fw))))) })"

definition rf_start :: "RfEnv \<Rightarrow> 'n XmlApi \<Rightarrow> RfpipeMac \<Rightarrow> RfState layer \<Rightarrow> (bool \<times> RfState layer) panics" where
  "rf_start env xml mac = (\<lambda>(state, fw).
     if rf_pcr_curve_uri state = [] then Some (False, (state, fw))
     else case PcrCurve_load xml (rf_pcr_curve_uri state) of
       Inl e \<Rightarrow> Some (False, (state, fw))
     | Inr curve \<Rightarrow> do {
         let state = state\<lparr>rf_pcr_curve := Some curve, rf_available_tokens := rf_flow_control_tokens state, rf_started := True\<rparr>;
         fw \<leftarrow> (if rf_flow_control_enable state then rf_send_flow_update mac (rf_available_tokens state) fw else Some fw);
         Some (True,
           if rf_radiometric_enabled state
           then (let when = i64_saturating_add (now_microseconds (re_api env) fw) (rf_radiometric_report_interval_microseconds state);
                     (timer, fw) = rf_schedule env mac when EVENT_R2RI_REPORT (be_bytes 8 when) fw
                 in (rf_add_timer timer state, fw))
           else (state, fw)) })"

text \<open>\<open>order\<close> lists the elements of the hash set in the order \<open>drain\<close> meets them.\<close>

definition rf_stop :: "RfpipeMac \<Rightarrow> (u64 set \<Rightarrow> u64 list) \<Rightarrow> RfState layer \<Rightarrow> RfState layer" where
  "rf_stop mac order = (\<lambda>(state, fw).
     (state\<lparr>rf_started := False, rf_queue := [], rf_pending_receptions := Map.empty, rf_next_transmit_wakeup := 0, rf_timers := {}\<rparr>,
      fold (\<lambda>timer. fw_call (CancelTimedEvent (rm_id mac) timer)) (order (rf_timers state)) fw))"

end
