(* ===== verification/Rf_Pipe_Link.thy ===== *)
theory Rf_Pipe_Link
  imports Rf_Pipe Comm_Effect_Link
begin

text \<open>
  Properties of the RF pipe radio model: no allowed sequence of calls panics; tokens are conserved; a packet that
  waits has its timer, and is sent when the timer fires after its time; the packets sent keep to the data rate; what
  one node sends, another one hands up unchanged.
\<close>

section \<open>Calls and reachable states\<close>

datatype RfAction =
    RfDownstream "FfiPacket option" Messages
  | RfUpstream "FfiPacket option" Messages
  | RfTimed u64 u32 FfiSlice
  | RfConfigure "FfiConfigRequest option"
  | RfStart
  | RfStop "u64 set \<Rightarrow> u64 list"

fun rf_act :: "RfEnv \<Rightarrow> 'n XmlApi \<Rightarrow> RfpipeMac \<Rightarrow> RfAction \<Rightarrow> RfState layer \<Rightarrow> RfState layer panics" where
  "rf_act env xml mac (RfDownstream p ms) s = rf_downstream env mac p ms s"
| "rf_act env xml mac (RfUpstream p ms) s = rf_upstream env mac p ms s"
| "rf_act env xml mac (RfTimed timer event data) s = rf_timed env mac timer event data s"
| "rf_act env xml mac (RfConfigure request) s = map_option snd (rf_configure env request s)"
| "rf_act env xml mac RfStart s = map_option snd (rf_start env xml mac s)"
| "rf_act env xml mac (RfStop order) s = Some (rf_stop mac order s)"

text \<open>The parameters that the NEM manager changes while a layer runs.\<close>

definition rf_modifiable :: "string list" where
  "rf_modifiable = [''enablepromiscuousmode'', ''datarate'', ''jitter'', ''delay'', ''neighbormetricdeletetime'']"

definition rf_update_request :: "FfiConfigRequest option \<Rightarrow> bool" where
  "rf_update_request request \<longleftrightarrow>
     (case rf_configuration request of
        Some (Some items) \<Rightarrow> list_all (\<lambda>item. fst item \<in> set rf_modifiable) items
      | _ \<Rightarrow> True)"

text \<open>The memory behind the pointers is there; a layer is started only while it is stopped, and what a
  configuration of a running layer names is modifiable.\<close>

fun rf_allowed :: "RfAction \<Rightarrow> RfState \<Rightarrow> bool" where
  "rf_allowed (RfDownstream p ms) state \<longleftrightarrow> shim_packet_ok p \<and> messages_ok ms"
| "rf_allowed (RfUpstream p ms) state \<longleftrightarrow> shim_packet_ok p \<and> messages_ok ms"
| "rf_allowed (RfTimed timer event data) state \<longleftrightarrow> valid_slice data"
| "rf_allowed (RfConfigure request) state \<longleftrightarrow> request_ok request \<and> (rf_started state \<longrightarrow> rf_update_request request)"
| "rf_allowed RfStart state \<longleftrightarrow> \<not> rf_started state"
| "rf_allowed (RfStop order) state \<longleftrightarrow> True"

inductive rf_reach :: "RfEnv \<Rightarrow> 'n XmlApi \<Rightarrow> RfpipeMac \<Rightarrow> RfState layer \<Rightarrow> RfState layer \<Rightarrow> bool" for env xml mac s0 where
  reach_init: "rf_reach env xml mac s0 s0"
| reach_act: "rf_reach env xml mac s0 s \<Longrightarrow> rf_allowed a (fst s) \<Longrightarrow> rf_act env xml mac a s = Some s' \<Longrightarrow> rf_reach env xml mac s0 s'"

text \<open>The clock shows a time after the epoch.\<close>

definition clock_runs :: "RfEnv \<Rightarrow> bool" where
  "clock_runs env \<longleftrightarrow> (\<forall>calls. api_now (re_api env) calls \<noteq> 0)"

lemma now_positive: "clock_runs env \<Longrightarrow> 0 < sint (now_microseconds (re_api env) fw)"
proof -
  assume "clock_runs env"
  then have "uint (unix_microseconds (re_api env) fw) > 0"
    by (metis clock_runs_def unix_microseconds_def less_le uint_ge_0 uint_0_iff)
  then show ?thesis
    by (simp add: now_microseconds_def i64_from_u64_or_max_def sint_i64_clamp i64_max_def i64_min_def)
qed

section \<open>What a call does to the framework\<close>

fun is_transmission :: "FrameworkCall \<Rightarrow> bool" where
  "is_transmission (SendDownstreamPacket _ _ _) \<longleftrightarrow> True"
| "is_transmission _ \<longleftrightarrow> False"

fun is_cancel :: "FrameworkCall \<Rightarrow> bool" where
  "is_cancel (CancelTimedEvent _ _) \<longleftrightarrow> True"
| "is_cancel _ \<longleftrightarrow> False"

text \<open>Calls that cancel no timer.\<close>

definition fw_grows :: "(u64 \<Rightarrow> nat) \<Rightarrow> Framework \<Rightarrow> Framework \<Rightarrow> bool" where
  "fw_grows columns fw fw' \<longleftrightarrow> drop_rows_ok columns fw' \<and> (\<exists>cs. acts_between fw fw' cs \<and> \<not> list_ex is_cancel cs)"

text \<open>The same without a packet sent down.\<close>

definition fw_after :: "(u64 \<Rightarrow> nat) \<Rightarrow> Framework \<Rightarrow> Framework \<Rightarrow> bool" where
  "fw_after columns fw fw' \<longleftrightarrow> drop_rows_ok columns fw' \<and> (\<exists>cs. acts_between fw fw' cs \<and> \<not> list_ex is_transmission cs \<and> \<not> list_ex is_cancel cs)"

lemma fw_after_grows: "fw_after columns fw fw' \<Longrightarrow> fw_grows columns fw fw'"
  by (auto simp: fw_after_def fw_grows_def)

lemma fw_grows_trans:
  assumes "fw_grows columns a b" "fw_grows columns b c"
  shows "fw_grows columns a c"
proof -
  obtain xs ys where x: "acts_between a b xs" "\<not> list_ex is_cancel xs" "acts_between b c ys" "\<not> list_ex is_cancel ys"
    using assms by (auto simp: fw_grows_def)
  have "\<not> list_ex is_cancel (xs @ ys)" using x(2,4) by simp
  then show ?thesis using acts_trans [OF x(1,3)] assms(2) by (auto simp: fw_grows_def)
qed

lemma fw_grows_rows: "fw_grows columns fw fw' \<Longrightarrow> drop_rows_ok columns fw'"
  by (simp add: fw_grows_def)

lemma counting_no_cancel: "counting_call c \<Longrightarrow> \<not> is_cancel c"
  by (cases c) simp_all

lemma fw_grows_calls:
  assumes "fw_grows columns fw fw'"
  obtains calls where "fw_calls fw' = fw_calls fw @ calls" "\<forall>c \<in> set calls. \<not> is_cancel c"
proof -
  obtain calls where c: "fw_calls fw' = fw_calls fw @ calls" "\<not> list_ex is_cancel (filter (\<lambda>c. \<not> counting_call c) calls)"
    using assms by (auto simp: fw_grows_def acts_between_def)
  then have "\<forall>c \<in> set calls. \<not> is_cancel c" using counting_no_cancel by (auto simp: list_ex_iff)
  with c(1) that show ?thesis by blast
qed

lemma fw_afterI: "drop_rows_ok columns fw' \<Longrightarrow> acts_between fw fw' [] \<Longrightarrow> fw_after columns fw fw'"
  by (auto simp: fw_after_def intro: exI [of _ "[]"])

lemma fw_after_refl [simp]: "drop_rows_ok columns fw \<Longrightarrow> fw_after columns fw fw"
  by (rule fw_afterI) simp_all

lemma fw_after_trans:
  assumes "fw_after columns a b" "fw_after columns b c"
  shows "fw_after columns a c"
proof -
  obtain xs ys where x: "acts_between a b xs" "\<not> list_ex is_transmission xs \<and> \<not> list_ex is_cancel xs"
      "acts_between b c ys" "\<not> list_ex is_transmission ys \<and> \<not> list_ex is_cancel ys"
    using assms by (auto simp: fw_after_def)
  have "\<not> list_ex is_transmission (xs @ ys) \<and> \<not> list_ex is_cancel (xs @ ys)" using x(2,4) by simp
  then show ?thesis using acts_trans [OF x(1,3)] assms(2) unfolding fw_after_def by blast
qed

lemma fw_after_call: "drop_rows_ok columns fw \<Longrightarrow> \<not> is_transmission c \<Longrightarrow> \<not> is_cancel c \<Longrightarrow> fw_after columns fw (fw_call c fw)"
  using acts_call [of fw c] by (auto simp: fw_after_def intro!: exI [of _ "if counting_call c then [] else [c]"] split: if_splits)

lemma fw_after_ask: "drop_rows_ok columns fw \<Longrightarrow> \<not> is_transmission c \<Longrightarrow> \<not> is_cancel c \<Longrightarrow> fw_after columns fw (snd (fw_ask api c fw))"
  by (simp add: fw_ask_def Let_def fw_after_call)

lemma fw_after_rows: "fw_after columns fw fw' \<Longrightarrow> drop_rows_ok columns fw'"
  by (simp add: fw_after_def)

lemma fw_after_counting:
  assumes "drop_rows_ok columns fw"
  shows "fw_after columns fw (upstream_rx_packet c s d b fw)" "fw_after columns fw (downstream_rx_packet c s d b fw)"
    "fw_after columns fw (upstream_tx_packet api c s d b delay fw)" "fw_after columns fw (downstream_tx_packet api c s d b delay generated fw)"
  by (rule fw_afterI [OF counters_keep_rows(1) [OF assms] counters_quiet(1)] fw_afterI [OF counters_keep_rows(2) [OF assms] counters_quiet(2)]
      fw_afterI [OF counters_keep_rows(3) [OF assms] counters_quiet(3)] fw_afterI [OF counters_keep_rows(4) [OF assms] counters_quiet(4)])+

lemma fw_after_drop:
  assumes "drop_rows_ok columns fw" "columns_agree columns c"
  shows "\<exists>fw'. upstream_drop_packet api c s d code fw = Some fw' \<and> fw_after columns fw fw'"
    "\<exists>fw'. downstream_drop_packet api c s d code fw = Some fw' \<and> fw_after columns fw fw'"
proof -
  show "\<exists>fw'. upstream_drop_packet api c s d code fw = Some fw' \<and> fw_after columns fw fw'"
    using drops_total(1) [OF assms, of api s d code] drops_quiet(1) fw_afterI by meson
  show "\<exists>fw'. downstream_drop_packet api c s d code fw = Some fw' \<and> fw_after columns fw fw'"
    using drops_total(2) [OF assms, of api s d code] drops_quiet(2) fw_afterI by meson
qed

lemma fw_after_schedule: "drop_rows_ok columns fw \<Longrightarrow> fw_after columns fw (snd (rf_schedule env mac when event data fw))"
  by (simp add: rf_schedule_def Let_def fw_after_ask)

lemma send_flow_update_after:
  assumes "drop_rows_ok columns fw"
  shows "\<exists>fw'. rf_send_flow_update mac tokens fw = Some fw' \<and> fw_after columns fw fw'"
proof -
  obtain b where "FlowControlToken_encode \<lparr>fct_tokens = tokens\<rparr> = Some b" using flow_control_token.encode_no_panic by (fastforce simp: option.the_def)
  then show ?thesis using fw_after_call [OF assms] by (simp add: rf_send_flow_update_def)
qed

lemma send_upstream_after: "drop_rows_ok columns fw \<Longrightarrow> fw_after columns fw (rf_send_upstream env mac reception fw)"
  unfolding rf_send_upstream_def case_prod_unfold Let_def
  by (rule fw_after_trans [OF fw_after_counting(3) fw_after_call]) (auto intro: fw_after_rows fw_after_counting(3))

text \<open>The one call a transmission makes besides counting.\<close>

definition sent_payload :: "RfEnv \<Rightarrow> u64 \<Rightarrow> byte list \<Rightarrow> byte list" where
  "sent_payload env rate payload = be_bytes 2 (word_of_nat (length (re_encode env rate)) :: u16) @ re_encode env rate @ payload"

definition sent_messages :: "RfPacket \<Rightarrow> byte list \<Rightarrow> byte list \<Rightarrow> FfiControlMessage list" where
  "sent_messages packet hb tb = map control_view (filter keeps_control (op_controls packet)) @
     [control_view (CONTROL_MODEL_HEADER, hb), control_view (CONTROL_TX_PROPERTIES, tb)]"

lemma send_packet_sends:
  assumes "length (re_encode env (mh_data_rate_bps header)) < 2 ^ 16" "ModelHeader_encode header = Some hb"
  shows "\<exists>fw' t tb. rf_send_packet env mac packet header duration acquired fw = Some fw' \<and>
    TxProperties_encode (rf_tx_properties duration t) = Some tb \<and>
    acts_between fw fw' [SendDownstreamPacket (rm_id mac)
      (Some \<lparr>fp_info = op_info packet, fp_payload = slice_of (sent_payload env (mh_data_rate_bps header) (op_payload packet))\<rparr>)
      (messages_of (sent_messages packet hb tb))]"
proof -
  define api where "api = re_api env"
  define info where "info = op_info packet"
  obtain tb where tb: "TxProperties_encode (rf_tx_properties duration (now_microseconds api fw)) = Some tb"
    by (simp add: TxProperties_bytes)
  define f1 where "f1 = downstream_tx_packet api (rm_counters mac) (pi_source info) (pi_destination info) (length (op_payload packet))
    (nonneg (i64_saturating_sub (now_microseconds api fw) acquired)) False fw"
  define call where "call = SendDownstreamPacket (rm_id mac)
    (Some \<lparr>fp_info = info, fp_payload = slice_of (sent_payload env (mh_data_rate_bps header) (op_payload packet))\<rparr>)
    (messages_of (sent_messages packet hb tb))"
  define f2 where "f2 = fw_call call f1"
  have "rf_send_packet env mac packet header duration acquired fw =
    Some (fw_call (UpdateNeighborTx (pi_destination info) (mh_data_rate_bps header) (nonneg (now_microseconds api f2))) f2)"
    using assms tb
    by (simp add: rf_send_packet_def u16_try_from_def Let_def f2_def f1_def call_def sent_payload_def sent_messages_def api_def info_def)
  moreover have "acts_between fw f1 []" unfolding f1_def by (rule counters_quiet)
  moreover have "acts_between f1 f2 [call]" using acts_call [of f1 call] by (simp add: f2_def call_def)
  moreover have "acts_between f2 (fw_call (UpdateNeighborTx a b c) f2) []" for a b c using acts_call [of f2 "UpdateNeighborTx a b c"] by simp
  ultimately show ?thesis
    unfolding call_def info_def using acts_quiet_left acts_quiet_right tb by blast
qed

lemma send_packet_after:
  assumes "drop_rows_ok columns fw"
  shows "\<exists>fw'. rf_send_packet env mac packet header duration acquired fw = Some fw' \<and> fw_grows columns fw fw'"
proof -
  obtain hb where hb: "ModelHeader_encode header = Some hb" by (simp add: ModelHeader_bytes)
  obtain tb where tb: "TxProperties_encode (rf_tx_properties duration (now_microseconds (re_api env) fw)) = Some tb"
    by (simp add: TxProperties_bytes)
  show ?thesis
  proof (cases "u16_try_from (length (re_encode env (mh_data_rate_bps header)))")
    case None
    then show ?thesis using assms fw_after_grows [OF fw_after_refl] by (simp add: rf_send_packet_def)
  next
    case (Some len)
    have call: "fw_grows columns f (fw_call c f)" if "drop_rows_ok columns f" "\<not> is_cancel c" for f c
      using that acts_call [of f c] by (auto simp: fw_grows_def split: if_splits)
    have "fw_grows columns fw (fw_call c' (fw_call c (downstream_tx_packet api k s d b delay g fw)))" if "\<not> is_cancel c" "\<not> is_cancel c'" for c c' api k s d b delay g
      using fw_grows_trans [OF fw_grows_trans [OF fw_after_grows [OF fw_after_counting(4)] call] call] assms counters_keep_rows(4) that by auto
    then show ?thesis using Some hb tb by (simp add: rf_send_packet_def Let_def)
  qed
qed

section \<open>The invariant\<close>

text \<open>A queued packet knows the airtime of its payload at the data rate it was queued with.\<close>

definition entry_ok :: "PendingTx \<Rightarrow> bool" where
  "entry_ok e \<longleftrightarrow> tx_data_rate e \<noteq> 0 \<and> length (op_payload (tx_packet e)) \<le> 64 * 1024 * 1024 \<and>
     tx_duration e = max (duration_microseconds (length (op_payload (tx_packet e))) (tx_data_rate e)) 1"

definition queue_ok :: "RfState \<Rightarrow> bool" where
  "queue_ok state \<longleftrightarrow> rf_data_rate_bps state \<noteq> 0 \<and> length (rf_queue state) \<le> QUEUE_CAPACITY \<and> list_all entry_ok (rf_queue state) \<and>
     (\<not> rf_started state \<longrightarrow> rf_queue state = []) \<and>
     (rf_started state \<and> rf_flow_control_enable state \<longrightarrow>
        unat (rf_available_tokens state) + length (rf_queue state) = unat (rf_flow_control_tokens state))"

definition transmit_timer :: "RfpipeMac \<Rightarrow> i64 \<Rightarrow> FrameworkCall" where
  "transmit_timer mac w = ScheduleTimedEvent (rm_id mac) (nonneg w div 1000000) (ucast (nonneg w mod 1000000)) EVENT_TRANSMIT (slice_of (be_bytes 8 w))"

text \<open>A point in the history of the framework: what was asked for before, and the number of calls at that point. The
  timer of the queue was asked for before it or is asked for after it, and no timer is cancelled after it.\<close>

type_synonym since = "FrameworkCall set \<times> nat"

definition calls_since :: "since \<Rightarrow> Framework \<Rightarrow> FrameworkCall list" where
  "calls_since k fw = drop (snd k) (fw_calls fw)"

definition timer_ok :: "since \<Rightarrow> RfpipeMac \<Rightarrow> RfState \<Rightarrow> Framework \<Rightarrow> bool" where
  "timer_ok k mac state fw \<longleftrightarrow> snd k \<le> length (fw_calls fw) \<and> (\<forall>c \<in> set (calls_since k fw). \<not> is_cancel c) \<and>
     (rf_next_transmit_wakeup state \<noteq> 0 \<longrightarrow> transmit_timer mac (rf_next_transmit_wakeup state) \<in> fst k \<union> set (calls_since k fw))"

text \<open>The point of a state itself.\<close>

definition here :: "RfpipeMac \<Rightarrow> RfState layer \<Rightarrow> since" where
  "here mac s = ({transmit_timer mac (rf_next_transmit_wakeup (fst s))}, length (fw_calls (snd s)))"

lemma timer_ok_here [simp]: "timer_ok (here mac (state, fw)) mac state fw"
  by (simp add: timer_ok_def here_def calls_since_def)

definition armed :: "RfState \<Rightarrow> bool" where
  "armed state \<longleftrightarrow> (rf_queue state \<noteq> [] \<longrightarrow> rf_next_transmit_wakeup state \<noteq> 0)"

definition rf_core :: "since \<Rightarrow> (u64 \<Rightarrow> nat) \<Rightarrow> RfpipeMac \<Rightarrow> RfState layer \<Rightarrow> bool" where
  "rf_core k columns mac s \<longleftrightarrow> queue_ok (fst s) \<and> timer_ok k mac (fst s) (snd s) \<and> drop_rows_ok columns (snd s)"

definition rf_inv :: "since \<Rightarrow> (u64 \<Rightarrow> nat) \<Rightarrow> RfpipeMac \<Rightarrow> RfState layer \<Rightarrow> bool" where
  "rf_inv k columns mac s \<longleftrightarrow> rf_core k columns mac s \<and> armed (fst s)"

lemma rf_inv_here: "rf_inv k columns mac s \<Longrightarrow> rf_inv (here mac s) columns mac s"
  by (cases s) (simp add: rf_inv_def rf_core_def)

lemma timer_ok_grows:
  assumes "timer_ok k mac state fw" "fw_grows columns fw fw'" "rf_next_transmit_wakeup state' = rf_next_transmit_wakeup state"
  shows "timer_ok k mac state' fw'"
proof -
  obtain calls where "fw_calls fw' = fw_calls fw @ calls" "\<forall>c \<in> set calls. \<not> is_cancel c" by (rule fw_grows_calls [OF assms(2)])
  then show ?thesis using assms(1,3) by (auto simp: timer_ok_def calls_since_def)
qed

lemmas timer_ok_after = timer_ok_grows [OF _ fw_after_grows]

lemma queue_ok_timer [simp]:
  "queue_ok (state\<lparr>rf_next_transmit_wakeup := w\<rparr>) = queue_ok state" "queue_ok (state\<lparr>rf_timers := t\<rparr>) = queue_ok state"
  by (simp_all add: queue_ok_def)

lemma add_timer_fields [simp]:
  "queue_ok (rf_add_timer t state) = queue_ok state" "rf_next_transmit_wakeup (rf_add_timer t state) = rf_next_transmit_wakeup state"
  "rf_queue (rf_add_timer t state) = rf_queue state" "rf_started (rf_add_timer t state) = rf_started state"
  "rf_sequence (rf_add_timer t state) = rf_sequence state"
  "rf_current_end_of_transmission (rf_add_timer t state) = rf_current_end_of_transmission state"
  by (simp_all add: rf_add_timer_def)

lemma schedule_transmit_ok:
  assumes "rf_core k columns mac (state, fw)" "rf_started state" "0 < sint when"
  obtains state' fw' where "schedule_transmit env mac when (state, fw) = (state', fw')" "rf_core k columns mac (state', fw')"
    "rf_next_transmit_wakeup state' \<noteq> 0" "rf_queue state' = rf_queue state" "rf_sequence state' = rf_sequence state"
    "rf_current_end_of_transmission state' = rf_current_end_of_transmission state" "fw_after columns fw fw'"
proof (cases "rf_next_transmit_wakeup state \<noteq> 0 \<and> sint (rf_next_transmit_wakeup state) \<le> sint when")
  case True
  then have "schedule_transmit env mac when (state, fw) = (state, fw)" by (simp add: schedule_transmit_def)
  then show ?thesis using that assms True by (simp add: rf_core_def)
next
  case False
  obtain timer fw' where r: "rf_schedule env mac when EVENT_TRANSMIT (be_bytes 8 when) fw = (timer, fw')" by fastforce
  have rows: "drop_rows_ok columns fw" using assms(1) by (simp add: rf_core_def)
  have after: "fw_after columns fw fw'" using fw_after_schedule [OF rows, of env mac "when" EVENT_TRANSMIT "be_bytes 8 when"] r by simp
  let ?s = "rf_add_timer timer (state\<lparr>rf_next_transmit_wakeup := when\<rparr>)"
  have "fw_calls fw' = fw_calls fw @ [transmit_timer mac when]" "\<not> is_cancel (transmit_timer mac when)"
    using r by (auto simp: rf_schedule_def Let_def fw_ask_def fw_call_def transmit_timer_def nonneg_def)
  then have core: "rf_core k columns mac (?s, fw')"
    using assms(1) fw_after_rows [OF after] by (simp add: rf_core_def timer_ok_def calls_since_def)
  have "schedule_transmit env mac when (state, fw) = (?s, fw')"
    using False assms(2) r by (auto simp: schedule_transmit_def)
  moreover have "when \<noteq> 0" using assms(3) by auto
  ultimately show ?thesis using that core after by simp
qed

text \<open>A token comes back for a packet that leaves the queue.\<close>

lemma rf_credit_token_fields [simp]:
  "rf_queue (rf_credit_token state) = rf_queue state" "rf_data_rate_bps (rf_credit_token state) = rf_data_rate_bps state"
  "rf_started (rf_credit_token state) = rf_started state" "rf_flow_control_enable (rf_credit_token state) = rf_flow_control_enable state"
  "rf_flow_control_tokens (rf_credit_token state) = rf_flow_control_tokens state"
  "rf_next_transmit_wakeup (rf_credit_token state) = rf_next_transmit_wakeup state"
  "rf_sequence (rf_credit_token state) = rf_sequence state"
  "rf_current_end_of_transmission (rf_credit_token state) = rf_current_end_of_transmission state"
  by (simp_all add: rf_credit_token_def)

lemma credit_conserves:
  assumes "rf_flow_control_enable state" "unat (rf_available_tokens state) + Suc n = unat (rf_flow_control_tokens state)"
  shows "unat (rf_available_tokens (rf_credit_token state)) + n = unat (rf_flow_control_tokens state)"
proof -
  have "unat (rf_flow_control_tokens state) < 65536" by (rule unat_u16_less)
  then have "unat (rf_available_tokens state) + 1 < 65536" using assms(2) by linarith
  then have "unat (saturating_add (rf_available_tokens state) 1) = unat (rf_available_tokens state) + 1"
    by (simp add: saturating_add_def unat_word_ariths(1))
  then have "unat (min (saturating_add (rf_available_tokens state) 1) (rf_flow_control_tokens state)) = unat (rf_available_tokens state) + 1"
    using assms(2) by (simp add: min_def word_le_nat_alt)
  then show ?thesis using assms by (simp add: rf_credit_token_def)
qed

lemma queue_ok_pop:
  assumes "queue_ok state" "rf_queue state = e # rest" "rf_started state"
  shows "queue_ok (rf_credit_token (state\<lparr>rf_queue := rest\<rparr>))"
  using assms credit_conserves [of "state\<lparr>rf_queue := rest\<rparr>" "length rest"] by (simp add: queue_ok_def)

lemma take_pending_cases:
  assumes "rf_core k columns mac (state, fw)" "rf_started state" "take_pending mac now (state, fw) = (transmission, (state', fw'))"
  shows "rf_core k columns mac (state', fw') \<and> fw_after columns fw fw' \<and> acts_between fw fw' [] \<and> rf_started state' \<and>
    rf_flow_control_enable state' = rf_flow_control_enable state \<and>
    (case transmission of
       None \<Rightarrow> state' = state \<and> (case rf_queue state of [] \<Rightarrow> True | e # _ \<Rightarrow>
         sint now < sint (rf_current_end_of_transmission state) \<or> sint now < sint (tx_ready_at e))
     | Some (pending, header) \<Rightarrow> rf_queue state = pending # rf_queue state' \<and> header = rf_header (rf_sequence state) (tx_data_rate pending) \<and>
         sint (rf_current_end_of_transmission state) \<le> sint now \<and> sint (tx_ready_at pending) \<le> sint now \<and>
         rf_sequence state' = rf_sequence state + 1 \<and>
         rf_current_end_of_transmission state' = i64_saturating_add now (tx_duration pending))"
proof (cases "rf_queue state")
  case Nil
  then show ?thesis using assms by (auto simp: take_pending_def rf_core_def)
next
  case (Cons e rest)
  show ?thesis
  proof (cases "sint (rf_current_end_of_transmission state) \<le> sint now \<and> sint (tx_ready_at e) \<le> sint now")
    case False
    then show ?thesis using assms Cons by (auto simp: take_pending_def rf_core_def)
  next
    case True
    let ?d = "nonneg (i64_saturating_sub now (tx_acquired_at e))"
    let ?s = "rf_credit_token (state\<lparr>rf_queue := rest\<rparr>)"
    have r: "transmission = Some (e, rf_header (rf_sequence state) (tx_data_rate e))"
      "state' = ?s\<lparr>rf_sequence := rf_sequence state + 1, rf_current_end_of_transmission := i64_saturating_add now (tx_duration e)\<rparr>"
      "fw' = fw_call (SampleAverage (rm_average_queue_delay mac) (f64_of_int (uint ?d))) (fw_call (IncrementCounter (rm_queue_delay_counter mac) ?d) fw)"
      using assms(3) Cons True by (simp_all add: take_pending_def Let_def)
    have quiet: "acts_between fw fw' []"
      unfolding r(3) by (rule acts_quiet_left [OF acts_call [of fw "IncrementCounter _ _", simplified] acts_call [of _ "SampleAverage _ _", simplified]])
    have rows: "drop_rows_ok columns fw'" using assms(1) by (simp add: r(3) rf_core_def)
    have q: "queue_ok state'" using queue_ok_pop [of state e rest] assms(1,2) Cons by (simp add: r(2) queue_ok_def rf_core_def)
    have "fw_after columns fw fw'" by (rule fw_afterI [OF rows quiet])
    then have "timer_ok k mac state' fw'" using timer_ok_after [of k mac state fw columns fw' state'] assms(1) by (simp add: r(2) rf_core_def)
    then show ?thesis using q rows quiet fw_afterI [OF rows quiet] True Cons assms(2) by (simp add: rf_core_def r(1) r(2))
  qed
qed

section \<open>Transmitting\<close>

text \<open>The packet \<open>e\<close> is sent down with the sequence number \<open>seq\<close> and its airtime, and no other.\<close>

definition sent_call :: "RfEnv \<Rightarrow> RfpipeMac \<Rightarrow> PendingTx \<Rightarrow> byte list \<Rightarrow> byte list \<Rightarrow> FrameworkCall" where
  "sent_call env mac e hb tb = SendDownstreamPacket (rm_id mac)
     (Some \<lparr>fp_info = op_info (tx_packet e), fp_payload = slice_of (sent_payload env (tx_data_rate e) (op_payload (tx_packet e)))\<rparr>)
     (messages_of (sent_messages (tx_packet e) hb tb))"

definition transmits_packet :: "RfEnv \<Rightarrow> RfpipeMac \<Rightarrow> PendingTx \<Rightarrow> u64 \<Rightarrow> Framework \<Rightarrow> Framework \<Rightarrow> bool" where
  "transmits_packet env mac e seq fw fw' \<longleftrightarrow>
     (\<exists>hb tb t bs cs. ModelHeader_encode (rf_header seq (tx_data_rate e)) = Some hb \<and>
        TxProperties_encode (rf_tx_properties (tx_duration e) t) = Some tb \<and>
        \<not> list_ex is_transmission bs \<and> \<not> list_ex is_transmission cs \<and> acts_between fw fw' (bs @ sent_call env mac e hb tb # cs))"

lemma transmits_packet_after:
  assumes "transmits_packet env mac e seq fw f1" "fw_after columns f1 f2"
  shows "transmits_packet env mac e seq fw f2"
proof -
  obtain hb tb t bs cs ds where s: "ModelHeader_encode (rf_header seq (tx_data_rate e)) = Some hb" "\<not> list_ex is_transmission bs"
    "\<not> list_ex is_transmission cs" "acts_between fw f1 (bs @ sent_call env mac e hb tb # cs)" "acts_between f1 f2 ds" "\<not> list_ex is_transmission ds"
    "TxProperties_encode (rf_tx_properties (tx_duration e) t) = Some tb"
    using assms unfolding transmits_packet_def fw_after_def by blast
  have "\<not> list_ex is_transmission (cs @ ds)" using s(3,6) by simp
  then show ?thesis using s(1,2,7) acts_trans [OF s(4,5)] unfolding transmits_packet_def append_assoc append_Cons by blast
qed

lemma transmits_packet_before:
  assumes "transmits_packet env mac e seq f1 f2" "fw_after columns fw f1"
  shows "transmits_packet env mac e seq fw f2"
proof -
  obtain hb tb t bs cs ds where s: "ModelHeader_encode (rf_header seq (tx_data_rate e)) = Some hb" "\<not> list_ex is_transmission bs"
    "\<not> list_ex is_transmission cs" "acts_between f1 f2 (bs @ sent_call env mac e hb tb # cs)" "acts_between fw f1 ds" "\<not> list_ex is_transmission ds"
    "TxProperties_encode (rf_tx_properties (tx_duration e) t) = Some tb"
    using assms unfolding transmits_packet_def fw_after_def by blast
  have "\<not> list_ex is_transmission (ds @ bs)" using s(2,6) by simp
  then show ?thesis using s(1,3,7) acts_trans [OF s(5,4)] unfolding transmits_packet_def append_assoc [symmetric] by blast
qed

text \<open>A step from \<open>s\<close> to \<open>s'\<close> at the time \<open>now\<close> starts at most one transmission, after the end of the one before.\<close>

definition idle :: "RfState layer \<Rightarrow> RfState layer \<Rightarrow> bool" where
  "idle s s' \<longleftrightarrow> rf_sequence (fst s') = rf_sequence (fst s) \<and>
     rf_current_end_of_transmission (fst s') = rf_current_end_of_transmission (fst s) \<and>
     (\<exists>cs. acts_between (snd s) (snd s') cs \<and> \<not> list_ex is_transmission cs)"

text \<open>The queue with the packet that arrives, if one does: a full queue gives up its first packet for it.\<close>

definition line_with :: "PendingTx list \<Rightarrow> RfState \<Rightarrow> PendingTx list" where
  "line_with arrived state =
     drop (if arrived = [] then 0 else length (rf_queue state) - (QUEUE_CAPACITY - 1)) (rf_queue state) @ arrived"

definition paced :: "RfEnv \<Rightarrow> RfpipeMac \<Rightarrow> i64 \<Rightarrow> (PendingTx \<Rightarrow> bool) \<Rightarrow> RfState layer \<Rightarrow> RfState layer \<Rightarrow> bool" where
  "paced env mac now new s s' \<longleftrightarrow> idle s s' \<or>
     (\<exists>e arrived. list_all new arrived \<and> length arrived \<le> 1 \<and> line_with arrived (fst s) = e # rf_queue (fst s') \<and>
        entry_ok e \<and> sint (tx_ready_at e) \<le> sint now \<and> sint (rf_current_end_of_transmission (fst s)) \<le> sint now \<and>
        rf_sequence (fst s') = rf_sequence (fst s) + 1 \<and>
        rf_current_end_of_transmission (fst s') = i64_saturating_add now (tx_duration e) \<and>
        (length (re_encode env (tx_data_rate e)) < 2 ^ 16 \<longrightarrow> transmits_packet env mac e (rf_sequence (fst s)) (snd s) (snd s')))"

lemma sint_smax: "sint (smax a b) = max (sint a) (sint b)"
  by (simp add: smax_def)

lemma next_wakeup_after: "next_wakeup now state = Some w \<Longrightarrow> sint now \<le> sint w"
  by (auto simp: next_wakeup_def sint_smax split: list.splits)

text \<open>What \<open>drive_transmit\<close> does after the critical section.\<close>

definition announce :: "RfEnv \<Rightarrow> RfpipeMac \<Rightarrow> (PendingTx \<times> ModelHeader) option \<Rightarrow> RfState \<Rightarrow> Framework \<Rightarrow> Framework panics" where
  "announce env mac transmission state fw =
     (case transmission of
        None \<Rightarrow> Some fw
      | Some (pending, header) \<Rightarrow> do {
          fw \<leftarrow> rf_send_packet env mac (tx_packet pending) header (tx_duration pending) (tx_acquired_at pending) fw;
          if rf_flow_control_enable state then rf_send_flow_update mac (rf_available_tokens state) fw else Some fw })"

lemma drive_transmit_announce:
  assumes "rf_started state" "take_pending mac now (state, fw) = (transmission, (state', fw'))" "announce env mac transmission state' fw' = Some fw''"
  shows "drive_transmit env mac now (state, fw) =
    Some (case next_wakeup now state' of None \<Rightarrow> (state', fw'') | Some w \<Rightarrow> schedule_transmit env mac w (state', fw''))"
  using assms by (simp add: drive_transmit_def announce_def)

lemma announce_after:
  assumes "drop_rows_ok columns fw"
  shows "\<exists>fw'. announce env mac transmission state fw = Some fw' \<and> fw_grows columns fw fw'"
proof (cases transmission)
  case None
  then show ?thesis using assms fw_after_grows [OF fw_after_refl] by (simp add: announce_def)
next
  case (Some x)
  obtain pending header where x: "x = (pending, header)" by fastforce
  obtain f1 where f1: "rf_send_packet env mac (tx_packet pending) header (tx_duration pending) (tx_acquired_at pending) fw = Some f1" "fw_grows columns fw f1"
    using send_packet_after [OF assms] by blast
  obtain f2 where f2: "rf_send_flow_update mac (rf_available_tokens state) f1 = Some f2" "fw_after columns f1 f2"
    using send_flow_update_after [OF fw_grows_rows [OF f1(2)]] by blast
  show ?thesis
    using f1 f2 fw_grows_trans [OF f1(2) fw_after_grows [OF f2(2)]] by (cases "rf_flow_control_enable state") (simp_all add: announce_def Some x)
qed

lemma announce_acts:
  assumes "drop_rows_ok columns fw" "length (re_encode env (tx_data_rate e)) < 2 ^ 16"
    "announce env mac (Some (e, rf_header seq (tx_data_rate e))) state fw = Some fw'"
  shows "transmits_packet env mac e seq fw fw'"
proof -
  have len: "length (re_encode env (mh_data_rate_bps (rf_header seq (tx_data_rate e)))) < 2 ^ 16"
    using assms(2) by (simp add: rf_header_def)
  obtain hb where hb: "ModelHeader_encode (rf_header seq (tx_data_rate e)) = Some hb" by (simp add: ModelHeader_bytes)
  obtain f1 t tb where f1: "rf_send_packet env mac (tx_packet e) (rf_header seq (tx_data_rate e)) (tx_duration e) (tx_acquired_at e) fw = Some f1"
    "acts_between fw f1 ([] @ sent_call env mac e hb tb # [])" "TxProperties_encode (rf_tx_properties (tx_duration e) t) = Some tb"
    using send_packet_sends [OF len hb, of mac "tx_packet e" "tx_duration e" "tx_acquired_at e" fw] by (auto simp: rf_header_def sent_call_def)
  have sent: "transmits_packet env mac e seq fw f1"
    unfolding transmits_packet_def using hb f1(2,3) by (intro exI [of _ hb] exI [of _ tb] exI [of _ t] exI [of _ "[] :: FrameworkCall list"]) simp
  have rows: "drop_rows_ok columns f1" using send_packet_after [OF assms(1), of env mac "tx_packet e" "rf_header seq (tx_data_rate e)" "tx_duration e" "tx_acquired_at e"]
    f1(1) fw_grows_rows by auto
  show ?thesis
  proof (cases "rf_flow_control_enable state")
    case True
    then have "rf_send_flow_update mac (rf_available_tokens state) f1 = Some fw'" using assms(3) f1(1) by (simp add: announce_def)
    then have "fw_after columns f1 fw'" using send_flow_update_after [OF rows, of mac "rf_available_tokens state"] by simp
    then show ?thesis by (rule transmits_packet_after [OF sent])
  next
    case False
    then show ?thesis using sent assms(3) f1(1) by (simp add: announce_def)
  qed
qed

lemma paced_after:
  assumes "paced env mac now new s (s1, f1)" "fw_after columns f1 f2" "rf_sequence s2 = rf_sequence s1" "rf_queue s2 = rf_queue s1"
    "rf_current_end_of_transmission s2 = rf_current_end_of_transmission s1"
  shows "paced env mac now new s (s2, f2)"
proof -
  have "idle s (s2, f2)" if i: "idle s (s1, f1)"
  proof -
    obtain cs ds where c: "acts_between (snd s) f1 cs" "\<not> list_ex is_transmission cs" "acts_between f1 f2 ds" "\<not> list_ex is_transmission ds"
      using i assms(2) by (auto simp: idle_def fw_after_def)
    have "\<not> list_ex is_transmission (cs @ ds)" using c(2,4) by simp
    then show ?thesis using i acts_trans [OF c(1,3)] assms(3,5) by (auto simp: idle_def)
  qed
  then show ?thesis using assms transmits_packet_after [OF _ assms(2)] unfolding paced_def fst_conv snd_conv by metis
qed

lemma drive_transmit_ok:
  assumes "rf_core k columns mac (state, fw)" "0 < sint now"
  shows "\<exists>s'. drive_transmit env mac now (state, fw) = Some s' \<and> rf_inv k columns mac s' \<and> paced env mac now new (state, fw) s'"
proof (cases "rf_started state")
  case False
  then have "armed state" using assms(1) by (simp add: rf_core_def queue_ok_def armed_def)
  then show ?thesis using False assms(1) by (auto simp: drive_transmit_def rf_inv_def paced_def idle_def intro: exI [of _ "[]"])
next
  case True
  obtain transmission s1 f1 where t: "take_pending mac now (state, fw) = (transmission, (s1, f1))" by (metis prod.exhaust)
  note c = take_pending_cases [OF assms(1) True t]
  then have core: "rf_core k columns mac (s1, f1)" and st: "rf_started s1" by simp_all
  obtain f2 where f2: "announce env mac transmission s1 f1 = Some f2" "fw_grows columns f1 f2"
    using announce_after core unfolding rf_core_def by (metis snd_conv)
  have core2: "rf_core k columns mac (s1, f2)"
    using core timer_ok_grows [OF _ f2(2), of k mac s1 s1] fw_grows_rows [OF f2(2)] by (simp add: rf_core_def)
  have pace: "paced env mac now new (state, fw) (s1, f2)"
  proof (cases transmission)
    case None
    then show ?thesis using c f2(1) by (auto simp: paced_def idle_def announce_def intro: exI [of _ "[]"])
  next
    case (Some x)
    obtain e where x: "x = (e, rf_header (rf_sequence state) (tx_data_rate e))" using c Some by (auto split: prod.splits)
    have "transmits_packet env mac e (rf_sequence state) fw f2" if "length (re_encode env (tx_data_rate e)) < 2 ^ 16"
      using announce_acts [OF _ that, of columns f1] f2(1) c core Some x transmits_packet_before unfolding rf_core_def snd_conv by blast
    moreover have "entry_ok e" using c assms(1) Some x by (auto simp: rf_core_def queue_ok_def)
    moreover have "line_with [] state = e # rf_queue s1" using c Some x by (simp add: line_with_def)
    ultimately show ?thesis using c Some x unfolding paced_def by (intro disjI2 exI [of _ e] exI [of _ "[]"]) auto
  qed
  show ?thesis
  proof (cases "next_wakeup now s1")
    case None
    then have "rf_queue s1 = []" by (simp add: next_wakeup_def split: list.splits)
    then show ?thesis using drive_transmit_announce [OF True t f2(1)] None core2 pace by (simp add: rf_inv_def armed_def)
  next
    case (Some w)
    then have "0 < sint w" using next_wakeup_after assms(2) by fastforce
    from schedule_transmit_ok [OF core2 st this, of env] obtain s3 f3 where s3:
      "schedule_transmit env mac w (s1, f2) = (s3, f3)" "rf_core k columns mac (s3, f3)" "rf_next_transmit_wakeup s3 \<noteq> 0"
      "rf_sequence s3 = rf_sequence s1" "rf_queue s3 = rf_queue s1" "rf_current_end_of_transmission s3 = rf_current_end_of_transmission s1"
      "fw_after columns f2 f3" by metis
    have "paced env mac now new (state, fw) (s3, f3)" by (rule paced_after [OF pace s3(7,4,5,6)])
    then show ?thesis using drive_transmit_announce [OF True t f2(1)] Some s3(1-3) by (simp add: rf_inv_def armed_def)
  qed
qed

text \<open>A packet whose time has come is sent.\<close>

lemma drive_transmit_sends:
  assumes "rf_core k columns mac (state, fw)" "rf_started state" "rf_queue state = e # rest"
    and "sint (tx_ready_at e) \<le> sint now" "sint (rf_current_end_of_transmission state) \<le> sint now"
    and "length (re_encode env (tx_data_rate e)) < 2 ^ 16" "drive_transmit env mac now (state, fw) = Some (state', fw')"
  shows "rf_queue state' = rest \<and> transmits_packet env mac e (rf_sequence state) fw fw'"
proof -
  obtain transmission s1 f1 where t: "take_pending mac now (state, fw) = (transmission, (s1, f1))" by (metis prod.exhaust)
  note c = take_pending_cases [OF assms(1,2) t]
  have tr: "transmission = Some (e, rf_header (rf_sequence state) (tx_data_rate e))" and q: "rf_queue s1 = rest"
    using c assms(3-5) by (auto split: option.splits prod.splits)
  obtain f2 where f2: "announce env mac transmission s1 f1 = Some f2" using announce_after c unfolding rf_core_def by (metis snd_conv)
  have sent: "transmits_packet env mac e (rf_sequence state) fw f2"
    using announce_acts [OF _ assms(6), of columns f1] f2 c tr transmits_packet_before unfolding rf_core_def snd_conv by blast
  note d = drive_transmit_announce [OF assms(2) t f2]
  have same: "rf_queue (fst (schedule_transmit env mac w (s1, f2))) = rest" for w
    using q by (simp add: schedule_transmit_def case_prod_unfold Let_def)
  show ?thesis
  proof (cases "next_wakeup now s1")
    case None
    then show ?thesis using d assms(7) q sent by simp
  next
    case (Some w)
    have core2: "rf_core k columns mac (s1, f2)" using c announce_after [of columns f1 env mac transmission s1] f2
      timer_ok_grows [of k mac s1 f1 columns f2 s1] fw_grows_rows by (auto simp: rf_core_def)
    have "fw_after columns f2 (snd (schedule_transmit env mac w (s1, f2)))"
      using fw_after_schedule core2 by (auto simp: schedule_transmit_def case_prod_unfold Let_def rf_core_def)
    then have "transmits_packet env mac e (rf_sequence state) fw (snd (schedule_transmit env mac w (s1, f2)))"
      by (rule transmits_packet_after [OF sent])
    moreover have "schedule_transmit env mac w (s1, f2) = (state', fw')" using d assms(7) Some by simp
    ultimately show ?thesis using same [of w] by simp
  qed
qed

text \<open>A packet whose time has not come stays, and the next wake-up is at its time.\<close>

lemma drive_transmit_waits:
  assumes "rf_started state" "rf_queue state = e # rest" "rf_next_transmit_wakeup state = 0"
    and "\<not> (sint (tx_ready_at e) \<le> sint now \<and> sint (rf_current_end_of_transmission state) \<le> sint now)"
    and "drive_transmit env mac now (state, fw) = Some (state', fw')"
  shows "rf_queue state' = e # rest \<and>
    rf_next_transmit_wakeup state' = smax (smax (tx_ready_at e) (rf_current_end_of_transmission state)) now"
proof -
  have "take_pending mac now (state, fw) = (None, (state, fw))" using assms(2,4) by (auto simp: take_pending_def)
  then have "(state', fw') = schedule_transmit env mac (smax (smax (tx_ready_at e) (rf_current_end_of_transmission state)) now) (state, fw)"
    using drive_transmit_announce [OF assms(1), of mac now fw None state fw env fw] assms(2,5) by (simp add: announce_def next_wakeup_def)
  then show ?thesis using assms(1-3) by (simp add: schedule_transmit_def case_prod_unfold Let_def)
qed

section \<open>Queueing\<close>

lemma rf_jitter_fields:
  assumes "rf_jitter state = (j, state')"
  shows "queue_ok state' = queue_ok state" "rf_queue state' = rf_queue state" "rf_started state' = rf_started state"
    "rf_next_transmit_wakeup state' = rf_next_transmit_wakeup state" "rf_sequence state' = rf_sequence state"
    "rf_current_end_of_transmission state' = rf_current_end_of_transmission state" "rf_data_rate_bps state' = rf_data_rate_bps state"
    "rf_delay_microseconds state' = rf_delay_microseconds state" "rf_available_tokens state' = rf_available_tokens state"
    "rf_flow_control_enable state' = rf_flow_control_enable state" "rf_flow_control_tokens state' = rf_flow_control_tokens state"
  using assms by (auto simp: rf_jitter_def rf_random_unit_def queue_ok_def Let_def split: if_splits)

text \<open>The part of the invariant the queue does not matter for, with the packet that has its token already.\<close>

definition room_ok :: "RfState \<Rightarrow> PendingTx list \<Rightarrow> bool" where
  "room_ok state queue \<longleftrightarrow> rf_data_rate_bps state \<noteq> 0 \<and> rf_started state \<and> list_all entry_ok queue \<and>
     (rf_flow_control_enable state \<longrightarrow> unat (rf_available_tokens state) + Suc (length queue) = unat (rf_flow_control_tokens state))"

definition same_line :: "RfState \<Rightarrow> RfState \<Rightarrow> bool" where
  "same_line state state' \<longleftrightarrow> rf_next_transmit_wakeup state' = rf_next_transmit_wakeup state \<and> rf_sequence state' = rf_sequence state \<and>
     rf_current_end_of_transmission state' = rf_current_end_of_transmission state"

lemma rf_make_room_ok:
  assumes "room_ok state queue" "drop_rows_ok columns fw" "columns_agree columns (rm_counters mac)" "length queue \<le> QUEUE_CAPACITY"
  shows "\<exists>state' fw'. rf_make_room env mac queue (state, fw) = Some (state', fw') \<and> fw_after columns fw fw' \<and>
    room_ok state' (rf_queue state') \<and> length (rf_queue state') < QUEUE_CAPACITY \<and> same_line state state' \<and>
    rf_queue state' = drop (length queue - (QUEUE_CAPACITY - 1)) queue \<and> rf_data_rate_bps state' = rf_data_rate_bps state"
  using assms
proof (induction queue arbitrary: state fw)
  case Nil
  then show ?case by (simp add: room_ok_def same_line_def QUEUE_CAPACITY_def)
next
  case (Cons e rest)
  show ?case
  proof (cases "length (e # rest) \<ge> QUEUE_CAPACITY")
    case False
    then show ?thesis using Cons.prems by (simp add: room_ok_def same_line_def)
  next
    case True
    define s1 where "s1 = rf_credit_token (state\<lparr>rf_queue_discards := saturating_add (rf_queue_discards state) 1\<rparr>)"
    obtain f1 where f1: "downstream_drop_packet (re_api env) (rm_counters mac) (pi_source (op_info (tx_packet e)))
        (pi_destination (op_info (tx_packet e))) 4 fw = Some f1" "fw_after columns fw f1"
      using fw_after_drop(2) [OF Cons.prems(2,3)] by blast
    have r: "room_ok s1 rest" using Cons.prems(1) credit_conserves [of "state\<lparr>rf_queue_discards := saturating_add (rf_queue_discards state) 1\<rparr>" "Suc (length rest)"]
      by (simp add: room_ok_def s1_def)
    have line: "same_line state s1" by (simp add: same_line_def s1_def)
    obtain state' fw' where s: "rf_make_room env mac rest (s1, f1) = Some (state', fw')" "fw_after columns f1 fw'"
      "room_ok state' (rf_queue state')" "length (rf_queue state') < QUEUE_CAPACITY" "same_line s1 state'"
      "rf_queue state' = drop (length rest - (QUEUE_CAPACITY - 1)) rest" "rf_data_rate_bps state' = rf_data_rate_bps s1"
      using Cons.IH [OF r fw_after_rows [OF f1(2)] Cons.prems(3)] Cons.prems(4) by auto
    have run: "rf_make_room env mac (e # rest) (state, fw) = Some (state', fw')"
      using True f1(1) s(1) by (simp add: s1_def Let_def)
    have "same_line state state'" using line s(5) by (simp add: same_line_def)
    moreover have "rf_queue state' = drop (length (e # rest) - (QUEUE_CAPACITY - 1)) (e # rest)"
      using s(6) True Cons.prems(4) by (simp add: QUEUE_CAPACITY_def)
    moreover have "rf_data_rate_bps s1 = rf_data_rate_bps state" by (simp add: s1_def)
    ultimately show ?thesis unfolding run using s(3,4,7) fw_after_trans [OF f1(2) s(2)] by simp
  qed
qed

text \<open>The entry of a packet that arrives: it was acquired now, is not ready before, and is to be sent at the data rate of
  the configuration.\<close>

definition new_entry :: "i64 \<Rightarrow> RfPacket \<Rightarrow> RfState \<Rightarrow> PendingTx \<Rightarrow> bool" where
  "new_entry now packet state e \<longleftrightarrow> tx_packet e = packet \<and> tx_acquired_at e = now \<and> sint now \<le> sint (tx_ready_at e) \<and>
     tx_data_rate e = rf_data_rate_bps state"

lemma rf_enqueue_ok:
  assumes core: "rf_core k columns mac (state, fw)" and st: "rf_started state" and agree: "columns_agree columns (rm_counters mac)"
    and tokens: "rf_flow_control_enable state \<longrightarrow> rf_available_tokens state \<noteq> 0" and len: "length (op_payload packet) \<le> 64 * 1024 * 1024"
  shows "\<exists>r state' fw'. rf_enqueue env mac now packet (state, fw) = Some (r, (state', fw')) \<and> rf_core k columns mac (state', fw') \<and>
    same_line state state' \<and> rf_started state' \<and> sint now \<le> sint r \<and> fw_after columns fw fw' \<and>
    (\<exists>e. new_entry now packet state e \<and> rf_queue state' = line_with [e] state)"
proof -
  define s0 where "s0 = (if rf_flow_control_enable state then state\<lparr>rf_available_tokens := rf_available_tokens state - 1\<rparr> else state)"
  obtain j s1 where j: "rf_jitter s0 = (j, s1)" by fastforce
  have q: "queue_ok state" and rows: "drop_rows_ok columns fw" using core by (simp_all add: rf_core_def)
  have "unat (rf_available_tokens state - 1) + 1 = unat (rf_available_tokens state)" if "rf_available_tokens state \<noteq> 0"
    using that by (simp add: unat_minus_one unat_gt_0)
  then have room: "room_ok s1 (rf_queue s1)"
    using q st tokens by (auto simp: queue_ok_def room_ok_def rf_jitter_fields [OF j] s0_def)
  have "length (rf_queue s1) \<le> QUEUE_CAPACITY" using q by (simp add: queue_ok_def rf_jitter_fields [OF j] s0_def)
  from rf_make_room_ok [OF room rows agree this, of env] obtain s2 f2 where
    m: "rf_make_room env mac (rf_queue s1) (s1, fw) = Some (s2, f2)" "fw_after columns fw f2" "room_ok s2 (rf_queue s2)"
    "length (rf_queue s2) < QUEUE_CAPACITY" "same_line s1 s2" "rf_queue s2 = drop (length (rf_queue s1) - (QUEUE_CAPACITY - 1)) (rf_queue s1)" by blast
  define ready where "ready = smax (i64_saturating_add (i64_saturating_add now (rf_delay_microseconds s1)) j) now"
  define e where "e = \<lparr>tx_packet = packet, tx_acquired_at = now, tx_ready_at = ready,
    tx_duration = max (duration_microseconds (length (op_payload packet)) (rf_data_rate_bps state)) 1, tx_data_rate = rf_data_rate_bps state\<rparr>"
  define s3 where "s3 = s2\<lparr>rf_queue := rf_queue s2 @ [e]\<rparr>"
  define f3 where "f3 = fw_call (MaximizeCounter (rm_queue_high_water_counter mac) (word_of_nat (length (rf_queue s3)))) f2"
  have rate: "rf_data_rate_bps s0 = rf_data_rate_bps state" by (simp add: s0_def)
  have run: "rf_enqueue env mac now packet (state, fw) = Some (smax (smax ready (rf_current_end_of_transmission s3)) now, (s3, f3))"
    unfolding rf_enqueue_def prod.case s0_def [symmetric] Let_def j rate
    using m(1) by (simp add: s3_def f3_def e_def ready_def rf_jitter_fields [OF j])
  have "queue_ok s3" using m(3,4) q len by (simp add: s3_def queue_ok_def room_ok_def e_def entry_ok_def)
  moreover have line: "same_line state s3" using m(5) by (simp add: same_line_def s3_def rf_jitter_fields [OF j] s0_def)
  moreover have after: "fw_after columns fw f3" using fw_after_trans [OF m(2) fw_after_call [OF fw_after_rows [OF m(2)]]] by (simp add: f3_def)
  ultimately have "rf_core k columns mac (s3, f3)"
    using timer_ok_after [OF _ after, of k mac state s3] core fw_after_rows [OF after] by (simp add: rf_core_def same_line_def)
  moreover have "rf_started s3" using m(3) by (simp add: s3_def room_ok_def)
  moreover have "new_entry now packet state e" by (simp add: new_entry_def e_def ready_def sint_smax)
  moreover have "rf_queue s1 = rf_queue state" by (simp add: rf_jitter_fields [OF j] s0_def)
  then have "rf_queue s3 = line_with [e] state" using m(6) by (simp add: s3_def line_with_def)
  ultimately show ?thesis using run line after by (auto simp: sint_smax)
qed

text \<open>Calls before the transmission, and calls without one.\<close>

lemma paced_before:
  assumes "paced env mac now (\<lambda>_. False) (s1, f1) s'" "fw_after columns fw f1" "same_line state s1"
    and "rf_queue s1 = line_with arrived state" "list_all new arrived" "length arrived \<le> 1"
  shows "paced env mac now new (state, fw) s'"
proof -
  have "idle (state, fw) s'" if i: "idle (s1, f1) s'"
  proof -
    obtain cs ds where c: "acts_between fw f1 cs" "\<not> list_ex is_transmission cs" "acts_between f1 (snd s') ds" "\<not> list_ex is_transmission ds"
      using i assms(2) by (auto simp: idle_def fw_after_def)
    have "\<not> list_ex is_transmission (cs @ ds)" using c(2,4) by simp
    then show ?thesis using i acts_trans [OF c(1,3)] assms(3) by (auto simp: idle_def same_line_def)
  qed
  moreover have "paced env mac now new (state, fw) s'" if busy: "\<not> idle (s1, f1) s'"
  proof -
    obtain e none where e: "list_all (\<lambda>_. False) none" "line_with none s1 = e # rf_queue (fst s')" "entry_ok e" "sint (tx_ready_at e) \<le> sint now"
        "sint (rf_current_end_of_transmission s1) \<le> sint now" "rf_sequence (fst s') = rf_sequence s1 + 1"
        "rf_current_end_of_transmission (fst s') = i64_saturating_add now (tx_duration e)"
        "length (re_encode env (tx_data_rate e)) < 2 ^ 16 \<longrightarrow> transmits_packet env mac e (rf_sequence s1) f1 (snd s')"
      using assms(1) busy unfolding paced_def fst_conv snd_conv by blast
    have "none = []" using e(1) by (cases none) simp_all
    then have "rf_queue s1 = e # rf_queue (fst s')" using e(2) by (simp add: line_with_def)
    then show ?thesis
      unfolding paced_def using e(3-) assms(3-6) transmits_packet_before [OF _ assms(2), of env mac e "rf_sequence s1" "snd s'"]
      by (intro disjI2 exI [of _ e] exI [of _ arrived]) (simp add: same_line_def)
  qed
  ultimately show ?thesis by (auto simp: paced_def)
qed

lemma idle_inv:
  assumes "rf_inv k columns mac (state, fw)" "fw_after columns fw fw'"
  shows "rf_inv k columns mac (state, fw') \<and> paced env mac now new (state, fw) (state, fw')"
  using assms timer_ok_after [OF _ assms(2), of k mac state state] fw_after_rows [OF assms(2)]
  by (auto simp: rf_inv_def rf_core_def paced_def idle_def fw_after_def)

lemma own_control_returns: "valid_slice (fcm_payload m) \<Longrightarrow> own_control m \<noteq> None"
  using valid_slice_readable [of "fcm_payload m"] by (auto simp: own_control_def readable_def)

lemma own_packet_source:
  assumes "rf_own_packet (Some q) messages = Some (Some packet)"
  shows "op_info packet = fp_info q" "length (op_payload packet) = fs_len (fp_payload q)"
  using assms by (auto simp: rf_own_packet_def slice_contents_def raw_parts_def split: if_splits option.splits bind_splits)

text \<open>The clock as a call reads it, and the packet it puts into the queue.\<close>

fun rf_clock :: "RfEnv \<Rightarrow> RfpipeMac \<Rightarrow> RfAction \<Rightarrow> Framework \<Rightarrow> i64" where
  "rf_clock env mac (RfDownstream (Some p) ms) fw = now_microseconds (re_api env)
     (downstream_rx_packet (rm_counters mac) (pi_source (fp_info p)) (pi_destination (fp_info p)) (fs_len (fp_payload p)) fw)"
| "rf_clock env mac _ fw = now_microseconds (re_api env) fw"

fun arrives :: "RfEnv \<Rightarrow> RfpipeMac \<Rightarrow> RfAction \<Rightarrow> RfState layer \<Rightarrow> PendingTx \<Rightarrow> bool" where
  "arrives env mac (RfDownstream p ms) s e \<longleftrightarrow>
     rf_own_packet p ms = Some (Some (tx_packet e)) \<and> new_entry (rf_clock env mac (RfDownstream p ms) (snd s)) (tx_packet e) (fst s) e"
| "arrives env mac _ s e \<longleftrightarrow> False"

lemma own_packet_ok:
  assumes "shim_packet_ok p" "messages_ok messages"
  obtains owned where "rf_own_packet p messages = Some owned"
    "\<And>packet. owned = Some packet \<Longrightarrow> length (op_payload packet) \<le> 64 * 1024 * 1024"
proof (cases p)
  case None
  then show ?thesis using that by (simp add: rf_own_packet_def)
next
  case (Some q)
  have "\<exists>r. rf_own_packet p messages = Some r"
  proof (cases "(fs_len (fp_payload q) \<noteq> 0 \<and> fs_data (fp_payload q) = None) \<or> fs_len (fp_payload q) > 64 * 1024 * 1024 \<or> controls messages = None")
    case True
    then show ?thesis using Some assms(1) valid_slice_readable [of "fp_payload q"]
      by (cases "(fs_len (fp_payload q) \<noteq> 0 \<and> fs_data (fp_payload q) = None) \<or> fs_len (fp_payload q) > 64 * 1024 * 1024")
         (auto simp: rf_own_packet_def shim_packet_ok_def readable_def)
  next
    case False
    then obtain ms b where m: "controls messages = Some ms" "slice_contents (fp_payload q) = Some b"
      using Some assms(1) valid_slice_readable [of "fp_payload q"] by (auto simp: shim_packet_ok_def readable_def)
    have "\<exists>r. own_control x = Some r" if "x \<in> set ms" for x
      using messages_ok_controls [OF assms(2) m(1)] that own_control_returns by (auto simp: messages_readable_def list_all_iff)
    then obtain cs where "collect_option own_control ms = Some cs" using collect_option_total [of ms own_control] by blast
    then show ?thesis using False m Some by (auto simp: rf_own_packet_def)
  qed
  moreover have "length (op_payload packet) \<le> 64 * 1024 * 1024" if "rf_own_packet p messages = Some (Some packet)" for packet
    using that Some by (auto simp: rf_own_packet_def slice_contents_def raw_parts_def split: if_splits option.splits bind_splits)
  ultimately show ?thesis using that by blast
qed

lemma rf_downstream_ok:
  assumes inv: "rf_inv k columns mac (state, fw)" and agree: "columns_agree columns (rm_counters mac)" and clock: "clock_runs env"
    and ok: "shim_packet_ok p" "messages_ok messages"
  shows "\<exists>s'. rf_downstream env mac p messages (state, fw) = Some s' \<and> rf_inv k columns mac s' \<and>
    paced env mac (rf_clock env mac (RfDownstream p messages) fw) (arrives env mac (RfDownstream p messages) (state, fw)) (state, fw) s'"
proof (cases p)
  case None
  then show ?thesis using idle_inv [OF inv fw_after_call] inv by (simp add: rf_downstream_def rf_inv_def rf_core_def)
next
  case (Some q)
  obtain owned where owned: "rf_own_packet p messages = Some owned" "\<And>packet. owned = Some packet \<Longrightarrow> length (op_payload packet) \<le> 64 * 1024 * 1024"
    using own_packet_ok [OF ok] by blast
  show ?thesis
  proof (cases owned)
    case None
    then show ?thesis using idle_inv [OF inv fw_after_refl] inv owned(1) Some by (simp add: rf_downstream_def rf_inv_def rf_core_def)
  next
    case packet: (Some packet)
    define f1 where "f1 = downstream_rx_packet (rm_counters mac) (pi_source (op_info packet)) (pi_destination (op_info packet)) (length (op_payload packet)) fw"
    define now where "now = now_microseconds (re_api env) f1"
    have rows: "drop_rows_ok columns fw" using inv by (simp add: rf_inv_def rf_core_def)
    have a1: "fw_after columns fw f1" unfolding f1_def by (rule fw_after_counting(2) [OF rows])
    have core: "rf_core k columns mac (state, f1)"
      using inv timer_ok_after [OF _ a1, of k mac state state] fw_after_rows [OF a1] by (simp add: rf_inv_def rf_core_def)
    have pos: "0 < sint now" unfolding now_def by (rule now_positive [OF clock])
    note src = own_packet_source [OF owned(1) [unfolded Some packet]]
    have time: "rf_clock env mac (RfDownstream p messages) fw = now" by (simp add: Some now_def f1_def src)
    show ?thesis
    proof (cases "\<not> rf_started state \<or> (rf_flow_control_enable state \<and> rf_available_tokens state = 0)")
      case True
      obtain f2 where f2: "downstream_drop_packet (re_api env) (rm_counters mac) (pi_source (op_info packet)) (pi_destination (op_info packet)) 7 f1 = Some f2"
        "fw_after columns f1 f2" using fw_after_drop(2) [OF fw_after_rows [OF a1] agree] by blast
      have "rf_downstream env mac p messages (state, fw) = Some (state, f2)"
        using True owned(1) packet Some f2(1) by (simp add: rf_downstream_def f1_def [symmetric])
      then show ?thesis using idle_inv [OF inv fw_after_trans [OF a1 f2(2)]] by simp
    next
      case False
      obtain r s2 f2 where e: "rf_enqueue env mac now packet (state, f1) = Some (r, (s2, f2))" "rf_core k columns mac (s2, f2)"
        "same_line state s2" "rf_started s2" "sint now \<le> sint r" "fw_after columns f1 f2"
        "\<exists>e. new_entry now packet state e \<and> rf_queue s2 = line_with [e] state"
        using rf_enqueue_ok [OF core _ agree _ owned(2) [OF packet], of env now] False by blast
      define f3 where "f3 = fw_call (UpdateQueueMetric 0 (word_of_nat QUEUE_CAPACITY) (u32_or_max (length (rf_queue s2))) (rf_queue_discards s2) 0) f2"
      have a3: "fw_after columns f2 f3" unfolding f3_def using e(2) by (simp add: rf_core_def fw_after_call)
      then have core3: "rf_core k columns mac (s2, f3)"
        using e(2) timer_ok_after [of k mac s2 f2 columns f3 s2] fw_after_rows by (simp add: rf_core_def)
      have run: "rf_downstream env mac p messages (state, fw) =
          (if sint r \<le> sint now then drive_transmit env mac now (s2, f3) else Some (schedule_transmit env mac r (s2, f3)))"
        using False owned(1) packet Some e(1) by (auto simp: rf_downstream_def f1_def [symmetric] now_def [symmetric] f3_def)
      have a4: "fw_after columns fw f3" by (rule fw_after_trans [OF a1 fw_after_trans [OF e(6) a3]])
      obtain x where x: "new_entry now packet state x" "rf_queue s2 = line_with [x] state" using e(7) by blast
      have new: "list_all (arrives env mac (RfDownstream p messages) (state, fw)) [x]" "length [x] \<le> 1"
        using x(1) owned(1) packet by (simp_all add: time new_entry_def)
      show ?thesis
      proof (cases "sint r \<le> sint now")
        case True
        obtain s' where s': "drive_transmit env mac now (s2, f3) = Some s'" "rf_inv k columns mac s'" "paced env mac now (\<lambda>_. False) (s2, f3) s'"
          using drive_transmit_ok [OF core3 pos, of env] by blast
        then show ?thesis using run True paced_before [OF s'(3) a4 e(3) x(2) new] unfolding time by simp
      next
        case False
        have "0 < sint r" using e(5) pos by linarith
        from schedule_transmit_ok [OF core3 e(4) this, of env] obtain s4 f4 where s4:
          "schedule_transmit env mac r (s2, f3) = (s4, f4)" "rf_core k columns mac (s4, f4)" "rf_next_transmit_wakeup s4 \<noteq> 0"
          "rf_sequence s4 = rf_sequence s2" "rf_current_end_of_transmission s4 = rf_current_end_of_transmission s2" "fw_after columns f3 f4" by metis
        have "paced env mac now (arrives env mac (RfDownstream p messages) (state, fw)) (state, fw) (s4, f4)"
          using fw_after_trans [OF a4 s4(6)] s4(4,5) e(3) by (auto simp: paced_def idle_def fw_after_def same_line_def)
        then show ?thesis using run False s4(1-3) unfolding time by (auto simp: rf_inv_def armed_def)
      qed
    qed
  qed
qed

section \<open>Receiving and the other calls\<close>

text \<open>A call that leaves the sending side alone.\<close>

definition still :: "RfState \<Rightarrow> RfState \<Rightarrow> bool" where
  "still state state' \<longleftrightarrow> queue_ok state' = queue_ok state \<and> rf_queue state' = rf_queue state \<and> same_line state state' \<and>
     rf_started state' = rf_started state"

lemma still_refl [simp]: "still state state"
  by (simp add: still_def same_line_def)

lemma still_trans: "still a b \<Longrightarrow> still b c \<Longrightarrow> still a c"
  by (simp add: still_def same_line_def)

lemma still_add_timer [simp]: "still state (rf_add_timer t state') = still state state'"
  by (simp add: still_def same_line_def)

lemma still_inv:
  assumes "rf_inv k columns mac (state, fw)" "still state state'" "fw_after columns fw fw'"
  shows "rf_inv k columns mac (state', fw') \<and> paced env mac now new (state, fw) (state', fw')"
  using assms timer_ok_after [OF _ assms(3), of k mac state state'] fw_after_rows [OF assms(3)]
  by (auto simp: rf_inv_def rf_core_def still_def same_line_def armed_def paced_def idle_def fw_after_def)

lemma find_sized_returns:
  "messages_readable ms \<Longrightarrow> (\<And>d. decode d \<noteq> None) \<Longrightarrow> find_sized decode kind len ms \<noteq> None"
proof (induction ms)
  case (Cons m ms)
  have rest: "find_sized decode kind len ms \<noteq> None" using Cons by (simp add: messages_readable_def)
  show ?case
  proof (cases "fcm_msg_type m = kind \<and> fs_len (fcm_payload m) = len \<and> fs_data (fcm_payload m) \<noteq> None")
    case True
    then obtain d where d: "slice_contents (fcm_payload m) = Some d"
      using Cons.prems(1) valid_slice_data_readable [of "fcm_payload m"] by (auto simp: messages_readable_def readable_def)
    obtain x where "decode d = Some x" using Cons.prems(2) by blast
    then show ?thesis using True d rest by (cases x) simp_all
  qed (use rest in auto)
qed simp

lemma find_header_returns: "messages_readable ms \<Longrightarrow> \<exists>h. find_header ms = Some h"
  using find_sized_returns [of ms ModelHeader_decode] model_header.decode_no_panic by (fastforce simp: find_header_def)

lemma find_rx_properties_returns: "messages_readable ms \<Longrightarrow> \<exists>h. find_rx_properties ms = Some h"
  using find_sized_returns [of ms RxProperties_decode] rx_properties.decode_no_panic by (fastforce simp: find_rx_properties_def)

lemma strip_mac_header_returns: "\<exists>r. strip_mac_header env payload = Some r"
  by (auto simp: strip_mac_header_def Let_def split: option.splits)

lemma rf_random_unit_still: "still state (snd (rf_random_unit state))"
  unfolding rf_random_unit_def Let_def snd_conv by (simp add: still_def same_line_def queue_ok_def)

lemma rf_accepts_still: "rf_accepts env mac rx packet state = (a, b, state') \<Longrightarrow> still state state'"
  using rf_random_unit_still [of state] by (simp add: rf_accepts_def case_prod_unfold Let_def)

lemma rf_hold_still:
  assumes "drop_rows_ok columns fw" "rf_hold env mac rx reception (state, fw) = (state', fw')"
  shows "still state state' \<and> fw_after columns fw fw'"
proof -
  define i where "i = max (rf_next_reception_id state + 1) 1"
  define w where "w = i64_saturating_add (now_microseconds (re_api env) fw) (rxp_duration_microseconds rx)"
  define s1 where "s1 = state\<lparr>rf_next_reception_id := i, rf_pending_receptions := (rf_pending_receptions state)(i \<mapsto> reception)\<rparr>"
  obtain timer f1 where f1: "rf_schedule env mac w EVENT_RECEIVE (be_bytes 8 i) fw = (timer, f1)" by fastforce
  have a: "fw_after columns fw f1" using fw_after_schedule [OF assms(1), of env mac w EVENT_RECEIVE "be_bytes 8 i"] f1 by simp
  have st: "still state s1" "still state (s1\<lparr>rf_pending_receptions := m\<rparr>)" for m
    by (simp_all add: still_def same_line_def queue_ok_def s1_def)
  have r: "(state', fw') = (if timer = 0 then (s1\<lparr>rf_pending_receptions := (rf_pending_receptions s1)(i := None)\<rparr>, rf_send_upstream env mac reception f1)
      else (rf_add_timer timer s1, f1))"
    using assms(2) unfolding rf_hold_def prod.case Let_def i_def [symmetric] w_def [symmetric] s1_def [symmetric] f1 by simp
  show ?thesis
    using r st a fw_after_trans [OF a send_upstream_after [OF fw_after_rows [OF a]]] by (cases "timer = 0") auto
qed

lemma rf_receive_still:
  assumes "drop_rows_ok columns fw" "columns_agree columns (rm_counters mac)"
  shows "\<exists>state' fw'. rf_receive env mac header rx rate reception (state, fw) = Some (state', fw') \<and> still state state' \<and> fw_after columns fw fw'"
proof -
  define info where "info = op_info (fst reception)"
  define f1 where "f1 = fw_call (UpdateNeighborRx (pi_source info) (mh_sequence header) (rf_sinr rx) (rxp_noise_floor_dbm rx)
       (nonneg (now_microseconds (re_api env) fw)) (rxp_duration_microseconds rx) rate) fw"
  define f2 where "f2 = fw_call (UpdateRfSignalTable (rf_signal_table_handle state) (pi_source info) 0 (rxp_frequency_hz rx) (rxp_rx_power_dbm rx)
       (rf_sinr rx) (rxp_noise_floor_dbm rx) (receiver_sensitivity env rx)) f1"
  have a2: "fw_after columns fw f2"
    unfolding f2_def f1_def by (rule fw_after_trans [OF fw_after_call fw_after_call]) (use assms in simp_all)
  obtain por dst s1 where acc: "rf_accepts env mac rx (fst reception) state = (por, dst, s1)" by (metis prod.exhaust)
  note st = rf_accepts_still [OF acc]
  show ?thesis
  proof (cases "\<not> por \<or> \<not> dst")
    case True
    obtain f3 where f3: "upstream_drop_packet (re_api env) (rm_counters mac) (pi_source info) (pi_destination info) (if por then 3 else 1) f2 = Some f3"
      "fw_after columns f2 f3" using fw_after_drop(1) [OF fw_after_rows [OF a2] assms(2)] by blast
    have "rf_receive env mac header rx rate reception (state, fw) = Some (s1, f3)"
      using True f3(1) acc by (auto simp: rf_receive_def Let_def info_def [symmetric] f1_def [symmetric] f2_def [symmetric])
    then show ?thesis using st fw_after_trans [OF a2 f3(2)] by blast
  next
    case False
    obtain s3 f3 where h: "rf_hold env mac rx reception (s1, f2) = (s3, f3)" by fastforce
    have "rf_receive env mac header rx rate reception (state, fw) = Some (s3, f3)"
      using False h acc by (simp add: rf_receive_def Let_def info_def [symmetric] f1_def [symmetric] f2_def [symmetric])
    then show ?thesis using rf_hold_still [OF fw_after_rows [OF a2] h] still_trans [OF st] fw_after_trans [OF a2] by blast
  qed
qed

lemma rf_upstream_still:
  assumes rows: "drop_rows_ok columns fw" and agree: "columns_agree columns (rm_counters mac)" and ok: "shim_packet_ok p" "messages_ok messages"
  shows "\<exists>state' fw'. rf_upstream env mac p messages (state, fw) = Some (state', fw') \<and> still state state' \<and> fw_after columns fw fw'"
proof (cases p)
  case None
  then show ?thesis using rows by (simp add: rf_upstream_def fw_after_call)
next
  case (Some q)
  define src where "src = pi_source (fp_info q)"
  define dst where "dst = pi_destination (fp_info q)"
  define at where "at = now_microseconds (re_api env) fw"
  define f1 where "f1 = upstream_rx_packet (rm_counters mac) src dst (fs_len (fp_payload q)) fw"
  have a1: "fw_after columns fw f1" unfolding f1_def by (rule fw_after_counting(1) [OF rows])
  obtain f2 where f2: "\<And>code. upstream_drop_packet (re_api env) (rm_counters mac) src dst code f1 = Some (f2 code)"
    "\<And>code. fw_after columns f1 (f2 code)"
    using fw_after_drop(1) [OF fw_after_rows [OF a1] agree, of "re_api env" src dst] by metis
  have reject: "Option.bind (upstream_drop_packet (re_api env) (rm_counters mac) src dst code f1) (\<lambda>fw. Some (state, fw)) = Some (state, f2 code)" for code
    by (simp add: f2(1))
  note unf = rf_upstream_def Some option.case prod.case src_def [symmetric] dst_def [symmetric] at_def [symmetric] Let_def f1_def [symmetric] reject
  have dropped: ?thesis if "rf_upstream env mac p messages (state, fw) = Some (state, f2 code)" for code
    using that fw_after_trans [OF a1 f2(2) [of code]] still_refl by blast
  have ignored: ?thesis if "rf_upstream env mac p messages (state, fw) = Some (state, f1)"
    using that a1 still_refl by blast
  show ?thesis
  proof (cases "controls messages")
    case None
    then show ?thesis by (intro dropped [of 5]) (simp add: unf)
  next
    case ms: (Some ms)
    have readable: "messages_readable ms" by (rule messages_ok_controls [OF ok(2) ms])
    obtain header rx where h: "find_header ms = Some header" "find_rx_properties ms = Some rx"
      using find_header_returns [OF readable] find_rx_properties_returns [OF readable] by blast
    show ?thesis
    proof (cases "header = None \<or> rx = None")
      case True
      then show ?thesis using ms h by (intro dropped [of 5]) (auto simp: unf split: option.splits)
    next
      case False
      then obtain hd' rx' where hr: "header = Some hd'" "rx = Some rx'" by auto
      show ?thesis
      proof (cases "mh_registration_id hd' = MAC_REGISTRATION_RFPIPE")
        case False
        then show ?thesis using ms h hr by (intro dropped [of 2]) (simp add: unf)
      next
        case True
        obtain owned where owned: "rf_own_packet p messages = Some owned" using own_packet_ok [OF ok] by blast
        show ?thesis
        proof (cases owned)
          case None
          then show ?thesis using ms h hr True owned Some by (intro ignored) (simp add: unf)
        next
          case packet: (Some packet)
          obtain stripped where s: "strip_mac_header env (op_payload packet) = Some stripped" using strip_mac_header_returns by blast
          show ?thesis
          proof (cases stripped)
            case None
            then show ?thesis using ms h hr True owned Some packet s by (intro ignored) (simp add: unf)
          next
            case body: (Some x)
            have "rf_upstream env mac p messages (state, fw) =
                rf_receive env mac hd' rx' (fst x) (packet\<lparr>op_payload := snd x\<rparr>, at) (state, f1)"
              using ms h hr True owned Some packet s body by (simp add: unf split_beta)
            then show ?thesis
              using rf_receive_still [OF fw_after_rows [OF a1] agree, of env hd' rx' "fst x" "(packet\<lparr>op_payload := snd x\<rparr>, at)" state]
                fw_after_trans [OF a1] by metis
          qed
        qed
      qed
    qed
  qed
qed

lemma rf_report_still:
  assumes "drop_rows_ok columns fw"
  shows "still state (fst (rf_report env mac (state, fw))) \<and> fw_after columns fw (snd (rf_report env mac (state, fw)))"
  using fw_after_trans [OF fw_after_call [OF assms] fw_after_schedule] assms
  by (auto simp: rf_report_def case_prod_unfold Let_def)

lemma rf_timed_ok:
  assumes inv: "rf_inv k columns mac (state, fw)" and clock: "clock_runs env" and ok: "valid_slice data"
  shows "\<exists>s'. rf_timed env mac timer event data (state, fw) = Some s' \<and> rf_inv k columns mac s' \<and>
    paced env mac (now_microseconds (re_api env) fw) new (state, fw) s'"
proof -
  define s0 where "s0 = state\<lparr>rf_timers := rf_timers state - {timer}\<rparr>"
  have st: "still state s0" by (simp add: s0_def still_def same_line_def)
  have rows: "drop_rows_ok columns fw" using inv by (simp add: rf_inv_def rf_core_def)
  have quiet: "\<exists>s'. rf_timed env mac timer event data (state, fw) = Some s' \<and> rf_inv k columns mac s' \<and>
      paced env mac (now_microseconds (re_api env) fw) new (state, fw) s'"
    if "rf_timed env mac timer event data (state, fw) = Some (s, f)" "still s0 s" "fw_after columns fw f" for s f
    using that(1) still_inv [OF inv still_trans [OF st that(2)] that(3)] by blast
  show ?thesis
  proof (cases "fs_len data \<noteq> 8 \<or> fs_data data = None")
    case True
    then have "rf_timed env mac timer event data (state, fw) = Some (s0, fw)" by (auto simp: rf_timed_def s0_def)
    then show ?thesis using quiet rows by simp
  next
    case False
    then obtain bytes where b: "slice_contents data = Some bytes"
      using valid_slice_data_readable [OF ok] by (auto simp: readable_def)
    define v where "v = (of_be_bytes bytes :: u64)"
    note run = rf_timed_def prod.case s0_def [symmetric] Let_def b bind.bind_lunit v_def [symmetric]
    consider (transmit) "event = EVENT_TRANSMIT" "rf_next_transmit_wakeup s0 = v" | (stale) "event = EVENT_TRANSMIT" "rf_next_transmit_wakeup s0 \<noteq> v"
      | (receive) "event = EVENT_RECEIVE" | (report) "event = EVENT_R2RI_REPORT"
      | (other) "event \<noteq> EVENT_TRANSMIT" "event \<noteq> EVENT_RECEIVE" "event \<noteq> EVENT_R2RI_REPORT" by blast
    then show ?thesis
    proof cases
      case transmit
      define s1 where "s1 = s0\<lparr>rf_next_transmit_wakeup := 0\<rparr>"
      have core: "rf_core k columns mac (s1, fw)" using inv by (simp add: rf_inv_def rf_core_def s1_def s0_def timer_ok_def)
      have line: "rf_sequence s1 = rf_sequence state" "rf_current_end_of_transmission s1 = rf_current_end_of_transmission state"
        by (simp_all add: s1_def s0_def)
      have "rf_timed env mac timer event data (state, fw) = drive_transmit env mac (now_microseconds (re_api env) fw) (s1, fw)"
        using False transmit by (auto simp: run s1_def)
      moreover have "paced env mac now new (state, fw) s'" if "paced env mac now new (s1, fw) s'" for now s'
      proof -
        have "line_with arrived s1 = line_with arrived state" for arrived by (simp add: line_with_def s1_def s0_def)
        then show ?thesis using that line by (simp add: paced_def idle_def)
      qed
      ultimately show ?thesis using drive_transmit_ok [OF core now_positive [OF clock], of env fw new] by metis
    next
      case stale
      then show ?thesis using False rows by (intro quiet [of s0 fw]) (simp_all add: run)
    next
      case receive
      then have e: "event \<noteq> EVENT_TRANSMIT" by (simp add: EVENT_TRANSMIT_def EVENT_RECEIVE_def)
      show ?thesis
      proof (cases "rf_pending_receptions s0 v")
        case None
        then show ?thesis using False receive e rows by (intro quiet [of s0 fw]) (simp_all add: run)
      next
        case (Some reception)
        then show ?thesis using False receive e send_upstream_after [OF rows]
          by (intro quiet [of "s0\<lparr>rf_pending_receptions := (rf_pending_receptions s0)(v := None)\<rparr>" "rf_send_upstream env mac reception fw"])
             (auto simp: run still_def same_line_def queue_ok_def)
      qed
    next
      case report
      then have e: "event \<noteq> EVENT_TRANSMIT" "event \<noteq> EVENT_RECEIVE"
        by (simp_all add: EVENT_TRANSMIT_def EVENT_RECEIVE_def EVENT_R2RI_REPORT_def)
      show ?thesis using False report e rf_report_still [OF rows, of s0 env mac]
        by (intro quiet [of "fst (rf_report env mac (s0, fw))" "snd (rf_report env mac (s0, fw))"]) (auto simp: run)
    next
      case other
      then show ?thesis using False rows by (intro quiet [of s0 fw]) (simp_all add: run)
    qed
  qed
qed

text \<open>Configuration.\<close>

lemma rf_configure_item_fields:
  assumes "rf_configure_item name v state = Some state'" "rf_data_rate_bps state \<noteq> 0"
  shows "rf_data_rate_bps state' \<noteq> 0 \<and> rf_queue state' = rf_queue state \<and> rf_started state' = rf_started state \<and> same_line state state'"
  using assms by (auto simp: rf_configure_item_def same_line_def split: if_splits bind_splits)

lemma rf_configure_items_fields:
  assumes "rf_data_rate_bps state \<noteq> 0"
  shows "rf_data_rate_bps (snd (rf_configure_items items state)) \<noteq> 0 \<and> rf_queue (snd (rf_configure_items items state)) = rf_queue state \<and>
    rf_started (snd (rf_configure_items items state)) = rf_started state \<and> same_line state (snd (rf_configure_items items state))"
  using assms
proof (induction items state rule: rf_configure_items.induct)
  case (2 name vs items state)
  show ?case
  proof (cases vs)
    case (Cons v rest)
    show ?thesis
    proof (cases "rf_configure_item name v state")
      case (Some s1)
      note f = rf_configure_item_fields [OF Some "2.prems"]
      then show ?thesis using "2.IH" [OF Cons Some] Cons Some by (simp add: same_line_def)
    qed (use "2.prems" Cons in \<open>simp add: same_line_def\<close>)
  qed (use "2.prems" in \<open>simp add: same_line_def\<close>)
qed (simp add: same_line_def)

lemma rf_update_item_fields:
  assumes "rf_configure_item name v state = Some state'" "name \<in> set rf_modifiable"
  shows "rf_flow_control_enable state' = rf_flow_control_enable state \<and> rf_flow_control_tokens state' = rf_flow_control_tokens state \<and>
    rf_available_tokens state' = rf_available_tokens state"
  using assms by (auto simp: rf_configure_item_def rf_modifiable_def split: if_splits bind_splits)

lemma rf_update_items_fields:
  assumes "list_all (\<lambda>item. fst item \<in> set rf_modifiable) items"
  shows "rf_flow_control_enable (snd (rf_configure_items items state)) = rf_flow_control_enable state \<and>
    rf_flow_control_tokens (snd (rf_configure_items items state)) = rf_flow_control_tokens state \<and>
    rf_available_tokens (snd (rf_configure_items items state)) = rf_available_tokens state"
  using assms
proof (induction items state rule: rf_configure_items.induct)
  case (2 name vs items state)
  show ?case
  proof (cases vs)
    case (Cons v rest)
    then show ?thesis using "2.IH" [OF Cons] "2.prems" rf_update_item_fields [of name v state]
      by (cases "rf_configure_item name v state") auto
  qed simp
qed simp

lemma rf_config_item_returns: "item_ok i \<Longrightarrow> \<exists>r. rf_config_item i = Some r"
  by (auto simp: config_values_bind item_ok_def rf_config_item_def raw_parts_def split: option.splits if_splits)

lemma rf_configuration_returns:
  assumes "request_ok r"
  shows "\<exists>items. rf_configuration r = Some items"
proof (cases "\<exists>req items. r = Some req \<and> cr_data req = Some items \<and> cr_len req \<le> 4096 \<and> cr_len req \<noteq> 0")
  case True
  then obtain req items where r: "r = Some req" "cr_data req = Some items" "cr_len req \<le> 4096" "cr_len req \<noteq> 0" by blast
  then have ok: "cr_len req \<le> length items" "list_all item_ok (take (cr_len req) items)"
    using assms by (simp_all add: request_ok_def)
  have "\<exists>v. rf_config_item x = Some v" if "x \<in> set (take (cr_len req) items)" for x
    using ok(2) that rf_config_item_returns by (simp add: list_all_iff)
  from collect_option_total [OF this] show ?thesis using r ok(1) by (simp add: rf_configuration_def raw_parts_def)
next
  case False
  then show ?thesis by (cases r) (auto simp: rf_configuration_def raw_parts_def)
qed

lemma configured_inv:
  assumes "rf_inv k columns mac (state, fw)" "rf_started state' = rf_started state" "rf_queue state' = rf_queue state"
    "rf_data_rate_bps state' \<noteq> 0" "same_line state state'" "fw_after columns fw fw'"
    "rf_started state \<longrightarrow> rf_flow_control_enable state' = rf_flow_control_enable state \<and>
       rf_flow_control_tokens state' = rf_flow_control_tokens state \<and> rf_available_tokens state' = rf_available_tokens state"
  shows "rf_inv k columns mac (state', fw') \<and> paced env mac now new (state, fw) (state', fw')"
  using assms timer_ok_after [OF _ assms(6), of k mac state state'] fw_after_rows [OF assms(6)]
  by (auto simp: rf_inv_def rf_core_def queue_ok_def same_line_def armed_def paced_def idle_def fw_after_def)

lemma rf_configure_ok:
  assumes inv: "rf_inv k columns mac (state, fw)" and ok: "request_ok r" and update: "rf_started state \<longrightarrow> rf_update_request r"
  shows "\<exists>b s'. rf_configure env r (state, fw) = Some (b, s') \<and> rf_inv k columns mac s' \<and> paced env mac now new (state, fw) s'"
proof -
  have rows: "drop_rows_ok columns fw" and rate: "rf_data_rate_bps state \<noteq> 0" using inv by (simp_all add: rf_inv_def rf_core_def queue_ok_def)
  obtain items where items: "rf_configuration r = Some items" using rf_configuration_returns [OF ok] by blast
  show ?thesis
  proof (cases items)
    case None
    then show ?thesis using items idle_inv [OF inv fw_after_refl [OF rows]] by (auto simp: rf_configure_def)
  next
    case (Some xs)
    obtain good s1 where s1: "rf_configure_items xs state = (good, s1)" by fastforce
    have "rf_started state \<Longrightarrow> list_all (\<lambda>item. fst item \<in> set rf_modifiable) xs"
      using update items Some by (simp add: rf_update_request_def)
    then have keep: "rf_inv k columns mac (s1, f) \<and> paced env mac now new (state, fw) (s1, f)" if "fw_after columns fw f" for f
      using rf_configure_items_fields [OF rate, of xs] rf_update_items_fields [of xs state] s1 by (intro configured_inv [OF inv _ _ _ _ that]) auto
    show ?thesis
      using items Some s1 keep [OF fw_after_refl [OF rows]] keep [OF fw_after_ask [OF rows]]
      by (cases "\<not> good \<or> rf_signal_table_handle s1 = 0") (auto simp: rf_configure_def case_prod_unfold Let_def)
  qed
qed

lemma rf_start_ok:
  assumes inv: "rf_inv k columns mac (state, fw)" and st: "\<not> rf_started state"
  shows "\<exists>b s'. rf_start env xml mac (state, fw) = Some (b, s') \<and> rf_inv k columns mac s' \<and> paced env mac now new (state, fw) s'"
proof (cases "rf_pcr_curve_uri state = [] \<or> (\<exists>e. PcrCurve_load xml (rf_pcr_curve_uri state) = Inl e)")
  case True
  have rows: "drop_rows_ok columns fw" using inv by (simp add: rf_inv_def rf_core_def)
  show ?thesis using True idle_inv [OF inv fw_after_refl [OF rows]] by (auto simp: rf_start_def)
next
  case False
  then obtain curve where curve: "rf_pcr_curve_uri state \<noteq> []" "PcrCurve_load xml (rf_pcr_curve_uri state) = Inr curve" by (metis sum.exhaust)
  have rows: "drop_rows_ok columns fw" using inv by (simp add: rf_inv_def rf_core_def)
  define s1 where "s1 = state\<lparr>rf_pcr_curve := Some curve, rf_available_tokens := rf_flow_control_tokens state, rf_started := True\<rparr>"
  obtain f1 where f1: "(if rf_flow_control_enable s1 then rf_send_flow_update mac (rf_available_tokens s1) fw else Some fw) = Some f1" "fw_after columns fw f1"
    using send_flow_update_after [OF rows, of mac "rf_available_tokens s1"] fw_after_refl [OF rows] by (cases "rf_flow_control_enable s1") auto
  have empty: "rf_queue state = []" using inv st by (simp add: rf_inv_def rf_core_def queue_ok_def)
  have keep: "rf_inv k columns mac (rf_add_timer t s1, f) \<and> rf_inv k columns mac (s1, f) \<and> paced env mac now new (state, fw) (rf_add_timer t s1, f) \<and>
      paced env mac now new (state, fw) (s1, f)" if "fw_after columns fw f" for t f
    using inv empty that timer_ok_after [OF _ that, of k mac state] fw_after_rows [OF that]
    by (auto simp: rf_inv_def rf_core_def queue_ok_def armed_def paced_def idle_def fw_after_def s1_def rf_add_timer_def)
  show ?thesis
  proof (cases "rf_radiometric_enabled s1")
    case False
    then show ?thesis using curve f1(1) keep [OF f1(2)] by (auto simp: rf_start_def s1_def [symmetric] Let_def)
  next
    case True
    define w where "w = i64_saturating_add (now_microseconds (re_api env) f1) (rf_radiometric_report_interval_microseconds s1)"
    obtain t f2 where f2: "rf_schedule env mac w EVENT_R2RI_REPORT (be_bytes 8 w) f1 = (t, f2)" by fastforce
    have "fw_after columns fw f2"
      using fw_after_trans [OF f1(2) fw_after_schedule [OF fw_after_rows [OF f1(2)], of env mac w EVENT_R2RI_REPORT "be_bytes 8 w"]] f2 by simp
    moreover have "rf_start env xml mac (state, fw) = Some (True, (rf_add_timer t s1, f2))"
      using curve f1(1) True f2 by (simp add: rf_start_def s1_def [symmetric] w_def [symmetric] Let_def)
    ultimately show ?thesis using keep by blast
  qed
qed

lemma cancels_acts:
  "\<exists>cs. acts_between fw (fold (\<lambda>t. fw_call (CancelTimedEvent n t)) ts fw) cs \<and> \<not> list_ex is_transmission cs"
proof (induction ts arbitrary: fw)
  case Nil
  then show ?case by (auto intro: exI [of _ "[]"])
next
  case (Cons t ts)
  obtain cs where cs: "acts_between (fw_call (CancelTimedEvent n t) fw) (fold (\<lambda>t. fw_call (CancelTimedEvent n t)) ts (fw_call (CancelTimedEvent n t) fw)) cs"
      "\<not> list_ex is_transmission cs" using Cons by blast
  have "acts_between fw (fw_call (CancelTimedEvent n t) fw) [CancelTimedEvent n t]" using acts_call [of fw "CancelTimedEvent n t"] by simp
  from acts_trans [OF this cs(1)] cs(2) show ?case by (auto intro: exI [of _ "CancelTimedEvent n t # cs"])
qed

lemma cancels_rows: "drop_rows_ok columns fw \<Longrightarrow> drop_rows_ok columns (fold (\<lambda>t. fw_call (CancelTimedEvent n t)) ts fw)"
  by (induction ts arbitrary: fw) simp_all

lemma rf_stop_ok:
  assumes "rf_inv k columns mac (state, fw)"
  shows "rf_inv (here mac (rf_stop mac order (state, fw))) columns mac (rf_stop mac order (state, fw)) \<and>
    paced env mac now new (state, fw) (rf_stop mac order (state, fw))"
proof -
  let ?f = "fold (\<lambda>timer. fw_call (CancelTimedEvent (rm_id mac) timer)) (order (rf_timers state)) fw"
  have "drop_rows_ok columns ?f" using assms by (simp add: rf_inv_def rf_core_def cancels_rows)
  moreover obtain cs where "acts_between fw ?f cs" "\<not> list_ex is_transmission cs" using cancels_acts by blast
  ultimately show ?thesis using assms
    by (auto simp: rf_stop_def rf_inv_def rf_core_def queue_ok_def armed_def paced_def idle_def)
qed

text \<open>Every call, from any state with the invariant: the new state has it, and when the call does not stop the layer, the
  timer of the queue is the one from before or is asked for by the call.\<close>

fun is_stop :: "RfAction \<Rightarrow> bool" where
  "is_stop (RfStop order) \<longleftrightarrow> True"
| "is_stop _ \<longleftrightarrow> False"

lemma rf_act_ok:
  assumes inv: "rf_inv (here mac s) columns mac s" and agree: "columns_agree columns (rm_counters mac)" and clock: "clock_runs env" and ok: "rf_allowed a (fst s)"
  shows "\<exists>s'. rf_act env xml mac a s = Some s' \<and> rf_inv (here mac s') columns mac s' \<and> (\<not> is_stop a \<longrightarrow> rf_inv (here mac s) columns mac s') \<and>
    paced env mac (rf_clock env mac a (snd s)) (arrives env mac a s) s s'"
proof -
  obtain state fw where s: "s = (state, fw)" by fastforce
  have *: ?thesis if "\<exists>s'. rf_act env xml mac a s = Some s' \<and> rf_inv (here mac s) columns mac s' \<and>
      paced env mac (rf_clock env mac a (snd s)) (arrives env mac a s) s s'"
    using that rf_inv_here by blast
  show ?thesis
  proof (cases a)
    case (RfDownstream p ms)
    then show ?thesis using rf_downstream_ok [OF inv [unfolded s] agree clock, of p ms] ok s by (intro *) simp
  next
    case (RfUpstream p ms)
    obtain s1 f1 where "rf_upstream env mac p ms (state, fw) = Some (s1, f1)" "still state s1" "fw_after columns fw f1"
      using rf_upstream_still [OF _ agree, of fw p ms env state] inv ok s RfUpstream by (auto simp: rf_inv_def rf_core_def)
    then show ?thesis using still_inv [OF inv [unfolded s]] RfUpstream s by (intro *) fastforce
  next
    case (RfTimed t e d)
    then show ?thesis using rf_timed_ok [OF inv [unfolded s] clock, where data = d and new = "arrives env mac a s" and timer = t and event = e] ok s by (intro *) simp
  next
    case (RfConfigure r)
    then show ?thesis using rf_configure_ok [OF inv [unfolded s], where r = r and env = env and new = "arrives env mac a s"] ok s by (intro *) fastforce
  next
    case RfStart
    then show ?thesis using rf_start_ok [OF inv [unfolded s], where env = env and xml = xml and new = "arrives env mac a s"] ok s by (intro *) fastforce
  next
    case (RfStop order)
    then show ?thesis using rf_stop_ok [OF inv [unfolded s], where order = order and env = env and new = "arrives env mac a s"] s by simp
  qed
qed

lemma rf_new_inv:
  assumes "drop_rows_ok columns fw" "RfpipeMac_new api nem fw = (mac, s)"
  shows "rf_inv (here mac s) columns mac s"
proof -
  have "fw_table_states (snd s) = fw_table_states fw"
    using assms(2) by (auto simp: RfpipeMac_new_def fw_ask_def case_prod_unfold Let_def)
  then have "drop_rows_ok columns (snd s)" using assms(1) drop_rows_ok_same_tables by blast
  moreover have "queue_ok (fst s)" "armed (fst s)"
    using assms(2) by (auto simp: RfpipeMac_new_def case_prod_unfold Let_def queue_ok_def armed_def)
  ultimately show ?thesis by (cases s) (simp add: rf_inv_def rf_core_def)
qed

lemma rf_reach_inv:
  assumes "rf_reach env xml mac s0 s" "rf_inv (here mac s0) columns mac s0" "columns_agree columns (rm_counters mac)" "clock_runs env"
  shows "rf_inv (here mac s) columns mac s"
  using assms(1)
proof (induction rule: rf_reach.induct)
  case reach_init
  show ?case by (rule assms(2))
next
  case (reach_act s a s')
  then show ?case using rf_act_ok [OF reach_act.IH assms(3,4) reach_act.hyps(2), of xml] by auto
qed

section \<open>Properties\<close>

text \<open>The data rate is kept: the airtime of a packet covers its bits.\<close>

lemma ceiling_covers: "0 < u \<Longrightarrow> m \<le> (m div u + (if m mod u > 0 then 1 else 0)) * u" for m u :: nat
proof -
  assume "0 < u"
  then have "m mod u \<le> (if m mod u > 0 then 1 else 0) * u" by simp
  then have "m div u * u + m mod u \<le> m div u * u + (if m mod u > 0 then 1 else 0) * u" by (rule add_left_mono)
  then show ?thesis by (simp only: add_mult_distrib div_mult_mod_eq)
qed

lemma airtime_covers:
  assumes "entry_ok e"
  shows "length (op_payload (tx_packet e)) * 8 * 1000000 \<le> unat (tx_duration e) * unat (tx_data_rate e)"
proof -
  define n where "n = length (op_payload (tx_packet e))"
  define r where "r = tx_data_rate e"
  define bits :: u64 where "bits = saturating_mul (saturating_mul (word_of_nat n) 8) 1000000"
  have n: "n \<le> 67108864" and r: "r \<noteq> 0" and d: "tx_duration e = max (bits div r + (if bits mod r > 0 then 1 else 0)) 1"
    using assms by (simp_all add: entry_ok_def n_def r_def bits_def duration_microseconds_def Let_def)
  have un: "unat (word_of_nat n :: u64) = n" using n by (simp add: unat_of_nat take_bit_nat_eq_self)
  have u8: "unat (saturating_mul (word_of_nat n) 8 :: u64) = n * 8"
    using n un by (simp add: saturating_mul_def unat_word_ariths(2))
  have ub: "unat bits = n * 8 * 1000000"
    using n u8 by (simp add: bits_def saturating_mul_def unat_word_ariths(2))
  define q where "q = n * 8 * 1000000 div unat r + (if n * 8 * 1000000 mod unat r > 0 then 1 else 0)"
  have rn: "unat r > 0" using r by (simp add: unat_gt_0)
  have "q \<le> n * 8 * 1000000 + 1"
    unfolding q_def by (rule add_mono [OF div_le_dividend]) simp
  then have small: "q < 2 ^ 64" using n by simp
  have "unat (bits div r + (if bits mod r > 0 then 1 else 0)) = q"
  proof (cases "n * 8 * 1000000 mod unat r > 0")
    case True
    then have "bits mod r > 0" using ub by (simp add: word_less_nat_alt unat_mod)
    then show ?thesis using small True ub by (simp add: q_def unat_word_ariths(1) unat_div)
  next
    case False
    then have "\<not> bits mod r > 0" using ub by (simp add: word_less_nat_alt unat_mod)
    then show ?thesis using False ub by (simp add: q_def unat_div)
  qed
  then have "q \<le> unat (tx_duration e)" unfolding d by (metis max.cobounded1 word_le_nat_alt)
  moreover have "n * 8 * 1000000 \<le> q * unat r" unfolding q_def by (rule ceiling_covers [OF rn])
  ultimately have "n * 8 * 1000000 \<le> unat (tx_duration e) * unat r" using le_trans mult_le_mono1 by blast
  then show ?thesis by (simp add: n_def r_def)
qed

lemma sint_small_unat: "unat (w :: u64) < 2 ^ 63 \<Longrightarrow> sint w = int (unat w)"
proof -
  assume "unat w < 2 ^ 63"
  then have "int (unat w) < 2 ^ 63" using of_nat_less_iff [of "unat w" "2 ^ 63", where 'a = int] by simp
  then have "uint w < 2 ^ 63" by (simp only: uint_nat)
  then have "signed_take_bit 63 (uint w) = uint w" using uint_ge_0 [of w] by (intro signed_take_bit_int_eq_self) linarith+
  then show ?thesis by (simp add: sint_uint)
qed

lemma unat_add_le: "unat (a + b :: u64) \<le> unat a + unat b"
  by (simp add: unat_word_ariths(1))

lemma duration_positive:
  assumes "entry_ok e"
  shows "0 < sint (tx_duration e)"
proof -
  define n where "n = length (op_payload (tx_packet e))"
  define bits :: u64 where "bits = saturating_mul (saturating_mul (word_of_nat n) 8) 1000000"
  define extra :: u64 where "extra = (if bits mod tx_data_rate e > 0 then 1 else 0)"
  have n: "n \<le> 67108864" and d: "tx_duration e = max (bits div tx_data_rate e + extra) 1"
    using assms by (simp_all add: entry_ok_def n_def bits_def extra_def duration_microseconds_def Let_def)
  have un: "unat (word_of_nat n :: u64) = n" using n by (simp add: unat_of_nat take_bit_nat_eq_self)
  have "unat (saturating_mul (word_of_nat n) 8 :: u64) = n * 8" using n un by (simp add: saturating_mul_def unat_word_ariths(2))
  then have ub: "unat bits = n * 8 * 1000000" using n by (simp add: bits_def saturating_mul_def unat_word_ariths(2))
  have "unat (bits div tx_data_rate e) \<le> unat bits" by (simp only: unat_div div_le_dividend)
  moreover have "unat extra \<le> 1" by (simp add: extra_def)
  ultimately have "unat (bits div tx_data_rate e + extra) \<le> unat bits + 1" using unat_add_le [of "bits div tx_data_rate e" extra] by linarith
  moreover have "unat (max x 1) \<le> unat x + 1" for x :: u64 by (simp add: max_def)
  ultimately have "unat (tx_duration e) \<le> unat bits + 2" unfolding d using le_trans by fastforce
  then have "unat (tx_duration e) \<le> 536870912000002" using ub n by linarith
  also have "536870912000002 < (2 :: nat) ^ 63" by simp
  finally have "unat (tx_duration e) < 2 ^ 63" .
  moreover have "1 \<le> tx_duration e" by (simp add: d)
  then have "0 < unat (tx_duration e)" by (simp add: word_le_nat_alt)
  ultimately show ?thesis by (simp only: sint_small_unat of_nat_0_less_iff)
qed

section \<open>Timers of the framework\<close>

text \<open>The timers a framework has given out and neither fired nor cancelled, each with its number and the call that asked
  for it. The answer to a request is the number of the timer, zero when there is none.\<close>

fun is_schedule :: "FrameworkCall \<Rightarrow> bool" where
  "is_schedule (ScheduleTimedEvent _ _ _ _ _) \<longleftrightarrow> True"
| "is_schedule _ \<longleftrightarrow> False"

type_synonym Timers = "(u64 \<times> FrameworkCall) set"

fun timer_effect :: "u64 \<Rightarrow> FrameworkCall \<Rightarrow> Timers \<Rightarrow> Timers" where
  "timer_effect answer (ScheduleTimedEvent n seconds micros event data) T =
     (if answer = 0 then T else insert (answer, ScheduleTimedEvent n seconds micros event data) T)"
| "timer_effect answer (CancelTimedEvent n timer) T = {x \<in> T. fst x \<noteq> timer}"
| "timer_effect answer _ T = T"

fun timers_after :: "FrameworkApi \<Rightarrow> FrameworkCall list \<Rightarrow> FrameworkCall list \<Rightarrow> Timers \<Rightarrow> Timers" where
  "timers_after api earlier [] T = T"
| "timers_after api earlier (c # cs) T = timers_after api (earlier @ [c]) cs (timer_effect (api_answer api (earlier @ [c])) c T)"

text \<open>After the calls between two states of the framework.\<close>

definition outstanding :: "FrameworkApi \<Rightarrow> Framework \<Rightarrow> Framework \<Rightarrow> Timers \<Rightarrow> Timers" where
  "outstanding api fw fw' T = timers_after api (fw_calls fw) (drop (length (fw_calls fw)) (fw_calls fw')) T"

text \<open>Runs in which the framework fires the timers it gave out, each at most once and none after its cancellation.\<close>

fun is_timer_event :: "RfAction \<Rightarrow> bool" where
  "is_timer_event (RfTimed _ _ _) \<longleftrightarrow> True"
| "is_timer_event _ \<longleftrightarrow> False"

inductive rf_run :: "RfEnv \<Rightarrow> 'n XmlApi \<Rightarrow> RfpipeMac \<Rightarrow> RfState layer \<Rightarrow> RfState layer \<Rightarrow> Timers \<Rightarrow> bool" for env xml mac s0 where
  run_new: "rf_run env xml mac s0 s0 {}"
| run_call: "rf_run env xml mac s0 s T \<Longrightarrow> rf_allowed a (fst s) \<Longrightarrow> \<not> is_timer_event a \<Longrightarrow> rf_act env xml mac a s = Some s' \<Longrightarrow>
    rf_run env xml mac s0 s' (outstanding (re_api env) (snd s) (snd s') T)"
| run_timer: "rf_run env xml mac s0 s T \<Longrightarrow> (timer, ScheduleTimedEvent n seconds micros event data) \<in> T \<Longrightarrow>
    rf_allowed (RfTimed timer event data) (fst s) \<Longrightarrow> rf_act env xml mac (RfTimed timer event data) s = Some s' \<Longrightarrow>
    rf_run env xml mac s0 s' (outstanding (re_api env) (snd s) (snd s') (T - {(timer, ScheduleTimedEvent n seconds micros event data)}))"

lemma rf_run_reach: "rf_run env xml mac s0 s T \<Longrightarrow> rf_reach env xml mac s0 s"
proof (induction rule: rf_run.induct)
  case run_new
  show ?case by (rule reach_init)
next
  case (run_call s T a s')
  from run_call.IH run_call.hyps(2,4) show ?case by (rule reach_act)
next
  case (run_timer s T timer n seconds micros event data s')
  from run_timer.IH run_timer.hyps(3,4) show ?case by (rule reach_act)
qed

text \<open>A framework that gives every timer it is asked for.\<close>

definition gives_timers :: "RfEnv \<Rightarrow> bool" where
  "gives_timers env \<longleftrightarrow> (\<forall>calls c. is_schedule c \<longrightarrow> api_answer (re_api env) (calls @ [c]) \<noteq> 0)"

lemma timer_effect_keeps: "\<not> is_cancel c \<Longrightarrow> T \<subseteq> timer_effect answer c T"
  by (cases c) auto

lemma timers_after_keeps: "\<forall>c \<in> set cs. \<not> is_cancel c \<Longrightarrow> T \<subseteq> timers_after api earlier cs T"
proof (induction cs arbitrary: earlier T)
  case (Cons c cs)
  then show ?case using timer_effect_keeps [of c T] by fastforce
qed simp

lemma timers_after_granted:
  assumes "gives_timers env" "\<forall>c \<in> set cs. \<not> is_cancel c" "is_schedule c" "c \<in> set cs"
  shows "\<exists>t. (t, c) \<in> timers_after (re_api env) earlier cs T"
  using assms(2,4)
proof (induction cs arbitrary: earlier T)
  case (Cons x cs)
  show ?case
  proof (cases "c = x")
    case True
    have "api_answer (re_api env) (earlier @ [c]) \<noteq> 0" using assms(1,3) by (simp add: gives_timers_def)
    then have "(api_answer (re_api env) (earlier @ [c]), c) \<in> timer_effect (api_answer (re_api env) (earlier @ [c])) c T"
      using assms(3) by (cases c) simp_all
    then show ?thesis using timers_after_keeps [of cs] Cons.prems(1) True by fastforce
  qed (use Cons in simp)
qed simp

lemma transmit_timer_inj: "transmit_timer mac a = transmit_timer mac b \<Longrightarrow> a = b"
proof -
  assume "transmit_timer mac a = transmit_timer mac b"
  then have "slice_of (be_bytes 8 a) = slice_of (be_bytes 8 b)" by (simp add: transmit_timer_def)
  then have "be_bytes 8 a = be_bytes 8 b" by (simp add: slice_of_def)
  then have "(of_be_bytes (be_bytes 8 a) :: u64) = of_be_bytes (be_bytes 8 b)" by (rule arg_cong)
  then show ?thesis by simp
qed

text \<open>The timer of the queue fires: the wake-up is forgotten and the queue driven.\<close>

lemma rf_timed_fires:
  "rf_timed env mac timer EVENT_TRANSMIT (slice_of (be_bytes 8 (rf_next_transmit_wakeup state))) (state, fw) =
   drive_transmit env mac (now_microseconds (re_api env) fw) (state\<lparr>rf_timers := rf_timers state - {timer}, rf_next_transmit_wakeup := 0\<rparr>, fw)"
  by (simp add: rf_timed_def slice_of_fields)

definition wakeup_timer :: "RfpipeMac \<Rightarrow> RfState \<Rightarrow> Timers \<Rightarrow> bool" where
  "wakeup_timer mac state T \<longleftrightarrow>
     (rf_next_transmit_wakeup state \<noteq> 0 \<longrightarrow> (\<exists>timer. (timer, transmit_timer mac (rf_next_transmit_wakeup state)) \<in> T))"

lemma wakeup_timer_step:
  assumes gives: "gives_timers env" and inv: "timer_ok k mac (fst s') (snd s')" and k: "snd k = length (fw_calls (snd s))"
    and old: "\<forall>w. w \<noteq> 0 \<and> transmit_timer mac w \<in> fst k \<longrightarrow> (\<exists>timer. (timer, transmit_timer mac w) \<in> T)"
  shows "wakeup_timer mac (fst s') (outstanding (re_api env) (snd s) (snd s') T)"
proof -
  let ?cs = "drop (length (fw_calls (snd s))) (fw_calls (snd s'))" and ?w = "rf_next_transmit_wakeup (fst s')"
  have cs: "\<forall>c \<in> set ?cs. \<not> is_cancel c" and w: "?w \<noteq> 0 \<longrightarrow> transmit_timer mac ?w \<in> fst k \<union> set ?cs"
    using inv k by (simp_all add: timer_ok_def calls_since_def)
  have "\<exists>timer. (timer, transmit_timer mac ?w) \<in> outstanding (re_api env) (snd s) (snd s') T" if awake: "?w \<noteq> 0"
  proof (cases "transmit_timer mac ?w \<in> set ?cs")
    case True
    then show ?thesis using timers_after_granted [OF gives cs _ True] by (simp add: outstanding_def transmit_timer_def)
  next
    case False
    then obtain timer where "(timer, transmit_timer mac ?w) \<in> T" using w old awake by blast
    then have "(timer, transmit_timer mac ?w) \<in> outstanding (re_api env) (snd s) (snd s') T"
      unfolding outstanding_def by (rule subsetD [OF timers_after_keeps [OF cs]])
    then show ?thesis by blast
  qed
  then show ?thesis by (simp add: wakeup_timer_def)
qed

lemma rf_run_wakeup:
  assumes "rf_run env xml mac s0 s T" "rf_inv (here mac s0) columns mac s0" "columns_agree columns (rm_counters mac)" "clock_runs env"
    and gives: "gives_timers env" and "rf_next_transmit_wakeup (fst s0) = 0"
  shows "wakeup_timer mac (fst s) T"
  using assms(1)
proof (induction rule: rf_run.induct)
  case run_new
  show ?case using assms(6) by (simp add: wakeup_timer_def)
next
  case (run_call s T a s')
  have inv: "rf_inv (here mac s) columns mac s" by (rule rf_reach_inv [OF rf_run_reach [OF run_call.hyps(1)] assms(2-4)])
  show ?case
  proof (cases "is_stop a")
    case True
    then obtain order where "a = RfStop order" by (cases a) simp_all
    then have "rf_next_transmit_wakeup (fst s') = 0" using run_call.hyps(4) by (cases s) (auto simp: rf_stop_def)
    then show ?thesis by (simp add: wakeup_timer_def)
  next
    case False
    then have "rf_inv (here mac s) columns mac s'" using rf_act_ok [OF inv assms(3,4) run_call.hyps(2), of xml] run_call.hyps(4) by auto
    then have "timer_ok (here mac s) mac (fst s') (snd s')" by (simp add: rf_inv_def rf_core_def)
    from wakeup_timer_step [OF gives this, of s T] show ?thesis
      using run_call.IH transmit_timer_inj by (auto simp: here_def wakeup_timer_def)
  qed
next
  case (run_timer s T timer n seconds micros event data s')
  let ?c = "ScheduleTimedEvent n seconds micros event data"
  have inv: "rf_inv (here mac s) columns mac s" by (rule rf_reach_inv [OF rf_run_reach [OF run_timer.hyps(1)] assms(2-4)])
  obtain state fw where s: "s = (state, fw)" by fastforce
  let ?w = "rf_next_transmit_wakeup state"
  show ?case
  proof (cases "?c = transmit_timer mac ?w")
    case True
    let ?s = "state\<lparr>rf_timers := rf_timers state - {timer}, rf_next_transmit_wakeup := 0\<rparr>"
    have core: "rf_core ({}, length (fw_calls fw)) columns mac (?s, fw)"
      using inv by (simp add: s rf_inv_def rf_core_def timer_ok_def calls_since_def)
    have "drive_transmit env mac (now_microseconds (re_api env) fw) (?s, fw) = Some s'"
      using run_timer.hyps(4) True rf_timed_fires [of env mac timer state fw] by (simp add: s transmit_timer_def)
    then have "timer_ok ({}, length (fw_calls fw)) mac (fst s') (snd s')"
      using drive_transmit_ok [OF core now_positive [OF assms(4)], of env fw] by (auto simp: rf_inv_def rf_core_def)
    from wakeup_timer_step [OF gives this, of s] show ?thesis by (simp add: s)
  next
    case False
    have "rf_inv (here mac s) columns mac s'"
      using rf_act_ok [OF inv assms(3,4) run_timer.hyps(3), of xml] run_timer.hyps(4) by auto
    then have "timer_ok (here mac s) mac (fst s') (snd s')" by (simp add: rf_inv_def rf_core_def)
    from wakeup_timer_step [OF gives this, of s "T - {(timer, ?c)}"] show ?thesis
      using run_timer.IH transmit_timer_inj False by (fastforce simp: here_def wakeup_timer_def s)
  qed
qed

section \<open>Safety, pace and delivery\<close>

text \<open>From \<open>init\<close>, no sequence of calls of the RF pipe panics or reads through a null pointer, whatever
  packets, timers, configurations and curves it is given, as long as the memory behind the pointers is there,
  the layer is started only while it is stopped, a running layer is configured with modifiable parameters only, and the clock is not at the epoch. The hypothesis
  on the columns is that a drop table has as many columns as it was registered with.\<close>

lemma rfpipe_never_panics:
  assumes "RfpipeMac_new (re_api env) nem fw0 = (mac, s0)" "drop_rows_ok columns fw0" "columns_agree columns (rm_counters mac)" "clock_runs env"
    and "rf_reach env xml mac s0 s" "rf_allowed a (fst s)"
  shows "\<exists>s'. rf_act env xml mac a s = Some s'"
  using rf_act_ok [OF rf_reach_inv [OF assms(5) rf_new_inv [OF assms(2,1)] assms(3,4)] assms(3,4,6), of xml] by blast

text \<open>C21: flow control of the RF pipe: in every reachable state of a started layer with flow control, the tokens
  left and the packets in the queue add up to the configured tokens, and no queue holds more than its 255 packets.\<close>

theorem rfpipe_tokens_conserved:
  assumes "RfpipeMac_new (re_api env) nem fw0 = (mac, s0)" "drop_rows_ok columns fw0" "columns_agree columns (rm_counters mac)" "clock_runs env"
    and "rf_reach env xml mac s0 (state, fw)" "rf_started state" "rf_flow_control_enable state"
  shows "unat (rf_available_tokens state) + length (rf_queue state) = unat (rf_flow_control_tokens state) \<and> length (rf_queue state) \<le> 255"
  using rf_reach_inv [OF assms(5) rf_new_inv [OF assms(2,1)] assms(3,4)] assms(6,7)
  by (simp add: rf_inv_def rf_core_def queue_ok_def QUEUE_CAPACITY_def)

text \<open>C10: a packet that waits in the queue of an RF pipe is sent, in every run in which the framework gives the timers it
  is asked for, fires no other timers and takes away what is cancelled. As long as a packet waits, a
  timer for the wake-up of the queue is outstanding. When it fires after the first packet is ready and the
  transmission before it has ended, exactly this packet is sent down, behind the header of the model, with
  the next sequence number and its airtime, and leaves the queue; when it fires earlier, the packet stays and
  the next wake-up is at the time at which it can be sent.\<close>

theorem rfpipe_waiting_packet_sent:
  assumes "RfpipeMac_new (re_api env) nem fw0 = (mac, s0)" "drop_rows_ok columns fw0" "columns_agree columns (rm_counters mac)" "clock_runs env"
    and "gives_timers env" "rf_run env xml mac s0 (state, fw) T" "rf_queue state = e # rest" "length (re_encode env (tx_data_rate e)) < 2 ^ 16"
  defines "now \<equiv> now_microseconds (re_api env) fw"
  shows "(\<exists>timer. (timer, transmit_timer mac (rf_next_transmit_wakeup state)) \<in> T) \<and>
    (\<forall>timer. \<exists>state' fw'. rf_timed env mac timer EVENT_TRANSMIT (slice_of (be_bytes 8 (rf_next_transmit_wakeup state))) (state, fw) = Some (state', fw') \<and>
       (if sint (tx_ready_at e) \<le> sint now \<and> sint (rf_current_end_of_transmission state) \<le> sint now
        then rf_queue state' = rest \<and> transmits_packet env mac e (rf_sequence state) fw fw'
        else rf_queue state' = e # rest \<and>
          rf_next_transmit_wakeup state' = smax (smax (tx_ready_at e) (rf_current_end_of_transmission state)) now))"
proof -
  have new: "rf_inv (here mac s0) columns mac s0" "rf_next_transmit_wakeup (fst s0) = 0"
    using rf_new_inv [OF assms(2,1)] assms(1) by (auto simp: RfpipeMac_new_def case_prod_unfold Let_def)
  have inv: "rf_inv (here mac (state, fw)) columns mac (state, fw)" by (rule rf_reach_inv [OF rf_run_reach [OF assms(6)] new(1) assms(3,4)])
  then have st: "rf_started state" "rf_next_transmit_wakeup state \<noteq> 0"
    using assms(7) by (auto simp: rf_inv_def rf_core_def queue_ok_def armed_def)
  have "wakeup_timer mac state T" using rf_run_wakeup [OF assms(6) new(1) assms(3-5) new(2)] by simp
  then have timer: "\<exists>timer. (timer, transmit_timer mac (rf_next_transmit_wakeup state)) \<in> T" using st(2) by (simp add: wakeup_timer_def)
  have "\<exists>state' fw'. rf_timed env mac t EVENT_TRANSMIT (slice_of (be_bytes 8 (rf_next_transmit_wakeup state))) (state, fw) = Some (state', fw') \<and>
       (if sint (tx_ready_at e) \<le> sint now \<and> sint (rf_current_end_of_transmission state) \<le> sint now
        then rf_queue state' = rest \<and> transmits_packet env mac e (rf_sequence state) fw fw'
        else rf_queue state' = e # rest \<and>
          rf_next_transmit_wakeup state' = smax (smax (tx_ready_at e) (rf_current_end_of_transmission state)) now)" for t
  proof -
    define s1 where "s1 = state\<lparr>rf_timers := rf_timers state - {t}, rf_next_transmit_wakeup := 0\<rparr>"
    have core: "rf_core ({}, length (fw_calls fw)) columns mac (s1, fw)"
      using inv by (simp add: rf_inv_def rf_core_def s1_def timer_ok_def calls_since_def)
    have s1: "rf_started s1" "rf_queue s1 = e # rest" "rf_next_transmit_wakeup s1 = 0" "rf_sequence s1 = rf_sequence state"
        "rf_current_end_of_transmission s1 = rf_current_end_of_transmission state"
      using st(1) assms(7) by (simp_all add: s1_def)
    obtain state' fw' where d: "drive_transmit env mac now (s1, fw) = Some (state', fw')"
      using drive_transmit_ok [OF core now_positive [OF assms(4)], of env fw] unfolding now_def by (metis prod.exhaust)
    show ?thesis
      unfolding rf_timed_fires now_def [symmetric] s1_def [symmetric] d
      using drive_transmit_sends [OF core s1(1,2) _ _ assms(8) d] drive_transmit_waits [OF s1(1-3) _ d] s1(4,5) by auto
  qed
  with timer show ?thesis by blast
qed

text \<open>C9: the RF pipe keeps to its data rate. Every call transmits nothing and leaves the end of the transmission alone,
  or it transmits exactly one packet: the first of the queue, into which the packet of the call has been put
  before (a full queue gives up its first packet for it). The clock the call reads shows that this packet is
  ready and that the transmission before has ended; the new transmission ends its airtime later, which
  is positive, the time for the bits of the packet at the data rate it was queued with, rounded up, and is
  announced with the packet. The hypothesis on the header is that its encoding is shorter than 64 KiB.\<close>

theorem rfpipe_keeps_rate:
  assumes "RfpipeMac_new (re_api env) nem fw0 = (mac, s0)" "drop_rows_ok columns fw0" "columns_agree columns (rm_counters mac)" "clock_runs env"
    and "\<forall>rate. length (re_encode env rate) < 2 ^ 16"
    and "rf_reach env xml mac s0 s" "rf_allowed a (fst s)" "rf_act env xml mac a s = Some s'"
  defines "now \<equiv> rf_clock env mac a (snd s)"
  shows "idle s s' \<or> (\<exists>e arrived. list_all (arrives env mac a s) arrived \<and> length arrived \<le> 1 \<and>
      line_with arrived (fst s) = e # rf_queue (fst s') \<and>
      sint (tx_ready_at e) \<le> sint now \<and> sint (rf_current_end_of_transmission (fst s)) \<le> sint now \<and>
      rf_current_end_of_transmission (fst s') = i64_saturating_add now (tx_duration e) \<and> 0 < sint (tx_duration e) \<and>
      tx_duration e = max (duration_microseconds (length (op_payload (tx_packet e))) (tx_data_rate e)) 1 \<and>
      length (op_payload (tx_packet e)) * 8 * 1000000 \<le> unat (tx_duration e) * unat (tx_data_rate e) \<and>
      rf_sequence (fst s') = rf_sequence (fst s) + 1 \<and> transmits_packet env mac e (rf_sequence (fst s)) (snd s) (snd s'))"
proof -
  have "paced env mac now (arrives env mac a s) s s'"
    using rf_act_ok [OF rf_reach_inv [OF assms(6) rf_new_inv [OF assms(2,1)] assms(3,4)] assms(3,4,7), of xml] assms(8) by (simp add: now_def)
  then show ?thesis
  proof (cases "idle s s'")
    case False
    then obtain e arrived where e: "list_all (arrives env mac a s) arrived" "length arrived \<le> 1" "line_with arrived (fst s) = e # rf_queue (fst s')"
        "entry_ok e" "sint (tx_ready_at e) \<le> sint now" "sint (rf_current_end_of_transmission (fst s)) \<le> sint now"
        "rf_sequence (fst s') = rf_sequence (fst s) + 1" "rf_current_end_of_transmission (fst s') = i64_saturating_add now (tx_duration e)"
        "length (re_encode env (tx_data_rate e)) < 2 ^ 16 \<longrightarrow> transmits_packet env mac e (rf_sequence (fst s)) (snd s) (snd s')"
      using \<open>paced env mac now (arrives env mac a s) s s'\<close> unfolding paced_def by blast
    have "tx_duration e = max (duration_microseconds (length (op_payload (tx_packet e))) (tx_data_rate e)) 1" using e(4) by (simp add: entry_ok_def)
    with e assms(5) duration_positive [OF e(4)] airtime_covers [OF e(4)] show ?thesis by blast
  qed simp
qed

section \<open>From node to node\<close>

lemma strip_sent_payload:
  assumes "re_decode env (re_encode sender rate) = Some rate" "rate \<noteq> 0" "re_encode sender rate \<noteq> []" "length (re_encode sender rate) < 2 ^ 16"
  shows "strip_mac_header env (sent_payload sender rate payload) = Some (Some (rate, payload))"
proof -
  define n where "n = length (re_encode sender rate)"
  have u: "unat (word_of_nat n :: u16) = n" using assms(4) by (simp add: n_def unat_of_nat take_bit_nat_eq_self)
  have s1: "slice (sent_payload sender rate payload) 0 2 = Some (be_bytes 2 (word_of_nat n :: u16))"
    using slice_append [of "[]" 0 2 "be_bytes 2 (word_of_nat n :: u16)" "re_encode sender rate @ payload"] by (simp add: sent_payload_def n_def)
  have s2: "slice (sent_payload sender rate payload) 2 (2 + n) = Some (re_encode sender rate)"
    using slice_append [of "be_bytes 2 (word_of_nat n :: u16)" 2 "2 + n" "re_encode sender rate" payload] by (simp add: sent_payload_def n_def)
  have "length (sent_payload sender rate payload) = 2 + n + length payload" "drop (n + 2) (sent_payload sender rate payload) = payload"
    by (simp_all add: sent_payload_def n_def)
  moreover have "n > 0" using assms(3) by (simp add: n_def)
  ultimately show ?thesis using assms(1,2) s1 s2 u by (simp add: strip_mac_header_def Let_def)
qed

definition receive_timer :: "RfpipeMac \<Rightarrow> i64 \<Rightarrow> u64 \<Rightarrow> FrameworkCall" where
  "receive_timer mac w i = ScheduleTimedEvent (rm_id mac) (nonneg w div 1000000) (ucast (nonneg w mod 1000000)) EVENT_RECEIVE (slice_of (be_bytes 8 i))"

lemma rf_hold_holds:
  assumes "gives_timers env"
  shows "\<exists>i state' fw'. rf_hold env mac rx reception (state, fw) = (state', fw') \<and> rf_pending_receptions state' i = Some reception \<and>
    acts_between fw fw' [receive_timer mac (i64_saturating_add (now_microseconds (re_api env) fw) (rxp_duration_microseconds rx)) i]"
proof -
  define i where "i = max (rf_next_reception_id state + 1) 1"
  define w where "w = i64_saturating_add (now_microseconds (re_api env) fw) (rxp_duration_microseconds rx)"
  define s1 where "s1 = state\<lparr>rf_next_reception_id := i, rf_pending_receptions := (rf_pending_receptions state)(i \<mapsto> reception)\<rparr>"
  have f: "rf_schedule env mac w EVENT_RECEIVE (be_bytes 8 i) fw =
      (api_answer (re_api env) (fw_calls (fw_call (receive_timer mac w i) fw)), fw_call (receive_timer mac w i) fw)"
    by (simp add: rf_schedule_def fw_ask_def Let_def receive_timer_def nonneg_def)
  have "rf_hold env mac rx reception (state, fw) =
      (rf_add_timer (api_answer (re_api env) (fw_calls (fw_call (receive_timer mac w i) fw))) s1, fw_call (receive_timer mac w i) fw)"
    unfolding rf_hold_def prod.case Let_def i_def [symmetric] w_def [symmetric] s1_def [symmetric] f
    using assms by (simp add: gives_timers_def fw_call_def receive_timer_def)
  moreover have "rf_pending_receptions (rf_add_timer t s1) i = Some reception" for t by (simp add: rf_add_timer_def s1_def)
  moreover have "acts_between fw (fw_call (receive_timer mac w i) fw) [receive_timer mac w i]"
    using acts_call [of fw "receive_timer mac w i"] by (simp add: receive_timer_def)
  ultimately show ?thesis unfolding w_def by blast
qed

lemma receive_timer_delivers:
  assumes "rf_pending_receptions state i = Some (packet, at)"
  shows "\<exists>state' fw'. rf_timed env mac timer EVENT_RECEIVE (slice_of (be_bytes 8 i)) (state, fw) = Some (state', fw') \<and>
    rf_pending_receptions state' i = None \<and>
    acts_between fw fw' [SendUpstreamPacket (rm_id mac) (Some \<lparr>fp_info = op_info packet, fp_payload = slice_of (op_payload packet)\<rparr>)
      (messages_of (map control_view (op_controls packet)))]"
proof -
  let ?call = "SendUpstreamPacket (rm_id mac) (Some \<lparr>fp_info = op_info packet, fp_payload = slice_of (op_payload packet)\<rparr>)
      (messages_of (map control_view (op_controls packet)))"
  have "rf_timed env mac timer EVENT_RECEIVE (slice_of (be_bytes 8 i)) (state, fw) =
      Some (state\<lparr>rf_timers := rf_timers state - {timer}, rf_pending_receptions := (rf_pending_receptions state)(i := None)\<rparr>,
        rf_send_upstream env mac (packet, at) fw)"
    using assms by (simp add: rf_timed_def slice_of_fields EVENT_RECEIVE_def EVENT_TRANSMIT_def)
  moreover have "acts_between fw (rf_send_upstream env mac (packet, at) fw) [?call]"
    unfolding rf_send_upstream_def prod.case Let_def
    using acts_quiet_left [OF counters_quiet(3) acts_call [of _ ?call, simplified]] by simp
  ultimately show ?thesis by simp
qed

text \<open>C8: a packet that one RF pipe sends down and another one accepts is handed up unchanged and once. The sender makes
  one call, with the packet behind the header of the model. The receiver that gets this packet sets one
  timer, for the airtime of the reception after its clock, and holds the packet; when the timer fires it
  sends up, once, the payload as the sender had it, with the information of the packet and the control messages of the reception.
  The hypotheses are that the two share the codec of the MAC header, which decodes what it encodes, that the
  packet with its header is not larger than 64 MiB, that the control messages hold a header of the model and the
  reception properties, that the packet is accepted (completion curve and destination), and that the framework gives timers.\<close>

theorem rfpipe_link:
  assumes sent: "rf_send_packet sender_env sender packet (rf_header seq rate) duration acquired fs = Some fs'"
    and rate: "rate \<noteq> 0" "re_decode env (re_encode sender_env rate) = Some rate" "re_encode sender_env rate \<noteq> []"
      "length (re_encode sender_env rate) < 2 ^ 16" "length (op_payload packet) + length (re_encode sender_env rate) + 2 \<le> 64 * 1024 * 1024"
    and timers: "gives_timers env"
    and msgs: "controls messages = Some ms" "find_header ms = Some (Some header)" "mh_registration_id header = MAC_REGISTRATION_RFPIPE"
      "find_rx_properties ms = Some (Some rx)" "collect_option own_control ms = Some (Some cs)"
    and accepted: "rf_accepts env mac rx \<lparr>op_info = op_info packet, op_payload = op_payload packet, op_controls = cs\<rparr> state = (True, True, accepted)"
  shows "\<exists>p hb t tb. ModelHeader_encode (rf_header seq rate) = Some hb \<and> TxProperties_encode (rf_tx_properties duration t) = Some tb \<and>
    acts_between fs fs' [SendDownstreamPacket (rm_id sender) (Some p) (messages_of (sent_messages packet hb tb))] \<and>
    (\<exists>state' fw' held i. rf_upstream env mac (Some p) messages (state, fw) = Some (state', fw') \<and>
      acts_between fw held [] \<and>
      acts_between held fw' [receive_timer mac (i64_saturating_add (now_microseconds (re_api env) held) (rxp_duration_microseconds rx)) i] \<and>
      (\<forall>timer later. \<exists>state'' fw''. rf_timed env mac timer EVENT_RECEIVE (slice_of (be_bytes 8 i)) (state', later) = Some (state'', fw'') \<and>
         rf_pending_receptions state'' i = None \<and>
         acts_between later fw'' [SendUpstreamPacket (rm_id mac)
           (Some \<lparr>fp_info = op_info packet, fp_payload = slice_of (op_payload packet)\<rparr>) (messages_of (map control_view cs))]))"
proof -
  define body where "body = op_payload packet"
  define bytes where "bytes = sent_payload sender_env rate body"
  define p where "p = \<lparr>fp_info = op_info packet, fp_payload = slice_of bytes\<rparr>"
  obtain hb where hb: "ModelHeader_encode (rf_header seq rate) = Some hb" by (simp add: ModelHeader_bytes)
  have len: "length (re_encode sender_env (mh_data_rate_bps (rf_header seq rate))) < 2 ^ 16" using rate(4) by (simp add: rf_header_def)
  obtain f t tb where f: "rf_send_packet sender_env sender packet (rf_header seq rate) duration acquired fs = Some f"
      "TxProperties_encode (rf_tx_properties duration t) = Some tb"
      "acts_between fs f [SendDownstreamPacket (rm_id sender)
         (Some \<lparr>fp_info = op_info packet, fp_payload = slice_of (sent_payload sender_env (mh_data_rate_bps (rf_header seq rate)) (op_payload packet))\<rparr>)
         (messages_of (sent_messages packet hb tb))]"
    using send_packet_sends [OF len hb, of sender packet duration acquired fs] by blast
  then have down: "acts_between fs fs' [SendDownstreamPacket (rm_id sender) (Some p) (messages_of (sent_messages packet hb tb))]"
    using sent by (simp add: rf_header_def p_def bytes_def body_def)
  define owned where "owned = \<lparr>op_info = op_info packet, op_payload = bytes, op_controls = cs\<rparr>"
  have "length bytes \<le> 64 * 1024 * 1024" using rate(5) by (simp add: bytes_def sent_payload_def body_def)
  then have own: "rf_own_packet (Some p) messages = Some (Some owned)"
    using msgs(1,5) by (simp add: rf_own_packet_def p_def slice_of_fields owned_def)
  have strip: "strip_mac_header env (op_payload owned) = Some (Some (rate, body))"
    using strip_sent_payload [of env sender_env rate body] rate by (simp add: owned_def bytes_def)
  define at where "at = now_microseconds (re_api env) fw"
  define f1 where "f1 = upstream_rx_packet (rm_counters mac) (pi_source (fp_info p)) (pi_destination (fp_info p)) (fs_len (fp_payload p)) fw"
  define got where "got = owned\<lparr>op_payload := body\<rparr>"
  have up: "rf_upstream env mac (Some p) messages (state, fw) = rf_receive env mac header rx rate (got, at) (state, f1)"
    using msgs own strip
    by (simp add: rf_upstream_def at_def [symmetric] f1_def [symmetric] Let_def got_def)
  have acc: "rf_accepts env mac rx got state = (True, True, accepted)"
    using accepted by (simp add: got_def owned_def body_def)
  define f2 where "f2 = fw_call (UpdateNeighborRx (pi_source (op_info got)) (mh_sequence header) (rf_sinr rx) (rxp_noise_floor_dbm rx)
       (nonneg (now_microseconds (re_api env) f1)) (rxp_duration_microseconds rx) rate) f1"
  define f3 where "f3 = fw_call (UpdateRfSignalTable (rf_signal_table_handle state) (pi_source (op_info got)) 0 (rxp_frequency_hz rx)
       (rxp_rx_power_dbm rx) (rf_sinr rx) (rxp_noise_floor_dbm rx) (receiver_sensitivity env rx)) f2"
  have q: "acts_between fw f3 []"
  proof -
    have "acts_between f1 f2 []" unfolding f2_def using acts_call [of f1 "UpdateNeighborRx _ _ _ _ _ _ _"] by simp
    moreover have "acts_between f2 f3 []" unfolding f3_def using acts_call [of f2 "UpdateRfSignalTable _ _ _ _ _ _ _ _"] by simp
    ultimately show ?thesis unfolding f1_def using acts_quiet_left counters_quiet(1) by blast
  qed
  obtain i state' fw' where h: "rf_hold env mac rx (got, at) (accepted, f3) = (state', fw')" "rf_pending_receptions state' i = Some (got, at)"
    "acts_between f3 fw' [receive_timer mac (i64_saturating_add (now_microseconds (re_api env) f3) (rxp_duration_microseconds rx)) i]"
    using rf_hold_holds [OF timers] by metis
  have "rf_receive env mac header rx rate (got, at) (state, f1) = Some (state', fw')"
    unfolding rf_receive_def prod.case fst_conv Let_def f2_def [symmetric] f3_def [symmetric] acc using h(1) by simp
  moreover have "op_info got = op_info packet" "op_payload got = op_payload packet" "op_controls got = cs"
    by (simp_all add: got_def owned_def body_def)
  ultimately have "rf_upstream env mac (Some p) messages (state, fw) = Some (state', fw') \<and> (\<forall>timer later. \<exists>state'' fw''.
      rf_timed env mac timer EVENT_RECEIVE (slice_of (be_bytes 8 i)) (state', later) = Some (state'', fw'') \<and>
         rf_pending_receptions state'' i = None \<and>
         acts_between later fw'' [SendUpstreamPacket (rm_id mac)
           (Some \<lparr>fp_info = op_info packet, fp_payload = slice_of (op_payload packet)\<rparr>) (messages_of (map control_view cs))])"
    using up receive_timer_delivers [OF h(2), of env mac] by simp
  with hb f(2) down q h(3) show ?thesis by blast
qed

section \<open>A sample\<close>

text \<open>A clock that shows a later time just after a timer is set.\<close>

definition sample_env :: RfEnv where
  "sample_env = \<lparr>re_api = \<lparr>api_answer = (\<lambda>_. 1), api_table_generation = (\<lambda>_ _. 0), api_elapsed = (\<lambda>_. 0), api_now = (\<lambda>calls. if calls \<noteq> [] \<and> is_schedule (last calls) then 5000000 else 1000)\<rparr>,
     re_encode = (\<lambda>n. 8 # be_bytes 8 n), re_decode = (\<lambda>bs. case bs of [] \<Rightarrow> None | _ # ds \<Rightarrow> Some (of_be_bytes ds)),
     re_log10 = (\<lambda>_. 0), re_powf = (\<lambda>_ _. 0)\<rparr>"

text \<open>A document with one table of one row.\<close>

definition sample_xml :: "unit XmlApi" where
  "sample_xml = \<lparr>xml_read_file = (\<lambda>_. Some []), xml_parse = (\<lambda>_. Some ()), xml_children = (\<lambda>_. [()]), xml_is_element = (\<lambda>_. True),
     xml_tag_name = (\<lambda>_. []), xml_has_tag_name = (\<lambda>_ _. True),
     xml_attribute = (\<lambda>_ name. if name = ''sinr'' then Some ''0'' else if name = ''por'' then Some ''100'' else None), xml_text = (\<lambda>_. None)\<rparr>"

definition empty_fw :: Framework where
  "empty_fw = \<lparr>fw_calls = [], fw_table_states = Map.empty\<rparr>"

definition sample_mac :: RfpipeMac where "sample_mac = fst (RfpipeMac_new (re_api sample_env) 7 empty_fw)"
definition sample_start :: "RfState layer" where "sample_start = snd (RfpipeMac_new (re_api sample_env) 7 empty_fw)"

lemma sample_new: "RfpipeMac_new (re_api sample_env) 7 empty_fw = (sample_mac, sample_start)"
  by (simp add: sample_mac_def sample_start_def)

lemma sample_rows: "drop_rows_ok (\<lambda>_. 7) empty_fw"
  by (simp add: drop_rows_ok_def empty_fw_def)

lemma sample_columns: "columns_agree (\<lambda>_. 7) (rm_counters sample_mac)"
  by (simp add: columns_agree_def sample_mac_def RfpipeMac_new_def register_with_drop_labels_def case_prod_unfold Let_def rf_drop_labels_def)

lemma sample_clock: "clock_runs sample_env"
  by (simp add: clock_runs_def sample_env_def)


definition sample_packet :: FfiPacket where
  "sample_packet = \<lparr>fp_info = \<lparr>pi_source = 7, pi_destination = 0xFFFF, pi_priority = 0, pi_creation_time_sec = 0, pi_creation_time_usec = 0\<rparr>,
     fp_payload = slice_of [1, 2, 3]\<rparr>"

lemma sample_allowed: "rf_allowed (RfUpstream (Some sample_packet) (messages_of [])) (fst sample_start)"
  by (simp add: shim_packet_ok_def messages_ok_def messages_of_def messages_readable_def sample_packet_def valid_slice_def slice_of_def)

text \<open>A run: the layer is configured with flow control and a delay, started, and given a packet.\<close>

definition sample_item :: "string \<Rightarrow> string \<Rightarrow> FfiConfigItem" where
  "sample_item name v = \<lparr>ci_name = Some name, ci_values = \<lparr>ca_data = Some [Some v], ca_len = 1\<rparr>\<rparr>"

definition sample_request :: FfiConfigRequest where
  "sample_request = \<lparr>cr_data = Some [sample_item ''pcrcurveuri'' ''x'', sample_item ''flowcontrolenable'' ''on'', sample_item ''delay'' ''1''], cr_len = 3\<rparr>"

lemma sample_request_ok: "request_ok (Some sample_request)"
  by (simp add: request_ok_def sample_request_def sample_item_def item_ok_def)

lemma sample_texts:
  "rf_configuration (Some sample_request) = Some (Some [(''pcrcurveuri'', [''x'']), (''flowcontrolenable'', [''on'']), (''delay'', [''1''])])"
  "parse_bool ''on'' = Some True" "rf_seconds_to_microseconds ''1'' = Some 1000000"
proof -
  have "collect_option rf_config_item [sample_item ''pcrcurveuri'' ''x'', sample_item ''flowcontrolenable'' ''on'', sample_item ''delay'' ''1''] =
    Some (Some [(''pcrcurveuri'', [''x'']), (''flowcontrolenable'', [''on'']), (''delay'', [''1''])])" by code_simp
  then show "rf_configuration (Some sample_request) = Some (Some [(''pcrcurveuri'', [''x'']), (''flowcontrolenable'', [''on'']), (''delay'', [''1''])])"
    by (simp add: rf_configuration_def sample_request_def raw_parts_def)
  show "parse_bool ''on'' = Some True" "rf_seconds_to_microseconds ''1'' = Some 1000000" by code_simp+
qed

lemma sample_curve: "\<exists>curve. PcrCurve_load sample_xml ''x'' = Inr curve"
proof -
  have "parse_f64 ''0'' = Some 0" "parse_f64 ''100'' = Some (f64_of_int 100)" "f64_is_finite 0" "f64_is_finite (f64_of_int 100)"
    "f64_in_range 0 (f64_of_int 100) (f64_of_int 100)" by code_simp+
  then have "\<exists>ps. load_rows sample_xml [()] [] = Inr ps \<and> ps \<noteq> []" by (simp add: sample_xml_def check_bind_def ok_or_def)
  then obtain ps where ps: "load_rows sample_xml [()] [] = Inr ps" "ps \<noteq> []" by blast
  have "parse_unsigned (2 ^ 64) ''0'' = Some 0" by (simp add: parse_unsigned_def digits_value_def is_digit_def digit_value_def byte_between_def)
  then show ?thesis using ps by (simp add: PcrCurve_load_def sample_xml_def check_bind_def ok_or_def)
qed

definition sample_s1 :: "RfState layer" where
  "sample_s1 = the (rf_act sample_env sample_xml sample_mac (RfConfigure (Some sample_request)) sample_start)"
definition sample_s2 :: "RfState layer" where "sample_s2 = the (rf_act sample_env sample_xml sample_mac RfStart sample_s1)"
definition sample_down :: RfAction where "sample_down = RfDownstream (Some sample_packet) (messages_of [])"
definition sample_s3 :: "RfState layer" where "sample_s3 = the (rf_act sample_env sample_xml sample_mac sample_down sample_s2)"

lemma sample_start_fields:
  "rf_queue (fst sample_start) = []" "rf_signal_table_handle (fst sample_start) = 1" "\<not> rf_started (fst sample_start)"
  "rf_flow_control_tokens (fst sample_start) = 10" "rf_jitter_microseconds (fst sample_start) = 0" "rf_current_end_of_transmission (fst sample_start) = 0"
  "rf_next_transmit_wakeup (fst sample_start) = 0" "rf_data_rate_bps (fst sample_start) = 1000000" "rf_radiometric_enabled (fst sample_start) = False"
  by (simp_all add: sample_start_def RfpipeMac_new_def case_prod_unfold Let_def fw_ask_def sample_env_def)

lemma sample_s1_run:
  "rf_act sample_env sample_xml sample_mac (RfConfigure (Some sample_request)) sample_start = Some sample_s1"
  "fst sample_s1 = (fst sample_start)\<lparr>rf_pcr_curve_uri := ''x'', rf_flow_control_enable := True, rf_delay_microseconds := 1000000\<rparr>"
  "\<exists>c. snd sample_s1 = fw_call c (snd sample_start) \<and> \<not> is_schedule c"
proof -
  obtain st fw where s: "sample_start = (st, fw)" by fastforce
  let ?s1 = "st\<lparr>rf_pcr_curve_uri := ''x'', rf_flow_control_enable := True, rf_delay_microseconds := 1000000\<rparr>"
  have items: "rf_configure_items [(''pcrcurveuri'', [''x'']), (''flowcontrolenable'', [''on'']), (''delay'', [''1''])] st = (True, ?s1)"
    by (simp add: rf_configure_item_def sample_texts)
  let ?c = "ConfigureRfSignalTable (rf_signal_table_handle st) (rf_signal_average_all_antennas st) (rf_signal_average_all_frequencies st)"
  have r: "rf_act sample_env sample_xml sample_mac (RfConfigure (Some sample_request)) sample_start = Some (?s1, fw_call ?c fw)"
    using sample_start_fields(2) unfolding s rf_act.simps rf_configure_def prod.case sample_texts(1) bind.bind_lunit option.case items
    by (simp add: fw_ask_def Let_def)
  have e: "sample_s1 = (?s1, fw_call ?c fw)" unfolding sample_s1_def r by (rule option.sel)
  show "rf_act sample_env sample_xml sample_mac (RfConfigure (Some sample_request)) sample_start = Some sample_s1" unfolding r e by (rule refl)
  show "fst sample_s1 = (fst sample_start)\<lparr>rf_pcr_curve_uri := ''x'', rf_flow_control_enable := True, rf_delay_microseconds := 1000000\<rparr>"
    by (simp add: e s)
  show "\<exists>c. snd sample_s1 = fw_call c (snd sample_start) \<and> \<not> is_schedule c" by (intro exI [of _ ?c]) (simp add: e s)
qed

lemma sample_s2_run:
  "rf_act sample_env sample_xml sample_mac RfStart sample_s1 = Some sample_s2"
  "\<exists>curve. fst sample_s2 = (fst sample_s1)\<lparr>rf_pcr_curve := curve, rf_available_tokens := 10, rf_started := True\<rparr>"
  "\<exists>c. snd sample_s2 = fw_call c (snd sample_s1) \<and> \<not> is_schedule c"
proof -
  obtain st fw where s: "sample_s1 = (st, fw)" by fastforce
  have st: "rf_pcr_curve_uri st = ''x''" "rf_flow_control_enable st" "rf_flow_control_tokens st = 10" "rf_radiometric_enabled st = False"
    using sample_s1_run(2) sample_start_fields by (simp_all add: s)
  obtain curve where curve: "PcrCurve_load sample_xml ''x'' = Inr curve" using sample_curve by blast
  obtain b where b: "FlowControlToken_encode \<lparr>fct_tokens = 10\<rparr> = Some b" using flow_control_token.encode_no_panic by (fastforce simp: option.the_def)
  let ?c = "SendUpstreamControl (rm_id sample_mac) (messages_of [control_view (CONTROL_FLOW_CONTROL_TOKEN, b)])"
  let ?s2 = "st\<lparr>rf_pcr_curve := Some curve, rf_available_tokens := 10, rf_started := True\<rparr>"
  have r: "rf_act sample_env sample_xml sample_mac RfStart sample_s1 = Some (?s2, fw_call ?c fw)"
    unfolding s rf_act.simps rf_start_def prod.case st(1) curve sum.case using st(2-4) b by (simp add: rf_send_flow_update_def Let_def)
  have e: "sample_s2 = (?s2, fw_call ?c fw)" unfolding sample_s2_def r by (rule option.sel)
  show "rf_act sample_env sample_xml sample_mac RfStart sample_s1 = Some sample_s2" unfolding r e by (rule refl)
  show "\<exists>curve. fst sample_s2 = (fst sample_s1)\<lparr>rf_pcr_curve := curve, rf_available_tokens := 10, rf_started := True\<rparr>"
    by (intro exI [of _ "Some curve"]) (simp add: e s)
  show "\<exists>c. snd sample_s2 = fw_call c (snd sample_s1) \<and> \<not> is_schedule c" by (intro exI [of _ ?c]) (simp add: e s)
qed

definition early :: "Framework \<Rightarrow> bool" where
  "early fw \<longleftrightarrow> \<not> (fw_calls fw \<noteq> [] \<and> is_schedule (last (fw_calls fw)))"

lemma early_call: "early (fw_call c fw) = (\<not> is_schedule c)"
  by (simp add: early_def fw_call_def)

lemma early_quiet: "acts_between fw fw' [] \<Longrightarrow> early fw \<Longrightarrow> early fw'"
proof -
  have counting: "counting_call c \<Longrightarrow> \<not> is_schedule c" for c by (cases c) simp_all
  assume "acts_between fw fw' []" and e: "early fw"
  then obtain calls where "fw_calls fw' = fw_calls fw @ calls" "\<forall>c \<in> set calls. counting_call c"
    by (auto simp: acts_between_def filter_empty_conv)
  then show ?thesis using counting e by (cases "calls = []") (auto simp: early_def)
qed

lemma sample_now: "now_microseconds (re_api sample_env) fw = (if early fw then 1000 else 5000000)"
  by (simp add: now_microseconds_def unix_microseconds_def sample_env_def early_def i64_from_u64_or_max_def i64_clamp_def i64_min_def i64_max_def)

lemma sample_early: "early (snd sample_s2)"
  using sample_s2_run(3) by (auto simp: early_call)

lemma sample_s2_fields:
  "rf_queue (fst sample_s2) = []" "rf_started (fst sample_s2)" "rf_flow_control_enable (fst sample_s2)" "rf_available_tokens (fst sample_s2) = 10"
  "rf_flow_control_tokens (fst sample_s2) = 10" "rf_jitter_microseconds (fst sample_s2) = 0" "rf_current_end_of_transmission (fst sample_s2) = 0"
  "rf_next_transmit_wakeup (fst sample_s2) = 0" "rf_data_rate_bps (fst sample_s2) = 1000000" "rf_delay_microseconds (fst sample_s2) = 1000000"
  using sample_s2_run(2) sample_s1_run(2) sample_start_fields by auto

definition sample_entry :: PendingTx where
  "sample_entry = \<lparr>tx_packet = \<lparr>op_info = fp_info sample_packet, op_payload = [1, 2, 3], op_controls = []\<rparr>, tx_acquired_at = 1000,
     tx_ready_at = 1001000, tx_duration = 24, tx_data_rate = 1000000\<rparr>"

lemma sample_times: "i64_saturating_add (i64_saturating_add 1000 1000000) 0 = 1001000" "duration_microseconds (Suc (Suc (Suc 0))) 1000000 = 24"
  by (simp_all add: i64_saturating_add_def i64_clamp_def i64_min_def i64_max_def duration_microseconds_def saturating_mul_def)

lemma sample_enqueue:
  assumes "rf_enqueue sample_env sample_mac 1000 (tx_packet sample_entry) (fst sample_s2, fw) = r"
  shows "\<exists>state. r = Some (1001000, (state, fw_call (MaximizeCounter (rm_queue_high_water_counter sample_mac) 1) fw)) \<and>
    rf_queue state = [sample_entry] \<and> rf_started state \<and> rf_flow_control_enable state \<and> rf_next_transmit_wakeup state = 0 \<and>
    rf_current_end_of_transmission state = 0"
  using assms by (auto simp: rf_enqueue_def sample_s2_fields rf_jitter_def sample_times smax_def sample_entry_def Let_def)


lemma sample_s3_run:
  "rf_act sample_env sample_xml sample_mac sample_down sample_s2 = Some sample_s3"
  "rf_queue (fst sample_s3) = [sample_entry] \<and> rf_started (fst sample_s3) \<and> rf_flow_control_enable (fst sample_s3) \<and>
   rf_current_end_of_transmission (fst sample_s3) = 0 \<and> \<not> early (snd sample_s3)"
proof -
  obtain st fw where s: "sample_s2 = (st, fw)" by fastforce
  have st: "rf_started st" "rf_available_tokens st = 10" using sample_s2_fields by (simp_all add: s)
  define p where "p = tx_packet sample_entry"
  have own: "rf_own_packet (Some sample_packet) (messages_of []) = Some (Some p)"
    by (simp add: rf_own_packet_def sample_packet_def slice_of_fields controls_def messages_of_def sample_entry_def p_def)
  define f1 where "f1 = downstream_rx_packet (rm_counters sample_mac) (pi_source (op_info p)) (pi_destination (op_info p)) (length (op_payload p)) fw"
  have "early f1" using early_quiet counters_quiet(2) sample_early unfolding f1_def by (metis s snd_conv)
  then have now: "now_microseconds (re_api sample_env) f1 = 1000" by (simp add: sample_now)
  obtain st' f2 where e: "rf_enqueue sample_env sample_mac 1000 p (st, f1) = Some (1001000, (st', f2))"
    and st': "rf_queue st' = [sample_entry]" "rf_started st'" "rf_flow_control_enable st'" "rf_next_transmit_wakeup st' = 0" "rf_current_end_of_transmission st' = 0"
    using sample_enqueue [OF refl, of f1] by (auto simp: s p_def)
  define f3 where "f3 = fw_call (UpdateQueueMetric 0 (word_of_nat QUEUE_CAPACITY) (u32_or_max (length (rf_queue st'))) (rf_queue_discards st') 0) f2"
  have "rf_downstream sample_env sample_mac (Some sample_packet) (messages_of []) (st, fw) =
      Some (schedule_transmit sample_env sample_mac 1001000 (st', f3))"
    using own st e by (simp add: rf_downstream_def f1_def [symmetric] now f3_def Let_def)
  then have r: "rf_act sample_env sample_xml sample_mac sample_down sample_s2 = Some (schedule_transmit sample_env sample_mac 1001000 (st', f3))"
    by (simp add: sample_down_def s)
  have e3: "sample_s3 = schedule_transmit sample_env sample_mac 1001000 (st', f3)" unfolding sample_s3_def r by (rule option.sel)
  show "rf_act sample_env sample_xml sample_mac sample_down sample_s2 = Some sample_s3" unfolding r e3 by (rule refl)
  show "rf_queue (fst sample_s3) = [sample_entry] \<and> rf_started (fst sample_s3) \<and> rf_flow_control_enable (fst sample_s3) \<and>
      rf_current_end_of_transmission (fst sample_s3) = 0 \<and> \<not> early (snd sample_s3)"
    using st' by (simp add: e3 schedule_transmit_def rf_schedule_def fw_ask_def Let_def rf_add_timer_def early_call)
qed

lemma sample_messages_ok: "messages_ok (messages_of [])" "shim_packet_ok (Some sample_packet)"
  using sample_allowed by simp_all

lemma sample_reach: "rf_reach sample_env sample_xml sample_mac sample_start sample_s2" "rf_reach sample_env sample_xml sample_mac sample_start sample_s3"
proof -
  have "rf_reach sample_env sample_xml sample_mac sample_start sample_s1"
    by (rule reach_act [OF reach_init _ sample_s1_run(1)]) (simp add: sample_request_ok sample_start_fields)
  moreover have "\<not> rf_started (fst sample_s1)" by (simp add: sample_s1_run(2) sample_start_fields)
  ultimately show two: "rf_reach sample_env sample_xml sample_mac sample_start sample_s2"
    by (intro reach_act [OF _ _ sample_s2_run(1)]) simp_all
  show "rf_reach sample_env sample_xml sample_mac sample_start sample_s3"
    by (rule reach_act [OF two _ sample_s3_run(1)]) (simp add: sample_down_def sample_messages_ok)
qed

theorem rfpipe_tokens_conserved_witness:
  "unat (rf_available_tokens (fst sample_s3)) + length (rf_queue (fst sample_s3)) = unat (rf_flow_control_tokens (fst sample_s3)) \<and>
   length (rf_queue (fst sample_s3)) \<le> 255"
  using rfpipe_tokens_conserved [OF sample_new sample_rows sample_columns sample_clock, of sample_xml "fst sample_s3" "snd sample_s3"]
    sample_reach(2) sample_s3_run(2) by simp

lemma sample_run: "\<exists>T. rf_run sample_env sample_xml sample_mac sample_start sample_s3 T"
proof -
  have s1: "rf_allowed (RfConfigure (Some sample_request)) (fst sample_start)" by (simp add: sample_request_ok sample_start_fields)
  have s2: "rf_allowed RfStart (fst sample_s1)" by (simp add: sample_s1_run(2) sample_start_fields)
  have s3: "rf_allowed sample_down (fst sample_s2)" by (simp add: sample_down_def sample_messages_ok)
  have "\<not> is_timer_event (RfConfigure (Some sample_request))" "\<not> is_timer_event RfStart" "\<not> is_timer_event sample_down"
    by (simp_all add: sample_down_def)
  then show ?thesis
    using run_call [OF run_call [OF run_call [OF run_new s1 _ sample_s1_run(1)] s2 _ sample_s2_run(1)] s3 _ sample_s3_run(1)] by blast
qed

lemma sample_gives: "gives_timers sample_env"
  by (simp add: gives_timers_def sample_env_def)

lemma sample_due:
  "sint (tx_ready_at sample_entry) \<le> sint (now_microseconds (re_api sample_env) (snd sample_s3))"
  "sint (rf_current_end_of_transmission (fst sample_s3)) \<le> sint (now_microseconds (re_api sample_env) (snd sample_s3))"
  "length (re_encode sample_env rate) < 2 ^ 16"
  using sample_s3_run(2) by (simp_all add: sample_now sample_entry_def) (simp add: sample_env_def)

theorem rfpipe_waiting_packet_sent_witness:
  "\<exists>T timer state' fw'. rf_run sample_env sample_xml sample_mac sample_start sample_s3 T \<and>
     (timer, transmit_timer sample_mac (rf_next_transmit_wakeup (fst sample_s3))) \<in> T \<and>
     rf_timed sample_env sample_mac timer EVENT_TRANSMIT (slice_of (be_bytes 8 (rf_next_transmit_wakeup (fst sample_s3)))) sample_s3 = Some (state', fw') \<and>
     rf_queue state' = [] \<and> transmits_packet sample_env sample_mac sample_entry (rf_sequence (fst sample_s3)) (snd sample_s3) fw'"
proof -
  obtain T where T: "rf_run sample_env sample_xml sample_mac sample_start (fst sample_s3, snd sample_s3) T" using sample_run by auto
  have q: "rf_queue (fst sample_s3) = [sample_entry]" using sample_s3_run(2) by simp
  from rfpipe_waiting_packet_sent [OF sample_new sample_rows sample_columns sample_clock sample_gives T q sample_due(3)] sample_due(1,2)
  obtain timer state' fw' where "(timer, transmit_timer sample_mac (rf_next_transmit_wakeup (fst sample_s3))) \<in> T"
    "rf_timed sample_env sample_mac timer EVENT_TRANSMIT (slice_of (be_bytes 8 (rf_next_transmit_wakeup (fst sample_s3)))) (fst sample_s3, snd sample_s3) = Some (state', fw')"
    "rf_queue state' = []" "transmits_packet sample_env sample_mac sample_entry (rf_sequence (fst sample_s3)) (snd sample_s3) fw'"
    by (simp only: if_True simp_thms) blast
  with T show ?thesis unfolding prod.collapse by blast
qed

definition sample_fired :: RfAction where
  "sample_fired = RfTimed 1 EVENT_TRANSMIT (slice_of (be_bytes 8 (rf_next_transmit_wakeup (fst sample_s3))))"

lemma sample_fired_sends:
  "\<exists>s. rf_act sample_env sample_xml sample_mac sample_fired sample_s3 = Some s \<and> \<not> idle sample_s3 s"
proof -
  obtain state fw where s: "sample_s3 = (state, fw)" by fastforce
  have q: "rf_queue state = [sample_entry]" "rf_started state" using sample_s3_run(2) by (simp_all add: s)
  define s1 where "s1 = state\<lparr>rf_timers := rf_timers state - {1}, rf_next_transmit_wakeup := 0\<rparr>"
  have inv: "rf_inv (here sample_mac sample_s3) (\<lambda>_. 7) sample_mac sample_s3"
    by (rule rf_reach_inv [OF sample_reach(2) rf_new_inv [OF sample_rows sample_new] sample_columns sample_clock])
  then have core: "rf_core ({}, length (fw_calls fw)) (\<lambda>_. 7) sample_mac (s1, fw)"
    by (simp add: s rf_inv_def rf_core_def s1_def timer_ok_def calls_since_def)
  have s1: "rf_started s1" "rf_queue s1 = sample_entry # []" "rf_sequence s1 = rf_sequence state"
      "rf_current_end_of_transmission s1 = rf_current_end_of_transmission state"
    using q by (simp_all add: s1_def)
  obtain state' fw' where d: "drive_transmit sample_env sample_mac (now_microseconds (re_api sample_env) fw) (s1, fw) = Some (state', fw')"
    using drive_transmit_ok [OF core now_positive [OF sample_clock], of sample_env fw] by (metis prod.exhaust)
  have "transmits_packet sample_env sample_mac sample_entry (rf_sequence state) fw fw'"
    using drive_transmit_sends [OF core s1(1,2) _ _ sample_due(3) d] sample_due(1,2) s1(3,4) by (simp add: s)
  then obtain cs where cs: "acts_between fw fw' cs" "list_ex is_transmission cs"
    unfolding transmits_packet_def by (force simp: sent_call_def)
  have "\<not> idle sample_s3 (state', fw')"
    using cs by (auto simp: idle_def s acts_between_def)
  moreover have "rf_act sample_env sample_xml sample_mac sample_fired sample_s3 = Some (state', fw')"
    using d rf_timed_fires [of sample_env sample_mac 1 state fw] by (simp add: sample_fired_def s s1_def)
  ultimately show ?thesis by blast
qed

theorem rfpipe_keeps_rate_witness:
  "\<exists>s. rf_act sample_env sample_xml sample_mac sample_fired sample_s3 = Some s \<and>
     rf_current_end_of_transmission (fst s) = 5000024 \<and> rf_queue (fst s) = [] \<and>
     transmits_packet sample_env sample_mac sample_entry (rf_sequence (fst sample_s3)) (snd sample_s3) (snd s)"
proof -
  have ok: "rf_allowed sample_fired (fst sample_s3)" by (simp add: sample_fired_def valid_slice_def slice_of_def)
  obtain s where s: "rf_act sample_env sample_xml sample_mac sample_fired sample_s3 = Some s" "\<not> idle sample_s3 s"
    using sample_fired_sends by blast
  have short: "\<forall>rate. length (re_encode sample_env rate) < 2 ^ 16" using sample_due(3) by blast
  obtain e arrived where e: "list_all (arrives sample_env sample_mac sample_fired sample_s3) arrived"
      "line_with arrived (fst sample_s3) = e # rf_queue (fst s)"
      "rf_current_end_of_transmission (fst s) = i64_saturating_add (rf_clock sample_env sample_mac sample_fired (snd sample_s3)) (tx_duration e)"
      "transmits_packet sample_env sample_mac e (rf_sequence (fst sample_s3)) (snd sample_s3) (snd s)"
    using rfpipe_keeps_rate [OF sample_new sample_rows sample_columns sample_clock short sample_reach(2) ok s(1)] s(2) by blast
  have "arrived = []" using e(1) by (cases arrived) (simp_all add: sample_fired_def)
  then have q: "e = sample_entry" "rf_queue (fst s) = []" using e(2) sample_s3_run(2) by (simp_all add: line_with_def)
  have "rf_clock sample_env sample_mac sample_fired (snd sample_s3) = 5000000"
    using sample_s3_run(2) by (simp add: sample_fired_def sample_now)
  then have "rf_current_end_of_transmission (fst s) = 5000024"
    using e(3) by (simp add: q(1) sample_entry_def i64_saturating_add_def i64_clamp_def i64_min_def i64_max_def)
  with s(1) q e(4) show ?thesis by blast
qed


text \<open>A reception at the node itself.\<close>

definition sample_rx :: RxProperties where
  "sample_rx = \<lparr>rxp_frequency_hz = 0, rxp_bandwidth_hz = 0, rxp_rx_power_dbm = 0, rxp_noise_floor_dbm = 0, rxp_tx_time_microseconds = 0,
     rxp_propagation_microseconds = 0, rxp_duration_microseconds = 24, rxp_antenna_index = 0, rxp_sub_id = 0, rxp_signal_in_noise = False\<rparr>"

definition sample_reception :: "(u32 \<times> byte list) list" where
  "sample_reception = [(CONTROL_MODEL_HEADER, the (ModelHeader_encode (rf_header 0 1000000))), (CONTROL_RX_PROPERTIES, the (RxProperties_encode sample_rx))]"

lemma sample_found:
  "find_header (map control_view sample_reception) = Some (Some (rf_header 0 1000000))"
  "find_rx_properties (map control_view sample_reception) = Some (Some sample_rx)"
  "collect_option own_control (map control_view sample_reception) = Some (Some sample_reception)"
proof -
  define hb where "hb = the (ModelHeader_encode (rf_header 0 1000000))"
  define rb where "rb = the (RxProperties_encode sample_rx)"
  have h: "ModelHeader_encode (rf_header 0 1000000) = Some hb" "length hb = 24" "ModelHeader_decode hb = Some (Some (rf_header 0 1000000))"
    and r: "RxProperties_encode sample_rx = Some rb" "length rb = 63" "RxProperties_decode rb = Some (Some sample_rx)"
    using model_header.roundtrip [of "rf_header 0 1000000"] rx_properties.roundtrip [of sample_rx]
    by (simp_all add: hb_def rb_def ModelHeader_bytes RxProperties_bytes)
  have rec: "sample_reception = [(CONTROL_MODEL_HEADER, hb), (CONTROL_RX_PROPERTIES, rb)]" by (simp add: sample_reception_def h(1) r(1))
  show "find_header (map control_view sample_reception) = Some (Some (rf_header 0 1000000))"
    using h by (simp add: rec find_header_def control_view_def slice_of_fields)
  show "find_rx_properties (map control_view sample_reception) = Some (Some sample_rx)"
    using r by (simp add: rec find_rx_properties_def control_view_def slice_of_fields CONTROL_MODEL_HEADER_def CONTROL_RX_PROPERTIES_def)
  show "collect_option own_control (map control_view sample_reception) = Some (Some sample_reception)"
    using h(2) r(2) by (simp add: rec own_control_def control_view_def slice_of_fields)
qed

lemma sample_accepts:
  "\<exists>accepted. rf_accepts sample_env sample_mac sample_rx \<lparr>op_info = fp_info sample_packet, op_payload = op_payload (tx_packet sample_entry), op_controls = sample_reception\<rparr>
     (fst sample_start) = (True, True, accepted)"
proof -
  have "rf_pcr_curve (fst sample_start) = None" "rf_random_state (fst sample_start) = 0x9E3779B97F4A7C12"
    by (simp_all add: sample_start_def RfpipeMac_new_def case_prod_unfold Let_def)
  moreover have "f64_le (fst (rf_random_unit st)) (f64_of_int 1)" if "rf_random_state st = 0x9E3779B97F4A7C12" for st
  proof -
    have "fst (rf_random_unit st) = f64_div (f64_of_int 7744336967569333) (f64_of_int (2 ^ 53))"
      using that by (simp add: rf_random_unit_def Let_def)
    moreover have "f64_le (f64_div (f64_of_int 7744336967569333) (f64_of_int (2 ^ 53))) (f64_of_int 1)" by code_simp
    ultimately show ?thesis by simp
  qed
  ultimately show ?thesis
    by (auto simp: rf_accepts_def Let_def case_prod_unfold sample_packet_def RF_BROADCAST_NEM_def)
qed

theorem rfpipe_link_witness:
  "\<exists>fs' p views i state' fw' held. rf_send_packet sample_env sample_mac (tx_packet sample_entry) (rf_header 0 1000000) 24 1000 empty_fw = Some fs' \<and>
    acts_between empty_fw fs' [SendDownstreamPacket (rm_id sample_mac) (Some p) views] \<and>
    rf_upstream sample_env sample_mac (Some p) (messages_of (map control_view sample_reception)) sample_start = Some (state', fw') \<and>
    acts_between held fw' [receive_timer sample_mac (i64_saturating_add (now_microseconds (re_api sample_env) held) 24) i] \<and>
    (\<forall>timer later. \<exists>state'' fw''. rf_timed sample_env sample_mac timer EVENT_RECEIVE (slice_of (be_bytes 8 i)) (state', later) = Some (state'', fw'') \<and>
       rf_pending_receptions state'' i = None \<and>
       acts_between later fw'' [SendUpstreamPacket (rm_id sample_mac) (Some sample_packet) (messages_of (map control_view sample_reception))])"
proof -
  let ?ms = "map control_view sample_reception" and ?packet = "tx_packet sample_entry"
  obtain accepted where acc: "rf_accepts sample_env sample_mac sample_rx \<lparr>op_info = op_info ?packet, op_payload = op_payload ?packet, op_controls = sample_reception\<rparr>
     (fst sample_start) = (True, True, accepted)" using sample_accepts by (auto simp: sample_entry_def)
  obtain fs' where sent: "rf_send_packet sample_env sample_mac ?packet (rf_header 0 1000000) 24 1000 empty_fw = Some fs'"
    using send_packet_after [OF sample_rows, of sample_env sample_mac ?packet "rf_header 0 1000000" 24 1000] by blast
  have rate: "(1000000 :: u64) \<noteq> 0" "re_decode sample_env (re_encode sample_env 1000000) = Some 1000000"
    "re_encode sample_env 1000000 \<noteq> []" "length (re_encode sample_env 1000000) < 2 ^ 16"
    "length (op_payload ?packet) + length (re_encode sample_env 1000000) + 2 \<le> 64 * 1024 * 1024"
    "gives_timers sample_env" "mh_registration_id (rf_header 0 1000000) = MAC_REGISTRATION_RFPIPE"
    using sample_gives by (simp_all add: sample_env_def sample_entry_def rf_header_def)
  have c: "controls (messages_of ?ms) = Some ?ms" by (simp add: controls_def messages_of_def sample_reception_def)
  have p: "\<lparr>fp_info = op_info ?packet, fp_payload = slice_of (op_payload ?packet)\<rparr> = sample_packet" "rxp_duration_microseconds sample_rx = 24"
    by (simp_all add: sample_entry_def sample_packet_def sample_rx_def)
  note link = rfpipe_link [OF sent rate(1-6) c sample_found(1) rate(7) sample_found(2,3) acc, of "snd sample_start", unfolded p prod.collapse]
  show ?thesis using sent link by fast
qed

end
