(* ===== verification/Spec2Isabelle.thy ===== *)
theory Spec2Isabelle
  imports Wire_Mimo Tdma_Link Flow_Control Timer_Service Boundary_Message Ota_Link Event_Service Nem_Queued_Layer Noise_Energy
    Comm_Effect_Link Queue_Metrics Neighbor_Metrics Nem_Runtime Rf_Pipe_Link
begin

text \<open>
  A model of the Rust implementation of EMANE, the extendable mobile ad-hoc network emulator, and
  proofs about it. The emulator is a set of services (\<^verbatim>\<open>rust/emane-core\<close>), a binary
  interface between the services and the radio models (\<^verbatim>\<open>rust/emane-plugin-api\<close>) and the
  radio models themselves (\<^verbatim>\<open>rust/plugins\<close>). A node is a stack of layers: a transport hands
  packets down to a radio model, which queues, fragments and schedules them and hands frames to the
  physical layer; the NEM manager carries what leaves the bottom of the stack to the other nodes, and
  frames come back up with reception properties as control payloads. Layers run on callbacks: packets
  from both sides, timers and events.

  Layout of the development, from the bottom up:
  \<^item> \<open>Emane_Prelude\<close>: machine types, results that may panic, slices, checked and saturating
    arithmetic, searches, big-endian bytes, the classification of binary64 and binary32 bit patterns;
    \<open>Ieee_F64\<close>, \<open>Ieee_F32\<close>: exact arithmetic on bit patterns (round to nearest even);
    \<open>Rust_Text\<close>: the string and number parsing the configuration uses; \<open>Plugin_Types\<close>: the structs of
    the plugin interface.
  \<^item> \<open>Wire_Codec\<close>, \<open>Wire_Control\<close>, \<open>Wire_Lists\<close>, \<open>Wire_Mimo\<close>: the control payloads of
    \<^verbatim>\<open>emane-plugin-api/src/lib.rs\<close>, one record and one \<open>encode\<close>/\<open>decode\<close> pair per struct. The
    locales \<open>wire_codec\<close>, \<open>canonical_codec\<close>, \<open>fixed_entry\<close>, \<open>entry_reader\<close> and \<open>exact_reader\<close> state
    what an encoder and a decoder promise; every payload interprets one of them. Shown: no decoder
    panics on any input, every encoding is decoded to its value, and for all formats without reserved
    bytes a value has exactly one encoding.
  \<^item> \<open>Layer_Counters\<close>: the counters and packet tables every layer keeps (\<^verbatim>\<open>emane-plugin-api\<close>), and the
    framework as the log of calls made to it; the relation \<open>acts_between\<close> says which calls other than
    counting a handler made. Shown: the rows of a table are exact for any interleaving of layers.
  \<^item> \<open>Tdma_Schedule\<close>, \<open>Tdma_State\<close>, \<open>Tdma_Transmit\<close>, \<open>Tdma_Receive\<close>, \<open>Tdma_Mac\<close>: the TDMA radio
    model, \<^verbatim>\<open>plugins/tdma/src/lib.rs\<close> and \<^verbatim>\<open>plugins/tdma/src/pcr.rs\<close>. The state behind the mutex
    is the record \<open>State\<close>; every callback is one function on it that may panic; calls of the framework
    are appended to the log \<open>effects\<close>, and what the framework answers comes from the record \<open>Env\<close>.
    Shown: schedules are parsed to well-formed slot tables, slot by slot; slots tile time and the next
    transmit slot is found; frames fit their slot; nothing panics in any state reached from a start with
    empty queues by packets, timers, events and stops, and tokens are conserved there, until the next start, which
    grants every token again (\<open>restart_grants_all_tokens\<close>); fragments are reassembled in any order; the
    earliest reception of a slot wins; a stopped model is silent. \<open>Fragments\<close> holds the reassembly lemmas the
    TDMA model and the over-the-air manager share. \<open>Tdma_Link\<close>: sender and receiver together: the
    transmissions \<open>take_item\<close> makes of a packet (\<open>packet_items\<close>) are put together by the receiver, whose messages and
    checks for old partial packets are one sequence (\<open>receive_all\<close>).
  \<^item> \<open>Rf_Pipe\<close>, \<open>Rf_Pipe_Link\<close>: the RF pipe radio model, \<^verbatim>\<open>plugins/rfpipe/src/lib.rs\<close> and
    \<^verbatim>\<open>plugins/rfpipe/src/pcr.rs\<close>: completion curve, queue, flow control, held receptions, all handlers, and
    their reachable states as the inductive predicate \<open>rf_reach\<close>, in which a running layer may be
    configured with what the NEM manager lets it change; \<open>rf_run\<close> adds the timers that are outstanding: given
    by the framework, not fired and not cancelled. Shown: no call panics; tokens are conserved; a packet that
    waits has an outstanding timer and is sent when it fires; every transmission starts by the clock after
    the one before has ended and takes the time of its bits at the data rate; what one node sends another one
    holds for the duration of the reception and hands up unchanged and once.
  \<^item> \<open>Comm_Effect_Filter\<close>, \<open>Comm_Effect\<close>, \<open>Comm_Effect_Link\<close>: the communication effect shim,
    \<^verbatim>\<open>plugins/commeffect-shim/src/lib.rs\<close>: filters and their file, effects, handlers. Shown: a filter
    matches what its rule says of an IPv4 packet; under an effect a packet is delivered in as many copies
    as the effect gives, paced and delayed as it says; no call panics.
  \<^item> \<open>Shim_Layers\<close>: the bypass layers, the dummy MAC, the test shim and the timing analysis shim
    (\<^verbatim>\<open>plugins/bypass-mac\<close>, \<^verbatim>\<open>bypass-phy\<close>, \<^verbatim>\<open>dummy-mac\<close>, \<^verbatim>\<open>phy-api-test-shim\<close>,
    \<^verbatim>\<open>timing-analysis-shim\<close>). The locale \<open>header_layer\<close> states what a layer that adds a header going down
    and takes it off going up promises, \<open>header_stack\<close> composes two of them; both are interpreted on the
    layers.
  \<^item> \<open>Nem_Ota\<close>, \<open>Nem_Runtime\<close>: of \<^verbatim>\<open>emane-core/src/nem_manager.rs\<close> the framing of packets over the air,
    the routes between layers, boundaries, local nodes and the over-the-air manager, the capture of
    calls and the dispatch of timers. Shown: a packet and its transmission reach the lowest layer of a
    remote node; local nodes share the medium; a boundary loses packets with native control messages.
  \<^item> \<open>Nem_Queued_Layer\<close>: \<^verbatim>\<open>emane-core/src/nem_queued_layer.rs\<close>, the queue of a layer and its worker as
    interleaved atomic steps: tasks run once and in order, a stop returns, and what a stop leaves in the
    queue. \<open>layer_submit\<close> is how the NEM manager hands a call to a layer.
  \<^item> \<open>Ota_Manager\<close>, \<open>Ota_Link\<close>: \<^verbatim>\<open>emane-core/src/ota_manager.rs\<close>: sending in parts, reassembly, expiry, users
    and statistics. Shown: a message is delivered whole and once; no datagram panics.
  \<^item> \<open>Boundary_Message\<close>: \<^verbatim>\<open>emane-core/src/boundary_message_manager.rs\<close>: framing and the receive loops; a
    stream delivers its messages however it is cut.
  \<^item> \<open>Event_Service\<close>: \<^verbatim>\<open>emane-core/src/event_service.rs\<close>: registry, routing and the receive loop.
  \<^item> \<open>Noise_Recorder\<close>, \<open>Noise_Energy\<close>: \<^verbatim>\<open>emane-core/src/noise_recorder.rs\<close>, refined to a specification of
    the energy in every time bin; sums of times panic beyond 64 bits. The refinement holds without
    sub-bands while receptions stay within the span of the wheel, and what happens beyond it is stated apart.
  \<^item> \<open>Queue_Metrics\<close>, \<open>Neighbor_Metrics\<close>: the two metric managers of \<^verbatim>\<open>emane-core\<close>; queue reports are exact
    for any sequence of calls; the counts of a neighbor are exact for any sequence of frames, reports and
    status reports that does not remove its row.
  \<^item> \<open>Flow_Control\<close>: \<^verbatim>\<open>emane-core/src/flow_control_manager.rs\<close> and
    \<^verbatim>\<open>emane-core/src/flow_control_client.rs\<close>: the token bound, the handshake, what is handed out, and when the
    shadow count wraps.
  \<^item> \<open>Timer_Service\<close>: \<^verbatim>\<open>emane-core/src/timer_service.rs\<close> as a state machine of the worker's
    critical sections interleaved with calls from other threads: timers do not fire early or out of
    order, a cancelled timer never fires again, its free callback runs exactly once, no wake-up is
    lost.

  Recursion: all loops of the modelled code are structural recursion or have a termination proof
  (\<open>take_transmission\<close> on the number of queued packets, \<open>transmit_loop\<close> on what is queued and the room
  left in the slot, \<open>drain_received\<close> on the bytes buffered, \<open>send_parts\<close> on the bytes left to send); no
  fuel is used. A receive loop is one function per turn, and its turns are the steps of the model.

  Concurrency: where the code takes a lock several times, as the timer service and the queued layer do, each
  critical section is a step and the properties hold for every interleaving. Handlers of a radio model run one after
  the other on the queue of their layer, so each is one step.

  What is abstracted: \<open>usize\<close> values are natural numbers with the 64-bit bound written where the code
  checks it; the memory behind a pointer handed over the C interface is an explicit value, and the
  hypotheses say where it has to be there; hash maps are maps or association lists, and the order in which
  one is walked is a parameter; the binary heap of the timer service is the list of its entries in pop
  order. Parameters are also the protobuf codecs, the XML library, the file system, what sockets return, the
  answers of the statistics service, the clock (which may depend on all calls made so far), random
  numbers drawn outside, and \<open>log10\<close> and \<open>powf\<close>; where a property needs a codec to decode what it
  encodes, that is a hypothesis of it.

  Not modelled: of the NEM manager, the assembly and lifecycle of the stacks and the built-in physical layer with
  its antennas, propagation and spectrum monitor, which rest on transcendental functions over long
  chains of floating point steps; the bent pipe and 802.11abg radio models; the registries of the statistics
  service, the control port and the formatters; XML and native configuration; the raw, virtual and
  Ethernet transports, the agents, the event generators and the programs, which are input and output around
  what is modelled; the C function tables. The manifest lists every part.
\<close>

end
